(* ===== verification/Prelude.thy ===== *)
theory Prelude
  imports Main "HOL-Library.Word" "HOL-Library.Monad_Syntax"
begin

unbundle bit_operations_syntax

text \<open>
  What every component shares: the width of the C integers, the error codes and the
  descriptor constants of openusb.h.in, reads and writes of memory objects that are
  checked against the object's bounds, and the rules that let the simplifier run the
  option monad.

  Conventions of the whole development.
  \<^item> A C function is a HOL function whose result is an option. None means that the C
    code has no defined behaviour at that point: it reads or writes outside an allocated
    object, uses an object that has been freed, or calls a null function pointer. Some r
    is a normal return, and the library's own error codes are ordinary values of r. So a
    statement of the form f x = Some r says at once that f is memory safe on x and what
    it returns.
  \<^item> uint8_t, uint16_t, uint32_t and uint64_t are words of that width, and + and - wrap as
    they do in C. A C int that only ever holds a return code or a small count is int.
  \<^item> A pointer into a byte buffer that the code only moves forward is the suffix of the
    buffer from that position; the length variable next to it is a separate word, as in
    the code, and nothing ties the two together except the code's own checks.
  \<^item> The outcome of calloc is a parameter: a predicate on the requested size.
\<close>

type_synonym u8 = "8 word"
type_synonym u16 = "16 word"
type_synonym u32 = "32 word"
type_synonym u64 = "64 word"

named_theorems opt_simps "rules that run the option monad"

section \<open>Error codes and descriptor constants of openusb.h.in\<close>

definition OPENUSB_SUCCESS :: int where "OPENUSB_SUCCESS = 0"
definition OPENUSB_PLATFORM_FAILURE :: int where "OPENUSB_PLATFORM_FAILURE = -1"
definition OPENUSB_NO_RESOURCES :: int where "OPENUSB_NO_RESOURCES = -2"
definition OPENUSB_NO_BANDWIDTH :: int where "OPENUSB_NO_BANDWIDTH = -3"
definition OPENUSB_NOT_SUPPORTED :: int where "OPENUSB_NOT_SUPPORTED = -4"
definition OPENUSB_HC_HARDWARE_ERROR :: int where "OPENUSB_HC_HARDWARE_ERROR = -5"
definition OPENUSB_INVALID_PERM :: int where "OPENUSB_INVALID_PERM = -6"
definition OPENUSB_BUSY :: int where "OPENUSB_BUSY = -7"
definition OPENUSB_BADARG :: int where "OPENUSB_BADARG = -8"
definition OPENUSB_NOACCESS :: int where "OPENUSB_NOACCESS = -9"
definition OPENUSB_PARSE_ERROR :: int where "OPENUSB_PARSE_ERROR = -10"
definition OPENUSB_UNKNOWN_DEVICE :: int where "OPENUSB_UNKNOWN_DEVICE = -11"
definition OPENUSB_INVALID_HANDLE :: int where "OPENUSB_INVALID_HANDLE = -12"
definition OPENUSB_SYS_FUNC_FAILURE :: int where "OPENUSB_SYS_FUNC_FAILURE = -13"
definition OPENUSB_NULL_LIST :: int where "OPENUSB_NULL_LIST = -14"
definition OPENUSB_IO_STALL :: int where "OPENUSB_IO_STALL = -50"
definition OPENUSB_IO_CRC_ERROR :: int where "OPENUSB_IO_CRC_ERROR = -51"
definition OPENUSB_IO_DEVICE_HUNG :: int where "OPENUSB_IO_DEVICE_HUNG = -52"
definition OPENUSB_IO_REQ_TOO_BIG :: int where "OPENUSB_IO_REQ_TOO_BIG = -53"
definition OPENUSB_IO_BIT_STUFFING :: int where "OPENUSB_IO_BIT_STUFFING = -54"
definition OPENUSB_IO_UNEXPECTED_PID :: int where "OPENUSB_IO_UNEXPECTED_PID = -55"
definition OPENUSB_IO_DATA_OVERRUN :: int where "OPENUSB_IO_DATA_OVERRUN = -56"
definition OPENUSB_IO_DATA_UNDERRUN :: int where "OPENUSB_IO_DATA_UNDERRUN = -57"
definition OPENUSB_IO_BUFFER_OVERRUN :: int where "OPENUSB_IO_BUFFER_OVERRUN = -58"
definition OPENUSB_IO_BUFFER_UNDERRUN :: int where "OPENUSB_IO_BUFFER_UNDERRUN = -59"
definition OPENUSB_IO_PID_CHECK_FAILURE :: int where "OPENUSB_IO_PID_CHECK_FAILURE = -60"
definition OPENUSB_IO_DATA_TOGGLE_MISMATCH :: int where "OPENUSB_IO_DATA_TOGGLE_MISMATCH = -61"
definition OPENUSB_IO_TIMEOUT :: int where "OPENUSB_IO_TIMEOUT = -62"
definition OPENUSB_IO_CANCELED :: int where "OPENUSB_IO_CANCELED = -63"

text \<open>The codes are used by value everywhere, so they unfold like C macros do.\<close>

lemmas error_codes =
  OPENUSB_SUCCESS_def OPENUSB_PLATFORM_FAILURE_def OPENUSB_NO_RESOURCES_def
  OPENUSB_NO_BANDWIDTH_def OPENUSB_NOT_SUPPORTED_def OPENUSB_HC_HARDWARE_ERROR_def
  OPENUSB_INVALID_PERM_def OPENUSB_BUSY_def OPENUSB_BADARG_def OPENUSB_NOACCESS_def
  OPENUSB_PARSE_ERROR_def OPENUSB_UNKNOWN_DEVICE_def OPENUSB_INVALID_HANDLE_def
  OPENUSB_SYS_FUNC_FAILURE_def OPENUSB_NULL_LIST_def OPENUSB_IO_STALL_def
  OPENUSB_IO_CRC_ERROR_def OPENUSB_IO_DEVICE_HUNG_def OPENUSB_IO_REQ_TOO_BIG_def
  OPENUSB_IO_BIT_STUFFING_def OPENUSB_IO_UNEXPECTED_PID_def OPENUSB_IO_DATA_OVERRUN_def
  OPENUSB_IO_DATA_UNDERRUN_def OPENUSB_IO_BUFFER_OVERRUN_def OPENUSB_IO_BUFFER_UNDERRUN_def
  OPENUSB_IO_PID_CHECK_FAILURE_def OPENUSB_IO_DATA_TOGGLE_MISMATCH_def
  OPENUSB_IO_TIMEOUT_def OPENUSB_IO_CANCELED_def

definition USB_DESC_TYPE_DEVICE :: u8 where "USB_DESC_TYPE_DEVICE = 1"
definition USB_DESC_TYPE_CONFIG :: u8 where "USB_DESC_TYPE_CONFIG = 2"
definition USB_DESC_TYPE_STRING :: u8 where "USB_DESC_TYPE_STRING = 3"
definition USB_DESC_TYPE_INTERFACE :: u8 where "USB_DESC_TYPE_INTERFACE = 4"
definition USB_DESC_TYPE_ENDPOINT :: u8 where "USB_DESC_TYPE_ENDPOINT = 5"

lemmas desc_types =
  USB_DESC_TYPE_DEVICE_def USB_DESC_TYPE_CONFIG_def USB_DESC_TYPE_STRING_def
  USB_DESC_TYPE_INTERFACE_def USB_DESC_TYPE_ENDPOINT_def

section \<open>Bounded access to memory objects\<close>

definition rd :: "'a list \<Rightarrow> nat \<Rightarrow> 'a option" where
  "rd bs i = (if i < length bs then Some (bs ! i) else None)"

definition wr :: "'a list \<Rightarrow> nat \<Rightarrow> 'a \<Rightarrow> 'a list option" where
  "wr bs i v = (if i < length bs then Some (bs[i := v]) else None)"

text \<open>memcpy of n bytes out of, or into, an object.\<close>

definition rdn :: "'a list \<Rightarrow> nat \<Rightarrow> nat \<Rightarrow> 'a list option" where
  "rdn bs i n = (if i + n \<le> length bs then Some (take n (drop i bs)) else None)"

definition wrn :: "'a list \<Rightarrow> nat \<Rightarrow> 'a list \<Rightarrow> 'a list option" where
  "wrn bs i vs = (if i + length vs \<le> length bs
     then Some (take i bs @ vs @ drop (i + length vs) bs) else None)"

lemma rd_Some [opt_simps]: "i < length bs \<Longrightarrow> rd bs i = Some (bs ! i)"
  by (simp add: rd_def)

lemma rd_eq_Some_iff: "rd bs i = Some v \<longleftrightarrow> i < length bs \<and> v = bs ! i"
  by (auto simp: rd_def)

lemma rd_eq_None_iff: "rd bs i = None \<longleftrightarrow> length bs \<le> i"
  by (auto simp: rd_def)

lemma wr_Some [opt_simps]: "i < length bs \<Longrightarrow> wr bs i v = Some (bs[i := v])"
  by (simp add: wr_def)

lemma wr_eq_Some_iff: "wr bs i v = Some bs' \<longleftrightarrow> i < length bs \<and> bs' = bs[i := v]"
  by (auto simp: wr_def)

lemma rdn_Some [opt_simps]: "i + n \<le> length bs \<Longrightarrow> rdn bs i n = Some (take n (drop i bs))"
  by (simp add: rdn_def)

lemma wrn_Some [opt_simps]:
  "i + length vs \<le> length bs \<Longrightarrow> wrn bs i vs = Some (take i bs @ vs @ drop (i + length vs) bs)"
  by (simp add: wrn_def)

lemma wrn_eq_Some_iff:
  "wrn bs i vs = Some bs' \<longleftrightarrow>
     i + length vs \<le> length bs \<and> bs' = take i bs @ vs @ drop (i + length vs) bs"
  by (auto simp: wrn_def)

lemma length_wrn: "wrn bs i vs = Some bs' \<Longrightarrow> length bs' = length bs"
  by (auto simp: wrn_eq_Some_iff)

lemma rdn_wrn_same: "wrn bs i vs = Some bs' \<Longrightarrow> rdn bs' i (length vs) = Some vs"
  by (auto simp: wrn_eq_Some_iff rdn_def)

lemma rdn_wrn_before:
  assumes "wrn bs i vs = Some bs'" and "j + n \<le> i"
  shows "rdn bs' j n = rdn bs j n"
proof -
  from assms have b: "i + length vs \<le> length bs"
    and e: "bs' = take i bs @ vs @ drop (i + length vs) bs"
    by (auto simp: wrn_eq_Some_iff)
  have "take n (drop j bs') = take n (drop j (take i bs))"
    using b assms(2) by (simp add: e)
  also have "\<dots> = take n (drop j bs)"
    using assms(2) by (simp add: drop_take)
  finally show ?thesis using b assms(2) by (simp add: rdn_def e)
qed

section \<open>Owned pointers\<close>

text \<open>
  A pointer field that owns a heap object: null, the object, or what is left after the
  object was freed while the field kept its value.
\<close>

datatype 'a cptr = Null | Ptr 'a | Dangling

definition deref :: "'a cptr \<Rightarrow> 'a option" where
  "deref p = (case p of Ptr x \<Rightarrow> Some x | _ \<Rightarrow> None)"

text \<open>free(p): freeing a null pointer does nothing, freeing an object twice is undefined.\<close>

definition free_ptr :: "'a cptr \<Rightarrow> unit option" where
  "free_ptr p = (case p of Dangling \<Rightarrow> None | _ \<Rightarrow> Some ())"

lemma deref_simps [simp]: "deref (Ptr x) = Some x" "deref Null = None" "deref Dangling = None"
  by (simp_all add: deref_def)

lemma free_ptr_simps [simp]:
  "free_ptr (Ptr x) = Some ()" "free_ptr Null = Some ()" "free_ptr Dangling = None"
  by (simp_all add: free_ptr_def)

section \<open>Loops with an early return\<close>

text \<open>
  A loop body either hands on the state for the next round or returns from the function.
\<close>

datatype ('s, 'r) ctl = Next 's | Return 'r

section \<open>Byte order\<close>

text \<open>
  The parameter be is True on a big-endian host. le16 and le32 are the shifts and ors of
  the code; st16, st32 are stores of a C integer through a pointer; ld16, ld32 are loads.
\<close>

definition le16 :: "u8 \<Rightarrow> u8 \<Rightarrow> u16" where
  "le16 b0 b1 = push_bit 8 (ucast b1) OR ucast b0"

definition le32 :: "u8 \<Rightarrow> u8 \<Rightarrow> u8 \<Rightarrow> u8 \<Rightarrow> u32" where
  "le32 b0 b1 b2 b3 =
     push_bit 24 (ucast b3) OR push_bit 16 (ucast b2) OR push_bit 8 (ucast b1) OR ucast b0"

definition st16 :: "bool \<Rightarrow> u16 \<Rightarrow> u8 list" where
  "st16 be w = (let lo = ucast w; hi = ucast (drop_bit 8 w) in if be then [hi, lo] else [lo, hi])"

definition st32 :: "bool \<Rightarrow> u32 \<Rightarrow> u8 list" where
  "st32 be w = (let b0 = ucast w; b1 = ucast (drop_bit 8 w); b2 = ucast (drop_bit 16 w);
      b3 = ucast (drop_bit 24 w) in if be then [b3, b2, b1, b0] else [b0, b1, b2, b3])"

definition ld16 :: "bool \<Rightarrow> u8 list \<Rightarrow> u16" where
  "ld16 be bs = (if be then le16 (bs ! 1) (bs ! 0) else le16 (bs ! 0) (bs ! 1))"

definition ld32 :: "bool \<Rightarrow> u8 list \<Rightarrow> u32" where
  "ld32 be bs = (if be then le32 (bs ! 3) (bs ! 2) (bs ! 1) (bs ! 0)
     else le32 (bs ! 0) (bs ! 1) (bs ! 2) (bs ! 3))"

lemma length_st16 [simp]: "length (st16 be w) = 2"
  by (simp add: st16_def Let_def)

lemma length_st32 [simp]: "length (st32 be w) = 4"
  by (simp add: st32_def Let_def)

lemma le16_of_bytes [simp]: "le16 (ucast w) (ucast (drop_bit 8 w)) = w"
  by (rule bit_word_eqI)
     (auto simp: le16_def bit_or_iff bit_push_bit_iff bit_ucast_iff bit_drop_bit_eq
       dest: bit_imp_le_length)

lemma le32_of_bytes [simp]:
  "le32 (ucast w) (ucast (drop_bit 8 w)) (ucast (drop_bit 16 w)) (ucast (drop_bit 24 w)) = w"
proof (rule bit_word_eqI)
  fix n assume "n < LENGTH(32)"
  then consider "n < 8" | "8 \<le> n" "n < 16" | "16 \<le> n" "n < 24" | "24 \<le> n" "n < 32"
    by fastforce
  then show "bit (le32 (ucast w) (ucast (drop_bit 8 w)) (ucast (drop_bit 16 w))
      (ucast (drop_bit 24 w))) n = bit w n"
    by cases
      (auto simp: le32_def bit_or_iff bit_push_bit_iff bit_ucast_iff bit_drop_bit_eq)
qed

lemma ld16_st16 [simp]: "ld16 be (st16 be w) = w"
  by (simp add: ld16_def st16_def Let_def)

lemma ld32_st32 [simp]: "ld32 be (st32 be w) = w"
  by (simp add: ld32_def st32_def Let_def)

lemma bytes_of_le16 [simp]:
  "ucast (le16 b0 b1) = b0" "ucast (drop_bit 8 (le16 b0 b1)) = b1"
  by (rule bit_word_eqI; auto simp: le16_def bit_or_iff bit_push_bit_iff bit_ucast_iff
      bit_drop_bit_eq dest: bit_imp_le_length)+

section \<open>Unsigned lengths\<close>

lemma unat_sub_u32: "b \<le> a \<Longrightarrow> unat ((a::u32) - b) = unat a - unat b"
  by (simp add: unat_sub)

lemma unat_u8_less [simp]: "unat (b::u8) < 256"
  using unsigned_less [of b] by simp

lemma unat_ucast_u8_u32 [simp]: "unat (ucast (b::u8) :: u32) = unat b"
proof -
  have "unat b < 2 ^ 32" using unat_u8_less [of b] by (rule less_trans) simp
  then show ?thesis by (simp add: unsigned_ucast_eq take_bit_nat_eq_self)
qed

lemma bind_Some_iff:
  "(Option.bind m f = Some r) \<longleftrightarrow> (\<exists>x. m = Some x \<and> f x = Some r)"
  by (cases m) auto

text \<open>The elimination rule keeps the continuation folded until its argument is known.\<close>

lemma bind_SomeE:
  assumes "Option.bind m f = Some r"
  obtains x where "m = Some x" and "f x = Some r"
  using assms by (cases m) auto

lemma case_option_SomeE:
  assumes "(case m of None \<Rightarrow> None | Some x \<Rightarrow> f x) = Some r"
  obtains x where "m = Some x" and "f x = Some r"
  using assms by (cases m) auto

end
