(* ===== verification/ParseData.thy ===== *)
theory ParseData
  imports Prelude
begin

text \<open>
  openusb_parse_data of descriptors.c: the interpreter of the format strings that unpack
  little-endian descriptors into C structures. The source is the byte buffer from the
  pointer on, the destination is an object with a base address, since the code aligns the
  destination pointer by looking at its address. Every byte the code touches is checked
  against the two objects.

  The lemmas: which formats and lengths make the call return success and with which
  count, that it stays inside the objects when they are large enough, and what it leaves
  at the offset of every field.
\<close>

section \<open>The interpreter\<close>

text \<open>The local variables sp (an offset into source), sourcelen, dp, destlen, and *dest.\<close>

record pd =
  pd_sp :: nat
  pd_slen :: u32
  pd_dp :: nat
  pd_dlen :: u32
  pd_dest :: "u8 list"

text \<open>One multi-byte item: check both lengths, align dp, store, advance.\<close>

definition pd_store :: "nat \<Rightarrow> nat \<Rightarrow> (u8 list \<Rightarrow> u8 list) \<Rightarrow> u8 list \<Rightarrow> pd \<Rightarrow> (pd, int) ctl option" where
  "pd_store n pad cnv src s =
     (if pd_slen s < of_nat n \<or> pd_dlen s < of_nat n then Some (Return OPENUSB_NO_RESOURCES)
      else do {
        bytes \<leftarrow> rdn src (pd_sp s) n;
        dest \<leftarrow> wrn (pd_dest s) (pd_dp s + pad) (cnv bytes);
        Some (Next \<lparr>pd_sp = pd_sp s + n, pd_slen = pd_slen s - of_nat n,
                pd_dp = pd_dp s + pad + n, pd_dlen = pd_dlen s - of_nat n, pd_dest = dest\<rparr>)
      })"

definition le16_st :: "bool \<Rightarrow> u8 list \<Rightarrow> u8 list" where
  "le16_st be bs = st16 be (le16 (bs ! 0) (bs ! 1))"

definition le32_st :: "bool \<Rightarrow> u8 list \<Rightarrow> u8 list" where
  "le32_st be bs = st32 be (le32 (bs ! 0) (bs ! 1) (bs ! 2) (bs ! 3))"

text \<open>The switch on one format character; any other character is skipped.\<close>

definition parse_char :: "bool \<Rightarrow> nat \<Rightarrow> u8 list \<Rightarrow> char \<Rightarrow> pd \<Rightarrow> (pd, int) ctl option" where
  "parse_char be base src c s =
     (if c = CHR ''.'' then Some (Next (s\<lparr>pd_sp := pd_sp s + 1, pd_slen := pd_slen s - 1\<rparr>))
      else if c = CHR ''b'' then pd_store 1 0 (\<lambda>bs. bs) src s
      else if c = CHR ''w'' then pd_store 2 ((base + pd_dp s) AND 1) (le16_st be) src s
      else if c = CHR ''d'' then pd_store 4 ((base + pd_dp s) AND 2) (le32_st be) src s
      else if c = CHR ''W'' then pd_store 2 ((base + pd_dp s) AND 1) (\<lambda>bs. bs) src s
      else if c = CHR ''D'' then pd_store 4 ((base + pd_dp s) AND 2) (\<lambda>bs. bs) src s
      else Some (Next s))"

text \<open>for (cp = format; *cp; cp++): the state at the end, and the code of an early return.\<close>

fun parse_loop :: "bool \<Rightarrow> nat \<Rightarrow> u8 list \<Rightarrow> string \<Rightarrow> pd \<Rightarrow> (int \<times> pd) option" where
  "parse_loop be base src [] s = Some (OPENUSB_SUCCESS, s)"
| "parse_loop be base src (c # cs) s = do {
     r \<leftarrow> parse_char be base src c s;
     (case r of Return e \<Rightarrow> Some (e, s) | Next s' \<Rightarrow> parse_loop be base src cs s')
   }"

text \<open>
  The function: a null pointer is None. The result is the return code, the destination
  and, on success, the value stored through count.
\<close>

definition openusb_parse_data ::
  "bool \<Rightarrow> string option \<Rightarrow> u8 list option \<Rightarrow> u32 \<Rightarrow> nat \<Rightarrow> u8 list option \<Rightarrow> u32 \<Rightarrow> bool \<Rightarrow>
   (int \<times> u8 list option \<times> u32 option) option" where
  "openusb_parse_data be format source sourcelen base dest destlen count =
     (case (format, source, dest, count) of
        (Some fmt, Some src, Some d, True) \<Rightarrow> do {
          (ret, s) \<leftarrow> parse_loop be base src fmt
             \<lparr>pd_sp = 0, pd_slen = sourcelen, pd_dp = 0, pd_dlen = destlen, pd_dest = d\<rparr>;
          Some (ret, Some (pd_dest s),
                if ret = OPENUSB_SUCCESS then Some (of_nat (pd_sp s)) else None)
        }
      | _ \<Rightarrow> Some (OPENUSB_BADARG, dest, None))"

text \<open>The calls the rest of the library makes: all pointers valid, base address aligned.\<close>

definition parse_data :: "bool \<Rightarrow> string \<Rightarrow> u8 list \<Rightarrow> u32 \<Rightarrow> u8 list \<Rightarrow> u32 \<Rightarrow>
    (int \<times> u8 list \<times> u32 option) option" where
  "parse_data be fmt src sourcelen dest destlen = do {
     (ret, d, count) \<leftarrow> openusb_parse_data be (Some fmt) (Some src) sourcelen 0 (Some dest) destlen True;
     Some (ret, the d, count)
   }"

section \<open>What a format means\<close>

text \<open>The number of source bytes an item takes, and where the item goes.\<close>

definition item_size :: "char \<Rightarrow> nat" where
  "item_size c = (if c \<in> {CHR ''.'', CHR ''b''} then 1
     else if c \<in> {CHR ''w'', CHR ''W''} then 2
     else if c \<in> {CHR ''d'', CHR ''D''} then 4 else 0)"

definition item_pad :: "nat \<Rightarrow> char \<Rightarrow> nat" where
  "item_pad a c = (if c \<in> {CHR ''w'', CHR ''W''} then a AND 1
     else if c \<in> {CHR ''d'', CHR ''D''} then a AND 2 else 0)"

definition stores :: "char \<Rightarrow> bool" where
  "stores c \<longleftrightarrow> c \<in> {CHR ''b'', CHR ''w'', CHR ''d'', CHR ''W'', CHR ''D''}"

definition item_val :: "bool \<Rightarrow> char \<Rightarrow> u8 list \<Rightarrow> u8 list" where
  "item_val be c bs = (if c = CHR ''w'' then le16_st be bs
     else if c = CHR ''d'' then le32_st be bs else bs)"

fun fmt_size :: "string \<Rightarrow> nat" where
  "fmt_size [] = 0"
| "fmt_size (c # cs) = item_size c + fmt_size cs"

text \<open>The offset just after the last field of a format that starts at offset dp.\<close>

fun fmt_end :: "nat \<Rightarrow> nat \<Rightarrow> string \<Rightarrow> nat" where
  "fmt_end base dp [] = dp"
| "fmt_end base dp (c # cs) =
     (if stores c then fmt_end base (dp + item_pad (base + dp) c + item_size c) cs
      else fmt_end base dp cs)"

text \<open>The fields of a format: destination offset and stored bytes.\<close>

fun fmt_fields :: "bool \<Rightarrow> nat \<Rightarrow> u8 list \<Rightarrow> nat \<Rightarrow> nat \<Rightarrow> string \<Rightarrow> (nat \<times> u8 list) list" where
  "fmt_fields be base src sp dp [] = []"
| "fmt_fields be base src sp dp (c # cs) =
     (if stores c then
        (let off = dp + item_pad (base + dp) c; n = item_size c
         in (off, item_val be c (take n (drop sp src)))
              # fmt_fields be base src (sp + n) (off + n) cs)
      else fmt_fields be base src (sp + item_size c) dp cs)"

lemma item_size_le: "item_size c \<le> 4"
  by (simp add: item_size_def)

lemma stores_size_pos: "stores c \<Longrightarrow> 0 < item_size c"
  by (auto simp: stores_def item_size_def)

lemma length_item_val:
  "stores c \<Longrightarrow> length bs = item_size c \<Longrightarrow> length (item_val be c bs) = item_size c"
  by (auto simp: stores_def item_size_def item_val_def le16_st_def le32_st_def)

lemma fmt_end_ge: "dp \<le> fmt_end base dp cs"
proof (induction base dp cs rule: fmt_end.induct)
  case (2 base dp c cs)
  then show ?case by (auto intro: order_trans [rotated])
qed simp

text \<open>The switch in one equation: a storing item is one store of its value.\<close>

lemma item_val_fun [simp]:
  "item_val be CHR ''b'' = (\<lambda>bs. bs)" "item_val be CHR ''W'' = (\<lambda>bs. bs)"
  "item_val be CHR ''D'' = (\<lambda>bs. bs)"
  "item_val be CHR ''w'' = le16_st be" "item_val be CHR ''d'' = le32_st be"
  by (auto simp: item_val_def)

lemma stores_cases:
  assumes "stores c"
  obtains "c = CHR ''b''" | "c = CHR ''w''" | "c = CHR ''d''" | "c = CHR ''W''" | "c = CHR ''D''"
  using assms by (auto simp: stores_def)

lemma parse_char_stores:
  "stores c \<Longrightarrow> parse_char be base src c s =
     pd_store (item_size c) (item_pad (base + pd_dp s) c) (item_val be c) src s"
  by (erule stores_cases) (simp_all add: parse_char_def item_size_def item_pad_def)

lemma parse_char_skips:
  assumes "\<not> stores c"
  shows "parse_char be base src c s = Some (Next (if c = CHR ''.''
     then s\<lparr>pd_sp := pd_sp s + 1, pd_slen := pd_slen s - 1\<rparr> else s))"
  using assms by (auto simp: stores_def parse_char_def)

lemma item_size_skips: "\<not> stores c \<Longrightarrow> c \<noteq> CHR ''.'' \<Longrightarrow> item_size c = 0"
  by (auto simp: stores_def item_size_def)

lemma item_size_dot [simp]: "item_size CHR ''.'' = 1"
  by (simp add: item_size_def)

text \<open>A store that has room: what it does to every variable.\<close>

lemma pd_store_ok:
  assumes "0 < n" "n \<le> 4" "n \<le> unat (pd_slen s)" "n \<le> unat (pd_dlen s)"
    and "pd_sp s + n \<le> length src" "pd_dp s + pad + n \<le> length (pd_dest s)"
    and "length (cnv (take n (drop (pd_sp s) src))) = n"
  shows "pd_store n pad cnv src s = Some (Next \<lparr>pd_sp = pd_sp s + n,
     pd_slen = pd_slen s - of_nat n, pd_dp = pd_dp s + pad + n, pd_dlen = pd_dlen s - of_nat n,
     pd_dest = the (wrn (pd_dest s) (pd_dp s + pad) (cnv (take n (drop (pd_sp s) src))))\<rparr>)"
proof -
  have "\<not> pd_slen s < of_nat n" "\<not> pd_dlen s < of_nat n"
    using assms(2-4) by (auto simp: word_less_nat_alt unat_of_nat take_bit_nat_eq_self
        unsigned_of_nat)
  then show ?thesis
    using assms by (simp add: pd_store_def opt_simps)
qed

lemma unat_sub_of_nat: "n \<le> unat (w::u32) \<Longrightarrow> n \<le> 4 \<Longrightarrow> unat (w - of_nat n) = unat w - n"
proof -
  assume n: "n \<le> unat w" "n \<le> 4"
  then have u: "unat (of_nat n :: u32) = n" by (simp add: unsigned_of_nat take_bit_nat_eq_self)
  with n have "of_nat n \<le> w" by (simp add: word_le_nat_alt)
  then show ?thesis using u by (simp add: unat_sub_u32)
qed

text \<open>A store that does not have room in one of the two lengths.\<close>

lemma pd_store_short:
  assumes "n \<le> 4" "unat (pd_slen s) < n \<or> unat (pd_dlen s) < n"
  shows "pd_store n pad cnv src s = Some (Return OPENUSB_NO_RESOURCES)"
proof -
  have "pd_slen s < of_nat n \<or> pd_dlen s < of_nat n"
    using assms by (auto simp: word_less_nat_alt unsigned_of_nat take_bit_nat_eq_self)
  then show ?thesis by (simp add: pd_store_def)
qed

section \<open>The loop against the meaning of the format\<close>

definition put_fields :: "u8 list \<Rightarrow> (nat \<times> u8 list) list \<Rightarrow> u8 list" where
  "put_fields d fs = foldl (\<lambda>d (off, v). the (wrn d off v)) d fs"

lemma put_fields_simps [simp]:
  "put_fields d [] = d" "put_fields d ((off, v) # fs) = put_fields (the (wrn d off v)) fs"
  by (simp_all add: put_fields_def)

lemma length_the_wrn: "off + length v \<le> length d \<Longrightarrow> length (the (wrn d off v)) = length d"
  by (simp add: opt_simps)

fun fmt_store_size :: "string \<Rightarrow> nat" where
  "fmt_store_size [] = 0"
| "fmt_store_size (c # cs) = (if stores c then item_size c else 0) + fmt_store_size cs"

lemma fmt_store_size_nodot: "CHR ''.'' \<notin> set cs \<Longrightarrow> fmt_store_size cs = fmt_size cs"
  by (induction cs) (auto simp: item_size_skips)

lemma parse_loop_ok:
  assumes "fmt_size cs \<le> unat (pd_slen s)" "fmt_store_size cs \<le> unat (pd_dlen s)"
    and "pd_sp s + fmt_size cs \<le> length src" "fmt_end base (pd_dp s) cs \<le> length (pd_dest s)"
  shows "\<exists>s'. parse_loop be base src cs s = Some (OPENUSB_SUCCESS, s') \<and>
     pd_sp s' = pd_sp s + fmt_size cs \<and>
     pd_dest s' = put_fields (pd_dest s) (fmt_fields be base src (pd_sp s) (pd_dp s) cs)"
  using assms
proof (induction cs arbitrary: s)
  case (Cons c cs)
  show ?case
  proof (cases "stores c")
    case True
    let ?n = "item_size c" and ?pad = "item_pad (base + pd_dp s) c"
    let ?v = "item_val be c (take ?n (drop (pd_sp s) src))"
    from True have fe: "fmt_end base (pd_dp s + ?pad + ?n) cs \<le> length (pd_dest s)"
      using Cons.prems(4) by simp
    with fmt_end_ge have room: "pd_dp s + ?pad + ?n \<le> length (pd_dest s)"
      by (rule order_trans)
    have lv: "length ?v = ?n"
      using True Cons.prems(3) by (intro length_item_val) auto
    define s1 where "s1 = \<lparr>pd_sp = pd_sp s + ?n, pd_slen = pd_slen s - of_nat ?n,
      pd_dp = pd_dp s + ?pad + ?n, pd_dlen = pd_dlen s - of_nat ?n,
      pd_dest = the (wrn (pd_dest s) (pd_dp s + ?pad) ?v)\<rparr>"
    have pc: "parse_char be base src c s = Some (Next s1)"
      unfolding parse_char_stores [OF True] s1_def
      using True Cons.prems room lv
      by (intro pd_store_ok) (auto simp: stores_size_pos item_size_le)
    have s1: "pd_sp s1 = pd_sp s + ?n" "pd_slen s1 = pd_slen s - of_nat ?n"
      "pd_dp s1 = pd_dp s + ?pad + ?n" "pd_dlen s1 = pd_dlen s - of_nat ?n"
      "pd_dest s1 = the (wrn (pd_dest s) (pd_dp s + ?pad) ?v)"
      by (simp_all add: s1_def)
    have ld: "length (pd_dest s1) = length (pd_dest s)"
      unfolding s1(5) using room lv by (intro length_the_wrn) simp
    have fe1: "fmt_end base (pd_dp s1) cs \<le> length (pd_dest s1)"
      using fe ld s1(3) by simp
    have "\<exists>s'. parse_loop be base src cs s1 = Some (OPENUSB_SUCCESS, s') \<and>
       pd_sp s' = pd_sp s1 + fmt_size cs \<and>
       pd_dest s' = put_fields (pd_dest s1) (fmt_fields be base src (pd_sp s1) (pd_dp s1) cs)"
      using True Cons.prems fe1
      by (intro Cons.IH) (simp_all add: s1(1,2,4) unat_sub_of_nat item_size_le)
    then show ?thesis using True pc s1 by (auto simp: Let_def add_ac)
  next
    case False
    then obtain s1 where s1: "parse_char be base src c s = Some (Next s1)"
      "pd_sp s1 = pd_sp s + item_size c" "pd_dest s1 = pd_dest s" "pd_dp s1 = pd_dp s"
      "pd_dlen s1 = pd_dlen s" "unat (pd_slen s1) = unat (pd_slen s) - item_size c"
      using Cons.prems(1) unat_sub_of_nat [of 1 "pd_slen s"]
      by (cases "c = CHR ''.''") (auto simp: parse_char_skips item_size_skips item_size_dot)
    have "\<exists>s'. parse_loop be base src cs s1 = Some (OPENUSB_SUCCESS, s') \<and>
       pd_sp s' = pd_sp s1 + fmt_size cs \<and>
       pd_dest s' = put_fields (pd_dest s1) (fmt_fields be base src (pd_sp s1) (pd_dp s1) cs)"
      using False Cons.prems by (intro Cons.IH) (auto simp: s1)
    then show ?thesis using False s1 by (auto simp: add_ac)
  qed
qed simp

lemma parse_data_ok:
  assumes "fmt_size fmt \<le> unat len" "fmt_store_size fmt \<le> unat dlen"
    and "fmt_size fmt \<le> length src" "fmt_end 0 0 fmt \<le> length dest"
  shows "parse_data be fmt src len dest dlen = Some (OPENUSB_SUCCESS,
     put_fields dest (fmt_fields be 0 src 0 0 fmt), Some (of_nat (fmt_size fmt)))"
  using parse_loop_ok [of fmt "\<lparr>pd_sp = 0, pd_slen = len, pd_dp = 0, pd_dlen = dlen,
      pd_dest = dest\<rparr>" src 0 be] assms
  by (auto simp: parse_data_def openusb_parse_data_def)

text \<open>
  A format that does not fit in one of the two lengths. A dot would not do: the code does
  not check sourcelen before it skips a byte, so sourcelen wraps around.
\<close>

lemma parse_loop_short:
  assumes "CHR ''.'' \<notin> set cs"
    and "unat (pd_slen s) < fmt_size cs \<or> unat (pd_dlen s) < fmt_size cs"
    and "pd_sp s + unat (pd_slen s) \<le> length src" "fmt_end base (pd_dp s) cs \<le> length (pd_dest s)"
  shows "\<exists>s'. parse_loop be base src cs s = Some (OPENUSB_NO_RESOURCES, s')"
  using assms
proof (induction cs arbitrary: s)
  case (Cons c cs)
  show ?case
  proof (cases "stores c")
    case True
    let ?n = "item_size c" and ?pad = "item_pad (base + pd_dp s) c"
    let ?v = "item_val be c (take ?n (drop (pd_sp s) src))"
    show ?thesis
    proof (cases "unat (pd_slen s) < ?n \<or> unat (pd_dlen s) < ?n")
      case True
      then show ?thesis using \<open>stores c\<close>
        by (simp add: parse_char_stores pd_store_short item_size_le)
    next
      case False
      then have fits: "?n \<le> unat (pd_slen s)" "?n \<le> unat (pd_dlen s)" by auto
      have fe: "fmt_end base (pd_dp s + ?pad + ?n) cs \<le> length (pd_dest s)"
        using True Cons.prems(4) by simp
      with fmt_end_ge have room: "pd_dp s + ?pad + ?n \<le> length (pd_dest s)"
        by (rule order_trans)
      have lv: "length ?v = ?n"
        using True Cons.prems(3) fits by (intro length_item_val) auto
      define s1 where "s1 = \<lparr>pd_sp = pd_sp s + ?n, pd_slen = pd_slen s - of_nat ?n,
        pd_dp = pd_dp s + ?pad + ?n, pd_dlen = pd_dlen s - of_nat ?n,
        pd_dest = the (wrn (pd_dest s) (pd_dp s + ?pad) ?v)\<rparr>"
      have pc: "parse_char be base src c s = Some (Next s1)"
        unfolding parse_char_stores [OF True] s1_def
        using True Cons.prems room lv fits
        by (intro pd_store_ok) (auto simp: stores_size_pos item_size_le)
      have "length (pd_dest s1) = length (pd_dest s)"
        unfolding s1_def pd.simps using room lv by (intro length_the_wrn) simp
      with fe have fe1: "fmt_end base (pd_dp s1) cs \<le> length (pd_dest s1)"
        by (simp add: s1_def)
      have u: "unat (pd_slen s1) = unat (pd_slen s) - ?n" "unat (pd_dlen s1) = unat (pd_dlen s) - ?n"
        using fits by (simp_all add: s1_def unat_sub_of_nat item_size_le)
      have "pd_sp s1 = pd_sp s + ?n" by (simp add: s1_def)
      then have "\<exists>s'. parse_loop be base src cs s1 = Some (OPENUSB_NO_RESOURCES, s')"
        using Cons.prems fe1 fits by (intro Cons.IH) (auto simp: u)
      with pc show ?thesis by simp
    qed
  next
    case False
    then have "parse_char be base src c s = Some (Next s)" "item_size c = 0"
      using Cons.prems(1) by (auto simp: parse_char_skips item_size_skips)
    with False Cons show ?thesis by auto
  qed
qed simp

text \<open>Fields lie one after the other, so a later store leaves an earlier field alone.\<close>

lemma put_fields_frame:
  assumes "fmt_end base dp cs \<le> length d" "sp + fmt_size cs \<le> length src"
  shows "length (put_fields d (fmt_fields be base src sp dp cs)) = length d \<and>
     (\<forall>j n. j + n \<le> dp \<longrightarrow> rdn (put_fields d (fmt_fields be base src sp dp cs)) j n = rdn d j n)"
  using assms
proof (induction cs arbitrary: d sp dp)
  case (Cons c cs)
  show ?case
  proof (cases "stores c")
    case True
    let ?off = "dp + item_pad (base + dp) c" and ?n = "item_size c"
    let ?v = "item_val be c (take ?n (drop sp src))" and ?d = "the (wrn d (dp + item_pad (base + dp) c)
       (item_val be c (take (item_size c) (drop sp src))))"
    have lv: "length ?v = ?n" using True Cons.prems by (intro length_item_val) auto
    have "?off + ?n \<le> length d"
      using True Cons.prems(1) fmt_end_ge [of "?off + ?n" base cs] by simp
    with lv have w: "wrn d ?off ?v = Some ?d" by (simp add: opt_simps)
    from w have ld: "length ?d = length d" by (rule length_wrn)
    have "length (put_fields ?d (fmt_fields be base src (sp + ?n) (?off + ?n) cs)) = length ?d \<and>
       (\<forall>j n. j + n \<le> ?off + ?n \<longrightarrow>
          rdn (put_fields ?d (fmt_fields be base src (sp + ?n) (?off + ?n) cs)) j n = rdn ?d j n)"
      using True Cons.prems ld by (intro Cons.IH) auto
    then show ?thesis
      using True ld w by (auto simp: Let_def rdn_wrn_before [OF w])
  next
    case False
    then show ?thesis using Cons.prems Cons.IH [of dp d "sp + item_size c"] by auto
  qed
qed simp

lemma put_fields_read:
  assumes "fmt_end base dp cs \<le> length d" "sp + fmt_size cs \<le> length src"
    and "(off, v) \<in> set (fmt_fields be base src sp dp cs)"
  shows "rdn (put_fields d (fmt_fields be base src sp dp cs)) off (length v) = Some v"
  using assms
proof (induction cs arbitrary: d sp dp)
  case (Cons c cs)
  show ?case
  proof (cases "stores c")
    case True
    let ?off = "dp + item_pad (base + dp) c" and ?n = "item_size c"
    let ?v = "item_val be c (take ?n (drop sp src))" and ?d = "the (wrn d (dp + item_pad (base + dp) c)
       (item_val be c (take (item_size c) (drop sp src))))"
    let ?fs = "fmt_fields be base src (sp + ?n) (?off + ?n) cs"
    have lv: "length ?v = ?n" using True Cons.prems by (intro length_item_val) auto
    have "?off + ?n \<le> length d"
      using True Cons.prems(1) fmt_end_ge [of "?off + ?n" base cs] by simp
    with lv have w: "wrn d ?off ?v = Some ?d" by (simp add: opt_simps)
    have ld: "length ?d = length d" using w by (rule length_wrn)
    have fe: "fmt_end base (?off + ?n) cs \<le> length ?d" and sz: "sp + ?n + fmt_size cs \<le> length src"
      using True Cons.prems ld by auto
    from Cons.prems(3) True consider "off = ?off" "v = ?v" | "(off, v) \<in> set ?fs"
      by (auto simp: Let_def)
    then show ?thesis
    proof cases
      case 1
      have "rdn (put_fields ?d ?fs) ?off ?n = rdn ?d ?off ?n"
        using put_fields_frame [OF fe sz] by blast
      then show ?thesis using True 1 lv rdn_wrn_same [OF w] by (simp add: Let_def)
    next
      case 2
      then show ?thesis using True Cons.IH [OF fe sz] by (simp add: Let_def)
    qed
  next
    case False
    then show ?thesis using Cons.prems Cons.IH [of dp d "sp + item_size c"] by auto
  qed
qed simp

section \<open>What a call returns\<close>

lemma openusb_parse_data_valid:
  "openusb_parse_data be (Some fmt) (Some src) slen base (Some d) dlen True =
     map_option (\<lambda>(ret, s). (ret, Some (pd_dest s),
        if ret = OPENUSB_SUCCESS then Some (of_nat (pd_sp s)) else None))
       (parse_loop be base src fmt
         \<lparr>pd_sp = 0, pd_slen = slen, pd_dp = 0, pd_dlen = dlen, pd_dest = d\<rparr>)"
  by (cases "parse_loop be base src fmt
      \<lparr>pd_sp = 0, pd_slen = slen, pd_dp = 0, pd_dlen = dlen, pd_dest = d\<rparr>")
     (auto simp: openusb_parse_data_def)



text \<open>
  Where the code departs from its documentation in openusb.h.in. (1) The documented
  layout of "bwbd" puts the dword at offset 8; the code, which tests bit 1 of the address
  of an odd pointer, puts it at offset 5. (2) destlen does not count the padding, so
  "bwb" into an object of 4 bytes with destlen 4 writes past its end. (3) A dot does not
  look at sourcelen: on an empty source it succeeds, and sourcelen has wrapped, so the
  next item is read past the end. (4) The documented repeat counts are ignored: "2b"
  parses one byte.
\<close>

theorem parse_data_quirks:
  "map fst (fmt_fields be 0 src 0 0 ''bwbd'') = [0, 2, 4, 5] \<and>
   openusb_parse_data be (Some ''bwb'') (Some [1, 2, 3, 4]) 4 0 (Some [0, 0, 0, 0]) 4 True = None \<and>
   openusb_parse_data be (Some ''.'') (Some []) 0 0 (Some [0]) 1 True
     = Some (OPENUSB_SUCCESS, Some [0], Some 1) \<and>
   openusb_parse_data be (Some ''.b'') (Some []) 0 0 (Some [0]) 1 True = None \<and>
   openusb_parse_data be (Some ''2b'') (Some [7, 8]) 2 0 (Some [0, 0]) 2 True
     = Some (OPENUSB_SUCCESS, Some [7, 0], Some 1)"
proof (intro conjI)
  have five: "Suc (Suc (Suc (Suc (Suc 0)))) AND 2 = 0" by code_simp
  show "map fst (fmt_fields be 0 src 0 0 ''bwbd'') = [0, 2, 4, 5]"
    using five by (simp add: stores_def item_size_def item_pad_def)
qed (simp_all add: openusb_parse_data_def parse_char_def pd_store_def rdn_def wrn_def)

end
