(* ===== verification/Descriptors.thy ===== *)
theory Descriptors
  imports ParseData
begin

text \<open>
  The USB descriptor structures of openusb.h.in, their layout in memory, and the internal
  structures of descr.h and descriptors.c that hold a parsed configuration.

  A structure is a record; mem_of_X is its image in memory under the C alignment rules
  (16-bit fields in host order, padding zero) and X_of_mem reads it back. The library fills
  a structure by letting openusb_parse_data write to its memory: parse_X is that call. The
  lemmas say which fields each format of the library fills in.
\<close>

section \<open>Structures\<close>

record usb_descriptor_header =
  h_bLength :: u8
  h_bDescriptorType :: u8

record usb_device_desc =
  dd_bLength :: u8
  dd_bDescriptorType :: u8
  dd_bcdUSB :: u16
  dd_bDeviceClass :: u8
  dd_bDeviceSubClass :: u8
  dd_bDeviceProtocol :: u8
  dd_bMaxPacketSize0 :: u8
  dd_idVendor :: u16
  dd_idProduct :: u16
  dd_bcdDevice :: u16
  dd_iManufacturer :: u8
  dd_iProduct :: u8
  dd_iSerialNumber :: u8
  dd_bNumConfigurations :: u8

record usb_config_desc =
  cd_bLength :: u8
  cd_bDescriptorType :: u8
  cd_wTotalLength :: u16
  cd_bNumInterfaces :: u8
  cd_bConfigurationValue :: u8
  cd_iConfiguration :: u8
  cd_bmAttributes :: u8
  cd_bMaxPower :: u8

record usb_interface_desc =
  id_bLength :: u8
  id_bDescriptorType :: u8
  id_bInterfaceNumber :: u8
  id_bAlternateSetting :: u8
  id_bNumEndpoints :: u8
  id_bInterfaceClass :: u8
  id_bInterfaceSubClass :: u8
  id_bInterfaceProtocol :: u8
  id_iInterface :: u8

record usb_endpoint_desc =
  ed_bLength :: u8
  ed_bDescriptorType :: u8
  ed_bEndpointAddress :: u8
  ed_bmAttributes :: u8
  ed_wMaxPacketSize :: u16
  ed_bInterval :: u8
  ed_bRefresh :: u8
  ed_bSynchAddress :: u8

section \<open>Structures in memory\<close>

definition mem_of_header :: "usb_descriptor_header \<Rightarrow> u8 list" where
  "mem_of_header h = [h_bLength h, h_bDescriptorType h]"

definition header_of_mem :: "u8 list \<Rightarrow> usb_descriptor_header" where
  "header_of_mem m = \<lparr>h_bLength = m ! 0, h_bDescriptorType = m ! 1\<rparr>"

definition mem_of_device_desc :: "bool \<Rightarrow> usb_device_desc \<Rightarrow> u8 list" where
  "mem_of_device_desc be d =
     [dd_bLength d, dd_bDescriptorType d] @ st16 be (dd_bcdUSB d) @
     [dd_bDeviceClass d, dd_bDeviceSubClass d, dd_bDeviceProtocol d, dd_bMaxPacketSize0 d] @
     st16 be (dd_idVendor d) @ st16 be (dd_idProduct d) @ st16 be (dd_bcdDevice d) @
     [dd_iManufacturer d, dd_iProduct d, dd_iSerialNumber d, dd_bNumConfigurations d]"

definition device_desc_of_mem :: "bool \<Rightarrow> u8 list \<Rightarrow> usb_device_desc" where
  "device_desc_of_mem be m = \<lparr>dd_bLength = m ! 0, dd_bDescriptorType = m ! 1,
     dd_bcdUSB = ld16 be [m ! 2, m ! 3],
     dd_bDeviceClass = m ! 4, dd_bDeviceSubClass = m ! 5, dd_bDeviceProtocol = m ! 6,
     dd_bMaxPacketSize0 = m ! 7, dd_idVendor = ld16 be [m ! 8, m ! 9],
     dd_idProduct = ld16 be [m ! 10, m ! 11], dd_bcdDevice = ld16 be [m ! 12, m ! 13],
     dd_iManufacturer = m ! 14, dd_iProduct = m ! 15, dd_iSerialNumber = m ! 16,
     dd_bNumConfigurations = m ! 17\<rparr>"

definition mem_of_config_desc :: "bool \<Rightarrow> usb_config_desc \<Rightarrow> u8 list" where
  "mem_of_config_desc be d =
     [cd_bLength d, cd_bDescriptorType d] @ st16 be (cd_wTotalLength d) @
     [cd_bNumInterfaces d, cd_bConfigurationValue d, cd_iConfiguration d, cd_bmAttributes d,
      cd_bMaxPower d, 0]"

definition config_desc_of_mem :: "bool \<Rightarrow> u8 list \<Rightarrow> usb_config_desc" where
  "config_desc_of_mem be m = \<lparr>cd_bLength = m ! 0, cd_bDescriptorType = m ! 1,
     cd_wTotalLength = ld16 be [m ! 2, m ! 3], cd_bNumInterfaces = m ! 4,
     cd_bConfigurationValue = m ! 5, cd_iConfiguration = m ! 6, cd_bmAttributes = m ! 7,
     cd_bMaxPower = m ! 8\<rparr>"

definition mem_of_interface_desc :: "usb_interface_desc \<Rightarrow> u8 list" where
  "mem_of_interface_desc d =
     [id_bLength d, id_bDescriptorType d, id_bInterfaceNumber d, id_bAlternateSetting d,
      id_bNumEndpoints d, id_bInterfaceClass d, id_bInterfaceSubClass d,
      id_bInterfaceProtocol d, id_iInterface d]"

definition interface_desc_of_mem :: "u8 list \<Rightarrow> usb_interface_desc" where
  "interface_desc_of_mem m = \<lparr>id_bLength = m ! 0, id_bDescriptorType = m ! 1,
     id_bInterfaceNumber = m ! 2, id_bAlternateSetting = m ! 3, id_bNumEndpoints = m ! 4,
     id_bInterfaceClass = m ! 5, id_bInterfaceSubClass = m ! 6, id_bInterfaceProtocol = m ! 7,
     id_iInterface = m ! 8\<rparr>"

definition mem_of_endpoint_desc :: "bool \<Rightarrow> usb_endpoint_desc \<Rightarrow> u8 list" where
  "mem_of_endpoint_desc be d =
     [ed_bLength d, ed_bDescriptorType d, ed_bEndpointAddress d, ed_bmAttributes d] @
     st16 be (ed_wMaxPacketSize d) @ [ed_bInterval d, ed_bRefresh d, ed_bSynchAddress d, 0]"

definition endpoint_desc_of_mem :: "bool \<Rightarrow> u8 list \<Rightarrow> usb_endpoint_desc" where
  "endpoint_desc_of_mem be m = \<lparr>ed_bLength = m ! 0, ed_bDescriptorType = m ! 1,
     ed_bEndpointAddress = m ! 2, ed_bmAttributes = m ! 3,
     ed_wMaxPacketSize = ld16 be [m ! 4, m ! 5], ed_bInterval = m ! 6, ed_bRefresh = m ! 7,
     ed_bSynchAddress = m ! 8\<rparr>"

section \<open>Filling a structure through openusb_parse_data\<close>

definition parse_header ::
  "bool \<Rightarrow> usb_descriptor_header \<Rightarrow> u8 list \<Rightarrow> u32 \<Rightarrow> usb_descriptor_header option" where
  "parse_header be h buf buflen = do {
     (ret, m, count) \<leftarrow> parse_data be ''bb'' buf buflen (mem_of_header h) 2;
     Some (header_of_mem m)
   }"

definition parse_device_desc :: "bool \<Rightarrow> usb_device_desc \<Rightarrow> u8 list \<Rightarrow> u32 \<Rightarrow>
    (int \<times> usb_device_desc \<times> u32 option) option" where
  "parse_device_desc be d buf buflen = do {
     (ret, m, count) \<leftarrow> parse_data be ''bbwbbbbwwwbbbb'' buf buflen (mem_of_device_desc be d) 18;
     Some (ret, device_desc_of_mem be m, count)
   }"

definition parse_config_desc :: "bool \<Rightarrow> string \<Rightarrow> usb_config_desc \<Rightarrow> u8 list \<Rightarrow> u32 \<Rightarrow>
    (int \<times> usb_config_desc \<times> u32 option) option" where
  "parse_config_desc be fmt d buf buflen = do {
     (ret, m, count) \<leftarrow> parse_data be fmt buf buflen (mem_of_config_desc be d) 10;
     Some (ret, config_desc_of_mem be m, count)
   }"

definition parse_interface_desc :: "bool \<Rightarrow> usb_interface_desc \<Rightarrow> u8 list \<Rightarrow> u32 \<Rightarrow>
    (int \<times> usb_interface_desc \<times> u32 option) option" where
  "parse_interface_desc be d buf buflen = do {
     (ret, m, count) \<leftarrow> parse_data be ''bbbbbbbbb'' buf buflen (mem_of_interface_desc d) 9;
     Some (ret, interface_desc_of_mem m, count)
   }"

definition parse_endpoint_desc :: "bool \<Rightarrow> string \<Rightarrow> usb_endpoint_desc \<Rightarrow> u8 list \<Rightarrow> u32 \<Rightarrow>
    (int \<times> usb_endpoint_desc \<times> u32 option) option" where
  "parse_endpoint_desc be fmt d buf buflen = do {
     (ret, m, count) \<leftarrow> parse_data be fmt buf buflen (mem_of_endpoint_desc be d) 10;
     Some (ret, endpoint_desc_of_mem be m, count)
   }"

section \<open>The internal structures of descr.h\<close>

record usbi_endpoint =
  ep_desc :: usb_endpoint_desc
  ep_extra :: "u8 list cptr"
  ep_extralen :: u16

record usbi_altsetting =
  as_desc :: usb_interface_desc
  as_num_endpoints :: nat
  as_endpoints :: "usbi_endpoint list cptr"
  as_extra :: "u8 list cptr"
  as_extralen :: nat

record usbi_interface =
  if_num_altsettings :: nat
  if_altsettings :: "usbi_altsetting list cptr"

record usbi_config =
  cf_desc :: usb_config_desc
  cf_num_interfaces :: nat
  cf_interfaces :: "usbi_interface list cptr"
  cf_extra :: "u8 list cptr"
  cf_extralen :: nat

record usbi_raw_desc =
  rw_data :: "u8 list cptr"
  rw_len :: nat

record usbi_descriptors =
  ds_device_raw :: usbi_raw_desc
  ds_num_configs :: nat
  ds_configs_raw :: "usbi_raw_desc list cptr"
  ds_device :: usb_device_desc
  ds_configs :: "usbi_config list cptr"

text \<open>What calloc leaves in each of them.\<close>

definition zero_endpoint_desc :: usb_endpoint_desc where
  "zero_endpoint_desc = \<lparr>ed_bLength = 0, ed_bDescriptorType = 0, ed_bEndpointAddress = 0,
     ed_bmAttributes = 0, ed_wMaxPacketSize = 0, ed_bInterval = 0, ed_bRefresh = 0,
     ed_bSynchAddress = 0\<rparr>"

definition zero_interface_desc :: usb_interface_desc where
  "zero_interface_desc = \<lparr>id_bLength = 0, id_bDescriptorType = 0, id_bInterfaceNumber = 0,
     id_bAlternateSetting = 0, id_bNumEndpoints = 0, id_bInterfaceClass = 0,
     id_bInterfaceSubClass = 0, id_bInterfaceProtocol = 0, id_iInterface = 0\<rparr>"

definition zero_config_desc :: usb_config_desc where
  "zero_config_desc = \<lparr>cd_bLength = 0, cd_bDescriptorType = 0, cd_wTotalLength = 0,
     cd_bNumInterfaces = 0, cd_bConfigurationValue = 0, cd_iConfiguration = 0,
     cd_bmAttributes = 0, cd_bMaxPower = 0\<rparr>"

definition zero_endpoint :: usbi_endpoint where
  "zero_endpoint = \<lparr>ep_desc = zero_endpoint_desc, ep_extra = Null, ep_extralen = 0\<rparr>"

definition zero_altsetting :: usbi_altsetting where
  "zero_altsetting = \<lparr>as_desc = zero_interface_desc, as_num_endpoints = 0, as_endpoints = Null,
     as_extra = Null, as_extralen = 0\<rparr>"

definition zero_interface :: usbi_interface where
  "zero_interface = \<lparr>if_num_altsettings = 0, if_altsettings = Null\<rparr>"

definition zero_config :: usbi_config where
  "zero_config = \<lparr>cf_desc = zero_config_desc, cf_num_interfaces = 0, cf_interfaces = Null,
     cf_extra = Null, cf_extralen = 0\<rparr>"

definition zero_raw :: usbi_raw_desc where
  "zero_raw = \<lparr>rw_data = Null, rw_len = 0\<rparr>"

text \<open>Sizes for calloc, as laid out on a 64-bit host.\<close>

definition sizeof_endpoint :: nat where "sizeof_endpoint = 32"
definition sizeof_altsetting :: nat where "sizeof_altsetting = 48"
definition sizeof_interface :: nat where "sizeof_interface = 16"
definition sizeof_config :: nat where "sizeof_config = 56"
definition sizeof_raw_desc :: nat where "sizeof_raw_desc = 16"

section \<open>Control requests\<close>

text \<open>openusb_ctrl_request with its result; the payload is the buffer it points to.\<close>

record ctrl_request =
  ct_bmRequestType :: u8
  ct_bRequest :: u8
  ct_wValue :: u16
  ct_wIndex :: u16
  ct_payload :: "u8 list"
  ct_length :: u32
  ct_timeout :: u32
  ct_status :: int
  ct_transferred :: u32

definition USB_ENDPOINT_IN :: u8 where "USB_ENDPOINT_IN = 128"
definition USB_REQ_GET_DESCRIPTOR :: u8 where "USB_REQ_GET_DESCRIPTOR = 6"

section \<open>Lemmas: images and calls\<close>

lemma header_of_mem_of_header [simp]: "header_of_mem (mem_of_header h) = h"
  by (simp add: header_of_mem_def mem_of_header_def)

lemma ld16_eta: "length m = 2 \<Longrightarrow> ld16 be [m ! 0, m ! Suc 0] = ld16 be m"
  by (simp add: ld16_def)

lemma st16_nth [simp]: "ld16 be [st16 be w ! 0, st16 be w ! Suc 0] = w"
  using ld16_eta [of "st16 be w" be] by simp

lemma device_desc_of_mem_of [simp]: "device_desc_of_mem be (mem_of_device_desc be d) = d"
  by (simp add: device_desc_of_mem_def mem_of_device_desc_def nth_append)

lemma config_desc_of_mem_of [simp]: "config_desc_of_mem be (mem_of_config_desc be d) = d"
  by (simp add: config_desc_of_mem_def mem_of_config_desc_def nth_append)

lemma interface_desc_of_mem_of [simp]: "interface_desc_of_mem (mem_of_interface_desc d) = d"
  by (simp add: interface_desc_of_mem_def mem_of_interface_desc_def nth_append)

lemma endpoint_desc_of_mem_of [simp]: "endpoint_desc_of_mem be (mem_of_endpoint_desc be d) = d"
  by (simp add: endpoint_desc_of_mem_def mem_of_endpoint_desc_def nth_append)

end
