(* ===== verification/DescParse.thy ===== *)
theory DescParse
  imports Descriptors
begin

text \<open>
  The parser of configuration descriptors of descriptors.c: usbi_parse_endpoint,
  usbi_get_intf_altno, usbi_parse_interface and usbi_parse_configuration, and
  usbi_destroy_configuration, which frees what they built.

  The buffer is what is left of the memory object cfgr->data from the pointer on, and
  buflen the length variable next to it. Only usbi_get_intf_altno can move its pointer
  backwards (it reads lengths as signed chars), so usbi_parse_interface has the whole
  object and an offset. av n says whether calloc of n bytes succeeds, and the local
  variable header, which is not initialised in the code, is a parameter.
\<close>

section \<open>Headers\<close>

definition USBI_DESC_HEADER_SIZE :: nat where "USBI_DESC_HEADER_SIZE = 2"
definition USBI_DEVICE_DESC_SIZE :: nat where "USBI_DEVICE_DESC_SIZE = 18"
definition USBI_INTERFACE_DESC_SIZE :: nat where "USBI_INTERFACE_DESC_SIZE = 9"
definition USBI_ENDPOINT_DESC_SIZE :: nat where "USBI_ENDPOINT_DESC_SIZE = 7"
definition USBI_ENDPOINT_AUDIO_DESC_SIZE :: nat where "USBI_ENDPOINT_AUDIO_DESC_SIZE = 9"
definition USBI_MAXENDPOINTS :: nat where "USBI_MAXENDPOINTS = 32"
definition USBI_MAXINTERFACES :: nat where "USBI_MAXINTERFACES = 32"
definition USBI_MAXCONFIG :: nat where "USBI_MAXCONFIG = 8"

lemmas desc_sizes = USBI_DESC_HEADER_SIZE_def USBI_DEVICE_DESC_SIZE_def
  USBI_INTERFACE_DESC_SIZE_def USBI_ENDPOINT_DESC_SIZE_def USBI_ENDPOINT_AUDIO_DESC_SIZE_def
  USBI_MAXENDPOINTS_def USBI_MAXINTERFACES_def USBI_MAXCONFIG_def

text \<open>The four descriptor types at which the skipping loops stop.\<close>

definition proper_type :: "u8 \<Rightarrow> bool" where
  "proper_type t \<longleftrightarrow> t = USB_DESC_TYPE_ENDPOINT \<or> t = USB_DESC_TYPE_INTERFACE \<or>
     t = USB_DESC_TYPE_CONFIG \<or> t = USB_DESC_TYPE_DEVICE"

lemma parse_header_0 [simp]: "parse_header be h b 0 = Some h"
  by (simp add: parse_header_def parse_data_def openusb_parse_data_def parse_char_def
      pd_store_def error_codes)

lemma parse_header_1:
  "parse_header be h b 1 = (case b of [] \<Rightarrow> None | x # _ \<Rightarrow> Some (h\<lparr>h_bLength := x\<rparr>))"
  by (simp add: parse_header_def parse_data_def openusb_parse_data_def parse_char_def
      pd_store_def error_codes rdn_def wrn_def mem_of_header_def header_of_mem_def
      split: list.split)

lemma parse_header_ge2:
  assumes "2 \<le> len"
  shows "parse_header be h b len = (case b of x # y # _ \<Rightarrow>
     Some \<lparr>h_bLength = x, h_bDescriptorType = y\<rparr> | _ \<Rightarrow> None)"
proof -
  have "\<not> len < 1" "\<not> len - 1 < 1"
    using assms by (auto simp: word_less_nat_alt word_le_nat_alt unat_sub)
  then show ?thesis
    by (simp add: parse_header_def parse_data_def openusb_parse_data_def parse_char_def
      pd_store_def error_codes rdn_def wrn_def mem_of_header_def header_of_mem_def
      split: list.split)
qed

text \<open>Two calls at the same place give the same header, whatever the variable held.\<close>

lemma parse_header_indep: "2 \<le> len \<Longrightarrow> parse_header be h b len = parse_header be h' b len"
  by (simp add: parse_header_ge2)

lemma parse_header_ge2_Some:
  "2 \<le> len \<Longrightarrow> parse_header be h b len = Some h' \<Longrightarrow> 2 \<le> length b \<and> h_bLength h' = b ! 0"
  by (auto simp: parse_header_ge2 split: list.splits)

section \<open>Endpoints\<close>

text \<open>
  The loop over class and vendor specific descriptors, the same in
  usbi_parse_endpoint and usbi_parse_interface. None inside is the return of -1. The third
  result is extra_len; the pointer has moved by the same amount.
\<close>

function skip_class :: "bool \<Rightarrow> usb_descriptor_header \<Rightarrow> u8 list \<Rightarrow> u32 \<Rightarrow> nat \<Rightarrow>
    (usb_descriptor_header \<times> u32 \<times> nat) option option" where
  "skip_class be h buf buflen extra_len =
     (if \<not> 2 \<le> buflen then Some (Some (h, buflen, extra_len))
      else (case parse_header be h buf buflen of
        None \<Rightarrow> None
      | Some h' \<Rightarrow>
          (if h_bLength h' < 2 then Some None
           else if proper_type (h_bDescriptorType h') then Some (Some (h', buflen, extra_len))
           else skip_class be h' (drop (unat (h_bLength h')) buf)
                  (buflen - ucast (h_bLength h')) (extra_len + unat (h_bLength h')))))"
  by pat_completeness auto
termination
  by (relation "measure (\<lambda>(be, h, buf, buflen, n). length buf)")
     (auto dest!: parse_header_ge2_Some simp: word_less_nat_alt)

declare skip_class.simps [simp del]

text \<open>The copy of the skipped bytes: None inside is a failed calloc.\<close>

definition copy_extra :: "(nat \<Rightarrow> bool) \<Rightarrow> u8 list \<Rightarrow> nat \<Rightarrow> u8 list option option" where
  "copy_extra av extra n =
     (if \<not> av n then Some None else do { bytes \<leftarrow> rdn extra 0 n; Some (Some bytes) })"

definition usbi_parse_endpoint :: "(nat \<Rightarrow> bool) \<Rightarrow> bool \<Rightarrow> usb_descriptor_header \<Rightarrow>
    usbi_endpoint \<Rightarrow> u8 list option \<Rightarrow> u32 \<Rightarrow> (int \<times> usbi_endpoint) option" where
  "usbi_parse_endpoint av be h0 ep bufp buflen =
     (case bufp of None \<Rightarrow> Some (OPENUSB_PARSE_ERROR, ep)
      | Some buf \<Rightarrow>
     (if buflen = 0 then Some (OPENUSB_PARSE_ERROR, ep)
      else do {
        h \<leftarrow> parse_header be h0 buf buflen;
        (if ucast (h_bLength h) > buflen then Some (-1, ep)
         else if h_bDescriptorType h \<noteq> USB_DESC_TYPE_ENDPOINT then Some (0, ep)
         else if unat (h_bLength h) < USBI_ENDPOINT_DESC_SIZE then Some (0, ep)
         else do {
           (r, d, count) \<leftarrow> parse_endpoint_desc be
              (if unat (h_bLength h) \<ge> USBI_ENDPOINT_AUDIO_DESC_SIZE then ''bbbbwbbb''
               else ''bbbbwb'') (ep_desc ep) buf buflen;
           let ep = ep\<lparr>ep_desc := d\<rparr>;
           let l = unat (h_bLength h);
           let buf = drop l buf;
           r \<leftarrow> skip_class be h buf (buflen - ucast (h_bLength h)) 0;
           (case r of None \<Rightarrow> Some (-1, ep)
            | Some (h, buflen, extra_len) \<Rightarrow>
                (if extra_len = 0 then Some (int l, ep)
                 else do {
                   c \<leftarrow> copy_extra av buf extra_len;
                   (case c of None \<Rightarrow> Some (-1, ep\<lparr>ep_extra := Null\<rparr>)
                    | Some bytes \<Rightarrow> Some (int l + int extra_len,
                        ep\<lparr>ep_extra := Ptr bytes, ep_extralen := of_nat extra_len\<rparr>))
                 }))
         })
      }))"

section \<open>Interfaces\<close>

text \<open>
  usbi_get_intf_altno reads the descriptors as (signed) chars. mem is the whole object,
  pos the offset of p, which a length above 127 moves backwards. The loop runs
  forever on a descriptor of length zero, so it is a partial function: None is not
  returning, Some None an access outside the object or a signed overflow of len, and
  Some (Some n) a return of n.
\<close>

definition rdi :: "u8 list \<Rightarrow> int \<Rightarrow> u8 option" where
  "rdi mem i = (if 0 \<le> i then rd mem (nat i) else None)"

partial_function (option) altno_loop ::
  "u8 list \<Rightarrow> u8 \<Rightarrow> u32 \<Rightarrow> int \<Rightarrow> int \<Rightarrow> int \<Rightarrow> int option option" where
  "altno_loop mem fno buflen pos len altno =
     (if \<not> word_of_int len < buflen then Some (Some altno)
      else (case rdi mem pos of None \<Rightarrow> Some None
      | Some b \<Rightarrow>
     (if len + sint b \<ge> 2 ^ 31 then Some None
      else (case rdi mem (pos + sint b + 1) of None \<Rightarrow> Some None
      | Some t \<Rightarrow>
     (if t \<noteq> USB_DESC_TYPE_INTERFACE
      then altno_loop mem fno buflen (pos + sint b) (len + sint b) altno
      else (case rdi mem (pos + sint b + 2) of None \<Rightarrow> Some None
      | Some n \<Rightarrow> altno_loop mem fno buflen (pos + sint b) (len + sint b)
           (if n = fno then altno + 1 else altno)))))))"

declare altno_loop.simps [code]

definition usbi_get_intf_altno :: "u8 list \<Rightarrow> nat \<Rightarrow> u32 \<Rightarrow> int option option" where
  "usbi_get_intf_altno mem off buflen =
     (case rd mem (off + 2) of None \<Rightarrow> Some None
      | Some fno \<Rightarrow> altno_loop mem fno buflen (int off) 0 1)"

text \<open>
  The locals of usbi_parse_interface: offset of buf, buflen, parsed, header, the number
  of altsettings stored in the interface, and the array intf->altsettings.
\<close>

record pint =
  pi_off :: nat
  pi_len :: u32
  pi_parsed :: int
  pi_hdr :: usb_descriptor_header
  pi_num :: nat
  pi_alts :: "usbi_altsetting list"

definition pi_advance :: "nat \<Rightarrow> pint \<Rightarrow> pint" where
  "pi_advance n s = s\<lparr>pi_off := pi_off s + n, pi_len := pi_len s - of_nat n,
     pi_parsed := pi_parsed s + int n\<rparr>"

definition mk_intf :: "pint \<Rightarrow> usbi_altsetting list cptr \<Rightarrow> usbi_interface" where
  "mk_intf s p = \<lparr>if_num_altsettings = pi_num s, if_altsettings = p\<rparr>"

text \<open>Returns with the array kept, and with the array freed.\<close>

definition pi_keep :: "int \<Rightarrow> pint \<Rightarrow> (pint, int \<times> usbi_interface) ctl" where
  "pi_keep r s = Return (r, mk_intf s (Ptr (pi_alts s)))"

definition pi_free :: "int \<Rightarrow> pint \<Rightarrow> (pint, int \<times> usbi_interface) ctl" where
  "pi_free r s = Return (r, mk_intf s Dangling)"

text \<open>
  The error paths free as->endpoints n times with as = altsettings + num_altsettings,
  the entry after the last one filled in.
\<close>

fun free_alt_endpoints :: "nat \<Rightarrow> nat \<Rightarrow> usbi_altsetting list \<Rightarrow> usbi_altsetting list option" where
  "free_alt_endpoints 0 k alts = Some alts"
| "free_alt_endpoints (Suc n) k alts = do {
     a \<leftarrow> rd alts k;
     _ \<leftarrow> free_ptr (as_endpoints a);
     free_alt_endpoints n k (alts[k := a\<lparr>as_endpoints :=
        (case as_endpoints a of Null \<Rightarrow> Null | _ \<Rightarrow> Dangling)\<rparr>])
   }"

text \<open>The loop over the endpoints of one altsetting, i counting up to num_endpoints.\<close>

fun parse_endpoints :: "(nat \<Rightarrow> bool) \<Rightarrow> bool \<Rightarrow> u8 list \<Rightarrow> nat \<Rightarrow> nat \<Rightarrow> usbi_endpoint list \<Rightarrow> pint \<Rightarrow>
    (pint \<times> usbi_endpoint list, int) ctl option" where
  "parse_endpoints av be mem 0 i eps s = Some (Next (s, eps))"
| "parse_endpoints av be mem (Suc k) i eps s = do {
     let buf = drop (pi_off s) mem;
     h \<leftarrow> parse_header be (pi_hdr s) buf (pi_len s);
     (if ucast (h_bLength h) > pi_len s then Some (Return (-1))
      else do {
        ep \<leftarrow> rd eps i;
        (retval, ep) \<leftarrow> usbi_parse_endpoint av be h ep (Some buf) (pi_len s);
        (if retval < 0 then Some (Return retval)
         else parse_endpoints av be mem k (i + 1) (eps[i := ep])
                (pi_advance (nat retval) (s\<lparr>pi_hdr := h\<rparr>)))
      })
   }"

text \<open>One round of the loop over the altsettings, up to the extra descriptors.\<close>

definition alt_extra :: "(nat \<Rightarrow> bool) \<Rightarrow> bool \<Rightarrow> u8 list \<Rightarrow> pint \<Rightarrow>
    (pint \<times> usbi_altsetting, int \<times> usbi_interface) ctl option" where
  "alt_extra av be mem s = do {
     let buf = drop (pi_off s) mem;
     h \<leftarrow> parse_header be (pi_hdr s) buf (pi_len s);
     as \<leftarrow> rd (pi_alts s) (pi_num s);
     (r, d, count) \<leftarrow> parse_interface_desc be (as_desc as) buf (pi_len s);
     let as = as\<lparr>as_desc := d\<rparr>;
     let k = pi_num s;
     let s = pi_advance (unat (h_bLength h))
               (s\<lparr>pi_hdr := h, pi_num := k + 1, pi_alts := (pi_alts s)[k := as]\<rparr>);
     let buf = drop (pi_off s) mem;
     r \<leftarrow> skip_class be h buf (pi_len s) 0;
     (case r of None \<Rightarrow> Some (Return (-1, mk_intf s Dangling))
      | Some (h, buflen, extra_len) \<Rightarrow>
          (let s = pi_advance extra_len (s\<lparr>pi_hdr := h\<rparr>)
           in if extra_len = 0 then Some (Next (s, as))
              else do {
                c \<leftarrow> copy_extra av buf extra_len;
                (case c of
                   None \<Rightarrow> Some (Return (-1, mk_intf s (Ptr ((pi_alts s)[k := as\<lparr>as_extra := Null\<rparr>]))))
                 | Some bytes \<Rightarrow>
                     (let as = as\<lparr>as_extra := Ptr bytes, as_extralen := extra_len\<rparr>
                      in Some (Next (s\<lparr>pi_alts := (pi_alts s)[k := as]\<rparr>, as))))
              }))
   }"

text \<open>The endpoints of the altsetting.\<close>

definition alt_endpoints :: "(nat \<Rightarrow> bool) \<Rightarrow> bool \<Rightarrow> u8 list \<Rightarrow> pint \<Rightarrow> usbi_altsetting \<Rightarrow>
    (pint, int \<times> usbi_interface) ctl option" where
  "alt_endpoints av be mem s as = do {
     h \<leftarrow> parse_header be (pi_hdr s) (drop (pi_off s) mem) (pi_len s);
     let s = s\<lparr>pi_hdr := h\<rparr>;
     let n = unat (id_bNumEndpoints (as_desc as));
     (if pi_len s \<ge> 2 \<and> (h_bDescriptorType h = USB_DESC_TYPE_CONFIG \<or>
           h_bDescriptorType h = USB_DESC_TYPE_DEVICE)
      then Some (pi_keep (pi_parsed s) s)
      else if n > USBI_MAXENDPOINTS then Some (pi_free (-1) s)
      else if \<not> av (n * sizeof_endpoint) then do {
        alts \<leftarrow> free_alt_endpoints (pi_num s) (pi_num s)
                  ((pi_alts s)[pi_num s - 1 := as\<lparr>as_endpoints := Null\<rparr>]);
        Some (pi_free (-1) s)
      }
      else do {
        r \<leftarrow> parse_endpoints av be mem n 0 (replicate n zero_endpoint) s;
        (case r of
           Return e \<Rightarrow> do {
             alts \<leftarrow> free_alt_endpoints (pi_num s + 1) (pi_num s) (pi_alts s);
             Some (pi_free e s)
           }
         | Next (s, eps) \<Rightarrow> Some (Next (s\<lparr>pi_alts := (pi_alts s)[pi_num s - 1 :=
              as\<lparr>as_endpoints := Ptr eps, as_num_endpoints := n\<rparr>]\<rparr>)))
      })
   }"

text \<open>The end of the round: is the next descriptor an alternate setting of this interface?\<close>

definition alt_more :: "bool \<Rightarrow> u8 list \<Rightarrow> pint \<Rightarrow> (pint, int \<times> usbi_interface) ctl option" where
  "alt_more be mem s =
     (if pi_len s = 0 then Some (Next s)
      else do {
        let buf = drop (pi_off s) mem;
        h \<leftarrow> parse_header be (pi_hdr s) buf (pi_len s);
        alt_num \<leftarrow> rd buf 3;
        (if unat (pi_len s) < USBI_INTERFACE_DESC_SIZE \<or>
            h_bDescriptorType h \<noteq> USB_DESC_TYPE_INTERFACE \<or> alt_num = 0
         then Some (pi_keep (pi_parsed s) (s\<lparr>pi_hdr := h\<rparr>))
         else Some (Next (s\<lparr>pi_hdr := h\<rparr>)))
      })"

definition alt_body :: "(nat \<Rightarrow> bool) \<Rightarrow> bool \<Rightarrow> u8 list \<Rightarrow> pint \<Rightarrow>
    (pint, int \<times> usbi_interface) ctl option" where
  "alt_body av be mem s = do {
     r \<leftarrow> alt_extra av be mem s;
     (case r of Return x \<Rightarrow> Some (Return x)
      | Next (s, as) \<Rightarrow> do {
          r \<leftarrow> alt_endpoints av be mem s as;
          (case r of Return x \<Rightarrow> Some (Return x) | Next s \<Rightarrow> alt_more be mem s)
        })
   }"

text \<open>Every round moves the pointer forward, or returns: a length of zero is an error.\<close>

lemma skip_class_zero:
  assumes "2 \<le> buflen" and "parse_header be h0 buf buflen = Some h" and "h_bLength h < 2"
  shows "skip_class be h1 buf buflen n = Some None"
  using assms parse_header_indep [of buflen be h0 buf h1]
  by (simp add: skip_class.simps)

lemma alt_extra_progress:
  assumes "alt_extra av be mem s = Some (Next (s', as))" and "9 \<le> pi_len s"
  shows "pi_off s < pi_off s' \<and> pi_off s < length mem"
proof -
  have ge: "2 \<le> pi_len s"
    using assms(2) by (simp add: word_le_nat_alt)
  from assms(1) obtain h h' l n where
      h: "parse_header be (pi_hdr s) (drop (pi_off s) mem) (pi_len s) = Some h"
    and r: "skip_class be h (drop (pi_off s + unat (h_bLength h)) mem)
              (pi_len s - of_nat (unat (h_bLength h))) 0 = Some (Some (h', l, n))"
    and o: "pi_off s' = pi_off s + unat (h_bLength h) + n"
    by (auto simp: alt_extra_def pi_advance_def Let_def elim!: bind_SomeE
        split: prod.split_asm option.split_asm if_split_asm)
  have "pi_off s < length mem"
    using parse_header_ge2_Some [OF ge h] by auto
  moreover have "0 < unat (h_bLength h)"
  proof (rule ccontr)
    assume "\<not> 0 < unat (h_bLength h)"
    then have z: "h_bLength h = 0" by (simp add: unat_eq_zero)
    then have "skip_class be h (drop (pi_off s) mem) (pi_len s) 0 = Some None"
      by (intro skip_class_zero [OF ge h]) simp
    then show False using r z by simp
  qed
  ultimately show ?thesis using o by simp
qed

lemma parse_endpoints_mono:
  "parse_endpoints av be mem k i eps s = Some (Next (s', eps')) \<Longrightarrow> pi_off s \<le> pi_off s'"
proof (induction k arbitrary: i eps s)
  case (Suc k)
  then obtain h ep retval ep' where
    "parse_endpoints av be mem k (i + 1) (eps[i := ep'])
       (pi_advance (nat retval) (s\<lparr>pi_hdr := h\<rparr>)) = Some (Next (s', eps'))"
    by (auto simp: Let_def elim!: bind_SomeE split: if_split_asm)
  from Suc.IH [OF this] show ?case by (simp add: pi_advance_def)
qed simp

lemma alt_endpoints_mono:
  "alt_endpoints av be mem s as = Some (Next s') \<Longrightarrow> pi_off s \<le> pi_off s'"
  by (auto simp: alt_endpoints_def Let_def pi_keep_def pi_free_def elim!: bind_SomeE
      split: if_split_asm ctl.split_asm prod.split_asm dest!: parse_endpoints_mono)

lemma alt_more_off: "alt_more be mem s = Some (Next s') \<Longrightarrow> pi_off s' = pi_off s"
  by (auto simp: alt_more_def Let_def pi_keep_def elim!: bind_SomeE split: if_split_asm)

lemma alt_body_progress:
  assumes "alt_body av be mem s = Some (Next s')" and "9 \<le> pi_len s"
  shows "length mem - pi_off s' < length mem - pi_off s"
proof -
  from assms(1) obtain s1 as s2 where 1: "alt_extra av be mem s = Some (Next (s1, as))"
    and 2: "alt_endpoints av be mem s1 as = Some (Next s2)"
    and 3: "alt_more be mem s2 = Some (Next s')"
    by (auto simp: alt_body_def elim!: bind_SomeE split: ctl.split_asm prod.split_asm)
  from alt_extra_progress [OF 1 assms(2)] alt_endpoints_mono [OF 2] alt_more_off [OF 3]
  show ?thesis by linarith
qed

function interface_loop :: "(nat \<Rightarrow> bool) \<Rightarrow> bool \<Rightarrow> u8 list \<Rightarrow> pint \<Rightarrow>
    (int \<times> usbi_interface) option" where
  "interface_loop av be mem s =
     (if \<not> 9 \<le> pi_len s then Some (pi_parsed s, mk_intf s (Ptr (pi_alts s)))
      else (case alt_body av be mem s of
        None \<Rightarrow> None
      | Some (Return r) \<Rightarrow> Some r
      | Some (Next s') \<Rightarrow> interface_loop av be mem s'))"
  by pat_completeness auto
termination
  by (relation "measure (\<lambda>(av, be, mem, s). length mem - pi_off s)")
     (auto dest: alt_body_progress)

declare interface_loop.simps [simp del]

text \<open>
  usbi_parse_interface: the buffer is mem from off on. None outside is a call of
  usbi_get_intf_altno that does not return.
\<close>

definition usbi_parse_interface :: "(nat \<Rightarrow> bool) \<Rightarrow> bool \<Rightarrow> usb_descriptor_header \<Rightarrow>
    usbi_interface \<Rightarrow> (u8 list \<times> nat) option \<Rightarrow> u32 \<Rightarrow> (int \<times> usbi_interface) option option" where
  "usbi_parse_interface av be h0 intf bufp buflen =
     (case bufp of None \<Rightarrow> Some (Some (OPENUSB_PARSE_ERROR, intf))
      | Some (mem, off) \<Rightarrow>
     (if buflen = 0 then Some (Some (OPENUSB_PARSE_ERROR, intf))
      else (case rd mem (off + 1) of None \<Rightarrow> Some None
      | Some t \<Rightarrow>
     (if t \<noteq> USB_DESC_TYPE_INTERFACE then Some (Some (sint buflen, intf))
      else do {
        n \<leftarrow> usbi_get_intf_altno mem off buflen;
        (case n of None \<Rightarrow> Some None
         | Some n \<Rightarrow>
           (let alt_num = unat (word_of_int n :: u8)
            in if \<not> av (sizeof_altsetting * alt_num)
               then Some (Some (-1, \<lparr>if_num_altsettings = 0, if_altsettings = Null\<rparr>))
               else Some (interface_loop av be mem
                 \<lparr>pi_off = off, pi_len = buflen, pi_parsed = 0, pi_hdr = h0, pi_num = 0,
                  pi_alts = replicate alt_num zero_altsetting\<rparr>)))
      }))))"

section \<open>Configurations\<close>

text \<open>
  The skipping loop of usbi_parse_configuration, which also checks the length against
  buflen, a size_t that is cut to 32 bits when it is passed to openusb_parse_data.
\<close>

lemma unat_ucast_u8_u64 [simp]: "unat (ucast (b::u8) :: u64) = unat b"
proof -
  have "unat b < 2 ^ 64" using unat_u8_less [of b] by (rule less_trans) simp
  then show ?thesis by (simp add: unsigned_ucast_eq take_bit_nat_eq_self)
qed

function skip_class_cfg :: "bool \<Rightarrow> usb_descriptor_header \<Rightarrow> u8 list \<Rightarrow> u64 \<Rightarrow> nat \<Rightarrow>
    (u64 \<times> nat) option option" where
  "skip_class_cfg be h buf buflen extra_len =
     (if \<not> 2 \<le> buflen then Some (Some (buflen, extra_len))
      else (case parse_header be h buf (ucast buflen) of
        None \<Rightarrow> None
      | Some h' \<Rightarrow>
          (if ucast (h_bLength h') > buflen \<or> h_bLength h' < 2 then Some None
           else if proper_type (h_bDescriptorType h') then Some (Some (buflen, extra_len))
           else skip_class_cfg be h' (drop (unat (h_bLength h')) buf)
                  (buflen - ucast (h_bLength h')) (extra_len + unat (h_bLength h')))))"
  by pat_completeness auto

termination
  by (relation "measure (\<lambda>(be, h, buf, buflen, n). unat buflen)")
     (auto simp: word_less_nat_alt word_le_nat_alt unat_sub not_less)

declare skip_class_cfg.simps [simp del]

text \<open>The loop over the interfaces: the result is the position and buflen after it.\<close>

fun cfg_interfaces :: "(nat \<Rightarrow> bool) \<Rightarrow> bool \<Rightarrow> usb_descriptor_header \<Rightarrow> u8 list \<Rightarrow> nat \<Rightarrow> nat \<Rightarrow>
    usbi_interface list \<Rightarrow> nat \<Rightarrow> u64 \<Rightarrow> (int \<times> usbi_interface list \<times> u64) option option" where
  "cfg_interfaces av be h0 mem 0 i intfs off buflen = Some (Some (0, intfs, buflen))"
| "cfg_interfaces av be h0 mem (Suc k) i intfs off buflen =
     (if buflen = 0 then Some (Some (0, intfs, buflen))
      else (case rd intfs i of None \<Rightarrow> Some None
      | Some intf \<Rightarrow> do {
        r \<leftarrow> usbi_parse_interface av be h0 intf (Some (mem, off)) (ucast buflen);
        (case r of None \<Rightarrow> Some None
         | Some (retval, intf) \<Rightarrow>
           (if retval < 0 then Some (Some (retval, intfs, buflen))
            else cfg_interfaces av be h0 mem k (i + 1) (intfs[i := intf])
                   (off + nat retval) (buflen - word_of_int retval)))
      }))"

definition cfg_rest :: "(nat \<Rightarrow> bool) \<Rightarrow> bool \<Rightarrow> usb_descriptor_header \<Rightarrow> usbi_config \<Rightarrow> u8 list \<Rightarrow>
    nat \<Rightarrow> u64 \<Rightarrow> (int \<times> usbi_config) option option" where
  "cfg_rest av be h0 cfg mem off buflen =
     (case skip_class_cfg be h0 (drop off mem) buflen 0 of
        None \<Rightarrow> Some None
      | Some None \<Rightarrow> Some (Some (-1, cfg\<lparr>cf_interfaces := Dangling\<rparr>))
      | Some (Some (buflen, extra_len)) \<Rightarrow>
     (case (if extra_len = 0 then Some (Some (cfg\<lparr>cf_extra := Null\<rparr>)) else do {
              c \<leftarrow> copy_extra av (drop off mem) extra_len;
              Some (case c of None \<Rightarrow> None
                    | Some bytes \<Rightarrow> Some (cfg\<lparr>cf_extra := Ptr bytes, cf_extralen := extra_len\<rparr>))
            }) of
        None \<Rightarrow> Some None
      | Some None \<Rightarrow> Some (Some (OPENUSB_PARSE_ERROR, cfg\<lparr>cf_extra := Null\<rparr>))
      | Some (Some cfg) \<Rightarrow> do {
          r \<leftarrow> cfg_interfaces av be h0 mem (cf_num_interfaces cfg) 0
                 (replicate (cf_num_interfaces cfg) zero_interface) (off + extra_len) buflen;
          (case r of None \<Rightarrow> Some None
           | Some (retval, intfs, buflen) \<Rightarrow>
             (if retval < 0 then Some (Some (retval, cfg\<lparr>cf_interfaces := Dangling\<rparr>))
              else Some (Some (sint (ucast buflen :: u32), cfg\<lparr>cf_interfaces := Ptr intfs\<rparr>))))
        }))"

definition usbi_parse_configuration :: "(nat \<Rightarrow> bool) \<Rightarrow> bool \<Rightarrow> usb_descriptor_header \<Rightarrow>
    usbi_config \<Rightarrow> u8 list option \<Rightarrow> u64 \<Rightarrow> (int \<times> usbi_config) option option" where
  "usbi_parse_configuration av be h0 cfg bufp buflen =
     (case bufp of None \<Rightarrow> Some (Some (OPENUSB_PARSE_ERROR, cfg))
      | Some mem \<Rightarrow>
     (if buflen = 0 then Some (Some (OPENUSB_PARSE_ERROR, cfg))
      else (case parse_header be h0 mem (ucast buflen) of None \<Rightarrow> Some None
      | Some h \<Rightarrow>
     (case parse_config_desc be ''bbwbbbbb'' (cf_desc cfg) mem (ucast buflen) of
        None \<Rightarrow> Some None
      | Some (r, d, count) \<Rightarrow>
     (let cfg = cfg\<lparr>cf_desc := d\<rparr>; n = unat (cd_bNumInterfaces d)
      in if n > USBI_MAXINTERFACES then Some (Some (-1, cfg))
         else if \<not> av (n * sizeof_interface) then Some (Some (-1, cfg\<lparr>cf_interfaces := Null\<rparr>))
         else cfg_rest av be h
                (cfg\<lparr>cf_num_interfaces := n, cf_interfaces := Ptr (replicate n zero_interface)\<rparr>)
                mem (unat (h_bLength h)) (buflen - ucast (h_bLength h)))))))"

end
