(* ===== verification/DescRound.thy ===== *)
theory DescRound
  imports DescParse
begin

text \<open>
  What a configuration descriptor means, and the proof that usbi_parse_configuration
  reads it back. A configuration is a tree (configuration, interfaces, alternate settings,
  endpoints, each followed by its class and vendor specific descriptors); enc_config is its
  layout on the wire as the USB specification gives it, repr_config the internal structure
  of descr.h it should become.
\<close>

section \<open>Descriptor trees\<close>

record spec_ep =
  sp_desc :: usb_endpoint_desc
  sp_extra :: "u8 list list"

record spec_alt =
  sa_desc :: usb_interface_desc
  sa_extra :: "u8 list list"
  sa_eps :: "spec_ep list"

record spec_config =
  sc_desc :: usb_config_desc
  sc_extra :: "u8 list list"
  sc_intfs :: "spec_alt list list"

definition wire16 :: "u16 \<Rightarrow> u8 list" where
  "wire16 w = [ucast w, ucast (drop_bit 8 w)]"

definition enc_endpoint_desc :: "usb_endpoint_desc \<Rightarrow> u8 list" where
  "enc_endpoint_desc d =
     [ed_bLength d, ed_bDescriptorType d, ed_bEndpointAddress d, ed_bmAttributes d] @
     wire16 (ed_wMaxPacketSize d) @ [ed_bInterval d] @
     (if ed_bLength d = 9 then [ed_bRefresh d, ed_bSynchAddress d] else [])"

definition enc_config_desc :: "usb_config_desc \<Rightarrow> u8 list" where
  "enc_config_desc d = [cd_bLength d, cd_bDescriptorType d] @ wire16 (cd_wTotalLength d) @
     [cd_bNumInterfaces d, cd_bConfigurationValue d, cd_iConfiguration d, cd_bmAttributes d,
      cd_bMaxPower d]"

text \<open>A tree as the sequence of its descriptors, and its bytes.\<close>

definition ep_descs :: "spec_ep \<Rightarrow> u8 list list" where
  "ep_descs e = enc_endpoint_desc (sp_desc e) # sp_extra e"

definition eps_descs :: "spec_ep list \<Rightarrow> u8 list list" where
  "eps_descs es = concat (map ep_descs es)"

definition alt_descs :: "spec_alt \<Rightarrow> u8 list list" where
  "alt_descs a = mem_of_interface_desc (sa_desc a) # sa_extra a @ eps_descs (sa_eps a)"

definition intf_descs :: "spec_alt list \<Rightarrow> u8 list list" where
  "intf_descs as = concat (map alt_descs as)"

definition config_descs :: "spec_config \<Rightarrow> u8 list list" where
  "config_descs c = enc_config_desc (sc_desc c) # sc_extra c @ concat (map intf_descs (sc_intfs c))"

definition enc_config :: "spec_config \<Rightarrow> u8 list" where
  "enc_config c = concat (config_descs c)"

text \<open>
  Well-formedness. The bound of 127 on a class specific descriptor and the bounds on the
  numbers are the ones the library needs (its lengths are signed chars, its limits the
  USBI_MAX constants).
\<close>

definition wf_class :: "u8 list \<Rightarrow> bool" where
  "wf_class d \<longleftrightarrow> 2 \<le> length d \<and> length d \<le> 127 \<and> unat (d ! 0) = length d \<and>
     \<not> proper_type (d ! 1)"

definition wf_ep :: "spec_ep \<Rightarrow> bool" where
  "wf_ep e \<longleftrightarrow> ed_bDescriptorType (sp_desc e) = USB_DESC_TYPE_ENDPOINT \<and>
     (ed_bLength (sp_desc e) = 7 \<and> ed_bRefresh (sp_desc e) = 0 \<and> ed_bSynchAddress (sp_desc e) = 0 \<or>
      ed_bLength (sp_desc e) = 9) \<and> list_all wf_class (sp_extra e)"

definition wf_alt :: "u8 \<Rightarrow> spec_alt \<Rightarrow> bool" where
  "wf_alt n a \<longleftrightarrow> id_bLength (sa_desc a) = 9 \<and>
     id_bDescriptorType (sa_desc a) = USB_DESC_TYPE_INTERFACE \<and>
     id_bInterfaceNumber (sa_desc a) = n \<and>
     unat (id_bNumEndpoints (sa_desc a)) = length (sa_eps a) \<and>
     length (sa_eps a) \<le> USBI_MAXENDPOINTS \<and>
     list_all wf_class (sa_extra a) \<and> list_all wf_ep (sa_eps a)"

definition alt_setting :: "spec_alt \<Rightarrow> u8" where
  "alt_setting a = id_bAlternateSetting (sa_desc a)"

definition intf_number :: "spec_alt list \<Rightarrow> u8" where
  "intf_number as = id_bInterfaceNumber (sa_desc (hd as))"

definition wf_intf :: "spec_alt list \<Rightarrow> bool" where
  "wf_intf as \<longleftrightarrow> as \<noteq> [] \<and> length as < 256 \<and> list_all (wf_alt (intf_number as)) as \<and>
     alt_setting (hd as) = 0 \<and> list_all (\<lambda>a. alt_setting a \<noteq> 0) (tl as)"

definition wf_config :: "spec_config \<Rightarrow> bool" where
  "wf_config c \<longleftrightarrow> cd_bLength (sc_desc c) = 9 \<and>
     cd_bDescriptorType (sc_desc c) = USB_DESC_TYPE_CONFIG \<and>
     unat (cd_wTotalLength (sc_desc c)) = length (enc_config c) \<and>
     unat (cd_bNumInterfaces (sc_desc c)) = length (sc_intfs c) \<and>
     length (sc_intfs c) \<le> USBI_MAXINTERFACES \<and>
     list_all wf_class (sc_extra c) \<and> list_all wf_intf (sc_intfs c) \<and>
     distinct (map intf_number (sc_intfs c))"

text \<open>The structures the parser should build.\<close>

definition ptr_of :: "u8 list \<Rightarrow> u8 list cptr" where
  "ptr_of bs = (if bs = [] then Null else Ptr bs)"

definition repr_ep :: "spec_ep \<Rightarrow> usbi_endpoint" where
  "repr_ep e = \<lparr>ep_desc = sp_desc e, ep_extra = ptr_of (concat (sp_extra e)),
     ep_extralen = of_nat (length (concat (sp_extra e)))\<rparr>"

definition repr_alt :: "spec_alt \<Rightarrow> usbi_altsetting" where
  "repr_alt a = \<lparr>as_desc = sa_desc a, as_num_endpoints = length (sa_eps a),
     as_endpoints = Ptr (map repr_ep (sa_eps a)), as_extra = ptr_of (concat (sa_extra a)),
     as_extralen = length (concat (sa_extra a))\<rparr>"

definition repr_intf :: "spec_alt list \<Rightarrow> usbi_interface" where
  "repr_intf as = \<lparr>if_num_altsettings = length as, if_altsettings = Ptr (map repr_alt as)\<rparr>"

definition repr_config :: "spec_config \<Rightarrow> usbi_config" where
  "repr_config c = \<lparr>cf_desc = sc_desc c, cf_num_interfaces = length (sc_intfs c),
     cf_interfaces = Ptr (map repr_intf (sc_intfs c)),
     cf_extra = ptr_of (concat (sc_extra c)), cf_extralen = length (concat (sc_extra c))\<rparr>"

section \<open>Positions in the buffer\<close>

lemma unat_sub_nat:
  assumes "n \<le> unat (w::u32)"
  shows "unat (w - of_nat n) = unat w - n"
proof -
  have "unat w < 2 ^ 32" using unsigned_less [of w] by simp
  with assms have "n < 2 ^ 32" by simp
  then have "unat (of_nat n :: u32) = n" by (simp add: unsigned_of_nat take_bit_nat_eq_self)
  with assms show ?thesis by (simp add: unat_sub_u32 word_le_nat_alt)
qed

lemma unat_sub_ucast:
  "unat b \<le> unat (w::u32) \<Longrightarrow> unat (w - ucast (b::u8)) = unat w - unat b"
  by (simp add: unat_sub_u32 word_le_nat_alt)

text \<open>
  At offset off the object holds bs, the rest of the configuration, and then g, which is
  not part of it; the variable buflen is the length of bs.
\<close>

definition ahead :: "u8 list \<Rightarrow> nat \<Rightarrow> u32 \<Rightarrow> u8 list \<Rightarrow> u8 list \<Rightarrow> bool" where
  "ahead mem off len bs g \<longleftrightarrow> drop off mem = bs @ g \<and> unat len = length bs"

lemma aheadD: "ahead mem off len bs g \<Longrightarrow> drop off mem = bs @ g"
  "ahead mem off len bs g \<Longrightarrow> unat len = length bs"
  by (simp_all add: ahead_def)

lemma ahead_step:
  "ahead mem off len (xs @ bs) g \<Longrightarrow>
     ahead mem (off + length xs) (len - of_nat (length xs)) bs g"
  by (auto simp: ahead_def unat_sub_nat add.commute [of off] simp flip: drop_drop)

text \<open>What the skipping loops may stop at: the end, or a descriptor of the tree.\<close>

definition starts_proper :: "u8 list \<Rightarrow> bool" where
  "starts_proper bs \<longleftrightarrow> bs = [] \<or> (\<exists>x y bs'. bs = x # y # bs' \<and> 2 \<le> unat x \<and> proper_type y)"

lemma skip_class_ok:
  assumes "list_all wf_class ds" "starts_proper bs"
    and "buf = concat ds @ bs @ g" "unat len = length (concat ds @ bs)"
  shows "\<exists>h'. skip_class be h buf len n =
     Some (Some (h', len - of_nat (length (concat ds)), n + length (concat ds)))"
  using assms
proof (induction ds arbitrary: h buf len n)
  case Nil
  show ?case
  proof (cases "bs = []")
    case True
    then have "len = 0" using Nil by (simp add: unat_eq_zero)
    then show ?thesis by (simp add: skip_class.simps)
  next
    case False
    then obtain x y bs' where bs: "bs = x # y # bs'" "2 \<le> unat x" "proper_type y"
      using Nil(2) by (auto simp: starts_proper_def)
    then have "2 \<le> len" "\<not> x < 2" using Nil by (auto simp: word_le_nat_alt word_less_nat_alt)
    then show ?thesis using Nil bs by (simp add: skip_class.simps [of be h] parse_header_ge2)
  qed
next
  case (Cons d ds)
  then obtain x y d' where d: "d = x # y # d'" "unat x = length d" "length d \<le> 127"
    "\<not> proper_type y"
    by (cases d rule: list.exhaust; cases "tl d" rule: list.exhaust) (auto simp: wf_class_def)
  have len: "unat len = length d + length (concat ds @ bs)"
    using Cons.prems(4) by simp
  have ge: "2 \<le> len" "\<not> x < 2"
    using len d by (auto simp: word_le_nat_alt word_less_nat_alt)
  let ?len = "len - ucast x"
  have "unat ?len = length (concat ds @ bs)"
    using len d(2) by (simp add: unat_sub_ucast)
  then obtain h' where h': "skip_class be \<lparr>h_bLength = x, h_bDescriptorType = y\<rparr>
      (concat ds @ bs @ g) ?len (n + length d) =
     Some (Some (h', ?len - of_nat (length (concat ds)), n + length d + length (concat ds)))"
    using Cons.IH [OF _ Cons.prems(2) refl, of ?len] Cons.prems(1) by fastforce
  have c: "ucast x = (of_nat (length d) :: u32)"
    by (simp flip: d(2))
  have "skip_class be h buf len n = skip_class be \<lparr>h_bLength = x, h_bDescriptorType = y\<rparr>
      (concat ds @ bs @ g) ?len (n + length d)"
    using ge d Cons.prems(3) by (simp add: skip_class.simps [of be h] parse_header_ge2)
  with h' c show ?case by (simp add: algebra_simps)
qed

section \<open>One descriptor\<close>

lemma le16_wire [simp]: "le16_st be (wire16 w) = st16 be w"
  by (simp add: le16_st_def wire16_def)

lemma parse_endpoint_desc_7:
  assumes "unat len \<ge> 7" and "ed_bLength d = 7" "ed_bRefresh d = 0" "ed_bSynchAddress d = 0"
  shows "\<exists>c. parse_endpoint_desc be ''bbbbwb'' zero_endpoint_desc
     (enc_endpoint_desc d @ r) len = Some (0, d, c)"
  using assms by (cases d)
    (simp add: parse_endpoint_desc_def parse_data_ok item_size_def stores_def item_pad_def
      Let_def enc_endpoint_desc_def mem_of_endpoint_desc_def endpoint_desc_of_mem_def
      wire16_def wrn_def le16_st_def nth_append item_val_def OPENUSB_SUCCESS_def
      zero_endpoint_desc_def)

lemma parse_endpoint_desc_9:
  assumes "unat len \<ge> 9" and "ed_bLength d = 9"
  shows "\<exists>c. parse_endpoint_desc be ''bbbbwbbb'' d0 (enc_endpoint_desc d @ r) len = Some (0, d, c)"
  using assms by (cases d)
    (simp add: parse_endpoint_desc_def parse_data_ok item_size_def stores_def item_pad_def
      Let_def enc_endpoint_desc_def mem_of_endpoint_desc_def endpoint_desc_of_mem_def
      wire16_def wrn_def le16_st_def nth_append item_val_def OPENUSB_SUCCESS_def)

lemma parse_interface_desc_ok:
  assumes "unat len \<ge> 9"
  shows "\<exists>c. parse_interface_desc be d0 (mem_of_interface_desc d @ r) len = Some (0, d, c)"
  using assms by (cases d)
    (simp add: parse_interface_desc_def parse_data_ok item_size_def stores_def item_pad_def
      Let_def mem_of_interface_desc_def interface_desc_of_mem_def
      wrn_def nth_append item_val_def OPENUSB_SUCCESS_def)

lemma parse_config_desc_ok:
  assumes "unat len \<ge> 9"
  shows "\<exists>c. parse_config_desc be ''bbwbbbbb'' d0 (enc_config_desc d @ r) len = Some (0, d, c)"
  using assms by (cases d)
    (simp add: parse_config_desc_def parse_data_ok item_size_def stores_def item_pad_def
      Let_def enc_config_desc_def mem_of_config_desc_def config_desc_of_mem_def
      wire16_def wrn_def le16_st_def nth_append item_val_def OPENUSB_SUCCESS_def)

section \<open>Endpoints\<close>

lemma copy_extra_ok: "av n \<Longrightarrow> n \<le> length b \<Longrightarrow> copy_extra av b n = Some (Some (take n b))"
  by (simp add: copy_extra_def rdn_def)

lemma length_enc_endpoint: "wf_ep e \<Longrightarrow>
    length (enc_endpoint_desc (sp_desc e)) = unat (ed_bLength (sp_desc e))"
  by (auto simp: wf_ep_def enc_endpoint_desc_def wire16_def)

lemma enc_endpoint_hd: "\<exists>r. enc_endpoint_desc d = ed_bLength d # ed_bDescriptorType d # r"
  by (simp add: enc_endpoint_desc_def)

lemma usbi_parse_endpoint_ok:
  assumes wf: "wf_ep e" and sp: "starts_proper bs" and av: "\<And>n. av n"
    and buf: "buf = concat (ep_descs e) @ bs @ g"
    and len: "unat len = length (concat (ep_descs e) @ bs)"
  shows "usbi_parse_endpoint av be h0 zero_endpoint (Some buf) len =
     Some (int (length (concat (ep_descs e))), repr_ep e)"
proof -
  let ?d = "sp_desc e" and ?x = "concat (sp_extra e)"
  let ?l = "ed_bLength ?d"
  obtain r where r: "enc_endpoint_desc ?d = ?l # ed_bDescriptorType ?d # r"
    using enc_endpoint_hd by blast
  have l: "?l = 7 \<or> ?l = 9" and ty: "ed_bDescriptorType ?d = USB_DESC_TYPE_ENDPOINT"
    using wf by (auto simp: wf_ep_def)
  have ld: "length (enc_endpoint_desc ?d) = unat ?l" using wf by (rule length_enc_endpoint)
  have buf': "buf = enc_endpoint_desc ?d @ ?x @ bs @ g"
    using buf by (simp add: ep_descs_def)
  have len': "unat len = unat ?l + length (?x @ bs)"
    using len ld by (simp add: ep_descs_def)
  have ge: "2 \<le> len" "len \<noteq> 0" "\<not> ucast ?l > len"
    using len' l by (auto simp: word_le_nat_alt word_less_nat_alt)
  have hdr: "parse_header be h0 buf len =
      Some \<lparr>h_bLength = ?l, h_bDescriptorType = ed_bDescriptorType ?d\<rparr>"
    using ge(1) buf' r by (simp add: parse_header_ge2)
  have "\<exists>c. parse_endpoint_desc be (if 9 \<le> unat ?l then ''bbbbwbbb'' else ''bbbbwb'')
      zero_endpoint_desc buf len = Some (0, ?d, c)"
    using l wf len' by (auto simp: buf' wf_ep_def intro!: parse_endpoint_desc_7 parse_endpoint_desc_9)
  then obtain c where c: "parse_endpoint_desc be (if 9 \<le> unat ?l then ''bbbbwbbb'' else ''bbbbwb'')
      zero_endpoint_desc buf len = Some (0, ?d, c)" by blast
  have x: "list_all wf_class (sp_extra e)" using wf by (simp add: wf_ep_def)
  have u: "unat (len - ucast ?l) = length (?x @ bs)"
    using len' by (simp add: unat_sub_ucast)
  obtain h' where sk: "skip_class be
      \<lparr>h_bLength = ?l, h_bDescriptorType = ed_bDescriptorType ?d\<rparr> (?x @ bs @ g) (len - ucast ?l) 0 =
      Some (Some (h', len - ucast ?l - of_nat (length ?x), length ?x))"
    using skip_class_ok [OF x sp refl u, where n = 0] by (simp only: add_0) blast
  have dr: "drop (unat ?l) buf = ?x @ bs @ g"
    using ld by (simp add: buf')
  have "7 \<le> unat ?l" using l by auto
  then show ?thesis
    using ge ty hdr c sk
    by (auto simp add: usbi_parse_endpoint_def desc_sizes zero_endpoint_def dr copy_extra_ok av
        repr_ep_def ptr_of_def ep_descs_def ld Let_def simp del: concat_eq_Nil_conv)
qed

text \<open>The loop over the endpoints of an alternate setting.\<close>

lemma starts_proper_eps:
  assumes "list_all wf_ep es" "starts_proper bs"
  shows "starts_proper (concat (eps_descs es) @ bs)"
proof (cases es)
  case (Cons e es')
  with assms have wf: "wf_ep e" by simp
  obtain r where "enc_endpoint_desc (sp_desc e) =
      ed_bLength (sp_desc e) # ed_bDescriptorType (sp_desc e) # r"
    using enc_endpoint_hd by blast
  with wf Cons show ?thesis
    by (auto simp: starts_proper_def eps_descs_def ep_descs_def wf_ep_def proper_type_def)
qed (use assms(2) in \<open>simp add: eps_descs_def\<close>)

lemma parse_endpoints_ok:
  assumes "list_all wf_ep es" "starts_proper bs" "\<And>n. av n"
    and "ahead mem (pi_off s) (pi_len s) (concat (eps_descs es) @ bs) g"
    and "i + length es \<le> length eps" "\<forall>j. i \<le> j \<longrightarrow> j < i + length es \<longrightarrow> eps ! j = zero_endpoint"
  shows "\<exists>h'. parse_endpoints av be mem (length es) i eps s =
     Some (Next (pi_advance (length (concat (eps_descs es))) (s\<lparr>pi_hdr := h'\<rparr>),
                 take i eps @ map repr_ep es @ drop (i + length es) eps))"
  using assms
proof (induction es arbitrary: i eps s)
  case Nil
  have "s\<lparr>pi_hdr := pi_hdr s\<rparr> = s" by simp
  then show ?case
    by (intro exI [of _ "pi_hdr s"]) (simp add: pi_advance_def eps_descs_def)
next
  case (Cons e es)
  let ?b = "concat (ep_descs e)" and ?bs = "concat (eps_descs es) @ bs"
  have wf: "wf_ep e" "list_all wf_ep es" using Cons.prems(1) by auto
  have ah: "ahead mem (pi_off s) (pi_len s) (?b @ ?bs) g"
    using Cons.prems(4) by (simp add: eps_descs_def)
  have sp: "starts_proper ?bs" using wf(2) Cons.prems(2) by (rule starts_proper_eps)
  obtain r where r: "enc_endpoint_desc (sp_desc e) =
      ed_bLength (sp_desc e) # ed_bDescriptorType (sp_desc e) # r"
    using enc_endpoint_hd by blast
  let ?h = "\<lparr>h_bLength = ed_bLength (sp_desc e), h_bDescriptorType = ed_bDescriptorType (sp_desc e)\<rparr>"
  have l: "unat (ed_bLength (sp_desc e)) \<le> length ?b" "2 \<le> unat (ed_bLength (sp_desc e))"
    using length_enc_endpoint [OF wf(1)] wf(1) by (auto simp: ep_descs_def wf_ep_def)
  then have ge: "2 \<le> pi_len s" "\<not> ucast (ed_bLength (sp_desc e)) > pi_len s"
    using aheadD(2) [OF ah] by (auto simp: word_le_nat_alt word_less_nat_alt)
  have hdr: "parse_header be (pi_hdr s) (drop (pi_off s) mem) (pi_len s) = Some ?h"
    using ge(1) aheadD(1) [OF ah] r by (simp add: parse_header_ge2 ep_descs_def)
  have ep: "usbi_parse_endpoint av be ?h zero_endpoint (Some (drop (pi_off s) mem)) (pi_len s) =
      Some (int (length ?b), repr_ep e)"
    using aheadD [OF ah] by (intro usbi_parse_endpoint_ok [OF wf(1) sp Cons.prems(3)]) auto
  let ?s = "pi_advance (length ?b) (s\<lparr>pi_hdr := ?h\<rparr>)" and ?eps = "eps[i := repr_ep e]"
  have ah': "ahead mem (pi_off ?s) (pi_len ?s) ?bs g"
    using ahead_step [OF ah] by (simp add: pi_advance_def)
  have i: "i < length eps" "eps ! i = zero_endpoint" using Cons.prems(5,6) by auto
  obtain h' where h': "parse_endpoints av be mem (length es) (i + 1) ?eps ?s =
      Some (Next (pi_advance (length (concat (eps_descs es))) (?s\<lparr>pi_hdr := h'\<rparr>),
         take (i + 1) ?eps @ map repr_ep es @ drop (i + 1 + length es) ?eps))"
    using Cons.IH [OF wf(2) Cons.prems(2,3) ah', of "i + 1" ?eps] Cons.prems(5,6) by auto
  have "parse_endpoints av be mem (length (e # es)) i eps s =
      parse_endpoints av be mem (length es) (i + 1) ?eps ?s"
    using hdr ep ge(2) i by (simp add: Let_def rd_def)
  then show ?case using h' i
    by (intro exI [of _ h'])
       (simp add: pi_advance_def eps_descs_def take_Suc_conv_app_nth algebra_simps)
qed

section \<open>Alternate settings\<close>

definition starts_intf :: "u8 list \<Rightarrow> bool" where
  "starts_intf bs \<longleftrightarrow> bs = [] \<or> (\<exists>d r. bs = mem_of_interface_desc d @ r \<and>
     id_bLength d = 9 \<and> id_bDescriptorType d = USB_DESC_TYPE_INTERFACE)"

lemma starts_intf_proper: "starts_intf bs \<Longrightarrow> starts_proper bs"
  by (auto simp: starts_intf_def starts_proper_def mem_of_interface_desc_def proper_type_def)

lemma length_interface_desc [simp]: "length (mem_of_interface_desc d) = 9"
  by (simp add: mem_of_interface_desc_def)

lemma alt_extra_run:
  assumes "parse_header be (pi_hdr s) (drop (pi_off s) mem) (pi_len s) = Some h"
    and "pi_num s < length (pi_alts s)" "pi_alts s ! pi_num s = zero_altsetting"
    and "parse_interface_desc be zero_interface_desc (drop (pi_off s) mem) (pi_len s) = Some (0, d, c)"
    and "skip_class be h (drop (pi_off s + unat (h_bLength h)) mem) (pi_len s - ucast (h_bLength h)) 0 =
           Some (Some (h', pi_len s - ucast (h_bLength h) - of_nat n, n))"
    and "n \<le> length (drop (pi_off s + unat (h_bLength h)) mem)" "\<And>n. av n"
    and "as = \<lparr>as_desc = d, as_num_endpoints = 0, as_endpoints = Null,
      as_extra = ptr_of (take n (drop (pi_off s + unat (h_bLength h)) mem)), as_extralen = n\<rparr>"
  shows "alt_extra av be mem s = Some (Next (pi_advance (unat (h_bLength h) + n)
     (s\<lparr>pi_hdr := h', pi_num := pi_num s + 1, pi_alts := (pi_alts s)[pi_num s := as]\<rparr>), as))"
  using assms
  by (cases "n = 0")
     (auto simp add: alt_extra_def pi_advance_def Let_def rd_def zero_altsetting_def ptr_of_def
        copy_extra_ok diff_diff_eq add.assoc)

lemma alt_extra_ok:
  assumes ah: "ahead mem (pi_off s) (pi_len s) (mem_of_interface_desc d @ concat xs @ bs) g"
    and wf: "list_all wf_class xs" and sp: "starts_proper bs" and d: "id_bLength d = 9"
    and k: "pi_num s < length (pi_alts s)" "pi_alts s ! pi_num s = zero_altsetting"
    and av: "\<And>n. av n"
    and as: "as = zero_altsetting\<lparr>as_desc := d, as_extra := ptr_of (concat xs),
               as_extralen := length (concat xs)\<rparr>"
  shows "\<exists>h'. alt_extra av be mem s = Some (Next (pi_advance (length (mem_of_interface_desc d @ concat xs))
     (s\<lparr>pi_hdr := h', pi_num := pi_num s + 1, pi_alts := (pi_alts s)[pi_num s := as]\<rparr>), as))"
proof -
  let ?x = "concat xs" and ?h = "\<lparr>h_bLength = 9, h_bDescriptorType = id_bDescriptorType d\<rparr>"
  have len: "unat (pi_len s) = 9 + length (?x @ bs)" using aheadD(2) [OF ah] by simp
  then have ge: "2 \<le> pi_len s" by (simp add: word_le_nat_alt)
  have dr: "drop (pi_off s) mem = mem_of_interface_desc d @ ?x @ bs @ g"
    using aheadD(1) [OF ah] by simp
  have hdr: "parse_header be (pi_hdr s) (drop (pi_off s) mem) (pi_len s) = Some ?h"
    using ge d by (simp add: dr parse_header_ge2 mem_of_interface_desc_def)
  obtain c where c: "parse_interface_desc be zero_interface_desc (drop (pi_off s) mem) (pi_len s) =
      Some (0, d, c)"
    using parse_interface_desc_ok [of "pi_len s"] len by (fastforce simp: dr)
  have dr9: "drop (pi_off s + 9) mem = ?x @ bs @ g"
    using aheadD(1) [OF ahead_step [OF ah]] by simp
  have u: "unat (pi_len s - 9) = length (?x @ bs)"
    using len unat_sub_nat [of 9 "pi_len s"] by simp
  obtain h' where sk: "skip_class be ?h (?x @ bs @ g) (pi_len s - 9) 0 =
      Some (Some (h', pi_len s - 9 - of_nat (length ?x), length ?x))"
    using skip_class_ok [OF wf sp refl u, where n = 0] by (simp only: add_0) blast
  have a: "as = \<lparr>as_desc = d, as_num_endpoints = 0, as_endpoints = Null,
      as_extra = ptr_of (take (length ?x) (?x @ bs @ g)), as_extralen = length ?x\<rparr>"
    by (simp add: as zero_altsetting_def)
  have "alt_extra av be mem s = Some (Next (pi_advance (unat (h_bLength ?h) + length ?x)
     (s\<lparr>pi_hdr := h', pi_num := pi_num s + 1, pi_alts := (pi_alts s)[pi_num s := as]\<rparr>), as))"
    by (rule alt_extra_run [OF hdr k c]) (simp_all add: dr9 sk av a)
  then show ?thesis by (intro exI [of _ h']) simp
qed

lemma alt_endpoints_ok:
  assumes ah: "ahead mem (pi_off s) (pi_len s) (concat (eps_descs es) @ bs) g"
    and wf: "list_all wf_ep es" and si: "starts_intf bs" and av: "\<And>n. av n"
    and n: "unat (id_bNumEndpoints (as_desc as)) = length es" "length es \<le> USBI_MAXENDPOINTS"
  shows "\<exists>h'. alt_endpoints av be mem s as = Some (Next (pi_advance (length (concat (eps_descs es)))
     (s\<lparr>pi_hdr := h', pi_alts := (pi_alts s)[pi_num s - 1 :=
          as\<lparr>as_endpoints := Ptr (map repr_ep es), as_num_endpoints := length es\<rparr>]\<rparr>)))"
proof -
  have sp: "starts_proper bs" using si by (rule starts_intf_proper)
  obtain h where h: "parse_header be (pi_hdr s) (drop (pi_off s) mem) (pi_len s) = Some h"
    "2 \<le> pi_len s \<Longrightarrow> h_bDescriptorType h \<noteq> USB_DESC_TYPE_CONFIG \<and>
       h_bDescriptorType h \<noteq> USB_DESC_TYPE_DEVICE"
  proof (cases es)
    case Nil
    show ?thesis
    proof (cases "bs = []")
      case True
      then have "pi_len s = 0" using aheadD(2) [OF ah] Nil by (simp add: eps_descs_def unat_eq_zero)
      then show ?thesis using that [of "pi_hdr s"] by simp
    next
      case False
      then obtain d r where d: "bs = mem_of_interface_desc d @ r"
        "id_bDescriptorType d = USB_DESC_TYPE_INTERFACE"
        using si by (auto simp: starts_intf_def)
      then have "2 \<le> pi_len s" using aheadD(2) [OF ah] by (simp add: word_le_nat_alt)
      then show ?thesis using that d Nil aheadD(1) [OF ah]
        by (simp add: parse_header_ge2 eps_descs_def mem_of_interface_desc_def desc_types)
    qed
  next
    case (Cons e es')
    then have wfe: "wf_ep e" using wf by simp
    obtain r where r: "enc_endpoint_desc (sp_desc e) =
        ed_bLength (sp_desc e) # ed_bDescriptorType (sp_desc e) # r"
      using enc_endpoint_hd by blast
    have "2 \<le> pi_len s" using aheadD(2) [OF ah] Cons r
      by (simp add: word_le_nat_alt eps_descs_def ep_descs_def)
    then show ?thesis using that r Cons aheadD(1) [OF ah] wfe
      by (simp add: parse_header_ge2 eps_descs_def ep_descs_def wf_ep_def desc_types)
  qed
  let ?s = "s\<lparr>pi_hdr := h\<rparr>"
  have "ahead mem (pi_off ?s) (pi_len ?s) (concat (eps_descs es) @ bs) g" using ah by simp
  from parse_endpoints_ok [where av = av and be = be, OF wf sp av this,
      of 0 "replicate (length es) zero_endpoint"]
  have "\<exists>h'. parse_endpoints av be mem (length es) 0 (replicate (length es) zero_endpoint) ?s =
      Some (Next (pi_advance (length (concat (eps_descs es))) (s\<lparr>pi_hdr := h'\<rparr>), map repr_ep es))"
    by simp
  then obtain h' where "parse_endpoints av be mem (length es) 0 (replicate (length es) zero_endpoint) ?s =
      Some (Next (pi_advance (length (concat (eps_descs es))) (s\<lparr>pi_hdr := h'\<rparr>), map repr_ep es))"
    by blast
  with h n av show ?thesis
    by (intro exI [of _ h']) (auto simp: alt_endpoints_def pi_advance_def Let_def)
qed

section \<open>The loop over the alternate settings\<close>

text \<open>What follows an interface: nothing, or alternate setting 0 of the next one.\<close>

definition starts_alt0 :: "u8 list \<Rightarrow> bool" where
  "starts_alt0 bs \<longleftrightarrow> bs = [] \<or> (\<exists>d r. bs = mem_of_interface_desc d @ r \<and> id_bLength d = 9 \<and>
     id_bDescriptorType d = USB_DESC_TYPE_INTERFACE \<and> id_bAlternateSetting d = 0)"

lemma starts_alt0_intf: "starts_alt0 bs \<Longrightarrow> starts_intf bs"
  by (auto simp: starts_alt0_def starts_intf_def)

lemma starts_intf_alts:
  assumes "list_all (wf_alt n) as" "starts_intf bs"
  shows "starts_intf (concat (intf_descs as) @ bs)"
proof (cases as)
  case (Cons a as')
  then show ?thesis using assms
    by (fastforce simp: starts_intf_def intf_descs_def alt_descs_def wf_alt_def)
qed (use assms in \<open>simp add: intf_descs_def\<close>)

lemma starts_intf_eps_proper:
  "list_all wf_ep es \<Longrightarrow> starts_intf bs \<Longrightarrow> starts_proper (concat (eps_descs es) @ bs)"
  by (blast intro: starts_proper_eps starts_intf_proper)

text \<open>One round, up to the test for another alternate setting.\<close>

lemma alt_round:
  assumes ah: "ahead mem (pi_off s) (pi_len s) (concat (alt_descs a) @ bs) g"
    and wf: "wf_alt n a" and si: "starts_intf bs" and av: "\<And>n. av n"
    and k: "pi_num s < length (pi_alts s)" "pi_alts s ! pi_num s = zero_altsetting"
  shows "\<exists>h'. alt_body av be mem s = alt_more be mem (pi_advance (length (concat (alt_descs a)))
     (s\<lparr>pi_hdr := h', pi_num := pi_num s + 1, pi_alts := (pi_alts s)[pi_num s := repr_alt a]\<rparr>))"
proof -
  let ?d = "sa_desc a" and ?xs = "sa_extra a" and ?es = "sa_eps a"
  let ?e = "concat (eps_descs ?es)" and ?b = "mem_of_interface_desc (sa_desc a) @ concat (sa_extra a)"
  have w: "list_all wf_class ?xs" "list_all wf_ep ?es" "id_bLength ?d = 9"
    "unat (id_bNumEndpoints ?d) = length ?es" "length ?es \<le> USBI_MAXENDPOINTS"
    using wf by (auto simp: wf_alt_def)
  have ah1: "ahead mem (pi_off s) (pi_len s) (mem_of_interface_desc ?d @ concat ?xs @ ?e @ bs) g"
    using ah by (simp add: alt_descs_def)
  define as where "as = zero_altsetting\<lparr>as_desc := ?d, as_extra := ptr_of (concat ?xs),
    as_extralen := length (concat ?xs)\<rparr>"
  obtain h1 where 1: "alt_extra av be mem s = Some (Next (pi_advance (length ?b)
     (s\<lparr>pi_hdr := h1, pi_num := pi_num s + 1, pi_alts := (pi_alts s)[pi_num s := as]\<rparr>), as))"
    using alt_extra_ok [where av = av, OF ah1 w(1) starts_intf_eps_proper [OF w(2) si] w(3) k av as_def] by blast
  define s1 where "s1 = pi_advance (length ?b)
     (s\<lparr>pi_hdr := h1, pi_num := pi_num s + 1, pi_alts := (pi_alts s)[pi_num s := as]\<rparr>)"
  have ah2: "ahead mem (pi_off s1) (pi_len s1) (?e @ bs) g"
    using ahead_step [of mem _ _ ?b "?e @ bs" g] ah1 by (simp add: s1_def pi_advance_def)
  have n: "unat (id_bNumEndpoints (as_desc as)) = length ?es"
    using w(4) by (simp add: as_def)
  obtain h' where 2: "alt_endpoints av be mem s1 as = Some (Next (pi_advance (length ?e)
     (s1\<lparr>pi_hdr := h', pi_alts := (pi_alts s1)[pi_num s1 - 1 :=
          as\<lparr>as_endpoints := Ptr (map repr_ep ?es), as_num_endpoints := length ?es\<rparr>]\<rparr>)))"
    using alt_endpoints_ok [where av = av, OF ah2 w(2) si av n w(5)] by blast
  have r: "as\<lparr>as_endpoints := Ptr (map repr_ep ?es), as_num_endpoints := length ?es\<rparr> = repr_alt a"
    by (simp add: as_def repr_alt_def zero_altsetting_def)
  have "alt_body av be mem s = alt_more be mem (pi_advance (length ?e)
     (s1\<lparr>pi_hdr := h', pi_alts := (pi_alts s1)[pi_num s1 - 1 := repr_alt a]\<rparr>))"
    using 1 [folded s1_def] 2 [unfolded r] by (simp add: alt_body_def)
  also have "pi_advance (length ?e)
     (s1\<lparr>pi_hdr := h', pi_alts := (pi_alts s1)[pi_num s1 - 1 := repr_alt a]\<rparr>) =
     pi_advance (length (concat (alt_descs a)))
     (s\<lparr>pi_hdr := h', pi_num := pi_num s + 1, pi_alts := (pi_alts s)[pi_num s := repr_alt a]\<rparr>)"
    by (simp add: s1_def pi_advance_def alt_descs_def add.assoc diff_diff_eq)
  finally show ?thesis by blast
qed

lemma alt_more_end: "pi_len s = 0 \<Longrightarrow> alt_more be mem s = Some (Next s)"
  by (simp add: alt_more_def)

lemma alt_more_intf:
  assumes "ahead mem (pi_off s) (pi_len s) (mem_of_interface_desc d @ bs) g"
    and "id_bDescriptorType d = USB_DESC_TYPE_INTERFACE"
  shows "\<exists>h. alt_more be mem s = Some (if id_bAlternateSetting d = 0
     then pi_keep (pi_parsed s) (s\<lparr>pi_hdr := h\<rparr>) else Next (s\<lparr>pi_hdr := h\<rparr>))"
proof -
  have "unat (pi_len s) = 9 + length bs" using aheadD(2) [OF assms(1)] by simp
  then have "2 \<le> pi_len s" "pi_len s \<noteq> 0" "\<not> unat (pi_len s) < 9"
    by (auto simp: word_le_nat_alt)
  moreover have "drop (pi_off s) mem = mem_of_interface_desc d @ bs @ g"
    using aheadD(1) [OF assms(1)] by simp
  ultimately show ?thesis using assms(2)
    by (auto simp: alt_more_def parse_header_ge2 rd_def mem_of_interface_desc_def desc_sizes)
qed

lemma interface_loop_ok:
  assumes "as \<noteq> []" "list_all (wf_alt n) as" "list_all (\<lambda>a. alt_setting a \<noteq> 0) (tl as)"
    and "starts_alt0 bs" "\<And>n. av n"
    and "ahead mem (pi_off s) (pi_len s) (concat (intf_descs as) @ bs) g"
    and "pi_num s = length dn" "pi_alts s = map repr_alt dn @ replicate (length as) zero_altsetting"
  shows "interface_loop av be mem s = Some (pi_parsed s + int (length (concat (intf_descs as))),
     \<lparr>if_num_altsettings = length (dn @ as), if_altsettings = Ptr (map repr_alt (dn @ as))\<rparr>)"
  using assms
proof (induction as arbitrary: s dn)
  case (Cons a as)
  let ?b = "concat (alt_descs a)" and ?bs = "concat (intf_descs as) @ bs"
  have wf: "wf_alt n a" "list_all (wf_alt n) as" using Cons.prems(2) by auto
  have ah: "ahead mem (pi_off s) (pi_len s) (?b @ ?bs) g"
    using Cons.prems(6) by (simp add: intf_descs_def)
  have "starts_intf bs" using Cons.prems(4) by (rule starts_alt0_intf)
  then have si: "starts_intf ?bs" by (rule starts_intf_alts [OF wf(2)])
  have b9: "9 \<le> length ?b" by (simp add: alt_descs_def)
  then have "9 \<le> pi_len s" using aheadD(2) [OF ah] by (simp add: word_le_nat_alt)
  note il = interface_loop.simps [of av be mem s]
  have k: "pi_num s < length (pi_alts s)" "pi_alts s ! pi_num s = zero_altsetting"
    using Cons.prems(7,8) by (auto simp: nth_append)
  obtain h' where body: "alt_body av be mem s = alt_more be mem (pi_advance (length ?b)
     (s\<lparr>pi_hdr := h', pi_num := pi_num s + 1, pi_alts := (pi_alts s)[pi_num s := repr_alt a]\<rparr>))"
    using alt_round [where av = av, OF ah wf(1) si Cons.prems(5) k] by blast
  define s1 where "s1 = pi_advance (length ?b)
     (s\<lparr>pi_hdr := h', pi_num := pi_num s + 1, pi_alts := (pi_alts s)[pi_num s := repr_alt a]\<rparr>)"
  note body = body [folded s1_def]
  have ah1: "ahead mem (pi_off s1) (pi_len s1) ?bs g"
    using ahead_step [OF ah] by (simp add: s1_def pi_advance_def)
  have alts: "pi_alts s1 = map repr_alt (dn @ [a]) @ replicate (length as) zero_altsetting"
    "pi_num s1 = length (dn @ [a])" "pi_parsed s1 = pi_parsed s + int (length ?b)"
    using Cons.prems(7,8) by (simp_all add: s1_def pi_advance_def list_update_append)
  show ?case
  proof (cases as)
    case Nil
    show ?thesis
    proof (cases "bs = []")
      case True
      then have z: "pi_len s1 = 0"
        using aheadD(2) [OF ah1] Nil by (simp add: intf_descs_def unat_eq_zero)
      then have "interface_loop av be mem s1 = Some (pi_parsed s1, mk_intf s1 (Ptr (pi_alts s1)))"
        by (simp add: interface_loop.simps)
      then show ?thesis
        using \<open>9 \<le> pi_len s\<close> body z alts Nil
        by (simp add: il alt_more_end mk_intf_def intf_descs_def)
    next
      case False
      then obtain d r where d: "bs = mem_of_interface_desc d @ r" "id_bAlternateSetting d = 0"
        "id_bDescriptorType d = USB_DESC_TYPE_INTERFACE"
        using Cons.prems(4) by (auto simp: starts_alt0_def)
      have "ahead mem (pi_off s1) (pi_len s1) (mem_of_interface_desc d @ r) g"
        using ah1 Nil d by (simp add: intf_descs_def)
      from alt_more_intf [OF this d(3), of be] d(2)
      obtain h where "alt_more be mem s1 = Some (pi_keep (pi_parsed s1) (s1\<lparr>pi_hdr := h\<rparr>))"
        by auto
      then show ?thesis
        using \<open>9 \<le> pi_len s\<close> body alts Nil
        by (simp add: il pi_keep_def mk_intf_def intf_descs_def)
    qed
  next
    case (Cons a' as')
    have d: "id_bDescriptorType (sa_desc a') = USB_DESC_TYPE_INTERFACE"
      using wf(2) Cons by (simp add: wf_alt_def)
    have nz: "alt_setting a' \<noteq> 0" using Cons.prems(3) Cons by simp
    have "ahead mem (pi_off s1) (pi_len s1) (mem_of_interface_desc (sa_desc a') @
        concat (sa_extra a') @ concat (eps_descs (sa_eps a')) @ concat (intf_descs as') @ bs) g"
      using ah1 Cons by (simp add: intf_descs_def alt_descs_def)
    from alt_more_intf [OF this d, of be] nz
    obtain h where m: "alt_more be mem s1 = Some (Next (s1\<lparr>pi_hdr := h\<rparr>))"
      by (auto simp: alt_setting_def)
    let ?s = "s1\<lparr>pi_hdr := h\<rparr>"
    have "interface_loop av be mem s = interface_loop av be mem ?s"
      using \<open>9 \<le> pi_len s\<close> body m by (simp add: il)
    also have "\<dots> = Some (pi_parsed ?s + int (length (concat (intf_descs as))),
       \<lparr>if_num_altsettings = length ((dn @ [a]) @ as),
        if_altsettings = Ptr (map repr_alt ((dn @ [a]) @ as))\<rparr>)"
    proof (rule Cons.IH)
      show "as \<noteq> []" using Cons by simp
      show "list_all (\<lambda>a. alt_setting a \<noteq> 0) (tl as)"
        using Cons.prems(3) Cons by simp
    qed (use wf(2) Cons.prems(4,5) ah1 alts in auto)
    finally show ?thesis using alts by (simp add: intf_descs_def)
  qed
qed simp

section \<open>Counting the alternate settings\<close>

definition wf_any :: "u8 list \<Rightarrow> bool" where
  "wf_any d \<longleftrightarrow> 2 \<le> length d \<and> length d \<le> 127 \<and> unat (d ! 0) = length d \<and>
     (d ! 1 = USB_DESC_TYPE_INTERFACE \<longrightarrow> 3 \<le> length d)"

definition is_alt :: "u8 \<Rightarrow> u8 list \<Rightarrow> bool" where
  "is_alt n d \<longleftrightarrow> d ! 1 = USB_DESC_TYPE_INTERFACE \<and> d ! 2 = n"

lemma sint_small: "unat (b::u8) \<le> 127 \<Longrightarrow> sint b = int (unat b)"
proof -
  assume "unat b \<le> 127"
  with uint_nat [of b] have "uint b < 128" by linarith
  then have "uint b < 2 ^ 7" by simp
  moreover have "- (2 ^ 7) \<le> uint b" using uint_ge_0 [of b] by (rule order_trans [rotated]) simp
  ultimately have "signed_take_bit 7 (uint b) = uint b"
    by (intro signed_take_bit_int_eq_self)
  then show ?thesis by (simp add: sint_uint)
qed

lemma rdi_drop:
  assumes "drop pos mem = bs" "j < length bs"
  shows "rdi mem (int pos + int j) = Some (bs ! j)"
  using assms by (auto simp: rdi_def rd_def nat_add_distrib)

lemma len_less_buflen:
  "k < 65536 \<Longrightarrow> (of_nat k < (w::u32)) = (k < unat w)"
  by (simp add: word_less_nat_alt unsigned_of_nat take_bit_nat_eq_self)

lemma altno_loop_ok:
  assumes "list_all wf_any ds" "drop pos mem = concat ds @ g"
    and "2 \<le> length g" "g ! 1 \<noteq> USB_DESC_TYPE_INTERFACE"
    and "k + length (concat ds) = unat buflen" "unat buflen < 65536"
  shows "altno_loop mem fno buflen (int pos) (int k) n =
     Some (Some (n + int (length (filter (is_alt fno) (tl ds)))))"
  using assms
proof (induction ds arbitrary: pos k n)
  case Nil
  then show ?case by (simp add: altno_loop.simps len_less_buflen)
next
  case (Cons d ds)
  have d: "2 \<le> length d" "length d \<le> 127" "unat (d ! 0) = length d"
    using Cons.prems(1) by (auto simp: wf_any_def)
  have r0: "rdi mem (int pos) = Some (d ! 0)"
    using rdi_drop [OF Cons.prems(2), of 0] d(1) by (cases d) auto
  have s: "sint (d ! 0) = int (length d)" using sint_small [of "d ! 0"] d by simp
  let ?rest = "concat ds @ g"
  have dr: "drop (pos + length d) mem = ?rest"
    using Cons.prems(2) by (simp add: add.commute [of pos] flip: drop_drop)
  have two: "2 \<le> length ?rest" using Cons.prems(3) by simp
  have r1: "rdi mem (int pos + int (length d) + 1) = Some (?rest ! 1)"
    using rdi_drop [OF dr, of 1] two by simp
  have lt: "word_of_int (int k) < buflen" "int k + int (length d) < 2 ^ 31"
    using Cons.prems(5,6) d by (auto simp: len_less_buflen)
  note st = altno_loop.simps [of mem fno buflen "int pos" "int k" n]
  have IH: "altno_loop mem fno buflen (int pos + int (length d)) (int k + int (length d)) m =
     Some (Some (m + int (length (filter (is_alt fno) (tl ds)))))" for m
    using Cons.IH [of "pos + length d" "k + length d" m] Cons.prems dr by simp
  show ?case
  proof (cases ds)
    case Nil
    then show ?thesis using Cons.prems(4) r0 r1 s lt IH
      by (simp add: st)
  next
    case (Cons e ds')
    then have e: "2 \<le> length e" "e ! 1 = USB_DESC_TYPE_INTERFACE \<Longrightarrow> 3 \<le> length e"
      using Cons.prems(1) by (auto simp: wf_any_def)
    have e1: "?rest ! 1 = e ! 1" using Cons e by (auto simp: nth_append)
    have r2: "rdi mem (int pos + int (length d) + 2) = Some (e ! 2)"
      if "e ! 1 = USB_DESC_TYPE_INTERFACE"
      using rdi_drop [OF dr, of 2] e(2) [OF that] Cons by (simp add: nth_append)
    show ?thesis using r0 r1 r2 e1 s lt IH Cons
      by (auto simp add: st is_alt_def [of fno e])
  qed
qed

text \<open>The descriptors of a tree are well-formed, and which of them are altsettings.\<close>

lemma wf_class_any: "list_all wf_class xs \<Longrightarrow> list_all wf_any xs"
  by (induction xs) (auto simp: wf_class_def wf_any_def proper_type_def)

lemma wf_class_no_alt: "list_all wf_class xs \<Longrightarrow> filter (is_alt n) xs = []"
  by (induction xs) (auto simp: wf_class_def is_alt_def proper_type_def)

lemma eps_descs_any:
  "list_all wf_ep es \<Longrightarrow> list_all wf_any (eps_descs es) \<and> filter (is_alt n) (eps_descs es) = []"
proof (induction es)
  case (Cons e es)
  then have "wf_any (enc_endpoint_desc (sp_desc e))" "\<not> is_alt n (enc_endpoint_desc (sp_desc e))"
    by (auto simp: wf_any_def wf_ep_def enc_endpoint_desc_def wire16_def is_alt_def desc_types)
  then show ?case using Cons
    by (simp add: eps_descs_def ep_descs_def wf_ep_def wf_class_any wf_class_no_alt)
qed (simp add: eps_descs_def)

lemma alt_descs_any:
  assumes "wf_alt m a"
  shows "list_all wf_any (alt_descs a)"
    and "filter (is_alt n) (sa_extra a @ eps_descs (sa_eps a)) = []"
    and "is_alt n (mem_of_interface_desc (sa_desc a)) \<longleftrightarrow> m = n"
  using assms eps_descs_any [of "sa_eps a"]
  by (auto simp: wf_alt_def alt_descs_def wf_class_any wf_class_no_alt wf_any_def is_alt_def
      mem_of_interface_desc_def)

lemma intf_descs_any:
  assumes "list_all (wf_alt m) as"
  shows "list_all wf_any (intf_descs as) \<and>
     length (filter (is_alt n) (intf_descs as)) = (if m = n then length as else 0)"
  using assms
proof (induction as)
  case (Cons a as)
  then show ?case using alt_descs_any [of m a]
    by (auto simp: intf_descs_def alt_descs_def)
qed (simp add: intf_descs_def)

lemma intfs_descs_any:
  assumes "list_all wf_intf is" "n \<notin> set (map intf_number is)"
  shows "list_all wf_any (concat (map intf_descs is)) \<and>
     filter (is_alt n) (concat (map intf_descs is)) = []"
  using assms
proof (induction "is")
  case (Cons i "is")
  then show ?case using intf_descs_any [of "intf_number i" i n]
    by (auto simp: wf_intf_def)
qed simp

lemma intf_descs_tl:
  assumes "list_all (wf_alt m) (a # as)"
  shows "length (filter (is_alt m) (tl (intf_descs (a # as)))) = length as"
  using intf_descs_any [of m as m] alt_descs_any(2) [of m a m] assms
  by (auto simp: intf_descs_def alt_descs_def)

section \<open>Interfaces\<close>

text \<open>What follows the configuration in cfgr->data: two bytes that are no interface header.\<close>

definition guard :: "u8 list \<Rightarrow> bool" where
  "guard g \<longleftrightarrow> 2 \<le> length g \<and> g ! 1 \<noteq> USB_DESC_TYPE_INTERFACE"

lemma wf_intf_start:
  assumes "wf_intf as"
  obtains a as' where "as = a # as'" "wf_alt (intf_number as) a" "alt_setting a = 0"
    "list_all (wf_alt (intf_number as)) as" "list_all (\<lambda>a. alt_setting a \<noteq> 0) as'"
  using assms by (cases as) (auto simp: wf_intf_def)

lemma starts_alt0_intfs:
  "list_all wf_intf is \<Longrightarrow> starts_alt0 (concat (concat (map intf_descs is)))"
proof (cases "is")
  case (Cons as "is'")
  assume "list_all wf_intf is"
  with Cons have "wf_intf as" by simp
  then show ?thesis
    by (rule wf_intf_start)
       (fastforce simp: starts_alt0_def Cons intf_descs_def alt_descs_def wf_alt_def alt_setting_def)
qed (simp add: starts_alt0_def)

lemma usbi_parse_interface_ok:
  assumes wf: "wf_intf as" and wfs: "list_all wf_intf is"
    and dis: "intf_number as \<notin> set (map intf_number is)" and av: "\<And>n. av n" and g: "guard g"
    and ah: "ahead mem off len (concat (intf_descs as) @ concat (concat (map intf_descs is))) g"
    and small: "unat len < 65536"
  shows "usbi_parse_interface av be h0 intf (Some (mem, off)) len =
     Some (Some (int (length (concat (intf_descs as))), repr_intf as))"
proof -
  let ?bs = "concat (concat (map intf_descs is))" and ?n = "intf_number as"
  from wf obtain a as' where a: "as = a # as'" "wf_alt ?n a" "alt_setting a = 0"
    "list_all (wf_alt ?n) as" "list_all (\<lambda>a. alt_setting a \<noteq> 0) as'"
    by (rule wf_intf_start)
  have l256: "length as < 256" using wf by (simp add: wf_intf_def)
  obtain r where mem: "drop off mem = mem_of_interface_desc (sa_desc a) @ r"
    using aheadD(1) [OF ah] by (simp add: a(1) intf_descs_def alt_descs_def)
  then have rds: "rd mem (off + 1) = Some USB_DESC_TYPE_INTERFACE" "rd mem (off + 2) = Some ?n"
    using a(2) rdi_drop [OF mem, of 1] rdi_drop [OF mem, of 2]
    by (auto simp: rdi_def mem_of_interface_desc_def wf_alt_def nat_add_distrib)
  have nz: "len \<noteq> 0"
    using aheadD(2) [OF ah] by (auto simp: a(1) intf_descs_def alt_descs_def)
  let ?ds = "intf_descs as @ concat (map intf_descs is)"
  have "altno_loop mem ?n len (int off) (int 0) 1 =
      Some (Some (1 + int (length (filter (is_alt ?n) (tl ?ds)))))"
    using aheadD [OF ah] g small intf_descs_any [OF a(4), of ?n] intfs_descs_any [OF wfs dis]
    by (intro altno_loop_ok) (auto simp: guard_def)
  moreover have "intf_descs as \<noteq> []" by (simp add: a(1) intf_descs_def alt_descs_def)
  then have "length (filter (is_alt ?n) (tl ?ds)) = length as'"
    using intf_descs_tl [of ?n a as'] a(1,4) intfs_descs_any [OF wfs dis] by (simp add: a(1))
  ultimately have alt: "usbi_get_intf_altno mem off len = Some (Some (int (length as)))"
    using rds(2) by (simp add: usbi_get_intf_altno_def a(1) add.commute)
  have n: "unat (word_of_int (int (length as)) :: u8) = length as"
    using l256 by (simp add: unsigned_of_nat take_bit_nat_eq_self)
  have tl: "list_all (\<lambda>a. alt_setting a \<noteq> 0) (tl as)" "as \<noteq> []" using a(1,5) by simp_all
  have "interface_loop av be mem \<lparr>pi_off = off, pi_len = len, pi_parsed = 0, pi_hdr = h0, pi_num = 0,
      pi_alts = replicate (length as) zero_altsetting\<rparr> =
    Some (int (length (concat (intf_descs as))), repr_intf as)"
    using interface_loop_ok [where av = av and be = be and dn = "[]", OF tl(2) a(4) tl(1)
        starts_alt0_intfs [OF wfs] av, of mem "\<lparr>pi_off = off, pi_len = len, pi_parsed = 0,
        pi_hdr = h0, pi_num = 0, pi_alts = replicate (length as) zero_altsetting\<rparr>" g] ah
    by (simp add: repr_intf_def)
  then show ?thesis
    using rds(1) nz alt n av by (simp add: usbi_parse_interface_def Let_def)
qed

section \<open>Configurations\<close>

text \<open>The length is a size_t here; below 65536 it survives the cut to 32 bits.\<close>

lemma unat_u64_of_nat: "n < 65536 \<Longrightarrow> unat (of_nat n :: u64) = n"
  by (simp add: unsigned_of_nat take_bit_nat_eq_self)

lemma unat_u32_of_u64: "n < 65536 \<Longrightarrow> unat (ucast (of_nat n :: u64) :: u32) = n"
  by (simp add: unsigned_of_nat unsigned_ucast_eq take_bit_nat_eq_self)

lemma of_nat_u64_diff: "(of_nat (m + n) :: u64) - of_nat m = of_nat n"
  by simp

lemma cfg_interfaces_ok:
  assumes "list_all wf_intf is" "distinct (map intf_number is)" "\<And>n. av n" "guard g"
    and "drop off mem = concat (concat (map intf_descs is)) @ g"
    and "length (concat (concat (map intf_descs is))) < 65536"
    and "i + length is \<le> length intfs"
  shows "cfg_interfaces av be h0 mem (length is) i intfs off
      (of_nat (length (concat (concat (map intf_descs is))))) =
     Some (Some (0, take i intfs @ map repr_intf is @ drop (i + length is) intfs, 0))"
  using assms
proof (induction "is" arbitrary: i intfs off)
  case (Cons as "is")
  let ?b = "concat (intf_descs as)" and ?bs = "concat (concat (map intf_descs is))"
  let ?len = "of_nat (length (?b @ ?bs)) :: u64"
  have wf: "wf_intf as" "list_all wf_intf is" "intf_number as \<notin> set (map intf_number is)"
    "distinct (map intf_number is)"
    using Cons.prems(1,2) by auto
  have small: "length (?b @ ?bs) < 65536" using Cons.prems(6) by simp
  have u: "unat ?len = length (?b @ ?bs)" using small by (rule unat_u64_of_nat)
  have "?b \<noteq> []"
    using wf(1) by (rule wf_intf_start) (auto simp: intf_descs_def alt_descs_def mem_of_interface_desc_def)
  then have nz: "?len \<noteq> 0" using u by (metis unat_0 length_0_conv append_is_Nil_conv)
  have ah: "ahead mem off (ucast ?len) (?b @ ?bs) g"
    using Cons.prems(5) unat_u32_of_u64 [OF small] by (simp add: ahead_def)
  have pi: "usbi_parse_interface av be h0 (intfs ! i) (Some (mem, off)) (ucast ?len) =
      Some (Some (int (length ?b), repr_intf as))"
    using unat_u32_of_u64 [OF small] small
    by (intro usbi_parse_interface_ok [OF wf(1,2,3) Cons.prems(3,4) ah]) simp
  have dr: "drop (off + length ?b) mem = ?bs @ g"
    using Cons.prems(5) by (simp add: add.commute [of off] flip: drop_drop)
  have "cfg_interfaces av be h0 mem (length is) (i + 1) (intfs[i := repr_intf as])
      (off + length ?b) (of_nat (length ?bs)) =
     Some (Some (0, take (i + 1) (intfs[i := repr_intf as]) @ map repr_intf is @
        drop (i + 1 + length is) (intfs[i := repr_intf as]), 0))"
    using Cons.prems dr by (intro Cons.IH [OF wf(2,4)]) auto
  moreover have "?len - of_nat (length ?b) = of_nat (length ?bs)"
    by simp
  ultimately show ?case
    using pi nz Cons.prems(7) by (simp add: rd_def take_Suc_conv_app_nth)
qed simp

lemma skip_class_cfg_ok:
  assumes "list_all wf_class ds" "starts_proper bs"
    and "buf = concat ds @ bs @ g" "length (concat ds @ bs) < 65536"
    and "bs \<noteq> [] \<Longrightarrow> unat (bs ! 0) \<le> length bs"
  shows "skip_class_cfg be h buf (of_nat (length (concat ds @ bs))) n =
     Some (Some (of_nat (length bs), n + length (concat ds)))"
  using assms
proof (induction ds arbitrary: h buf n)
  case Nil
  show ?case
  proof (cases "bs = []")
    case True
    then show ?thesis by (simp add: skip_class_cfg.simps word_le_nat_alt)
  next
    case False
    then obtain x y bs' where bs: "bs = x # y # bs'" "2 \<le> unat x" "proper_type y"
      using Nil(2) by (auto simp: starts_proper_def)
    let ?l = "of_nat (length bs) :: u64"
    have u: "unat ?l = length bs" "unat (ucast ?l :: u32) = length bs"
      using Nil(4) by (simp_all add: unat_u64_of_nat unat_u32_of_u64)
    then have "2 \<le> ?l" "2 \<le> (ucast ?l :: u32)" "\<not> x < 2" "\<not> ucast x > ?l"
      using bs Nil(5) by (auto simp: word_le_nat_alt word_less_nat_alt)
    then show ?thesis using Nil bs by (simp add: skip_class_cfg.simps [of be h] parse_header_ge2)
  qed
next
  case (Cons d ds)
  then obtain x y d' where d: "d = x # y # d'" "unat x = length d" "\<not> proper_type y"
    by (cases d rule: list.exhaust; cases "tl d" rule: list.exhaust) (auto simp: wf_class_def)
  let ?m = "length (concat ds @ bs)"
  let ?l = "of_nat (length d + ?m) :: u64"
  have small: "length d + ?m < 65536" using Cons.prems(4) by simp
  have u: "unat ?l = length d + ?m" "unat (ucast ?l :: u32) = length d + ?m"
    using small by (rule unat_u64_of_nat, rule unat_u32_of_u64)
  have "2 \<le> length d" by (simp add: d(1))
  then have ge: "2 \<le> ?l" "2 \<le> (ucast ?l :: u32)" "\<not> x < 2" "\<not> ucast x > ?l"
    unfolding word_le_nat_alt word_less_nat_alt u using d(2) by auto
  have c: "ucast x = (of_nat (length d) :: u64)" by (simp flip: d(2))
  have s: "?l - ucast x = of_nat ?m" unfolding c by simp
  have "skip_class_cfg be h buf ?l n = skip_class_cfg be \<lparr>h_bLength = x, h_bDescriptorType = y\<rparr>
      (concat ds @ bs @ g) (?l - ucast x) (n + length d)"
    using ge d Cons.prems(3) by (simp add: skip_class_cfg.simps [of be h] parse_header_ge2)
  also have "\<dots> = Some (Some (of_nat (length bs), n + length d + length (concat ds)))"
    unfolding s using Cons.prems by (intro Cons.IH) auto
  finally show ?case by (simp add: algebra_simps)
qed

lemma starts_proper_config:
  assumes "list_all wf_intf is"
  shows "starts_proper (concat (concat (map intf_descs is)))"
    and "concat (concat (map intf_descs is)) \<noteq> [] \<Longrightarrow>
      unat (concat (concat (map intf_descs is)) ! 0) \<le> length (concat (concat (map intf_descs is)))"
proof -
  have a: "starts_alt0 (concat (concat (map intf_descs is)))"
    using assms by (rule starts_alt0_intfs)
  then show "starts_proper (concat (concat (map intf_descs is)))"
    by (intro starts_intf_proper starts_alt0_intf)
  show "unat (concat (concat (map intf_descs is)) ! 0) \<le> length (concat (concat (map intf_descs is)))"
    if "concat (concat (map intf_descs is)) \<noteq> []"
    using a that unfolding starts_alt0_def by (auto simp: mem_of_interface_desc_def)
qed

lemma cfg_rest_ok:
  assumes wf: "wf_config c" and g: "guard g" and av: "\<And>n. av n"
    and cfg: "cfg = zero_config\<lparr>cf_desc := sc_desc c, cf_num_interfaces := length (sc_intfs c),
       cf_interfaces := Ptr (replicate (length (sc_intfs c)) zero_interface)\<rparr>"
    and mem: "drop off mem = concat (sc_extra c @ concat (map intf_descs (sc_intfs c))) @ g"
    and small: "length (concat (sc_extra c @ concat (map intf_descs (sc_intfs c)))) < 65536"
  shows "cfg_rest av be h0 cfg mem off
      (of_nat (length (concat (sc_extra c @ concat (map intf_descs (sc_intfs c)))))) =
     Some (Some (0, repr_config c))"
proof -
  obtain x where x: "x = concat (sc_extra c)" by simp
  let ?bs = "concat (concat (map intf_descs (sc_intfs c)))"
  have w: "list_all wf_class (sc_extra c)" "list_all wf_intf (sc_intfs c)"
    "distinct (map intf_number (sc_intfs c))"
    using wf by (auto simp: wf_config_def)
  have mem': "drop off mem = concat (sc_extra c) @ ?bs @ g" using mem by simp
  have small': "length (concat (sc_extra c) @ ?bs) < 65536" using small by simp
  have sk: "skip_class_cfg be h0 (drop off mem) (of_nat (length (x @ ?bs))) 0 =
      Some (Some (of_nat (length ?bs), length x))"
    using skip_class_cfg_ok [OF w(1) starts_proper_config(1) [OF w(2)] mem' small'
        starts_proper_config(2) [OF w(2)], of be h0 0] by (simp add: x)
  have dr: "drop (off + length x) mem = ?bs @ g"
    using mem' by (simp add: x add.commute [of off] flip: drop_drop)
  have sm: "length ?bs < 65536" using small' by simp
  have ci: "cfg_interfaces av be h0 mem (length (sc_intfs c)) 0
      (replicate (length (sc_intfs c)) zero_interface) (off + length x) (of_nat (length ?bs)) =
     Some (Some (0, map repr_intf (sc_intfs c), 0))"
    using cfg_interfaces_ok [where av = av, OF w(2,3) av g dr sm,
        of 0 "replicate (length (sc_intfs c)) zero_interface"] by simp
  have r: "repr_config c = \<lparr>cf_desc = sc_desc c, cf_num_interfaces = length (sc_intfs c),
     cf_interfaces = Ptr (map repr_intf (sc_intfs c)), cf_extra = ptr_of x, cf_extralen = length x\<rparr>"
    by (simp add: repr_config_def x)
  have e: "concat (sc_extra c @ concat (map intf_descs (sc_intfs c))) = x @ ?bs"
    by (simp add: x)
  have mx: "drop off mem = x @ ?bs @ g" using mem' by (simp add: x)
  show ?thesis
    unfolding e r using sk ci
    by (cases "x = []")
       (simp_all add: cfg_rest_def cfg zero_config_def ptr_of_def mx copy_extra_ok av)
qed

lemma usbi_parse_configuration_ok:
  assumes "wf_config c" and "guard g" and "\<forall>n. av n"
  shows "usbi_parse_configuration av be h0 zero_config (Some (enc_config c @ g))
      (ucast (cd_wTotalLength (sc_desc c))) = Some (Some (0, repr_config c))"
proof -
  let ?d = "sc_desc c" and ?rest = "concat (sc_extra c @ concat (map intf_descs (sc_intfs c)))"
  let ?l = "ucast (cd_wTotalLength (sc_desc c)) :: u64"
  have w: "cd_bLength ?d = 9" "unat (cd_wTotalLength ?d) = length (enc_config c)"
    "unat (cd_bNumInterfaces ?d) = length (sc_intfs c)" "length (sc_intfs c) \<le> USBI_MAXINTERFACES"
    using assms(1) by (auto simp: wf_config_def)
  have enc: "enc_config c = enc_config_desc ?d @ ?rest"
    by (simp add: enc_config_def config_descs_def)
  have l9: "length (enc_config_desc ?d) = 9" by (simp add: enc_config_desc_def wire16_def)
  have tot: "length (enc_config c) < 65536"
  proof -
    have "unat (cd_wTotalLength ?d) < 65536" using unsigned_less [of "cd_wTotalLength ?d"] by simp
    with w(2) show ?thesis by simp
  qed
  have l: "?l = of_nat (9 + length ?rest)"
    using w(2) l9 enc by (metis length_append of_nat_unat)
  have u: "unat (ucast ?l :: u32) = 9 + length ?rest"
    unfolding l using tot enc l9 by (intro unat_u32_of_u64) simp
  have ge: "2 \<le> (ucast ?l :: u32)" unfolding word_le_nat_alt u by simp
  have nz: "?l \<noteq> 0"
    using u by auto
  have hdr: "parse_header be h0 (enc_config c @ g) (ucast ?l) =
      Some \<lparr>h_bLength = 9, h_bDescriptorType = cd_bDescriptorType ?d\<rparr>"
    using ge w(1) by (simp add: parse_header_ge2 enc enc_config_desc_def)
  have "9 \<le> unat (ucast ?l :: u32)" unfolding u by simp
  then obtain k where cd: "parse_config_desc be ''bbwbbbbb'' zero_config_desc (enc_config c @ g)
      (ucast ?l) = Some (0, ?d, k)"
    using parse_config_desc_ok [of "ucast ?l" be zero_config_desc ?d "?rest @ g"]
    by (auto simp: enc)
  have rest: "?l - 9 = of_nat (length ?rest)" unfolding l by simp
  have dr: "drop 9 (enc_config c @ g) = ?rest @ g" using l9 by (simp add: enc)
  have sm: "length ?rest < 65536" using tot enc by simp
  have cr: "cfg_rest av be \<lparr>h_bLength = 9, h_bDescriptorType = cd_bDescriptorType ?d\<rparr>
      (zero_config\<lparr>cf_desc := ?d, cf_num_interfaces := length (sc_intfs c),
         cf_interfaces := Ptr (replicate (length (sc_intfs c)) zero_interface)\<rparr>)
      (enc_config c @ g) 9 (?l - 9) = Some (Some (0, repr_config c))"
    unfolding rest using assms(3)
    by (intro cfg_rest_ok [OF assms(1,2) _ refl dr sm]) simp
  have z: "cf_desc zero_config = zero_config_desc" by (simp add: zero_config_def)
  show ?thesis
    using nz hdr cd w(3,4) assms(3) cr z by (simp add: usbi_parse_configuration_def)
qed

text \<open>
  C1. Reading back a configuration. For every well-formed tree c, parsing its wire format
  returns 0 (no byte left over) and builds the internal structure of c: every field of
  every descriptor, every endpoint of every alternate setting of every interface, and the
  class specific descriptors in between. The result is defined, so the parser reads and
  writes only inside its objects, on either byte order and whatever the uninitialised
  local holds. The object needs two bytes behind the configuration, because
  usbi_get_intf_altno reads them; they must not look like an interface header.
\<close>

theorem usbi_parse_configuration_roundtrip:
  assumes "wf_config c" and "guard g" and "\<forall>n. av n"
  shows "usbi_parse_configuration av be h0 zero_config (Some (enc_config c @ g))
      (ucast (cd_wTotalLength (sc_desc c))) = Some (Some (0, repr_config c))"
  using assms by (rule usbi_parse_configuration_ok)

end
