(* ===== verification/DescFetch.thy ===== *)
theory DescFetch
  imports DescRound
begin

text \<open>
  The rest of descriptors.c: usbi_get_descriptor, usbi_destroy_configuration and
  usbi_fetch_and_parse_descriptors, which reads the device and configuration descriptors
  over the default pipe and replaces dev->desc. openusb_ctrl_xfer is a parameter here; the
  locale ctrl_pipe says what a device that answers GET_DESCRIPTOR correctly does.
\<close>

section \<open>Requests for descriptors\<close>

type_synonym 'w ctrl_xfer = "'w \<Rightarrow> ctrl_request \<Rightarrow> (int \<times> ctrl_request \<times> 'w) option"

definition get_desc_request :: "u8 \<Rightarrow> u8 \<Rightarrow> u8 list \<Rightarrow> u32 \<Rightarrow> ctrl_request" where
  "get_desc_request ty index buf buflen = \<lparr>ct_bmRequestType = USB_ENDPOINT_IN,
     ct_bRequest = USB_REQ_GET_DESCRIPTOR, ct_wValue = push_bit 8 (ucast ty) + ucast index,
     ct_wIndex = 0, ct_payload = buf, ct_length = buflen, ct_timeout = 1000,
     ct_status = 0, ct_transferred = 0\<rparr>"

text \<open>The buffer comes back with what the transfer wrote to it.\<close>

definition usbi_get_descriptor :: "'w ctrl_xfer \<Rightarrow> 'w \<Rightarrow> u8 \<Rightarrow> u8 \<Rightarrow> u8 list \<Rightarrow> u32 \<Rightarrow>
    (int \<times> u8 list \<times> 'w) option" where
  "usbi_get_descriptor xfer w ty index buf buflen =
     (if buflen = 0 then Some (OPENUSB_BADARG, buf, w)
      else do {
        (ret, ctrl, w) \<leftarrow> xfer w (get_desc_request ty index buf buflen);
        (if ret < 0 \<or> ct_status ctrl \<noteq> OPENUSB_SUCCESS then Some (-1, ct_payload ctrl, w)
         else Some (sint (ct_transferred ctrl), ct_payload ctrl, w))
      })"

section \<open>usbi_destroy_configuration\<close>

text \<open>Indexing an array through the pointer to its first element.\<close>

definition pidx :: "'a list cptr \<Rightarrow> nat \<Rightarrow> 'a option" where
  "pidx p i = do { xs \<leftarrow> deref p; rd xs i }"

text \<open>The inner loops. A loop over i from k to n - 1 runs body i and stops at a fault.\<close>

fun for_loop :: "nat \<Rightarrow> nat \<Rightarrow> (nat \<Rightarrow> unit option) \<Rightarrow> unit option" where
  "for_loop 0 i body = Some ()"
| "for_loop (Suc n) i body = do { _ \<leftarrow> body i; for_loop n (Suc i) body }"

definition free_altsetting :: "usbi_altsetting \<Rightarrow> unit option" where
  "free_altsetting as = do {
     _ \<leftarrow> for_loop (as_num_endpoints as) 0 (\<lambda>k. do {
            ep \<leftarrow> pidx (as_endpoints as) k;
            free_ptr (ep_extra ep)
          });
     _ \<leftarrow> free_ptr (as_endpoints as);
     free_ptr (as_extra as)
   }"

definition free_interface :: "usbi_interface \<Rightarrow> unit option" where
  "free_interface intf = do {
     _ \<leftarrow> for_loop (if_num_altsettings intf) 0 (\<lambda>j. do {
            as \<leftarrow> pidx (if_altsettings intf) j;
            free_altsetting as
          });
     free_ptr (if_altsettings intf)
   }"

definition free_config :: "usbi_config \<Rightarrow> usbi_raw_desc \<Rightarrow> unit option" where
  "free_config cfg raw = do {
     _ \<leftarrow> free_ptr (cf_extra cfg);
     _ \<leftarrow> free_ptr (rw_data raw);
     (if cf_interfaces cfg = Null then Some ()
      else do {
        _ \<leftarrow> for_loop (cf_num_interfaces cfg) 0 (\<lambda>i. do {
               intf \<leftarrow> pidx (cf_interfaces cfg) i;
               free_interface intf
             });
        free_ptr (cf_interfaces cfg)
      })
   }"

definition usbi_destroy_configuration :: "usbi_descriptors \<Rightarrow> usbi_descriptors option" where
  "usbi_destroy_configuration d =
     (if ds_configs d = Null then Some d
      else do {
        _ \<leftarrow> for_loop (ds_num_configs d) 0 (\<lambda>c. do {
               cfg \<leftarrow> pidx (ds_configs d) c;
               raw \<leftarrow> pidx (ds_configs_raw d) c;
               free_config cfg raw
             });
        _ \<leftarrow> free_ptr (ds_configs_raw d);
        _ \<leftarrow> free_ptr (ds_configs d);
        _ \<leftarrow> free_ptr (rw_data (ds_device_raw d));
        Some (d\<lparr>ds_configs_raw := Null, ds_configs := Null,
                ds_device_raw := (ds_device_raw d)\<lparr>rw_data := Null\<rparr>\<rparr>)
      })"

section \<open>usbi_fetch_and_parse_descriptors\<close>

text \<open>
  The uninitialised locals: header in the parser, devbuf and buf here, and cfg_desc.
\<close>

record locals =
  lo_header :: usb_descriptor_header
  lo_devbuf :: "u8 list"
  lo_buf :: "u8 list"
  lo_cfg_desc :: usb_config_desc

text \<open>The label err: both arrays are freed and forgotten.\<close>

definition fetch_err :: "usbi_descriptors \<Rightarrow> usbi_descriptors" where
  "fetch_err d = d\<lparr>ds_configs := Null, ds_configs_raw := Null, ds_num_configs := 0\<rparr>"

text \<open>
  The loop over the configurations; cfgs and raws are the arrays of d. The result is True
  when the loop ends and False when it jumps to err. None outside is a call that does not
  return.
\<close>

fun fetch_configs :: "(nat \<Rightarrow> bool) \<Rightarrow> bool \<Rightarrow> locals \<Rightarrow> 'w ctrl_xfer \<Rightarrow> 'w \<Rightarrow> nat \<Rightarrow> nat \<Rightarrow>
    usbi_config list \<Rightarrow> usbi_raw_desc list \<Rightarrow>
    (bool \<times> usbi_config list \<times> usbi_raw_desc list \<times> 'w) option option" where
  "fetch_configs av be lo xfer w 0 i cfgs raws = Some (Some (True, cfgs, raws, w))"
| "fetch_configs av be lo xfer w (Suc n) i cfgs raws =
     (case usbi_get_descriptor xfer w USB_DESC_TYPE_CONFIG (of_nat i) (lo_buf lo) 8 of
        None \<Rightarrow> Some None
      | Some (ret, buf, w) \<Rightarrow>
     (if ret < 8 then Some (Some (False, cfgs, raws, w))
      else (case parse_config_desc be ''bbw'' (lo_cfg_desc lo) buf 8 of
        None \<Rightarrow> Some None
      | Some (r, d, count) \<Rightarrow>
     (let len = unat (cd_wTotalLength d)
      in if \<not> av (len + 65536) then Some (Some (False, cfgs, raws, w))
         else (case usbi_get_descriptor xfer w USB_DESC_TYPE_CONFIG (of_nat i)
                 (replicate (len + 65536) 0) (of_nat len) of
           None \<Rightarrow> Some None
         | Some (ret, data, w) \<Rightarrow>
     (if (word_of_int ret :: u64) < of_nat len then Some (Some (False, cfgs, raws, w))
      else (case rd cfgs i of None \<Rightarrow> Some None
      | Some cfg \<Rightarrow> do {
          r \<leftarrow> usbi_parse_configuration av be (lo_header lo) cfg (Some data) (of_nat len);
          (case r of None \<Rightarrow> Some None
           | Some (ret, cfg) \<Rightarrow> fetch_configs av be lo xfer w n (i + 1) (cfgs[i := cfg])
                                 (raws[i := \<lparr>rw_data = Ptr data, rw_len = len\<rparr>]))
        })))))))"

definition usbi_fetch_and_parse_descriptors :: "(nat \<Rightarrow> bool) \<Rightarrow> bool \<Rightarrow> locals \<Rightarrow> 'w ctrl_xfer \<Rightarrow>
    usbi_descriptors \<Rightarrow> 'w \<Rightarrow> (int \<times> usbi_descriptors \<times> 'w) option option" where
  "usbi_fetch_and_parse_descriptors av be lo xfer d w =
     (case usbi_destroy_configuration d of None \<Rightarrow> Some None
      | Some d \<Rightarrow>
     (case usbi_get_descriptor xfer w USB_DESC_TYPE_DEVICE 0 (lo_devbuf lo)
             (of_nat USBI_DEVICE_DESC_SIZE) of None \<Rightarrow> Some None
      | Some (ret, devbuf, w) \<Rightarrow>
     (if ret < 0 then Some (Some (OPENUSB_PARSE_ERROR, d, w))
      else (case parse_device_desc be (ds_device d) devbuf (of_nat USBI_DEVICE_DESC_SIZE) of
        None \<Rightarrow> Some None
      | Some (ret, dd, count) \<Rightarrow>
     (let d = d\<lparr>ds_device := dd\<rparr>; n = unat (dd_bNumConfigurations dd)
      in if ret < 0 \<or> (case count of None \<Rightarrow> True | Some c \<Rightarrow> unat c < USBI_DEVICE_DESC_SIZE)
         then Some (Some (OPENUSB_PARSE_ERROR, d, w))
         else if \<not> av USBI_DEVICE_DESC_SIZE then Some None
         else (case rdn devbuf 0 USBI_DEVICE_DESC_SIZE of None \<Rightarrow> Some None
         | Some raw \<Rightarrow>
     (let d = d\<lparr>ds_device_raw := (ds_device_raw d)\<lparr>rw_data := Ptr raw\<rparr>, ds_num_configs := n\<rparr>
      in if n > USBI_MAXCONFIG \<or> n < 1 \<or> \<not> av (n * sizeof_raw_desc) \<or> \<not> av (n * sizeof_config)
         then Some (Some (-1, fetch_err d, w))
         else do {
           r \<leftarrow> fetch_configs av be lo xfer w n 0 (replicate n zero_config) (replicate n zero_raw);
           (case r of None \<Rightarrow> Some None
            | Some (ok, cfgs, raws, w) \<Rightarrow>
                if ok then Some (Some (0, d\<lparr>ds_configs := Ptr cfgs, ds_configs_raw := Ptr raws\<rparr>, w))
                else Some (Some (-1, fetch_err d, w)))
         })))))))"

section \<open>Freeing what the parser built\<close>

lemma for_loop_ok: "(\<And>j. i \<le> j \<Longrightarrow> j < i + n \<Longrightarrow> body j = Some ()) \<Longrightarrow> for_loop n i body = Some ()"
  by (induction n arbitrary: i) auto

lemma for_loop_array:
  assumes "n = length xs" "\<And>x. x \<in> set xs \<Longrightarrow> f x = Some ()"
  shows "for_loop n 0 (\<lambda>j. do { x \<leftarrow> pidx (Ptr xs) j; f x }) = Some ()"
  using assms by (intro for_loop_ok) (simp add: pidx_def rd_def)

lemma free_ptr_of [simp]: "free_ptr (ptr_of bs) = Some ()"
  by (simp add: ptr_of_def)

lemma free_altsetting_ok: "free_altsetting (repr_alt a) = Some ()"
proof -
  have "for_loop (length (sa_eps a)) 0 (\<lambda>k. do { ep \<leftarrow> pidx (Ptr (map repr_ep (sa_eps a))) k;
      free_ptr (ep_extra ep) }) = Some ()"
    by (intro for_loop_array) (auto simp: repr_ep_def)
  then show ?thesis by (simp add: free_altsetting_def repr_alt_def)
qed

lemma free_interface_ok: "free_interface (repr_intf as) = Some ()"
proof -
  have "for_loop (length as) 0 (\<lambda>j. do { a \<leftarrow> pidx (Ptr (map repr_alt as)) j; free_altsetting a }) =
      Some ()"
    by (intro for_loop_array) (auto simp: free_altsetting_ok)
  then show ?thesis by (simp add: free_interface_def repr_intf_def)
qed

lemma free_config_ok:
  assumes "rw_data raw \<noteq> Dangling"
  shows "free_config (repr_config c) raw = Some ()"
proof -
  have "for_loop (length (sc_intfs c)) 0 (\<lambda>i. do { intf \<leftarrow> pidx (Ptr (map repr_intf (sc_intfs c))) i;
      free_interface intf }) = Some ()"
    by (intro for_loop_array) (auto simp: free_interface_ok)
  moreover have "free_ptr (rw_data raw) = Some ()"
    using assms by (cases "rw_data raw") simp_all
  ultimately show ?thesis by (simp add: free_config_def repr_config_def)
qed

section \<open>A device that answers\<close>

record spec_device =
  sv_desc :: usb_device_desc
  sv_configs :: "spec_config list"

definition enc_device_desc :: "usb_device_desc \<Rightarrow> u8 list" where
  "enc_device_desc d = [dd_bLength d, dd_bDescriptorType d] @ wire16 (dd_bcdUSB d) @
     [dd_bDeviceClass d, dd_bDeviceSubClass d, dd_bDeviceProtocol d, dd_bMaxPacketSize0 d] @
     wire16 (dd_idVendor d) @ wire16 (dd_idProduct d) @ wire16 (dd_bcdDevice d) @
     [dd_iManufacturer d, dd_iProduct d, dd_iSerialNumber d, dd_bNumConfigurations d]"

definition wf_device :: "spec_device \<Rightarrow> bool" where
  "wf_device v \<longleftrightarrow> unat (dd_bNumConfigurations (sv_desc v)) = length (sv_configs v) \<and>
     1 \<le> length (sv_configs v) \<and> length (sv_configs v) \<le> USBI_MAXCONFIG \<and>
     list_all wf_config (sv_configs v)"

definition device_desc_bytes :: "spec_device \<Rightarrow> u8 \<Rightarrow> u8 \<Rightarrow> u8 list" where
  "device_desc_bytes v ty ix =
     (if ty = USB_DESC_TYPE_DEVICE then enc_device_desc (sv_desc v)
      else if ty = USB_DESC_TYPE_CONFIG \<and> unat ix < length (sv_configs v)
        then enc_config (sv_configs v ! unat ix)
      else [])"

text \<open>
  What USB 2.0 (9.4.3) asks of GET_DESCRIPTOR: the transfer succeeds and delivers the
  descriptor, cut to the requested length.
\<close>

definition answer :: "(u8 \<Rightarrow> u8 \<Rightarrow> u8 list) \<Rightarrow> u8 \<Rightarrow> u8 \<Rightarrow> ctrl_request \<Rightarrow> ctrl_request" where
  "answer D ty ix c = (let n = min (unat (ct_length c)) (length (D ty ix))
     in c\<lparr>ct_payload := take n (D ty ix) @ drop n (ct_payload c), ct_status := 0,
          ct_transferred := of_nat n\<rparr>)"

definition answers :: "'w ctrl_xfer \<Rightarrow> 'w \<Rightarrow> (u8 \<Rightarrow> u8 \<Rightarrow> u8 list) \<Rightarrow> bool" where
  "answers xfer w D \<longleftrightarrow> (\<forall>ty ix buf n. xfer w (get_desc_request ty ix buf n) =
     Some (0, answer D ty ix (get_desc_request ty ix buf n), w))"

text \<open>
  The contract of a device behind openusb_ctrl_xfer, for requests of at most maxlen bytes:
  in a state that is ok it answers every GET_DESCRIPTOR and leaves a state that is ok. The
  relation evolves tells what a transfer may change.
\<close>

locale ctrl_pipe =
  fixes xfer :: "'w ctrl_xfer" and D :: "u8 \<Rightarrow> u8 \<Rightarrow> u8 list" and maxlen :: nat
    and ok :: "'w \<Rightarrow> bool" and evolves :: "'w \<Rightarrow> 'w \<Rightarrow> bool"
  assumes evolves_refl: "evolves w w"
    and evolves_trans: "evolves u v \<Longrightarrow> evolves v w \<Longrightarrow> evolves u w"
    and answered: "ok w \<Longrightarrow> unat n \<le> maxlen \<Longrightarrow> \<exists>w'. xfer w (get_desc_request ty ix buf n) =
        Some (0, answer D ty ix (get_desc_request ty ix buf n), w') \<and> ok w' \<and> evolves w w'"
begin

lemma get_descriptor_ok:
  assumes "ok w" and "n < 65536" "0 < n" "n \<le> maxlen"
  shows "\<exists>w'. usbi_get_descriptor xfer w ty ix buf (of_nat n) =
     Some (int (min n (length (D ty ix))), take n (D ty ix) @ drop (min n (length (D ty ix))) buf, w') \<and>
     ok w' \<and> evolves w w'"
proof -
  let ?m = "min n (length (D ty ix))"
  have u: "unat (of_nat n :: u32) = n"
    using assms(2) by (simp add: unsigned_of_nat take_bit_nat_eq_self)
  have "uint (of_nat ?m :: u32) = int ?m"
    using assms(2) by (simp add: unsigned_of_nat take_bit_nat_eq_self uint_nat del: of_nat_min)
  then have s: "sint (of_nat ?m :: u32) = int ?m"
    using assms(2) by (simp add: sint_uint signed_take_bit_int_eq_self del: of_nat_min)
  have t: "take ?m (D ty ix) = take n (D ty ix)" by (simp add: min_def)
  have nz: "(of_nat n :: u32) \<noteq> 0" using assms(3) u by (metis less_irrefl unat_0)
  obtain w' where w': "xfer w (get_desc_request ty ix buf (of_nat n)) =
      Some (0, answer D ty ix (get_desc_request ty ix buf (of_nat n)), w')" "ok w'" "evolves w w'"
    using answered [OF assms(1), of "of_nat n" ty ix buf] u assms(4) by auto
  have "usbi_get_descriptor xfer w ty ix buf (of_nat n) = Some (int ?m, take n (D ty ix) @ drop ?m buf, w')"
    using w'(1) s t u nz
    by (simp add: usbi_get_descriptor_def answer_def get_desc_request_def Let_def OPENUSB_SUCCESS_def)
  with w'(2,3) show ?thesis by blast
qed

end

lemma answers_pipe: "answers xfer w D \<Longrightarrow> ctrl_pipe xfer D (2 ^ 32) (\<lambda>w'. w' = w) (=)"
  by unfold_locales (auto simp: answers_def)

lemma usbi_get_descriptor_ok:
  assumes "answers xfer w D" and "n < 65536" "0 < n"
  shows "usbi_get_descriptor xfer w ty ix buf (of_nat n) =
     Some (int (min n (length (D ty ix))), take n (D ty ix) @ drop (min n (length (D ty ix))) buf, w)"
  using ctrl_pipe.get_descriptor_ok [OF answers_pipe [OF assms(1)] refl assms(2,3)] assms(2) by auto

lemma parse_config_bbw_ok:
  "\<exists>d c. parse_config_desc be ''bbw'' d0 (take 8 (enc_config_desc d1 @ r)) 8 = Some (0, d, c) \<and>
     cd_wTotalLength d = cd_wTotalLength d1"
  by (cases d1)
    (simp add: parse_config_desc_def parse_data_ok item_size_def stores_def item_pad_def
      Let_def enc_config_desc_def mem_of_config_desc_def config_desc_of_mem_def
      wire16_def wrn_def le16_st_def nth_append item_val_def OPENUSB_SUCCESS_def)

lemma parse_device_desc_ok:
  "parse_device_desc be d0 (enc_device_desc d @ r) 18 = Some (0, d, Some 18)"
  by (cases d)
    (simp add: parse_device_desc_def parse_data_ok item_size_def stores_def item_pad_def
      Let_def enc_device_desc_def mem_of_device_desc_def device_desc_of_mem_def
      wire16_def wrn_def le16_st_def nth_append item_val_def OPENUSB_SUCCESS_def)

section \<open>Fetching from a device that answers\<close>

definition repr_raw :: "spec_config \<Rightarrow> usbi_raw_desc" where
  "repr_raw c = \<lparr>rw_data = Ptr (enc_config c @ replicate 65536 0),
     rw_len = length (enc_config c)\<rparr>"

lemma guard_zeros: "guard (replicate 65536 0)"
  by (simp add: guard_def desc_types)

lemma wf_config_length:
  assumes "wf_config c"
  shows "length (enc_config c) < 65536" "9 \<le> length (enc_config c)"
    "unat (cd_wTotalLength (sc_desc c)) = length (enc_config c)"
proof -
  have "unat (cd_wTotalLength (sc_desc c)) < 65536"
    using unsigned_less [of "cd_wTotalLength (sc_desc c)"] by simp
  then show "length (enc_config c) < 65536" using assms by (simp add: wf_config_def)
qed (use assms in \<open>auto simp: wf_config_def enc_config_def config_descs_def enc_config_desc_def
      wire16_def\<close>)

text \<open>All of the device can be asked for.\<close>

definition fits :: "nat \<Rightarrow> spec_device \<Rightarrow> bool" where
  "fits maxlen v \<longleftrightarrow> 18 \<le> maxlen \<and> (\<forall>c \<in> set (sv_configs v). length (enc_config c) \<le> maxlen)"

lemma fits_max: "wf_device v \<Longrightarrow> fits (2 ^ 32) v"
  using wf_config_length(1) by (fastforce simp: fits_def wf_device_def list_all_iff)

context ctrl_pipe
begin

lemma fetch_config_step:
  assumes D: "D = device_desc_bytes v" and wf: "wf_device v" and fit: "fits maxlen v" and w: "ok w"
    and av: "\<And>n. av n" and lo: "length (lo_buf lo) = 8" and i: "i < length (sv_configs v)"
    and c: "c = sv_configs v ! i" and cf: "i < length cfgs" "cfgs ! i = zero_config"
  shows "\<exists>w'. fetch_configs av be lo xfer w (Suc n) i cfgs raws =
     fetch_configs av be lo xfer w' n (i + 1) (cfgs[i := repr_config c]) (raws[i := repr_raw c]) \<and>
     ok w' \<and> evolves w w'"
proof -
  have wfc: "wf_config c" using wf i by (auto simp: wf_device_def list_all_length c)
  note l = wf_config_length [OF wfc]
  have m: "8 \<le> maxlen" "length (enc_config c) \<le> maxlen"
    using fit i by (auto simp: fits_def c)
  have u: "unat (of_nat i :: u8) = i"
    using i wf by (simp add: wf_device_def desc_sizes unsigned_of_nat take_bit_nat_eq_self)
  have Dc: "D USB_DESC_TYPE_CONFIG (of_nat i) = enc_config c"
    using i by (simp add: D device_desc_bytes_def u c desc_types)
  obtain w1 where g1: "usbi_get_descriptor xfer w USB_DESC_TYPE_CONFIG (of_nat i) (lo_buf lo) 8 =
      Some (8, take 8 (enc_config c), w1)" and w1: "ok w1" "evolves w w1"
    using get_descriptor_ok [OF w, of 8 USB_DESC_TYPE_CONFIG "of_nat i" "lo_buf lo"] l lo m by (auto simp: Dc)
  obtain r where "enc_config c = enc_config_desc (sc_desc c) @ r"
    by (simp add: enc_config_def config_descs_def)
  then obtain d k where p: "parse_config_desc be ''bbw'' (lo_cfg_desc lo) (take 8 (enc_config c)) 8 =
      Some (0, d, k)" and tl: "cd_wTotalLength d = cd_wTotalLength (sc_desc c)"
    using parse_config_bbw_ok by metis
  let ?n = "length (enc_config c)"
  have "?n < 65536" "0 < ?n" using l by auto
  from get_descriptor_ok [OF w1(1) this m(2), of USB_DESC_TYPE_CONFIG "of_nat i" "replicate (?n + 65536) 0"]
  obtain w2 where g2: "usbi_get_descriptor xfer w1 USB_DESC_TYPE_CONFIG (of_nat i)
      (replicate (?n + 65536) 0) (of_nat ?n) =
      Some (int ?n, enc_config c @ replicate 65536 0, w2)" and w2: "ok w2" "evolves w1 w2"
    by (auto simp: Dc)
  have e: "(of_nat ?n :: u64) = ucast (cd_wTotalLength (sc_desc c))"
    "(of_nat ?n :: u32) = ucast (cd_wTotalLength (sc_desc c))"
    unfolding l(3) [symmetric] by simp_all
  then have pc: "usbi_parse_configuration av be (lo_header lo) zero_config
      (Some (enc_config c @ replicate 65536 0)) (of_nat ?n) = Some (Some (0, repr_config c))"
    using usbi_parse_configuration_ok [OF wfc guard_zeros] av by simp
  have "fetch_configs av be lo xfer w (Suc n) i cfgs raws =
     fetch_configs av be lo xfer w2 n (i + 1) (cfgs[i := repr_config c]) (raws[i := repr_raw c])"
    using g1 p tl g2 [unfolded e] pc [unfolded e] l cf av
    by (simp add: Let_def rd_def repr_raw_def e)
  with w2 w1 evolves_trans show ?thesis by blast
qed

lemma fetch_configs_ok:
  assumes "D = device_desc_bytes v" "wf_device v" "fits maxlen v" "\<And>n. av n" "length (lo_buf lo) = 8"
    and "ok w" "i + n = length (sv_configs v)"
    and "length cfgs = length (sv_configs v)" "length raws = length (sv_configs v)"
    and "\<forall>j. i \<le> j \<longrightarrow> j < length cfgs \<longrightarrow> cfgs ! j = zero_config"
  shows "\<exists>w'. fetch_configs av be lo xfer w n i cfgs raws = Some (Some (True,
     take i cfgs @ map repr_config (drop i (sv_configs v)),
     take i raws @ map repr_raw (drop i (sv_configs v)), w')) \<and> ok w' \<and> evolves w w'"
  using assms(6-10)
proof (induction n arbitrary: i cfgs raws w)
  case 0
  then show ?case using evolves_refl by auto
next
  case (Suc n)
  let ?c = "sv_configs v ! i"
  have i: "i < length (sv_configs v)" using Suc.prems(2) by simp
  obtain w1 where st: "fetch_configs av be lo xfer w (Suc n) i cfgs raws =
     fetch_configs av be lo xfer w1 n (i + 1) (cfgs[i := repr_config ?c]) (raws[i := repr_raw ?c])"
    and w1: "ok w1" "evolves w w1"
    using fetch_config_step [where i = i and cfgs = cfgs and n = n, OF assms(1-3) Suc.prems(1) assms(4,5) i refl]
      Suc.prems by fastforce
  obtain w2 where "fetch_configs av be lo xfer w1 n (i + 1) (cfgs[i := repr_config ?c]) (raws[i := repr_raw ?c]) =
     Some (Some (True,
     take (i + 1) (cfgs[i := repr_config ?c]) @ map repr_config (drop (i + 1) (sv_configs v)),
     take (i + 1) (raws[i := repr_raw ?c]) @ map repr_raw (drop (i + 1) (sv_configs v)), w2))"
    and w2: "ok w2" "evolves w1 w2"
    using Suc.IH [OF w1(1), of "i + 1" "cfgs[i := repr_config ?c]" "raws[i := repr_raw ?c]"] Suc.prems by auto
  then show ?case
    using i Suc.prems w1 st evolves_trans [OF w1(2) w2(2)]
    by (auto simp: take_Suc_conv_app_nth Cons_nth_drop_Suc [symmetric])
qed

end

text \<open>
  The structure usbi_fetch_and_parse_descriptors should leave in dev->desc.
\<close>

definition repr_device :: "spec_device \<Rightarrow> nat \<Rightarrow> usbi_descriptors" where
  "repr_device v rawlen =
     \<lparr>ds_device_raw = \<lparr>rw_data = Ptr (enc_device_desc (sv_desc v)), rw_len = rawlen\<rparr>,
      ds_num_configs = length (sv_configs v),
      ds_configs_raw = Ptr (map repr_raw (sv_configs v)),
      ds_device = sv_desc v,
      ds_configs = Ptr (map repr_config (sv_configs v))\<rparr>"

lemma destroy_repr_device:
  "usbi_destroy_configuration (repr_device v l) = Some ((repr_device v l)\<lparr>ds_configs_raw := Null,
     ds_configs := Null, ds_device_raw := \<lparr>rw_data = Null, rw_len = l\<rparr>\<rparr>)"
proof -
  have "for_loop (length (sv_configs v)) 0 (\<lambda>c. do {
      cfg \<leftarrow> pidx (Ptr (map repr_config (sv_configs v))) c;
      raw \<leftarrow> pidx (Ptr (map repr_raw (sv_configs v))) c;
      free_config cfg raw }) = Some ()"
    by (intro for_loop_ok) (simp add: pidx_def rd_def free_config_ok repr_raw_def)
  then show ?thesis by (simp add: usbi_destroy_configuration_def repr_device_def)
qed

context ctrl_pipe
begin

lemma fetch_ok:
  assumes "D = device_desc_bytes v" and "wf_device v" and "fits maxlen v" and "\<And>n. av n" and "ok w"
    and "length (lo_buf lo) = 8" "length (lo_devbuf lo) = 19"
    and "usbi_destroy_configuration d = Some d0"
  shows "\<exists>w'. usbi_fetch_and_parse_descriptors av be lo xfer d w =
       Some (Some (0, repr_device v (rw_len (ds_device_raw d0)), w')) \<and> ok w' \<and> evolves w w'"
proof -
  let ?e = "enc_device_desc (sv_desc v)" and ?n = "length (sv_configs v)"
  have le: "length ?e = 18" by (simp add: enc_device_desc_def wire16_def)
  have Dd: "D USB_DESC_TYPE_DEVICE 0 = ?e" by (simp add: assms(1) device_desc_bytes_def)
  have "18 \<le> maxlen" using assms(3) by (simp add: fits_def)
  then obtain w1 where g: "usbi_get_descriptor xfer w USB_DESC_TYPE_DEVICE 0 (lo_devbuf lo) 18 =
      Some (18, ?e @ drop 18 (lo_devbuf lo), w1)" and w1: "ok w1" "evolves w w1"
    using get_descriptor_ok [OF assms(5), of 18 USB_DESC_TYPE_DEVICE 0 "lo_devbuf lo"] le by (auto simp: Dd)
  have p: "parse_device_desc be (ds_device d0) (?e @ drop 18 (lo_devbuf lo)) 18 =
      Some (0, sv_desc v, Some 18)"
    by (rule parse_device_desc_ok)
  have n: "unat (dd_bNumConfigurations (sv_desc v)) = ?n" "1 \<le> ?n" "?n \<le> USBI_MAXCONFIG"
    using assms(2) by (auto simp: wf_device_def)
  then have ne: "sv_configs v \<noteq> []" by auto
  obtain w2 where c: "fetch_configs av be lo xfer w1 ?n 0 (replicate ?n zero_config) (replicate ?n zero_raw) =
      Some (Some (True, map repr_config (sv_configs v), map repr_raw (sv_configs v), w2))"
    and w2: "ok w2" "evolves w1 w2"
    using fetch_configs_ok [where av = av and i = 0 and n = ?n and cfgs = "replicate ?n zero_config"
        and raws = "replicate ?n zero_raw" and be = be, OF assms(1-4,6) w1(1)] by auto
  have "usbi_fetch_and_parse_descriptors av be lo xfer d w =
       Some (Some (0, repr_device v (rw_len (ds_device_raw d0)), w2))"
    using assms(4,8) g p n c le ne
    by (simp add: usbi_fetch_and_parse_descriptors_def USBI_DEVICE_DESC_SIZE_def rdn_def Let_def
        repr_device_def)
  with w2 evolves_trans [OF w1(2) w2(2)] show ?thesis by blast
qed

end

text \<open>
  C2. Fetching the descriptors. From a device that answers GET_DESCRIPTOR as USB 2.0 asks
  and whose configurations are well-formed, usbi_fetch_and_parse_descriptors succeeds,
  whatever dev->desc held before (as long as that could be freed), and leaves exactly the
  tree of the device; and what it leaves can be freed, so the function can be called again.
\<close>

theorem usbi_fetch_and_parse_descriptors_ok:
  assumes "answers xfer w (device_desc_bytes v)" and "wf_device v" and "\<forall>n. av n"
    and "length (lo_buf lo) = 8" "length (lo_devbuf lo) = 19"
    and "usbi_destroy_configuration d = Some d0"
  shows "usbi_fetch_and_parse_descriptors av be lo xfer d w =
       Some (Some (0, repr_device v (rw_len (ds_device_raw d0)), w))
     \<and> usbi_destroy_configuration (repr_device v (rw_len (ds_device_raw d0))) \<noteq> None"
  using ctrl_pipe.fetch_ok [OF answers_pipe [OF assms(1)] refl assms(2) fits_max [OF assms(2)] _ refl assms(4-6)]
    assms(3) by (auto simp: destroy_repr_device)

end
