(* ===== verification/DescTyped.thy ===== *)
theory DescTyped
  imports DescFetch
begin

text \<open>
  The type of what the configuration parser builds, whatever bytes the device sends: every
  count of a structure is the length of the array next to it, every extra length the length
  of the bytes next to it, and no pointer to freed memory is left in it, with one
  exception, the pointer cf_interfaces of a configuration whose parse failed. The
  functions that free such a tree rely on the counts; they end without a fault exactly when
  no configuration is that exception.
\<close>

section \<open>Well-typed trees\<close>

text \<open>A pointer and the length that is kept next to it.\<close>

definition ptr_len :: "'a list cptr \<Rightarrow> nat \<Rightarrow> bool" where
  "ptr_len p n = (case p of Null \<Rightarrow> n = 0 | Dangling \<Rightarrow> False | Ptr xs \<Rightarrow> length xs = n)"

definition typed_ep :: "usbi_endpoint \<Rightarrow> bool" where
  "typed_ep e = (case ep_extra e of Null \<Rightarrow> ep_extralen e = 0 | Dangling \<Rightarrow> False
     | Ptr xs \<Rightarrow> ep_extralen e = of_nat (length xs))"

definition typed_alt :: "usbi_altsetting \<Rightarrow> bool" where
  "typed_alt a \<longleftrightarrow> ptr_len (as_extra a) (as_extralen a) \<and>
     ptr_len (as_endpoints a) (as_num_endpoints a) \<and>
     (case as_endpoints a of Ptr eps \<Rightarrow> list_all typed_ep eps | _ \<Rightarrow> True)"

text \<open>The array of settings may be longer than their number: it is counted before parsing.\<close>

definition typed_intf :: "usbi_interface \<Rightarrow> bool" where
  "typed_intf i = (case if_altsettings i of Null \<Rightarrow> if_num_altsettings i = 0 | Dangling \<Rightarrow> False
     | Ptr as \<Rightarrow> if_num_altsettings i \<le> length as \<and> list_all typed_alt as)"

definition typed_config :: "usbi_config \<Rightarrow> bool" where
  "typed_config c \<longleftrightarrow> ptr_len (cf_extra c) (cf_extralen c) \<and>
     (case cf_interfaces c of Ptr xs \<Rightarrow> length xs = cf_num_interfaces c \<and> list_all typed_intf xs
      | _ \<Rightarrow> True)"

definition typed_descriptors :: "usbi_descriptors \<Rightarrow> bool" where
  "typed_descriptors d = (case (ds_configs d, ds_configs_raw d) of
       (Null, _) \<Rightarrow> True
     | (Ptr cfgs, Ptr raws) \<Rightarrow> length cfgs = ds_num_configs d \<and> length raws = ds_num_configs d \<and>
         list_all typed_config cfgs \<and> list_all (\<lambda>r. rw_data r \<noteq> Dangling) raws \<and>
         rw_data (ds_device_raw d) \<noteq> Dangling
     | _ \<Rightarrow> False)"

text \<open>The trees in which a pointer to freed interfaces is left.\<close>

definition has_freed :: "usbi_descriptors \<Rightarrow> bool" where
  "has_freed d = (case ds_configs d of Ptr cfgs \<Rightarrow> list_ex (\<lambda>c. cf_interfaces c = Dangling) cfgs
     | _ \<Rightarrow> False)"

lemma typed_zero [simp]: "typed_ep zero_endpoint" "typed_alt zero_altsetting"
  "typed_intf zero_interface" "typed_config zero_config"
  by (simp_all add: typed_ep_def typed_alt_def typed_intf_def typed_config_def ptr_len_def
      zero_endpoint_def zero_altsetting_def zero_interface_def zero_config_def)

lemma list_all_replicate [simp]: "P x \<Longrightarrow> list_all P (replicate n x)"
  by (simp add: list_all_length)

lemma list_all_update [intro]: "list_all P xs \<Longrightarrow> P x \<Longrightarrow> list_all P (xs[i := x])"
  by (cases "i < length xs") (auto simp: list_all_length nth_list_update)

lemma list_all_rd: "list_all P xs \<Longrightarrow> rd xs i = Some x \<Longrightarrow> P x \<and> i < length xs"
  by (auto simp: rd_def list_all_length split: if_split_asm)

lemma copy_extra_length: "copy_extra av b n = Some (Some bs) \<Longrightarrow> length bs = n"
  by (auto simp: copy_extra_def rdn_def elim!: bind_SomeE split: if_split_asm)

section \<open>Parsing makes well-typed trees\<close>

lemma parse_endpoint_typed:
  assumes "usbi_parse_endpoint av be h ep bufp n = Some (r, ep')" and "typed_ep ep" and "0 \<le> r"
  shows "typed_ep ep'"
  using assms
  by (auto simp: usbi_parse_endpoint_def Let_def typed_ep_def copy_extra_length error_codes
      elim!: bind_SomeE split: option.split_asm if_split_asm prod.split_asm cptr.split)

lemma parse_endpoints_typed:
  assumes "parse_endpoints av be mem k i eps s = Some res" and "list_all typed_ep eps"
  shows "case res of Next (s', eps') \<Rightarrow> list_all typed_ep eps' \<and> length eps' = length eps \<and>
      pi_num s' = pi_num s \<and> pi_alts s' = pi_alts s | Return e \<Rightarrow> e < 0"
  using assms
proof (induction k arbitrary: i eps s)
  case (Suc k)
  from Suc.prems(1) consider (ret) e where "res = Return e" "e < 0"
    | (more) h ep r ep' where "rd eps i = Some ep" "0 \<le> r"
        "usbi_parse_endpoint av be h ep (Some (drop (pi_off s) mem)) (pi_len s) = Some (r, ep')"
        "parse_endpoints av be mem k (i + 1) (eps[i := ep'])
           (pi_advance (nat r) (s\<lparr>pi_hdr := h\<rparr>)) = Some res"
    by (auto simp: Let_def elim!: bind_SomeE split: if_split_asm) (metis not_less)
  then show ?case
  proof cases
    case more
    have "typed_ep ep'"
      using parse_endpoint_typed [OF more(3) _ more(2)] list_all_rd [OF Suc.prems(2) more(1)] by blast
    then have "list_all typed_ep (eps[i := ep'])" using Suc.prems(2) by blast
    from Suc.IH [OF more(4) this] show ?thesis
      by (auto simp: pi_advance_def split: ctl.splits)
  qed simp
qed auto

text \<open>The array of the interface that is being parsed.\<close>

definition alts_typed :: "pint \<Rightarrow> bool" where
  "alts_typed s \<longleftrightarrow> pi_num s \<le> length (pi_alts s) \<and> list_all typed_alt (pi_alts s)"

lemma mk_intf_typed: "alts_typed s \<Longrightarrow> typed_intf (mk_intf s (Ptr (pi_alts s)))"
  by (simp add: alts_typed_def typed_intf_def mk_intf_def)

lemma alts_typed_more [simp]: "alts_typed (s\<lparr>pi_hdr := h\<rparr>) = alts_typed s"
  "alts_typed (pi_advance n s) = alts_typed s"
  by (simp_all add: alts_typed_def pi_advance_def)

lemma alts_typed_update [intro]: "alts_typed s \<Longrightarrow> typed_alt a \<Longrightarrow> alts_typed (s\<lparr>pi_alts := (pi_alts s)[k := a]\<rparr>)"
  by (auto simp: alts_typed_def)

text \<open>What a part of the round returns with: an error, or a well-typed interface.\<close>

definition ret_typed :: "int \<times> usbi_interface \<Rightarrow> bool" where
  "ret_typed x \<longleftrightarrow> fst x < 0 \<or> typed_intf (snd x)"


lemma alt_extra_next:
  assumes "alt_extra av be mem s = Some (Next (s', as'))"
  shows "\<exists>as d. rd (pi_alts s) (pi_num s) = Some as \<and>
    (as' = as\<lparr>as_desc := d\<rparr> \<or>
      (\<exists>bs. as' = as\<lparr>as_desc := d, as_extra := Ptr bs, as_extralen := length bs\<rparr>)) \<and>
    pi_num s' = pi_num s + 1 \<and> pi_alts s' = (pi_alts s)[pi_num s := as']"
proof -
  from assms obtain as d where as: "rd (pi_alts s) (pi_num s) = Some as"
    and "(as' = as\<lparr>as_desc := d\<rparr> \<or>
      (\<exists>bs. as' = as\<lparr>as_desc := d, as_extra := Ptr bs, as_extralen := length bs\<rparr>)) \<and>
      pi_num s' = pi_num s + 1 \<and> pi_alts s' = (pi_alts s)[pi_num s := as']"
    by (fastforce simp: alt_extra_def Let_def pi_advance_def dest!: copy_extra_length
        elim!: bind_SomeE split: option.split_asm prod.split_asm if_split_asm)
  then show ?thesis by blast
qed

lemma alt_extra_return: "alt_extra av be mem s = Some (Return x) \<Longrightarrow> fst x < 0"
  by (auto simp: alt_extra_def Let_def elim!: bind_SomeE
      split: option.split_asm prod.split_asm if_split_asm)

lemma alt_extra_typed:
  assumes "alt_extra av be mem s = Some (Next (s', as'))" and "alts_typed s"
  shows "alts_typed s' \<and> typed_alt as'"
proof -
  from alt_extra_next [OF assms(1)] obtain as d
    where as: "rd (pi_alts s) (pi_num s) = Some as"
    and as': "as' = as\<lparr>as_desc := d\<rparr> \<or>
      (\<exists>bs. as' = as\<lparr>as_desc := d, as_extra := Ptr bs, as_extralen := length bs\<rparr>)"
    and s': "pi_num s' = pi_num s + 1" "pi_alts s' = (pi_alts s)[pi_num s := as']"
    by blast
  have k: "typed_alt as" "pi_num s < length (pi_alts s)"
    using assms(2) list_all_rd [OF _ as, of typed_alt] by (auto simp: alts_typed_def)
  from as' have "typed_alt as'"
  proof (elim disjE exE)
    assume "as' = as\<lparr>as_desc := d\<rparr>"
    then show ?thesis using k(1) by (simp add: typed_alt_def)
  next
    fix bs
    assume "as' = as\<lparr>as_desc := d, as_extra := Ptr bs, as_extralen := length bs\<rparr>"
    then show ?thesis using k(1) by (simp add: typed_alt_def ptr_len_def)
  qed
  with s' k(2) assms(2) show ?thesis by (auto simp: alts_typed_def)
qed

lemma alt_endpoints_typed:
  assumes "alt_endpoints av be mem s as = Some res" and "alts_typed s" and "typed_alt as"
  shows "case res of Next s' \<Rightarrow> alts_typed s' | Return x \<Rightarrow> ret_typed x"
proof -
  let ?n = "unat (id_bNumEndpoints (as_desc as))"
  from assms(1) consider (keep) h where "res = pi_keep (pi_parsed s) (s\<lparr>pi_hdr := h\<rparr>)"
    | (err) x where "res = Return x" "fst x < 0"
    | (err_ep) h e where "res = pi_free e (s\<lparr>pi_hdr := h\<rparr>)"
        "parse_endpoints av be mem ?n 0 (replicate ?n zero_endpoint) (s\<lparr>pi_hdr := h\<rparr>) = Some (Return e)"
    | (good) h s1 eps where "parse_endpoints av be mem ?n 0 (replicate ?n zero_endpoint)
          (s\<lparr>pi_hdr := h\<rparr>) = Some (Next (s1, eps))"
        "res = Next (s1\<lparr>pi_alts := (pi_alts s1)[pi_num s1 - 1 :=
           as\<lparr>as_endpoints := Ptr eps, as_num_endpoints := ?n\<rparr>]\<rparr>)"
    by (fastforce simp: alt_endpoints_def Let_def pi_free_def elim!: bind_SomeE
        split: if_split_asm ctl.split_asm prod.split_asm)
  then show ?thesis
  proof cases
    case keep
    then show ?thesis
      using mk_intf_typed [of "s\<lparr>pi_hdr := h\<rparr>"] assms(2) by (simp add: pi_keep_def ret_typed_def)
  next
    case err
    then show ?thesis by (simp add: ret_typed_def)
  next
    case err_ep
    then show ?thesis
      using parse_endpoints_typed [OF err_ep(2)] by (simp add: pi_free_def ret_typed_def)
  next
    case good
    have eps: "list_all typed_ep eps" "length eps = ?n" and s1: "alts_typed s1"
      using parse_endpoints_typed [OF good(1)] assms(2) by (simp_all add: alts_typed_def)
    then have "typed_alt (as\<lparr>as_endpoints := Ptr eps, as_num_endpoints := ?n\<rparr>)"
      using assms(3) by (simp add: typed_alt_def ptr_len_def)
    with s1 show ?thesis unfolding good(2) by auto
  qed
qed

lemma alt_more_typed:
  assumes "alt_more be mem s = Some res" and "alts_typed s"
  shows "case res of Next s' \<Rightarrow> alts_typed s' | Return x \<Rightarrow> ret_typed x"
  using assms mk_intf_typed [of "s\<lparr>pi_hdr := h\<rparr>" for h]
  by (auto simp: alt_more_def Let_def pi_keep_def ret_typed_def elim!: bind_SomeE split: if_split_asm)

lemma alt_body_typed:
  assumes "alt_body av be mem s = Some res" and "alts_typed s"
  shows "case res of Next s' \<Rightarrow> alts_typed s' | Return x \<Rightarrow> ret_typed x"
proof -
  from assms(1) consider x where "alt_extra av be mem s = Some (Return x)" "res = Return x"
    | s1 as r where "alt_extra av be mem s = Some (Next (s1, as))"
        "alt_endpoints av be mem s1 as = Some r"
        "(case r of Return x \<Rightarrow> Some (Return x) | Next s2 \<Rightarrow> alt_more be mem s2) = Some res"
    by (auto simp: alt_body_def elim!: bind_SomeE split: ctl.split_asm prod.split_asm)
  then show ?thesis
  proof cases
    case 1
    then show ?thesis using alt_extra_return by (auto simp: ret_typed_def)
  next
    case 2
    from alt_extra_typed [OF 2(1) assms(2)] alt_endpoints_typed [OF 2(2)]
    have "case r of Next s2 \<Rightarrow> alts_typed s2 | Return x \<Rightarrow> ret_typed x" by blast
    then show ?thesis using 2(3) alt_more_typed by (cases r) auto
  qed
qed

lemma interface_loop_typed:
  "interface_loop av be mem s = Some x \<Longrightarrow> alts_typed s \<Longrightarrow> ret_typed x"
proof (induction av be mem s rule: interface_loop.induct)
  case (1 av be mem s)
  show ?case
  proof (cases "9 \<le> pi_len s")
    case False
    then show ?thesis using 1(2,3) mk_intf_typed by (auto simp: interface_loop.simps ret_typed_def)
  next
    case True
    with 1(2) obtain r where r: "alt_body av be mem s = Some r"
      "(case r of Return y \<Rightarrow> Some y | Next s' \<Rightarrow> interface_loop av be mem s') = Some x"
      by (auto simp: interface_loop.simps split: option.split_asm)
    from alt_body_typed [OF r(1) 1(3)] r 1(1) True show ?thesis by (cases r) auto
  qed
qed

lemma parse_interface_typed:
  assumes "usbi_parse_interface av be h intf bufp n = Some (Some x)" and "typed_intf intf"
  shows "ret_typed x"
proof -
  from assms(1) consider "fst x < 0" | "snd x = intf"
    | mem off k where "interface_loop av be mem \<lparr>pi_off = off, pi_len = n, pi_parsed = 0,
        pi_hdr = h, pi_num = 0, pi_alts = replicate k zero_altsetting\<rparr> = Some x"
    by (auto simp: usbi_parse_interface_def Let_def error_codes elim!: bind_SomeE
        split: option.split_asm prod.split_asm if_split_asm)
  then show ?thesis
  proof cases
    case 3
    then show ?thesis by (rule interface_loop_typed) (simp add: alts_typed_def)
  qed (use assms(2) in \<open>simp_all add: ret_typed_def\<close>)
qed

lemma cfg_interfaces_typed:
  assumes "cfg_interfaces av be h mem k i intfs off n = Some (Some (r, intfs', n'))"
    and "list_all typed_intf intfs"
  shows "list_all typed_intf intfs' \<and> length intfs' = length intfs"
  using assms
proof (induction k arbitrary: i intfs off n)
  case (Suc k)
  from Suc.prems(1) consider "intfs' = intfs"
    | intf x where "rd intfs i = Some intf"
        "usbi_parse_interface av be h intf (Some (mem, off)) (ucast n) = Some (Some x)" "0 \<le> fst x"
        "cfg_interfaces av be h mem k (i + 1) (intfs[i := snd x]) (off + nat (fst x))
           (n - word_of_int (fst x)) = Some (Some (r, intfs', n'))"
    by (force elim!: bind_SomeE split: if_split_asm option.split_asm prod.split_asm)
  then show ?case
  proof cases
    case 2
    then have "typed_intf (snd x)"
      using parse_interface_typed [OF 2(2)] list_all_rd [OF Suc.prems(2) 2(1)] by (auto simp: ret_typed_def)
    then have "list_all typed_intf (intfs[i := snd x])" using Suc.prems(2) by blast
    from Suc.IH [OF 2(4) this] show ?thesis by simp
  qed (use Suc.prems in simp)
qed simp

text \<open>The configuration passed in is as calloc left it, as in the only call of the parser.\<close>

lemma cfg_rest_typed:
  assumes "cfg_rest av be h cfg mem off n = Some (Some (r, cfg'))"
    and "cf_extra cfg = Null" "cf_extralen cfg = 0"
    and "cf_interfaces cfg = Ptr (replicate (cf_num_interfaces cfg) zero_interface)"
  shows "typed_config cfg'"
  using assms cfg_interfaces_typed [where intfs = "replicate k zero_interface" for k, simplified]
  by (fastforce simp: cfg_rest_def typed_config_def ptr_len_def dest!: copy_extra_length
      elim!: bind_SomeE split: option.split_asm prod.split_asm if_split_asm)

lemma parse_configuration_typed:
  assumes "usbi_parse_configuration av be h zero_config bufp n = Some (Some (r, cfg'))"
  shows "typed_config cfg'"
proof -
  have z: "typed_config (zero_config\<lparr>cf_desc := d\<rparr>)"
    "typed_config (zero_config\<lparr>cf_desc := d, cf_interfaces := Null\<rparr>)" for d
    by (simp_all add: typed_config_def zero_config_def ptr_len_def)
  show ?thesis
    using assms z
    by (auto simp: usbi_parse_configuration_def Let_def zero_config_def elim: cfg_rest_typed
        split: option.split_asm prod.split_asm if_split_asm)
qed

section \<open>Freeing them\<close>

lemma for_loop_iff:
  "for_loop n i body = Some () \<longleftrightarrow> (\<forall>j. i \<le> j \<and> j < i + n \<longrightarrow> body j = Some ())"
proof (induction n arbitrary: i)
  case (Suc n)
  have "(\<forall>j. i \<le> j \<and> j < i + Suc n \<longrightarrow> body j = Some ()) \<longleftrightarrow>
      body i = Some () \<and> (\<forall>j. Suc i \<le> j \<and> j < Suc i + n \<longrightarrow> body j = Some ())"
  proof -
    have "i \<le> j \<longleftrightarrow> j = i \<or> Suc i \<le> j" for j by auto
    then show ?thesis by auto
  qed
  with Suc show ?case by (cases "body i") auto
qed auto

lemma free_ptr_iff: "free_ptr p = Some () \<longleftrightarrow> p \<noteq> Dangling"
  by (cases p) simp_all

lemma ptr_lenD: "ptr_len p n \<Longrightarrow> p \<noteq> Dangling"
  by (auto simp: ptr_len_def)

lemma free_typed_alt: "typed_alt a \<Longrightarrow> free_altsetting a = Some ()"
proof -
  assume a: "typed_alt a"
  have "typed_ep e \<Longrightarrow> free_ptr (ep_extra e) = Some ()" for e
    by (auto simp: typed_ep_def free_ptr_iff)
  then have "for_loop (as_num_endpoints a) 0 (\<lambda>k. do { ep \<leftarrow> pidx (as_endpoints a) k;
      free_ptr (ep_extra ep) }) = Some ()"
    using a by (cases "as_endpoints a")
      (auto simp: typed_alt_def ptr_len_def list_all_iff intro: for_loop_array)
  moreover have "free_ptr (as_endpoints a) = Some ()" "free_ptr (as_extra a) = Some ()"
    using a by (auto simp: typed_alt_def free_ptr_iff dest: ptr_lenD)
  ultimately show ?thesis by (simp add: free_altsetting_def)
qed

lemma free_typed_intf: "typed_intf i \<Longrightarrow> free_interface i = Some ()"
proof -
  assume i: "typed_intf i"
  then have "for_loop (if_num_altsettings i) 0 (\<lambda>j. do { as \<leftarrow> pidx (if_altsettings i) j;
      free_altsetting as }) = Some ()"
    by (cases "if_altsettings i")
      (auto simp: typed_intf_def list_all_length pidx_def rd_def free_typed_alt intro!: for_loop_ok)
  with i show ?thesis by (auto simp: free_interface_def typed_intf_def free_ptr_iff)
qed

lemma free_typed_config:
  assumes "typed_config c" and "rw_data raw \<noteq> Dangling"
  shows "free_config c raw = Some () \<longleftrightarrow> cf_interfaces c \<noteq> Dangling"
proof -
  have e: "free_ptr (cf_extra c) = Some ()" "free_ptr (rw_data raw) = Some ()"
    using assms by (auto simp: typed_config_def free_ptr_iff dest: ptr_lenD)
  show ?thesis
  proof (cases "cf_interfaces c")
    case (Ptr xs)
    then have "for_loop (cf_num_interfaces c) 0 (\<lambda>i. do { x \<leftarrow> pidx (Ptr xs) i;
        free_interface x }) = Some ()"
      using assms(1) by (intro for_loop_array) (auto simp: typed_config_def list_all_iff free_typed_intf)
    with Ptr e show ?thesis by (simp add: free_config_def)
  next
    case Dangling
    have "Option.bind x (\<lambda>_. None) = None" for x :: "unit option" by (cases x) simp_all
    with Dangling e show ?thesis by (simp add: free_config_def)
  qed (simp add: free_config_def e)
qed

lemma destroy_typed:
  assumes "typed_descriptors d"
  shows "usbi_destroy_configuration d \<noteq> None \<longleftrightarrow> \<not> has_freed d"
proof (cases "ds_configs d")
  case (Ptr cfgs)
  with assms obtain raws where raws: "ds_configs_raw d = Ptr raws" "length raws = ds_num_configs d"
      "list_all (\<lambda>r. rw_data r \<noteq> Dangling) raws"
    and cfgs: "length cfgs = ds_num_configs d" "list_all typed_config cfgs"
    and dev: "rw_data (ds_device_raw d) \<noteq> Dangling"
    by (auto simp: typed_descriptors_def split: cptr.split_asm)
  let ?body = "\<lambda>c. do { cfg \<leftarrow> pidx (Ptr cfgs) c; raw \<leftarrow> pidx (Ptr raws) c; free_config cfg raw }"
  have "?body j = Some () \<longleftrightarrow> cf_interfaces (cfgs ! j) \<noteq> Dangling" if "j < length cfgs" for j
    using that raws cfgs free_typed_config by (auto simp: pidx_def rd_def list_all_length)
  then have "for_loop (ds_num_configs d) 0 ?body = Some () \<longleftrightarrow> \<not> has_freed d"
    unfolding for_loop_iff using cfgs(1) Ptr by (auto simp: has_freed_def list_ex_length)
  moreover have "usbi_destroy_configuration d \<noteq> None \<longleftrightarrow> for_loop (ds_num_configs d) 0 ?body = Some ()"
    using dev by (cases "for_loop (ds_num_configs d) 0 ?body")
      (auto simp: usbi_destroy_configuration_def Ptr raws(1) free_ptr_iff [THEN iffD2])
  ultimately show ?thesis by simp
qed (use assms in \<open>auto simp: typed_descriptors_def usbi_destroy_configuration_def has_freed_def\<close>)

section \<open>Fetching\<close>

lemma fetch_configs_typed:
  assumes "fetch_configs av be lo xfer w n i cfgs raws = Some (Some (b, cfgs', raws', w'))"
    and "list_all typed_config cfgs" "list_all (\<lambda>r. rw_data r \<noteq> Dangling) raws"
    and "\<forall>j. i \<le> j \<longrightarrow> j < length cfgs \<longrightarrow> cfgs ! j = zero_config"
  shows "list_all typed_config cfgs' \<and> length cfgs' = length cfgs \<and>
     list_all (\<lambda>r. rw_data r \<noteq> Dangling) raws' \<and> length raws' = length raws"
  using assms
proof (induction n arbitrary: i cfgs raws w)
  case (Suc n)
  from Suc.prems(1) consider "cfgs' = cfgs" "raws' = raws"
    | w1 cfg len m data r cfg' where "rd cfgs i = Some cfg"
        "usbi_parse_configuration av be (lo_header lo) cfg (Some data) m = Some (Some (r, cfg'))"
        "fetch_configs av be lo xfer w1 n (i + 1) (cfgs[i := cfg'])
           (raws[i := \<lparr>rw_data = Ptr data, rw_len = len\<rparr>]) = Some (Some (b, cfgs', raws', w'))"
    by (auto simp: Let_def elim!: bind_SomeE split: option.split_asm prod.split_asm if_split_asm)
  then show ?case
  proof cases
    case 2
    have "cfg = zero_config"
      using 2(1) Suc.prems(4) by (auto simp: rd_def split: if_split_asm)
    then have "list_all typed_config (cfgs[i := cfg'])"
      using parse_configuration_typed 2(2) Suc.prems(2) by blast
    moreover have "list_all (\<lambda>r. rw_data r \<noteq> Dangling) (raws[i := \<lparr>rw_data = Ptr data, rw_len = len\<rparr>])"
      using Suc.prems(3) by (rule list_all_update) simp
    ultimately show ?thesis using Suc.IH [OF 2(3)] Suc.prems(4) by simp
  qed (use Suc.prems in simp)
qed simp

lemma destroyed_configs: "usbi_destroy_configuration d = Some d' \<Longrightarrow> ds_configs d' = Null"
  by (auto simp: usbi_destroy_configuration_def elim!: bind_SomeE split: if_split_asm)

text \<open>
  C3. The type of a fetched tree. Whatever a device sends, wherever a transfer or a calloc
  fails, what usbi_fetch_and_parse_descriptors leaves in dev->desc when it returns is well
  typed: every count is the length of its array (the array of the settings of an interface
  may be longer), every extra length the length of its bytes, and no pointer in it is one to
  freed memory, but for the pointer cf_interfaces of a configuration whose parse failed.
  There is a tree exactly when 0 is returned. And usbi_destroy_configuration frees it
  without a fault exactly when there is no such pointer.
\<close>

theorem fetched_typed:
  assumes "usbi_fetch_and_parse_descriptors av be lo xfer d w = Some (Some (r, d', w'))"
  shows "typed_descriptors d' \<and> (r = 0 \<longleftrightarrow> ds_configs d' \<noteq> Null) \<and>
     (usbi_destroy_configuration d' \<noteq> None \<longleftrightarrow> \<not> has_freed d')"
proof -
  from assms consider "r \<noteq> 0" "ds_configs d' = Null"
    | n w1 cfgs raws where "r = 0"
        "fetch_configs av be lo xfer w1 n 0 (replicate n zero_config) (replicate n zero_raw) =
           Some (Some (True, cfgs, raws, w'))"
        "ds_num_configs d' = n" "ds_configs d' = Ptr cfgs" "ds_configs_raw d' = Ptr raws"
        "rw_data (ds_device_raw d') \<noteq> Dangling"
    by (auto simp: usbi_fetch_and_parse_descriptors_def Let_def fetch_err_def error_codes
        dest!: destroyed_configs elim!: bind_SomeE split: option.split_asm prod.split_asm if_split_asm)
  then have "typed_descriptors d' \<and> (r = 0 \<longleftrightarrow> ds_configs d' \<noteq> Null)"
  proof cases
    case 2
    have "rw_data zero_raw \<noteq> Dangling" by (simp add: zero_raw_def)
    then have "list_all typed_config cfgs \<and> length cfgs = n \<and>
        list_all (\<lambda>r. rw_data r \<noteq> Dangling) raws \<and> length raws = n"
      using fetch_configs_typed [OF 2(2)] by simp
    with 2(1,3-6) show ?thesis by (simp add: typed_descriptors_def)
  qed (simp add: typed_descriptors_def)
  with destroy_typed show ?thesis by blast
qed

end
