(* ===== verification/DescCases.thy ===== *)
theory DescCases
  imports DescTyped
begin

text \<open>
  The descriptor parser on inputs outside the well-formed trees of DescRound, and
  witnesses. Three defects are stated as theorems: a descriptor of length zero makes
  usbi_get_intf_altno loop for ever, the same function reads two bytes past the end of
  every configuration that has an interface, and a failed transfer of a configuration is
  taken for a success and leaves dev->desc in a state that cannot be freed.
\<close>

section \<open>A descriptor of length zero\<close>

lemma altno_stuck:
  assumes "altno_loop mem fno buflen pos len n = Some y"
  shows "\<not> (word_of_int len < buflen \<and> (\<exists>p t m r. pos = int p \<and> drop p mem = 0 # t # m # r) \<and>
     len < 65536)"
proof (rule altno_loop.raw_induct [where P = "\<lambda>mem fno buflen pos len n y.
    \<not> (word_of_int len < buflen \<and> (\<exists>p t m r. pos = int p \<and> drop p mem = 0 # t # m # r) \<and>
    len < 65536)", OF _ assms], goal_cases)
  case (1 rec mem fno buflen pos len n y)
  show ?case
  proof
    assume st: "word_of_int len < buflen \<and>
      (\<exists>p t m r. pos = int p \<and> drop p mem = 0 # t # m # r) \<and> len < 65536"
    then obtain p t m r where dr: "drop p mem = 0 # t # m # r" "pos = int p" by blast
    have r: "rdi mem pos = Some 0" "rdi mem (pos + 1) = Some t" "rdi mem (pos + 2) = Some m"
      using rdi_drop [OF dr(1), of 0] rdi_drop [OF dr(1), of 1] rdi_drop [OF dr(1), of 2] dr(2)
      by simp_all
    from 1(2) obtain n' where n': "rec mem fno buflen pos len n' = Some y"
      using st r by (simp split: if_splits)
    show False using 1(1) [OF n'] st by blast
  qed
qed

lemma altno_loop_skip:
  assumes "list_all wf_any ds" "drop pos mem = concat ds @ g" "3 \<le> length g"
    and "k + length (concat ds) < unat buflen" "unat buflen < 65536"
  shows "\<exists>n'. altno_loop mem fno buflen (int pos) (int k) n =
     altno_loop mem fno buflen (int (pos + length (concat ds))) (int (k + length (concat ds))) n'"
  using assms
proof (induction ds arbitrary: pos k n)
  case (Cons d ds)
  have d: "2 \<le> length d" "length d \<le> 127" "unat (d ! 0) = length d"
    using Cons.prems(1) by (auto simp: wf_any_def)
  have r0: "rdi mem (int pos) = Some (d ! 0)"
    using rdi_drop [OF Cons.prems(2), of 0] d(1) by (cases d) auto
  have s: "sint (d ! 0) = int (length d)" using sint_small [of "d ! 0"] d by simp
  let ?rest = "concat ds @ g"
  have dr: "drop (pos + length d) mem = ?rest"
    using Cons.prems(2) by (simp add: add.commute [of pos] flip: drop_drop)
  have three: "3 \<le> length ?rest" using Cons.prems(3) by simp
  have r1: "rdi mem (int pos + int (length d) + 1) = Some (?rest ! 1)"
    and r2: "rdi mem (int pos + int (length d) + 2) = Some (?rest ! 2)"
    using rdi_drop [OF dr, of 1] rdi_drop [OF dr, of 2] three by simp_all
  have lt: "word_of_int (int k) < buflen" "int k + int (length d) < 2 ^ 31"
    using Cons.prems(4,5) d by (auto simp: len_less_buflen)
  have "\<exists>m. altno_loop mem fno buflen (int pos) (int k) n =
      altno_loop mem fno buflen (int (pos + length d)) (int (k + length d)) m"
    using r0 r1 r2 s lt by (auto simp add: altno_loop.simps [of mem fno buflen "int pos" "int k" n])
  moreover have "\<exists>n'. altno_loop mem fno buflen (int (pos + length d)) (int (k + length d)) m =
      altno_loop mem fno buflen (int (pos + length d + length (concat ds)))
        (int (k + length d + length (concat ds))) n'" for m
    using Cons.prems dr by (intro Cons.IH) auto
  ultimately show ?case by (metis add.assoc concat.simps(2) length_append)
qed auto

text \<open>
  C28. A descriptor of length zero inside the configuration, after any well-formed
  descriptors: usbi_get_intf_altno does not return, since neither the pointer nor len
  moves any more. The two skipping loops of the parser reject such a descriptor, but
  usbi_parse_interface calls usbi_get_intf_altno on the whole rest of the buffer first.
\<close>

theorem usbi_get_intf_altno_diverges:
  assumes "list_all wf_any ds" and "ds \<noteq> []"
    and "drop off mem = concat ds @ 0 # t # m # r"
    and "length (concat ds) < unat buflen" and "unat buflen < 65536"
  shows "usbi_get_intf_altno mem off buflen = None"
proof -
  have "2 < length (concat ds @ 0 # t # m # r)" by simp
  then obtain b where b: "rd mem (off + 2) = Some b"
    using rdi_drop [OF assms(3), of 2] by (auto simp: rdi_def nat_add_distrib)
  let ?n = "length (concat ds)"
  obtain n' where "altno_loop mem b buflen (int off) (int 0) 1 =
      altno_loop mem b buflen (int (off + ?n)) (int (0 + ?n)) n'"
    using altno_loop_skip [OF assms(1,3), of 0 buflen b 1] assms(4,5) by auto
  moreover have d2: "drop (off + ?n) mem = 0 # t # m # r"
    using assms(3) by (simp add: add.commute [of off] flip: drop_drop)
  have "altno_loop mem b buflen (int (off + ?n)) (int ?n) n' = None"
  proof (rule ccontr)
    assume "\<not> ?thesis"
    then obtain y where "altno_loop mem b buflen (int (off + ?n)) (int ?n) n' = Some y" by auto
    from altno_stuck [OF this] show False
      using d2 assms(4,5) by (auto simp: len_less_buflen)
  qed
  ultimately show ?thesis using b by (simp add: usbi_get_intf_altno_def)
qed

section \<open>Reading past the end\<close>

lemma altno_loop_short:
  assumes "list_all wf_any ds" "ds \<noteq> []" "drop pos mem = concat ds @ g" "length g < 2"
    and "k + length (concat ds) = unat buflen" "unat buflen < 65536"
  shows "altno_loop mem fno buflen (int pos) (int k) n = Some None"
  using assms
proof (induction ds arbitrary: pos k n)
  case (Cons d ds)
  have d: "2 \<le> length d" "length d \<le> 127" "unat (d ! 0) = length d"
    using Cons.prems(1) by (auto simp: wf_any_def)
  have r0: "rdi mem (int pos) = Some (d ! 0)"
    using rdi_drop [OF Cons.prems(3), of 0] d(1) by (cases d) auto
  have s: "sint (d ! 0) = int (length d)" using sint_small [of "d ! 0"] d by simp
  let ?rest = "concat ds @ g"
  have dr: "drop (pos + length d) mem = ?rest"
    using Cons.prems(3) by (simp add: add.commute [of pos] flip: drop_drop)
  have lt: "word_of_int (int k) < buflen" "int k + int (length d) < 2 ^ 31"
    using Cons.prems(5,6) d by (auto simp: len_less_buflen)
  note st = altno_loop.simps [of mem fno buflen "int pos" "int k" n]
  show ?case
  proof (cases ds)
    case Nil
    have "length mem - pos = length d + length g"
      using arg_cong [OF Cons.prems(3), of length] Nil by simp
    with d(1) have "length mem = pos + length d + length g" by linarith
    then have "rdi mem (int pos + int (length d) + 1) = None"
      using Cons.prems(4) by (simp add: rdi_def rd_def nat_add_distrib)
    then show ?thesis using r0 s lt by (simp add: st)
  next
    case (Cons e ds')
    then have e: "2 \<le> length e" "e ! 1 = USB_DESC_TYPE_INTERFACE \<Longrightarrow> 3 \<le> length e"
      using Cons.prems(1) by (auto simp: wf_any_def)
    have r1: "rdi mem (int pos + int (length d) + 1) = Some (e ! 1)"
      using rdi_drop [OF dr, of 1] e(1) Cons by (simp add: nth_append)
    have r2: "rdi mem (int pos + int (length d) + 2) = Some (e ! 2)"
      if "e ! 1 = USB_DESC_TYPE_INTERFACE"
      using rdi_drop [OF dr, of 2] e(2) [OF that] Cons by (simp add: nth_append)
    have "altno_loop mem fno buflen (int pos + int (length d)) (int k + int (length d)) m = Some None"
      for m
      using Cons.IH [of "pos + length d" "k + length d" m] Cons.prems dr Cons by simp
    then show ?thesis using r0 r1 r2 s lt by (auto simp add: st)
  qed
qed simp

text \<open>
  C29. usbi_get_intf_altno reads past the configuration. For every well-formed tree with at
  least one interface, parsing its bytes from an object that ends less than two bytes
  after them is an access outside the object. This is the crash that the 64 KiB of slack
  in usbi_fetch_and_parse_descriptors hides.
\<close>

theorem usbi_parse_configuration_reads_past_end:
  assumes wf: "wf_config c" and ne: "sc_intfs c \<noteq> []" and g: "length g < 2" and av: "\<forall>n. av n"
  shows "usbi_parse_configuration av be h0 zero_config (Some (enc_config c @ g))
      (ucast (cd_wTotalLength (sc_desc c))) = Some None"
proof -
  let ?d = "sc_desc c" and ?x = "concat (sc_extra c)"
  let ?bs = "concat (concat (map intf_descs (sc_intfs c)))"
  let ?mem = "enc_config c @ g"
  let ?l = "ucast (cd_wTotalLength (sc_desc c)) :: u64"
  obtain as "is" where i: "sc_intfs c = as # is" using ne by (cases "sc_intfs c") auto
  have w: "cd_bLength ?d = 9" "unat (cd_bNumInterfaces ?d) = length (sc_intfs c)"
    "length (sc_intfs c) \<le> USBI_MAXINTERFACES" "list_all wf_class (sc_extra c)"
    "list_all wf_intf (sc_intfs c)" "distinct (map intf_number (sc_intfs c))"
    using wf by (auto simp: wf_config_def)
  have enc: "enc_config c = enc_config_desc ?d @ ?x @ ?bs"
    by (simp add: enc_config_def config_descs_def)
  have l9: "length (enc_config_desc ?d) = 9" by (simp add: enc_config_desc_def wire16_def)
  note tot = wf_config_length [OF wf]
  have l: "?l = of_nat (length (enc_config c))" unfolding tot(3) [symmetric] by simp
  have u: "unat (ucast ?l :: u32) = length (enc_config c)"
    unfolding l using tot(1) by (rule unat_u32_of_u64)
  have ge: "2 \<le> (ucast ?l :: u32)" "9 \<le> unat (ucast ?l :: u32)" "?l \<noteq> 0"
    using tot(2) u by (auto simp: word_le_nat_alt)
  let ?h = "\<lparr>h_bLength = 9, h_bDescriptorType = cd_bDescriptorType ?d\<rparr>"
  have hdr: "parse_header be h0 ?mem (ucast ?l) = Some ?h"
    using ge w(1) by (simp add: parse_header_ge2 enc enc_config_desc_def)
  obtain k where cd: "parse_config_desc be ''bbwbbbbb'' zero_config_desc ?mem (ucast ?l) =
      Some (0, ?d, k)"
    using parse_config_desc_ok [OF ge(2), of be zero_config_desc ?d "?x @ ?bs @ g"] enc by auto
  have rest: "?l - 9 = of_nat (length (?x @ ?bs))"
    unfolding l enc using l9 by simp
  have small: "length (?x @ ?bs) < 65536" using tot(1) by (simp add: enc)
  have dr: "drop 9 ?mem = ?x @ ?bs @ g" using l9 by (simp add: enc)
  have sk: "skip_class_cfg be ?h (drop 9 ?mem) (?l - 9) 0 = Some (Some (of_nat (length ?bs), length ?x))"
    unfolding rest using skip_class_cfg_ok [OF w(4) starts_proper_config(1) [OF w(5)] dr small
        starts_proper_config(2) [OF w(5)], of be ?h 0] by simp
  have "drop (9 + length ?x) ?mem = drop (length ?x) (drop 9 ?mem)"
    by (simp only: drop_drop add.commute)
  then have drx: "drop (9 + length ?x) ?mem = ?bs @ g"
    unfolding dr by simp
  have sm: "length ?bs < 65536" using small by simp
  note ub = unat_u32_of_u64 [OF sm]
  obtain a as' where a: "as = a # as'" "wf_alt (intf_number as) a"
    "list_all (wf_alt (intf_number as)) as"
    using w(5) i by (auto elim: wf_intf_start)
  have dis: "intf_number as \<notin> set (map intf_number is)" "list_all wf_intf is"
    using w(5,6) i by auto
  let ?ds = "intf_descs as @ concat (map intf_descs is)"
  have bs: "?bs = concat ?ds" by (simp add: i)
  have ads: "list_all wf_any ?ds"
    using intf_descs_any [OF a(3)] intfs_descs_any [OF dis(2,1)] by simp
  have nds: "?ds \<noteq> []" by (simp add: a(1) intf_descs_def alt_descs_def)
  have alt: "altno_loop ?mem (intf_number as) (ucast (of_nat (length ?bs) :: u64)) (int (9 + length ?x))
      (int 0) 1 = Some None"
    using ub sm by (intro altno_loop_short [OF ads nds _ g]) (simp_all only: drx bs add_0)
  obtain r where "drop (9 + length ?x) ?mem = mem_of_interface_desc (sa_desc a) @ r"
    using drx by (simp add: bs a(1) intf_descs_def alt_descs_def)
  then have rds: "rd ?mem (9 + length ?x + 1) = Some USB_DESC_TYPE_INTERFACE"
    "rd ?mem (9 + length ?x + 2) = Some (intf_number as)"
    using a(2) rdi_drop [of "9 + length ?x" ?mem _ 1] rdi_drop [of "9 + length ?x" ?mem _ 2]
    by (auto simp: rdi_def mem_of_interface_desc_def wf_alt_def nat_add_distrib)
  have "?bs \<noteq> []" by (auto simp: i a(1) intf_descs_def alt_descs_def mem_of_interface_desc_def)
  then have nz: "unat (of_nat (length ?bs) :: u64) \<noteq> 0"
    "unat (ucast (of_nat (length ?bs) :: u64) :: u32) \<noteq> 0"
    using unat_u64_of_nat [OF sm] ub by simp_all
  have pi: "usbi_parse_interface av be ?h zero_interface (Some (?mem, 9 + length ?x))
      (ucast (of_nat (length ?bs) :: u64)) = Some None"
    using rds alt nz by (auto simp add: usbi_parse_interface_def usbi_get_intf_altno_def)
  obtain x bs where xb: "x = ?x" "bs = ?bs" by simp
  have cr: "cfg_rest av be ?h cfg ?mem 9 (?l - 9) = Some None"
    if "cf_num_interfaces cfg = length (sc_intfs c)" for cfg
    using sk pi nz av dr i that unfolding cfg_rest_def xb [symmetric]
    by (cases "x = []") (auto simp add: copy_extra_ok rd_def)
  have z: "cf_desc zero_config = zero_config_desc" by (simp add: zero_config_def)
  show ?thesis
    using ge hdr cd w(2,3) av z by (simp add: usbi_parse_configuration_def cr)
qed

section \<open>A transfer that fails\<close>

lemma parse_config_desc_zero:
  "9 \<le> unat len \<Longrightarrow> \<exists>k. parse_config_desc be ''bbwbbbbb'' zero_config_desc (replicate 9 0 @ r) len =
     Some (0, zero_config_desc, k)"
  using parse_config_desc_ok [of len be zero_config_desc zero_config_desc r]
  by (simp add: enc_config_desc_def zero_config_desc_def wire16_def numeral_eq_Suc)

lemma usbi_parse_configuration_zero:
  assumes n: "9 \<le> n" "n < 65536" and av: "\<And>n. av n"
  shows "\<exists>cfg. usbi_parse_configuration av be h0 zero_config (Some (replicate (n + 65536) 0)) (of_nat n) =
     Some (Some (-1, cfg)) \<and> cf_interfaces cfg = Dangling \<and> cf_extra cfg = Null"
proof -
  let ?l = "of_nat n :: u64"
  obtain j where "n + 65536 = 9 + j" using n(1) by (metis le_add1 le_Suc_ex order_trans)
  then obtain m where m: "replicate (n + 65536) 0 = replicate 9 0 @ (m :: u8 list)"
    by (metis replicate_add)
  have "replicate 9 (0::u8) = 0 # 0 # replicate 7 0" by (simp add: numeral_eq_Suc)
  then obtain r where r: "replicate (n + 65536) (0::u8) = 0 # 0 # r"
    unfolding m by simp
  have u: "unat (ucast ?l :: u32) = n" "unat ?l = n"
    using n(2) by (simp_all add: unat_u32_of_u64 unat_u64_of_nat)
  have ge: "2 \<le> (ucast ?l :: u32)" "9 \<le> unat (ucast ?l :: u32)" "2 \<le> ?l" "?l \<noteq> 0"
    using n(1) u by (auto simp: word_le_nat_alt)
  have hdr: "parse_header be h (replicate (n + 65536) 0) (ucast ?l) =
      Some \<lparr>h_bLength = 0, h_bDescriptorType = 0\<rparr>" for h
    using ge(1) by (simp add: r parse_header_ge2)
  obtain k where cd: "parse_config_desc be ''bbwbbbbb'' zero_config_desc (replicate (n + 65536) 0)
      (ucast ?l) = Some (0, zero_config_desc, k)"
    using parse_config_desc_zero [OF ge(2), of be m] by (auto simp: m)
  have sk: "skip_class_cfg be h (drop 0 (replicate (n + 65536) 0)) ?l 0 = Some None" for h
    using ge(3) hdr by (simp add: skip_class_cfg.simps [of be h])
  have z: "cf_desc zero_config = zero_config_desc" "cd_bNumInterfaces zero_config_desc = 0"
    "cf_extra zero_config = Null"
    by (simp_all add: zero_config_def zero_config_desc_def)
  show ?thesis
    using ge hdr cd sk av z by (simp add: usbi_parse_configuration_def cfg_rest_def desc_sizes)
qed

text \<open>
  C30. A configuration transfer that fails is taken for a success. The test ret < cfgr->len
  compares an int with a size_t, so a negative ret is larger than every length; the code
  then parses the zeroed buffer, the parser frees cfg->interfaces and keeps the pointer,
  and usbi_fetch_and_parse_descriptors returns 0. The next call of it, or freeing the
  device, frees that pointer again.
\<close>

theorem failed_config_transfer_double_free:
  assumes "usbi_destroy_configuration d = Some d0" and "\<forall>n. av n" and "wf_config c"
    and "dd_bNumConfigurations dd = 1"
    and "usbi_get_descriptor xfer w USB_DESC_TYPE_DEVICE 0 (lo_devbuf lo) 18 =
      Some (18, enc_device_desc dd @ r, w1)"
    and "usbi_get_descriptor xfer w1 USB_DESC_TYPE_CONFIG 0 (lo_buf lo) 8 =
      Some (8, take 8 (enc_config c), w2)"
    and "usbi_get_descriptor xfer w2 USB_DESC_TYPE_CONFIG 0
        (replicate (length (enc_config c) + 65536) 0) (of_nat (length (enc_config c))) =
      Some (-1, replicate (length (enc_config c) + 65536) 0, w3)"
  shows "\<exists>d'. usbi_fetch_and_parse_descriptors av be lo xfer d w = Some (Some (0, d', w3))
     \<and> usbi_destroy_configuration d' = None"
proof -
  let ?n = "length (enc_config c)"
  note l = wf_config_length [OF assms(3)]
  have le: "length (enc_device_desc dd) = 18" by (simp add: enc_device_desc_def wire16_def)
  have p: "parse_device_desc be (ds_device d0) (enc_device_desc dd @ r) 18 =
      Some (0, dd, Some 18)"
    by (rule parse_device_desc_ok)
  obtain t where "enc_config c = enc_config_desc (sc_desc c) @ t"
    by (simp add: enc_config_def config_descs_def)
  then obtain d1 k where q: "parse_config_desc be ''bbw'' (lo_cfg_desc lo) (take 8 (enc_config c)) 8 =
      Some (0, d1, k)" and tl: "cd_wTotalLength d1 = cd_wTotalLength (sc_desc c)"
    using parse_config_bbw_ok by metis
  obtain cfg where z: "usbi_parse_configuration av be (lo_header lo) zero_config
      (Some (replicate (?n + 65536) 0)) (of_nat ?n) = Some (Some (-1, cfg))"
    and cfg: "cf_interfaces cfg = Dangling" "cf_extra cfg = Null"
    using usbi_parse_configuration_zero [of ?n av be "lo_header lo"] l assms(2) by auto
  have e: "(of_nat ?n :: u64) = ucast (cd_wTotalLength (sc_desc c))"
    "(of_nat ?n :: u32) = ucast (cd_wTotalLength (sc_desc c))"
    unfolding l(3) [symmetric] by simp_all
  have "unat (ucast (cd_wTotalLength (sc_desc c)) :: u64) = ?n"
    unfolding e(1) [symmetric] using l(1) by (rule unat_u64_of_nat)
  then have big: "\<not> (-1 :: u64) < ucast (cd_wTotalLength (sc_desc c))"
    by (simp add: not_less word_n1_ge)
  have f: "fetch_configs av be lo xfer w1 1 0 [zero_config] [zero_raw] =
      Some (Some (True, [cfg], [\<lparr>rw_data = Ptr (replicate (?n + 65536) 0), rw_len = ?n\<rparr>], w3))"
    using assms(2,6) assms(7) [unfolded e] q tl z [unfolded e] l(3) big
    by (simp add: Let_def rd_def e)
  have u1: "unat (1 :: u8) = 1" by simp
  have fe: "usbi_fetch_and_parse_descriptors av be lo xfer d w = Some (Some (0,
      d0\<lparr>ds_device := dd, ds_device_raw := (ds_device_raw d0)\<lparr>rw_data := Ptr (enc_device_desc dd)\<rparr>,
         ds_num_configs := 1, ds_configs := Ptr [cfg],
         ds_configs_raw := Ptr [\<lparr>rw_data = Ptr (replicate (?n + 65536) 0), rw_len = ?n\<rparr>]\<rparr>, w3))"
    using assms(1,2,4,5) p f le
    by (simp add: usbi_fetch_and_parse_descriptors_def USBI_DEVICE_DESC_SIZE_def USBI_MAXCONFIG_def
        rdn_def Let_def)
  show ?thesis
    unfolding fe using cfg
    by (simp add: usbi_destroy_configuration_def pidx_def rd_def free_config_def)
qed

section \<open>A concrete configuration\<close>

text \<open>One interface with two alternate settings, a HID descriptor and two endpoints.\<close>

definition ex_intf :: "u8 \<Rightarrow> u8 \<Rightarrow> usb_interface_desc" where
  "ex_intf alt eps = \<lparr>id_bLength = 9, id_bDescriptorType = 4, id_bInterfaceNumber = 0,
     id_bAlternateSetting = alt, id_bNumEndpoints = eps, id_bInterfaceClass = 3,
     id_bInterfaceSubClass = 1, id_bInterfaceProtocol = 1, id_iInterface = 0\<rparr>"

definition ex_ep :: "u8 \<Rightarrow> spec_ep" where
  "ex_ep addr = \<lparr>sp_desc = \<lparr>ed_bLength = 7, ed_bDescriptorType = 5, ed_bEndpointAddress = addr,
     ed_bmAttributes = 3, ed_wMaxPacketSize = 64, ed_bInterval = 10, ed_bRefresh = 0,
     ed_bSynchAddress = 0\<rparr>, sp_extra = []\<rparr>"

definition ex_config :: spec_config where
  "ex_config = \<lparr>sc_desc = \<lparr>cd_bLength = 9, cd_bDescriptorType = 2, cd_wTotalLength = 50,
     cd_bNumInterfaces = 1, cd_bConfigurationValue = 1, cd_iConfiguration = 0,
     cd_bmAttributes = 128, cd_bMaxPower = 50\<rparr>, sc_extra = [],
     sc_intfs = [[\<lparr>sa_desc = ex_intf 0 1, sa_extra = [[9, 33, 17, 1, 0, 1, 34, 65, 0]],
                    sa_eps = [ex_ep 129]\<rparr>,
                  \<lparr>sa_desc = ex_intf 1 1, sa_extra = [], sa_eps = [ex_ep 130]\<rparr>]]\<rparr>"

definition ex_device :: spec_device where
  "ex_device = \<lparr>sv_desc = \<lparr>dd_bLength = 18, dd_bDescriptorType = 1, dd_bcdUSB = 512,
     dd_bDeviceClass = 0, dd_bDeviceSubClass = 0, dd_bDeviceProtocol = 0, dd_bMaxPacketSize0 = 64,
     dd_idVendor = 1133, dd_idProduct = 49948, dd_bcdDevice = 256, dd_iManufacturer = 1,
     dd_iProduct = 2, dd_iSerialNumber = 0, dd_bNumConfigurations = 1\<rparr>,
     sv_configs = [ex_config]\<rparr>"

definition ex_header :: usb_descriptor_header where
  "ex_header = \<lparr>h_bLength = 171, h_bDescriptorType = 205\<rparr>"

definition ex_locals :: locals where
  "ex_locals = \<lparr>lo_header = ex_header, lo_devbuf = replicate 19 0, lo_buf = replicate 8 0,
     lo_cfg_desc = zero_config_desc\<rparr>"

definition ex_descriptors :: usbi_descriptors where
  "ex_descriptors = \<lparr>ds_device_raw = zero_raw, ds_num_configs = 0, ds_configs_raw = Null,
     ds_device = sv_desc ex_device, ds_configs = Null\<rparr>"

lemma wf_ex_config: "wf_config ex_config"
  by code_simp

lemma wf_ex_device: "wf_device ex_device"
  by code_simp

text \<open>A device whose first n transfers succeed.\<close>

definition ex_xfer :: "spec_device \<Rightarrow> nat \<Rightarrow> nat ctrl_xfer" where
  "ex_xfer v n k c = (if k < n
     then Some (0, answer (device_desc_bytes v) (ucast (drop_bit 8 (ct_wValue c)))
                     (ucast (ct_wValue c)) c, k + 1)
     else Some (OPENUSB_IO_STALL, c, k + 1))"

definition ex_xfer_always :: "spec_device \<Rightarrow> unit ctrl_xfer" where
  "ex_xfer_always v u c = Some (0, answer (device_desc_bytes v) (ucast (drop_bit 8 (ct_wValue c)))
     (ucast (ct_wValue c)) c, u)"

lemma wValue_le16: "push_bit 8 (ucast ty) + ucast ix = le16 ix ty"
  unfolding le16_def
  by (rule disjunctive_add_eq_or, rule bit_word_eqI)
     (auto simp: bit_and_iff bit_push_bit_iff bit_ucast_iff dest: bit_imp_le_length)

lemma answers_ex_xfer: "answers (ex_xfer_always v) () (device_desc_bytes v)"
  by (simp add: answers_def ex_xfer_always_def get_desc_request_def wValue_le16)

lemma ex_xfer_get:
  assumes "k < n" "m < 65536" "0 < m"
  shows "usbi_get_descriptor (ex_xfer v n) k ty ix buf (of_nat m) =
     Some (int (min m (length (device_desc_bytes v ty ix))),
       take m (device_desc_bytes v ty ix) @ drop (min m (length (device_desc_bytes v ty ix))) buf, k + 1)"
  using usbi_get_descriptor_ok [OF answers_ex_xfer assms(2,3), of v ty ix buf] assms(1)
  by (auto simp: usbi_get_descriptor_def ex_xfer_def ex_xfer_always_def error_codes
      split: if_split_asm)

section \<open>Witnesses\<close>

theorem usbi_parse_configuration_roundtrip_witness:
  "usbi_parse_configuration (\<lambda>_. True) False ex_header zero_config
     (Some (enc_config ex_config @ [0, 0])) (ucast (cd_wTotalLength (sc_desc ex_config))) =
     Some (Some (0, repr_config ex_config))"
  by (rule usbi_parse_configuration_roundtrip)
     (simp_all add: wf_ex_config guard_def desc_types)

theorem usbi_fetch_and_parse_descriptors_ok_witness:
  "usbi_fetch_and_parse_descriptors (\<lambda>_. True) False ex_locals (ex_xfer_always ex_device)
       ex_descriptors () = Some (Some (0, repr_device ex_device 0, ()))"
  using usbi_fetch_and_parse_descriptors_ok [OF answers_ex_xfer wf_ex_device,
      of "\<lambda>_. True" ex_locals ex_descriptors ex_descriptors False]
  by (simp add: ex_locals_def ex_descriptors_def usbi_destroy_configuration_def zero_raw_def)

theorem fetched_typed_witness:
  "typed_descriptors (repr_device ex_device 0) \<and>
   usbi_destroy_configuration (repr_device ex_device 0) \<noteq> None"
proof -
  have "usbi_destroy_configuration ex_descriptors = Some ex_descriptors"
    by (simp add: ex_descriptors_def usbi_destroy_configuration_def)
  then have "usbi_fetch_and_parse_descriptors (\<lambda>_. True) False ex_locals (ex_xfer_always ex_device)
      ex_descriptors () = Some (Some (0, repr_device ex_device 0, ()))"
    using ctrl_pipe.fetch_ok [OF answers_pipe [OF answers_ex_xfer] refl wf_ex_device
        fits_max [OF wf_ex_device], of "\<lambda>_. True" "()" ex_locals ex_descriptors ex_descriptors False]
    by (simp add: ex_locals_def ex_descriptors_def zero_raw_def)
  from fetched_typed [OF this] show ?thesis
    by (simp add: has_freed_def repr_device_def list_ex_iff repr_config_def)
qed

text \<open>An interface with one alternate setting, then a descriptor of length zero.\<close>

theorem usbi_get_intf_altno_diverges_witness:
  "usbi_get_intf_altno ([9, 4, 0, 0, 0, 3, 1, 1, 0] @ [0, 33, 0, 0]) 0 13 = None"
  by (rule usbi_get_intf_altno_diverges [of "[[9, 4, 0, 0, 0, 3, 1, 1, 0]]"])
     (simp_all add: wf_any_def desc_types)

theorem usbi_parse_configuration_reads_past_end_witness:
  "usbi_parse_configuration (\<lambda>_. True) False ex_header zero_config
     (Some (enc_config ex_config @ [])) (ucast (cd_wTotalLength (sc_desc ex_config))) = Some None"
  by (rule usbi_parse_configuration_reads_past_end)
     (simp_all add: wf_ex_config, simp add: ex_config_def)

theorem failed_config_transfer_double_free_witness:
  "\<exists>d'. usbi_fetch_and_parse_descriptors (\<lambda>_. True) False ex_locals (ex_xfer ex_device 2)
       ex_descriptors 0 = Some (Some (0, d', 3)) \<and> usbi_destroy_configuration d' = None"
proof -
  have D: "device_desc_bytes ex_device USB_DESC_TYPE_DEVICE 0 = enc_device_desc (sv_desc ex_device)"
    by (simp add: device_desc_bytes_def)
  have C: "device_desc_bytes ex_device USB_DESC_TYPE_CONFIG 0 = enc_config ex_config"
    by (simp add: device_desc_bytes_def desc_types ex_device_def)
  have l: "length (enc_device_desc (sv_desc ex_device)) = 18"
    by (simp add: enc_device_desc_def wire16_def)
  have n: "length (enc_config ex_config) = 50" by code_simp
  show ?thesis
  proof (rule failed_config_transfer_double_free [where c = ex_config and dd = "sv_desc ex_device"
        and r = "drop 18 (lo_devbuf ex_locals)" and ?w1.0 = 1 and ?w2.0 = 2])
    show "usbi_destroy_configuration ex_descriptors = Some ex_descriptors"
      by (simp add: usbi_destroy_configuration_def ex_descriptors_def)
    show "dd_bNumConfigurations (sv_desc ex_device) = 1" by (simp add: ex_device_def)
    show "usbi_get_descriptor (ex_xfer ex_device 2) 0 USB_DESC_TYPE_DEVICE 0 (lo_devbuf ex_locals) 18 =
        Some (18, enc_device_desc (sv_desc ex_device) @ drop 18 (lo_devbuf ex_locals), 1)"
      using ex_xfer_get [of 0 2 18 ex_device USB_DESC_TYPE_DEVICE 0 "lo_devbuf ex_locals"] l
      by (simp add: D)
    show "usbi_get_descriptor (ex_xfer ex_device 2) 1 USB_DESC_TYPE_CONFIG 0 (lo_buf ex_locals) 8 =
        Some (8, take 8 (enc_config ex_config), 2)"
      using ex_xfer_get [of 1 2 8 ex_device USB_DESC_TYPE_CONFIG 0 "lo_buf ex_locals"] n
      by (simp add: C ex_locals_def)
    show "usbi_get_descriptor (ex_xfer ex_device 2) 2 USB_DESC_TYPE_CONFIG 0
        (replicate (length (enc_config ex_config) + 65536) 0) (of_nat (length (enc_config ex_config))) =
        Some (-1, replicate (length (enc_config ex_config) + 65536) 0, 3)"
      by (simp add: n usbi_get_descriptor_def ex_xfer_def error_codes get_desc_request_def)
  qed (simp_all add: wf_ex_config)
qed

end
