(* ===== verification/DList.thy ===== *)
theory DList
  imports Prelude
begin

text \<open>
  The intrusive doubly linked lists of list.c and list.h on an explicit heap of list nodes,
  and the HOL list they represent. The locale list_ops is the interface the rest of the
  library uses: append an entry, unlink an entry, walk from the head. It is interpreted on
  the heap model and on HOL lists of addresses, which is how the other theories hold
  these lists; so what they prove about lists of addresses is true of the pointers.
\<close>

section \<open>list.c\<close>

type_synonym addr = nat

record list_head =
  lh_prev :: addr
  lh_next :: addr

type_synonym lheap = "addr \<rightharpoonup> list_head"

text \<open>Address 0 is the null pointer; a node outside the domain is not allocated.\<close>

definition list_init :: "addr \<Rightarrow> lheap \<Rightarrow> lheap option" where
  "list_init entry h = do {
     _ \<leftarrow> h entry;
     Some (h(entry \<mapsto> \<lparr>lh_prev = entry, lh_next = entry\<rparr>))
   }"

definition list_add :: "addr \<Rightarrow> addr \<Rightarrow> lheap \<Rightarrow> lheap option" where
  "list_add entry head h = do {
     e \<leftarrow> h entry;
     let h = h(entry \<mapsto> e\<lparr>lh_next := head\<rparr>);
     hd \<leftarrow> h head;
     e \<leftarrow> h entry;
     let h = h(entry \<mapsto> e\<lparr>lh_prev := lh_prev hd\<rparr>);
     hd \<leftarrow> h head;
     last \<leftarrow> h (lh_prev hd);
     let h = h(lh_prev hd \<mapsto> last\<lparr>lh_next := entry\<rparr>);
     hd \<leftarrow> h head;
     Some (h(head \<mapsto> hd\<lparr>lh_prev := entry\<rparr>))
   }"

definition list_del :: "addr \<Rightarrow> lheap \<Rightarrow> lheap option" where
  "list_del entry h = do {
     e \<leftarrow> h entry;
     (if lh_prev e = 0 \<or> lh_next e = 0 then Some h
      else do {
        n \<leftarrow> h (lh_next e);
        let h = h(lh_next e \<mapsto> n\<lparr>lh_prev := lh_prev e\<rparr>);
        e \<leftarrow> h entry;
        p \<leftarrow> h (lh_prev e);
        let h = h(lh_prev e \<mapsto> p\<lparr>lh_next := lh_next e\<rparr>);
        Some (h(entry \<mapsto> \<lparr>lh_prev = 0, lh_next = 0\<rparr>))
      })
   }"

text \<open>
  list_for_each_entry: the entries from head->next on until the head comes round again.
  The first argument bounds the number of steps; a walk that needs more is not finished.
\<close>

fun list_walk :: "nat \<Rightarrow> addr \<Rightarrow> addr \<Rightarrow> lheap \<Rightarrow> addr list option" where
  "list_walk 0 head p h = (if p = head then Some [] else None)"
| "list_walk (Suc n) head p h =
     (if p = head then Some []
      else do { e \<leftarrow> h p; ps \<leftarrow> list_walk n head (lh_next e) h; Some (p # ps) })"

definition list_empty :: "addr \<Rightarrow> lheap \<Rightarrow> bool option" where
  "list_empty head h = do { e \<leftarrow> h head; Some (lh_next e = head) }"

section \<open>The list a head represents\<close>

definition nx :: "lheap \<Rightarrow> addr \<Rightarrow> addr option" where
  "nx h a = map_option lh_next (h a)"

definition pv :: "lheap \<Rightarrow> addr \<Rightarrow> addr option" where
  "pv h a = map_option lh_prev (h a)"

definition lnk :: "lheap \<Rightarrow> addr \<Rightarrow> addr \<Rightarrow> bool" where
  "lnk h a b \<longleftrightarrow> nx h a = Some b \<and> pv h b = Some a"

fun linked :: "lheap \<Rightarrow> addr list \<Rightarrow> bool" where
  "linked h (a # b # ps) \<longleftrightarrow> lnk h a b \<and> linked h (b # ps)"
| "linked h _ \<longleftrightarrow> True"

definition dlist :: "lheap \<Rightarrow> addr \<Rightarrow> addr list \<Rightarrow> bool" where
  "dlist h head ps \<longleftrightarrow> 0 \<notin> set (head # ps) \<and> distinct (head # ps) \<and> linked h (head # ps @ [head])"

lemma linked_append:
  "linked h (ps @ a # qs) \<longleftrightarrow> linked h (ps @ [a]) \<and> linked h (a # qs)"
proof (induction ps)
  case (Cons p ps)
  then show ?case by (cases ps) auto
qed simp

text \<open>A heap that agrees on the pointers the links use has the same links.\<close>

lemma linked_frame:
  assumes "linked h ps" "\<And>a. a \<in> set (butlast ps) \<Longrightarrow> nx h' a = nx h a"
    and "\<And>b. b \<in> set (tl ps) \<Longrightarrow> pv h' b = pv h b"
  shows "linked h' ps"
  using assms
proof (induction ps)
  case (Cons a ps)
  show ?case
  proof (cases ps)
    case Nil
    then show ?thesis by simp
  next
    case (Cons b qs)
    have "linked h' ps"
    proof (rule Cons.IH)
      show "linked h ps" using Cons.prems(1) Cons by simp
      show "nx h' x = nx h x" if "x \<in> set (butlast ps)" for x
        using Cons.prems(2) [of x] that Cons by simp
      show "pv h' x = pv h x" if "x \<in> set (tl ps)" for x
        using Cons.prems(3) [of x] that Cons by simp
    qed
    moreover have "nx h' a = nx h a" "pv h' b = pv h b"
      using Cons.prems(2) [of a] Cons.prems(3) [of b] Cons by simp_all
    ultimately show ?thesis using Cons.prems(1) Cons by (simp add: lnk_def)
  qed
qed simp

lemma lnk_alloc: "lnk h a b \<Longrightarrow> h a \<noteq> None \<and> h b \<noteq> None"
  by (auto simp: lnk_def nx_def pv_def)

text \<open>The node before the place behind ps, and the node after it.\<close>

lemma cons_snoc:
  obtains ls p where "head # ps = ls @ [p]"
  by (metis rev_exhaust list.distinct(1))

lemma snoc_cons:
  obtains n rs where "qs @ [head] = n # rs"
  by (metis append_is_Nil_conv neq_Nil_conv list.distinct(1))

lemma dlist_head_alloc: "dlist h head ps \<Longrightarrow> h head \<noteq> None"
  by (cases ps) (auto simp: dlist_def dest: lnk_alloc)

lemma nx_pv_upd [simp]:
  "nx (h(a \<mapsto> n)) b = (if b = a then Some (lh_next n) else nx h b)"
  "pv (h(a \<mapsto> n)) b = (if b = a then Some (lh_prev n) else pv h b)"
  by (simp_all add: nx_def pv_def)

lemma nx_pv_Some: "h a = Some n \<Longrightarrow> nx h a = Some (lh_next n) \<and> pv h a = Some (lh_prev n)"
  by (simp add: nx_def pv_def)

section \<open>Appending\<close>

lemma list_add_run:
  assumes e: "h entry = Some e" and hn: "h head = Some hn" "lh_prev hn = p" and p: "h p = Some pn"
    and ne: "entry \<noteq> head" "entry \<noteq> p"
  shows "\<exists>h'. list_add entry head h = Some h' \<and>
     (\<forall>a. nx h' a = (if a = p then Some entry else if a = entry then Some head else nx h a)) \<and>
     (\<forall>a. pv h' a = (if a = head then Some entry else if a = entry then Some p else pv h a)) \<and>
     dom h' = dom h"
proof (cases "p = head")
  case True
  have "list_add entry head h = Some (h(entry \<mapsto> \<lparr>lh_prev = head, lh_next = head\<rparr>,
      head \<mapsto> \<lparr>lh_prev = entry, lh_next = entry\<rparr>))"
    using e hn ne True by (cases e; cases hn) (simp add: list_add_def Let_def)
  then show ?thesis using e hn ne True by auto
next
  case False
  have "list_add entry head h = Some (h(entry \<mapsto> \<lparr>lh_prev = p, lh_next = head\<rparr>,
      p \<mapsto> pn\<lparr>lh_next := entry\<rparr>, head \<mapsto> hn\<lparr>lh_prev := entry\<rparr>))"
    using e hn p ne False by (cases e; cases hn; cases pn) (simp add: list_add_def Let_def)
  then show ?thesis using e hn p ne False by (auto simp: nx_pv_Some)
qed

lemma list_add_ok:
  assumes d: "dlist h head ps" and e: "h entry = Some e" "entry \<noteq> 0" "entry \<notin> set (head # ps)"
  shows "\<exists>h'. list_add entry head h = Some h' \<and> dlist h' head (ps @ [entry]) \<and> dom h' = dom h \<and>
     (\<forall>a. a \<notin> set (entry # head # ps) \<longrightarrow> nx h' a = nx h a \<and> pv h' a = pv h a)"
proof -
  obtain ls p where hp: "head # ps = ls @ [p]" by (rule cons_snoc)
  have L: "linked h (ls @ p # [head])" using d hp unfolding dlist_def
    by (metis append.assoc append_Cons append_Nil)
  then have l: "linked h (ls @ [p])" "lnk h p head"
    using linked_append [of h ls p "[head]"] by auto
  have dis: "distinct (ls @ [p])" using d unfolding dlist_def hp [symmetric] by simp
  have pin: "p \<in> set (head # ps)" unfolding hp by simp
  obtain hn pn where hn: "h head = Some hn" "lh_prev hn = p" and pn: "h p = Some pn"
    using l(2) by (auto simp: lnk_def nx_def pv_def)
  have ne: "entry \<noteq> head" "entry \<noteq> p" using e(3) pin by auto
  obtain h' where h': "list_add entry head h = Some h'" "dom h' = dom h"
    and nx': "\<And>a. nx h' a = (if a = p then Some entry else if a = entry then Some head else nx h a)"
    and pv': "\<And>a. pv h' a = (if a = head then Some entry else if a = entry then Some p else pv h a)"
    using list_add_run [OF e(1) hn pn ne] by blast
  have "linked h' (ls @ [p])"
  proof (rule linked_frame [OF l(1)])
    fix a assume "a \<in> set (butlast (ls @ [p]))"
    then have a: "a \<in> set ls" by simp
    then have "a \<in> set (head # ps)" unfolding hp by simp
    then have "a \<noteq> entry" using e(3) by auto
    moreover have "a \<noteq> p" using a dis by auto
    ultimately show "nx h' a = nx h a" by (simp add: nx')
  next
    fix b assume "b \<in> set (tl (ls @ [p]))"
    then have "b \<in> set (tl (head # ps))" unfolding hp .
    then have "b \<in> set ps" by simp
    then have "b \<noteq> entry" "b \<noteq> head" using d e(3) by (auto simp: dlist_def)
    then show "pv h' b = pv h b" by (simp add: pv')
  qed
  moreover have "lnk h' p entry" "lnk h' entry head"
    using ne by (auto simp: lnk_def nx' pv')
  ultimately have "linked h' (ls @ p # [entry, head])"
    unfolding linked_append [of h' ls p "[entry, head]"] by simp
  then have "linked h' (head # (ps @ [entry]) @ [head])"
    using hp by (metis append.assoc append_Cons append_Nil)
  then have "dlist h' head (ps @ [entry])" using d e by (auto simp: dlist_def)
  moreover have "nx h' a = nx h a \<and> pv h' a = pv h a" if "a \<notin> set (entry # head # ps)" for a
  proof -
    have "a \<noteq> p" using that pin by auto
    then show ?thesis using that by (simp add: nx' pv')
  qed
  ultimately show ?thesis using h' by blast
qed

section \<open>Unlinking\<close>

lemma list_del_run:
  assumes e: "h entry = Some e" "lh_prev e = p" "lh_next e = n" and nz: "p \<noteq> 0" "n \<noteq> 0"
    and pn: "h p = Some pn" and nn: "h n = Some nn" and ne: "entry \<noteq> p" "entry \<noteq> n"
  shows "\<exists>h'. list_del entry h = Some h' \<and>
     (\<forall>a. nx h' a = (if a = p then Some n else if a = entry then Some 0 else nx h a)) \<and>
     (\<forall>a. pv h' a = (if a = n then Some p else if a = entry then Some 0 else pv h a)) \<and>
     dom h' = dom h"
proof (cases "p = n")
  case True
  have "list_del entry h = Some (h(n \<mapsto> \<lparr>lh_prev = n, lh_next = n\<rparr>,
      entry \<mapsto> \<lparr>lh_prev = 0, lh_next = 0\<rparr>))"
    using e nz nn ne True by (cases nn) (simp add: list_del_def Let_def)
  then show ?thesis using e nn ne True by auto
next
  case False
  have "list_del entry h = Some (h(n \<mapsto> nn\<lparr>lh_prev := p\<rparr>, p \<mapsto> pn\<lparr>lh_next := n\<rparr>,
      entry \<mapsto> \<lparr>lh_prev = 0, lh_next = 0\<rparr>))"
    using e nz nn pn ne False by (simp add: list_del_def Let_def)
  then show ?thesis using e nn pn ne False by (auto simp: nx_pv_Some)
qed

lemma list_del_ok:
  assumes d: "dlist h head (ps @ entry # qs)"
  shows "\<exists>h'. list_del entry h = Some h' \<and> dlist h' head (ps @ qs) \<and> dom h' = dom h \<and>
     nx h' entry = Some 0 \<and> pv h' entry = Some 0 \<and>
     (\<forall>a. a \<notin> set (head # ps @ entry # qs) \<longrightarrow> nx h' a = nx h a \<and> pv h' a = pv h a)"
proof -
  obtain ls p where hp: "head # ps = ls @ [p]" by (rule cons_snoc)
  obtain n rs where nr: "qs @ [head] = n # rs" by (rule snoc_cons)
  have "head # (ps @ entry # qs) @ [head] = ls @ p # entry # n # rs"
    using hp nr by (metis append.assoc append_Cons append_Nil)
  then have L: "linked h (ls @ p # entry # n # rs)" using d by (simp add: dlist_def)
  then have l: "lnk h p entry" "lnk h entry n" "linked h (ls @ [p])" "linked h (n # rs)"
    unfolding linked_append [of h ls p "entry # n # rs"] by simp_all
  have pin: "p \<in> set (head # ps)" and nin: "n \<in> set (qs @ [head])"
    unfolding hp nr by simp_all
  have dis: "distinct (ls @ [p])" "distinct (n # rs)" "set ps \<inter> set (n # rs) = {}"
    "set qs \<inter> set (ls @ [p]) = {}"
    unfolding hp [symmetric] nr [symmetric] using d by (auto simp: dlist_def)
  have ne: "entry \<noteq> p" "entry \<noteq> n" "p \<noteq> 0" "n \<noteq> 0" "entry \<noteq> 0" "entry \<notin> set (head # ps @ qs)"
    using d pin nin by (auto simp: dlist_def)
  obtain e pn nn where e: "h entry = Some e" "lh_prev e = p" "lh_next e = n"
    and al: "h p = Some pn" "h n = Some nn"
    using l(1,2) by (auto simp: lnk_def nx_def pv_def)
  obtain h' where h': "list_del entry h = Some h'" "dom h' = dom h"
    and nx': "\<And>a. nx h' a = (if a = p then Some n else if a = entry then Some 0 else nx h a)"
    and pv': "\<And>a. pv h' a = (if a = n then Some p else if a = entry then Some 0 else pv h a)"
    using list_del_run [OF e ne(3,4) al ne(1,2)] by blast
  have "linked h' (ls @ [p])"
  proof (rule linked_frame [OF l(3)])
    fix a assume "a \<in> set (butlast (ls @ [p]))"
    then have a: "a \<in> set ls" by simp
    then have "a \<in> set (head # ps)" unfolding hp by simp
    then have "a \<noteq> entry" using ne(6) by auto
    moreover have "a \<noteq> p" using a dis(1) by auto
    ultimately show "nx h' a = nx h a" by (simp add: nx')
  next
    fix b assume "b \<in> set (tl (ls @ [p]))"
    then have "b \<in> set (tl (head # ps))" unfolding hp .
    then have b: "b \<in> set ps" by simp
    then have "b \<noteq> n" using dis(3) by auto
    moreover have "b \<noteq> entry" using b ne(6) by auto
    ultimately show "pv h' b = pv h b" by (simp add: pv')
  qed
  moreover have "linked h' (n # rs)"
  proof (rule linked_frame [OF l(4)])
    fix a assume "a \<in> set (butlast (n # rs))"
    then have "a \<in> set (butlast (qs @ [head]))" unfolding nr .
    then have a: "a \<in> set qs" by simp
    then have "a \<noteq> p" using dis(4) by auto
    moreover have "a \<noteq> entry" using a ne(6) by auto
    ultimately show "nx h' a = nx h a" by (simp add: nx')
  next
    fix b assume "b \<in> set (tl (n # rs))"
    then have b: "b \<in> set rs" by simp
    then have "b \<in> set (qs @ [head])" unfolding nr by simp
    then have "b \<noteq> entry" using ne(6) by auto
    moreover have "b \<noteq> n" using b dis(2) by auto
    ultimately show "pv h' b = pv h b" by (simp add: pv')
  qed
  moreover have "lnk h' p n" by (simp add: lnk_def nx' pv')
  ultimately have "linked h' (ls @ p # n # rs)"
    unfolding linked_append [of h' ls p "n # rs"] by simp
  moreover have "head # (ps @ qs) @ [head] = ls @ p # n # rs"
    using hp nr by (metis append.assoc append_Cons append_Nil)
  ultimately have "dlist h' head (ps @ qs)" using d by (auto simp: dlist_def)
  moreover have "nx h' entry = Some 0 \<and> pv h' entry = Some 0" using ne by (simp add: nx' pv')
  moreover have "nx h' a = nx h a \<and> pv h' a = pv h a" if "a \<notin> set (head # ps @ entry # qs)" for a
  proof -
    have "a \<noteq> p" "a \<noteq> n" using that pin nin by auto
    then show ?thesis using that by (auto simp: nx' pv')
  qed
  ultimately show ?thesis using h' by blast
qed

section \<open>Walking\<close>

lemma list_init_ok:
  assumes "h head = Some n" "head \<noteq> 0"
  shows "\<exists>h'. list_init head h = Some h' \<and> dlist h' head []"
  using assms by (auto simp: list_init_def dlist_def lnk_def)

lemma list_walk_linked:
  assumes "linked h (p # ps @ [head])" "head \<notin> set (p # ps)" "length ps < n"
  shows "list_walk n head p h = Some (p # ps)"
  using assms
proof (induction ps arbitrary: p n)
  case Nil
  then obtain m e where "n = Suc m" "h p = Some e" "lh_next e = head"
    by (cases n) (auto simp: lnk_def nx_def)
  with Nil show ?case by (cases m) auto
next
  case (Cons q ps)
  then obtain m e where n: "n = Suc m" "h p = Some e" "lh_next e = q"
    by (cases n) (auto simp: lnk_def nx_def)
  have "list_walk m head q h = Some (q # ps)"
    using Cons.prems n by (intro Cons.IH) auto
  with n Cons.prems show ?case by auto
qed

lemma list_walk_ok:
  assumes "dlist h head ps" "length ps \<le> n"
  shows "\<exists>e. h head = Some e \<and> list_walk n head (lh_next e) h = Some ps"
proof (cases ps)
  case Nil
  with assms obtain e where "h head = Some e" "lh_next e = head"
    by (auto simp: dlist_def lnk_def nx_def)
  then show ?thesis using Nil by (cases n) auto
next
  case (Cons p qs)
  with assms obtain e where e: "h head = Some e" "lh_next e = p"
    by (auto simp: dlist_def lnk_def nx_def)
  have "list_walk n head p h = Some (p # qs)"
    using assms Cons by (intro list_walk_linked) (auto simp: dlist_def)
  with e Cons show ?thesis by auto
qed

lemma list_empty_ok: "dlist h head ps \<Longrightarrow> list_empty head h = Some (ps = [])"
  by (cases ps) (auto simp: dlist_def list_empty_def lnk_def nx_def)

lemma list_del_unlinked:
  "h entry = Some \<lparr>lh_prev = 0, lh_next = 0\<rparr> \<Longrightarrow> list_del entry h = Some h"
  by (simp add: list_del_def)

section \<open>The interface\<close>

text \<open>
  The same operations on a list of addresses: this is how the states of the other theories
  hold a list.
\<close>

definition ls_add :: "addr \<Rightarrow> addr list \<Rightarrow> addr list" where
  "ls_add e ps = ps @ [e]"

definition ls_del :: "addr \<Rightarrow> addr list \<Rightarrow> addr list" where
  "ls_del e ps = remove1 e ps"

text \<open>
  What a client relies on: appending a free node puts it at the end, unlinking takes out
  exactly that node and makes it free again.
\<close>

locale list_ops =
  fixes repr :: "'s \<Rightarrow> addr list \<Rightarrow> bool"
    and node :: "'s \<Rightarrow> addr \<Rightarrow> bool"
    and add :: "addr \<Rightarrow> 's \<Rightarrow> 's option"
    and del :: "addr \<Rightarrow> 's \<Rightarrow> 's option"
  assumes repr_distinct: "repr s ps \<Longrightarrow> distinct ps"
    and add_law: "repr s ps \<Longrightarrow> node s e \<Longrightarrow> e \<notin> set ps \<Longrightarrow>
      \<exists>s'. add e s = Some s' \<and> repr s' (ps @ [e]) \<and> (\<forall>x. node s x \<longrightarrow> node s' x)"
    and del_law: "repr s (ps @ e # qs) \<Longrightarrow>
      \<exists>s'. del e s = Some s' \<and> repr s' (ps @ qs) \<and> (\<forall>x. node s x \<longrightarrow> node s' x)"
begin

lemma del_remove1:
  assumes "repr s ps" "e \<in> set ps"
  shows "\<exists>s'. del e s = Some s' \<and> repr s' (remove1 e ps) \<and> (\<forall>x. node s x \<longrightarrow> node s' x)"
proof -
  from assms(2) obtain as bs where p: "ps = as @ e # bs" "e \<notin> set as"
    by (meson split_list_first)
  then have "remove1 e ps = as @ bs" by (simp add: remove1_append)
  with del_law assms(1) p(1) show ?thesis by metis
qed

text \<open>An entry that was added and unlinked again leaves the list as it was.\<close>

lemma add_del:
  assumes "repr s ps" "node s e" "e \<notin> set ps" "add e s = Some s'"
  shows "\<exists>s''. del e s' = Some s'' \<and> repr s'' ps"
proof -
  have "repr s' (ps @ e # [])" using add_law [OF assms(1-3)] assms(4) by auto
  from del_law [OF this] show ?thesis by auto
qed

text \<open>A queue: appending a batch and taking everything off the front gives it in order.\<close>

fun add_all :: "addr list \<Rightarrow> 's \<Rightarrow> 's option" where
  "add_all [] s = Some s"
| "add_all (e # es) s = do { s' \<leftarrow> add e s; add_all es s' }"

lemma add_all_ok:
  assumes "repr s ps" "\<forall>e \<in> set es. node s e" "distinct es" "set es \<inter> set ps = {}"
  shows "\<exists>s'. add_all es s = Some s' \<and> repr s' (ps @ es)"
  using assms
proof (induction es arbitrary: s ps)
  case (Cons e es)
  then obtain s1 where s1: "add e s = Some s1" "repr s1 (ps @ [e])" "\<forall>x. node s x \<longrightarrow> node s1 x"
    using add_law [of s ps e] by auto
  obtain s' where "add_all es s1 = Some s'" "repr s' ((ps @ [e]) @ es)"
    using Cons.IH [OF s1(2)] Cons.prems s1(3) by auto
  then show ?case using s1(1) by auto
qed simp

fun del_all :: "addr list \<Rightarrow> 's \<Rightarrow> 's option" where
  "del_all [] s = Some s"
| "del_all (e # es) s = do { s' \<leftarrow> del e s; del_all es s' }"

lemma del_all_ok:
  assumes "repr s ps"
  shows "\<exists>s'. del_all ps s = Some s' \<and> repr s' []"
  using assms
proof (induction ps arbitrary: s)
  case (Cons e ps)
  then obtain s1 where "del e s = Some s1" "repr s1 ps"
    using del_law [of s "[]" e ps] by auto
  with Cons.IH [of s1] show ?case by auto
qed simp

end

definition heap_node :: "addr \<Rightarrow> lheap \<Rightarrow> addr \<Rightarrow> bool" where
  "heap_node head h e \<longleftrightarrow> h e \<noteq> None \<and> e \<noteq> 0 \<and> e \<noteq> head"

interpretation heap: list_ops "\<lambda>h ps. dlist h head ps" "heap_node head"
  "\<lambda>e h. list_add e head h" list_del for head
proof (unfold_locales, goal_cases)
  case (1 s ps)
  then show ?case by (simp add: dlist_def)
next
  case (2 s ps e)
  then obtain n where "s e = Some n" "e \<noteq> 0" "e \<notin> set (head # ps)" by (auto simp: heap_node_def)
  from list_add_ok [OF 2(1) this] obtain s' where
    s': "list_add e head s = Some s'" "dlist s' head (ps @ [e])" "dom s' = dom s" by blast
  then have "\<forall>x. heap_node head s x \<longrightarrow> heap_node head s' x" by (auto simp: heap_node_def dom_def)
  with s' show ?case by blast
next
  case (3 s ps e qs)
  from list_del_ok [OF 3] obtain s' where
    s': "list_del e s = Some s'" "dlist s' head (ps @ qs)" "dom s' = dom s" by blast
  then have "\<forall>x. heap_node head s x \<longrightarrow> heap_node head s' x" by (auto simp: heap_node_def dom_def)
  with s' show ?case by blast
qed

interpretation hol_list: list_ops "\<lambda>xs ps. xs = ps \<and> distinct ps" "\<lambda>xs e. True"
  "\<lambda>e xs. Some (ls_add e xs)" "\<lambda>e xs. Some (ls_del e xs)"
  by unfold_locales (auto simp: ls_add_def ls_del_def remove1_append)

text \<open>
  C14. The pointer lists behave as the lists of addresses the model uses: on a heap where
  the links from head spell out ps, list_add makes them spell out ls_add e ps, list_del
  makes them spell out ls_del e ps, and neither dereferences a null or foreign pointer.
  The walk of list_for_each_entry visits exactly ps, in order, and ends.
\<close>

theorem list_refines:
  assumes "dlist h head ps"
  shows "(h e \<noteq> None \<and> e \<noteq> 0 \<and> e \<notin> set (head # ps) \<longrightarrow>
           (\<exists>h'. list_add e head h = Some h' \<and> dlist h' head (ls_add e ps)))
     \<and> (e \<in> set ps \<longrightarrow> (\<exists>h'. list_del e h = Some h' \<and> dlist h' head (ls_del e ps)
           \<and> list_del e h' = Some h'))
     \<and> (\<exists>n. h head = Some n \<and> list_walk (length ps) head (lh_next n) h = Some ps)
     \<and> list_empty head h = Some (ps = [])"
proof (intro conjI impI)
  show "\<exists>h'. list_add e head h = Some h' \<and> dlist h' head (ls_add e ps)"
    if "h e \<noteq> None \<and> e \<noteq> 0 \<and> e \<notin> set (head # ps)"
    using heap.add_law [OF assms, of e] that by (auto simp: ls_add_def heap_node_def)
  show "\<exists>h'. list_del e h = Some h' \<and> dlist h' head (ls_del e ps) \<and> list_del e h' = Some h'"
    if e: "e \<in> set ps"
  proof -
    obtain as bs where p: "ps = as @ e # bs" "e \<notin> set as" using e by (meson split_list_first)
    then have r: "ls_del e ps = as @ bs" by (simp add: ls_del_def remove1_append)
    obtain h' where h': "list_del e h = Some h'" "dlist h' head (as @ bs)"
      "nx h' e = Some 0" "pv h' e = Some 0"
      using list_del_ok [of h head as e bs] assms p(1) by blast
    then obtain n where "h' e = Some n" "lh_prev n = 0" "lh_next n = 0"
      by (auto simp: nx_def pv_def)
    then have "list_del e h' = Some h'" by (simp add: list_del_def)
    with h' r show ?thesis by auto
  qed
  show "\<exists>n. h head = Some n \<and> list_walk (length ps) head (lh_next n) h = Some ps"
    using list_walk_ok [OF assms order_refl] .
  show "list_empty head h = Some (ps = [])" using assms by (rule list_empty_ok)
qed

text \<open>A head at 1 with one entry at 2, and a free node at 3.\<close>

definition ex_heap :: lheap where
  "ex_heap = [1 \<mapsto> \<lparr>lh_prev = 2, lh_next = 2\<rparr>, 2 \<mapsto> \<lparr>lh_prev = 1, lh_next = 1\<rparr>,
     3 \<mapsto> \<lparr>lh_prev = 0, lh_next = 0\<rparr>]"

theorem list_refines_witness:
  "\<exists>h'. list_add 3 1 ex_heap = Some h' \<and> dlist h' 1 [2, 3] \<and>
     list_empty 1 ex_heap = Some False"
proof -
  have "dlist ex_heap 1 [2]"
    by (simp add: dlist_def lnk_def nx_def pv_def ex_heap_def)
  from list_refines [OF this, of 3] show ?thesis
    by (auto simp: ex_heap_def ls_add_def)
qed

end
