(* ===== verification/LibState.thy ===== *)
theory LibState
  imports Descriptors DList
begin

text \<open>
  The state of the library: the global lists and counters of usb.c and devices.c, and a
  heap for each kind of structure of usbi.h. A pointer is an address, 0 is NULL, an address
  outside the domain of its heap is freed or was never allocated, and touching it is
  undefined (None). malloc hands out addresses that were never used before.

  A list_head is the list of the addresses of its entries (DList shows that the pointers
  behave like that). A mutex is held by the running thread or not; locking one it holds or
  unlocking one it does not hold is undefined, as POSIX has it for default mutexes. So a
  result Some (r, s') with l_held s' = l_held s says that a function releases what it locks.

  The backend is a parameter: B n is the usbi_backend_ops structure with number n, whose
  entries are functions on the state; an entry the code compares with NULL is an option.
  usbi_debug only prints and is left out.
\<close>

section \<open>Structures of usbi.h and openusb.h.in\<close>

definition USB_ATTACH :: nat where "USB_ATTACH = 0"
definition USB_REMOVE :: nat where "USB_REMOVE = 1"
definition OPENUSB_EVENT_TYPE_COUNT :: nat where "OPENUSB_EVENT_TYPE_COUNT = 7"

definition USB_TYPE_ALL :: int where "USB_TYPE_ALL = 0"
definition USB_TYPE_CONTROL :: int where "USB_TYPE_CONTROL = 1"
definition USB_TYPE_INTERRUPT :: int where "USB_TYPE_INTERRUPT = 2"
definition USB_TYPE_BULK :: int where "USB_TYPE_BULK = 3"
definition USB_TYPE_ISOCHRONOUS :: int where "USB_TYPE_ISOCHRONOUS = 4"
definition USB_TYPE_LAST :: int where "USB_TYPE_LAST = 5"

lemmas usb_types = USB_TYPE_ALL_def USB_TYPE_CONTROL_def USB_TYPE_INTERRUPT_def
  USB_TYPE_BULK_def USB_TYPE_ISOCHRONOUS_def USB_TYPE_LAST_def

definition PATTERN_ASYNC :: int where "PATTERN_ASYNC = 1"
definition PATTERN_SYNC :: int where "PATTERN_SYNC = 2"
definition PATTERN_BOTH :: int where "PATTERN_BOTH = 4"

datatype io_status = IO_INITIAL | IO_INPROGRESS | IO_CANCEL | IO_COMPLETED | IO_COMPLETED_FAIL
  | IO_TIMEOUT

datatype devstate = DEVICE_CLOSED | DEVICE_OPENED | DEVICE_CLOSING

text \<open>The requests of the union openusb_request; interrupt and bulk requests look alike.\<close>

record data_request =
  dr_payload :: "u8 list"
  dr_length :: u32
  dr_timeout :: u32
  dr_flags :: u32
  dr_status :: int
  dr_transferred :: u32

record isoc_packet =
  pk_payload :: "u8 list"
  pk_length :: u32

record isoc_request =
  is_num_packets :: u32
  is_packets :: "isoc_packet list"
  is_results :: "(int \<times> u32) list"
  is_flags :: u32
  is_status :: int

datatype openusb_request = Ctrl ctrl_request | Intr data_request | Bulk data_request
  | Isoc isoc_request

record openusb_request_handle =
  rq_dev :: u64
  rq_interface :: u8
  rq_endpoint :: u8
  rq_type :: int
  rq_req :: openusb_request
  rq_cb :: bool
  rq_arg :: addr

record usbi_io =
  io_dev :: addr
  io_req :: addr
  io_state :: io_status
  io_async :: bool
  io_callback :: bool
  io_arg :: addr
  io_tvo :: "int \<times> int"
  io_timeout :: u32

text \<open>simple_io of io.c: what usbi_io_sync waits on.\<close>

record simple_io =
  si_completed :: bool
  si_status :: int

record usbi_handle =
  hd_handle :: u64
  hd_debug_level :: u32
  hd_debug_flags :: u32
  hd_debug_cb :: addr
  hd_event_cbs :: "(addr \<times> addr) list"
  hd_coldplug_complete :: bool
  hd_complete_list :: "addr list"
  hd_complete_count :: int
  hd_timeout :: "u32 list"

record usbi_bus =
  bs_busid :: u64
  bs_busnum :: u32
  bs_sys_path :: string
  bs_ops :: nat
  bs_devices :: "addr list"
  bs_max_xfer_size :: "u32 list"

record usbi_device =
  dv_devid :: u64
  dv_devnum :: u32
  dv_bus :: addr
  dv_parent :: addr
  dv_pport :: u8
  dv_nports :: u8
  dv_sys_path :: string
  dv_bus_path :: string
  dv_ops :: nat
  dv_cur_config_value :: u8
  dv_cur_config_index :: int
  dv_desc :: usbi_descriptors

text \<open>claimed_ifs: the members clm and altsetting.\<close>

record usbi_dev_handle =
  hv_io_head :: "addr list"
  hv_m_head :: "addr list"
  hv_lib_hdl :: addr
  hv_handle :: u64
  hv_idev :: addr
  hv_flags :: nat
  hv_claimed_ifs :: "(int \<times> int) list"
  hv_state :: devstate

record usbi_backend =
  bk_filepath :: string
  bk_handle :: nat
  bk_ops :: nat

record eventcallback =
  ev_devid :: u64
  ev_type :: nat
  ev_handle :: addr

section \<open>The state\<close>

datatype lock = LkUsbi | LkHandles | LkBuses | LkDevices | LkDevHandles | LkEvents
  | LkHdl addr | LkComplete addr | LkBus addr | LkBusDevs addr | LkHdev addr | LkIo addr
  | LkSio addr

text \<open>
  l_ready holds the list mutexes that are initialised, l_threads the number of running
  callback threads, and l_thread_valid tells whether event_callback_thread names one.
  l_submits lists the requests whose io_submit thread is created and has not run yet.
  l_delivered and l_req_cbs record the calls of user callbacks: events with the handle and
  the arguments, and requests whose cb was called.
\<close>

record lib =
  l_inited :: int
  l_cur_handle :: u64
  l_cur_dev_handle :: u64
  l_cur_bus_id :: u64
  l_cur_device_id :: u64
  l_handles :: "addr list"
  l_buses :: "addr list"
  l_devices :: "addr list"
  l_dev_handles :: "addr list"
  l_backends :: "addr list"
  l_events :: "addr list"
  l_queue_full :: int
  l_exit :: bool
  l_ready :: "lock set"
  l_threads :: nat
  l_thread_valid :: bool
  l_hdl :: "addr \<rightharpoonup> usbi_handle"
  l_bus :: "addr \<rightharpoonup> usbi_bus"
  l_dev :: "addr \<rightharpoonup> usbi_device"
  l_hdev :: "addr \<rightharpoonup> usbi_dev_handle"
  l_io :: "addr \<rightharpoonup> usbi_io"
  l_sio :: "addr \<rightharpoonup> simple_io"
  l_req :: "addr \<rightharpoonup> openusb_request_handle"
  l_backend :: "addr \<rightharpoonup> usbi_backend"
  l_event :: "addr \<rightharpoonup> eventcallback"
  l_next :: addr
  l_held :: "lock set"
  l_time :: "int \<times> int"
  l_submits :: "addr list"
  l_delivered :: "(u64 \<times> u64 \<times> nat \<times> addr \<times> addr) list"
  l_req_cbs :: "addr list"

text \<open>The globals before the first call.\<close>

definition lib_start :: lib where
  "lib_start = \<lparr>l_inited = 0, l_cur_handle = 1, l_cur_dev_handle = 1, l_cur_bus_id = 1,
     l_cur_device_id = 1, l_handles = [], l_buses = [], l_devices = [], l_dev_handles = [],
     l_backends = [], l_events = [], l_queue_full = 0, l_exit = False, l_ready = {},
     l_threads = 0, l_thread_valid = False, l_hdl = Map.empty, l_bus = Map.empty,
     l_dev = Map.empty, l_hdev = Map.empty, l_io = Map.empty, l_sio = Map.empty,
     l_req = Map.empty, l_backend = Map.empty, l_event = Map.empty, l_next = 1, l_held = {},
     l_time = (0, 0), l_submits = [], l_delivered = [], l_req_cbs = []\<rparr>"

type_synonym ('s, 'r) op = "'s \<Rightarrow> ('r \<times> 's) option"

text \<open>usbi_backend_ops with its usbi_device_ops, the entries the frontend calls.\<close>

record 's backend_ops =
  bo_version :: int
  bo_io_pattern :: int
  bo_init :: "addr \<Rightarrow> u32 \<Rightarrow> ('s, int) op"
  bo_fini :: "(addr \<Rightarrow> ('s, unit) op) option"
  bo_find_buses :: "('s, int \<times> addr list) op option"
  bo_refresh_devices :: "addr \<Rightarrow> ('s, int) op"
  bo_free_device :: "(addr \<Rightarrow> ('s, unit) op) option"
  do_open :: "addr \<Rightarrow> ('s, int) op"
  do_close :: "(addr \<Rightarrow> ('s, int) op) option"
  do_set_configuration :: "addr \<Rightarrow> u8 \<Rightarrow> ('s, int) op"
  do_get_configuration :: "addr \<Rightarrow> ('s, int \<times> u8) op"
  do_claim_interface :: "addr \<Rightarrow> u8 \<Rightarrow> nat \<Rightarrow> ('s, int) op"
  do_release_interface :: "addr \<Rightarrow> u8 \<Rightarrow> ('s, int) op"
  do_set_altsetting :: "addr \<Rightarrow> u8 \<Rightarrow> u8 \<Rightarrow> ('s, int) op"
  do_get_altsetting :: "addr \<Rightarrow> u8 \<Rightarrow> ('s, int \<times> u8) op"
  do_reset :: "(addr \<Rightarrow> ('s, int) op) option"
  do_xfer_wait :: "int \<Rightarrow> addr \<Rightarrow> addr \<Rightarrow> ('s, int) op"
  do_xfer_aio :: "int \<Rightarrow> addr \<Rightarrow> addr \<Rightarrow> ('s, int) op"
  do_get_raw_desc :: "(addr \<Rightarrow> u8 \<Rightarrow> u8 \<Rightarrow> u16 \<Rightarrow> ('s, int \<times> u8 list \<times> u16) op) option"
  do_io_cancel :: "(addr \<Rightarrow> ('s, int) op) option"
  do_get_driver_np :: "(addr \<Rightarrow> u8 \<Rightarrow> ('s, int \<times> string) op) option"
  do_attach_kernel_driver_np :: "(addr \<Rightarrow> u8 \<Rightarrow> ('s, int) op) option"
  do_detach_kernel_driver_np :: "(addr \<Rightarrow> u8 \<Rightarrow> ('s, int) op) option"

section \<open>Locks, heaps, lists\<close>

definition lock :: "lock \<Rightarrow> 'a lib_scheme \<Rightarrow> 'a lib_scheme option" where
  "lock k s = (if k \<in> l_held s then None else Some (s\<lparr>l_held := insert k (l_held s)\<rparr>))"

definition unlock :: "lock \<Rightarrow> 'a lib_scheme \<Rightarrow> 'a lib_scheme option" where
  "unlock k s = (if k \<in> l_held s then Some (s\<lparr>l_held := l_held s - {k}\<rparr>) else None)"

definition with_lock :: "lock \<Rightarrow> ('a lib_scheme, 'r) op \<Rightarrow> ('a lib_scheme, 'r) op" where
  "with_lock k f s = do { s \<leftarrow> lock k s; (r, s) \<leftarrow> f s; s \<leftarrow> unlock k s; Some (r, s) }"

text \<open>
  A walk of list_for_each_entry that stops at the first entry with P: the entry's address,
  or 0. Every entry it passes is read.
\<close>

fun list_find :: "('x \<Rightarrow> bool) \<Rightarrow> (addr \<rightharpoonup> 'x) \<Rightarrow> addr list \<Rightarrow> addr option" where
  "list_find P h [] = Some 0"
| "list_find P h (p # ps) = do { x \<leftarrow> h p; (if P x then Some p else list_find P h ps) }"

text \<open>A walk that reads a field of every entry.\<close>

fun list_map :: "('x \<Rightarrow> 'y) \<Rightarrow> (addr \<rightharpoonup> 'x) \<Rightarrow> addr list \<Rightarrow> 'y list option" where
  "list_map f h [] = Some []"
| "list_map f h (p # ps) = do { x \<leftarrow> h p; ys \<leftarrow> list_map f h ps; Some (f x # ys) }"

text \<open>A walk that runs an operation on every entry.\<close>

fun list_iter :: "(addr \<Rightarrow> ('s, unit) op) \<Rightarrow> addr list \<Rightarrow> ('s, unit) op" where
  "list_iter f [] s = Some ((), s)"
| "list_iter f (p # ps) s = do { (u, s) \<leftarrow> f p s; list_iter f ps s }"

section \<open>Finding handles and devices (usb.c)\<close>

definition usbi_find_handle :: "u64 \<Rightarrow> ('a lib_scheme, addr) op" where
  "usbi_find_handle handle s = do {
     s \<leftarrow> lock LkUsbi s;
     (if l_inited s = 0 then do { s \<leftarrow> unlock LkUsbi s; Some (0, s) }
      else do {
        s \<leftarrow> unlock LkUsbi s;
        s \<leftarrow> lock LkHandles s;
        p \<leftarrow> list_find (\<lambda>hdl. hd_handle hdl = handle) (l_hdl s) (l_handles s);
        s \<leftarrow> unlock LkHandles s;
        Some (p, s)
      })
   }"

text \<open>Here every entry is locked while its handle is compared.\<close>

fun find_dev_handle_walk :: "u64 \<Rightarrow> addr list \<Rightarrow> ('a lib_scheme, addr) op" where
  "find_dev_handle_walk dev [] s = Some (0, s)"
| "find_dev_handle_walk dev (p # ps) s = do {
     hdev \<leftarrow> l_hdev s p;
     s \<leftarrow> lock (LkHdev p) s;
     s \<leftarrow> unlock (LkHdev p) s;
     (if hv_handle hdev = dev then Some (p, s) else find_dev_handle_walk dev ps s)
   }"

definition usbi_find_dev_handle :: "u64 \<Rightarrow> ('a lib_scheme, addr) op" where
  "usbi_find_dev_handle dev s = do {
     s \<leftarrow> lock LkUsbi s;
     (if l_inited s = 0 then do { s \<leftarrow> unlock LkUsbi s; Some (0, s) }
      else do {
        s \<leftarrow> unlock LkUsbi s;
        s \<leftarrow> lock LkDevHandles s;
        (p, s) \<leftarrow> find_dev_handle_walk dev (l_dev_handles s) s;
        s \<leftarrow> unlock LkDevHandles s;
        Some (p, s)
      })
   }"

definition usbi_find_device_by_id :: "u64 \<Rightarrow> ('a lib_scheme, addr) op" where
  "usbi_find_device_by_id devid s = do {
     s \<leftarrow> lock LkUsbi s;
     (if l_inited s = 0 then do { s \<leftarrow> unlock LkUsbi s; Some (0, s) }
      else do {
        s \<leftarrow> unlock LkUsbi s;
        s \<leftarrow> lock LkDevices s;
        p \<leftarrow> list_find (\<lambda>idev. dv_devid idev = devid) (l_dev s) (l_devices s);
        s \<leftarrow> unlock LkDevices s;
        Some (p, s)
      })
   }"

section \<open>Lemmas\<close>

lemma unlock_lock [simp]:
  "k \<notin> l_held s \<Longrightarrow> unlock k (s\<lparr>l_held := insert k (l_held s)\<rparr>) = Some s"
  by (simp add: unlock_def)

lemma lock_Some: "k \<notin> l_held s \<Longrightarrow> lock k s = Some (s\<lparr>l_held := insert k (l_held s)\<rparr>)"
  by (simp add: lock_def)

lemma held_same: "l_held s = A \<Longrightarrow> s\<lparr>l_held := A\<rparr> = s"
  by (cases s) simp

lemma with_lock_pure:
  assumes "k \<notin> l_held s" "f (s\<lparr>l_held := insert k (l_held s)\<rparr>) =
     Some (r, s\<lparr>l_held := insert k (l_held s)\<rparr>)"
  shows "with_lock k f s = Some (r, s)"
  using assms by (simp add: with_lock_def lock_Some)

lemma list_find_spec:
  assumes "\<forall>p \<in> set ps. h p \<noteq> None"
  shows "list_find P h ps = Some (case find (\<lambda>p. P (the (h p))) ps of None \<Rightarrow> 0 | Some p \<Rightarrow> p)"
  using assms by (induction ps) auto

lemma list_find_skip:
  "\<forall>p \<in> set ps. \<exists>x. h p = Some x \<and> \<not> P x \<Longrightarrow> list_find P h (ps @ qs) = list_find P h qs"
  by (induction ps) auto

lemma list_map_spec: "\<forall>p \<in> set ps. h p \<noteq> None \<Longrightarrow> list_map f h ps = Some (map (f \<circ> the \<circ> h) ps)"
  by (induction ps) auto

text \<open>
  A table of numbered objects: a list of addresses, the heap they point into, the number
  of each object and the counter the numbers come from. table s k is the object with
  number k.
\<close>

definition table_ok :: "('x \<Rightarrow> u64) \<Rightarrow> u64 \<Rightarrow> (addr \<rightharpoonup> 'x) \<Rightarrow> addr list \<Rightarrow> bool" where
  "table_ok key cur h ps \<longleftrightarrow> distinct ps \<and> 0 \<notin> set ps \<and>
     (\<forall>p \<in> set ps. \<exists>x. h p = Some x \<and> key x < cur) \<and> distinct (map (key \<circ> the \<circ> h) ps)"

definition table_get :: "('x \<Rightarrow> u64) \<Rightarrow> (addr \<rightharpoonup> 'x) \<Rightarrow> addr list \<Rightarrow> u64 \<Rightarrow> addr option" where
  "table_get key h ps k = find (\<lambda>p. key (the (h p)) = k) ps"

lemma table_get_Some:
  "table_ok key cur h ps \<Longrightarrow>
     table_get key h ps k = Some p \<longleftrightarrow> p \<in> set ps \<and> (\<exists>x. h p = Some x \<and> key x = k)"
proof (induction ps)
  case (Cons q ps)
  then have ok: "table_ok key cur h ps" by (auto simp: table_ok_def)
  from Cons.prems obtain y where y: "h q = Some y" by (auto simp: table_ok_def)
  show ?case
  proof (cases "key y = k")
    case True
    then have "p \<in> set ps \<Longrightarrow> h p = Some x \<Longrightarrow> key x \<noteq> k" for x
      using Cons.prems y by (force simp: table_ok_def image_iff)
    then show ?thesis using y True by (auto simp: table_get_def)
  next
    case False
    then show ?thesis using y Cons.IH [OF ok] by (auto simp: table_get_def)
  qed
qed (simp add: table_get_def)

lemma table_get_None:
  assumes "table_ok key cur h ps"
  shows "table_get key h ps k = None \<longleftrightarrow> (\<forall>p \<in> set ps. \<forall>x. h p = Some x \<longrightarrow> key x \<noteq> k)"
proof -
  have "table_get key h ps k = None \<longleftrightarrow> (\<forall>p. table_get key h ps k \<noteq> Some p)" by simp
  then show ?thesis unfolding table_get_Some [OF assms] by blast
qed

text \<open>Adding an object with the next number, and taking one out.\<close>

lemma table_add:
  assumes ok: "table_ok key cur h ps" and p: "p \<notin> set ps" "p \<noteq> 0" and k: "key x = cur"
    and nw: "cur < cur + 1"
  shows "table_ok key (cur + 1) (h(p \<mapsto> x)) (ps @ [p])"
    and "table_get key (h(p \<mapsto> x)) (ps @ [p]) = (table_get key h ps)(cur \<mapsto> p)"
proof -
  note pn = p(1)
  have key: "\<exists>y. h q = Some y \<and> key y < cur" if "q \<in> set ps" for q
    using ok that by (auto simp: table_ok_def)
  have mp: "map (key \<circ> the \<circ> h(p \<mapsto> x)) ps = map (key \<circ> the \<circ> h) ps"
    using pn by auto
  have "cur \<notin> set (map (key \<circ> the \<circ> h) ps)"
    using key by fastforce
  then have d: "distinct (map (key \<circ> the \<circ> h(p \<mapsto> x)) (ps @ [p]))"
    using ok k by (simp add: mp table_ok_def del: map_map)
  have al: "\<exists>y. (h(p \<mapsto> x)) q = Some y \<and> key y < cur + 1" if "q \<in> set (ps @ [p])" for q
  proof (cases "q = p")
    case True
    then show ?thesis using k nw by simp
  next
    case False
    then have "q \<in> set ps" using that by auto
    then obtain y where "h q = Some y" "key y < cur" using key by blast
    then show ?thesis using False nw less_trans by auto
  qed
  have "distinct (ps @ [p])" "0 \<notin> set (ps @ [p])" using ok pn p(2) by (auto simp: table_ok_def)
  then show ok': "table_ok key (cur + 1) (h(p \<mapsto> x)) (ps @ [p])"
    using d al unfolding table_ok_def by blast
  have "table_get key (h(p \<mapsto> x)) (ps @ [p]) j = ((table_get key h ps)(cur \<mapsto> p)) j" for j
  proof (cases "j = cur")
    case True
    then show ?thesis using table_get_Some [OF ok', of j p] k by simp
  next
    case False
    have "find (\<lambda>q. key (the ((h(p \<mapsto> x)) q)) = j) (ps @ [p]) = find (\<lambda>q. key (the (h q)) = j) ps"
      using pn False k by (induction ps) auto
    then show ?thesis using False by (simp add: table_get_def)
  qed
  then show "table_get key (h(p \<mapsto> x)) (ps @ [p]) = (table_get key h ps)(cur \<mapsto> p)" by auto
qed

lemma table_del:
  assumes ok: "table_ok key cur h ps" and p: "p \<in> set ps" "h p = Some x"
  shows "table_ok key cur (h(p := None)) (remove1 p ps)"
    and "table_get key (h(p := None)) (remove1 p ps) = (table_get key h ps)(key x := None)"
proof -
  have dis: "distinct ps" using ok by (simp add: table_ok_def)
  have eq: "map (key \<circ> the \<circ> h(p := None)) (remove1 p ps) = map (key \<circ> the \<circ> h) (remove1 p ps)"
    using dis by auto
  have "distinct (map (key \<circ> the \<circ> h) (remove1 p ps))"
    using ok dis by (auto simp: table_ok_def distinct_map intro: inj_on_subset)
  then have "distinct (map (key \<circ> the \<circ> h(p := None)) (remove1 p ps))"
    by (simp only: eq)
  moreover have "0 \<notin> set (remove1 p ps)" "distinct (remove1 p ps)"
    "\<forall>q \<in> set (remove1 p ps). \<exists>y. (h(p := None)) q = Some y \<and> key y < cur"
    using ok dis by (auto simp: table_ok_def)
  ultimately show ok': "table_ok key cur (h(p := None)) (remove1 p ps)"
    unfolding table_ok_def by blast
  have "(table_get key (h(p := None)) (remove1 p ps) j = Some q) =
     (((table_get key h ps)(key x := None)) j = Some q)" for j q
  proof -
    have "key y \<noteq> key x" if "q \<in> set ps" "q \<noteq> p" "h q = Some y" for y
    proof
      assume e: "key y = key x"
      have "inj_on (key \<circ> the \<circ> h) (set ps)" using ok by (simp add: table_ok_def distinct_map)
      from inj_onD [OF this _ that(1) p(1)] that p(2) e show False by simp
    qed
    then show ?thesis
      using table_get_Some [OF ok', of j q] table_get_Some [OF ok, of j q] dis p by auto
  qed
  then show "table_get key (h(p := None)) (remove1 p ps) = (table_get key h ps)(key x := None)"
    by (intro ext) (metis not_Some_eq)
qed

text \<open>
  The contract the tables share: looking an identifier up does not change the state and
  finds the object with it, adding an object gives it the next identifier, removing an
  object forgets its identifier and no other. tab s is the table, cur s the next
  identifier, addable s p says that the object p may be added.
\<close>

locale id_table =
  fixes ok :: "'s \<Rightarrow> bool"
    and tab :: "'s \<Rightarrow> u64 \<rightharpoonup> addr"
    and cur :: "'s \<Rightarrow> u64"
    and addable :: "'s \<Rightarrow> addr \<Rightarrow> bool"
    and find :: "u64 \<Rightarrow> 's \<Rightarrow> (addr \<times> 's) option"
    and add :: "addr \<Rightarrow> 's \<Rightarrow> (unit \<times> 's) option"
    and del :: "addr \<Rightarrow> 's \<Rightarrow> (unit \<times> 's) option"
  assumes find_law: "ok s \<Longrightarrow> find k s = Some (case tab s k of None \<Rightarrow> 0 | Some p \<Rightarrow> p, s)"
    and tab_law: "ok s \<Longrightarrow> tab s k = Some p \<Longrightarrow> p \<noteq> 0 \<and> k < cur s"
    and add_law: "ok s \<Longrightarrow> addable s p \<Longrightarrow> cur s < cur s + 1 \<Longrightarrow>
      \<exists>s'. add p s = Some ((), s') \<and> ok s' \<and> tab s' = (tab s)(cur s \<mapsto> p) \<and> cur s' = cur s + 1"
    and del_law: "ok s \<Longrightarrow> tab s k = Some p \<Longrightarrow>
      \<exists>s'. del p s = Some ((), s') \<and> ok s' \<and> tab s' = (tab s)(k := None) \<and> cur s' = cur s"
begin

lemma add_find:
  assumes "ok s" "addable s p" "cur s < cur s + 1"
  shows "\<exists>s'. add p s = Some ((), s') \<and> ok s' \<and> find (cur s) s' = Some (p, s') \<and>
     (\<forall>k. k \<noteq> cur s \<longrightarrow> map_option fst (find k s') = map_option fst (find k s))"
proof -
  from add_law [OF assms] obtain s' where
    s': "add p s = Some ((), s')" "ok s'" "tab s' = (tab s)(cur s \<mapsto> p)" by blast
  have "map_option fst (find k s') = map_option fst (find k s)" if "k \<noteq> cur s" for k
    using find_law [OF assms(1)] find_law [OF s'(2)] s'(3) that by simp
  then show ?thesis using s' find_law [OF s'(2)] by auto
qed

lemma del_find:
  assumes "ok s" "tab s k = Some p"
  shows "\<exists>s'. del p s = Some ((), s') \<and> ok s' \<and> find k s' = Some (0, s') \<and>
     (\<forall>j. j \<noteq> k \<longrightarrow> map_option fst (find j s') = map_option fst (find j s))"
proof -
  from del_law [OF assms] obtain s' where
    s': "del p s = Some ((), s')" "ok s'" "tab s' = (tab s)(k := None)" by blast
  have "map_option fst (find j s') = map_option fst (find j s)" if "j \<noteq> k" for j
    using find_law [OF assms(1)] find_law [OF s'(2)] s'(3) that by simp
  then show ?thesis using s' find_law [OF s'(2)] by auto
qed

text \<open>An object that was added and removed again leaves no trace in the lookups.\<close>

lemma add_del_find:
  assumes "ok s" "addable s p" "cur s < cur s + 1"
  shows "\<exists>s' s''. add p s = Some ((), s') \<and> del p s' = Some ((), s'') \<and> ok s'' \<and>
     (\<forall>k. map_option fst (find k s'') = map_option fst (find k s)) \<and> cur s < cur s''"
proof -
  from add_law [OF assms] obtain s' where
    s': "add p s = Some ((), s')" "ok s'" "tab s' = (tab s)(cur s \<mapsto> p)" "cur s' = cur s + 1"
    by blast
  from del_law [OF s'(2), of "cur s" p] s'(3) obtain s'' where
    s'': "del p s' = Some ((), s'')" "ok s''" "tab s'' = (tab s')(cur s := None)" "cur s'' = cur s'"
    by auto
  have "tab s (cur s) = None"
    using tab_law [OF assms(1), of "cur s"] by (cases "tab s (cur s)") auto
  then have "tab s'' = tab s" using s'(3) s''(3) by auto
  then show ?thesis
    using s' s'' assms(3) find_law [OF assms(1)] find_law [OF s''(2)] by auto
qed

text \<open>Identifiers are not reused: what was found before an add is found after it.\<close>

lemma add_keeps:
  assumes "ok s" "addable s p" "cur s < cur s + 1" "tab s k = Some q" "add p s = Some ((), s')"
  shows "find k s' = Some (q, s')"
  using add_law [OF assms(1-3)] assms(4,5) tab_law [OF assms(1,4)] find_law by force

end

end
