(* ===== verification/LibBus.thy ===== *)
theory LibBus
  imports LibState DescFetch
begin

text \<open>
  The event queue of usb.c and the bus and device lists of devices.c: adding and removing
  devices, the reconciliation of the bus list with what a backend finds, the rescan, and
  the thread that calls the event callbacks.
\<close>

section \<open>Memory\<close>

text \<open>
  calloc of one structure: the next address, if av allows it. av is given the address, so
  that every single allocation may fail.
\<close>

definition fresh :: "(addr \<Rightarrow> bool) \<Rightarrow> 'a lib_scheme \<Rightarrow> addr \<times> 'a lib_scheme" where
  "fresh av s = (if av (l_next s) then l_next s else 0, s\<lparr>l_next := l_next s + 1\<rparr>)"

section \<open>Queueing events\<close>

definition usbi_add_event_callback :: "(addr \<Rightarrow> bool) \<Rightarrow> u64 \<Rightarrow> nat \<Rightarrow> addr \<Rightarrow> ('a lib_scheme, unit) op"
  where
  "usbi_add_event_callback av devid ty hdl s = do {
     _ \<leftarrow> l_hdl s hdl;
     let (cb, s) = fresh av s;
     (if cb = 0 then Some ((), s)
      else do {
        let s = s\<lparr>l_event := (l_event s)(cb \<mapsto>
                  \<lparr>ev_devid = devid, ev_type = ty, ev_handle = hdl\<rparr>)\<rparr>;
        s \<leftarrow> lock LkEvents s;
        let s = s\<lparr>l_events := ls_add cb (l_events s), l_queue_full := l_queue_full s + 1\<rparr>;
        s \<leftarrow> unlock LkEvents s;
        Some ((), s)
      })
   }"

text \<open>Every library handle gets the event.\<close>

definition notify_all :: "(addr \<Rightarrow> bool) \<Rightarrow> u64 \<Rightarrow> nat \<Rightarrow> ('a lib_scheme, unit) op" where
  "notify_all av devid ty s = with_lock LkHandles
     (\<lambda>s. list_iter (usbi_add_event_callback av devid ty) (l_handles s) s) s"

section \<open>Buses\<close>

definition usbi_add_bus :: "addr \<Rightarrow> addr \<Rightarrow> ('a lib_scheme, unit) op" where
  "usbi_add_bus ibus backend s = do {
     s \<leftarrow> lock (LkBus ibus) s;
     b \<leftarrow> l_bus s ibus;
     be \<leftarrow> l_backend s backend;
     let s = s\<lparr>l_bus := (l_bus s)(ibus \<mapsto> b\<lparr>bs_busid := l_cur_bus_id s, bs_ops := bk_ops be,
                bs_devices := []\<rparr>),
               l_cur_bus_id := l_cur_bus_id s + 1,
               l_buses := ls_add ibus (l_buses s)\<rparr>;
     s \<leftarrow> unlock (LkBus ibus) s;
     Some ((), s)
   }"

definition usbi_free_bus :: "addr \<Rightarrow> ('a lib_scheme, unit) op" where
  "usbi_free_bus ibus s = do {
     s \<leftarrow> lock (LkBus ibus) s;
     _ \<leftarrow> l_bus s ibus;
     s \<leftarrow> unlock (LkBus ibus) s;
     Some ((), s\<lparr>l_bus := (l_bus s)(ibus := None)\<rparr>)
   }"

definition usbi_remove_bus :: "addr \<Rightarrow> ('a lib_scheme, unit) op" where
  "usbi_remove_bus ibus s = do {
     (_, s) \<leftarrow> with_lock LkBuses (\<lambda>s. Some ((), s\<lparr>l_buses := ls_del ibus (l_buses s)\<rparr>)) s;
     usbi_free_bus ibus s
   }"

fun find_bus_walk :: "(usbi_bus \<Rightarrow> bool) \<Rightarrow> addr list \<Rightarrow> ('a lib_scheme, addr) op" where
  "find_bus_walk P [] s = Some (0, s)"
| "find_bus_walk P (p # ps) s = do {
     s \<leftarrow> lock (LkBus p) s;
     b \<leftarrow> l_bus s p;
     s \<leftarrow> unlock (LkBus p) s;
     (if P b then Some (p, s) else find_bus_walk P ps s)
   }"

definition usbi_find_bus_by_id :: "u64 \<Rightarrow> ('a lib_scheme, addr) op" where
  "usbi_find_bus_by_id busid s =
     with_lock LkBuses (\<lambda>s. find_bus_walk (\<lambda>b. bs_busid b = busid) (l_buses s) s) s"

definition usbi_find_bus_by_num :: "u32 \<Rightarrow> ('a lib_scheme, addr) op" where
  "usbi_find_bus_by_num busnum s =
     with_lock LkBuses (\<lambda>s. find_bus_walk (\<lambda>b. bs_busnum b = busnum) (l_buses s) s) s"

text \<open>
  The inner loop of refresh_bus: look for a bus of the new list that is the old bus ibus,
  unlink and free it. The new list is the local busses.
\<close>

definition same_bus :: "usbi_bus \<Rightarrow> usbi_bus \<Rightarrow> bool" where
  "same_bus b n \<longleftrightarrow> bs_busnum b = bs_busnum n \<or> bs_sys_path b = bs_sys_path n"

fun match_new_bus :: "addr \<Rightarrow> addr list \<Rightarrow> addr list \<Rightarrow> ('a lib_scheme, bool \<times> addr list) op" where
  "match_new_bus ibus [] busses s = Some ((False, busses), s)"
| "match_new_bus ibus (n # ns) busses s = do {
     s \<leftarrow> lock (LkBus ibus) s;
     b \<leftarrow> l_bus s ibus;
     nb \<leftarrow> l_bus s n;
     s \<leftarrow> unlock (LkBus ibus) s;
     (if same_bus b nb then do {
        (_, s) \<leftarrow> usbi_free_bus n s;
        Some ((True, ls_del n busses), s)
      } else match_new_bus ibus ns busses s)
   }"

text \<open>The walk over the known buses (safe against unlinking the current one).\<close>

fun match_old_buses :: "addr list \<Rightarrow> addr list \<Rightarrow> ('a lib_scheme, addr list) op" where
  "match_old_buses [] busses s = Some (busses, s)"
| "match_old_buses (p # ps) busses s = do {
     ((found, busses), s) \<leftarrow> match_new_bus p busses busses s;
     let s = (if found then s else s\<lparr>l_buses := ls_del p (l_buses s)\<rparr>);
     match_old_buses ps busses s
   }"

definition refresh_bus :: "(nat \<Rightarrow> 'a lib_scheme backend_ops) \<Rightarrow> addr \<Rightarrow> ('a lib_scheme, unit) op" where
  "refresh_bus B backend s = do {
     be \<leftarrow> l_backend s backend;
     (case bo_find_buses (B (bk_ops be)) of
        None \<Rightarrow> Some ((), s)
      | Some find_buses \<Rightarrow> do {
          ((ret, busses), s) \<leftarrow> find_buses s;
          (if ret < 0 then Some ((), s)
           else with_lock LkBuses (\<lambda>s. do {
             (busses, s) \<leftarrow> match_old_buses (l_buses s) busses s;
             list_iter (\<lambda>ibus. usbi_add_bus ibus backend) busses s
           }) s)
        })
   }"

definition usbi_refresh_busses :: "(nat \<Rightarrow> 'a lib_scheme backend_ops) \<Rightarrow> ('a lib_scheme, unit) op" where
  "usbi_refresh_busses B s = list_iter (refresh_bus B) (l_backends s) s"

section \<open>Devices\<close>

definition usbi_add_device :: "(addr \<Rightarrow> bool) \<Rightarrow> addr \<Rightarrow> addr \<Rightarrow> ('a lib_scheme, unit) op" where
  "usbi_add_device av ibus idev s = do {
     d \<leftarrow> l_dev s idev;
     b \<leftarrow> l_bus s ibus;
     let devid = l_cur_device_id s;
     let s = s\<lparr>l_dev := (l_dev s)(idev \<mapsto> d\<lparr>dv_devid := devid, dv_bus := ibus, dv_ops := bs_ops b\<rparr>),
               l_cur_device_id := l_cur_device_id s + 1,
               l_bus := (l_bus s)(ibus \<mapsto> b\<lparr>bs_devices := ls_add idev (bs_devices b)\<rparr>)\<rparr>;
     (_, s) \<leftarrow> with_lock LkDevices (\<lambda>s. Some ((), s\<lparr>l_devices := ls_add idev (l_devices s)\<rparr>)) s;
     notify_all av devid USB_ATTACH s
   }"

definition usbi_free_device :: "(nat \<Rightarrow> 'a lib_scheme backend_ops) \<Rightarrow> addr \<Rightarrow> ('a lib_scheme, unit) op" where
  "usbi_free_device B idev s = do {
     d \<leftarrow> l_dev s idev;
     desc \<leftarrow> usbi_destroy_configuration (dv_desc d);
     let s = s\<lparr>l_dev := (l_dev s)(idev \<mapsto> d\<lparr>dv_desc := desc\<rparr>)\<rparr>;
     b \<leftarrow> l_bus s (dv_bus d);
     (_, s) \<leftarrow> (case bo_free_device (B (bs_ops b)) of None \<Rightarrow> Some ((), s) | Some f \<Rightarrow> f idev s);
     _ \<leftarrow> l_dev s idev;
     Some ((), s\<lparr>l_dev := (l_dev s)(idev := None)\<rparr>)
   }"

definition usbi_remove_device :: "(addr \<Rightarrow> bool) \<Rightarrow> (nat \<Rightarrow> 'a lib_scheme backend_ops) \<Rightarrow> addr \<Rightarrow>
    ('a lib_scheme, unit) op" where
  "usbi_remove_device av B idev s = do {
     d \<leftarrow> l_dev s idev;
     let devid = dv_devid d;
     s \<leftarrow> lock LkBuses s;
     s \<leftarrow> lock LkDevices s;
     b \<leftarrow> l_bus s (dv_bus d);
     let s = s\<lparr>l_bus := (l_bus s)(dv_bus d \<mapsto> b\<lparr>bs_devices := ls_del idev (bs_devices b)\<rparr>),
               l_devices := ls_del idev (l_devices s)\<rparr>;
     s \<leftarrow> unlock LkBuses s;
     s \<leftarrow> unlock LkDevices s;
     (_, s) \<leftarrow> usbi_free_device B idev s;
     notify_all av devid USB_REMOVE s
   }"

text \<open>
  The rescan releases usbi_buses.lock around each call of the backend. The walk visits the
  buses that are on the list when it begins: the backends of this repository do not change
  the bus list in refresh_devices.
\<close>

definition rescan_bus :: "(nat \<Rightarrow> 'a lib_scheme backend_ops) \<Rightarrow> addr \<Rightarrow> ('a lib_scheme, unit) op" where
  "rescan_bus B ibus s = do {
     b \<leftarrow> l_bus s ibus;
     s \<leftarrow> unlock LkBuses s;
     (ret, s) \<leftarrow> bo_refresh_devices (B (bs_ops b)) ibus s;
     s \<leftarrow> lock LkBuses s;
     Some ((), s)
   }"

definition usbi_rescan_devices :: "(nat \<Rightarrow> 'a lib_scheme backend_ops) \<Rightarrow> ('a lib_scheme, unit) op" where
  "usbi_rescan_devices B s = do {
     (_, s) \<leftarrow> usbi_refresh_busses B s;
     with_lock LkBuses (\<lambda>s. list_iter (rescan_bus B) (l_buses s) s) s
   }"

section \<open>Lists of identifiers\<close>

text \<open>The output pointers: whether they are null, and whether *busids is null already.\<close>

fun busid_walk :: "addr list \<Rightarrow> ('a lib_scheme, u64 list) op" where
  "busid_walk [] s = Some ([], s)"
| "busid_walk (p # ps) s = do {
     s \<leftarrow> lock (LkBus p) s;
     b \<leftarrow> l_bus s p;
     s \<leftarrow> unlock (LkBus p) s;
     (ids, s) \<leftarrow> busid_walk ps s;
     Some (bs_busid b # ids, s)
   }"

definition openusb_get_busid_list :: "(addr \<Rightarrow> bool) \<Rightarrow> u64 \<Rightarrow> bool \<Rightarrow> bool \<Rightarrow> bool \<Rightarrow>
    ('a lib_scheme, int \<times> u64 list) op" where
  "openusb_get_busid_list av handle busids_null star_null num_null s =
     (if busids_null \<or> \<not> star_null \<or> num_null then Some ((OPENUSB_BADARG, []), s)
      else do {
        (hdl, s) \<leftarrow> usbi_find_handle handle s;
        (if hdl = 0 then Some ((OPENUSB_INVALID_HANDLE, []), s)
         else with_lock LkBuses (\<lambda>s. do {
           (if l_buses s = [] then Some ((OPENUSB_NULL_LIST, []), s)
            else let (p, s) = fresh av s
                 in if p = 0 then Some ((OPENUSB_NO_RESOURCES, []), s)
                    else do {
                      (ids, s) \<leftarrow> busid_walk (l_buses s) s;
                      Some ((OPENUSB_SUCCESS, ids), s)
                    })
         }) s)
      })"

definition openusb_get_devids_by_bus :: "(addr \<Rightarrow> bool) \<Rightarrow> u64 \<Rightarrow> u64 \<Rightarrow> bool \<Rightarrow>
    ('a lib_scheme, int \<times> u64 list) op" where
  "openusb_get_devids_by_bus av handle busid ptrs_null s =
     (if ptrs_null then Some ((OPENUSB_BADARG, []), s)
      else do {
        (hdl, s) \<leftarrow> usbi_find_handle handle s;
        (if hdl = 0 then Some ((OPENUSB_INVALID_HANDLE, []), s)
         else if busid = 0 then with_lock LkDevices (\<lambda>s. do {
           ds \<leftarrow> list_map dv_devid (l_dev s) (l_devices s);
           (if ds = [] then Some ((OPENUSB_NULL_LIST, []), s)
            else let (p, s) = fresh av s
                 in Some (if p = 0 then (OPENUSB_NO_RESOURCES, []) else (OPENUSB_SUCCESS, ds), s))
         }) s
         else do {
           (ibus, s) \<leftarrow> usbi_find_bus_by_id busid s;
           (if ibus = 0 then Some ((OPENUSB_UNKNOWN_DEVICE, []), s)
            else with_lock (LkBusDevs ibus) (\<lambda>s. do {
              b \<leftarrow> l_bus s ibus;
              ds \<leftarrow> list_map dv_devid (l_dev s) (bs_devices b);
              (if ds = [] then Some ((OPENUSB_NULL_LIST, []), s)
               else let (p, s) = fresh av s
                    in Some (if p = 0 then (OPENUSB_NO_RESOURCES, []) else (OPENUSB_SUCCESS, ds), s))
            }) s)
         })
      })"

definition openusb_get_max_xfer_size :: "u64 \<Rightarrow> u64 \<Rightarrow> int \<Rightarrow> bool \<Rightarrow>
    ('a lib_scheme, int \<times> u32) op" where
  "openusb_get_max_xfer_size handle bus ty bytes_null s = do {
     (hdl, s) \<leftarrow> usbi_find_handle handle s;
     (if hdl = 0 then Some ((OPENUSB_INVALID_HANDLE, 0), s)
      else do {
        (ibus, s) \<leftarrow> usbi_find_bus_by_id bus s;
        (if ibus = 0 then Some ((OPENUSB_UNKNOWN_DEVICE, 0), s)
         else if ty \<le> USB_TYPE_ALL \<or> ty \<ge> USB_TYPE_LAST then Some ((OPENUSB_BADARG, 0), s)
         else if bytes_null then Some ((OPENUSB_BADARG, 0), s)
         else with_lock (LkBus ibus) (\<lambda>s. do {
           b \<leftarrow> l_bus s ibus;
           n \<leftarrow> rd (bs_max_xfer_size b) (nat ty);
           Some ((OPENUSB_SUCCESS, n), s)
         }) s)
      })
   }"

section \<open>The reconciliation of the buses\<close>

definition unlocked :: "'a lib_scheme \<Rightarrow> bool" where
  "unlocked s \<longleftrightarrow> l_held s = {}"

definition bus_at :: "'a lib_scheme \<Rightarrow> addr \<Rightarrow> usbi_bus" where
  "bus_at s p = the (l_bus s p)"

lemma lib_bus_same [simp]: "s\<lparr>l_bus := l_bus s\<rparr> = s"
  by simp

lemma match_new_bus_run:
  assumes "l_bus s p = Some b" "\<forall>n \<in> set ns. l_bus s n \<noteq> None"
    and "\<forall>n. LkBus n \<notin> l_held s"
  shows "match_new_bus p ns busses s = Some (case find (\<lambda>n. same_bus b (bus_at s n)) ns of
      None \<Rightarrow> ((False, busses), s)
    | Some n \<Rightarrow> ((True, remove1 n busses), s\<lparr>l_bus := (l_bus s)(n := None)\<rparr>))"
  using assms(2)
proof (induction ns)
  case (Cons n ns)
  then obtain nb where "l_bus s n = Some nb" by auto
  with Cons assms(1,3) show ?case
    by (simp add: lock_Some usbi_free_bus_def bus_at_def ls_del_def)
qed simp

text \<open>
  Every known bus has at most one counterpart among the new ones, and the other way round.
\<close>

definition one_to_one :: "('b \<Rightarrow> 'b \<Rightarrow> bool) \<Rightarrow> 'b list \<Rightarrow> 'b list \<Rightarrow> bool" where
  "one_to_one R ps ns \<longleftrightarrow>
     (\<forall>p \<in> set ps. \<forall>n \<in> set ns. \<forall>m \<in> set ns. R p n \<longrightarrow> R p m \<longrightarrow> n = m) \<and>
     (\<forall>p \<in> set ps. \<forall>q \<in> set ps. \<forall>n \<in> set ns. R p n \<longrightarrow> R q n \<longrightarrow> p = q)"

definition kept :: "('b \<Rightarrow> 'b \<Rightarrow> bool) \<Rightarrow> 'b list \<Rightarrow> 'b list \<Rightarrow> 'b list" where
  "kept R ps ns = [p \<leftarrow> ps. \<exists>n \<in> set ns. R p n]"

definition unmatched :: "('b \<Rightarrow> 'b \<Rightarrow> bool) \<Rightarrow> 'b list \<Rightarrow> 'b list \<Rightarrow> 'b list" where
  "unmatched R ps ns = [n \<leftarrow> ns. \<forall>p \<in> set ps. \<not> R p n]"

lemma kept_remove1:
  assumes "one_to_one R (p # ps) ns" "distinct (p # ps)" "n \<in> set ns" "R p n"
  shows "kept R ps (remove1 n ns) = kept R ps ns"
proof -
  have "R p n \<longrightarrow> R q n \<longrightarrow> p = q" if "q \<in> set ps" for q
    using assms(1,3) that unfolding one_to_one_def by auto
  then have no: "\<not> R q n" if "q \<in> set ps" for q
    using assms(2,4) that by auto
  have "(\<exists>m \<in> set (remove1 n ns). R q m) \<longleftrightarrow> (\<exists>m \<in> set ns. R q m)" if "q \<in> set ps" for q
    using no [OF that] notin_set_remove1 [of _ ns n] in_set_remove1 [of _ n ns] by metis
  then show ?thesis unfolding kept_def by (intro filter_cong) auto
qed

lemma unmatched_remove1:
  assumes "one_to_one R (p # ps) ns" "distinct ns" "n \<in> set ns" "R p n"
  shows "unmatched R ps (remove1 n ns) = unmatched R (p # ps) ns"
proof -
  have R: "R p m \<longleftrightarrow> m = n" if "m \<in> set ns" for m
    using assms that unfolding one_to_one_def by auto
  have "remove1 n ns = filter (\<lambda>m. m \<noteq> n) ns"
    using assms(2) by (simp add: distinct_remove1_removeAll removeAll_filter_not_eq eq_commute)
  moreover have "filter (\<lambda>m. m \<noteq> n \<and> (\<forall>q \<in> set ps. \<not> R q m)) ns =
      filter (\<lambda>m. \<forall>q \<in> set (p # ps). \<not> R q m) ns"
    by (rule filter_cong) (simp_all add: R)
  ultimately show ?thesis by (simp add: unmatched_def filter_filter)
qed

lemma remove1_middle: "p \<notin> set done' \<Longrightarrow> remove1 p (done' @ p # ps) = done' @ ps"
  by (simp add: remove1_append)

lemma match_old_buses_run:
  assumes "distinct (gone @ ps @ ns)" "\<forall>p \<in> set ps \<union> set ns. l_bus s p \<noteq> None"
    and "\<forall>n. LkBus n \<notin> l_held s"
    and "one_to_one (\<lambda>p n. same_bus (bus_at s p) (bus_at s n)) ps ns"
    and "l_buses s = gone @ ps"
  shows "match_old_buses ps ns s = Some
     (unmatched (\<lambda>p n. same_bus (bus_at s p) (bus_at s n)) ps ns,
      s\<lparr>l_buses := gone @ kept (\<lambda>p n. same_bus (bus_at s p) (bus_at s n)) ps ns,
        l_bus := (l_bus s) |` (- (set ns - set (unmatched (\<lambda>p n. same_bus (bus_at s p) (bus_at s n)) ps ns)))\<rparr>)"
  using assms
proof (induction ps arbitrary: gone ns s)
  case Nil
  then show ?case by (simp add: kept_def unmatched_def)
next
  case (Cons p ps)
  define R where "R = (\<lambda>p n. same_bus (bus_at s p) (bus_at s n))"
  obtain b where b: "l_bus s p = Some b" using Cons.prems(2) by auto
  then have bp: "bus_at s p = b" by (simp add: bus_at_def)
  have o1: "one_to_one R (p # ps) ns" using Cons.prems(4) by (simp add: R_def)
  then have o2: "one_to_one R ps ns" by (auto simp: one_to_one_def)
  have run: "match_new_bus p ns ns s = Some (case find (R p) ns of
      None \<Rightarrow> ((False, ns), s)
    | Some n \<Rightarrow> ((True, remove1 n ns), s\<lparr>l_bus := (l_bus s)(n := None)\<rparr>))"
    using match_new_bus_run [OF b] Cons.prems(2,3) by (simp add: R_def bp)
  show ?case
  proof (cases "find (R p) ns")
    case None
    then have no: "\<forall>n \<in> set ns. \<not> R p n" by (simp add: find_None_iff)
    let ?s = "s\<lparr>l_buses := gone @ ps\<rparr>"
    have u: "unmatched R (p # ps) ns = unmatched R ps ns" and k: "kept R (p # ps) ns = kept R ps ns"
      using no by (auto simp: unmatched_def kept_def intro!: filter_cong)
    have "match_old_buses ps ns ?s = Some (unmatched R ps ns, ?s\<lparr>l_buses := gone @ kept R ps ns,
        l_bus := (l_bus s) |` (- (set ns - set (unmatched R ps ns)))\<rparr>)"
      using Cons.IH [of gone ns ?s] Cons.prems o2 by (simp add: R_def bus_at_def)
    moreover have "remove1 p (gone @ p # ps) = gone @ ps"
      using Cons.prems(1) by (intro remove1_middle) auto
    ultimately show ?thesis
      using run None Cons.prems(5) u k by (simp add: R_def [symmetric] ls_del_def)
  next
    case (Some n)
    then have n: "n \<in> set ns" "R p n" by (auto simp: find_Some_iff)
    let ?s = "s\<lparr>l_bus := (l_bus s)(n := None)\<rparr>"
    have same: "bus_at ?s q = bus_at s q" if "q \<noteq> n" for q using that by (simp add: bus_at_def)
    have dis: "distinct ns" "set ps \<inter> set ns = {}" "n \<notin> set ps" "p \<notin> set ns"
      using Cons.prems(1) n by auto
    have q: "q \<noteq> n" if "q \<in> set ps \<union> set (remove1 n ns)" for q
      using that dis n by auto
    have eqR: "(\<lambda>p n. same_bus (bus_at ?s p) (bus_at ?s n)) q m = R q m"
      if "q \<in> set ps" "m \<in> set (remove1 n ns)" for q m
      using q that same by (simp add: R_def)
    have kk: "kept (\<lambda>p n. same_bus (bus_at ?s p) (bus_at ?s n)) ps (remove1 n ns) = kept R ps (remove1 n ns)"
      using eqR unfolding kept_def by (intro filter_cong) auto
    have uu: "unmatched (\<lambda>p n. same_bus (bus_at ?s p) (bus_at ?s n)) ps (remove1 n ns)
        = unmatched R ps (remove1 n ns)"
      using eqR unfolding unmatched_def by (intro filter_cong) auto
    have oo: "one_to_one (\<lambda>p n. same_bus (bus_at ?s p) (bus_at ?s n)) ps (remove1 n ns)"
      using eqR o2 unfolding one_to_one_def by (metis (lifting) notin_set_remove1)
    have u: "unmatched R ps (remove1 n ns) = unmatched R (p # ps) ns"
      by (rule unmatched_remove1 [OF o1 dis(1) n])
    have k: "kept R ps (remove1 n ns) = kept R ps ns"
      using kept_remove1 [OF o1 _ n] Cons.prems(1) by auto
    have k': "kept R (p # ps) ns = p # kept R ps ns" using n by (auto simp: kept_def)
    have p1: "distinct ((gone @ [p]) @ ps @ remove1 n ns)"
      using Cons.prems(1) notin_set_remove1 [of _ ns n] by auto
    have p2: "\<forall>r \<in> set ps \<union> set (remove1 n ns). l_bus ?s r \<noteq> None"
      using Cons.prems(2) q notin_set_remove1 [of _ ns n] by auto
    have p3: "\<forall>m. LkBus m \<notin> l_held ?s" and p5: "l_buses ?s = (gone @ [p]) @ ps"
      using Cons.prems(3,5) by simp_all
    have "match_old_buses ps (remove1 n ns) ?s = Some (unmatched R (p # ps) ns,
        ?s\<lparr>l_buses := (gone @ [p]) @ kept R ps ns,
        l_bus := (l_bus ?s) |` (- (set (remove1 n ns) - set (unmatched R (p # ps) ns)))\<rparr>)"
      by (rule Cons.IH [OF p1 p2 p3 oo p5, unfolded kk uu u k])
    moreover have "(l_bus ?s) |` (- (set (remove1 n ns) - set (unmatched R (p # ps) ns)))
        = (l_bus s) |` (- (set ns - set (unmatched R (p # ps) ns)))"
    proof
      fix x
      have "n \<notin> set (unmatched R (p # ps) ns)" using n by (auto simp: unmatched_def)
      then show "((l_bus ?s) |` (- (set (remove1 n ns) - set (unmatched R (p # ps) ns)))) x
          = ((l_bus s) |` (- (set ns - set (unmatched R (p # ps) ns)))) x"
        using dis(1) n by (auto simp: restrict_map_def)
    qed
    ultimately show ?thesis using run Some k' by (simp add: R_def [symmetric])
  qed
qed

lemma find_match_None:
  "find (\<lambda>n. R p n) ns = None \<Longrightarrow> kept R (p # ps) ns = kept R ps ns"
  by (auto simp: kept_def find_None_iff)

text \<open>The buses that are left over are added with the next identifiers.\<close>

lemma add_buses_run:
  assumes "distinct ns" "\<forall>p \<in> set ns. l_bus s p \<noteq> None" "\<forall>n. LkBus n \<notin> l_held s"
    and "l_backend s backend = Some be"
  shows "\<exists>h. list_iter (\<lambda>ibus. usbi_add_bus ibus backend) ns s = Some ((),
      s\<lparr>l_bus := h, l_cur_bus_id := l_cur_bus_id s + of_nat (length ns), l_buses := l_buses s @ ns\<rparr>) \<and>
    (\<forall>p. p \<notin> set ns \<longrightarrow> h p = l_bus s p) \<and>
    (\<forall>i < length ns. h (ns ! i) = Some ((bus_at s (ns ! i))\<lparr>bs_busid := l_cur_bus_id s + of_nat i,
        bs_ops := bk_ops be, bs_devices := []\<rparr>))"
  using assms
proof (induction ns arbitrary: s)
  case Nil
  show ?case by (rule exI [of _ "l_bus s"]) simp
next
  case (Cons n ns)
  obtain b where b: "l_bus s n = Some b" using Cons.prems(2) by auto
  define s1 where "s1 = s\<lparr>l_bus := (l_bus s)(n \<mapsto> b\<lparr>bs_busid := l_cur_bus_id s,
     bs_ops := bk_ops be, bs_devices := []\<rparr>), l_cur_bus_id := l_cur_bus_id s + 1,
     l_buses := l_buses s @ [n]\<rparr>"
  have r: "usbi_add_bus n backend s = Some ((), s1)"
    using Cons.prems b by (simp add: usbi_add_bus_def lock_Some unlock_def s1_def ls_add_def)
  have n: "n \<notin> set ns" using Cons.prems(1) by simp
  have "\<exists>h. list_iter (\<lambda>ibus. usbi_add_bus ibus backend) ns s1 = Some ((),
      s1\<lparr>l_bus := h, l_cur_bus_id := l_cur_bus_id s1 + of_nat (length ns), l_buses := l_buses s1 @ ns\<rparr>) \<and>
    (\<forall>p. p \<notin> set ns \<longrightarrow> h p = l_bus s1 p) \<and>
    (\<forall>i < length ns. h (ns ! i) = Some ((bus_at s1 (ns ! i))\<lparr>bs_busid := l_cur_bus_id s1 + of_nat i,
        bs_ops := bk_ops be, bs_devices := []\<rparr>))"
    by (rule Cons.IH) (use Cons.prems in \<open>simp_all add: s1_def\<close>)
  then obtain h where h: "list_iter (\<lambda>ibus. usbi_add_bus ibus backend) ns s1 = Some ((),
      s1\<lparr>l_bus := h, l_cur_bus_id := l_cur_bus_id s1 + of_nat (length ns), l_buses := l_buses s1 @ ns\<rparr>)"
    "\<forall>p. p \<notin> set ns \<longrightarrow> h p = l_bus s1 p"
    "\<forall>i < length ns. h (ns ! i) = Some ((bus_at s1 (ns ! i))\<lparr>bs_busid := l_cur_bus_id s1 + of_nat i,
        bs_ops := bk_ops be, bs_devices := []\<rparr>)"
    by blast
  have same: "bus_at s1 (ns ! i) = bus_at s (ns ! i)" if "i < length ns" for i
  proof -
    have "ns ! i \<noteq> n" using n that nth_mem [of i ns] by auto
    then show ?thesis by (simp add: bus_at_def s1_def)
  qed
  have hn: "h n = Some (b\<lparr>bs_busid := l_cur_bus_id s, bs_ops := bk_ops be, bs_devices := []\<rparr>)"
    using h(2) n by (simp add: s1_def)
  have "h ((n # ns) ! i) = Some ((bus_at s ((n # ns) ! i))\<lparr>bs_busid := l_cur_bus_id s + of_nat i,
        bs_ops := bk_ops be, bs_devices := []\<rparr>)" if "i < length (n # ns)" for i
    using that hn h(3) same b by (cases i) (auto simp: bus_at_def s1_def algebra_simps)
  moreover have "h p = l_bus s p" if "p \<notin> set (n # ns)" for p
    using that h(2) by (simp add: s1_def)
  moreover have "list_iter (\<lambda>ibus. usbi_add_bus ibus backend) (n # ns) s = Some ((),
      s\<lparr>l_bus := h, l_cur_bus_id := l_cur_bus_id s + of_nat (length (n # ns)),
        l_buses := l_buses s @ n # ns\<rparr>)"
    using r h(1) by (simp add: s1_def algebra_simps)
  ultimately show ?case by blast
qed

text \<open>
  What refresh_bus does with the list ns that the backend returns. The set of new buses
  and the set of known buses are matched by number or by path.
\<close>

abbreviation same_at :: "'a lib_scheme \<Rightarrow> addr \<Rightarrow> addr \<Rightarrow> bool" where
  "same_at s p n \<equiv> same_bus (bus_at s p) (bus_at s n)"

lemma set_unmatched: "set (unmatched R ps ns) \<subseteq> set ns"
  by (auto simp: unmatched_def)

lemma refresh_bus_run:
  assumes be: "l_backend s backend = Some be"
    and fb: "bo_find_buses (B (bk_ops be)) = Some f" "f s = Some ((ret, ns), s1)" "0 \<le> ret"
    and s1: "l_held s1 = {}" "l_backend s1 backend = Some be"
    and dis: "distinct (l_buses s1 @ ns)"
    and al: "\<forall>p \<in> set (l_buses s1) \<union> set ns. l_bus s1 p \<noteq> None"
    and one: "one_to_one (same_at s1) (l_buses s1) ns"
    and us: "us = unmatched (same_at s1) (l_buses s1) ns"
  shows "\<exists>h. refresh_bus B backend s = Some ((), s1\<lparr>l_bus := h,
       l_cur_bus_id := l_cur_bus_id s1 + of_nat (length us),
       l_buses := kept (same_at s1) (l_buses s1) ns @ us\<rparr>) \<and>
     (\<forall>p. p \<notin> set ns \<longrightarrow> h p = l_bus s1 p) \<and> (\<forall>n \<in> set ns - set us. h n = None) \<and>
     (\<forall>i < length us. h (us ! i) = Some ((bus_at s1 (us ! i))\<lparr>
         bs_busid := l_cur_bus_id s1 + of_nat i, bs_ops := bk_ops be, bs_devices := []\<rparr>))"
proof -
  define s2 where "s2 = s1\<lparr>l_held := {LkBuses}, l_buses := kept (same_at s1) (l_buses s1) ns,
     l_bus := (l_bus s1) |` (- (set ns - set us))\<rparr>"
  have m: "match_old_buses (l_buses s1) ns (s1\<lparr>l_held := {LkBuses}\<rparr>) = Some (us, s2)"
    using match_old_buses_run [of "[]" "l_buses s1" ns "s1\<lparr>l_held := {LkBuses}\<rparr>"] dis al one
    by (simp add: bus_at_def us s2_def)
  have u: "distinct us" "set us \<subseteq> set ns"
    using dis by (auto simp: us unmatched_def)
  have "\<exists>h. list_iter (\<lambda>ibus. usbi_add_bus ibus backend) us s2 = Some ((),
      s2\<lparr>l_bus := h, l_cur_bus_id := l_cur_bus_id s2 + of_nat (length us), l_buses := l_buses s2 @ us\<rparr>) \<and>
    (\<forall>p. p \<notin> set us \<longrightarrow> h p = l_bus s2 p) \<and>
    (\<forall>i < length us. h (us ! i) = Some ((bus_at s2 (us ! i))\<lparr>bs_busid := l_cur_bus_id s2 + of_nat i,
        bs_ops := bk_ops be, bs_devices := []\<rparr>))"
    by (rule add_buses_run) (use u al s1(2) in \<open>auto simp: s2_def restrict_map_def\<close>)
  then obtain h where h: "list_iter (\<lambda>ibus. usbi_add_bus ibus backend) us s2 = Some ((),
      s2\<lparr>l_bus := h, l_cur_bus_id := l_cur_bus_id s2 + of_nat (length us), l_buses := l_buses s2 @ us\<rparr>)"
    "\<forall>p. p \<notin> set us \<longrightarrow> h p = l_bus s2 p"
    "\<forall>i < length us. h (us ! i) = Some ((bus_at s2 (us ! i))\<lparr>bs_busid := l_cur_bus_id s2 + of_nat i,
        bs_ops := bk_ops be, bs_devices := []\<rparr>)"
    by blast
  have "refresh_bus B backend s = Some ((), s1\<lparr>l_bus := h,
       l_cur_bus_id := l_cur_bus_id s1 + of_nat (length us),
       l_buses := kept (same_at s1) (l_buses s1) ns @ us\<rparr>)"
    using be fb s1 m h(1) by (simp add: refresh_bus_def with_lock_def lock_def unlock_def s2_def)
  moreover have "\<forall>p. p \<notin> set ns \<longrightarrow> h p = l_bus s1 p" "\<forall>n \<in> set ns - set us. h n = None"
    using h(2) u(2) by (auto simp: s2_def restrict_map_def)
  moreover have "bus_at s2 (us ! i) = bus_at s1 (us ! i)" if "i < length us" for i
    using that nth_mem [of i us] by (simp add: bus_at_def s2_def restrict_map_def)
  then have "\<forall>i < length us. h (us ! i) = Some ((bus_at s1 (us ! i))\<lparr>
         bs_busid := l_cur_bus_id s1 + of_nat i, bs_ops := bk_ops be, bs_devices := []\<rparr>)"
    using h(3) by (simp add: s2_def)
  ultimately show ?thesis by blast
qed

lemma one_to_one_none: "\<forall>p \<in> set ps. \<forall>n \<in> set ns. \<not> R p n \<Longrightarrow>
    one_to_one R ps ns \<and> kept R ps ns = [] \<and> unmatched R ps ns = ns"
  by (auto simp: one_to_one_def kept_def unmatched_def)

text \<open>
  C23. One refresh of the bus list. Known buses and the buses the backend finds are matched
  by number or by path; if the matching is one to one, the known buses that were found
  again stay, in order and unchanged, the others leave the list, the new buses without a
  counterpart are appended with the next identifiers, and those with one are freed. All
  mutexes are released.
\<close>

theorem refresh_bus_reconciles:
  assumes "l_backend s backend = Some be"
    and "bo_find_buses (B (bk_ops be)) = Some f" "f s = Some ((ret, ns), s1)" "0 \<le> ret"
    and "l_held s1 = {}" "l_backend s1 backend = Some be"
    and "distinct (l_buses s1 @ ns)" "\<forall>p \<in> set (l_buses s1) \<union> set ns. l_bus s1 p \<noteq> None"
    and "one_to_one (same_at s1) (l_buses s1) ns"
  shows "\<exists>s'. refresh_bus B backend s = Some ((), s') \<and> l_held s' = {} \<and>
     l_buses s' = kept (same_at s1) (l_buses s1) ns @ unmatched (same_at s1) (l_buses s1) ns \<and>
     map (bs_busid \<circ> bus_at s') (unmatched (same_at s1) (l_buses s1) ns) =
       map (\<lambda>i. l_cur_bus_id s1 + of_nat i) [0 ..< length (unmatched (same_at s1) (l_buses s1) ns)] \<and>
     (\<forall>n \<in> set ns. l_bus s' n = None \<longleftrightarrow> (\<exists>p \<in> set (l_buses s1). same_at s1 p n)) \<and>
     (\<forall>p \<in> set (l_buses s1). l_bus s' p = l_bus s1 p)"
proof -
  define us where "us = unmatched (same_at s1) (l_buses s1) ns"
  from refresh_bus_run [where s = s and ?s1.0 = s1 and ns = ns and ret = ret and f = f and B = B, OF assms us_def] obtain h where
    h: "refresh_bus B backend s = Some ((), s1\<lparr>l_bus := h,
       l_cur_bus_id := l_cur_bus_id s1 + of_nat (length us),
       l_buses := kept (same_at s1) (l_buses s1) ns @ us\<rparr>)" (is "_ = Some ((), ?s')")
    "\<forall>p. p \<notin> set ns \<longrightarrow> h p = l_bus s1 p" "\<forall>n \<in> set ns - set us. h n = None"
    "\<forall>i < length us. h (us ! i) = Some ((bus_at s1 (us ! i))\<lparr>
         bs_busid := l_cur_bus_id s1 + of_nat i, bs_ops := bk_ops be, bs_devices := []\<rparr>)"
    by blast
  have "map (bs_busid \<circ> bus_at ?s') us = map (\<lambda>i. l_cur_bus_id s1 + of_nat i) [0 ..< length us]"
    using h(4) by (intro nth_equalityI) (auto simp: bus_at_def)
  moreover have "h n = None \<longleftrightarrow> (\<exists>p \<in> set (l_buses s1). same_at s1 p n)" if "n \<in> set ns" for n
  proof (cases "n \<in> set us")
    case True
    then obtain i where "i < length us" "us ! i = n" by (auto simp: in_set_conv_nth)
    then have "h n \<noteq> None" using h(4) by auto
    moreover have "\<not> (\<exists>p \<in> set (l_buses s1). same_at s1 p n)"
      using True by (simp add: us_def unmatched_def)
    ultimately show ?thesis by blast
  next
    case False
    then show ?thesis using h(3) that by (auto simp: us_def unmatched_def)
  qed
  moreover have "\<forall>p \<in> set (l_buses s1). h p = l_bus s1 p"
    using h(2) assms(7) by auto
  ultimately show ?thesis
    using h(1) assms(5) unfolding us_def [symmetric] by (intro exI [of _ ?s']) auto
qed

text \<open>With two backends the refresh loses buses: each call compares the buses of all
  backends with what one backend found, so the buses that only the first backend has are
  taken off the list again (and stay allocated) when the second one is asked.
\<close>

theorem second_backend_drops_first:
  assumes s: "l_held s = {}" "l_backends s = [a, b]" "l_backend s a = Some ba"
      "l_backend s b = Some bb" "l_buses s = []"
    and f: "bo_find_buses (B (bk_ops ba)) = Some (\<lambda>s. Some ((0, na), s))"
      "bo_find_buses (B (bk_ops bb)) = Some (\<lambda>s. Some ((0, nb), s))"
    and n: "distinct (na @ nb)" "\<forall>p \<in> set na \<union> set nb. l_bus s p \<noteq> None"
      "\<forall>p \<in> set na. \<forall>n \<in> set nb. \<not> same_at s p n"
  shows "\<exists>s'. usbi_refresh_busses B s = Some ((), s') \<and> l_buses s' = nb \<and>
     (\<forall>p \<in> set na. l_bus s' p \<noteq> None)"
proof -
  have "\<exists>h. refresh_bus B a s = Some ((), s\<lparr>l_bus := h,
       l_cur_bus_id := l_cur_bus_id s + of_nat (length na), l_buses := na\<rparr>) \<and>
     (\<forall>p. p \<notin> set na \<longrightarrow> h p = l_bus s p) \<and>
     (\<forall>i < length na. h (na ! i) = Some ((bus_at s (na ! i))\<lparr>
         bs_busid := l_cur_bus_id s + of_nat i, bs_ops := bk_ops ba, bs_devices := []\<rparr>))"
  proof -
    have o: "one_to_one (same_at s) (l_buses s) na \<and> kept (same_at s) (l_buses s) na = [] \<and>
        unmatched (same_at s) (l_buses s) na = na"
      using one_to_one_none [of "[]" na "same_at s"] s(5) by simp
    have d: "distinct (l_buses s @ na)" "\<forall>p \<in> set (l_buses s) \<union> set na. l_bus s p \<noteq> None"
      using s n(1,2) by simp_all
    from refresh_bus_run [where B = B and s = s and ?s1.0 = s and ns = na and ret = 0, OF s(3) f(1) refl order_refl s(1,3) d
      conjunct1 [OF o] refl] o
    show ?thesis by (simp only: append_Nil) blast
  qed
  then obtain h where h: "refresh_bus B a s = Some ((), s\<lparr>l_bus := h,
       l_cur_bus_id := l_cur_bus_id s + of_nat (length na), l_buses := na\<rparr>)"
       (is "_ = Some ((), ?s1)")
    "\<forall>p. p \<notin> set na \<longrightarrow> h p = l_bus s p"
    "\<forall>i < length na. h (na ! i) = Some ((bus_at s (na ! i))\<lparr>
         bs_busid := l_cur_bus_id s + of_nat i, bs_ops := bk_ops ba, bs_devices := []\<rparr>)"
    by blast
  have na: "\<exists>i. h p = Some ((bus_at s p)\<lparr>bs_busid := i, bs_ops := bk_ops ba, bs_devices := []\<rparr>)"
    if "p \<in> set na" for p
    using that h(3) by (auto simp: in_set_conv_nth [of p na])
  have none: "\<not> same_at ?s1 p n" if "p \<in> set na" "n \<in> set nb" for p n
    using na [OF that(1)] h(2) that n(1,3) by (auto simp: bus_at_def same_bus_def)
  have al: "\<forall>p \<in> set na \<union> set nb. l_bus ?s1 p \<noteq> None"
    using na h(2) n(2) by fastforce
  have "\<exists>h'. refresh_bus B b ?s1 = Some ((), ?s1\<lparr>l_bus := h',
       l_cur_bus_id := l_cur_bus_id ?s1 + of_nat (length nb), l_buses := nb\<rparr>) \<and>
     (\<forall>p. p \<notin> set nb \<longrightarrow> h' p = l_bus ?s1 p)"
  proof -
    have o: "one_to_one (same_at ?s1) (l_buses ?s1) nb \<and> kept (same_at ?s1) (l_buses ?s1) nb = [] \<and>
        unmatched (same_at ?s1) (l_buses ?s1) nb = nb"
      using one_to_one_none [of na nb "same_at ?s1"] none by simp
    have be: "l_backend ?s1 b = Some bb" "l_held ?s1 = {}"
      and d: "distinct (l_buses ?s1 @ nb)" "\<forall>p \<in> set (l_buses ?s1) \<union> set nb. l_bus ?s1 p \<noteq> None"
      using s n(1) al by simp_all
    from refresh_bus_run [where B = B and s = ?s1 and ?s1.0 = ?s1 and ns = nb and ret = 0, OF be(1) f(2) refl order_refl be(2,1) d conjunct1 [OF o] refl] o
    show ?thesis by (simp only: append_Nil) blast
  qed
  then obtain h' where h': "refresh_bus B b ?s1 = Some ((), ?s1\<lparr>l_bus := h',
       l_cur_bus_id := l_cur_bus_id ?s1 + of_nat (length nb), l_buses := nb\<rparr>)"
    "\<forall>p. p \<notin> set nb \<longrightarrow> h' p = l_bus ?s1 p" by blast
  have "\<forall>p \<in> set na. h' p \<noteq> None"
    using na h'(2) n(1) by fastforce
  then show ?thesis
    using h(1) h'(1) s(2) by (simp add: usbi_refresh_busses_def)
qed

section \<open>The bus table\<close>

lemma find_bus_walk_run:
  assumes "\<forall>p \<in> set ps. l_bus s p \<noteq> None" "\<forall>n. LkBus n \<notin> l_held s"
  shows "find_bus_walk P ps s = Some (case find (\<lambda>p. P (the (l_bus s p))) ps of None \<Rightarrow> 0 | Some p \<Rightarrow> p, s)"
  using assms by (induction ps) (auto simp: lock_Some)

definition buses_ok :: "'a lib_scheme \<Rightarrow> bool" where
  "buses_ok s \<longleftrightarrow> l_held s = {} \<and> table_ok bs_busid (l_cur_bus_id s) (l_bus s) (l_buses s)"

definition bus_tab :: "'a lib_scheme \<Rightarrow> u64 \<Rightarrow> addr option" where
  "bus_tab s = table_get bs_busid (l_bus s) (l_buses s)"

lemma table_ok_heap: "table_ok key cur h ps \<Longrightarrow> p \<in> set ps \<Longrightarrow> h p \<noteq> None"
  by (auto simp: table_ok_def)

lemma table_get_bound:
  "table_ok key cur h ps \<Longrightarrow> table_get key h ps k = Some p \<Longrightarrow> p \<noteq> 0 \<and> k < cur"
  using table_get_Some [of key cur h ps k p] by (auto simp: table_ok_def intro!: gr0I)

interpretation buses: id_table buses_ok bus_tab l_cur_bus_id
  "\<lambda>s p. p \<noteq> 0 \<and> p \<notin> set (l_buses s) \<and> l_bus s p \<noteq> None \<and> l_backend s backend \<noteq> None"
  usbi_find_bus_by_id "\<lambda>p. usbi_add_bus p backend" usbi_remove_bus for backend
proof (unfold_locales, goal_cases)
  case (1 s k)
  then have "find_bus_walk (\<lambda>b. bs_busid b = k) (l_buses s) (s\<lparr>l_held := {LkBuses}\<rparr>) =
     Some (case bus_tab s k of None \<Rightarrow> 0 | Some p \<Rightarrow> p, s\<lparr>l_held := {LkBuses}\<rparr>)"
    using find_bus_walk_run [of "l_buses s" "s\<lparr>l_held := {LkBuses}\<rparr>" "\<lambda>b. bs_busid b = k"]
      table_ok_heap [of bs_busid "l_cur_bus_id s" "l_bus s" "l_buses s"]
    by (simp add: buses_ok_def bus_tab_def table_get_def)
  then show ?case
    using 1 by (simp add: usbi_find_bus_by_id_def with_lock_def lock_def unlock_def buses_ok_def)
next
  case (2 s k p)
  then show ?case unfolding buses_ok_def bus_tab_def by (elim conjE) (rule table_get_bound)
next
  case (3 s p)
  then obtain b be where b: "l_bus s p = Some b" "l_backend s backend = Some be" by auto
  let ?b = "b\<lparr>bs_busid := l_cur_bus_id s, bs_ops := bk_ops be, bs_devices := []\<rparr>"
  have "table_ok bs_busid (l_cur_bus_id s) (l_bus s) (l_buses s)" using 3 by (simp add: buses_ok_def)
  from table_add [OF this, of p ?b] 3 b show ?case
    by (auto simp: usbi_add_bus_def buses_ok_def bus_tab_def lock_def unlock_def ls_add_def)
next
  case (4 s k p)
  have ok: "table_ok bs_busid (l_cur_bus_id s) (l_bus s) (l_buses s)" using 4 by (simp add: buses_ok_def)
  then obtain b where b: "p \<in> set (l_buses s)" "l_bus s p = Some b" "bs_busid b = k"
    using 4 by (auto simp: bus_tab_def table_get_Some)
  from table_del [OF ok b(1,2)] 4 b(2,3) show ?case
    by (auto simp: usbi_remove_bus_def usbi_free_bus_def with_lock_def buses_ok_def bus_tab_def
        lock_def unlock_def ls_del_def)
qed

text \<open>
  The bus table. Adding a bus gives it an identifier that no bus had before, under
  which it is found from then on; removing it makes the identifier unknown again and the
  library answers every other lookup as if the bus had never been there. The identifier is
  not given out again.
\<close>

theorem bus_add_remove:
  assumes "buses_ok s" "p \<noteq> 0" "p \<notin> set (l_buses s)" "l_bus s p \<noteq> None"
    and "l_backend s backend \<noteq> None" "l_cur_bus_id s < l_cur_bus_id s + 1"
  shows "\<exists>s' s''. usbi_add_bus p backend s = Some ((), s') \<and>
     usbi_find_bus_by_id (l_cur_bus_id s) s' = Some (p, s') \<and>
     usbi_remove_bus p s' = Some ((), s'') \<and> l_cur_bus_id s < l_cur_bus_id s'' \<and>
     (\<forall>k. map_option fst (usbi_find_bus_by_id k s'') = map_option fst (usbi_find_bus_by_id k s))"
  using buses.add_del_find [OF assms(1) _ assms(6), of p backend]
    buses.add_find [OF assms(1) _ assms(6), of p backend] assms(2-5) by fastforce

section \<open>The device table and the events\<close>

text \<open>The state after one event for every handle of hs.\<close>

definition ev_heap :: "u64 \<Rightarrow> nat \<Rightarrow> addr list \<Rightarrow> addr \<Rightarrow> (addr \<rightharpoonup> eventcallback) \<Rightarrow>
    (addr \<rightharpoonup> eventcallback)" where
  "ev_heap devid ty hs n ev = (\<lambda>a. if n \<le> a \<and> a < n + length hs
     then Some \<lparr>ev_devid = devid, ev_type = ty, ev_handle = hs ! (a - n)\<rparr> else ev a)"

definition queued :: "u64 \<Rightarrow> nat \<Rightarrow> addr list \<Rightarrow> 'a lib_scheme \<Rightarrow> 'a lib_scheme" where
  "queued devid ty hs s = s\<lparr>l_event := ev_heap devid ty hs (l_next s) (l_event s),
     l_events := l_events s @ [l_next s ..< l_next s + length hs],
     l_queue_full := l_queue_full s + int (length hs),
     l_next := l_next s + length hs\<rparr>"

lemma ev_heap_Nil [simp]: "ev_heap devid ty [] n ev = ev"
  by (rule ext) (auto simp: ev_heap_def)

lemma ev_heap_single:
  "ev_heap devid ty [h] n ev = ev(n \<mapsto> \<lparr>ev_devid = devid, ev_type = ty, ev_handle = h\<rparr>)"
  by (auto simp: ev_heap_def fun_eq_iff)

lemma ev_heap_Cons:
  "ev_heap devid ty hs (Suc n) (ev_heap devid ty [h] n ev) = ev_heap devid ty (h # hs) n ev"
proof (rule ext)
  fix a
  consider "a < n" | "a = n" | m where "a = Suc (n + m)"
    by (metis add_Suc_right less_imp_Suc_add linorder_neqE_nat)
  then show "ev_heap devid ty hs (Suc n) (ev_heap devid ty [h] n ev) a = ev_heap devid ty (h # hs) n ev a"
    by cases (auto simp: ev_heap_def)
qed

lemma add_event_callback_run:
  assumes "l_hdl s h \<noteq> None" "LkEvents \<notin> l_held s" "0 < l_next s"
  shows "usbi_add_event_callback (\<lambda>_. True) devid ty h s = Some ((), queued devid ty [h] s)"
  using assms by (auto simp: usbi_add_event_callback_def fresh_def Let_def lock_Some unlock_def
      queued_def ls_add_def ev_heap_single)

lemma queued_Cons: "queued devid ty hs (queued devid ty [h] s) = queued devid ty (h # hs) s"
proof -
  have "[l_next s] @ [Suc (l_next s) ..< Suc (l_next s + length hs)] =
      [l_next s ..< Suc (l_next s + length hs)]"
    by (subst (2) upt_rec) auto
  then show ?thesis by (simp add: queued_def ev_heap_Cons)
qed

lemma notify_run:
  assumes "\<forall>h \<in> set hs. l_hdl s h \<noteq> None" "LkEvents \<notin> l_held s" "0 < l_next s"
  shows "list_iter (usbi_add_event_callback (\<lambda>_. True) devid ty) hs s = Some ((), queued devid ty hs s)"
  using assms
proof (induction hs arbitrary: s)
  case Nil
  show ?case by (simp add: queued_def)
next
  case (Cons h hs)
  have "list_iter (usbi_add_event_callback (\<lambda>_. True) devid ty) hs (queued devid ty [h] s) =
      Some ((), queued devid ty hs (queued devid ty [h] s))"
    using Cons.prems by (intro Cons.IH) (auto simp: queued_def)
  then show ?case using Cons.prems by (simp add: add_event_callback_run queued_Cons)
qed

lemma notify_all_run:
  assumes "\<forall>h \<in> set (l_handles s). l_hdl s h \<noteq> None" "l_held s = {}" "0 < l_next s"
  shows "notify_all (\<lambda>_. True) devid ty s = Some ((), queued devid ty (l_handles s) s)"
proof -
  have "queued devid ty hs (s\<lparr>l_held := {LkHandles}\<rparr>) = (queued devid ty hs s)\<lparr>l_held := {LkHandles}\<rparr>"
    for hs by (simp add: queued_def)
  moreover have "l_held (queued devid ty (l_handles s) s) = {}" using assms(2) by (simp add: queued_def)
  moreover have "(queued devid ty (l_handles s) s)\<lparr>l_held := {}\<rparr> = queued devid ty (l_handles s) s"
    using assms(2) by (simp add: queued_def)
  ultimately show ?thesis
    using notify_run [of "l_handles s" "s\<lparr>l_held := {LkHandles}\<rparr>" devid ty] assms
    by (simp add: notify_all_def with_lock_def lock_def unlock_def)
qed

text \<open>free_device of a backend changes nothing but the private data of the backend.\<close>

definition plain_free :: "(nat \<Rightarrow> 'a lib_scheme backend_ops) \<Rightarrow> bool" where
  "plain_free B \<longleftrightarrow> (\<forall>n f p s. bo_free_device (B n) = Some f \<longrightarrow> l_dev s p \<noteq> None \<longrightarrow>
     (\<exists>m. f p s = Some ((), lib.more_update (\<lambda>_. m) s)))"

definition freeable :: "'a lib_scheme \<Rightarrow> addr \<Rightarrow> bool" where
  "freeable s p \<longleftrightarrow> (\<exists>d. l_dev s p = Some d \<and> usbi_destroy_configuration (dv_desc d) \<noteq> None)"

definition devices_ok :: "(nat \<Rightarrow> 'a lib_scheme backend_ops) \<Rightarrow> 'a lib_scheme \<Rightarrow> bool" where
  "devices_ok B s \<longleftrightarrow> l_held s = {} \<and> l_inited s \<noteq> 0 \<and> 0 < l_next s \<and> plain_free B \<and>
     table_ok dv_devid (l_cur_device_id s) (l_dev s) (l_devices s) \<and>
     (\<forall>h \<in> set (l_handles s). l_hdl s h \<noteq> None) \<and>
     (\<forall>p \<in> set (l_devices s). freeable s p \<and> l_bus s (dv_bus (the (l_dev s p))) \<noteq> None)"

definition dev_tab :: "'a lib_scheme \<Rightarrow> u64 \<Rightarrow> addr option" where
  "dev_tab s = table_get dv_devid (l_dev s) (l_devices s)"

definition dev_addable :: "addr \<Rightarrow> 'a lib_scheme \<Rightarrow> addr \<Rightarrow> bool" where
  "dev_addable ibus s p \<longleftrightarrow> p \<noteq> 0 \<and> p \<notin> set (l_devices s) \<and> freeable s p \<and> l_bus s ibus \<noteq> None"

lemma find_device_run:
  assumes "devices_ok B s"
  shows "usbi_find_device_by_id k s = Some (case dev_tab s k of None \<Rightarrow> 0 | Some p \<Rightarrow> p, s)"
proof -
  have "list_find (\<lambda>idev. dv_devid idev = k) (l_dev s) (l_devices s) =
      Some (case dev_tab s k of None \<Rightarrow> 0 | Some p \<Rightarrow> p)"
    using list_find_spec [of "l_devices s" "l_dev s"] assms
    by (auto simp: devices_ok_def dev_tab_def table_get_def dest: table_ok_heap)
  then show ?thesis using assms
    by (simp add: usbi_find_device_by_id_def devices_ok_def lock_def unlock_def)
qed

text \<open>The state after a device was put on the lists, before the handles are notified.\<close>

definition attached :: "addr \<Rightarrow> addr \<Rightarrow> 'a lib_scheme \<Rightarrow> 'a lib_scheme" where
  "attached ibus p s = s\<lparr>
     l_dev := (l_dev s)(p \<mapsto> (the (l_dev s p))\<lparr>dv_devid := l_cur_device_id s, dv_bus := ibus,
        dv_ops := bs_ops (the (l_bus s ibus))\<rparr>),
     l_cur_device_id := l_cur_device_id s + 1,
     l_bus := (l_bus s)(ibus \<mapsto> (the (l_bus s ibus))\<lparr>
        bs_devices := bs_devices (the (l_bus s ibus)) @ [p]\<rparr>),
     l_devices := l_devices s @ [p]\<rparr>"

lemma add_device_run:
  assumes "devices_ok B s" "dev_addable ibus s p"
  shows "usbi_add_device (\<lambda>_. True) ibus p s = Some ((),
     queued (l_cur_device_id s) USB_ATTACH (l_handles s) (attached ibus p s))"
proof -
  from assms obtain d b where "l_dev s p = Some d" "l_bus s ibus = Some b"
    by (auto simp: dev_addable_def freeable_def)
  then show ?thesis using assms(1) notify_all_run [of "attached ibus p s"]
    by (auto simp: usbi_add_device_def Let_def with_lock_def lock_def unlock_def ls_add_def
        devices_ok_def attached_def held_same)
qed

lemma queued_simps [simp]:
  "l_held (queued i t hs s) = l_held s" "l_inited (queued i t hs s) = l_inited s"
  "l_dev (queued i t hs s) = l_dev s" "l_bus (queued i t hs s) = l_bus s"
  "l_devices (queued i t hs s) = l_devices s" "l_handles (queued i t hs s) = l_handles s"
  "l_hdl (queued i t hs s) = l_hdl s" "l_cur_device_id (queued i t hs s) = l_cur_device_id s"
  "l_next (queued i t hs s) = l_next s + length hs"
  "l_queue_full (queued i t hs s) = l_queue_full s + int (length hs)"
  by (simp_all add: queued_def)

lemma devices_ok_queued [simp]:
  "devices_ok B s \<Longrightarrow> devices_ok B (queued i t hs s)" "dev_tab (queued i t hs s) = dev_tab s"
  by (auto simp: devices_ok_def freeable_def dev_tab_def)

lemma attached_ok:
  assumes ok: "devices_ok B s" and ad: "dev_addable ibus s p"
    and nw: "l_cur_device_id s < l_cur_device_id s + 1"
  shows "devices_ok B (attached ibus p s)"
    and "dev_tab (attached ibus p s) = (dev_tab s)(l_cur_device_id s \<mapsto> p)"
proof -
  from ad obtain d where d: "l_dev s p = Some d" by (auto simp: dev_addable_def freeable_def)
  let ?d = "d\<lparr>dv_devid := l_cur_device_id s, dv_bus := ibus, dv_ops := bs_ops (the (l_bus s ibus))\<rparr>"
  have t: "table_ok dv_devid (l_cur_device_id s) (l_dev s) (l_devices s)"
    using ok by (simp add: devices_ok_def)
  note add = table_add [OF t, of p ?d]
  show "dev_tab (attached ibus p s) = (dev_tab s)(l_cur_device_id s \<mapsto> p)"
    using add(2) ad nw d by (simp add: dev_tab_def attached_def dev_addable_def)
  have "table_ok dv_devid (l_cur_device_id s + 1) ((l_dev s)(p \<mapsto> ?d)) (l_devices s @ [p])"
    using add(1) ad nw by (simp add: dev_addable_def)
  then show "devices_ok B (attached ibus p s)"
    using ok ad d by (auto simp: devices_ok_def attached_def dev_addable_def freeable_def)
qed

text \<open>The state after a device was taken off the lists and freed.\<close>

definition detached :: "addr \<Rightarrow> 'a lib_scheme \<Rightarrow> 'a lib_scheme" where
  "detached p s = s\<lparr>
     l_bus := (l_bus s)(dv_bus (the (l_dev s p)) \<mapsto> (the (l_bus s (dv_bus (the (l_dev s p)))))\<lparr>
        bs_devices := remove1 p (bs_devices (the (l_bus s (dv_bus (the (l_dev s p))))))\<rparr>),
     l_devices := remove1 p (l_devices s), l_dev := (l_dev s)(p := None)\<rparr>"

lemma free_device_run:
  assumes "plain_free B" "l_dev s p = Some d" "usbi_destroy_configuration (dv_desc d) \<noteq> None" "l_bus s (dv_bus d) \<noteq> None"
  shows "\<exists>m. usbi_free_device B p s = Some ((), lib.more_update (\<lambda>_. m) (s\<lparr>l_dev := (l_dev s)(p := None)\<rparr>))"
proof -
  obtain desc b where d: "usbi_destroy_configuration (dv_desc d) = Some desc" "l_bus s (dv_bus d) = Some b"
    using assms(3,4) by blast
  let ?s = "s\<lparr>l_dev := (l_dev s)(p \<mapsto> d\<lparr>dv_desc := desc\<rparr>)\<rparr>"
  show ?thesis
  proof (cases "bo_free_device (B (bs_ops b))")
    case None
    then show ?thesis using assms(2) d
      by (intro exI [of _ "lib.more s"]) (simp add: usbi_free_device_def Let_def)
  next
    case (Some f)
    moreover have "l_dev ?s p \<noteq> None" by simp
    ultimately obtain m where "f p ?s = Some ((), lib.more_update (\<lambda>_. m) ?s)"
      using assms(1) unfolding plain_free_def by blast
    then show ?thesis using assms(2) d Some
      by (intro exI [of _ m]) (simp add: usbi_free_device_def Let_def)
  qed
qed

text \<open>The device taken off the lists, before it is freed.\<close>

definition off_lists :: "addr \<Rightarrow> 'a lib_scheme \<Rightarrow> 'a lib_scheme" where
  "off_lists p s = s\<lparr>
     l_bus := (l_bus s)(dv_bus (the (l_dev s p)) \<mapsto> (the (l_bus s (dv_bus (the (l_dev s p)))))\<lparr>
        bs_devices := remove1 p (bs_devices (the (l_bus s (dv_bus (the (l_dev s p))))))\<rparr>),
     l_devices := remove1 p (l_devices s)\<rparr>"

lemma detached_off_lists: "detached p s = (off_lists p s)\<lparr>l_dev := (l_dev (off_lists p s))(p := None)\<rparr>"
  by (simp add: detached_def off_lists_def)

lemma remove_device_core:
  assumes ok: "devices_ok B s" and p: "p \<in> set (l_devices s)"
    and m: "usbi_free_device B p (off_lists p s) = Some ((), lib.more_update (\<lambda>_. m) (detached p s))"
  shows "usbi_remove_device (\<lambda>_. True) B p s = Some ((), lib.more_update (\<lambda>_. m)
     (queued (dv_devid (the (l_dev s p))) USB_REMOVE (l_handles s) (detached p s)))"
proof -
  from assms obtain d b where d: "l_dev s p = Some d" "l_bus s (dv_bus d) = Some b"
    by (fastforce simp: devices_ok_def freeable_def)
  let ?t = "lib.more_update (\<lambda>_. m) (detached p s)"
  have "l_held ?t = {}" "0 < l_next ?t" "l_handles ?t = l_handles s" "\<forall>h \<in> set (l_handles ?t). l_hdl ?t h \<noteq> None"
    using ok by (simp_all add: devices_ok_def detached_def)
  note nt = notify_all_run [OF this(4,1,2), unfolded this(3)]
  have q: "queued i t hs ?t = lib.more_update (\<lambda>_. m) (queued i t hs (detached p s))" for i t hs
    by (simp add: queued_def)
  have held: "{LkDevices, LkBuses} - {LkBuses} - {LkDevices} = {}" by auto
  have h: "l_held s = {}" using ok by (simp add: devices_ok_def)
  have hs: "(off_lists p s)\<lparr>l_held := {}\<rparr> = off_lists p s" using h by (simp add: held_same off_lists_def)
  have "usbi_remove_device (\<lambda>_. True) B p s = do {
      (_, s) \<leftarrow> usbi_free_device B p ((off_lists p s)\<lparr>l_held := {}\<rparr>);
      notify_all (\<lambda>_. True) (dv_devid d) USB_REMOVE s }"
    using d h by (simp add: usbi_remove_device_def Let_def lock_def unlock_def held ls_del_def off_lists_def)
  then show ?thesis unfolding hs m using nt d(1) by (simp add: q)
qed

lemma remove_device_run:
  assumes ok: "devices_ok B s" and p: "p \<in> set (l_devices s)"
  shows "\<exists>m. usbi_remove_device (\<lambda>_. True) B p s = Some ((), lib.more_update (\<lambda>_. m)
     (queued (dv_devid (the (l_dev s p))) USB_REMOVE (l_handles s) (detached p s)))"
proof -
  from assms obtain d where d: "l_dev s p = Some d" "l_bus s (dv_bus d) \<noteq> None"
      "usbi_destroy_configuration (dv_desc d) \<noteq> None"
    by (fastforce simp: devices_ok_def freeable_def)
  have "plain_free B" using ok by (simp add: devices_ok_def)
  from free_device_run [OF this, of "off_lists p s" p d] d
  have "\<exists>m. usbi_free_device B p (off_lists p s) = Some ((), lib.more_update (\<lambda>_. m) (detached p s))"
    by (simp add: detached_off_lists) (simp add: off_lists_def)
  then show ?thesis using remove_device_core [OF ok p] by blast
qed

lemma detached_ok:
  assumes ok: "devices_ok B s" and p: "p \<in> set (l_devices s)" "l_dev s p = Some d"
  shows "devices_ok B (detached p s)"
    and "dev_tab (detached p s) = (dev_tab s)(dv_devid d := None)"
proof -
  have t: "table_ok dv_devid (l_cur_device_id s) (l_dev s) (l_devices s)"
    using ok by (simp add: devices_ok_def)
  note del = table_del [OF t p]
  show "dev_tab (detached p s) = (dev_tab s)(dv_devid d := None)"
    using del(2) by (simp add: dev_tab_def detached_def)
  have "q \<noteq> p" if "q \<in> set (remove1 p (l_devices s))" for q
    using that t by (auto simp: table_ok_def)
  moreover have "set (remove1 p (l_devices s)) \<subseteq> set (l_devices s)" by (rule set_remove1_subset)
  ultimately show "devices_ok B (detached p s)"
    using ok p(2) del(1) unfolding devices_ok_def freeable_def detached_def by fastforce
qed

lemma devices_ok_more [simp]: "devices_ok B (lib.more_update f s) = devices_ok B s"
  and dev_tab_more [simp]: "dev_tab (lib.more_update f s) = dev_tab s"
  by (simp_all add: devices_ok_def dev_tab_def freeable_def)

interpretation devices: id_table "devices_ok B" dev_tab l_cur_device_id "dev_addable ibus"
  usbi_find_device_by_id "usbi_add_device (\<lambda>_. True) ibus" "usbi_remove_device (\<lambda>_. True) B" for B ibus
proof (unfold_locales, goal_cases)
  case (1 s k)
  then show ?case by (rule find_device_run)
next
  case (2 s k p)
  then show ?case unfolding devices_ok_def dev_tab_def by (elim conjE) (rule table_get_bound)
next
  case (3 s p)
  then show ?case
    using attached_ok [OF 3] by (simp add: add_device_run) (simp add: attached_def)
next
  case (4 s k p)
  then obtain d where d: "p \<in> set (l_devices s)" "l_dev s p = Some d" "dv_devid d = k"
    by (auto simp: devices_ok_def dev_tab_def table_get_Some)
  from remove_device_run [OF 4(1) d(1)] obtain m where
    m: "usbi_remove_device (\<lambda>_. True) B p s = Some ((), lib.more_update (\<lambda>_. m)
      (queued (dv_devid (the (l_dev s p))) USB_REMOVE (l_handles s) (detached p s)))" by blast
  show ?case using detached_ok [OF 4(1) d(1,2)] unfolding m d(3) [symmetric]
    by (simp) (simp add: detached_def)
qed

text \<open>What an event entry says, and the entries of the queue.\<close>

definition pending :: "'a lib_scheme \<Rightarrow> eventcallback list" where
  "pending s = map (the \<circ> l_event s) (l_events s)"

lemma pending_queued:
  assumes "\<forall>e \<in> set (l_events s). e < l_next s"
  shows "pending (queued devid ty hs s) = pending s @
     map (\<lambda>h. \<lparr>ev_devid = devid, ev_type = ty, ev_handle = h\<rparr>) hs"
proof -
  have "map (the \<circ> ev_heap devid ty hs (l_next s) (l_event s)) (l_events s) =
      map (the \<circ> l_event s) (l_events s)"
    using assms by (intro map_cong) (auto simp: ev_heap_def)
  moreover have "map (the \<circ> ev_heap devid ty hs (l_next s) (l_event s))
      [l_next s ..< l_next s + length hs] =
      map (\<lambda>h. \<lparr>ev_devid = devid, ev_type = ty, ev_handle = h\<rparr>) hs"
    by (rule nth_equalityI) (auto simp: ev_heap_def)
  ultimately show ?thesis by (simp add: pending_def queued_def)
qed

lemma pending_more [simp]: "pending (lib.more_update f s) = pending s"
  by (simp add: pending_def)

text \<open>A device arrives. It gets an identifier that was never used, is found under it from
  then on and every other lookup answers as before; it is the last device of its bus; one
  attach event for every open library handle is put at the end of the event queue.
\<close>

theorem usbi_add_device_notifies:
  assumes ok: "devices_ok B s" and ad: "dev_addable ibus s p"
    and nw: "l_cur_device_id s < l_cur_device_id s + 1"
    and ev: "\<forall>e \<in> set (l_events s). e < l_next s"
  shows "\<exists>s'. usbi_add_device (\<lambda>_. True) ibus p s = Some ((), s') \<and> devices_ok B s' \<and>
     usbi_find_device_by_id (l_cur_device_id s) s' = Some (p, s') \<and>
     (\<forall>k. k \<noteq> l_cur_device_id s \<longrightarrow> map_option fst (usbi_find_device_by_id k s') =
        map_option fst (usbi_find_device_by_id k s)) \<and>
     last (bs_devices (the (l_bus s' ibus))) = p \<and>
     pending s' = pending s @ map (\<lambda>h. \<lparr>ev_devid = l_cur_device_id s, ev_type = USB_ATTACH,
        ev_handle = h\<rparr>) (l_handles s) \<and>
     l_queue_full s' = l_queue_full s + int (length (l_handles s))"
proof -
  have "pending (attached ibus p s) = pending s" "l_next (attached ibus p s) = l_next s"
    "l_events (attached ibus p s) = l_events s" "l_queue_full (attached ibus p s) = l_queue_full s"
    "last (bs_devices (the (l_bus (attached ibus p s) ibus))) = p"
    by (simp_all add: attached_def pending_def)
  moreover note pending_queued [of "attached ibus p s" "l_cur_device_id s" USB_ATTACH "l_handles s"]
  ultimately show ?thesis
    using devices.add_find [OF ok ad nw] add_device_run [OF ok ad] ev by fastforce
qed

text \<open>A device leaves. Its identifier is unknown from then on and every other lookup
  answers as before; its structure is freed and it is on no list; one remove event for
  every open library handle is put at the end of the event queue.
\<close>

theorem usbi_remove_device_notifies:
  assumes ok: "devices_ok B s" and p: "p \<in> set (l_devices s)" "l_dev s p = Some d"
    and ev: "\<forall>e \<in> set (l_events s). e < l_next s"
  shows "\<exists>s'. usbi_remove_device (\<lambda>_. True) B p s = Some ((), s') \<and> devices_ok B s' \<and>
     usbi_find_device_by_id (dv_devid d) s' = Some (0, s') \<and>
     (\<forall>k. k \<noteq> dv_devid d \<longrightarrow> map_option fst (usbi_find_device_by_id k s') =
        map_option fst (usbi_find_device_by_id k s)) \<and>
     l_dev s' p = None \<and> p \<notin> set (l_devices s') \<and>
     pending s' = pending s @ map (\<lambda>h. \<lparr>ev_devid = dv_devid d, ev_type = USB_REMOVE,
        ev_handle = h\<rparr>) (l_handles s)"
proof -
  have t: "table_ok dv_devid (l_cur_device_id s) (l_dev s) (l_devices s)"
    using ok by (simp add: devices_ok_def)
  then have k: "dev_tab s (dv_devid d) = Some p" and dis: "distinct (l_devices s)"
    using p by (auto simp: dev_tab_def table_get_Some table_ok_def)
  have "pending (detached p s) = pending s" "l_next (detached p s) = l_next s"
    "l_events (detached p s) = l_events s" "l_dev (detached p s) p = None"
    "p \<notin> set (l_devices (detached p s))"
    using dis by (simp_all add: detached_def pending_def)
  moreover note pending_queued [of "detached p s" "dv_devid d" USB_REMOVE "l_handles s"]
  moreover obtain m where "usbi_remove_device (\<lambda>_. True) B p s = Some ((), lib.more_update (\<lambda>_. m)
      (queued (dv_devid d) USB_REMOVE (l_handles s) (detached p s)))"
    using remove_device_run [OF ok p(1)] p(2) by auto
  ultimately show ?thesis
    using devices.del_find [OF ok k] ev by simp
qed

end
