(* ===== verification/EventThread.thy ===== *)
theory EventThread
  imports LibBus
begin

text \<open>
  process_event_callbacks of usb.c, the background thread that calls the event callbacks,
  as a step relation. The thread's program counter says where it is and carries the locals
  that live across the steps; one step is what the thread does while it holds
  event_callbacks.lock, or one call of the user's callback. The other threads add events
  and ask the thread to end. pthread_cond_wait may also return without a signal.
\<close>

section \<open>The thread\<close>

datatype pc =
    Top
  | Waiting
  | Woken
  | Scan addr
  | Calling addr addr u64 nat addr addr addr
  | Called addr addr
  | Exited

record event_thread =
  et_lib :: lib
  et_pc :: pc
  et_log :: "eventcallback list"

text \<open>The entry that follows p on the list of events, or 0 for the head.\<close>

fun next_of :: "addr \<Rightarrow> addr list \<Rightarrow> addr" where
  "next_of p [] = 0"
| "next_of p (q # qs) = (if p = q then (case qs of [] \<Rightarrow> 0 | r # _ \<Rightarrow> r) else next_of p qs)"

definition first_of :: "addr list \<Rightarrow> addr" where
  "first_of ps = (case ps of [] \<Rightarrow> 0 | p # _ \<Rightarrow> p)"

text \<open>The test of the inner while loop, with the mutex held.\<close>

definition check_queue :: "event_thread \<Rightarrow> event_thread" where
  "check_queue t = (if l_queue_full (et_lib t) = 0 then t\<lparr>et_pc := Waiting\<rparr>
     else t\<lparr>et_pc := Scan (first_of (l_events (et_lib t)))\<rparr>)"

text \<open>
  A step of the thread: None is a fault, Some None that it cannot move. The pointer to the
  next entry is taken before the entry is unlinked; the callback and its argument are read
  from the handle with the event mutex held, the handle's number without it. The entry is
  freed and counted after the call.
\<close>

fun thread_step :: "event_thread \<Rightarrow> event_thread option option" where
  "thread_step t = (let s = et_lib t in case et_pc t of
     Top \<Rightarrow> Some (Some (check_queue t))
   | Waiting \<Rightarrow> Some None
   | Woken \<Rightarrow>
       (if l_exit s then Some (Some (t\<lparr>et_lib := s\<lparr>l_exit := False\<rparr>, et_pc := Exited\<rparr>))
        else Some (Some (check_queue t)))
   | Scan listh \<Rightarrow>
       (if listh = 0 then Some (Some (t\<lparr>et_pc := Top\<rparr>))
        else do {
          cb \<leftarrow> l_event s listh;
          let nxt = next_of listh (l_events s);
          let s = s\<lparr>l_events := ls_del listh (l_events s)\<rparr>;
          hdl \<leftarrow> l_hdl s (ev_handle cb);
          (func, arg) \<leftarrow> rd (hd_event_cbs hdl) (ev_type cb);
          Some (Some (t\<lparr>et_lib := s,
            et_pc := Calling listh nxt (ev_devid cb) (ev_type cb) (ev_handle cb) func arg\<rparr>))
        })
   | Calling cb nxt devid ty hdl func arg \<Rightarrow> do {
       h \<leftarrow> l_hdl s hdl;
       let s = (if func \<noteq> 0 then s\<lparr>l_delivered := l_delivered s @ [(hd_handle h, devid, ty, func, arg)]\<rparr>
                else s);
       Some (Some (t\<lparr>et_lib := s, et_pc := Called cb nxt,
         et_log := et_log t @ [\<lparr>ev_devid = devid, ev_type = ty, ev_handle = hdl\<rparr>]\<rparr>))
     }
   | Called cb nxt \<Rightarrow> do {
       _ \<leftarrow> l_event s cb;
       Some (Some (t\<lparr>et_lib := s\<lparr>l_event := (l_event s)(cb := None),
         l_queue_full := l_queue_full s - 1\<rparr>, et_pc := Scan nxt\<rparr>))
     }
   | Exited \<Rightarrow> Some None)"

declare thread_step.simps [simp del]

section \<open>The steps of the system\<close>

text \<open>pthread_cond_signal wakes the thread if it waits, and is forgotten otherwise.\<close>

definition signal :: "event_thread \<Rightarrow> event_thread" where
  "signal t = (if et_pc t = Waiting then t\<lparr>et_pc := Woken\<rparr> else t)"

text \<open>The mutex is held by the thread between two steps only while it scans the list.\<close>

definition scanning :: "event_thread \<Rightarrow> bool" where
  "scanning t = (case et_pc t of Scan _ \<Rightarrow> True | _ \<Rightarrow> False)"

datatype label = Thread | Add eventcallback | Ask_exit | Spurious

inductive event_step :: "event_thread \<Rightarrow> label \<Rightarrow> event_thread \<Rightarrow> bool" where
  step_thread: "thread_step t = Some (Some t') \<Longrightarrow> event_step t Thread t'"
| step_add: "\<not> scanning t \<Longrightarrow>
    usbi_add_event_callback (\<lambda>_. True) (ev_devid e) (ev_type e) (ev_handle e) (et_lib t) = Some ((), s') \<Longrightarrow>
    event_step t (Add e) (signal (t\<lparr>et_lib := s'\<rparr>))"
| step_exit: "event_step t Ask_exit (signal (t\<lparr>et_lib := (et_lib t)\<lparr>l_exit := True\<rparr>\<rparr>))"
| step_spurious: "et_pc t = Waiting \<Longrightarrow> event_step t Spurious (t\<lparr>et_pc := Woken\<rparr>)"

inductive_cases event_step_ThreadE: "event_step t Thread t'"
inductive_cases event_step_AddE: "event_step t (Add e) t'"
inductive_simps event_step_Ask_exit: "event_step t Ask_exit t'"
inductive_simps event_step_Spurious: "event_step t Spurious t'"

inductive event_run :: "event_thread \<Rightarrow> label list \<Rightarrow> event_thread \<Rightarrow> bool" where
  run_nil: "event_run t [] t"
| run_snoc: "event_run t ls t' \<Longrightarrow> event_step t' l t'' \<Longrightarrow> event_run t (ls @ [l]) t''"

text \<open>The events of a run, in the order they were queued.\<close>

fun added :: "label list \<Rightarrow> eventcallback list" where
  "added [] = []"
| "added (Add e # ls) = e # added ls"
| "added (l # ls) = added ls"

lemma added_append [simp]: "added (xs @ ys) = added xs @ added ys"
  by (induction xs rule: added.induct) auto

section \<open>The invariant\<close>

text \<open>The event in flight.\<close>

definition in_flight :: "event_thread \<Rightarrow> eventcallback list" where
  "in_flight t = (case et_pc t of Calling cb nxt devid ty hdl func arg \<Rightarrow>
      [\<lparr>ev_devid = devid, ev_type = ty, ev_handle = hdl\<rparr>] | _ \<Rightarrow> [])"

text \<open>1 from the moment an entry is unlinked until it is counted.\<close>

definition uncounted :: "event_thread \<Rightarrow> int" where
  "uncounted t = (case et_pc t of Calling _ _ _ _ _ _ _ \<Rightarrow> 1 | Called _ _ \<Rightarrow> 1 | _ \<Rightarrow> 0)"

text \<open>The saved pointers: the next entry is the first of the list, or the head.\<close>

definition cursor_ok :: "event_thread \<Rightarrow> bool" where
  "cursor_ok t = (let s = et_lib t; at = (\<lambda>n. n = 0 \<or> n = first_of (l_events s));
      own = (\<lambda>cb. cb \<notin> set (l_events s) \<and> l_event s cb \<noteq> None \<and> cb < l_next s) in
    case et_pc t of Scan n \<Rightarrow> at n | Calling cb n _ _ hdl _ _ \<Rightarrow> own cb \<and> at n \<and> l_hdl s hdl \<noteq> None
    | Called cb n \<Rightarrow> own cb \<and> at n | Waiting \<Rightarrow> l_queue_full s = 0 | _ \<Rightarrow> True)"

definition queue_ok :: "lib \<Rightarrow> bool" where
  "queue_ok s \<longleftrightarrow> distinct (l_events s) \<and> 0 \<notin> set (l_events s) \<and> 0 < l_next s \<and> l_held s = {} \<and>
     (\<forall>e \<in> set (l_events s). e < l_next s \<and> (\<exists>v. l_event s e = Some v \<and>
        (\<exists>h. l_hdl s (ev_handle v) = Some h \<and> ev_type v < length (hd_event_cbs h))))"

definition events_inv :: "eventcallback list \<Rightarrow> event_thread \<Rightarrow> bool" where
  "events_inv es t \<longleftrightarrow> queue_ok (et_lib t) \<and> cursor_ok t \<and>
     l_queue_full (et_lib t) = int (length (l_events (et_lib t))) + uncounted t \<and>
     es = et_log t @ in_flight t @ pending (et_lib t)"

text \<open>The handles stay: the events that are added name a live handle and a valid type.\<close>

definition good_event :: "(addr \<rightharpoonup> usbi_handle) \<Rightarrow> eventcallback \<Rightarrow> bool" where
  "good_event hs e \<longleftrightarrow> (\<exists>h. hs (ev_handle e) = Some h \<and> ev_type e < length (hd_event_cbs h))"

lemma check_queue_simps [simp]:
  "et_lib (check_queue t) = et_lib t" "et_log (check_queue t) = et_log t"
  by (simp_all add: check_queue_def)

text \<open>What a step did, by the place where the thread was.\<close>

lemma thread_stepE:
  assumes "thread_step t = Some (Some t')"
  obtains (look) "et_pc t = Top \<or> et_pc t = Woken \<and> \<not> l_exit (et_lib t)" "t' = check_queue t"
  | (leave) "et_pc t = Woken" "l_exit (et_lib t)" "t' = t\<lparr>et_lib := (et_lib t)\<lparr>l_exit := False\<rparr>, et_pc := Exited\<rparr>"
  | (scanned) "et_pc t = Scan 0" "t' = t\<lparr>et_pc := Top\<rparr>"
  | (take) cb ev h func arg where "et_pc t = Scan cb" "cb \<noteq> 0" "l_event (et_lib t) cb = Some ev"
      "l_hdl (et_lib t) (ev_handle ev) = Some h"
      "t' = t\<lparr>et_lib := (et_lib t)\<lparr>l_events := remove1 cb (l_events (et_lib t))\<rparr>,
         et_pc := Calling cb (next_of cb (l_events (et_lib t))) (ev_devid ev) (ev_type ev)
            (ev_handle ev) func arg\<rparr>"
  | (call) cb nxt devid ty hdl func arg d where "et_pc t = Calling cb nxt devid ty hdl func arg"
      "t' = t\<lparr>et_lib := (et_lib t)\<lparr>l_delivered := d\<rparr>, et_pc := Called cb nxt,
         et_log := et_log t @ [\<lparr>ev_devid = devid, ev_type = ty, ev_handle = hdl\<rparr>]\<rparr>"
  | (count) cb nxt where "et_pc t = Called cb nxt"
      "t' = t\<lparr>et_lib := (et_lib t)\<lparr>l_event := (l_event (et_lib t))(cb := None),
         l_queue_full := l_queue_full (et_lib t) - 1\<rparr>, et_pc := Scan nxt\<rparr>"
proof (cases "et_pc t")
  case (Scan cb)
  show ?thesis
  proof (cases "cb = 0")
    case True
    then show ?thesis using Scan assms scanned by (simp add: thread_step.simps)
  next
    case False
    with Scan assms show ?thesis
      by (auto simp: thread_step.simps Let_def ls_del_def elim!: bind_SomeE split: prod.split_asm
          intro: take)
  qed
next
  case (Calling cb nxt devid ty hdl func arg)
  from assms Calling obtain h where h: "l_hdl (et_lib t) hdl = Some h"
    by (cases "l_hdl (et_lib t) hdl") (simp_all add: thread_step.simps Let_def)
  show ?thesis
  proof (cases "func = 0")
    case True
    with assms Calling h show ?thesis
      by (intro call [of cb nxt devid ty hdl func arg "l_delivered (et_lib t)"])
        (simp_all add: thread_step.simps Let_def)
  next
    case False
    with assms Calling h show ?thesis
      by (intro call [of cb nxt devid ty hdl func arg
            "l_delivered (et_lib t) @ [(hd_handle h, devid, ty, func, arg)]"])
        (simp_all add: thread_step.simps Let_def)
  qed
next
  case (Called cb nxt)
  then show ?thesis using assms count
    by (auto simp: thread_step.simps Let_def elim!: bind_SomeE)
next
  case Top
  then show ?thesis using assms by (intro look) (simp_all add: thread_step.simps Let_def)
next
  case Woken
  show ?thesis
  proof (cases "l_exit (et_lib t)")
    case True
    then show ?thesis using Woken assms by (intro leave) (simp_all add: thread_step.simps Let_def)
  next
    case False
    then show ?thesis using Woken assms by (intro look) (simp_all add: thread_step.simps Let_def)
  qed
next
  case Waiting
  then show ?thesis using assms by (simp add: thread_step.simps)
next
  case Exited
  then show ?thesis using assms by (simp add: thread_step.simps)
qed

lemma thread_step_hdl: "thread_step t = Some (Some t') \<Longrightarrow> l_hdl (et_lib t') = l_hdl (et_lib t)"
  by (erule thread_stepE) simp_all

lemma next_of_first: "distinct ps \<Longrightarrow> next_of (first_of ps) ps = first_of (remove1 (first_of ps) ps)"
  by (cases ps) (auto simp: first_of_def split: list.split)

lemma first_of_mem: "first_of ps = 0 \<or> first_of ps \<in> set ps"
  by (simp add: first_of_def split: list.split)

text \<open>The thread keeps the invariant.\<close>

lemma queue_ok_remove1:
  assumes "queue_ok s" "cb \<in> set (l_events s)"
  shows "queue_ok (s\<lparr>l_events := remove1 cb (l_events s)\<rparr>)"
  using assms by (auto simp: queue_ok_def dest: notin_set_remove1)

lemma thread_keeps_inv:
  assumes inv: "events_inv es t" and step: "thread_step t = Some (Some t')"
  shows "events_inv es t'"
  using step
proof (cases rule: thread_stepE)
  case look
  then show ?thesis using inv
    by (auto simp: events_inv_def cursor_ok_def uncounted_def in_flight_def check_queue_def Let_def)
next
  case leave
  then show ?thesis using inv
    by (auto simp: events_inv_def cursor_ok_def uncounted_def in_flight_def queue_ok_def Let_def
        pending_def)
next
  case scanned
  then show ?thesis using inv
    by (auto simp: events_inv_def cursor_ok_def uncounted_def in_flight_def Let_def)
next
  case (take cb ev h func arg)
  let ?s = "et_lib t"
  have q: "queue_ok ?s" and c: "cb = first_of (l_events ?s)"
    using inv take by (auto simp: events_inv_def cursor_ok_def Let_def)
  then obtain qs where e: "l_events ?s = cb # qs"
    using take(2) by (auto simp: first_of_def split: list.splits)
  have ev: "ev_devid ev = ev_devid ev" "\<lparr>ev_devid = ev_devid ev, ev_type = ev_type ev,
      ev_handle = ev_handle ev\<rparr> = ev" by simp_all
  have nx: "next_of cb (l_events ?s) = 0 \<or> next_of cb (l_events ?s) = first_of qs"
    using e by (simp add: first_of_def split: list.split)
  have own: "cb \<notin> set qs" "l_event ?s cb \<noteq> None" "cb < l_next ?s"
    using q e by (auto simp: queue_ok_def)
  have l: "et_lib t' = ?s\<lparr>l_events := qs\<rparr>" "et_log t' = et_log t"
    and pc: "et_pc t' = Calling cb (next_of cb (l_events ?s)) (ev_devid ev) (ev_type ev)
            (ev_handle ev) func arg"
    using take e by simp_all
  have "queue_ok (et_lib t')"
    using queue_ok_remove1 [OF q, of cb] e l by simp
  moreover have "cursor_ok t'"
    using pc nx own take(4) l by (auto simp: cursor_ok_def Let_def)
  moreover have "l_queue_full (et_lib t') = int (length (l_events (et_lib t'))) + uncounted t'"
    using inv e l pc take(1) by (simp add: events_inv_def uncounted_def)
  moreover have "es = et_log t' @ in_flight t' @ pending (et_lib t')"
    using inv e l pc take(1,3) ev(2) by (simp add: events_inv_def in_flight_def pending_def)
  ultimately show ?thesis by (simp add: events_inv_def)
next
  case (call cb nxt devid ty hdl func arg d)
  then show ?thesis using inv
    by (auto simp: events_inv_def cursor_ok_def uncounted_def in_flight_def queue_ok_def Let_def
        pending_def)
next
  case (count cb nxt)
  have "map (the \<circ> (l_event (et_lib t))(cb := None)) (l_events (et_lib t)) =
      map (the \<circ> l_event (et_lib t)) (l_events (et_lib t))"
    using inv count by (intro map_cong) (auto simp: events_inv_def cursor_ok_def Let_def)
  then show ?thesis using inv count
    by (auto simp: events_inv_def cursor_ok_def uncounted_def in_flight_def queue_ok_def Let_def
        pending_def)
qed

text \<open>The other threads keep it, as long as the events name live handles.\<close>

lemma first_of_append: "ps \<noteq> [] \<Longrightarrow> first_of (ps @ qs) = first_of ps"
  by (cases ps) (auto simp: first_of_def)

lemma signal_simps [simp]:
  "et_lib (signal t) = et_lib t" "et_log (signal t) = et_log t"
  "in_flight (signal t) = in_flight t" "uncounted (signal t) = uncounted t"
  by (auto simp: signal_def in_flight_def uncounted_def)

lemma add_keeps_inv:
  assumes inv: "events_inv es t" and good: "good_event (l_hdl (et_lib t)) e" and sc: "\<not> scanning t"
    and add: "usbi_add_event_callback (\<lambda>_. True) (ev_devid e) (ev_type e) (ev_handle e) (et_lib t) =
      Some ((), s')"
  shows "events_inv (es @ [e]) (signal (t\<lparr>et_lib := s'\<rparr>)) \<and> l_hdl s' = l_hdl (et_lib t)"
proof -
  let ?s = "et_lib t"
  have q: "queue_ok ?s" using inv by (simp add: events_inv_def)
  have s': "s' = queued (ev_devid e) (ev_type e) [ev_handle e] ?s"
    using add add_event_callback_run [of ?s "ev_handle e"] good q
    by (auto simp: good_event_def queue_ok_def)
  then have ls: "l_events s' = l_events ?s @ [l_next ?s]" "l_next s' = Suc (l_next ?s)"
    and le: "l_event s' = (l_event ?s)(l_next ?s \<mapsto> e)"
    by (cases e; simp add: queued_def ev_heap_single)+
  have "queue_ok s'"
    using q good ls le s' by (auto simp: queue_ok_def good_event_def dest: less_SucI)
  moreover have "cursor_ok (signal (t\<lparr>et_lib := s'\<rparr>))"
  proof -
    have "n = 0 \<or> n = first_of (l_events ?s) \<Longrightarrow> n = 0 \<or> n = first_of (l_events s')" for n
      using ls(1) first_of_append [of "l_events ?s"] by (cases "l_events ?s") (auto simp: first_of_def)
    then show ?thesis using inv sc ls le s'
      by (auto simp: events_inv_def cursor_ok_def scanning_def signal_def Let_def split: pc.splits)
  qed
  moreover have "pending s' = pending ?s @ [e]"
    using pending_queued [of ?s "ev_devid e" "ev_type e" "[ev_handle e]"] q s'
    by (simp add: queue_ok_def)
  moreover have "in_flight (t\<lparr>et_lib := s'\<rparr>) = in_flight t" "uncounted (t\<lparr>et_lib := s'\<rparr>) = uncounted t"
    by (simp_all add: in_flight_def uncounted_def)
  ultimately show ?thesis
    using inv ls s' by (simp add: events_inv_def)
qed

lemma event_step_inv:
  assumes "event_step t l t'" "events_inv es t"
    and "\<And>e. l = Add e \<Longrightarrow> good_event (l_hdl (et_lib t)) e"
  shows "events_inv (es @ added [l]) t' \<and> l_hdl (et_lib t') = l_hdl (et_lib t)"
  using assms
proof (induction rule: event_step.induct)
  case (step_thread t t')
  then show ?case using thread_keeps_inv thread_step_hdl by simp
next
  case (step_add t e s')
  then show ?case using add_keeps_inv by simp
next
  case (step_exit t)
  then show ?case
    by (auto simp: events_inv_def cursor_ok_def queue_ok_def pending_def signal_def in_flight_def
        uncounted_def Let_def split: pc.splits)
next
  case (step_spurious t)
  then show ?case
    by (auto simp: events_inv_def cursor_ok_def in_flight_def uncounted_def Let_def)
qed

lemma event_run_inv:
  assumes "event_run t ls t'" "events_inv [] t" "\<forall>e \<in> set (added ls). good_event (l_hdl (et_lib t)) e"
  shows "events_inv (added ls) t' \<and> l_hdl (et_lib t') = l_hdl (et_lib t)"
  using assms
proof (induction rule: event_run.induct)
  case (run_snoc t ls t' l t'')
  then have "events_inv (added ls) t'" "l_hdl (et_lib t') = l_hdl (et_lib t)" by auto
  with event_step_inv [OF run_snoc.hyps(2)] run_snoc.prems(2) show ?case
    by (cases l) auto
qed simp

lemma inv_no_fault: "events_inv es t \<Longrightarrow> thread_step t \<noteq> None"
  using first_of_mem [of "l_events (et_lib t)"]
  by (cases "et_pc t")
    (auto simp: thread_step.simps Let_def events_inv_def cursor_ok_def queue_ok_def rd_Some
      split: prod.split)

text \<open>The thread, once it is created on an empty queue.\<close>

definition thread_start :: "lib \<Rightarrow> event_thread" where
  "thread_start s = \<lparr>et_lib = s, et_pc = Top, et_log = []\<rparr>"

lemma start_inv: "queue_ok s \<Longrightarrow> l_events s = [] \<Longrightarrow> l_queue_full s = 0 \<Longrightarrow> events_inv [] (thread_start s)"
  by (simp add: events_inv_def thread_start_def cursor_ok_def uncounted_def in_flight_def pending_def)


section \<open>Draining the queue\<close>

definition moves :: "event_thread \<Rightarrow> event_thread \<Rightarrow> bool" where
  "moves t t' \<longleftrightarrow> thread_step t = Some (Some t')"

definition work :: "event_thread \<Rightarrow> nat" where
  "work t = 8 * length (l_events (et_lib t)) + (case et_pc t of
      Top \<Rightarrow> 4 | Woken \<Rightarrow> 4 | Scan n \<Rightarrow> if n = 0 then 5 else 3 | Calling _ _ _ _ _ _ _ \<Rightarrow> 7
    | Called _ _ \<Rightarrow> 6 | _ \<Rightarrow> 0)"

definition busy :: "event_thread \<Rightarrow> bool" where
  "busy t \<longleftrightarrow> et_pc t \<noteq> Waiting \<and> et_pc t \<noteq> Exited \<and> (et_pc t = Woken \<longrightarrow> \<not> l_exit (et_lib t))"

lemma busy_moves:
  assumes "events_inv es t" "busy t"
  shows "\<exists>t'. moves t t' \<and> work t' < work t \<and> l_exit (et_lib t') = l_exit (et_lib t) \<and>
     (et_pc t' = Waiting \<or> busy t')"
proof -
  have "thread_step t \<noteq> None" "thread_step t \<noteq> Some None"
    using inv_no_fault [OF assms(1)] assms(2)
    by (auto simp: busy_def thread_step.simps Let_def split: pc.split_asm if_split_asm
        prod.split_asm elim!: bind_SomeE)
  then obtain t' where t': "thread_step t = Some (Some t')" by auto
  from t' have "work t' < work t \<and> l_exit (et_lib t') = l_exit (et_lib t) \<and>
     (et_pc t' = Waiting \<or> busy t')"
  proof (cases rule: thread_stepE)
    case look
    show ?thesis
    proof (cases "l_queue_full (et_lib t) = 0")
      case False
      with look assms(1) have "l_events (et_lib t) \<noteq> []"
        by (auto simp: events_inv_def uncounted_def)
      moreover have "first_of (l_events (et_lib t)) \<noteq> 0" if "l_events (et_lib t) \<noteq> []"
        using assms(1) that by (cases "l_events (et_lib t)") (auto simp: events_inv_def queue_ok_def first_of_def)
      ultimately show ?thesis using look False
        by (auto simp: work_def busy_def check_queue_def)
    qed (use look in \<open>auto simp: work_def busy_def check_queue_def\<close>)
  next
    case (take cb ev h func arg)
    then have "cb \<in> set (l_events (et_lib t))"
      using assms(1) first_of_mem [of "l_events (et_lib t)"]
      by (auto simp: events_inv_def cursor_ok_def Let_def)
    then have "Suc (length (remove1 cb (l_events (et_lib t)))) = length (l_events (et_lib t))"
      by (metis length_pos_if_in_set length_remove1 Suc_diff_1)
    then show ?thesis using take by (simp add: work_def busy_def)
  qed (use assms(2) in \<open>auto simp: work_def busy_def\<close>)
  then show ?thesis using t' by (auto simp: moves_def)
qed

lemma waiting_empty:
  assumes "events_inv es t" "et_pc t = Waiting"
  shows "l_events (et_lib t) = [] \<and> et_log t = es"
  using assms by (auto simp: events_inv_def cursor_ok_def uncounted_def in_flight_def pending_def Let_def)

lemma drain:
  assumes "events_inv es t" "busy t"
  shows "\<exists>t'. moves\<^sup>*\<^sup>* t t' \<and> et_pc t' = Waiting \<and> l_events (et_lib t') = [] \<and> et_log t' = es \<and>
     l_exit (et_lib t') = l_exit (et_lib t)"
  using assms
proof (induction "work t" arbitrary: t rule: less_induct)
  case less
  from busy_moves [OF less.prems] obtain t' where
    t': "moves t t'" "work t' < work t" "l_exit (et_lib t') = l_exit (et_lib t)"
      "et_pc t' = Waiting \<or> busy t'" by blast
  have inv: "events_inv es t'" using thread_keeps_inv less.prems(1) t'(1) by (simp add: moves_def)
  show ?case
  proof (cases "et_pc t' = Waiting")
    case True
    with waiting_empty [OF inv] t' show ?thesis by blast
  next
    case False
    then obtain u where "moves\<^sup>*\<^sup>* t' u" "et_pc u = Waiting" "l_events (et_lib u) = []"
      "et_log u = es" "l_exit (et_lib u) = l_exit (et_lib t')"
      using less.hyps [OF t'(2) inv] t'(4) by auto
    then show ?thesis using t'(1,3) by (metis converse_rtranclp_into_rtranclp)
  qed
qed


text \<open>
  A request to end is lost when it comes while the thread is not waiting, for example
  in a callback: usbi_fini_common sets the flag and signals, the thread does not look at the
  flag before it has waited again, and so it goes to wait with the flag set and an empty
  queue. There it stays: pthread_join in openusb_fini does not return.
\<close>

theorem exit_request_lost:
  assumes "event_run (thread_start s) ls t"
    and "queue_ok s" "l_events s = []" "l_queue_full s = 0"
    and "\<forall>e \<in> set (added ls). good_event (l_hdl s) e"
    and "et_pc t \<notin> {Waiting, Woken, Exited}" "event_step t Ask_exit t'"
  shows "\<exists>u. moves\<^sup>*\<^sup>* t' u \<and> l_exit (et_lib u) \<and> thread_step u = Some None \<and> et_pc u = Waiting"
proof -
  have "event_run (thread_start s) (ls @ [Ask_exit]) t'"
    using assms(1,7) by (rule run_snoc)
  then have inv: "events_inv (added ls) t'"
    using event_run_inv [OF _ start_inv [OF assms(2-4)]] assms(5) by (fastforce simp: thread_start_def)
  have "t' = t\<lparr>et_lib := (et_lib t)\<lparr>l_exit := True\<rparr>\<rparr>"
    using assms(6,7) by (auto simp: event_step_Ask_exit signal_def)
  then have "busy t'" "l_exit (et_lib t')" using assms(6) by (auto simp: busy_def)
  from drain [OF inv this(1)] this(2) show ?thesis
    by (auto simp: thread_step.simps Let_def)
qed

end
