(* ===== verification/LibInit.thy ===== *)
theory LibInit
  imports LibBus
begin

text \<open>
  Starting and ending the library (usb.c): the backends, the initialisation that all
  instances share, library handles, openusb_init and openusb_fini, and the settings of a
  handle.
\<close>

section \<open>The environment\<close>

text \<open>
  What the operating system answers: the environment variables (OPENUSB_DEBUG already read
  by atoi), whether a mutex can be initialised, the result of pthread_create, directory
  listings, dlopen (0 is NULL) and dlsym, and calloc.
\<close>

record env =
  en_debug :: "u32 option"
  en_mutex :: "lock \<Rightarrow> bool"
  en_create :: int
  en_driver_path :: string
  en_backend_path :: "string option"
  en_dir :: "string \<Rightarrow> string list option"
  en_dlopen :: "string \<Rightarrow> nat"
  en_dlsym :: "nat \<Rightarrow> nat option"
  en_alloc :: "addr \<Rightarrow> bool"

section \<open>Backends\<close>

text \<open>
  dlclose of an invalid handle returns an error, which is ignored. PATH_MAX is 4096.
\<close>

definition load_backend :: "env \<Rightarrow> (nat \<Rightarrow> 'a lib_scheme backend_ops) \<Rightarrow> string \<Rightarrow> ('a lib_scheme, int) op" where
  "load_backend e B filepath s = (let handle = en_dlopen e filepath in
     if handle = 0 then Some (1, s)
     else (case en_dlsym e handle of
        None \<Rightarrow> Some (1, s)
      | Some ops \<Rightarrow>
          (let io_pattern = bo_io_pattern (B ops) in
           if io_pattern > PATTERN_BOTH \<or> io_pattern < PATTERN_ASYNC then Some (1, s)
           else if bo_version (B ops) \<noteq> 1 then Some (1, s)
           else (let (backend, s) = fresh (en_alloc e) s in
             if backend = 0 then Some (1, s)
             else Some (0, s\<lparr>l_backend := (l_backend s)(backend \<mapsto>
                       \<lparr>bk_filepath = take 4096 filepath, bk_handle = handle, bk_ops = ops\<rparr>),
                    l_backends := ls_add backend (l_backends s)\<rparr>)))))"

definition backend_name :: "string \<Rightarrow> bool" where
  "backend_name d_name \<longleftrightarrow> 3 \<le> length d_name \<and> take 3 d_name \<noteq> ''lib'' \<and>
     drop (length d_name - 3) d_name = ''.so''"

fun load_entries :: "env \<Rightarrow> (nat \<Rightarrow> 'a lib_scheme backend_ops) \<Rightarrow> string \<Rightarrow> string list \<Rightarrow> int \<Rightarrow>
    ('a lib_scheme, int) op" where
  "load_entries e B dirpath [] err_load s = Some (err_load, s)"
| "load_entries e B dirpath (d # ds) err_load s =
     (if \<not> backend_name d then load_entries e B dirpath ds err_load s
      else do {
        let filepath = take 4095 (dirpath @ ''/'' @ d);
        found \<leftarrow> list_find (\<lambda>b. bk_filepath b = filepath) (l_backend s) (l_backends s);
        (if found \<noteq> 0 then load_entries e B dirpath ds err_load s
         else do {
           (r, s) \<leftarrow> load_backend e B filepath s;
           load_entries e B dirpath ds (if r \<noteq> 0 then err_load + 1 else err_load) s
         })
      })"

definition load_backends :: "env \<Rightarrow> (nat \<Rightarrow> 'a lib_scheme backend_ops) \<Rightarrow> string \<Rightarrow> ('a lib_scheme, int) op" where
  "load_backends e B dirpath s = (case en_dir e dirpath of
      None \<Rightarrow> Some (-1, s)
    | Some entries \<Rightarrow> load_entries e B dirpath entries 0 s)"

section \<open>The common initialisation\<close>

definition clear_list :: "lock \<Rightarrow> 'a lib_scheme \<Rightarrow> 'a lib_scheme" where
  "clear_list k s = (case k of LkHandles \<Rightarrow> s\<lparr>l_handles := []\<rparr> | LkBuses \<Rightarrow> s\<lparr>l_buses := []\<rparr>
     | LkDevices \<Rightarrow> s\<lparr>l_devices := []\<rparr> | LkDevHandles \<Rightarrow> s\<lparr>l_dev_handles := []\<rparr>
     | LkEvents \<Rightarrow> s\<lparr>l_events := []\<rparr> | _ \<Rightarrow> s)"

definition usbi_list_init :: "env \<Rightarrow> lock \<Rightarrow> 'a lib_scheme \<Rightarrow> int \<times> 'a lib_scheme" where
  "usbi_list_init e k s = (let s = clear_list k s in
     if en_mutex e k then (0, s\<lparr>l_ready := insert k (l_ready s)\<rparr>)
     else (OPENUSB_SYS_FUNC_FAILURE, s))"

text \<open>Destroying a mutex that is not initialised or is held is undefined.\<close>

definition usbi_list_fini :: "lock \<Rightarrow> 'a lib_scheme \<Rightarrow> 'a lib_scheme option" where
  "usbi_list_fini k s = (if k \<in> l_ready s \<and> k \<notin> l_held s
     then Some (s\<lparr>l_ready := l_ready s - {k}\<rparr>) else None)"

fun fini_lists :: "lock list \<Rightarrow> 'a lib_scheme \<Rightarrow> 'a lib_scheme option" where
  "fini_lists [] s = Some s"
| "fini_lists (k # ks) s = do { s \<leftarrow> usbi_list_fini k s; fini_lists ks s }"

text \<open>
  The five lists are initialised one after the other; when one fails, those before it are
  finalised, the last one first.
\<close>

fun init_lists :: "env \<Rightarrow> lock list \<Rightarrow> lock list \<Rightarrow> ('a lib_scheme, int) op" where
  "init_lists e before [] s = Some (0, s)"
| "init_lists e before (k # ks) s = (let (ret, s) = usbi_list_init e k s in
     if ret < 0 then do { s \<leftarrow> fini_lists before s; Some (OPENUSB_SYS_FUNC_FAILURE, s) }
     else init_lists e (k # before) ks s)"

definition list_order :: "lock list" where
  "list_order = [LkHandles, LkBuses, LkDevices, LkDevHandles, LkEvents]"

text \<open>
  pthread_create returns 0 or a positive error number; then event_callback_thread is not a
  thread.
\<close>

definition usbi_init_common :: "env \<Rightarrow> (nat \<Rightarrow> 'a lib_scheme backend_ops) \<Rightarrow> ('a lib_scheme, int) op" where
  "usbi_init_common e B s = do {
     (ret, s) \<leftarrow> init_lists e [] list_order s;
     (if ret < 0 then Some (ret, s)
      else do {
        let s = s\<lparr>l_exit := False\<rparr>;
        let ret = en_create e;
        let s = s\<lparr>l_threads := l_threads s + (if ret = 0 then 1 else 0), l_thread_valid := (ret = 0)\<rparr>;
        (if ret < 0 then do {
           s \<leftarrow> fini_lists (rev list_order) s;
           Some (OPENUSB_SYS_FUNC_FAILURE, s)
         }
         else do {
           (_, s) \<leftarrow> load_backends e B (en_driver_path e) s;
           (_, s) \<leftarrow> (case en_backend_path e of None \<Rightarrow> Some (0, s) | Some p \<Rightarrow> load_backends e B p s);
           Some (if l_backends s = [] then OPENUSB_PLATFORM_FAILURE else OPENUSB_SUCCESS, s)
         })
      })
   }"

text \<open>
  pthread_join needs a thread; here it returns when the thread has seen the flag, which
  EventThread looks at.
\<close>

definition usbi_fini_common :: "'a lib_scheme \<Rightarrow> 'a lib_scheme option" where
  "usbi_fini_common s =
     (if \<not> l_thread_valid s then None
      else fini_lists (rev list_order) (s\<lparr>l_exit := False, l_thread_valid := False,
             l_threads := l_threads s - 1\<rparr>))"

section \<open>Handles\<close>

definition zero_handle :: usbi_handle where
  "zero_handle = \<lparr>hd_handle = 0, hd_debug_level = 0, hd_debug_flags = 0, hd_debug_cb = 0,
     hd_event_cbs = replicate OPENUSB_EVENT_TYPE_COUNT (0, 0), hd_coldplug_complete = False,
     hd_complete_list = [], hd_complete_count = 0, hd_timeout = replicate 5 0\<rparr>"

definition usbi_init_handle :: "env \<Rightarrow> ('a lib_scheme, addr) op" where
  "usbi_init_handle e s = (let (hdl, s) = fresh (en_alloc e) s in
     if hdl = 0 then Some (0, s)
     else if \<not> en_mutex e (LkHdl hdl) then Some (0, s)
     else do {
       let h = (case en_debug e of None \<Rightarrow> zero_handle | Some d \<Rightarrow> zero_handle\<lparr>hd_debug_level := d\<rparr>);
       s \<leftarrow> lock LkUsbi s;
       let h = h\<lparr>hd_handle := l_cur_handle s\<rparr>;
       let s = s\<lparr>l_cur_handle := l_cur_handle s + 1\<rparr>;
       s \<leftarrow> unlock LkUsbi s;
       s \<leftarrow> lock LkHandles s;
       let s = s\<lparr>l_hdl := (l_hdl s)(hdl \<mapsto> h), l_handles := ls_add hdl (l_handles s)\<rparr>;
       s \<leftarrow> unlock LkHandles s;
       Some (hdl, s)
     })"

definition usbi_destroy_handle :: "addr \<Rightarrow> ('a lib_scheme, unit) op" where
  "usbi_destroy_handle hdl s =
     (if hdl = 0 then Some ((), s)
      else do {
        s \<leftarrow> lock LkHandles s;
        _ \<leftarrow> l_hdl s hdl;
        let s = s\<lparr>l_handles := ls_del hdl (l_handles s)\<rparr>;
        s \<leftarrow> unlock LkHandles s;
        Some ((), s\<lparr>l_hdl := (l_hdl s)(hdl := None)\<rparr>)
      })"

section \<open>openusb_init and openusb_fini\<close>

text \<open>The loop over the backends: how many there are, and how many fail to start.\<close>

fun init_backends :: "(nat \<Rightarrow> 'a lib_scheme backend_ops) \<Rightarrow> addr \<Rightarrow> u32 \<Rightarrow> addr list \<Rightarrow> nat \<Rightarrow> nat \<Rightarrow>
    ('a lib_scheme, nat \<times> nat) op" where
  "init_backends B hdl flags [] back_cnt init_cnt s = Some ((back_cnt, init_cnt), s)"
| "init_backends B hdl flags (b # bs) back_cnt init_cnt s = do {
     be \<leftarrow> l_backend s b;
     (r, s) \<leftarrow> bo_init (B (bk_ops be)) hdl flags s;
     init_backends B hdl flags bs (back_cnt + 1) (if r \<noteq> 0 then init_cnt + 1 else init_cnt) s
   }"

text \<open>One instance less; the last one ends the common part. usbi_lock is held meanwhile.\<close>

definition drop_instance :: "('a lib_scheme, unit) op" where
  "drop_instance s = with_lock LkUsbi (\<lambda>s. do {
     let s = s\<lparr>l_inited := l_inited s - 1\<rparr>;
     s \<leftarrow> (if l_inited s = 0 then usbi_fini_common s else Some s);
     Some ((), s)
   }) s"

text \<open>openusb_init once the instance is counted: the handle, the backends, the devices.\<close>

definition start_handle :: "env \<Rightarrow> (nat \<Rightarrow> 'a lib_scheme backend_ops) \<Rightarrow> u32 \<Rightarrow>
    ('a lib_scheme, int \<times> u64) op" where
  "start_handle e B flags s = do {
     (hdl, s) \<leftarrow> usbi_init_handle e s;
     (if hdl = 0 then do {
        (_, s) \<leftarrow> drop_instance s;
        Some ((OPENUSB_SYS_FUNC_FAILURE, 0), s)
      }
      else do {
        ((back_cnt, init_cnt), s) \<leftarrow> init_backends B hdl flags (l_backends s) 0 0 s;
        (if back_cnt = init_cnt then do {
           (_, s) \<leftarrow> drop_instance s;
           _ \<leftarrow> l_hdl s hdl;
           Some ((OPENUSB_PLATFORM_FAILURE, 0), s\<lparr>l_hdl := (l_hdl s)(hdl := None)\<rparr>)
         }
         else do {
           (_, s) \<leftarrow> usbi_rescan_devices B s;
           h \<leftarrow> l_hdl s hdl;
           Some ((OPENUSB_SUCCESS, hd_handle h), s)
         })
      })
   }"

definition openusb_init :: "env \<Rightarrow> (nat \<Rightarrow> 'a lib_scheme backend_ops) \<Rightarrow> u32 \<Rightarrow> bool \<Rightarrow>
    ('a lib_scheme, int \<times> u64) op" where
  "openusb_init e B flags handle_null s =
     (if handle_null then Some ((OPENUSB_BADARG, 0), s)
      else do {
        s \<leftarrow> lock LkUsbi s;
        (ret, s) \<leftarrow> (if l_inited s = 0 then usbi_init_common e B s else Some (0, s));
        (if ret < 0 then do { s \<leftarrow> unlock LkUsbi s; Some ((ret, 0), s) }
         else do {
           let s = s\<lparr>l_inited := l_inited s + 1\<rparr>;
           s \<leftarrow> unlock LkUsbi s;
           start_handle e B flags s
         })
      })"

definition backend_fini :: "(nat \<Rightarrow> 'a lib_scheme backend_ops) \<Rightarrow> addr \<Rightarrow> addr \<Rightarrow> ('a lib_scheme, unit) op" where
  "backend_fini B hdl backend s = do {
     be \<leftarrow> l_backend s backend;
     (case bo_fini (B (bk_ops be)) of None \<Rightarrow> Some ((), s) | Some f \<Rightarrow> f hdl s)
   }"

text \<open>dlclose unloads the library; the structure of the backend is unlinked, not freed.\<close>

definition unload_backend :: "addr \<Rightarrow> ('a lib_scheme, unit) op" where
  "unload_backend backend s = do {
     be \<leftarrow> l_backend s backend;
     Some ((), s\<lparr>l_backends := ls_del backend (l_backends s)\<rparr>)
   }"

definition openusb_fini :: "(nat \<Rightarrow> 'a lib_scheme backend_ops) \<Rightarrow> u64 \<Rightarrow> ('a lib_scheme, unit) op" where
  "openusb_fini B handle s = do {
     (hdl, s) \<leftarrow> usbi_find_handle handle s;
     (if hdl = 0 then Some ((), s)
      else do {
        (_, s) \<leftarrow> list_iter (backend_fini B hdl) (l_backends s) s;
        (_, s) \<leftarrow> usbi_destroy_handle hdl s;
        (_, s) \<leftarrow> drop_instance s;
        (if l_inited s = 0 then list_iter unload_backend (l_backends s) s else Some ((), s))
      })
   }"

section \<open>Settings of a handle\<close>

definition usbi_coldplug_complete :: "addr \<Rightarrow> ('a lib_scheme, unit) op" where
  "usbi_coldplug_complete hdl s =
     (if hdl = 0 then Some ((), s)
      else do {
        s \<leftarrow> lock (LkHdl hdl) s;
        h \<leftarrow> l_hdl s hdl;
        let s = s\<lparr>l_hdl := (l_hdl s)(hdl \<mapsto> h\<lparr>hd_coldplug_complete := True\<rparr>)\<rparr>;
        s \<leftarrow> unlock (LkHdl hdl) s;
        Some ((), s)
      })"

definition openusb_set_event_callback :: "u64 \<Rightarrow> int \<Rightarrow> addr \<Rightarrow> addr \<Rightarrow> ('a lib_scheme, int) op" where
  "openusb_set_event_callback handle ty callback arg s = do {
     (hdl, s) \<leftarrow> usbi_find_handle handle s;
     (if hdl = 0 then Some (OPENUSB_INVALID_HANDLE, s)
      else if ty < 0 \<or> ty \<ge> int OPENUSB_EVENT_TYPE_COUNT then Some (OPENUSB_BADARG, s)
      else do {
        s \<leftarrow> lock (LkHdl hdl) s;
        h \<leftarrow> l_hdl s hdl;
        cbs \<leftarrow> wr (hd_event_cbs h) (nat ty) (callback, arg);
        let s = s\<lparr>l_hdl := (l_hdl s)(hdl \<mapsto> h\<lparr>hd_event_cbs := cbs\<rparr>)\<rparr>;
        s \<leftarrow> unlock (LkHdl hdl) s;
        (_, s) \<leftarrow> usbi_coldplug_complete hdl s;
        Some (OPENUSB_SUCCESS, s)
      })
   }"

definition openusb_set_debug :: "u64 \<Rightarrow> u32 \<Rightarrow> u32 \<Rightarrow> addr \<Rightarrow> ('a lib_scheme, unit) op" where
  "openusb_set_debug handle level flags callback s = do {
     (hdl, s) \<leftarrow> usbi_find_handle handle s;
     (if hdl = 0 then Some ((), s)
      else do {
        s \<leftarrow> lock (LkHdl hdl) s;
        h \<leftarrow> l_hdl s hdl;
        let h = (if callback \<noteq> 0 then h\<lparr>hd_debug_cb := callback\<rparr> else h);
        let s = s\<lparr>l_hdl := (l_hdl s)(hdl \<mapsto> h\<lparr>hd_debug_level := level, hd_debug_flags := flags\<rparr>)\<rparr>;
        s \<leftarrow> unlock (LkHdl hdl) s;
        Some ((), s)
      })
   }"

text \<open>for (i = USB_TYPE_CONTROL; i <= USB_TYPE_ISOCHRONOUS; i++).\<close>

fun set_timeouts :: "nat list \<Rightarrow> u32 \<Rightarrow> u32 list \<Rightarrow> u32 list option" where
  "set_timeouts [] t ts = Some ts"
| "set_timeouts (i # is) t ts = do { ts \<leftarrow> wr ts i t; set_timeouts is t ts }"

definition openusb_set_default_timeout :: "u64 \<Rightarrow> int \<Rightarrow> u32 \<Rightarrow> ('a lib_scheme, int) op" where
  "openusb_set_default_timeout handle ty timeout s = do {
     (hdl, s) \<leftarrow> usbi_find_handle handle s;
     (if hdl = 0 then Some (OPENUSB_INVALID_HANDLE, s)
      else if ty < 0 \<or> ty > USB_TYPE_ISOCHRONOUS then Some (OPENUSB_BADARG, s)
      else do {
        s \<leftarrow> lock (LkHdl hdl) s;
        h \<leftarrow> l_hdl s hdl;
        ts \<leftarrow> set_timeouts (if ty = USB_TYPE_ALL then [1, 2, 3, 4] else [nat ty]) timeout (hd_timeout h);
        let s = s\<lparr>l_hdl := (l_hdl s)(hdl \<mapsto> h\<lparr>hd_timeout := ts\<rparr>)\<rparr>;
        s \<leftarrow> unlock (LkHdl hdl) s;
        Some (OPENUSB_SUCCESS, s)
      })
   }"

text \<open>
  openusb_coldplug_callbacks_done (api.c) waits for the flag: None inside means that it
  blocks in pthread_cond_wait.
\<close>

definition openusb_coldplug_callbacks_done :: "u64 \<Rightarrow> 'a lib_scheme \<Rightarrow> (unit \<times> 'a lib_scheme) option option" where
  "openusb_coldplug_callbacks_done handle s = do {
     (hdl, s) \<leftarrow> usbi_find_handle handle s;
     (if hdl = 0 then Some (Some ((), s))
      else do {
        s \<leftarrow> lock (LkHdl hdl) s;
        h \<leftarrow> l_hdl s hdl;
        (if hd_coldplug_complete h then do {
           s \<leftarrow> unlock (LkHdl hdl) (s\<lparr>l_hdl := (l_hdl s)(hdl \<mapsto> h\<lparr>hd_coldplug_complete := False\<rparr>)\<rparr>);
           Some (Some ((), s))
         }
         else Some None)
      })
   }"

section \<open>What load_backends loads\<close>

definition loads :: "env \<Rightarrow> (nat \<Rightarrow> 'a lib_scheme backend_ops) \<Rightarrow> string \<Rightarrow> bool" where
  "loads e B f \<longleftrightarrow> en_dlopen e f \<noteq> 0 \<and> (\<exists>ops. en_dlsym e (en_dlopen e f) = Some ops \<and>
     PATTERN_ASYNC \<le> bo_io_pattern (B ops) \<and> bo_io_pattern (B ops) \<le> PATTERN_BOTH \<and>
     bo_version (B ops) = 1)"

definition backends_ok :: "'a lib_scheme \<Rightarrow> bool" where
  "backends_ok s \<longleftrightarrow> 0 < l_next s \<and> (\<forall>p \<in> set (l_backends s). 0 < p \<and> p < l_next s \<and> l_backend s p \<noteq> None)"

definition backend_paths :: "'a lib_scheme \<Rightarrow> string list" where
  "backend_paths s = map (bk_filepath \<circ> the \<circ> l_backend s) (l_backends s)"

lemma load_backend_ok:
  assumes "0 < l_next s" "\<forall>n. en_alloc e n" "length f \<le> 4096" "loads e B f"
  shows "\<exists>be. load_backend e B f s = Some (0, s\<lparr>l_next := l_next s + 1,
       l_backend := (l_backend s)(l_next s \<mapsto> be), l_backends := l_backends s @ [l_next s]\<rparr>) \<and>
       bk_filepath be = f \<and> en_dlsym e (en_dlopen e f) = Some (bk_ops be)"
proof -
  from assms(4) obtain ops where "en_dlopen e f \<noteq> 0" "en_dlsym e (en_dlopen e f) = Some ops"
     "PATTERN_ASYNC \<le> bo_io_pattern (B ops)" "bo_io_pattern (B ops) \<le> PATTERN_BOTH"
     "bo_version (B ops) = 1" by (auto simp: loads_def)
  then show ?thesis using assms(1-3)
    by (intro exI [of _ "\<lparr>bk_filepath = f, bk_handle = en_dlopen e f, bk_ops = ops\<rparr>"])
      (simp add: load_backend_def Let_def fresh_def ls_add_def)
qed

lemma load_backend_fail:
  assumes "\<not> loads e B f"
  shows "load_backend e B f s = Some (1, s)"
proof (cases "en_dlopen e f = 0")
  case False
  then show ?thesis
  proof (cases "en_dlsym e (en_dlopen e f)")
    case (Some ops)
    with False assms have "bo_io_pattern (B ops) > PATTERN_BOTH \<or> bo_io_pattern (B ops) < PATTERN_ASYNC \<or>
        bo_version (B ops) \<noteq> 1" by (auto simp: loads_def)
    then show ?thesis using False Some by (auto simp: load_backend_def Let_def)
  qed (simp add: load_backend_def)
qed (simp add: load_backend_def)

definition backend_file :: "string \<Rightarrow> string \<Rightarrow> string" where
  "backend_file dirpath d = dirpath @ ''/'' @ d"

lemma found_iff:
  assumes "backends_ok s"
  shows "list_find (\<lambda>b. bk_filepath b = f) (l_backend s) (l_backends s) =
     Some (if f \<in> set (backend_paths s) then the (find (\<lambda>p. bk_filepath (the (l_backend s p)) = f) (l_backends s)) else 0)"
    and "f \<in> set (backend_paths s) \<Longrightarrow>
       the (find (\<lambda>p. bk_filepath (the (l_backend s p)) = f) (l_backends s)) \<noteq> 0"
proof -
  have al: "\<forall>p \<in> set (l_backends s). l_backend s p \<noteq> None" using assms by (simp add: backends_ok_def)
  have iff: "find (\<lambda>p. bk_filepath (the (l_backend s p)) = f) (l_backends s) = None \<longleftrightarrow>
      f \<notin> set (backend_paths s)"
    by (auto simp: find_None_iff backend_paths_def)
  then show "list_find (\<lambda>b. bk_filepath b = f) (l_backend s) (l_backends s) =
     Some (if f \<in> set (backend_paths s) then the (find (\<lambda>p. bk_filepath (the (l_backend s p)) = f) (l_backends s)) else 0)"
    using list_find_spec [OF al, of "\<lambda>b. bk_filepath b = f"] by (auto split: option.split)
  show "f \<in> set (backend_paths s) \<Longrightarrow>
       the (find (\<lambda>p. bk_filepath (the (l_backend s p)) = f) (l_backends s)) \<noteq> 0"
  proof -
    assume "f \<in> set (backend_paths s)"
    with iff obtain p where "find (\<lambda>p. bk_filepath (the (l_backend s p)) = f) (l_backends s) = Some p" by auto
    moreover from this have "p \<in> set (l_backends s)" by (auto simp: find_Some_iff)
    ultimately show ?thesis using assms by (auto simp: backends_ok_def)
  qed
qed

lemma load_entries_run:
  assumes "backends_ok s" "\<forall>n. en_alloc e n"
    and "distinct ds" "\<forall>d \<in> set ds. length (backend_file dir d) \<le> 4095"
    and "\<forall>d \<in> set ds. backend_file dir d \<notin> set (backend_paths s)"
  shows "\<exists>s'. load_entries e B dir ds err s = Some
       (err + int (length [d \<leftarrow> ds. backend_name d \<and> \<not> loads e B (backend_file dir d)]), s') \<and>
     backends_ok s' \<and> backend_paths s' = backend_paths s @
       map (backend_file dir) [d \<leftarrow> ds. backend_name d \<and> loads e B (backend_file dir d)] \<and>
     (\<forall>p \<in> set (l_backends s') - set (l_backends s). en_dlsym e (en_dlopen e (bk_filepath (the (l_backend s' p)))) =
        Some (bk_ops (the (l_backend s' p)))) \<and>
     set (l_backends s) \<subseteq> set (l_backends s') \<and> (\<forall>p \<in> set (l_backends s). l_backend s' p = l_backend s p) \<and>
     (\<exists>n h bs. s' = s\<lparr>l_next := n, l_backend := h, l_backends := bs\<rparr>)"
  using assms
proof (induction ds arbitrary: s err)
  case Nil
  have "\<exists>n h bs. s = s\<lparr>l_next := n, l_backend := h, l_backends := bs\<rparr>"
    by (rule exI [of _ "l_next s"], rule exI [of _ "l_backend s"], rule exI [of _ "l_backends s"]) simp
  then show ?case using Nil(1) by simp
next
  case (Cons d ds)
  let ?f = "backend_file dir d"
  have f: "length ?f \<le> 4095" "take 4095 (dir @ CHR ''/'' # d) = ?f" "?f \<notin> set (backend_paths s)"
    using Cons.prems(4,5) by (auto simp: backend_file_def)
  note nf = found_iff(1) [OF Cons.prems(1), of ?f]
  show ?case
  proof (cases "backend_name d")
    case False
    then show ?thesis using Cons.IH [OF Cons.prems(1,2), of err] Cons.prems by simp
  next
    case nm: True
    show ?thesis
    proof (cases "loads e B ?f")
      case False
      then have "load_backend e B ?f s = Some (1, s)"
        by (rule load_backend_fail)
      then show ?thesis
        using Cons.IH [OF Cons.prems(1,2), of "err + 1"] Cons.prems nm f nf False
        by (simp add: Let_def algebra_simps)
    next
      case True
      then obtain be where be: "load_backend e B ?f s = Some (0, s\<lparr>l_next := l_next s + 1,
         l_backend := (l_backend s)(l_next s \<mapsto> be), l_backends := l_backends s @ [l_next s]\<rparr>)"
         "bk_filepath be = ?f" "en_dlsym e (en_dlopen e ?f) = Some (bk_ops be)"
        using load_backend_ok [OF _ Cons.prems(2) _ True, of s] Cons.prems(1) f(1)
        by (auto simp: backends_ok_def)
      define s1 where "s1 = s\<lparr>l_next := l_next s + 1,
         l_backend := (l_backend s)(l_next s \<mapsto> be), l_backends := l_backends s @ [l_next s]\<rparr>"
      have ok1: "backends_ok s1" using Cons.prems(1) by (auto simp: backends_ok_def s1_def)
      have pre: "p \<noteq> l_next s" if "p \<in> set (l_backends s)" for p
        using Cons.prems(1) that by (auto simp: backends_ok_def)
      then have p1: "backend_paths s1 = backend_paths s @ [?f]"
        using be(2) by (auto simp: backend_paths_def s1_def)
      have "\<forall>d' \<in> set ds. backend_file dir d' \<notin> set (backend_paths s1)"
        using Cons.prems(3,5) p1 by (auto simp: backend_file_def)
      then obtain s' where s': "load_entries e B dir ds err s1 = Some
         (err + int (length [d \<leftarrow> ds. backend_name d \<and> \<not> loads e B (backend_file dir d)]), s')"
         "backends_ok s'" "backend_paths s' = backend_paths s1 @
           map (backend_file dir) [d \<leftarrow> ds. backend_name d \<and> loads e B (backend_file dir d)]"
         "\<forall>p \<in> set (l_backends s') - set (l_backends s1). en_dlsym e (en_dlopen e (bk_filepath (the (l_backend s' p)))) =
            Some (bk_ops (the (l_backend s' p)))"
         "set (l_backends s1) \<subseteq> set (l_backends s')" "\<forall>p \<in> set (l_backends s1). l_backend s' p = l_backend s1 p"
         "\<exists>n h bs. s' = s1\<lparr>l_next := n, l_backend := h, l_backends := bs\<rparr>"
        using Cons.IH [OF ok1 Cons.prems(2), of err] Cons.prems(3,4) by auto
      have "l_backend s' (l_next s) = Some be" using s'(6) by (simp add: s1_def)
      then have dl: "\<forall>p \<in> set (l_backends s') - set (l_backends s).
          en_dlsym e (en_dlopen e (bk_filepath (the (l_backend s' p)))) = Some (bk_ops (the (l_backend s' p)))"
        using s'(4) be(2,3) by (auto simp: s1_def)
      have "\<exists>n h bs. s' = s\<lparr>l_next := n, l_backend := h, l_backends := bs\<rparr>"
        using s'(7) by (auto simp: s1_def)
      moreover have "load_entries e B dir (d # ds) err s = load_entries e B dir ds err s1"
        using nm f nf be(1) by (simp add: Let_def s1_def)
      moreover have "\<forall>p \<in> set (l_backends s). l_backend s' p = l_backend s p"
        using s'(6) pre by (simp add: s1_def)
      moreover have "set (l_backends s) \<subseteq> set (l_backends s')" using s'(5) by (simp add: s1_def)
      ultimately show ?thesis using s'(1,2,3) p1 nm True dl by simp
    qed
  qed
qed

text \<open>Loading a directory of backends. Of the entries of the directory, exactly those are
  loaded that have a name of the form !(lib)*.so and whose library opens, exports
  backend_ops, has a valid I/O pattern and version 1; they are put on the list in the order
  of the directory, and the result is the number of entries with such a name that failed.
\<close>

theorem load_backends_spec:
  assumes "backends_ok s" "\<forall>n. en_alloc e n" "en_dir e dir = Some ds" "distinct ds"
    and "\<forall>d \<in> set ds. length (backend_file dir d) \<le> 4095 \<and> backend_file dir d \<notin> set (backend_paths s)"
  shows "\<exists>s'. load_backends e B dir s = Some
       (int (length [d \<leftarrow> ds. backend_name d \<and> \<not> loads e B (backend_file dir d)]), s') \<and>
     backend_paths s' = backend_paths s @
       map (backend_file dir) [d \<leftarrow> ds. backend_name d \<and> loads e B (backend_file dir d)]"
  using load_entries_run [of s e ds dir B 0] assms by (auto simp: load_backends_def)

section \<open>The table of handles\<close>

definition handles_ok :: "'a lib_scheme \<Rightarrow> bool" where
  "handles_ok s \<longleftrightarrow> l_held s = {} \<and> l_inited s \<noteq> 0 \<and> 0 < l_next s \<and>
     table_ok hd_handle (l_cur_handle s) (l_hdl s) (l_handles s) \<and>
     (\<forall>p \<in> set (l_handles s). p < l_next s)"

definition hdl_tab :: "'a lib_scheme \<Rightarrow> u64 \<Rightarrow> addr option" where
  "hdl_tab s = table_get hd_handle (l_hdl s) (l_handles s)"

lemma find_handle_run:
  assumes "handles_ok s"
  shows "usbi_find_handle k s = Some (case hdl_tab s k of None \<Rightarrow> 0 | Some p \<Rightarrow> p, s)"
proof -
  have "list_find (\<lambda>h. hd_handle h = k) (l_hdl s) (l_handles s) =
      Some (case hdl_tab s k of None \<Rightarrow> 0 | Some p \<Rightarrow> p)"
    using list_find_spec [of "l_handles s" "l_hdl s"] assms
    by (auto simp: handles_ok_def hdl_tab_def table_get_def dest: table_ok_heap)
  then show ?thesis using assms
    by (simp add: usbi_find_handle_def handles_ok_def lock_def unlock_def held_same)
qed

text \<open>The handle that is created next, and the state after its creation.\<close>

definition new_handle :: "env \<Rightarrow> 'a lib_scheme \<Rightarrow> usbi_handle" where
  "new_handle e s = (case en_debug e of None \<Rightarrow> zero_handle
      | Some d \<Rightarrow> zero_handle\<lparr>hd_debug_level := d\<rparr>)\<lparr>hd_handle := l_cur_handle s\<rparr>"

definition opened :: "env \<Rightarrow> 'a lib_scheme \<Rightarrow> 'a lib_scheme" where
  "opened e s = s\<lparr>l_next := l_next s + 1, l_cur_handle := l_cur_handle s + 1,
     l_hdl := (l_hdl s)(l_next s \<mapsto> new_handle e s), l_handles := l_handles s @ [l_next s]\<rparr>"

lemma init_handle_run:
  assumes "l_held s = {}" "0 < l_next s" "en_alloc e (l_next s)" "en_mutex e (LkHdl (l_next s))"
  shows "usbi_init_handle e s = Some (l_next s, opened e s)"
  using assms by (simp add: usbi_init_handle_def fresh_def Let_def lock_def unlock_def ls_add_def
      opened_def new_handle_def held_same)

lemma destroy_handle_run:
  assumes "l_held s = {}" "p \<noteq> 0" "l_hdl s p \<noteq> None"
  shows "usbi_destroy_handle p s = Some ((), s\<lparr>l_handles := remove1 p (l_handles s),
     l_hdl := (l_hdl s)(p := None)\<rparr>)"
  using assms by (auto simp: usbi_destroy_handle_def Let_def lock_def unlock_def ls_del_def held_same)

lemma opened_ok:
  assumes "handles_ok s" "l_cur_handle s < l_cur_handle s + 1"
  shows "handles_ok (opened e s)" and "hdl_tab (opened e s) = (hdl_tab s)(l_cur_handle s \<mapsto> l_next s)"
proof -
  have t: "table_ok hd_handle (l_cur_handle s) (l_hdl s) (l_handles s)"
    and p: "l_next s \<notin> set (l_handles s)" "l_next s \<noteq> 0"
    using assms(1) by (auto simp: handles_ok_def)
  have k: "hd_handle (new_handle e s) = l_cur_handle s" by (simp add: new_handle_def)
  note add = table_add [OF t p k assms(2)]
  from add(1) show "handles_ok (opened e s)" using assms(1)
    by (auto simp: handles_ok_def opened_def less_Suc_eq)
  from add(2) show "hdl_tab (opened e s) = (hdl_tab s)(l_cur_handle s \<mapsto> l_next s)"
    by (simp add: hdl_tab_def opened_def)
qed

definition closed :: "addr \<Rightarrow> 'a lib_scheme \<Rightarrow> 'a lib_scheme" where
  "closed p s = s\<lparr>l_handles := remove1 p (l_handles s), l_hdl := (l_hdl s)(p := None)\<rparr>"

lemma closed_ok:
  assumes ok: "handles_ok s" and k: "hdl_tab s k = Some p"
  shows "handles_ok (closed p s)" and "hdl_tab (closed p s) = (hdl_tab s)(k := None)"
    and "l_hdl s p \<noteq> None" and "p \<noteq> 0"
proof -
  have t: "table_ok hd_handle (l_cur_handle s) (l_hdl s) (l_handles s)"
    using ok by (simp add: handles_ok_def)
  then obtain h where h: "p \<in> set (l_handles s)" "l_hdl s p = Some h" "hd_handle h = k"
    using k by (auto simp: hdl_tab_def table_get_Some)
  note del = table_del [OF t h(1,2)]
  from del(1) ok show "handles_ok (closed p s)"
    by (auto simp: handles_ok_def closed_def dest: notin_set_remove1)
  from del(2) h(3) show "hdl_tab (closed p s) = (hdl_tab s)(k := None)"
    by (simp add: hdl_tab_def closed_def)
  show "l_hdl s p \<noteq> None" using h(2) by simp
  show "p \<noteq> 0" using t h(1) by (cases "p = 0") (simp_all add: table_ok_def)
qed

interpretation handles: id_table handles_ok hdl_tab l_cur_handle
  "\<lambda>s p. p = l_next s \<and> en_alloc e p \<and> en_mutex e (LkHdl p)"
  usbi_find_handle "\<lambda>p s. map_option (\<lambda>(r, s'). ((), s')) (usbi_init_handle e s)"
  usbi_destroy_handle for e
proof (unfold_locales, goal_cases)
  case (1 s k)
  then show ?case by (rule find_handle_run)
next
  case (2 s k p)
  then show ?case unfolding handles_ok_def hdl_tab_def by (elim conjE) (rule table_get_bound)
next
  case (3 s p)
  then have "usbi_init_handle e s = Some (p, opened e s)"
    using init_handle_run [of s e] by (auto simp: handles_ok_def)
  then show ?case using opened_ok [OF 3(1,3)] 3(2) by (simp) (simp add: opened_def)
next
  case (4 s k p)
  then show ?case using closed_ok [OF 4] destroy_handle_run [of s p]
    by (simp add: handles_ok_def closed_def)
qed

section \<open>openusb_init and openusb_fini\<close>

text \<open>
  Between two calls of the library no mutex is held and the entries of the lists of backends
  and buses are there. What a backend leaves alone then: the handles, the identifiers, the
  locks and the list of backends.
\<close>

definition at_rest :: "'a lib_scheme \<Rightarrow> bool" where
  "at_rest s \<longleftrightarrow> l_held s = {} \<and> (\<forall>b \<in> set (l_backends s). l_backend s b \<noteq> None) \<and>
     (\<forall>p \<in> set (l_buses s). l_bus s p \<noteq> None)"

definition keeps :: "'a lib_scheme \<Rightarrow> 'a lib_scheme \<Rightarrow> bool" where
  "keeps s s' \<longleftrightarrow> l_held s' = l_held s \<and> l_inited s' = l_inited s \<and> l_next s \<le> l_next s' \<and>
     l_hdl s' = l_hdl s \<and> l_handles s' = l_handles s \<and> l_cur_handle s' = l_cur_handle s \<and>
     l_backends s' = l_backends s \<and> l_backend s' = l_backend s \<and>
     l_ready s' = l_ready s \<and> l_thread_valid s' = l_thread_valid s \<and> l_threads s' = l_threads s \<and>
     (at_rest s \<longrightarrow> at_rest s')"

lemma keeps_refl [simp]: "keeps s s" and keeps_trans: "keeps s t \<Longrightarrow> keeps t u \<Longrightarrow> keeps s u"
  by (auto simp: keeps_def)

definition well_behaved :: "('a lib_scheme, 'r) op \<Rightarrow> bool" where
  "well_behaved f \<longleftrightarrow> (\<forall>s. at_rest s \<longrightarrow> (\<exists>r s'. f s = Some (r, s') \<and> keeps s s'))"

lemma well_behavedE:
  assumes "well_behaved f" "at_rest s"
  obtains r s' where "f s = Some (r, s')" "keeps s s'"
  using assms unfolding well_behaved_def by blast

lemma keeps_handles_ok: "keeps s s' \<Longrightarrow> handles_ok s \<Longrightarrow> handles_ok s' \<and> hdl_tab s' = hdl_tab s"
  by (auto simp: keeps_def handles_ok_def hdl_tab_def)

text \<open>ok says which of the backends start.\<close>

definition backends_answer :: "(nat \<Rightarrow> 'a lib_scheme backend_ops) \<Rightarrow> u32 \<Rightarrow> (addr \<Rightarrow> bool) \<Rightarrow> 'a lib_scheme \<Rightarrow> bool" where
  "backends_answer B flags ok s \<longleftrightarrow> (\<forall>b \<in> set (l_backends s). \<exists>be. l_backend s b = Some be \<and>
     (\<forall>p. well_behaved (bo_init (B (bk_ops be)) p flags)) \<and>
     (\<forall>p t r t'. bo_init (B (bk_ops be)) p flags t = Some (r, t') \<longrightarrow> (r = 0 \<longleftrightarrow> ok b)))"

lemma init_backends_run:
  assumes "\<forall>b \<in> set bs. \<exists>be. l_backend s b = Some be \<and>
     (\<forall>p. well_behaved (bo_init (B (bk_ops be)) p flags)) \<and>
     (\<forall>p t r t'. bo_init (B (bk_ops be)) p flags t = Some (r, t') \<longrightarrow> (r = 0 \<longleftrightarrow> ok b))"
    and "at_rest s"
  shows "\<exists>s'. init_backends B p flags bs m n s = Some
     ((m + length bs, n + length [b \<leftarrow> bs. \<not> ok b]), s') \<and> keeps s s'"
  using assms
proof (induction bs arbitrary: m n s)
  case Nil
  then show ?case by simp
next
  case (Cons b bs)
  from Cons.prems obtain be where be: "l_backend s b = Some be"
    "well_behaved (bo_init (B (bk_ops be)) p flags)"
    "\<forall>p t r t'. bo_init (B (bk_ops be)) p flags t = Some (r, t') \<longrightarrow> (r = 0 \<longleftrightarrow> ok b)"
    by (meson list.set_intros(1))
  obtain r s1 where r: "bo_init (B (bk_ops be)) p flags s = Some (r, s1)" "keeps s s1"
    by (rule well_behavedE [OF be(2) Cons.prems(2)])
  have "l_backend s1 = l_backend s" "at_rest s1" using r(2) Cons.prems(2) by (simp_all add: keeps_def)
  then have "\<exists>s'. init_backends B p flags bs (m + 1) (if r \<noteq> 0 then n + 1 else n) s1 = Some
     ((m + 1 + length bs, (if r \<noteq> 0 then n + 1 else n) + length [b \<leftarrow> bs. \<not> ok b]), s') \<and> keeps s1 s'"
    by (intro Cons.IH) (use Cons.prems in simp)
  then obtain s' where "init_backends B p flags bs (m + 1) (if r \<noteq> 0 then n + 1 else n) s1 = Some
     ((m + 1 + length bs, (if r \<noteq> 0 then n + 1 else n) + length [b \<leftarrow> bs. \<not> ok b]), s')" "keeps s1 s'"
    by blast
  moreover have "r = 0 \<longleftrightarrow> ok b" using be(3) r(1) by blast
  ultimately show ?case using be(1) r keeps_trans [OF r(2)] by auto
qed

lemma openusb_init_again:
  "l_held s = {} \<Longrightarrow> l_inited s \<noteq> 0 \<Longrightarrow>
     openusb_init e B flags False s = start_handle e B flags (s\<lparr>l_inited := l_inited s + 1\<rparr>)"
  by (simp add: openusb_init_def lock_def unlock_def held_same)

lemma start_handle_run:
  assumes ok: "handles_ok s" and av: "\<forall>n. en_alloc e n" and mu: "\<forall>k. en_mutex e k"
    and be: "backends_answer B flags start s" "\<exists>b \<in> set (l_backends s). start b"
    and ar: "at_rest s" and re: "well_behaved (usbi_rescan_devices B)"
  shows "\<exists>s'. start_handle e B flags s = Some ((OPENUSB_SUCCESS, l_cur_handle s), s') \<and>
     keeps (opened e s) s'"
proof -
  have h: "usbi_init_handle e s = Some (l_next s, opened e s)"
    using init_handle_run [of s e] ok av mu by (simp add: handles_ok_def)
  have bs: "l_backends (opened e s) = l_backends s" "l_backend (opened e s) = l_backend s"
    "at_rest (opened e s)"
    using ar by (simp_all add: opened_def at_rest_def)
  with init_backends_run [of "l_backends s" "opened e s" B flags start "l_next s" 0 0] be(1)
  obtain s2 where s2: "init_backends B (l_next s) flags (l_backends s) 0 0 (opened e s) = Some
     ((length (l_backends s), length [b \<leftarrow> l_backends s. \<not> start b]), s2)" "keeps (opened e s) s2"
    by (auto simp: backends_answer_def)
  obtain u s3 where s3: "usbi_rescan_devices B s2 = Some (u, s3)" "keeps s2 s3"
    using well_behavedE [OF re, of s2] s2(2) bs(3) unfolding keeps_def by blast
  have k3: "keeps (opened e s) s3" by (rule keeps_trans [OF s2(2) s3(2)])
  have "length [b \<leftarrow> l_backends s. \<not> start b] \<noteq> length (l_backends s)"
    using be(2) length_filter_less [of _ "l_backends s" "\<lambda>b. \<not> start b"] by fastforce
  moreover have "l_hdl s3 (l_next s) = Some (new_handle e s)"
    using k3 by (simp add: keeps_def opened_def)
  ultimately have "start_handle e B flags s = Some ((OPENUSB_SUCCESS, l_cur_handle s), s3)"
    using ok h s2(1) s3(1) bs by (simp add: handles_ok_def start_handle_def) (simp add: new_handle_def)
  then show ?thesis using k3 by blast
qed

text \<open>A further instance. When the library is initialised, every backend answers, at least
  one of them starts and none of them touches the handles, openusb_init succeeds and
  returns the next handle number, which no other handle had; from then on the number finds
  the new handle and every other number what it found before.
\<close>

theorem openusb_init_new_handle:
  assumes ok: "handles_ok s" and av: "\<forall>n. en_alloc e n" and mu: "\<forall>k. en_mutex e k"
    and nw: "l_cur_handle s < l_cur_handle s + 1"
    and ni: "l_inited s + 1 \<noteq> 0"
    and be: "backends_answer B flags start s" "\<exists>b \<in> set (l_backends s). start b"
    and ar: "at_rest s" and re: "well_behaved (usbi_rescan_devices B)"
  shows "\<exists>s'. openusb_init e B flags False s = Some ((OPENUSB_SUCCESS, l_cur_handle s), s') \<and>
     handles_ok s' \<and> l_inited s' = l_inited s + 1 \<and>
     usbi_find_handle (l_cur_handle s) s' = Some (l_next s, s') \<and>
     (\<forall>k. k \<noteq> l_cur_handle s \<longrightarrow> map_option fst (usbi_find_handle k s') =
        map_option fst (usbi_find_handle k s))"
proof -
  define s1 where "s1 = s\<lparr>l_inited := l_inited s + 1\<rparr>"
  have ok1: "handles_ok s1" and nw1: "l_cur_handle s1 < l_cur_handle s1 + 1"
    and tab1: "hdl_tab s1 = hdl_tab s" and ar1: "at_rest s1" and be1: "backends_answer B flags start s1"
      "\<exists>b \<in> set (l_backends s1). start b"
    using ok ni nw be ar by (simp_all add: handles_ok_def s1_def hdl_tab_def backends_answer_def at_rest_def)
  from start_handle_run [OF ok1 av mu be1 ar1 re] obtain s' where
    s': "start_handle e B flags s1 = Some ((OPENUSB_SUCCESS, l_cur_handle s1), s')"
    "keeps (opened e s1) s'" by blast
  note op = opened_ok [OF ok1 nw1]
  have run: "openusb_init e B flags False s = Some ((OPENUSB_SUCCESS, l_cur_handle s), s')"
    using ok s'(1) by (simp add: handles_ok_def openusb_init_again s1_def)
  have "l_inited s' = l_inited s + 1" using s'(2) by (simp add: keeps_def opened_def s1_def)
  moreover have ok': "handles_ok s'" "hdl_tab s' = (hdl_tab s)(l_cur_handle s \<mapsto> l_next s)"
    using keeps_handles_ok [OF s'(2) op(1)] op(2) tab1 by (simp_all add: s1_def)
  ultimately show ?thesis
    using run find_handle_run [OF ok'(1)] find_handle_run [OF ok] ok' by auto
qed

text \<open>
  When every backend refuses to start, openusb_init frees the handle it just made
  without taking it off the list of handles. If another instance is running, the list now
  holds a freed entry, and the next lookup of a handle number that is not found before it
  reads freed memory.
\<close>

theorem failed_init_leaves_freed_handle:
  assumes ok: "handles_ok s" and av: "\<forall>n. en_alloc e n" and mu: "\<forall>k. en_mutex e k"
    and ni: "0 < l_inited s" and ar: "at_rest s" and be: "backends_answer B flags (\<lambda>_. False) s"
  shows "\<exists>s'. openusb_init e B flags False s = Some ((OPENUSB_PLATFORM_FAILURE, 0), s') \<and>
     l_inited s' = l_inited s \<and> l_hdl s' (l_next s) = None \<and> l_next s \<in> set (l_handles s') \<and>
     (\<forall>k. hdl_tab s k = None \<longrightarrow> usbi_find_handle k s' = None)"
proof -
  define s1 where "s1 = s\<lparr>l_inited := l_inited s + 1\<rparr>"
  have h: "usbi_init_handle e s1 = Some (l_next s, opened e s1)"
    using init_handle_run [of s1 e] ok av mu by (simp add: s1_def handles_ok_def)
  have bs: "l_backends (opened e s1) = l_backends s" "l_backend (opened e s1) = l_backend s"
    "at_rest (opened e s1)"
    using ar by (simp_all add: opened_def s1_def at_rest_def)
  with init_backends_run [of "l_backends s" "opened e s1" B flags "\<lambda>_. False" "l_next s" 0 0] be
  obtain s2 where s2: "init_backends B (l_next s) flags (l_backends s) 0 0 (opened e s1) = Some
     ((length (l_backends s), length (l_backends s)), s2)" "keeps (opened e s1) s2"
    by (auto simp: backends_answer_def)
  have k2: "l_held s2 = {}" "l_inited s2 = l_inited s + 1" "l_hdl s2 (l_next s) = Some (new_handle e s1)"
    "l_handles s2 = l_handles s @ [l_next s]" "l_hdl s2 = (l_hdl s)(l_next s \<mapsto> new_handle e s1)"
    using s2(2) ok by (simp_all add: keeps_def opened_def s1_def handles_ok_def)
  define s3 where "s3 = s2\<lparr>l_inited := l_inited s, l_hdl := (l_hdl s)(l_next s := None)\<rparr>"
  have run: "openusb_init e B flags False s = Some ((OPENUSB_PLATFORM_FAILURE, 0), s3)"
    using ok h s2(1) k2 ni bs
    by (simp add: handles_ok_def openusb_init_again start_handle_def s1_def [symmetric]
        lock_def unlock_def held_same drop_instance_def with_lock_def s3_def)
  have "list_find (\<lambda>h. hd_handle h = k) (l_hdl s3) (l_handles s3) = None" if k: "hdl_tab s k = None" for k
  proof -
    have "\<forall>p \<in> set (l_handles s). \<exists>x. l_hdl s3 p = Some x \<and> hd_handle x \<noteq> k"
      using ok k by (force simp: handles_ok_def hdl_tab_def table_get_None table_ok_def s3_def)
    then have "list_find (\<lambda>h. hd_handle h = k) (l_hdl s3) (l_handles s @ [l_next s]) = None"
      using list_find_skip [of "l_handles s" "l_hdl s3" "\<lambda>h. hd_handle h = k" "[l_next s]"]
      by (simp add: s3_def)
    then show ?thesis by (simp add: s3_def k2)
  qed
  then have "usbi_find_handle k s3 = None" if "hdl_tab s k = None" for k
    using that k2 ni by (simp add: usbi_find_handle_def lock_def unlock_def s3_def held_same)
  then show ?thesis using run k2 by (auto simp: s3_def)
qed

text \<open>The end of an instance that is not the last one, and of the last one.\<close>

definition backends_end :: "(nat \<Rightarrow> 'a lib_scheme backend_ops) \<Rightarrow> 'a lib_scheme \<Rightarrow> bool" where
  "backends_end B s \<longleftrightarrow> (\<forall>b \<in> set (l_backends s). \<exists>be. l_backend s b = Some be \<and>
     (\<forall>f p. bo_fini (B (bk_ops be)) = Some f \<longrightarrow> well_behaved (f p)))"

lemma backend_fini_run:
  assumes "\<forall>b \<in> set bs. \<exists>be. l_backend s b = Some be \<and>
     (\<forall>f p. bo_fini (B (bk_ops be)) = Some f \<longrightarrow> well_behaved (f p))"
    and "at_rest s"
  shows "\<exists>s'. list_iter (backend_fini B p) bs s = Some ((), s') \<and> keeps s s'"
  using assms
proof (induction bs arbitrary: s)
  case (Cons b bs)
  then obtain be where be: "l_backend s b = Some be"
    "\<forall>f p. bo_fini (B (bk_ops be)) = Some f \<longrightarrow> well_behaved (f p)" by (meson list.set_intros(1))
  have "\<exists>s1. backend_fini B p b s = Some ((), s1) \<and> keeps s s1"
  proof (cases "bo_fini (B (bk_ops be))")
    case None
    then show ?thesis using be(1) by (simp add: backend_fini_def)
  next
    case (Some f)
    then have "well_behaved (f p)" using be(2) by blast
    then show ?thesis using be(1) Some well_behavedE [of "f p" s] Cons.prems(2) by (auto simp: backend_fini_def)
  qed
  then obtain s1 where s1: "backend_fini B p b s = Some ((), s1)" "keeps s s1" by blast
  then have "l_backend s1 = l_backend s" "at_rest s1" using Cons.prems(2) by (simp_all add: keeps_def)
  then have "\<exists>s'. list_iter (backend_fini B p) bs s1 = Some ((), s') \<and> keeps s1 s'"
    by (intro Cons.IH) (use Cons.prems in simp)
  then show ?case using s1 keeps_trans by auto
qed simp

text \<open>Ending one of several instances: openusb_fini returns, the handle number is unknown
  afterwards, the other numbers find what they found before, its memory is freed, and the
  library stays initialised.
\<close>

theorem openusb_fini_one:
  assumes ok: "handles_ok s" and k: "hdl_tab s k = Some p" and n: "l_inited s \<noteq> 1"
    and be: "backends_end B s" and ar: "at_rest s"
  shows "\<exists>s'. openusb_fini B k s = Some ((), s') \<and> handles_ok s' \<and> l_inited s' = l_inited s - 1 \<and>
     usbi_find_handle k s' = Some (0, s') \<and> l_hdl s' p = None \<and>
     (\<forall>j. j \<noteq> k \<longrightarrow> map_option fst (usbi_find_handle j s') = map_option fst (usbi_find_handle j s))"
proof -
  from backend_fini_run [of "l_backends s" s B p] be ar obtain s1 where
    s1: "list_iter (backend_fini B p) (l_backends s) s = Some ((), s1)" "keeps s s1"
    by (auto simp: backends_end_def)
  have ok1: "handles_ok s1" and k1: "hdl_tab s1 k = Some p" and tab: "hdl_tab s1 = hdl_tab s"
    using keeps_handles_ok [OF s1(2) ok] k by auto
  note cl = closed_ok [OF ok1 k1]
  have d: "usbi_destroy_handle p s1 = Some ((), closed p s1)"
    using destroy_handle_run [of s1 p] ok1 cl(3,4) by (simp add: handles_ok_def closed_def)
  define s' where "s' = (closed p s1)\<lparr>l_inited := l_inited s - 1\<rparr>"
  have i: "l_inited (closed p s1) = l_inited s" "l_held (closed p s1) = {}"
    using s1(2) ok by (simp_all add: closed_def keeps_def handles_ok_def)
  have run: "openusb_fini B k s = Some ((), s')"
    using find_handle_run [OF ok, of k] k s1(1) d cl(4) i n
    by (simp add: openusb_fini_def drop_instance_def with_lock_def lock_def unlock_def held_same s'_def)
  have ok': "handles_ok s'" "hdl_tab s' = (hdl_tab s)(k := None)"
    using cl(1,2) n tab by (auto simp: s'_def handles_ok_def hdl_tab_def)
  have "l_hdl s' p = None" "l_inited s' = l_inited s - 1" by (simp_all add: s'_def closed_def)
  then show ?thesis
    using run ok' find_handle_run [OF ok'(1)] find_handle_run [OF ok] by auto
qed

section \<open>The first instance and the last\<close>

definition environment_ok :: "env \<Rightarrow> (nat \<Rightarrow> 'a lib_scheme backend_ops) \<Rightarrow> string list \<Rightarrow> bool" where
  "environment_ok e B ds \<longleftrightarrow> (\<forall>k. en_mutex e k) \<and> (\<forall>n. en_alloc e n) \<and> en_backend_path e = None \<and>
     en_dir e (en_driver_path e) = Some ds \<and> distinct ds \<and>
     (\<forall>d \<in> set ds. length (backend_file (en_driver_path e) d) \<le> 4095) \<and>
     (\<exists>d \<in> set ds. backend_name d \<and> loads e B (backend_file (en_driver_path e) d))"

definition fresh_lists :: "'a lib_scheme \<Rightarrow> 'a lib_scheme" where
  "fresh_lists s = s\<lparr>l_handles := [], l_buses := [], l_devices := [], l_dev_handles := [],
     l_events := [], l_ready := insert LkEvents (insert LkDevHandles (insert LkDevices
       (insert LkBuses (insert LkHandles (l_ready s)))))\<rparr>"

lemma init_lists_run: "\<forall>k. en_mutex e k \<Longrightarrow> init_lists e [] list_order s = Some (0, fresh_lists s)"
  by (simp add: list_order_def usbi_list_init_def clear_list_def fresh_lists_def Let_def)

lemma ready_fresh_lists: "l_ready (fresh_lists s) = l_ready s \<union> set list_order"
  by (auto simp: fresh_lists_def list_order_def)

lemma init_common_run:
  assumes env: "environment_ok e B ds" and s: "0 < l_next s" "l_backends s = []" "0 \<le> en_create e"
  shows "\<exists>s'. usbi_init_common e B s = Some (OPENUSB_SUCCESS, s') \<and> l_backends s' \<noteq> [] \<and>
     backends_ok s' \<and> l_held s' = l_held s \<and> l_handles s' = [] \<and> l_buses s' = [] \<and>
     l_cur_handle s' = l_cur_handle s \<and>
     l_inited s' = l_inited s \<and> l_ready s' = l_ready s \<union> set list_order \<and>
     l_thread_valid s' = (en_create e = 0) \<and>
     l_threads s' = l_threads s + (if en_create e = 0 then 1 else 0)"
proof -
  define s1 where "s1 = fresh_lists s"
  have s1: "init_lists e [] list_order s = Some (0, s1)"
    using init_lists_run env by (auto simp: environment_ok_def s1_def)
  define s2 where "s2 = s1\<lparr>l_exit := False, l_threads := l_threads s1 + (if en_create e = 0 then 1 else 0),
     l_thread_valid := (en_create e = 0)\<rparr>"
  have b2: "l_backends s2 = []" "l_next s2 = l_next s" "l_held s2 = l_held s" "l_handles s2 = []"
    "l_buses s2 = []" "l_cur_handle s2 = l_cur_handle s" "l_inited s2 = l_inited s" "l_threads s1 = l_threads s"
    using s(2) by (simp_all add: s1_def s2_def fresh_lists_def)
  have r2: "l_ready s2 = l_ready s \<union> set list_order"
    by (simp add: s2_def s1_def ready_fresh_lists)
  have ok2: "backends_ok s2" "backend_paths s2 = []"
    using b2 s(1) by (simp_all add: backends_ok_def backend_paths_def)
  obtain s3 where s3: "load_entries e B (en_driver_path e) ds 0 s2 = Some
       (int (length [d \<leftarrow> ds. backend_name d \<and> \<not> loads e B (backend_file (en_driver_path e) d)]), s3)"
     "backends_ok s3" "backend_paths s3 =
       map (backend_file (en_driver_path e)) [d \<leftarrow> ds. backend_name d \<and> loads e B (backend_file (en_driver_path e) d)]"
     "\<exists>n h bs. s3 = s2\<lparr>l_next := n, l_backend := h, l_backends := bs\<rparr>"
    using load_entries_run [OF ok2(1), of e ds "en_driver_path e" B 0] env ok2(2)
    by (auto simp: environment_ok_def)
  have "backend_paths s3 \<noteq> []"
    using s3(3) env by (auto simp: environment_ok_def filter_empty_conv)
  then have ne: "l_backends s3 \<noteq> []" by (auto simp: backend_paths_def)
  have "usbi_init_common e B s = Some (OPENUSB_SUCCESS, s3)"
    using s1 s3(1) env s(3) ne
    by (simp add: usbi_init_common_def load_backends_def environment_ok_def Let_def s2_def)
  moreover have "l_held s3 = l_held s \<and> l_handles s3 = [] \<and> l_buses s3 = [] \<and> l_cur_handle s3 = l_cur_handle s \<and>
     l_inited s3 = l_inited s \<and> l_ready s3 = l_ready s \<union> set list_order \<and>
     l_thread_valid s3 = (en_create e = 0) \<and>
     l_threads s3 = l_threads s + (if en_create e = 0 then 1 else 0)"
    using s3(4) b2 r2 by (auto simp: s2_def)
  ultimately show ?thesis using ne s3(2) by blast
qed

text \<open>
  A failure of pthread_create is not noticed: it returns a positive error number, and
  the test is ret < 0. usbi_init_common succeeds without a callback thread, and the end of
  the last instance joins a thread that was never created.
\<close>

lemma thread_failure_unnoticed:
  assumes "environment_ok e B ds" "0 < l_next s" "l_backends s = []" "0 < en_create e"
  shows "\<exists>s'. usbi_init_common e B s = Some (OPENUSB_SUCCESS, s') \<and> l_threads s' = l_threads s \<and>
     usbi_fini_common s' = None"
  using init_common_run [OF assms(1-3)] assms(4) by (auto simp: usbi_fini_common_def)

lemma fini_lists_run:
  assumes "set list_order \<subseteq> l_ready s" "set list_order \<inter> l_held s = {}"
  shows "fini_lists (rev list_order) s = Some (s\<lparr>l_ready := l_ready s - set list_order\<rparr>)"
proof -
  have "l_ready s - {LkEvents} - {LkDevHandles} - {LkDevices} - {LkBuses} - {LkHandles} =
      l_ready s - set list_order" by (auto simp: list_order_def)
  then show ?thesis using assms by (simp add: list_order_def usbi_list_fini_def)
qed

lemma unload_run:
  "\<forall>b \<in> set bs. l_backend s b \<noteq> None \<Longrightarrow> l_backends s = bs \<Longrightarrow>
     list_iter unload_backend bs s = Some ((), s\<lparr>l_backends := []\<rparr>)"
proof (induction bs arbitrary: s)
  case Nil
  then have "s\<lparr>l_backends := []\<rparr> = s" by (cases s) simp
  then show ?case by simp
next
  case (Cons b bs)
  then show ?case by (auto simp: unload_backend_def ls_del_def)
qed

lemma last_instance_run:
  assumes "l_held s = {}" "l_inited s = 1" "l_thread_valid s" "set list_order \<subseteq> l_ready s"
  shows "\<exists>s'. drop_instance s = Some ((), s') \<and> l_inited s' = 0 \<and> l_held s' = {} \<and>
     l_ready s' = l_ready s - set list_order \<and> l_threads s' = l_threads s - 1 \<and>
     l_backends s' = l_backends s \<and> l_backend s' = l_backend s \<and> l_handles s' = l_handles s"
proof -
  have "fini_lists (rev list_order) (s\<lparr>l_held := {LkUsbi}, l_inited := 0, l_exit := False,
      l_thread_valid := False, l_threads := l_threads s - 1\<rparr>) = Some (s\<lparr>l_held := {LkUsbi}, l_inited := 0,
      l_exit := False, l_thread_valid := False, l_threads := l_threads s - 1,
      l_ready := l_ready s - set list_order\<rparr>)"
    by (subst fini_lists_run) (use assms(4) in \<open>auto simp: list_order_def\<close>)
  then show ?thesis using assms
    by (simp add: drop_instance_def with_lock_def lock_def unlock_def usbi_fini_common_def)
qed


text \<open>
  The default timeout of one transfer type, or of all of them at once for type 0, is
  what the handle holds afterwards; the other types keep theirs.
\<close>

theorem set_default_timeout_sets:
  assumes ok: "handles_ok s" and k: "hdl_tab s k = Some p" "l_hdl s p = Some h"
    and len: "length (hd_timeout h) = 5" and ty: "0 \<le> ty" "ty \<le> USB_TYPE_ISOCHRONOUS"
  shows "\<exists>s' h'. openusb_set_default_timeout k ty t s = Some (OPENUSB_SUCCESS, s') \<and>
     l_hdl s' p = Some h' \<and> length (hd_timeout h') = 5 \<and>
     (\<forall>i < 5. hd_timeout h' ! i = (if i \<noteq> 0 \<and> (int i = ty \<or> ty = USB_TYPE_ALL) then t
        else hd_timeout h ! i))"
proof -
  have pz: "p \<noteq> 0" using closed_ok(4) [OF ok k(1)] .
  define ts where "ts = (if ty = USB_TYPE_ALL then (hd_timeout h)[1 := t, 2 := t, 3 := t, 4 := t]
     else (hd_timeout h)[nat ty := t])"
  have "set_timeouts (if ty = USB_TYPE_ALL then [1, 2, 3, 4] else [nat ty]) t (hd_timeout h) = Some ts"
    using len ty by (auto simp: ts_def wr_Some usb_types)
  then have run: "openusb_set_default_timeout k ty t s = Some (OPENUSB_SUCCESS,
      s\<lparr>l_hdl := (l_hdl s)(p \<mapsto> h\<lparr>hd_timeout := ts\<rparr>)\<rparr>)"
    using find_handle_run [OF ok, of k] k pz ok ty
    by (simp add: openusb_set_default_timeout_def lock_def unlock_def handles_ok_def held_same)
  have "ts ! i = (if i \<noteq> 0 \<and> (int i = ty \<or> ty = USB_TYPE_ALL) then t else hd_timeout h ! i)"
    if "i < 5" for i
  proof -
    from that have "i = 0 \<or> i = 1 \<or> i = 2 \<or> i = 3 \<or> i = 4" by linarith
    then show ?thesis using len ty by (auto simp: ts_def usb_types nth_list_update)
  qed
  moreover have "length ts = 5" using len by (simp add: ts_def)
  ultimately show ?thesis using run by auto
qed

end
