(* ===== verification/Io.thy ===== *)
theory Io
  imports LibInit
begin

text \<open>
  io.c: the usbi_io structure of a request from its allocation to its completion, the
  submission to synchronous and asynchronous backends, and usbi_get_xfer_timeout of api.c.

  Threads. A backend operation runs as one step. What the other threads do while a thread
  waits in pthread_cond_wait is a parameter: a function on the state, None when it never
  wakes up. Writing to the event pipe has no effect on the state.
\<close>

section \<open>Following pointers\<close>

definition dev_ops :: "(nat \<Rightarrow> 'a lib_scheme backend_ops) \<Rightarrow> addr \<Rightarrow> 'a lib_scheme \<Rightarrow>
    'a lib_scheme backend_ops option" where
  "dev_ops B hdev s = do { h \<leftarrow> l_hdev s hdev; d \<leftarrow> l_dev s (hv_idev h); Some (B (dv_ops d)) }"

definition bus_of :: "addr \<Rightarrow> 'a lib_scheme \<Rightarrow> usbi_bus option" where
  "bus_of hdev s = do { h \<leftarrow> l_hdev s hdev; d \<leftarrow> l_dev s (hv_idev h); l_bus s (dv_bus d) }"

definition lock_io :: "addr \<Rightarrow> 'a lib_scheme \<Rightarrow> 'a lib_scheme option" where
  "lock_io io s = do { _ \<leftarrow> l_io s io; lock (LkIo io) s }"

definition unlock_io :: "addr \<Rightarrow> 'a lib_scheme \<Rightarrow> 'a lib_scheme option" where
  "unlock_io io s = do { _ \<leftarrow> l_io s io; unlock (LkIo io) s }"

definition lock_hdev :: "addr \<Rightarrow> 'a lib_scheme \<Rightarrow> 'a lib_scheme option" where
  "lock_hdev p s = do { _ \<leftarrow> l_hdev s p; lock (LkHdev p) s }"

definition unlock_hdev :: "addr \<Rightarrow> 'a lib_scheme \<Rightarrow> 'a lib_scheme option" where
  "unlock_hdev p s = do { _ \<leftarrow> l_hdev s p; unlock (LkHdev p) s }"

text \<open>
  list_del(&io->list): the entry leaves the list it is on, the io_head of a device handle
  or the complete_list of a library handle.
\<close>

definition io_unlink :: "addr \<Rightarrow> 'a lib_scheme \<Rightarrow> 'a lib_scheme" where
  "io_unlink io s = s\<lparr>
     l_hdev := (\<lambda>p. map_option (\<lambda>h. h\<lparr>hv_io_head := ls_del io (hv_io_head h)\<rparr>) (l_hdev s p)),
     l_hdl := (\<lambda>p. map_option (\<lambda>h. h\<lparr>hd_complete_list := ls_del io (hd_complete_list h)\<rparr>) (l_hdl s p))\<rparr>"

section \<open>Allocation and release\<close>

definition io_timeout_of :: "u32 \<Rightarrow> u32" where
  "io_timeout_of timeout = (if timeout = 0 then 0xFFFFFFFF else timeout)"

text \<open>The end time: seconds and microseconds, with the carry as the code computes it.\<close>

definition io_deadline :: "int \<times> int \<Rightarrow> u32 \<Rightarrow> int \<times> int" where
  "io_deadline tvc timeout = (let sec = fst tvc + uint (timeout div 1000);
       usec = snd tvc + uint (timeout mod 1000) * 1000
     in if usec > 1000000 then (sec + 1, usec - 1000000) else (sec, usec))"

definition usbi_alloc_io :: "(addr \<Rightarrow> bool) \<Rightarrow> addr \<Rightarrow> addr \<Rightarrow> u32 \<Rightarrow> ('a lib_scheme, addr) op" where
  "usbi_alloc_io av dev req timeout s = (let (io, s) = fresh av s in
     if io = 0 then Some (0, s)
     else do {
       let timeout = io_timeout_of timeout;
       let s = s\<lparr>l_io := (l_io s)(io \<mapsto> \<lparr>io_dev = dev, io_req = req, io_state = IO_INPROGRESS,
          io_async = False, io_callback = False, io_arg = 0,
          io_tvo = io_deadline (l_time s) timeout, io_timeout = timeout\<rparr>)\<rparr>;
       s \<leftarrow> lock_hdev dev s;
       h \<leftarrow> l_hdev s dev;
       let s = s\<lparr>l_hdev := (l_hdev s)(dev \<mapsto> h\<lparr>hv_io_head := ls_add io (hv_io_head h)\<rparr>)\<rparr>;
       s \<leftarrow> unlock_hdev dev s;
       Some (io, s)
     })"

definition usbi_free_io :: "(nat \<Rightarrow> 'a lib_scheme backend_ops) \<Rightarrow> addr \<Rightarrow> ('a lib_scheme, unit) op" where
  "usbi_free_io B io s =
     (if io = 0 then Some ((), s)
      else do {
        s \<leftarrow> lock_io io s;
        x \<leftarrow> l_io s io;
        s \<leftarrow> lock_hdev (io_dev x) s;
        let s = io_unlink io s;
        s \<leftarrow> unlock_hdev (io_dev x) s;
        s \<leftarrow> (if io_state x = IO_INPROGRESS \<and> io_async x then do {
                 ops \<leftarrow> dev_ops B (io_dev x) s;
                 (case do_io_cancel ops of None \<Rightarrow> Some s
                  | Some cancel \<Rightarrow> do { (_, s) \<leftarrow> cancel io s; Some s })
               } else Some s);
        s \<leftarrow> unlock_io io s;
        Some ((), s\<lparr>l_io := (l_io s)(io := None)\<rparr>)
      })"

section \<open>Completion\<close>

text \<open>
  The result field that the type of the request selects. A request whose type names no
  transfer leaves the pointer null; one whose union holds another member than its type says
  is not given a meaning.
\<close>

definition set_result :: "int \<Rightarrow> int \<Rightarrow> u32 \<Rightarrow> openusb_request \<Rightarrow> openusb_request option" where
  "set_result ty status n r =
     (if ty = USB_TYPE_CONTROL then
        (case r of Ctrl c \<Rightarrow> Some (Ctrl (c\<lparr>ct_status := status, ct_transferred := n\<rparr>)) | _ \<Rightarrow> None)
      else if ty = USB_TYPE_INTERRUPT then
        (case r of Intr d \<Rightarrow> Some (Intr (d\<lparr>dr_status := status, dr_transferred := n\<rparr>)) | _ \<Rightarrow> None)
      else if ty = USB_TYPE_BULK then
        (case r of Bulk d \<Rightarrow> Some (Bulk (d\<lparr>dr_status := status, dr_transferred := n\<rparr>)) | _ \<Rightarrow> None)
      else if ty = USB_TYPE_ISOCHRONOUS then
        (case r of Isoc i \<Rightarrow> do { rs \<leftarrow> wr (is_results i) 0 (status, n); Some (Isoc (i\<lparr>is_results := rs\<rparr>)) }
         | _ \<Rightarrow> None)
      else None)"

text \<open>simple_io_complete, called through async_callback.\<close>

definition simple_io_complete :: "addr \<Rightarrow> int \<Rightarrow> ('a lib_scheme, unit) op" where
  "simple_io_complete p status s = do {
     _ \<leftarrow> l_sio s p;
     s \<leftarrow> lock (LkSio p) s;
     let s = s\<lparr>l_sio := (l_sio s)(p \<mapsto> \<lparr>si_completed = True, si_status = status\<rparr>)\<rparr>;
     s \<leftarrow> unlock (LkSio p) s;
     Some ((), s)
   }"

text \<open>Putting a request on the complete_list of its library handle.\<close>

definition add_complete :: "addr \<Rightarrow> addr \<Rightarrow> 'a lib_scheme \<Rightarrow> 'a lib_scheme option" where
  "add_complete hdl io s = do {
     _ \<leftarrow> l_hdl s hdl;
     s \<leftarrow> lock (LkComplete hdl) s;
     h \<leftarrow> l_hdl s hdl;
     let s = s\<lparr>l_hdl := (l_hdl s)(hdl \<mapsto> h\<lparr>hd_complete_list := ls_add io (hd_complete_list h),
                                     hd_complete_count := hd_complete_count h + 1\<rparr>)\<rparr>;
     unlock (LkComplete hdl) s
   }"

text \<open>The user's callback is only recorded.\<close>

definition usbi_io_complete :: "addr \<Rightarrow> int \<Rightarrow> u64 \<Rightarrow> ('a lib_scheme, unit) op" where
  "usbi_io_complete io status transferred_bytes s = do {
     x \<leftarrow> l_io s io;
     s \<leftarrow> lock_io io s;
     let s = s\<lparr>l_io := (l_io s)(io \<mapsto> x\<lparr>io_state := IO_COMPLETED\<rparr>)\<rparr>;
     s \<leftarrow> unlock_io io s;
     let s = io_unlink io s;
     s \<leftarrow> (if io_async x then do {
              h \<leftarrow> l_hdev s (io_dev x);
              add_complete (hv_lib_hdl h) io s
            } else Some s);
     s \<leftarrow> lock_io io s;
     r \<leftarrow> l_req s (io_req x);
     s \<leftarrow> unlock_io io s;
     q \<leftarrow> set_result (rq_type r) status (ucast transferred_bytes) (rq_req r);
     let s = s\<lparr>l_req := (l_req s)(io_req x \<mapsto> r\<lparr>rq_req := q\<rparr>)\<rparr>;
     s \<leftarrow> lock_io io s;
     s \<leftarrow> unlock_io io s;
     let s = (if io_async x \<and> rq_cb r then s\<lparr>l_req_cbs := l_req_cbs s @ [io_req x]\<rparr> else s);
     (if io_callback x then simple_io_complete (io_arg x) status s else Some ((), s))
   }"

section \<open>Submission\<close>

definition usbi_async_submit :: "(nat \<Rightarrow> 'a lib_scheme backend_ops) \<Rightarrow> addr \<Rightarrow> ('a lib_scheme, int) op" where
  "usbi_async_submit B io s = do {
     s \<leftarrow> lock_io io s;
     x \<leftarrow> l_io s io;
     r \<leftarrow> l_req s (io_req x);
     s \<leftarrow> unlock_io io s;
     (if io_dev x = 0 then Some (OPENUSB_UNKNOWN_DEVICE, s)
      else do {
        (ret, s) \<leftarrow> (if rq_type r \<in> {USB_TYPE_CONTROL, USB_TYPE_INTERRUPT, USB_TYPE_BULK, USB_TYPE_ISOCHRONOUS}
                    then do { ops \<leftarrow> dev_ops B (io_dev x) s; do_xfer_aio ops (rq_type r) (io_dev x) io s }
                    else Some (-1, s));
        Some (if ret < 0 then ret else OPENUSB_SUCCESS, s)
      })
   }"

definition usbi_sync_submit :: "(nat \<Rightarrow> 'a lib_scheme backend_ops) \<Rightarrow> addr \<Rightarrow> ('a lib_scheme, int) op" where
  "usbi_sync_submit B io s = do {
     x \<leftarrow> l_io s io;
     r \<leftarrow> l_req s (io_req x);
     (ret, s) \<leftarrow> (if rq_type r \<in> {USB_TYPE_CONTROL, USB_TYPE_INTERRUPT, USB_TYPE_BULK, USB_TYPE_ISOCHRONOUS}
                 then do { ops \<leftarrow> dev_ops B (io_dev x) s; do_xfer_wait ops (rq_type r) (io_dev x) io s }
                 else Some (OPENUSB_BADARG, s));
     Some (if ret < 0 then ret else OPENUSB_SUCCESS, s)
   }"

text \<open>
  usbi_get_xfer_timeout (api.c): the result is the bit pattern of an int32_t; -1 for a type
  that is none, and the default of the handle for 0.
\<close>

definition request_timeout :: "int \<Rightarrow> openusb_request \<Rightarrow> u32 option" where
  "request_timeout ty r =
     (if ty = USB_TYPE_CONTROL then (case r of Ctrl c \<Rightarrow> Some (ct_timeout c) | _ \<Rightarrow> None)
      else if ty = USB_TYPE_BULK then (case r of Bulk d \<Rightarrow> Some (dr_timeout d) | _ \<Rightarrow> None)
      else if ty = USB_TYPE_INTERRUPT then (case r of Intr d \<Rightarrow> Some (dr_timeout d) | _ \<Rightarrow> None)
      else if ty = USB_TYPE_ISOCHRONOUS then Some 0
      else Some (-1))"

definition usbi_get_xfer_timeout :: "addr \<Rightarrow> addr \<Rightarrow> ('a lib_scheme, u32) op" where
  "usbi_get_xfer_timeout req dev s = do {
     r \<leftarrow> l_req s req;
     timeout \<leftarrow> request_timeout (rq_type r) (rq_req r);
     (if timeout = -1 then Some (-1, s)
      else if timeout = 0 then do {
        h \<leftarrow> l_hdev s dev;
        _ \<leftarrow> l_hdl s (hv_lib_hdl h);
        s \<leftarrow> lock (LkHdl (hv_lib_hdl h)) s;
        hdl \<leftarrow> l_hdl s (hv_lib_hdl h);
        timeout \<leftarrow> rd (hd_timeout hdl) (nat (rq_type r));
        s \<leftarrow> unlock (LkHdl (hv_lib_hdl h)) s;
        Some (timeout, s)
      }
      else Some (timeout, s))
   }"

text \<open>
  simple_io_wait: one pthread_cond_wait if the request is not complete yet, and the status
  after it. The mutex is released while the others run.
\<close>

definition simple_io_wait :: "('a lib_scheme \<Rightarrow> 'a lib_scheme option) \<Rightarrow> addr \<Rightarrow> ('a lib_scheme, int) op" where
  "simple_io_wait others p s = do {
     x \<leftarrow> l_sio s p;
     s \<leftarrow> lock (LkSio p) s;
     s \<leftarrow> (if \<not> si_completed x then do {
              s \<leftarrow> unlock (LkSio p) s;
              s \<leftarrow> others s;
              _ \<leftarrow> l_sio s p;
              lock (LkSio p) s
            } else Some s);
     x \<leftarrow> l_sio s p;
     s \<leftarrow> unlock (LkSio p) s;
     Some (si_status x, s)
   }"

definition usbi_io_sync :: "(addr \<Rightarrow> bool) \<Rightarrow> (nat \<Rightarrow> 'a lib_scheme backend_ops) \<Rightarrow>
    ('a lib_scheme \<Rightarrow> 'a lib_scheme option) \<Rightarrow> addr \<Rightarrow> addr \<Rightarrow> ('a lib_scheme, int) op" where
  "usbi_io_sync av B others dev req s = do {
     b \<leftarrow> bus_of dev s;
     let io_pattern = bo_io_pattern (B (bs_ops b));
     (if io_pattern = PATTERN_ASYNC then do {
        (timeout, s) \<leftarrow> usbi_get_xfer_timeout req dev s;
        (iop, s) \<leftarrow> usbi_alloc_io av dev req timeout s;
        let (io, s) = fresh av s;
        (if iop = 0 \<or> io = 0 then Some (OPENUSB_NO_RESOURCES, s)
         else do {
           x \<leftarrow> l_io s iop;
           let s = s\<lparr>l_io := (l_io s)(iop \<mapsto> x\<lparr>io_callback := True, io_arg := io\<rparr>),
                     l_sio := (l_sio s)(io \<mapsto> \<lparr>si_completed = False, si_status = 0\<rparr>)\<rparr>;
           (ret, s) \<leftarrow> usbi_async_submit B iop s;
           (ret, s) \<leftarrow> (if ret < 0 then Some (ret, s) else simple_io_wait others io s);
           (_, s) \<leftarrow> usbi_free_io B iop s;
           _ \<leftarrow> l_sio s io;
           Some (ret, s\<lparr>l_sio := (l_sio s)(io := None)\<rparr>)
         })
      }
      else if io_pattern = PATTERN_SYNC \<or> io_pattern = PATTERN_BOTH then do {
        (timeout, s) \<leftarrow> usbi_get_xfer_timeout req dev s;
        (io, s) \<leftarrow> usbi_alloc_io av dev req timeout s;
        (ret, s) \<leftarrow> usbi_sync_submit B io s;
        (_, s) \<leftarrow> usbi_free_io B io s;
        Some (ret, s)
      }
      else Some (OPENUSB_PLATFORM_FAILURE, s))
   }"

text \<open>io_submit: the body of the thread that runs an asynchronous request synchronously.\<close>

definition io_submit :: "(nat \<Rightarrow> 'a lib_scheme backend_ops) \<Rightarrow> addr \<Rightarrow> ('a lib_scheme, unit) op" where
  "io_submit B iop s = do {
     x \<leftarrow> l_io s iop;
     _ \<leftarrow> l_hdev s (io_dev x);
     let s = io_unlink iop s;
     (ret, s) \<leftarrow> usbi_sync_submit B iop s;
     x \<leftarrow> l_io s iop;
     r \<leftarrow> l_req s (io_req x);
     (if rq_cb r then usbi_free_io B iop (s\<lparr>l_req_cbs := l_req_cbs s @ [io_req x]\<rparr>)
      else do {
        h \<leftarrow> l_hdev s (io_dev x);
        s \<leftarrow> add_complete (hv_lib_hdl h) iop s;
        Some ((), s)
      })
   }"

text \<open>pthread_create returns 0 or a positive error number; create is its result.\<close>

definition usbi_io_async :: "int \<Rightarrow> (nat \<Rightarrow> 'a lib_scheme backend_ops) \<Rightarrow> addr \<Rightarrow> ('a lib_scheme, int) op" where
  "usbi_io_async create B iop s = do {
     s \<leftarrow> lock_io iop s;
     x \<leftarrow> l_io s iop;
     r \<leftarrow> l_req s (io_req x);
     s \<leftarrow> unlock_io iop s;
     (if io_dev x = 0 then Some (OPENUSB_UNKNOWN_DEVICE, s)
      else do {
        h \<leftarrow> l_hdev s (io_dev x);
        d \<leftarrow> l_dev s (hv_idev h);
        _ \<leftarrow> l_bus s (dv_bus d);
        s \<leftarrow> lock (LkBus (dv_bus d)) s;
        b \<leftarrow> l_bus s (dv_bus d);
        s \<leftarrow> unlock (LkBus (dv_bus d)) s;
        let io_pattern = bo_io_pattern (B (bs_ops b));
        (if rq_type r < USB_TYPE_CONTROL \<or> rq_type r > USB_TYPE_ISOCHRONOUS then Some (OPENUSB_BADARG, s)
         else if io_pattern = PATTERN_ASYNC \<or> io_pattern = PATTERN_BOTH then usbi_async_submit B iop s
         else if io_pattern = PATTERN_SYNC then
           (if create < 0 then Some (OPENUSB_PLATFORM_FAILURE, s)
            else Some (OPENUSB_SUCCESS, if create = 0 then s\<lparr>l_submits := l_submits s @ [iop]\<rparr> else s))
         else Some (OPENUSB_PLATFORM_FAILURE, s))
      })
   }"

section \<open>Lemmas\<close>

lemma io_unlink_simps [simp]:
  "l_held (io_unlink io s) = l_held s" "l_io (io_unlink io s) = l_io s"
  "l_req (io_unlink io s) = l_req s" "l_sio (io_unlink io s) = l_sio s"
  "l_dev (io_unlink io s) = l_dev s" "l_bus (io_unlink io s) = l_bus s"
  "l_hdev (io_unlink io s) p = map_option (\<lambda>h. h\<lparr>hv_io_head := remove1 io (hv_io_head h)\<rparr>) (l_hdev s p)"
  "l_hdl (io_unlink io s) q = map_option (\<lambda>h. h\<lparr>hd_complete_list := remove1 io (hd_complete_list h)\<rparr>) (l_hdl s q)"
  by (simp_all add: io_unlink_def ls_del_def)

text \<open>No list has the request io.\<close>

definition unlinked :: "addr \<Rightarrow> 'a lib_scheme \<Rightarrow> bool" where
  "unlinked io s \<longleftrightarrow> (\<forall>p h. l_hdev s p = Some h \<longrightarrow> io \<notin> set (hv_io_head h)) \<and>
     (\<forall>p h. l_hdl s p = Some h \<longrightarrow> io \<notin> set (hd_complete_list h))"

lemma io_unlink_unlinked: "unlinked io s \<Longrightarrow> io_unlink io s = s"
proof -
  assume u: "unlinked io s"
  have "map_option (\<lambda>h. h\<lparr>hv_io_head := ls_del io (hv_io_head h)\<rparr>) (l_hdev s p) = l_hdev s p" for p
    using u by (cases "l_hdev s p") (auto simp: unlinked_def ls_del_def remove1_idem)
  moreover have "map_option (\<lambda>h. h\<lparr>hd_complete_list := ls_del io (hd_complete_list h)\<rparr>) (l_hdl s p) =
      l_hdl s p" for p
    using u by (cases "l_hdl s p") (auto simp: unlinked_def ls_del_def remove1_idem)
  ultimately show ?thesis by (simp add: io_unlink_def)
qed

text \<open>The request io is put at the end of the list of the device handle dev.\<close>

definition link_dev :: "addr \<Rightarrow> addr \<Rightarrow> 'a lib_scheme \<Rightarrow> 'a lib_scheme" where
  "link_dev dev io s = s\<lparr>l_hdev := (l_hdev s)(dev \<mapsto> (the (l_hdev s dev))\<lparr>
     hv_io_head := hv_io_head (the (l_hdev s dev)) @ [io]\<rparr>)\<rparr>"

lemma link_dev_simps [simp]:
  "l_held (link_dev dev io s) = l_held s" "l_io (link_dev dev io s) = l_io s"
  "l_req (link_dev dev io s) = l_req s" "l_sio (link_dev dev io s) = l_sio s"
  "l_dev (link_dev dev io s) = l_dev s" "l_bus (link_dev dev io s) = l_bus s"
  "l_hdl (link_dev dev io s) = l_hdl s" "l_next (link_dev dev io s) = l_next s"
  by (simp_all add: link_dev_def)

lemma unlink_link_dev:
  assumes "unlinked io s" "l_hdev s dev \<noteq> None"
  shows "io_unlink io (link_dev dev io s) = s"
proof -
  have "map_option (\<lambda>h. h\<lparr>hv_io_head := ls_del io (hv_io_head h)\<rparr>) (l_hdev (link_dev dev io s) p) =
      l_hdev s p" for p
    using assms by (cases "l_hdev s p")
      (auto simp: unlinked_def ls_del_def remove1_idem remove1_append link_dev_def)
  moreover have "map_option (\<lambda>h. h\<lparr>hd_complete_list := ls_del io (hd_complete_list h)\<rparr>) (l_hdl s p) =
      l_hdl s p" for p
    using assms by (cases "l_hdl s p") (auto simp: unlinked_def ls_del_def remove1_idem)
  ultimately show ?thesis by (simp add: io_unlink_def) (simp add: link_dev_def)
qed

lemma unlinked_upd [simp]:
  "unlinked io (s\<lparr>l_io := i\<rparr>) = unlinked io s" "unlinked io (s\<lparr>l_req := r\<rparr>) = unlinked io s"
  "unlinked io (s\<lparr>l_sio := o'\<rparr>) = unlinked io s" "unlinked io (s\<lparr>l_next := n\<rparr>) = unlinked io s"
  "unlinked io (s\<lparr>l_held := l\<rparr>) = unlinked io s"
  by (simp_all add: unlinked_def)

lemma link_dev_upd [simp]:
  "link_dev dev io (s\<lparr>l_io := i\<rparr>) = (link_dev dev io s)\<lparr>l_io := i\<rparr>"
  "link_dev dev io (s\<lparr>l_next := n\<rparr>) = (link_dev dev io s)\<lparr>l_next := n\<rparr>"
  by (simp_all add: link_dev_def)

lemma io_unlink_upd [simp]:
  "io_unlink io (s\<lparr>l_io := i\<rparr>) = (io_unlink io s)\<lparr>l_io := i\<rparr>"
  "io_unlink io (s\<lparr>l_req := r\<rparr>) = (io_unlink io s)\<lparr>l_req := r\<rparr>"
  "io_unlink io (s\<lparr>l_sio := o'\<rparr>) = (io_unlink io s)\<lparr>l_sio := o'\<rparr>"
  "io_unlink io (s\<lparr>l_next := n\<rparr>) = (io_unlink io s)\<lparr>l_next := n\<rparr>"
  "io_unlink io (s\<lparr>l_req_cbs := c\<rparr>) = (io_unlink io s)\<lparr>l_req_cbs := c\<rparr>"
  by (simp_all add: io_unlink_def)

definition new_io :: "addr \<Rightarrow> addr \<Rightarrow> u32 \<Rightarrow> 'a lib_scheme \<Rightarrow> usbi_io" where
  "new_io dev req t s = \<lparr>io_dev = dev, io_req = req, io_state = IO_INPROGRESS, io_async = False,
     io_callback = False, io_arg = 0, io_tvo = io_deadline (l_time s) (io_timeout_of t),
     io_timeout = io_timeout_of t\<rparr>"

lemma new_io_simps [simp]:
  "io_dev (new_io dev req t s) = dev" "io_req (new_io dev req t s) = req"
  "io_state (new_io dev req t s) = IO_INPROGRESS" "\<not> io_async (new_io dev req t s)"
  by (simp_all add: new_io_def)

lemma alloc_io_run:
  assumes "l_held s = {}" "0 < l_next s" "av (l_next s)" "l_hdev s dev \<noteq> None"
  shows "usbi_alloc_io av dev req t s = Some (l_next s,
     link_dev dev (l_next s) (s\<lparr>l_next := l_next s + 1, l_io := (l_io s)(l_next s \<mapsto> new_io dev req t s)\<rparr>))"
  using assms by (auto simp: usbi_alloc_io_def fresh_def Let_def lock_hdev_def unlock_hdev_def
      lock_def unlock_def ls_add_def new_io_def link_dev_def held_same)

lemma free_io_run:
  assumes "l_held s = {}" "io \<noteq> 0" "l_io s io = Some x" "l_hdev s (io_dev x) \<noteq> None"
    and "\<not> (io_state x = IO_INPROGRESS \<and> io_async x)"
  shows "usbi_free_io B io s = Some ((), (io_unlink io s)\<lparr>l_io := (l_io s)(io := None)\<rparr>)"
proof -
  have c: "io_unlink io (s\<lparr>l_held := l\<rparr>) = (io_unlink io s)\<lparr>l_held := l\<rparr>" for l
    by (simp add: io_unlink_def)
  have "{LkHdev (io_dev x), LkIo io} - {LkHdev (io_dev x)} = {LkIo io}" by auto
  then show ?thesis using assms
    by (auto simp: usbi_free_io_def lock_io_def unlock_io_def lock_hdev_def unlock_hdev_def
        lock_def unlock_def Let_def c held_same)
qed

section \<open>A request of a device\<close>

text \<open>The type of a request names the member of its union.\<close>

definition req_ok :: "openusb_request_handle \<Rightarrow> bool" where
  "req_ok r \<longleftrightarrow> (case rq_req r of Ctrl _ \<Rightarrow> rq_type r = USB_TYPE_CONTROL
     | Intr _ \<Rightarrow> rq_type r = USB_TYPE_INTERRUPT | Bulk _ \<Rightarrow> rq_type r = USB_TYPE_BULK
     | Isoc i \<Rightarrow> rq_type r = USB_TYPE_ISOCHRONOUS \<and> is_results i \<noteq> [])"

text \<open>A device handle whose pointers lead to a device d on a bus b and a library handle.\<close>

definition connected :: "addr \<Rightarrow> usbi_device \<Rightarrow> usbi_bus \<Rightarrow> 'a lib_scheme \<Rightarrow> bool" where
  "connected dev d b s \<longleftrightarrow> (\<exists>h hdl. l_hdev s dev = Some h \<and> l_dev s (hv_idev h) = Some d \<and>
     l_bus s (dv_bus d) = Some b \<and> l_hdl s (hv_lib_hdl h) = Some hdl \<and> length (hd_timeout hdl) = 5)"

lemma req_ok_type: "req_ok r \<Longrightarrow> rq_type r \<in> {USB_TYPE_CONTROL, USB_TYPE_INTERRUPT, USB_TYPE_BULK, USB_TYPE_ISOCHRONOUS}"
  by (auto simp: req_ok_def split: openusb_request.split_asm)

lemma req_ok_result: "req_ok r \<Longrightarrow> \<exists>q. set_result (rq_type r) st n (rq_req r) = Some q"
  by (auto simp: req_ok_def set_result_def usb_types wr_Some split: openusb_request.split_asm)

lemma timeout_run:
  assumes "l_req s req = Some r" "req_ok r" "connected dev d b s" "l_held s = {}"
  shows "\<exists>t. usbi_get_xfer_timeout req dev s = Some (t, s)"
proof -
  from assms(2) obtain t where t: "request_timeout (rq_type r) (rq_req r) = Some t"
    by (auto simp: req_ok_def request_timeout_def usb_types split: openusb_request.split_asm)
  have "nat (rq_type r) < 5" using req_ok_type [OF assms(2)] by (auto simp: usb_types)
  then show ?thesis using assms(1,3,4) t
    by (auto simp: usbi_get_xfer_timeout_def connected_def lock_def unlock_def held_same rd_Some)
qed

lemma dev_ops_connected: "connected dev d b s \<Longrightarrow> dev_ops B dev s = Some (B (dv_ops d))"
  by (auto simp: dev_ops_def connected_def)

lemma bus_of_connected: "connected dev d b s \<Longrightarrow> bus_of dev s = Some b"
  by (auto simp: bus_of_def connected_def)

lemma connected_upd [simp]:
  "connected dev d b (s\<lparr>l_io := i\<rparr>) = connected dev d b s"
  "connected dev d b (s\<lparr>l_sio := o'\<rparr>) = connected dev d b s"
  "connected dev d b (s\<lparr>l_req := r\<rparr>) = connected dev d b s"
  "connected dev d b (s\<lparr>l_next := n\<rparr>) = connected dev d b s"
  "connected dev d b (s\<lparr>l_held := l\<rparr>) = connected dev d b s"
  by (simp_all add: connected_def)

lemma connected_link: "connected dev d b s \<Longrightarrow> connected dev d b (link_dev dev' io s)"
  by (auto simp: connected_def link_dev_def)

lemma connected_hdev: "connected dev d b s \<Longrightarrow> l_hdev s dev \<noteq> None"
  by (auto simp: connected_def)

section \<open>Synchronous requests\<close>

lemma complete_sync_run:
  assumes "l_held s = {}" "l_io s io = Some x" "\<not> io_async x" "io_callback x" "l_sio s (io_arg x) \<noteq> None"
    and "l_req s (io_req x) = Some r" "set_result (rq_type r) st (ucast n) (rq_req r) = Some q"
  shows "usbi_io_complete io st n s = Some ((), (io_unlink io s)\<lparr>
     l_io := (l_io s)(io \<mapsto> x\<lparr>io_state := IO_COMPLETED\<rparr>),
     l_req := (l_req s)(io_req x \<mapsto> r\<lparr>rq_req := q\<rparr>),
     l_sio := (l_sio s)(io_arg x \<mapsto> \<lparr>si_completed = True, si_status = st\<rparr>)\<rparr>)"
  using assms
  by (auto simp: usbi_io_complete_def simple_io_complete_def lock_io_def unlock_io_def lock_def
      unlock_def Let_def held_same)

lemma async_submit_run:
  assumes "l_held s = {}" "l_io s io = Some x" "l_req s (io_req x) = Some r" "req_ok r"
    and "io_dev x \<noteq> 0" "connected (io_dev x) d b s"
    and "do_xfer_aio (B (dv_ops d)) (rq_type r) (io_dev x) io s = Some (ret, s')"
  shows "usbi_async_submit B io s = Some (if ret < 0 then ret else OPENUSB_SUCCESS, s')"
  using assms req_ok_type [OF assms(4)] dev_ops_connected [OF assms(6), of B]
  by (simp add: usbi_async_submit_def lock_io_def unlock_io_def lock_def unlock_def held_same)

lemma sync_submit_run:
  assumes "l_io s io = Some x" "l_req s (io_req x) = Some r" "req_ok r"
    and "connected (io_dev x) d b s"
    and "do_xfer_wait (B (dv_ops d)) (rq_type r) (io_dev x) io s = Some (ret, s')"
  shows "usbi_sync_submit B io s = Some (if ret < 0 then ret else OPENUSB_SUCCESS, s')"
  using assms req_ok_type [OF assms(3)] dev_ops_connected [OF assms(4), of B]
  by (simp add: usbi_sync_submit_def)

text \<open>The addresses calloc hands out next are unused.\<close>

definition next_free :: "'a lib_scheme \<Rightarrow> bool" where
  "next_free s \<longleftrightarrow> 0 < l_next s \<and> (\<forall>p. l_next s \<le> p \<longrightarrow> l_io s p = None \<and> l_sio s p = None \<and> unlinked p s)"

lemma next_freeD: "next_free s \<Longrightarrow> l_next s \<le> p \<Longrightarrow> l_io s p = None \<and> l_sio s p = None \<and> unlinked p s"
  by (simp add: next_free_def)

lemma io_sync_wait_run:
  assumes st: "connected dev d b s" "l_held s = {}" "next_free s" "\<forall>n. av n"
    and r: "l_req s req = Some r" "req_ok r"
    and pat: "bo_io_pattern (B (bs_ops b)) \<in> {PATTERN_SYNC, PATTERN_BOTH}"
    and wait: "\<forall>t x. l_req t req = Some r \<longrightarrow> l_io t (l_next s) = Some x \<longrightarrow> io_req x = req \<longrightarrow>
      do_xfer_wait (B (dv_ops d)) (rq_type r) dev (l_next s) t = Some (ret, t\<lparr>l_req := (l_req t)(req \<mapsto> r')\<rparr>)"
  shows "usbi_io_sync av B others dev req s = Some (if ret < 0 then ret else OPENUSB_SUCCESS,
     s\<lparr>l_next := l_next s + 1, l_req := (l_req s)(req \<mapsto> r')\<rparr>)"
proof -
  obtain t where t: "usbi_get_xfer_timeout req dev s = Some (t, s)"
    using timeout_run [OF r st(1,2)] by blast
  let ?io = "l_next s"
  let ?x = "new_io dev req t s"
  let ?s1 = "link_dev dev ?io (s\<lparr>l_next := l_next s + 1, l_io := (l_io s)(?io \<mapsto> ?x)\<rparr>)"
  let ?s2 = "?s1\<lparr>l_req := (l_req s)(req \<mapsto> r')\<rparr>"
  have hd: "l_hdev s dev \<noteq> None" and nf: "l_io s ?io = None" "unlinked ?io s" "?io \<noteq> 0"
    using connected_hdev [OF st(1)] next_freeD [OF st(3), of ?io] st(3) by (simp_all add: next_free_def)
  have a: "usbi_alloc_io av dev req t s = Some (?io, ?s1)"
    using alloc_io_run [of s av dev req t] st hd by (simp add: next_free_def)
  have c1: "connected dev d b ?s1" by (rule connected_link) (simp add: st(1))
  have "usbi_sync_submit B ?io ?s1 = Some (if ret < 0 then ret else OPENUSB_SUCCESS, ?s2)"
    by (rule sync_submit_run [where x = ?x and r = r and d = d and b = b])
      (use c1 wait r in simp_all)
  moreover have "usbi_free_io B ?io ?s2 = Some ((), (io_unlink ?io ?s2)\<lparr>l_io := (l_io ?s2)(?io := None)\<rparr>)"
    by (rule free_io_run [where x = ?x])
      (use connected_hdev [OF c1] st(2) nf(3) in \<open>simp_all add: link_dev_def\<close>)
  moreover have "(io_unlink ?io ?s2)\<lparr>l_io := (l_io ?s2)(?io := None)\<rparr> =
      s\<lparr>l_next := l_next s + 1, l_req := (l_req s)(req \<mapsto> r')\<rparr>"
  proof -
    have "(l_io s)(?io := None) = l_io s" using nf(1) by auto
    moreover have "io_unlink ?io (link_dev dev ?io s) = s" by (rule unlink_link_dev [OF nf(2) hd])
    ultimately show ?thesis by simp
  qed
  ultimately show ?thesis
    using t a bus_of_connected [OF st(1)] pat
    by (auto simp: usbi_io_sync_def PATTERN_ASYNC_def PATTERN_SYNC_def PATTERN_BOTH_def)
qed

lemma io_sync_sync_run:
  assumes "connected dev d b s" "l_held s = {}" "next_free s" "\<forall>n. av n"
    and "l_req s req = Some r" "req_ok r"
    and "bo_io_pattern (B (bs_ops b)) \<in> {PATTERN_SYNC, PATTERN_BOTH}"
    and "\<forall>io t. l_req t req = Some r \<longrightarrow> do_xfer_wait (B (dv_ops d)) (rq_type r) dev io t =
      Some (ret, t\<lparr>l_req := (l_req t)(req \<mapsto> r')\<rparr>)"
  shows "usbi_io_sync av B others dev req s = Some (if ret < 0 then ret else OPENUSB_SUCCESS,
     s\<lparr>l_next := l_next s + 1, l_req := (l_req s)(req \<mapsto> r')\<rparr>)"
  by (rule io_sync_wait_run [where B = B and av = av, OF assms(1-7)]) (use assms(8) in blast)

end
