(* ===== verification/IoSync.thy ===== *)
theory IoSync
  imports Io
begin

text \<open>
  What a caller of usbi_io_sync can rely on: the same outcome from a synchronous and from an
  asynchronous backend, and nothing left behind. Then the cases where it cannot: a wait that
  is woken early, and an allocation that fails.
\<close>

lemma link_dev_sio [simp]: "link_dev dev io (s\<lparr>l_sio := z\<rparr>) = (link_dev dev io s)\<lparr>l_sio := z\<rparr>"
  by (simp add: link_dev_def)

lemma io_sync_async_run:
  assumes st: "connected dev d b s" "l_held s = {}" "next_free s" "\<forall>n. av n" "dev \<noteq> 0"
    and r: "l_req s req = Some r" "req_ok r"
    and pat: "bo_io_pattern (B (bs_ops b)) = PATTERN_ASYNC"
    and aio: "\<And>t. do_xfer_aio (B (dv_ops d)) (rq_type r) dev (l_next s) t = Some (0, t)"
    and q: "set_result (rq_type r) st (ucast n) (rq_req r) = Some q"
    and others: "\<And>t. others t = map_option snd (usbi_io_complete (l_next s) st n t)"
  shows "usbi_io_sync av B others dev req s = Some (st,
     s\<lparr>l_next := l_next s + 2, l_req := (l_req s)(req \<mapsto> r\<lparr>rq_req := q\<rparr>)\<rparr>)"
proof -
  obtain t where t: "usbi_get_xfer_timeout req dev s = Some (t, s)"
    using timeout_run [OF r st(1,2)] by blast
  let ?io = "l_next s"
  let ?x = "new_io dev req t s"
  let ?x' = "?x\<lparr>io_callback := True, io_arg := ?io + 1\<rparr>"
  let ?s1 = "link_dev dev ?io (s\<lparr>l_next := ?io + 1, l_io := (l_io s)(?io \<mapsto> ?x)\<rparr>)"
  let ?s2 = "?s1\<lparr>l_next := ?io + 2, l_io := (l_io ?s1)(?io \<mapsto> ?x'),
     l_sio := (l_sio s)(?io + 1 \<mapsto> \<lparr>si_completed = False, si_status = 0\<rparr>)\<rparr>"
  let ?s3 = "(io_unlink ?io ?s2)\<lparr>l_io := (l_io ?s2)(?io \<mapsto> ?x'\<lparr>io_state := IO_COMPLETED\<rparr>),
     l_req := (l_req s)(req \<mapsto> r\<lparr>rq_req := q\<rparr>),
     l_sio := (l_sio ?s2)(?io + 1 \<mapsto> \<lparr>si_completed = True, si_status = st\<rparr>)\<rparr>"
  let ?s4 = "(io_unlink ?io ?s3)\<lparr>l_io := (l_io ?s3)(?io := None)\<rparr>"
  have hd: "l_hdev s dev \<noteq> None" and nf: "l_io s ?io = None" "unlinked ?io s" "?io \<noteq> 0"
    "l_sio s (?io + 1) = None"
    using connected_hdev [OF st(1)] next_freeD [OF st(3), of ?io] next_freeD [OF st(3), of "?io + 1"] st(3)
    by (simp_all add: next_free_def)
  have a: "usbi_alloc_io av dev req t s = Some (?io, ?s1)"
    using alloc_io_run [of s av dev req t] st hd by (simp add: next_free_def)
  have c1: "connected dev d b ?s2" using connected_link [of dev d b] st(1) by simp
  have sub: "usbi_async_submit B ?io ?s2 = Some (0, ?s2)"
    using async_submit_run [of ?s2 ?io ?x' r d b B 0 ?s2] c1 aio r st(2,5)
    by (simp add: OPENUSB_SUCCESS_def)
  have "usbi_io_complete ?io st n ?s2 = Some ((), ?s3)"
    using complete_sync_run [of ?s2 ?io ?x' r st n q] q r(1) st(2) by simp
  then have w: "simple_io_wait others (?io + 1) ?s2 = Some (st, ?s3)"
    using st(2) by (simp add: simple_io_wait_def lock_def unlock_def held_same others)
  have f: "usbi_free_io B ?io ?s3 = Some ((), ?s4)"
    by (rule free_io_run [where x = "?x'\<lparr>io_state := IO_COMPLETED\<rparr>"])
      (use hd st(2) nf(3) in \<open>simp_all add: link_dev_def new_io_def\<close>)
  have e: "io_unlink ?io (io_unlink ?io (link_dev dev ?io s)) = s"
    using unlink_link_dev [OF nf(2) hd] io_unlink_unlinked [OF nf(2)] by simp
  have "?s4\<lparr>l_sio := (l_sio ?s4)(?io + 1 := None)\<rparr> =
      s\<lparr>l_next := ?io + 2, l_req := (l_req s)(req \<mapsto> r\<lparr>rq_req := q\<rparr>)\<rparr>"
    using e nf(1,4) by (simp add: fun_upd_idem)
  then show ?thesis
    using t a bus_of_connected [OF st(1)] pat sub w f nf(3) st(4)
    by (simp add: usbi_io_sync_def fresh_def Let_def)
qed


section \<open>The two kinds of backend\<close>


section \<open>A wait that is woken early\<close>

lemma io_sync_woken_run:
  assumes st: "connected dev d b s" "l_held s = {}" "next_free s" "\<forall>n. av n" "dev \<noteq> 0"
    and r: "l_req s req = Some r" "req_ok r"
    and pat: "bo_io_pattern (B (bs_ops b)) = PATTERN_ASYNC"
    and aio: "\<And>t. do_xfer_aio (B (dv_ops d)) (rq_type r) dev (l_next s) t = Some (0, t)"
  shows "usbi_io_sync av B Some dev req s = Some (0, s\<lparr>l_next := l_next s + 2\<rparr>)"
proof -
  obtain t where t: "usbi_get_xfer_timeout req dev s = Some (t, s)"
    using timeout_run [OF r st(1,2)] by blast
  let ?io = "l_next s"
  let ?x = "new_io dev req t s"
  let ?x' = "?x\<lparr>io_callback := True, io_arg := ?io + 1\<rparr>"
  let ?s1 = "link_dev dev ?io (s\<lparr>l_next := ?io + 1, l_io := (l_io s)(?io \<mapsto> ?x)\<rparr>)"
  let ?s2 = "?s1\<lparr>l_next := ?io + 2, l_io := (l_io ?s1)(?io \<mapsto> ?x'),
     l_sio := (l_sio s)(?io + 1 \<mapsto> \<lparr>si_completed = False, si_status = 0\<rparr>)\<rparr>"
  let ?s4 = "(io_unlink ?io ?s2)\<lparr>l_io := (l_io ?s2)(?io := None)\<rparr>"
  have hd: "l_hdev s dev \<noteq> None" and nf: "l_io s ?io = None" "unlinked ?io s" "?io \<noteq> 0"
    "l_sio s (?io + 1) = None"
    using connected_hdev [OF st(1)] next_freeD [OF st(3), of ?io] next_freeD [OF st(3), of "?io + 1"] st(3)
    by (simp_all add: next_free_def)
  have a: "usbi_alloc_io av dev req t s = Some (?io, ?s1)"
    using alloc_io_run [of s av dev req t] st hd by (simp add: next_free_def)
  have c1: "connected dev d b ?s2" using connected_link [of dev d b] st(1) by simp
  have sub: "usbi_async_submit B ?io ?s2 = Some (0, ?s2)"
    using async_submit_run [of ?s2 ?io ?x' r d b B 0 ?s2] c1 aio r st(2,5)
    by (simp add: OPENUSB_SUCCESS_def)
  have w: "simple_io_wait Some (?io + 1) ?s2 = Some (0, ?s2)"
    using st(2) by (simp add: simple_io_wait_def lock_def unlock_def held_same)
  have f: "usbi_free_io B ?io ?s2 = Some ((), ?s4)"
    by (rule free_io_run [where x = ?x'])
      (use hd st(2) nf(3) in \<open>simp_all add: link_dev_def new_io_def\<close>)
  have "?s4\<lparr>l_sio := (l_sio ?s4)(?io + 1 := None)\<rparr> = s\<lparr>l_next := ?io + 2\<rparr>"
    using unlink_link_dev [OF nf(2) hd] nf(1,4) by (simp add: fun_upd_idem)
  then show ?thesis
    using t a bus_of_connected [OF st(1)] pat sub w f nf(3) st(4)
    by (simp add: usbi_io_sync_def fresh_def Let_def)
qed

text \<open>simple_io_wait tests completed with if and not with while. When pthread_cond_wait
  returns before the request is complete, which POSIX allows at any time, usbi_io_sync returns
  success without a result in the request and frees the structure of the request that the
  backend still has in flight; the backend's completion then uses it after it was freed.\<close>

theorem early_wakeup:
  assumes "connected dev d b s" "l_held s = {}" "next_free s" "\<forall>n. av n" "dev \<noteq> 0"
    and "l_req s req = Some r" "req_ok r"
    and "bo_io_pattern (B (bs_ops b)) = PATTERN_ASYNC"
    and "\<And>t. do_xfer_aio (B (dv_ops d)) (rq_type r) dev (l_next s) t = Some (0, t)"
  shows "\<exists>s'. usbi_io_sync av B Some dev req s = Some (OPENUSB_SUCCESS, s') \<and> l_req s' req = Some r \<and>
     usbi_io_complete (l_next s) st n s' = None"
  using io_sync_woken_run [OF assms] next_freeD [OF assms(3), of "l_next s"] assms(6)
  by (simp add: OPENUSB_SUCCESS_def usbi_io_complete_def)

section \<open>The deadline\<close>

definition micros :: "int \<times> int \<Rightarrow> int" where
  "micros t = fst t * 1000000 + snd t"

text \<open>The end time that usbi_alloc_io stores is the current time plus the timeout, to the
  microsecond, and its tv_usec is at most 1000000. The value 1000000, which is no valid
  tv_usec, is reached: the carry compares with > where it has to compare with >=.\<close>

theorem deadline_of_timeout:
  assumes "0 \<le> snd now" "snd now < 1000000"
  shows "micros (io_deadline now timeout) = micros now + uint timeout * 1000 \<and>
    0 \<le> snd (io_deadline now timeout) \<and> snd (io_deadline now timeout) \<le> 1000000 \<and>
    (snd (io_deadline now timeout) = 1000000 \<longleftrightarrow>
      snd now + uint timeout mod 1000 * 1000 = 1000000)"
proof -
  have d: "uint (timeout div 1000) = uint timeout div 1000"
    "uint (timeout mod 1000) = uint timeout mod 1000"
    by (simp_all add: uint_div_distrib uint_mod_distrib)
  obtain a b where ab: "uint timeout = 1000 * a + b" "uint timeout div 1000 = a"
    "uint timeout mod 1000 = b" "0 \<le> b" "b < 1000"
    using mult_div_mod_eq [of 1000 "uint timeout"] by (metis pos_mod_bound pos_mod_sign zero_less_numeral)
  then show ?thesis using assms by (simp add: micros_def io_deadline_def Let_def d)
qed


section \<open>Asynchronous requests\<close>

text \<open>The request io of the device handle dev is put on the complete_list of its library
  handle, with result q, and taken off every other list.\<close>

definition delivered :: "addr \<Rightarrow> addr \<Rightarrow> openusb_request \<Rightarrow> 'a lib_scheme \<Rightarrow> 'a lib_scheme" where
  "delivered io dev q s = (let x = the (l_io s io); p = hv_lib_hdl (the (l_hdev s dev)); s = io_unlink io s;
       h = the (l_hdl s p)
     in s\<lparr>l_hdl := (l_hdl s)(p \<mapsto> h\<lparr>hd_complete_list := hd_complete_list h @ [io],
                                 hd_complete_count := hd_complete_count h + 1\<rparr>),
          l_req := (l_req s)(io_req x \<mapsto> (the (l_req s (io_req x)))\<lparr>rq_req := q\<rparr>)\<rparr>)"

lemma complete_async_run:
  assumes "l_held s = {}" "l_io s io = Some x" "io_async x" "\<not> io_callback x"
    and "l_hdev s (io_dev x) = Some v" "l_hdl s (hv_lib_hdl v) = Some h"
    and "l_req s (io_req x) = Some r" "set_result (rq_type r) st (ucast n) (rq_req r) = Some q"
  shows "usbi_io_complete io st n s = Some ((), (delivered io (io_dev x) q s)\<lparr>
     l_io := (l_io s)(io \<mapsto> x\<lparr>io_state := IO_COMPLETED\<rparr>),
     l_req_cbs := l_req_cbs s @ (if rq_cb r then [io_req x] else [])\<rparr>)"
proof -
  have c: "io_unlink io (t\<lparr>l_held := l\<rparr>) = (io_unlink io t)\<lparr>l_held := l\<rparr>" for t l
    by (simp add: io_unlink_def)
  have n: "l_req_cbs (io_unlink io s) = l_req_cbs s" by (simp add: io_unlink_def)
  show ?thesis
    using assms
    by (simp add: usbi_io_complete_def add_complete_def lock_io_def unlock_io_def lock_def unlock_def
        Let_def held_same c n delivered_def ls_add_def)
qed

lemma io_async_run:
  assumes "l_held s = {}" "l_io s io = Some x" "l_req s (io_req x) = Some r" "req_ok r"
    and "io_dev x \<noteq> 0" "connected (io_dev x) d b s"
  shows "usbi_io_async create B io s =
     (if bo_io_pattern (B (bs_ops b)) \<in> {PATTERN_ASYNC, PATTERN_BOTH} then usbi_async_submit B io s
      else if bo_io_pattern (B (bs_ops b)) = PATTERN_SYNC then
        Some (if create < 0 then OPENUSB_PLATFORM_FAILURE else OPENUSB_SUCCESS,
          if create = 0 then s\<lparr>l_submits := l_submits s @ [io]\<rparr> else s)
      else Some (OPENUSB_PLATFORM_FAILURE, s))"
  using assms req_ok_type [OF assms(4)]
  by (auto simp: usbi_io_async_def lock_io_def unlock_io_def lock_def unlock_def held_same Let_def
      connected_def usb_types)

lemma io_submit_run:
  assumes "l_held s = {}" "l_io s io = Some x" "l_req s (io_req x) = Some r" "req_ok r" "\<not> rq_cb r"
    and "connected (io_dev x) d b s" "l_hdev s (io_dev x) = Some v" "l_hdl s (hv_lib_hdl v) = Some h"
    and "\<And>t. l_req t (io_req x) = Some r \<Longrightarrow> do_xfer_wait (B (dv_ops d)) (rq_type r) (io_dev x) io t =
      Some (st, t\<lparr>l_req := (l_req t)(io_req x \<mapsto> r\<lparr>rq_req := q\<rparr>)\<rparr>)"
  shows "io_submit B io s = Some ((), delivered io (io_dev x) q s)"
proof -
  let ?s = "io_unlink io s"
  let ?t = "?s\<lparr>l_req := (l_req ?s)(io_req x \<mapsto> r\<lparr>rq_req := q\<rparr>)\<rparr>"
  have c: "connected (io_dev x) d b ?s"
    using assms(6) by (auto simp: connected_def)
  have "usbi_sync_submit B io ?s = Some (if st < 0 then st else OPENUSB_SUCCESS, ?t)"
    by (rule sync_submit_run [where x = x and r = r and d = d and b = b]) (use assms c in simp_all)
  then show ?thesis using assms
    by (simp add: io_submit_def add_complete_def lock_def unlock_def Let_def held_same delivered_def ls_add_def)
qed

text \<open>An asynchronous request without a callback reaches the application the same way from
  both kinds of backend: usbi_io_async returns success, and once an asynchronous backend has
  completed the request with a result, or the thread that usbi_io_async starts for a synchronous
  backend has run it, the request holds the result and is the last entry of the complete_list of
  its library handle, whose count is one higher, and it is off the io_head. The two states differ
  only in the status of the usbi_io, which the thread leaves in progress.\<close>

theorem async_requests_same:
  assumes st: "l_held s = {}" "l_io s io = Some x" "io_async x" "\<not> io_callback x" "io_dev x \<noteq> 0"
    and r: "l_req s (io_req x) = Some r" "req_ok r" "\<not> rq_cb r" "connected (io_dev x) d b s"
    and q: "set_result (rq_type r) st (ucast n) (rq_req r) = Some q"
    and asyn: "bo_io_pattern (B (bs_ops b)) = PATTERN_ASYNC"
      "do_xfer_aio (B (dv_ops d)) (rq_type r) (io_dev x) io s = Some (0, s)"
    and syn: "bo_io_pattern (B' (bs_ops b)) = PATTERN_SYNC"
      "\<And>t. l_req t (io_req x) = Some r \<Longrightarrow> do_xfer_wait (B' (dv_ops d)) (rq_type r) (io_dev x) io t =
         Some (st, t\<lparr>l_req := (l_req t)(io_req x \<mapsto> r\<lparr>rq_req := q\<rparr>)\<rparr>)"
  shows "\<exists>t v h. usbi_io_async 0 B io s = Some (OPENUSB_SUCCESS, s) \<and>
     usbi_io_complete io st n s = Some ((), t\<lparr>l_io := (l_io s)(io \<mapsto> x\<lparr>io_state := IO_COMPLETED\<rparr>)\<rparr>) \<and>
     usbi_io_async 0 B' io s = Some (OPENUSB_SUCCESS, s\<lparr>l_submits := l_submits s @ [io]\<rparr>) \<and>
     io_submit B' io s = Some ((), t) \<and>
     l_req t (io_req x) = Some (r\<lparr>rq_req := q\<rparr>) \<and> l_hdev s (io_dev x) = Some v \<and>
     l_hdl s (hv_lib_hdl v) = Some h \<and> l_hdl t (hv_lib_hdl v) = Some (h\<lparr>
       hd_complete_list := remove1 io (hd_complete_list h) @ [io], hd_complete_count := hd_complete_count h + 1\<rparr>) \<and>
     l_hdev t (io_dev x) = Some (v\<lparr>hv_io_head := remove1 io (hv_io_head v)\<rparr>)"
proof -
  from r(4) obtain v h where vh: "l_hdev s (io_dev x) = Some v" "l_hdl s (hv_lib_hdl v) = Some h"
    by (auto simp: connected_def)
  let ?t = "delivered io (io_dev x) q s"
  have a: "usbi_io_async 0 B io s = Some (OPENUSB_SUCCESS, s)"
    using io_async_run [OF st(1,2) r(1,2) st(5) r(4)] asyn
      async_submit_run [OF st(1,2) r(1,2) st(5) r(4), of B 0 s] by (simp add: OPENUSB_SUCCESS_def)
  have s: "usbi_io_async 0 B' io s = Some (OPENUSB_SUCCESS, s\<lparr>l_submits := l_submits s @ [io]\<rparr>)"
    using io_async_run [OF st(1,2) r(1,2) st(5) r(4)] syn
    by (simp add: PATTERN_ASYNC_def PATTERN_SYNC_def PATTERN_BOTH_def)
  have c: "usbi_io_complete io st n s = Some ((), ?t\<lparr>l_io := (l_io s)(io \<mapsto> x\<lparr>io_state := IO_COMPLETED\<rparr>)\<rparr>)"
    using complete_async_run [OF st(1-4) vh r(1) q] r(3) by (simp add: delivered_def Let_def io_unlink_def)
  have t: "io_submit B' io s = Some ((), ?t)"
    by (rule io_submit_run [OF st(1,2) r(1,2,3,4) vh, of B' st q]) (rule syn(2))
  have "l_req ?t (io_req x) = Some (r\<lparr>rq_req := q\<rparr>)" "l_hdl ?t (hv_lib_hdl v) = Some (h\<lparr>
       hd_complete_list := remove1 io (hd_complete_list h) @ [io], hd_complete_count := hd_complete_count h + 1\<rparr>)"
    "l_hdev ?t (io_dev x) = Some (v\<lparr>hv_io_head := remove1 io (hv_io_head v)\<rparr>)"
    using st(2) r(1) vh by (simp_all add: delivered_def Let_def)
  then show ?thesis using a s c t vh by (intro exI conjI) assumption+
qed

text \<open>pthread_create fails with a positive error number, and usbi_io_async only takes a
  negative one for a failure: with a synchronous backend it reports success for a request that
  no thread will run. The request stays on io_head and in progress.\<close>

lemma async_thread_failure:
  assumes "l_held s = {}" "l_io s io = Some x" "l_req s (io_req x) = Some r" "req_ok r"
    and "io_dev x \<noteq> 0" "connected (io_dev x) d b s" "bo_io_pattern (B (bs_ops b)) = PATTERN_SYNC"
    and "0 < create"
  shows "usbi_io_async create B io s = Some (OPENUSB_SUCCESS, s)"
  using io_async_run [OF assms(1-6)] assms(7,8)
  by (simp add: PATTERN_ASYNC_def PATTERN_SYNC_def PATTERN_BOTH_def)

end
