(* ===== verification/IoLists.thy ===== *)
theory IoLists
  imports Io
begin

text \<open>
  The lists of requests. usbi_alloc_io puts a request on the io_head of its device handle,
  usbi_io_complete moves an asynchronous one to the complete_list of its library handle, and
  usbi_free_io takes it off. The invariant: an entry of a list is a live request of that
  handle, and it is on one list only and once. So no list is left with a freed entry.
\<close>

section \<open>The invariant\<close>

definition outstanding :: "'a lib_scheme \<Rightarrow> addr \<Rightarrow> addr list" where
  "outstanding s p = (case l_hdev s p of None \<Rightarrow> [] | Some h \<Rightarrow> hv_io_head h)"

definition finished :: "'a lib_scheme \<Rightarrow> addr \<Rightarrow> addr list" where
  "finished s q = (case l_hdl s q of None \<Rightarrow> [] | Some h \<Rightarrow> hd_complete_list h)"

definition owner :: "'a lib_scheme \<Rightarrow> addr \<Rightarrow> addr option" where
  "owner s io = map_option io_dev (l_io s io)"

definition lib_of :: "'a lib_scheme \<Rightarrow> addr \<Rightarrow> addr option" where
  "lib_of s p = map_option hv_lib_hdl (l_hdev s p)"

definition io_lists_ok :: "'a lib_scheme \<Rightarrow> bool" where
  "io_lists_ok s \<longleftrightarrow>
     (\<forall>p. distinct (outstanding s p)) \<and> (\<forall>q. distinct (finished s q)) \<and>
     (\<forall>p. \<forall>io \<in> set (outstanding s p). owner s io = Some p) \<and>
     (\<forall>q. \<forall>io \<in> set (finished s q). \<exists>p. owner s io = Some p \<and> lib_of s p = Some q \<and>
        io \<notin> set (outstanding s p)) \<and>
     (\<forall>io. l_next s \<le> io \<longrightarrow> owner s io = None)"

lemma io_lists_okI:
  assumes "\<And>p. distinct (outstanding s p)" "\<And>q. distinct (finished s q)"
    and "\<And>p io. io \<in> set (outstanding s p) \<Longrightarrow> owner s io = Some p"
    and "\<And>q io. io \<in> set (finished s q) \<Longrightarrow> \<exists>p. owner s io = Some p \<and> lib_of s p = Some q \<and> io \<notin> set (outstanding s p)"
    and "\<And>io. l_next s \<le> io \<Longrightarrow> owner s io = None"
  shows "io_lists_ok s"
  using assms unfolding io_lists_ok_def by blast

lemma io_lists_okD:
  assumes "io_lists_ok s"
  shows "distinct (outstanding s p)" "distinct (finished s q)"
    and "io \<in> set (outstanding s p) \<Longrightarrow> owner s io = Some p"
    and "io \<in> set (finished s q) \<Longrightarrow> \<exists>p. owner s io = Some p \<and> lib_of s p = Some q \<and> io \<notin> set (outstanding s p)"
    and "l_next s \<le> io \<Longrightarrow> owner s io = None"
  using assms unfolding io_lists_ok_def by blast+

lemma io_lists_ok_cong:
  assumes "io_lists_ok s" "outstanding t = outstanding s" "finished t = finished s" "owner t = owner s"
    "lib_of t = lib_of s" "l_next t = l_next s"
  shows "io_lists_ok t"
  using assms by (simp add: io_lists_ok_def)

lemma views_unlink [simp]:
  "outstanding (io_unlink io s) p = remove1 io (outstanding s p)"
  "finished (io_unlink io s) q = remove1 io (finished s q)"
  "owner (io_unlink io s) = owner s" "lib_of (io_unlink io s) = lib_of s"
  "l_next (io_unlink io s) = l_next s"
  by (simp_all add: outstanding_def finished_def owner_def lib_of_def io_unlink_def ls_del_def fun_eq_iff
      option.map_comp comp_def split: option.split)

lemma pending_link [simp]:
  "l_hdev s dev \<noteq> None \<Longrightarrow> outstanding (link_dev dev io s) p = outstanding s p @ (if p = dev then [io] else [])"
  by (auto simp: outstanding_def link_dev_def)

lemma views_link [simp]:
  "finished (link_dev dev io s) = finished s" "owner (link_dev dev io s) = owner s"
  by (simp_all add: finished_def owner_def fun_eq_iff)

lemma lib_of_link [simp]: "l_hdev s dev \<noteq> None \<Longrightarrow> lib_of (link_dev dev io s) = lib_of s"
  by (auto simp: lib_of_def link_dev_def fun_eq_iff)

lemma unlinked_views: "unlinked io s \<longleftrightarrow> (\<forall>p. io \<notin> set (outstanding s p)) \<and> (\<forall>q. io \<notin> set (finished s q))"
  by (auto simp: unlinked_def outstanding_def finished_def split: option.splits; metis)

section \<open>The steps the operations are made of\<close>

lemma lists_unlink:
  assumes ok: "io_lists_ok s"
  shows "io_lists_ok (io_unlink io s)" and "unlinked io (io_unlink io s)"
proof -
  note D = io_lists_okD [OF ok]
  show "unlinked io (io_unlink io s)" by (simp add: unlinked_views D)
  show "io_lists_ok (io_unlink io s)"
    by (rule io_lists_okI) (auto simp: D dest: D(4) intro: D(3,5))
qed

text \<open>A request on no list: it is freed, put on the list of its device handle, or on the
  list of its library handle.\<close>

lemma lists_free:
  assumes ok: "io_lists_ok s" and un: "unlinked io s"
  shows "io_lists_ok (s\<lparr>l_io := (l_io s)(io := None)\<rparr>)"
proof -
  note D = io_lists_okD [OF ok]
  have o: "owner (s\<lparr>l_io := (l_io s)(io := None)\<rparr>) = (owner s)(io := None)"
    by (simp add: owner_def fun_eq_iff)
  have v: "outstanding (s\<lparr>l_io := i\<rparr>) = outstanding s" "finished (s\<lparr>l_io := i\<rparr>) = finished s"
    "lib_of (s\<lparr>l_io := i\<rparr>) = lib_of s" for i
    by (simp_all add: outstanding_def finished_def lib_of_def fun_eq_iff)
  have n: "io \<notin> set (outstanding s p)" "io \<notin> set (finished s q)" for p q
    using un by (simp_all add: unlinked_views)
  show ?thesis
  proof (rule io_lists_okI, unfold o v)
    show "\<exists>p. ((owner s)(io := None)) j = Some p \<and> lib_of s p = Some q \<and> j \<notin> set (outstanding s p)"
      if "j \<in> set (finished s q)" for j q
      using D(4) [OF that] n(2) [of q] that by (metis fun_upd_other)
  qed (use D(1,2,3,5) n in auto)
qed

lemma lists_new:
  assumes ok: "io_lists_ok s" and p: "l_hdev s dev \<noteq> None" and x: "io_dev x = dev"
  shows "io_lists_ok (link_dev dev (l_next s) (s\<lparr>l_next := l_next s + 1, l_io := (l_io s)(l_next s \<mapsto> x)\<rparr>))"
    (is "io_lists_ok ?t")
proof -
  note D = io_lists_okD [OF ok]
  have o: "owner ?t = (owner s)(l_next s \<mapsto> dev)" by (simp add: owner_def x fun_eq_iff)
  have n: "l_next s \<notin> set (outstanding s p)" "l_next s \<notin> set (finished s q)" for p q
    using D(3) [of "l_next s"] D(4) [of "l_next s"] D(5) [of "l_next s"] by auto
  have v: "outstanding ?t p = outstanding s p @ (if p = dev then [l_next s] else [])" "finished ?t = finished s"
    "lib_of ?t = lib_of s" for p
    using p by (auto simp: outstanding_def finished_def lib_of_def link_dev_def fun_eq_iff)
  show ?thesis
  proof (rule io_lists_okI, unfold o v)
    show "\<exists>p. ((owner s)(l_next s \<mapsto> dev)) j = Some p \<and> lib_of s p = Some q \<and>
        j \<notin> set (outstanding s p @ (if p = dev then [l_next s] else []))"
      if "j \<in> set (finished s q)" for j q
    proof -
      have "j \<noteq> l_next s" using that n(2) by metis
      then show ?thesis using D(4) [OF that] by auto
    qed
  qed (use D(1,2,3,5) n in \<open>auto split: if_splits\<close>)
qed

lemma lists_complete:
  assumes ok: "io_lists_ok s" and un: "unlinked io s"
    and o: "owner s io = Some p" "lib_of s p = Some q"
    and h: "l_hdl s q = Some h" "hd_complete_list h' = hd_complete_list h @ [io]"
  shows "io_lists_ok (s\<lparr>l_hdl := (l_hdl s)(q \<mapsto> h')\<rparr>)"
proof -
  note D = io_lists_okD [OF ok]
  let ?t = "s\<lparr>l_hdl := (l_hdl s)(q \<mapsto> h')\<rparr>"
  have v: "outstanding ?t = outstanding s" "owner ?t = owner s" "lib_of ?t = lib_of s"
    "finished ?t p = finished s p @ (if p = q then [io] else [])" for p
    using h by (auto simp: outstanding_def finished_def lib_of_def owner_def fun_eq_iff)
  have n: "io \<notin> set (outstanding s p)" "io \<notin> set (finished s q)" for p q
    using un by (simp_all add: unlinked_views)
  show ?thesis
  proof (rule io_lists_okI, unfold v)
    show "\<exists>p. owner s j = Some p \<and> lib_of s p = Some r \<and> j \<notin> set (outstanding s p)"
      if "j \<in> set (finished s r @ (if r = q then [io] else []))" for j r
    proof (cases "j = io \<and> r = q")
      case True
      then show ?thesis using o n by auto
    next
      case False
      then have "j \<in> set (finished s r)" using that by (auto split: if_splits)
      then show ?thesis by (rule D(4))
    qed
  qed (use D(1,2,3,5) n in auto)
qed


section \<open>The operations\<close>

text \<open>The views the invariant is made of; locks, results and callbacks do not show in them.\<close>

definition same_lists :: "'a lib_scheme \<Rightarrow> 'a lib_scheme \<Rightarrow> bool" where
  "same_lists s t \<longleftrightarrow> l_hdev t = l_hdev s \<and> l_hdl t = l_hdl s \<and> owner t = owner s \<and> l_next t = l_next s"

lemma same_lists_ok: "io_lists_ok s \<Longrightarrow> same_lists s t \<Longrightarrow> io_lists_ok t"
  by (rule io_lists_ok_cong) (auto simp: same_lists_def outstanding_def finished_def lib_of_def fun_eq_iff)

lemma same_lists_unlinked: "same_lists s t \<Longrightarrow> unlinked io t = unlinked io s"
  by (simp add: same_lists_def unlinked_def)

lemma same_lists_refl [simp]: "same_lists s s"
  by (simp add: same_lists_def)

lemma same_lists_trans: "same_lists s t \<Longrightarrow> same_lists t u \<Longrightarrow> same_lists s u"
  by (simp add: same_lists_def)

lemma same_lists_upd [simp]:
  "same_lists s (s\<lparr>l_held := l\<rparr>)" "same_lists s (s\<lparr>l_req := r\<rparr>)" "same_lists s (s\<lparr>l_sio := z\<rparr>)"
  "same_lists s (s\<lparr>l_req_cbs := c\<rparr>)"
  by (simp_all add: same_lists_def owner_def fun_eq_iff)

lemma locks_same:
  "lock k s = Some t \<Longrightarrow> same_lists s t" "unlock k s = Some t \<Longrightarrow> same_lists s t"
  "lock_io io s = Some t \<Longrightarrow> same_lists s t" "unlock_io io s = Some t \<Longrightarrow> same_lists s t"
  "lock_hdev p s = Some t \<Longrightarrow> same_lists s t" "unlock_hdev p s = Some t \<Longrightarrow> same_lists s t"
  by (auto simp: lock_def unlock_def lock_io_def unlock_io_def lock_hdev_def unlock_hdev_def
      bind_Some_iff split: if_splits)

lemma locks_io:
  "lock k s = Some t \<Longrightarrow> l_io t = l_io s" "unlock k s = Some t \<Longrightarrow> l_io t = l_io s"
  "lock_io io s = Some t \<Longrightarrow> l_io t = l_io s" "unlock_io io s = Some t \<Longrightarrow> l_io t = l_io s"
  "lock_hdev p s = Some t \<Longrightarrow> l_io t = l_io s" "unlock_hdev p s = Some t \<Longrightarrow> l_io t = l_io s"
  by (auto simp: lock_def unlock_def lock_io_def unlock_io_def lock_hdev_def unlock_hdev_def
      bind_Some_iff split: if_splits)

text \<open>A backend that leaves the lists to the frontend.\<close>

definition keeps_lists :: "(nat \<Rightarrow> 'a lib_scheme backend_ops) \<Rightarrow> bool" where
  "keeps_lists B \<longleftrightarrow>
     (\<forall>n cancel io s r t. do_io_cancel (B n) = Some cancel \<longrightarrow> cancel io s = Some (r, t) \<longrightarrow> same_lists s t) \<and>
     (\<forall>n ty dev io s r t. do_xfer_wait (B n) ty dev io s = Some (r, t) \<longrightarrow> same_lists s t)"

lemma locks_views:
  "lock_hdev p s = Some t \<Longrightarrow> l_hdev s p \<noteq> None \<and> l_hdev t = l_hdev s \<and> l_next t = l_next s \<and> l_io t = l_io s"
  "unlock_hdev p s = Some t \<Longrightarrow> l_hdev s p \<noteq> None \<and> l_hdev t = l_hdev s \<and> l_next t = l_next s \<and> l_io t = l_io s"
  by (auto simp: lock_def unlock_def lock_hdev_def unlock_hdev_def bind_Some_iff split: if_splits)

lemma lists_next_up: "io_lists_ok s \<Longrightarrow> io_lists_ok (s\<lparr>l_next := l_next s + 1\<rparr>)"
  by (auto simp: io_lists_ok_def outstanding_def finished_def lib_of_def owner_def)

lemma alloc_lists:
  assumes ok: "io_lists_ok s" and run: "usbi_alloc_io av dev req timeout s = Some (io, s')"
  shows "io_lists_ok s'"
proof (cases "av (l_next s) \<and> l_next s \<noteq> 0")
  case False
  then show ?thesis using run lists_next_up [OF ok]
    by (auto simp: usbi_alloc_io_def fresh_def split: if_splits)
next
  case True
  define x where "x = \<lparr>io_dev = dev, io_req = req, io_state = IO_INPROGRESS,
    io_async = False, io_callback = False, io_arg = 0,
    io_tvo = io_deadline (l_time s) (io_timeout_of timeout), io_timeout = io_timeout_of timeout\<rparr>"
  define s1 where "s1 = s\<lparr>l_next := l_next s + 1, l_io := (l_io s)(l_next s \<mapsto> x)\<rparr>"
  from run True obtain s2 h where
    l: "lock_hdev dev s1 = Some s2" and h: "l_hdev s2 dev = Some h"
    and u: "unlock_hdev dev (s2\<lparr>l_hdev := (l_hdev s2)(dev \<mapsto> h\<lparr>hv_io_head := ls_add (l_next s) (hv_io_head h)\<rparr>)\<rparr>) = Some s'"
    by (auto simp: usbi_alloc_io_def fresh_def bind_Some_iff s1_def x_def Let_def)
  have d: "l_hdev s dev \<noteq> None" "l_hdev s2 = l_hdev s" using locks_views(1) [OF l] by (simp_all add: s1_def)
  have "io_lists_ok (link_dev dev (l_next s) s1)"
    unfolding s1_def by (rule lists_new [OF ok d(1)]) (simp add: x_def)
  moreover have "same_lists (link_dev dev (l_next s) s1) s'"
    using locks_same(5) [OF l] locks_same(6) [OF u] h d
    by (simp add: same_lists_def link_dev_def s1_def ls_add_def owner_def fun_eq_iff)
  ultimately show ?thesis by (rule same_lists_ok)
qed

lemma free_lists:
  assumes ok: "io_lists_ok s" and B: "keeps_lists B" and run: "usbi_free_io B io s = Some ((), s')"
  shows "io_lists_ok s'" and "io \<noteq> 0 \<Longrightarrow> l_io s' io = None"
proof -
  have "io_lists_ok s' \<and> (io \<noteq> 0 \<longrightarrow> l_io s' io = None)"
  proof (cases "io = 0")
    case True
    then show ?thesis using ok run by (simp add: usbi_free_io_def)
  next
    case False
    with run obtain s1 x s2 s3 s4 s5 where
      1: "lock_io io s = Some s1" "l_io s1 io = Some x" "lock_hdev (io_dev x) s1 = Some s2"
        "unlock_hdev (io_dev x) (io_unlink io s2) = Some s3"
      and c: "(if io_state x = IO_INPROGRESS \<and> io_async x then do {
                 ops \<leftarrow> dev_ops B (io_dev x) s3;
                 (case do_io_cancel ops of None \<Rightarrow> Some s3
                  | Some cancel \<Rightarrow> do { (_, s) \<leftarrow> cancel io s3; Some s })
               } else Some s3) = Some s4"
      and 2: "unlock_io io s4 = Some s5" "s' = s5\<lparr>l_io := (l_io s5)(io := None)\<rparr>"
      unfolding usbi_free_io_def Let_def
      by (simp del: bind_split_asm) (elim bind_SomeE; simp)
    have "same_lists s3 s4"
      using c B by (auto simp: keeps_lists_def dev_ops_def bind_Some_iff split: if_splits option.splits)
    then have same: "same_lists (io_unlink io s2) s5"
      using locks_same(6) [OF 1(4)] locks_same(4) [OF 2(1)] by (meson same_lists_trans)
    have "io_lists_ok s2"
      using ok locks_same(3) [OF 1(1)] locks_same(5) [OF 1(3)] by (meson same_lists_ok)
    then have "io_lists_ok s5" "unlinked io s5"
      using same lists_unlink [of s2 io] by (simp_all add: same_lists_ok same_lists_unlinked [OF same])
    then show ?thesis using lists_free 2(2) by simp
  qed
  then show "io_lists_ok s'" and "io \<noteq> 0 \<Longrightarrow> l_io s' io = None" by simp_all
qed

lemma add_complete_lists:
  assumes ok: "io_lists_ok s" and un: "unlinked io s"
    and o: "owner s io = Some p" "lib_of s p = Some q" and run: "add_complete q io s = Some s'"
  shows "io_lists_ok s'"
proof -
  from run obtain s1 h where l: "lock (LkComplete q) s = Some s1" and h: "l_hdl s1 q = Some h"
    and u: "unlock (LkComplete q) (s1\<lparr>l_hdl := (l_hdl s1)(q \<mapsto> h\<lparr>
      hd_complete_list := ls_add io (hd_complete_list h), hd_complete_count := hd_complete_count h + 1\<rparr>)\<rparr>) = Some s'"
    by (auto simp: add_complete_def bind_Some_iff Let_def)
  note same = locks_same(1) [OF l]
  have "lib_of s1 p = Some q" "owner s1 io = Some p"
    using o same by (simp_all add: same_lists_def lib_of_def)
  then show ?thesis
    by (intro same_lists_ok [OF lists_complete locks_same(2) [OF u]])
      (use same ok un h in \<open>simp_all add: same_lists_ok same_lists_unlinked ls_add_def\<close>)
qed

lemma simple_complete_same:
  assumes run: "simple_io_complete p st s = Some (u, t)"
  shows "same_lists s t"
proof -
  from run obtain s1 where 1: "lock (LkSio p) s = Some s1"
    "unlock (LkSio p) (s1\<lparr>l_sio := (l_sio s1)(p \<mapsto> \<lparr>si_completed = True, si_status = st\<rparr>)\<rparr>) = Some t"
    by (auto simp: simple_io_complete_def bind_Some_iff Let_def)
  show ?thesis
    by (rule same_lists_trans [OF locks_same(1) [OF 1(1)] same_lists_trans [OF same_lists_upd(3)
        locks_same(2) [OF 1(2)]]])
qed

lemma complete_lists:
  assumes ok: "io_lists_ok s" and run: "usbi_io_complete io st n s = Some ((), s')"
  shows "io_lists_ok s'"
proof -
  from run obtain x s1 s2 s3 where
    1: "l_io s io = Some x" "lock_io io s = Some s1"
      "unlock_io io (s1\<lparr>l_io := (l_io s1)(io \<mapsto> x\<lparr>io_state := IO_COMPLETED\<rparr>)\<rparr>) = Some s2"
    and a: "(if io_async x then do { h \<leftarrow> l_hdev (io_unlink io s2) (io_dev x);
               add_complete (hv_lib_hdl h) io (io_unlink io s2) } else Some (io_unlink io s2)) = Some s3"
    and 2: "same_lists s3 s'"
  proof (unfold usbi_io_complete_def Let_def, elim bind_SomeE, goal_cases)
    case (1 x s1 s2 s3 s4 r s5 q s6 s7)
    have "same_lists s3 s5"
      by (rule same_lists_trans [OF locks_same(3) [OF 1(7)] locks_same(4) [OF 1(9)]])
    moreover have "same_lists s5 s7"
      by (rule same_lists_trans [OF same_lists_upd(2) same_lists_trans [OF locks_same(3) [OF 1(11)]
          locks_same(4) [OF 1(12)]]])
    moreover have "same_lists s7 s'"
    proof -
      let ?u = "if io_async x \<and> rq_cb r then s7\<lparr>l_req_cbs := l_req_cbs s7 @ [io_req x]\<rparr> else s7"
      have "same_lists ?u s'"
        using 1(13) simple_complete_same by (cases "io_callback x") auto
      moreover have "same_lists s7 ?u" by simp
      ultimately show ?thesis by (rule same_lists_trans [rotated])
    qed
    ultimately have "same_lists s3 s'" using same_lists_trans by blast
    then show ?case by (intro 1(1)) (rule 1)+
  qed
  have o: "owner s io = Some (io_dev x)" using 1(1) by (simp add: owner_def)
  have "owner (s1\<lparr>l_io := (l_io s1)(io \<mapsto> x\<lparr>io_state := IO_COMPLETED\<rparr>)\<rparr>) = owner s1"
    using locks_io(3) [OF 1(2)] 1(1) by (auto simp: owner_def fun_eq_iff)
  then have "same_lists s1 (s1\<lparr>l_io := (l_io s1)(io \<mapsto> x\<lparr>io_state := IO_COMPLETED\<rparr>)\<rparr>)"
    by (simp add: same_lists_def)
  then have same: "same_lists s s2"
    using same_lists_trans [OF locks_same(3) [OF 1(2)] same_lists_trans [OF _ locks_same(4) [OF 1(3)]]]
    by simp
  have u: "io_lists_ok (io_unlink io s2)" "unlinked io (io_unlink io s2)"
    using lists_unlink [OF same_lists_ok [OF ok same]] by simp_all
  have "owner (io_unlink io s2) io = Some (io_dev x)" using o same by (simp add: same_lists_def)
  moreover have "lib_of (io_unlink io s2) (io_dev x) = Some (hv_lib_hdl h)"
    if "l_hdev (io_unlink io s2) (io_dev x) = Some h" for h
    using that by (simp only: lib_of_def option.map)
  ultimately have "io_lists_ok s3"
    using a u add_complete_lists [OF u, of "io_dev x"]
    by (auto simp: bind_Some_iff simp del: io_unlink_simps views_unlink split: if_splits)
  then show ?thesis using 2 by (rule same_lists_ok)
qed

lemma submit_lists:
  assumes "keeps_lists B" "usbi_sync_submit B io s = Some (ret, s')"
  shows "same_lists s s'"
  using assms
  by (auto simp: usbi_sync_submit_def keeps_lists_def dev_ops_def bind_Some_iff split: if_splits)

lemma io_submit_lists:
  assumes ok: "io_lists_ok s" and B: "keeps_lists B" and run: "io_submit B io s = Some ((), s')"
  shows "io_lists_ok s'"
proof -
  from run obtain ret s1 where 1: "usbi_sync_submit B io (io_unlink io s) = Some (ret, s1)"
    and "do { x \<leftarrow> l_io s1 io; r \<leftarrow> l_req s1 (io_req x);
      (if rq_cb r then usbi_free_io B io (s1\<lparr>l_req_cbs := l_req_cbs s1 @ [io_req x]\<rparr>)
      else do { h \<leftarrow> l_hdev s1 (io_dev x); s \<leftarrow> add_complete (hv_lib_hdl h) io s1; Some ((), s) }) } = Some ((), s')"
    by (force simp: io_submit_def Let_def elim!: bind_SomeE)
  then obtain x r where x: "l_io s1 io = Some x" "l_req s1 (io_req x) = Some r"
    and 2: "(if rq_cb r then usbi_free_io B io (s1\<lparr>l_req_cbs := l_req_cbs s1 @ [io_req x]\<rparr>)
      else do { h \<leftarrow> l_hdev s1 (io_dev x); s \<leftarrow> add_complete (hv_lib_hdl h) io s1; Some ((), s) }) = Some ((), s')"
    by (elim bind_SomeE)
  note same = submit_lists [OF B 1]
  have ok1: "io_lists_ok s1" "unlinked io s1"
    using lists_unlink [OF ok, of io] same by (simp_all add: same_lists_ok same_lists_unlinked)
  show ?thesis
  proof (cases "rq_cb r")
    case True
    then show ?thesis using 2 free_lists(1) [OF same_lists_ok [OF ok1(1) same_lists_upd(4)] B] by simp
  next
    case False
    then show ?thesis using 2 add_complete_lists [OF ok1, of "io_dev x"] x
      by (auto simp: bind_Some_iff lib_of_def owner_def)
  qed
qed

section \<open>Any interleaving of the operations\<close>

text \<open>
  What the threads of the library do to the requests of the handles, one operation at a time:
  the application allocates and frees them, a backend completes them, and a thread of
  usbi_io_async runs one.
\<close>

inductive io_step :: "(nat \<Rightarrow> 'a lib_scheme backend_ops) \<Rightarrow> 'a lib_scheme \<Rightarrow> 'a lib_scheme \<Rightarrow> bool"
  for B where
  io_alloc: "usbi_alloc_io av dev req timeout s = Some (io, s') \<Longrightarrow> io_step B s s'"
| io_done: "usbi_io_complete io st n s = Some ((), s') \<Longrightarrow> io_step B s s'"
| io_thread: "io_submit B io s = Some ((), s') \<Longrightarrow> io_step B s s'"
| io_free: "usbi_free_io B io s = Some ((), s') \<Longrightarrow> io_step B s s'"

inductive_cases io_stepE: "io_step B s s'"

lemma io_step_lists: "io_step B s s' \<Longrightarrow> io_lists_ok s \<Longrightarrow> keeps_lists B \<Longrightarrow> io_lists_ok s'"
  by (erule io_stepE) (blast intro: alloc_lists complete_lists io_submit_lists free_lists(1))+


end
