(* ===== verification/LibCases.thy ===== *)
theory LibCases
  imports EventThread LibInit IoSync IoLists
begin

text \<open>
  A small instance of the library and the theorems of the components on it: one open handle
  (at 5), a backend whose operations succeed and do nothing (at 7, number 0), a bus (1) with
  a device (6) that is open (10), and a request (11) whose usbi_io is at 12. Two more buses
  (2 and 3) and a second device (9) have been allocated by the backend.
\<close>

section \<open>The instance\<close>

definition ex_ops :: "lib backend_ops" where
  "ex_ops = \<lparr>bo_version = 1, bo_io_pattern = PATTERN_ASYNC, bo_init = (\<lambda>p f s. Some (0, s)),
     bo_fini = Some (\<lambda>p s. Some ((), s)), bo_find_buses = Some (\<lambda>s. Some ((0, [2, 3]), s)),
     bo_refresh_devices = (\<lambda>p s. Some (0, s)), bo_free_device = None,
     do_open = (\<lambda>d s. Some (0, s)), do_close = Some (\<lambda>d s. Some (0, s)),
     do_set_configuration = (\<lambda>d c s. Some (0, s)), do_get_configuration = (\<lambda>d s. Some ((0, 1), s)),
     do_claim_interface = (\<lambda>d i f s. Some (0, s)), do_release_interface = (\<lambda>d i s. Some (0, s)),
     do_set_altsetting = (\<lambda>d i a s. Some (0, s)), do_get_altsetting = (\<lambda>d i s. Some ((0, 0), s)),
     do_reset = Some (\<lambda>d s. Some (0, s)), do_xfer_wait = (\<lambda>ty d io s. Some (0, s)),
     do_xfer_aio = (\<lambda>ty d io s. Some (0, s)), do_get_raw_desc = None,
     do_io_cancel = Some (\<lambda>io s. Some (0, s)), do_get_driver_np = None,
     do_attach_kernel_driver_np = None, do_detach_kernel_driver_np = None\<rparr>"

definition ex_B :: "nat \<Rightarrow> lib backend_ops" where
  "ex_B n = ex_ops"

definition ex_hdl :: usbi_handle where
  "ex_hdl = \<lparr>hd_handle = 1, hd_debug_level = 0, hd_debug_flags = 0, hd_debug_cb = 0,
     hd_event_cbs = replicate 7 (0, 0), hd_coldplug_complete = True, hd_complete_list = [],
     hd_complete_count = 0, hd_timeout = [0, 100, 100, 100, 100]\<rparr>"

definition ex_bus :: "u64 \<Rightarrow> u32 \<Rightarrow> string \<Rightarrow> usbi_bus" where
  "ex_bus i n path = \<lparr>bs_busid = i, bs_busnum = n, bs_sys_path = path, bs_ops = 0, bs_devices = [],
     bs_max_xfer_size = []\<rparr>"

definition ex_dev :: "u64 \<Rightarrow> usbi_device" where
  "ex_dev i = \<lparr>dv_devid = i, dv_devnum = 1, dv_bus = 1, dv_parent = 0, dv_pport = 0, dv_nports = 0,
     dv_sys_path = '''', dv_bus_path = '''', dv_ops = 0, dv_cur_config_value = 0,
     dv_cur_config_index = 0, dv_desc = \<lparr>ds_device_raw = zero_raw, ds_num_configs = 0,
       ds_configs_raw = Null, ds_device = device_desc_of_mem False (replicate 18 0), ds_configs = Null\<rparr>\<rparr>"

definition ex_hdev :: usbi_dev_handle where
  "ex_hdev = \<lparr>hv_io_head = [], hv_m_head = [], hv_lib_hdl = 5, hv_handle = 1, hv_idev = 6,
     hv_flags = 0, hv_claimed_ifs = [], hv_state = DEVICE_OPENED\<rparr>"

definition ex_data :: data_request where
  "ex_data = \<lparr>dr_payload = [1, 2], dr_length = 2, dr_timeout = 0, dr_flags = 0, dr_status = 0,
     dr_transferred = 0\<rparr>"

definition ex_req :: openusb_request_handle where
  "ex_req = \<lparr>rq_dev = 1, rq_interface = 0, rq_endpoint = 2, rq_type = USB_TYPE_BULK,
     rq_req = Bulk ex_data, rq_cb = False, rq_arg = 0\<rparr>"

definition ex_io :: usbi_io where
  "ex_io = \<lparr>io_dev = 10, io_req = 11, io_state = IO_INPROGRESS, io_async = True, io_callback = False,
     io_arg = 0, io_tvo = (0, 0), io_timeout = 0\<rparr>"

definition ex_state :: lib where
  "ex_state = lib_start\<lparr>l_inited := 2, l_cur_handle := 2, l_cur_bus_id := 2, l_cur_device_id := 2,
     l_handles := [5], l_hdl := [5 \<mapsto> ex_hdl], l_buses := [1],
     l_bus := [1 \<mapsto> ex_bus 1 1 ''a'', 2 \<mapsto> ex_bus 0 1 ''a'', 3 \<mapsto> ex_bus 0 2 ''b''],
     l_devices := [6], l_dev := [6 \<mapsto> ex_dev 1, 9 \<mapsto> ex_dev 0], l_backends := [7],
     l_backend := [7 \<mapsto> \<lparr>bk_filepath = ''x.so'', bk_handle = 1, bk_ops = 0\<rparr>],
     l_hdev := [10 \<mapsto> ex_hdev], l_req := [11 \<mapsto> ex_req], l_next := 20\<rparr>"

lemmas ex_defs = ex_state_def lib_start_def

lemma ex_fields [simp]:
  "l_held ex_state = {}" "l_inited ex_state = 2" "l_cur_handle ex_state = 2" "l_cur_bus_id ex_state = 2"
  "l_cur_device_id ex_state = 2" "l_handles ex_state = [5]" "l_hdl ex_state = [5 \<mapsto> ex_hdl]"
  "l_buses ex_state = [1]" "l_devices ex_state = [6]" "l_events ex_state = []"
  "l_bus ex_state = [1 \<mapsto> ex_bus 1 1 ''a'', 2 \<mapsto> ex_bus 0 1 ''a'', 3 \<mapsto> ex_bus 0 2 ''b'']"
  "l_dev ex_state = [6 \<mapsto> ex_dev 1, 9 \<mapsto> ex_dev 0]" "l_backends ex_state = [7]"
  "l_backend ex_state = [7 \<mapsto> \<lparr>bk_filepath = ''x.so'', bk_handle = 1, bk_ops = 0\<rparr>]"
  "l_hdev ex_state = [10 \<mapsto> ex_hdev]" "l_req ex_state = [11 \<mapsto> ex_req]" "l_next ex_state = 20"
  "l_io ex_state = Map.empty" "l_sio ex_state = Map.empty" "l_queue_full ex_state = 0"
  "l_event ex_state = Map.empty" "l_exit ex_state = False"
  by (simp_all add: ex_defs)

section \<open>Buses and devices\<close>

lemma refresh_bus_reconciles_witness:
  "\<exists>s'. refresh_bus ex_B 7 ex_state = Some ((), s') \<and> l_buses s' = [1, 3] \<and> l_bus s' 2 = None \<and>
     bs_busid (bus_at s' 3) = 2"
proof -
  have k: "kept (same_at ex_state) [1] [2, 3] = [1]" "unmatched (same_at ex_state) [1] [2, 3] = [3]"
    "one_to_one (same_at ex_state) [1] [2, 3]"
    by (auto simp: kept_def unmatched_def one_to_one_def bus_at_def same_bus_def ex_bus_def)
  have "same_at ex_state 1 2" by (simp add: bus_at_def same_bus_def ex_bus_def)
  then show ?thesis
    using refresh_bus_reconciles [of ex_state 7 "\<lparr>bk_filepath = ''x.so'', bk_handle = 1, bk_ops = 0\<rparr>"
        ex_B "\<lambda>s. Some ((0, [2, 3]), s)" 0 "[2, 3]" ex_state] k
    by (fastforce simp: ex_B_def ex_ops_def)
qed


text \<open>Two backends: the second, number 1, finds bus 3 and the first bus 2.\<close>

definition ex_B2 :: "nat \<Rightarrow> lib backend_ops" where
  "ex_B2 n = ex_ops\<lparr>bo_find_buses := Some (\<lambda>s. Some ((0, [if n = 0 then 2 else 3]), s))\<rparr>"

definition ex_two :: lib where
  "ex_two = ex_state\<lparr>l_buses := [], l_backends := [7, 8],
     l_backend := [7 \<mapsto> \<lparr>bk_filepath = ''x.so'', bk_handle = 1, bk_ops = 0\<rparr>,
                   8 \<mapsto> \<lparr>bk_filepath = ''y.so'', bk_handle = 2, bk_ops = 1\<rparr>]\<rparr>"

lemma second_backend_drops_first_witness:
  "\<exists>s'. usbi_refresh_busses ex_B2 ex_two = Some ((), s') \<and> l_buses s' = [3] \<and> l_bus s' 2 \<noteq> None"
  using second_backend_drops_first [of ex_two 7 8 "\<lparr>bk_filepath = ''x.so'', bk_handle = 1, bk_ops = 0\<rparr>"
      "\<lparr>bk_filepath = ''y.so'', bk_handle = 2, bk_ops = 1\<rparr>" ex_B2 "[2]" "[3]"]
  by (fastforce simp: ex_two_def ex_B2_def ex_ops_def bus_at_def same_bus_def ex_bus_def)

lemma ex_buses_ok: "buses_ok ex_state"
  by (simp add: buses_ok_def table_ok_def ex_bus_def)

lemma bus_add_remove_witness:
  "\<exists>s' s''. usbi_add_bus 3 7 ex_state = Some ((), s') \<and> usbi_find_bus_by_id 2 s' = Some (3, s') \<and>
     usbi_remove_bus 3 s' = Some ((), s'') \<and>
     map_option fst (usbi_find_bus_by_id 1 s'') = map_option fst (usbi_find_bus_by_id 1 ex_state)"
  using bus_add_remove [of ex_state 3 7] ex_buses_ok by fastforce

lemma ex_freeable: "l_dev s p = Some (ex_dev i) \<Longrightarrow> freeable s p"
  by (simp add: freeable_def ex_dev_def usbi_destroy_configuration_def)

lemma ex_devices_ok: "devices_ok ex_B ex_state"
  using ex_freeable [of ex_state 6 1]
  by (simp add: devices_ok_def table_ok_def plain_free_def ex_B_def ex_ops_def) (simp add: ex_dev_def)

lemma usbi_add_device_notifies_witness:
  "\<exists>s'. usbi_add_device (\<lambda>_. True) 1 9 ex_state = Some ((), s') \<and>
     usbi_find_device_by_id 2 s' = Some (9, s') \<and> l_queue_full s' = 1"
  using usbi_add_device_notifies [of ex_B ex_state 1 9] ex_devices_ok ex_freeable [of ex_state 9 0]
  by (fastforce simp: dev_addable_def)

lemma usbi_remove_device_notifies_witness:
  "\<exists>s'. usbi_remove_device (\<lambda>_. True) ex_B 6 ex_state = Some ((), s') \<and>
     usbi_find_device_by_id 1 s' = Some (0, s') \<and> l_dev s' 6 = None"
proof -
  have "dv_devid (ex_dev 1) = 1" by (simp add: ex_dev_def)
  then show ?thesis
    using usbi_remove_device_notifies [of ex_B ex_state 6 "ex_dev 1"] ex_devices_ok by fastforce
qed

section \<open>The event thread\<close>

lemma ex_queue_ok: "queue_ok ex_state"
  by (simp add: queue_ok_def)

definition ex_event :: eventcallback where
  "ex_event = \<lparr>ev_devid = 1, ev_type = USB_ATTACH, ev_handle = 5\<rparr>"

lemma ex_good_event: "good_event (l_hdl ex_state) ex_event"
  by (simp add: good_event_def ex_event_def USB_ATTACH_def ex_hdl_def)

text \<open>An event is queued before the thread looks at the queue for the first time.\<close>

definition ex_queued :: event_thread where
  "ex_queued = \<lparr>et_lib = queued 1 USB_ATTACH [5] ex_state, et_pc = Top, et_log = []\<rparr>"

lemma ex_run: "event_run (thread_start ex_state) [Add ex_event] ex_queued"
proof -
  have "usbi_add_event_callback (\<lambda>_. True) 1 USB_ATTACH 5 ex_state =
      Some ((), queued 1 USB_ATTACH [5] ex_state)"
    using add_event_callback_run [of ex_state] by simp
  then have "event_step (thread_start ex_state) (Add ex_event)
      (signal ((thread_start ex_state)\<lparr>et_lib := queued 1 USB_ATTACH [5] ex_state\<rparr>))"
    by (intro step_add) (simp_all add: scanning_def thread_start_def ex_event_def)
  then have "event_step (thread_start ex_state) (Add ex_event) ex_queued"
    by (simp add: thread_start_def signal_def ex_queued_def)
  then show ?thesis using run_snoc [OF run_nil] by fastforce
qed



lemma exit_request_lost_witness:
  "\<exists>u. moves\<^sup>*\<^sup>* (signal (ex_queued\<lparr>et_lib := (et_lib ex_queued)\<lparr>l_exit := True\<rparr>\<rparr>)) u \<and>
     l_exit (et_lib u) \<and> thread_step u = Some None"
  using exit_request_lost [OF ex_run ex_queue_ok _ _ _ _ step_exit] ex_good_event
  by (force simp: ex_queued_def)


section \<open>Starting and ending\<close>

text \<open>A directory with one backend, one file that is none and one that cannot be opened.\<close>

definition ex_dir :: "string list" where
  "ex_dir = [''x.so'', ''readme'', ''y.so'']"

definition ex_env :: env where
  "ex_env = \<lparr>en_debug = None, en_mutex = (\<lambda>_. True), en_create = 0, en_driver_path = ''lib'',
     en_backend_path = None, en_dir = (\<lambda>d. if d = ''lib'' then Some ex_dir else None),
     en_dlopen = (\<lambda>f. if f = ''lib/x.so'' then 1 else 0),
     en_dlsym = (\<lambda>h. if h = 1 then Some 0 else None), en_alloc = (\<lambda>_. True)\<rparr>"

lemma ex_names: "backend_name ''x.so''" "backend_name ''y.so''" "\<not> backend_name ''readme''"
  by (simp_all add: backend_name_def)

lemma ex_loads: "loads ex_env ex_B (backend_file ''lib'' ''x.so'')" "\<not> loads ex_env ex_B (backend_file ''lib'' ''y.so'')"
  by (simp_all add: loads_def backend_file_def ex_env_def ex_B_def ex_ops_def PATTERN_ASYNC_def PATTERN_BOTH_def)

lemma load_backends_spec_witness:
  "\<exists>s'. load_backends ex_env ex_B ''lib'' ex_state = Some (1, s') \<and>
     backend_paths s' = [''x.so'', ''lib/x.so'']"
proof -
  have "backends_ok ex_state" "backend_paths ex_state = [''x.so'']"
    by (simp_all add: backends_ok_def backend_paths_def)
  moreover have "\<forall>n. en_alloc ex_env n" "en_dir ex_env ''lib'' = Some ex_dir" "distinct ex_dir"
    by (simp_all add: ex_env_def ex_dir_def)
  ultimately show ?thesis
    using load_backends_spec [of ex_state ex_env "''lib''" ex_dir ex_B] ex_names ex_loads
    by (simp add: ex_dir_def) (simp add: backend_file_def)
qed

lemma ex_handles_ok: "handles_ok ex_state"
  by (simp add: handles_ok_def table_ok_def ex_hdl_def)

lemma ex_at_rest: "at_rest ex_state"
  by (simp add: at_rest_def)

lemma ex_hdl_tab: "hdl_tab ex_state k = (if k = 1 then Some 5 else None)"
  by (simp add: hdl_tab_def table_get_def ex_hdl_def)

lemma at_rest_cong:
  "l_held t = l_held s \<Longrightarrow> l_backends t = l_backends s \<Longrightarrow> l_backend t = l_backend s \<Longrightarrow>
     l_buses t = l_buses s \<Longrightarrow> l_bus t = l_bus s \<Longrightarrow> at_rest t = at_rest s"
  by (simp add: at_rest_def)

lemma ex_answers: "well_behaved (bo_init (ex_B n) p flags)"
  by (simp add: well_behaved_def ex_B_def ex_ops_def)

text \<open>A rescan with backends that do not report buses and refresh nothing.\<close>

definition ex_quiet :: "nat \<Rightarrow> lib backend_ops" where
  "ex_quiet n = ex_ops\<lparr>bo_find_buses := None\<rparr>"

lemma rescan_quiet_walk:
  "\<forall>p \<in> set ps. l_bus s p \<noteq> None \<Longrightarrow> l_held s = {LkBuses} \<Longrightarrow> list_iter (rescan_bus ex_quiet) ps s = Some ((), s)"
  by (induction ps) (auto simp: rescan_bus_def ex_quiet_def ex_ops_def lock_def unlock_def held_same)

lemma rescan_quiet: "well_behaved (usbi_rescan_devices ex_quiet)"
proof -
  have r: "list_iter (refresh_bus ex_quiet) bs s = Some ((), s)" if "\<forall>b \<in> set bs. l_backend s b \<noteq> None"
    for bs and s :: lib
    using that by (induction bs) (auto simp: refresh_bus_def ex_quiet_def ex_ops_def)
  have "usbi_rescan_devices ex_quiet s = Some ((), s)" if "at_rest s" for s
    using that rescan_quiet_walk [of "l_buses s" "s\<lparr>l_held := {LkBuses}\<rparr>"]
    by (simp add: usbi_rescan_devices_def usbi_refresh_busses_def r at_rest_def with_lock_def lock_def
        unlock_def held_same)
  then show ?thesis by (auto simp: well_behaved_def)
qed

lemma openusb_init_new_handle_witness:
  "\<exists>s'. openusb_init ex_env ex_quiet 0 False ex_state = Some ((OPENUSB_SUCCESS, 2), s') \<and>
     usbi_find_handle 2 s' = Some (20, s')"
proof -
  have "backends_answer ex_quiet 0 (\<lambda>_. True) ex_state"
    by (simp add: backends_answer_def ex_quiet_def ex_ops_def well_behaved_def)
  then show ?thesis
    using openusb_init_new_handle [OF ex_handles_ok _ _ _ _ _ _ ex_at_rest rescan_quiet, of ex_env 0 "\<lambda>_. True"]
    by (fastforce simp: ex_env_def)
qed

definition ex_broken :: "nat \<Rightarrow> lib backend_ops" where
  "ex_broken n = ex_ops\<lparr>bo_init := \<lambda>p f s. Some (-1, s)\<rparr>"

lemma failed_init_leaves_freed_handle_witness:
  "\<exists>s'. openusb_init ex_env ex_broken 0 False ex_state = Some ((OPENUSB_PLATFORM_FAILURE, 0), s') \<and>
     l_hdl s' 20 = None \<and> 20 \<in> set (l_handles s') \<and> usbi_find_handle 9 s' = None"
proof -
  have "backends_answer ex_broken 0 (\<lambda>_. False) ex_state"
    by (simp add: backends_answer_def ex_broken_def ex_ops_def well_behaved_def)
  then show ?thesis
    using failed_init_leaves_freed_handle [OF ex_handles_ok _ _ _ ex_at_rest, of ex_env ex_broken 0] ex_hdl_tab
    by (fastforce simp: ex_env_def)
qed

lemma openusb_fini_one_witness:
  "\<exists>s'. openusb_fini ex_B 1 ex_state = Some ((), s') \<and> l_inited s' = 1 \<and>
     usbi_find_handle 1 s' = Some (0, s') \<and> l_hdl s' 5 = None"
proof -
  have "backends_end ex_B ex_state"
    by (simp add: backends_end_def ex_B_def ex_ops_def well_behaved_def)
  then show ?thesis
    using openusb_fini_one [OF ex_handles_ok _ _ _ ex_at_rest, of 1 5 ex_B] by (fastforce simp: ex_hdl_tab)
qed

lemma ex_environment_ok: "environment_ok ex_env ex_quiet ex_dir"
proof -
  have "loads ex_env ex_quiet (backend_file ''lib'' ''x.so'')"
    by (simp add: loads_def backend_file_def ex_env_def ex_quiet_def ex_ops_def PATTERN_ASYNC_def PATTERN_BOTH_def)
  then show ?thesis using ex_names(1)
    by (simp add: environment_ok_def ex_env_def ex_dir_def backend_file_def)
qed


lemma set_default_timeout_sets_witness:
  "\<exists>s' h'. openusb_set_default_timeout 1 USB_TYPE_BULK 250 ex_state = Some (OPENUSB_SUCCESS, s') \<and>
     l_hdl s' 5 = Some h' \<and> hd_timeout h' ! 3 = 250 \<and> hd_timeout h' ! 2 = 100"
proof -
  from set_default_timeout_sets [OF ex_handles_ok, of 1 5 ex_hdl USB_TYPE_BULK 250]
  obtain s' h' where "openusb_set_default_timeout 1 USB_TYPE_BULK 250 ex_state = Some (OPENUSB_SUCCESS, s')"
    "l_hdl s' 5 = Some h'" and i: "\<forall>i < 5. hd_timeout h' ! i = (if i \<noteq> 0 \<and> (int i = 3 \<or> USB_TYPE_BULK = USB_TYPE_ALL)
       then 250 else hd_timeout ex_hdl ! i)"
    by (auto simp: ex_hdl_tab ex_hdl_def usb_types)
  moreover have "hd_timeout h' ! 3 = 250 \<and> hd_timeout h' ! 2 = 100"
    using spec [OF i, of 3] spec [OF i, of 2] by (simp add: usb_types ex_hdl_def)
  ultimately show ?thesis by blast
qed


section \<open>Requests\<close>

lemma ex_connected: "connected 10 (ex_dev 1) (ex_bus 1 1 ''a'') ex_state"
  by (simp add: connected_def ex_hdev_def ex_dev_def ex_hdl_def)

lemma ex_next_free: "next_free ex_state"
  by (auto simp: next_free_def unlinked_def ex_hdev_def ex_hdl_def)

lemma ex_req_ok: "req_ok ex_req"
  by (simp add: req_ok_def ex_req_def)

definition ex_result :: openusb_request where
  "ex_result = Bulk (ex_data\<lparr>dr_status := 0, dr_transferred := 2\<rparr>)"

lemma ex_set_result: "set_result (rq_type ex_req) 0 (ucast (2 :: u64)) (rq_req ex_req) = Some ex_result"
  by (simp add: set_result_def ex_req_def ex_result_def usb_types)

text \<open>A backend with synchronous transfers that stores the same result.\<close>

definition ex_sync :: "nat \<Rightarrow> lib backend_ops" where
  "ex_sync n = ex_ops\<lparr>bo_io_pattern := PATTERN_SYNC,
     do_xfer_wait := \<lambda>ty d io s. Some (0, s\<lparr>l_req := (l_req s)(11 \<mapsto> ex_req\<lparr>rq_req := ex_result\<rparr>)\<rparr>)\<rparr>"


lemma early_wakeup_witness:
  "\<exists>s'. usbi_io_sync (\<lambda>_. True) ex_B Some 10 11 ex_state = Some (OPENUSB_SUCCESS, s') \<and>
     l_req s' 11 = Some ex_req \<and> usbi_io_complete 20 0 2 s' = None"
  using early_wakeup [OF ex_connected _ ex_next_free, of "\<lambda>_. True" 11 ex_req ex_B 0 2] ex_req_ok
  by (simp add: ex_B_def ex_ops_def)

lemma deadline_of_timeout_witness:
  "snd (io_deadline (5, 999000) 1001) = 1000000 \<and> micros (io_deadline (5, 999000) 1001) = 7000000"
  using deadline_of_timeout [of "(5, 999000)" 1001] by (simp add: micros_def)

definition ex_pending :: lib where
  "ex_pending = ex_state\<lparr>l_io := [12 \<mapsto> ex_io], l_hdev := [10 \<mapsto> ex_hdev\<lparr>hv_io_head := [12]\<rparr>]\<rparr>"

lemma async_requests_same_witness:
  "\<exists>t t'. usbi_io_async 0 ex_B 12 ex_pending = Some (OPENUSB_SUCCESS, ex_pending) \<and>
     usbi_io_complete 12 0 2 ex_pending = Some ((), t') \<and>
     io_submit ex_sync 12 ex_pending = Some ((), t) \<and> l_req t 11 = Some (ex_req\<lparr>rq_req := ex_result\<rparr>) \<and>
     hd_complete_list (the (l_hdl t 5)) = [12]"
proof -
  have c: "connected 10 (ex_dev 1) (ex_bus 1 1 ''a'') ex_pending"
    by (simp add: connected_def ex_pending_def ex_hdev_def ex_dev_def ex_hdl_def)
  show ?thesis
    using async_requests_same [of ex_pending 12 ex_io ex_req "ex_dev 1" "ex_bus 1 1 ''a''" 0 2 ex_result
        ex_B ex_sync] c ex_req_ok ex_set_result
    by (fastforce simp: ex_pending_def ex_io_def ex_B_def ex_sync_def ex_ops_def ex_req_def ex_hdev_def
        ex_hdl_def)
qed

lemma ex_keeps_lists: "keeps_lists ex_B"
  by (simp add: keeps_lists_def ex_B_def ex_ops_def)


end
