(* ===== verification/DevHandle.thy ===== *)
theory DevHandle
  imports LibInit Io
begin

text \<open>
  Open devices: openusb_open_device, openusb_close_device, openusb_get_devid,
  openusb_get_lib_handle, openusb_abort and the kernel driver calls of usb.c, and the
  operations of api.c on an open device that pass to the backend: the configuration, the
  interfaces and the reset. Output parameters are results; None is an output the code does
  not write. pipe is the result of pipe(2).
\<close>

section \<open>Kernel drivers (usb.c)\<close>

definition usbi_get_driver_np :: "(nat \<Rightarrow> 'a lib_scheme backend_ops) \<Rightarrow> u64 \<Rightarrow> u8 \<Rightarrow>
    ('a lib_scheme, int \<times> string option) op" where
  "usbi_get_driver_np B dev ifc s = do {
     (hdev, s) \<leftarrow> usbi_find_dev_handle dev s;
     (if hdev = 0 then Some ((OPENUSB_UNKNOWN_DEVICE, None), s)
      else do {
        ops \<leftarrow> dev_ops B hdev s;
        (case do_get_driver_np ops of
           None \<Rightarrow> Some ((OPENUSB_NOT_SUPPORTED, None), s)
         | Some f \<Rightarrow> do { ((ret, name), s) \<leftarrow> f hdev ifc s; Some ((ret, Some name), s) })
      })
   }"

definition usbi_attach_kernel_driver_np :: "(nat \<Rightarrow> 'a lib_scheme backend_ops) \<Rightarrow> u64 \<Rightarrow> u8 \<Rightarrow>
    ('a lib_scheme, int) op" where
  "usbi_attach_kernel_driver_np B dev ifc s = do {
     (hdev, s) \<leftarrow> usbi_find_dev_handle dev s;
     (if hdev = 0 then Some (OPENUSB_UNKNOWN_DEVICE, s)
      else do {
        ops \<leftarrow> dev_ops B hdev s;
        (case do_attach_kernel_driver_np ops of
           None \<Rightarrow> Some (OPENUSB_NOT_SUPPORTED, s) | Some f \<Rightarrow> f hdev ifc s)
      })
   }"

definition usbi_detach_kernel_driver_np :: "(nat \<Rightarrow> 'a lib_scheme backend_ops) \<Rightarrow> u64 \<Rightarrow> u8 \<Rightarrow>
    ('a lib_scheme, int) op" where
  "usbi_detach_kernel_driver_np B dev ifc s = do {
     (hdev, s) \<leftarrow> usbi_find_dev_handle dev s;
     (if hdev = 0 then Some (OPENUSB_UNKNOWN_DEVICE, s)
      else do {
        ops \<leftarrow> dev_ops B hdev s;
        (case do_detach_kernel_driver_np ops of
           None \<Rightarrow> Some (OPENUSB_NOT_SUPPORTED, s) | Some f \<Rightarrow> f hdev ifc s)
      })
   }"

section \<open>Configuration and interfaces (api.c)\<close>

definition openusb_get_configuration :: "(nat \<Rightarrow> 'a lib_scheme backend_ops) \<Rightarrow> u64 \<Rightarrow> bool \<Rightarrow>
    ('a lib_scheme, int \<times> u8 option) op" where
  "openusb_get_configuration B dev cfg_null s =
     (if cfg_null then Some ((OPENUSB_BADARG, None), s)
      else do {
        (hdev, s) \<leftarrow> usbi_find_dev_handle dev s;
        (if hdev = 0 then Some ((OPENUSB_UNKNOWN_DEVICE, None), s)
         else do {
           s \<leftarrow> lock_hdev hdev s;
           ops \<leftarrow> dev_ops B hdev s;
           ((ret, cfg), s) \<leftarrow> do_get_configuration ops hdev s;
           s \<leftarrow> unlock_hdev hdev s;
           Some ((ret, Some cfg), s)
         })
      })"

definition USBI_IFC_CLAIMED :: int where "USBI_IFC_CLAIMED = 1"

definition openusb_is_interface_claimed :: "u64 \<Rightarrow> u8 \<Rightarrow> ('a lib_scheme, int) op" where
  "openusb_is_interface_claimed dev ifc s =
     (if unat ifc > USBI_MAXINTERFACES then Some (OPENUSB_BADARG, s)
      else do {
        (hdev, s) \<leftarrow> usbi_find_dev_handle dev s;
        (if hdev = 0 then Some (OPENUSB_BADARG, s)
         else do {
           s \<leftarrow> lock_hdev hdev s;
           h \<leftarrow> l_hdev s hdev;
           ci \<leftarrow> rd (hv_claimed_ifs h) (unat ifc);
           s \<leftarrow> unlock_hdev hdev s;
           Some (if fst ci = USBI_IFC_CLAIMED then 1 else 0, s)
         })
      })"

definition openusb_release_interface :: "(nat \<Rightarrow> 'a lib_scheme backend_ops) \<Rightarrow> u64 \<Rightarrow> u8 \<Rightarrow>
    ('a lib_scheme, int) op" where
  "openusb_release_interface B dev ifc s =
     (if unat ifc > USBI_MAXINTERFACES then Some (OPENUSB_BADARG, s)
      else do {
        (hdev, s) \<leftarrow> usbi_find_dev_handle dev s;
        (if hdev = 0 then Some (OPENUSB_UNKNOWN_DEVICE, s)
         else do {
           (claimed, s) \<leftarrow> openusb_is_interface_claimed dev ifc s;
           (if claimed \<noteq> 1 then Some (OPENUSB_BADARG, s)
            else do {
              s \<leftarrow> lock_hdev hdev s;
              ops \<leftarrow> dev_ops B hdev s;
              (ret, s) \<leftarrow> do_release_interface ops hdev ifc s;
              s \<leftarrow> unlock_hdev hdev s;
              Some (ret, s)
            })
         })
      })"

definition openusb_get_altsetting :: "(nat \<Rightarrow> 'a lib_scheme backend_ops) \<Rightarrow> u64 \<Rightarrow> u8 \<Rightarrow> bool \<Rightarrow>
    ('a lib_scheme, int \<times> u8 option) op" where
  "openusb_get_altsetting B dev ifc alt_null s =
     (if alt_null \<or> unat ifc > USBI_MAXINTERFACES then Some ((OPENUSB_BADARG, None), s)
      else do {
        (hdev, s) \<leftarrow> usbi_find_dev_handle dev s;
        (if hdev = 0 then Some ((OPENUSB_UNKNOWN_DEVICE, None), s)
         else do {
           s \<leftarrow> lock_hdev hdev s;
           h \<leftarrow> l_hdev s hdev;
           ci \<leftarrow> rd (hv_claimed_ifs h) (unat ifc);
           s \<leftarrow> unlock_hdev hdev s;
           (if fst ci \<noteq> USBI_IFC_CLAIMED then Some ((OPENUSB_BADARG, None), s)
            else do {
              d \<leftarrow> l_dev s (hv_idev h);
              ((ret, alt), s) \<leftarrow> do_get_altsetting (B (dv_ops d)) hdev ifc s;
              Some ((ret, Some alt), s)
            })
         })
      })"

definition openusb_reset :: "(nat \<Rightarrow> 'a lib_scheme backend_ops) \<Rightarrow> u64 \<Rightarrow> ('a lib_scheme, int) op" where
  "openusb_reset B dev s = do {
     (hdev, s) \<leftarrow> usbi_find_dev_handle dev s;
     (if hdev = 0 then Some (OPENUSB_UNKNOWN_DEVICE, s)
      else do {
        ops \<leftarrow> dev_ops B hdev s;
        (case do_reset ops of
           None \<Rightarrow> Some (OPENUSB_NOT_SUPPORTED, s)
         | Some reset \<Rightarrow> do {
             s \<leftarrow> lock_hdev hdev s;
             (ret, s) \<leftarrow> reset hdev s;
             s \<leftarrow> unlock_hdev hdev s;
             Some (ret, s)
           })
      })
   }"

section \<open>Opening and closing (usb.c)\<close>

text \<open>The requests that are on io_head when the walk begins; the lock is released around each.\<close>

fun close_ios :: "(nat \<Rightarrow> 'a lib_scheme backend_ops) \<Rightarrow> addr \<Rightarrow> addr list \<Rightarrow> ('a lib_scheme, unit) op" where
  "close_ios B hdev [] s = Some ((), s)"
| "close_ios B hdev (io # ios) s = do {
     s \<leftarrow> unlock_hdev hdev s;
     (_, s) \<leftarrow> usbi_free_io B io s;
     s \<leftarrow> lock_hdev hdev s;
     close_ios B hdev ios s
   }"

definition openusb_close_device :: "(nat \<Rightarrow> 'a lib_scheme backend_ops) \<Rightarrow> u64 \<Rightarrow> ('a lib_scheme, int) op" where
  "openusb_close_device B dev s =
     (if dev = 0 then Some (OPENUSB_SUCCESS, s)
      else do {
        (hdev, s) \<leftarrow> usbi_find_dev_handle dev s;
        (if hdev = 0 then Some (OPENUSB_UNKNOWN_DEVICE, s)
         else do {
           s \<leftarrow> lock_hdev hdev s;
           h \<leftarrow> l_hdev s hdev;
           (_, s) \<leftarrow> close_ios B hdev (hv_io_head h) s;
           s \<leftarrow> unlock_hdev hdev s;
           ops \<leftarrow> dev_ops B hdev s;
           (ret, s) \<leftarrow> (case do_close ops of None \<Rightarrow> Some (OPENUSB_SUCCESS, s) | Some close \<Rightarrow> close hdev s);
           s \<leftarrow> lock LkDevHandles s;
           s \<leftarrow> lock_hdev hdev s;
           let s = s\<lparr>l_dev_handles := ls_del hdev (l_dev_handles s)\<rparr>;
           s \<leftarrow> unlock_hdev hdev s;
           s \<leftarrow> unlock LkDevHandles s;
           Some (ret, s\<lparr>l_hdev := (l_hdev s)(hdev := None)\<rparr>)
         })
      })"

definition new_hdev :: "u64 \<Rightarrow> addr \<Rightarrow> addr \<Rightarrow> nat \<Rightarrow> usbi_dev_handle" where
  "new_hdev n hdl idev flags = \<lparr>hv_io_head = [], hv_m_head = [], hv_lib_hdl = hdl, hv_handle = n,
     hv_idev = idev, hv_flags = flags, hv_claimed_ifs = replicate USBI_MAXINTERFACES (-1, -1),
     hv_state = DEVICE_CLOSED\<rparr>"

definition openusb_open_device :: "env \<Rightarrow> int \<Rightarrow> (nat \<Rightarrow> 'a lib_scheme backend_ops) \<Rightarrow> u64 \<Rightarrow> u64 \<Rightarrow> nat \<Rightarrow>
    bool \<Rightarrow> ('a lib_scheme, int \<times> u64) op" where
  "openusb_open_device e pipe B handle devid flags dev_null s =
     (if dev_null then Some ((OPENUSB_BADARG, 0), s)
      else do {
        (hdl, s) \<leftarrow> usbi_find_handle handle s;
        (if hdl = 0 then Some ((OPENUSB_INVALID_HANDLE, 0), s)
         else do {
           (idev, s) \<leftarrow> usbi_find_device_by_id devid s;
           (if idev = 0 then Some ((OPENUSB_UNKNOWN_DEVICE, 0), s)
            else do {
              let (hdev, s) = fresh (en_alloc e) s;
              (if hdev = 0 then Some ((OPENUSB_NO_RESOURCES, 0), s)
               else do {
                 s \<leftarrow> lock LkUsbi s;
                 let n = l_cur_dev_handle s;
                 let s = s\<lparr>l_cur_dev_handle := l_cur_dev_handle s + 1\<rparr>;
                 s \<leftarrow> unlock LkUsbi s;
                 (if \<not> en_mutex e (LkHdev hdev) then Some ((OPENUSB_SYS_FUNC_FAILURE, 0), s)
                  else if pipe < 0 then Some ((OPENUSB_SYS_FUNC_FAILURE, 0), s)
                  else do {
                    let s = s\<lparr>l_hdev := (l_hdev s)(hdev \<mapsto> new_hdev n hdl idev flags)\<rparr>;
                    ops \<leftarrow> dev_ops B hdev s;
                    (ret, s) \<leftarrow> do_open ops hdev s;
                    (if ret < 0 then Some ((ret, 0), s\<lparr>l_hdev := (l_hdev s)(hdev := None)\<rparr>)
                     else do {
                       s \<leftarrow> lock LkDevHandles s;
                       s \<leftarrow> lock_hdev hdev s;
                       h \<leftarrow> l_hdev s hdev;
                       let s = s\<lparr>l_dev_handles := ls_add hdev (l_dev_handles s),
                                 l_hdev := (l_hdev s)(hdev \<mapsto> h\<lparr>hv_state := DEVICE_OPENED\<rparr>)\<rparr>;
                       let dev = hv_handle h;
                       s \<leftarrow> unlock_hdev hdev s;
                       s \<leftarrow> unlock LkDevHandles s;
                       ((ret, cfg), s) \<leftarrow> openusb_get_configuration B dev False s;
                       (if ret \<noteq> OPENUSB_SUCCESS then do {
                          (_, s) \<leftarrow> openusb_close_device B dev s;
                          Some ((ret, 0), s)
                        }
                        else Some ((OPENUSB_SUCCESS, dev), s))
                     })
                  })
               })
            })
         })
      })"

definition openusb_get_devid :: "u64 \<Rightarrow> bool \<Rightarrow> ('a lib_scheme, int \<times> u64 option) op" where
  "openusb_get_devid dev devid_null s =
     (if devid_null then Some ((OPENUSB_BADARG, None), s)
      else do {
        (hdev, s) \<leftarrow> usbi_find_dev_handle dev s;
        (if hdev = 0 then Some ((OPENUSB_UNKNOWN_DEVICE, None), s)
         else do {
           s \<leftarrow> lock_hdev hdev s;
           h \<leftarrow> l_hdev s hdev;
           d \<leftarrow> l_dev s (hv_idev h);
           s \<leftarrow> unlock_hdev hdev s;
           Some ((OPENUSB_SUCCESS, Some (dv_devid d)), s)
         })
      })"

definition openusb_get_lib_handle :: "u64 \<Rightarrow> bool \<Rightarrow> ('a lib_scheme, int \<times> u64 option) op" where
  "openusb_get_lib_handle dev lib_handle_null s =
     (if lib_handle_null then Some ((OPENUSB_BADARG, None), s)
      else do {
        (hdev, s) \<leftarrow> usbi_find_dev_handle dev s;
        (if hdev = 0 then Some ((OPENUSB_UNKNOWN_DEVICE, None), s)
         else do {
           s \<leftarrow> lock_hdev hdev s;
           h \<leftarrow> l_hdev s hdev;
           hdl \<leftarrow> l_hdl s (hv_lib_hdl h);
           s \<leftarrow> unlock_hdev hdev s;
           Some ((OPENUSB_SUCCESS, Some (hd_handle hdl)), s)
         })
      })"

section \<open>openusb_abort (usb.c)\<close>

text \<open>The result of the backend for the first request of the list that is phdl.\<close>

fun abort_ios :: "(nat \<Rightarrow> 'a lib_scheme backend_ops) \<Rightarrow> addr \<Rightarrow> addr \<Rightarrow> addr list \<Rightarrow>
    ('a lib_scheme, int option) op" where
  "abort_ios B phdl hdev [] s = Some (None, s)"
| "abort_ios B phdl hdev (io # ios) s = do {
     x \<leftarrow> l_io s io;
     (if io_req x = phdl then do {
        ops \<leftarrow> dev_ops B hdev s;
        cancel \<leftarrow> do_io_cancel ops;
        (ret, s) \<leftarrow> cancel io s;
        Some (Some ret, s)
      }
      else abort_ios B phdl hdev ios s)
   }"

fun abort_walk :: "(nat \<Rightarrow> 'a lib_scheme backend_ops) \<Rightarrow> addr \<Rightarrow> addr list \<Rightarrow>
    ('a lib_scheme, int option) op" where
  "abort_walk B phdl [] s = do { s \<leftarrow> unlock LkDevHandles s; Some (None, s) }"
| "abort_walk B phdl (hdev # hdevs) s = do {
     s \<leftarrow> unlock LkDevHandles s;
     s \<leftarrow> lock_hdev hdev s;
     h \<leftarrow> l_hdev s hdev;
     (r, s) \<leftarrow> abort_ios B phdl hdev (hv_io_head h) s;
     s \<leftarrow> unlock_hdev hdev s;
     (if r \<noteq> None then Some (r, s)
      else do { s \<leftarrow> lock LkDevHandles s; abort_walk B phdl hdevs s })
   }"

definition openusb_abort :: "(nat \<Rightarrow> 'a lib_scheme backend_ops) \<Rightarrow> addr \<Rightarrow> ('a lib_scheme, int) op" where
  "openusb_abort B phdl s =
     (if phdl = 0 then Some (OPENUSB_INVALID_HANDLE, s)
      else do {
        s \<leftarrow> lock LkDevHandles s;
        (r, s) \<leftarrow> abort_walk B phdl (l_dev_handles s) s;
        Some (case r of None \<Rightarrow> OPENUSB_INVALID_HANDLE | Some ret \<Rightarrow> ret, s)
      })"


section \<open>The table of device handles\<close>

definition hdevs_ok :: "'a lib_scheme \<Rightarrow> bool" where
  "hdevs_ok s \<longleftrightarrow> l_held s = {} \<and> l_inited s \<noteq> 0 \<and> 0 < l_next s \<and>
     table_ok hv_handle (l_cur_dev_handle s) (l_hdev s) (l_dev_handles s) \<and>
     (\<forall>p \<in> set (l_dev_handles s). p < l_next s)"

definition hdev_tab :: "'a lib_scheme \<Rightarrow> u64 \<Rightarrow> addr option" where
  "hdev_tab s = table_get hv_handle (l_hdev s) (l_dev_handles s)"

lemma find_dev_walk:
  "\<forall>p \<in> set ps. l_hdev s p \<noteq> None \<Longrightarrow> \<forall>p. LkHdev p \<notin> l_held s \<Longrightarrow>
     find_dev_handle_walk k ps s =
     Some (case find (\<lambda>p. hv_handle (the (l_hdev s p)) = k) ps of None \<Rightarrow> 0 | Some p \<Rightarrow> p, s)"
  by (induction ps) (auto simp: lock_Some)

lemma find_hdev_run:
  assumes "hdevs_ok s"
  shows "usbi_find_dev_handle k s = Some (case hdev_tab s k of None \<Rightarrow> 0 | Some p \<Rightarrow> p, s)"
proof -
  have "find_dev_handle_walk k (l_dev_handles s) (s\<lparr>l_held := {LkDevHandles}\<rparr>) =
      Some (case hdev_tab s k of None \<Rightarrow> 0 | Some p \<Rightarrow> p, s\<lparr>l_held := {LkDevHandles}\<rparr>)"
    by (subst find_dev_walk)
      (use assms in \<open>auto simp: hdevs_ok_def hdev_tab_def table_get_def dest: table_ok_heap\<close>)
  then show ?thesis using assms
    by (simp add: usbi_find_dev_handle_def hdevs_ok_def lock_def unlock_def held_same)
qed

text \<open>
  A backend call that succeeds with r and only changes the backend's own part of the state.
\<close>

definition gives :: "'r \<Rightarrow> ('a lib_scheme, 'r) op \<Rightarrow> bool" where
  "gives r f \<longleftrightarrow> (\<forall>s. \<exists>m. f s = Some (r, lib.more_update (\<lambda>_. m) s))"

lemma new_hdev_simps [simp]:
  "hv_handle (new_hdev n hdl idev flags) = n" "hv_idev (new_hdev n hdl idev flags) = idev"
  "hv_lib_hdl (new_hdev n hdl idev flags) = hdl" "hv_io_head (new_hdev n hdl idev flags) = []"
  by (simp_all add: new_hdev_def)

definition added_hdev :: "addr \<Rightarrow> addr \<Rightarrow> nat \<Rightarrow> 'a lib_scheme \<Rightarrow> 'a lib_scheme" where
  "added_hdev hdl idev flags s = s\<lparr>l_next := l_next s + 1, l_cur_dev_handle := l_cur_dev_handle s + 1,
     l_hdev := (l_hdev s)(l_next s \<mapsto> (new_hdev (l_cur_dev_handle s) hdl idev flags)\<lparr>hv_state := DEVICE_OPENED\<rparr>),
     l_dev_handles := l_dev_handles s @ [l_next s]\<rparr>"

lemma added_hdev_ok:
  assumes "hdevs_ok s" "l_cur_dev_handle s < l_cur_dev_handle s + 1"
  shows "hdevs_ok (added_hdev hdl idev flags s)"
    and "hdev_tab (added_hdev hdl idev flags s) = (hdev_tab s)(l_cur_dev_handle s \<mapsto> l_next s)"
proof -
  have n: "l_next s \<notin> set (l_dev_handles s)" "l_next s \<noteq> 0" using assms(1) by (auto simp: hdevs_ok_def)
  note t = table_add [of hv_handle "l_cur_dev_handle s" "l_hdev s" "l_dev_handles s" "l_next s"
    "(new_hdev (l_cur_dev_handle s) hdl idev flags)\<lparr>hv_state := DEVICE_OPENED\<rparr>"]
  show "hdevs_ok (added_hdev hdl idev flags s)"
    using t(1) assms n by (auto simp: hdevs_ok_def added_hdev_def new_hdev_def)
  show "hdev_tab (added_hdev hdl idev flags s) = (hdev_tab s)(l_cur_dev_handle s \<mapsto> l_next s)"
    using t(2) assms n by (auto simp: hdevs_ok_def hdev_tab_def added_hdev_def new_hdev_def)
qed

lemma hdevs_ok_more [simp]: "hdevs_ok (lib.more_update f s) = hdevs_ok s"
  and hdev_tab_more [simp]: "hdev_tab (lib.more_update f s) = hdev_tab s"
  by (simp_all add: hdevs_ok_def hdev_tab_def)

text \<open>What openusb_open_device needs: a known handle and device whose backend answers.\<close>

definition openable :: "env \<Rightarrow> (nat \<Rightarrow> 'a lib_scheme backend_ops) \<Rightarrow> u64 \<Rightarrow> u64 \<Rightarrow> addr \<Rightarrow> addr \<Rightarrow>
    'a lib_scheme \<Rightarrow> bool" where
  "openable e B handle devid hdl idev s \<longleftrightarrow> en_alloc e (l_next s) \<and> en_mutex e (LkHdev (l_next s)) \<and>
     usbi_find_handle handle s = Some (hdl, s) \<and> hdl \<noteq> 0 \<and>
     usbi_find_device_by_id devid s = Some (idev, s) \<and> (\<exists>d. l_dev s idev = Some d \<and>
       gives 0 (do_open (B (dv_ops d)) (l_next s))) \<and> idev \<noteq> 0"

lemma open_device_run:
  assumes ok: "hdevs_ok s" "l_cur_dev_handle s < l_cur_dev_handle s + 1" and o: "openable e B handle devid hdl idev s"
    and d: "l_dev s idev = Some d" "gives (0, cfg) (do_get_configuration (B (dv_ops d)) (l_next s))"
  shows "\<exists>m. openusb_open_device e 0 B handle devid flags False s =
     Some ((OPENUSB_SUCCESS, l_cur_dev_handle s), lib.more_update (\<lambda>_. m) (added_hdev hdl idev flags s))"
proof -
  let ?p = "l_next s"
  let ?n = "l_cur_dev_handle s"
  let ?s1 = "s\<lparr>l_next := ?p + 1, l_cur_dev_handle := ?n + 1, l_hdev := (l_hdev s)(?p \<mapsto> new_hdev ?n hdl idev flags)\<rparr>"
  from o d obtain m where m: "do_open (B (dv_ops d)) ?p ?s1 = Some (0, lib.more_update (\<lambda>_. m) ?s1)"
    by (auto simp: openable_def gives_def)
  let ?s2 = "lib.more_update (\<lambda>_. m) (added_hdev hdl idev flags s)"
  have ok2: "hdevs_ok ?s2" "hdev_tab ?s2 ?n = Some ?p"
    using added_hdev_ok [OF ok] by simp_all
  from d(2) obtain m' where m': "do_get_configuration (B (dv_ops d)) ?p (?s2\<lparr>l_held := {LkHdev ?p}\<rparr>) =
      Some ((0, cfg), lib.more_update (\<lambda>_. m') (?s2\<lparr>l_held := {LkHdev ?p}\<rparr>))"
    unfolding gives_def by blast
  have g: "openusb_get_configuration B ?n False ?s2 = Some ((0, Some cfg), lib.more_update (\<lambda>_. m') ?s2)"
    using find_hdev_run [OF ok2(1), of ?n] ok2(2) ok m' d(1)
    by (simp add: openusb_get_configuration_def dev_ops_def lock_hdev_def unlock_hdev_def lock_def unlock_def
        hdevs_ok_def added_hdev_def held_same new_hdev_def)
  have e: "?s2 = (lib.more_update (\<lambda>_. m) ?s1)\<lparr>l_dev_handles := l_dev_handles s @ [?p],
      l_hdev := (l_hdev s)(?p \<mapsto> (new_hdev ?n hdl idev flags)\<lparr>hv_state := DEVICE_OPENED\<rparr>)\<rparr>"
    by (simp add: added_hdev_def)
  have "openusb_open_device e 0 B handle devid flags False s = Some ((OPENUSB_SUCCESS, ?n), lib.more_update (\<lambda>_. m') ?s2)"
    using o d(1) m g ok
    by (simp add: openusb_open_device_def openable_def fresh_def Let_def lock_def unlock_def hdevs_ok_def
        dev_ops_def lock_hdev_def unlock_hdev_def ls_add_def e held_same OPENUSB_SUCCESS_def)
  then show ?thesis by auto
qed


text \<open>Closing: the requests of the device are freed one by one.\<close>

definition removed_hdev :: "addr \<Rightarrow> 'a lib_scheme \<Rightarrow> 'a lib_scheme" where
  "removed_hdev p s = s\<lparr>l_dev_handles := ls_del p (l_dev_handles s), l_hdev := (l_hdev s)(p := None)\<rparr>"

lemma removed_hdev_ok:
  assumes "hdevs_ok s" "hdev_tab s k = Some p"
  shows "hdevs_ok (removed_hdev p s)" and "hdev_tab (removed_hdev p s) = (hdev_tab s)(k := None)"
    and "\<exists>h. l_hdev s p = Some h \<and> hv_handle h = k" and "p \<noteq> 0" and "p \<in> set (l_dev_handles s)"
proof -
  have t: "table_ok hv_handle (l_cur_dev_handle s) (l_hdev s) (l_dev_handles s)"
    using assms(1) by (simp add: hdevs_ok_def)
  then obtain h where h: "p \<in> set (l_dev_handles s)" "l_hdev s p = Some h" "hv_handle h = k"
    using table_get_Some [OF t, of k p] assms(2) by (auto simp: hdev_tab_def)
  note del = table_del [OF t h(1,2)]
  from del(1) assms(1) show "hdevs_ok (removed_hdev p s)"
    by (auto simp: hdevs_ok_def removed_hdev_def ls_del_def dest: notin_set_remove1)
  from del(2) h(3) show "hdev_tab (removed_hdev p s) = (hdev_tab s)(k := None)"
    by (simp add: hdev_tab_def removed_hdev_def ls_del_def)
  show "\<exists>h. l_hdev s p = Some h \<and> hv_handle h = k" "p \<in> set (l_dev_handles s)" using h by simp_all
  show "p \<noteq> 0" using t h(1) by (cases "p = 0") (simp_all add: table_ok_def)
qed

text \<open>The state after the requests ios of the device handle p are freed.\<close>

definition freed_ios :: "addr list \<Rightarrow> 'a lib_scheme \<Rightarrow> 'a lib_scheme" where
  "freed_ios ios s = fold (\<lambda>io s. (io_unlink io s)\<lparr>l_io := (l_io s)(io := None)\<rparr>) ios s"

lemma freed_ios_simps [simp]:
  "freed_ios [] s = s"
  "freed_ios (io # ios) s = freed_ios ios ((io_unlink io s)\<lparr>l_io := (l_io s)(io := None)\<rparr>)"
  by (simp_all add: freed_ios_def)

lemma freed_ios_fields:
  "l_held (freed_ios ios s) = l_held s" "l_dev_handles (freed_ios ios s) = l_dev_handles s"
  "l_inited (freed_ios ios s) = l_inited s" "l_next (freed_ios ios s) = l_next s"
  "l_cur_dev_handle (freed_ios ios s) = l_cur_dev_handle s" "l_dev (freed_ios ios s) = l_dev s"
  "l_io (freed_ios ios s) = (\<lambda>io. if io \<in> set ios then None else l_io s io)"
  "map_option (\<lambda>h. h\<lparr>hv_io_head := []\<rparr>) (l_hdev (freed_ios ios s) p) =
     map_option (\<lambda>h. h\<lparr>hv_io_head := []\<rparr>) (l_hdev s p)"
  by (induction ios arbitrary: s)
    (auto simp: io_unlink_def fun_eq_iff option.map_comp comp_def)

lemma io_unlink_held: "io_unlink io (s\<lparr>l_held := l\<rparr>) = (io_unlink io s)\<lparr>l_held := l\<rparr>"
  by (simp add: io_unlink_def)

lemma freed_ios_held: "freed_ios ios (s\<lparr>l_held := l\<rparr>) = (freed_ios ios s)\<lparr>l_held := l\<rparr>"
proof (induction ios arbitrary: s)
  case (Cons io ios)
  have e: "(io_unlink io (s\<lparr>l_held := l\<rparr>))\<lparr>l_io := (l_io (s\<lparr>l_held := l\<rparr>))(io := None)\<rparr> =
      ((io_unlink io s)\<lparr>l_io := (l_io s)(io := None)\<rparr>)\<lparr>l_held := l\<rparr>" by (simp add: io_unlink_held)
  show ?case by (simp only: freed_ios_simps e Cons.IH)
qed simp

lemma freed_ios_hdev: "l_hdev s p = Some h \<Longrightarrow>
    \<exists>h'. l_hdev (freed_ios ios s) p = Some h' \<and> hv_handle h' = hv_handle h \<and> hv_idev h' = hv_idev h"
proof (induction ios arbitrary: s h)
  case (Cons io ios)
  show ?case
    using Cons.IH [of "(io_unlink io s)\<lparr>l_io := (l_io s)(io := None)\<rparr>"
        "h\<lparr>hv_io_head := remove1 io (hv_io_head h)\<rparr>"] Cons.prems by simp
qed simp

text \<open>The requests are live, of this device, and not asynchronous ones in progress.\<close>

definition idle_ios :: "addr \<Rightarrow> addr list \<Rightarrow> 'a lib_scheme \<Rightarrow> bool" where
  "idle_ios p ios s \<longleftrightarrow> distinct ios \<and> 0 \<notin> set ios \<and> (\<forall>io \<in> set ios. \<exists>x. l_io s io = Some x \<and> io_dev x = p \<and>
     \<not> (io_state x = IO_INPROGRESS \<and> io_async x))"

lemma close_ios_run:
  assumes "idle_ios p ios s" "l_held s = {LkHdev p}" "l_hdev s p \<noteq> None"
  shows "close_ios B p ios s = Some ((), freed_ios ios s)"
  using assms
proof (induction ios arbitrary: s)
  case (Cons io ios)
  then obtain x where x: "io \<noteq> 0" "l_io s io = Some x" "io_dev x = p" "\<not> (io_state x = IO_INPROGRESS \<and> io_async x)"
    by (auto simp: idle_ios_def)
  let ?u = "s\<lparr>l_held := {}\<rparr>"
  let ?t = "(io_unlink io s)\<lparr>l_io := (l_io s)(io := None)\<rparr>"
  have f: "usbi_free_io B io ?u = Some ((), ?t\<lparr>l_held := {}\<rparr>)"
    using free_io_run [of ?u io x B] x Cons.prems(3) by (simp add: io_unlink_held)
  have r: "close_ios B p ios ?t = Some ((), freed_ios ios ?t)"
    by (rule Cons.IH) (use Cons.prems in \<open>auto simp: idle_ios_def\<close>)
  from Cons.prems(3) obtain h where h: "l_hdev s p = Some h" by blast
  have u: "unlock_hdev p s = Some ?u" using Cons.prems(2) h by (simp add: unlock_hdev_def unlock_def)
  have e: "?t\<lparr>l_held := {LkHdev p}\<rparr> = ?t" by (rule held_same) (simp add: Cons.prems(2))
  have n: "l_hdev (?t\<lparr>l_held := {}\<rparr>) p \<noteq> None" using Cons.prems(3) by simp
  have l: "lock_hdev p (?t\<lparr>l_held := {}\<rparr>) = Some ?t"
  proof -
    have "lock (LkHdev p) (?t\<lparr>l_held := {}\<rparr>) = Some (?t\<lparr>l_held := {LkHdev p}\<rparr>)" by (simp add: lock_def)
    then show ?thesis using n by (auto simp only: lock_hdev_def e not_None_eq bind.bind_lunit)
  qed
  show ?case by (simp only: close_ios.simps u f l r bind.bind_lunit prod.case freed_ios_simps)
qed simp

text \<open>What is left of the library without the device handle and its requests.\<close>

lemma close_device_run:
  assumes ok: "hdevs_ok s" and k: "hdev_tab s k = Some p" "k \<noteq> 0" "l_hdev s p = Some h"
    and ios: "idle_ios p (hv_io_head h) s"
    and d: "l_dev s (hv_idev h) = Some d" "do_close (B (dv_ops d)) = Some close" "gives r (close p)"
  shows "\<exists>m. openusb_close_device B k s = Some (r, lib.more_update (\<lambda>_. m) (removed_hdev p (freed_ios (hv_io_head h) s)))"
proof -
  let ?t = "freed_ios (hv_io_head h) s"
  have held: "l_held s = {}" using ok by (simp add: hdevs_ok_def)
  have ci: "close_ios B p (hv_io_head h) (s\<lparr>l_held := {LkHdev p}\<rparr>) = Some ((), ?t\<lparr>l_held := {LkHdev p}\<rparr>)"
    using close_ios_run [of p "hv_io_head h" "s\<lparr>l_held := {LkHdev p}\<rparr>" B] ios k(3)
    by (simp add: idle_ios_def freed_ios_held)
  obtain h' where h': "l_hdev ?t p = Some h'" "hv_idev h' = hv_idev h"
    using freed_ios_hdev [OF k(3)] by blast
  from d(3) obtain m where m: "close p ?t = Some (r, lib.more_update (\<lambda>_. m) ?t)"
    unfolding gives_def by blast
  have "p \<noteq> 0" using removed_hdev_ok(4) [OF ok k(1)] .
  moreover have "LkDevHandles \<noteq> LkHdev p" "{LkHdev p, LkDevHandles} - {LkHdev p} = {LkDevHandles}" by auto
  moreover have e: "?t\<lparr>l_held := {}\<rparr> = ?t" by (rule held_same) (simp add: freed_ios_fields held)
  ultimately have "openusb_close_device B k s = Some (r, lib.more_update (\<lambda>_. m) (removed_hdev p ?t))"
    using find_hdev_run [OF ok, of k] k held ci h' d(1,2) m
    by (simp add: openusb_close_device_def lock_hdev_def unlock_hdev_def lock_def unlock_def dev_ops_def
        freed_ios_fields removed_hdev_def e)
  then show ?thesis by blast
qed


section \<open>Device handles as a table\<close>

definition closable :: "(nat \<Rightarrow> 'a lib_scheme backend_ops) \<Rightarrow> addr \<Rightarrow> 'a lib_scheme \<Rightarrow> bool" where
  "closable B p s \<longleftrightarrow> (\<exists>h d close r. l_hdev s p = Some h \<and> hv_handle h \<noteq> 0 \<and> idle_ios p (hv_io_head h) s \<and>
     l_dev s (hv_idev h) = Some d \<and> do_close (B (dv_ops d)) = Some close \<and> gives r (close p))"

definition open_ok :: "(nat \<Rightarrow> 'a lib_scheme backend_ops) \<Rightarrow> 'a lib_scheme \<Rightarrow> bool" where
  "open_ok B s \<longleftrightarrow> hdevs_ok s \<and> l_cur_dev_handle s \<noteq> 0 \<and> (\<forall>p \<in> set (l_dev_handles s). closable B p s)"

definition dev_answers :: "(nat \<Rightarrow> 'a lib_scheme backend_ops) \<Rightarrow> addr \<Rightarrow> addr \<Rightarrow> 'a lib_scheme \<Rightarrow> bool" where
  "dev_answers B p idev s \<longleftrightarrow> (\<exists>d cfg close r. l_dev s idev = Some d \<and>
     gives (0, cfg) (do_get_configuration (B (dv_ops d)) p) \<and> do_close (B (dv_ops d)) = Some close \<and>
     gives r (close p))"

lemma closable_other:
  assumes "closable B q s" "idle_ios p ios s" "q \<noteq> p"
  shows "closable B q (removed_hdev p (freed_ios ios s))"
proof -
  have keep: "l_hdev (freed_ios ios s) q = Some h \<and> (\<forall>io \<in> set (hv_io_head h). l_io (freed_ios ios s) io = l_io s io)"
    if h: "l_hdev s q = Some h" and dis: "set (hv_io_head h) \<inter> set ios = {}" for h
  proof -
    have "l_hdev (freed_ios ios s) q = Some h" using h dis
    proof (induction ios arbitrary: s)
      case (Cons io ios)
      have "h\<lparr>hv_io_head := remove1 io (hv_io_head h)\<rparr> = h" using Cons.prems(2)
        by (cases h) (simp add: remove1_idem)
      then show ?case using Cons by (simp add: Int_commute)
    qed simp
    then show ?thesis using dis by (auto simp: freed_ios_fields)
  qed
  from assms(1) obtain h d close r where h: "l_hdev s q = Some h" "hv_handle h \<noteq> 0" "idle_ios q (hv_io_head h) s"
    "l_dev s (hv_idev h) = Some d" "do_close (B (dv_ops d)) = Some close" "gives r (close q)"
    unfolding closable_def by blast
  have "set (hv_io_head h) \<inter> set ios = {}"
    using h(3) assms(2,3) by (fastforce simp: idle_ios_def)
  note k = keep [OF h(1) this]
  have "idle_ios q (hv_io_head h) (removed_hdev p (freed_ios ios s))"
    using h(3) k by (simp add: idle_ios_def removed_hdev_def)
  then show ?thesis using h k assms(3)
    unfolding closable_def by (intro exI [of _ h] exI [of _ d] exI [of _ close] exI [of _ r])
      (simp add: removed_hdev_def freed_ios_fields)
qed

lemma closable_more [simp]: "closable B p (lib.more_update f s) = closable B p s"
  by (simp add: closable_def idle_ios_def)

lemma table_cong:
  assumes "\<forall>p \<in> set ps. map_option key (h' p) = map_option key (h p)"
    and ok: "table_ok key cur h ps"
  shows "table_ok key cur h' ps" and "table_get key h' ps = table_get key h ps"
proof -
  have v: "\<exists>x y. h p = Some x \<and> h' p = Some y \<and> key y = key x \<and> key x < cur" if "p \<in> set ps" for p
    using assms that by (fastforce simp: table_ok_def)
  then have k: "key (the (h' p)) = key (the (h p))" if "p \<in> set ps" for p using that by fastforce
  then have "map (key \<circ> the \<circ> h') ps = map (key \<circ> the \<circ> h) ps" by simp
  moreover have "\<forall>p \<in> set ps. \<exists>x. h' p = Some x \<and> key x < cur" using v by force
  ultimately show "table_ok key cur h' ps" using ok unfolding table_ok_def by metis
  show "table_get key h' ps = table_get key h ps"
    unfolding table_get_def by (rule ext, rule find_cong) (use k in auto)
qed

lemma close_ok:
  assumes ok: "open_ok B s" and k: "hdev_tab s k = Some p"
  shows "\<exists>r s'. openusb_close_device B k s = Some (r, s') \<and> open_ok B s' \<and>
     hdev_tab s' = (hdev_tab s)(k := None) \<and> l_cur_dev_handle s' = l_cur_dev_handle s \<and> l_hdev s' p = None"
proof -
  have hd: "hdevs_ok s" using ok by (simp add: open_ok_def)
  note rm = removed_hdev_ok(3,5) [OF hd k]
  then obtain h d close r where h: "l_hdev s p = Some h" "hv_handle h = k" "k \<noteq> 0" "idle_ios p (hv_io_head h) s"
    "l_dev s (hv_idev h) = Some d" "do_close (B (dv_ops d)) = Some close" "gives r (close p)"
    using ok by (auto simp: open_ok_def closable_def)
  let ?t = "freed_ios (hv_io_head h) s"
  from close_device_run [OF hd k h(3,1,4,5), of B close r] h(6,7) obtain m where
    m: "openusb_close_device B k s = Some (r, lib.more_update (\<lambda>_. m) (removed_hdev p ?t))" by blast
  have "map_option hv_handle (l_hdev ?t q) = map_option hv_handle (l_hdev s q)" for q
    using freed_ios_fields(8) [of "hv_io_head h" s q]
    by (cases "l_hdev ?t q"; cases "l_hdev s q") (auto dest: arg_cong [where f = hv_handle])
  then have tab: "table_ok hv_handle (l_cur_dev_handle s) (l_hdev ?t) (l_dev_handles s) \<and>
      hdev_tab ?t = hdev_tab s"
    using table_cong [of "l_dev_handles s" hv_handle "l_hdev ?t" "l_hdev s"
        "l_cur_dev_handle s"] hd
    by (simp add: hdevs_ok_def hdev_tab_def freed_ios_fields)
  then have t: "hdevs_ok ?t" "hdev_tab ?t k = Some p" using hd k by (simp_all add: hdevs_ok_def freed_ios_fields)
  note r = removed_hdev_ok [OF t]
  have "closable B q (removed_hdev p ?t)" if "q \<in> set (l_dev_handles (removed_hdev p ?t))" for q
  proof (rule closable_other [OF _ h(4)])
    have "distinct (l_dev_handles s)" using hd by (simp add: hdevs_ok_def table_ok_def)
    then show "q \<noteq> p" and "closable B q s" using that ok
      by (auto simp: removed_hdev_def freed_ios_fields ls_del_def open_ok_def)
  qed
  then have "open_ok B (lib.more_update (\<lambda>_. m) (removed_hdev p ?t))"
    using r(1) ok by (simp add: open_ok_def) (simp add: removed_hdev_def freed_ios_fields)
  then show ?thesis using m r(2) tab
    by (intro exI [of _ r] exI [of _ "lib.more_update (\<lambda>_. m) (removed_hdev p ?t)"] conjI)
      (simp_all, simp_all add: removed_hdev_def freed_ios_fields)
qed


lemma open_hdev_ok:
  assumes ok: "open_ok B s" and o: "openable e B handle devid hdl idev s" and a: "dev_answers B (l_next s) idev s"
    and nw: "l_cur_dev_handle s < l_cur_dev_handle s + 1"
  shows "\<exists>m. openusb_open_device e 0 B handle devid flags False s =
       Some ((OPENUSB_SUCCESS, l_cur_dev_handle s), lib.more_update (\<lambda>_. m) (added_hdev hdl idev flags s))"
    and "open_ok B (lib.more_update (\<lambda>_. m) (added_hdev hdl idev flags s))"
proof -
  have hd: "hdevs_ok s" using ok by (simp add: open_ok_def)
  from a obtain d cfg close r where d: "l_dev s idev = Some d"
    "gives (0, cfg) (do_get_configuration (B (dv_ops d)) (l_next s))"
    "do_close (B (dv_ops d)) = Some close" "gives r (close (l_next s))"
    unfolding dev_answers_def by blast
  show "\<exists>m. openusb_open_device e 0 B handle devid flags False s =
       Some ((OPENUSB_SUCCESS, l_cur_dev_handle s), lib.more_update (\<lambda>_. m) (added_hdev hdl idev flags s))"
    by (rule open_device_run [OF hd nw o d(1,2)])
  let ?t = "added_hdev hdl idev flags s"
  have n: "l_next s \<notin> set (l_dev_handles s)" using hd by (auto simp: hdevs_ok_def)
  have "closable B (l_next s) ?t" using d ok unfolding closable_def
    by (intro exI [of _ "(new_hdev (l_cur_dev_handle s) hdl idev flags)\<lparr>hv_state := DEVICE_OPENED\<rparr>"]
        exI [of _ d] exI [of _ close] exI [of _ r]) (simp add: added_hdev_def idle_ios_def open_ok_def)
  moreover have "closable B p ?t" if "p \<in> set (l_dev_handles s)" for p
  proof -
    have "p \<noteq> l_next s" "closable B p s" using that n ok by (auto simp: open_ok_def)
    then show ?thesis by (simp add: closable_def idle_ios_def added_hdev_def)
  qed
  ultimately have "\<forall>p \<in> set (l_dev_handles ?t). closable B p ?t" by (auto simp: added_hdev_def)
  moreover have "l_cur_dev_handle s + 1 \<noteq> 0" using nw by auto
  ultimately show "open_ok B (lib.more_update (\<lambda>_. m) ?t)"
    using added_hdev_ok(1) [OF hd nw] by (simp add: open_ok_def) (simp add: added_hdev_def)
qed

interpretation dev_handles: id_table "open_ok B" hdev_tab l_cur_dev_handle
  "\<lambda>s p. p = l_next s \<and> (\<exists>hdl idev. openable e B handle devid hdl idev s \<and> dev_answers B p idev s)"
  usbi_find_dev_handle
  "\<lambda>p s. map_option (\<lambda>(r, s'). ((), s')) (openusb_open_device e 0 B handle devid flags False s)"
  "\<lambda>p s. map_option (\<lambda>(r, s'). ((), s')) (openusb_close_device B (hv_handle (the (l_hdev s p))) s)"
  for e B handle devid flags
proof (unfold_locales, goal_cases)
  case (1 s k)
  then show ?case by (intro find_hdev_run) (simp add: open_ok_def)
next
  case (2 s k p)
  then show ?case unfolding open_ok_def hdevs_ok_def hdev_tab_def by (elim conjE) (rule table_get_bound)
next
  case (3 s p)
  then obtain hdl idev where o: "p = l_next s" "openable e B handle devid hdl idev s" "dev_answers B (l_next s) idev s"
    by blast
  have "hdevs_ok s" using 3(1) by (simp add: open_ok_def)
  from added_hdev_ok(2) [OF this 3(3)] open_hdev_ok [OF 3(1) o(2,3) 3(3)] o(1) show ?case
    by (fastforce simp: added_hdev_def)
next
  case (4 s k p)
  have "hdevs_ok s" using 4(1) by (simp add: open_ok_def)
  from removed_hdev_ok(3) [OF this 4(2)] close_ok [OF 4] show ?case by auto
qed

text \<open>
  C21. Opening a device. For an open library handle and a known device whose backend
  accepts it, openusb_open_device returns success and the next device handle number, under
  which openusb_get_devid and openusb_get_lib_handle give the device and the library handle
  back; every other number finds what it found before. Closing the number again makes it
  unknown and frees the structure, and the numbers are not reused.
\<close>

theorem open_then_close:
  assumes ok: "open_ok B s" and o: "openable e B handle devid hdl idev s" and a: "dev_answers B (l_next s) idev s"
    and nw: "l_cur_dev_handle s < l_cur_dev_handle s + 1"
    and d: "l_dev s idev = Some d" and h: "l_hdl s hdl = Some h"
  shows "\<exists>s1 r s2. openusb_open_device e 0 B handle devid flags False s = Some ((OPENUSB_SUCCESS, l_cur_dev_handle s), s1) \<and>
     openusb_get_devid (l_cur_dev_handle s) False s1 = Some ((OPENUSB_SUCCESS, Some (dv_devid d)), s1) \<and>
     openusb_get_lib_handle (l_cur_dev_handle s) False s1 = Some ((OPENUSB_SUCCESS, Some (hd_handle h)), s1) \<and>
     (\<forall>k. k \<noteq> l_cur_dev_handle s \<longrightarrow> map_option fst (usbi_find_dev_handle k s1) = map_option fst (usbi_find_dev_handle k s)) \<and>
     openusb_close_device B (l_cur_dev_handle s) s1 = Some (r, s2) \<and> l_hdev s2 (l_next s) = None \<and>
     (\<forall>k. map_option fst (usbi_find_dev_handle k s2) = map_option fst (usbi_find_dev_handle k s)) \<and>
     l_cur_dev_handle s < l_cur_dev_handle s2"
proof -
  let ?n = "l_cur_dev_handle s"
  have hd: "hdevs_ok s" using ok by (simp add: open_ok_def)
  obtain m where m: "openusb_open_device e 0 B handle devid flags False s =
      Some ((OPENUSB_SUCCESS, ?n), lib.more_update (\<lambda>_. m) (added_hdev hdl idev flags s))" (is "_ = Some (_, ?s1)")
    using open_hdev_ok(1) [OF ok o a nw] by blast
  have ok1: "open_ok B ?s1" by (rule open_hdev_ok(2) [OF ok o a nw])
  then have hd1: "hdevs_ok ?s1" by (simp add: open_ok_def)
  have t1: "hdev_tab ?s1 = (hdev_tab s)(?n \<mapsto> l_next s)" using added_hdev_ok(2) [OF hd nw] by simp
  have n: "l_next s \<noteq> 0" "l_held s = {}" using hd by (simp_all add: hdevs_ok_def)
  have g: "openusb_get_devid ?n False ?s1 = Some ((OPENUSB_SUCCESS, Some (dv_devid d)), ?s1)"
    "openusb_get_lib_handle ?n False ?s1 = Some ((OPENUSB_SUCCESS, Some (hd_handle h)), ?s1)"
    using find_hdev_run [OF hd1, of ?n] t1 n d h
    by (simp_all add: openusb_get_devid_def openusb_get_lib_handle_def lock_hdev_def unlock_hdev_def
        lock_def unlock_def added_hdev_def held_same)
  obtain r s2 where c: "openusb_close_device B ?n ?s1 = Some (r, s2)" "open_ok B s2"
    "hdev_tab s2 = (hdev_tab ?s1)(?n := None)" "l_cur_dev_handle s2 = l_cur_dev_handle ?s1" "l_hdev s2 (l_next s) = None"
    using close_ok [OF ok1, of ?n "l_next s"] t1 by auto
  have "hdev_tab s ?n = None"
    using table_get_bound [of hv_handle ?n "l_hdev s" "l_dev_handles s" ?n] hd
    by (cases "hdev_tab s ?n") (auto simp: hdevs_ok_def hdev_tab_def)
  then have t2: "hdev_tab s2 = hdev_tab s" "hdevs_ok s2" using c(2,3) t1 by (auto simp: open_ok_def)
  have "?n < l_cur_dev_handle s2" using c(4) nw by (simp add: added_hdev_def)
  then show ?thesis using m g c(1,5) find_hdev_run [OF hd] find_hdev_run [OF hd1] find_hdev_run [OF t2(2)] t1 t2(1)
    by (intro exI [of _ ?s1] exI [of _ r] exI [of _ s2]) simp
qed


text \<open>When the backend refuses to open a device, openusb_open_device returns its error and
  leaves the library as it was: no handle is added and the structure is freed; only a device
  handle number has been used up.
\<close>

theorem refused_open_leaves_nothing:
  assumes ok: "hdevs_ok s" "l_hdev s (l_next s) = None"
    and e: "en_alloc e (l_next s)" "en_mutex e (LkHdev (l_next s))"
    and f: "usbi_find_handle handle s = Some (hdl, s)" "hdl \<noteq> 0"
      "usbi_find_device_by_id devid s = Some (idev, s)" "idev \<noteq> 0"
    and d: "l_dev s idev = Some d" "gives ret (do_open (B (dv_ops d)) (l_next s))" "ret < 0"
  shows "\<exists>m. openusb_open_device e 0 B handle devid flags False s = Some ((ret, 0),
     lib.more_update (\<lambda>_. m) (s\<lparr>l_next := l_next s + 1, l_cur_dev_handle := l_cur_dev_handle s + 1\<rparr>))"
proof -
  let ?s1 = "s\<lparr>l_next := l_next s + 1, l_cur_dev_handle := l_cur_dev_handle s + 1,
    l_hdev := (l_hdev s)(l_next s \<mapsto> new_hdev (l_cur_dev_handle s) hdl idev flags)\<rparr>"
  from d(2) obtain m where "do_open (B (dv_ops d)) (l_next s) ?s1 = Some (ret, lib.more_update (\<lambda>_. m) ?s1)"
    unfolding gives_def by blast
  moreover have "(l_hdev s)(l_next s := None) = l_hdev s" using ok(2) by auto
  ultimately have "openusb_open_device e 0 B handle devid flags False s = Some ((ret, 0),
     lib.more_update (\<lambda>_. m) (s\<lparr>l_next := l_next s + 1, l_cur_dev_handle := l_cur_dev_handle s + 1\<rparr>))"
    using assms
    by (simp add: openusb_open_device_def fresh_def Let_def lock_def unlock_def hdevs_ok_def dev_ops_def held_same)
  then show ?thesis by blast
qed

section \<open>Aborting\<close>

text \<open>The requests of all open devices in the order openusb_abort visits them.\<close>

definition requests :: "'a lib_scheme \<Rightarrow> addr list \<Rightarrow> (addr \<times> addr) list" where
  "requests s ps = concat (map (\<lambda>p. map (Pair p) (hv_io_head (the (l_hdev s p)))) ps)"

definition requested :: "'a lib_scheme \<Rightarrow> addr \<Rightarrow> addr \<times> addr \<Rightarrow> bool" where
  "requested s phdl q = (io_req (the (l_io s (snd q))) = phdl)"

lemma abort_ios_run:
  assumes "\<forall>io \<in> set ios. l_io s io \<noteq> None"
  shows "abort_ios B phdl p ios s = (case find (requested s phdl) (map (Pair p) ios) of None \<Rightarrow> Some (None, s)
     | Some (_, io) \<Rightarrow> do { ops \<leftarrow> dev_ops B p s; cancel \<leftarrow> do_io_cancel ops; (ret, s) \<leftarrow> cancel io s; Some (Some ret, s) })"
  using assms by (induction ios) (auto simp: requested_def split: option.split)

lemma find_append: "find P (xs @ ys) = (case find P xs of None \<Rightarrow> find P ys | Some x \<Rightarrow> Some x)"
  by (induction xs) auto

lemma abort_walk_none:
  assumes "\<forall>p \<in> set ps. \<exists>h. l_hdev s p = Some h \<and> (\<forall>io \<in> set (hv_io_head h). l_io s io \<noteq> None)"
    and "l_held s = {LkDevHandles}" "find (requested s phdl) (requests s ps) = None"
  shows "abort_walk B phdl ps s = Some (None, s\<lparr>l_held := {}\<rparr>)"
  using assms
proof (induction ps)
  case (Cons p ps)
  from Cons.prems(1) obtain h where h: "l_hdev s p = Some h" "\<forall>io \<in> set (hv_io_head h). l_io s io \<noteq> None" by auto
  let ?t = "s\<lparr>l_held := {LkHdev p}\<rparr>"
  have "find (requested s phdl) (map (Pair p) (hv_io_head h)) = None" "find (requested s phdl) (requests s ps) = None"
    using Cons.prems(3) h(1) by (auto simp: requests_def find_append split: option.splits)
  moreover have "requested ?t phdl = requested s phdl" by (simp add: requested_def fun_eq_iff)
  ultimately have "abort_ios B phdl p (hv_io_head h) ?t = Some (None, ?t)"
    using abort_ios_run [of "hv_io_head h" ?t B phdl p] h(2) by simp
  then show ?case using Cons h(1)
    by (simp add: lock_hdev_def unlock_hdev_def lock_def unlock_def held_same \<open>find (requested s phdl) (requests s ps) = None\<close>)
qed (simp add: unlock_def)

lemma abort_walk_some:
  assumes "\<forall>p \<in> set ps. \<exists>h. l_hdev s p = Some h \<and> (\<forall>io \<in> set (hv_io_head h). l_io s io \<noteq> None)"
    and "l_held s = {LkDevHandles}" "find (requested s phdl) (requests s ps) = Some (q, io)"
    and "dev_ops B q s = Some ops" "do_io_cancel ops = Some cancel" "gives ret (cancel io)"
  shows "\<exists>m. abort_walk B phdl ps s = Some (Some ret, lib.more_update (\<lambda>_. m) (s\<lparr>l_held := {}\<rparr>))"
  using assms
proof (induction ps)
  case (Cons p ps)
  from Cons.prems(1) obtain h where h: "l_hdev s p = Some h" "\<forall>io \<in> set (hv_io_head h). l_io s io \<noteq> None" by auto
  let ?t = "s\<lparr>l_held := {LkHdev p}\<rparr>"
  have r: "requested ?t phdl = requested s phdl" by (simp add: requested_def fun_eq_iff)
  have ai: "abort_ios B phdl p (hv_io_head h) ?t = (case find (requested s phdl) (map (Pair p) (hv_io_head h)) of
      None \<Rightarrow> Some (None, ?t)
     | Some (_, io) \<Rightarrow> do { ops \<leftarrow> dev_ops B p ?t; cancel \<leftarrow> do_io_cancel ops; (ret, s) \<leftarrow> cancel io ?t; Some (Some ret, s) })"
    using abort_ios_run [of "hv_io_head h" ?t B phdl p] h(2) r by simp
  show ?case
  proof (cases "find (requested s phdl) (map (Pair p) (hv_io_head h))")
    case None
    then have "find (requested s phdl) (requests s ps) = Some (q, io)"
      using Cons.prems(3) h(1) by (simp add: requests_def find_append)
    then obtain m where m: "abort_walk B phdl ps s = Some (Some ret, lib.more_update (\<lambda>_. m) (s\<lparr>l_held := {}\<rparr>))"
      using Cons by auto
    have "abort_walk B phdl (p # ps) s = Some (Some ret, lib.more_update (\<lambda>_. m) (s\<lparr>l_held := {}\<rparr>))"
      using Cons.prems(2) h(1) ai None m
      by (simp add: lock_hdev_def unlock_hdev_def lock_def unlock_def held_same)
    then show ?thesis by blast
  next
    case (Some z)
    then have z: "z = (q, io)" using Cons.prems(3) h(1) by (simp add: requests_def find_append)
    moreover have "q = p" using Some z by (auto simp: find_Some_iff)
    moreover obtain m where m: "cancel io ?t = Some (ret, lib.more_update (\<lambda>_. m) ?t)"
      using Cons.prems(6) unfolding gives_def by blast
    moreover have "dev_ops B p ?t = dev_ops B p s" by (simp add: dev_ops_def)
    ultimately have "abort_ios B phdl p (hv_io_head h) ?t = Some (Some ret, lib.more_update (\<lambda>_. m) ?t)"
      using Cons.prems(4,5) ai Some by simp
    then have "abort_walk B phdl (p # ps) s = Some (Some ret, lib.more_update (\<lambda>_. m) (s\<lparr>l_held := {}\<rparr>))"
      using Cons.prems(2) h(1)
      by (simp add: lock_hdev_def unlock_hdev_def lock_def unlock_def held_same)
    then show ?thesis by blast
  qed
qed (simp add: requests_def)

text \<open>
  openusb_abort asks the backend to cancel the first request of an open device that is
  the given one and returns the backend's answer; without such a request it returns
  OPENUSB_INVALID_HANDLE and changes nothing. It leaves no mutex locked.
\<close>

theorem abort_cancels_first:
  assumes live: "\<forall>p \<in> set (l_dev_handles s). \<exists>h. l_hdev s p = Some h \<and> (\<forall>io \<in> set (hv_io_head h). l_io s io \<noteq> None)"
    and s: "l_held s = {}" "phdl \<noteq> 0"
    and can: "\<And>q io. (q, io) \<in> set (requests s (l_dev_handles s)) \<Longrightarrow> \<exists>ops cancel.
      dev_ops B q s = Some ops \<and> do_io_cancel ops = Some cancel \<and> gives (ans io) (cancel io)"
  shows "\<exists>m. openusb_abort B phdl s =
     Some (case find (requested s phdl) (requests s (l_dev_handles s)) of
         None \<Rightarrow> OPENUSB_INVALID_HANDLE | Some (q, io) \<Rightarrow> ans io, lib.more_update (\<lambda>_. m) s)"
proof -
  let ?t = "s\<lparr>l_held := {LkDevHandles}\<rparr>"
  have r: "requested ?t phdl = requested s phdl" "requests ?t = requests s"
    by (simp_all add: requested_def requests_def fun_eq_iff)
  show ?thesis
  proof (cases "find (requested s phdl) (requests s (l_dev_handles s))")
    case None
    then have "abort_walk B phdl (l_dev_handles s) ?t = Some (None, s\<lparr>l_held := {}\<rparr>)"
      using abort_walk_none [of "l_dev_handles s" ?t phdl B] live r by simp
    then have "openusb_abort B phdl s = Some (OPENUSB_INVALID_HANDLE, s)"
      using s by (simp add: openusb_abort_def lock_def held_same)
    then show ?thesis using None by (intro exI [of _ "lib.more s"]) simp
  next
    case (Some z)
    obtain q io where z: "z = (q, io)" by (cases z)
    then have "(q, io) \<in> set (requests s (l_dev_handles s))" using Some by (auto simp: find_Some_iff in_set_conv_nth)
    then obtain ops cancel where c: "dev_ops B q s = Some ops" "do_io_cancel ops = Some cancel" "gives (ans io) (cancel io)"
      using can by blast
    have "dev_ops B q ?t = Some ops" using c(1) by (simp add: dev_ops_def)
    then obtain m where "abort_walk B phdl (l_dev_handles s) ?t = Some (Some (ans io), lib.more_update (\<lambda>_. m) (s\<lparr>l_held := {}\<rparr>))"
      using abort_walk_some [of "l_dev_handles s" ?t phdl q io B ops cancel "ans io"] live r Some z c by auto
    then have "openusb_abort B phdl s = Some (ans io, lib.more_update (\<lambda>_. m) s)"
      using s by (simp add: openusb_abort_def lock_def held_same)
    then show ?thesis using Some z by auto
  qed
qed

section \<open>Bounds of the interface number\<close>

text \<open>The test ifc > USBI_MAXINTERFACES lets 32 through, one past the end of claimed_ifs:
  for an open device openusb_is_interface_claimed is defined for exactly the interface
  numbers other than 32, and openusb_release_interface and openusb_get_altsetting fault on
  32 as well.
\<close>

theorem interface_32_out_of_bounds:
  assumes ok: "hdevs_ok s" and k: "hdev_tab s k = Some p" "l_hdev s p = Some h"
    and c: "length (hv_claimed_ifs h) = USBI_MAXINTERFACES"
  shows "(openusb_is_interface_claimed k ifc s = None \<longleftrightarrow> ifc = 32) \<and>
     openusb_release_interface B k 32 s = None \<and> openusb_get_altsetting B k 32 False s = None"
proof -
  have p: "p \<noteq> 0" and held: "l_held s = {}" using removed_hdev_ok(4) [OF ok k(1)] ok by (simp_all add: hdevs_ok_def)
  have f: "usbi_find_dev_handle k s = Some (p, s)" using find_hdev_run [OF ok, of k] k(1) by simp
  have n: "ifc = 32 \<longleftrightarrow> unat ifc = 32" by (simp add: word_unat_eq_iff)
  have "openusb_is_interface_claimed k ifc s = None \<longleftrightarrow> ifc = 32"
    using f p held k(2) c
    by (auto simp: openusb_is_interface_claimed_def lock_hdev_def unlock_hdev_def lock_def unlock_def
        rd_def USBI_MAXINTERFACES_def n)
  moreover have "openusb_is_interface_claimed k 32 s = None"
    using f p held k(2) c
    by (simp add: openusb_is_interface_claimed_def lock_hdev_def lock_def rd_def USBI_MAXINTERFACES_def)
  ultimately show ?thesis using f p held k(2) c
    by (simp add: openusb_release_interface_def openusb_get_altsetting_def lock_hdev_def lock_def rd_def
        USBI_MAXINTERFACES_def)
qed

end
