(* ===== verification/DescSearch.thy ===== *)
theory DescSearch
  imports DescFetch
begin

text \<open>
  The searches of devices.c in the bytes of a configuration descriptor: the loop of
  openusb_parse_interface_desc and openusb_parse_endpoint_desc for an alternate setting,
  usbi_nth_desc, and the count of alternate settings. The buffer is a suffix of the
  descriptor; the length variable beside it is uint16_t. All three stay inside the buffer
  and end whatever the bytes are, and find the right descriptors of a well-formed tree.
\<close>

section \<open>The code\<close>

text \<open>The test for the interface descriptor of a setting; later bytes are only read if the
  earlier ones fit.\<close>

definition is_altsetting :: "u8 \<Rightarrow> u8 \<Rightarrow> u8 list \<Rightarrow> bool option" where
  "is_altsetting ifcidx alt sp = do {
     t \<leftarrow> rd sp 1;
     (if t \<noteq> USB_DESC_TYPE_INTERFACE then Some False
      else do {
        n \<leftarrow> rd sp 2;
        (if n \<noteq> ifcidx then Some False else do { a \<leftarrow> rd sp 3; Some (a = alt) })
      })
   }"

lemma unat_ucast_u8_u16: "unat (ucast (b :: u8) :: u16) = unat b"
proof -
  have "unat b < 2 ^ 16" using unat_u8_less [of b] by (rule less_trans) simp
  then show ?thesis by (simp add: unsigned_ucast_eq take_bit_nat_eq_self)
qed

lemma unat_sub_u8: "ucast (b :: u8) \<le> (w :: u16) \<Longrightarrow> unat (w - ucast b) = unat w - unat b"
  by (simp add: unat_sub unat_ucast_u8_u16)

lemma ucast_le_u8: "ucast (b :: u8) \<le> (w :: u16) \<longleftrightarrow> unat b \<le> unat w"
  by (simp add: word_le_nat_alt unat_ucast_u8_u16)

lemma step_less: "(b :: u8) \<noteq> 0 \<Longrightarrow> unat b \<le> n \<Longrightarrow> n - unat b < n"
  by (metis diff_less gr_zeroI le_zero_eq unat_eq_zero)

text \<open>
  The search for it while more than least bytes are left: Some None if there is none, else
  the position and the length that is left.
\<close>

function find_altsetting :: "u16 \<Rightarrow> u8 \<Rightarrow> u8 \<Rightarrow> u8 list \<Rightarrow> u16 \<Rightarrow> (u8 list \<times> u16) option option" where
  "find_altsetting least ifcidx alt sp tmplen =
     (if least < tmplen then do {
        hit \<leftarrow> is_altsetting ifcidx alt sp;
        (if hit then Some (Some (sp, tmplen))
         else do {
           l \<leftarrow> rd sp 0;
           (if l > 0 \<and> ucast l \<le> tmplen
            then find_altsetting least ifcidx alt (drop (unat l) sp) (tmplen - ucast l)
            else Some None)
         })
      } else Some None)"
  by auto
termination
  by (relation "measure (\<lambda>(_, _, _, _, n). unat n)")
    (auto simp: unat_sub_u8 ucast_le_u8 word_greater_zero_iff step_less)

text \<open>usbi_nth_desc: the offset from the start of the buffer, or Some None for NULL.\<close>

function nth_desc_loop :: "u8 list \<Rightarrow> nat \<Rightarrow> u16 \<Rightarrow> u8 \<Rightarrow> u8 \<Rightarrow> u8 \<Rightarrow> nat option option" where
  "nth_desc_loop buffer off buflen ty n stop_type =
     (if 2 \<le> buflen then do {
        t \<leftarrow> rd buffer (off + 1);
        (if off \<noteq> 0 \<and> t = stop_type then Some None
         else if t = ty \<and> n = 0 then Some (Some off)
         else do {
           let n = (if t = ty then n - 1 else n);
           l \<leftarrow> rd buffer off;
           (if l = 0 \<or> buflen < ucast l then Some None
            else nth_desc_loop buffer (off + unat l) (buflen - ucast l) ty n stop_type)
         })
      } else Some None)"
  by auto
termination
  by (relation "measure (\<lambda>(_, _, n, _). unat n)")
    (auto simp: unat_sub_u8 ucast_le_u8 not_less step_less)

definition usbi_nth_desc :: "u8 list \<Rightarrow> u16 \<Rightarrow> u8 \<Rightarrow> u8 \<Rightarrow> u8 \<Rightarrow> nat option option" where
  "usbi_nth_desc buffer buflen ty n stop_type = nth_desc_loop buffer 0 buflen ty n stop_type"

function num_alt_loop :: "u8 list \<Rightarrow> u16 \<Rightarrow> u8 \<Rightarrow> u8 \<Rightarrow> int option" where
  "num_alt_loop p buflen infidx num_alt =
     (if 3 \<le> buflen then do {
        t \<leftarrow> rd p 1;
        i \<leftarrow> (if t = USB_DESC_TYPE_INTERFACE then rd p 2 else Some 0);
        (if t = USB_DESC_TYPE_INTERFACE \<and> i > infidx
         then Some (if num_alt > 0 then int (unat num_alt) else -1)
         else do {
           let num_alt = (if t = USB_DESC_TYPE_INTERFACE \<and> i = infidx then num_alt + 1 else num_alt);
           l \<leftarrow> rd p 0;
           (if l > 0 \<and> ucast l \<le> buflen
            then num_alt_loop (drop (unat l) p) (buflen - ucast l) infidx num_alt
            else Some (-1))
         })
      } else Some (if num_alt > 0 then int (unat num_alt) else -1))"
  by auto
termination
  by (relation "measure (\<lambda>(_, n, _). unat n)")
    (auto simp: unat_sub_u8 ucast_le_u8 word_greater_zero_iff step_less)

definition usbi_get_num_altsettings :: "u8 list option \<Rightarrow> u16 \<Rightarrow> u8 \<Rightarrow> int option" where
  "usbi_get_num_altsettings buffer buflen infidx =
     (case buffer of None \<Rightarrow> Some (-1)
      | Some p \<Rightarrow> if buflen = 0 then Some (-1) else num_alt_loop p buflen infidx 0)"

declare find_altsetting.simps [simp del] nth_desc_loop.simps [simp del] num_alt_loop.simps [simp del]

section \<open>They stay inside the buffer\<close>

lemma find_altsetting_safe:
  assumes "unat tmplen \<le> length sp" "3 \<le> least"
  shows "\<exists>r. find_altsetting least i a sp tmplen = Some r \<and>
     (\<forall>sp' len'. r = Some (sp', len') \<longrightarrow> unat len' \<le> length sp' \<and> least < len')"
  using assms
proof (induction least i a sp tmplen rule: find_altsetting.induct)
  case (1 least i a sp tmplen)
  show ?case
  proof (cases "least < tmplen")
    case True
    then have l: "4 \<le> length sp" using 1(2,3) by (simp add: word_less_nat_alt word_le_nat_alt)
    then obtain h where h: "is_altsetting i a sp = Some h" 
      by (cases "is_altsetting i a sp") (auto simp: is_altsetting_def rd_def split: if_splits)
    have r: "rd sp 0 = Some (sp ! 0)" using l by (cases sp) (auto simp: rd_def)
    have n: "unat (tmplen - ucast (sp ! 0)) \<le> length (drop (unat (sp ! 0)) sp)"
      if "ucast (sp ! 0) \<le> tmplen" using that 1(2) by (simp add: unat_sub_u8 ucast_le_u8)
    show ?thesis using 1 True h r n
      by (subst (1) find_altsetting.simps) auto
  next
    case False
    then show ?thesis by (subst find_altsetting.simps) simp
  qed
qed

lemma nth_desc_loop_safe:
  assumes "off + unat buflen \<le> length buffer"
  shows "\<exists>r. nth_desc_loop buffer off buflen ty n stop = Some r \<and>
     (\<forall>k. r = Some k \<longrightarrow> off \<le> k \<and> k + 2 \<le> off + unat buflen \<and> buffer ! (k + 1) = ty)"
  using assms
proof (induction buffer off buflen ty n stop rule: nth_desc_loop.induct)
  case (1 buffer off buflen ty n stop)
  show ?case
  proof (cases "2 \<le> buflen")
    case True
    then have l: "off + 2 \<le> length buffer" using 1(2) by (simp add: word_le_nat_alt)
    then have r: "rd buffer off = Some (buffer ! off)" "rd buffer (off + 1) = Some (buffer ! (off + 1))"
      by (simp_all add: rd_def)
    show ?thesis
    proof (cases "(off \<noteq> 0 \<and> buffer ! (off + 1) = stop) \<or> (buffer ! (off + 1) = ty \<and> n = 0) \<or>
        buffer ! off = 0 \<or> buflen < ucast (buffer ! off)")
      case stop: True
      then show ?thesis using True r by (subst (1) nth_desc_loop.simps) (auto simp: word_le_nat_alt)
    next
      case False
      let ?n = "if buffer ! (off + 1) = ty then n - 1 else n"
      have n: "unat (buflen - ucast (buffer ! off)) = unat buflen - unat (buffer ! off)"
        "unat (buffer ! off) \<le> unat buflen"
        using False by (simp_all add: unat_sub_u8 ucast_le_u8 not_less)
      from 1(1) [OF True r(2) _ _ _ r(1), of ?n] False n 1(2)
      obtain q where q: "nth_desc_loop buffer (off + unat (buffer ! off)) (buflen - ucast (buffer ! off)) ty ?n stop = Some q"
        "\<forall>k. q = Some k \<longrightarrow> off + unat (buffer ! off) \<le> k \<and> k + 2 \<le> off + unat buflen \<and> buffer ! (k + 1) = ty"
        by auto
      have "nth_desc_loop buffer off buflen ty n stop = Some q"
        using True r False q(1) by (subst nth_desc_loop.simps) (auto simp: Let_def)
      then show ?thesis using q(2) by auto
    qed
  next
    case False
    then show ?thesis by (subst nth_desc_loop.simps) simp
  qed
qed

lemma num_alt_loop_safe:
  assumes "unat buflen \<le> length p"
  shows "num_alt_loop p buflen i n \<noteq> None"
  using assms
proof (induction "unat buflen" arbitrary: p buflen n rule: less_induct)
  case less
  show ?case
  proof (cases "3 \<le> buflen")
    case True
    then have l: "3 \<le> length p" using less(2) by (simp add: word_le_nat_alt)
    then have r: "rd p 0 = Some (p ! 0)" "rd p 1 = Some (p ! 1)" "rd p 2 = Some (p ! 2)"
      by (auto simp: rd_def)
    have n: "num_alt_loop (drop (unat (p ! 0)) p) (buflen - ucast (p ! 0)) i m \<noteq> None"
      if "ucast (p ! 0) \<le> buflen" "p ! 0 \<noteq> 0" for m
      by (rule less(1)) (use that less(2) in \<open>simp_all add: unat_sub_u8 ucast_le_u8 step_less\<close>)
    show ?thesis using True r n
      by (subst num_alt_loop.simps) (auto simp: Let_def word_greater_zero_iff)
  next
    case False
    then show ?thesis by (subst num_alt_loop.simps) simp
  qed
qed

section \<open>What they find in a sequence of descriptors\<close>

definition wf_desc :: "u8 list \<Rightarrow> bool" where
  "wf_desc d \<longleftrightarrow> 2 \<le> length d \<and> unat (d ! 0) = length d \<and> (d ! 1 = USB_DESC_TYPE_INTERFACE \<longrightarrow> length d = 9)"

definition is_header :: "u8 \<Rightarrow> u8 \<Rightarrow> u8 list \<Rightarrow> bool" where
  "is_header i a d \<longleftrightarrow> d ! 1 = USB_DESC_TYPE_INTERFACE \<and> d ! 2 = i \<and> d ! 3 = a"

lemma wf_desc_step:
  assumes "wf_desc d" "unat (len :: u16) = length d + m"
  shows "d ! 0 \<noteq> 0" "ucast (d ! 0) \<le> len" "unat (len - ucast (d ! 0)) = m"
    "rd (d @ r) 0 = Some (d ! 0)" "rd (d @ r) 1 = Some (d ! 1)" "drop (unat (d ! 0)) (d @ r) = r"
proof -
  have d: "2 \<le> length d" "unat (d ! 0) = length d" using assms(1) by (auto simp: wf_desc_def)
  then show "d ! 0 \<noteq> 0" by auto
  show le: "ucast (d ! 0) \<le> len" using d assms(2) by (simp add: ucast_le_u8)
  show "unat (len - ucast (d ! 0)) = m" using d assms(2) by (simp add: unat_sub_u8 [OF le])
  show "rd (d @ r) 0 = Some (d ! 0)" "rd (d @ r) 1 = Some (d ! 1)" using d by (auto simp: rd_def nth_append)
  show "drop (unat (d ! 0)) (d @ r) = r" using d by simp
qed

lemma is_altsetting_header: "wf_desc d \<Longrightarrow> is_altsetting i a (d @ r) = Some (is_header i a d)"
  by (auto simp: is_altsetting_def is_header_def wf_desc_def rd_def nth_append)

lemma find_altsetting_step:
  assumes "wf_desc d" "unat len = length d + m" "least < len" "\<not> is_header i a d"
  shows "find_altsetting least i a (d @ r) len = find_altsetting least i a r (len - ucast (d ! 0))"
  using wf_desc_step [OF assms(1,2)] is_altsetting_header [OF assms(1)] assms(3,4)
  by (subst find_altsetting.simps) (simp add: word_greater_zero_iff)

lemma find_altsetting_none:
  assumes "list_all wf_desc ds" "unat len = length (concat ds)" "\<forall>d \<in> set ds. \<not> is_header i a d"
  shows "find_altsetting least i a (concat ds @ g) len = Some None"
  using assms
proof (induction ds arbitrary: len)
  case Nil
  then show ?case by (subst find_altsetting.simps) (simp add: word_less_nat_alt)
next
  case (Cons d ds)
  show ?case
  proof (cases "least < len")
    case True
    have "find_altsetting least i a (concat (d # ds) @ g) len =
        find_altsetting least i a (concat ds @ g) (len - ucast (d ! 0))"
      using find_altsetting_step [of d len "length (concat ds)" least i a "concat ds @ g"] Cons.prems True by simp
    moreover have "unat (len - ucast (d ! 0)) = length (concat ds)"
      using wf_desc_step(3) [of d len "length (concat ds)"] Cons.prems by simp
    ultimately show ?thesis using Cons by simp
  next
    case False
    then show ?thesis by (subst find_altsetting.simps) simp
  qed
qed

lemma find_altsetting_some:
  assumes "list_all wf_desc (pre @ d # post)" "unat len = length (concat (pre @ d # post))"
    and "\<forall>d \<in> set pre. \<not> is_header i a d" "is_header i a d" "unat least < 9"
  shows "\<exists>len'. find_altsetting least i a (concat (pre @ d # post) @ g) len =
     Some (Some (d @ concat post @ g, len')) \<and> unat len' = length d + length (concat post)"
  using assms
proof (induction pre arbitrary: len)
  case Nil
  have "length d = 9" using Nil by (simp add: wf_desc_def is_header_def)
  then have "least < len" using Nil by (simp add: word_less_nat_alt)
  then show ?case using Nil is_altsetting_header [of d i a] by (subst find_altsetting.simps) simp
next
  case (Cons e pre)
  let ?m = "length (concat (pre @ d # post))"
  have "length d = 9" using Cons.prems by (simp add: wf_desc_def is_header_def)
  then have l: "least < len" using Cons.prems(2,5) by (simp add: word_less_nat_alt)
  have e: "wf_desc e" "unat len = length e + ?m" "\<not> is_header i a e" using Cons.prems by simp_all
  have "find_altsetting least i a (concat (e # pre @ d # post) @ g) len =
      find_altsetting least i a (concat (pre @ d # post) @ g) (len - ucast (e ! 0))"
    using find_altsetting_step [OF e(1,2) l e(3), of "concat (pre @ d # post) @ g"] by simp
  then show ?case using Cons.IH [of "len - ucast (e ! 0)"] wf_desc_step(3) [OF e(1,2)] Cons.prems by simp
qed

lemma rd_drop: "rd (drop off b) i = rd b (off + i)"
  by (auto simp: rd_def)

lemma unat_of_nat_u8: "k < 256 \<Longrightarrow> unat (of_nat k :: u8) = k"
  by (simp add: unsigned_of_nat take_bit_nat_eq_self)

lemma nth_desc_loop_ok:
  assumes "list_all wf_desc (pre @ d # post)" "drop off buffer = concat (pre @ d # post) @ g"
    and "unat buflen = length (concat (pre @ d # post))" "off \<noteq> 0"
    and "\<forall>e \<in> set pre. e ! 1 \<noteq> stop" "d ! 1 = ty" "ty \<noteq> stop"
    and "n = of_nat (length (filter (\<lambda>e. e ! 1 = ty) pre))" "length (filter (\<lambda>e. e ! 1 = ty) pre) < 256"
  shows "nth_desc_loop buffer off buflen ty n stop = Some (Some (off + length (concat pre)))"
  using assms
proof (induction pre arbitrary: off buflen n)
  case Nil
  have d: "2 \<le> length d" using Nil by (simp add: wf_desc_def)
  then have "rd buffer (off + 1) = Some (d ! 1)" "2 \<le> buflen"
    using Nil(2,3) rd_drop [of off buffer 1, symmetric] by (simp_all add: rd_def nth_append word_le_nat_alt)
  then show ?case using Nil by (subst nth_desc_loop.simps) simp
next
  case (Cons e pre)
  let ?r = "concat (pre @ d # post) @ g"
  have e: "wf_desc e" "unat buflen = length e + length (concat (pre @ d # post))" using Cons.prems by simp_all
  note st = wf_desc_step [OF e]
  have dr: "drop off buffer = e @ ?r" using Cons.prems(2) by simp
  have r: "rd buffer (off + 1) = Some (e ! 1)" "rd buffer off = Some (e ! 0)" "2 \<le> buflen"
    using st(4,5) rd_drop [of off buffer 1, symmetric] rd_drop [of off buffer 0, symmetric] e by (simp_all add: dr wf_desc_def word_le_nat_alt)
  have len: "unat (e ! 0) = length e" using e(1) by (simp add: wf_desc_def)
  have dr2: "drop (off + length e) buffer = ?r" using dr by (simp add: add.commute [of off] flip: drop_drop)
  show ?case
  proof (cases "e ! 1 = ty")
    case True
    define m where "m = length (filter (\<lambda>e. e ! 1 = ty) pre)"
    have m: "n = of_nat (Suc m)" "Suc m < 256" using Cons.prems(8,9) True by (simp_all add: m_def)
    then have "unat n = Suc m" by (simp only: unat_of_nat_u8)
    then have n: "n \<noteq> 0" "n - 1 = of_nat (length (filter (\<lambda>e. e ! 1 = ty) pre))"
      using m(1) by (auto simp: m_def)
    then show ?thesis
      using Cons.IH [of "off + length e" "buflen - ucast (e ! 0)" "n - 1"] Cons.prems r st dr2 len True
      by (subst nth_desc_loop.simps) (simp add: Let_def add.assoc not_less)
  next
    case False
    then show ?thesis
      using Cons.IH [of "off + length e" "buflen - ucast (e ! 0)" n] Cons.prems r st dr2 len
      by (subst nth_desc_loop.simps) (simp add: Let_def add.assoc not_less)
  qed
qed

lemma num_alt_loop_ok:
  assumes "list_all wf_desc (pre @ post)" "unat buflen = length (concat (pre @ post))"
    and "\<forall>d \<in> set pre. d ! 1 = USB_DESC_TYPE_INTERFACE \<longrightarrow> d ! 2 \<le> i"
    and "post \<noteq> [] \<longrightarrow> hd post ! 1 = USB_DESC_TYPE_INTERFACE \<and> i < hd post ! 2"
  shows "num_alt_loop (concat (pre @ post) @ g) buflen i n =
     (let k = n + of_nat (length (filter (is_alt i) pre)) in Some (if k > 0 then int (unat k) else -1))"
  using assms
proof (induction pre arbitrary: buflen n)
  case Nil
  show ?case
  proof (cases post)
    case Nil
    then show ?thesis using Nil.prems by (subst num_alt_loop.simps) (simp add: word_le_nat_alt)
  next
    case (Cons d ds)
    then have d: "length d = 9" "d ! 1 = USB_DESC_TYPE_INTERFACE" "i < d ! 2"
      using Nil.prems by (simp_all add: wf_desc_def)
    then show ?thesis using Nil.prems(2) Cons
      by (subst num_alt_loop.simps) (simp add: rd_def nth_append word_le_nat_alt)
  qed
next
  case (Cons e pre)
  let ?r = "concat (pre @ post) @ g"
  have e: "wf_desc e" "unat buflen = length e + length (concat (pre @ post))" using Cons.prems by simp_all
  note st = wf_desc_step [OF e]
  show ?case
  proof (cases "3 \<le> buflen")
    case True
    define r where "r = concat (pre @ post) @ g"
    have two: "rd (e @ r) 2 = Some (e ! 2) \<and> \<not> i < e ! 2" if "e ! 1 = USB_DESC_TYPE_INTERFACE"
      using e(1) that Cons.prems(3) by (simp add: wf_desc_def rd_def nth_append not_less)
    have "num_alt_loop (e @ r) buflen i n = num_alt_loop r (buflen - ucast (e ! 0)) i
        (if is_alt i e then n + 1 else n)"
      using st True two by (subst num_alt_loop.simps) (simp add: word_greater_zero_iff is_alt_def Let_def)
    then show ?thesis using Cons.IH [of "buflen - ucast (e ! 0)"] Cons.prems st(3)
      by (simp add: r_def add.assoc)
  next
    case False
    then have s: "length e + length (concat (pre @ post)) < 3" using e(2) by (simp add: word_le_nat_alt)
    have "pre = []" using s Cons.prems(1) e(1) by (cases pre) (auto simp: wf_desc_def)
    moreover have "\<not> is_alt i e" using s e(1) by (auto simp: wf_desc_def is_alt_def)
    ultimately show ?thesis using False by (subst num_alt_loop.simps) simp
  qed
qed

section \<open>What they find in a tree\<close>

lemma wf_class_desc: "wf_class d \<Longrightarrow> wf_desc d \<and> d ! 1 \<noteq> USB_DESC_TYPE_INTERFACE \<and> d ! 1 \<noteq> USB_DESC_TYPE_ENDPOINT"
  by (auto simp: wf_class_def wf_desc_def proper_type_def)

lemma wf_classes_desc:
  assumes "list_all wf_class xs"
  shows "list_all wf_desc xs" "\<forall>d \<in> set xs. d ! 1 \<noteq> USB_DESC_TYPE_INTERFACE"
    "\<forall>d \<in> set xs. d ! 1 \<noteq> USB_DESC_TYPE_ENDPOINT"
  using assms wf_class_desc by (auto simp: list_all_iff simp del: One_nat_def)

lemma wf_ep_desc: "wf_ep e \<Longrightarrow> wf_desc (enc_endpoint_desc (sp_desc e)) \<and>
    enc_endpoint_desc (sp_desc e) ! 1 = USB_DESC_TYPE_ENDPOINT"
  by (auto simp: wf_ep_def wf_desc_def enc_endpoint_desc_def wire16_def desc_types)

lemma eps_descs_wf:
  "list_all wf_ep es \<Longrightarrow> list_all wf_desc (eps_descs es) \<and>
     (\<forall>d \<in> set (eps_descs es). d ! 1 \<noteq> USB_DESC_TYPE_INTERFACE) \<and>
     length (filter (\<lambda>d. d ! 1 = USB_DESC_TYPE_ENDPOINT) (eps_descs es)) = length es"
proof (induction es)
  case (Cons e es)
  have x: "list_all wf_class (sp_extra e)" using Cons.prems by (simp add: wf_ep_def)
  show ?case using Cons wf_ep_desc [of e] wf_classes_desc [OF x]
    by (auto simp: eps_descs_def ep_descs_def desc_types(4,5) filter_empty_conv)
qed (simp add: eps_descs_def)

lemma alt_descs_wf:
  assumes "wf_alt m a"
  shows "list_all wf_desc (alt_descs a)"
    and "\<forall>d \<in> set (sa_extra a @ eps_descs (sa_eps a)). d ! 1 \<noteq> USB_DESC_TYPE_INTERFACE"
    and "is_header i n (mem_of_interface_desc (sa_desc a)) \<longleftrightarrow> m = i \<and> alt_setting a = n"
proof -
  have x: "list_all wf_class (sa_extra a)" "list_all wf_ep (sa_eps a)" using assms by (simp_all add: wf_alt_def)
  have "wf_desc (mem_of_interface_desc (sa_desc a))"
    using assms by (simp add: wf_alt_def wf_desc_def mem_of_interface_desc_def)
  then show "list_all wf_desc (alt_descs a)" using wf_classes_desc [OF x(1)] eps_descs_wf [OF x(2)]
    by (simp add: alt_descs_def)
  show "\<forall>d \<in> set (sa_extra a @ eps_descs (sa_eps a)). d ! 1 \<noteq> USB_DESC_TYPE_INTERFACE"
    using wf_classes_desc [OF x(1)] eps_descs_wf [OF x(2)] by auto
  show "is_header i n (mem_of_interface_desc (sa_desc a)) \<longleftrightarrow> m = i \<and> alt_setting a = n"
    using assms by (auto simp: is_header_def mem_of_interface_desc_def wf_alt_def alt_setting_def)
qed

text \<open>All the settings of a configuration, and the one with the given numbers.\<close>

definition settings :: "spec_config \<Rightarrow> spec_alt list" where
  "settings c = concat (sc_intfs c)"

definition is_setting :: "u8 \<Rightarrow> u8 \<Rightarrow> spec_alt \<Rightarrow> bool" where
  "is_setting i n a \<longleftrightarrow> id_bInterfaceNumber (sa_desc a) = i \<and> alt_setting a = n"

lemma config_descs_settings:
  "config_descs c = (enc_config_desc (sc_desc c) # sc_extra c) @ concat (map alt_descs (settings c))"
proof -
  have "concat (map intf_descs xs) = concat (map alt_descs (concat xs))" for xs
    by (induction xs) (simp_all add: intf_descs_def)
  then show ?thesis by (simp add: config_descs_def settings_def)
qed

lemma wf_settings: "wf_config c \<Longrightarrow> a \<in> set (settings c) \<Longrightarrow> wf_alt (id_bInterfaceNumber (sa_desc a)) a"
  by (auto simp: wf_config_def settings_def wf_intf_def list_all_iff wf_alt_def)

lemma config_head_wf:
  assumes "wf_config c"
  shows "list_all wf_desc (enc_config_desc (sc_desc c) # sc_extra c)"
    and "\<forall>d \<in> set (enc_config_desc (sc_desc c) # sc_extra c). d ! 1 \<noteq> USB_DESC_TYPE_INTERFACE"
proof -
  have "wf_desc (enc_config_desc (sc_desc c))" "enc_config_desc (sc_desc c) ! 1 = USB_DESC_TYPE_CONFIG"
    using assms by (simp_all add: wf_config_def wf_desc_def enc_config_desc_def wire16_def desc_types)
  moreover have "list_all wf_class (sc_extra c)" using assms by (simp add: wf_config_def)
  ultimately show "list_all wf_desc (enc_config_desc (sc_desc c) # sc_extra c)"
    and "\<forall>d \<in> set (enc_config_desc (sc_desc c) # sc_extra c). d ! 1 \<noteq> USB_DESC_TYPE_INTERFACE"
    using wf_classes_desc [of "sc_extra c"] by (auto simp: desc_types(2,4))
qed

lemma config_descs_wf: "wf_config c \<Longrightarrow> list_all wf_desc (config_descs c)"
  using config_head_wf(1) wf_settings alt_descs_wf(1)
  by (fastforce simp: config_descs_settings list_all_iff)

lemma find_settings_none:
  assumes "wf_config c" "unat len = length (enc_config c)" "find (is_setting i n) (settings c) = None"
  shows "find_altsetting least i n (enc_config c @ g) len = Some None"
proof -
  have "\<not> is_header i n d" if d: "d \<in> set (config_descs c)" for d
  proof (cases "d \<in> set (enc_config_desc (sc_desc c) # sc_extra c)")
    case True
    from bspec [OF config_head_wf(2) [OF assms(1)] this] show ?thesis by (simp add: is_header_def)
  next
    case False
    then obtain a where a: "a \<in> set (settings c)" "d \<in> set (alt_descs a)"
      using d by (auto simp: config_descs_settings)
    have w: "wf_alt (id_bInterfaceNumber (sa_desc a)) a" using wf_settings [OF assms(1) a(1)] .
    have "\<not> is_setting i n a" using assms(3) a(1) by (simp add: find_None_iff)
    then show ?thesis using a(2) alt_descs_wf(2,3) [OF w]
      by (auto simp: alt_descs_def is_setting_def) (auto simp: is_header_def)
  qed
  then show ?thesis
    using find_altsetting_none [OF config_descs_wf [OF assms(1)]] assms(2) by (simp add: enc_config_def)
qed

lemma find_settings_some:
  assumes "wf_config c" "unat len = length (enc_config c)" "find (is_setting i n) (settings c) = Some a"
    and "unat least < 9"
  obtains post len' where
    "find_altsetting least i n (enc_config c @ g) len = Some (Some (concat (alt_descs a @ post) @ g, len'))"
    "unat len' = length (concat (alt_descs a @ post))" "list_all wf_desc (alt_descs a @ post)"
    "wf_alt i a" "alt_setting a = n"
proof -
  from assms(3) obtain k where k: "k < length (settings c)" "is_setting i n (settings c ! k)" "a = settings c ! k"
    "\<forall>j < k. \<not> is_setting i n (settings c ! j)" unfolding find_Some_iff by auto
  define as bs where "as = take k (settings c)" and "bs = drop (Suc k) (settings c)"
  have split: "settings c = as @ a # bs" unfolding as_def bs_def k(3) by (rule id_take_nth_drop [OF k(1)])
  have as: "\<forall>b \<in> set as. \<not> is_setting i n b" using k(1,4) by (auto simp: as_def in_set_conv_nth)
  have w: "wf_alt (id_bInterfaceNumber (sa_desc b)) b" if "b \<in> set (settings c)" for b
    using wf_settings [OF assms(1) that] .
  have "is_setting i n a" "a \<in> set (settings c)" using k(1-3) by simp_all
  then have wa: "wf_alt i a" "alt_setting a = n" using w [of a] by (auto simp: is_setting_def)
  define pre where "pre = (enc_config_desc (sc_desc c) # sc_extra c) @ concat (map alt_descs as)"
  define post where "post = concat (map alt_descs bs)"
  have cd: "config_descs c = pre @ alt_descs a @ post"
    by (simp add: config_descs_settings split pre_def post_def)
  have npre: "\<not> is_header i n d" if d: "d \<in> set pre" for d
  proof (cases "d \<in> set (enc_config_desc (sc_desc c) # sc_extra c)")
    case True
    from bspec [OF config_head_wf(2) [OF assms(1)] this] show ?thesis by (simp add: is_header_def)
  next
    case False
    then obtain b where b: "b \<in> set as" "d \<in> set (alt_descs b)" using d by (auto simp: pre_def)
    have wb: "wf_alt (id_bInterfaceNumber (sa_desc b)) b" using w b(1) split by simp
    have "\<not> is_setting i n b" using as b(1) by simp
    then show ?thesis using b(2) alt_descs_wf(2,3) [OF wb]
      by (auto simp: alt_descs_def is_setting_def) (auto simp: is_header_def)
  qed
  let ?h = "mem_of_interface_desc (sa_desc a)" and ?t = "sa_extra a @ eps_descs (sa_eps a)"
  have ad: "alt_descs a = ?h # ?t" by (simp add: alt_descs_def)
  have wf: "list_all wf_desc (pre @ ?h # ?t @ post)" using config_descs_wf [OF assms(1)] cd ad by simp
  have h: "is_header i n ?h" using alt_descs_wf(3) [OF wa(1)] wa(2) by simp
  have len: "unat len = length (concat (pre @ ?h # ?t @ post))" using assms(2) cd ad by (simp add: enc_config_def)
  have "enc_config c @ g = concat (pre @ ?h # ?t @ post) @ g" using cd ad by (simp add: enc_config_def)
  with find_altsetting_some [OF wf len _ h assms(4), of g] npre
  obtain len' where "find_altsetting least i n (enc_config c @ g) len = Some (Some (?h @ concat (?t @ post) @ g, len'))"
    "unat len' = length ?h + length (concat (?t @ post))" by auto
  then show thesis using that [of post len'] wf wa ad by simp
qed

text \<open>The endpoint descriptors that follow the interface descriptor of a setting.\<close>

lemma nth_endpoint:
  assumes "wf_alt i a" "list_all wf_desc (alt_descs a @ post)" "unat len = length (concat (alt_descs a @ post))"
    and "unat e < length (sa_eps a)"
  obtains off rest where
    "usbi_nth_desc (concat (alt_descs a @ post) @ g) len USB_DESC_TYPE_ENDPOINT e USB_DESC_TYPE_INTERFACE = Some (Some off)"
    "drop off (concat (alt_descs a @ post)) = enc_endpoint_desc (sp_desc (sa_eps a ! unat e)) @ rest"
    "off + 7 \<le> unat len"
proof -
  let ?k = "unat e" and ?h = "mem_of_interface_desc (sa_desc a)"
  let ?d = "enc_endpoint_desc (sp_desc (sa_eps a ! ?k))"
  define pre where "pre = sa_extra a @ eps_descs (take ?k (sa_eps a))"
  define rst where "rst = sp_extra (sa_eps a ! ?k) @ eps_descs (drop (Suc ?k) (sa_eps a)) @ post"
  have es: "sa_eps a = take ?k (sa_eps a) @ sa_eps a ! ?k # drop (Suc ?k) (sa_eps a)"
    using id_take_nth_drop [OF assms(4)] .
  have "eps_descs (sa_eps a) = eps_descs (take ?k (sa_eps a)) @ ?d # sp_extra (sa_eps a ! ?k) @ eps_descs (drop (Suc ?k) (sa_eps a))"
    by (subst es) (simp add: eps_descs_def ep_descs_def)
  then have ds: "alt_descs a @ post = ?h # pre @ ?d # rst" by (simp add: alt_descs_def pre_def rst_def)
  have we: "list_all wf_ep (sa_eps a)" "list_all wf_class (sa_extra a)" using assms(1) by (simp_all add: wf_alt_def)
  have wt: "list_all wf_ep (take ?k (sa_eps a))" using we(1) by (auto simp: list_all_iff dest: in_set_takeD)
  have wd: "wf_ep (sa_eps a ! ?k)" using we(1) assms(4) by (simp add: list_all_length)
  have cnt: "filter (\<lambda>d. d ! 1 = USB_DESC_TYPE_ENDPOINT) (sa_extra a) = []"
    using wf_classes_desc(3) [OF we(2)] by (simp add: filter_empty_conv)
  have pre: "\<forall>d \<in> set pre. d ! 1 \<noteq> USB_DESC_TYPE_INTERFACE"
    "length (filter (\<lambda>d. d ! 1 = USB_DESC_TYPE_ENDPOINT) pre) = ?k"
    using wf_classes_desc(2) [OF we(2)] eps_descs_wf [OF wt] assms(4) cnt by (auto simp: pre_def)
  have wf: "list_all wf_desc (?h # pre @ ?d # rst)" using assms(2) ds by simp
  then have h: "wf_desc ?h" and wfr: "list_all wf_desc (pre @ ?d # rst)" by simp_all
  let ?r = "concat (pre @ ?d # rst) @ g"
  have len: "unat len = length ?h + length (concat (pre @ ?d # rst))" using assms(3) ds by simp
  note st = wf_desc_step [OF h len]
  have h9: "length ?h = 9" "?h ! 1 = USB_DESC_TYPE_INTERFACE" "unat (?h ! 0) = 9"
    using assms(1) by (simp_all add: wf_alt_def mem_of_interface_desc_def)
  have lp: "nth_desc_loop (?h @ ?r) 9 (len - ucast (?h ! 0)) USB_DESC_TYPE_ENDPOINT e USB_DESC_TYPE_INTERFACE =
      Some (Some (9 + length (concat pre)))"
  proof (rule nth_desc_loop_ok [OF wfr _ st(3)])
    show "drop 9 (?h @ ?r) = ?r" using h9(1) by (simp del: concat_append)
    show "e = of_nat (length (filter (\<lambda>e. e ! 1 = USB_DESC_TYPE_ENDPOINT) pre))" by (simp add: pre(2) del: One_nat_def)
    show "length (filter (\<lambda>e. e ! 1 = USB_DESC_TYPE_ENDPOINT) pre) < 256" using unat_u8_less [of e] by (simp only: pre(2))
    show "?d ! 1 = USB_DESC_TYPE_ENDPOINT" using wf_ep_desc [OF wd] by simp
  qed (use pre(1) in \<open>simp_all add: desc_types\<close>)
  have "2 \<le> len" using len h9 by (simp add: word_le_nat_alt)
  then have n: "usbi_nth_desc (?h @ ?r) len USB_DESC_TYPE_ENDPOINT e USB_DESC_TYPE_INTERFACE =
      Some (Some (9 + length (concat pre)))"
    using lp st(1,2) st(4,5) [of ?r] h9(2,3) unfolding usbi_nth_desc_def
    by (subst nth_desc_loop.simps) (simp add: desc_types not_less)
  have e: "concat (alt_descs a @ post) @ g = ?h @ ?r" using ds by simp
  have "7 \<le> length ?d" using wd by (auto simp: wf_ep_def enc_endpoint_desc_def wire16_def)
  then have le: "9 + length (concat pre) + 7 \<le> unat len" using len h9(1) by simp
  have dr: "drop (9 + length (concat pre)) (concat (alt_descs a @ post)) = ?d @ concat rst"
    using ds h9(1) by simp
  show thesis by (rule that [OF _ dr le]) (simp only: e n)
qed

text \<open>The number of settings of an interface, for interfaces in ascending order.\<close>

definition intf_of :: "u8 \<Rightarrow> spec_alt list list \<Rightarrow> spec_alt list option" where
  "intf_of i is = find (\<lambda>as. intf_number as = i) is"

lemma find_takeWhile:
  fixes f :: "'a \<Rightarrow> 'b :: linorder"
  assumes "sorted (map f xs)"
  shows "find (\<lambda>x. f x = i) (takeWhile (\<lambda>x. f x \<le> i) xs) = find (\<lambda>x. f x = i) xs"
  using assms
proof (induction xs)
  case (Cons x xs)
  show ?case
  proof (cases "f x \<le> i")
    case False
    then have "find (\<lambda>x. f x = i) xs = None" using Cons.prems by (auto simp: find_None_iff)
    then show ?thesis using False by auto
  qed (use Cons in auto)
qed simp

lemma count_intfs:
  assumes "list_all wf_intf is" "distinct (map intf_number is)"
  shows "length (filter (is_alt i) (concat (map intf_descs is))) =
     (case intf_of i is of None \<Rightarrow> 0 | Some as \<Rightarrow> length as)"
  using assms
proof (induction "is")
  case (Cons as "is")
  have c: "length (filter (is_alt i) (intf_descs as)) = (if intf_number as = i then length as else 0)"
    using intf_descs_any [of "intf_number as" as i] Cons.prems(1) by (simp add: wf_intf_def)
  show ?case
  proof (cases "intf_number as = i")
    case True
    then have "filter (is_alt i) (concat (map intf_descs is)) = []"
      using intfs_descs_any [of "is" i] Cons.prems by simp
    then show ?thesis using c True by (simp add: intf_of_def)
  qed (use Cons c in \<open>simp add: intf_of_def\<close>)
qed (simp add: intf_of_def)

lemma num_alt_tree:
  assumes c: "wf_config c" "sorted (map intf_number (sc_intfs c))" and l: "unat len = length (enc_config c)"
  shows "usbi_get_num_altsettings (Some (enc_config c @ g)) len i =
     Some (case intf_of i (sc_intfs c) of None \<Rightarrow> -1 | Some as \<Rightarrow> int (length as))"
proof -
  let ?P = "takeWhile (\<lambda>as. intf_number as \<le> i) (sc_intfs c)"
  let ?Q = "dropWhile (\<lambda>as. intf_number as \<le> i) (sc_intfs c)"
  have w: "list_all wf_intf (sc_intfs c)" "distinct (map intf_number (sc_intfs c))"
    using c(1) by (simp_all add: wf_config_def)
  define hd0 where "hd0 = enc_config_desc (sc_desc c) # sc_extra c"
  define pre where "pre = hd0 @ concat (map intf_descs ?P)"
  define post where "post = concat (map intf_descs ?Q)"
  have "concat (map intf_descs (sc_intfs c)) = concat (map intf_descs (?P @ ?Q))"
    by (simp only: takeWhile_dropWhile_id)
  then have "concat (map intf_descs (sc_intfs c)) = concat (map intf_descs ?P) @ concat (map intf_descs ?Q)"
    by (simp only: map_append concat_append)
  then have ds: "config_descs c = pre @ post" by (simp add: config_descs_def pre_def post_def hd0_def)
  have wP: "list_all wf_intf ?P" using w(1) by (auto simp: list_all_iff dest: set_takeWhileD)
  have dP: "distinct (map intf_number ?P)" using w(2) by (metis distinct_append map_append takeWhile_dropWhile_id)
  have le: "d ! 2 \<le> i" if d: "d \<in> set pre" "d ! 1 = USB_DESC_TYPE_INTERFACE" for d
  proof -
    have "d \<notin> set hd0" using config_head_wf(2) [OF c(1)] d(2) by (auto simp: hd0_def)
    then obtain as a where a: "as \<in> set ?P" "a \<in> set as" "d \<in> set (alt_descs a)"
      using d(1) by (auto simp: pre_def intf_descs_def)
    have wa: "wf_alt (intf_number as) a" using wP a(1,2) by (auto simp: list_all_iff wf_intf_def)
    then have "d = mem_of_interface_desc (sa_desc a)"
      using alt_descs_wf(2) [OF wa] a(3) d(2) by (auto simp: alt_descs_def)
    then have "d ! 2 = intf_number as" using wa by (simp add: mem_of_interface_desc_def wf_alt_def)
    then show ?thesis using a(1) set_takeWhileD by fastforce
  qed
  have hdpost: "hd post ! 1 = USB_DESC_TYPE_INTERFACE \<and> i < hd post ! 2" if n: "post \<noteq> []"
  proof -
    have q: "?Q \<noteq> []"
    proof
      assume "?Q = []"
      then have "post = []" unfolding post_def by (simp only: list.map concat.simps)
      with n show False ..
    qed
    obtain as "is" where Q: "?Q = as # is" using q by (cases ?Q) auto
    have "wf_intf as" using w(1) Q by (metis list.set_intros(1) list_all_iff set_dropWhileD)
    then obtain a as' where a: "as = a # as'" "wf_alt (intf_number as) a" by (rule wf_intf_start)
    have "hd post = mem_of_interface_desc (sa_desc a)" using Q a(1) by (simp add: post_def intf_descs_def alt_descs_def)
    moreover have "i < intf_number as" using hd_dropWhile [OF q] Q by simp
    ultimately show ?thesis using a(2) by (simp add: mem_of_interface_desc_def wf_alt_def)
  qed
  have "filter (is_alt i) hd0 = []"
    using config_head_wf(2) [OF c(1)] by (auto simp: hd0_def is_alt_def filter_empty_conv)
  then have cnt: "length (filter (is_alt i) pre) = (case intf_of i (sc_intfs c) of None \<Rightarrow> 0 | Some as \<Rightarrow> length as)"
    using count_intfs [OF wP dP, of i] find_takeWhile [OF c(2), of i] by (simp add: pre_def intf_of_def)
  have small: "0 < length as \<and> length as < 256" if "intf_of i (sc_intfs c) = Some as" for as
    using that w(1) by (auto simp: intf_of_def find_Some_iff list_all_length wf_intf_def)
  have wf: "list_all wf_desc (pre @ post)" using config_descs_wf [OF c(1)] ds by simp
  have len: "unat len = length (concat (pre @ post))" using l ds by (simp add: enc_config_def)
  have run: "num_alt_loop (concat (pre @ post) @ g) len i 0 =
      (let k = (0 :: u8) + of_nat (length (filter (is_alt i) pre)) in Some (if k > 0 then int (unat k) else -1))"
    using num_alt_loop_ok [OF wf len, of i g 0] le hdpost by blast
  have "len \<noteq> 0" using l by (auto simp: enc_config_def config_descs_def enc_config_desc_def)
  moreover have "enc_config c @ g = concat (pre @ post) @ g" using ds by (simp add: enc_config_def)
  ultimately have r: "usbi_get_num_altsettings (Some (enc_config c @ g)) len i =
      (let k = (0 :: u8) + of_nat (length (filter (is_alt i) pre)) in Some (if k > 0 then int (unat k) else -1))"
    using run by (simp only: usbi_get_num_altsettings_def option.case if_False)
  show ?thesis
  proof (cases "intf_of i (sc_intfs c)")
    case None
    then show ?thesis using r cnt by simp
  next
    case (Some as)
    define k :: u8 where "k = of_nat (length as)"
    have u: "unat k = length as" using small [OF Some] by (simp add: k_def unat_of_nat_u8)
    then have "k \<noteq> 0" using small [OF Some] by (metis less_irrefl unat_0)
    then show ?thesis using r cnt Some u by (simp add: word_greater_zero_iff flip: k_def)
  qed
qed

end
