(* ===== verification/DevDesc.thy ===== *)
theory DevDesc
  imports DevHandle DescSearch
begin

text \<open>
  Descriptors of devices through the public functions of devices.c: the raw descriptors a
  backend returns, the parsers of single descriptors, and the devices of a vendor or of a
  class. A buffer is given (Some) or NULL (None), and then it comes from the backend. A
  structure that is an output parameter, or a local variable of the C code, comes in with
  the contents it has; the parsers overwrite all of it when they succeed.
\<close>

section \<open>Byte order (usb.c)\<close>

definition openusb_le16_to_cpu :: "bool \<Rightarrow> u16 \<Rightarrow> u16" where
  "openusb_le16_to_cpu be data = (if be then le16 (st16 be data ! 0) (st16 be data ! 1) else data)"

definition openusb_le32_to_cpu :: "bool \<Rightarrow> u32 \<Rightarrow> u32" where
  "openusb_le32_to_cpu be data = (if be then le32 (st32 be data ! 0) (st32 be data ! 1) (st32 be data ! 2)
     (st32 be data ! 3) else data)"

section \<open>Raw descriptors\<close>

definition openusb_get_raw_desc :: "(nat \<Rightarrow> 'a lib_scheme backend_ops) \<Rightarrow> u64 \<Rightarrow> u64 \<Rightarrow> u8 \<Rightarrow> u8 \<Rightarrow> u16 \<Rightarrow>
    ('a lib_scheme, int \<times> u8 list \<times> u16) op" where
  "openusb_get_raw_desc B handle devid ty descidx langid s = do {
     (hdl, s) \<leftarrow> usbi_find_handle handle s;
     (if hdl = 0 then Some ((OPENUSB_INVALID_HANDLE, [], 0), s)
      else do {
        (idev, s) \<leftarrow> usbi_find_device_by_id devid s;
        (if idev = 0 then Some ((OPENUSB_UNKNOWN_DEVICE, [], 0), s)
         else do {
           d \<leftarrow> l_dev s idev;
           (case do_get_raw_desc (B (dv_ops d)) of
              None \<Rightarrow> Some ((OPENUSB_PARSE_ERROR, [], 0), s)
            | Some f \<Rightarrow> f idev ty descidx langid s)
         })
      })
   }"

text \<open>
  What the four parsers begin with: the buffer and its length, or the error to return.
\<close>

definition desc_buffer :: "(nat \<Rightarrow> 'a lib_scheme backend_ops) \<Rightarrow> u64 \<Rightarrow> u64 \<Rightarrow> u8 \<Rightarrow> u8 \<Rightarrow> nat \<Rightarrow>
    u8 list option \<Rightarrow> u16 \<Rightarrow> ('a lib_scheme, int + (u8 list \<times> u16)) op" where
  "desc_buffer B handle devid ty idx minlen buffer buflen s = do {
     (hdl, s) \<leftarrow> usbi_find_handle handle s;
     (if hdl = 0 then Some (Inl OPENUSB_INVALID_HANDLE, s)
      else (case buffer of
        None \<Rightarrow> do {
          ((ret, tmpbuf, tmplen), s) \<leftarrow> openusb_get_raw_desc B handle devid ty idx 0 s;
          Some (if ret < 0 then Inl ret else Inr (tmpbuf, tmplen), s)
        }
      | Some buf \<Rightarrow> Some (if unat buflen < minlen then Inl OPENUSB_BADARG else Inr (buf, buflen), s)))
   }"

definition USBI_CONFIG_DESC_SIZE :: nat where "USBI_CONFIG_DESC_SIZE = 9"

text \<open>A successful parse that wrote fewer bytes than the descriptor has is an error.\<close>

definition check_count :: "nat \<Rightarrow> int \<times> 'd \<times> u32 option \<Rightarrow> (int \<times> 'd) option" where
  "check_count minlen = (\<lambda>(ret, d, count).
     if ret = 0 then do { n \<leftarrow> count; Some (if unat n < minlen then OPENUSB_PARSE_ERROR else ret, d) }
     else Some (ret, d))"

definition openusb_parse_device_desc :: "(nat \<Rightarrow> 'a lib_scheme backend_ops) \<Rightarrow> bool \<Rightarrow> u64 \<Rightarrow> u64 \<Rightarrow>
    u8 list option \<Rightarrow> u16 \<Rightarrow> usb_device_desc \<Rightarrow> ('a lib_scheme, int \<times> usb_device_desc) op" where
  "openusb_parse_device_desc B be handle devid buffer buflen devdesc s = do {
     (r, s) \<leftarrow> desc_buffer B handle devid USB_DESC_TYPE_DEVICE 0 USBI_DEVICE_DESC_SIZE buffer buflen s;
     (case r of Inl e \<Rightarrow> Some ((e, devdesc), s)
      | Inr (tmpbuf, tmplen) \<Rightarrow> do {
          p \<leftarrow> parse_device_desc be devdesc tmpbuf (ucast tmplen);
          r \<leftarrow> check_count USBI_DEVICE_DESC_SIZE p;
          Some (r, s)
        })
   }"

definition openusb_parse_config_desc :: "(nat \<Rightarrow> 'a lib_scheme backend_ops) \<Rightarrow> bool \<Rightarrow> u64 \<Rightarrow> u64 \<Rightarrow>
    u8 list option \<Rightarrow> u16 \<Rightarrow> u8 \<Rightarrow> usb_config_desc \<Rightarrow> ('a lib_scheme, int \<times> usb_config_desc) op" where
  "openusb_parse_config_desc B be handle devid buffer buflen cfgidx cfgdesc s = do {
     (r, s) \<leftarrow> desc_buffer B handle devid USB_DESC_TYPE_CONFIG cfgidx USBI_CONFIG_DESC_SIZE buffer buflen s;
     (case r of Inl e \<Rightarrow> Some ((e, cfgdesc), s)
      | Inr (tmpbuf, tmplen) \<Rightarrow> do {
          p \<leftarrow> parse_config_desc be ''bbwbbbbb'' cfgdesc tmpbuf (ucast tmplen);
          r \<leftarrow> check_count USBI_CONFIG_DESC_SIZE p;
          Some (r, s)
        })
   }"

definition openusb_parse_interface_desc :: "(nat \<Rightarrow> 'a lib_scheme backend_ops) \<Rightarrow> bool \<Rightarrow> u64 \<Rightarrow> u64 \<Rightarrow>
    u8 list option \<Rightarrow> u16 \<Rightarrow> u8 \<Rightarrow> u8 \<Rightarrow> u8 \<Rightarrow> usb_interface_desc \<Rightarrow>
    ('a lib_scheme, int \<times> usb_interface_desc) op" where
  "openusb_parse_interface_desc B be handle devid buffer buflen cfgidx ifcidx alt ifcdesc s = do {
     (r, s) \<leftarrow> desc_buffer B handle devid USB_DESC_TYPE_CONFIG cfgidx USBI_CONFIG_DESC_SIZE buffer buflen s;
     (case r of Inl e \<Rightarrow> Some ((e, ifcdesc), s)
      | Inr (tmpbuf, tmplen) \<Rightarrow> do {
          f \<leftarrow> find_altsetting 3 ifcidx alt tmpbuf tmplen;
          (case f of None \<Rightarrow> Some ((OPENUSB_PARSE_ERROR, ifcdesc), s)
           | Some (sp, tmplen) \<Rightarrow> do {
               p \<leftarrow> parse_interface_desc be ifcdesc sp (ucast tmplen);
               r \<leftarrow> check_count USBI_INTERFACE_DESC_SIZE p;
               Some (r, s)
             })
        })
   }"

definition openusb_parse_endpoint_desc :: "(nat \<Rightarrow> 'a lib_scheme backend_ops) \<Rightarrow> bool \<Rightarrow> u64 \<Rightarrow> u64 \<Rightarrow>
    u8 list option \<Rightarrow> u16 \<Rightarrow> u8 \<Rightarrow> u8 \<Rightarrow> u8 \<Rightarrow> u8 \<Rightarrow> usb_endpoint_desc \<Rightarrow>
    ('a lib_scheme, int \<times> usb_endpoint_desc) op" where
  "openusb_parse_endpoint_desc B be handle devid buffer buflen cfgidx ifcidx alt eptidx eptdesc s = do {
     (r, s) \<leftarrow> desc_buffer B handle devid USB_DESC_TYPE_CONFIG cfgidx USBI_CONFIG_DESC_SIZE buffer buflen s;
     (case r of Inl e \<Rightarrow> Some ((e, eptdesc), s)
      | Inr (tmpbuf, tmplen) \<Rightarrow> do {
          f \<leftarrow> find_altsetting 4 ifcidx alt tmpbuf tmplen;
          (case f of None \<Rightarrow> Some ((OPENUSB_PARSE_ERROR, eptdesc), s)
           | Some (sp1, tmplen) \<Rightarrow> do {
               neps \<leftarrow> rd sp1 4;
               (if eptidx \<ge> neps then Some ((OPENUSB_BADARG, eptdesc), s)
                else do {
                  n \<leftarrow> usbi_nth_desc sp1 tmplen USB_DESC_TYPE_ENDPOINT eptidx USB_DESC_TYPE_INTERFACE;
                  (case n of None \<Rightarrow> Some ((OPENUSB_PARSE_ERROR, eptdesc), s)
                   | Some off \<Rightarrow> do {
                       p \<leftarrow> parse_endpoint_desc be ''bbbbwb'' eptdesc (drop off sp1) (ucast (tmplen - of_nat off));
                       r \<leftarrow> check_count USBI_ENDPOINT_DESC_SIZE p;
                       Some (r, s)
                     })
                })
             })
        })
   }"

section \<open>Devices of a vendor\<close>

fun vendor_walk :: "(nat \<Rightarrow> 'a lib_scheme backend_ops) \<Rightarrow> bool \<Rightarrow> u64 \<Rightarrow> int \<Rightarrow> int \<Rightarrow> usb_device_desc \<Rightarrow> addr list \<Rightarrow>
    ('a lib_scheme, addr list) op" where
  "vendor_walk B be handle vendor product desc [] s = Some ([], s)"
| "vendor_walk B be handle vendor product desc (idev # idevs) s = do {
     d \<leftarrow> l_dev s idev;
     s \<leftarrow> unlock LkDevices s;
     ((ret, dd), s) \<leftarrow> openusb_parse_device_desc B be handle (dv_devid d) None 0 desc s;
     s \<leftarrow> lock LkDevices s;
     let Vendor = openusb_le16_to_cpu be (dd_idVendor dd);
     let Product = openusb_le16_to_cpu be (dd_idProduct dd);
     (ms, s) \<leftarrow> vendor_walk B be handle vendor product desc idevs s;
     Some (if ret \<ge> 0 \<and> (vendor = -1 \<or> vendor = int (unat Vendor)) \<and> (product = -1 \<or> product = int (unat Product))
           then idev # ms else ms, s)
   }"

text \<open>The identifiers of the devices found, in an array.\<close>

definition devid_array :: "(addr \<Rightarrow> bool) \<Rightarrow> addr list \<Rightarrow> ('a lib_scheme, int \<times> u64 list) op" where
  "devid_array av ms s =
     (if ms = [] then do { s \<leftarrow> unlock LkDevices s; Some ((OPENUSB_NULL_LIST, []), s) }
      else do {
        let (p, s) = fresh av s;
        (if p = 0 then do { s \<leftarrow> unlock LkDevices s; Some ((OPENUSB_NO_RESOURCES, []), s) }
         else do {
           ds \<leftarrow> list_map dv_devid (l_dev s) ms;
           s \<leftarrow> unlock LkDevices s;
           Some ((OPENUSB_SUCCESS, ds), s)
         })
      })"

definition openusb_get_devids_by_vendor :: "(addr \<Rightarrow> bool) \<Rightarrow> (nat \<Rightarrow> 'a lib_scheme backend_ops) \<Rightarrow> bool \<Rightarrow> u64 \<Rightarrow>
    int \<Rightarrow> int \<Rightarrow> bool \<Rightarrow> usb_device_desc \<Rightarrow> ('a lib_scheme, int \<times> u64 list) op" where
  "openusb_get_devids_by_vendor av B be handle vendor product bad_ptrs desc s =
     (if bad_ptrs then Some ((OPENUSB_BADARG, []), s)
      else do {
        (hdl, s) \<leftarrow> usbi_find_handle handle s;
        (if hdl = 0 then Some ((OPENUSB_INVALID_HANDLE, []), s)
         else if vendor < -1 \<or> vendor > 65535 \<or> product < -1 \<or> product > 65535 then Some ((OPENUSB_BADARG, []), s)
         else do {
           s \<leftarrow> lock LkDevices s;
           (ms, s) \<leftarrow> vendor_walk B be handle vendor product desc (l_devices s) s;
           devid_array av ms s
         })
      })"

section \<open>Devices of a class\<close>

definition class_matches :: "int \<Rightarrow> int \<Rightarrow> int \<Rightarrow> u8 \<Rightarrow> u8 \<Rightarrow> u8 \<Rightarrow> bool" where
  "class_matches devclass subclass protocol c sc p \<longleftrightarrow>
     (devclass = -1 \<or> devclass = int (unat c)) \<and> (subclass = -1 \<or> subclass = int (unat sc)) \<and>
     (protocol = -1 \<or> protocol = int (unat p))"

fun match_alts :: "(nat \<Rightarrow> 'a lib_scheme backend_ops) \<Rightarrow> bool \<Rightarrow> u64 \<Rightarrow> u64 \<Rightarrow> int \<times> int \<times> int \<Rightarrow> u8 list \<Rightarrow>
    u16 \<Rightarrow> usb_interface_desc \<Rightarrow> u8 \<Rightarrow> u8 \<Rightarrow> nat list \<Rightarrow> ('a lib_scheme, bool) op" where
  "match_alts B be handle devid (devclass, subclass, protocol) buf buflen ifc_desc c i [] s = Some (False, s)"
| "match_alts B be handle devid (devclass, subclass, protocol) buf buflen ifc_desc c i (a # as) s = do {
     ((ret, d), s) \<leftarrow> openusb_parse_interface_desc B be handle devid (Some buf) buflen c i (of_nat a) ifc_desc s;
     (if ret \<ge> 0 \<and> class_matches devclass subclass protocol
           (id_bInterfaceClass d) (id_bInterfaceSubClass d) (id_bInterfaceProtocol d)
      then Some (True, s)
      else match_alts B be handle devid (devclass, subclass, protocol) buf buflen ifc_desc c i as s)
   }"

fun match_intfs :: "(nat \<Rightarrow> 'a lib_scheme backend_ops) \<Rightarrow> bool \<Rightarrow> u64 \<Rightarrow> u64 \<Rightarrow> int \<times> int \<times> int \<Rightarrow> u8 list \<Rightarrow>
    u16 \<Rightarrow> usb_interface_desc \<Rightarrow> u8 \<Rightarrow> nat list \<Rightarrow> ('a lib_scheme, bool) op" where
  "match_intfs B be handle devid cls buf buflen ifc_desc c [] s = Some (False, s)"
| "match_intfs B be handle devid cls buf buflen ifc_desc c (i # is) s = do {
     num_alt \<leftarrow> usbi_get_num_altsettings (Some buf) buflen (of_nat i);
     (found, s) \<leftarrow> (if num_alt < 0 then Some (False, s)
       else match_alts B be handle devid cls buf buflen ifc_desc c (of_nat i) [0..<nat num_alt] s);
     (if found then Some (True, s) else match_intfs B be handle devid cls buf buflen ifc_desc c is s)
   }"

fun match_configs :: "(nat \<Rightarrow> 'a lib_scheme backend_ops) \<Rightarrow> bool \<Rightarrow> u64 \<Rightarrow> u64 \<Rightarrow> int \<times> int \<times> int \<Rightarrow>
    usb_config_desc \<Rightarrow> usb_interface_desc \<Rightarrow> nat list \<Rightarrow> ('a lib_scheme, bool) op" where
  "match_configs B be handle devid cls cfg_desc ifc_desc [] s = Some (False, s)"
| "match_configs B be handle devid cls cfg_desc ifc_desc (c # cs) s = do {
     ((ret, buf, buflen), s) \<leftarrow> openusb_get_raw_desc B handle devid USB_DESC_TYPE_CONFIG (of_nat c) 0 s;
     (if ret < 0 then match_configs B be handle devid cls cfg_desc ifc_desc cs s
      else do {
        ((ret, cd), s) \<leftarrow> openusb_parse_config_desc B be handle devid (Some buf) buflen (of_nat c) cfg_desc s;
        (if ret < 0 then match_configs B be handle devid cls cfg_desc ifc_desc cs s
         else do {
           (found, s) \<leftarrow> match_intfs B be handle devid cls buf buflen ifc_desc (of_nat c)
                           [0..<unat (cd_bNumInterfaces cd)] s;
           (if found then Some (True, s) else match_configs B be handle devid cls cfg_desc ifc_desc cs s)
         })
      })
   }"

text \<open>
  The last part of the test of the device's own class assigns to protocol (= for ==): the
  value of the assignment decides, and protocol has the new value afterwards.
\<close>

definition usbi_match_class :: "(nat \<Rightarrow> 'a lib_scheme backend_ops) \<Rightarrow> bool \<Rightarrow> u64 \<Rightarrow> addr \<Rightarrow> int \<Rightarrow> int \<Rightarrow> int \<Rightarrow>
    usb_device_desc \<times> usb_config_desc \<times> usb_interface_desc \<Rightarrow> ('a lib_scheme, bool) op" where
  "usbi_match_class B be handle idev devclass subclass protocol = (\<lambda>(dev_desc, cfg_desc, ifc_desc) s. do {
     (hdl, s) \<leftarrow> usbi_find_handle handle s;
     d \<leftarrow> l_dev s idev;
     ((ret, dd), s) \<leftarrow> openusb_parse_device_desc B be handle (dv_devid d) None 0 dev_desc s;
     (if ret < 0 then Some (False, s)
      else
        let own = (devclass = -1 \<or> devclass = int (unat (dd_bDeviceClass dd))) \<and>
                  (subclass = -1 \<or> subclass = int (unat (dd_bDeviceSubClass dd)));
            assigned = own \<and> protocol \<noteq> -1;
            protocol' = (if assigned then int (unat (dd_bDeviceProtocol dd)) else protocol)
        in if own \<and> (protocol = -1 \<or> protocol' \<noteq> 0) then Some (True, s)
           else match_configs B be handle (dv_devid d) (devclass, subclass, protocol') cfg_desc ifc_desc
                  [0..<unat (dd_bNumConfigurations dd)] s)
   })"

fun class_walk :: "(nat \<Rightarrow> 'a lib_scheme backend_ops) \<Rightarrow> bool \<Rightarrow> u64 \<Rightarrow> int \<Rightarrow> int \<Rightarrow> int \<Rightarrow>
    usb_device_desc \<times> usb_config_desc \<times> usb_interface_desc \<Rightarrow> addr list \<Rightarrow> ('a lib_scheme, addr list) op" where
  "class_walk B be handle devclass subclass protocol descs [] s = Some ([], s)"
| "class_walk B be handle devclass subclass protocol descs (idev # idevs) s = do {
     s \<leftarrow> unlock LkDevices s;
     (m, s) \<leftarrow> usbi_match_class B be handle idev devclass subclass protocol descs s;
     s \<leftarrow> lock LkDevices s;
     (ms, s) \<leftarrow> class_walk B be handle devclass subclass protocol descs idevs s;
     Some (if m then idev # ms else ms, s)
   }"

definition openusb_get_devids_by_class :: "(addr \<Rightarrow> bool) \<Rightarrow> (nat \<Rightarrow> 'a lib_scheme backend_ops) \<Rightarrow> bool \<Rightarrow> u64 \<Rightarrow>
    int \<Rightarrow> int \<Rightarrow> int \<Rightarrow> bool \<Rightarrow> usb_device_desc \<times> usb_config_desc \<times> usb_interface_desc \<Rightarrow>
    ('a lib_scheme, int \<times> u64 list) op" where
  "openusb_get_devids_by_class av B be handle devclass subclass protocol ptrs_null descs s =
     (if ptrs_null then Some ((OPENUSB_BADARG, []), s)
      else do {
        (hdl, s) \<leftarrow> usbi_find_handle handle s;
        (if hdl = 0 then Some ((OPENUSB_INVALID_HANDLE, []), s)
         else if devclass < -1 \<or> devclass > 255 \<or> subclass < -1 \<or> subclass > 255 \<or> protocol < -1 \<or> protocol > 255
         then Some ((OPENUSB_BADARG, []), s)
         else do {
           s \<leftarrow> lock LkDevices s;
           (ms, s) \<leftarrow> class_walk B be handle devclass subclass protocol descs (l_devices s) s;
           devid_array av ms s
         })
      })"

section \<open>Single descriptors\<close>

text \<open>Every call of the unpacker inside the buffer returns, with a count if it succeeds.\<close>

lemma parse_data_total:
  assumes "CHR ''.'' \<notin> set fmt" "unat len \<le> length src" "fmt_end 0 0 fmt \<le> length dest"
  shows "\<exists>r d c. parse_data be fmt src len dest dlen = Some (r, d, c) \<and> (r = 0 \<longrightarrow> c \<noteq> None)"
proof (cases "fmt_size fmt \<le> unat len \<and> fmt_size fmt \<le> unat dlen")
  case True
  then show ?thesis
    using parse_data_ok [of fmt len dlen src dest be] assms by (simp add: fmt_store_size_nodot)
next
  case False
  let ?s = "\<lparr>pd_sp = 0, pd_slen = len, pd_dp = 0, pd_dlen = dlen, pd_dest = dest\<rparr>"
  from parse_loop_short [OF assms(1), of ?s src 0 be] assms False
  obtain s' where "parse_loop be 0 src fmt ?s = Some (OPENUSB_NO_RESOURCES, s')" by auto
  then show ?thesis by (simp add: parse_data_def openusb_parse_data_def error_codes)
qed

lemma check_count_total:
  "(\<exists>r d c. p = (r, d, c) \<and> (r = 0 \<longrightarrow> c \<noteq> None)) \<Longrightarrow> check_count n p \<noteq> None"
  by (auto simp: check_count_def)

lemma parse_interface_desc_total:
  assumes "unat len \<le> length b"
  shows "\<exists>p. parse_interface_desc be d0 b len = Some p \<and> check_count n p \<noteq> None"
  using parse_data_total [of "''bbbbbbbbb''" len b "mem_of_interface_desc d0" be 9] assms
  by (auto simp: parse_interface_desc_def mem_of_interface_desc_def item_pad_def item_size_def Let_def stores_def
      intro!: check_count_total [simplified])

lemma parse_endpoint_desc_total:
  assumes "unat len \<le> length b"
  shows "\<exists>p. parse_endpoint_desc be ''bbbbwb'' d0 b len = Some p \<and> check_count n p \<noteq> None"
  using parse_data_total [of "''bbbbwb''" len b "mem_of_endpoint_desc be d0" be 10] assms
  by (auto simp: parse_endpoint_desc_def mem_of_endpoint_desc_def item_pad_def item_size_def Let_def stores_def
      intro!: check_count_total [simplified])

lemma parse_config_desc_total:
  assumes "unat len \<le> length b"
  shows "\<exists>p. parse_config_desc be ''bbwbbbbb'' d0 b len = Some p \<and> check_count n p \<noteq> None"
  using parse_data_total [of "''bbwbbbbb''" len b "mem_of_config_desc be d0" be 10] assms
  by (auto simp: parse_config_desc_def mem_of_config_desc_def item_pad_def item_size_def Let_def stores_def
      intro!: check_count_total [simplified])

lemma unat_ucast_u16_u32 [simp]: "unat (ucast (w :: u16) :: u32) = unat w"
proof -
  have "unat w < 2 ^ 16" using unsigned_less [of w] by simp
  then have "unat w < 2 ^ 32" by simp
  then show ?thesis by (simp add: unsigned_ucast_eq take_bit_nat_eq_self)
qed

lemma unat_sub_u16:
  assumes "k \<le> unat (w :: u16)"
  shows "unat (w - of_nat k) = unat w - k"
proof -
  have "unat w < 2 ^ 16" using unsigned_less [of w] by simp
  then have "unat (of_nat k :: u16) = k" using assms by (simp add: unsigned_of_nat take_bit_nat_eq_self)
  then show ?thesis using assms by (simp add: unat_sub word_le_nat_alt)
qed

lemma desc_buffer_given:
  assumes "usbi_find_handle handle s = Some (hdl, s)" "hdl \<noteq> 0" "minlen \<le> unat buflen"
  shows "desc_buffer B handle devid ty idx minlen (Some buf) buflen s = Some (Inr (buf, buflen), s)"
  using assms by (simp add: desc_buffer_def)

text \<open>
  C32. The parsers of single descriptors are safe on any bytes: for a known library handle
  and a buffer that really has buflen bytes, whatever they are, each of
  openusb_parse_config_desc, openusb_parse_interface_desc and openusb_parse_endpoint_desc
  and the count of the alternate settings stays inside the buffer, ends, and returns a
  result without changing the library's state. (The parser of whole configurations does
  not have this property.)
\<close>

theorem single_desc_parsers_safe:
  assumes h: "usbi_find_handle handle s = Some (hdl, s)" and b: "unat buflen \<le> length buf"
  shows "(\<exists>r. openusb_parse_config_desc B be handle devid (Some buf) buflen c cd s = Some (r, s)) \<and>
     (\<exists>r. openusb_parse_interface_desc B be handle devid (Some buf) buflen c i a ifd s = Some (r, s)) \<and>
     (\<exists>r. openusb_parse_endpoint_desc B be handle devid (Some buf) buflen c i a e ed s = Some (r, s)) \<and>
     usbi_get_num_altsettings (Some buf) buflen i \<noteq> None"
proof -
  have d: "(\<exists>x. desc_buffer B handle devid ty idx n (Some buf) buflen s = Some (Inl x, s)) \<or>
      desc_buffer B handle devid ty idx n (Some buf) buflen s = Some (Inr (buf, buflen), s)" for ty idx n
    using h by (simp add: desc_buffer_def)
  have cfg: "\<exists>r. openusb_parse_config_desc B be handle devid (Some buf) buflen c cd s = Some (r, s)"
    using d [of USB_DESC_TYPE_CONFIG c USBI_CONFIG_DESC_SIZE]
      parse_config_desc_total [of "ucast buflen" buf be cd USBI_CONFIG_DESC_SIZE] b
    by (auto simp: openusb_parse_config_desc_def)
  obtain f where f: "find_altsetting 3 i a buf buflen = Some f"
    "\<forall>sp len. f = Some (sp, len) \<longrightarrow> unat len \<le> length sp \<and> 3 < len"
    using find_altsetting_safe [OF b, of 3 i a] by auto
  have ifc: "\<exists>r. openusb_parse_interface_desc B be handle devid (Some buf) buflen c i a ifd s = Some (r, s)"
  proof (cases f)
    case None
    then show ?thesis using d [of USB_DESC_TYPE_CONFIG c USBI_CONFIG_DESC_SIZE] f(1)
      by (auto simp: openusb_parse_interface_desc_def)
  next
    case (Some q)
    obtain sp len where q: "q = (sp, len)" by (cases q)
    then show ?thesis using d [of USB_DESC_TYPE_CONFIG c USBI_CONFIG_DESC_SIZE] f Some
        parse_interface_desc_total [of "ucast len" sp be ifd USBI_INTERFACE_DESC_SIZE]
      by (auto simp: openusb_parse_interface_desc_def)
  qed
  obtain f where f: "find_altsetting 4 i a buf buflen = Some f"
    "\<forall>sp len. f = Some (sp, len) \<longrightarrow> unat len \<le> length sp \<and> 4 < len"
    using find_altsetting_safe [OF b, of 4 i a] by auto
  have ept: "\<exists>r. openusb_parse_endpoint_desc B be handle devid (Some buf) buflen c i a e ed s = Some (r, s)"
  proof (cases f)
    case None
    then show ?thesis using d [of USB_DESC_TYPE_CONFIG c USBI_CONFIG_DESC_SIZE] f(1)
      by (auto simp: openusb_parse_endpoint_desc_def)
  next
    case (Some q)
    obtain sp len where q: "q = (sp, len)" by (cases q)
    have l: "unat len \<le> length sp" "5 \<le> unat len" using f(2) Some q by (auto simp: word_less_nat_alt)
    obtain n where n: "usbi_nth_desc sp len USB_DESC_TYPE_ENDPOINT e USB_DESC_TYPE_INTERFACE = Some n"
      "\<forall>k. n = Some k \<longrightarrow> k + 2 \<le> unat len"
      using nth_desc_loop_safe [of 0 len sp USB_DESC_TYPE_ENDPOINT e USB_DESC_TYPE_INTERFACE] l(1)
      by (auto simp: usbi_nth_desc_def)
    have four: "rd sp 4 = Some (sp ! 4)" using l by (simp add: rd_def)
    have off: "\<exists>p. parse_endpoint_desc be ''bbbbwb'' ed (drop k sp) (ucast (len - of_nat k)) = Some p \<and>
        check_count USBI_ENDPOINT_DESC_SIZE p \<noteq> None" if "n = Some k" for k
    proof -
      have "k + 2 \<le> unat len" using n(2) that by blast
      then have "unat (len - of_nat k) = unat len - k" by (simp add: unat_sub_u16)
      then show ?thesis using l(1) by (intro parse_endpoint_desc_total) simp
    qed
    show ?thesis using d [of USB_DESC_TYPE_CONFIG c USBI_CONFIG_DESC_SIZE] f Some q n(1) four off
      by (cases n) (auto simp: openusb_parse_endpoint_desc_def)
  qed
  have "usbi_get_num_altsettings (Some buf) buflen i \<noteq> None"
    using num_alt_loop_safe [OF b] by (simp add: usbi_get_num_altsettings_def)
  then show ?thesis using cfg ifc ept by blast
qed

section \<open>The descriptors of a tree\<close>

lemma parse_interface_desc_count:
  assumes "unat len \<ge> 9"
  shows "parse_interface_desc be d0 (mem_of_interface_desc d @ r) len = Some (0, d, Some 9)"
  using assms by (cases d)
    (simp add: parse_interface_desc_def parse_data_ok item_size_def stores_def item_pad_def
      Let_def mem_of_interface_desc_def interface_desc_of_mem_def
      wrn_def nth_append item_val_def OPENUSB_SUCCESS_def)

lemma parse_config_desc_count:
  assumes "unat len \<ge> 9"
  shows "parse_config_desc be ''bbwbbbbb'' d0 (enc_config_desc d @ r) len = Some (0, d, Some 9)"
  using assms by (cases d)
    (simp add: parse_config_desc_def parse_data_ok item_size_def stores_def item_pad_def
      Let_def enc_config_desc_def mem_of_config_desc_def config_desc_of_mem_def
      wire16_def wrn_def le16_st_def nth_append item_val_def OPENUSB_SUCCESS_def)

text \<open>The format of seven bytes leaves the audio fields of the structure alone.\<close>

lemma parse_endpoint_desc_count:
  assumes "unat len \<ge> 7"
  shows "parse_endpoint_desc be ''bbbbwb'' d0 (enc_endpoint_desc d @ r) len =
     Some (0, d\<lparr>ed_bRefresh := ed_bRefresh d0, ed_bSynchAddress := ed_bSynchAddress d0\<rparr>, Some 7)"
  using assms by (cases d; cases d0)
    (simp add: parse_endpoint_desc_def parse_data_ok item_size_def stores_def item_pad_def
      Let_def enc_endpoint_desc_def mem_of_endpoint_desc_def endpoint_desc_of_mem_def
      wire16_def wrn_def le16_st_def nth_append item_val_def OPENUSB_SUCCESS_def)

text \<open>
  C33. The parsers of single descriptors read the tree that the buffer encodes: the
  configuration descriptor, the first setting with the given interface number and alternate
  setting, and its endpoints by index (the fields of the first seven bytes), or
  OPENUSB_PARSE_ERROR and OPENUSB_BADARG where the tree has no such setting or endpoint. For
  interfaces in ascending order the number of alternate settings of an interface is the
  number the tree has.
\<close>

theorem single_desc_parsers_tree:
  assumes h: "usbi_find_handle handle s = Some (hdl, s)" "hdl \<noteq> 0" and c: "wf_config t"
    and l: "unat buflen = length (enc_config t)" and o: "sorted (map intf_number (sc_intfs t))"
  shows "openusb_parse_config_desc B be handle devid (Some (enc_config t @ g)) buflen c cd s = Some ((0, sc_desc t), s) \<and>
     openusb_parse_interface_desc B be handle devid (Some (enc_config t @ g)) buflen c i n ifd s =
       Some (case find (is_setting i n) (settings t) of None \<Rightarrow> (OPENUSB_PARSE_ERROR, ifd) | Some a \<Rightarrow> (0, sa_desc a), s) \<and>
     openusb_parse_endpoint_desc B be handle devid (Some (enc_config t @ g)) buflen c i n e ed s =
       Some (case find (is_setting i n) (settings t) of None \<Rightarrow> (OPENUSB_PARSE_ERROR, ed)
         | Some a \<Rightarrow> if unat e < length (sa_eps a)
             then (0, (sp_desc (sa_eps a ! unat e))\<lparr>ed_bRefresh := ed_bRefresh ed, ed_bSynchAddress := ed_bSynchAddress ed\<rparr>)
             else (OPENUSB_BADARG, ed), s) \<and>
     usbi_get_num_altsettings (Some (enc_config t @ g)) buflen i =
       Some (case intf_of i (sc_intfs t) of None \<Rightarrow> -1 | Some as \<Rightarrow> int (length as))"
proof -
  let ?buf = "enc_config t @ g"
  obtain rest where enc: "enc_config t = enc_config_desc (sc_desc t) @ rest"
    by (simp add: enc_config_def config_descs_def)
  have l9: "9 \<le> unat buflen" using l enc by (simp add: enc_config_desc_def wire16_def)
  have d: "desc_buffer B handle devid ty idx USBI_CONFIG_DESC_SIZE (Some ?buf) buflen s = Some (Inr (?buf, buflen), s)"
    for ty idx using desc_buffer_given [OF h, of USBI_CONFIG_DESC_SIZE buflen] l9 by (simp add: USBI_CONFIG_DESC_SIZE_def)
  have cfg: "openusb_parse_config_desc B be handle devid (Some ?buf) buflen c cd s = Some ((0, sc_desc t), s)"
    using d parse_config_desc_count [of "ucast buflen" be cd "sc_desc t" "rest @ g"] l9 enc
    by (simp add: openusb_parse_config_desc_def check_count_def USBI_CONFIG_DESC_SIZE_def)
  have ie: "openusb_parse_interface_desc B be handle devid (Some ?buf) buflen c i n ifd s =
       Some (case find (is_setting i n) (settings t) of None \<Rightarrow> (OPENUSB_PARSE_ERROR, ifd) | Some a \<Rightarrow> (0, sa_desc a), s) \<and>
     openusb_parse_endpoint_desc B be handle devid (Some ?buf) buflen c i n e ed s =
       Some (case find (is_setting i n) (settings t) of None \<Rightarrow> (OPENUSB_PARSE_ERROR, ed)
         | Some a \<Rightarrow> if unat e < length (sa_eps a)
             then (0, (sp_desc (sa_eps a ! unat e))\<lparr>ed_bRefresh := ed_bRefresh ed, ed_bSynchAddress := ed_bSynchAddress ed\<rparr>)
             else (OPENUSB_BADARG, ed), s)" (is "?ifc \<and> ?ept")
  proof (cases "find (is_setting i n) (settings t)")
    case None
    then show ?thesis using d find_settings_none [OF c l None]
      by (simp add: openusb_parse_interface_desc_def openusb_parse_endpoint_desc_def)
  next
    case (Some a)
    have fs: "\<exists>post len'. find_altsetting least i n ?buf buflen = Some (Some (concat (alt_descs a @ post) @ g, len')) \<and>
        unat len' = length (concat (alt_descs a @ post)) \<and> list_all wf_desc (alt_descs a @ post)"
      and wa: "wf_alt i a" if "unat least < 9" for least
      using find_settings_some [OF c l Some that, of g] by (metis, metis)
    obtain post1 len1 where f1: "find_altsetting 3 i n ?buf buflen = Some (Some (concat (alt_descs a @ post1) @ g, len1))"
      "unat len1 = length (concat (alt_descs a @ post1))" using fs [of 3] by auto
    obtain post2 len2 where f2: "find_altsetting 4 i n ?buf buflen = Some (Some (concat (alt_descs a @ post2) @ g, len2))"
      "unat len2 = length (concat (alt_descs a @ post2))" "list_all wf_desc (alt_descs a @ post2)" using fs [of 4] by auto
    have w: "wf_alt i a" using wa [of 3] by simp
    have ad: "concat (alt_descs a @ p) = mem_of_interface_desc (sa_desc a) @ concat (sa_extra a @ eps_descs (sa_eps a) @ p)" for p
      by (simp add: alt_descs_def)
    define r1 where "r1 = concat (sa_extra a @ eps_descs (sa_eps a) @ post1) @ g"
    have "9 \<le> unat len1" using f1(2) ad [of post1] by simp
    then have p1: "parse_interface_desc be ifd (mem_of_interface_desc (sa_desc a) @ r1) (ucast len1) = Some (0, sa_desc a, Some 9)"
      using parse_interface_desc_count [of "ucast len1" be ifd "sa_desc a" r1] by simp
    have "concat (alt_descs a @ post1) @ g = mem_of_interface_desc (sa_desc a) @ r1" by (simp only: ad r1_def append_assoc)
    then have ifc: ?ifc using d f1(1) p1 Some
      by (simp add: openusb_parse_interface_desc_def check_count_def USBI_INTERFACE_DESC_SIZE_def)
    define b2 where "b2 = concat (alt_descs a @ post2) @ g"
    have "b2 = mem_of_interface_desc (sa_desc a) @ concat (sa_extra a @ eps_descs (sa_eps a) @ post2) @ g"
      by (simp only: ad b2_def append_assoc)
    then have four: "rd b2 4 = Some (id_bNumEndpoints (sa_desc a))" by (simp add: rd_def mem_of_interface_desc_def)
    have f2': "find_altsetting 4 i n ?buf buflen = Some (Some (b2, len2))" unfolding b2_def by (rule f2(1))
    have neps: "unat (id_bNumEndpoints (sa_desc a)) = length (sa_eps a)" using w by (simp add: wf_alt_def)
    have ept: ?ept
    proof (cases "unat e < length (sa_eps a)")
      case False
      then show ?thesis using d f2' four neps Some
        by (simp add: openusb_parse_endpoint_desc_def word_le_nat_alt)
    next
      case True
      obtain off rest where o: "usbi_nth_desc b2 len2 USB_DESC_TYPE_ENDPOINT e USB_DESC_TYPE_INTERFACE = Some (Some off)"
        "drop off (concat (alt_descs a @ post2)) = enc_endpoint_desc (sp_desc (sa_eps a ! unat e)) @ rest" "off + 7 \<le> unat len2"
        using nth_endpoint [OF w f2(3,2) True, of g] unfolding b2_def by blast
      have "drop off b2 = enc_endpoint_desc (sp_desc (sa_eps a ! unat e)) @ rest @ g"
        using o(2,3) f2(2) by (simp add: b2_def del: concat_append)
      moreover have "7 \<le> unat (len2 - of_nat off)" using o(3) by (simp add: unat_sub_u16)
      ultimately show ?thesis
        using d f2' four neps True Some o(1)
          parse_endpoint_desc_count [of "ucast (len2 - of_nat off)" be ed "sp_desc (sa_eps a ! unat e)" "rest @ g"]
        by (simp add: openusb_parse_endpoint_desc_def word_le_nat_alt check_count_def USBI_ENDPOINT_DESC_SIZE_def)
    qed
    from ifc ept show ?thesis ..
  qed
  show ?thesis using cfg ie num_alt_tree [OF c o l, of g i] by blast
qed

section \<open>The devices of a vendor\<close>

lemma find_device_in:
  assumes "handles_ok s" "table_ok dv_devid k (l_dev s) (l_devices s)" "p \<in> set (l_devices s)" "l_dev s p = Some d"
  shows "usbi_find_device_by_id (dv_devid d) s = Some (p, s)"
proof -
  have t: "table_get dv_devid (l_dev s) (l_devices s) (dv_devid d) = Some p"
    using table_get_Some [OF assms(2), of "dv_devid d" p] assms(3,4) by simp
  have live: "\<forall>p \<in> set (l_devices s). l_dev s p \<noteq> None" using assms(2) by (auto simp: table_ok_def)
  have "list_find (\<lambda>idev. dv_devid idev = dv_devid d) (l_dev s) (l_devices s) = Some p"
    using t list_find_spec [OF live, of "\<lambda>idev. dv_devid idev = dv_devid d"] by (simp add: table_get_def)
  then show ?thesis using assms(1)
    by (simp add: usbi_find_device_by_id_def handles_ok_def lock_def unlock_def held_same)
qed

text \<open>
  The backends return the device descriptor f of every device, in its 18 bytes on the wire,
  and only change their own part of the state.
\<close>

definition serves :: "(nat \<Rightarrow> 'a lib_scheme backend_ops) \<Rightarrow> (u64 \<Rightarrow> usb_device_desc) \<Rightarrow> 'a lib_scheme \<Rightarrow> bool" where
  "serves B f s \<longleftrightarrow> (\<forall>p \<in> set (l_devices s). \<exists>d g. l_dev s p = Some d \<and> do_get_raw_desc (B (dv_ops d)) = Some g \<and>
     gives (0, enc_device_desc (f (dv_devid d)), 18) (g p USB_DESC_TYPE_DEVICE 0 0))"

definition known_devices :: "u64 \<Rightarrow> 'a lib_scheme \<Rightarrow> bool" where
  "known_devices handle s \<longleftrightarrow> handles_ok s \<and> hdl_tab s handle \<noteq> None \<and>
     table_ok dv_devid (l_cur_device_id s) (l_dev s) (l_devices s)"

lemma known_handle: "known_devices handle s \<Longrightarrow> \<exists>hdl. usbi_find_handle handle s = Some (hdl, s) \<and> hdl \<noteq> 0"
proof -
  assume k: "known_devices handle s"
  then obtain p where p: "hdl_tab s handle = Some p" and ok: "handles_ok s" by (auto simp: known_devices_def)
  then have "p \<in> set (l_handles s)" "0 \<notin> set (l_handles s)"
    using table_get_Some [of hd_handle "l_cur_handle s" "l_hdl s" "l_handles s" handle p]
    by (auto simp: handles_ok_def hdl_tab_def table_ok_def)
  then have "p \<noteq> 0" by metis
  then show ?thesis using find_handle_run [OF ok, of handle] p by simp
qed

lemma parse_device_run:
  assumes k: "known_devices handle s" "serves B f s" and p: "p \<in> set (l_devices s)" "l_dev s p = Some d"
  shows "\<exists>m. openusb_parse_device_desc B be handle (dv_devid d) None 0 dd s =
     Some ((0, f (dv_devid d)), lib.more_update (\<lambda>_. m) s)"
proof -
  obtain hdl where h: "usbi_find_handle handle s = Some (hdl, s)" "hdl \<noteq> 0" using known_handle [OF k(1)] by blast
  have fd: "usbi_find_device_by_id (dv_devid d) s = Some (p, s)"
    using k(1) p by (intro find_device_in) (auto simp: known_devices_def)
  have p0: "p \<noteq> 0" using k(1) p(1) by (metis known_devices_def table_ok_def)
  obtain g m where g: "do_get_raw_desc (B (dv_ops d)) = Some g"
    "g p USB_DESC_TYPE_DEVICE 0 0 s = Some ((0, enc_device_desc (f (dv_devid d)), 18), lib.more_update (\<lambda>_. m) s)"
    using k(2) p unfolding serves_def gives_def by force
  have "parse_device_desc be dd (enc_device_desc (f (dv_devid d)) @ []) 18 = Some (0, f (dv_devid d), Some 18)"
    by (rule parse_device_desc_ok)
  then show ?thesis using h fd p0 g p(2)
    by (auto simp: openusb_parse_device_desc_def desc_buffer_def openusb_get_raw_desc_def check_count_def
        USBI_DEVICE_DESC_SIZE_def)
qed

definition vendor_matches :: "bool \<Rightarrow> int \<Rightarrow> int \<Rightarrow> usb_device_desc \<Rightarrow> bool" where
  "vendor_matches be vendor product dd \<longleftrightarrow>
     (vendor = -1 \<or> vendor = int (unat (openusb_le16_to_cpu be (dd_idVendor dd)))) \<and>
     (product = -1 \<or> product = int (unat (openusb_le16_to_cpu be (dd_idProduct dd))))"

lemma serves_more [simp]: "serves B f (lib.more_update g s) = serves B f s"
  and known_devices_more [simp]: "known_devices handle (lib.more_update g s) = known_devices handle s"
  by (simp_all add: serves_def known_devices_def handles_ok_def hdl_tab_def)

lemma vendor_walk_run:
  assumes "known_devices handle s" "serves B f s" "set ps \<subseteq> set (l_devices s)"
  shows "\<exists>m. vendor_walk B be handle vendor product desc ps (s\<lparr>l_held := {LkDevices}\<rparr>) =
     Some (filter (\<lambda>p. vendor_matches be vendor product (f (dv_devid (the (l_dev s p))))) ps,
       (lib.more_update (\<lambda>_. m) s)\<lparr>l_held := {LkDevices}\<rparr>)"
  using assms
proof (induction ps arbitrary: s)
  case Nil
  show ?case by (intro exI [of _ "lib.more s"]) simp
next
  case (Cons p ps)
  have held: "l_held s = {}" using Cons.prems(1) by (simp add: known_devices_def handles_ok_def)
  obtain d where d: "l_dev s p = Some d" using Cons.prems(2,3) by (auto simp: serves_def)
  obtain m where m: "openusb_parse_device_desc B be handle (dv_devid d) None 0 desc s =
      Some ((0, f (dv_devid d)), lib.more_update (\<lambda>_. m) s)"
    using parse_device_run [OF Cons.prems(1,2) _ d, of be desc] Cons.prems(3) by force
  obtain m' where m': "vendor_walk B be handle vendor product desc ps ((lib.more_update (\<lambda>_. m) s)\<lparr>l_held := {LkDevices}\<rparr>) =
     Some (filter (\<lambda>p. vendor_matches be vendor product (f (dv_devid (the (l_dev s p))))) ps,
       (lib.more_update (\<lambda>_. m') s)\<lparr>l_held := {LkDevices}\<rparr>)"
    using Cons.IH [of "lib.more_update (\<lambda>_. m) s"] Cons.prems by auto
  show ?case
    by (intro exI [of _ m']) (use d m m' held in
      \<open>simp add: lock_def unlock_def held_same vendor_matches_def\<close>)
qed

text \<open>openusb_get_devids_by_vendor returns the identifiers of exactly the devices whose
  descriptor has the given vendor and product, in the order of the device list, -1 matching
  any; OPENUSB_NULL_LIST if there is none. But the numbers of the descriptor, which
  openusb_parse_device_desc has converted to host order, are passed through
  openusb_le16_to_cpu again: on a big-endian host they are compared with their bytes swapped.
\<close>

theorem devids_by_vendor_exact:
  assumes k: "known_devices handle s" "serves B f s" and a: "av (l_next s)"
    and r: "-1 \<le> vendor" "vendor \<le> 65535" "-1 \<le> product" "product \<le> 65535"
  shows "\<exists>s'. openusb_get_devids_by_vendor av B be handle vendor product False desc s =
     Some (let ids = filter (\<lambda>i. vendor_matches be vendor product (f i)) (map (\<lambda>p. dv_devid (the (l_dev s p))) (l_devices s))
           in (if ids = [] then OPENUSB_NULL_LIST else OPENUSB_SUCCESS, ids), s') \<and>
     l_held s' = {} \<and> l_devices s' = l_devices s \<and> l_dev s' = l_dev s \<and>
     (vendor_matches False vendor product d \<longleftrightarrow> (vendor = -1 \<or> vendor = int (unat (dd_idVendor d))) \<and>
        (product = -1 \<or> product = int (unat (dd_idProduct d)))) \<and>
     openusb_le16_to_cpu True 0x1234 = 0x3412"
proof -
  have held: "l_held s = {}" and nx: "0 < l_next s" using k(1) by (simp_all add: known_devices_def handles_ok_def)
  obtain hdl where h: "usbi_find_handle handle s = Some (hdl, s)" "hdl \<noteq> 0" using known_handle [OF k(1)] by blast
  let ?ms = "filter (\<lambda>p. vendor_matches be vendor product (f (dv_devid (the (l_dev s p))))) (l_devices s)"
  let ?ids = "filter (\<lambda>i. vendor_matches be vendor product (f i)) (map (\<lambda>p. dv_devid (the (l_dev s p))) (l_devices s))"
  obtain m where m: "vendor_walk B be handle vendor product desc (l_devices s) (s\<lparr>l_held := {LkDevices}\<rparr>) =
     Some (?ms, (lib.more_update (\<lambda>_. m) s)\<lparr>l_held := {LkDevices}\<rparr>)"
    using vendor_walk_run [OF k, of "l_devices s" be vendor product desc] by auto
  have ids: "map (\<lambda>p. dv_devid (the (l_dev s p))) ?ms = ?ids" by (simp add: filter_map comp_def)
  have live: "\<forall>p \<in> set ?ms. l_dev s p \<noteq> None" using k(2) by (auto simp: serves_def)
  let ?t = "lib.more_update (\<lambda>_. m) s"
  have arr: "\<exists>s'. devid_array av ?ms (?t\<lparr>l_held := {LkDevices}\<rparr>) =
      Some ((if ?ids = [] then OPENUSB_NULL_LIST else OPENUSB_SUCCESS, ?ids), s') \<and>
      l_held s' = {} \<and> l_devices s' = l_devices s \<and> l_dev s' = l_dev s"
  proof (cases "?ms = []")
    case True
    then have "?ids = []" using ids by simp
    then show ?thesis using True by (simp add: devid_array_def unlock_def)
  next
    case False
    then have "?ids \<noteq> []" using ids by (metis map_is_Nil_conv)
    moreover have "list_map dv_devid (l_dev s) ?ms = Some ?ids"
      using list_map_spec [OF live, of dv_devid] ids by (simp add: comp_def)
    ultimately show ?thesis using False a nx by (simp add: devid_array_def unlock_def fresh_def)
  qed
  have "vendor_matches False vendor product d \<longleftrightarrow> (vendor = -1 \<or> vendor = int (unat (dd_idVendor d))) \<and>
      (product = -1 \<or> product = int (unat (dd_idProduct d)))"
    by (simp add: vendor_matches_def openusb_le16_to_cpu_def)
  moreover have "openusb_le16_to_cpu True 0x1234 = 0x3412"
    by (simp add: openusb_le16_to_cpu_def st16_def le16_def)
  ultimately show ?thesis using arr h held m r
    by (auto simp: openusb_get_devids_by_vendor_def lock_def Let_def)
qed

section \<open>The devices of a class\<close>

text \<open>The test of a device's own class assigns to the protocol where it should compare. For
  a device whose own class and subclass fit, the protocol that was asked for makes no
  difference: a nonzero bDeviceProtocol matches whatever was asked for, and with
  bDeviceProtocol 0 the interfaces are searched for protocol 0.
\<close>

theorem match_class_assigns:
  assumes k: "known_devices handle s" "serves B f s" and p: "p \<in> set (l_devices s)" "l_dev s p = Some d"
    and own: "devclass = -1 \<or> devclass = int (unat (dd_bDeviceClass (f (dv_devid d))))"
      "subclass = -1 \<or> subclass = int (unat (dd_bDeviceSubClass (f (dv_devid d))))"
    and q: "protocol \<noteq> -1"
  shows "usbi_match_class B be handle p devclass subclass protocol descs s =
      usbi_match_class B be handle p devclass subclass 0 descs s \<and>
     (dd_bDeviceProtocol (f (dv_devid d)) \<noteq> 0 \<longrightarrow>
       (\<exists>s'. usbi_match_class B be handle p devclass subclass protocol descs s = Some (True, s')))"
proof -
  obtain hdl where h: "usbi_find_handle handle s = Some (hdl, s)" using known_handle [OF k(1)] by blast
  obtain dd cd ifd where descs: "descs = (dd, cd, ifd)" by (cases descs)
  obtain m where "openusb_parse_device_desc B be handle (dv_devid d) None 0 dd s =
      Some ((0, f (dv_devid d)), lib.more_update (\<lambda>_. m) s)"
    using parse_device_run [OF k p, of be dd] by blast
  then show ?thesis using h p(2) own q by (simp add: usbi_match_class_def descs Let_def unsigned_eq_0_iff)
qed

end
