(* ===== verification/Timeouts.thy ===== *)
theory Timeouts
  imports IoSync "HOL-Library.Product_Lexorder"
begin

text \<open>
  The thread of usb.c that ends requests whose time is up: usbi_timeval_compare, the choice
  of the time for select, and timeout_thread, one round of its loop at a time. A timeval is
  a pair; its order is the lexicographic one of the library. What happens while the thread
  waits in select is a parameter: the new state (with the new time), the result of select and
  whether the event pipe is readable.
\<close>

section \<open>The code\<close>

definition usbi_timeval_compare :: "int \<times> int \<Rightarrow> int \<times> int \<Rightarrow> int" where
  "usbi_timeval_compare tva tvb =
     (if fst tva < fst tvb then -1 else if fst tva > fst tvb then 1
      else if snd tva < snd tvb then -1 else if snd tva > snd tvb then 1 else 0)"

text \<open>The search for the next deadline.\<close>

fun deadline_walk :: "addr list \<Rightarrow> int \<times> int \<Rightarrow> 'a lib_scheme \<Rightarrow> (int \<times> int) option" where
  "deadline_walk [] tvo s = Some tvo"
| "deadline_walk (io # ios) tvo s = do {
     x \<leftarrow> l_io s io;
     (if io_state x \<noteq> IO_INPROGRESS then deadline_walk ios tvo s
      else if fst (io_tvo x) \<noteq> 0 \<and> (fst tvo = 0 \<or> usbi_timeval_compare (io_tvo x) tvo \<noteq> 0)
        then deadline_walk ios (io_tvo x) s
      else deadline_walk ios tvo s)
   }"

text \<open>The timeout of select, from the deadline and the current time.\<close>

definition select_timeout :: "int \<times> int \<Rightarrow> int \<times> int \<Rightarrow> int \<times> int" where
  "select_timeout tvo tvc = (let
       tvo = (if fst tvo = 0 then (fst tvc + 60 * 60, snd tvc)
              else if usbi_timeval_compare tvo tvc < 0 then tvc else tvo);
       sec = fst tvo - fst tvc
     in if snd tvo < snd tvc then (sec - 1, snd tvo + (1000000 - snd tvc))
        else (sec, snd tvo - snd tvc))"

definition timeout_wait :: "addr \<Rightarrow> ('a lib_scheme, int \<times> int) op" where
  "timeout_wait devh s = do {
     s \<leftarrow> lock_hdev devh s;
     s \<leftarrow> unlock_hdev devh s;
     s \<leftarrow> lock_hdev devh s;
     h \<leftarrow> l_hdev s devh;
     tvo \<leftarrow> deadline_walk (hv_io_head h) (0, 0) s;
     s \<leftarrow> unlock_hdev devh s;
     Some (select_timeout tvo (l_time s), s)
   }"

text \<open>The walk over the requests; the lock is released around each.\<close>

fun expire_walk :: "addr \<Rightarrow> int \<times> int \<Rightarrow> addr list \<Rightarrow> ('a lib_scheme, unit) op" where
  "expire_walk devh tvc [] s = Some ((), s)"
| "expire_walk devh tvc (io # ios) s = do {
     s \<leftarrow> unlock_hdev devh s;
     x \<leftarrow> l_io s io;
     (_, s) \<leftarrow> (if usbi_timeval_compare (io_tvo x) tvc \<le> 0
               then usbi_io_complete io OPENUSB_IO_TIMEOUT 0 s else Some ((), s));
     s \<leftarrow> lock_hdev devh s;
     expire_walk devh tvc ios s
   }"

text \<open>True: the device is closing and the thread ends.\<close>

definition timeout_process :: "addr \<Rightarrow> bool \<Rightarrow> ('a lib_scheme, bool) op" where
  "timeout_process devh readable s = do {
     let tvc = l_time s;
     (closing, s) \<leftarrow> (if readable then do {
                        s \<leftarrow> lock_hdev devh s;
                        h \<leftarrow> l_hdev s devh;
                        s \<leftarrow> unlock_hdev devh s;
                        Some (hv_state h = DEVICE_CLOSING, s)
                      } else Some (False, s));
     (if closing then Some (True, s)
      else do {
        s \<leftarrow> lock_hdev devh s;
        h \<leftarrow> l_hdev s devh;
        (_, s) \<leftarrow> expire_walk devh tvc (hv_io_head h) s;
        s \<leftarrow> unlock_hdev devh s;
        Some (False, s)
      })
   }"

definition timeout_round :: "(int \<times> int \<Rightarrow> ('a lib_scheme, int \<times> bool) op) \<Rightarrow> addr \<Rightarrow> ('a lib_scheme, bool) op" where
  "timeout_round select devh s = do {
     (tvo, s) \<leftarrow> timeout_wait devh s;
     ((ret, readable), s) \<leftarrow> select tvo s;
     (if ret < 0 then Some (False, s) else timeout_process devh readable s)
   }"

text \<open>The thread ends after a number of rounds, or runs on; None is a fault.\<close>

fun timeout_thread :: "nat \<Rightarrow> (int \<times> int \<Rightarrow> ('a lib_scheme, int \<times> bool) op) \<Rightarrow> addr \<Rightarrow> ('a lib_scheme, bool) op" where
  "timeout_thread 0 select devh s = Some (False, s)"
| "timeout_thread (Suc n) select devh s = do {
     (done, s) \<leftarrow> timeout_round select devh s;
     (if done then Some (True, s) else timeout_thread n select devh s)
   }"

section \<open>Comparison\<close>

lemma compare_order: "usbi_timeval_compare a b = (if a < b then -1 else if b < a then 1 else 0)"
  by (cases a; cases b) (auto simp: usbi_timeval_compare_def less_prod_def)

text \<open>For tv_usec in range the order is the order of the times in microseconds.\<close>

lemma compare_micros:
  assumes "0 \<le> snd a" "snd a < 1000000" "0 \<le> snd b" "snd b < 1000000"
  shows "usbi_timeval_compare a b = sgn (micros a - micros b)"
  using assms by (cases a; cases b) (auto simp: usbi_timeval_compare_def micros_def sgn_if)

lemma select_timeout_run:
  assumes c: "0 \<le> snd tvc" "snd tvc < 1000000" and o: "0 \<le> snd tvo" "snd tvo \<le> 1000000"
  shows "micros (select_timeout tvo tvc) =
       (if fst tvo = 0 then 3600000000 else max 0 (micros tvo - micros tvc))"
    and "0 \<le> fst (select_timeout tvo tvc)" "0 \<le> snd (select_timeout tvo tvc)"
    and "snd (select_timeout tvo tvc) \<le> 1000000"
  using assms
  by (cases tvo; cases tvc; auto simp: select_timeout_def usbi_timeval_compare_def micros_def Let_def max_def)+

text \<open>
  The time for select. Without a deadline it is an hour. With one, it is the time that
  is left until then, exactly, and zero when the deadline has passed; its tv_usec is never
  negative and at most 1000000, the value that a deadline of usbi_alloc_io can have.
\<close>

theorem select_timeout_exact:
  assumes c: "0 \<le> snd tvc" "snd tvc < 1000000" and o: "0 \<le> snd tvo" "snd tvo \<le> 1000000"
  shows "micros (select_timeout tvo tvc) =
       (if fst tvo = 0 then 3600000000 else max 0 (micros tvo - micros tvc)) \<and>
     0 \<le> fst (select_timeout tvo tvc) \<and>
     0 \<le> snd (select_timeout tvo tvc) \<and> snd (select_timeout tvo tvc) \<le> 1000000"
  using select_timeout_run [OF assms] by simp

section \<open>The next deadline\<close>

text \<open>The deadlines of the requests in progress.\<close>

definition deadlines :: "addr list \<Rightarrow> 'a lib_scheme \<Rightarrow> (int \<times> int) list" where
  "deadlines ios s = [io_tvo x. x \<leftarrow> map (the \<circ> l_io s) ios, io_state x = IO_INPROGRESS \<and> fst (io_tvo x) \<noteq> 0]"

lemma deadline_walk_last:
  assumes "\<forall>io \<in> set ios. l_io s io \<noteq> None"
  shows "deadline_walk ios tvo s = Some (if deadlines ios s = [] then tvo else last (deadlines ios s))"
  using assms
proof (induction ios arbitrary: tvo)
  case (Cons io ios)
  then obtain x where x: "l_io s io = Some x" by auto
  have e: "usbi_timeval_compare a b = 0 \<longleftrightarrow> a = b" for a b by (auto simp: compare_order)
  show ?case using Cons x by (auto simp: deadlines_def e)
qed (simp add: deadlines_def)

text \<open>The comment says that the thread looks for the soonest deadline, but the test only
  asks whether the deadlines differ: the thread waits for the deadline d of the request that
  was submitted last. If an earlier one has the sooner deadline e, select sleeps past it, by
  the whole difference.
\<close>

theorem waits_for_last_deadline:
  assumes s: "l_held s = {}" "l_hdev s p = Some h" "\<forall>io \<in> set (hv_io_head h). l_io s io \<noteq> None"
    and d: "deadlines (hv_io_head h) s = ds @ [d]" "e \<in> set ds"
    and r: "0 \<le> snd (l_time s)" "snd (l_time s) < 1000000" "0 \<le> snd d" "snd d \<le> 1000000"
    and w: "micros (l_time s) \<le> micros e" "micros e < micros d"
  shows "\<exists>t. timeout_wait p s = Some (t, s) \<and> micros t - (micros e - micros (l_time s)) = micros d - micros e"
proof -
  have "deadlines (hv_io_head h) (s\<lparr>l_held := {LkHdev p}\<rparr>) = deadlines (hv_io_head h) s"
    by (simp add: deadlines_def)
  then have run: "timeout_wait p s = Some (select_timeout d (l_time s), s)"
    using s d(1) deadline_walk_last [of "hv_io_head h" "s\<lparr>l_held := {LkHdev p}\<rparr>"]
    by (simp add: timeout_wait_def lock_hdev_def unlock_hdev_def lock_def unlock_def held_same)
  have "d \<in> set (deadlines (hv_io_head h) s)" using d(1) by simp
  then have "fst d \<noteq> 0" by (auto simp: deadlines_def)
  then have "micros (select_timeout d (l_time s)) = micros d - micros (l_time s)"
    using select_timeout_run [OF r] w by simp
  then show ?thesis using run by simp
qed

section \<open>Expired requests\<close>

definition result_status :: "openusb_request \<Rightarrow> int" where
  "result_status q = (case q of Ctrl c \<Rightarrow> ct_status c | Intr d \<Rightarrow> dr_status d | Bulk d \<Rightarrow> dr_status d
     | Isoc i \<Rightarrow> fst (hd (is_results i)))"

lemma set_result_status: "set_result ty st n r = Some q \<Longrightarrow> result_status q = st"
  by (auto simp: set_result_def result_status_def wr_def split: if_splits openusb_request.split_asm;
      case_tac "is_results x4"; auto)

text \<open>
  An asynchronous request io of the device handle p, whose library handle is q, with a
  request of the application of its own.
\<close>

definition waiting_io :: "addr \<Rightarrow> 'a lib_scheme \<Rightarrow> addr \<Rightarrow> bool" where
  "waiting_io p s io \<longleftrightarrow> (\<exists>x r. l_io s io = Some x \<and> io_dev x = p \<and> io_async x \<and> \<not> io_callback x \<and>
     l_req s (io_req x) = Some r \<and> req_ok r)"

definition expired :: "'a lib_scheme \<Rightarrow> addr \<Rightarrow> bool" where
  "expired s io \<longleftrightarrow> io_tvo (the (l_io s io)) \<le> l_time s"

definition req_at :: "'a lib_scheme \<Rightarrow> addr \<Rightarrow> addr" where
  "req_at s io = io_req (the (l_io s io))"

text \<open>What the walk has done to the requests es, which are the expired ones, in order.\<close>

definition timed_out :: "addr \<Rightarrow> addr list \<Rightarrow> 'a lib_scheme \<Rightarrow> 'a lib_scheme \<Rightarrow> bool" where
  "timed_out p es s t \<longleftrightarrow> l_held t = l_held s \<and> l_time t = l_time s \<and>
     (\<exists>v h. l_hdev s p = Some v \<and> l_hdl s (hv_lib_hdl v) = Some h \<and>
        l_hdev t p = Some (v\<lparr>hv_io_head := [io \<leftarrow> hv_io_head v. io \<notin> set es]\<rparr>) \<and>
        l_hdl t (hv_lib_hdl v) = Some (h\<lparr>hd_complete_list := hd_complete_list h @ es,
          hd_complete_count := hd_complete_count h + int (length es)\<rparr>)) \<and>
     (\<forall>io. l_io t io = (if io \<in> set es then Some ((the (l_io s io))\<lparr>io_state := IO_COMPLETED\<rparr>) else l_io s io)) \<and>
     (\<forall>a. a \<notin> req_at s ` set es \<longrightarrow> l_req t a = l_req s a) \<and>
     (\<forall>io \<in> set es. \<exists>r. l_req t (req_at s io) = Some r \<and> result_status (rq_req r) = OPENUSB_IO_TIMEOUT)"


lemma timed_out_step:
  assumes s: "l_held s = {}" "l_hdev s p = Some v" "l_hdl s (hv_lib_hdl v) = Some h"
    and io: "waiting_io p s io" "distinct (hv_io_head v)" "io \<notin> set (hd_complete_list h)"
  shows "\<exists>t. usbi_io_complete io OPENUSB_IO_TIMEOUT 0 s = Some ((), t) \<and> timed_out p [io] s t"
proof -
  from io(1) obtain x r where x: "l_io s io = Some x" "io_dev x = p" "io_async x" "\<not> io_callback x"
    "l_req s (io_req x) = Some r" "req_ok r" unfolding waiting_io_def by blast
  obtain q where q: "set_result (rq_type r) OPENUSB_IO_TIMEOUT (ucast (0 :: u64)) (rq_req r) = Some q"
    using req_ok_result [OF x(6)] by blast
  let ?t = "(delivered io p q s)\<lparr>l_io := (l_io s)(io \<mapsto> x\<lparr>io_state := IO_COMPLETED\<rparr>),
     l_req_cbs := l_req_cbs s @ (if rq_cb r then [io_req x] else [])\<rparr>"
  have run: "usbi_io_complete io OPENUSB_IO_TIMEOUT 0 s = Some ((), ?t)"
    using complete_async_run [of s io x v h r OPENUSB_IO_TIMEOUT 0 q] s x q by simp
  have f: "remove1 io (hv_io_head v) = [j \<leftarrow> hv_io_head v. j \<noteq> io]"
    using io(2) by (simp add: distinct_remove1_removeAll removeAll_filter_not_eq) metis
  have "l_held ?t = l_held s" "l_time ?t = l_time s" by (simp_all add: delivered_def Let_def) (simp add: io_unlink_def)
  moreover have "l_hdev ?t p = Some (v\<lparr>hv_io_head := [j \<leftarrow> hv_io_head v. j \<notin> set [io]]\<rparr>)"
    using s(2) by (simp add: delivered_def Let_def f)
  moreover have "l_hdl ?t (hv_lib_hdl v) = Some (h\<lparr>hd_complete_list := hd_complete_list h @ [io],
          hd_complete_count := hd_complete_count h + int (length [io])\<rparr>)"
    using s(2,3) io(3) by (simp add: delivered_def Let_def remove1_idem)
  moreover have "\<exists>r. l_req ?t (req_at s io) = Some r \<and> result_status (rq_req r) = OPENUSB_IO_TIMEOUT"
    using x set_result_status [OF q] by (simp add: delivered_def Let_def req_at_def)
  moreover have "\<forall>a. a \<notin> req_at s ` set [io] \<longrightarrow> l_req ?t a = l_req s a"
    using x by (simp add: delivered_def Let_def req_at_def)
  ultimately have "timed_out p [io] s ?t" unfolding timed_out_def using s(2,3) x(1) by simp
  then show ?thesis using run by blast
qed

lemma timed_out_trans:
  assumes 1: "timed_out p [io] s t" and 2: "timed_out p es t u" and d: "io \<notin> set es"
    and r: "req_at s io \<notin> req_at s ` set es"
  shows "timed_out p (io # es) s u"
proof -
  have i: "l_io t j = l_io s j" if "j \<noteq> io" for j using 1 that by (auto simp: timed_out_def)
  then have ri: "req_at t j = req_at s j" if "j \<in> set es" for j using d that by (metis req_at_def)
  from 1 obtain v h where v: "l_hdev s p = Some v" "l_hdl s (hv_lib_hdl v) = Some h"
    "l_hdev t p = Some (v\<lparr>hv_io_head := [j \<leftarrow> hv_io_head v. j \<notin> set [io]]\<rparr>)"
    "l_hdl t (hv_lib_hdl v) = Some (h\<lparr>hd_complete_list := hd_complete_list h @ [io],
       hd_complete_count := hd_complete_count h + int (length [io])\<rparr>)"
    unfolding timed_out_def by blast
  from 2 v have u: "l_hdev u p = Some (v\<lparr>hv_io_head := [j \<leftarrow> hv_io_head v. j \<notin> set (io # es)]\<rparr>)"
    "l_hdl u (hv_lib_hdl v) = Some (h\<lparr>hd_complete_list := hd_complete_list h @ io # es,
       hd_complete_count := hd_complete_count h + int (length (io # es))\<rparr>)"
    by (auto simp: timed_out_def conj_commute add.assoc intro: filter_cong)
  have ims: "req_at t ` set es = req_at s ` set es" using ri by auto
  have q: "l_req u (req_at s io) = l_req t (req_at s io)" using 2 r ims by (simp add: timed_out_def)
  have "\<exists>r. l_req t (req_at s io) = Some r \<and> result_status (rq_req r) = OPENUSB_IO_TIMEOUT"
    using 1 by (simp add: timed_out_def)
  then have st: "\<exists>r. l_req u (req_at s j) = Some r \<and> result_status (rq_req r) = OPENUSB_IO_TIMEOUT"
    if "j \<in> set (io # es)" for j
    using that q 2 ri by (cases "j = io") (auto simp: timed_out_def)
  have oth: "l_req u a = l_req s a" if "a \<notin> req_at s ` set (io # es)" for a
    using that 1 2 ims by (simp add: timed_out_def)
  have ios: "l_io u j = (if j \<in> set (io # es) then Some ((the (l_io s j))\<lparr>io_state := IO_COMPLETED\<rparr>) else l_io s j)" for j
    using 1 2 d by (auto simp: timed_out_def)
  have "l_held u = l_held s \<and> l_time u = l_time s" using 1 2 by (simp add: timed_out_def)
  then show ?thesis unfolding timed_out_def using u v(1,2) st oth ios by blast
qed


lemma timed_out_nil: "l_hdev s p = Some v \<Longrightarrow> l_hdl s (hv_lib_hdl v) = Some h \<Longrightarrow> timed_out p [] s s"
  by (simp add: timed_out_def)

lemma timed_out_held: "timed_out p es (s\<lparr>l_held := l\<rparr>) t \<Longrightarrow> timed_out p es s (t\<lparr>l_held := l_held s\<rparr>)"
  by (auto simp: timed_out_def req_at_def)

text \<open>Everything the walk over ios needs of the state.\<close>

definition expirable :: "addr \<Rightarrow> addr list \<Rightarrow> 'a lib_scheme \<Rightarrow> bool" where
  "expirable p ios s \<longleftrightarrow> distinct ios \<and> inj_on (req_at s) (set ios) \<and> (\<forall>io \<in> set ios. waiting_io p s io) \<and>
     (\<exists>v h. l_hdev s p = Some v \<and> l_hdl s (hv_lib_hdl v) = Some h \<and> distinct (hv_io_head v) \<and>
        set ios \<inter> set (hd_complete_list h) = {})"

lemma expirable_step:
  assumes e: "expirable p (io # ios) s" and t: "timed_out p [io] s t"
  shows "expirable p ios t" and "filter (expired t) ios = filter (expired s) ios"
proof -
  have n: "io \<notin> set ios" "req_at s io \<notin> req_at s ` set ios" using e by (auto simp: expirable_def)
  have i: "l_io t j = l_io s j" if "j \<in> set ios" for j using t n that by (auto simp: timed_out_def)
  then have ra: "req_at t j = req_at s j" if "j \<in> set ios" for j using that by (simp add: req_at_def)
  have rq: "l_req t (req_at s j) = l_req s (req_at s j)" if "j \<in> set ios" for j
  proof -
    have "req_at s j \<notin> req_at s ` set [io]" using n(2) that by (metis imageE image_eqI empty_set list.simps(15) singletonD)
    then show ?thesis using t unfolding timed_out_def by blast
  qed
  have w: "waiting_io p t j" if "j \<in> set ios" for j
  proof -
    from e that obtain x r where x: "l_io s j = Some x" "io_dev x = p" "io_async x" "\<not> io_callback x"
      "l_req s (io_req x) = Some r" "req_ok r" unfolding expirable_def waiting_io_def by auto
    then have "l_req t (io_req x) = Some r" using rq [OF that] by (simp add: req_at_def)
    then show ?thesis unfolding waiting_io_def using x i [OF that] by auto
  qed
  from t obtain v h where v: "l_hdev s p = Some v" "l_hdl s (hv_lib_hdl v) = Some h"
    "l_hdev t p = Some (v\<lparr>hv_io_head := [j \<leftarrow> hv_io_head v. j \<notin> set [io]]\<rparr>)"
    "l_hdl t (hv_lib_hdl v) = Some (h\<lparr>hd_complete_list := hd_complete_list h @ [io],
       hd_complete_count := hd_complete_count h + int (length [io])\<rparr>)"
    unfolding timed_out_def by blast
  have "inj_on (req_at t) (set ios)" using e ra by (simp add: expirable_def inj_on_def)
  then show "expirable p ios t" unfolding expirable_def using e w v n by (auto simp: expirable_def)
  show "filter (expired t) ios = filter (expired s) ios"
    using i t by (intro filter_cong) (auto simp: expired_def timed_out_def)
qed

lemma expire_run:
  assumes "expirable p ios s" "l_held s = {LkHdev p}" "now = l_time s"
  shows "\<exists>t. expire_walk p now ios s = Some ((), t) \<and> timed_out p (filter (expired s) ios) s t"
  using assms
proof (induction ios arbitrary: s)
  case Nil
  then show ?case using timed_out_nil by (fastforce simp: expirable_def)
next
  case (Cons io ios)
  let ?u = "s\<lparr>l_held := {}\<rparr>"
  from Cons.prems(1) obtain v h where v: "l_hdev s p = Some v" "l_hdl s (hv_lib_hdl v) = Some h"
    "distinct (hv_io_head v)" "io \<notin> set (hd_complete_list h)" by (auto simp: expirable_def)
  have wi: "waiting_io p s io" using Cons.prems(1) by (simp add: expirable_def)
  then obtain x where x: "l_io s io = Some x" by (auto simp: waiting_io_def)
  have u: "unlock_hdev p s = Some ?u" using v(1) Cons.prems(2) by (simp add: unlock_hdev_def unlock_def)
  have c: "usbi_timeval_compare (io_tvo x) now \<le> 0 \<longleftrightarrow> expired s io"
    using x Cons.prems(3) by (auto simp: compare_order expired_def)
  show ?case
  proof (cases "expired s io")
    case True
    have "waiting_io p ?u io" using wi by (simp add: waiting_io_def)
    then obtain t0 where t0: "usbi_io_complete io OPENUSB_IO_TIMEOUT 0 ?u = Some ((), t0)" "timed_out p [io] ?u t0"
      using timed_out_step [of ?u p v h io] v by auto
    define t where "t = t0\<lparr>l_held := {LkHdev p}\<rparr>"
    have t: "timed_out p [io] s t" using timed_out_held [OF t0(2)] Cons.prems(2) by (simp add: t_def)
    have l: "lock_hdev p t0 = Some t" using t0(2) by (auto simp: timed_out_def lock_hdev_def lock_def t_def)
    note e = expirable_step [OF Cons.prems(1) t]
    have "l_held t = {LkHdev p}" "now = l_time t" using t Cons.prems(2,3) by (simp_all add: timed_out_def)
    then obtain w where w: "expire_walk p now ios t = Some ((), w)" "timed_out p (filter (expired s) ios) t w"
      using Cons.IH [OF e(1)] e(2) by auto
    have "timed_out p (io # filter (expired s) ios) s w"
      by (rule timed_out_trans [OF t w(2)]) (use Cons.prems(1) in \<open>auto simp: expirable_def inj_on_def\<close>)
    then show ?thesis using u x c True t0(1) l w(1) by simp
  next
    case False
    have "expirable p ios s" using Cons.prems(1) by (auto simp: expirable_def)
    from Cons.IH [OF this Cons.prems(2,3)] obtain w where
      w: "expire_walk p now ios s = Some ((), w)" "timed_out p (filter (expired s) ios) s w" by blast
    have "lock_hdev p ?u = Some s" using v(1) Cons.prems(2) by (simp add: lock_hdev_def lock_def held_same)
    then show ?thesis using u x c False w by simp
  qed
qed

text \<open>
  C22. What one round of the timeout thread does to the requests of its device: exactly the
  requests whose deadline is reached are completed with OPENUSB_IO_TIMEOUT. They leave
  io_head and are appended to the complete_list in their order, complete_count counts them,
  and the result of each request says that it timed out; the other requests are as they were.
\<close>

theorem timeout_completes_expired:
  assumes s: "l_held s = {}" "l_hdev s p = Some v" and e: "expirable p (hv_io_head v) s"
    and c: "\<not> (readable \<and> hv_state v = DEVICE_CLOSING)"
  shows "\<exists>t. timeout_process p readable s = Some (False, t) \<and> timed_out p (filter (expired s) (hv_io_head v)) s t"
proof -
  let ?u = "s\<lparr>l_held := {LkHdev p}\<rparr>"
  have x: "expired ?u = expired s" "req_at ?u = req_at s" by (simp_all add: expired_def req_at_def fun_eq_iff)
  have "expirable p (hv_io_head v) ?u" using e by (simp add: expirable_def waiting_io_def x)
  then obtain t0 where t0: "expire_walk p (l_time s) (hv_io_head v) ?u = Some ((), t0)"
    "timed_out p (filter (expired s) (hv_io_head v)) ?u t0"
    using expire_run [of p "hv_io_head v" ?u "l_time s"] x by auto
  have "timed_out p (filter (expired s) (hv_io_head v)) s (t0\<lparr>l_held := {}\<rparr>)"
    using timed_out_held [OF t0(2)] s(1) by simp
  moreover have "unlock_hdev p t0 = Some (t0\<lparr>l_held := {}\<rparr>)"
    using t0(2) by (auto simp: timed_out_def unlock_hdev_def unlock_def)
  moreover have "lock_hdev p s = Some ?u" "unlock_hdev p ?u = Some s"
    using s by (simp_all add: lock_hdev_def lock_def unlock_hdev_def unlock_def held_same)
  ultimately show ?thesis using s(2) t0(1) c
    by (auto simp: timeout_process_def Let_def)
qed

end
