(* ===== verification/ApiCases.thy ===== *)
theory ApiCases
  imports DevDesc Timeouts LibCases DescCases
begin

text \<open>
  The theorems on open devices and on the timeout thread, on the small instance of LibCases:
  the device handle 1 (at 10) is on the list, without requests or with two asynchronous ones.
\<close>

section \<open>Open devices\<close>

definition ex_handle :: usbi_dev_handle where
  "ex_handle = ex_hdev\<lparr>hv_claimed_ifs := replicate USBI_MAXINTERFACES (-1, -1)\<rparr>"

definition ex_open :: lib where
  "ex_open = ex_state\<lparr>l_dev_handles := [10], l_cur_dev_handle := 2, l_hdev := [10 \<mapsto> ex_handle]\<rparr>"

lemma ex_open_fields [simp]:
  "l_held ex_open = {}" "l_inited ex_open = 2" "l_dev_handles ex_open = [10]" "l_cur_dev_handle ex_open = 2"
  "l_hdev ex_open = [10 \<mapsto> ex_handle]" "l_next ex_open = 20" "l_hdl ex_open = [5 \<mapsto> ex_hdl]"
  "l_dev ex_open = [6 \<mapsto> ex_dev 1, 9 \<mapsto> ex_dev 0]" "l_io ex_open = Map.empty" "l_handles ex_open = [5]"
  "l_devices ex_open = [6]"
  by (simp_all add: ex_open_def)

lemma ex_handle_fields [simp]:
  "hv_handle ex_handle = 1" "hv_io_head ex_handle = []" "hv_idev ex_handle = 6" "hv_lib_hdl ex_handle = 5"
  "length (hv_claimed_ifs ex_handle) = USBI_MAXINTERFACES"
  by (simp_all add: ex_handle_def ex_hdev_def)

lemma ex_hdevs_ok: "hdevs_ok ex_open"
  by (simp add: hdevs_ok_def table_ok_def)

lemma gives_const: "gives r (\<lambda>s. Some (r, s))"
  unfolding gives_def by (intro allI, rule_tac x = "lib.more s" in exI) simp

lemma ex_gives: "gives 0 (do_open (ex_B n) p)" "gives (0, 1) (do_get_configuration (ex_B n) p)"
  "do_close (ex_B n) = Some (\<lambda>d s. Some (0, s))"
  by (simp_all add: ex_B_def ex_ops_def gives_const)

lemma ex_open_ok: "open_ok ex_B ex_open"
  using ex_hdevs_ok by (auto simp: open_ok_def closable_def idle_ios_def ex_gives intro: gives_const)

lemma ex_finds: "usbi_find_handle 1 ex_open = Some (5, ex_open)" "usbi_find_device_by_id 1 ex_open = Some (6, ex_open)"
  by (simp_all add: usbi_find_handle_def usbi_find_device_by_id_def lock_def unlock_def held_same ex_hdl_def
      ex_dev_def)

lemma open_then_close_witness:
  "\<exists>s1 r s2. openusb_open_device ex_env 0 ex_B 1 1 0 False ex_open = Some ((OPENUSB_SUCCESS, 2), s1) \<and>
     openusb_get_devid 2 False s1 = Some ((OPENUSB_SUCCESS, Some 1), s1) \<and>
     openusb_close_device ex_B 2 s1 = Some (r, s2) \<and> l_hdev s2 20 = None"
proof -
  have "openable ex_env ex_B 1 1 5 6 ex_open"
    by (simp add: openable_def ex_finds ex_gives ex_env_def)
  moreover have "dev_answers ex_B 20 6 ex_open"
    unfolding dev_answers_def using ex_gives gives_const [of 0] by (simp; blast)
  moreover have "dv_devid (ex_dev 1) = 1" by (simp add: ex_dev_def)
  ultimately show ?thesis
    using open_then_close [OF ex_open_ok, of ex_env 1 1 5 6 "ex_dev 1" ex_hdl 0] by fastforce
qed

definition ex_refusing :: "nat \<Rightarrow> lib backend_ops" where
  "ex_refusing n = ex_ops\<lparr>do_open := \<lambda>d s. Some (-3, s)\<rparr>"

lemma refused_open_leaves_nothing_witness:
  "\<exists>s1. openusb_open_device ex_env 0 ex_refusing 1 1 0 False ex_open = Some ((-3, 0), s1) \<and>
     l_hdev s1 20 = None \<and> l_dev_handles s1 = [10]"
proof -
  have "gives (-3) (do_open (ex_refusing n) p)" for n p by (simp add: ex_refusing_def gives_const)
  then show ?thesis
    using refused_open_leaves_nothing [OF ex_hdevs_ok, of ex_env 1 5 1 6 "ex_dev 1" "-3" ex_refusing 0] ex_finds
    by (fastforce simp: ex_env_def)
qed

lemma interface_32_out_of_bounds_witness:
  "openusb_is_interface_claimed 1 32 ex_open = None \<and> openusb_is_interface_claimed 1 31 ex_open \<noteq> None"
proof -
  have "hdev_tab ex_open 1 = Some 10" by (simp add: hdev_tab_def table_get_def)
  from interface_32_out_of_bounds [OF ex_hdevs_ok this, of ex_handle 32 ex_B]
    interface_32_out_of_bounds [OF ex_hdevs_ok this, of ex_handle 31 ex_B] show ?thesis by simp
qed

section \<open>Requests in progress\<close>

text \<open>
  Two requests of the device handle at 10: the one at 12 (for the request at 11) has the
  deadline of 5 seconds, the one at 14 (for the request at 13) that of 9 seconds; it is 3.
\<close>

definition ex_busy :: lib where
  "ex_busy = ex_open\<lparr>l_hdev := [10 \<mapsto> ex_handle\<lparr>hv_io_head := [12, 14]\<rparr>],
     l_io := [12 \<mapsto> ex_io\<lparr>io_tvo := (5, 0)\<rparr>, 14 \<mapsto> ex_io\<lparr>io_req := 13, io_tvo := (9, 0)\<rparr>],
     l_req := [11 \<mapsto> ex_req, 13 \<mapsto> ex_req], l_time := (3, 0)\<rparr>"

lemma ex_busy_fields [simp]:
  "l_held ex_busy = {}" "l_dev_handles ex_busy = [10]" "l_hdev ex_busy = [10 \<mapsto> ex_handle\<lparr>hv_io_head := [12, 14]\<rparr>]"
  "l_io ex_busy = [12 \<mapsto> ex_io\<lparr>io_tvo := (5, 0)\<rparr>, 14 \<mapsto> ex_io\<lparr>io_req := 13, io_tvo := (9, 0)\<rparr>]"
  "l_req ex_busy = [11 \<mapsto> ex_req, 13 \<mapsto> ex_req]" "l_time ex_busy = (3, 0)" "l_hdl ex_busy = [5 \<mapsto> ex_hdl]"
  "l_dev ex_busy = [6 \<mapsto> ex_dev 1, 9 \<mapsto> ex_dev 0]"
  by (simp_all add: ex_busy_def)

lemma ex_io_fields [simp]:
  "io_dev ex_io = 10" "io_req ex_io = 11" "io_state ex_io = IO_INPROGRESS" "io_async ex_io" "\<not> io_callback ex_io"
  by (simp_all add: ex_io_def)

lemma abort_cancels_first_witness:
  "\<exists>m. openusb_abort ex_B 13 ex_busy = Some (0, lib.more_update (\<lambda>_. m) ex_busy)"
proof -
  have "dev_ops ex_B 10 ex_busy = Some (ex_B 0)" by (simp add: dev_ops_def) (simp add: ex_dev_def)
  moreover have "do_io_cancel (ex_B 0) = Some (\<lambda>io s. Some (0, s))" by (simp add: ex_B_def ex_ops_def)
  moreover have "requests ex_busy [10] = [(10, 12), (10, 14)]" by (simp add: requests_def)
  moreover have "requested ex_busy 13 (10, 14)" "\<not> requested ex_busy 13 (10, 12)" by (simp_all add: requested_def)
  ultimately show ?thesis
    using abort_cancels_first [of ex_busy 13 ex_B "\<lambda>_. 0"] gives_const [of 0] by fastforce
qed

lemma select_timeout_exact_witness:
  "micros (select_timeout (5, 0) (3, 999999)) = 1000001 \<and> micros (select_timeout (2, 0) (3, 999999)) = 0"
  using select_timeout_exact [of "(3, 999999)" "(5, 0)"] select_timeout_exact [of "(3, 999999)" "(2, 0)"]
  by (simp add: micros_def)

lemma waits_for_last_deadline_witness:
  "\<exists>t. timeout_wait 10 ex_busy = Some (t, ex_busy) \<and> micros t = 6000000"
  using waits_for_last_deadline [of ex_busy 10 "ex_handle\<lparr>hv_io_head := [12, 14]\<rparr>" "[(5, 0)]" "(9, 0)" "(5, 0)"]
  by (simp add: deadlines_def micros_def)

lemma timeout_completes_expired_witness:
  "\<exists>t h. timeout_process 10 False (ex_busy\<lparr>l_time := (7, 0)\<rparr>) = Some (False, t) \<and>
     l_hdl t 5 = Some h \<and> hd_complete_list h = [12]"
proof -
  let ?s = "ex_busy\<lparr>l_time := (7, 0)\<rparr>"
  have "expirable 10 [12, 14] ?s" using ex_req_ok
    by (simp add: expirable_def req_at_def waiting_io_def inj_on_def ex_hdl_def)
  moreover have "expired ?s 12" "\<not> expired ?s 14" by (simp_all add: expired_def)
  ultimately obtain t where "timeout_process 10 False ?s = Some (False, t)" "timed_out 10 [12] ?s t"
    using timeout_completes_expired [of ?s 10 "ex_handle\<lparr>hv_io_head := [12, 14]\<rparr>" False] by fastforce
  then show ?thesis by (auto simp: timed_out_def ex_hdl_def)
qed

section \<open>Descriptors of a device\<close>

text \<open>A backend that knows the descriptor of the mouse of the descriptor examples.\<close>

definition ex_raw :: "nat \<Rightarrow> lib backend_ops" where
  "ex_raw n = ex_ops\<lparr>do_get_raw_desc := Some (\<lambda>idev ty i lang s. Some ((0, enc_device_desc (sv_desc ex_device), 18), s))\<rparr>"

lemma ex_known: "known_devices 1 ex_open"
proof -
  have "l_cur_device_id ex_open = 2" "l_cur_handle ex_open = 2" by (simp_all add: ex_open_def)
  moreover have "dv_devid (ex_dev 1) = 1" "hd_handle ex_hdl = 1" by (simp_all add: ex_dev_def ex_hdl_def)
  ultimately show ?thesis
    by (simp add: known_devices_def handles_ok_def hdl_tab_def table_ok_def table_get_def)
qed

lemma ex_serves: "serves ex_raw (\<lambda>_. sv_desc ex_device) ex_open"
  by (simp add: serves_def ex_raw_def gives_const)

lemma devids_by_vendor_exact_witness:
  "\<exists>s'. openusb_get_devids_by_vendor (\<lambda>_. True) ex_raw False 1 1133 (-1) False (sv_desc ex_device) ex_open =
     Some ((OPENUSB_SUCCESS, [1]), s')"
proof -
  have "dv_devid (ex_dev 1) = 1" by (simp add: ex_dev_def)
  moreover have "vendor_matches False 1133 (-1) (sv_desc ex_device)" by (simp add: vendor_matches_def openusb_le16_to_cpu_def ex_device_def)
  ultimately show ?thesis
    using devids_by_vendor_exact [OF ex_known ex_serves, of "\<lambda>_. True" 1133 "-1" False "sv_desc ex_device"]
    by (auto simp: Let_def)
qed

lemma match_class_assigns_witness:
  "usbi_match_class ex_raw False 1 6 (-1) 0 7 (sv_desc ex_device, zero_config_desc, zero_interface_desc) ex_open =
   usbi_match_class ex_raw False 1 6 (-1) 0 0 (sv_desc ex_device, zero_config_desc, zero_interface_desc) ex_open"
  using match_class_assigns [OF ex_known ex_serves, of 6 "ex_dev 1" "-1" 0 7 False] by (simp add: ex_device_def)

lemma single_desc_parsers_safe_witness:
  "\<exists>r. openusb_parse_endpoint_desc ex_raw True 1 1 (Some (replicate 20 0)) 20 0 0 0 0 zero_endpoint_desc ex_open =
     Some (r, ex_open)"
  using single_desc_parsers_safe [OF ex_finds(1), of 20 "replicate 20 0"] by (simp; blast)

lemma single_desc_parsers_tree_witness:
  "openusb_parse_interface_desc ex_raw False 1 1 (Some (enc_config ex_config)) 50 0 0 1 zero_interface_desc ex_open =
     Some ((0, ex_intf 1 1), ex_open) \<and>
   usbi_get_num_altsettings (Some (enc_config ex_config)) 50 0 = Some 2"
proof -
  have "length (enc_config ex_config) = 50" "sorted (map intf_number (sc_intfs ex_config))"
    "map_option sa_desc (find (is_setting 0 1) (settings ex_config)) = Some (ex_intf 1 1)"
    "map_option length (intf_of 0 (sc_intfs ex_config)) = Some 2" by code_simp+
  then show ?thesis
    using single_desc_parsers_tree [OF ex_finds(1) _ wf_ex_config, of 50 ex_raw False 1 "[]" 0 zero_config_desc 0 1
        zero_interface_desc 0 zero_endpoint_desc] by (auto split: option.splits)
qed

end
