(* ===== verification/ApiXfer.thy ===== *)
theory ApiXfer
  imports DevDesc IoSync
begin

text \<open>
  Transfers of api.c: the check of a request, the waiting transfers openusb_xfer_wait and
  openusb_ctrl_xfer, openusb_intr_xfer, openusb_bulk_xfer and openusb_isoc_xfer on it, the
  asynchronous openusb_xfer_aio, and openusb_set_configuration.

  A request handle and the request of the union it points to are one object of the heap
  l_req; a function that fills a request of its caller returns it. A request on the stack is
  a fresh object that is gone afterwards. junk holds the contents of uninitialised locals.
\<close>

section \<open>Control transfers of the library itself\<close>

definition usbi_control_xfer :: "(addr \<Rightarrow> bool) \<Rightarrow> (nat \<Rightarrow> 'a lib_scheme backend_ops) \<Rightarrow>
    ('a lib_scheme \<Rightarrow> 'a lib_scheme option) \<Rightarrow> addr \<Rightarrow> int \<Rightarrow> int \<Rightarrow> int \<Rightarrow> int \<Rightarrow> u8 list \<Rightarrow> int \<Rightarrow> int \<Rightarrow>
    ('a lib_scheme, int \<times> u8 list) op" where
  "usbi_control_xfer av B others devh requesttype request value index bytes len timeout s = do {
     h \<leftarrow> l_hdev s devh;
     let (req, s) = fresh (\<lambda>_. True) s;
     let s = s\<lparr>l_req := (l_req s)(req \<mapsto> \<lparr>rq_dev = hv_handle h, rq_interface = 0, rq_endpoint = 0,
        rq_type = USB_TYPE_CONTROL, rq_req = Ctrl \<lparr>ct_bmRequestType = of_int requesttype,
          ct_bRequest = of_int request, ct_wValue = of_int value, ct_wIndex = of_int index,
          ct_payload = bytes, ct_length = of_int len, ct_timeout = of_int timeout, ct_status = 0,
          ct_transferred = 0\<rparr>, rq_cb = False, rq_arg = 0\<rparr>)\<rparr>;
     (ret, s) \<leftarrow> usbi_io_sync av B others devh req s;
     r \<leftarrow> l_req s req;
     bytes \<leftarrow> (case rq_req r of Ctrl c \<Rightarrow> Some (ct_payload c) | _ \<Rightarrow> None);
     Some ((ret, bytes), s\<lparr>l_req := (l_req s)(req := None)\<rparr>)
   }"

record junk =
  jk_buf :: "u8 list"
  jk_cfg_desc :: usb_config_desc
  jk_if_desc :: usb_interface_desc
  jk_ep_desc :: usb_endpoint_desc

definition usbi_get_config_desc :: "(addr \<Rightarrow> bool) \<Rightarrow> (nat \<Rightarrow> 'a lib_scheme backend_ops) \<Rightarrow> bool \<Rightarrow>
    ('a lib_scheme \<Rightarrow> 'a lib_scheme option) \<Rightarrow> junk \<Rightarrow> addr \<Rightarrow> int \<Rightarrow>
    ('a lib_scheme, int \<times> u8 list \<times> int) op" where
  "usbi_get_config_desc av B be others j devh cfg s = do {
     let value = int (unat USB_DESC_TYPE_CONFIG) * 256 + cfg;
     ((ret, buf), s) \<leftarrow> usbi_control_xfer av B others devh (int (unat USB_ENDPOINT_IN))
        (int (unat USB_REQ_GET_DESCRIPTOR)) value 0 (jk_buf j) 8 1000 s;
     (if ret < 0 then Some ((ret, [], 0), s)
      else do {
        (_, cfg_desc, _) \<leftarrow> parse_config_desc be ''bbw'' (jk_cfg_desc j) buf 8;
        let len = unat (cd_wTotalLength cfg_desc);
        let (newbuf, s) = fresh av s;
        (if newbuf = 0 then Some ((OPENUSB_NO_RESOURCES, [], 0), s)
         else do {
           ((ret, data), s) \<leftarrow> usbi_control_xfer av B others devh (int (unat USB_ENDPOINT_IN))
              (int (unat USB_REQ_GET_DESCRIPTOR)) value 0 (replicate len 0) (int len) 1000 s;
           Some (if ret < 0 then (ret, [], 0) else (0, data, int len), s)
         })
      })
   }"

section \<open>The check of a request\<close>

text \<open>The search for the endpoint; it gives its descriptor, none, or an error.\<close>

fun find_endpoint :: "(nat \<Rightarrow> 'a lib_scheme backend_ops) \<Rightarrow> bool \<Rightarrow> u64 \<Rightarrow> u64 \<Rightarrow> u8 list \<Rightarrow> u16 \<Rightarrow> u8 \<Rightarrow> u8 \<Rightarrow> u8 \<Rightarrow>
    u8 \<Rightarrow> usb_endpoint_desc \<Rightarrow> nat list \<Rightarrow> ('a lib_scheme, int + usb_endpoint_desc option) op" where
  "find_endpoint B be handle devid buf buflen c ifc alt endpoint ed [] s = Some (Inr None, s)"
| "find_endpoint B be handle devid buf buflen c ifc alt endpoint ed (i # is) s = do {
     ((ret, d), s) \<leftarrow> openusb_parse_endpoint_desc B be handle devid (Some buf) buflen c ifc alt (of_nat i) ed s;
     (if ret < 0 then Some (Inl ret, s)
      else if endpoint = ed_bEndpointAddress d then Some (Inr (Some d), s)
      else find_endpoint B be handle devid buf buflen c ifc alt endpoint d is s)
   }"

text \<open>The transfer type that the attributes of an endpoint must have.\<close>

definition type_fits :: "int \<Rightarrow> u8 \<Rightarrow> bool" where
  "type_fits ty attr = (let t = attr AND 3 in
     if ty = USB_TYPE_CONTROL then t = 0 else if ty = USB_TYPE_INTERRUPT then t = 3
     else if ty = USB_TYPE_BULK then t = 2 else if ty = USB_TYPE_ISOCHRONOUS then t = 1 else False)"

definition check_req_valid :: "(addr \<Rightarrow> bool) \<Rightarrow> (nat \<Rightarrow> 'a lib_scheme backend_ops) \<Rightarrow> bool \<Rightarrow>
    ('a lib_scheme \<Rightarrow> 'a lib_scheme option) \<Rightarrow> junk \<Rightarrow> addr \<Rightarrow> addr \<Rightarrow> ('a lib_scheme, int) op" where
  "check_req_valid av B be others j req dev s = do {
     r \<leftarrow> l_req s req;
     (if rq_endpoint r = 0 \<and> rq_type r = USB_TYPE_CONTROL then Some (0, s)
      else if rq_endpoint r = 0 then Some (-1, s)
      else do {
        h \<leftarrow> l_hdev s dev;
        hdl \<leftarrow> l_hdl s (hv_lib_hdl h);
        (if hd_debug_level hdl < 5 then do {
           (c, s) \<leftarrow> openusb_is_interface_claimed (hv_handle h) (rq_interface r) s;
           Some (if c = 1 then 0 else -1, s)
         }
         else do {
           ((ret, cfg), s) \<leftarrow> openusb_get_configuration B (hv_handle h) False s;
           (if ret < 0 then Some (ret, s)
            else do {
              cfg \<leftarrow> cfg;
              ((ret, alt), s) \<leftarrow> openusb_get_altsetting B (hv_handle h) (rq_interface r) False s;
              (if ret < 0 then Some (ret, s)
               else do {
                 alt \<leftarrow> alt;
                 ((ret, buf, buflen), s) \<leftarrow> usbi_get_config_desc av B be others j dev (int (unat cfg)) s;
                 (if ret < 0 then Some (ret, s)
                  else do {
                    d \<leftarrow> l_dev s (hv_idev h);
                    ((ret, if_desc), s) \<leftarrow> openusb_parse_interface_desc B be (hd_handle hdl) (dv_devid d)
                       (Some buf) (of_int buflen) (cfg - 1) (rq_interface r) alt (jk_if_desc j) s;
                    (if ret < 0 then Some (ret, s)
                     else do {
                       (f, s) \<leftarrow> find_endpoint B be (hd_handle hdl) (dv_devid d) buf (of_int buflen) (cfg - 1)
                          (rq_interface r) alt (rq_endpoint r) (jk_ep_desc j) [0..<unat (id_bNumEndpoints if_desc)] s;
                       Some (case f of Inl ret \<Rightarrow> ret | Inr None \<Rightarrow> OPENUSB_INVALID_HANDLE
                         | Inr (Some d) \<Rightarrow> if type_fits (rq_type r) (ed_bmAttributes d) then 0 else OPENUSB_INVALID_HANDLE, s)
                     })
                  })
               })
            })
         })
      })
   }"

text \<open>The size limit of the bus (0 for none): 0 or the error.\<close>

definition check_size :: "int \<Rightarrow> openusb_request \<Rightarrow> u32 \<Rightarrow> int option" where
  "check_size ty q lim =
     (if lim = 0 then Some 0
      else if ty = USB_TYPE_CONTROL then
        (case q of Ctrl c \<Rightarrow> Some (if ct_length c > lim then OPENUSB_IO_REQ_TOO_BIG else 0) | _ \<Rightarrow> None)
      else if ty = USB_TYPE_INTERRUPT then
        (case q of Intr d \<Rightarrow> Some (if dr_length d > lim then OPENUSB_IO_REQ_TOO_BIG else 0) | _ \<Rightarrow> None)
      else if ty = USB_TYPE_BULK then
        (case q of Bulk d \<Rightarrow> Some (if dr_length d > lim then OPENUSB_IO_REQ_TOO_BIG else 0) | _ \<Rightarrow> None)
      else if ty = USB_TYPE_ISOCHRONOUS then Some 0
      else Some OPENUSB_BADARG)"

section \<open>Waiting transfers\<close>

definition openusb_xfer_wait :: "(addr \<Rightarrow> bool) \<Rightarrow> (nat \<Rightarrow> 'a lib_scheme backend_ops) \<Rightarrow> bool \<Rightarrow>
    ('a lib_scheme \<Rightarrow> 'a lib_scheme option) \<Rightarrow> junk \<Rightarrow> addr \<Rightarrow> ('a lib_scheme, int) op" where
  "openusb_xfer_wait av B be others j req s =
     (if req = 0 then Some (OPENUSB_BADARG, s)
      else do {
        r \<leftarrow> l_req s req;
        (dev, s) \<leftarrow> usbi_find_dev_handle (rq_dev r) s;
        (if dev = 0 then Some (OPENUSB_INVALID_HANDLE, s)
         else do {
           b \<leftarrow> bus_of dev s;
           lim \<leftarrow> (if rq_type r < 0 then None else rd (bs_max_xfer_size b) (nat (rq_type r)));
           e \<leftarrow> check_size (rq_type r) (rq_req r) lim;
           (if e \<noteq> 0 then Some (e, s)
            else do {
              (v, s) \<leftarrow> check_req_valid av B be others j req dev s;
              (if v < 0 then Some (OPENUSB_BADARG, s)
               else do {
                 s \<leftarrow> lock_hdev dev s;
                 h \<leftarrow> l_hdev s dev;
                 d \<leftarrow> l_dev s (hv_idev h);
                 b \<leftarrow> l_bus s (dv_bus d);
                 s \<leftarrow> lock (LkBus (dv_bus d)) s;
                 let io_pattern = bo_io_pattern (B (bs_ops b));
                 s \<leftarrow> unlock (LkBus (dv_bus d)) s;
                 s \<leftarrow> unlock_hdev dev s;
                 (if io_pattern < PATTERN_ASYNC \<or> io_pattern > PATTERN_BOTH then Some (OPENUSB_PLATFORM_FAILURE, s)
                  else usbi_io_sync av B others dev req s)
               })
            })
         })
      })"

text \<open>What the four functions that follow share; q is NULL or the request of the caller.\<close>

definition wait_xfer :: "(addr \<Rightarrow> bool) \<Rightarrow> (nat \<Rightarrow> 'a lib_scheme backend_ops) \<Rightarrow> bool \<Rightarrow>
    ('a lib_scheme \<Rightarrow> 'a lib_scheme option) \<Rightarrow> junk \<Rightarrow> int \<Rightarrow> u64 \<Rightarrow> u8 \<Rightarrow> u8 \<Rightarrow> openusb_request option \<Rightarrow>
    ('a lib_scheme, int \<times> openusb_request option) op" where
  "wait_xfer av B be others j ty dev ifc ept q s =
     (case q of None \<Rightarrow> Some ((OPENUSB_BADARG, q), s)
      | Some q \<Rightarrow> do {
          let (reqp, s) = fresh av s;
          (if reqp = 0 then Some ((OPENUSB_NO_RESOURCES, Some q), s)
           else do {
             let s = s\<lparr>l_req := (l_req s)(reqp \<mapsto> \<lparr>rq_dev = dev, rq_interface = ifc, rq_endpoint = ept,
                rq_type = ty, rq_req = q, rq_cb = False, rq_arg = 0\<rparr>)\<rparr>;
             (ret, s) \<leftarrow> openusb_xfer_wait av B be others j reqp s;
             r \<leftarrow> l_req s reqp;
             Some ((ret, Some (rq_req r)), s\<lparr>l_req := (l_req s)(reqp := None)\<rparr>)
           })
        })"

definition openusb_ctrl_xfer :: "(addr \<Rightarrow> bool) \<Rightarrow> (nat \<Rightarrow> 'a lib_scheme backend_ops) \<Rightarrow> bool \<Rightarrow>
    ('a lib_scheme \<Rightarrow> 'a lib_scheme option) \<Rightarrow> junk \<Rightarrow> u64 \<Rightarrow> u8 \<Rightarrow> u8 \<Rightarrow> ctrl_request option \<Rightarrow>
    ('a lib_scheme, int \<times> openusb_request option) op" where
  "openusb_ctrl_xfer av B be others j dev ifc ept ctrl =
     wait_xfer av B be others j USB_TYPE_CONTROL dev ifc ept (map_option Ctrl ctrl)"

definition openusb_intr_xfer :: "(addr \<Rightarrow> bool) \<Rightarrow> (nat \<Rightarrow> 'a lib_scheme backend_ops) \<Rightarrow> bool \<Rightarrow>
    ('a lib_scheme \<Rightarrow> 'a lib_scheme option) \<Rightarrow> junk \<Rightarrow> u64 \<Rightarrow> u8 \<Rightarrow> u8 \<Rightarrow> data_request option \<Rightarrow>
    ('a lib_scheme, int \<times> openusb_request option) op" where
  "openusb_intr_xfer av B be others j dev ifc ept intr =
     wait_xfer av B be others j USB_TYPE_INTERRUPT dev ifc ept (map_option Intr intr)"

definition openusb_bulk_xfer :: "(addr \<Rightarrow> bool) \<Rightarrow> (nat \<Rightarrow> 'a lib_scheme backend_ops) \<Rightarrow> bool \<Rightarrow>
    ('a lib_scheme \<Rightarrow> 'a lib_scheme option) \<Rightarrow> junk \<Rightarrow> u64 \<Rightarrow> u8 \<Rightarrow> u8 \<Rightarrow> data_request option \<Rightarrow>
    ('a lib_scheme, int \<times> openusb_request option) op" where
  "openusb_bulk_xfer av B be others j dev ifc ept bulk =
     wait_xfer av B be others j USB_TYPE_BULK dev ifc ept (map_option Bulk bulk)"

definition openusb_isoc_xfer :: "(addr \<Rightarrow> bool) \<Rightarrow> (nat \<Rightarrow> 'a lib_scheme backend_ops) \<Rightarrow> bool \<Rightarrow>
    ('a lib_scheme \<Rightarrow> 'a lib_scheme option) \<Rightarrow> junk \<Rightarrow> u64 \<Rightarrow> u8 \<Rightarrow> u8 \<Rightarrow> isoc_request option \<Rightarrow>
    ('a lib_scheme, int \<times> openusb_request option) op" where
  "openusb_isoc_xfer av B be others j dev ifc ept isoc =
     wait_xfer av B be others j USB_TYPE_ISOCHRONOUS dev ifc ept (map_option Isoc isoc)"

section \<open>Asynchronous transfers\<close>

definition openusb_xfer_aio :: "(addr \<Rightarrow> bool) \<Rightarrow> (nat \<Rightarrow> 'a lib_scheme backend_ops) \<Rightarrow> bool \<Rightarrow> int \<Rightarrow>
    ('a lib_scheme \<Rightarrow> 'a lib_scheme option) \<Rightarrow> junk \<Rightarrow> addr \<Rightarrow> ('a lib_scheme, int) op" where
  "openusb_xfer_aio av B be create others j req s =
     (if req = 0 then Some (OPENUSB_BADARG, s)
      else do {
        r \<leftarrow> l_req s req;
        (dev, s) \<leftarrow> usbi_find_dev_handle (rq_dev r) s;
        (if dev = 0 then Some (OPENUSB_BADARG, s)
         else do {
           b \<leftarrow> bus_of dev s;
           lim \<leftarrow> (if rq_type r < 0 then None else rd (bs_max_xfer_size b) (nat (rq_type r)));
           e \<leftarrow> check_size (rq_type r) (rq_req r) lim;
           (if e \<noteq> 0 then Some (e, s)
            else do {
              (v, s) \<leftarrow> check_req_valid av B be others j req dev s;
              (if v < 0 then Some (OPENUSB_INVALID_HANDLE, s)
               else do {
                 s \<leftarrow> lock_hdev dev s;
                 (timeout, s) \<leftarrow> usbi_get_xfer_timeout req dev s;
                 s \<leftarrow> unlock_hdev dev s;
                 (io, s) \<leftarrow> usbi_alloc_io av dev req timeout s;
                 (if io = 0 then Some (OPENUSB_NO_RESOURCES, s)
                  else do {
                    x \<leftarrow> l_io s io;
                    let s = s\<lparr>l_io := (l_io s)(io \<mapsto> x\<lparr>io_req := req, io_state := IO_INPROGRESS, io_async := True\<rparr>)\<rparr>;
                    (ret, s) \<leftarrow> usbi_io_async create B io s;
                    (if ret \<noteq> 0 then do {
                       s \<leftarrow> lock_hdev dev s;
                       let s = io_unlink io s;
                       s \<leftarrow> unlock_hdev dev s;
                       (_, s) \<leftarrow> usbi_free_io B io s;
                       Some (ret, s)
                     }
                     else Some (0, s))
                  })
               })
            })
         })
      })"

section \<open>Configurations\<close>

definition openusb_set_configuration :: "(nat \<Rightarrow> 'a lib_scheme backend_ops) \<Rightarrow> bool \<Rightarrow> usb_device_desc \<Rightarrow> u64 \<Rightarrow>
    u8 \<Rightarrow> ('a lib_scheme, int) op" where
  "openusb_set_configuration B be desc dev cfg s = do {
     (hdev, s) \<leftarrow> usbi_find_dev_handle dev s;
     (if hdev = 0 then Some (OPENUSB_UNKNOWN_DEVICE, s)
      else do {
        h \<leftarrow> l_hdev s hdev;
        hdl \<leftarrow> l_hdl s (hv_lib_hdl h);
        d \<leftarrow> l_dev s (hv_idev h);
        ((ret, desc), s) \<leftarrow> openusb_parse_device_desc B be (hd_handle hdl) (dv_devid d) None 0 desc s;
        (if ret \<noteq> 0 then Some (ret, s)
         else if cfg < 1 \<or> cfg > dd_bNumConfigurations desc then Some (OPENUSB_BADARG, s)
         else do {
           ops \<leftarrow> dev_ops B hdev s;
           do_set_configuration ops hdev cfg s
         })
      })
   }"

section \<open>Which requests are accepted\<close>

text \<open>
  The library's own conditions at a debug level below 5: the default endpoint takes control
  requests only, any other endpoint needs the interface to be claimed.
\<close>

definition permitted :: "usbi_dev_handle \<Rightarrow> openusb_request_handle \<Rightarrow> bool" where
  "permitted h r \<longleftrightarrow> (if rq_endpoint r = 0 then rq_type r = USB_TYPE_CONTROL
     else unat (rq_interface r) < USBI_MAXINTERFACES \<and> fst (hv_claimed_ifs h ! unat (rq_interface r)) = USBI_IFC_CLAIMED)"

text \<open>The device handle number k of s is at p; its device is d on the bus b.\<close>

definition open_at :: "u64 \<Rightarrow> addr \<Rightarrow> usbi_dev_handle \<Rightarrow> usbi_device \<Rightarrow> usbi_bus \<Rightarrow> 'a lib_scheme \<Rightarrow> bool" where
  "open_at k p h d b s \<longleftrightarrow> hdevs_ok s \<and> hdev_tab s k = Some p \<and> l_hdev s p = Some h \<and> hv_handle h = k \<and>
     length (hv_claimed_ifs h) = USBI_MAXINTERFACES \<and> l_dev s (hv_idev h) = Some d \<and> l_bus s (dv_bus d) = Some b \<and>
     length (bs_max_xfer_size b) = 5 \<and>
     (\<exists>hdl. l_hdl s (hv_lib_hdl h) = Some hdl \<and> length (hd_timeout hdl) = 5 \<and> hd_debug_level hdl < 5)"

lemma open_atD:
  assumes "open_at k p h d b s"
  shows "usbi_find_dev_handle k s = Some (p, s)" "p \<noteq> 0" "l_held s = {}" "bus_of p s = Some b"
proof -
  have ok: "hdevs_ok s" "hdev_tab s k = Some p" using assms by (simp_all add: open_at_def)
  show "usbi_find_dev_handle k s = Some (p, s)" using find_hdev_run [OF ok(1), of k] ok(2) by simp
  show "p \<noteq> 0" using removed_hdev_ok(4) [OF ok] .
  show "l_held s = {}" using ok(1) by (simp add: hdevs_ok_def)
  show "bus_of p s = Some b" using assms by (simp add: open_at_def bus_of_def)
qed

lemma interface_claimed_run:
  assumes "open_at k p h d b s" "unat ifc \<noteq> 32"
  shows "\<exists>c. openusb_is_interface_claimed k ifc s = Some (c, s) \<and>
     (c = 1 \<longleftrightarrow> unat ifc < USBI_MAXINTERFACES \<and> fst (hv_claimed_ifs h ! unat ifc) = USBI_IFC_CLAIMED)"
  using open_atD [OF assms(1)] assms
  by (auto simp: openusb_is_interface_claimed_def open_at_def USBI_MAXINTERFACES_def rd_def lock_hdev_def
      unlock_hdev_def lock_def unlock_def held_same OPENUSB_BADARG_def)

lemma check_req_run:
  assumes "open_at (rq_dev r) p h d b s" "l_req s req = Some r" "unat (rq_interface r) \<noteq> 32"
  shows "check_req_valid av B be others j req p s = Some (if permitted h r then 0 else -1, s)"
proof -
  obtain c where c: "openusb_is_interface_claimed (rq_dev r) (rq_interface r) s = Some (c, s)"
    "c = 1 \<longleftrightarrow> unat (rq_interface r) < USBI_MAXINTERFACES \<and>
       fst (hv_claimed_ifs h ! unat (rq_interface r)) = USBI_IFC_CLAIMED"
    using interface_claimed_run [OF assms(1,3)] by blast
  then show ?thesis using assms by (auto simp: check_req_valid_def permitted_def open_at_def)
qed

text \<open>Longer than the limit of the bus; isochronous requests are not checked.\<close>

definition too_long :: "openusb_request_handle \<Rightarrow> usbi_bus \<Rightarrow> bool" where
  "too_long r b \<longleftrightarrow> (let lim = bs_max_xfer_size b ! nat (rq_type r) in lim \<noteq> 0 \<and>
     (case rq_req r of Ctrl c \<Rightarrow> lim < ct_length c | Intr d \<Rightarrow> lim < dr_length d | Bulk d \<Rightarrow> lim < dr_length d
        | Isoc i \<Rightarrow> False))"

lemma check_size_run:
  assumes "req_ok r"
  shows "check_size (rq_type r) (rq_req r) (bs_max_xfer_size b ! nat (rq_type r)) =
     Some (if too_long r b then OPENUSB_IO_REQ_TOO_BIG else 0)"
  using assms by (auto simp: req_ok_def check_size_def too_long_def usb_types Let_def split: openusb_request.split_asm)

lemma type_range: "req_ok r \<Longrightarrow> 0 \<le> rq_type r \<and> nat (rq_type r) < 5"
  by (cases "rq_req r") (simp_all add: req_ok_def usb_types)

text \<open>The requests that are refused. For an unknown device openusb_xfer_wait returns
  OPENUSB_INVALID_HANDLE and openusb_xfer_aio OPENUSB_BADARG; a request longer than the
  limit of its bus gets OPENUSB_IO_REQ_TOO_BIG from both; one for the default endpoint that
  is no control request, or for an interface that is not claimed, gets OPENUSB_BADARG from
  the first and OPENUSB_INVALID_HANDLE from the second. In every case the state is as
  before: no structure is left behind and nothing has reached a backend.
\<close>

theorem xfer_refused:
  assumes r: "l_req s req = Some r" "req \<noteq> 0" "req_ok r" "unat (rq_interface r) \<noteq> 32" and k: "hdevs_ok s"
  shows "(hdev_tab s (rq_dev r) = None \<longrightarrow>
       openusb_xfer_wait av B be others j req s = Some (OPENUSB_INVALID_HANDLE, s) \<and>
       openusb_xfer_aio av B be create others j req s = Some (OPENUSB_BADARG, s)) \<and>
     (open_at (rq_dev r) p h d b s \<and> too_long r b \<longrightarrow>
       openusb_xfer_wait av B be others j req s = Some (OPENUSB_IO_REQ_TOO_BIG, s) \<and>
       openusb_xfer_aio av B be create others j req s = Some (OPENUSB_IO_REQ_TOO_BIG, s)) \<and>
     (open_at (rq_dev r) p h d b s \<and> \<not> too_long r b \<and> \<not> permitted h r \<longrightarrow>
       openusb_xfer_wait av B be others j req s = Some (OPENUSB_BADARG, s) \<and>
       openusb_xfer_aio av B be create others j req s = Some (OPENUSB_INVALID_HANDLE, s))"
proof (intro conjI impI)
  assume n: "hdev_tab s (rq_dev r) = None"
  then show "openusb_xfer_wait av B be others j req s = Some (OPENUSB_INVALID_HANDLE, s)"
    and "openusb_xfer_aio av B be create others j req s = Some (OPENUSB_BADARG, s)"
    using r(1,2) find_hdev_run [OF k(1), of "rq_dev r"] by (simp_all add: openusb_xfer_wait_def openusb_xfer_aio_def)
next
  assume o: "open_at (rq_dev r) p h d b s \<and> too_long r b"
  then have lim: "rd (bs_max_xfer_size b) (nat (rq_type r)) = Some (bs_max_xfer_size b ! nat (rq_type r))"
    using type_range [OF r(3)] by (simp add: open_at_def rd_def)
  then show "openusb_xfer_wait av B be others j req s = Some (OPENUSB_IO_REQ_TOO_BIG, s)"
    and "openusb_xfer_aio av B be create others j req s = Some (OPENUSB_IO_REQ_TOO_BIG, s)"
    using o open_atD [of "rq_dev r" p h d b s] r(1,2) type_range [OF r(3)] check_size_run [OF r(3), of b]
    by (simp_all add: openusb_xfer_wait_def openusb_xfer_aio_def error_codes)
next
  assume o: "open_at (rq_dev r) p h d b s \<and> \<not> too_long r b \<and> \<not> permitted h r"
  then have lim: "rd (bs_max_xfer_size b) (nat (rq_type r)) = Some (bs_max_xfer_size b ! nat (rq_type r))"
    using type_range [OF r(3)] by (simp add: open_at_def rd_def)
  have o1: "open_at (rq_dev r) p h d b s" using o by blast
  show "openusb_xfer_wait av B be others j req s = Some (OPENUSB_BADARG, s)"
    and "openusb_xfer_aio av B be create others j req s = Some (OPENUSB_INVALID_HANDLE, s)"
    using o lim open_atD [OF o1] r(1,2) type_range [OF r(3)] check_size_run [OF r(3), of b] check_req_run [OF o1 r(1,4)]
    by (simp_all add: openusb_xfer_wait_def openusb_xfer_aio_def)
qed

section \<open>A transfer that is accepted\<close>

text \<open>The public function for the kind of the request.\<close>

definition public_xfer :: "(addr \<Rightarrow> bool) \<Rightarrow> (nat \<Rightarrow> 'a lib_scheme backend_ops) \<Rightarrow> bool \<Rightarrow>
    ('a lib_scheme \<Rightarrow> 'a lib_scheme option) \<Rightarrow> junk \<Rightarrow> u64 \<Rightarrow> u8 \<Rightarrow> u8 \<Rightarrow> openusb_request \<Rightarrow>
    ('a lib_scheme, int \<times> openusb_request option) op" where
  "public_xfer av B be others j dev ifc ept q = (case q of
     Ctrl c \<Rightarrow> openusb_ctrl_xfer av B be others j dev ifc ept (Some c)
   | Intr i \<Rightarrow> openusb_intr_xfer av B be others j dev ifc ept (Some i)
   | Bulk b \<Rightarrow> openusb_bulk_xfer av B be others j dev ifc ept (Some b)
   | Isoc i \<Rightarrow> openusb_isoc_xfer av B be others j dev ifc ept (Some i))"

definition xfer_type :: "openusb_request \<Rightarrow> int" where
  "xfer_type q = (case q of Ctrl c \<Rightarrow> USB_TYPE_CONTROL | Intr i \<Rightarrow> USB_TYPE_INTERRUPT
     | Bulk b \<Rightarrow> USB_TYPE_BULK | Isoc i \<Rightarrow> USB_TYPE_ISOCHRONOUS)"

definition xfer_request :: "u64 \<Rightarrow> u8 \<Rightarrow> u8 \<Rightarrow> openusb_request \<Rightarrow> openusb_request_handle" where
  "xfer_request dev ifc ept q = \<lparr>rq_dev = dev, rq_interface = ifc, rq_endpoint = ept, rq_type = xfer_type q,
     rq_req = q, rq_cb = False, rq_arg = 0\<rparr>"

lemma public_xfer_wait: "public_xfer av B be others j dev ifc ept q =
    wait_xfer av B be others j (xfer_type q) dev ifc ept (Some q)"
  by (cases q) (simp_all add: public_xfer_def xfer_type_def openusb_ctrl_xfer_def openusb_intr_xfer_def
      openusb_bulk_xfer_def openusb_isoc_xfer_def)

lemma open_at_cong:
  "l_held t = l_held s \<Longrightarrow> l_inited t = l_inited s \<Longrightarrow> l_next s \<le> l_next t \<Longrightarrow> l_cur_dev_handle t = l_cur_dev_handle s \<Longrightarrow>
     l_hdev t = l_hdev s \<Longrightarrow> l_dev_handles t = l_dev_handles s \<Longrightarrow> l_dev t = l_dev s \<Longrightarrow> l_bus t = l_bus s \<Longrightarrow>
     l_hdl t = l_hdl s \<Longrightarrow> open_at k p h d b s \<Longrightarrow> open_at k p h d b t"
  by (auto simp: open_at_def hdevs_ok_def hdev_tab_def)

text \<open>
  C6. A transfer from end to end. Take an open device, a request that the library permits
  and that is not too long, and a backend with asynchronous transfers that accepts it and
  completes it with status st and n bytes while the library waits. Then openusb_ctrl_xfer,
  openusb_intr_xfer, openusb_bulk_xfer or openusb_isoc_xfer, whichever is for the request,
  returns st, and the request of the caller has the status and the number of bytes. Nothing
  else is different afterwards: every structure of the transfer is released and off the
  lists, and every mutex is unlocked.
\<close>

theorem xfer_end_to_end:
  assumes o: "open_at dev p h d b s" and nf: "next_free s" "l_req s (l_next s) = None" and av: "\<forall>n. av n"
    and r: "req_ok (xfer_request dev ifc ept q)" "unat ifc \<noteq> 32"
    and ok: "permitted h (xfer_request dev ifc ept q)" "\<not> too_long (xfer_request dev ifc ept q) b"
    and pat: "bo_io_pattern (B (bs_ops b)) = PATTERN_ASYNC"
    and aio: "\<And>t. do_xfer_aio (B (dv_ops d)) (xfer_type q) p (l_next s + 1) t = Some (0, t)"
    and others: "\<And>t. others t = map_option snd (usbi_io_complete (l_next s + 1) st n t)"
    and q: "set_result (xfer_type q) st (ucast n) q = Some q'"
  shows "public_xfer av B be others j dev ifc ept q s = Some ((st, Some q'), s\<lparr>l_next := l_next s + 3\<rparr>)"
proof -
  let ?r = "xfer_request dev ifc ept q"
  let ?t = "s\<lparr>l_next := l_next s + 1, l_req := (l_req s)(l_next s \<mapsto> ?r)\<rparr>"
  let ?u = "?t\<lparr>l_next := l_next s + 3, l_req := (l_req ?t)(l_next s \<mapsto> ?r\<lparr>rq_req := q'\<rparr>)\<rparr>"
  have f: "rq_dev ?r = dev" "rq_interface ?r = ifc" "rq_type ?r = xfer_type q" "rq_req ?r = q"
    by (simp_all add: xfer_request_def)
  have ot: "open_at dev p h d b ?t" by (rule open_at_cong [OF _ _ _ _ _ _ _ _ _ o]) simp_all
  note od = open_atD [OF ot]
  have nt: "next_free ?t" using nf(1) by (simp add: next_free_def unlinked_def)
  have ct: "connected p d b ?t" using ot by (auto simp: open_at_def connected_def)
  have sync: "usbi_io_sync av B others p (l_next s) ?t = Some (st, ?u)"
    using io_sync_async_run [OF ct od(3) nt av od(2), of "l_next s" ?r B st n q' others] r(1) pat aio others q f
    by simp
  have chk: "check_req_valid av B be others j (l_next s) p ?t = Some (0, ?t)"
    using check_req_run [of ?r p h d b ?t "l_next s" av B be others j] ot r(2) ok(1) f by simp
  have lim: "rd (bs_max_xfer_size b) (nat (xfer_type q)) = Some (bs_max_xfer_size b ! nat (xfer_type q))"
    "0 \<le> xfer_type q"
    using type_range [OF r(1)] ot f(3) by (simp_all add: open_at_def rd_def)
  have size: "check_size (xfer_type q) q (bs_max_xfer_size b ! nat (xfer_type q)) = Some 0"
    using check_size_run [OF r(1), of b] ok(2) f by simp
  have hv: "l_hdev s p = Some h" "l_dev s (hv_idev h) = Some d" "l_bus s (dv_bus d) = Some b" "l_held s = {}"
    using o open_atD(3) [OF o] by (simp_all add: open_at_def)
  have n0: "l_next s \<noteq> 0" using nf(1) by (simp add: next_free_def)
  have ne: "LkHdev p \<noteq> LkBus (dv_bus d)" "{LkBus (dv_bus d), LkHdev p} - {LkBus (dv_bus d)} = {LkHdev p}" by auto
  have "openusb_xfer_wait av B be others j (l_next s) ?t = Some (st, ?u)"
    using od n0 f lim size chk sync hv pat ne
    by (simp add: openusb_xfer_wait_def lock_hdev_def unlock_hdev_def lock_def unlock_def held_same
        PATTERN_ASYNC_def PATTERN_BOTH_def)
  moreover have "(l_req s)(l_next s := None) = l_req s" using nf(2) by auto
  ultimately show ?thesis using n0 av
    by (simp add: public_xfer_wait wait_xfer_def fresh_def Let_def xfer_request_def)
qed

end
