(* ===== verification/WaitPoll.thy ===== *)
theory WaitPoll
  imports DevHandle IoSync
begin

text \<open>
  openusb_wait and openusb_poll of api.c: taking finished requests off the complete_list of
  a library handle. What the other threads do while openusb_wait waits is a list of state
  changes, one for each time pthread_cond_wait returns; when the list is used up, the wait
  never returns. The result is None for a fault (or an endless loop), Some None when the
  function waits for ever, and otherwise the return code, what is stored through handle
  (None if nothing is) and the state.
\<close>

section \<open>The code\<close>

text \<open>The first entry of the complete list whose request is one of hs, or 0.\<close>

fun find_complete :: "addr list \<Rightarrow> addr list \<Rightarrow> 'a lib_scheme \<Rightarrow> addr option" where
  "find_complete hs [] s = Some 0"
| "find_complete hs (io # ios) s = do {
     x \<leftarrow> l_io s io;
     (if io_req x \<in> set hs then Some io else find_complete hs ios s)
   }"

text \<open>Is the callback of one of the requests set?\<close>

fun any_cb :: "addr list \<Rightarrow> 'a lib_scheme \<Rightarrow> bool option" where
  "any_cb [] s = Some False"
| "any_cb (p # ps) s = do { r \<leftarrow> l_req s p; (if rq_cb r then Some True else any_cb ps s) }"

definition lock_complete :: "addr \<Rightarrow> 'a lib_scheme \<Rightarrow> 'a lib_scheme option" where
  "lock_complete ph s = do { _ \<leftarrow> l_hdl s ph; lock (LkComplete ph) s }"

definition unlock_complete :: "addr \<Rightarrow> 'a lib_scheme \<Rightarrow> 'a lib_scheme option" where
  "unlock_complete ph s = do { _ \<leftarrow> l_hdl s ph; unlock (LkComplete ph) s }"

definition less_complete :: "addr \<Rightarrow> 'a lib_scheme \<Rightarrow> 'a lib_scheme option" where
  "less_complete ph s = do {
     h \<leftarrow> l_hdl s ph;
     Some (s\<lparr>l_hdl := (l_hdl s)(ph \<mapsto> h\<lparr>hd_complete_count := hd_complete_count h - 1\<rparr>)\<rparr>)
   }"

text \<open>while (ph->complete_count == 0) pthread_cond_wait: the wakeups that are left.\<close>

fun count_wait :: "('a lib_scheme \<Rightarrow> 'a lib_scheme) list \<Rightarrow> addr \<Rightarrow> 'a lib_scheme \<Rightarrow>
    (('a lib_scheme \<Rightarrow> 'a lib_scheme) list \<times> 'a lib_scheme) option option" where
  "count_wait [] ph s = do { h \<leftarrow> l_hdl s ph; Some (if hd_complete_count h = 0 then None else Some ([], s)) }"
| "count_wait (w # ws) ph s = do {
     h \<leftarrow> l_hdl s ph;
     (if hd_complete_count h = 0 then do {
        s \<leftarrow> unlock_complete ph s;
        s \<leftarrow> lock_complete ph (w s);
        count_wait ws ph s
      }
      else Some (Some (w # ws, s)))
   }"

partial_function (option) wait_loop :: "(nat \<Rightarrow> 'a lib_scheme backend_ops) \<Rightarrow> addr list \<Rightarrow> addr \<Rightarrow>
    ('a lib_scheme \<Rightarrow> 'a lib_scheme) list \<Rightarrow> 'a lib_scheme \<Rightarrow> ((int \<times> addr option) \<times> 'a lib_scheme) option option" where
  "wait_loop B hs ph ws s = do {
     s \<leftarrow> lock_complete ph s;
     r \<leftarrow> count_wait ws ph s;
     (case r of None \<Rightarrow> Some None
      | Some (ws, s) \<Rightarrow> do {
          h \<leftarrow> l_hdl s ph;
          io \<leftarrow> find_complete hs (hd_complete_list h) s;
          (if io \<noteq> 0 then do {
             let s = io_unlink io s;
             s \<leftarrow> less_complete ph s;
             x \<leftarrow> l_io s io;
             s \<leftarrow> unlock_complete ph s;
             (_, s) \<leftarrow> usbi_free_io B io s;
             Some (Some ((0, Some (io_req x)), s))
           }
           else do {
             s \<leftarrow> less_complete ph s;
             s \<leftarrow> unlock_complete ph s;
             wait_loop B hs ph ws s
           })
        })
   }"

definition openusb_wait :: "(nat \<Rightarrow> 'a lib_scheme backend_ops) \<Rightarrow> ('a lib_scheme \<Rightarrow> 'a lib_scheme) list \<Rightarrow> addr list \<Rightarrow>
    bool \<Rightarrow> 'a lib_scheme \<Rightarrow> ((int \<times> addr option) \<times> 'a lib_scheme) option option" where
  "openusb_wait B ws handles ptrs_null s =
     (if handles = [] then Some (Some ((0, None), s))
      else if ptrs_null then Some (Some ((OPENUSB_BADARG, None), s))
      else do {
        r \<leftarrow> l_req s (hd handles);
        (hdev, s) \<leftarrow> usbi_find_dev_handle (rq_dev r) s;
        (if hdev = 0 then Some (Some ((OPENUSB_BADARG, None), s))
         else do {
           h \<leftarrow> l_hdev s hdev;
           let ph = hv_lib_hdl h;
           (if ph = 0 then Some (Some ((OPENUSB_BADARG, None), s))
            else do {
              cb \<leftarrow> any_cb handles s;
              (if cb then Some (Some ((OPENUSB_BADARG, None), s))
               else wait_loop B handles ph ws s)
            })
         })
      })"

definition openusb_poll :: "(nat \<Rightarrow> 'a lib_scheme backend_ops) \<Rightarrow> addr list \<Rightarrow> bool \<Rightarrow>
    ('a lib_scheme, int \<times> addr option) op" where
  "openusb_poll B handles ptrs_null s =
     (if handles = [] then Some ((0, None), s)
      else if ptrs_null then Some ((OPENUSB_BADARG, None), s)
      else do {
        r \<leftarrow> l_req s (hd handles);
        (hdev, s) \<leftarrow> usbi_find_dev_handle (rq_dev r) s;
        (if hdev = 0 then Some ((OPENUSB_BADARG, None), s)
         else do {
           s \<leftarrow> lock_hdev hdev s;
           h \<leftarrow> l_hdev s hdev;
           let ph = hv_lib_hdl h;
           s \<leftarrow> unlock_hdev hdev s;
           (if ph = 0 then Some ((OPENUSB_BADARG, None), s)
            else do {
              s \<leftarrow> lock_complete ph s;
              h \<leftarrow> l_hdl s ph;
              io \<leftarrow> find_complete handles (hd_complete_list h) s;
              (if io \<noteq> 0 then do {
                 s \<leftarrow> less_complete ph s;
                 let s = io_unlink io s;
                 x \<leftarrow> l_io s io;
                 (_, s) \<leftarrow> usbi_free_io B io s;
                 s \<leftarrow> unlock_complete ph s;
                 Some ((0, Some (io_req x)), s)
               }
               else do { s \<leftarrow> unlock_complete ph s; Some ((0, Some 0), s) })
            })
         })
      })"

section \<open>Taking a finished request\<close>

lemma any_cb_run: "\<forall>p \<in> set ps. \<exists>r. l_req s p = Some r \<and> \<not> rq_cb r \<Longrightarrow> any_cb ps s = Some False"
  by (induction ps) auto

definition asked :: "addr list \<Rightarrow> 'a lib_scheme \<Rightarrow> addr \<Rightarrow> bool" where
  "asked hs s io \<longleftrightarrow> io_req (the (l_io s io)) \<in> set hs"

lemma find_complete_run:
  assumes "\<forall>io \<in> set ios. l_io s io \<noteq> None"
  shows "find_complete hs ios s = Some (case find (asked hs s) ios of None \<Rightarrow> 0 | Some io \<Rightarrow> io)"
  using assms by (induction ios) (auto simp: asked_def)

text \<open>
  The list of finished requests of the library handle at ph, in order, and complete_count;
  the finished requests are live structures and on this list once.
\<close>

definition finished_at :: "addr \<Rightarrow> addr list \<Rightarrow> int \<Rightarrow> 'a lib_scheme \<Rightarrow> bool" where
  "finished_at ph ios n s \<longleftrightarrow> l_held s = {} \<and> distinct ios \<and> 0 \<notin> set ios \<and>
     (\<exists>h. l_hdl s ph = Some h \<and> hd_complete_list h = ios \<and> hd_complete_count h = n) \<and>
     (\<forall>io \<in> set ios. \<exists>x. l_io s io = Some x \<and> io_state x = IO_COMPLETED \<and> l_hdev s (io_dev x) \<noteq> None) \<and>
     (\<forall>q h. q \<noteq> ph \<longrightarrow> l_hdl s q = Some h \<longrightarrow> set (hd_complete_list h) \<inter> set ios = {}) \<and>
     (\<forall>p h. l_hdev s p = Some h \<longrightarrow> set (hv_io_head h) \<inter> set ios = {})"

text \<open>The state after the finished request io is taken.\<close>

definition taken :: "addr \<Rightarrow> addr \<Rightarrow> 'a lib_scheme \<Rightarrow> 'a lib_scheme" where
  "taken ph io s = s\<lparr>l_io := (l_io s)(io := None), l_hdl := (l_hdl s)(ph \<mapsto> (the (l_hdl s ph))\<lparr>
     hd_complete_list := remove1 io (hd_complete_list (the (l_hdl s ph))),
     hd_complete_count := hd_complete_count (the (l_hdl s ph)) - 1\<rparr>)\<rparr>"

lemma unlink_finished:
  assumes "finished_at ph ios n s" "io \<in> set ios" "l_hdl s ph = Some h"
  shows "io_unlink io s = s\<lparr>l_hdl := (l_hdl s)(ph \<mapsto> h\<lparr>hd_complete_list := remove1 io ios\<rparr>)\<rparr>"
proof -
  have "map_option (\<lambda>h. h\<lparr>hv_io_head := remove1 io (hv_io_head h)\<rparr>) (l_hdev s p) = l_hdev s p" for p
  proof (cases "l_hdev s p")
    case (Some v)
    then have "io \<notin> set (hv_io_head v)" using assms(1,2) unfolding finished_at_def by blast
    then show ?thesis using Some by (simp add: remove1_idem)
  qed simp
  then have v: "(\<lambda>p. map_option (\<lambda>h. h\<lparr>hv_io_head := ls_del io (hv_io_head h)\<rparr>) (l_hdev s p)) = l_hdev s"
    by (simp add: ls_del_def)
  have "map_option (\<lambda>h. h\<lparr>hd_complete_list := remove1 io (hd_complete_list h)\<rparr>) (l_hdl s q) =
      ((l_hdl s)(ph \<mapsto> h\<lparr>hd_complete_list := remove1 io ios\<rparr>)) q" for q
  proof (cases "q = ph")
    case True
    then show ?thesis using assms by (auto simp: finished_at_def)
  next
    case False
    show ?thesis
    proof (cases "l_hdl s q")
      case (Some u)
      then have "io \<notin> set (hd_complete_list u)" using assms(1,2) False unfolding finished_at_def by blast
      then show ?thesis using Some False by (simp add: remove1_idem)
    qed (use False in simp)
  qed
  then have "(\<lambda>p. map_option (\<lambda>h. h\<lparr>hd_complete_list := ls_del io (hd_complete_list h)\<rparr>) (l_hdl s p)) =
      (l_hdl s)(ph \<mapsto> h\<lparr>hd_complete_list := remove1 io ios\<rparr>)" by (auto simp: ls_del_def)
  then show ?thesis by (simp add: io_unlink_def v)
qed

lemma handle_update_order:
  "h\<lparr>hd_complete_count := k, hd_complete_list := x\<rparr> = h\<lparr>hd_complete_list := x, hd_complete_count := k\<rparr>"
  by simp

lemma free_io_locked:
  assumes "l_held s = {LkComplete ph}" "io \<noteq> 0" "l_io s io = Some x" "l_hdev s (io_dev x) \<noteq> None"
    and "io_state x = IO_COMPLETED"
  shows "usbi_free_io B io s = Some ((), (io_unlink io s)\<lparr>l_io := (l_io s)(io := None)\<rparr>)"
proof -
  have c: "io_unlink io (s\<lparr>l_held := l\<rparr>) = (io_unlink io s)\<lparr>l_held := l\<rparr>" for l
    by (simp add: io_unlink_def)
  have "{LkHdev (io_dev x), LkIo io, LkComplete ph} - {LkHdev (io_dev x)} = {LkIo io, LkComplete ph}"
    "{LkIo io, LkComplete ph} - {LkIo io} = {LkComplete ph}" by auto
  moreover have "LkIo io \<noteq> LkHdev (io_dev x)" "LkIo io \<noteq> LkComplete ph" "LkHdev (io_dev x) \<noteq> LkComplete ph" by auto
  moreover obtain v where "l_hdev s (io_dev x) = Some v" using assms(4) by auto
  ultimately show ?thesis using assms(1,2,3,5)
    by (simp add: usbi_free_io_def lock_io_def unlock_io_def lock_hdev_def unlock_hdev_def
        lock_def unlock_def Let_def c held_same)
qed

lemma taken_unlinked:
  assumes "finished_at ph ios n s" "io \<in> set ios" "l_hdl s ph = Some h"
  shows "unlinked io (s\<lparr>l_hdl := (l_hdl s)(ph \<mapsto> h\<lparr>hd_complete_list := remove1 io ios, hd_complete_count := k\<rparr>)\<rparr>)"
proof -
  have d: "io \<notin> set (remove1 io ios)" using assms(1) by (simp add: finished_at_def)
  have a: "io \<notin> set (hv_io_head v)" if "l_hdev s p = Some v" for p v
    using assms(1,2) that unfolding finished_at_def by blast
  have b: "io \<notin> set (hd_complete_list u)" if "l_hdl s q = Some u" "q \<noteq> ph" for q u
    using assms(1,2) that unfolding finished_at_def by blast
  show ?thesis unfolding unlinked_def
  proof (intro conjI allI impI)
    fix p v
    assume "l_hdev (s\<lparr>l_hdl := (l_hdl s)(ph \<mapsto> h\<lparr>hd_complete_list := remove1 io ios, hd_complete_count := k\<rparr>)\<rparr>) p = Some v"
    then have "l_hdev s p = Some v" by simp
    then show "io \<notin> set (hv_io_head v)" by (rule a)
  next
    fix q u
    assume u: "l_hdl (s\<lparr>l_hdl := (l_hdl s)(ph \<mapsto> h\<lparr>hd_complete_list := remove1 io ios, hd_complete_count := k\<rparr>)\<rparr>) q = Some u"
    show "io \<notin> set (hd_complete_list u)"
    proof (cases "q = ph")
      case True
      then show ?thesis using u d by auto
    next
      case False
      then have "l_hdl s q = Some u" using u by simp
      then show ?thesis using False by (rule b)
    qed
  qed
qed

lemma finished_atD:
  assumes "finished_at ph ios n s" "io \<in> set ios"
  obtains h x where "l_hdl s ph = Some h" "hd_complete_list h = ios" "hd_complete_count h = n" "l_held s = {}"
    "l_io s io = Some x" "io_state x = IO_COMPLETED" "l_hdev s (io_dev x) \<noteq> None" "io \<noteq> 0" "0 \<notin> set ios"
  using assms unfolding finished_at_def by metis

lemma wait_take:
  assumes f: "finished_at ph ios n s" "find (asked hs s) ios = Some io" "n \<noteq> 0"
  shows "wait_loop B hs ph ws s = Some (Some ((0, Some (io_req (the (l_io s io)))), taken ph io s))"
proof -
  have io: "io \<in> set ios" using f(2) by (auto simp: find_Some_iff)
  obtain h x where h: "l_hdl s ph = Some h" "hd_complete_list h = ios" "hd_complete_count h = n" "l_held s = {}"
    "l_io s io = Some x" "io_state x = IO_COMPLETED" "l_hdev s (io_dev x) \<noteq> None" "io \<noteq> 0" "0 \<notin> set ios"
    using finished_atD [OF f(1) io] .
  let ?s1 = "s\<lparr>l_held := {LkComplete ph}\<rparr>"
  let ?h = "h\<lparr>hd_complete_list := remove1 io ios, hd_complete_count := n - 1\<rparr>"
  let ?t = "s\<lparr>l_hdl := (l_hdl s)(ph \<mapsto> ?h)\<rparr>"
  have c: "count_wait ws ph ?s1 = Some (Some (ws, ?s1))" using h f(3) by (cases ws) simp_all
  have "asked hs ?s1 = asked hs s" by (simp add: asked_def fun_eq_iff)
  then have fc: "find_complete hs ios ?s1 = Some io"
    using find_complete_run [of ios ?s1 hs] f(1,2) by (force simp: finished_at_def)
  have u: "io_unlink io ?s1 = (s\<lparr>l_hdl := (l_hdl s)(ph \<mapsto> h\<lparr>hd_complete_list := remove1 io ios\<rparr>)\<rparr>)\<lparr>l_held := {LkComplete ph}\<rparr>"
    using unlink_finished [OF f(1) io h(1)] by (simp add: io_unlink_held)
  have fr: "usbi_free_io B io ?t = Some ((), ?t\<lparr>l_io := (l_io s)(io := None)\<rparr>)"
    using free_io_run [of ?t io x B] io_unlink_unlinked [OF taken_unlinked [OF f(1) io h(1)]] h by simp
  have "?t\<lparr>l_io := (l_io s)(io := None)\<rparr> = taken ph io s" using h by (simp add: taken_def)
  then show ?thesis using h c fc u fr
    by (subst wait_loop.simps)
      (simp add: lock_complete_def unlock_complete_def less_complete_def lock_def unlock_def held_same)
qed

text \<open>The first of the requests hs belongs to a device of the library handle at ph, and none has a callback.\<close>

definition waitable :: "addr list \<Rightarrow> addr \<Rightarrow> 'a lib_scheme \<Rightarrow> bool" where
  "waitable hs ph s \<longleftrightarrow> hs \<noteq> [] \<and> ph \<noteq> 0 \<and> hdevs_ok s \<and> (\<forall>p \<in> set hs. \<exists>r. l_req s p = Some r \<and> \<not> rq_cb r) \<and>
     (\<exists>p v. hdev_tab s (rq_dev (the (l_req s (hd hs)))) = Some p \<and> l_hdev s p = Some v \<and> hv_lib_hdl v = ph)"

lemma waitableD:
  assumes "waitable hs ph s"
  obtains r p v where "hs \<noteq> []" "ph \<noteq> 0" "l_req s (hd hs) = Some r" "usbi_find_dev_handle (rq_dev r) s = Some (p, s)"
    "p \<noteq> 0" "l_hdev s p = Some v" "hv_lib_hdl v = ph" "any_cb hs s = Some False" "l_held s = {}"
proof -
  from assms have "hs \<noteq> []" "hd hs \<in> set hs" by (simp_all add: waitable_def)
  with assms obtain r where r: "hs \<noteq> []" "l_req s (hd hs) = Some r" unfolding waitable_def by blast
  with assms obtain p v where v: "hdev_tab s (rq_dev r) = Some p" "l_hdev s p = Some v" "hv_lib_hdl v = ph" "hdevs_ok s"
    "ph \<noteq> 0" by (auto simp: waitable_def)
  have "usbi_find_dev_handle (rq_dev r) s = Some (p, s)" using find_hdev_run [OF v(4), of "rq_dev r"] v(1) by simp
  moreover have "p \<noteq> 0" using removed_hdev_ok(4) [OF v(4,1)] .
  moreover have "any_cb hs s = Some False" using assms by (intro any_cb_run) (simp add: waitable_def)
  moreover have "l_held s = {}" using v(4) by (simp add: hdevs_ok_def)
  ultimately show thesis using that r v by blast
qed

lemma openusb_wait_run: "waitable hs ph s \<Longrightarrow> openusb_wait B ws hs False s = wait_loop B hs ph ws s"
  by (erule waitableD) (simp add: openusb_wait_def Let_def)

text \<open>
  C25. openusb_wait and openusb_poll agree. When one of the requests they are given is on the
  list of finished requests and complete_count is not zero, both return the first of the
  list that was asked for, take exactly that one off the list, count it down and free its
  structure, and leave the same state; openusb_poll returns a null handle and changes
  nothing when none is there.
\<close>

theorem wait_poll_same:
  assumes w: "waitable hs ph s" and f: "finished_at ph ios n s"
  shows "(\<forall>io. find (asked hs s) ios = Some io \<and> n \<noteq> 0 \<longrightarrow>
       openusb_wait B ws hs False s = Some (Some ((0, Some (io_req (the (l_io s io)))), taken ph io s)) \<and>
       openusb_poll B hs False s = Some ((0, Some (io_req (the (l_io s io)))), taken ph io s)) \<and>
     (find (asked hs s) ios = None \<longrightarrow> openusb_poll B hs False s = Some ((0, Some 0), s))"
proof -
  obtain r p v where d: "hs \<noteq> []" "ph \<noteq> 0" "l_req s (hd hs) = Some r" "usbi_find_dev_handle (rq_dev r) s = Some (p, s)"
    "p \<noteq> 0" "l_hdev s p = Some v" "hv_lib_hdl v = ph" "any_cb hs s = Some False" "l_held s = {}"
    using waitableD [OF w] .
  let ?s1 = "s\<lparr>l_held := {LkComplete ph}\<rparr>"
  have a: "asked hs ?s1 = asked hs s" by (simp add: asked_def fun_eq_iff)
  have live: "\<forall>io \<in> set ios. l_io ?s1 io \<noteq> None" using f unfolding finished_at_def by fastforce
  from f obtain h0 where h0: "l_hdl s ph = Some h0" "hd_complete_list h0 = ios" unfolding finished_at_def by blast
  have poll: "openusb_poll B hs False s = Some ((0, Some (io_req (the (l_io s io)))), taken ph io s)"
    if io: "find (asked hs s) ios = Some io" for io
  proof -
    have i: "io \<in> set ios" using io by (auto simp: find_Some_iff)
    obtain h x where h: "l_hdl s ph = Some h" "hd_complete_list h = ios" "hd_complete_count h = n" "l_held s = {}"
      "l_io s io = Some x" "io_state x = IO_COMPLETED" "l_hdev s (io_dev x) \<noteq> None" "io \<noteq> 0" "0 \<notin> set ios"
      using finished_atD [OF f i] .
    have fc: "find_complete hs ios ?s1 = Some io" using find_complete_run [OF live, of hs] a io by simp
    let ?h = "h\<lparr>hd_complete_list := remove1 io ios, hd_complete_count := n - 1\<rparr>"
    let ?m = "s\<lparr>l_hdl := (l_hdl s)(ph \<mapsto> h\<lparr>hd_complete_count := n - 1\<rparr>)\<rparr>"
    let ?t = "s\<lparr>l_hdl := (l_hdl s)(ph \<mapsto> ?h)\<rparr>"
    have fm: "finished_at ph ios (n - 1) ?m" using f h(1-3) unfolding finished_at_def by auto
    have "io_unlink io ?m = s\<lparr>l_hdl := (l_hdl s)(ph \<mapsto> h\<lparr>hd_complete_count := n - 1, hd_complete_list := remove1 io ios\<rparr>)\<rparr>"
      using unlink_finished [OF fm i, of "h\<lparr>hd_complete_count := n - 1\<rparr>"] by simp
    then have u: "io_unlink io ?m = ?t" by (simp only: handle_update_order)
    have ul: "io_unlink io ?t = ?t" by (rule io_unlink_unlinked [OF taken_unlinked [OF f i h(1)]])
    have fr: "usbi_free_io B io (?t\<lparr>l_held := {LkComplete ph}\<rparr>) =
        Some ((), ?t\<lparr>l_held := {LkComplete ph}, l_io := (l_io s)(io := None)\<rparr>)"
      using free_io_locked [of "?t\<lparr>l_held := {LkComplete ph}\<rparr>" ph io x B] h by (simp add: io_unlink_held ul)
    have u1: "io_unlink io (?m\<lparr>l_held := {LkComplete ph}\<rparr>) = ?t\<lparr>l_held := {LkComplete ph}\<rparr>"
      by (simp only: io_unlink_held u)
    have e: "?s1\<lparr>l_hdl := (l_hdl s)(ph \<mapsto> h\<lparr>hd_complete_count := n - 1\<rparr>)\<rparr> = ?m\<lparr>l_held := {LkComplete ph}\<rparr>" by simp
    have tk: "?t\<lparr>l_io := (l_io s)(io := None)\<rparr> = taken ph io s" using h by (simp add: taken_def)
    define f1 where "f1 = ?t\<lparr>l_held := {LkComplete ph}, l_io := (l_io s)(io := None)\<rparr>"
    have un: "unlock_complete ph f1 = Some (taken ph io s)"
      using h(4) tk by (simp add: f1_def unlock_complete_def unlock_def) (simp add: held_same taken_def)
    have lk: "lock_hdev p s = Some (s\<lparr>l_held := {LkHdev p}\<rparr>)" "unlock_hdev p (s\<lparr>l_held := {LkHdev p}\<rparr>) = Some s"
      "lock_complete ph s = Some ?s1"
      using d(6,9) h(1) by (simp_all add: lock_hdev_def unlock_hdev_def lock_complete_def lock_def unlock_def held_same)
    have ls: "less_complete ph ?s1 = Some (?m\<lparr>l_held := {LkComplete ph}\<rparr>)" using h(1,3) by (simp add: less_complete_def)
    show ?thesis using d(1-7) h(1,2,5,8) fc
      by (simp add: openusb_poll_def Let_def lk ls u1 fr un flip: f1_def)
  qed
  have none: "openusb_poll B hs False s = Some ((0, Some 0), s)" if n: "find (asked hs s) ios = None"
  proof -
    have "find_complete hs ios ?s1 = Some 0" using find_complete_run [OF live, of hs] a n by simp
    then show ?thesis using d h0
      by (simp add: openusb_poll_def Let_def lock_hdev_def unlock_hdev_def lock_complete_def unlock_complete_def
          lock_def unlock_def held_same)
  qed
  show ?thesis using poll none wait_take [OF f, of hs] openusb_wait_run [OF w] by simp
qed

section \<open>Finished requests that are forgotten\<close>

definition counted :: "addr \<Rightarrow> int \<Rightarrow> 'a lib_scheme \<Rightarrow> 'a lib_scheme" where
  "counted ph k s = s\<lparr>l_hdl := (l_hdl s)(ph \<mapsto> (the (l_hdl s ph))\<lparr>hd_complete_count := k\<rparr>)\<rparr>"

lemma counted_finished: "finished_at ph ios n s \<Longrightarrow> finished_at ph ios k (counted ph k s)"
  by (auto simp: finished_at_def counted_def)

lemma counted_counted [simp]: "counted ph j (counted ph k s) = counted ph j s"
  by (simp add: counted_def)

lemma asked_counted [simp]: "asked hs (counted ph k s) = asked hs s"
  by (simp add: asked_def counted_def fun_eq_iff)

text \<open>A round of openusb_wait that finds none of its requests counts down all the same.\<close>

lemma wait_skip:
  assumes f: "finished_at ph ios n s" "find (asked hs s) ios = None" "n \<noteq> 0"
  shows "wait_loop B hs ph ws s = wait_loop B hs ph ws (counted ph (n - 1) s)"
proof -
  from f(1) obtain h where h: "l_hdl s ph = Some h" "hd_complete_list h = ios" "hd_complete_count h = n" "l_held s = {}"
    unfolding finished_at_def by blast
  let ?s1 = "s\<lparr>l_held := {LkComplete ph}\<rparr>"
  have c: "count_wait ws ph ?s1 = Some (Some (ws, ?s1))" using h f(3) by (cases ws) simp_all
  have live: "\<forall>io \<in> set ios. l_io ?s1 io \<noteq> None" using f(1) unfolding finished_at_def by fastforce
  have "asked hs ?s1 = asked hs s" by (simp add: asked_def fun_eq_iff)
  then have fc: "find_complete hs ios ?s1 = Some 0" using find_complete_run [OF live, of hs] f(2) by simp
  have lk: "lock_complete ph s = Some ?s1" using h by (simp add: lock_complete_def lock_def)
  have un: "do { s \<leftarrow> less_complete ph ?s1; unlock_complete ph s } = Some (counted ph (n - 1) s)"
    using h by (simp add: less_complete_def unlock_complete_def unlock_def counted_def held_same)
  then obtain s2 where s2: "less_complete ph ?s1 = Some s2" "unlock_complete ph s2 = Some (counted ph (n - 1) s)"
    by (cases "less_complete ph ?s1") simp_all
  show ?thesis by (subst wait_loop.simps) (simp add: lk c h(1,2) fc s2)
qed

lemma wait_skip_all:
  assumes "finished_at ph ios (int k) s" "find (asked hs s) ios = None"
  shows "wait_loop B hs ph ws s = wait_loop B hs ph ws (counted ph 0 s)"
  using assms
proof (induction k arbitrary: s)
  case 0
  then obtain h where h: "l_hdl s ph = Some h" "hd_complete_count h = 0" by (auto simp: finished_at_def)
  then have "h\<lparr>hd_complete_count := 0\<rparr> = h" by (cases h) simp
  then have "counted ph 0 s = s" using h(1) by (simp add: counted_def fun_upd_idem)
  then show ?case by simp
next
  case (Suc k)
  have "wait_loop B hs ph ws s = wait_loop B hs ph ws (counted ph (int (Suc k) - 1) s)"
    using wait_skip [OF Suc.prems] by simp
  also have "\<dots> = wait_loop B hs ph ws (counted ph 0 s)"
    using Suc.IH [of "counted ph (int k) s"] counted_finished [OF Suc.prems(1), of "int k"] Suc.prems(2) by simp
  finally show ?case .
qed

lemma wait_blocks: "finished_at ph ios 0 s \<Longrightarrow> wait_loop B hs ph [] s = Some None"
  by (subst wait_loop.simps) (auto simp: finished_at_def lock_complete_def lock_def)

lemma wait_wakes:
  assumes "finished_at ph ios 0 s" "finished_at ph ios' n (w s)" "n \<noteq> 0"
  shows "wait_loop B hs ph [w] s = wait_loop B hs ph [] (w s)"
proof -
  from assms(1) obtain h where h: "l_hdl s ph = Some h" "hd_complete_count h = 0" "l_held s = {}"
    unfolding finished_at_def by blast
  from assms(2) obtain h' where h': "l_hdl (w s) ph = Some h'" "hd_complete_count h' = n" "l_held (w s) = {}"
    unfolding finished_at_def by blast
  let ?t = "(w s)\<lparr>l_held := {LkComplete ph}\<rparr>"
  have lk: "lock_complete ph s = Some (s\<lparr>l_held := {LkComplete ph}\<rparr>)" "lock_complete ph (w s) = Some ?t"
    "unlock_complete ph (s\<lparr>l_held := {LkComplete ph}\<rparr>) = Some s"
    using h h' by (simp_all add: lock_complete_def unlock_complete_def lock_def unlock_def held_same)
  have "count_wait [w] ph (s\<lparr>l_held := {LkComplete ph}\<rparr>) = count_wait [] ph ?t"
    using h lk by simp
  then show ?thesis
    by (subst (1 2) wait_loop.simps) (simp only: lk bind.bind_lunit)
qed

text \<open>
  C34. openusb_wait forgets finished requests. While the requests of the list ios are
  finished, a call that waits for another request c counts complete_count down to zero
  before it sleeps, leaves them on the list, and returns c once that is completed. From then
  on complete_count is zero with all of ios still on the list, and a call of openusb_wait for
  any of them sleeps for ever unless yet another request is completed.
\<close>

theorem wait_forgets_finished:
  assumes w: "waitable hs ph s" and f: "finished_at ph ios (int (length ios)) s" and none: "find (asked hs s) ios = None"
    and c: "usbi_io_complete c st n (counted ph 0 s) = Some ((), t)" "finished_at ph (ios @ [c]) 1 t"
    and a: "asked hs t c" "find (asked hs t) ios = None" and w2: "waitable hs2 ph t"
  shows "openusb_wait B [\<lambda>u. snd (the (usbi_io_complete c st n u))] hs False s =
       Some (Some ((0, Some (io_req (the (l_io t c)))), taken ph c t)) \<and>
     finished_at ph ios 0 (taken ph c t) \<and> openusb_wait B [] hs2 False (taken ph c t) = Some None"
proof -
  let ?w = "\<lambda>u. snd (the (usbi_io_complete c st n u))"
  have f0: "finished_at ph ios 0 (counted ph 0 s)" using counted_finished [OF f] .
  have wt: "?w (counted ph 0 s) = t" using c(1) by simp
  have "find (asked hs t) (ios @ [c]) = Some c" using a by (simp add: find_append)
  then have take: "wait_loop B hs ph [] t = Some (Some ((0, Some (io_req (the (l_io t c)))), taken ph c t))"
    using wait_take [OF c(2)] by simp
  have "openusb_wait B [?w] hs False s = wait_loop B hs ph [?w] (counted ph 0 s)"
    using openusb_wait_run [OF w] wait_skip_all [OF f none] by simp
  also have "\<dots> = wait_loop B hs ph [] t" using wait_wakes [OF f0, of "ios @ [c]" 1 ?w B hs] c(2) wt by simp
  finally have first: "openusb_wait B [?w] hs False s = Some (Some ((0, Some (io_req (the (l_io t c)))), taken ph c t))"
    using take by simp
  from c(2) obtain h where h: "l_hdl t ph = Some h" "hd_complete_list h = ios @ [c]" "hd_complete_count h = 1"
    unfolding finished_at_def by blast
  have "c \<notin> set ios" using c(2) by (simp add: finished_at_def)
  then have g: "finished_at ph ios 0 (taken ph c t)"
    using c(2) h by (auto simp: finished_at_def taken_def remove1_append)
  have "waitable hs2 ph (taken ph c t)"
    using w2 by (auto simp: waitable_def taken_def hdevs_ok_def hdev_tab_def)
  then have "openusb_wait B [] hs2 False (taken ph c t) = Some None"
    using openusb_wait_run wait_blocks [OF g] by metis
  then show ?thesis using first g by blast
qed

end
