(* ===== verification/ReqCases.thy ===== *)
theory ReqCases
  imports ApiCases ApiXfer WaitPoll
begin

text \<open>
  The theorems on transfers and on waiting for requests, on the instance of LibCases: the
  device handle 1 (at 10) has claimed interface 0, and its bus takes bulk requests of at
  most 64 bytes.
\<close>

section \<open>Transfers\<close>

definition ex_bus64 :: usbi_bus where
  "ex_bus64 = (ex_bus 1 1 ''a'')\<lparr>bs_max_xfer_size := [0, 0, 0, 64, 0]\<rparr>"

definition ex_claimed :: usbi_dev_handle where
  "ex_claimed = ex_handle\<lparr>hv_claimed_ifs := (1, 0) # replicate 31 (-1, -1)\<rparr>"

definition ex_ready :: lib where
  "ex_ready = ex_open\<lparr>l_bus := [1 \<mapsto> ex_bus64], l_hdev := [10 \<mapsto> ex_claimed]\<rparr>"

lemma ex_ready_fields [simp]:
  "l_held ex_ready = {}" "l_bus ex_ready = [1 \<mapsto> ex_bus64]" "l_hdev ex_ready = [10 \<mapsto> ex_claimed]"
  "l_next ex_ready = 20" "l_hdl ex_ready = [5 \<mapsto> ex_hdl]" "l_io ex_ready = Map.empty" "l_sio ex_ready = Map.empty"
  "l_req ex_ready = [11 \<mapsto> ex_req]" "l_dev ex_ready = [6 \<mapsto> ex_dev 1, 9 \<mapsto> ex_dev 0]" "l_dev_handles ex_ready = [10]"
  by (simp_all add: ex_ready_def ex_open_def)

lemma ex_claimed_fields [simp]:
  "hv_handle ex_claimed = 1" "hv_io_head ex_claimed = []" "hv_idev ex_claimed = 6" "hv_lib_hdl ex_claimed = 5"
  "hv_claimed_ifs ex_claimed = (1, 0) # replicate 31 (-1, -1)"
  by (simp_all add: ex_claimed_def)

lemma ex_hdevs_ready: "hdevs_ok ex_ready" "hdev_tab ex_ready 1 = Some 10"
proof -
  have "l_inited ex_ready = 2" "l_cur_dev_handle ex_ready = 2" by (simp_all add: ex_ready_def)
  then show "hdevs_ok ex_ready" "hdev_tab ex_ready 1 = Some 10"
    by (simp_all add: hdevs_ok_def table_ok_def hdev_tab_def table_get_def)
qed

lemma ex_open_at: "open_at 1 10 ex_claimed (ex_dev 1) ex_bus64 ex_ready"
proof -
  have "dv_bus (ex_dev 1) = 1" "length (bs_max_xfer_size ex_bus64) = 5" "length (hd_timeout ex_hdl) = 5"
    "hd_debug_level ex_hdl = 0" by (simp_all add: ex_dev_def ex_bus64_def ex_hdl_def)
  then show ?thesis using ex_hdevs_ready by (simp add: open_at_def USBI_MAXINTERFACES_def)
qed

definition ex_junk :: junk where
  "ex_junk = \<lparr>jk_buf = replicate 8 0, jk_cfg_desc = zero_config_desc, jk_if_desc = zero_interface_desc,
     jk_ep_desc = zero_endpoint_desc\<rparr>"

lemma ex_permitted: "permitted ex_claimed (xfer_request 1 0 2 (Bulk ex_data))"
  "\<not> permitted ex_claimed (ex_req\<lparr>rq_interface := 1\<rparr>)"
  by (simp_all add: permitted_def xfer_request_def USBI_MAXINTERFACES_def USBI_IFC_CLAIMED_def ex_req_def)

lemma ex_short: "\<not> too_long (xfer_request 1 0 2 (Bulk ex_data)) ex_bus64" "\<not> too_long (ex_req\<lparr>rq_interface := 1\<rparr>) ex_bus64"
  by (simp_all add: too_long_def xfer_request_def xfer_type_def ex_bus64_def ex_data_def usb_types ex_req_def Let_def)

lemma xfer_end_to_end_witness:
  "openusb_bulk_xfer (\<lambda>_. True) ex_B False (\<lambda>t. map_option snd (usbi_io_complete 21 0 2 t)) ex_junk 1 0 2
     (Some ex_data) ex_ready = Some ((0, Some ex_result), ex_ready\<lparr>l_next := 23\<rparr>)"
proof -
  have "next_free ex_ready" by (auto simp: next_free_def unlinked_def ex_hdl_def)
  moreover have "req_ok (xfer_request 1 0 2 (Bulk ex_data))" by (simp add: req_ok_def xfer_request_def xfer_type_def)
  moreover have "set_result (xfer_type (Bulk ex_data)) 0 (ucast (2 :: u64)) (Bulk ex_data) = Some ex_result"
    using ex_set_result by (simp add: xfer_type_def ex_req_def)
  moreover have "bo_io_pattern (ex_B n) = PATTERN_ASYNC" "do_xfer_aio (ex_B n) ty p io t = Some (0, t)" for n ty p io t
    by (simp_all add: ex_B_def ex_ops_def)
  ultimately show ?thesis
    using xfer_end_to_end [OF ex_open_at, of "\<lambda>_. True" 0 2 "Bulk ex_data" ex_B
        "\<lambda>t. map_option snd (usbi_io_complete 21 0 2 t)" 0 2 ex_result False ex_junk] ex_permitted(1) ex_short(1)
    by (simp add: public_xfer_def)
qed

lemma xfer_refused_witness:
  "let s = ex_ready\<lparr>l_req := [11 \<mapsto> ex_req\<lparr>rq_interface := 1\<rparr>]\<rparr>
   in openusb_xfer_wait (\<lambda>_. True) ex_B False Some ex_junk 11 s = Some (OPENUSB_BADARG, s) \<and>
      openusb_xfer_aio (\<lambda>_. True) ex_B False 0 Some ex_junk 11 s = Some (OPENUSB_INVALID_HANDLE, s)"
proof -
  let ?s = "ex_ready\<lparr>l_req := [11 \<mapsto> ex_req\<lparr>rq_interface := 1\<rparr>]\<rparr>"
  have o: "open_at 1 10 ex_claimed (ex_dev 1) ex_bus64 ?s"
    by (rule open_at_cong [OF _ _ _ _ _ _ _ _ _ ex_open_at]) simp_all
  then have "hdevs_ok ?s" by (simp add: open_at_def)
  moreover have "req_ok (ex_req\<lparr>rq_interface := 1\<rparr>)" by (simp add: req_ok_def ex_req_def)
  moreover have "rq_dev (ex_req\<lparr>rq_interface := 1\<rparr>) = 1" by (simp add: ex_req_def)
  ultimately show ?thesis
    using xfer_refused [of ?s 11 "ex_req\<lparr>rq_interface := 1\<rparr>" "\<lambda>_. True" ex_B False Some ex_junk 0 10 ex_claimed
        "ex_dev 1" ex_bus64] o ex_permitted(2) ex_short(2) by (simp add: Let_def)
qed

section \<open>Waiting\<close>

text \<open>The request at 11 is finished (its structure is at 12), the one at 13 (at 14) in progress.\<close>

definition ex_fin :: lib where
  "ex_fin = ex_ready\<lparr>l_hdl := [5 \<mapsto> ex_hdl\<lparr>hd_complete_list := [12], hd_complete_count := 1\<rparr>],
     l_io := [12 \<mapsto> ex_io\<lparr>io_state := IO_COMPLETED\<rparr>, 14 \<mapsto> ex_io\<lparr>io_req := 13\<rparr>],
     l_hdev := [10 \<mapsto> ex_claimed\<lparr>hv_io_head := [14]\<rparr>], l_req := [11 \<mapsto> ex_req, 13 \<mapsto> ex_req]\<rparr>"

lemma ex_fin_fields [simp]:
  "l_held ex_fin = {}" "l_hdl ex_fin = [5 \<mapsto> ex_hdl\<lparr>hd_complete_list := [12], hd_complete_count := 1\<rparr>]"
  "l_io ex_fin = [12 \<mapsto> ex_io\<lparr>io_state := IO_COMPLETED\<rparr>, 14 \<mapsto> ex_io\<lparr>io_req := 13\<rparr>]"
  "l_hdev ex_fin = [10 \<mapsto> ex_claimed\<lparr>hv_io_head := [14]\<rparr>]" "l_req ex_fin = [11 \<mapsto> ex_req, 13 \<mapsto> ex_req]"
  "l_dev_handles ex_fin = [10]"
  by (simp_all add: ex_fin_def)

lemma ex_finished: "finished_at 5 [12] 1 ex_fin"
  by (simp add: finished_at_def)

lemma ex_hdevs_fin: "hdevs_ok ex_fin" "hdev_tab ex_fin 1 = Some 10"
proof -
  have "l_inited ex_fin = 2" "l_cur_dev_handle ex_fin = 2" "l_next ex_fin = 20"
    by (simp_all add: ex_fin_def ex_ready_def)
  then show "hdevs_ok ex_fin" "hdev_tab ex_fin 1 = Some 10"
    by (simp_all add: hdevs_ok_def table_ok_def hdev_tab_def table_get_def)
qed

lemma ex_waitable: "waitable [11] 5 ex_fin" "waitable [13] 5 ex_fin"
  using ex_hdevs_fin by (simp_all add: waitable_def ex_req_def)

lemma wait_poll_same_witness:
  "openusb_wait ex_B [] [11] False ex_fin = Some (Some ((0, Some 11), taken 5 12 ex_fin)) \<and>
   openusb_poll ex_B [11] False ex_fin = Some ((0, Some 11), taken 5 12 ex_fin) \<and>
   openusb_poll ex_B [13] False ex_fin = Some ((0, Some 0), ex_fin)"
  using wait_poll_same [OF ex_waitable(1) ex_finished, of ex_B "[]"] wait_poll_same [OF ex_waitable(2) ex_finished, of ex_B "[]"]
  by (simp add: asked_def)

definition ex_fin2 :: lib where
  "ex_fin2 = snd (the (usbi_io_complete 14 0 2 (counted 5 0 ex_fin)))"

lemma ex_fin2: "usbi_io_complete 14 0 2 (counted 5 0 ex_fin) = Some ((), ex_fin2)"
  and ex_fin2_fields: "l_held ex_fin2 = {}" "l_dev_handles ex_fin2 = [10]" "l_inited ex_fin2 = 2"
    "l_cur_dev_handle ex_fin2 = 2" "l_next ex_fin2 = 20"
    "l_io ex_fin2 = (l_io ex_fin)(14 \<mapsto> ex_io\<lparr>io_req := 13, io_state := IO_COMPLETED\<rparr>)"
    "l_hdl ex_fin2 = [5 \<mapsto> ex_hdl\<lparr>hd_complete_list := [12, 14], hd_complete_count := 1\<rparr>]"
    "l_hdev ex_fin2 = [10 \<mapsto> ex_claimed\<lparr>hv_io_head := []\<rparr>]"
    "l_req ex_fin2 = (l_req ex_fin)(13 \<mapsto> ex_req\<lparr>rq_req := ex_result\<rparr>)"
proof -
  let ?u = "counted 5 0 ex_fin"
  have u: "l_held ?u = {}" "l_io ?u = l_io ex_fin" "l_hdev ?u = l_hdev ex_fin" "l_req ?u = l_req ex_fin"
    "l_hdl ?u = [5 \<mapsto> ex_hdl\<lparr>hd_complete_list := [12], hd_complete_count := 0\<rparr>]" "l_dev_handles ?u = [10]"
    "l_inited ?u = 2" "l_cur_dev_handle ?u = 2" "l_next ?u = 20"
    by (simp_all add: counted_def) (simp_all add: ex_fin_def ex_ready_def)
  have r: "usbi_io_complete 14 0 2 ?u = Some ((), (delivered 14 10 ex_result ?u)\<lparr>
     l_io := (l_io ?u)(14 \<mapsto> ex_io\<lparr>io_req := 13, io_state := IO_COMPLETED\<rparr>),
     l_req_cbs := l_req_cbs ?u @ (if rq_cb ex_req then [13] else [])\<rparr>)"
    using complete_async_run [of ?u 14 "ex_io\<lparr>io_req := 13\<rparr>" "ex_claimed\<lparr>hv_io_head := [14]\<rparr>"
        "ex_hdl\<lparr>hd_complete_list := [12], hd_complete_count := 0\<rparr>" ex_req 0 2 ex_result] u ex_set_result by simp
  then show "usbi_io_complete 14 0 2 ?u = Some ((), ex_fin2)" by (simp add: ex_fin2_def)
  have e: "ex_fin2 = (delivered 14 10 ex_result ?u)\<lparr>
     l_io := (l_io ?u)(14 \<mapsto> ex_io\<lparr>io_req := 13, io_state := IO_COMPLETED\<rparr>),
     l_req_cbs := l_req_cbs ?u @ (if rq_cb ex_req then [13] else [])\<rparr>" using r by (simp add: ex_fin2_def)
  have f: "l_held ex_fin2 = l_held ?u" "l_dev_handles ex_fin2 = l_dev_handles ?u" "l_inited ex_fin2 = l_inited ?u"
    "l_cur_dev_handle ex_fin2 = l_cur_dev_handle ?u" "l_next ex_fin2 = l_next ?u"
    "l_io ex_fin2 = (l_io ?u)(14 \<mapsto> ex_io\<lparr>io_req := 13, io_state := IO_COMPLETED\<rparr>)"
    "l_hdl ex_fin2 = l_hdl (delivered 14 10 ex_result ?u)"
    "l_hdev ex_fin2 = l_hdev (delivered 14 10 ex_result ?u)"
    "l_req ex_fin2 = l_req (delivered 14 10 ex_result ?u)"
    unfolding e by (simp_all add: delivered_def Let_def io_unlink_def)
  show "l_held ex_fin2 = {}" "l_dev_handles ex_fin2 = [10]" "l_inited ex_fin2 = 2"
    "l_cur_dev_handle ex_fin2 = 2" "l_next ex_fin2 = 20"
    "l_io ex_fin2 = (l_io ex_fin)(14 \<mapsto> ex_io\<lparr>io_req := 13, io_state := IO_COMPLETED\<rparr>)"
    using f(1-6) u by simp_all
  show "l_hdl ex_fin2 = [5 \<mapsto> ex_hdl\<lparr>hd_complete_list := [12, 14], hd_complete_count := 1\<rparr>]"
    "l_hdev ex_fin2 = [10 \<mapsto> ex_claimed\<lparr>hv_io_head := []\<rparr>]"
    "l_req ex_fin2 = (l_req ex_fin)(13 \<mapsto> ex_req\<lparr>rq_req := ex_result\<rparr>)"
    unfolding f(7-9) by (rule ext, simp add: delivered_def Let_def io_unlink_def ls_del_def u)+
qed

lemma wait_forgets_finished_witness:
  "openusb_wait ex_B [\<lambda>u. snd (the (usbi_io_complete 14 0 2 u))] [13] False ex_fin =
     Some (Some ((0, Some 13), taken 5 14 ex_fin2)) \<and>
   openusb_wait ex_B [] [11] False (taken 5 14 ex_fin2) = Some None"
proof -
  have f: "finished_at 5 ([12] @ [14]) 1 ex_fin2"
    by (simp add: finished_at_def ex_fin2_fields)
  have w: "waitable [11] 5 ex_fin2"
    by (simp add: waitable_def hdevs_ok_def hdev_tab_def table_ok_def table_get_def ex_fin2_fields) (simp add: ex_req_def)
  have a: "asked [13] ex_fin2 14" "find (asked [13] ex_fin2) [12] = None" "find (asked [13] ex_fin) [12] = None"
    "io_req (the (l_io ex_fin2 14)) = 13" by (simp_all add: asked_def ex_fin2_fields)
  show ?thesis
    using wait_forgets_finished [OF ex_waitable(2) _ a(3) ex_fin2 f a(1,2) w, of ex_B] ex_finished a(4) by simp
qed

end
