(* ===== verification/DevStrings.thy ===== *)
theory DevStrings
  imports ApiXfer DescFetch
begin

text \<open>
  The rest of devices.c: string descriptors, the data of a device, and the search for a
  configuration by value or index. char is signed, as on the platforms of the library. The
  contents of uninitialised locals are arguments.
\<close>

section \<open>Strings\<close>

definition EIO :: int where "EIO = 5"
definition EFBIG :: int where "EFBIG = 27"

definition USB_REQ_DEV_TO_HOST :: u8 where "USB_REQ_DEV_TO_HOST = 0x80"

text \<open>The result with the contents of the buffer afterwards; a null buffer is None.\<close>

definition usbi_get_string :: "(addr \<Rightarrow> bool) \<Rightarrow> (nat \<Rightarrow> 'a lib_scheme backend_ops) \<Rightarrow> bool \<Rightarrow>
    ('a lib_scheme \<Rightarrow> 'a lib_scheme option) \<Rightarrow> junk \<Rightarrow> u64 \<Rightarrow> int \<Rightarrow> int \<Rightarrow> u8 list option \<Rightarrow> nat \<Rightarrow>
    ('a lib_scheme, int \<times> u8 list) op" where
  "usbi_get_string av B be others j dev index langid buf buflen s =
     (case buf of None \<Rightarrow> Some ((OPENUSB_BADARG, []), s)
      | Some data \<Rightarrow>
     (if buflen = 0 then Some ((OPENUSB_BADARG, data), s)
      else do {
        ((ret, q), s) \<leftarrow> openusb_ctrl_xfer av B be others j dev 0 0 (Some \<lparr>ct_bmRequestType = USB_REQ_DEV_TO_HOST,
           ct_bRequest = USB_REQ_GET_DESCRIPTOR,
           ct_wValue = of_int (int (unat USB_DESC_TYPE_STRING) * 256 + index), ct_wIndex = of_int langid,
           ct_payload = data, ct_length = of_nat buflen, ct_timeout = 100, ct_status = 0, ct_transferred = 0\<rparr>) s;
        (case q of Some (Ctrl c) \<Rightarrow>
           Some (if ret = 0 then (sint (ct_transferred c), ct_payload c) else (-1, ct_payload c), s)
         | _ \<Rightarrow> None)
      }))"

text \<open>The loop over the characters: n is buflen, lim the char tbuf[0], read as a number.\<close>

function copy_chars :: "u8 list \<Rightarrow> int \<Rightarrow> nat \<Rightarrow> nat \<Rightarrow> nat \<Rightarrow> u8 list \<Rightarrow> (nat \<times> u8 list) option" where
  "copy_chars tbuf lim n si di buf =
     (if int si < lim then
        (if di \<ge> n - 1 then Some (di, buf)
         else do {
           hi \<leftarrow> rd tbuf (si + 1);
           lo \<leftarrow> rd tbuf si;
           buf \<leftarrow> wr buf di (if hi \<noteq> 0 then 63 else lo);
           copy_chars tbuf lim n (si + 2) (di + 1) buf
         })
      else Some (di, buf))"
  by pat_completeness auto
termination by (relation "measure (\<lambda>(tbuf, lim, n, si, di, buf). nat (lim - int si))") auto

definition schar :: "u8 \<Rightarrow> int" where "schar b = sint b"

text \<open>What is done with the string descriptor in tbuf.\<close>

definition take_string :: "int \<Rightarrow> u8 list \<Rightarrow> u8 list \<Rightarrow> nat \<Rightarrow> (int \<times> u8 list) option" where
  "take_string ret tbuf buf buflen = do {
     b1 \<leftarrow> rd tbuf 1;
     b0 \<leftarrow> rd tbuf 0;
     (if schar b1 \<noteq> int (unat USB_DESC_TYPE_STRING) then Some (- EIO, buf)
      else if schar b0 > ret then Some (- EFBIG, buf)
      else do {
        (di, buf) \<leftarrow> copy_chars tbuf (schar b0) buflen 2 0 buf;
        buf \<leftarrow> wr buf di 0;
        Some (int di, buf)
      })
   }"

text \<open>The language of a string descriptor zero.\<close>

definition string_langid :: "int \<Rightarrow> u8 list \<Rightarrow> int option" where
  "string_langid ret tbuf =
     (if ret < 4 then Some 0x409
      else do { b2 \<leftarrow> rd tbuf 2; b3 \<leftarrow> rd tbuf 3; Some (or (schar b2) (schar b3 * 256)) })"

definition usbi_get_string_simple :: "(addr \<Rightarrow> bool) \<Rightarrow> (nat \<Rightarrow> 'a lib_scheme backend_ops) \<Rightarrow> bool \<Rightarrow>
    ('a lib_scheme \<Rightarrow> 'a lib_scheme option) \<Rightarrow> junk \<Rightarrow> u8 list \<Rightarrow> u64 \<Rightarrow> int \<Rightarrow> u8 list option \<Rightarrow> nat \<Rightarrow>
    ('a lib_scheme, int \<times> u8 list) op" where
  "usbi_get_string_simple av B be others j tbuf dev index buf buflen s =
     (case buf of None \<Rightarrow> Some ((OPENUSB_BADARG, []), s)
      | Some data \<Rightarrow>
     (if index = 0 \<or> buflen = 0 then Some ((OPENUSB_BADARG, data), s)
      else do {
        data \<leftarrow> wrn data 0 (replicate buflen 0);
        ((ret, tbuf), s) \<leftarrow> usbi_get_string av B be others j dev 0 0 (Some tbuf) 256 s;
        langid \<leftarrow> string_langid ret tbuf;
        ((ret, tbuf), s) \<leftarrow> usbi_get_string av B be others j dev index langid (Some tbuf) 256 s;
        (if ret < 0 then Some ((ret, data), s)
         else do { r \<leftarrow> take_string ret tbuf data buflen; Some (r, s) })
      }))"

section \<open>The data of a device\<close>

text \<open>openusb_dev_data_t; the pointers to strings and descriptors are None when null.\<close>

record dev_data =
  dt_busid :: u64
  dt_devid :: u64
  dt_bus_address :: u8
  dt_pdevid :: u64
  dt_pport :: u8
  dt_nports :: u8
  dt_sys_path :: "string option"
  dt_bus_path :: "string option"
  dt_dev_desc :: usb_device_desc
  dt_cfg_desc :: usb_config_desc
  dt_raw_cfg_desc :: "u8 list option"
  dt_manufacturer :: "u8 list option"
  dt_product :: "u8 list option"
  dt_serialnumber :: "u8 list option"
  dt_ctrl_max_xfer_size :: u32
  dt_intr_max_xfer_size :: u32
  dt_bulk_max_xfer_size :: u32
  dt_isoc_max_xfer_size :: u32

text \<open>
  One of the three strings: strings is the buffer on the stack, whose first byte gives the
  size; calloc fails for the size that a negative char becomes. Inl is the failure of calloc.
\<close>

definition data_string :: "(addr \<Rightarrow> bool) \<Rightarrow> (nat \<Rightarrow> 'a lib_scheme backend_ops) \<Rightarrow> bool \<Rightarrow>
    ('a lib_scheme \<Rightarrow> 'a lib_scheme option) \<Rightarrow> junk \<Rightarrow> u64 \<Rightarrow> u8 \<Rightarrow> u8 list \<Rightarrow>
    ('a lib_scheme, u8 list \<times> (unit + u8 list option)) op" where
  "data_string av B be others j hdev i strings s =
     (if i = 0 then Some ((strings, Inr None), s)
      else do {
        ((ret, strings), s) \<leftarrow> usbi_get_string av B be others j hdev (int (unat i)) 0x409 (Some strings) 256 s;
        (if ret < 0 then Some ((strings, Inr None), s)
         else do {
           b0 \<leftarrow> rd strings 0;
           let (p, s) = (if schar b0 < 0 then (0, s) else fresh av s);
           (if p = 0 then Some ((strings, Inl ()), s)
            else do {
              data \<leftarrow> rdn strings 0 (unat b0);
              Some ((strings, Inr (Some data)), s)
            })
         })
      })"

text \<open>The walk over the open devices for one with this device.\<close>

fun open_handle_walk :: "u64 \<Rightarrow> addr list \<Rightarrow> ('a lib_scheme, addr) op" where
  "open_handle_walk devid [] s = Some (0, s)"
| "open_handle_walk devid (p # ps) s = do {
     h \<leftarrow> l_hdev s p;
     (if hv_idev h = 0 then open_handle_walk devid ps s
      else do {
        d \<leftarrow> l_dev s (hv_idev h);
        (if dv_devid d = devid then Some (p, s) else open_handle_walk devid ps s)
      })
   }"

text \<open>strdup.\<close>

definition dup_string :: "(addr \<Rightarrow> bool) \<Rightarrow> string \<Rightarrow> 'a lib_scheme \<Rightarrow> string option \<times> 'a lib_scheme" where
  "dup_string av str s = (let (p, s) = fresh av s in (if p = 0 then None else Some str, s))"

text \<open>
  The three strings, of the handle hdev of the device: Inl when an allocation fails. The
  handle is closed at the end, and on failure, when it was opened for this (dev_found 0).
\<close>

definition data_strings :: "(addr \<Rightarrow> bool) \<Rightarrow> (nat \<Rightarrow> 'a lib_scheme backend_ops) \<Rightarrow> bool \<Rightarrow>
    ('a lib_scheme \<Rightarrow> 'a lib_scheme option) \<Rightarrow> junk \<Rightarrow> addr \<Rightarrow> u64 \<Rightarrow> u8 list \<Rightarrow> dev_data \<Rightarrow>
    ('a lib_scheme, unit + dev_data) op" where
  "data_strings av B be others j dev_found hdev strings pdata s = do {
     ((strings, m), s) \<leftarrow> data_string av B be others j hdev (dd_iManufacturer (dt_dev_desc pdata)) strings s;
     (case m of Inl _ \<Rightarrow> do { (_, s) \<leftarrow> (if dev_found = 0 then openusb_close_device B hdev s else Some (0, s)); Some (Inl (), s) }
      | Inr m \<Rightarrow> do {
     ((strings, p), s) \<leftarrow> data_string av B be others j hdev (dd_iProduct (dt_dev_desc pdata)) strings s;
     (case p of Inl _ \<Rightarrow> do { (_, s) \<leftarrow> (if dev_found = 0 then openusb_close_device B hdev s else Some (0, s)); Some (Inl (), s) }
      | Inr p \<Rightarrow> do {
     ((strings, n), s) \<leftarrow> data_string av B be others j hdev (dd_iSerialNumber (dt_dev_desc pdata)) strings s;
     (_, s) \<leftarrow> (if dev_found = 0 then openusb_close_device B hdev s else Some (0, s));
     (case n of Inl _ \<Rightarrow> Some (Inl (), s)
      | Inr n \<Rightarrow> Some (Inr (pdata\<lparr>dt_manufacturer := m, dt_product := p, dt_serialnumber := n\<rparr>), s))
     }) }) }"

text \<open>
  From the label get_raw on. hdev is the local variable: 0 after the strings, junk when
  control comes here without them.
\<close>

definition data_raw :: "(addr \<Rightarrow> bool) \<Rightarrow> (nat \<Rightarrow> 'a lib_scheme backend_ops) \<Rightarrow> bool \<Rightarrow> u64 \<Rightarrow> u64 \<Rightarrow> addr \<Rightarrow> addr \<Rightarrow>
    u64 \<Rightarrow> dev_data \<Rightarrow> ('a lib_scheme, int \<times> dev_data option) op" where
  "data_raw av B be handle devid pdev dev_found hdev pdata s = do {
     let fail = (\<lambda>ret s. do {
           (_, s) \<leftarrow> (if dev_found = 0 then openusb_close_device B hdev s else Some (0, s));
           Some ((ret, None), s)
         });
     d \<leftarrow> l_dev s pdev;
     ((ret, descdata, datalen), s) \<leftarrow> openusb_get_raw_desc B handle devid USB_DESC_TYPE_CONFIG
        (of_int (dv_cur_config_index d)) 0 s;
     (if ret \<noteq> 0 then fail ret s
      else do {
        d \<leftarrow> l_dev s pdev;
        ((ret, cfg_desc), s) \<leftarrow> openusb_parse_config_desc B be handle devid (Some descdata) datalen
           (dv_cur_config_value d) (dt_cfg_desc pdata) s;
        (if ret \<noteq> 0 then fail ret s
         else do {
           let (raw, s) = fresh av s;
           (if raw = 0 then fail OPENUSB_NO_RESOURCES s
            else do {
              data \<leftarrow> rdn descdata 0 (unat datalen);
              d \<leftarrow> l_dev s pdev;
              let (bus_path, s) = dup_string av (dv_bus_path d) s;
              let (sys_path, s) = dup_string av (dv_sys_path d) s;
              pdevid \<leftarrow> (if dv_parent d = 0 then Some 0 else map_option dv_devid (l_dev s (dv_parent d)));
              Some ((0, Some (pdata\<lparr>dt_devid := devid, dt_pdevid := pdevid, dt_pport := dv_pport d,
                dt_nports := dv_nports d, dt_sys_path := sys_path, dt_bus_path := bus_path,
                dt_cfg_desc := cfg_desc, dt_raw_cfg_desc := Some data\<rparr>)), s)
            })
         })
      })
   }"

definition zero_device_desc :: usb_device_desc where
  "zero_device_desc = \<lparr>dd_bLength = 0, dd_bDescriptorType = 0, dd_bcdUSB = 0, dd_bDeviceClass = 0,
     dd_bDeviceSubClass = 0, dd_bDeviceProtocol = 0, dd_bMaxPacketSize0 = 0, dd_idVendor = 0,
     dd_idProduct = 0, dd_bcdDevice = 0, dd_iManufacturer = 0, dd_iProduct = 0, dd_iSerialNumber = 0,
     dd_bNumConfigurations = 0\<rparr>"

definition zero_data :: dev_data where
  "zero_data = \<lparr>dt_busid = 0, dt_devid = 0, dt_bus_address = 0, dt_pdevid = 0, dt_pport = 0, dt_nports = 0,
     dt_sys_path = None, dt_bus_path = None, dt_dev_desc = zero_device_desc, dt_cfg_desc = zero_config_desc,
     dt_raw_cfg_desc = None, dt_manufacturer = None, dt_product = None, dt_serialnumber = None,
     dt_ctrl_max_xfer_size = 0, dt_intr_max_xfer_size = 0, dt_bulk_max_xfer_size = 0, dt_isoc_max_xfer_size = 0\<rparr>"

definition openusb_get_device_data :: "env \<Rightarrow> int \<Rightarrow> (nat \<Rightarrow> 'a lib_scheme backend_ops) \<Rightarrow> bool \<Rightarrow>
    ('a lib_scheme \<Rightarrow> 'a lib_scheme option) \<Rightarrow> junk \<Rightarrow> u8 list \<Rightarrow> u64 \<Rightarrow> u64 \<Rightarrow> u64 \<Rightarrow>
    ('a lib_scheme, int \<times> dev_data option) op" where
  "openusb_get_device_data e pipe B be others j strings hdev0 handle devid s = do {
     (plib, s) \<leftarrow> usbi_find_handle handle s;
     (if plib = 0 then Some ((OPENUSB_BADARG, None), s)
      else do {
     (pdev, s) \<leftarrow> usbi_find_device_by_id devid s;
     (if pdev = 0 then Some ((OPENUSB_BADARG, None), s)
      else do {
     let (p, s) = fresh (en_alloc e) s;
     (if p = 0 then Some ((OPENUSB_NO_RESOURCES, None), s)
      else do {
     d \<leftarrow> l_dev s pdev;
     s \<leftarrow> lock (LkBus (dv_bus d)) s;
     b \<leftarrow> l_bus s (dv_bus d);
     ctrl \<leftarrow> rd (bs_max_xfer_size b) (nat USB_TYPE_CONTROL);
     intr \<leftarrow> rd (bs_max_xfer_size b) (nat USB_TYPE_INTERRUPT);
     bulk \<leftarrow> rd (bs_max_xfer_size b) (nat USB_TYPE_BULK);
     isoc \<leftarrow> rd (bs_max_xfer_size b) (nat USB_TYPE_ISOCHRONOUS);
     s \<leftarrow> unlock (LkBus (dv_bus d)) s;
     let pdata = zero_data\<lparr>dt_busid := bs_busid b, dt_bus_address := ucast (bs_busnum b),
        dt_ctrl_max_xfer_size := ctrl, dt_intr_max_xfer_size := intr, dt_bulk_max_xfer_size := bulk,
        dt_isoc_max_xfer_size := isoc\<rparr>;
     ((ret, dd), s) \<leftarrow> openusb_parse_device_desc B be handle devid None 0 (dt_dev_desc pdata) s;
     let pdata = pdata\<lparr>dt_dev_desc := dd\<rparr>;
     (if ret \<noteq> 0 then Some ((ret, None), s)
      else if dd_iManufacturer dd = 0 \<and> dd_iProduct dd = 0 \<and> dd_iSerialNumber dd = 0
      then data_raw (en_alloc e) B be handle devid pdev 0 hdev0 pdata s
      else do {
     (dev_found, s) \<leftarrow> with_lock LkDevHandles (\<lambda>s. open_handle_walk devid (l_dev_handles s) s) s;
     ((ret, hdev), s) \<leftarrow> (if dev_found = 0 then openusb_open_device e pipe B handle devid 0 False s
        else do { h \<leftarrow> l_hdev s dev_found; Some ((0, hv_handle h), s) });
     (if ret = OPENUSB_NOT_SUPPORTED then data_raw (en_alloc e) B be handle devid pdev 0 hdev0 pdata s
      else if ret \<noteq> 0 then Some ((OPENUSB_PLATFORM_FAILURE, None), s)
      else do {
        (r, s) \<leftarrow> data_strings (en_alloc e) B be others j dev_found hdev strings pdata s;
        (case r of Inl _ \<Rightarrow> Some ((OPENUSB_NO_RESOURCES, None), s)
         | Inr pdata \<Rightarrow> data_raw (en_alloc e) B be handle devid pdev dev_found (if dev_found = 0 then 0 else hdev) pdata s)
      })
     }) }) }) }) }"

section \<open>Configurations by index and by value\<close>

text \<open>
  usbi_fetch_and_parse_descriptors on an open device: its control transfers go through
  openusb_ctrl_xfer, and its result becomes the descriptors of the device. The transfers do
  not look at the descriptors kept with the device. None inside is a call that does not return.
\<close>

definition xfer_of :: "(addr \<Rightarrow> bool) \<Rightarrow> (nat \<Rightarrow> 'a lib_scheme backend_ops) \<Rightarrow> bool \<Rightarrow>
    ('a lib_scheme \<Rightarrow> 'a lib_scheme option) \<Rightarrow> junk \<Rightarrow> u64 \<Rightarrow> 'a lib_scheme ctrl_xfer" where
  "xfer_of av B be others j dev s c = do {
     ((ret, q), s) \<leftarrow> openusb_ctrl_xfer av B be others j dev 0 0 (Some c) s;
     (case q of Some (Ctrl c) \<Rightarrow> Some (ret, c, s) | _ \<Rightarrow> None)
   }"

definition fetch_descriptors :: "(addr \<Rightarrow> bool) \<Rightarrow> (nat \<Rightarrow> bool) \<Rightarrow> (nat \<Rightarrow> 'a lib_scheme backend_ops) \<Rightarrow> bool \<Rightarrow>
    ('a lib_scheme \<Rightarrow> 'a lib_scheme option) \<Rightarrow> junk \<Rightarrow> locals \<Rightarrow> addr \<Rightarrow> ('a lib_scheme, int) op" where
  "fetch_descriptors av mem B be others j lo hdev s = do {
     h \<leftarrow> l_hdev s hdev;
     d \<leftarrow> l_dev s (hv_idev h);
     r \<leftarrow> usbi_fetch_and_parse_descriptors mem be lo (xfer_of av B be others j (hv_handle h)) (dv_desc d) s;
     (ret, desc, s) \<leftarrow> r;
     d \<leftarrow> l_dev s (hv_idev h);
     Some (ret, s\<lparr>l_dev := (l_dev s)(hv_idev h \<mapsto> d\<lparr>dv_desc := desc\<rparr>)\<rparr>)
   }"

definition usbi_get_cfg_value_by_index :: "(addr \<Rightarrow> bool) \<Rightarrow> (nat \<Rightarrow> bool) \<Rightarrow> (nat \<Rightarrow> 'a lib_scheme backend_ops) \<Rightarrow> bool \<Rightarrow>
    ('a lib_scheme \<Rightarrow> 'a lib_scheme option) \<Rightarrow> junk \<Rightarrow> locals \<Rightarrow> addr \<Rightarrow> int \<Rightarrow> ('a lib_scheme, u8) op" where
  "usbi_get_cfg_value_by_index av mem B be others j lo hdev cfgndx s =
     (if hdev = 0 \<or> cfgndx < 0 then Some (0, s)
      else do {
        (ret, s) \<leftarrow> fetch_descriptors av mem B be others j lo hdev s;
        (if ret \<noteq> 0 then Some (0, s)
         else do {
           h \<leftarrow> l_hdev s hdev;
           d \<leftarrow> l_dev s (hv_idev h);
           (if ds_num_configs (dv_desc d) > nat cfgndx then do {
              c \<leftarrow> pidx (ds_configs (dv_desc d)) (nat cfgndx);
              Some (cd_bConfigurationValue (cf_desc c), s)
            }
            else Some (0, s))
         })
      })"

text \<open>The loop over the configurations from index i; n are left.\<close>

fun cfg_index_loop :: "u8 \<Rightarrow> usbi_config list cptr \<Rightarrow> nat \<Rightarrow> nat \<Rightarrow> int option" where
  "cfg_index_loop cfgval cs 0 i = Some (-1)"
| "cfg_index_loop cfgval cs (Suc n) i = do {
     c \<leftarrow> pidx cs i;
     (if cd_bConfigurationValue (cf_desc c) = cfgval then Some (int i) else cfg_index_loop cfgval cs n (i + 1))
   }"

definition usbi_get_cfg_index_by_value :: "(addr \<Rightarrow> bool) \<Rightarrow> (nat \<Rightarrow> bool) \<Rightarrow> (nat \<Rightarrow> 'a lib_scheme backend_ops) \<Rightarrow> bool \<Rightarrow>
    ('a lib_scheme \<Rightarrow> 'a lib_scheme option) \<Rightarrow> junk \<Rightarrow> locals \<Rightarrow> addr \<Rightarrow> u8 \<Rightarrow> ('a lib_scheme, int) op" where
  "usbi_get_cfg_index_by_value av mem B be others j lo hdev cfgval s =
     (if hdev = 0 then Some (-1, s)
      else do {
        (ret, s) \<leftarrow> fetch_descriptors av mem B be others j lo hdev s;
        (if ret \<noteq> 0 then Some (-1, s)
         else do {
           h \<leftarrow> l_hdev s hdev;
           d \<leftarrow> l_dev s (hv_idev h);
           i \<leftarrow> cfg_index_loop cfgval (ds_configs (dv_desc d)) (ds_num_configs (dv_desc d)) 0;
           Some (i, s)
         })
      })"

section \<open>What a string descriptor becomes\<close>

text \<open>The descriptor of a string of UTF-16 units, and the char shown for a unit.\<close>

definition string_desc :: "u16 list \<Rightarrow> u8 list" where
  "string_desc cs = of_nat (2 + 2 * length cs) # USB_DESC_TYPE_STRING #
     concat (map (\<lambda>c. [ucast c, ucast (drop_bit 8 c)]) cs)"

definition shown :: "u16 \<Rightarrow> u8" where
  "shown c = (if (ucast (drop_bit 8 c) :: u8) \<noteq> 0 then 63 else ucast c)"

lemma length_pairs: "length (concat (map (\<lambda>c. [f c, g c]) cs)) = 2 * length cs"
  by (induction cs) simp_all

lemma nth_pairs:
  "k < length cs \<Longrightarrow> concat (map (\<lambda>c. [f c, g c]) cs) ! (2 * k) = f (cs ! k) \<and>
     concat (map (\<lambda>c. [f c, g c]) cs) ! (2 * k + 1) = g (cs ! k)"
  by (induction cs arbitrary: k) (auto simp: nth_Cons' less_Suc_eq_0_disj)

lemma string_desc_rd:
  assumes "k < length cs"
  shows "rd (string_desc cs @ rest) (2 + 2 * k) = Some (ucast (cs ! k))"
    and "rd (string_desc cs @ rest) (Suc (2 + 2 * k)) = Some (ucast (drop_bit 8 (cs ! k)))"
  using nth_pairs [OF assms, of "ucast :: u16 \<Rightarrow> u8" "\<lambda>c. ucast (drop_bit 8 c)"]
    length_pairs [of "ucast :: u16 \<Rightarrow> u8" "\<lambda>c. ucast (drop_bit 8 c)" cs] assms
  by (simp_all add: rd_def string_desc_def nth_append)

declare copy_chars.simps [simp del]

lemma copy_chars_run:
  assumes "0 < n" "n \<le> length buf" "K = min (length cs) (n - 1)" "i \<le> K"
  shows "copy_chars (string_desc cs @ rest) (2 + 2 * int (length cs)) n (2 + 2 * i) i buf =
     Some (K, take i buf @ map shown (drop i (take K cs)) @ drop K buf)"
  using assms(2,4)
proof (induction "K - i" arbitrary: i buf)
  case 0
  then have i: "i = K" by simp
  show ?case unfolding i using 0 assms(1,3) by (subst copy_chars.simps) simp
next
  case (Suc m)
  then have ik: "i < K" by simp
  then have il: "i < length cs" "\<not> n - 1 \<le> i" "i < length buf" using assms(3) Suc.prems by auto
  have c: "i < length (take K cs)" "take K cs ! i = cs ! i" using ik assms(3) by simp_all
  note r = string_desc_rd [OF il(1), of rest]
  have u: "copy_chars (string_desc cs @ rest) (2 + 2 * int (length cs)) n (2 + 2 * i) i buf =
      copy_chars (string_desc cs @ rest) (2 + 2 * int (length cs)) n (2 + 2 * (Suc i)) (Suc i) (buf[i := shown (cs ! i)])"
    using il r by (subst copy_chars.simps) (simp add: wr_def shown_def)
  show ?case unfolding u
    by (subst Suc.hyps(1)) (use Suc.hyps(2) Suc.prems ik il Cons_nth_drop_Suc [OF c(1), symmetric] in
        \<open>simp_all add: take_Suc_conv_app_nth c(2)\<close>)
qed

text \<open>
  String descriptors (src/openusb/src/devices.c, usbi_get_string_simple). From a string descriptor of up to 62
  UTF-16 units the function stores the units below 256 as they are and a question mark for every
  other one, as many as fit before the terminating zero, and returns their number; bytes of the
  buffer beyond the zero stay.
\<close>
theorem string_simple_converts:
  assumes "length cs \<le> 62" "2 + 2 * int (length cs) \<le> ret" "0 < buflen" "buflen \<le> length buf"
  shows "take_string ret (string_desc cs @ rest) buf buflen =
     (let k = min (length cs) (buflen - 1)
      in Some (int k, map shown (take k cs) @ [0] @ drop (Suc k) buf))"
proof -
  let ?k = "min (length cs) (buflen - 1)"
  let ?n = "2 + 2 * length cs"
  have "uint (word_of_nat ?n :: u8) = int ?n"
  proof -
    obtain k where k: "?n = k" by simp
    then have "k < 256" using assms(1) by simp
    then show ?thesis unfolding k by (simp add: unsigned_of_nat take_bit_nat_eq_self)
  qed
  then have "sint (word_of_nat ?n :: u8) = int ?n"
    using assms(1) by (simp add: sint_uint signed_take_bit_int_eq_self del: of_nat_add of_nat_mult of_nat_Suc)
  then have b0: "schar (word_of_nat ?n) = 2 + 2 * int (length cs)" by (simp add: schar_def)
  have b: "rd (string_desc cs @ rest) 0 = Some (word_of_nat ?n)" "rd (string_desc cs @ rest) 1 = Some USB_DESC_TYPE_STRING"
    by (simp_all add: string_desc_def rd_def)
  have c: "copy_chars (string_desc cs @ rest) (2 + 2 * int (length cs)) buflen 2 0 buf =
      Some (?k, map shown (take ?k cs) @ drop ?k buf)"
    using copy_chars_run [OF assms(3,4) refl, of 0 cs rest] by simp
  have k: "?k < length buf" "length (map shown (take ?k cs)) = ?k" using assms(3,4) by auto
  have w: "wr (map shown (take ?k cs) @ drop ?k buf) ?k 0 = Some (map shown (take ?k cs) @ [0] @ drop (Suc ?k) buf)"
  proof -
    obtain as where as: "map shown (take ?k cs) = as" "length as = ?k" using k(2) by metis
    have "drop ?k buf = buf ! ?k # drop (Suc ?k) buf" using k(1) by (simp add: Cons_nth_drop_Suc)
    then show ?thesis unfolding as(1) using as(2) k(1) by (simp add: wr_def list_update_append)
  qed
  show ?thesis
    unfolding take_string_def b option.case Option.bind.bind_lunit b0 Let_def
    using assms(2) c w by (simp add: schar_def USB_DESC_TYPE_STRING_def)
qed

theorem string_simple_converts_witness:
  "take_string 6 (string_desc [72, 0x20AC]) (replicate 4 0) 4 = Some (2, [72, 63, 0, 0])"
  using string_simple_converts [of "[72, 0x20AC]" 6 4 "replicate 4 0" "[]"] by (simp add: shown_def Let_def)

text \<open>Long strings (src/openusb/src/devices.c, usbi_get_string_simple). The length byte is a char: when it is 128 or more,
  it is read as a negative number, and the function returns an empty string and 0 instead of the string or
  an error.
\<close>
theorem long_string_lost:
  assumes "128 \<le> b0" "0 \<le> ret" "0 < buflen" "buflen \<le> length buf"
  shows "take_string ret (b0 # USB_DESC_TYPE_STRING # rest) buf buflen = Some (0, buf[0 := 0])"
proof -
  have b: "128 \<le> uint b0" "uint b0 < 256" using assms(1) uint_bounded [of b0] by (simp_all add: word_le_def)
  have e: "word_of_int (uint b0 - 256) = b0" by simp
  have "sint (word_of_int k :: u8) = signed_take_bit 7 k" for k by (simp add: signed_of_int)
  note this [of "uint b0 - 256", unfolded e]
  then have "sint b0 = uint b0 - 256" using b by (simp add: signed_take_bit_int_eq_self)
  then have "schar b0 < 0" using b(2) by (simp add: schar_def)
  then show ?thesis
    using assms by (cases buf) (simp_all add: take_string_def rd_def wr_def copy_chars.simps schar_def USB_DESC_TYPE_STRING_def)
qed

theorem long_string_lost_witness:
  "take_string 130 (130 # 3 # replicate 128 65) [1, 1] 2 = Some (0, [0, 1])"
  using long_string_lost [of 130 130 2 "[1, 1]" "replicate 128 65"] by (simp add: USB_DESC_TYPE_STRING_def)

end
