(* ===== verification/BackendLib.thy ===== *)
theory BackendLib
  imports DevStrings
begin

text \<open>
  What the backends share: the assignments to members of the library's structures that each of
  them makes, the errno EACCES, the length of a setup packet, and numbers in the names of files.
\<close>

definition EACCES :: int where "EACCES = 13"
definition USBI_CONTROL_SETUP_LEN :: nat where "USBI_CONTROL_SETUP_LEN = 8"

text \<open>io->status, hdev->state, the current configuration, and an entry of claimed_ifs.\<close>

definition set_state :: "addr \<Rightarrow> io_status \<Rightarrow> 'a lib_scheme \<Rightarrow> 'a lib_scheme option" where
  "set_state io st s = do { x \<leftarrow> l_io s io; Some (s\<lparr>l_io := (l_io s)(io \<mapsto> x\<lparr>io_state := st\<rparr>)\<rparr>) }"

definition set_hv_state :: "addr \<Rightarrow> devstate \<Rightarrow> 'a lib_scheme \<Rightarrow> 'a lib_scheme option" where
  "set_hv_state hdev st s = do { h \<leftarrow> l_hdev s hdev; Some (s\<lparr>l_hdev := (l_hdev s)(hdev \<mapsto> h\<lparr>hv_state := st\<rparr>)\<rparr>) }"

definition set_cur_config :: "addr \<Rightarrow> u8 \<Rightarrow> int \<Rightarrow> 'a lib_scheme \<Rightarrow> 'a lib_scheme option" where
  "set_cur_config hdev cfg ndx s = do {
     h \<leftarrow> l_hdev s hdev;
     d \<leftarrow> l_dev s (hv_idev h);
     Some (s\<lparr>l_dev := (l_dev s)(hv_idev h \<mapsto> d\<lparr>dv_cur_config_value := cfg, dv_cur_config_index := ndx\<rparr>)\<rparr>)
   }"

definition set_claim :: "addr \<Rightarrow> u8 \<Rightarrow> int \<times> int \<Rightarrow> 'a lib_scheme \<Rightarrow> 'a lib_scheme option" where
  "set_claim hdev ifc c s = do {
     h \<leftarrow> l_hdev s hdev;
     cs \<leftarrow> wr (hv_claimed_ifs h) (unat ifc) c;
     Some (s\<lparr>l_hdev := (l_hdev s)(hdev \<mapsto> h\<lparr>hv_claimed_ifs := cs\<rparr>)\<rparr>)
   }"

text \<open>%d of a natural number.\<close>

fun show_nat :: "nat \<Rightarrow> string" where
  "show_nat n = (if n < 10 then [char_of (48 + n)] else show_nat (n div 10) @ [char_of (48 + n mod 10)])"

declare show_nat.simps [simp del]

end
