(* ===== verification/LinuxState.thy ===== *)
theory LinuxState
  imports BackendLib
begin

text \<open>
  The data of the Linux backend (linux.h and the head of linux.c): the URBs it hands to the
  kernel, its private part of every structure of the library, and the state of the library
  extended by these. The kernel is a parameter: for a system call on a file descriptor it
  gives the return value and errno. It does not change the state; the calls are recorded in
  lx_log, in order. What the kernel stores into a URB that completes is an argument of
  io_complete (theory LinuxReap).

  A URB lies in the array of its request, at an index: UrbAt for the array of structures of
  control, bulk and interrupt requests, IsoUrbAt for the array of pointers of isochronous
  ones, which share a union in struct usbi_io_private.
\<close>

section \<open>errno\<close>

definition EPERM :: int where "EPERM = 1"
definition ENOENT :: int where "ENOENT = 2"
definition ENOMEM :: int where "ENOMEM = 12"
definition EBUSY :: int where "EBUSY = 16"
definition ENODEV :: int where "ENODEV = 19"
definition EINVAL :: int where "EINVAL = 22"
definition EPIPE :: int where "EPIPE = 32"
definition ECONNRESET :: int where "ECONNRESET = 104"
definition EREMOTEIO :: int where "EREMOTEIO = 121"

lemmas errnos = EPERM_def ENOENT_def ENOMEM_def EACCES_def EBUSY_def ENODEV_def EINVAL_def
  EPIPE_def ECONNRESET_def EREMOTEIO_def

definition translate_errno :: "int \<Rightarrow> int" where
  "translate_errno errnum =
     (if errnum = EPERM then OPENUSB_INVALID_PERM
      else if errnum = EINVAL then OPENUSB_BADARG
      else if errnum = ENOMEM then OPENUSB_NO_RESOURCES
      else if errnum = EACCES then OPENUSB_NOACCESS
      else if errnum = EBUSY then OPENUSB_BUSY
      else if errnum = EPIPE then OPENUSB_IO_STALL
      else if errnum = ENODEV then OPENUSB_UNKNOWN_DEVICE
      else OPENUSB_SYS_FUNC_FAILURE)"

lemma translate_errno_neg: "translate_errno e < 0"
  by (simp add: translate_errno_def error_codes)

section \<open>URBs\<close>

definition LINUX_MAX_BULK_INTR_XFER :: u32 where "LINUX_MAX_BULK_INTR_XFER = 16384"
definition LINUX_MAX_ISOC_XFER :: u32 where "LINUX_MAX_ISOC_XFER = 32768"

definition USBK_URB_ISO_ASAP :: u32 where "USBK_URB_ISO_ASAP = 2"
definition USBK_URB_SHORT_NOT_OK :: u32 where "USBK_URB_SHORT_NOT_OK = 1"
definition USBK_URB_BULK_CONTINUATION :: u32 where "USBK_URB_BULK_CONTINUATION = 4"

definition USBK_URB_TYPE_ISO :: u8 where "USBK_URB_TYPE_ISO = 0"
definition USBK_URB_TYPE_INTERRUPT :: u8 where "USBK_URB_TYPE_INTERRUPT = 1"
definition USBK_URB_TYPE_CONTROL :: u8 where "USBK_URB_TYPE_CONTROL = 2"
definition USBK_URB_TYPE_BULK :: u8 where "USBK_URB_TYPE_BULK = 3"

definition USB_DIR_MASK :: u8 where "USB_DIR_MASK = 0x80"

lemmas urb_consts = LINUX_MAX_BULK_INTR_XFER_def LINUX_MAX_ISOC_XFER_def USBI_CONTROL_SETUP_LEN_def
  USBK_URB_ISO_ASAP_def USBK_URB_SHORT_NOT_OK_def USBK_URB_BULK_CONTINUATION_def
  USBK_URB_TYPE_ISO_def USBK_URB_TYPE_INTERRUPT_def USBK_URB_TYPE_CONTROL_def
  USBK_URB_TYPE_BULK_def USB_DIR_MASK_def

record usbk_iso_packet_desc =
  ipd_length :: u32
  ipd_actual_length :: u32
  ipd_status :: u32

text \<open>A buffer of a URB: null, the payload of the request from an offset, or an object of its own.\<close>

datatype urb_buf = NullBuf | Payload int | Own "u8 list"

record usbk_urb =
  ub_type :: u8
  ub_endpoint :: u8
  ub_status :: int
  ub_flags :: u32
  ub_buffer :: urb_buf
  ub_buffer_length :: int
  ub_actual_length :: int
  ub_number_of_packets :: int
  ub_usercontext :: addr
  ub_iso :: "usbk_iso_packet_desc list"

text \<open>After memset 0.\<close>

definition zero_urb :: usbk_urb where
  "zero_urb = \<lparr>ub_type = 0, ub_endpoint = 0, ub_status = 0, ub_flags = 0, ub_buffer = NullBuf,
     ub_buffer_length = 0, ub_actual_length = 0, ub_number_of_packets = 0, ub_usercontext = 0, ub_iso = []\<rparr>"

datatype linux_reap_action = NORMAL | CANCELED | SUBMIT_FAILED | COMPLETED_EARLY | TIMEDOUT
  | STALL | UNKNOWNFAILURE

text \<open>The union of struct usbi_io_private: null, either array, or a pointer whose array is freed.\<close>

datatype urb_mem = NoUrbs | Urbs "usbk_urb list" | IsoUrbs "usbk_urb option list" | FreedUrbs

datatype urb_ptr = UrbAt addr nat | IsoUrbAt addr nat

record io_private =
  pv_urbs :: urb_mem
  pv_num_urbs :: u32
  pv_urbs_to_reap :: u32
  pv_urbs_to_cancel :: u32
  pv_bytes_transferred :: u32
  pv_isoc_packet_offset :: nat
  pv_reap_action :: linux_reap_action

definition zero_private :: io_private where
  "zero_private = \<lparr>pv_urbs = NoUrbs, pv_num_urbs = 0, pv_urbs_to_reap = 0, pv_urbs_to_cancel = 0,
     pv_bytes_transferred = 0, pv_isoc_packet_offset = 0, pv_reap_action = NORMAL\<rparr>"

section \<open>The state\<close>

text \<open>The private parts of an open device and of a device; a null sysfspath is None.\<close>

record hdl_private =
  hp_fd :: int
  hp_event_pipe :: "int \<times> int"
  hp_reattachdrv :: bool

record dev_private =
  dp_pdevnum :: int
  dp_sysfspath :: "string option"
  dp_hdev :: addr

datatype syscall = SUBMITURB urb_ptr | DISCARDURB urb_ptr | SETCONFIG int | CLAIMINTF int
  | RELEASEINTF int | SETINTF int int | RESET | CLEAR_HALT int | GETDRIVER int | CONNECT int
  | DISCONNECT int | OPEN_RDWR string | OPEN_RDONLY string | CLOSE | WRITE_EVENT | PIPE | THREAD

record linux = lib +
  lx_io :: "addr \<rightharpoonup> io_private"
  lx_hdev :: "addr \<rightharpoonup> hdl_private"
  lx_dev :: "addr \<rightharpoonup> dev_private"
  lx_dev_by_num :: "addr \<rightharpoonup> addr list"
  lx_found :: "addr set"
  lx_children :: "addr \<rightharpoonup> addr list"
  lx_root :: "addr \<Rightarrow> addr"
  lx_inited :: int
  lx_bulk_cont :: bool
  lx_device_dir :: string
  lx_log :: "(int \<times> syscall) list"

type_synonym 's kernel = "int \<Rightarrow> syscall \<Rightarrow> 's \<Rightarrow> int \<times> int"

text \<open>A system call: its result and errno, and the call recorded.\<close>

definition sys :: "'a linux_scheme kernel \<Rightarrow> int \<Rightarrow> syscall \<Rightarrow> 'a linux_scheme \<Rightarrow> (int \<times> int) \<times> 'a linux_scheme" where
  "sys K fd c s = (K fd c s, s\<lparr>lx_log := lx_log s @ [(fd, c)]\<rparr>)"

definition upd_priv :: "addr \<Rightarrow> (io_private \<Rightarrow> io_private) \<Rightarrow> 'a linux_scheme \<Rightarrow> 'a linux_scheme option" where
  "upd_priv io f s = do { p \<leftarrow> lx_io s io; Some (s\<lparr>lx_io := (lx_io s)(io \<mapsto> f p)\<rparr>) }"

text \<open>The URB a pointer leads to.\<close>

definition urb_at :: "urb_ptr \<Rightarrow> 'a linux_scheme \<Rightarrow> usbk_urb option" where
  "urb_at p s = (case p of
     UrbAt io i \<Rightarrow> do { v \<leftarrow> lx_io s io; (case pv_urbs v of Urbs us \<Rightarrow> rd us i | _ \<Rightarrow> None) }
   | IsoUrbAt io i \<Rightarrow> do { v \<leftarrow> lx_io s io;
       (case pv_urbs v of IsoUrbs us \<Rightarrow> do { u \<leftarrow> rd us i; u } | _ \<Rightarrow> None) })"

end
