(* ===== verification/LinuxSubmit.thy ===== *)
theory LinuxSubmit
  imports LinuxState
begin

text \<open>
  The submission of requests in linux.c. The caller of these functions is usbi_async_submit.
  A payload is not copied for bulk and interrupt requests: their URBs point into it.
\<close>

section \<open>URBs and the kernel\<close>

definition urb_submit :: "'a linux_scheme kernel \<Rightarrow> addr \<Rightarrow> urb_ptr \<Rightarrow> ('a linux_scheme, int \<times> int) op" where
  "urb_submit K hdev p s = do { h \<leftarrow> lx_hdev s hdev; Some (sys K (hp_fd h) (SUBMITURB p) s) }"

text \<open>The write to the pipe of the polling thread; its callers ignore the result.\<close>

definition wakeup_io_thread :: "'a linux_scheme kernel \<Rightarrow> addr \<Rightarrow> ('a linux_scheme, int) op" where
  "wakeup_io_thread K hdev s = do {
     h \<leftarrow> lx_hdev s hdev;
     let ((n, errno), s) = sys K (snd (hp_event_pipe h)) WRITE_EVENT s;
     Some (if n < 1 then translate_errno errno else OPENUSB_SUCCESS, s)
   }"

text \<open>
  One round of the loops that discard URBs: the URB is counted as cancelled, or as one that
  is still to be reaped. The address &io->priv->urbs[i] is computed for isochronous
  requests too.
\<close>

definition discard_one :: "'a linux_scheme kernel \<Rightarrow> addr \<Rightarrow> addr \<Rightarrow> nat \<Rightarrow> 'a linux_scheme \<Rightarrow>
    'a linux_scheme option" where
  "discard_one K hdev io i s = do {
     h \<leftarrow> lx_hdev s hdev;
     let ((ret, errno), s) = sys K (hp_fd h) (DISCARDURB (UrbAt io i)) s;
     upd_priv io (\<lambda>p. if ret = 0 then p\<lparr>pv_urbs_to_cancel := pv_urbs_to_cancel p + 1\<rparr>
       else if errno = EINVAL then p\<lparr>pv_urbs_to_reap := pv_urbs_to_reap p + 1\<rparr> else p) s
   }"

fun discard_loop :: "'a linux_scheme kernel \<Rightarrow> addr \<Rightarrow> addr \<Rightarrow> nat list \<Rightarrow> 'a linux_scheme \<Rightarrow>
    'a linux_scheme option" where
  "discard_loop K hdev io [] s = Some s"
| "discard_loop K hdev io (i # is) s = do { s \<leftarrow> discard_one K hdev io i s; discard_loop K hdev io is s }"

definition discard_urbs :: "'a linux_scheme kernel \<Rightarrow> addr \<Rightarrow> addr \<Rightarrow> linux_reap_action \<Rightarrow> 'a linux_scheme \<Rightarrow>
    'a linux_scheme option" where
  "discard_urbs K hdev io reap_action s = do {
     s \<leftarrow> upd_priv io (\<lambda>p. p\<lparr>pv_reap_action := reap_action\<rparr>) s;
     p \<leftarrow> lx_io s io;
     discard_loop K hdev io [0..<unat (pv_num_urbs p)] s
   }"

definition handle_partial_submit :: "'a linux_scheme kernel \<Rightarrow> addr \<Rightarrow> addr \<Rightarrow> nat \<Rightarrow> 'a linux_scheme \<Rightarrow>
    'a linux_scheme option" where
  "handle_partial_submit K hdev io idx s = do {
     s \<leftarrow> upd_priv io (\<lambda>p. p\<lparr>pv_reap_action := SUBMIT_FAILED\<rparr>) s;
     discard_loop K hdev io [0..<idx] s
   }"

text \<open>free of every URB up to the first null pointer, and of the array.\<close>

definition free_isoc_urbs :: "addr \<Rightarrow> 'a linux_scheme \<Rightarrow> 'a linux_scheme option" where
  "free_isoc_urbs io s = do {
     p \<leftarrow> lx_io s io;
     (case pv_urbs p of IsoUrbs us \<Rightarrow> upd_priv io (\<lambda>p. p\<lparr>pv_urbs := FreedUrbs\<rparr>) s | _ \<Rightarrow> None)
   }"

text \<open>malloc and memset of the private part; the mutex of the request is released when it fails.\<close>

definition alloc_priv :: "(addr \<Rightarrow> bool) \<Rightarrow> addr \<Rightarrow> 'a linux_scheme \<Rightarrow> (bool \<times> 'a linux_scheme)" where
  "alloc_priv av io s = (let (a, s) = fresh av s
     in if a = 0 then (False, s) else (True, s\<lparr>lx_io := (lx_io s)(io \<mapsto> zero_private)\<rparr>))"

text \<open>The end of a submission that reached the kernel.\<close>

definition submit_end :: "'a linux_scheme kernel \<Rightarrow> addr \<Rightarrow> addr \<Rightarrow> int \<Rightarrow> ('a linux_scheme, int) op" where
  "submit_end K hdev io ret s = do {
     s \<leftarrow> unlock_io io s;
     s \<leftarrow> unlock_hdev hdev s;
     (_, s) \<leftarrow> wakeup_io_thread K hdev s;
     Some (ret, s)
   }"

text \<open>The first URB cannot be submitted: the request fails at once.\<close>

definition submit_failed :: "addr \<Rightarrow> addr \<Rightarrow> int \<Rightarrow> ('a linux_scheme, int) op" where
  "submit_failed hdev io errno s = do {
     s \<leftarrow> set_state io IO_COMPLETED_FAIL s;
     s \<leftarrow> unlock_io io s;
     s \<leftarrow> unlock_hdev hdev s;
     Some (translate_errno errno, s)
   }"

section \<open>Control requests\<close>

definition ctrl_setup :: "bool \<Rightarrow> ctrl_request \<Rightarrow> u8 list" where
  "ctrl_setup be ctrl = [ct_bmRequestType ctrl, ct_bRequest ctrl] @ st16 be (openusb_le16_to_cpu be (ct_wValue ctrl)) @
     st16 be (openusb_le16_to_cpu be (ct_wIndex ctrl)) @ st16 be (openusb_le16_to_cpu be (ucast (ct_length ctrl)))"

text \<open>The temporary buffer: the setup packet, and the payload when it is written to the device.\<close>

definition ctrl_buffer :: "bool \<Rightarrow> ctrl_request \<Rightarrow> u8 list option" where
  "ctrl_buffer be ctrl = do {
     buf \<leftarrow> wrn (replicate (unat (of_nat USBI_CONTROL_SETUP_LEN + ct_length ctrl)) 0) 0 (ctrl_setup be ctrl);
     (if ct_bmRequestType ctrl AND USB_DIR_MASK = 0
      then do { d \<leftarrow> rdn (ct_payload ctrl) 0 (unat (ct_length ctrl)); wrn buf USBI_CONTROL_SETUP_LEN d }
      else Some buf)
   }"

definition linux_submit_ctrl :: "(addr \<Rightarrow> bool) \<Rightarrow> bool \<Rightarrow> 'a linux_scheme kernel \<Rightarrow> addr \<Rightarrow> addr \<Rightarrow>
    ('a linux_scheme, int) op" where
  "linux_submit_ctrl av be K hdev io s =
     (if hdev = 0 \<or> io = 0 then Some (OPENUSB_BADARG, s)
      else do {
        s \<leftarrow> lock_io io s;
        let (ok, s) = alloc_priv av io s;
        (if \<not> ok then do { s \<leftarrow> unlock_io io s; Some (OPENUSB_NO_RESOURCES, s) }
         else do {
           let (urbs, s) = fresh av s;
           (if urbs = 0 then do {
              s \<leftarrow> upd_priv io (\<lambda>p. p\<lparr>pv_num_urbs := 1\<rparr>) s;
              s \<leftarrow> unlock_io io s;
              Some (OPENUSB_NO_RESOURCES, s)
            }
            else do {
              x \<leftarrow> l_io s io;
              r \<leftarrow> l_req s (io_req x);
              ctrl \<leftarrow> (case rq_req r of Ctrl c \<Rightarrow> Some c | _ \<Rightarrow> None);
              let u = zero_urb\<lparr>ub_usercontext := io, ub_type := USBK_URB_TYPE_CONTROL\<rparr>;
              s \<leftarrow> upd_priv io (\<lambda>p. p\<lparr>pv_num_urbs := 1, pv_urbs := Urbs [u]\<rparr>) s;
              let (buffer, s) = fresh av s;
              (if buffer = 0 then do { s \<leftarrow> unlock_io io s; Some (OPENUSB_NO_RESOURCES, s) }
               else do {
                 buf \<leftarrow> ctrl_buffer be ctrl;
                 s \<leftarrow> upd_priv io (\<lambda>p. p\<lparr>pv_urbs := Urbs [u\<lparr>ub_buffer := Own buf,
                   ub_buffer_length := sint (of_nat USBI_CONTROL_SETUP_LEN + ct_length ctrl)\<rparr>]\<rparr>) s;
                 s \<leftarrow> lock_hdev hdev s;
                 ((ret, errno), s) \<leftarrow> urb_submit K hdev (UrbAt io 0) s;
                 (if ret < 0 then submit_failed hdev io errno s else submit_end K hdev io ret s)
               })
            })
         })
      })"

section \<open>Bulk and interrupt requests\<close>

text \<open>The fields of the i-th URB of n.\<close>

definition bulk_urb :: "bool \<Rightarrow> u8 \<Rightarrow> addr \<Rightarrow> u8 \<Rightarrow> u32 \<Rightarrow> nat \<Rightarrow> nat \<Rightarrow> usbk_urb \<Rightarrow> usbk_urb" where
  "bulk_urb cont endpoint io xfertype len n i u =
     (let rest = len mod LINUX_MAX_BULK_INTR_XFER;
          u = u\<lparr>ub_endpoint := endpoint, ub_usercontext := io, ub_type := xfertype,
            ub_buffer := Payload (int i * uint LINUX_MAX_BULK_INTR_XFER),
            ub_buffer_length := (if i = n - 1 \<and> rest > 0 then uint rest else uint LINUX_MAX_BULK_INTR_XFER)\<rparr>
      in if n > 1 \<and> cont then
           (let u = (if endpoint AND USB_DIR_MASK = USB_ENDPOINT_IN \<and> i < n - 1
                     then u\<lparr>ub_flags := USBK_URB_SHORT_NOT_OK\<rparr> else u)
            in if i > 0 then u\<lparr>ub_flags := ub_flags u OR USBK_URB_BULK_CONTINUATION\<rparr> else u)
         else u)"

definition bulk_num_urbs :: "u32 \<Rightarrow> u32" where
  "bulk_num_urbs len = len div LINUX_MAX_BULK_INTR_XFER + (if len mod LINUX_MAX_BULK_INTR_XFER > 0 then 1 else 0)"

text \<open>
  The loop that fires the URBs off: Inl for a return from the function, Inr for its end or
  the break.
\<close>

fun bulk_loop :: "'a linux_scheme kernel \<Rightarrow> addr \<Rightarrow> addr \<Rightarrow> u8 \<Rightarrow> u8 \<Rightarrow> u32 \<Rightarrow> nat \<Rightarrow> nat list \<Rightarrow>
    ('a linux_scheme, int + unit) op" where
  "bulk_loop K hdev io endpoint xfertype len n [] s = Some (Inr (), s)"
| "bulk_loop K hdev io endpoint xfertype len n (i # is) s = do {
     p \<leftarrow> lx_io s io;
     us \<leftarrow> (case pv_urbs p of Urbs us \<Rightarrow> Some us | _ \<Rightarrow> None);
     u \<leftarrow> rd us i;
     s \<leftarrow> upd_priv io (\<lambda>p. p\<lparr>pv_urbs := Urbs (us[i := bulk_urb (lx_bulk_cont s) endpoint io xfertype len n i u])\<rparr>) s;
     ((ret, errno), s) \<leftarrow> urb_submit K hdev (UrbAt io i) s;
     (if ret < 0 then
        (if i = 0 then do { (ret, s) \<leftarrow> submit_failed hdev io errno s; Some (Inl ret, s) }
         else if ret = - EREMOTEIO then do {
           s \<leftarrow> upd_priv io (\<lambda>p. p\<lparr>pv_reap_action := COMPLETED_EARLY\<rparr>) s;
           Some (Inr (), s)
         }
         else do {
           s \<leftarrow> handle_partial_submit K hdev io i s;
           s \<leftarrow> unlock_io io s;
           s \<leftarrow> unlock_hdev hdev s;
           Some (Inl OPENUSB_SUCCESS, s)
         })
      else bulk_loop K hdev io endpoint xfertype len n is s)
   }"

text \<open>The length of the payload and the type of the URBs; None inside for another type.\<close>

definition bulk_request :: "openusb_request_handle \<Rightarrow> (u32 \<times> u8) option option" where
  "bulk_request r =
     (if rq_type r = USB_TYPE_BULK then
        (case rq_req r of Bulk d \<Rightarrow> Some (Some (dr_length d, USBK_URB_TYPE_BULK)) | _ \<Rightarrow> None)
      else if rq_type r = USB_TYPE_INTERRUPT then
        (case rq_req r of Intr d \<Rightarrow> Some (Some (dr_length d, USBK_URB_TYPE_INTERRUPT)) | _ \<Rightarrow> None)
      else Some None)"

definition linux_submit_bulk_intr :: "(addr \<Rightarrow> bool) \<Rightarrow> 'a linux_scheme kernel \<Rightarrow> addr \<Rightarrow> addr \<Rightarrow>
    ('a linux_scheme, int) op" where
  "linux_submit_bulk_intr av K hdev io s =
     (if hdev = 0 \<or> io = 0 then Some (OPENUSB_BADARG, s)
      else do {
        s \<leftarrow> lock_io io s;
        let (ok, s) = alloc_priv av io s;
        (if \<not> ok then do { s \<leftarrow> unlock_io io s; Some (OPENUSB_NO_RESOURCES, s) }
         else do {
           x \<leftarrow> l_io s io;
           r \<leftarrow> l_req s (io_req x);
           q \<leftarrow> bulk_request r;
           (case q of None \<Rightarrow> do { s \<leftarrow> unlock_io io s; Some (OPENUSB_BADARG, s) }
            | Some (len, xfertype) \<Rightarrow> do {
                s \<leftarrow> upd_priv io (\<lambda>p. p\<lparr>pv_num_urbs := bulk_num_urbs len\<rparr>) s;
                let n = unat (bulk_num_urbs len);
                let (urbs, s) = fresh av s;
                (if urbs = 0 then do { s \<leftarrow> unlock_io io s; Some (OPENUSB_NO_RESOURCES, s) }
                 else do {
                   s \<leftarrow> upd_priv io (\<lambda>p. p\<lparr>pv_urbs := Urbs (replicate n zero_urb), pv_urbs_to_reap := 0,
                     pv_urbs_to_cancel := 0\<rparr>) s;
                   s \<leftarrow> lock_hdev hdev s;
                   s \<leftarrow> set_state io IO_INPROGRESS s;
                   s \<leftarrow> upd_priv io (\<lambda>p. p\<lparr>pv_reap_action := NORMAL\<rparr>) s;
                   (c, s) \<leftarrow> bulk_loop K hdev io (rq_endpoint r) xfertype len n [0..<n] s;
                   (case c of Inl ret \<Rightarrow> Some (ret, s) | Inr _ \<Rightarrow> submit_end K hdev io OPENUSB_SUCCESS s)
                 })
              })
         })
      })"

section \<open>Isochronous requests\<close>

text \<open>
  The first pass counts the URBs. this_urb_len and the space that remains are of type int32_t,
  but they are compared with an unsigned length, so all of it is done on unsigned words.
\<close>

fun isoc_count :: "isoc_packet list \<Rightarrow> u32 \<Rightarrow> u32 \<Rightarrow> u32" where
  "isoc_count [] this_urb_len num = num"
| "isoc_count (p # ps) this_urb_len num =
     (if pk_length p > LINUX_MAX_ISOC_XFER - this_urb_len then isoc_count ps (pk_length p) (num + 1)
      else isoc_count ps (this_urb_len + pk_length p) num)"

text \<open>The packets that still fit into a URB: how many, and the sum of their lengths.\<close>

fun isoc_take :: "isoc_packet list \<Rightarrow> u32 \<Rightarrow> nat \<times> u32" where
  "isoc_take [] space = (0, 0)"
| "isoc_take (p # ps) space =
     (if pk_length p \<le> space then (let (n, l) = isoc_take ps (space - pk_length p) in (n + 1, pk_length p + l))
      else (0, 0))"

text \<open>The lengths and the data of the packets of one URB.\<close>

fun isoc_fill :: "bool \<Rightarrow> isoc_packet list \<Rightarrow> nat \<Rightarrow> usbk_iso_packet_desc list \<Rightarrow> u8 list \<Rightarrow>
    (usbk_iso_packet_desc list \<times> u8 list) option" where
  "isoc_fill out [] off ds buf = Some (ds, buf)"
| "isoc_fill out (p # ps) off ds buf = do {
     buf \<leftarrow> (if out then do { d \<leftarrow> rdn (pk_payload p) 0 (unat (pk_length p)); wrn buf off d } else Some buf);
     isoc_fill out ps (off + unat (pk_length p))
       (ds @ [\<lparr>ipd_length = pk_length p, ipd_actual_length = 0, ipd_status = 0\<rparr>]) buf
   }"

definition isoc_urb :: "u8 \<Rightarrow> addr \<Rightarrow> isoc_packet list \<Rightarrow> u32 \<Rightarrow> usbk_urb option" where
  "isoc_urb endpoint io ps len = do {
     (ds, buf) \<leftarrow> isoc_fill (endpoint AND USB_DIR_MASK = 0) ps 0 [] (replicate (unat len) 0);
     Some (zero_urb\<lparr>ub_buffer_length := sint len, ub_buffer := Own buf, ub_iso := ds, ub_usercontext := io,
       ub_type := USBK_URB_TYPE_ISO, ub_flags := USBK_URB_ISO_ASAP, ub_endpoint := endpoint,
       ub_number_of_packets := int (length ps)\<rparr>)
   }"

text \<open>A new entry of the array of pointers.\<close>

definition set_iso_urb :: "addr \<Rightarrow> nat \<Rightarrow> usbk_urb \<Rightarrow> 'a linux_scheme \<Rightarrow> 'a linux_scheme option" where
  "set_iso_urb io i u s = do {
     p \<leftarrow> lx_io s io;
     us \<leftarrow> (case pv_urbs p of IsoUrbs us \<Rightarrow> wr us i (Some u) | _ \<Rightarrow> None);
     upd_priv io (\<lambda>p. p\<lparr>pv_urbs := IsoUrbs us\<rparr>) s
   }"

text \<open>
  The second pass makes the URBs; ps are the packets not yet in one. Inl when an allocation
  fails.
\<close>

fun isoc_make :: "(addr \<Rightarrow> bool) \<Rightarrow> u8 \<Rightarrow> addr \<Rightarrow> nat list \<Rightarrow> isoc_packet list \<Rightarrow> ('a linux_scheme, int + unit) op" where
  "isoc_make av endpoint io [] ps s = Some (Inr (), s)"
| "isoc_make av endpoint io (i # is) ps s = do {
     let (n, len) = isoc_take ps LINUX_MAX_ISOC_XFER;
     let (urb, s) = fresh av s;
     (if urb = 0 then do {
        s \<leftarrow> free_isoc_urbs io s;
        s \<leftarrow> unlock_io io s;
        Some (Inl OPENUSB_NO_RESOURCES, s)
      }
      else do {
        s \<leftarrow> set_iso_urb io i (zero_urb\<lparr>ub_buffer_length := sint len\<rparr>) s;
        let (buf, s) = fresh av s;
        (if buf = 0 then do {
           s \<leftarrow> free_isoc_urbs io s;
           s \<leftarrow> unlock_io io s;
           Some (Inl OPENUSB_NO_RESOURCES, s)
         }
         else do {
           u \<leftarrow> isoc_urb endpoint io (take n ps) len;
           s \<leftarrow> set_iso_urb io i u s;
           isoc_make av endpoint io is (drop n ps) s
         })
      })
   }"

fun isoc_loop :: "'a linux_scheme kernel \<Rightarrow> addr \<Rightarrow> addr \<Rightarrow> nat list \<Rightarrow> ('a linux_scheme, int + unit) op" where
  "isoc_loop K hdev io [] s = Some (Inr (), s)"
| "isoc_loop K hdev io (i # is) s = do {
     _ \<leftarrow> urb_at (IsoUrbAt io i) s;
     ((ret, errno), s) \<leftarrow> urb_submit K hdev (IsoUrbAt io i) s;
     (if ret < 0 then
        (if i = 0 then do { (ret, s) \<leftarrow> submit_failed hdev io errno s; Some (Inl ret, s) }
         else do {
           s \<leftarrow> handle_partial_submit K hdev io i s;
           s \<leftarrow> unlock_io io s;
           s \<leftarrow> unlock_hdev hdev s;
           Some (Inl OPENUSB_SUCCESS, s)
         })
      else isoc_loop K hdev io is s)
   }"

definition linux_submit_isoc :: "(addr \<Rightarrow> bool) \<Rightarrow> 'a linux_scheme kernel \<Rightarrow> addr \<Rightarrow> addr \<Rightarrow>
    ('a linux_scheme, int) op" where
  "linux_submit_isoc av K hdev io s =
     (if io = 0 \<or> hdev = 0 then Some (OPENUSB_BADARG, s)
      else do {
        s \<leftarrow> lock_io io s;
        let (ok, s) = alloc_priv av io s;
        (if \<not> ok then do { s \<leftarrow> unlock_io io s; Some (OPENUSB_NO_RESOURCES, s) }
         else do {
           x \<leftarrow> l_io s io;
           r \<leftarrow> l_req s (io_req x);
           isoc \<leftarrow> (case rq_req r of Isoc q \<Rightarrow> Some q | _ \<Rightarrow> None);
           ps \<leftarrow> rdn (is_packets isoc) 0 (unat (is_num_packets isoc));
           let num = isoc_count ps 0 1;
           s \<leftarrow> upd_priv io (\<lambda>p. p\<lparr>pv_num_urbs := num\<rparr>) s;
           let (urbs, s) = fresh av s;
           (if urbs = 0 then do { s \<leftarrow> unlock_io io s; Some (OPENUSB_NO_RESOURCES, s) }
            else do {
              s \<leftarrow> upd_priv io (\<lambda>p. p\<lparr>pv_urbs := IsoUrbs (replicate (unat num) None), pv_urbs_to_cancel := 0,
                pv_urbs_to_reap := 0, pv_reap_action := NORMAL, pv_isoc_packet_offset := 0\<rparr>) s;
              (c, s) \<leftarrow> isoc_make av (rq_endpoint r) io [0..<unat num] ps s;
              (case c of Inl ret \<Rightarrow> Some (ret, s)
               | Inr _ \<Rightarrow> do {
                   s \<leftarrow> lock_hdev hdev s;
                   s \<leftarrow> set_state io IO_INPROGRESS s;
                   s \<leftarrow> upd_priv io (\<lambda>p. p\<lparr>pv_reap_action := NORMAL\<rparr>) s;
                   (c, s) \<leftarrow> isoc_loop K hdev io [0..<unat num] s;
                   (case c of Inl ret \<Rightarrow> Some (ret, s) | Inr _ \<Rightarrow> submit_end K hdev io OPENUSB_SUCCESS s)
                 })
            })
         })
      })"

end
