(* ===== verification/LinuxReap.thy ===== *)
theory LinuxReap
  imports LinuxSubmit Timeouts
begin

text \<open>
  The completion of requests in linux.c: reaping URBs, cancelling, timing out, and the
  polling thread, one round of its loop at a time. The URBs that the kernel hands back are an
  argument: a list of pointers, each with what the kernel has stored by then. The lock of the
  device handle is held while they are handled.
\<close>

section \<open>Freeing\<close>

definition free_urbs :: "addr \<Rightarrow> 'a linux_scheme \<Rightarrow> 'a linux_scheme option" where
  "free_urbs io s = do {
     p \<leftarrow> lx_io s io;
     (if pv_urbs p = FreedUrbs then None else upd_priv io (\<lambda>p. p\<lparr>pv_urbs := FreedUrbs\<rparr>) s)
   }"

text \<open>bytes_transferred of a request, as the size_t that usbi_io_complete takes.\<close>

definition complete_with :: "addr \<Rightarrow> int \<Rightarrow> 'a linux_scheme \<Rightarrow> 'a linux_scheme option" where
  "complete_with io status s = do {
     p \<leftarrow> lx_io s io;
     (_, s) \<leftarrow> usbi_io_complete io status (ucast (pv_bytes_transferred p)) s;
     Some s
   }"

section \<open>Bulk and interrupt requests\<close>

text \<open>One round of the loop of handle_partial_xfer.\<close>

definition partial_one :: "'a linux_scheme kernel \<Rightarrow> addr \<Rightarrow> addr \<Rightarrow> nat \<Rightarrow> 'a linux_scheme \<Rightarrow> 'a linux_scheme option" where
  "partial_one K hdev io i s = do {
     u \<leftarrow> urb_at (UrbAt io i) s;
     (if ub_flags u AND USBK_URB_BULK_CONTINUATION \<noteq> 0
      then upd_priv io (\<lambda>p. p\<lparr>pv_urbs_to_cancel := pv_urbs_to_cancel p + 1\<rparr>) s
      else discard_one K hdev io i s)
   }"

fun partial_loop :: "'a linux_scheme kernel \<Rightarrow> addr \<Rightarrow> addr \<Rightarrow> nat list \<Rightarrow> 'a linux_scheme \<Rightarrow> 'a linux_scheme option" where
  "partial_loop K hdev io [] s = Some s"
| "partial_loop K hdev io (i # is) s = do { s \<leftarrow> partial_one K hdev io i s; partial_loop K hdev io is s }"

definition handle_partial_xfer :: "'a linux_scheme kernel \<Rightarrow> addr \<Rightarrow> addr \<Rightarrow> nat \<Rightarrow> linux_reap_action \<Rightarrow>
    'a linux_scheme \<Rightarrow> 'a linux_scheme option" where
  "handle_partial_xfer K hdev io idx action s = do {
     s \<leftarrow> upd_priv io (\<lambda>p. p\<lparr>pv_reap_action := action\<rparr>) s;
     p \<leftarrow> lx_io s io;
     partial_loop K hdev io [idx..<unat (pv_num_urbs p)] s
   }"

text \<open>The counters after a URB with this status, while a request is being cancelled.\<close>

definition count_reaped :: "usbk_urb \<Rightarrow> io_private \<Rightarrow> io_private" where
  "count_reaped u p =
     (if ub_status u = - ENOENT then
        (if pv_urbs_to_cancel p = 0 then p else p\<lparr>pv_urbs_to_cancel := pv_urbs_to_cancel p - 1\<rparr>)
      else if ub_status u = - ECONNRESET \<and> ub_flags u AND USBK_URB_BULK_CONTINUATION \<noteq> 0
        then p\<lparr>pv_urbs_to_cancel := pv_urbs_to_cancel p - 1\<rparr>
      else if ub_status u = 0 then
        (if pv_urbs_to_reap p = 0 then p else p\<lparr>pv_urbs_to_reap := pv_urbs_to_reap p - 1\<rparr>)
      else p)"

text \<open>The last URB of a request that ends early; True if the URBs are to be freed.\<close>

definition finish_early :: "addr \<Rightarrow> linux_reap_action \<Rightarrow> 'a linux_scheme \<Rightarrow> 'a linux_scheme option" where
  "finish_early io action s =
     (if action = STALL then Some s
      else do {
        s \<leftarrow> complete_with io (if action = CANCELED then OPENUSB_IO_CANCELED
               else if action = COMPLETED_EARLY then OPENUSB_SUCCESS
               else if action = TIMEDOUT then OPENUSB_IO_TIMEOUT else OPENUSB_SYS_FUNC_FAILURE) s;
        free_urbs io s
      })"

definition handle_bulk_intr_complete :: "'a linux_scheme kernel \<Rightarrow> addr \<Rightarrow> urb_ptr \<Rightarrow> 'a linux_scheme \<Rightarrow>
    'a linux_scheme option" where
  "handle_bulk_intr_complete K hdev p s = do {
     u \<leftarrow> urb_at p s;
     let io = ub_usercontext u;
     i \<leftarrow> (case p of UrbAt io' i \<Rightarrow> if io' = io then Some i else None | _ \<Rightarrow> None);
     s \<leftarrow> (if ub_status u = 0 \<or> ub_status u = - EREMOTEIO
           then upd_priv io (\<lambda>v. v\<lparr>pv_bytes_transferred := pv_bytes_transferred v + of_int (ub_actual_length u)\<rparr>) s
           else Some s);
     v \<leftarrow> lx_io s io;
     (if pv_reap_action v \<noteq> NORMAL then do {
        s \<leftarrow> upd_priv io (count_reaped u) s;
        v \<leftarrow> lx_io s io;
        (if pv_urbs_to_reap v = 0 \<and> pv_urbs_to_cancel v = 0 then finish_early io (pv_reap_action v) s
         else Some s)
      }
      else if ub_status u = 0 \<or> ub_status u = - EREMOTEIO then
        (if word_of_nat i = pv_num_urbs v - 1 then do {
           s \<leftarrow> complete_with io OPENUSB_SUCCESS s;
           free_urbs io s
         }
         else if ub_actual_length u < ub_buffer_length u then handle_partial_xfer K hdev io (i + 1) COMPLETED_EARLY s
         else Some s)
      else if ub_status u = - EPIPE then do {
        s \<leftarrow> handle_partial_xfer K hdev io (i + 1) STALL s;
        s \<leftarrow> free_urbs io s;
        complete_with io OPENUSB_IO_STALL s
      }
      else handle_partial_xfer K hdev io (i + 1) UNKNOWNFAILURE s)
   }"

section \<open>Isochronous requests\<close>

text \<open>The results and, for an IN endpoint, the data of the packets from number k of the request.\<close>

fun isoc_results :: "bool \<Rightarrow> usbk_iso_packet_desc list \<Rightarrow> nat \<Rightarrow> u8 list \<Rightarrow> nat \<Rightarrow> isoc_request \<times> u32 \<Rightarrow>
    (isoc_request \<times> u32) option" where
  "isoc_results inn [] k buf off r = Some r"
| "isoc_results inn (d # ds) k buf off (q, bytes) = do {
     old \<leftarrow> rd (is_results q) k;
     rs \<leftarrow> wr (is_results q) k (if ipd_status d \<noteq> 0 then translate_errno (sint (- ipd_status d)) else fst old,
       ipd_actual_length d);
     ps \<leftarrow> (if inn then do {
              p \<leftarrow> rd (is_packets q) k;
              b \<leftarrow> rdn buf off (unat (ipd_actual_length d));
              b \<leftarrow> wrn (pk_payload p) 0 b;
              wr (is_packets q) k (p\<lparr>pk_payload := b\<rparr>)
            } else Some (is_packets q));
     isoc_results inn ds (k + 1) buf (if inn then off + unat (ipd_actual_length d) else off)
       (q\<lparr>is_results := rs, is_packets := ps\<rparr>, bytes + ipd_actual_length d)
   }"

text \<open>Copying back what a URB that succeeded has received.\<close>

definition isoc_copy_back :: "usbk_urb \<Rightarrow> addr \<Rightarrow> 'a linux_scheme \<Rightarrow> 'a linux_scheme option" where
  "isoc_copy_back u io s = do {
     x \<leftarrow> l_io s io;
     r \<leftarrow> l_req s (io_req x);
     v \<leftarrow> lx_io s io;
     q \<leftarrow> (case rq_req r of Isoc q \<Rightarrow> Some q | _ \<Rightarrow> None);
     buf \<leftarrow> (case ub_buffer u of Own b \<Rightarrow> Some b | _ \<Rightarrow> None);
     ds \<leftarrow> rdn (ub_iso u) 0 (nat (ub_number_of_packets u));
     (q, bytes) \<leftarrow> isoc_results (rq_endpoint r AND USB_DIR_MASK = USB_DIR_MASK) ds (pv_isoc_packet_offset v) buf 0
       (q, pv_bytes_transferred v);
     upd_priv io (\<lambda>v. v\<lparr>pv_bytes_transferred := bytes, pv_isoc_packet_offset := pv_isoc_packet_offset v + length ds\<rparr>)
       (s\<lparr>l_req := (l_req s)(io_req x \<mapsto> r\<lparr>rq_req := Isoc q\<rparr>)\<rparr>)
   }"

text \<open>As count_reaped, without the case of the continuation flag.\<close>

definition count_reaped_isoc :: "usbk_urb \<Rightarrow> io_private \<Rightarrow> io_private" where
  "count_reaped_isoc u p =
     (if ub_status u = - ENOENT then
        (if pv_urbs_to_cancel p = 0 then p else p\<lparr>pv_urbs_to_cancel := pv_urbs_to_cancel p - 1\<rparr>)
      else if ub_status u = 0 then
        (if pv_urbs_to_reap p = 0 then p else p\<lparr>pv_urbs_to_reap := pv_urbs_to_reap p - 1\<rparr>)
      else p)"

definition handle_isoc_complete :: "'a linux_scheme kernel \<Rightarrow> addr \<Rightarrow> urb_ptr \<Rightarrow> 'a linux_scheme \<Rightarrow>
    'a linux_scheme option" where
  "handle_isoc_complete K hdev p s = do {
     u \<leftarrow> urb_at p s;
     let io = ub_usercontext u;
     v \<leftarrow> lx_io s io;
     let urb_index = (case p of IsoUrbAt io' i \<Rightarrow> if io' = io \<and> i < unat (pv_num_urbs v) then i + 1 else 0 | _ \<Rightarrow> 0);
     (if urb_index = 0 then Some s
      else do {
        s \<leftarrow> (if ub_status u = 0 then isoc_copy_back u io s else Some s);
        v \<leftarrow> lx_io s io;
        (if pv_reap_action v \<noteq> NORMAL then do {
           s \<leftarrow> upd_priv io (count_reaped_isoc u) s;
           v \<leftarrow> lx_io s io;
           (if pv_urbs_to_reap v = 0 \<and> pv_urbs_to_cancel v = 0 then do {
              s \<leftarrow> complete_with io (if pv_reap_action v = CANCELED then OPENUSB_IO_CANCELED
                     else OPENUSB_SYS_FUNC_FAILURE) s;
              free_isoc_urbs io s
            }
            else Some s)
         }
         else if ub_status u \<noteq> 0 then handle_partial_xfer K hdev io urb_index UNKNOWNFAILURE s
         else if urb_index = unat (pv_num_urbs v) then do {
           s \<leftarrow> free_isoc_urbs io s;
           complete_with io OPENUSB_SUCCESS s
         }
         else Some s)
      })
   }"

section \<open>Reaping\<close>

text \<open>A control request: the data is copied back, and the completion reported.\<close>

definition ctrl_complete :: "urb_ptr \<Rightarrow> usbk_urb \<Rightarrow> addr \<Rightarrow> 'a linux_scheme \<Rightarrow> 'a linux_scheme option" where
  "ctrl_complete p u io s = do {
     let n = of_int (ub_actual_length u);
     s \<leftarrow> (if ub_status u = 0 then do {
              x \<leftarrow> l_io s io;
              r \<leftarrow> l_req s (io_req x);
              c \<leftarrow> (case rq_req r of Ctrl c \<Rightarrow> Some c | _ \<Rightarrow> None);
              buf \<leftarrow> (case ub_buffer u of Own b \<Rightarrow> Some b | _ \<Rightarrow> None);
              d \<leftarrow> rdn buf USBI_CONTROL_SETUP_LEN (unat (ct_length c));
              pay \<leftarrow> wrn (ct_payload c) 0 d;
              let s = s\<lparr>l_req := (l_req s)(io_req x \<mapsto> r\<lparr>rq_req := Ctrl (c\<lparr>ct_payload := pay\<rparr>)\<rparr>)\<rparr>;
              s \<leftarrow> set_state io IO_COMPLETED s;
              (_, s) \<leftarrow> usbi_io_complete io OPENUSB_SUCCESS n s;
              Some s
            } else Some s);
     s \<leftarrow> (if ub_status u = - ENOENT then do {
              v \<leftarrow> lx_io s io;
              s \<leftarrow> set_state io (if pv_reap_action v = CANCELED then IO_CANCEL
                     else if pv_reap_action v = TIMEDOUT then IO_TIMEOUT else IO_COMPLETED_FAIL) s;
              (_, s) \<leftarrow> usbi_io_complete io (if pv_reap_action v = CANCELED then OPENUSB_IO_CANCELED
                     else if pv_reap_action v = TIMEDOUT then OPENUSB_IO_TIMEOUT else OPENUSB_SYS_FUNC_FAILURE) n s;
              Some s
            } else Some s);
     free_urbs io s
   }"

definition reap_one :: "'a linux_scheme kernel \<Rightarrow> addr \<Rightarrow> urb_ptr \<Rightarrow> 'a linux_scheme \<Rightarrow> 'a linux_scheme option" where
  "reap_one K hdev p s = do {
     u \<leftarrow> urb_at p s;
     let io = ub_usercontext u;
     x \<leftarrow> l_io s io;
     r \<leftarrow> l_req s (io_req x);
     (if rq_type r = USB_TYPE_CONTROL then ctrl_complete p u io s
      else if rq_type r = USB_TYPE_BULK \<or> rq_type r = USB_TYPE_INTERRUPT then handle_bulk_intr_complete K hdev p s
      else if rq_type r = USB_TYPE_ISOCHRONOUS then handle_isoc_complete K hdev p s
      else Some s)
   }"

fun io_complete :: "'a linux_scheme kernel \<Rightarrow> addr \<Rightarrow> (urb_ptr \<times> ('a linux_scheme \<Rightarrow> 'a linux_scheme)) list \<Rightarrow>
    ('a linux_scheme, int) op" where
  "io_complete K hdev [] s = Some (OPENUSB_SUCCESS, s)"
| "io_complete K hdev ((p, w) # ps) s = do { s \<leftarrow> reap_one K hdev p (w s); io_complete K hdev ps s }"

section \<open>Timeouts and cancelling\<close>

text \<open>The walk stops at the first request that is isochronous or not in progress.\<close>

fun linux_timeout_walk :: "'a linux_scheme kernel \<Rightarrow> addr \<Rightarrow> int \<times> int \<Rightarrow> addr list \<Rightarrow> 'a linux_scheme \<Rightarrow>
    'a linux_scheme option" where
  "linux_timeout_walk K hdev tvc [] s = Some s"
| "linux_timeout_walk K hdev tvc (io # ios) s = do {
     x \<leftarrow> l_io s io;
     ty \<leftarrow> (if io_state x \<noteq> IO_INPROGRESS then Some 0 else do { r \<leftarrow> l_req s (io_req x); Some (rq_type r) });
     (if io_state x \<noteq> IO_INPROGRESS \<or> ty = USB_TYPE_ISOCHRONOUS then Some s
      else do {
        s \<leftarrow> (if usbi_timeval_compare (io_tvo x) tvc \<le> 0 then discard_urbs K hdev io TIMEDOUT s else Some s);
        linux_timeout_walk K hdev tvc ios s
      })
   }"

definition linux_io_timeout :: "'a linux_scheme kernel \<Rightarrow> addr \<Rightarrow> int \<times> int \<Rightarrow> ('a linux_scheme, int) op" where
  "linux_io_timeout K hdev tvc s = do {
     h \<leftarrow> l_hdev s hdev;
     s \<leftarrow> linux_timeout_walk K hdev tvc (hv_io_head h) s;
     Some (OPENUSB_SUCCESS, s)
   }"

definition linux_io_cancel :: "'a linux_scheme kernel \<Rightarrow> addr \<Rightarrow> ('a linux_scheme, int) op" where
  "linux_io_cancel K io s = do {
     x \<leftarrow> l_io s io;
     s \<leftarrow> set_state io IO_CANCEL s;
     s \<leftarrow> discard_urbs K (io_dev x) io CANCELED s;
     (_, s) \<leftarrow> wakeup_io_thread K (io_dev x) s;
     Some (OPENUSB_SUCCESS, s)
   }"

section \<open>The polling thread\<close>

fun linux_deadline_walk :: "addr list \<Rightarrow> int \<times> int \<Rightarrow> 'a linux_scheme \<Rightarrow> (int \<times> int) option" where
  "linux_deadline_walk [] tvo s = Some tvo"
| "linux_deadline_walk (io # ios) tvo s = do {
     x \<leftarrow> l_io s io;
     ty \<leftarrow> (if io_state x \<noteq> IO_INPROGRESS then Some 0 else do { r \<leftarrow> l_req s (io_req x); Some (rq_type r) });
     (if io_state x \<noteq> IO_INPROGRESS \<or> ty = USB_TYPE_ISOCHRONOUS then Some tvo
      else if fst (io_tvo x) \<noteq> 0 \<and> (fst tvo = 0 \<or> usbi_timeval_compare (io_tvo x) tvo \<noteq> 0)
        then linux_deadline_walk ios (io_tvo x) s
      else linux_deadline_walk ios tvo s)
   }"

text \<open>
  What select reports: its result, whether the pipe of the backend, the pipe of the library
  and the device are ready, and the URBs the kernel has finished.
\<close>

record 's poll_event =
  pe_ret :: int
  pe_wakeup :: bool
  pe_pipe :: bool
  pe_device :: bool
  pe_reaped :: "(urb_ptr \<times> ('s \<Rightarrow> 's)) list"

text \<open>One round; True when the device is closing and the thread ends.\<close>

definition poll_round :: "'a linux_scheme kernel \<Rightarrow> (int \<times> int \<Rightarrow> ('a linux_scheme, 'a linux_scheme poll_event) op) \<Rightarrow>
    addr \<Rightarrow> ('a linux_scheme, bool) op" where
  "poll_round K select hdev s = do {
     s \<leftarrow> lock_hdev hdev s;
     _ \<leftarrow> lx_hdev s hdev;
     h \<leftarrow> l_hdev s hdev;
     tvNext \<leftarrow> linux_deadline_walk (hv_io_head h) (0, 0) s;
     s \<leftarrow> unlock_hdev hdev s;
     (e, s) \<leftarrow> select (select_timeout tvNext (l_time s)) s;
     (if pe_ret e < 0 then Some (False, s)
      else do {
        let tvc = l_time s;
        s \<leftarrow> lock_hdev hdev s;
        _ \<leftarrow> lx_hdev s hdev;
        h \<leftarrow> l_hdev s hdev;
        (if (pe_wakeup e \<or> pe_pipe e) \<and> hv_state h = DEVICE_CLOSING
         then do { s \<leftarrow> unlock_hdev hdev s; Some (True, s) }
         else do {
           (_, s) \<leftarrow> (if pe_device e then io_complete K hdev (pe_reaped e) s else Some (OPENUSB_SUCCESS, s));
           (_, s) \<leftarrow> (if usbi_timeval_compare tvNext tvc \<le> 0 then linux_io_timeout K hdev tvc s
                     else Some (OPENUSB_SUCCESS, s));
           s \<leftarrow> unlock_hdev hdev s;
           Some (False, s)
         })
      })
   }"

text \<open>The thread ends after a number of rounds, or runs on.\<close>

fun poll_io :: "nat \<Rightarrow> 'a linux_scheme kernel \<Rightarrow> (int \<times> int \<Rightarrow> ('a linux_scheme, 'a linux_scheme poll_event) op) \<Rightarrow>
    addr \<Rightarrow> ('a linux_scheme, bool) op" where
  "poll_io 0 K select hdev s = Some (False, s)"
| "poll_io (Suc n) K select hdev s = do {
     (done, s) \<leftarrow> poll_round K select hdev s;
     (if done then Some (True, s) else poll_io n K select hdev s)
   }"

end
