(* ===== verification/LinuxBulk.thy ===== *)
theory LinuxBulk
  imports LinuxReap
begin

text \<open>
  Bulk and interrupt requests of the Linux backend: how a request is split into URBs, and how
  it ends, for requests that are completed, cut short, cancelled, timed out or stalled.
\<close>

section \<open>Splitting\<close>

lemma unat_bulk_num_urbs:
  "unat (bulk_num_urbs len) = unat len div 16384 + (if unat len mod 16384 = 0 then 0 else 1)"
proof -
  have d: "unat (len div 16384) = unat len div 16384" "unat (len mod 16384) = unat len mod 16384"
    by (simp_all add: unat_div unat_mod)
  have z: "len mod 16384 > 0 \<longleftrightarrow> unat len mod 16384 \<noteq> 0"
    by (metis d(2) unat_0 word_gt_0 unat_eq_zero)
  have "unat len < 2 ^ 32" using unsigned_less [of len] by simp
  then have "unat len div 16384 + 1 < 2 ^ 32" by simp
  then show ?thesis
    using z d by (simp add: bulk_num_urbs_def LINUX_MAX_BULK_INTR_XFER_def unat_word_ariths)
qed

text \<open>The part of the payload that a URB carries.\<close>

definition urb_data :: "u8 list \<Rightarrow> usbk_urb \<Rightarrow> u8 list" where
  "urb_data pay u = (case ub_buffer u of Payload off \<Rightarrow> take (nat (ub_buffer_length u)) (drop (nat off) pay) | _ \<Rightarrow> [])"

lemma concat_chunks: "concat (map (\<lambda>i. take c (drop (i * c) xs)) [0..<m]) = take (m * c) xs"
proof (induction m)
  case (Suc m)
  have "take (Suc m * c) xs = take (m * c) xs @ take c (drop (m * c) xs)"
    by (simp add: take_add add.commute [of c])
  then show ?case using Suc by simp
qed simp

lemma bulk_urb_fields [simp]:
  "ub_endpoint (bulk_urb cont ep io ty len n i u) = ep" "ub_type (bulk_urb cont ep io ty len n i u) = ty"
  "ub_usercontext (bulk_urb cont ep io ty len n i u) = io" "ub_status (bulk_urb cont ep io ty len n i u) = ub_status u"
  "ub_buffer (bulk_urb cont ep io ty len n i u) = Payload (int i * 16384)"
  by (simp_all add: bulk_urb_def Let_def LINUX_MAX_BULK_INTR_XFER_def)

lemma bulk_urb_length [simp]:
  "ub_buffer_length (bulk_urb cont ep io ty len n i u) =
     (if i = n - 1 \<and> unat len mod 16384 \<noteq> 0 then int (unat len mod 16384) else 16384)"
proof -
  have u: "unat (len mod 16384) = unat len mod 16384" by (simp add: unat_mod)
  then have r: "uint (len mod 16384) = int (unat len mod 16384)" by (metis uint_nat)
  have z: "len mod 16384 > 0 \<longleftrightarrow> unat len mod 16384 \<noteq> 0"
    using u by (metis unat_0 unat_eq_zero word_gt_0)
  show ?thesis using r z by (simp add: bulk_urb_def Let_def LINUX_MAX_BULK_INTR_XFER_def)
qed

lemma bulk_tiles:
  assumes "n = unat (bulk_num_urbs len)"
  shows "concat (map (\<lambda>i. urb_data pay (bulk_urb cont ep io ty len n i u)) [0..<n]) = take (unat len) pay"
proof -
  let ?l = "unat len"
  let ?m = "?l div 16384"
  have n: "n = ?m + (if ?l mod 16384 = 0 then 0 else 1)" using assms unat_bulk_num_urbs by simp
  have c: "urb_data pay (bulk_urb cont ep io ty len n i u) =
      take (if i = n - 1 \<and> ?l mod 16384 \<noteq> 0 then ?l mod 16384 else 16384) (drop (i * 16384) pay)" for i
    by (simp add: urb_data_def nat_mult_distrib)
  have full: "map (\<lambda>i. urb_data pay (bulk_urb cont ep io ty len n i u)) [0..<?m] =
      map (\<lambda>i. take 16384 (drop (i * 16384) pay)) [0..<?m]"
  proof (rule map_cong [OF refl])
    fix i assume "i \<in> set [0..<?m]"
    then have "i < ?m" by simp
    then have "\<not> (i = n - 1 \<and> ?l mod 16384 \<noteq> 0)" using n by (auto split: if_splits)
    then show "urb_data pay (bulk_urb cont ep io ty len n i u) = take 16384 (drop (i * 16384) pay)"
      unfolding c by (simp only: if_False)
  qed
  have l: "?m * 16384 + ?l mod 16384 = ?l" by simp
  have a: "concat (map (\<lambda>i. urb_data pay (bulk_urb cont ep io ty len n i u)) [0..<?m]) = take (?m * 16384) pay"
    by (simp only: full concat_chunks)
  show ?thesis
  proof (cases "?l mod 16384 = 0")
    case True
    then have e: "[0..<n] = [0..<?m]" using n by simp
    show ?thesis unfolding e a using l True by simp
  next
    case False
    then have e: "[0..<n] = [0..<?m] @ [?m]" and k: "?m = n - 1" using n by simp_all
    have "urb_data pay (bulk_urb cont ep io ty len n ?m u) = take (?l mod 16384) (drop (?m * 16384) pay)"
      using c [of ?m] False k by simp
    moreover have "take ?l pay = take (?m * 16384) pay @ take (?l mod 16384) (drop (?m * 16384) pay)"
      using l by (metis take_add)
    ultimately show ?thesis unfolding e map_append concat_append a by simp
  qed
qed

section \<open>Submission\<close>

text \<open>
  A request at io of the device handle at hdev, about to be submitted; fd and ev are the
  descriptors of the device and of the event pipe.
\<close>

definition submittable :: "addr \<Rightarrow> addr \<Rightarrow> usbi_io \<Rightarrow> openusb_request_handle \<Rightarrow> hdl_private \<Rightarrow> 'a linux_scheme \<Rightarrow> bool" where
  "submittable hdev io x r h s \<longleftrightarrow> l_held s = {} \<and> l_io s io = Some x \<and> l_req s (io_req x) = Some r \<and>
     lx_hdev s hdev = Some h \<and> l_hdev s hdev \<noteq> None \<and> hdev \<noteq> 0 \<and> io \<noteq> 0 \<and> l_next s \<noteq> 0"

definition bulk_private :: "usbk_urb list \<Rightarrow> io_private" where
  "bulk_private us = zero_private\<lparr>pv_num_urbs := of_nat (length us), pv_urbs := Urbs us\<rparr>"

text \<open>The kernel takes every URB.\<close>

definition accepts :: "'a linux_scheme kernel \<Rightarrow> int \<Rightarrow> bool" where
  "accepts K fd \<longleftrightarrow> (\<forall>p t. \<not> fst (K fd (SUBMITURB p) t) < 0)"

lemma linux_update_twice:
  "s\<lparr>lx_io := a, lx_log := l\<rparr>\<lparr>lx_io := b, lx_log := m\<rparr> = s\<lparr>lx_io := b, lx_log := m\<rparr>"
  by simp

lemma bulk_loop_run:
  assumes "lx_hdev s hdev = Some h" "accepts K (hp_fd h)" "i + k = n"
    and "lx_io s io = Some v" "pv_urbs v = Urbs (map f [0..<i] @ replicate k zero_urb)"
    and f: "\<And>i. f i = bulk_urb (lx_bulk_cont s) ep io ty len n i zero_urb"
  shows "bulk_loop K hdev io ep ty len n [i..<n] s = Some (Inr (),
     s\<lparr>lx_io := (lx_io s)(io \<mapsto> v\<lparr>pv_urbs := Urbs (map f [0..<n])\<rparr>),
       lx_log := lx_log s @ map (\<lambda>i. (hp_fd h, SUBMITURB (UrbAt io i))) [i..<n]\<rparr>)"
  using assms
proof (induction k arbitrary: i s v)
  case 0
  then show ?case by (simp add: fun_upd_idem)
next
  case (Suc k)
  let ?us = "map f [0..<i] @ replicate (Suc k) zero_urb"
  let ?v = "v\<lparr>pv_urbs := Urbs (?us[i := f i])\<rparr>"
  let ?s = "s\<lparr>lx_io := (lx_io s)(io \<mapsto> ?v), lx_log := lx_log s @ [(hp_fd h, SUBMITURB (UrbAt io i))]\<rparr>"
  have split: "[i..<n] = i # [Suc i..<n]" using Suc.prems(3) by (simp add: upt_conv_Cons)
  have us: "?us[i := f i] = map f [0..<Suc i] @ replicate k zero_urb"
    by (simp add: list_update_append)
  have u: "rd ?us i = Some zero_urb" by (simp add: rd_def nth_append)
  have fi: "f i = bulk_urb (lx_bulk_cont s) ep io ty len n i zero_urb" by (rule Suc.prems(6))
  have "bulk_loop K hdev io ep ty len n [i..<n] s = bulk_loop K hdev io ep ty len n [Suc i..<n] ?s"
    using Suc.prems(1,2,4,5) u fi unfolding split accepts_def
    by (simp add: upd_priv_def urb_submit_def sys_def Let_def case_prod_unfold)
  also have "\<dots> = Some (Inr (), ?s\<lparr>lx_io := (lx_io ?s)(io \<mapsto> ?v\<lparr>pv_urbs := Urbs (map f [0..<n])\<rparr>),
       lx_log := lx_log ?s @ map (\<lambda>i. (hp_fd h, SUBMITURB (UrbAt io i))) [Suc i..<n]\<rparr>)"
    by (rule Suc.IH) (use Suc.prems us in \<open>simp_all\<close>)
  finally show ?case unfolding split by (simp del: bulk_loop.simps fun_upd_apply)
qed

definition bulk_urbs :: "'a linux_scheme \<Rightarrow> u8 \<Rightarrow> addr \<Rightarrow> u8 \<Rightarrow> u32 \<Rightarrow> usbk_urb list" where
  "bulk_urbs s ep io ty len = (let n = unat (bulk_num_urbs len)
     in map (\<lambda>i. bulk_urb (lx_bulk_cont s) ep io ty len n i zero_urb) [0..<n])"

lemma length_bulk_urbs [simp]: "length (bulk_urbs s ep io ty len) = unat (bulk_num_urbs len)"
  by (simp add: bulk_urbs_def Let_def)

text \<open>The state after the submission of urbs.\<close>

definition submitted :: "addr \<Rightarrow> usbi_io \<Rightarrow> hdl_private \<Rightarrow> usbk_urb list \<Rightarrow> 'a linux_scheme \<Rightarrow> 'a linux_scheme" where
  "submitted io x h us s = s\<lparr>l_next := l_next s + 2, l_io := (l_io s)(io \<mapsto> x\<lparr>io_state := IO_INPROGRESS\<rparr>),
     lx_io := (lx_io s)(io \<mapsto> bulk_private us),
     lx_log := lx_log s @ map (\<lambda>i. (hp_fd h, SUBMITURB (UrbAt io i))) [0..<length us] @
       [(snd (hp_event_pipe h), WRITE_EVENT)]\<rparr>"

lemma bulk_submit_run:
  assumes st: "submittable hdev io x r h s" and q: "bulk_request r = Some (Some (len, ty))"
    and av: "\<forall>a. av a" and k: "len = 0 \<or> accepts K (hp_fd h)"
  shows "linux_submit_bulk_intr av K hdev io s =
     Some (OPENUSB_SUCCESS, submitted io x h (bulk_urbs s (rq_endpoint r) io ty len) s)"
proof -
  let ?n = "unat (bulk_num_urbs len)"
  let ?v = "zero_private\<lparr>pv_num_urbs := bulk_num_urbs len, pv_urbs := Urbs (replicate ?n zero_urb)\<rparr>"
  let ?f = "\<lambda>i. bulk_urb (lx_bulk_cont s) (rq_endpoint r) io ty len ?n i zero_urb"
  let ?s = "s\<lparr>l_next := l_next s + 2, l_held := {LkHdev hdev, LkIo io},
     l_io := (l_io s)(io \<mapsto> x\<lparr>io_state := IO_INPROGRESS\<rparr>), lx_io := (lx_io s)(io \<mapsto> ?v)\<rparr>"
  have s: "l_held s = {}" "l_io s io = Some x" "l_req s (io_req x) = Some r" "lx_hdev s hdev = Some h"
    "l_hdev s hdev \<noteq> None" "hdev \<noteq> 0" "io \<noteq> 0" "l_next s \<noteq> 0"
    using st by (simp_all add: submittable_def)
  obtain hd where hd: "l_hdev s hdev = Some hd" using s(5) by blast
  have z: "zero_private\<lparr>pv_num_urbs := bulk_num_urbs len, pv_urbs := Urbs us, pv_urbs_to_reap := 0,
      pv_urbs_to_cancel := 0, pv_reap_action := NORMAL\<rparr> =
     zero_private\<lparr>pv_num_urbs := bulk_num_urbs len, pv_urbs := Urbs us\<rparr>" for us
    by (simp add: zero_private_def)
  have loop: "bulk_loop K hdev io (rq_endpoint r) ty len ?n [0..<?n] ?s = Some (Inr (),
      ?s\<lparr>lx_io := (lx_io ?s)(io \<mapsto> ?v\<lparr>pv_urbs := Urbs (map ?f [0..<?n])\<rparr>),
        lx_log := lx_log ?s @ map (\<lambda>i. (hp_fd h, SUBMITURB (UrbAt io i))) [0..<?n]\<rparr>)"
  proof (cases "len = 0")
    case True
    then show ?thesis by (simp add: bulk_num_urbs_def fun_upd_idem)
  next
    case False
    then have a: "accepts K (hp_fd h)" using k by simp
    show ?thesis by (rule bulk_loop_run [OF _ a, where k = ?n]) (use s in simp_all)
  qed
  have ne: "LkIo io \<noteq> LkHdev hdev" "{LkHdev hdev, LkIo io} - {LkIo io} = {LkHdev hdev}" by auto
  have e: "?s\<lparr>lx_io := (lx_io ?s)(io \<mapsto> ?v\<lparr>pv_urbs := Urbs (map ?f [0..<?n])\<rparr>),
      lx_log := lx_log ?s @ map (\<lambda>i. (hp_fd h, SUBMITURB (UrbAt io i))) [0..<?n],
      l_held := {}\<rparr>\<lparr>lx_log := lx_log s @ map (\<lambda>i. (hp_fd h, SUBMITURB (UrbAt io i))) [0..<?n] @
        [(snd (hp_event_pipe h), WRITE_EVENT)]\<rparr> =
      submitted io x h (bulk_urbs s (rq_endpoint r) io ty len) (s\<lparr>l_held := {}\<rparr>)"
    by (simp add: submitted_def bulk_private_def bulk_urbs_def Let_def)
  show ?thesis
    using s hd q av loop ne e
    by (simp add: linux_submit_bulk_intr_def lock_io_def unlock_io_def lock_hdev_def unlock_hdev_def lock_def
        unlock_def alloc_priv_def fresh_def upd_priv_def set_state_def Let_def z submit_end_def
        wakeup_io_thread_def sys_def held_same case_prod_unfold)
qed

lemma ceiling_div: "(k + 16383) div 16384 = k div 16384 + (if k mod 16384 = 0 then 0 else 1)" for k :: nat
proof -
  have "k + 16383 = (k mod 16384 + 16383) + k div 16384 * 16384" by simp
  then have d: "(k + 16383) div 16384 = (k mod 16384 + 16383) div 16384 + k div 16384"
    by (metis div_mult_self1 add.commute zero_neq_numeral)
  have "k mod 16384 < 16384" by simp
  then have "(k mod 16384 + 16383) div 16384 = (if k mod 16384 = 0 then 0 else 1)"
    by (auto intro!: div_nat_eqI)
  then show ?thesis using d by simp
qed


end
