(* ===== verification/LinuxEnd.thy ===== *)
theory LinuxEnd
  imports LinuxBulk
begin

text \<open>
  How the bulk and interrupt requests of the Linux backend end. flight io v L s is the state s
  while the request io is with the kernel: only its private part v and the log of the system
  calls change until it is completed.
\<close>

section \<open>Requests in flight\<close>

definition flight :: "addr \<Rightarrow> io_private \<Rightarrow> (int \<times> syscall) list \<Rightarrow> 'a linux_scheme \<Rightarrow> 'a linux_scheme" where
  "flight io v L s = s\<lparr>lx_io := (lx_io s)(io \<mapsto> v), lx_log := L\<rparr>"

lemma flight_fields [simp]:
  "lx_io (flight io v L s) io = Some v" "l_io (flight io v L s) = l_io s" "l_req (flight io v L s) = l_req s"
  "lx_hdev (flight io v L s) = lx_hdev s" "lx_log (flight io v L s) = L" "l_held (flight io v L s) = l_held s"
  "l_hdev (flight io v L s) = l_hdev s" "l_hdl (flight io v L s) = l_hdl s"
  by (simp_all add: flight_def)

lemma flight_upd [simp]: "upd_priv io f (flight io v L s) = Some (flight io (f v) L s)"
  by (simp add: upd_priv_def flight_def)

lemma flight_sys [simp]: "sys K fd c (flight io v L s) = (K fd c (flight io v L s), flight io v (L @ [(fd, c)]) s)"
  by (simp add: sys_def flight_def)

text \<open>What the kernel stores in the i-th URB of the request io when it is done with it.\<close>

definition urb_done :: "addr \<Rightarrow> nat \<Rightarrow> int \<Rightarrow> int \<Rightarrow> 'a linux_scheme \<Rightarrow> 'a linux_scheme" where
  "urb_done io i st n s = (case lx_io s io of None \<Rightarrow> s
     | Some v \<Rightarrow> (case pv_urbs v of
         Urbs us \<Rightarrow> s\<lparr>lx_io := (lx_io s)(io \<mapsto> v\<lparr>pv_urbs :=
           Urbs (us[i := (us ! i)\<lparr>ub_status := st, ub_actual_length := n\<rparr>])\<rparr>)\<rparr>
       | _ \<Rightarrow> s))"

lemma urb_done_flight: "pv_urbs v = Urbs us \<Longrightarrow> urb_done io i st n (flight io v L s) =
    flight io (v\<lparr>pv_urbs := Urbs (us[i := (us ! i)\<lparr>ub_status := st, ub_actual_length := n\<rparr>])\<rparr>) L s"
  by (simp add: urb_done_def flight_def)

lemma urb_at_flight: "pv_urbs v = Urbs us \<Longrightarrow> urb_at (UrbAt io i) (flight io v L s) = rd us i"
  by (simp add: urb_at_def)

text \<open>The request is one for a bulk or interrupt endpoint of the device handle at hdev.\<close>

definition bulk_at :: "addr \<Rightarrow> addr \<Rightarrow> usbi_io \<Rightarrow> openusb_request_handle \<Rightarrow> hdl_private \<Rightarrow> 'a linux_scheme \<Rightarrow> bool" where
  "bulk_at hdev io x r h s \<longleftrightarrow> l_io s io = Some x \<and> l_req s (io_req x) = Some r \<and>
     (rq_type r = USB_TYPE_BULK \<or> rq_type r = USB_TYPE_INTERRUPT) \<and> lx_hdev s hdev = Some h"

lemma reap_bulk:
  assumes "bulk_at hdev io x r h s" "pv_urbs v = Urbs us" "i < length us" "ub_usercontext (us ! i) = io"
  shows "reap_one K hdev (UrbAt io i) (flight io v L s) =
     handle_bulk_intr_complete K hdev (UrbAt io i) (flight io v L s)"
  using assms by (auto simp: reap_one_def urb_at_flight rd_def bulk_at_def Let_def usb_types)

lemma flags_kept [simp]:
  "ub_flags (u\<lparr>ub_status := a, ub_actual_length := b\<rparr>) = ub_flags u"
  "ub_usercontext (u\<lparr>ub_status := a, ub_actual_length := b\<rparr>) = ub_usercontext u"
  by simp_all

section \<open>Reaping while a request is being ended\<close>

lemma reap_ending:
  assumes b: "bulk_at hdev io x r h s" and u: "pv_urbs v = Urbs us" "i < length us" "ub_usercontext (us ! i) = io"
    and a: "pv_reap_action v \<noteq> NORMAL"
    and d: "u' = (us ! i)\<lparr>ub_status := st, ub_actual_length := n\<rparr>"
    and v: "v1 = v\<lparr>pv_urbs := Urbs (us[i := u'])\<rparr>"
    and v': "v2 = count_reaped u' (if st = 0 \<or> st = - EREMOTEIO
       then v1\<lparr>pv_bytes_transferred := pv_bytes_transferred v1 + of_int n\<rparr> else v1)"
  shows "reap_one K hdev (UrbAt io i) (urb_done io i st n (flight io v L s)) =
     (if pv_urbs_to_reap v2 = 0 \<and> pv_urbs_to_cancel v2 = 0 then finish_early io (pv_reap_action v) (flight io v2 L s)
      else Some (flight io v2 L s))"
proof -
  have v1: "pv_urbs v1 = Urbs (us[i := u'])" "pv_reap_action v1 = pv_reap_action v" using v by simp_all
  have e: "urb_done io i st n (flight io v L s) = flight io v1 L s"
    using urb_done_flight [OF u(1)] v d by simp
  have i: "us[i := u'] ! i = u'" "rd (us[i := u']) i = Some u'" using u(2) by (simp_all add: rd_def)
  have c: "pv_reap_action (count_reaped w p) = pv_reap_action p" for w p by (simp add: count_reaped_def)
  have uc: "ub_usercontext u' = io" "ub_status u' = st" "ub_actual_length u' = n" using d u(3) by simp_all
  have "reap_one K hdev (UrbAt io i) (flight io v1 L s) =
      handle_bulk_intr_complete K hdev (UrbAt io i) (flight io v1 L s)"
    by (rule reap_bulk [OF b v1(1)]) (use u(2) i uc in simp_all)
  then show ?thesis
    using e i uc v1 a v' c
    by (simp add: handle_bulk_intr_complete_def urb_at_flight Let_def)
qed

text \<open>
  The URBs us of the request keep their flags, lengths and the pointer to it. The URBs is are
  still with the kernel: those with C are cancelled, the others complete.
\<close>

definition shaped :: "addr \<Rightarrow> usbk_urb list \<Rightarrow> usbk_urb list \<Rightarrow> bool" where
  "shaped io us vs \<longleftrightarrow> length vs = length us \<and> (\<forall>j < length us. ub_usercontext (vs ! j) = io \<and>
     ub_flags (vs ! j) = ub_flags (us ! j) \<and> ub_buffer_length (vs ! j) = ub_buffer_length (us ! j))"

lemma shaped_done: "shaped io us vs \<Longrightarrow> i < length us \<Longrightarrow>
    shaped io us (vs[i := (vs ! i)\<lparr>ub_status := a, ub_actual_length := b\<rparr>])"
  by (auto simp: shaped_def nth_list_update)

definition continuation :: "usbk_urb \<Rightarrow> bool" where
  "continuation u \<longleftrightarrow> ub_flags u AND USBK_URB_BULK_CONTINUATION \<noteq> 0"

definition ending_status :: "usbk_urb list \<Rightarrow> (nat \<Rightarrow> bool) \<Rightarrow> (nat \<Rightarrow> int) \<Rightarrow> nat \<Rightarrow> bool" where
  "ending_status us C st i \<longleftrightarrow>
     (if C i then st i = - ENOENT \<or> st i = - ECONNRESET \<and> continuation (us ! i) else st i = 0)"

definition reaps :: "addr \<Rightarrow> (nat \<Rightarrow> int) \<Rightarrow> (nat \<Rightarrow> int) \<Rightarrow> nat list \<Rightarrow>
    (urb_ptr \<times> ('a linux_scheme \<Rightarrow> 'a linux_scheme)) list" where
  "reaps io st n is = map (\<lambda>i. (UrbAt io i, urb_done io i (st i) (n i))) is"

lemma reaps_simps [simp]: "reaps io st n [] = []"
  "reaps io st n (i # is) = (UrbAt io i, urb_done io i (st i) (n i)) # reaps io st n is"
  "reaps io st n (is @ js) = reaps io st n is @ reaps io st n js"
  by (simp_all add: reaps_def)

text \<open>The private part when all of is are back and m URBs are still counted.\<close>

definition ended_private :: "usbk_urb list \<Rightarrow> nat \<Rightarrow> int \<Rightarrow> io_private \<Rightarrow> io_private" where
  "ended_private us m n v = v\<lparr>pv_urbs := Urbs us, pv_urbs_to_cancel := 0, pv_urbs_to_reap := of_nat m,
     pv_bytes_transferred := pv_bytes_transferred v + of_int n\<rparr>"

lemma of_nat_u32_zero: "k < 2 ^ 32 \<Longrightarrow> (of_nat k = (0 :: u32)) \<longleftrightarrow> k = 0"
  by (auto simp: word_of_nat_eq_0_iff dest: nat_dvd_not_less)

lemma filter_lengths:
  "length (filter C is) \<le> length is" "length (filter C is) + length (filter (\<lambda>i. \<not> C i) is) = length is"
  by (simp_all add: sum_length_filter_compl)

lemma count_reaped_step:
  assumes "ub_status u = st i" "ub_flags u = ub_flags (us ! i)" "ending_status us C st i"
    and "pv_urbs_to_cancel v = of_nat (length (filter C (i # is)))"
    and "pv_urbs_to_reap v = of_nat (length (filter (\<lambda>i. \<not> C i) (i # is)) + m)"
    and "length (i # is) + m < 2 ^ 32"
  shows "count_reaped u v = v\<lparr>pv_urbs_to_cancel := of_nat (length (filter C is)),
     pv_urbs_to_reap := of_nat (length (filter (\<lambda>i. \<not> C i) is) + m)\<rparr>"
proof -
  have l: "length (filter C is) + 1 < 2 ^ 32" "length (filter (\<lambda>i. \<not> C i) is) + m + 1 < 2 ^ 32"
    using assms(6) filter_lengths [of C "is"] unfolding list.size by linarith+
  have nz: "(1 + of_nat (length (filter C is)) :: u32) \<noteq> 0"
    "(1 + (of_nat (length (filter (\<lambda>i. \<not> C i) is)) + of_nat m) :: u32) \<noteq> 0"
    using of_nat_u32_zero [OF l(1)] of_nat_u32_zero [OF l(2)] by (simp_all add: add_ac)
  show ?thesis
  proof (cases "C i")
    case True
    then have "st i = - ENOENT \<or> st i = - ECONNRESET \<and> continuation u"
      using assms(2,3) by (simp add: ending_status_def continuation_def)
    then show ?thesis using True assms(1,4,5) nz(1)
      by (cases v) (auto simp: count_reaped_def continuation_def errnos)
  next
    case False
    then have "st i = 0" using assms(3) by (simp add: ending_status_def)
    then show ?thesis using False assms(1,4,5) nz(2)
      by (cases v) (simp add: count_reaped_def errnos add_ac)
  qed
qed

lemma ending_run:
  assumes b: "bulk_at hdev io x r h s" and a: "a \<noteq> NORMAL"
  shows "pv_urbs v = Urbs vs \<Longrightarrow> shaped io us vs \<Longrightarrow> pv_reap_action v = a \<Longrightarrow>
    pv_urbs_to_cancel v = of_nat (length (filter C is)) \<Longrightarrow>
    pv_urbs_to_reap v = of_nat (length (filter (\<lambda>i. \<not> C i) is) + m) \<Longrightarrow> length is + m < 2 ^ 32 \<Longrightarrow>
    \<forall>i \<in> set is. i < length us \<and> ending_status us C st i \<Longrightarrow> is \<noteq> [] \<or> m \<noteq> 0 \<Longrightarrow>
    \<exists>ws. shaped io us ws \<and> io_complete K hdev (reaps io st n is) (flight io v L s) =
      (let t = flight io (ended_private ws m (\<Sum>i \<leftarrow> filter (\<lambda>i. \<not> C i) is. n i) v) L s
       in if m = 0 then map_option (Pair OPENUSB_SUCCESS) (finish_early io a t) else Some (OPENUSB_SUCCESS, t))"
proof (induction "is" arbitrary: v vs)
  case Nil
  then show ?case
    by (intro exI [of _ vs]) (cases v; simp add: ended_private_def)
next
  case (Cons i "is")
  let ?u = "(vs ! i)\<lparr>ub_status := st i, ub_actual_length := n i\<rparr>"
  let ?vs = "vs[i := ?u]"
  let ?b = "pv_bytes_transferred v + (if C i then 0 else of_int (n i))"
  let ?v = "v\<lparr>pv_urbs := Urbs ?vs, pv_urbs_to_cancel := of_nat (length (filter C is)),
     pv_urbs_to_reap := of_nat (length (filter (\<lambda>i. \<not> C i) is) + m), pv_bytes_transferred := ?b\<rparr>"
  have i: "i < length us" "i < length vs" "ending_status us C st i" "ub_usercontext (vs ! i) = io"
    "ub_flags (vs ! i) = ub_flags (us ! i)" using Cons.prems(2,7) by (simp_all add: shaped_def)
  have sh: "shaped io us ?vs" using shaped_done [OF Cons.prems(2) i(1)] .
  have st: "(st i = 0 \<or> st i = - EREMOTEIO) \<longleftrightarrow> \<not> C i"
    using i(3) by (auto simp: ending_status_def errnos)
  let ?v1 = "v\<lparr>pv_urbs := Urbs ?vs, pv_bytes_transferred := ?b\<rparr>"
  have cr: "count_reaped ?u ?v1 = ?v"
    using count_reaped_step [of ?u st i us C ?v1 "is" m] i(3,5) Cons.prems(4-6) by simp
  have r: "reap_one K hdev (UrbAt io i) (urb_done io i (st i) (n i) (flight io v L s)) =
     (if pv_urbs_to_reap ?v = 0 \<and> pv_urbs_to_cancel ?v = 0 then finish_early io a (flight io ?v L s)
      else Some (flight io ?v L s))"
    using reap_ending [OF b Cons.prems(1) i(2,4) _ refl refl refl] Cons.prems(3) a st cr
    by (cases "C i") simp_all
  have l: "length (filter C is) < 2 ^ 32" "length (filter (\<lambda>i. \<not> C i) is) + m < 2 ^ 32"
    using Cons.prems(6) filter_lengths [of C "is"] unfolding list.size by linarith+
  note len = filter_lengths(2) [of C "is"]
  have z: "(pv_urbs_to_reap ?v = 0 \<and> pv_urbs_to_cancel ?v = 0) \<longleftrightarrow> is = [] \<and> m = 0"
    using of_nat_u32_zero [OF l(1)] of_nat_u32_zero [OF l(2)] len by auto
  have r2: "reap_one K hdev (UrbAt io i) (urb_done io i (st i) (n i) (flight io v L s)) =
     (if is = [] \<and> m = 0 then finish_early io a (flight io ?v L s) else Some (flight io ?v L s))"
    by (simp only: r z)
  show ?case
  proof (cases "is = [] \<and> m = 0")
    case True
    then have e: "?v = ended_private ?vs m (\<Sum>i \<leftarrow> filter (\<lambda>i. \<not> C i) (i # is). n i) v"
      by (cases v) (simp add: ended_private_def)
    have "reap_one K hdev (UrbAt io i) (urb_done io i (st i) (n i) (flight io v L s)) = finish_early io a (flight io ?v L s)"
      unfolding r2 by (rule if_P [OF True])
    then have "io_complete K hdev (reaps io st n (i # is)) (flight io v L s) =
        map_option (Pair OPENUSB_SUCCESS) (finish_early io a (flight io ?v L s))"
      using True by (cases "finish_early io a (flight io ?v L s)") simp_all
    then show ?thesis unfolding e Let_def using sh True by (intro exI [of _ ?vs]) simp
  next
    case False
    obtain ws where w: "shaped io us ws" "io_complete K hdev (reaps io st n is) (flight io ?v L s) =
      (let t = flight io (ended_private ws m (\<Sum>i \<leftarrow> filter (\<lambda>i. \<not> C i) is. n i) ?v) L s
       in if m = 0 then map_option (Pair OPENUSB_SUCCESS) (finish_early io a t) else Some (OPENUSB_SUCCESS, t))"
      using Cons.IH [of ?v ?vs] sh Cons.prems(3,6,7) False by auto
    have e: "ended_private ws m (\<Sum>i \<leftarrow> filter (\<lambda>i. \<not> C i) is. n i) ?v =
        ended_private ws m (\<Sum>i \<leftarrow> filter (\<lambda>i. \<not> C i) (i # is). n i) v"
      by (simp add: ended_private_def add_ac)
    have "reap_one K hdev (UrbAt io i) (urb_done io i (st i) (n i) (flight io v L s)) = Some (flight io ?v L s)"
      unfolding r2 by (rule if_not_P [OF False])
    then have "io_complete K hdev (reaps io st n (i # is)) (flight io v L s) =
        io_complete K hdev (reaps io st n is) (flight io ?v L s)" by simp
    then show ?thesis using w unfolding e by (intro exI [of _ ws]) simp
  qed
qed

section \<open>Discarding\<close>

text \<open>
  For the URBs in D the kernel either cancels (those with C) or answers EINVAL, which it does
  for a URB that is complete.
\<close>

definition discards :: "'a linux_scheme kernel \<Rightarrow> int \<Rightarrow> addr \<Rightarrow> nat set \<Rightarrow> (nat \<Rightarrow> bool) \<Rightarrow> bool" where
  "discards K fd io D C \<longleftrightarrow> (\<forall>i \<in> D. \<forall>t. (fst (K fd (DISCARDURB (UrbAt io i)) t) = 0 \<longleftrightarrow> C i) \<and>
     (\<not> C i \<longrightarrow> snd (K fd (DISCARDURB (UrbAt io i)) t) = EINVAL))"

definition counted_private :: "(nat \<Rightarrow> bool) \<Rightarrow> nat list \<Rightarrow> io_private \<Rightarrow> io_private" where
  "counted_private C is v = v\<lparr>pv_urbs_to_cancel := pv_urbs_to_cancel v + of_nat (length (filter C is)),
     pv_urbs_to_reap := pv_urbs_to_reap v + of_nat (length (filter (\<lambda>i. \<not> C i) is))\<rparr>"

lemma counted_private_simps [simp]:
  "counted_private C [] v = v"
  "pv_urbs (counted_private C is v) = pv_urbs v" "pv_reap_action (counted_private C is v) = pv_reap_action v"
  "pv_num_urbs (counted_private C is v) = pv_num_urbs v"
  "pv_bytes_transferred (counted_private C is v) = pv_bytes_transferred v"
  by (simp_all add: counted_private_def)

lemma counted_private_Cons: "counted_private C (i # is) v = counted_private C is
    (if C i then v\<lparr>pv_urbs_to_cancel := pv_urbs_to_cancel v + 1\<rparr> else v\<lparr>pv_urbs_to_reap := pv_urbs_to_reap v + 1\<rparr>)"
  by (simp add: counted_private_def add_ac)

lemma discard_one_run:
  assumes "lx_hdev s hdev = Some h" "discards K (hp_fd h) io D C" "i \<in> D"
  shows "discard_one K hdev io i (flight io v L s) = Some (flight io (counted_private C [i] v)
    (L @ [(hp_fd h, DISCARDURB (UrbAt io i))]) s)"
proof -
  let ?k = "K (hp_fd h) (DISCARDURB (UrbAt io i)) (flight io v L s)"
  have "(fst ?k = 0 \<longleftrightarrow> C i)" "\<not> C i \<longrightarrow> snd ?k = EINVAL" using assms(2,3) unfolding discards_def by blast+
  then show ?thesis using assms(1)
    by (simp add: discard_one_def Let_def case_prod_unfold counted_private_Cons)
qed

lemma discard_run:
  assumes "lx_hdev s hdev = Some h" "discards K (hp_fd h) io D C"
  shows "set is \<subseteq> D \<Longrightarrow> discard_loop K hdev io is (flight io v L s) = Some (flight io (counted_private C is v)
    (L @ map (\<lambda>i. (hp_fd h, DISCARDURB (UrbAt io i))) is) s)"
proof (induction "is" arbitrary: v L)
  case (Cons i "is")
  then have "i \<in> D" by simp
  then have "discard_one K hdev io i (flight io v L s) = Some (flight io (counted_private C [i] v)
      (L @ [(hp_fd h, DISCARDURB (UrbAt io i))]) s)" by (rule discard_one_run [OF assms])
  then show ?case using Cons by (simp add: counted_private_Cons)
qed simp

text \<open>The calls that handle_partial_xfer makes, all but those for continuation URBs.\<close>

lemma partial_run:
  assumes "lx_hdev s hdev = Some h" "discards K (hp_fd h) io D C"
  shows "set is \<subseteq> D \<Longrightarrow> pv_urbs v = Urbs us \<Longrightarrow> \<forall>i \<in> set is. i < length us \<and> (continuation (us ! i) \<longrightarrow> C i) \<Longrightarrow>
    partial_loop K hdev io is (flight io v L s) = Some (flight io (counted_private C is v)
      (L @ map (\<lambda>i. (hp_fd h, DISCARDURB (UrbAt io i))) (filter (\<lambda>i. \<not> continuation (us ! i)) is)) s)"
proof (induction "is" arbitrary: v L)
  case (Cons i "is")
  let ?L = "if continuation (us ! i) then L else L @ [(hp_fd h, DISCARDURB (UrbAt io i))]"
  have i: "i \<in> D" "i < length us" "continuation (us ! i) \<longrightarrow> C i" using Cons.prems by simp_all
  have "partial_one K hdev io i (flight io v L s) = Some (flight io (counted_private C [i] v) ?L s)"
    using i discard_one_run [OF assms i(1)] Cons.prems(2)
    by (auto simp: partial_one_def urb_at_flight rd_def continuation_def counted_private_Cons)
  then show ?case using Cons by (simp add: counted_private_Cons)
qed simp

section \<open>Reaping in the normal case\<close>

lemma io_complete_append: "io_complete K hdev (ps @ qs) s =
    do { (_, s) \<leftarrow> io_complete K hdev ps s; io_complete K hdev qs s }"
proof (induction ps arbitrary: s)
  case (Cons a ps)
  then show ?case by (cases a; cases "reap_one K hdev (fst a) (snd a s)") simp_all
qed simp

lemma of_nat_u32_inj: "i < 2 ^ 32 \<Longrightarrow> j < 2 ^ 32 \<Longrightarrow> (word_of_nat i = (word_of_nat j :: u32)) \<longleftrightarrow> i = j"
  by (auto simp: word_of_nat_eq_iff take_bit_nat_eq_self)

text \<open>One URB that the kernel has completed.\<close>

lemma reap_normal:
  assumes b: "bulk_at hdev io x r h s" and u: "pv_urbs v = Urbs us" "i < length us" "ub_usercontext (us ! i) = io"
    and a: "pv_reap_action v = NORMAL" and st: "st = 0 \<or> st = - EREMOTEIO" and num: "pv_num_urbs v = of_nat (length us)"
    and l: "length us < 2 ^ 32"
    and v': "v' = v\<lparr>pv_urbs := Urbs (us[i := (us ! i)\<lparr>ub_status := st, ub_actual_length := n\<rparr>]),
       pv_bytes_transferred := pv_bytes_transferred v + of_int n\<rparr>"
  shows "reap_one K hdev (UrbAt io i) (urb_done io i st n (flight io v L s)) =
     (if i + 1 = length us then do { s \<leftarrow> complete_with io OPENUSB_SUCCESS (flight io v' L s); free_urbs io s }
      else if n < ub_buffer_length (us ! i) then handle_partial_xfer K hdev io (i + 1) COMPLETED_EARLY (flight io v' L s)
      else Some (flight io v' L s))"
proof -
  let ?u = "(us ! i)\<lparr>ub_status := st, ub_actual_length := n\<rparr>"
  let ?v = "v\<lparr>pv_urbs := Urbs (us[i := ?u])\<rparr>"
  have e: "urb_done io i st n (flight io v L s) = flight io ?v L s"
    by (rule urb_done_flight [OF u(1)])
  have i: "rd (us[i := ?u]) i = Some ?u" "us[i := ?u] ! i = ?u" using u(2) by (simp_all add: rd_def)
  have last: "(word_of_nat i = pv_num_urbs v - 1) \<longleftrightarrow> i + 1 = length us"
  proof -
    have "pv_num_urbs v - 1 = word_of_nat (length us - 1)" using num u(2) by (simp add: of_nat_diff)
    moreover have "(word_of_nat i :: u32) = word_of_nat (length us - 1) \<longleftrightarrow> i = length us - 1"
      by (rule of_nat_u32_inj) (use u(2) l in linarith)+
    ultimately show ?thesis using u(2) by auto
  qed
  have "reap_one K hdev (UrbAt io i) (flight io ?v L s) = handle_bulk_intr_complete K hdev (UrbAt io i) (flight io ?v L s)"
    by (rule reap_bulk [OF b, where us = "us[i := ?u]"]) (use u i in simp_all)
  then show ?thesis
    using e i u(3) a st last v'
    by (simp add: handle_bulk_intr_complete_def urb_at_flight Let_def)
qed

end
