(* ===== verification/LinuxOutcome.thy ===== *)
theory LinuxOutcome
  imports LinuxEnd
begin

text \<open>
  The outcomes of the bulk and interrupt requests of the Linux backend: the request that is
  completed or cut short, the one that is cancelled, the one that stalls, the empty one.
\<close>

section \<open>Reporting\<close>

text \<open>
  The asynchronous request at io can be reported: its pointers are good, and the mutexes that
  usbi_io_complete takes are free.
\<close>

definition reportable :: "addr \<Rightarrow> usbi_io \<Rightarrow> openusb_request_handle \<Rightarrow> 'a linux_scheme \<Rightarrow> bool" where
  "reportable io x r s \<longleftrightarrow> l_io s io = Some x \<and> io_async x \<and> \<not> io_callback x \<and> l_req s (io_req x) = Some r \<and>
     req_ok r \<and> LkIo io \<notin> l_held s \<and> (\<exists>v h. l_hdev s (io_dev x) = Some v \<and> l_hdl s (hv_lib_hdl v) = Some h \<and>
       LkComplete (hv_lib_hdl v) \<notin> l_held s)"

text \<open>
  From s to t the request is reported with a status and a number of bytes: the result is in
  the request, the usbi_io has left io_head and is the last of the complete_list of its
  library handle, whose count is one higher, and the memory of its URBs is free.
\<close>

definition reported :: "addr \<Rightarrow> usbi_io \<Rightarrow> openusb_request_handle \<Rightarrow> int \<Rightarrow> u32 \<Rightarrow> 'a linux_scheme \<Rightarrow> 'a linux_scheme \<Rightarrow> bool" where
  "reported io x r st nbytes s t \<longleftrightarrow> (\<exists>q v h p.
     set_result (rq_type r) st nbytes (rq_req r) = Some q \<and> l_req t = (l_req s)(io_req x \<mapsto> r\<lparr>rq_req := q\<rparr>) \<and>
     l_hdev s (io_dev x) = Some v \<and> l_hdev t (io_dev x) = Some (v\<lparr>hv_io_head := remove1 io (hv_io_head v)\<rparr>) \<and>
     l_hdl s (hv_lib_hdl v) = Some h \<and> l_hdl t (hv_lib_hdl v) = Some (h\<lparr>
       hd_complete_list := remove1 io (hd_complete_list h) @ [io], hd_complete_count := hd_complete_count h + 1\<rparr>) \<and>
     l_io t = (l_io s)(io \<mapsto> x\<lparr>io_state := IO_COMPLETED\<rparr>) \<and> l_held t = l_held s \<and>
     lx_io t io = Some p \<and> pv_urbs p = FreedUrbs)"

lemma complete_held_run:
  assumes "l_io s io = Some x" "io_async x" "\<not> io_callback x" "LkIo io \<notin> l_held s"
    and "l_hdev s (io_dev x) = Some v" "l_hdl s (hv_lib_hdl v) = Some h" "LkComplete (hv_lib_hdl v) \<notin> l_held s"
    and "l_req s (io_req x) = Some r" "set_result (rq_type r) st (ucast n) (rq_req r) = Some q"
  shows "usbi_io_complete io st n s = Some ((), (delivered io (io_dev x) q s)\<lparr>
     l_io := (l_io s)(io \<mapsto> x\<lparr>io_state := IO_COMPLETED\<rparr>),
     l_req_cbs := l_req_cbs s @ (if rq_cb r then [io_req x] else [])\<rparr>)"
proof -
  have c: "io_unlink io (t\<lparr>l_held := l\<rparr>) = (io_unlink io t)\<lparr>l_held := l\<rparr>" for t l
    by (simp add: io_unlink_def)
  have n: "l_req_cbs (io_unlink io s) = l_req_cbs s" by (simp add: io_unlink_def)
  obtain H where H: "l_held s = H" by simp
  show ?thesis
    using assms H
    by (simp add: usbi_io_complete_def add_complete_def lock_io_def unlock_io_def lock_def unlock_def
        Let_def held_same c n delivered_def ls_add_def)
qed

lemma report_flight:
  assumes "reportable io x r s"
  shows "\<exists>t. complete_with io st (flight io v L s) = Some t \<and> lx_io t io = Some v \<and>
     (\<forall>p. pv_urbs p = FreedUrbs \<longrightarrow> reported io x r st (pv_bytes_transferred v) s (t\<lparr>lx_io := (lx_io t)(io \<mapsto> p)\<rparr>))"
proof -
  obtain hv h where s: "l_io s io = Some x" "io_async x" "\<not> io_callback x" "l_req s (io_req x) = Some r"
    "req_ok r" "LkIo io \<notin> l_held s" "l_hdev s (io_dev x) = Some hv" "l_hdl s (hv_lib_hdl hv) = Some h"
    "LkComplete (hv_lib_hdl hv) \<notin> l_held s"
    using assms unfolding reportable_def by blast
  let ?b = "pv_bytes_transferred v"
  obtain q where q: "set_result (rq_type r) st ?b (rq_req r) = Some q"
    using req_ok_result [OF s(5)] by blast
  have u: "ucast (ucast ?b :: u64) = ?b"
    by (rule bit_word_eqI) (auto simp: bit_ucast_iff dest: bit_imp_le_length)
  let ?f = "flight io v L s"
  let ?t = "(delivered io (io_dev x) q ?f)\<lparr>l_io := (l_io ?f)(io \<mapsto> x\<lparr>io_state := IO_COMPLETED\<rparr>),
     l_req_cbs := l_req_cbs ?f @ (if rq_cb r then [io_req x] else [])\<rparr>"
  have "usbi_io_complete io st (ucast ?b) ?f = Some ((), ?t)"
    by (rule complete_held_run) (use s q u in simp_all)
  moreover have lx: "lx_io ?t = lx_io ?f" by (simp add: delivered_def io_unlink_def Let_def)
  ultimately have "complete_with io st ?f = Some ?t" by (simp add: complete_with_def)
  moreover have "reported io x r st ?b s (?t\<lparr>lx_io := (lx_io ?t)(io \<mapsto> p)\<rparr>)" if "pv_urbs p = FreedUrbs" for p
    unfolding reported_def
    by (rule exI [of _ q], rule exI [of _ hv], rule exI [of _ h], rule exI [of _ p])
      (use s q that in \<open>simp add: delivered_def Let_def flight_def\<close>)
  ultimately show ?thesis using lx by (intro exI [of _ ?t]) simp
qed

text \<open>Reporting and freeing the URBs, in the order of the normal case.\<close>

lemma report_and_free:
  assumes "reportable io x r s" "pv_urbs v = Urbs us"
  shows "\<exists>t. do { s \<leftarrow> complete_with io st (flight io v L s); free_urbs io s } = Some t \<and>
     reported io x r st (pv_bytes_transferred v) s t"
proof -
  obtain t where t: "complete_with io st (flight io v L s) = Some t" "lx_io t io = Some v"
    "\<And>p. pv_urbs p = FreedUrbs \<Longrightarrow> reported io x r st (pv_bytes_transferred v) s (t\<lparr>lx_io := (lx_io t)(io \<mapsto> p)\<rparr>)"
    using report_flight [OF assms(1)] by blast
  then show ?thesis using assms(2)
    by (intro exI [of _ "t\<lparr>lx_io := (lx_io t)(io \<mapsto> v\<lparr>pv_urbs := FreedUrbs\<rparr>)\<rparr>"]) (simp add: free_urbs_def upd_priv_def)
qed

lemma finish_early_run:
  assumes "reportable io x r s" "pv_urbs v = Urbs us" "a \<noteq> STALL"
  shows "\<exists>t. finish_early io a (flight io v L s) = Some t \<and>
     reported io x r (if a = CANCELED then OPENUSB_IO_CANCELED else if a = COMPLETED_EARLY then OPENUSB_SUCCESS
       else if a = TIMEDOUT then OPENUSB_IO_TIMEOUT else OPENUSB_SYS_FUNC_FAILURE) (pv_bytes_transferred v) s t"
  using report_and_free [OF assms(1,2)] assms(3) by (simp add: finish_early_def)

definition early_status :: "linux_reap_action \<Rightarrow> int" where
  "early_status a = (if a = CANCELED then OPENUSB_IO_CANCELED else if a = COMPLETED_EARLY then OPENUSB_SUCCESS
     else if a = TIMEDOUT then OPENUSB_IO_TIMEOUT else OPENUSB_SYS_FUNC_FAILURE)"

lemma ending_report:
  assumes b: "bulk_at hdev io x r h s" and rep: "reportable io x r s" and a: "a \<noteq> NORMAL" "a \<noteq> STALL"
    and v: "pv_urbs v = Urbs vs" "shaped io us vs" "pv_reap_action v = a"
    and n: "pv_urbs_to_cancel v = of_nat (length (filter C is))" "pv_urbs_to_reap v = of_nat (length (filter (\<lambda>i. \<not> C i) is))"
    and l: "length is < 2 ^ 32" "\<forall>i \<in> set is. i < length us \<and> ending_status us C st i" "is \<noteq> []"
  shows "\<exists>t. io_complete K hdev (reaps io st n is) (flight io v L s) = Some (OPENUSB_SUCCESS, t) \<and>
     reported io x r (early_status a) (pv_bytes_transferred v + of_int (\<Sum>i \<leftarrow> filter (\<lambda>i. \<not> C i) is. n i)) s t"
proof -
  let ?e = "\<lambda>ws. ended_private ws 0 (\<Sum>i \<leftarrow> filter (\<lambda>i. \<not> C i) is. n i) v"
  have "\<exists>ws. shaped io us ws \<and> io_complete K hdev (reaps io st n is) (flight io v L s) =
      (let t = flight io (?e ws) L s in
       if (0::nat) = 0 then map_option (Pair OPENUSB_SUCCESS) (finish_early io a t) else Some (OPENUSB_SUCCESS, t))"
    by (rule ending_run [OF b a(1) v n(1), where m = 0]) (use n l in simp_all)
  then obtain ws where w: "io_complete K hdev (reaps io st n is) (flight io v L s) =
      map_option (Pair OPENUSB_SUCCESS) (finish_early io a (flight io (?e ws) L s))" by (auto simp: Let_def)
  have "pv_urbs (?e ws) = Urbs ws" by (simp add: ended_private_def)
  from finish_early_run [OF rep this a(2), of L] obtain t where
    "finish_early io a (flight io (?e ws) L s) = Some t" "reported io x r (early_status a) (pv_bytes_transferred (?e ws)) s t"
    unfolding early_status_def by blast
  then show ?thesis using w by (intro exI [of _ t]) (simp add: ended_private_def)
qed

section \<open>URBs that complete in full\<close>

lemma full_run:
  assumes b: "bulk_at hdev io x r h s" and l: "length us < 2 ^ 32"
  shows "pv_urbs v = Urbs vs \<Longrightarrow> shaped io us vs \<Longrightarrow> pv_reap_action v = NORMAL \<Longrightarrow> pv_num_urbs v = of_nat (length us) \<Longrightarrow>
    \<forall>i \<in> set is. i + 1 < length us \<and> (st i = 0 \<or> st i = - EREMOTEIO) \<and> n i = ub_buffer_length (us ! i) \<Longrightarrow>
    \<exists>ws. shaped io us ws \<and> io_complete K hdev (reaps io st n is) (flight io v L s) = Some (OPENUSB_SUCCESS,
      flight io (v\<lparr>pv_urbs := Urbs ws, pv_bytes_transferred := pv_bytes_transferred v + of_int (\<Sum>i \<leftarrow> is. n i)\<rparr>) L s)"
proof (induction "is" arbitrary: v vs)
  case Nil
  then show ?case by (intro exI [of _ vs]) (cases v; simp)
next
  case (Cons i "is")
  let ?vs = "vs[i := (vs ! i)\<lparr>ub_status := st i, ub_actual_length := n i\<rparr>]"
  let ?v = "v\<lparr>pv_urbs := Urbs ?vs, pv_bytes_transferred := pv_bytes_transferred v + of_int (n i)\<rparr>"
  have i: "i < length us" "i + 1 \<noteq> length us" "i < length vs" "ub_usercontext (vs ! i) = io" "st i = 0 \<or> st i = - EREMOTEIO"
    "ub_buffer_length (vs ! i) = n i" "length vs = length us" using Cons.prems(2,5) by (auto simp: shaped_def)
  have sh: "shaped io us ?vs" using shaped_done [OF Cons.prems(2) i(1)] .
  have r: "reap_one K hdev (UrbAt io i) (urb_done io i (st i) (n i) (flight io v L s)) = Some (flight io ?v L s)"
    using reap_normal [OF b Cons.prems(1) i(3,4) Cons.prems(3) i(5) _ _ refl] Cons.prems(4) i l by simp
  obtain ws where "shaped io us ws" "io_complete K hdev (reaps io st n is) (flight io ?v L s) = Some (OPENUSB_SUCCESS,
      flight io (?v\<lparr>pv_urbs := Urbs ws, pv_bytes_transferred := pv_bytes_transferred ?v + of_int (\<Sum>i \<leftarrow> is. n i)\<rparr>) L s)"
    using Cons.IH [of ?v ?vs] sh Cons.prems(3,4,5) by auto
  then show ?case using r by (intro exI [of _ ws]) (simp add: add_ac)
qed

section \<open>Requests that are completed or cut short\<close>

lemma unat_of_nat_u32: "k < 2 ^ 32 \<Longrightarrow> unat (word_of_nat k :: u32) = k"
  by (simp add: unat_of_nat take_bit_nat_eq_self unsigned_of_nat)

lemma partial_xfer_run:
  assumes "lx_hdev s hdev = Some h" "discards K (hp_fd h) io {k..<length us} C" "length us < 2 ^ 32"
    and "pv_urbs v = Urbs vs" "shaped io us vs" "pv_num_urbs v = of_nat (length us)"
    and "\<forall>i \<in> {k..<length us}. continuation (us ! i) \<longrightarrow> C i"
  shows "\<exists>L'. handle_partial_xfer K hdev io k a (flight io v L s) =
     Some (flight io (counted_private C [k..<length us] (v\<lparr>pv_reap_action := a\<rparr>)) L' s)"
proof -
  have n: "unat (pv_num_urbs v) = length us" using unat_of_nat_u32 [OF assms(3)] assms(6) by simp
  have c: "\<forall>i \<in> set [k..<length us]. i < length vs \<and> (continuation (vs ! i) \<longrightarrow> C i)"
    using assms(5,7) by (auto simp: shaped_def continuation_def)
  show ?thesis
    using partial_run [OF assms(1,2), of "[k..<length us]" "v\<lparr>pv_reap_action := a\<rparr>" vs L] c n assms(4)
    by (intro exI) (simp add: handle_partial_xfer_def)
qed

lemma bulk_private_fields [simp]:
  "pv_urbs (bulk_private us) = Urbs us" "pv_num_urbs (bulk_private us) = of_nat (length us)"
  "pv_reap_action (bulk_private us) = NORMAL" "pv_bytes_transferred (bulk_private us) = 0"
  "pv_urbs_to_cancel (bulk_private us) = 0" "pv_urbs_to_reap (bulk_private us) = 0"
  by (simp_all add: bulk_private_def zero_private_def)

lemma shaped_refl: "\<forall>u \<in> set us. ub_usercontext u = io \<Longrightarrow> shaped io us us"
  by (simp add: shaped_def)

text \<open>
  C4. A bulk or interrupt request of the Linux backend that the device completes. Its first
  j URBs are transferred in full, and URB j ends the transfer: it is the last, or the device
  sends less than was asked for. The URBs after it are cancelled, by the kernel or on request,
  or have completed meanwhile. Then, once the polling thread has reaped them all, the request
  is reported, once and as a success, with the sum of the bytes of all URBs that completed.
\<close>

theorem bulk_completes:
  assumes b: "bulk_at hdev io x r h s" and rep: "reportable io x r s"
    and us: "j < length us" "length us < 2 ^ 32" "\<forall>u \<in> set us. ub_usercontext u = io"
    and full: "\<forall>i < j. st i = 0 \<and> n i = ub_buffer_length (us ! i)"
    and last: "st j = 0 \<or> st j = - EREMOTEIO" "j + 1 < length us \<longrightarrow> n j < ub_buffer_length (us ! j)"
    and disc: "discards K (hp_fd h) io {Suc j..<length us} C"
    and rest: "\<forall>i \<in> {Suc j..<length us}. ending_status us C st i \<and> (continuation (us ! i) \<longrightarrow> C i)"
  shows "\<exists>t. io_complete K hdev (reaps io st n [0..<length us]) (flight io (bulk_private us) L s) =
       Some (OPENUSB_SUCCESS, t) \<and>
     reported io x r OPENUSB_SUCCESS
       (of_int (\<Sum>i \<leftarrow> [0..<Suc j] @ filter (\<lambda>i. \<not> C i) [Suc j..<length us]. n i)) s t"
proof -
  let ?N = "length us"
  have split: "[0..<?N] = [0..<j] @ j # [Suc j..<?N]"
    using us(1) upt_add_eq_append [of 0 j "?N - j"] upt_conv_Cons [of j ?N] by simp
  obtain ws where ws: "shaped io us ws" "io_complete K hdev (reaps io st n [0..<j]) (flight io (bulk_private us) L s) =
      Some (OPENUSB_SUCCESS, flight io ((bulk_private us)\<lparr>pv_urbs := Urbs ws,
        pv_bytes_transferred := of_int (\<Sum>i \<leftarrow> [0..<j]. n i)\<rparr>) L s)"
    using full_run [OF b us(2), of "bulk_private us" us "[0..<j]" st n K L] shaped_refl [OF us(3)] full us(1) by auto
  let ?v = "(bulk_private us)\<lparr>pv_urbs := Urbs ws, pv_bytes_transferred := of_int (\<Sum>i \<leftarrow> [0..<j]. n i)\<rparr>"
  let ?u = "(ws ! j)\<lparr>ub_status := st j, ub_actual_length := n j\<rparr>"
  let ?v' = "?v\<lparr>pv_urbs := Urbs (ws[j := ?u]), pv_bytes_transferred := of_int (\<Sum>i \<leftarrow> [0..<Suc j]. n i)\<rparr>"
  have j: "j < length ws" "ub_usercontext (ws ! j) = io" "length ws = ?N" "ub_buffer_length (ws ! j) = ub_buffer_length (us ! j)"
    using ws(1) us(1) by (simp_all add: shaped_def)
  have r: "reap_one K hdev (UrbAt io j) (urb_done io j (st j) (n j) (flight io ?v L s)) =
     (if j + 1 = length ws then do { s \<leftarrow> complete_with io OPENUSB_SUCCESS (flight io ?v' L s); free_urbs io s }
      else if n j < ub_buffer_length (ws ! j) then handle_partial_xfer K hdev io (j + 1) COMPLETED_EARLY (flight io ?v' L s)
      else Some (flight io ?v' L s))"
    by (rule reap_normal [OF b _ j(1,2) _ last(1)]) (use j us(2) in simp_all)
  have u': "pv_urbs ?v' = Urbs (ws[j := ?u])" by simp
  show ?thesis
  proof (cases "j + 1 = ?N")
    case True
    then have e: "[Suc j..<?N] = []" by simp
    obtain t where t: "do { s \<leftarrow> complete_with io OPENUSB_SUCCESS (flight io ?v' L s); free_urbs io s } = Some t"
      "reported io x r OPENUSB_SUCCESS (pv_bytes_transferred ?v') s t"
      using report_and_free [OF rep u'] by blast
    then have "io_complete K hdev (reaps io st n [0..<?N]) (flight io (bulk_private us) L s) = Some (OPENUSB_SUCCESS, t)"
      unfolding split reaps_simps io_complete_append ws(2) using r True j(3) e by simp
    moreover have "pv_bytes_transferred ?v' = (of_int (\<Sum>i \<leftarrow> [0..<Suc j] @ filter (\<lambda>i. \<not> C i) [Suc j..<?N]. n i) :: u32)"
      unfolding e by simp
    ultimately show ?thesis using t(2) by (intro exI [of _ t] conjI) (simp_all only:)
  next
    case False
    then have less: "j + 1 < ?N" using us(1) by simp
    have sh: "shaped io us (ws[j := ?u])" using shaped_done [OF ws(1) us(1)] .
    obtain L' where L': "handle_partial_xfer K hdev io (j + 1) COMPLETED_EARLY (flight io ?v' L s) =
        Some (flight io (counted_private C [Suc j..<?N] (?v'\<lparr>pv_reap_action := COMPLETED_EARLY\<rparr>)) L' s)"
      using partial_xfer_run [of s hdev h K io "Suc j" us C ?v' "ws[j := ?u]" COMPLETED_EARLY L] b disc us(2) sh rest
      by (auto simp: bulk_at_def)
    let ?w = "counted_private C [Suc j..<?N] (?v'\<lparr>pv_reap_action := COMPLETED_EARLY\<rparr>)"
    have w: "pv_urbs ?w = Urbs (ws[j := ?u])" "pv_reap_action ?w = COMPLETED_EARLY"
      "pv_urbs_to_cancel ?w = of_nat (length (filter C [Suc j..<?N]))"
      "pv_urbs_to_reap ?w = of_nat (length (filter (\<lambda>i. \<not> C i) [Suc j..<?N]))"
      by (simp_all add: counted_private_def)
    have "\<exists>t. io_complete K hdev (reaps io st n [Suc j..<?N]) (flight io ?w L' s) = Some (OPENUSB_SUCCESS, t) \<and>
      reported io x r (early_status COMPLETED_EARLY) (pv_bytes_transferred ?w +
        of_int (\<Sum>i \<leftarrow> filter (\<lambda>i. \<not> C i) [Suc j..<?N]. n i)) s t"
      by (rule ending_report [OF b rep _ _ w(1) sh w(2-4)]) (use rest us(2) less in auto)
    then obtain t where t: "io_complete K hdev (reaps io st n [Suc j..<?N]) (flight io ?w L' s) = Some (OPENUSB_SUCCESS, t)"
      "reported io x r OPENUSB_SUCCESS (pv_bytes_transferred ?w +
        of_int (\<Sum>i \<leftarrow> filter (\<lambda>i. \<not> C i) [Suc j..<?N]. n i)) s t"
      by (auto simp: early_status_def)
    have "io_complete K hdev (reaps io st n [0..<?N]) (flight io (bulk_private us) L s) = Some (OPENUSB_SUCCESS, t)"
      unfolding split reaps_simps io_complete_append ws(2) using r False less last(2) j(3,4) L' t(1) by simp
    moreover have "pv_bytes_transferred ?w + of_int (\<Sum>i \<leftarrow> filter (\<lambda>i. \<not> C i) [Suc j..<?N]. n i) =
        (of_int (\<Sum>i \<leftarrow> [0..<Suc j] @ filter (\<lambda>i. \<not> C i) [Suc j..<?N]. n i) :: u32)"
      by simp
    ultimately show ?thesis using t(2) by (intro exI [of _ t] conjI) (simp_all only:)
  qed
qed

section \<open>Requests that are cancelled\<close>

definition with_state :: "addr \<Rightarrow> usbi_io \<Rightarrow> io_status \<Rightarrow> 'a linux_scheme \<Rightarrow> 'a linux_scheme" where
  "with_state io x st s = s\<lparr>l_io := (l_io s)(io \<mapsto> x\<lparr>io_state := st\<rparr>)\<rparr>"

lemma with_state_fields [simp]:
  "l_io (with_state io x st s) = (l_io s)(io \<mapsto> x\<lparr>io_state := st\<rparr>)" "l_req (with_state io x st s) = l_req s"
  "l_hdev (with_state io x st s) = l_hdev s" "l_hdl (with_state io x st s) = l_hdl s"
  "lx_hdev (with_state io x st s) = lx_hdev s" "l_held (with_state io x st s) = l_held s"
  by (simp_all add: with_state_def)

lemma set_state_flight: "l_io s io = Some x \<Longrightarrow>
    set_state io st (flight io v L s) = Some (flight io v L (with_state io x st s))"
  by (simp add: set_state_def flight_def with_state_def)

lemma bulk_at_with_state: "bulk_at hdev io x r h s \<Longrightarrow> bulk_at hdev io (x\<lparr>io_state := st\<rparr>) r h (with_state io x st s)"
  by (simp add: bulk_at_def)

lemma reportable_with_state: "reportable io x r s \<Longrightarrow> reportable io (x\<lparr>io_state := st\<rparr>) r (with_state io x st s)"
  by (simp add: reportable_def)

text \<open>The log after a cancellation: a call for every URB of the request.\<close>

lemma cancel_run:
  assumes "l_io s io = Some x" "io_dev x = hdev" "lx_hdev s hdev = Some h" "length us < 2 ^ 32"
    and "discards K (hp_fd h) io {0..<length us} C" "pv_num_urbs v = of_nat (length us)"
  shows "linux_io_cancel K io (flight io v L s) = Some (OPENUSB_SUCCESS,
     flight io (counted_private C [0..<length us] (v\<lparr>pv_reap_action := CANCELED\<rparr>))
       (L @ map (\<lambda>i. (hp_fd h, DISCARDURB (UrbAt io i))) [0..<length us] @ [(snd (hp_event_pipe h), WRITE_EVENT)])
       (with_state io x IO_CANCEL s))"
proof -
  have n: "unat (pv_num_urbs v) = length us" using unat_of_nat_u32 [OF assms(4)] assms(6) by simp
  have "discard_loop K hdev io [0..<length us] (flight io (v\<lparr>pv_reap_action := CANCELED\<rparr>) L (with_state io x IO_CANCEL s)) =
      Some (flight io (counted_private C [0..<length us] (v\<lparr>pv_reap_action := CANCELED\<rparr>))
        (L @ map (\<lambda>i. (hp_fd h, DISCARDURB (UrbAt io i))) [0..<length us]) (with_state io x IO_CANCEL s))"
    using discard_run [OF _ assms(5), of "with_state io x IO_CANCEL s" hdev "[0..<length us]"] assms(3) by simp
  then show ?thesis
    using assms(1-3) n
    by (simp add: linux_io_cancel_def set_state_flight discard_urbs_def wakeup_io_thread_def Let_def case_prod_unfold)
qed

text \<open>
  C35. Cancelling a bulk or interrupt request of the Linux backend. The polling thread has
  reaped the first m URBs, transferred in full; then the request is cancelled, and the other
  URBs come back, cancelled or complete. When m is 0 the request is reported as cancelled,
  with the bytes of the URBs that completed. When m is not 0 it is never reported: the call
  that discards a URB fails for those already reaped, they are counted as still to be reaped,
  and the counter stays at m although the kernel has no URB of the request any more.
\<close>

theorem cancel_after_progress:
  assumes b: "bulk_at hdev io x r h s" and rep: "reportable io x r s" and dev: "io_dev x = hdev"
    and us: "m < length us" "2 * length us < 2 ^ 32" "\<forall>u \<in> set us. ub_usercontext u = io"
    and full: "\<forall>i < m. st i = 0 \<and> n i = ub_buffer_length (us ! i) \<and> \<not> C i"
    and disc: "discards K (hp_fd h) io {0..<length us} C"
    and rest: "\<forall>i \<in> {m..<length us}. ending_status us C st i"
  shows "\<exists>t. do { (_, s) \<leftarrow> io_complete K hdev (reaps io st n [0..<m]) (flight io (bulk_private us) L s);
         (_, s) \<leftarrow> linux_io_cancel K io s;
         io_complete K hdev (reaps io st n [m..<length us]) s } = Some (OPENUSB_SUCCESS, t) \<and>
     (if m = 0 then reported io (x\<lparr>io_state := IO_CANCEL\<rparr>) r OPENUSB_IO_CANCELED
         (of_int (\<Sum>i \<leftarrow> filter (\<lambda>i. \<not> C i) [0..<length us]. n i)) (with_state io x IO_CANCEL s) t
      else l_io t io = Some (x\<lparr>io_state := IO_CANCEL\<rparr>) \<and> l_req t = l_req s \<and> l_hdev t = l_hdev s \<and> l_hdl t = l_hdl s \<and>
        (\<exists>p. lx_io t io = Some p \<and> pv_reap_action p = CANCELED \<and> pv_urbs_to_reap p = of_nat m))"
proof -
  let ?N = "length us" and ?x = "x\<lparr>io_state := IO_CANCEL\<rparr>" and ?s = "with_state io x IO_CANCEL s"
  have lus: "length us < 2 ^ 32" using us(2) by simp
  obtain ws where ws: "shaped io us ws" "io_complete K hdev (reaps io st n [0..<m]) (flight io (bulk_private us) L s) =
      Some (OPENUSB_SUCCESS, flight io ((bulk_private us)\<lparr>pv_urbs := Urbs ws,
        pv_bytes_transferred := of_int (\<Sum>i \<leftarrow> [0..<m]. n i)\<rparr>) L s)"
    using full_run [OF b lus, of "bulk_private us" us "[0..<m]" st n K L] shaped_refl [OF us(3)] full us(1) by auto
  let ?v = "(bulk_private us)\<lparr>pv_urbs := Urbs ws, pv_bytes_transferred := of_int (\<Sum>i \<leftarrow> [0..<m]. n i)\<rparr>"
  let ?w = "counted_private C [0..<?N] (?v\<lparr>pv_reap_action := CANCELED\<rparr>)"
  have x: "l_io s io = Some x" "lx_hdev s hdev = Some h" using b by (simp_all add: bulk_at_def)
  obtain L' where c: "linux_io_cancel K io (flight io ?v L s) = Some (OPENUSB_SUCCESS, flight io ?w L' ?s)"
    using cancel_run [OF x(1) dev x(2) lus disc, of ?v L] by auto
  have split: "[0..<?N] = [0..<m] @ [m..<?N]" using us(1) upt_add_eq_append [of 0 m "?N - m"] by simp
  have fm: "filter C [0..<m] = []" "filter (\<lambda>i. \<not> C i) [0..<m] = [0..<m]"
    using full by (auto simp: filter_empty_conv intro: filter_True)
  have w: "pv_urbs ?w = Urbs ws" "pv_reap_action ?w = CANCELED"
    "pv_urbs_to_cancel ?w = of_nat (length (filter C [m..<?N]))"
    "pv_urbs_to_reap ?w = of_nat (length (filter (\<lambda>i. \<not> C i) [m..<?N]) + m)"
    by (simp_all add: counted_private_def split fm)
  note bs = bulk_at_with_state [OF b, of IO_CANCEL] and rs = reportable_with_state [OF rep, of IO_CANCEL]
  show ?thesis
  proof (cases "m = 0")
    case True
    have "\<exists>t. io_complete K hdev (reaps io st n [m..<?N]) (flight io ?w L' ?s) = Some (OPENUSB_SUCCESS, t) \<and>
        reported io ?x r (early_status CANCELED) (pv_bytes_transferred ?w +
          of_int (\<Sum>i \<leftarrow> filter (\<lambda>i. \<not> C i) [m..<?N]. n i)) ?s t"
      by (rule ending_report [OF bs rs _ _ w(1) ws(1) w(2,3)]) (use w(4) rest lus us(1) True in auto)
    then obtain t where t: "io_complete K hdev (reaps io st n [m..<?N]) (flight io ?w L' ?s) = Some (OPENUSB_SUCCESS, t)"
      "reported io ?x r OPENUSB_IO_CANCELED (of_int (\<Sum>i \<leftarrow> filter (\<lambda>i. \<not> C i) [0..<?N]. n i)) ?s t"
      using True by (auto simp: early_status_def)
    then show ?thesis using ws(2) c True by (intro exI [of _ t] conjI) simp_all
  next
    case False
    have "\<exists>zs. shaped io us zs \<and> io_complete K hdev (reaps io st n [m..<?N]) (flight io ?w L' ?s) =
      (let t = flight io (ended_private zs m (\<Sum>i \<leftarrow> filter (\<lambda>i. \<not> C i) [m..<?N]. n i) ?w) L' ?s
       in if m = 0 then map_option (Pair OPENUSB_SUCCESS) (finish_early io CANCELED t) else Some (OPENUSB_SUCCESS, t))"
      by (rule ending_run [OF bs _ w(1) ws(1) w(2-4)]) (use us rest False in auto)
    then obtain zs where z: "io_complete K hdev (reaps io st n [m..<?N]) (flight io ?w L' ?s) =
        Some (OPENUSB_SUCCESS, flight io (ended_private zs m (\<Sum>i \<leftarrow> filter (\<lambda>i. \<not> C i) [m..<?N]. n i) ?w) L' ?s)"
      using False by (auto simp: Let_def)
    show ?thesis
      by (rule exI [of _ "flight io (ended_private zs m (\<Sum>i \<leftarrow> filter (\<lambda>i. \<not> C i) [m..<?N]. n i) ?w) L' ?s"])
        (use ws(2) c z False w(2) in \<open>simp add: ended_private_def\<close>)
  qed
qed

section \<open>Requests that stall\<close>

lemma reap_stall:
  assumes b: "bulk_at hdev io x r h s" and u: "pv_urbs v = Urbs us" "i < length us" "ub_usercontext (us ! i) = io"
    and a: "pv_reap_action v = NORMAL"
  shows "reap_one K hdev (UrbAt io i) (urb_done io i (- EPIPE) n (flight io v L s)) = do {
     s \<leftarrow> handle_partial_xfer K hdev io (i + 1) STALL (flight io (v\<lparr>pv_urbs := Urbs (us[i := (us ! i)\<lparr>
       ub_status := - EPIPE, ub_actual_length := n\<rparr>])\<rparr>) L s);
     s \<leftarrow> free_urbs io s;
     complete_with io OPENUSB_IO_STALL s }"
proof -
  let ?u = "(us ! i)\<lparr>ub_status := - EPIPE, ub_actual_length := n\<rparr>"
  let ?v = "v\<lparr>pv_urbs := Urbs (us[i := ?u])\<rparr>"
  have e: "urb_done io i (- EPIPE) n (flight io v L s) = flight io ?v L s" by (rule urb_done_flight [OF u(1)])
  have i: "rd (us[i := ?u]) i = Some ?u" using u(2) by (simp add: rd_def)
  have "reap_one K hdev (UrbAt io i) (flight io ?v L s) = handle_bulk_intr_complete K hdev (UrbAt io i) (flight io ?v L s)"
    by (rule reap_bulk [OF b, where us = "us[i := ?u]"]) (use u in simp_all)
  then show ?thesis
    using e i u(3) a by (simp add: handle_bulk_intr_complete_def urb_at_flight Let_def errnos)
qed

text \<open>
  C36. A stall leaves the kernel with URBs that are freed. When URB j of a bulk or interrupt
  request stalls, the request is reported as stalled at once, but when it is not the last, the
  memory of all its URBs is freed while those after j are still with the kernel. The next one
  that the polling thread reaps is read after it was freed.
\<close>

theorem stall_frees_urbs_in_flight:
  assumes b: "bulk_at hdev io x r h s" and rep: "reportable io x r s"
    and us: "j + 1 < length us" "length us < 2 ^ 32" "\<forall>u \<in> set us. ub_usercontext u = io"
    and full: "\<forall>i < j. st i = 0 \<and> n i = ub_buffer_length (us ! i)" and stall: "st j = - EPIPE"
    and disc: "discards K (hp_fd h) io {Suc j..<length us} C"
    and cont: "\<forall>i \<in> {Suc j..<length us}. continuation (us ! i) \<longrightarrow> C i"
  shows "\<exists>t. io_complete K hdev (reaps io st n [0..<Suc j]) (flight io (bulk_private us) L s) = Some (OPENUSB_SUCCESS, t) \<and>
     reported io x r OPENUSB_IO_STALL (of_int (\<Sum>i \<leftarrow> [0..<j]. n i)) s t \<and>
     io_complete K hdev (reaps io st n [Suc j]) t = None"
proof -
  let ?N = "length us"
  obtain ws where ws: "shaped io us ws" "io_complete K hdev (reaps io st n [0..<j]) (flight io (bulk_private us) L s) =
      Some (OPENUSB_SUCCESS, flight io ((bulk_private us)\<lparr>pv_urbs := Urbs ws,
        pv_bytes_transferred := of_int (\<Sum>i \<leftarrow> [0..<j]. n i)\<rparr>) L s)"
    using full_run [OF b us(2), of "bulk_private us" us "[0..<j]" st n K L] shaped_refl [OF us(3)] full us(1) by auto
  let ?v = "(bulk_private us)\<lparr>pv_urbs := Urbs ws, pv_bytes_transferred := of_int (\<Sum>i \<leftarrow> [0..<j]. n i)\<rparr>"
  let ?ws = "ws[j := (ws ! j)\<lparr>ub_status := - EPIPE, ub_actual_length := n j\<rparr>]"
  let ?v' = "?v\<lparr>pv_urbs := Urbs ?ws\<rparr>"
  have j: "j < length us" "j < length ws" "ub_usercontext (ws ! j) = io" using ws(1) us(1) by (simp_all add: shaped_def)
  have sh: "shaped io us ?ws" using shaped_done [OF ws(1) j(1)] .
  have lx: "lx_hdev s hdev = Some h" using b by (simp add: bulk_at_def)
  obtain L' where L': "handle_partial_xfer K hdev io (Suc j) STALL (flight io ?v' L s) =
      Some (flight io (counted_private C [Suc j..<?N] (?v'\<lparr>pv_reap_action := STALL\<rparr>)) L' s)"
    using partial_xfer_run [OF lx disc us(2) _ sh _ cont, of ?v' STALL L] by auto
  let ?w = "(counted_private C [Suc j..<?N] (?v'\<lparr>pv_reap_action := STALL\<rparr>))\<lparr>pv_urbs := FreedUrbs\<rparr>"
  have fr: "free_urbs io (flight io (counted_private C [Suc j..<?N] (?v'\<lparr>pv_reap_action := STALL\<rparr>)) L' s) =
      Some (flight io ?w L' s)" by (simp add: free_urbs_def)
  obtain t where t: "complete_with io OPENUSB_IO_STALL (flight io ?w L' s) = Some t" "lx_io t io = Some ?w"
    "\<And>p. pv_urbs p = FreedUrbs \<Longrightarrow>
       reported io x r OPENUSB_IO_STALL (pv_bytes_transferred ?w) s (t\<lparr>lx_io := (lx_io t)(io \<mapsto> p)\<rparr>)"
    using report_flight [OF rep] by blast
  have "t\<lparr>lx_io := (lx_io t)(io \<mapsto> ?w)\<rparr> = t" using t(2) by (simp add: fun_upd_idem)
  then have rp: "reported io x r OPENUSB_IO_STALL (of_int (\<Sum>i \<leftarrow> [0..<j]. n i)) s t" using t(3) [of ?w] by simp
  have "reap_one K hdev (UrbAt io j) (urb_done io j (st j) (n j) (flight io ?v L s)) = Some t"
    using reap_stall [OF b _ j(2,3), of ?v K "n j" L] stall L' fr t(1) by simp
  then have run: "io_complete K hdev (reaps io st n [0..<Suc j]) (flight io (bulk_private us) L s) = Some (OPENUSB_SUCCESS, t)"
    using ws(2) by (simp add: io_complete_append)
  have "urb_done io (Suc j) (st (Suc j)) (n (Suc j)) t = t" "urb_at (UrbAt io (Suc j)) t = None"
    using t(2) by (simp_all add: urb_done_def urb_at_def)
  then have "io_complete K hdev (reaps io st n [Suc j]) t = None" by (simp add: reap_one_def)
  then show ?thesis using run rp by blast
qed

section \<open>Empty requests\<close>

text \<open>
  An empty bulk or interrupt request never ends. The submission of a request with no
  payload returns success, but it hands no URB to the kernel; nothing is left to be reaped,
  and cancelling the request discards nothing and does not report it either.
\<close>

theorem empty_request_never_ends:
  assumes st: "submittable hdev io x r h s" and q: "bulk_request r = Some (Some (0, ty))"
    and av: "\<forall>a. av a" and dev: "io_dev x = hdev"
  shows "\<exists>t u. linux_submit_bulk_intr av K hdev io s = Some (OPENUSB_SUCCESS, t) \<and>
     lx_log t = lx_log s @ [(snd (hp_event_pipe h), WRITE_EVENT)] \<and> linux_io_cancel K io t = Some (OPENUSB_SUCCESS, u) \<and>
     lx_log u = lx_log t @ [(snd (hp_event_pipe h), WRITE_EVENT)] \<and>
     l_req u = l_req s \<and> l_hdev u = l_hdev s \<and> l_hdl u = l_hdl s \<and> l_sio u = l_sio s"
proof -
  have us: "bulk_urbs s (rq_endpoint r) io ty 0 = []" by (simp add: bulk_urbs_def bulk_num_urbs_def)
  have sub: "linux_submit_bulk_intr av K hdev io s = Some (OPENUSB_SUCCESS, submitted io x h [] s)"
    using bulk_submit_run [OF st q av] us by simp
  let ?t = "submitted io x h [] s"
  have lx: "lx_hdev s hdev = Some h" using st by (simp add: submittable_def)
  show ?thesis
    using sub lx dev
    by (simp add: submitted_def linux_io_cancel_def set_state_def discard_urbs_def upd_priv_def wakeup_io_thread_def
        sys_def Let_def case_prod_unfold)
qed

end
