(* ===== verification/LinuxCtrl.thy ===== *)
theory LinuxCtrl
  imports LinuxOutcome
begin

text \<open>
  Control requests of the Linux backend, from the setup packet to the report.
\<close>

section \<open>Submission\<close>

lemma st16_cpu [simp]: "st16 be (openusb_le16_to_cpu be w) = [ucast w, ucast (drop_bit 8 w)]"
  by (cases be) (simp_all add: st16_def openusb_le16_to_cpu_def Let_def)

text \<open>The setup packet is the one of USB 2.0 (9.3), little-endian on every host.\<close>

lemma ctrl_setup_bytes: "ctrl_setup be c = [ct_bmRequestType c, ct_bRequest c,
    ucast (ct_wValue c), ucast (drop_bit 8 (ct_wValue c)), ucast (ct_wIndex c), ucast (drop_bit 8 (ct_wIndex c)),
    ucast (ucast (ct_length c) :: u16), ucast (drop_bit 8 (ucast (ct_length c) :: u16))]"
  by (simp add: ctrl_setup_def)

definition ctrl_ok :: "ctrl_request \<Rightarrow> bool" where
  "ctrl_ok c \<longleftrightarrow> unat (ct_length c) + 8 < 2 ^ 31 \<and> length (ct_payload c) = unat (ct_length c)"

definition ctrl_bytes :: "ctrl_request \<Rightarrow> u8 list" where
  "ctrl_bytes c = ctrl_setup False c @
     (if ct_bmRequestType c AND USB_DIR_MASK = 0 then ct_payload c else replicate (unat (ct_length c)) 0)"

lemma ctrl_buffer_run:
  assumes "ctrl_ok c"
  shows "ctrl_buffer be c = Some (ctrl_bytes c)"
    and "sint (of_nat USBI_CONTROL_SETUP_LEN + ct_length c) = int (unat (ct_length c)) + 8"
proof -
  let ?n = "unat (ct_length c)"
  have l: "?n + 8 < 2 ^ 31" "length (ct_payload c) = ?n" using assms by (simp_all add: ctrl_ok_def)
  then have u: "unat (8 + ct_length c) = 8 + ?n" by (simp add: unat_word_ariths)
  have r: "replicate (8 + ?n) (0 :: u8) = replicate 8 0 @ replicate ?n 0" by (rule replicate_add)
  have s: "length (ctrl_setup be c) = 8" "ctrl_setup be c = ctrl_setup False c" by (simp_all add: ctrl_setup_bytes)
  have w: "wrn (replicate (8 + ?n) 0) 0 (ctrl_setup be c) = Some (ctrl_setup False c @ replicate ?n 0)"
    unfolding r using s by (simp add: wrn_def)
  then show "ctrl_buffer be c = Some (ctrl_bytes c)"
    using u l(2) by (simp add: ctrl_buffer_def ctrl_bytes_def USBI_CONTROL_SETUP_LEN_def rdn_def wrn_def ctrl_setup_bytes)
  obtain k where k: "?n = k" by simp
  have "uint (8 + ct_length c) = int (8 + k)" using u k by (metis uint_nat)
  moreover have "int (8 + k) < 2 ^ 31" using l(1) k by simp
  ultimately show "sint (of_nat USBI_CONTROL_SETUP_LEN + ct_length c) = int ?n + 8"
    unfolding k by (simp add: USBI_CONTROL_SETUP_LEN_def sint_uint signed_take_bit_int_eq_self)
qed

definition ctrl_urb :: "addr \<Rightarrow> ctrl_request \<Rightarrow> usbk_urb" where
  "ctrl_urb io c = zero_urb\<lparr>ub_usercontext := io, ub_type := USBK_URB_TYPE_CONTROL,
     ub_buffer := Own (ctrl_bytes c), ub_buffer_length := int (unat (ct_length c)) + 8\<rparr>"

definition ctrl_submitted :: "addr \<Rightarrow> hdl_private \<Rightarrow> ctrl_request \<Rightarrow> 'a linux_scheme \<Rightarrow> 'a linux_scheme" where
  "ctrl_submitted io h c s = s\<lparr>l_next := l_next s + 3, lx_io := (lx_io s)(io \<mapsto> bulk_private [ctrl_urb io c]),
     lx_log := lx_log s @ [(hp_fd h, SUBMITURB (UrbAt io 0)), (snd (hp_event_pipe h), WRITE_EVENT)]\<rparr>"

lemma ctrl_submit_run:
  assumes st: "submittable hdev io x r h s" and c: "rq_req r = Ctrl c" "ctrl_ok c"
    and av: "\<forall>a. av a" and k: "\<forall>t. fst (K (hp_fd h) (SUBMITURB (UrbAt io 0)) t) = 0"
  shows "linux_submit_ctrl av be K hdev io s = Some (0, ctrl_submitted io h c s)"
proof -
  have s: "l_held s = {}" "l_io s io = Some x" "l_req s (io_req x) = Some r" "lx_hdev s hdev = Some h"
    "l_hdev s hdev \<noteq> None" "hdev \<noteq> 0" "io \<noteq> 0" "l_next s \<noteq> 0"
    using st by (simp_all add: submittable_def)
  obtain hd where hd: "l_hdev s hdev = Some hd" using s(5) by blast
  have ne: "LkIo io \<noteq> LkHdev hdev" "{LkHdev hdev, LkIo io} - {LkIo io} = {LkHdev hdev}" by auto
  note b = ctrl_buffer_run [OF c(2)]
  have h0: "s\<lparr>l_held := {}, l_next := n, lx_io := m, lx_log := l\<rparr> = s\<lparr>l_next := n, lx_io := m, lx_log := l\<rparr>" for n m l
    using s(1) by (cases s) simp
  have h1: "s\<lparr>l_held := {}, l_next := n, lx_io := m\<rparr> = s\<lparr>l_next := n, lx_io := m\<rparr>" for n m
    using s(1) by (cases s) simp
  have p: "zero_private\<lparr>pv_num_urbs := 1, pv_urbs := Urbs us\<rparr> = (bulk_private [u])\<lparr>pv_urbs := Urbs us\<rparr>" for us u
    by (simp add: bulk_private_def)
  show ?thesis
    using s hd c av k ne b
    by (simp add: linux_submit_ctrl_def lock_io_def unlock_io_def lock_hdev_def unlock_hdev_def lock_def
        unlock_def alloc_priv_def fresh_def upd_priv_def Let_def urb_submit_def submit_end_def
        wakeup_io_thread_def sys_def held_same case_prod_unfold ctrl_submitted_def h0 h1 p ctrl_urb_def
        bulk_private_def numeral_3_eq_3)
qed

section \<open>Completion\<close>

text \<open>What the kernel stores in the URB: status, length, and the data behind the setup packet.\<close>

definition ctrl_done :: "addr \<Rightarrow> int \<Rightarrow> int \<Rightarrow> u8 list \<Rightarrow> 'a linux_scheme \<Rightarrow> 'a linux_scheme" where
  "ctrl_done io st n d s = (case lx_io s io of None \<Rightarrow> s
     | Some v \<Rightarrow> (case pv_urbs v of
         Urbs (u # us) \<Rightarrow> s\<lparr>lx_io := (lx_io s)(io \<mapsto> v\<lparr>pv_urbs := Urbs (u\<lparr>ub_status := st, ub_actual_length := n,
           ub_buffer := (case ub_buffer u of Own b \<Rightarrow> Own (take 8 b @ d) | z \<Rightarrow> z)\<rparr> # us)\<rparr>)\<rparr>
       | _ \<Rightarrow> s))"

text \<open>The polling thread, which holds the lock of the device, reaps the URB.\<close>

definition reap_ctrl :: "'a linux_scheme kernel \<Rightarrow> addr \<Rightarrow> addr \<Rightarrow> int \<Rightarrow> int \<Rightarrow> u8 list \<Rightarrow> 'a linux_scheme \<Rightarrow>
    'a linux_scheme option" where
  "reap_ctrl K hdev io st n d s = do {
     s \<leftarrow> lock_hdev hdev s;
     (_, s) \<leftarrow> io_complete K hdev [(UrbAt io 0, ctrl_done io st n d)] s;
     unlock_hdev hdev s }"

definition ctrl_done_urb :: "addr \<Rightarrow> ctrl_request \<Rightarrow> int \<Rightarrow> int \<Rightarrow> u8 list \<Rightarrow> usbk_urb" where
  "ctrl_done_urb io c st n d = (ctrl_urb io c)\<lparr>ub_status := st, ub_actual_length := n,
     ub_buffer := Own (ctrl_setup False c @ d)\<rparr>"

lemma ctrl_reap_run:
  assumes s: "l_held s = {}" "l_io s io = Some x" "l_req s (io_req x) = Some r" "rq_req r = Ctrl c"
    "rq_type r = USB_TYPE_CONTROL" "l_hdev s hdev = Some hv"
  shows "reap_ctrl K hdev io st n d (ctrl_submitted io h c s) = do {
     s \<leftarrow> ctrl_complete (UrbAt io 0) (ctrl_done_urb io c st n d) io
       (flight io (bulk_private [ctrl_done_urb io c st n d]) (lx_log (ctrl_submitted io h c s))
         (s\<lparr>l_next := l_next s + 3, l_held := {LkHdev hdev}\<rparr>));
     unlock_hdev hdev s }"
proof -
  let ?L = "lx_log (ctrl_submitted io h c s)"
  let ?s = "s\<lparr>l_next := l_next s + 3, l_held := {LkHdev hdev}\<rparr>"
  let ?u = "ctrl_done_urb io c st n d"
  have lk: "lock_hdev hdev (ctrl_submitted io h c s) = Some (flight io (bulk_private [ctrl_urb io c]) ?L ?s)"
    using s(1,6) by (simp add: lock_hdev_def lock_def ctrl_submitted_def flight_def)
  have b: "take 8 (ctrl_bytes c) = ctrl_setup False c" by (simp add: ctrl_bytes_def ctrl_setup_bytes)
  have dn: "ctrl_done io st n d (flight io (bulk_private [ctrl_urb io c]) ?L ?s) = flight io (bulk_private [?u]) ?L ?s"
    by (simp add: ctrl_done_def flight_def ctrl_done_urb_def ctrl_urb_def b bulk_private_def)
  have u: "urb_at (UrbAt io 0) (flight io (bulk_private [?u]) ?L ?s) = Some ?u" "ub_usercontext ?u = io"
    by (simp_all add: urb_at_flight rd_def ctrl_done_urb_def ctrl_urb_def)
  let ?c = "ctrl_complete (UrbAt io 0) ?u io (flight io (bulk_private [?u]) ?L ?s)"
  have "reap_one K hdev (UrbAt io 0) (flight io (bulk_private [?u]) ?L ?s) = ?c"
    using s u by (simp add: reap_one_def Let_def)
  then have "io_complete K hdev [(UrbAt io 0, ctrl_done io st n d)] (flight io (bulk_private [ctrl_urb io c]) ?L ?s) =
      map_option (Pair OPENUSB_SUCCESS) ?c"
    by (cases ?c) (simp_all add: dn)
  then show ?thesis using lk by (cases ?c) (simp_all add: reap_ctrl_def del: io_complete.simps)
qed

text \<open>
  C16. A control request from the caller to the device and back. On a host of either byte order
  the kernel is handed the setup packet of USB 2.0 with the payload behind it (zeros for a
  request that reads), and when it is done with data d and n bytes, the request has d as its
  payload, the status success and n bytes, and is the last of the complete_list; the URB is
  freed and every mutex released.
\<close>

theorem ctrl_end_to_end:
  assumes st: "submittable hdev io x r h s" and c: "rq_req r = Ctrl c" "rq_type r = USB_TYPE_CONTROL" "ctrl_ok c"
    and av: "\<forall>a. av a" and k: "\<forall>t. fst (K (hp_fd h) (SUBMITURB (UrbAt io 0)) t) = 0"
    and x: "io_dev x = hdev" "io_async x" "\<not> io_callback x"
    and v: "l_hdev s hdev = Some hv" "l_hdl s (hv_lib_hdl hv) = Some hl" and d: "length d = unat (ct_length c)"
  shows "linux_submit_ctrl av be K hdev io s = Some (0, ctrl_submitted io h c s) \<and>
     ub_buffer (ctrl_urb io c) = Own ([ct_bmRequestType c, ct_bRequest c,
       ucast (ct_wValue c), ucast (drop_bit 8 (ct_wValue c)), ucast (ct_wIndex c), ucast (drop_bit 8 (ct_wIndex c)),
       ucast (ucast (ct_length c) :: u16), ucast (drop_bit 8 (ucast (ct_length c) :: u16))] @
       (if ct_bmRequestType c AND 0x80 = 0 then ct_payload c else replicate (unat (ct_length c)) 0)) \<and>
     (\<exists>t p. reap_ctrl K hdev io 0 n d (ctrl_submitted io h c s) = Some t \<and>
       l_req t (io_req x) = Some (r\<lparr>rq_req := Ctrl (c\<lparr>ct_payload := d, ct_status := OPENUSB_SUCCESS,
         ct_transferred := ucast (of_int n :: u64)\<rparr>)\<rparr>) \<and>
       l_hdl t (hv_lib_hdl hv) = Some (hl\<lparr>hd_complete_list := remove1 io (hd_complete_list hl) @ [io],
         hd_complete_count := hd_complete_count hl + 1\<rparr>) \<and>
       l_hdev t hdev = Some (hv\<lparr>hv_io_head := remove1 io (hv_io_head hv)\<rparr>) \<and> l_held t = {} \<and>
       lx_io t io = Some p \<and> pv_urbs p = FreedUrbs)"
proof -
  have s: "l_held s = {}" "l_io s io = Some x" "l_req s (io_req x) = Some r"
    using st by (simp_all add: submittable_def)
  let ?u = "ctrl_done_urb io c 0 n d"
  let ?L = "lx_log (ctrl_submitted io h c s)"
  let ?s = "s\<lparr>l_next := l_next s + 3, l_held := {LkHdev hdev}\<rparr>"
  let ?r = "r\<lparr>rq_req := Ctrl (c\<lparr>ct_payload := d\<rparr>)\<rparr>"
  let ?x = "x\<lparr>io_state := IO_COMPLETED\<rparr>"
  let ?q = "Ctrl (c\<lparr>ct_payload := d, ct_status := OPENUSB_SUCCESS, ct_transferred := ucast (of_int n :: u64)\<rparr>)"
  let ?f = "(flight io (bulk_private [?u]) ?L ?s)\<lparr>l_req := (l_req s)(io_req x \<mapsto> ?r), l_io := (l_io s)(io \<mapsto> ?x)\<rparr>"
  have buf: "rdn (ctrl_setup False c @ d) USBI_CONTROL_SETUP_LEN (unat (ct_length c)) = Some d"
    using d by (simp add: rdn_def USBI_CONTROL_SETUP_LEN_def ctrl_setup_bytes)
  have pay: "wrn (ct_payload c) 0 d = Some d" using c(3) d by (simp add: wrn_def ctrl_ok_def)
  have u: "ub_status ?u = 0" "ub_actual_length ?u = n" "ub_buffer ?u = Own (ctrl_setup False c @ d)"
    by (simp_all add: ctrl_done_urb_def)
  have ff: "l_io ?f io = Some ?x" "l_held ?f = {LkHdev hdev}" "l_hdev ?f = l_hdev s" "l_hdl ?f = l_hdl s"
    "l_req ?f (io_req ?x) = Some ?r" "lx_io ?f io = Some (bulk_private [?u])" by simp_all
  have sr: "set_result (rq_type ?r) OPENUSB_SUCCESS (ucast (of_int n :: u64)) (rq_req ?r) = Some ?q"
    using c(2) by (simp add: set_result_def)
  obtain t where t: "usbi_io_complete io OPENUSB_SUCCESS (of_int n) ?f = Some ((), t)"
    and tf: "l_held t = {LkHdev hdev}" "lx_io t io = Some (bulk_private [?u])"
    "l_req t (io_req x) = Some (r\<lparr>rq_req := ?q\<rparr>)"
    "l_hdev t hdev = Some (hv\<lparr>hv_io_head := remove1 io (hv_io_head hv)\<rparr>)"
    "l_hdl t (hv_lib_hdl hv) = Some (hl\<lparr>hd_complete_list := remove1 io (hd_complete_list hl) @ [io],
       hd_complete_count := hd_complete_count hl + 1\<rparr>)"
  proof (rule that)
    show "usbi_io_complete io OPENUSB_SUCCESS (of_int n) ?f = Some ((), (delivered io (io_dev ?x) ?q ?f)\<lparr>
        l_io := (l_io ?f)(io \<mapsto> ?x\<lparr>io_state := IO_COMPLETED\<rparr>),
        l_req_cbs := l_req_cbs ?f @ (if rq_cb ?r then [io_req ?x] else [])\<rparr>)"
      by (rule complete_held_run [OF ff(1), where v = hv and h = hl])
        (use x v sr in simp_all)
  qed (use x v s ff in \<open>simp_all add: delivered_def io_unlink_def ls_del_def Let_def\<close>)
  let ?p = "(bulk_private [?u])\<lparr>pv_urbs := FreedUrbs\<rparr>"
  have "ctrl_complete (UrbAt io 0) ?u io (flight io (bulk_private [?u]) ?L ?s) =
      Some (t\<lparr>lx_io := (lx_io t)(io \<mapsto> ?p)\<rparr>)"
    using s c(1) buf pay u t tf(2)
    by (simp add: ctrl_complete_def set_state_def Let_def errnos free_urbs_def upd_priv_def)
  then have r: "reap_ctrl K hdev io 0 n d (ctrl_submitted io h c s) =
      Some (t\<lparr>lx_io := (lx_io t)(io \<mapsto> ?p), l_held := {}\<rparr>)"
    using ctrl_reap_run [OF s c(1,2) v(1), of K 0 n d h] tf(1,4)
    by (simp add: unlock_hdev_def unlock_def)
  have sub: "linux_submit_ctrl av be K hdev io s = Some (0, ctrl_submitted io h c s)"
    by (rule ctrl_submit_run [where K = K, OF st c(1,3) av k])
  have b: "ub_buffer (ctrl_urb io c) = Own (ctrl_bytes c)" by (simp add: ctrl_urb_def)
  show ?thesis
    unfolding b ctrl_bytes_def ctrl_setup_bytes USB_DIR_MASK_def
    by (intro conjI sub refl exI [of _ "t\<lparr>lx_io := (lx_io t)(io \<mapsto> ?p), l_held := {}\<rparr>"] exI [of _ ?p] r)
      (simp_all add: tf)
qed

text \<open>
  A control request that fails in the device is never reported. When the kernel hands the
  URB back with a status other than success and -ENOENT, such as -EPIPE for the stall by which
  a device refuses a request, the URB is freed and the request stays as it was: no result, and
  still the outstanding request of its device, with no URB left that could end it.
\<close>

theorem failed_ctrl_never_reported:
  assumes st: "submittable hdev io x r h s" and c: "rq_req r = Ctrl c" "rq_type r = USB_TYPE_CONTROL" "ctrl_ok c"
    and av: "\<forall>a. av a" and k: "\<forall>t. fst (K (hp_fd h) (SUBMITURB (UrbAt io 0)) t) = 0" and e: "e \<noteq> 0" "e \<noteq> - ENOENT"
  shows "\<exists>t p. linux_submit_ctrl av be K hdev io s = Some (0, ctrl_submitted io h c s) \<and>
     reap_ctrl K hdev io e n d (ctrl_submitted io h c s) = Some t \<and>
     l_io t = l_io s \<and> l_req t = l_req s \<and> l_hdev t = l_hdev s \<and> l_hdl t = l_hdl s \<and> l_sio t = l_sio s \<and>
     lx_io t io = Some p \<and> pv_urbs p = FreedUrbs"
proof -
  have s: "l_held s = {}" "l_io s io = Some x" "l_req s (io_req x) = Some r"
    using st by (simp_all add: submittable_def)
  obtain hv where v: "l_hdev s hdev = Some hv" using st by (auto simp: submittable_def)
  have u: "ub_status (ctrl_done_urb io c e n d) = e" by (simp add: ctrl_done_urb_def)
  have "reap_ctrl K hdev io e n d (ctrl_submitted io h c s) = Some ((flight io
      ((bulk_private [ctrl_done_urb io c e n d])\<lparr>pv_urbs := FreedUrbs\<rparr>) (lx_log (ctrl_submitted io h c s))
      (s\<lparr>l_next := l_next s + 3, l_held := {LkHdev hdev}\<rparr>))\<lparr>l_held := {}\<rparr>)"
    using ctrl_reap_run [OF s c(1,2) v, of K e n d h] u e v
    by (simp add: ctrl_complete_def free_urbs_def unlock_hdev_def unlock_def Let_def)
  moreover have "linux_submit_ctrl av be K hdev io s = Some (0, ctrl_submitted io h c s)"
    by (rule ctrl_submit_run [where K = K, OF st c(1,3) av k])
  ultimately show ?thesis by (simp add: flight_def)
qed

end
