(* ===== verification/LinuxIsoc.thy ===== *)
theory LinuxIsoc
  imports LinuxCtrl
begin

text \<open>
  Isochronous requests of the Linux backend: the two passes of linux_submit_isoc, which count
  the URBs and fill them, agree for packets up to the limit of usbfs, and not beyond.
\<close>

section \<open>Packing\<close>

definition pk_len :: "isoc_packet \<Rightarrow> nat" where
  "pk_len p = unat (pk_length p)"

definition packets_ok :: "isoc_packet list \<Rightarrow> bool" where
  "packets_ok ps \<longleftrightarrow> (\<forall>p \<in> set ps. pk_length p \<le> LINUX_MAX_ISOC_XFER \<and> length (pk_payload p) = pk_len p)"

lemma packets_ok_simps [simp]:
  "packets_ok []" "packets_ok (p # ps) \<longleftrightarrow> pk_length p \<le> LINUX_MAX_ISOC_XFER \<and> length (pk_payload p) = pk_len p \<and> packets_ok ps"
  by (auto simp: packets_ok_def)

lemma packets_ok_parts: "packets_ok ps \<Longrightarrow> packets_ok (take n ps) \<and> packets_ok (drop n ps)"
  by (auto simp: packets_ok_def dest: in_set_takeD in_set_dropD)

text \<open>The packets of the next n URBs.\<close>

fun isoc_split :: "nat \<Rightarrow> isoc_packet list \<Rightarrow> isoc_packet list list" where
  "isoc_split 0 ps = []"
| "isoc_split (Suc n) ps = (let k = fst (isoc_take ps LINUX_MAX_ISOC_XFER) in take k ps # isoc_split n (drop k ps))"

lemma length_isoc_split [simp]: "length (isoc_split n ps) = n"
  by (induction n ps rule: isoc_split.induct) (simp_all add: Let_def)

text \<open>How many URBs are opened after one with this space left.\<close>

fun isoc_more :: "isoc_packet list \<Rightarrow> u32 \<Rightarrow> nat" where
  "isoc_more [] space = 0"
| "isoc_more (p # ps) space = (if pk_length p \<le> space then isoc_more ps (space - pk_length p)
     else Suc (isoc_more ps (LINUX_MAX_ISOC_XFER - pk_length p)))"

lemma isoc_more_le: "isoc_more ps sp \<le> length ps"
  by (induction ps sp rule: isoc_more.induct) (auto intro: le_SucI)

lemma isoc_count_more:
  "packets_ok ps \<Longrightarrow> isoc_count ps len num = num + of_nat (isoc_more ps (LINUX_MAX_ISOC_XFER - len))"
proof (induction ps arbitrary: len num)
  case (Cons p ps)
  have e: "LINUX_MAX_ISOC_XFER - (len + pk_length p) = LINUX_MAX_ISOC_XFER - len - pk_length p" by simp
  show ?case
  proof (cases "pk_length p \<le> LINUX_MAX_ISOC_XFER - len")
    case True
    then have "\<not> LINUX_MAX_ISOC_XFER - len < pk_length p" by simp
    then show ?thesis using True Cons by (simp add: e)
  next
    case False
    then have "LINUX_MAX_ISOC_XFER - len < pk_length p" by simp
    then have "isoc_count (p # ps) len num = isoc_count ps (pk_length p) (num + 1)" by simp
    moreover have "isoc_more (p # ps) (LINUX_MAX_ISOC_XFER - len) = Suc (isoc_more ps (LINUX_MAX_ISOC_XFER - pk_length p))"
      unfolding isoc_more.simps by (rule if_not_P [OF False])
    ultimately show ?thesis using Cons by (simp del: isoc_count.simps isoc_more.simps)
  qed
qed simp

lemma isoc_take_bounds:
  "fst (isoc_take ps sp) \<le> length ps \<and>
   snd (isoc_take ps sp) = of_nat (\<Sum>p \<leftarrow> take (fst (isoc_take ps sp)) ps. pk_len p) \<and>
   (\<Sum>p \<leftarrow> take (fst (isoc_take ps sp)) ps. pk_len p) \<le> unat sp"
proof (induction ps arbitrary: sp)
  case (Cons p ps)
  show ?case
  proof (cases "pk_length p \<le> sp")
    case True
    then have "unat (sp - pk_length p) = unat sp - unat (pk_length p)" "unat (pk_length p) \<le> unat sp"
      by (simp_all add: unat_sub word_le_nat_alt)
    then show ?thesis using True Cons.IH [of "sp - pk_length p"]
      by (simp add: Let_def case_prod_unfold pk_len_def le_diff_conv2 add.commute)
  qed simp
qed simp

lemma isoc_more_take: "packets_ok ps \<Longrightarrow>
    isoc_more ps sp = (let qs = drop (fst (isoc_take ps sp)) ps
       in if qs = [] then 0 else Suc (isoc_more qs LINUX_MAX_ISOC_XFER))"
  by (induction ps arbitrary: sp) (simp_all add: Let_def case_prod_unfold)

lemma isoc_take_progress: "packets_ok ps \<Longrightarrow> ps \<noteq> [] \<Longrightarrow> 0 < fst (isoc_take ps LINUX_MAX_ISOC_XFER)"
  by (cases ps) (simp_all add: Let_def case_prod_unfold)

text \<open>The second pass uses all packets, in the number of URBs that the first pass counts.\<close>

lemma isoc_split_all: "packets_ok ps \<Longrightarrow> concat (isoc_split (Suc (isoc_more ps LINUX_MAX_ISOC_XFER)) ps) = ps"
proof (induction "length ps" arbitrary: ps rule: less_induct)
  case less
  let ?k = "fst (isoc_take ps LINUX_MAX_ISOC_XFER)"
  let ?qs = "drop ?k ps"
  note m = isoc_more_take [OF less.prems, of LINUX_MAX_ISOC_XFER, unfolded Let_def]
  show ?case
  proof (cases "?qs = []")
    case True
    then show ?thesis unfolding m by (simp add: Let_def)
  next
    case False
    then have "ps \<noteq> []" by auto
    then have "length ?qs < length ps" using isoc_take_progress [OF less.prems] by simp
    then have "concat (isoc_split (Suc (isoc_more ?qs LINUX_MAX_ISOC_XFER)) ?qs) = ?qs"
      using less.hyps packets_ok_parts [OF less.prems] by blast
    moreover have "concat (isoc_split (Suc n) ps) = take ?k ps @ concat (isoc_split n ?qs)" for n
      by (simp add: Let_def)
    ultimately show ?thesis unfolding m by (simp only: if_not_P [OF False] append_take_drop_id)
  qed
qed

lemma isoc_split_sizes: "\<forall>qs \<in> set (isoc_split n ps). (\<Sum>p \<leftarrow> qs. pk_len p) \<le> 32768"
proof (induction n arbitrary: ps)
  case (Suc n)
  then show ?case using isoc_take_bounds [of ps LINUX_MAX_ISOC_XFER]
    by (simp add: Let_def LINUX_MAX_ISOC_XFER_def)
qed simp

section \<open>Filling\<close>

definition isoc_desc :: "isoc_packet \<Rightarrow> usbk_iso_packet_desc" where
  "isoc_desc p = \<lparr>ipd_length = pk_length p, ipd_actual_length = 0, ipd_status = 0\<rparr>"

lemma isoc_fill_run:
  "packets_ok ps \<Longrightarrow> isoc_fill out ps (length a) ds (a @ replicate (\<Sum>p \<leftarrow> ps. pk_len p) 0) =
     Some (ds @ map isoc_desc ps, a @ (if out then concat (map pk_payload ps) else replicate (\<Sum>p \<leftarrow> ps. pk_len p) 0))"
proof (induction ps arbitrary: a ds)
  case (Cons p ps)
  let ?n = "\<Sum>p \<leftarrow> ps. pk_len p"
  let ?d = "if out then pk_payload p else replicate (pk_len p) 0"
  have l: "length (pk_payload p) = pk_len p" "length ?d = pk_len p" "unat (pk_length p) = pk_len p"
    using Cons.prems by (simp_all add: pk_len_def)
  have r: "replicate (\<Sum>p \<leftarrow> p # ps. pk_len p) (0 :: u8) = replicate (pk_len p) 0 @ replicate ?n 0"
    by (simp add: replicate_add)
  have w: "(if out then do { d \<leftarrow> rdn (pk_payload p) 0 (unat (pk_length p));
        wrn (a @ replicate (\<Sum>p \<leftarrow> p # ps. pk_len p) 0) (length a) d }
      else Some (a @ replicate (\<Sum>p \<leftarrow> p # ps. pk_len p) 0)) = Some ((a @ ?d) @ replicate ?n 0)"
    unfolding r l(3) using l(1) by (simp add: rdn_def wrn_def)
  have "isoc_fill out (p # ps) (length a) ds (a @ replicate (\<Sum>p \<leftarrow> p # ps. pk_len p) 0) =
      isoc_fill out ps (length (a @ ?d)) (ds @ [isoc_desc p]) ((a @ ?d) @ replicate ?n 0)"
    unfolding isoc_fill.simps w using l(2,3) by (simp add: isoc_desc_def)
  also have "\<dots> = Some ((ds @ [isoc_desc p]) @ map isoc_desc ps,
      (a @ ?d) @ (if out then concat (map pk_payload ps) else replicate ?n 0))"
    by (rule Cons.IH) (use Cons.prems in simp)
  finally show ?case by (simp add: replicate_add)
qed simp

text \<open>The URB of a group of packets.\<close>

definition iso_urb :: "u8 \<Rightarrow> addr \<Rightarrow> isoc_packet list \<Rightarrow> usbk_urb" where
  "iso_urb ep io ps = zero_urb\<lparr>ub_buffer_length := int (\<Sum>p \<leftarrow> ps. pk_len p), ub_buffer := Own (if ep AND USB_DIR_MASK = 0
       then concat (map pk_payload ps) else replicate (\<Sum>p \<leftarrow> ps. pk_len p) 0), ub_iso := map isoc_desc ps,
     ub_usercontext := io, ub_type := USBK_URB_TYPE_ISO, ub_flags := USBK_URB_ISO_ASAP, ub_endpoint := ep,
     ub_number_of_packets := int (length ps)\<rparr>"

lemma isoc_urb_run:
  assumes "packets_ok ps" "(\<Sum>p \<leftarrow> ps. pk_len p) \<le> 32768" "len = of_nat (\<Sum>p \<leftarrow> ps. pk_len p)"
  shows "isoc_urb ep io ps len = Some (iso_urb ep io ps)"
proof -
  obtain k where k: "(\<Sum>p \<leftarrow> ps. pk_len p) = k" by simp
  have u: "unat len = k"
    using assms(2,3) unfolding k by (simp add: unat_of_nat take_bit_nat_eq_self unsigned_of_nat)
  then have "uint len = int k" by (metis uint_nat)
  then have i: "sint len = int k"
    using assms(2) unfolding k by (simp add: sint_uint signed_take_bit_int_eq_self)
  show ?thesis
    using isoc_fill_run [OF assms(1), of "ep AND USB_DIR_MASK = 0" "[]" "[]"] u i k
    by (simp add: isoc_urb_def iso_urb_def)
qed

section \<open>Submission\<close>

lemma set_iso_urb_run:
  assumes "lx_io s io = Some v" "pv_urbs v = IsoUrbs us" "i < length us"
  shows "set_iso_urb io i u s = Some (s\<lparr>lx_io := (lx_io s)(io \<mapsto> v\<lparr>pv_urbs := IsoUrbs (us[i := Some u])\<rparr>)\<rparr>)"
  using assms by (simp add: set_iso_urb_def wr_def upd_priv_def)

lemma isoc_make_run:
  assumes av: "\<forall>a. av a"
  shows "packets_ok ps \<Longrightarrow> l_next s \<noteq> 0 \<Longrightarrow> lx_io s io = Some v \<Longrightarrow>
    pv_urbs v = IsoUrbs (map Some us @ replicate n None) \<Longrightarrow> i = length us \<Longrightarrow>
    isoc_make av ep io [i..<i + n] ps s = Some (Inr (), s\<lparr>l_next := l_next s + 2 * n,
      lx_io := (lx_io s)(io \<mapsto> v\<lparr>pv_urbs := IsoUrbs (map Some (us @ map (iso_urb ep io) (isoc_split n ps)))\<rparr>)\<rparr>)"
proof (induction n arbitrary: i ps s v us)
  case 0
  then show ?case by (cases s) (simp add: fun_upd_idem)
next
  case (Suc n)
  let ?k = "fst (isoc_take ps LINUX_MAX_ISOC_XFER)" and ?len = "snd (isoc_take ps LINUX_MAX_ISOC_XFER)"
  let ?u = "iso_urb ep io (take ?k ps)"
  let ?us = "map Some us @ replicate (Suc n) (None :: usbk_urb option)"
  let ?v = "v\<lparr>pv_urbs := IsoUrbs (map Some (us @ [?u]) @ replicate n None)\<rparr>"
  let ?s = "s\<lparr>l_next := l_next s + 2, lx_io := (lx_io s)(io \<mapsto> ?v)\<rparr>"
  have split: "[i..<i + Suc n] = i # [Suc i..<Suc i + n]" by (simp add: upt_conv_Cons)
  have i: "i < length ?us" using Suc.prems(5) by simp
  have us: "?us[i := a, i := Some ?u] = map Some (us @ [?u]) @ replicate n None" for a
    using Suc.prems(5) by (simp add: list_update_append)
  have u: "isoc_urb ep io (take ?k ps) ?len = Some ?u"
    by (rule isoc_urb_run) (use isoc_take_bounds [of ps LINUX_MAX_ISOC_XFER] packets_ok_parts [OF Suc.prems(1)]
        in \<open>simp_all add: LINUX_MAX_ISOC_XFER_def\<close>)
  have "isoc_make av ep io [i..<i + Suc n] ps s = isoc_make av ep io [Suc i..<Suc i + n] (drop ?k ps) ?s"
    unfolding split using Suc.prems(2-4) av i u us
    by (simp add: fresh_def Let_def case_prod_unfold set_iso_urb_run)
  also have "\<dots> = Some (Inr (), ?s\<lparr>l_next := l_next ?s + 2 * n, lx_io := (lx_io ?s)(io \<mapsto> ?v\<lparr>pv_urbs :=
      IsoUrbs (map Some ((us @ [?u]) @ map (iso_urb ep io) (isoc_split n (drop ?k ps))))\<rparr>)\<rparr>)"
    by (rule Suc.IH) (use Suc.prems packets_ok_parts [OF Suc.prems(1)] in simp_all)
  finally show ?case by (simp add: Let_def del: fun_upd_apply)
qed

lemma isoc_loop_run:
  assumes "lx_hdev s hdev = Some h" "accepts K (hp_fd h)"
  shows "lx_io s io = Some v \<Longrightarrow> pv_urbs v = IsoUrbs (map Some us) \<Longrightarrow> \<forall>i \<in> set is. i < length us \<Longrightarrow>
    isoc_loop K hdev io is s = Some (Inr (), s\<lparr>lx_log := lx_log s @ map (\<lambda>i. (hp_fd h, SUBMITURB (IsoUrbAt io i))) is\<rparr>)"
  using assms
proof (induction "is" arbitrary: s)
  case (Cons i "is")
  let ?s = "s\<lparr>lx_log := lx_log s @ [(hp_fd h, SUBMITURB (IsoUrbAt io i))]\<rparr>"
  have "isoc_loop K hdev io (i # is) s = isoc_loop K hdev io is ?s"
    using Cons.prems unfolding accepts_def
    by (simp add: urb_at_def rd_def urb_submit_def sys_def Let_def case_prod_unfold)
  also have "\<dots> = Some (Inr (), ?s\<lparr>lx_log := lx_log ?s @ map (\<lambda>i. (hp_fd h, SUBMITURB (IsoUrbAt io i))) is\<rparr>)"
    by (rule Cons.IH) (use Cons.prems in simp_all)
  finally show ?case by simp
qed simp

definition isoc_submitted :: "addr \<Rightarrow> usbi_io \<Rightarrow> hdl_private \<Rightarrow> usbk_urb list \<Rightarrow> 'a linux_scheme \<Rightarrow> 'a linux_scheme" where
  "isoc_submitted io x h us s = s\<lparr>l_next := l_next s + 2 + 2 * length us, l_io := (l_io s)(io \<mapsto> x\<lparr>io_state := IO_INPROGRESS\<rparr>),
     lx_io := (lx_io s)(io \<mapsto> zero_private\<lparr>pv_num_urbs := of_nat (length us), pv_urbs := IsoUrbs (map Some us)\<rparr>),
     lx_log := lx_log s @ map (\<lambda>i. (hp_fd h, SUBMITURB (IsoUrbAt io i))) [0..<length us] @
       [(snd (hp_event_pipe h), WRITE_EVENT)]\<rparr>"

lemma isoc_submitted_eq:
  "l_held s = {} \<Longrightarrow> length us = n \<Longrightarrow> isoc_submitted io x h us s =
    s\<lparr>l_next := l_next s + 2 + 2 * n, l_held := {}, l_io := (l_io s)(io \<mapsto> x\<lparr>io_state := IO_INPROGRESS\<rparr>),
     lx_io := (lx_io s)(io \<mapsto> zero_private\<lparr>pv_num_urbs := of_nat n, pv_urbs := IsoUrbs (map Some us)\<rparr>),
     lx_log := lx_log s @ map (\<lambda>i. (hp_fd h, SUBMITURB (IsoUrbAt io i))) [0..<n] @
       [(snd (hp_event_pipe h), WRITE_EVENT)]\<rparr>"
  by (cases s) (auto simp: isoc_submitted_def)

lemma isoc_submit_run:
  assumes st: "submittable hdev io x r h s" and q: "rq_req r = Isoc q" "length (is_packets q) = unat (is_num_packets q)"
    "packets_ok (is_packets q)" "unat (is_num_packets q) + 1 < 2 ^ 32"
    and av: "\<forall>a. av a" and k: "accepts K (hp_fd h)"
  shows "linux_submit_isoc av K hdev io s = Some (OPENUSB_SUCCESS, isoc_submitted io x h
     (map (iso_urb (rq_endpoint r) io) (isoc_split (Suc (isoc_more (is_packets q) LINUX_MAX_ISOC_XFER)) (is_packets q))) s)"
proof -
  let ?ps = "is_packets q"
  let ?n = "Suc (isoc_more ?ps LINUX_MAX_ISOC_XFER)"
  let ?us = "map (iso_urb (rq_endpoint r) io) (isoc_split ?n ?ps)"
  have s: "l_held s = {}" "l_io s io = Some x" "l_req s (io_req x) = Some r" "lx_hdev s hdev = Some h"
    "l_hdev s hdev \<noteq> None" "hdev \<noteq> 0" "io \<noteq> 0" "l_next s \<noteq> 0"
    using st by (simp_all add: submittable_def)
  obtain hd where hd: "l_hdev s hdev = Some hd" using s(5) by blast
  have ps: "rdn ?ps 0 (unat (is_num_packets q)) = Some ?ps" using q(2) by (simp add: rdn_def)
  have num: "isoc_count ?ps 0 1 = of_nat ?n" using isoc_count_more [OF q(3), of 0 1] by simp
  have nl: "?n < 2 ^ 32" using isoc_more_le [of ?ps LINUX_MAX_ISOC_XFER] q(2,4) by linarith
  have un: "unat (word_of_nat ?n :: u32) = ?n" by (rule unat_of_nat_u32 [OF nl])
  let ?v = "zero_private\<lparr>pv_num_urbs := word_of_nat ?n, pv_urbs := IsoUrbs (replicate ?n None)\<rparr>"
  have z: "zero_private\<lparr>pv_num_urbs := word_of_nat ?n, pv_urbs := u, pv_urbs_to_cancel := 0, pv_urbs_to_reap := 0,
      pv_reap_action := NORMAL, pv_isoc_packet_offset := 0\<rparr> = zero_private\<lparr>pv_num_urbs := word_of_nat ?n, pv_urbs := u\<rparr>"
     "zero_private\<lparr>pv_num_urbs := word_of_nat ?n, pv_urbs := u, pv_reap_action := NORMAL\<rparr> =
       zero_private\<lparr>pv_num_urbs := word_of_nat ?n, pv_urbs := u\<rparr>" for u
    by (simp_all add: zero_private_def)
  let ?s1 = "s\<lparr>l_held := {LkIo io}, l_next := l_next s + 2, lx_io := (lx_io s)(io \<mapsto> ?v)\<rparr>"
  let ?v2 = "zero_private\<lparr>pv_num_urbs := word_of_nat ?n, pv_urbs := IsoUrbs (map Some ?us)\<rparr>"
  have make: "isoc_make av (rq_endpoint r) io [0..<?n] ?ps ?s1 = Some (Inr (),
      s\<lparr>l_held := {LkIo io}, l_next := l_next s + 2 + 2 * ?n, lx_io := (lx_io s)(io \<mapsto> ?v2)\<rparr>)"
    using isoc_make_run [OF av q(3), of ?s1 io ?v "[]" ?n 0 "rq_endpoint r"] by simp
  let ?s2 = "s\<lparr>l_next := l_next s + 2 + 2 * ?n, l_held := {LkHdev hdev, LkIo io},
     l_io := (l_io s)(io \<mapsto> x\<lparr>io_state := IO_INPROGRESS\<rparr>), lx_io := (lx_io s)(io \<mapsto> ?v2)\<rparr>"
  have loop: "isoc_loop K hdev io [0..<?n] ?s2 = Some (Inr (),
      ?s2\<lparr>lx_log := lx_log ?s2 @ map (\<lambda>i. (hp_fd h, SUBMITURB (IsoUrbAt io i))) [0..<?n]\<rparr>)"
    by (rule isoc_loop_run [OF _ k, where v = ?v2 and us = ?us]) (use s in \<open>simp_all del: isoc_split.simps upt_Suc\<close>)
  have ne: "LkIo io \<noteq> LkHdev hdev" "{LkHdev hdev, LkIo io} - {LkIo io} = {LkHdev hdev}" by auto
  have us: "length ?us = ?n" by (simp only: length_map length_isoc_split)
  note e = isoc_submitted_eq [OF s(1) us]
  have "linux_submit_isoc av K hdev io s = (do {
      (c, s) \<leftarrow> isoc_loop K hdev io [0..<?n] ?s2;
      (case c of Inl ret \<Rightarrow> Some (ret, s) | Inr _ \<Rightarrow> submit_end K hdev io OPENUSB_SUCCESS s) })"
    using s hd q(1) ps num un av make ne
    by (simp add: linux_submit_isoc_def lock_io_def unlock_io_def lock_hdev_def unlock_hdev_def lock_def
        unlock_def alloc_priv_def fresh_def upd_priv_def set_state_def Let_def z case_prod_unfold
        del: isoc_split.simps isoc_loop.simps isoc_make.simps upt_Suc of_nat_Suc)
  then show ?thesis unfolding loop e
    using s hd ne
    by (simp add: submit_end_def unlock_io_def unlock_hdev_def unlock_def wakeup_io_thread_def sys_def Let_def
        case_prod_unfold del: isoc_split.simps upt_Suc of_nat_Suc)
qed

section \<open>Properties\<close>

text \<open>
  C19. Packing of an isochronous request (src/openusb/src/linux.c, linux_submit_isoc). When every packet
  fits into the 32768 bytes that usbfs allows per URB and has a buffer of its length, the request is
  accepted: its packets are divided, in order and without loss, over URBs of at most 32768 bytes,
  each URB lists the lengths of its packets and, for an output endpoint, carries their bytes one after another; the URBs are
  submitted in order, and then the event thread is woken.
\<close>
theorem isoc_submit_packs:
  assumes "submittable hdev io x r h s" "rq_req r = Isoc q" "length (is_packets q) = unat (is_num_packets q)"
    and "packets_ok (is_packets q)" "unat (is_num_packets q) + 1 < 2 ^ 32"
    and "\<forall>a. av a" "accepts K (hp_fd h)"
  shows "\<exists>groups t v. linux_submit_isoc av K hdev io s = Some (OPENUSB_SUCCESS, t) \<and>
     concat groups = is_packets q \<and> (\<forall>g \<in> set groups. (\<Sum>p \<leftarrow> g. pk_len p) \<le> 32768) \<and>
     lx_io t io = Some v \<and> pv_urbs v = IsoUrbs (map (Some \<circ> iso_urb (rq_endpoint r) io) groups) \<and>
     unat (pv_num_urbs v) = length groups \<and> l_held t = {} \<and>
     lx_log t = lx_log s @ map (\<lambda>i. (hp_fd h, SUBMITURB (IsoUrbAt io i))) [0..<length groups] @
       [(snd (hp_event_pipe h), WRITE_EVENT)]"
proof -
  let ?n = "Suc (isoc_more (is_packets q) LINUX_MAX_ISOC_XFER)"
  let ?g = "isoc_split ?n (is_packets q)"
  have n: "?n < 2 ^ 32" using isoc_more_le [of "is_packets q" LINUX_MAX_ISOC_XFER] assms(3,5) by linarith
  have held: "l_held s = {}" using assms(1) by (simp add: submittable_def)
  show ?thesis
    apply (rule exI [of _ ?g])
    using isoc_submit_run [OF assms] isoc_split_all [OF assms(4)] isoc_split_sizes [of ?n "is_packets q"] held
      unat_of_nat_u32 [OF n]
    by (simp add: isoc_submitted_def del: isoc_split.simps upt_Suc of_nat_Suc)
qed

end
