(* ===== verification/LinuxDev.thy ===== *)
theory LinuxDev
  imports LinuxReap
begin

text \<open>
  The device operations of the Linux backend: opening and closing, configurations,
  interfaces and kernel drivers, reset. The descriptors that pipe() gives, the name that the
  kernel reports for a driver and the end of the polling thread (with what other threads do
  until then) are arguments.
\<close>

definition USB_INIT_REVERSIBLE :: nat where "USB_INIT_REVERSIBLE = 2"
definition USB_INIT_NON_REVERSIBLE :: nat where "USB_INIT_NON_REVERSIBLE = 3"
definition USB_REQ_GET_CONFIGURATION :: u8 where "USB_REQ_GET_CONFIGURATION = 8"

section \<open>Opening and closing\<close>

definition device_open :: "'a linux_scheme kernel \<Rightarrow> addr \<Rightarrow> ('a linux_scheme, int) op" where
  "device_open K idev s =
     (if idev = 0 then Some (OPENUSB_BADARG, s)
      else do {
        d \<leftarrow> l_dev s idev;
        let ((fd, errno), s) = sys K 0 (OPEN_RDWR (dv_sys_path d)) s;
        (if fd < 0 then do {
           let ((fd, errno), s) = sys K 0 (OPEN_RDONLY (dv_sys_path d)) s;
           Some (if fd < 0 then translate_errno errno else fd, s)
         }
         else Some (fd, s))
      })"

text \<open>Closing a file descriptor whose result is ignored, when it is positive.\<close>

definition close_fd :: "'a linux_scheme kernel \<Rightarrow> int \<Rightarrow> 'a linux_scheme \<Rightarrow> 'a linux_scheme" where
  "close_fd K fd s = (if fd > 0 then snd (sys K fd CLOSE s) else s)"

definition linux_close :: "'a linux_scheme kernel \<Rightarrow> (addr \<Rightarrow> 'a linux_scheme \<Rightarrow> 'a linux_scheme option) \<Rightarrow> addr \<Rightarrow>
    ('a linux_scheme, int) op" where
  "linux_close K join hdev s =
     (if hdev = 0 then Some (OPENUSB_BADARG, s)
      else do {
        h \<leftarrow> l_hdev s hdev;
        (if hv_state h \<noteq> DEVICE_OPENED then Some (OPENUSB_SUCCESS, s)
         else do {
           s \<leftarrow> lock_hdev hdev s;
           s \<leftarrow> set_hv_state hdev DEVICE_CLOSING s;
           s \<leftarrow> unlock_hdev hdev s;
           (_, s) \<leftarrow> wakeup_io_thread K hdev s;
           s \<leftarrow> join hdev s;
           p \<leftarrow> lx_hdev s hdev;
           let s = close_fd K (fst (hp_event_pipe p)) s;
           let s = close_fd K (snd (hp_event_pipe p)) s;
           (if hp_fd p \<le> 0 then Some (OPENUSB_SUCCESS, s\<lparr>lx_hdev := (lx_hdev s)(hdev := None)\<rparr>)
            else do {
              s \<leftarrow> lock_hdev hdev s;
              let (_, s) = sys K (hp_fd p) CLOSE s;
              s \<leftarrow> set_hv_state hdev DEVICE_CLOSED s;
              s \<leftarrow> unlock_hdev hdev s;
              Some (OPENUSB_SUCCESS, s\<lparr>lx_hdev := (lx_hdev s)(hdev := None)\<rparr>)
            })
         })
      })"

definition linux_open :: "(addr \<Rightarrow> bool) \<Rightarrow> 'a linux_scheme kernel \<Rightarrow> (addr \<Rightarrow> 'a linux_scheme \<Rightarrow> 'a linux_scheme option) \<Rightarrow>
    int \<times> int \<Rightarrow> addr \<Rightarrow> ('a linux_scheme, int) op" where
  "linux_open av K join fds hdev s =
     (if hdev = 0 then Some (OPENUSB_BADARG, s)
      else do {
        h \<leftarrow> l_hdev s hdev;
        (if hv_state h = DEVICE_OPENED then Some (OPENUSB_BUSY, s)
         else do {
           let (priv, s) = fresh av s;
           (if priv = 0 then Some (OPENUSB_NO_RESOURCES, s)
            else do {
              (fd, s) \<leftarrow> device_open K (hv_idev h) s;
              let p = \<lparr>hp_fd = fd, hp_event_pipe = (0, 0), hp_reattachdrv = False\<rparr>;
              let s = s\<lparr>lx_hdev := (lx_hdev s)(hdev \<mapsto> p)\<rparr>;
              (if fd < 0 then Some (fd, s)
               else do {
                 let ((ret, _), s) = sys K fd PIPE s;
                 (if ret = -1 then Some (OPENUSB_SYS_FUNC_FAILURE, s)
                  else do {
                    let s = s\<lparr>lx_hdev := (lx_hdev s)(hdev \<mapsto> p\<lparr>hp_event_pipe := fds\<rparr>)\<rparr>;
                    let ((ret, _), s) = sys K fd THREAD s;
                    (if ret < 0 then do {
                       (_, s) \<leftarrow> linux_close K join hdev s;
                       Some (OPENUSB_NO_RESOURCES, s)
                     }
                     else do {
                       dp \<leftarrow> lx_dev s (hv_idev h);
                       Some (OPENUSB_SUCCESS, s\<lparr>lx_dev := (lx_dev s)(hv_idev h \<mapsto> dp\<lparr>dp_hdev := hdev\<rparr>)\<rparr>)
                     })
                  })
               })
            })
         })
      })"

section \<open>Configurations\<close>

text \<open>ioctl on the file of an open device.\<close>

definition dev_ioctl :: "'a linux_scheme kernel \<Rightarrow> addr \<Rightarrow> syscall \<Rightarrow> ('a linux_scheme, int \<times> int) op" where
  "dev_ioctl K hdev c s = do { p \<leftarrow> lx_hdev s hdev; Some (sys K (hp_fd p) c s) }"

definition linux_set_configuration :: "(addr \<Rightarrow> bool) \<Rightarrow> (nat \<Rightarrow> bool) \<Rightarrow> (nat \<Rightarrow> 'a linux_scheme backend_ops) \<Rightarrow>
    bool \<Rightarrow> ('a linux_scheme \<Rightarrow> 'a linux_scheme option) \<Rightarrow> junk \<Rightarrow> locals \<Rightarrow> 'a linux_scheme kernel \<Rightarrow> addr \<Rightarrow> u8 \<Rightarrow>
    ('a linux_scheme, int) op" where
  "linux_set_configuration av mem B be others j lo K hdev cfg s =
     (if hdev = 0 then Some (OPENUSB_BADARG, s)
      else do {
        ((ret, errno), s) \<leftarrow> dev_ioctl K hdev (SETCONFIG (int (unat cfg))) s;
        (if ret < 0 then Some (translate_errno errno, s)
         else do {
           h \<leftarrow> l_hdev s hdev;
           d \<leftarrow> l_dev s (hv_idev h);
           let s = s\<lparr>l_dev := (l_dev s)(hv_idev h \<mapsto> d\<lparr>dv_cur_config_value := cfg\<rparr>)\<rparr>;
           (ndx, s) \<leftarrow> usbi_get_cfg_index_by_value av mem B be others j lo hdev cfg s;
           s \<leftarrow> set_cur_config hdev cfg ndx s;
           Some (OPENUSB_SUCCESS, s)
         })
      })"

text \<open>The result and *cfg; the transfer runs with the lock of the handle released.\<close>

definition linux_get_configuration :: "(addr \<Rightarrow> bool) \<Rightarrow> (nat \<Rightarrow> bool) \<Rightarrow> (nat \<Rightarrow> 'a linux_scheme backend_ops) \<Rightarrow>
    bool \<Rightarrow> ('a linux_scheme \<Rightarrow> 'a linux_scheme option) \<Rightarrow> junk \<Rightarrow> locals \<Rightarrow> u8 \<Rightarrow> addr \<Rightarrow> u8 \<Rightarrow>
    ('a linux_scheme, int \<times> u8) op" where
  "linux_get_configuration av mem B be others j lo current_cfg hdev cfg s =
     (if hdev = 0 then Some ((OPENUSB_BADARG, cfg), s)
      else do {
        s \<leftarrow> unlock_hdev hdev s;
        ((ret, buf), s) \<leftarrow> usbi_control_xfer av B others hdev (int (unat USB_REQ_DEV_TO_HOST))
           (int (unat USB_REQ_GET_CONFIGURATION)) 0 0 [current_cfg] 1 1000 s;
        current_cfg \<leftarrow> rd buf 0;
        (ndx, s) \<leftarrow> (if ret < 0 then Some (0, s)
           else usbi_get_cfg_index_by_value av mem B be others j lo hdev current_cfg s);
        s \<leftarrow> lock_hdev hdev s;
        (if ret = OPENUSB_SUCCESS then do {
           s \<leftarrow> set_cur_config hdev current_cfg ndx s;
           Some ((ret, current_cfg), s)
         }
         else Some ((ret, cfg), s))
      })"

section \<open>Kernel drivers\<close>

text \<open>The name and namelen; a length of 0 makes the last write one before the buffer.\<close>

definition linux_get_driver :: "'a linux_scheme kernel \<Rightarrow> string \<Rightarrow> addr \<Rightarrow> u8 \<Rightarrow> string \<Rightarrow> nat \<Rightarrow>
    ('a linux_scheme, int \<times> string) op" where
  "linux_get_driver K driver hdev ifc name namelen s = do {
     ((ret, errno), s) \<leftarrow> dev_ioctl K hdev (GETDRIVER (int (unat ifc))) s;
     (if ret \<noteq> 0 then Some ((translate_errno errno, name), s)
      else if namelen = 0 then None
      else Some ((OPENUSB_SUCCESS, take (namelen - 1) driver), s))
   }"

definition linux_attach_kernel_driver :: "'a linux_scheme kernel \<Rightarrow> addr \<Rightarrow> u8 \<Rightarrow> ('a linux_scheme, int) op" where
  "linux_attach_kernel_driver K hdev ifc s = do {
     ((ret, errno), s) \<leftarrow> dev_ioctl K hdev (CONNECT (int (unat ifc))) s;
     Some (if ret \<noteq> 0 then translate_errno errno else OPENUSB_SUCCESS, s)
   }"

definition linux_detach_kernel_driver :: "'a linux_scheme kernel \<Rightarrow> addr \<Rightarrow> u8 \<Rightarrow> ('a linux_scheme, int) op" where
  "linux_detach_kernel_driver K hdev ifc s = do {
     ((ret, errno), s) \<leftarrow> dev_ioctl K hdev (DISCONNECT (int (unat ifc))) s;
     Some (if ret \<noteq> 0 then translate_errno errno else OPENUSB_SUCCESS, s)
   }"

section \<open>Interfaces\<close>

definition set_reattach :: "addr \<Rightarrow> bool \<Rightarrow> 'a linux_scheme \<Rightarrow> 'a linux_scheme option" where
  "set_reattach hdev b s = do { p \<leftarrow> lx_hdev s hdev; Some (s\<lparr>lx_hdev := (lx_hdev s)(hdev \<mapsto> p\<lparr>hp_reattachdrv := b\<rparr>)\<rparr>) }"

text \<open>
  The second condition on flags is written flags = USB_INIT_NON_REVERSIBLE in C, an
  assignment whose value is not 0. The second CLAIMINTF is given the address of the byte ifc.
\<close>

definition linux_claim_interface :: "'a linux_scheme kernel \<Rightarrow> addr \<Rightarrow> u8 \<Rightarrow> nat \<Rightarrow> ('a linux_scheme, int) op" where
  "linux_claim_interface K hdev ifc flags s =
     (if hdev = 0 then Some (OPENUSB_BADARG, s)
      else do {
        h \<leftarrow> l_hdev s hdev;
        c \<leftarrow> rd (hv_claimed_ifs h) (unat ifc);
        (if fst c = USBI_IFC_CLAIMED then Some (OPENUSB_SUCCESS, s)
         else do {
           ((ret, errno), s) \<leftarrow> dev_ioctl K hdev (CLAIMINTF (int (unat ifc))) s;
           (if ret < 0 then
              (if flags = USB_INIT_REVERSIBLE \<or> USB_INIT_NON_REVERSIBLE \<noteq> 0 then do {
                 (ret, s) \<leftarrow> linux_detach_kernel_driver K hdev ifc s;
                 (if ret > 0 then do {
                    s \<leftarrow> set_reattach hdev True s;
                    ((ret, errno), s) \<leftarrow> dev_ioctl K hdev (CLAIMINTF (int (unat ifc))) s;
                    (if ret < 0 then do {
                       s \<leftarrow> set_reattach hdev False s;
                       linux_attach_kernel_driver K hdev ifc s
                     }
                     else Some (ret, s))
                  }
                  else Some (ret, s))
               }
               else Some (translate_errno errno, s))
            else do {
              s \<leftarrow> set_claim hdev ifc (USBI_IFC_CLAIMED, 0) s;
              Some (ret, s)
            })
         })
      })"

definition linux_release_interface :: "'a linux_scheme kernel \<Rightarrow> addr \<Rightarrow> u8 \<Rightarrow> ('a linux_scheme, int) op" where
  "linux_release_interface K hdev ifc s =
     (if hdev = 0 then Some (OPENUSB_BADARG, s)
      else do {
        ((ret, errno), s) \<leftarrow> dev_ioctl K hdev (RELEASEINTF (int (unat ifc))) s;
        (if ret < 0 then Some (translate_errno errno, s)
         else do {
           s \<leftarrow> set_claim hdev ifc (-1, -1) s;
           p \<leftarrow> lx_hdev s hdev;
           (if hp_reattachdrv p then do {
              (ret, s) \<leftarrow> linux_attach_kernel_driver K hdev ifc s;
              Some (if ret < 0 then ret else OPENUSB_SUCCESS, s)
            }
            else Some (OPENUSB_SUCCESS, s))
         })
      })"

definition linux_set_altsetting :: "'a linux_scheme kernel \<Rightarrow> addr \<Rightarrow> u8 \<Rightarrow> u8 \<Rightarrow> ('a linux_scheme, int) op" where
  "linux_set_altsetting K hdev ifc alt s =
     (if hdev = 0 then Some (OPENUSB_BADARG, s)
      else do {
        h \<leftarrow> l_hdev s hdev;
        c \<leftarrow> rd (hv_claimed_ifs h) (unat ifc);
        (if fst c \<noteq> USBI_IFC_CLAIMED then Some (OPENUSB_BADARG, s)
         else do {
           ((ret, errno), s) \<leftarrow> dev_ioctl K hdev (SETINTF (int (unat ifc)) (int (unat alt))) s;
           (if ret < 0 then Some (translate_errno errno, s)
            else do {
              s \<leftarrow> set_claim hdev ifc (fst c, int (unat alt)) s;
              Some (OPENUSB_SUCCESS, s)
            })
         })
      })"

text \<open>A null pointer alt is a flag.\<close>

definition linux_get_altsetting :: "addr \<Rightarrow> u8 \<Rightarrow> bool \<Rightarrow> u8 \<Rightarrow> ('a linux_scheme, int \<times> u8) op" where
  "linux_get_altsetting hdev ifc alt_null alt s =
     (if hdev = 0 \<or> alt_null then Some ((OPENUSB_BADARG, alt), s)
      else do {
        h \<leftarrow> l_hdev s hdev;
        c \<leftarrow> rd (hv_claimed_ifs h) (unat ifc);
        Some ((OPENUSB_SUCCESS, of_int (snd c)), s)
      })"

definition linux_reset :: "'a linux_scheme kernel \<Rightarrow> addr \<Rightarrow> ('a linux_scheme, int) op" where
  "linux_reset K hdev s =
     (if hdev = 0 then Some (OPENUSB_BADARG, s)
      else do {
        ((ret, errno), s) \<leftarrow> dev_ioctl K hdev RESET s;
        Some (if ret \<noteq> 0 then translate_errno errno else OPENUSB_SUCCESS, s)
      })"

definition linux_clear_halt :: "'a linux_scheme kernel \<Rightarrow> addr \<Rightarrow> u8 \<Rightarrow> ('a linux_scheme, int) op" where
  "linux_clear_halt K hdev ept s =
     (if hdev = 0 then Some (OPENUSB_BADARG, s)
      else do {
        ((ret, errno), s) \<leftarrow> dev_ioctl K hdev (CLEAR_HALT (int (unat ept))) s;
        Some (if ret \<noteq> 0 then translate_errno errno else OPENUSB_SUCCESS, s)
      })"

section \<open>Properties\<close>

lemma unlock_insert: "k \<notin> l_held s \<Longrightarrow> unlock k (s\<lparr>l_held := insert k (l_held s), l_hdev := m\<rparr>) = Some (s\<lparr>l_hdev := m\<rparr>)"
  by (simp add: unlock_def)

text \<open>An interface table where this interface is free.\<close>

definition free_ifc :: "addr \<Rightarrow> u8 \<Rightarrow> 'a linux_scheme \<Rightarrow> bool" where
  "free_ifc hdev ifc s \<longleftrightarrow> hdev \<noteq> 0 \<and> lx_hdev s hdev \<noteq> None \<and> (\<exists>h. l_hdev s hdev = Some h \<and>
     unat ifc < length (hv_claimed_ifs h) \<and> fst (hv_claimed_ifs h ! unat ifc) \<noteq> USBI_IFC_CLAIMED)"

text \<open>
  Claiming an interface that a kernel driver holds (src/openusb/src/linux.c, linux_claim_interface). When the
  claim fails, the kernel driver is detached whatever the flags say, since the second test of the flags is an
  assignment. When detaching succeeds the function returns OPENUSB_SUCCESS, for linux_detach_kernel_driver
  never returns a positive number: the interface is not claimed, neither in the kernel nor in
  claimed_ifs, and the driver is not marked for being attached again.
\<close>
theorem claim_detaches_only:
  assumes "free_ifc hdev ifc s" "lx_hdev s hdev = Some p"
    and "\<And>t. fst (K (hp_fd p) (CLAIMINTF (int (unat ifc))) t) < 0"
    and "\<And>t. fst (K (hp_fd p) (DISCONNECT (int (unat ifc))) t) = 0"
  shows "linux_claim_interface K hdev ifc flags s = Some (OPENUSB_SUCCESS, s\<lparr>lx_log := lx_log s @
     [(hp_fd p, CLAIMINTF (int (unat ifc))), (hp_fd p, DISCONNECT (int (unat ifc)))]\<rparr>)"
  using assms by (auto simp: free_ifc_def linux_claim_interface_def dev_ioctl_def sys_def rd_def case_prod_unfold
      linux_detach_kernel_driver_def USB_INIT_NON_REVERSIBLE_def OPENUSB_SUCCESS_def split: prod.split)

text \<open>
  The life of an interface (src/openusb/src/linux.c, linux_claim_interface, linux_set_altsetting,
  linux_get_altsetting, linux_release_interface). While the kernel accepts the calls, claiming a free interface succeeds and
  selects setting 0, a setting that is chosen afterwards is the one linux_get_altsetting gives, and after the release the interface is
  unclaimed and no setting can be chosen for it.
\<close>
theorem interface_life:
  assumes "free_ifc hdev ifc s" "lx_hdev s hdev = Some p" "\<not> hp_reattachdrv p"
    and ok: "\<And>c t. fst (K (hp_fd p) c t) = 0"
  shows "\<exists>s1 s2 s3. linux_claim_interface K hdev ifc flags s = Some (OPENUSB_SUCCESS, s1) \<and>
     linux_get_altsetting hdev ifc False 0 s1 = Some ((OPENUSB_SUCCESS, 0), s1) \<and>
     linux_set_altsetting K hdev ifc alt s1 = Some (OPENUSB_SUCCESS, s2) \<and>
     linux_get_altsetting hdev ifc False 0 s2 = Some ((OPENUSB_SUCCESS, alt), s2) \<and>
     linux_release_interface K hdev ifc s2 = Some (OPENUSB_SUCCESS, s3) \<and> free_ifc hdev ifc s3 \<and>
     (\<forall>r. linux_set_altsetting K hdev ifc r s3 = Some (OPENUSB_BADARG, s3))"
proof -
  obtain h where h: "l_hdev s hdev = Some h" "unat ifc < length (hv_claimed_ifs h)" "hdev \<noteq> 0"
    "fst (hv_claimed_ifs h ! unat ifc) \<noteq> USBI_IFC_CLAIMED" using assms(1) by (auto simp: free_ifc_def)
  note d = dev_ioctl_def sys_def rd_def wr_def case_prod_unfold set_claim_def
  let ?c = "\<lambda>s h c. s\<lparr>lx_log := lx_log s @ [(hp_fd p, c)], l_hdev := (l_hdev s)(hdev \<mapsto> h)\<rparr>"
  let ?h = "\<lambda>h c. h\<lparr>hv_claimed_ifs := (hv_claimed_ifs h)[unat ifc := c]\<rparr>"
  let ?h1 = "?h h (USBI_IFC_CLAIMED, 0)" and ?h2 = "?h h (USBI_IFC_CLAIMED, int (unat alt))"
  obtain s1 where s1: "linux_claim_interface K hdev ifc flags s = Some (OPENUSB_SUCCESS, s1)"
    "l_hdev s1 hdev = Some ?h1" "lx_hdev s1 hdev = Some p"
    using assms h by (simp add: linux_claim_interface_def d OPENUSB_SUCCESS_def)
  obtain s2 where s2: "linux_set_altsetting K hdev ifc alt s1 = Some (OPENUSB_SUCCESS, s2)"
    "l_hdev s2 hdev = Some ?h2" "lx_hdev s2 hdev = Some p"
    using s1 h ok by (simp add: linux_set_altsetting_def d)
  obtain s3 where s3: "linux_release_interface K hdev ifc s2 = Some (OPENUSB_SUCCESS, s3)"
    "l_hdev s3 hdev = Some (?h h (-1, -1))" "lx_hdev s3 hdev = Some p"
    using s2 h ok assms(3) by (simp add: linux_release_interface_def d)
  have "linux_get_altsetting hdev ifc False 0 s1 = Some ((OPENUSB_SUCCESS, 0), s1)"
    "linux_get_altsetting hdev ifc False 0 s2 = Some ((OPENUSB_SUCCESS, alt), s2)"
    using s1 s2 h by (simp_all add: linux_get_altsetting_def rd_def)
  moreover have "linux_set_altsetting K hdev ifc r s3 = Some (OPENUSB_BADARG, s3)" for r
    using s3 h by (simp add: linux_set_altsetting_def rd_def USBI_IFC_CLAIMED_def)
  moreover have "free_ifc hdev ifc s3"
    using s3 h by (simp add: free_ifc_def USBI_IFC_CLAIMED_def)
  ultimately show ?thesis using s1(1) s2(1) s3(1) by blast
qed

text \<open>A handle that linux_open may prepare, of a device of this backend.\<close>

definition can_open :: "addr \<Rightarrow> usbi_dev_handle \<Rightarrow> usbi_device \<Rightarrow> 'a linux_scheme \<Rightarrow> bool" where
  "can_open hdev h d s \<longleftrightarrow> hdev \<noteq> 0 \<and> l_hdev s hdev = Some h \<and> hv_state h \<noteq> DEVICE_OPENED \<and> hv_idev h \<noteq> 0 \<and>
     l_dev s (hv_idev h) = Some d \<and> lx_dev s (hv_idev h) \<noteq> None \<and> LkHdev hdev \<notin> l_held s \<and> l_next s \<noteq> 0"


end
