(* ===== verification/LinuxDesc.thy ===== *)
theory LinuxDesc
  imports LinuxDev
begin

text \<open>
  Raw descriptors of the Linux backend, which reads them from the device file. An argument
  gives what read() at a position of the file for a number of bytes does: the result, the
  bytes it stores and errno.
\<close>

type_synonym file_read = "nat \<Rightarrow> nat \<Rightarrow> int \<times> u8 list \<times> int"

text \<open>
  The loop over the configurations from index i; n are left. pos is the position of the
  file, buf the local buffer of 8 bytes. A negative result of the second read becomes a
  large number when it is compared with the size_t cfgr.len - 8.
\<close>

fun raw_config_loop :: "(addr \<Rightarrow> bool) \<Rightarrow> bool \<Rightarrow> usb_config_desc \<Rightarrow> file_read \<Rightarrow> nat \<Rightarrow> nat \<Rightarrow> u8 \<Rightarrow> nat \<Rightarrow> u8 list \<Rightarrow>
    ('a linux_scheme, int \<times> u8 list \<times> u16) op" where
  "raw_config_loop av be cd read 0 i descidx pos buf s = Some ((OPENUSB_BADARG, [], 0), s)"
| "raw_config_loop av be cd read (Suc n) i descidx pos buf s = do {
     let (ret, data, errno) = read pos 8;
     buf \<leftarrow> wrn buf 0 data;
     (if ret < 8 then Some ((translate_errno errno, [], 0), s)
      else do {
        let pos = pos + nat ret;
        (_, cfg_desc, _) \<leftarrow> parse_config_desc be ''bbw'' cd buf 8;
        let len = unat (cd_wTotalLength cfg_desc);
        let (p, s) = fresh av s;
        (if p = 0 then Some ((translate_errno ENOMEM, [], 0), s)
         else do {
           cfgr \<leftarrow> wrn (replicate len 0) 0 buf;
           let (ret, data, errno) = read pos (len - 8);
           cfgr \<leftarrow> wrn cfgr 8 data;
           (if (word_of_int ret :: u64) < of_nat (len - 8) then Some ((translate_errno errno, [], 0), s)
            else if i = unat descidx then do {
              let (p, s) = fresh av s;
              Some (if p = 0 then (OPENUSB_NO_RESOURCES, [], of_nat len) else (OPENUSB_SUCCESS, cfgr, of_nat len), s)
            }
            else raw_config_loop av be cfg_desc read n (i + 1) descidx (if ret < 0 then pos else pos + nat ret) buf s)
         })
      })
   }"

text \<open>The result, the buffer and its length. buf and the descriptors hold what the locals hold first.\<close>

definition linux_get_raw_desc :: "(addr \<Rightarrow> bool) \<Rightarrow> bool \<Rightarrow> usb_device_desc \<Rightarrow> usb_config_desc \<Rightarrow> u8 list \<Rightarrow>
    'a linux_scheme kernel \<Rightarrow> file_read \<Rightarrow> addr \<Rightarrow> u8 \<Rightarrow> u8 \<Rightarrow> u16 \<Rightarrow> bool \<Rightarrow> ('a linux_scheme, int \<times> u8 list \<times> u16) op" where
  "linux_get_raw_desc av be dd cd buf K read idev ty descidx langid buflen_null s =
     (if idev = 0 \<or> buflen_null then Some ((OPENUSB_BADARG, [], 0), s)
      else if ty \<noteq> USB_DESC_TYPE_DEVICE \<and> ty \<noteq> USB_DESC_TYPE_CONFIG then Some ((OPENUSB_BADARG, [], 0), s)
      else do {
        (fd, s) \<leftarrow> device_open K idev s;
        (if fd < 0 then Some ((OPENUSB_UNKNOWN_DEVICE, [], 0), s)
         else do {
           let (p, s) = fresh av s;
           (r, s) \<leftarrow> (if p = 0 then Some ((OPENUSB_NO_RESOURCES, [], 0), s)
             else do {
               let (ret, data, errno) = read 0 USBI_DEVICE_DESC_SIZE;
               devdescr \<leftarrow> wrn (replicate USBI_DEVICE_DESC_SIZE 0) 0 data;
               (if ret < 0 then Some ((translate_errno errno, [], 0), s)
                else if ty = USB_DESC_TYPE_DEVICE then Some ((OPENUSB_SUCCESS, devdescr, of_nat USBI_DEVICE_DESC_SIZE), s)
                else do {
                  (_, device, _) \<leftarrow> parse_device_desc be dd devdescr (of_nat USBI_DEVICE_DESC_SIZE);
                  raw_config_loop av be cd read (unat (dd_bNumConfigurations device)) 0 descidx (nat ret) buf s
                })
             });
           let (_, s) = sys K fd CLOSE s;
           Some (r, s)
         })
      })"

section \<open>The descriptors in the file\<close>

text \<open>A file that read() delivers completely.\<close>

definition reads_file :: "u8 list \<Rightarrow> file_read" where
  "reads_file f pos n = (int (length (take n (drop pos f))), take n (drop pos f), 0)"

text \<open>A configuration as a device sends it: its descriptor, whose total length is right, and the rest.\<close>

definition whole_config :: "u8 list \<Rightarrow> bool" where
  "whole_config c \<longleftrightarrow> (\<exists>d r. c = enc_config_desc d @ r \<and> length c = unat (cd_wTotalLength d))"

lemma length_enc_config [simp]: "length (enc_config_desc d) = 9"
  by (simp add: enc_config_desc_def wire16_def)

lemma length_enc_device [simp]: "length (enc_device_desc d) = 18"
  by (simp add: enc_device_desc_def wire16_def)

lemma whole_config_bounds: "whole_config c \<Longrightarrow> 9 \<le> length c \<and> length c < 65536"
proof -
  assume "whole_config c"
  then obtain d r where d: "c = enc_config_desc d @ r" "length c = unat (cd_wTotalLength d)"
    by (auto simp: whole_config_def)
  have "unat (cd_wTotalLength d) < 65536" using unsigned_less [of "cd_wTotalLength d", where ?'a = nat] by simp
  moreover have "9 \<le> length c" unfolding d(1) by simp
  ultimately show ?thesis using d(2) by simp
qed

lemma raw_config_step:
  assumes c: "whole_config c" and b: "length buf = 8" and f: "drop pos f = c @ g" and av: "\<forall>a. av a" "l_next s \<noteq> 0"
  shows "\<exists>cd'. raw_config_loop av be cd (reads_file f) (Suc n) i descidx pos buf s = (if i = unat descidx
       then Some ((OPENUSB_SUCCESS, c, of_nat (length c)), s\<lparr>l_next := l_next s + 2\<rparr>)
       else raw_config_loop av be cd' (reads_file f) n (i + 1) descidx (pos + length c) (take 8 c) (s\<lparr>l_next := l_next s + 1\<rparr>))"
proof -
  obtain d r where d: "c = enc_config_desc d @ r" "length c = unat (cd_wTotalLength d)"
    using c by (auto simp: whole_config_def)
  note bd = whole_config_bounds [OF c]
  obtain cd' k where p: "parse_config_desc be ''bbw'' cd (take 8 c) 8 = Some (0, cd', k)"
    "unat (cd_wTotalLength cd') = length c"
    unfolding d(2) using parse_config_bbw_ok [of be cd d r] unfolding d(1) by metis
  have r1: "reads_file f pos 8 = (8, take 8 c, 0)" using bd by (simp add: reads_file_def f)
  have "drop (pos + 8) f = drop 8 (drop pos f)" by (simp add: add.commute)
  also have "\<dots> = drop 8 c @ g" using bd by (simp add: f)
  finally have r2: "reads_file f (pos + 8) (length c - 8) = (int (length c - 8), drop 8 c, 0)"
    by (simp add: reads_file_def)
  have w: "wrn buf 0 (take 8 c) = Some (take 8 c)" "wrn (replicate (length c) 0) 0 (take 8 c) = Some (take 8 c @ replicate (length c - 8) 0)"
    "wrn (take 8 c @ replicate (length c - 8) 0) 8 (drop 8 c) = Some c"
    using b bd by (simp_all add: wrn_def)
  have pos: "pos + 8 + nat (int (length c) - 8) = pos + length c" using bd by arith
  have nn: "\<not> int (length c) - 8 < 0" "word_of_int (int (length c) - 8) = (of_nat (length c - 8) :: u64)"
    using bd by (simp_all add: of_nat_diff)
  show ?thesis
    by (rule exI [of _ cd']) (use r1 r2 w p av nn bd in \<open>simp add: fresh_def Let_def pos\<close>)
qed

lemma raw_config_loop_run:
  assumes "\<forall>a. av a"
  shows "\<forall>c \<in> set cs. whole_config c \<Longrightarrow> length buf = 8 \<Longrightarrow> drop pos f = concat cs @ g \<Longrightarrow> l_next s \<noteq> 0 \<Longrightarrow>
    i \<le> unat descidx \<Longrightarrow> unat descidx < i + length cs \<Longrightarrow>
    \<exists>k. raw_config_loop av be cd (reads_file f) (length cs) i descidx pos buf s =
      Some ((OPENUSB_SUCCESS, cs ! (unat descidx - i), of_nat (length (cs ! (unat descidx - i)))), s\<lparr>l_next := l_next s + k\<rparr>)"
proof (induction cs arbitrary: i pos buf cd s)
  case (Cons c cs)
  have c: "whole_config c" "drop pos f = c @ concat cs @ g" using Cons.prems by simp_all
  from raw_config_step [OF c(1) Cons.prems(2) c(2) assms Cons.prems(4)] obtain cd' where
    e: "raw_config_loop av be cd (reads_file f) (length (c # cs)) i descidx pos buf s = (if i = unat descidx
       then Some ((OPENUSB_SUCCESS, c, of_nat (length c)), s\<lparr>l_next := l_next s + 2\<rparr>)
       else raw_config_loop av be cd' (reads_file f) (length cs) (i + 1) descidx (pos + length c) (take 8 c) (s\<lparr>l_next := l_next s + 1\<rparr>))"
    by (metis length_Cons)
  show ?case
  proof (cases "i = unat descidx")
    case True
    then show ?thesis unfolding e by (intro exI [of _ 2]) simp
  next
    case False
    have "drop (pos + length c) f = drop (length c) (drop pos f)" by (simp add: add.commute)
    then have d: "drop (pos + length c) f = concat cs @ g" using c(2) by simp
    have l: "length (take 8 c) = 8" using whole_config_bounds [OF c(1)] by simp
    let ?s = "s\<lparr>l_next := l_next s + 1\<rparr>"
    obtain k where "raw_config_loop av be cd' (reads_file f) (length cs) (i + 1) descidx (pos + length c) (take 8 c) ?s =
        Some ((OPENUSB_SUCCESS, cs ! (unat descidx - (i + 1)), of_nat (length (cs ! (unat descidx - (i + 1))))),
          ?s\<lparr>l_next := l_next ?s + k\<rparr>)"
      using Cons.IH [OF _ l d, of ?s "i + 1"] Cons.prems False by auto
    moreover have "(c # cs) ! (unat descidx - i) = cs ! (unat descidx - (i + 1))"
      using False Cons.prems(5) by (simp add: nth_Cons')
    moreover have "?s\<lparr>l_next := l_next ?s + k\<rparr> = s\<lparr>l_next := l_next s + (1 + k)\<rparr>" by simp
    ultimately show ?thesis unfolding e using False by (simp only: if_False) blast
  qed
next
  case Nil
  then have False by (simp only: list.size add_0_right not_less [symmetric])
  then show ?case ..
qed

section \<open>Properties\<close>


text \<open>A failing read (src/openusb/src/linux.c, linux_get_raw_desc). When reading the rest of the configuration fails, the
  negative result is compared as a size_t with the number of bytes expected, and the failure is not noticed: the
  function returns OPENUSB_SUCCESS and a buffer whose bytes after the first 8 are zero.
\<close>
theorem failed_read_unnoticed:
  assumes "whole_config c" "length buf = 8" "\<forall>a. av a" "l_next s \<noteq> 0" "unat descidx = i"
    and "read pos 8 = (8, take 8 c, 0)" "read (pos + 8) (length c - 8) = (-1, [], EIO)"
  shows "raw_config_loop av be cd read (Suc n) i descidx pos buf s =
     Some ((OPENUSB_SUCCESS, take 8 c @ replicate (length c - 8) 0, of_nat (length c)), s\<lparr>l_next := l_next s + 2\<rparr>)"
proof -
  obtain d r where d: "c = enc_config_desc d @ r" "length c = unat (cd_wTotalLength d)"
    using assms(1) by (auto simp: whole_config_def)
  note bd = whole_config_bounds [OF assms(1)]
  obtain cd' k where p: "parse_config_desc be ''bbw'' cd (take 8 c) 8 = Some (0, cd', k)"
    "unat (cd_wTotalLength cd') = length c"
    unfolding d(2) using parse_config_bbw_ok [of be cd d r] unfolding d(1) by metis
  have w: "wrn buf 0 (take 8 c) = Some (take 8 c)" "wrn (replicate (length c) 0) 0 (take 8 c) = Some (take 8 c @ replicate (length c - 8) 0)"
    "wrn (take 8 c @ replicate (length c - 8) 0) 8 [] = Some (take 8 c @ replicate (length c - 8) 0)"
    using assms(2) bd by (simp_all add: wrn_def)
  have ng: "\<not> (- 1 :: u64) < word_of_nat (length c - 8)" by simp
  show ?thesis using assms p w ng by (simp add: fresh_def Let_def)
qed

end
