(* ===== verification/LinuxPlug.thy ===== *)
theory LinuxPlug
  imports LinuxDev
begin

text \<open>
  Starting and ending the Linux backend, its buses and devices, and the hotplug thread. What
  comes from the system is an argument: directory listings, environment, the release of the
  kernel, what libudev reports, and the data that read() gives.

  The backend keeps its devices by number in dev_by_num of the bus, 0 for NULL. lx_found
  holds the devices whose member found is set, lx_children the arrays of child pointers,
  which nothing fills, and lx_root the root device of a bus.
\<close>

definition USB_MAX_DEVICES_PER_BUS :: int where "USB_MAX_DEVICES_PER_BUS = 128"
definition LINUX_MAX_CTRL_XFER :: u32 where "LINUX_MAX_CTRL_XFER = 4096"
definition PATH_MAX :: nat where "PATH_MAX = 4096"

section \<open>Numbers in text\<close>

definition is_digit :: "char \<Rightarrow> bool" where "is_digit c \<longleftrightarrow> c \<in> set ''0123456789''"

definition is_space :: "char \<Rightarrow> bool" where
  "is_space c \<longleftrightarrow> of_char c \<in> {9, 10, 11, 12, 13, 32 :: nat}"

fun digits_value :: "nat \<Rightarrow> string \<Rightarrow> nat" where
  "digits_value n [] = n"
| "digits_value n (c # cs) = digits_value (10 * n + (of_char c - 48)) cs"

text \<open>The conversion that atoi and the %d of sscanf share: the number and the rest, None without a digit.\<close>

definition scan_int :: "string \<Rightarrow> (int \<times> string) option" where
  "scan_int str = (let cs = dropWhile is_space str;
       neg = (cs \<noteq> [] \<and> hd cs = CHR ''-'');
       ds = (if cs \<noteq> [] \<and> hd cs \<in> {CHR ''-'', CHR ''+''} then tl cs else cs);
       n = int (digits_value 0 (takeWhile is_digit ds))
     in if takeWhile is_digit ds = [] then None
        else Some (if neg then - n else n, dropWhile is_digit ds))"

definition atoi :: "string \<Rightarrow> int" where
  "atoi str = (case scan_int str of None \<Rightarrow> 0 | Some (n, _) \<Rightarrow> n)"

text \<open>sscanf with %d.%d.%d: the numbers it converts.\<close>

definition scan_dotted :: "string \<Rightarrow> int list" where
  "scan_dotted str = (case scan_int str of None \<Rightarrow> []
     | Some (a, r) \<Rightarrow> (case r of [] \<Rightarrow> [a] | c # r \<Rightarrow> if c \<noteq> CHR ''.'' then [a] else (case scan_int r of None \<Rightarrow> [a]
     | Some (b, r) \<Rightarrow> (case r of [] \<Rightarrow> [a, b] | c # r \<Rightarrow> if c \<noteq> CHR ''.'' then [a, b] else (case scan_int r of None \<Rightarrow> [a, b]
     | Some (c, _) \<Rightarrow> [a, b, c])))))"

text \<open>With %03d a number has at least three digits.\<close>

definition show_03 :: "nat \<Rightarrow> string" where
  "show_03 n = (let ds = show_nat n in replicate (3 - length ds) CHR ''0'' @ ds)"

section \<open>Starting and ending\<close>

definition check_bulk_continuation_flag :: "string option \<Rightarrow> int" where
  "check_bulk_continuation_flag release = (case release of None \<Rightarrow> -1
     | Some r \<Rightarrow> if length r < 4 then 0
       else (case scan_dotted r of [major, minor, sublevel] \<Rightarrow>
          if major < 2 then 0
          else if major = 2 \<and> (minor < 6 \<or> minor = 6 \<and> sublevel < 32) then 0
          else 1
        | _ \<Rightarrow> 0))"

definition check_usb_path :: "(string \<Rightarrow> string list option) \<Rightarrow> string \<Rightarrow> bool" where
  "check_usb_path dir dirname = (case dir dirname of None \<Rightarrow> False
     | Some entries \<Rightarrow> \<exists>e \<in> set entries. e = [] \<or> hd e \<noteq> CHR ''.'')"

text \<open>The search for the directory of the devices, from the current one and USB_PATH.\<close>

definition find_device_dir :: "(string \<Rightarrow> string list option) \<Rightarrow> string option \<Rightarrow> string \<Rightarrow> string" where
  "find_device_dir dir usb_path device_dir = (
     let device_dir = (case usb_path of None \<Rightarrow> device_dir
           | Some p \<Rightarrow> if check_usb_path dir p then take PATH_MAX p else device_dir)
     in if device_dir \<noteq> [] then device_dir
        else if check_usb_path dir ''/dev/bus/usb'' then ''/dev/bus/usb''
        else if check_usb_path dir ''/proc/bus/usb'' then ''/proc/bus/usb''
        else [])"

text \<open>
  supports_flag_bulk_continuation is tested for being nonzero. hotplug_pipe is fds.
\<close>

definition linux_init :: "(string \<Rightarrow> string list option) \<Rightarrow> string option \<Rightarrow> string option \<Rightarrow> 'a linux_scheme kernel \<Rightarrow>
    addr \<Rightarrow> u32 \<Rightarrow> ('a linux_scheme, int) op" where
  "linux_init dir usb_path release K hdl flags s =
     (if hdl = 0 then Some (OPENUSB_BADARG, s)
      else if lx_inited s \<noteq> 0 then Some (OPENUSB_SUCCESS, s\<lparr>lx_inited := lx_inited s + 1\<rparr>)
      else (
        let s = s\<lparr>lx_bulk_cont := check_bulk_continuation_flag release \<noteq> 0,
                  lx_device_dir := find_device_dir dir usb_path (lx_device_dir s)\<rparr>;
            ((ret, _), s) = sys K 0 PIPE s
        in if ret = -1 then Some (OPENUSB_SYS_FUNC_FAILURE, s)
           else let ((ret, _), s) = sys K 0 THREAD s
             in if ret < 0 then Some (OPENUSB_SYS_FUNC_FAILURE, s)
                else Some (OPENUSB_SUCCESS, s\<lparr>lx_inited := lx_inited s + 1\<rparr>)))"

text \<open>join waits for the hotplug thread, which ends when the pipe is written.\<close>

definition linux_fini :: "'a linux_scheme kernel \<Rightarrow> int \<times> int \<Rightarrow> ('a linux_scheme \<Rightarrow> 'a linux_scheme option) \<Rightarrow> addr \<Rightarrow>
    ('a linux_scheme, unit) op" where
  "linux_fini K fds join hdl s =
     (if lx_inited s = 0 then Some ((), s)
      else if lx_inited s > 1 then Some ((), s\<lparr>lx_inited := lx_inited s - 1\<rparr>)
      else do {
        let (_, s) = sys K (snd fds) WRITE_EVENT s;
        s \<leftarrow> join s;
        let s = close_fd K (fst fds) s;
        let s = close_fd K (snd fds) s;
        Some ((), s\<lparr>lx_inited := lx_inited s - 1\<rparr>)
      })"

section \<open>Buses\<close>

text \<open>
  The names readdir gives, as far as find_buses uses them. The search for a bus of the same number continues
  its own loop whatever it finds; it reads the buses of the list.
\<close>

definition bus_name :: "string \<Rightarrow> bool" where
  "bus_name d_name \<longleftrightarrow> d_name \<noteq> [] \<and> hd d_name \<noteq> CHR ''.'' \<and> is_digit (last d_name)"

definition linux_bus :: "string \<Rightarrow> string \<Rightarrow> usbi_bus" where
  "linux_bus dirname d_name = \<lparr>bs_busid = 0, bs_busnum = of_int (atoi d_name),
     bs_sys_path = take PATH_MAX (dirname @ ''/'' @ d_name), bs_ops = 0, bs_devices = [],
     bs_max_xfer_size = [0, LINUX_MAX_CTRL_XFER, -1, -1, -1]\<rparr>"

fun find_buses_loop :: "(addr \<Rightarrow> bool) \<Rightarrow> string list \<Rightarrow> addr list \<Rightarrow> ('a linux_scheme, int \<times> addr list) op" where
  "find_buses_loop av [] buses s = Some ((OPENUSB_SUCCESS, buses), s)"
| "find_buses_loop av (d_name # ds) buses s =
     (if \<not> bus_name d_name then find_buses_loop av ds buses s
      else do {
        _ \<leftarrow> list_map bs_busnum (l_bus s) buses;
        let (ibus, s) = fresh av s;
        (if ibus = 0 then Some ((OPENUSB_NO_RESOURCES, buses), s)
         else do {
           let (priv, s) = fresh av s;
           (if priv = 0 then Some ((OPENUSB_NO_RESOURCES, buses), s)
            else do {
              let s = s\<lparr>l_bus := (l_bus s)(ibus \<mapsto> linux_bus (lx_device_dir s) d_name),
                        lx_dev_by_num := (lx_dev_by_num s)(ibus \<mapsto> replicate (nat USB_MAX_DEVICES_PER_BUS) 0),
                        lx_root := (lx_root s)(ibus := 0)\<rparr>;
              find_buses_loop av ds (ls_add ibus buses) s
            })
         })
      })"

definition linux_find_buses :: "(addr \<Rightarrow> bool) \<Rightarrow> (string \<Rightarrow> string list option) \<Rightarrow> int \<Rightarrow> ('a linux_scheme, int \<times> addr list) op" where
  "linux_find_buses av dir errno s =
     (case dir (lx_device_dir s) of None \<Rightarrow> Some ((translate_errno errno, []), s)
      | Some entries \<Rightarrow> find_buses_loop av entries [] s)"

section \<open>Devices\<close>

text \<open>A freed private part counts as NULL: the device that points to it is freed next.\<close>

definition linux_free_device :: "addr \<Rightarrow> ('a linux_scheme, unit) op" where
  "linux_free_device idev s = do {
     _ \<leftarrow> l_dev s idev;
     Some ((), s\<lparr>lx_dev := (lx_dev s)(idev := None)\<rparr>)
   }"

definition new_device :: "u16 \<Rightarrow> string \<Rightarrow> u8 \<Rightarrow> usbi_device" where
  "new_device devnum path nports = \<lparr>dv_devid = 0, dv_devnum = ucast devnum, dv_bus = 0, dv_parent = 0, dv_pport = 0,
     dv_nports = nports, dv_sys_path = path, dv_bus_path = [], dv_ops = 0, dv_cur_config_value = 0,
     dv_cur_config_index = 0, dv_desc = \<lparr>ds_device_raw = zero_raw, ds_num_configs = 0, ds_configs_raw = Null,
       ds_device = zero_device_desc, ds_configs = Null\<rparr>\<rparr>"

definition create_new_device :: "(addr \<Rightarrow> bool) \<Rightarrow> addr \<Rightarrow> u16 \<Rightarrow> u32 \<Rightarrow> ('a linux_scheme, int \<times> addr) op" where
  "create_new_device av ibus devnum max_children s = do {
     let (idev, s) = fresh av s;
     (if idev = 0 then Some ((OPENUSB_NO_RESOURCES, 0), s)
      else do {
     let (priv, s) = fresh av s;
     (if priv = 0 then Some ((OPENUSB_NO_RESOURCES, 0), s)
      else do {
     b \<leftarrow> l_bus s ibus;
     let nports = (ucast max_children :: u8);
     let path = take (PATH_MAX - 1) (bs_sys_path b @ ''/'' @ show_03 (unat devnum));
     let (children, s) = (if max_children \<noteq> 0 then fresh av s else (0, s));
     (if max_children \<noteq> 0 \<and> children = 0 then Some ((OPENUSB_NO_RESOURCES, 0), s)
      else do {
     byn \<leftarrow> lx_dev_by_num s ibus;
     byn \<leftarrow> wr byn (unat devnum) idev;
     Some ((OPENUSB_SUCCESS, idev), s\<lparr>l_dev := (l_dev s)(idev \<mapsto> new_device devnum path nports),
       lx_dev := (lx_dev s)(idev \<mapsto> \<lparr>dp_pdevnum = 0, dp_sysfspath = None, dp_hdev = 0\<rparr>),
       lx_dev_by_num := (lx_dev_by_num s)(ibus \<mapsto> byn), lx_found := lx_found s - {idev},
       lx_children := (if max_children \<noteq> 0 then (lx_children s)(idev \<mapsto> replicate (unat nports) 0)
          else (lx_children s)(idev := None))\<rparr>)
     }) }) }) }"

text \<open>
  What libudev reports: the attributes busnum, devnum and maxchild of a device, None for
  NULL, and devnum of its parent (None as well when there is no parent). The references of
  udev are not modelled.
\<close>

record udev_dev =
  ud_busnum :: "string option"
  ud_devnum :: "string option"
  ud_maxchild :: "string option"
  ud_pdevnum :: "string option"

text \<open>The body of process_new_device once the bus is known.\<close>

definition process_on_bus :: "(addr \<Rightarrow> bool) \<Rightarrow> addr \<Rightarrow> udev_dev \<Rightarrow> string \<Rightarrow> ('a linux_scheme, unit) op" where
  "process_on_bus av ibus dev path s = do {
     devnum \<leftarrow> map_option atoi (ud_devnum dev);
     max_children \<leftarrow> map_option atoi (ud_maxchild dev);
     let pdevnum = (case ud_pdevnum dev of None \<Rightarrow> 0 | Some str \<Rightarrow> atoi str);
     (if devnum < 1 \<or> devnum \<ge> USB_MAX_DEVICES_PER_BUS \<or> max_children \<ge> USB_MAX_DEVICES_PER_BUS \<or>
         pdevnum \<ge> USB_MAX_DEVICES_PER_BUS then Some ((), s)
      else do {
        root_found \<leftarrow> (if pdevnum = 0 \<and> lx_root s ibus \<noteq> 0
           then do { _ \<leftarrow> l_dev s (lx_root s ibus); Some (lx_root s ibus \<in> lx_found s) } else Some False);
        (if root_found then Some ((), s)
         else do {
           byn \<leftarrow> lx_dev_by_num s ibus;
           idev \<leftarrow> rd byn (nat devnum);
           (idev, s) \<leftarrow> (if idev \<noteq> 0 then Some (idev, s)
             else do {
               ((ret, idev), s) \<leftarrow> create_new_device av ibus (of_int devnum) (of_int max_children) s;
               (if ret \<noteq> 0 then Some (0, s)
                else do {
                  let (p, s) = dup_string av path s;
                  let s = s\<lparr>lx_dev := (lx_dev s)(idev \<mapsto> \<lparr>dp_pdevnum = pdevnum, dp_sysfspath = p, dp_hdev = 0\<rparr>)\<rparr>;
                  (_, s) \<leftarrow> usbi_add_device av ibus idev s;
                  (if pdevnum \<noteq> 0 then do {
                     byn \<leftarrow> lx_dev_by_num s ibus;
                     parent \<leftarrow> (if pdevnum < 0 then None else rd byn (nat pdevnum));
                     d \<leftarrow> l_dev s idev;
                     Some (idev, s\<lparr>l_dev := (l_dev s)(idev \<mapsto> d\<lparr>dv_parent := parent\<rparr>)\<rparr>)
                   }
                   else Some (idev, s\<lparr>lx_root := (lx_root s)(ibus := idev)\<rparr>))
                })
             });
           (if idev = 0 then Some ((), s)
            else do {
              _ \<leftarrow> l_dev s idev;
              Some ((), s\<lparr>lx_found := insert idev (lx_found s)\<rparr>)
            })
         })
      })
   }"

text \<open>ibus is NULL (0) when the hotplug thread calls it.\<close>

definition process_new_device :: "(addr \<Rightarrow> bool) \<Rightarrow> addr \<Rightarrow> udev_dev \<Rightarrow> string \<Rightarrow> ('a linux_scheme, unit) op" where
  "process_new_device av ibus dev path s = (case ud_busnum dev of None \<Rightarrow> Some ((), s)
     | Some str \<Rightarrow> (let busnum = (of_int (atoi str) :: u32) in
       if ibus \<noteq> 0 then do {
         b \<leftarrow> l_bus s ibus;
         (if busnum \<noteq> bs_busnum b then Some ((), s) else process_on_bus av ibus dev path s)
       }
       else do {
         (ibus, s) \<leftarrow> usbi_find_bus_by_num busnum s;
         (if ibus = 0 then Some ((), s) else process_on_bus av ibus dev path s)
       }))"

text \<open>The walk over the devices that udev lists, and the one that removes what was not found.\<close>

fun process_all :: "(addr \<Rightarrow> bool) \<Rightarrow> addr \<Rightarrow> (udev_dev \<times> string) list \<Rightarrow> ('a linux_scheme, unit) op" where
  "process_all av ibus [] s = Some ((), s)"
| "process_all av ibus ((dev, path) # ds) s = do {
     (_, s) \<leftarrow> process_new_device av ibus dev path s;
     process_all av ibus ds s
   }"

definition remove_lost :: "(addr \<Rightarrow> bool) \<Rightarrow> (nat \<Rightarrow> 'a linux_scheme backend_ops) \<Rightarrow> addr \<Rightarrow> ('a linux_scheme, unit) op" where
  "remove_lost av B idev s = do {
     _ \<leftarrow> l_dev s idev;
     (if idev \<in> lx_found s then Some ((), s) else usbi_remove_device av B idev s)
   }"

definition linux_refresh_devices :: "(addr \<Rightarrow> bool) \<Rightarrow> (nat \<Rightarrow> 'a linux_scheme backend_ops) \<Rightarrow>
    (udev_dev \<times> string) list option \<Rightarrow> addr \<Rightarrow> ('a linux_scheme, int) op" where
  "linux_refresh_devices av B udev ibus s =
     (if ibus = 0 then Some (OPENUSB_BADARG, s)
      else do {
        s \<leftarrow> lock (LkBus ibus) s;
        (case udev of None \<Rightarrow> do { s \<leftarrow> unlock (LkBus ibus) s; Some (OPENUSB_SYS_FUNC_FAILURE, s) }
         | Some devs \<Rightarrow> do {
             (_, s) \<leftarrow> process_all av ibus devs s;
             b \<leftarrow> l_bus s ibus;
             (_, s) \<leftarrow> list_iter (remove_lost av B) (bs_devices b) s;
             s \<leftarrow> unlock (LkBus ibus) s;
             Some (OPENUSB_SUCCESS, s)
           })
      })"

section \<open>The hotplug thread\<close>

fun sysfspath_walk :: "string \<Rightarrow> addr list \<Rightarrow> 'a linux_scheme \<Rightarrow> addr option" where
  "sysfspath_walk path [] s = Some 0"
| "sysfspath_walk path (p # ps) s = do {
     _ \<leftarrow> l_dev s p;
     dp \<leftarrow> lx_dev s p;
     (if dp_sysfspath dp = Some path then Some p else sysfspath_walk path ps s)
   }"

definition find_device_by_sysfspath :: "string \<Rightarrow> ('a linux_scheme, addr) op" where
  "find_device_by_sysfspath path s =
     with_lock LkDevices (\<lambda>s. do { p \<leftarrow> sysfspath_walk path (l_devices s) s; Some (p, s) }) s"

definition device_added :: "(addr \<Rightarrow> bool) \<Rightarrow> udev_dev \<Rightarrow> string \<Rightarrow> ('a linux_scheme, unit) op" where
  "device_added av dev path s = do {
     (idev, s) \<leftarrow> find_device_by_sysfspath path s;
     (if idev \<noteq> 0 then do { d \<leftarrow> l_dev s idev; notify_all av (dv_devid d) USB_ATTACH s }
      else process_new_device av 0 dev path s)
   }"

definition device_removed :: "(addr \<Rightarrow> bool) \<Rightarrow> (nat \<Rightarrow> 'a linux_scheme backend_ops) \<Rightarrow> 'a linux_scheme kernel \<Rightarrow>
    (addr \<Rightarrow> 'a linux_scheme \<Rightarrow> 'a linux_scheme option) \<Rightarrow> string \<Rightarrow> ('a linux_scheme, unit) op" where
  "device_removed av B K join path s = do {
     (idev, s) \<leftarrow> find_device_by_sysfspath path s;
     (if idev = 0 then Some ((), s)
      else do {
        dp \<leftarrow> lx_dev s idev;
        (_, s) \<leftarrow> linux_close K join (dp_hdev dp) s;
        d \<leftarrow> l_dev s idev;
        byn \<leftarrow> lx_dev_by_num s (dv_bus d);
        byn \<leftarrow> wr byn (unat (dv_devid d)) 0;
        usbi_remove_device av B idev (s\<lparr>lx_dev_by_num := (lx_dev_by_num s)(dv_bus d \<mapsto> byn)\<rparr>)
      })
   }"

text \<open>
  One round of the thread. select gives a result, whether the monitor and the pipe are
  readable, and the device the monitor has then (None for NULL): its action, path and
  attributes. strcasecmp compares without case. The result tells whether the thread ends.
\<close>

record hotplug_event =
  he_ret :: int
  he_monitor :: bool
  he_dev :: "(string \<times> string \<times> udev_dev) option"
  he_pipe :: bool

definition lower :: "char \<Rightarrow> char" where
  "lower c = (if 65 \<le> (of_char c :: nat) \<and> (of_char c :: nat) \<le> 90 then char_of ((of_char c :: nat) + 32) else c)"

definition same_nocase :: "string \<Rightarrow> string \<Rightarrow> bool" where
  "same_nocase a b \<longleftrightarrow> map lower a = map lower b"

definition hotplug_round :: "(addr \<Rightarrow> bool) \<Rightarrow> (nat \<Rightarrow> 'a linux_scheme backend_ops) \<Rightarrow> 'a linux_scheme kernel \<Rightarrow>
    (addr \<Rightarrow> 'a linux_scheme \<Rightarrow> 'a linux_scheme option) \<Rightarrow> hotplug_event \<Rightarrow> ('a linux_scheme, bool) op" where
  "hotplug_round av B K join e s = do {
     (_, s) \<leftarrow> (if he_ret e > 0 \<and> he_monitor e then
        (case he_dev e of None \<Rightarrow> Some ((), s)
         | Some (action, syspath, dev) \<Rightarrow>
             if same_nocase ''add'' action \<or> same_nocase ''change'' action \<or> same_nocase ''move'' action
             then device_added av dev syspath s
             else if same_nocase ''remove'' action then device_removed av B K join syspath s
             else Some ((), s))
      else Some ((), s));
     Some (he_ret e > 0 \<and> he_pipe e, s)
   }"

text \<open>The thread over the events that select gives: True when it has ended.\<close>

fun udev_hotplug_event_thread :: "(addr \<Rightarrow> bool) \<Rightarrow> (nat \<Rightarrow> 'a linux_scheme backend_ops) \<Rightarrow> 'a linux_scheme kernel \<Rightarrow>
    (addr \<Rightarrow> 'a linux_scheme \<Rightarrow> 'a linux_scheme option) \<Rightarrow> hotplug_event list \<Rightarrow> ('a linux_scheme, bool) op" where
  "udev_hotplug_event_thread av B K join [] s = Some (False, s)"
| "udev_hotplug_event_thread av B K join (e # es) s = do {
     (done, s) \<leftarrow> hotplug_round av B K join e s;
     (if done then Some (True, s) else udev_hotplug_event_thread av B K join es s)
   }"

end
