(* ===== verification/LinuxHotplug.thy ===== *)
theory LinuxHotplug
  imports LinuxPlug
begin

text \<open>
  What becomes of devices that come and go: properties of the buses, the refresh and the
  hotplug thread of the Linux backend.
\<close>

section \<open>Buses\<close>

lemma find_buses_run:
  "\<forall>p \<in> set ps. \<exists>b. l_bus s p = Some b \<Longrightarrow> \<forall>p \<in> set ps. p < l_next s \<Longrightarrow> l_next s \<noteq> 0 \<Longrightarrow>
   \<exists>qs t. find_buses_loop (\<lambda>_. True) ds ps s = Some ((OPENUSB_SUCCESS, ps @ qs), t) \<and>
     map (\<lambda>p. the (l_bus t p)) qs = map (linux_bus (lx_device_dir s)) (filter bus_name ds) \<and>
     (\<forall>p \<in> set (ps @ qs). \<exists>b. l_bus t p = Some b) \<and> (\<forall>p < l_next s. l_bus t p = l_bus s p \<and> lx_dev_by_num t p = lx_dev_by_num s p) \<and>
     (\<forall>q \<in> set qs. l_next s \<le> q \<and> lx_dev_by_num t q = Some (replicate 128 0)) \<and> distinct qs"
proof (induction ds arbitrary: ps s)
  case (Cons d ds)
  show ?case
  proof (cases "bus_name d")
    case False
    then show ?thesis using Cons.IH [OF Cons.prems] by simp
  next
    case True
    let ?p = "l_next s"
    let ?b = "linux_bus (lx_device_dir s) d"
    define u where "u = s\<lparr>l_next := l_next s + 2, l_bus := (l_bus s)(?p \<mapsto> ?b),
      lx_dev_by_num := (lx_dev_by_num s)(?p \<mapsto> replicate 128 0), lx_root := (lx_root s)(?p := 0)\<rparr>"
    have lm: "list_map bs_busnum (l_bus s) ps \<noteq> None"
      using Cons.prems(1) by (subst list_map_spec) auto
    have st: "find_buses_loop (\<lambda>_. True) (d # ds) ps s = find_buses_loop (\<lambda>_. True) ds (ps @ [?p]) u"
      using True lm Cons.prems(3)
      by (auto simp: fresh_def Let_def ls_add_def u_def USB_MAX_DEVICES_PER_BUS_def)
    have "\<forall>p \<in> set (ps @ [?p]). \<exists>b. l_bus u p = Some b" "\<forall>p \<in> set (ps @ [?p]). p < l_next u" "l_next u \<noteq> 0"
      using Cons.prems by (auto simp: u_def)
    from Cons.IH [OF this] obtain qs t where t: "find_buses_loop (\<lambda>_. True) ds (ps @ [?p]) u = Some ((OPENUSB_SUCCESS, (ps @ [?p]) @ qs), t)"
      "map (\<lambda>p. the (l_bus t p)) qs = map (linux_bus (lx_device_dir u)) (filter bus_name ds)"
      "\<forall>p \<in> set ((ps @ [?p]) @ qs). \<exists>b. l_bus t p = Some b" "\<forall>p < l_next u. l_bus t p = l_bus u p \<and> lx_dev_by_num t p = lx_dev_by_num u p"
      "\<forall>q \<in> set qs. l_next u \<le> q \<and> lx_dev_by_num t q = Some (replicate 128 0)" "distinct qs"
      by blast
    have new: "l_bus t ?p = Some ?b" "lx_dev_by_num t ?p = Some (replicate 128 0)" using t(4) by (simp_all add: u_def)
    have old: "\<forall>p < l_next s. l_bus t p = l_bus s p \<and> lx_dev_by_num t p = lx_dev_by_num s p"
      using t(4) by (auto simp: u_def)
    have "distinct (?p # qs)" "\<forall>q \<in> set (?p # qs). l_next s \<le> q \<and> lx_dev_by_num t q = Some (replicate 128 0)"
      using t(5,6) new by (auto simp: u_def)
    moreover have "map (\<lambda>p. the (l_bus t p)) (?p # qs) = map (linux_bus (lx_device_dir s)) (filter bus_name (d # ds))"
      using t(2) new True by (simp add: u_def)
    ultimately show ?thesis unfolding st using t(1,3) old by (intro exI [of _ "?p # qs"] exI [of _ t]) simp
  qed
qed simp

text \<open>Finding buses (src/openusb/src/linux.c, linux_find_buses). When memory suffices, every entry of the device directory that does not
  begin with a dot and ends in a digit becomes a bus of its own, in the order of the directory, with the number
  at the beginning of its name, the path below the directory, the transfer sizes of usbfs and no
  device; entries with the same number are not recognised, each of them becomes a bus.
\<close>
theorem find_buses_exact:
  assumes "dir (lx_device_dir s) = Some entries" "l_next s \<noteq> 0"
  shows "\<exists>buses t. linux_find_buses (\<lambda>_. True) dir errno s = Some ((OPENUSB_SUCCESS, buses), t) \<and> distinct buses \<and>
     map (\<lambda>p. the (l_bus t p)) buses = map (linux_bus (lx_device_dir s)) (filter bus_name entries) \<and>
     (\<forall>p \<in> set buses. lx_dev_by_num t p = Some (replicate 128 0))"
  using find_buses_run [of "[]" s entries] assms by (auto simp: linux_find_buses_def)

section \<open>Refreshing\<close>

text \<open>
  Devices that vanish (src/openusb/src/linux.c, linux_refresh_devices). The member found of a device is set when
  the device is seen and never cleared. So a refresh that sees no device at all succeeds and removes
  none that was seen before: the state stays as it is.
\<close>
theorem refresh_keeps_vanished:
  assumes "ibus \<noteq> 0" "l_bus s ibus = Some b" "LkBus ibus \<notin> l_held s"
    and "\<forall>p \<in> set (bs_devices b). l_dev s p \<noteq> None \<and> p \<in> lx_found s"
  shows "linux_refresh_devices av B (Some []) ibus s = Some (OPENUSB_SUCCESS, s)"
proof -
  have "list_iter (remove_lost av B) ps (s\<lparr>l_held := h\<rparr>) = Some ((), s\<lparr>l_held := h\<rparr>)"
    if "\<forall>p \<in> set ps. l_dev s p \<noteq> None \<and> p \<in> lx_found s" for ps h
    using that by (induction ps) (auto simp: remove_lost_def)
  then show ?thesis using assms
    by (simp add: linux_refresh_devices_def lock_def unlock_def held_same)
qed

section \<open>New devices\<close>

text \<open>The attributes of a device with number n, c ports and the parent q, 0 for none.\<close>

definition reports :: "udev_dev \<Rightarrow> nat \<Rightarrow> nat \<Rightarrow> nat \<Rightarrow> bool" where
  "reports dev n c q \<longleftrightarrow> map_option atoi (ud_devnum dev) = Some (int n) \<and> map_option atoi (ud_maxchild dev) = Some (int c) \<and>
     (case ud_pdevnum dev of None \<Rightarrow> 0 | Some str \<Rightarrow> atoi str) = int q \<and> 1 \<le> n \<and> n < 128 \<and> c < 128 \<and> q < 128"

text \<open>The state after the structure of the device was made and filled.\<close>

definition device_path :: "usbi_bus \<Rightarrow> nat \<Rightarrow> string" where
  "device_path b n = take (PATH_MAX - 1) (bs_sys_path b @ ''/'' @ show_03 n)"

definition made :: "addr \<Rightarrow> usbi_bus \<Rightarrow> addr list \<Rightarrow> nat \<Rightarrow> nat \<Rightarrow> nat \<Rightarrow> string \<Rightarrow> 'a linux_scheme \<Rightarrow> 'a linux_scheme" where
  "made ibus b byn n c q path s = s\<lparr>l_dev := (l_dev s)(l_next s \<mapsto> new_device (of_nat n) (device_path b n) (of_nat c)),
     l_next := l_next s + (if c = 0 then 3 else 4),
     lx_dev := (lx_dev s)(l_next s \<mapsto> \<lparr>dp_pdevnum = int q, dp_sysfspath = Some path, dp_hdev = 0\<rparr>),
     lx_dev_by_num := (lx_dev_by_num s)(ibus \<mapsto> byn[n := l_next s]), lx_found := lx_found s - {l_next s},
     lx_children := (lx_children s)(l_next s := if c = 0 then None else Some (replicate c 0))\<rparr>"

lemma create_run:
  assumes "l_bus s ibus = Some b" "lx_dev_by_num s ibus = Some byn" "n < length byn" "n < 128" "c < 128" "l_next s \<noteq> 0"
  shows "\<exists>t. create_new_device (\<lambda>_. True) ibus (of_int (int n)) (of_int (int c)) s = Some ((OPENUSB_SUCCESS, l_next s), t) \<and>
     (let (p, u) = dup_string (\<lambda>_. True) path t
      in u\<lparr>lx_dev := (lx_dev u)(l_next s \<mapsto> \<lparr>dp_pdevnum = int q, dp_sysfspath = p, dp_hdev = 0\<rparr>)\<rparr>) = made ibus b byn n c q path s"
proof -
  have n: "unat (word_of_nat n :: u16) = n" using assms(4) by (simp add: unsigned_of_nat take_bit_nat_eq_self)
  have c: "(ucast (word_of_nat c :: u32) :: u8) = of_nat c"
    using assms(5) by (simp add: unsigned_of_nat take_bit_nat_eq_self)
  have c8: "unat (word_of_nat c :: u8) = c" using assms(5) by (simp add: unsigned_of_nat take_bit_nat_eq_self)
  have c0: "(word_of_nat c :: u32) = 0 \<longleftrightarrow> c = 0"
  proof -
    have "unat (word_of_nat c :: u32) = c" using assms(5) by (simp add: unsigned_of_nat take_bit_nat_eq_self)
    then show ?thesis by (cases "c = 0") auto
  qed
  let ?t = "s\<lparr>l_next := l_next s + (if c = 0 then 2 else 3), l_dev := (l_dev s)(l_next s \<mapsto> new_device (of_nat n) (device_path b n) (of_nat c)),
     lx_dev := (lx_dev s)(l_next s \<mapsto> \<lparr>dp_pdevnum = 0, dp_sysfspath = None, dp_hdev = 0\<rparr>),
     lx_dev_by_num := (lx_dev_by_num s)(ibus \<mapsto> byn[n := l_next s]), lx_found := lx_found s - {l_next s},
     lx_children := (lx_children s)(l_next s := if c = 0 then None else Some (replicate c 0))\<rparr>"
  have "create_new_device (\<lambda>_. True) ibus (of_int (int n)) (of_int (int c)) s = Some ((OPENUSB_SUCCESS, l_next s), ?t)"
  proof (cases "c = 0")
    case True
    then show ?thesis using assms(1-4,6)
      by (simp add: create_new_device_def fresh_def Let_def wr_def n device_path_def del: fun_upd_apply)
  next
    case False
    then show ?thesis using assms(1-4,6)
      by (simp add: create_new_device_def fresh_def Let_def wr_def n c c8 c0 device_path_def del: fun_upd_apply)
  qed
  moreover have "(let (p, u) = dup_string (\<lambda>_. True) path ?t
      in u\<lparr>lx_dev := (lx_dev u)(l_next s \<mapsto> \<lparr>dp_pdevnum = int q, dp_sysfspath = p, dp_hdev = 0\<rparr>)\<rparr>) = made ibus b byn n c q path s"
    by (cases s) (simp add: dup_string_def fresh_def made_def Let_def)
  ultimately show ?thesis by blast
qed

lemma freeable_new [simp]: "usbi_destroy_configuration (dv_desc (new_device n path c)) = Some (dv_desc (new_device n path c))"
  by (simp add: usbi_destroy_configuration_def new_device_def)

lemma new_in_table:
  assumes "table_ok key cur h ps" "h p = None"
  shows "table_ok key cur (h(p \<mapsto> x)) ps" "table_get key (h(p \<mapsto> x)) ps = table_get key h ps"
proof -
  have "map_option key ((h(p \<mapsto> x)) q) = map_option key (h q)" if "q \<in> set ps" for q
    using that assms by (auto simp: table_ok_def)
  then show "table_ok key cur (h(p \<mapsto> x)) ps" "table_get key (h(p \<mapsto> x)) ps = table_get key h ps"
    using table_cong [of ps key "h(p \<mapsto> x)" h cur] assms(1) by auto
qed

lemma made_ok:
  assumes ok: "devices_ok B s" and new: "l_dev s (l_next s) = None"
  shows "devices_ok B (made ibus b byn n c q path s)" "dev_tab (made ibus b byn n c q path s) = dev_tab s"
proof -
  let ?d = "new_device (of_nat n) (device_path b n) (of_nat c)"
  have t: "table_ok dv_devid (l_cur_device_id s) (l_dev s) (l_devices s)" using ok by (simp add: devices_ok_def)
  note nt = new_in_table [OF t new, of ?d]
  have ne: "p \<noteq> l_next s" if "p \<in> set (l_devices s)" for p using that t new by (auto simp: table_ok_def)
  show "devices_ok B (made ibus b byn n c q path s)"
    using ok nt(1) ne by (auto simp: devices_ok_def made_def freeable_def)
  show "dev_tab (made ibus b byn n c q path s) = dev_tab s" using nt(2) by (simp add: dev_tab_def made_def)
qed

lemma parent_ok:
  assumes ok: "devices_ok B s" and d: "l_dev s p = Some d"
  shows "devices_ok B (s\<lparr>l_dev := (l_dev s)(p \<mapsto> d\<lparr>dv_parent := x\<rparr>)\<rparr>)"
    "dev_tab (s\<lparr>l_dev := (l_dev s)(p \<mapsto> d\<lparr>dv_parent := x\<rparr>)\<rparr>) = dev_tab s"
proof -
  have t: "table_ok dv_devid (l_cur_device_id s) (l_dev s) (l_devices s)" using ok by (simp add: devices_ok_def)
  have "\<forall>a \<in> set (l_devices s). map_option dv_devid (((l_dev s)(p \<mapsto> d\<lparr>dv_parent := x\<rparr>)) a) = map_option dv_devid (l_dev s a)"
    using d by simp
  note c = table_cong [OF this t]
  show "devices_ok B (s\<lparr>l_dev := (l_dev s)(p \<mapsto> d\<lparr>dv_parent := x\<rparr>)\<rparr>)"
    using ok d unfolding devices_ok_def freeable_def by (simp add: c(1) del: fun_upd_apply) auto
  show "dev_tab (s\<lparr>l_dev := (l_dev s)(p \<mapsto> d\<lparr>dv_parent := x\<rparr>)\<rparr>) = dev_tab s" using c(2) by (simp add: dev_tab_def del: fun_upd_apply)
qed

lemma devices_ok_lx:
  "devices_ok B (s\<lparr>lx_found := x\<rparr>) = devices_ok B s" "devices_ok B (s\<lparr>lx_root := r\<rparr>) = devices_ok B s"
  "dev_tab (s\<lparr>lx_found := x\<rparr>) = dev_tab s" "dev_tab (s\<lparr>lx_root := r\<rparr>) = dev_tab s"
  by (simp_all add: devices_ok_def dev_tab_def freeable_def)

text \<open>A bus of this backend with its table of devices, in a state where addresses to come are unused.\<close>

definition on_bus :: "addr \<Rightarrow> usbi_bus \<Rightarrow> addr list \<Rightarrow> 'a linux_scheme \<Rightarrow> bool" where
  "on_bus ibus b byn s \<longleftrightarrow> l_bus s ibus = Some b \<and> lx_dev_by_num s ibus = Some byn \<and> length byn = 128 \<and>
     l_dev s (l_next s) = None \<and> l_cur_device_id s < l_cur_device_id s + 1 \<and> (\<forall>e \<in> set (l_events s). e < l_next s)"

text \<open>
  C15. A new device (src/openusb/src/linux.c, process_new_device, create_new_device, with usbi_add_device of devices.c). A
  device whose number is free on its bus, with valid attributes, and that is no second root, gets a structure with
  its number, its ports and its path below the bus; it is entered under its number, found under a new
  identifier from then on, marked as found, linked to the device that has the number of its parent or made the root,
  and every open library handle has an attach event for it queued.
\<close>
theorem new_device_registered:
  assumes ok: "devices_ok B s" and on: "on_bus ibus b byn s" and r: "reports dev n c q"
    and free: "byn ! n = 0" and root: "q = 0 \<Longrightarrow> lx_root s ibus = 0"
  shows "\<exists>t d. process_on_bus (\<lambda>_. True) ibus dev path s = Some ((), t) \<and> devices_ok B t \<and>
     usbi_find_device_by_id (l_cur_device_id s) t = Some (l_next s, t) \<and> l_dev t (l_next s) = Some d \<and>
     dv_devnum d = of_nat n \<and> unat (dv_nports d) = c \<and> dv_bus d = ibus \<and> dv_sys_path d = device_path b n \<and>
     dv_parent d = (if q = 0 then 0 else byn[n := l_next s] ! q) \<and> lx_dev_by_num t ibus = Some (byn[n := l_next s]) \<and>
     l_next s \<in> lx_found t \<and> (q = 0 \<longrightarrow> lx_root t ibus = l_next s) \<and>
     pending t = pending s @ map (\<lambda>h. \<lparr>ev_devid = l_cur_device_id s, ev_type = USB_ATTACH, ev_handle = h\<rparr>) (l_handles s)"
proof -
  let ?p = "l_next s"
  define m where "m = made ibus b byn n c q path s"
  define u where "u = queued (l_cur_device_id s) USB_ATTACH (l_handles s) (attached ibus ?p m)"
  have o: "l_bus s ibus = Some b" "lx_dev_by_num s ibus = Some byn" "length byn = 128" "l_dev s ?p = None"
    "l_cur_device_id s < l_cur_device_id s + 1" "\<forall>e \<in> set (l_events s). e < l_next s"
    using on by (simp_all add: on_bus_def)
  have rp: "map_option atoi (ud_devnum dev) = Some (int n)" "map_option atoi (ud_maxchild dev) = Some (int c)"
    "(case ud_pdevnum dev of None \<Rightarrow> 0 | Some str \<Rightarrow> atoi str) = int q" "1 \<le> n" "n < 128" "c < 128" "q < 128"
    using r by (simp_all add: reports_def)
  have nx: "?p \<noteq> 0" using ok by (simp add: devices_ok_def)
  from create_run [OF o(1,2) _ rp(5,6) nx, of path q] o(3) rp(5) obtain t0 where
    t0: "create_new_device (\<lambda>_. True) ibus (of_int (int n)) (of_int (int c)) s = Some ((OPENUSB_SUCCESS, ?p), t0)"
     "(let (p, u) = dup_string (\<lambda>_. True) path t0
      in u\<lparr>lx_dev := (lx_dev u)(?p \<mapsto> \<lparr>dp_pdevnum = int q, dp_sysfspath = p, dp_hdev = 0\<rparr>)\<rparr>) = m"
    unfolding m_def by auto
  have mk: "l_cur_device_id m = l_cur_device_id s" "l_bus m = l_bus s" "l_devices m = l_devices s" "l_handles m = l_handles s"
    "lx_dev_by_num m ibus = Some (byn[n := ?p])" "lx_root m = lx_root s" "pending m = pending s" "l_events m = l_events s"
    "l_dev m ?p = Some (new_device (of_nat n) (device_path b n) (of_nat c))" "l_next s \<le> l_next m"
    by (simp_all add: m_def made_def pending_def)
  have mok: "devices_ok B m" "dev_tab m = dev_tab s" unfolding m_def by (rule made_ok [OF ok o(4)])+
  have "?p \<notin> set (l_devices s)" using ok o(4) by (auto simp: devices_ok_def table_ok_def)
  then have ad: "dev_addable ibus m ?p" using mk nx o(1) by (simp add: dev_addable_def freeable_def)
  have add: "usbi_add_device (\<lambda>_. True) ibus ?p m = Some ((), u)"
    using add_device_run [OF mok(1) ad] mk by (simp add: u_def)
  have aok: "devices_ok B u" "dev_tab u = (dev_tab s)(l_cur_device_id s \<mapsto> ?p)"
    using attached_ok [OF mok(1) ad] mk o(5) mok(2) by (simp_all add: u_def)
  let ?d = "(new_device (of_nat n) (device_path b n) (of_nat c))\<lparr>dv_devid := l_cur_device_id s, dv_bus := ibus, dv_ops := bs_ops b\<rparr>"
  have uk: "l_dev u ?p = Some ?d" "lx_dev_by_num u ibus = Some (byn[n := ?p])" "lx_root u = lx_root s"
    using mk o(1) by (simp_all add: u_def queued_def attached_def)
  have pend: "pending u = pending s @ map (\<lambda>h. \<lparr>ev_devid = l_cur_device_id s, ev_type = USB_ATTACH, ev_handle = h\<rparr>) (l_handles s)"
    using pending_queued [of "attached ibus ?p m" "l_cur_device_id s" USB_ATTACH "l_handles s"] o(6) mk
    by (fastforce simp: u_def attached_def pending_def)
  have fields: "dv_devnum ?d = of_nat n" "unat (dv_nports ?d) = c" "dv_bus ?d = ibus" "dv_sys_path ?d = device_path b n" "dv_parent ?d = 0"
    using rp(5,6) by (simp_all add: new_device_def unsigned_of_nat take_bit_nat_eq_self)
  define t where "t = (if q = 0 then u\<lparr>lx_root := (lx_root u)(ibus := ?p)\<rparr>
     else u\<lparr>l_dev := (l_dev u)(?p \<mapsto> ?d\<lparr>dv_parent := byn[n := ?p] ! q\<rparr>)\<rparr>)"
  have byn: "rd byn n = Some 0" using free o(3) rp(5) by (simp add: rd_def)
  have rest: "(if int q \<noteq> 0 then do {
        byn \<leftarrow> lx_dev_by_num u ibus; parent \<leftarrow> (if int q < 0 then None else rd byn (nat (int q))); d \<leftarrow> l_dev u ?p;
        Some (?p, u\<lparr>l_dev := (l_dev u)(?p \<mapsto> d\<lparr>dv_parent := parent\<rparr>)\<rparr>) }
      else Some (?p, u\<lparr>lx_root := (lx_root u)(ibus := ?p)\<rparr>)) = Some (?p, t)"
    using uk rp(7) o(3) by (simp add: t_def rd_def)
  have tp: "l_dev t ?p \<noteq> None" using uk(1) by (simp add: t_def)
  have rf: "(if int q = 0 \<and> lx_root s ibus \<noteq> 0 then do { _ \<leftarrow> l_dev s (lx_root s ibus); Some (lx_root s ibus \<in> lx_found s) }
      else Some False) = Some False" using root by (cases "q = 0") simp_all
  obtain p' u' where du: "dup_string (\<lambda>_. True) path t0 = (p', u')" by fastforce
  have mu: "u'\<lparr>lx_dev := (lx_dev u')(?p \<mapsto> \<lparr>dp_pdevnum = int q, dp_sysfspath = p', dp_hdev = 0\<rparr>)\<rparr> = m"
    using t0(2) by (simp add: du)
  have g: "\<not> (int n < 1 \<or> int n \<ge> USB_MAX_DEVICES_PER_BUS \<or> int c \<ge> USB_MAX_DEVICES_PER_BUS \<or> int q \<ge> USB_MAX_DEVICES_PER_BUS)"
    using rp(4-7) by (simp add: USB_MAX_DEVICES_PER_BUS_def)
  have run: "process_on_bus (\<lambda>_. True) ibus dev path s = Some ((), t\<lparr>lx_found := insert ?p (lx_found t)\<rparr>)"
    unfolding process_on_bus_def rp(1-3) Let_def
    using rest tp
    by (simp only: Option.bind.bind_lunit if_not_P [OF g] rf o(2) byn nat_int t0(1) du mu add case_prod_conv prod.case
        if_False not_not refl simp_thms nx OPENUSB_SUCCESS_def) auto
  let ?T = "t\<lparr>lx_found := insert ?p (lx_found t)\<rparr>"
  have tok: "devices_ok B t" "dev_tab t = (dev_tab s)(l_cur_device_id s \<mapsto> ?p)"
    using parent_ok [OF aok(1) uk(1), of "byn[n := ?p] ! q"] aok
    by (simp_all add: t_def devices_ok_lx del: fun_upd_apply)
  have Tok: "devices_ok B ?T" "dev_tab ?T = (dev_tab s)(l_cur_device_id s \<mapsto> ?p)" using tok by (simp_all add: devices_ok_lx del: fun_upd_apply)
  have find: "usbi_find_device_by_id (l_cur_device_id s) ?T = Some (?p, ?T)"
    using find_device_run [OF Tok(1)] Tok(2) by simp
  have dT: "l_dev ?T ?p = Some (if q = 0 then ?d else ?d\<lparr>dv_parent := byn[n := ?p] ! q\<rparr>)"
    using uk(1) by (simp add: t_def)
  have oth: "lx_dev_by_num ?T ibus = Some (byn[n := ?p])" "pending ?T = pending u" "q = 0 \<longrightarrow> lx_root ?T ibus = ?p"
    using uk by (simp_all add: t_def pending_def)
  show ?thesis
    using run Tok(1) find dT oth pend fields by (intro exI conjI) (assumption | simp)+
qed

section \<open>Devices that leave and come back\<close>

lemma linux_plain_free: "l_dev s p \<noteq> None \<Longrightarrow> linux_free_device p s =
    Some ((), lib.more_update (\<lambda>_. lib.more (s\<lparr>lx_dev := (lx_dev s)(p := None)\<rparr>)) s)"
  by (cases s) (auto simp: linux_free_device_def)

lemma lx_more [simp]: "lx_dev (lib.more_update (\<lambda>_. lib.more s) t) = lx_dev s"
  "lx_dev_by_num (lib.more_update (\<lambda>_. lib.more s) t) = lx_dev_by_num s"
  by (cases s; cases t; simp)+

text \<open>A device of the bus under the number n, whose path no other device has, and which was never opened.\<close>

definition plugged :: "addr \<Rightarrow> addr \<Rightarrow> usbi_device \<Rightarrow> nat \<Rightarrow> string \<Rightarrow> 'a linux_scheme \<Rightarrow> bool" where
  "plugged ibus p d n path s \<longleftrightarrow> p \<in> set (l_devices s) \<and> p \<noteq> 0 \<and> l_dev s p = Some d \<and> dv_bus d = ibus \<and> n < 128 \<and>
     (\<exists>byn. lx_dev_by_num s ibus = Some byn \<and> length byn = 128 \<and> byn ! n = p) \<and>
     (\<exists>dp. lx_dev s p = Some dp \<and> dp_sysfspath dp = Some path \<and> dp_hdev dp = 0) \<and>
     (\<forall>q \<in> set (l_devices s). q \<noteq> p \<longrightarrow> (\<exists>dp. lx_dev s q = Some dp \<and> dp_sysfspath dp \<noteq> Some path))"

lemma sysfspath_walk_run:
  assumes "\<forall>q \<in> set ps. l_dev s q \<noteq> None \<and> (\<exists>dp. lx_dev s q = Some dp \<and> (dp_sysfspath dp = Some path \<longleftrightarrow> q = p))"
  shows "sysfspath_walk path ps s = Some (if p \<in> set ps then p else 0)"
  using assms by (induction ps) auto

lemma find_sysfspath_run:
  assumes "l_held s = {}"
    "\<forall>q \<in> set (l_devices s). l_dev s q \<noteq> None \<and> (\<exists>dp. lx_dev s q = Some dp \<and> (dp_sysfspath dp = Some path \<longleftrightarrow> q = p))"
  shows "find_device_by_sysfspath path s = Some (if p \<in> set (l_devices s) then p else 0, s)"
proof -
  have "sysfspath_walk path (l_devices s) (s\<lparr>l_held := {LkDevices}\<rparr>) = Some (if p \<in> set (l_devices s) then p else 0)"
    by (rule sysfspath_walk_run) (use assms(2) in simp)
  then show ?thesis using assms(1)
    by (simp add: find_device_by_sysfspath_def with_lock_def lock_def unlock_def held_same)
qed

lemma remove_run:
  assumes ok: "devices_ok B s" and pl: "plugged ibus p d n path s" and i: "unat (dv_devid d) < 128" "unat (dv_devid d) \<noteq> n"
    and b: "l_bus s ibus = Some b" "bo_free_device (B (bs_ops b)) = Some linux_free_device"
  shows "\<exists>t byn. device_removed (\<lambda>_. True) B K join path s = Some ((), t) \<and> l_held t = {} \<and> l_buses t = l_buses s \<and>
     l_bus t ibus = Some (b\<lparr>bs_devices := remove1 p (bs_devices b)\<rparr>) \<and> l_dev t = (l_dev s)(p := None) \<and>
     l_devices t = remove1 p (l_devices s) \<and> lx_dev t = (lx_dev s)(p := None) \<and>
     lx_dev_by_num t ibus = Some byn \<and> length byn = 128 \<and> byn ! n = p"
proof -
  obtain byn dp where p: "p \<in> set (l_devices s)" "p \<noteq> 0" "l_dev s p = Some d" "dv_bus d = ibus" "n < 128"
    "lx_dev_by_num s ibus = Some byn" "length byn = 128" "byn ! n = p" "lx_dev s p = Some dp" "dp_sysfspath dp = Some path"
    "dp_hdev dp = 0" "\<forall>q \<in> set (l_devices s). q \<noteq> p \<longrightarrow> (\<exists>dp. lx_dev s q = Some dp \<and> dp_sysfspath dp \<noteq> Some path)"
    using pl by (auto simp: plugged_def)
  have held: "l_held s = {}" using ok by (simp add: devices_ok_def)
  have devs: "\<forall>q \<in> set (l_devices s). l_dev s q \<noteq> None" using ok by (auto simp: devices_ok_def freeable_def)
  have "\<forall>q \<in> set (l_devices s). l_dev s q \<noteq> None \<and> (\<exists>dp. lx_dev s q = Some dp \<and> (dp_sysfspath dp = Some path \<longleftrightarrow> q = p))"
    using p(9,10,12) devs by metis
  from find_sysfspath_run [OF held this] have "find_device_by_sysfspath path s = Some (p, s)" using p(1) by simp
  moreover define s1 where "s1 = s\<lparr>lx_dev_by_num := (lx_dev_by_num s)(ibus \<mapsto> byn[unat (dv_devid d) := 0])\<rparr>"
  moreover have "linux_close K join 0 s = Some (OPENUSB_BADARG, s)" by (simp add: linux_close_def)
  ultimately have st: "device_removed (\<lambda>_. True) B K join path s = usbi_remove_device (\<lambda>_. True) B p s1"
    using p i by (simp add: device_removed_def wr_def)
  have ok1: "devices_ok B s1" using ok by (simp add: s1_def devices_ok_def freeable_def)
  have p1: "p \<in> set (l_devices s1)" "l_dev s1 p = Some d" "l_bus s1 ibus = Some b" using p b by (simp_all add: s1_def)
  obtain desc where ds: "usbi_destroy_configuration (dv_desc d) = Some desc"
    using ok p(1,3) by (auto simp: devices_ok_def freeable_def)
  let ?x = "(detached p s1)\<lparr>lx_dev := (lx_dev s1)(p := None)\<rparr>"
  let ?b = "b\<lparr>bs_devices := remove1 p (bs_devices b)\<rparr>"
  have ub: "l_bus (off_lists p s1) ibus = Some ?b" "l_dev (off_lists p s1) p = Some d" "lx_dev (off_lists p s1) = lx_dev s1"
    using p1 p(4) by (simp_all add: off_lists_def)
  have fr: "usbi_free_device B p (off_lists p s1) = Some ((), lib.more_update (\<lambda>_. lib.more ?x) (detached p s1))"
  proof -
    let ?u = "(off_lists p s1)\<lparr>l_dev := (l_dev (off_lists p s1))(p \<mapsto> d\<lparr>dv_desc := desc\<rparr>)\<rparr>"
    have "usbi_free_device B p (off_lists p s1) = Some ((), ?u\<lparr>lx_dev := (lx_dev ?u)(p := None), l_dev := (l_dev ?u)(p := None)\<rparr>)"
      using ub p(4) ds b(2) by (simp add: usbi_free_device_def Let_def linux_free_device_def)
    also have "?u\<lparr>lx_dev := (lx_dev ?u)(p := None), l_dev := (l_dev ?u)(p := None)\<rparr> = lib.more_update (\<lambda>_. lib.more ?x) (detached p s1)"
      unfolding detached_off_lists using ub(3) by (cases s1) (simp add: off_lists_def)
    finally show ?thesis .
  qed
  note rm = remove_device_core [OF ok1 p1(1) fr]
  show ?thesis unfolding st rm
    by (rule exI, rule exI [of _ "byn[unat (dv_devid d) := 0]"], rule conjI, rule refl)
      (use ok p p1 i in \<open>simp add: detached_def queued_def s1_def devices_ok_def\<close>)
qed

text \<open>
  C37. A device that is plugged in again (src/openusb/src/linux.c, device_removed, process_new_device). device_removed clears
  the entry of dev_by_num at the identifier of the device instead of its number. When the two differ and the device,
  not a root, is removed and comes back with its number, the entry still points to the freed structure: the
  hotplug thread uses it, and the new device is not entered.
\<close>
theorem replug_uses_freed_device:
  assumes ok: "devices_ok B s" and pl: "plugged ibus p d n path s" and i: "unat (dv_devid d) < 128" "unat (dv_devid d) \<noteq> n"
    and b: "l_buses s = [ibus]" "l_bus s ibus = Some b" "bo_free_device (B (bs_ops b)) = Some linux_free_device" "ibus \<noteq> 0"
    and dev: "ud_busnum dev = Some str" "of_int (atoi str) = bs_busnum b" "reports dev n c q" "q \<noteq> 0"
  shows "\<exists>t. hotplug_round (\<lambda>_. True) B K join
       \<lparr>he_ret = 1, he_monitor = True, he_dev = Some (''remove'', path, dev), he_pipe = False\<rparr> s = Some (False, t) \<and>
     l_dev t p = None \<and> p \<notin> set (l_devices t) \<and>
     hotplug_round (\<lambda>_. True) B K join \<lparr>he_ret = 1, he_monitor = True, he_dev = Some (''add'', path, dev), he_pipe = False\<rparr> t = None"
proof -
  from remove_run [OF ok pl i b(2,3), of K join] obtain t byn where
    rm: "device_removed (\<lambda>_. True) B K join path s = Some ((), t)" and t: "l_held t = {}" "l_buses t = l_buses s"
     "l_bus t ibus = Some (b\<lparr>bs_devices := remove1 p (bs_devices b)\<rparr>)" "l_dev t = (l_dev s)(p := None)"
     "l_devices t = remove1 p (l_devices s)" "lx_dev t = (lx_dev s)(p := None)"
     "lx_dev_by_num t ibus = Some byn" "length byn = 128" "byn ! n = p" by blast
  have dis: "distinct (l_devices s)" using ok by (simp add: devices_ok_def table_ok_def)
  then have sub: "q \<in> set (l_devices s)" "q \<noteq> p" if "q \<in> set (l_devices t)" for q using that t(5) by auto
  have oth: "\<forall>q \<in> set (l_devices s). q \<noteq> p \<longrightarrow> (\<exists>dp. lx_dev s q = Some dp \<and> dp_sysfspath dp \<noteq> Some path)"
    and p0: "p \<noteq> 0" "n < 128" using pl by (auto simp: plugged_def)
  have devs: "\<forall>q \<in> set (l_devices s). l_dev s q \<noteq> None" using ok by (auto simp: devices_ok_def freeable_def)
  have "\<forall>q \<in> set (l_devices t). l_dev t q \<noteq> None \<and> (\<exists>dp. lx_dev t q = Some dp \<and> (dp_sysfspath dp = Some path \<longleftrightarrow> q = p))"
    using sub oth devs unfolding t(4,6) by (metis fun_upd_other)
  from find_sysfspath_run [OF t(1) this] have f: "find_device_by_sysfspath path t = Some (0, t)"
    using dis t(5) by simp
  have bus: "usbi_find_bus_by_num (bs_busnum b) t = Some (ibus, t)"
    using t(1-3) b(1) by (simp add: usbi_find_bus_by_num_def with_lock_def lock_def unlock_def held_same insert_Diff_if)
  have np: "\<not> (1 > int n \<or> int n \<ge> USB_MAX_DEVICES_PER_BUS \<or> int c \<ge> USB_MAX_DEVICES_PER_BUS \<or> int q \<ge> USB_MAX_DEVICES_PER_BUS)"
    using dev(3) by (auto simp: reports_def USB_MAX_DEVICES_PER_BUS_def)
  have "process_on_bus (\<lambda>_. True) ibus dev path t = None"
    using dev(3,4) np t p0 by (auto simp: reports_def process_on_bus_def rd_def)
  then have "device_added (\<lambda>_. True) dev path t = None"
    using f dev(1,2) bus b(4) by (simp add: device_added_def process_new_device_def Let_def)
  then show ?thesis using rm t(4,5) dis
    by (intro exI [of _ t]) (simp add: hotplug_round_def same_nocase_def lower_def)
qed

text \<open>A device that leaves after its handle was closed (src/openusb/src/linux.c, linux_open, device_removed). linux_open enters the handle
  into the private data of the device, and closing does not take it out. When the device is removed after its handle was
  closed and freed, device_removed calls linux_close on the freed handle.
\<close>
theorem unplug_after_close_uses_freed_handle:
  assumes ok: "devices_ok B s" and p: "p \<in> set (l_devices s)" "p \<noteq> 0" "lx_dev s p = Some dp" "dp_sysfspath dp = Some path"
    and oth: "\<forall>q \<in> set (l_devices s). q \<noteq> p \<longrightarrow> (\<exists>dp. lx_dev s q = Some dp \<and> dp_sysfspath dp \<noteq> Some path)"
    and h: "dp_hdev dp \<noteq> 0" "l_hdev s (dp_hdev dp) = None"
  shows "device_removed av B K join path s = None"
proof -
  have "l_held s = {}" "\<forall>q \<in> set (l_devices s). l_dev s q \<noteq> None" using ok by (auto simp: devices_ok_def freeable_def)
  moreover from this(2) have "\<forall>q \<in> set (l_devices s). l_dev s q \<noteq> None \<and> (\<exists>dp. lx_dev s q = Some dp \<and> (dp_sysfspath dp = Some path \<longleftrightarrow> q = p))"
    using p(3,4) oth by metis
  ultimately have "find_device_by_sysfspath path s = Some (p, s)" using find_sysfspath_run [of s path p] p(1) by simp
  then show ?thesis using p h by (simp add: device_removed_def linux_close_def)
qed

end
