(* ===== verification/LinuxBackend.thy ===== *)
theory LinuxBackend
  imports LinuxSubmit LinuxDesc LinuxHotplug
begin

text \<open>
  The table backend_ops of the Linux backend: its operations as the library calls them. The
  record linux_env holds what the system and the other threads do; B is the table of all
  backends, through which the library calls back into this one.
\<close>

record 's linux_env =
  le_alloc :: "addr \<Rightarrow> bool"
  le_memory :: "nat \<Rightarrow> bool"
  le_big_endian :: bool
  le_others :: "'s \<Rightarrow> 's option"
  le_junk :: junk
  le_locals :: locals
  le_byte :: u8
  le_device_desc :: usb_device_desc
  le_config_desc :: usb_config_desc
  le_buf :: "u8 list"
  le_kernel :: "int \<Rightarrow> syscall \<Rightarrow> 's \<Rightarrow> int \<times> int"
  le_dir :: "string \<Rightarrow> string list option"
  le_dir_errno :: int
  le_usb_path :: "string option"
  le_release :: "string option"
  le_udev :: "(udev_dev \<times> string) list option"
  le_read :: file_read
  le_driver :: string
  le_event_pipe :: "int \<times> int"
  le_join :: "addr \<Rightarrow> 's \<Rightarrow> 's option"
  le_hotplug_pipe :: "int \<times> int"
  le_hotplug_join :: "'s \<Rightarrow> 's option"

text \<open>
  get_driver_np is called with a buffer of the user, here one of 256 bytes. The entries
  ctrl_xfer_wait to isoc_xfer_wait are NULL: a call of them faults.
\<close>

definition linux_xfer_aio :: "'a linux_scheme linux_env \<Rightarrow> int \<Rightarrow> addr \<Rightarrow> addr \<Rightarrow> ('a linux_scheme, int) op" where
  "linux_xfer_aio e ty hdev io s =
     (if ty = USB_TYPE_CONTROL then linux_submit_ctrl (le_alloc e) (le_big_endian e) (le_kernel e) hdev io s
      else if ty = USB_TYPE_INTERRUPT \<or> ty = USB_TYPE_BULK then linux_submit_bulk_intr (le_alloc e) (le_kernel e) hdev io s
      else if ty = USB_TYPE_ISOCHRONOUS then linux_submit_isoc (le_alloc e) (le_kernel e) hdev io s
      else None)"

definition linux_ops :: "'a linux_scheme linux_env \<Rightarrow> (nat \<Rightarrow> 'a linux_scheme backend_ops) \<Rightarrow> 'a linux_scheme backend_ops" where
  "linux_ops e B = \<lparr>bo_version = 1, bo_io_pattern = PATTERN_ASYNC,
     bo_init = linux_init (le_dir e) (le_usb_path e) (le_release e) (le_kernel e),
     bo_fini = Some (linux_fini (le_kernel e) (le_hotplug_pipe e) (le_hotplug_join e)),
     bo_find_buses = Some (linux_find_buses (le_alloc e) (le_dir e) (le_dir_errno e)),
     bo_refresh_devices = linux_refresh_devices (le_alloc e) B (le_udev e),
     bo_free_device = Some linux_free_device,
     do_open = linux_open (le_alloc e) (le_kernel e) (le_join e) (le_event_pipe e),
     do_close = Some (linux_close (le_kernel e) (le_join e)),
     do_set_configuration = linux_set_configuration (le_alloc e) (le_memory e) B (le_big_endian e) (le_others e)
       (le_junk e) (le_locals e) (le_kernel e),
     do_get_configuration = (\<lambda>hdev. linux_get_configuration (le_alloc e) (le_memory e) B (le_big_endian e) (le_others e)
       (le_junk e) (le_locals e) (le_byte e) hdev (le_byte e)),
     do_claim_interface = linux_claim_interface (le_kernel e),
     do_release_interface = linux_release_interface (le_kernel e),
     do_set_altsetting = linux_set_altsetting (le_kernel e),
     do_get_altsetting = (\<lambda>hdev ifc. linux_get_altsetting hdev ifc False (le_byte e)),
     do_reset = Some (linux_reset (le_kernel e)),
     do_xfer_wait = (\<lambda>ty hdev io s. None),
     do_xfer_aio = linux_xfer_aio e,
     do_get_raw_desc = Some (\<lambda>idev ty descidx langid. linux_get_raw_desc (le_alloc e) (le_big_endian e) (le_device_desc e)
       (le_config_desc e) (le_buf e) (le_kernel e) (le_read e) idev ty descidx langid False),
     do_io_cancel = Some (linux_io_cancel (le_kernel e)),
     do_get_driver_np = Some (\<lambda>hdev ifc. linux_get_driver (le_kernel e) (le_driver e) hdev ifc [] 256),
     do_attach_kernel_driver_np = Some (linux_attach_kernel_driver (le_kernel e)),
     do_detach_kernel_driver_np = Some (linux_detach_kernel_driver (le_kernel e))\<rparr>"

text \<open>What the library assumes of free_device, and what load_backend tests.\<close>

lemma linux_ops_plain: "(\<forall>n. B n = linux_ops e C) \<Longrightarrow> plain_free B"
proof -
  assume "\<forall>n. B n = linux_ops e C"
  then have "bo_free_device (B n) = Some linux_free_device" for n by (simp add: linux_ops_def)
  then show ?thesis unfolding plain_free_def using linux_plain_free by (metis option.inject)
qed

lemma linux_ops_loads: "bo_version (linux_ops e B) = 1" "bo_io_pattern (linux_ops e B) = PATTERN_ASYNC"
  by (simp_all add: linux_ops_def)

end
