(* ===== verification/LinuxCases.thy ===== *)
theory LinuxCases
  imports ReqCases LinuxIsoc LinuxOutcome LinuxBackend
begin

text \<open>
  The theorems on the Linux backend on an instance: the open device handle (at 10) of
  LibCases with the file descriptor 3 and the event pipe (4, 5), its request (at 11) with the
  usbi_io at 12, and a kernel that grants every call.
\<close>

section \<open>The instance\<close>

definition lx_kernel :: "linux kernel" where "lx_kernel fd c s = (0, 0)"

definition lx_priv :: hdl_private where
  "lx_priv = \<lparr>hp_fd = 3, hp_event_pipe = (4, 5), hp_reattachdrv = False\<rparr>"

definition lx_req :: "int \<Rightarrow> openusb_request \<Rightarrow> openusb_request_handle" where
  "lx_req ty q = ex_req\<lparr>rq_type := ty, rq_req := q\<rparr>"

definition lx_table :: "addr list" where "lx_table = (replicate 128 0)[4 := 6]"

definition lx_state :: "int \<Rightarrow> openusb_request \<Rightarrow> linux" where
  "lx_state ty q = lib.extend (ex_ready\<lparr>l_io := [12 \<mapsto> ex_io], l_req := [11 \<mapsto> lx_req ty q]\<rparr>)
     (linux.fields Map.empty [10 \<mapsto> lx_priv] [6 \<mapsto> \<lparr>dp_pdevnum = 1, dp_sysfspath = Some ''p'', dp_hdev = 0\<rparr>]
       [1 \<mapsto> lx_table] {6} Map.empty (\<lambda>_. 0) 1 False ''/dev/bus/usb'' [])"

lemma lx_fields [simp]:
  "l_held (lx_state ty q) = {}" "l_io (lx_state ty q) = [12 \<mapsto> ex_io]" "l_req (lx_state ty q) = [11 \<mapsto> lx_req ty q]"
  "l_hdev (lx_state ty q) = [10 \<mapsto> ex_claimed]" "l_next (lx_state ty q) = 20" "l_hdl (lx_state ty q) = [5 \<mapsto> ex_hdl]"
  "l_bus (lx_state ty q) = [1 \<mapsto> ex_bus64]" "l_dev (lx_state ty q) = [6 \<mapsto> ex_dev 1, 9 \<mapsto> ex_dev 0]"
  "l_devices (lx_state ty q) = [6]" "l_buses (lx_state ty q) = [1]" "l_inited (lx_state ty q) = 2"
  "l_handles (lx_state ty q) = [5]" "l_cur_device_id (lx_state ty q) = 2" "l_events (lx_state ty q) = []"
  "lx_io (lx_state ty q) = Map.empty" "lx_hdev (lx_state ty q) = [10 \<mapsto> lx_priv]"
  "lx_dev (lx_state ty q) = [6 \<mapsto> \<lparr>dp_pdevnum = 1, dp_sysfspath = Some ''p'', dp_hdev = 0\<rparr>]"
  "lx_dev_by_num (lx_state ty q) = [1 \<mapsto> lx_table]" "lx_found (lx_state ty q) = {6}" "lx_log (lx_state ty q) = []"
  "lx_root (lx_state ty q) = (\<lambda>_. 0)"
  by (simp_all add: lx_state_def lib.defs linux.defs ex_ready_def ex_open_def)

lemma lx_kernel_ok [simp]: "lx_kernel fd c s = (0, 0)" "accepts lx_kernel fd"
  by (simp_all add: lx_kernel_def accepts_def)

lemma lx_priv_fields [simp]: "hp_fd lx_priv = 3" "hp_event_pipe lx_priv = (4, 5)" "\<not> hp_reattachdrv lx_priv"
  by (simp_all add: lx_priv_def)

lemma lx_submittable: "submittable 10 12 ex_io (lx_req ty q) lx_priv (lx_state ty q)"
  by (simp add: submittable_def)

lemma lx_req_fields [simp]: "rq_type (lx_req ty q) = ty" "rq_req (lx_req ty q) = q" "rq_endpoint (lx_req ty q) = 2"
  by (simp_all add: lx_req_def ex_req_def)

section \<open>Transfers\<close>

definition lx_bulk :: linux where "lx_bulk = lx_state USB_TYPE_BULK (Bulk ex_data)"

lemma lx_bulk_at: "bulk_at 10 12 ex_io (lx_req USB_TYPE_BULK (Bulk ex_data)) lx_priv lx_bulk"
  by (simp add: bulk_at_def lx_bulk_def)

lemma lx_reportable: "reportable 12 ex_io (lx_req USB_TYPE_BULK (Bulk ex_data)) lx_bulk"
  by (simp add: reportable_def lx_bulk_def req_ok_def)


text \<open>Two URBs of 16384 bytes each.\<close>

definition lx_urbs :: "usbk_urb list" where
  "lx_urbs = replicate 2 (zero_urb\<lparr>ub_usercontext := 12, ub_buffer_length := 16384\<rparr>)"

lemma lx_urbs_simps [simp]: "length lx_urbs = 2" "\<forall>u \<in> set lx_urbs. ub_usercontext u = 12"
  "i < 2 \<Longrightarrow> ub_buffer_length (lx_urbs ! i) = 16384" "i < 2 \<Longrightarrow> \<not> continuation (lx_urbs ! i)"
  by (simp_all add: lx_urbs_def continuation_def zero_urb_def)

lemma lx_discards: "discards lx_kernel fd io D (\<lambda>_. True)"
  by (simp add: discards_def)

text \<open>The first URB is cut short, the second is cancelled.\<close>

lemma bulk_completes_witness:
  "\<exists>t. io_complete lx_kernel 10 (reaps 12 (\<lambda>i. if i = 0 then 0 else - ENOENT) (\<lambda>i. if i = 0 then 5 else 0) [0..<2])
       (flight 12 (bulk_private lx_urbs) [] lx_bulk) = Some (OPENUSB_SUCCESS, t) \<and>
     reported 12 ex_io (lx_req USB_TYPE_BULK (Bulk ex_data)) OPENUSB_SUCCESS 5 lx_bulk t"
  using bulk_completes [OF lx_bulk_at lx_reportable, of 0 lx_urbs "\<lambda>i. if i = 0 then 0 else - ENOENT"
      "\<lambda>i. if i = 0 then 5 else 0" lx_kernel "\<lambda>_. True" "[]"] lx_discards
  by (simp add: ending_status_def upt_rec)

text \<open>Cancelled after the first of the two URBs, which cannot be discarded any more.\<close>

definition lx_late :: "linux kernel" where
  "lx_late fd c s = (if c = DISCARDURB (UrbAt 12 0) then (-1, EINVAL) else (0, 0))"

lemma cancel_after_progress_witness:
  "\<exists>t. do { (_, s) \<leftarrow> io_complete lx_late 10 (reaps 12 (\<lambda>i. if i = 0 then 0 else - ENOENT) (\<lambda>i. if i = 0 then 16384 else 0) [0..<1])
           (flight 12 (bulk_private lx_urbs) [] lx_bulk);
         (_, s) \<leftarrow> linux_io_cancel lx_late 12 s;
         io_complete lx_late 10 (reaps 12 (\<lambda>i. if i = 0 then 0 else - ENOENT) (\<lambda>i. if i = 0 then 16384 else 0) [1..<2]) s }
      = Some (OPENUSB_SUCCESS, t) \<and> l_io t 12 = Some (ex_io\<lparr>io_state := IO_CANCEL\<rparr>) \<and> l_req t = l_req lx_bulk"
proof -
  have "discards lx_late 3 12 {0..<2} (\<lambda>i. i \<noteq> 0)" by (auto simp: discards_def lx_late_def)
  then show ?thesis
    using cancel_after_progress [OF lx_bulk_at lx_reportable, of 1 lx_urbs "\<lambda>i. if i = 0 then 0 else - ENOENT"
      "\<lambda>i. if i = 0 then 16384 else 0" "\<lambda>i. i \<noteq> 0" lx_late "[]"]
    by (auto simp: ending_status_def)
qed

lemma stall_frees_urbs_in_flight_witness:
  "\<exists>t. io_complete lx_kernel 10 (reaps 12 (\<lambda>i. - EPIPE) (\<lambda>i. 0) [0..<1]) (flight 12 (bulk_private lx_urbs) [] lx_bulk) =
       Some (OPENUSB_SUCCESS, t) \<and>
     reported 12 ex_io (lx_req USB_TYPE_BULK (Bulk ex_data)) OPENUSB_IO_STALL 0 lx_bulk t \<and>
     io_complete lx_kernel 10 (reaps 12 (\<lambda>i. - EPIPE) (\<lambda>i. 0) [1]) t = None"
  using stall_frees_urbs_in_flight [OF lx_bulk_at lx_reportable, of 0 lx_urbs "\<lambda>i. - EPIPE" "\<lambda>i. 0" lx_kernel "\<lambda>_. True" "[]"]
    lx_discards by simp

definition lx_empty :: openusb_request where "lx_empty = Bulk (ex_data\<lparr>dr_payload := [], dr_length := 0\<rparr>)"

lemma empty_request_never_ends_witness:
  "\<exists>t u. linux_submit_bulk_intr (\<lambda>_. True) lx_kernel 10 12 (lx_state USB_TYPE_BULK lx_empty) = Some (OPENUSB_SUCCESS, t) \<and>
     linux_io_cancel lx_kernel 12 t = Some (OPENUSB_SUCCESS, u) \<and> l_req u = [11 \<mapsto> lx_req USB_TYPE_BULK lx_empty] \<and>
     lx_log u = [(5, WRITE_EVENT), (5, WRITE_EVENT)]"
  using empty_request_never_ends [OF lx_submittable, of USB_TYPE_BULK lx_empty USBK_URB_TYPE_BULK "\<lambda>_. True" lx_kernel]
  by (auto simp: bulk_request_def lx_empty_def ex_data_def)

definition lx_ctrl :: ctrl_request where
  "lx_ctrl = \<lparr>ct_bmRequestType = 0x80, ct_bRequest = 6, ct_wValue = 0x100, ct_wIndex = 0, ct_payload = [0, 0],
     ct_length = 2, ct_timeout = 0, ct_status = 0, ct_transferred = 0\<rparr>"

lemma lx_ctrl_ok: "ctrl_ok lx_ctrl" by (simp add: ctrl_ok_def lx_ctrl_def)

lemma ctrl_end_to_end_witness:
  "\<exists>t. do { (_, s) \<leftarrow> linux_submit_ctrl (\<lambda>_. True) False lx_kernel 10 12 (lx_state USB_TYPE_CONTROL (Ctrl lx_ctrl));
       reap_ctrl lx_kernel 10 12 0 2 [18, 1] s } = Some t \<and>
     l_req t 11 = Some (lx_req USB_TYPE_CONTROL (Ctrl (lx_ctrl\<lparr>ct_payload := [18, 1], ct_status := 0, ct_transferred := 2\<rparr>)))"
  using ctrl_end_to_end [OF lx_submittable, of USB_TYPE_CONTROL "Ctrl lx_ctrl" lx_ctrl "\<lambda>_. True" lx_kernel ex_claimed ex_hdl
      "[18, 1]" False 2] lx_ctrl_ok
  by (auto simp: OPENUSB_SUCCESS_def lx_ctrl_def lx_req_def)

lemma failed_ctrl_never_reported_witness:
  "\<exists>t. do { (_, s) \<leftarrow> linux_submit_ctrl (\<lambda>_. True) False lx_kernel 10 12 (lx_state USB_TYPE_CONTROL (Ctrl lx_ctrl));
       reap_ctrl lx_kernel 10 12 (- EPIPE) 0 [] s } = Some t \<and> l_io t = [12 \<mapsto> ex_io]"
  using failed_ctrl_never_reported [OF lx_submittable, of USB_TYPE_CONTROL "Ctrl lx_ctrl" lx_ctrl "\<lambda>_. True" lx_kernel
      "- EPIPE" False 0 "[]"] lx_ctrl_ok
  by (auto simp: EPIPE_def ENOENT_def)

text \<open>Three packets of 20000 bytes: one in each URB.\<close>

definition lx_isoc :: isoc_request where
  "lx_isoc = \<lparr>is_num_packets = 3, is_packets = replicate 3 \<lparr>pk_payload = replicate 20000 0, pk_length = 20000\<rparr>, is_results = [], is_flags = 0, is_status = 0\<rparr>"

lemma isoc_submit_packs_witness:
  "\<exists>groups t. linux_submit_isoc (\<lambda>_. True) lx_kernel 10 12 (lx_state USB_TYPE_ISOCHRONOUS (Isoc lx_isoc)) = Some (OPENUSB_SUCCESS, t) \<and>
     concat groups = is_packets lx_isoc \<and> (\<forall>g \<in> set groups. (\<Sum>p \<leftarrow> g. pk_len p) \<le> 32768)"
proof -
  have "packets_ok (is_packets lx_isoc)"
    by (simp add: packets_ok_def lx_isoc_def pk_len_def LINUX_MAX_ISOC_XFER_def)
  moreover have "length (is_packets lx_isoc) = unat (is_num_packets lx_isoc)" "unat (is_num_packets lx_isoc) + 1 < 2 ^ 32"
    by (simp_all add: lx_isoc_def)
  ultimately show ?thesis
    using isoc_submit_packs [OF lx_submittable, of USB_TYPE_ISOCHRONOUS "Isoc lx_isoc" lx_isoc "\<lambda>_. True" lx_kernel]
    by simp blast
qed

section \<open>Devices\<close>

text \<open>A kernel in which a driver holds the interface 1.\<close>

definition lx_held :: "linux kernel" where
  "lx_held fd c s = (if c = CLAIMINTF 1 then (-1, EBUSY) else (0, 0))"

lemma lx_free_ifc: "free_ifc 10 1 lx_bulk"
  by (simp add: free_ifc_def lx_bulk_def USBI_IFC_CLAIMED_def)

lemma claim_detaches_only_witness:
  "linux_claim_interface lx_held 10 1 0 lx_bulk = Some (OPENUSB_SUCCESS, lx_bulk\<lparr>lx_log := [(3, CLAIMINTF 1), (3, DISCONNECT 1)]\<rparr>)"
  using claim_detaches_only [OF lx_free_ifc, of lx_priv lx_held 0] by (simp add: lx_held_def lx_bulk_def)

lemma interface_life_witness:
  "\<exists>s1 s2. linux_claim_interface lx_kernel 10 1 0 lx_bulk = Some (OPENUSB_SUCCESS, s1) \<and>
     linux_set_altsetting lx_kernel 10 1 7 s1 = Some (OPENUSB_SUCCESS, s2) \<and>
     linux_get_altsetting 10 1 False 0 s2 = Some ((OPENUSB_SUCCESS, 7), s2)"
  using interface_life [OF lx_free_ifc, of lx_priv lx_kernel 0 7] by (auto simp: lx_bulk_def)

definition lx_closed :: linux where
  "lx_closed = lx_bulk\<lparr>l_hdev := [10 \<mapsto> ex_claimed\<lparr>hv_state := DEVICE_CLOSED\<rparr>]\<rparr>"

definition lx_opens :: "linux kernel" where
  "lx_opens fd c s = (if c = OPEN_RDWR '''' then 3 else 0, 0)"


text \<open>A device file with one configuration, which is its descriptor alone.\<close>

definition lx_config :: usb_config_desc where "lx_config = zero_config_desc\<lparr>cd_wTotalLength := 9\<rparr>"
definition lx_device :: usb_device_desc where "lx_device = zero_device_desc\<lparr>dd_bNumConfigurations := 1\<rparr>"

lemma lx_whole: "whole_config (enc_config_desc lx_config)"
  unfolding whole_config_def by (rule exI [of _ lx_config], rule exI [of _ "[]"]) (simp add: lx_config_def zero_config_desc_def)


lemma find_buses_exact_witness:
  "\<exists>buses t. linux_find_buses (\<lambda>_. True) (\<lambda>_. Some [''.'', ''001'', ''devices'', ''002'']) 0 lx_bulk = Some ((OPENUSB_SUCCESS, buses), t) \<and>
     map (\<lambda>p. bs_busnum (the (l_bus t p))) buses = [1, 2]"
proof -
  have "filter bus_name [''.'', ''001'', ''devices'', ''002''] = [''001'', ''002'']"
    by (simp add: bus_name_def is_digit_def)
  moreover have "atoi ''001'' = 1" "atoi ''002'' = 2"
    by (simp_all add: atoi_def scan_int_def is_space_def is_digit_def Let_def)
  moreover have "map (\<lambda>p. bs_busnum (the (l_bus t p))) bs = map bs_busnum (map (\<lambda>p. the (l_bus t p)) bs)" for t :: linux and bs
    by simp
  ultimately show ?thesis
    using find_buses_exact [of "\<lambda>_. Some [''.'', ''001'', ''devices'', ''002'']" lx_bulk "[''.'', ''001'', ''devices'', ''002'']" 0]
    by (auto simp: lx_bulk_def linux_bus_def simp del: map_map)
qed

text \<open>A backend that frees devices as this one does and else does nothing, and a bus whose device is the one at 6.\<close>

definition lx_B :: "nat \<Rightarrow> linux backend_ops" where
  "lx_B n = \<lparr>bo_version = 1, bo_io_pattern = PATTERN_ASYNC, bo_init = (\<lambda>p f s. Some (0, s)),
     bo_fini = None, bo_find_buses = None, bo_refresh_devices = (\<lambda>p s. Some (0, s)), bo_free_device = Some linux_free_device,
     do_open = (\<lambda>d s. Some (0, s)), do_close = None, do_set_configuration = (\<lambda>d c s. Some (0, s)),
     do_get_configuration = (\<lambda>d s. Some ((0, 1), s)), do_claim_interface = (\<lambda>d i f s. Some (0, s)),
     do_release_interface = (\<lambda>d i s. Some (0, s)), do_set_altsetting = (\<lambda>d i a s. Some (0, s)),
     do_get_altsetting = (\<lambda>d i s. Some ((0, 0), s)), do_reset = None, do_xfer_wait = (\<lambda>ty d io s. Some (0, s)),
     do_xfer_aio = (\<lambda>ty d io s. Some (0, s)), do_get_raw_desc = None, do_io_cancel = None, do_get_driver_np = None,
     do_attach_kernel_driver_np = None, do_detach_kernel_driver_np = None\<rparr>"

definition lx_bus :: usbi_bus where "lx_bus = ex_bus64\<lparr>bs_devices := [6]\<rparr>"

definition lx_plugged :: linux where "lx_plugged = lx_bulk\<lparr>l_bus := [1 \<mapsto> lx_bus]\<rparr>"

lemma lx_plugged_fields [simp]:
  "l_held lx_plugged = {}" "l_bus lx_plugged = [1 \<mapsto> lx_bus]" "l_dev lx_plugged = [6 \<mapsto> ex_dev 1, 9 \<mapsto> ex_dev 0]"
  "l_devices lx_plugged = [6]" "l_next lx_plugged = 20" "l_inited lx_plugged = 2" "l_handles lx_plugged = [5]"
  "l_hdl lx_plugged = [5 \<mapsto> ex_hdl]" "l_cur_device_id lx_plugged = 2" "l_events lx_plugged = []" "l_buses lx_plugged = [1]"
  "lx_dev lx_plugged = [6 \<mapsto> \<lparr>dp_pdevnum = 1, dp_sysfspath = Some ''p'', dp_hdev = 0\<rparr>]"
  "lx_dev_by_num lx_plugged = [1 \<mapsto> lx_table]" "lx_found lx_plugged = {6}" "lx_root lx_plugged = (\<lambda>_. 0)"
  by (simp_all add: lx_plugged_def lx_bulk_def)

lemma lx_plain_free: "plain_free lx_B"
  unfolding plain_free_def using linux_plain_free by (auto simp: lx_B_def)

lemma ex_dev_1: "dv_devid (ex_dev 1) = 1" "dv_bus (ex_dev 1) = 1" "usbi_destroy_configuration (dv_desc (ex_dev 1)) \<noteq> None"
  by (simp_all add: ex_dev_def usbi_destroy_configuration_def)

lemma lx_devices_ok: "devices_ok lx_B lx_plugged"
  using lx_plain_free ex_dev_1 by (simp add: devices_ok_def table_ok_def freeable_def)

lemma refresh_keeps_vanished_witness:
  "linux_refresh_devices (\<lambda>_. True) lx_B (Some []) 1 lx_plugged = Some (OPENUSB_SUCCESS, lx_plugged)"
  by (rule refresh_keeps_vanished [of 1 lx_plugged lx_bus]) (simp_all add: lx_bus_def)

text \<open>Device 5 with 3 ports, whose parent is device 4.\<close>

definition lx_udev :: "string \<Rightarrow> udev_dev" where
  "lx_udev n = \<lparr>ud_busnum = Some ''1'', ud_devnum = Some n, ud_maxchild = Some ''3'', ud_pdevnum = Some ''4''\<rparr>"

lemma lx_atoi: "atoi ''1'' = 1" "atoi ''3'' = 3" "atoi ''4'' = 4" "atoi ''5'' = 5"
  by (simp_all add: atoi_def scan_int_def is_space_def is_digit_def Let_def)

lemma lx_table_simps: "length lx_table = 128" "lx_table ! 4 = 6" "lx_table ! 5 = 0"
  by (simp_all add: lx_table_def)

lemma new_device_registered_witness:
  "\<exists>t d. process_on_bus (\<lambda>_. True) 1 (lx_udev ''5'') ''q'' lx_plugged = Some ((), t) \<and> l_dev t 20 = Some d \<and> dv_devnum d = 5 \<and>
     dv_parent d = 6 \<and> usbi_find_device_by_id 2 t = Some (20, t)"
proof -
  have "on_bus 1 lx_bus lx_table lx_plugged" "reports (lx_udev ''5'') 5 3 4"
    by (simp_all add: on_bus_def lx_table_simps reports_def lx_udev_def lx_atoi)
  from new_device_registered [OF lx_devices_ok this, of "''q''"] show ?thesis
    by (auto simp: lx_table_simps)
qed

lemma replug_uses_freed_device_witness:
  "\<exists>t. hotplug_round (\<lambda>_. True) lx_B lx_kernel (\<lambda>_. Some)
       \<lparr>he_ret = 1, he_monitor = True, he_dev = Some (''remove'', ''p'', lx_udev ''4''), he_pipe = False\<rparr> lx_plugged = Some (False, t) \<and>
     hotplug_round (\<lambda>_. True) lx_B lx_kernel (\<lambda>_. Some)
       \<lparr>he_ret = 1, he_monitor = True, he_dev = Some (''add'', ''p'', lx_udev ''4''), he_pipe = False\<rparr> t = None"
proof -
  have "plugged 1 6 (ex_dev 1) 4 ''p'' lx_plugged" "reports (lx_udev ''4'') 4 3 4" "bs_busnum lx_bus = 1"
    "bo_free_device (lx_B n) = Some linux_free_device" for n
    by (simp_all add: plugged_def lx_table_simps ex_dev_1 reports_def lx_udev_def lx_atoi lx_bus_def ex_bus64_def ex_bus_def lx_B_def)
  from replug_uses_freed_device [where str = "''1''" and K = lx_kernel and join = "\<lambda>_. Some",
      OF lx_devices_ok this(1) _ _ _ _ this(4) _ _ _ this(2)] this(3)
  show ?thesis by (auto simp: ex_dev_1 lx_udev_def lx_atoi)
qed

lemma unplug_after_close_uses_freed_handle_witness:
  "device_removed (\<lambda>_. True) lx_B lx_kernel (\<lambda>_. Some) ''p''
     (lx_plugged\<lparr>lx_dev := [6 \<mapsto> \<lparr>dp_pdevnum = 1, dp_sysfspath = Some ''p'', dp_hdev = 14\<rparr>]\<rparr>) = None"
proof -
  let ?dp = "\<lparr>dp_pdevnum = 1, dp_sysfspath = Some ''p'', dp_hdev = 14\<rparr>"
  let ?s = "lx_plugged\<lparr>lx_dev := [6 \<mapsto> ?dp]\<rparr>"
  have "devices_ok lx_B ?s" using lx_plain_free ex_dev_1 by (simp add: devices_ok_def table_ok_def freeable_def)
  from unplug_after_close_uses_freed_handle [OF this, of 6 ?dp "''p''"] show ?thesis
    by (simp add: lx_plugged_def lx_bulk_def)
qed

end
