(* ===== verification/ApiIfc.thy ===== *)
theory ApiIfc
  imports DevStrings
begin

text \<open>
  The interfaces of an open device in api.c: openusb_claim_interface and
  openusb_set_altsetting, which read the descriptors of the device anew before they ask the
  backend; and the error strings of usb.c.
\<close>

section \<open>Error strings (usb.c)\<close>

definition errorstrs :: "(int \<times> string) list" where
  "errorstrs = [(OPENUSB_SUCCESS, ''Call success''),
     (OPENUSB_PLATFORM_FAILURE, ''Unspecified kernel/driver failure''),
     (OPENUSB_NO_RESOURCES, ''No resources available''),
     (OPENUSB_NO_BANDWIDTH, ''No bandwidth available''),
     (OPENUSB_NOT_SUPPORTED, ''Not supported by HCD''),
     (OPENUSB_HC_HARDWARE_ERROR, ''USB host controller error''),
     (OPENUSB_INVALID_PERM, ''Privileged operation''),
     (OPENUSB_BUSY, ''Busy condition''),
     (OPENUSB_BADARG, ''Invalid parameter''),
     (OPENUSB_NOACCESS, ''Access to device denied''),
     (OPENUSB_PARSE_ERROR, ''Data could not be parsed''),
     (OPENUSB_UNKNOWN_DEVICE, ''Device id is stale or invalid''),
     (OPENUSB_INVALID_HANDLE, ''Handle is invalid''),
     (OPENUSB_SYS_FUNC_FAILURE, ''Call other system function failed''),
     (OPENUSB_NULL_LIST, ''Can not find bus or device''),
     (OPENUSB_IO_STALL, ''Endpoint stalled''),
     (OPENUSB_IO_CRC_ERROR, ''CRC error''),
     (OPENUSB_IO_DEVICE_HUNG, ''Device hung''),
     (OPENUSB_IO_REQ_TOO_BIG, ''Request too big''),
     (OPENUSB_IO_BIT_STUFFING, ''Bit stuffing error''),
     (OPENUSB_IO_UNEXPECTED_PID, ''Unexpected PID''),
     (OPENUSB_IO_DATA_OVERRUN, ''Data overrun''),
     (OPENUSB_IO_DATA_UNDERRUN, ''Data underrun''),
     (OPENUSB_IO_BUFFER_OVERRUN, ''Buffer overrun''),
     (OPENUSB_IO_BUFFER_UNDERRUN, ''Buffer underrun''),
     (OPENUSB_IO_PID_CHECK_FAILURE, ''PID check failure''),
     (OPENUSB_IO_DATA_TOGGLE_MISMATCH, ''Data toggle mismatch''),
     (OPENUSB_IO_TIMEOUT, ''I/O timeout''),
     (OPENUSB_IO_CANCELED, ''I/O canceled'')]"

definition openusb_strerror :: "int \<Rightarrow> string" where
  "openusb_strerror error = (case map_of errorstrs error of Some msg \<Rightarrow> msg | None \<Rightarrow> ''Unknown error'')"

section \<open>Interfaces (api.c)\<close>

text \<open>idev->desc.configs[idev->cur_config_index]\<close>

definition cur_config :: "addr \<Rightarrow> 'a lib_scheme \<Rightarrow> usbi_config option" where
  "cur_config hdev s = do {
     h \<leftarrow> l_hdev s hdev;
     d \<leftarrow> l_dev s (hv_idev h);
     (if dv_cur_config_index d < 0 then None
      else pidx (ds_configs (dv_desc d)) (nat (dv_cur_config_index d)))
   }"

definition set_claimed :: "addr \<Rightarrow> u8 \<Rightarrow> int \<times> int \<Rightarrow> 'a lib_scheme \<Rightarrow> 'a lib_scheme option" where
  "set_claimed hdev ifc c s = do {
     h \<leftarrow> l_hdev s hdev;
     (if unat ifc < length (hv_claimed_ifs h)
      then Some (s\<lparr>l_hdev := (l_hdev s)(hdev \<mapsto> h\<lparr>hv_claimed_ifs := (hv_claimed_ifs h)[unat ifc := c]\<rparr>)\<rparr>)
      else None)
   }"

definition openusb_claim_interface :: "(addr \<Rightarrow> bool) \<Rightarrow> (nat \<Rightarrow> bool) \<Rightarrow> (nat \<Rightarrow> 'a lib_scheme backend_ops) \<Rightarrow> bool \<Rightarrow>
    ('a lib_scheme \<Rightarrow> 'a lib_scheme option) \<Rightarrow> junk \<Rightarrow> locals \<Rightarrow> u64 \<Rightarrow> u8 \<Rightarrow> nat \<Rightarrow> ('a lib_scheme, int) op" where
  "openusb_claim_interface av mem B be others j lo dev ifc flags s =
     (if unat ifc > USBI_MAXINTERFACES then Some (OPENUSB_BADARG, s)
      else do {
        (hdev, s) \<leftarrow> usbi_find_dev_handle dev s;
        (if hdev = 0 then Some (OPENUSB_UNKNOWN_DEVICE, s)
         else do {
           (ret, s) \<leftarrow> fetch_descriptors av mem B be others j lo hdev s;
           (if ret \<noteq> 0 then Some (OPENUSB_BADARG, s)
            else do {
              s \<leftarrow> lock_hdev hdev s;
              invalid \<leftarrow> (if unat ifc \<ge> USBI_MAXINTERFACES then Some True
                 else map_option (\<lambda>c. unat ifc \<ge> cf_num_interfaces c) (cur_config hdev s));
              s \<leftarrow> unlock_hdev hdev s;
              (if invalid then Some (OPENUSB_BADARG, s)
               else do {
                 ops \<leftarrow> dev_ops B hdev s;
                 (ret, s) \<leftarrow> do_claim_interface ops hdev ifc flags s;
                 s \<leftarrow> lock_hdev hdev s;
                 s \<leftarrow> (if ret = 0 then set_claimed hdev ifc (USBI_IFC_CLAIMED, 0) s else Some s);
                 s \<leftarrow> unlock_hdev hdev s;
                 Some (ret, s)
               })
            })
         })
      })"

text \<open>The members of || are evaluated in order. One return leaves the lock held, as the code does.\<close>

definition openusb_set_altsetting :: "(addr \<Rightarrow> bool) \<Rightarrow> (nat \<Rightarrow> bool) \<Rightarrow> (nat \<Rightarrow> 'a lib_scheme backend_ops) \<Rightarrow> bool \<Rightarrow>
    ('a lib_scheme \<Rightarrow> 'a lib_scheme option) \<Rightarrow> junk \<Rightarrow> locals \<Rightarrow> u64 \<Rightarrow> u8 \<Rightarrow> u8 \<Rightarrow> ('a lib_scheme, int) op" where
  "openusb_set_altsetting av mem B be others j lo dev ifc alt s = do {
     (hdev, s) \<leftarrow> usbi_find_dev_handle dev s;
     (if hdev = 0 then Some (OPENUSB_UNKNOWN_DEVICE, s)
      else if unat ifc > USBI_MAXINTERFACES then Some (OPENUSB_BADARG, s)
      else do {
        s \<leftarrow> lock_hdev hdev s;
        h \<leftarrow> l_hdev s hdev;
        let idev = hv_idev h;
        s \<leftarrow> unlock_hdev hdev s;
        (ret, s) \<leftarrow> fetch_descriptors av mem B be others j lo hdev s;
        (if ret \<noteq> 0 then Some (OPENUSB_PARSE_ERROR, s)
         else do {
           s \<leftarrow> lock_hdev hdev s;
           d \<leftarrow> l_dev s idev;
           (if dv_cur_config_index d < 0 then Some (OPENUSB_PARSE_ERROR, s)
            else do {
              pcfg \<leftarrow> pidx (ds_configs (dv_desc d)) (nat (dv_cur_config_index d));
              h \<leftarrow> l_hdev s hdev;
              invalid \<leftarrow> (if unat ifc > cf_num_interfaces pcfg \<or> unat ifc > USBI_MAXINTERFACES then Some True
                 else do {
                   c \<leftarrow> rd (hv_claimed_ifs h) (unat ifc);
                   (if fst c \<noteq> USBI_IFC_CLAIMED then Some True
                    else do {
                      i \<leftarrow> pidx (cf_interfaces pcfg) (unat ifc);
                      Some (unat alt \<ge> if_num_altsettings i)
                    })
                 });
              (if invalid then do { s \<leftarrow> unlock_hdev hdev s; Some (OPENUSB_BADARG, s) }
               else do {
                 c \<leftarrow> rd (hv_claimed_ifs h) (unat ifc);
                 (if int (unat alt) = snd c then do { s \<leftarrow> unlock_hdev hdev s; Some (0, s) }
                  else do {
                    ops \<leftarrow> dev_ops B hdev s;
                    (ret, s) \<leftarrow> do_set_altsetting ops hdev ifc alt s;
                    s \<leftarrow> unlock_hdev hdev s;
                    Some (ret, s)
                  })
               })
            })
         })
      })
   }"

section \<open>A device behind openusb_ctrl_xfer\<close>

text \<open>
  The device d of the handle p has a backend with synchronous transfers, and answers
  GET_DESCRIPTOR as D says.
\<close>

definition answering :: "(nat \<Rightarrow> 'a lib_scheme backend_ops) \<Rightarrow> addr \<Rightarrow> usbi_device \<Rightarrow> usbi_bus \<Rightarrow> (u8 \<Rightarrow> u8 \<Rightarrow> u8 list) \<Rightarrow>
    bool" where
  "answering B p d b D \<longleftrightarrow> bo_io_pattern (B (bs_ops b)) \<in> {PATTERN_SYNC, PATTERN_BOTH} \<and>
     (\<forall>t io x r ty ix buf n. l_io t io = Some x \<longrightarrow> l_req t (io_req x) = Some r \<longrightarrow>
        rq_req r = Ctrl (get_desc_request ty ix buf n) \<longrightarrow>
        do_xfer_wait (B (dv_ops d)) USB_TYPE_CONTROL p io t = Some (0, t\<lparr>l_req := (l_req t)
          (io_req x \<mapsto> r\<lparr>rq_req := Ctrl (answer D ty ix (get_desc_request ty ix buf n))\<rparr>)\<rparr>))"

text \<open>The longest control transfer that openusb_xfer_wait lets through.\<close>

definition ctrl_limit :: "usbi_bus \<Rightarrow> nat" where
  "ctrl_limit b = (let l = bs_max_xfer_size b ! nat USB_TYPE_CONTROL in if l = 0 then 2 ^ 32 else unat l)"

definition ready :: "u64 \<Rightarrow> addr \<Rightarrow> usbi_dev_handle \<Rightarrow> usbi_device \<Rightarrow> usbi_bus \<Rightarrow> 'a lib_scheme \<Rightarrow> bool" where
  "ready k p h d b s \<longleftrightarrow> open_at k p h d b s \<and> next_free s \<and> (\<forall>a \<ge> l_next s. l_req s a = None)"

definition later :: "'a lib_scheme \<Rightarrow> 'a lib_scheme \<Rightarrow> bool" where
  "later s t \<longleftrightarrow> (\<exists>m \<ge> l_next s. t = s\<lparr>l_next := m\<rparr>)"

lemma later_refl: "later s s"
  unfolding later_def by (rule exI [of _ "l_next s"]) simp

lemma later_trans: "later s t \<Longrightarrow> later t u \<Longrightarrow> later s u"
proof -
  assume "later s t" "later t u"
  then obtain m n where "l_next s \<le> m" "t = s\<lparr>l_next := m\<rparr>" "m \<le> n" "u = s\<lparr>l_next := n\<rparr>"
    by (auto simp: later_def)
  then show ?thesis unfolding later_def by (intro exI [of _ n]) simp
qed

lemma laterI: "l_next s \<le> m \<Longrightarrow> later s (s\<lparr>l_next := m\<rparr>)"
  unfolding later_def by (rule exI [of _ m]) simp

lemma ready_later: "ready k p h d b s \<Longrightarrow> l_next s \<le> m \<Longrightarrow> ready k p h d b (s\<lparr>l_next := m\<rparr>)"
  by (auto simp: ready_def next_free_def unlinked_def intro: open_at_cong [where s = s])

lemma ctrl_sync_run:
  fixes s :: "'a lib_scheme"
  assumes rd: "ready k p h d b s" and av: "\<forall>n. av n" and B: "answering B p d b D"
    and n: "unat n \<le> ctrl_limit b"
  shows "openusb_ctrl_xfer av B be others j k 0 0 (Some (get_desc_request ty ix buf n)) s =
     Some ((0, Some (Ctrl (answer D ty ix (get_desc_request ty ix buf n)))), s\<lparr>l_next := l_next s + 2\<rparr>)"
proof -
  let ?c = "get_desc_request ty ix buf n"
  let ?q = "Ctrl ?c" and ?q' = "Ctrl (answer D ty ix ?c)"
  let ?r = "xfer_request k 0 0 ?q"
  let ?t = "s\<lparr>l_next := l_next s + 1, l_req := (l_req s)(l_next s \<mapsto> ?r)\<rparr>"
  let ?u = "?t\<lparr>l_next := l_next s + 2, l_req := (l_req ?t)(l_next s \<mapsto> ?r\<lparr>rq_req := ?q'\<rparr>)\<rparr>"
  have o: "open_at k p h d b s" and nf: "next_free s" "l_req s (l_next s) = None"
    using rd by (simp_all add: ready_def)
  have f: "rq_dev ?r = k" "rq_interface ?r = 0" "rq_type ?r = USB_TYPE_CONTROL" "rq_req ?r = ?q" "rq_endpoint ?r = 0"
    by (simp_all add: xfer_request_def xfer_type_def)
  have r: "req_ok ?r" by (simp add: req_ok_def f)
  have ot: "open_at k p h d b ?t" by (rule open_at_cong [OF _ _ _ _ _ _ _ _ _ o]) simp_all
  note od = open_atD [OF ot]
  have nt: "next_free ?t" using nf(1) by (simp add: next_free_def unlinked_def)
  have ct: "connected p d b ?t" using ot by (auto simp: open_at_def connected_def)
  have pat: "bo_io_pattern (B (bs_ops b)) \<in> {PATTERN_SYNC, PATTERN_BOTH}" using B by (simp add: answering_def)
  have wait: "\<forall>t x. l_req t (l_next s) = Some ?r \<longrightarrow> l_io t (l_next ?t) = Some x \<longrightarrow> io_req x = l_next s \<longrightarrow>
      do_xfer_wait (B (dv_ops d)) (rq_type ?r) p (l_next ?t) t =
      Some (0, t\<lparr>l_req := (l_req t)(l_next s \<mapsto> ?r\<lparr>rq_req := ?q'\<rparr>)\<rparr>)"
  proof (intro allI impI)
    fix t :: "'a lib_scheme" and x assume t: "l_req t (l_next s) = Some ?r" "l_io t (l_next ?t) = Some x" "io_req x = l_next s"
    show "do_xfer_wait (B (dv_ops d)) (rq_type ?r) p (l_next ?t) t =
        Some (0, t\<lparr>l_req := (l_req t)(l_next s \<mapsto> ?r\<lparr>rq_req := ?q'\<rparr>)\<rparr>)"
      using B [unfolded answering_def, THEN conjunct2, rule_format, OF t(2)] t f by simp
  qed
  have sync: "usbi_io_sync av B others p (l_next s) ?t = Some (0, ?u)"
    using io_sync_wait_run [where B = B and av = av, OF ct od(3) nt av _ r pat wait] by (simp add: OPENUSB_SUCCESS_def)
  have chk: "check_req_valid av B be others j (l_next s) p ?t = Some (0, ?t)"
    by (simp add: check_req_valid_def f)
  have lim: "rd (bs_max_xfer_size b) (nat USB_TYPE_CONTROL) = Some (bs_max_xfer_size b ! nat USB_TYPE_CONTROL)"
    using ot by (simp add: open_at_def rd_def USB_TYPE_CONTROL_def)
  have size: "check_size USB_TYPE_CONTROL ?q (bs_max_xfer_size b ! nat USB_TYPE_CONTROL) = Some 0"
    using n by (auto simp: check_size_def ctrl_limit_def Let_def get_desc_request_def word_less_nat_alt split: if_splits)
  have hv: "l_hdev s p = Some h" "l_dev s (hv_idev h) = Some d" "l_bus s (dv_bus d) = Some b" "l_held s = {}"
    using o open_atD(3) [OF o] by (simp_all add: open_at_def)
  have n0: "l_next s \<noteq> 0" using nf(1) by (simp add: next_free_def)
  have ne: "LkHdev p \<noteq> LkBus (dv_bus d)" "{LkBus (dv_bus d), LkHdev p} - {LkBus (dv_bus d)} = {LkHdev p}" by auto
  have "openusb_xfer_wait av B be others j (l_next s) ?t = Some (0, ?u)"
    using od n0 f lim size chk sync hv pat ne
    by (auto simp: openusb_xfer_wait_def lock_hdev_def unlock_hdev_def lock_def unlock_def held_same
        PATTERN_ASYNC_def PATTERN_SYNC_def PATTERN_BOTH_def USB_TYPE_CONTROL_def)
  moreover have "(l_req s)(l_next s := None) = l_req s" using nf(2) by auto
  ultimately show ?thesis using n0 av
    by (simp add: openusb_ctrl_xfer_def wait_xfer_def fresh_def Let_def xfer_request_def xfer_type_def)
qed

text \<open>So the public transfer function is such a pipe: the contract of DescFetch.\<close>

lemma sync_pipe:
  assumes av: "\<forall>n. av n" and B: "answering B p d b D"
  shows "ctrl_pipe (xfer_of av B be others j k) D (ctrl_limit b) (ready k p h d b) later"
proof
  fix s :: "'a lib_scheme" and n :: u32 and ty ix :: u8 and buf :: "u8 list"
  assume rd: "ready k p h d b s" and n: "unat n \<le> ctrl_limit b"
  let ?s = "s\<lparr>l_next := l_next s + 2\<rparr>"
  have "ready k p h d b ?s" "later s ?s" using ready_later [OF rd, of "l_next s + 2"] laterI [of s "l_next s + 2"] by simp_all
  then show "\<exists>w'. xfer_of av B be others j k s (get_desc_request ty ix buf n) =
      Some (0, answer D ty ix (get_desc_request ty ix buf n), w') \<and> ready k p h d b w' \<and> later s w'"
    using ctrl_sync_run [OF rd av B n, of be others j ty ix buf] by (auto simp: xfer_of_def)
qed (auto intro: later_refl later_trans)

text \<open>Fetching through it, into the device. What was there before must be free to go.\<close>

lemma fetch_descriptors_run:
  assumes rd: "ready k p h d b s" and av: "\<forall>n. av n" "\<forall>n. mem n"
    and B: "answering B p d b (device_desc_bytes v)" and v: "wf_device v" "fits (ctrl_limit b) v"
    and lo: "length (lo_buf lo) = 8" "length (lo_devbuf lo) = 19"
    and d0: "usbi_destroy_configuration (dv_desc d) = Some d0"
  shows "\<exists>m \<ge> l_next s. fetch_descriptors av mem B be others j lo p s = Some (0, s\<lparr>l_next := m,
     l_dev := (l_dev s)(hv_idev h \<mapsto> d\<lparr>dv_desc := repr_device v (rw_len (ds_device_raw d0))\<rparr>)\<rparr>)"
proof -
  obtain s1 where f: "usbi_fetch_and_parse_descriptors mem be lo (xfer_of av B be others j k) (dv_desc d) s =
      Some (Some (0, repr_device v (rw_len (ds_device_raw d0)), s1))" "later s s1"
    using ctrl_pipe.fetch_ok [where av = mem and be = be, OF sync_pipe [OF av(1) B] refl v _ rd lo d0] av(2) by blast
  then obtain m where m: "l_next s \<le> m" "s1 = s\<lparr>l_next := m\<rparr>" by (auto simp: later_def)
  have hv: "l_hdev s p = Some h" "l_dev s (hv_idev h) = Some d" "hv_handle h = k"
    using rd by (simp_all add: ready_def open_at_def)
  show ?thesis
    by (rule exI [of _ m]) (simp add: fetch_descriptors_def f(1) hv m)
qed

section \<open>Claiming and setting by the descriptors\<close>

text \<open>The state after the descriptors are refreshed, with the claim c of the interface.\<close>

definition refreshed :: "addr \<Rightarrow> usbi_dev_handle \<Rightarrow> usbi_device \<Rightarrow> nat \<Rightarrow> 'a lib_scheme \<Rightarrow> 'a lib_scheme" where
  "refreshed p h d m s = s\<lparr>l_next := m, l_hdev := (l_hdev s)(p \<mapsto> h), l_dev := (l_dev s)(hv_idev h \<mapsto> d)\<rparr>"

lemma refreshed_simps [simp]:
  "l_held (refreshed p h d m s) = l_held s" "l_hdev (refreshed p h d m s) = (l_hdev s)(p \<mapsto> h)"
  "l_dev (refreshed p h d m s) = (l_dev s)(hv_idev h \<mapsto> d)" "l_next (refreshed p h d m s) = m"
  by (simp_all add: refreshed_def)

lemma ready_refreshed:
  assumes rd: "ready k p h d b s" and m: "l_next s \<le> m"
    and h: "h' = h \<or> h' = h\<lparr>hv_claimed_ifs := cs\<rparr> \<and> length cs = USBI_MAXINTERFACES"
    and d: "d' = d\<lparr>dv_desc := ds\<rparr>"
  shows "ready k p h' d' b (refreshed p h' d' m s)"
proof -
  let ?t = "refreshed p h' d' m s"
  have hk: "hv_handle h' = hv_handle h" "hv_idev h' = hv_idev h" "hv_lib_hdl h' = hv_lib_hdl h"
    "hv_io_head h' = hv_io_head h" using h by auto
  have o: "open_at k p h d b s" "next_free s" "\<forall>a \<ge> l_next s. l_req s a = None"
    using rd by (simp_all add: ready_def)
  have hv: "l_hdev s p = Some h" using o(1) by (simp add: open_at_def)
  have len: "length (hv_claimed_ifs h') = USBI_MAXINTERFACES" using h o(1) by (auto simp: open_at_def)
  have tab: "table_ok hv_handle (l_cur_dev_handle s) (l_hdev s) (l_dev_handles s)"
    using o(1) by (simp add: open_at_def hdevs_ok_def)
  note c = table_cong [of "l_dev_handles s" hv_handle "l_hdev ?t" "l_hdev s", OF _ tab]
  have "\<forall>q \<in> set (l_dev_handles s). map_option hv_handle (l_hdev ?t q) = map_option hv_handle (l_hdev s q)"
    using hv hk by simp
  then have "hdevs_ok ?t" "hdev_tab ?t k = hdev_tab s k"
    using c o(1) m by (auto simp: open_at_def hdevs_ok_def hdev_tab_def refreshed_def)
  moreover have "next_free ?t"
    using o(2) m hv hk by (auto simp: next_free_def unlinked_def refreshed_def)
  ultimately show ?thesis
    using o m hk len d unfolding ready_def by (auto simp: open_at_def refreshed_def)
qed

text \<open>What the device kept with the handle becomes, and where its current configuration is.\<close>

definition with_desc :: "usbi_device \<Rightarrow> spec_device \<Rightarrow> nat \<Rightarrow> usbi_device" where
  "with_desc d v l = d\<lparr>dv_desc := repr_device v l\<rparr>"

lemma with_desc_simps [simp]:
  "dv_cur_config_index (with_desc d v l) = dv_cur_config_index d" "dv_ops (with_desc d v l) = dv_ops d"
  "dv_bus (with_desc d v l) = dv_bus d" "dv_desc (with_desc d v l) = repr_device v l"
  by (simp_all add: with_desc_def)

lemma fetch_refreshed:
  assumes "ready k p h d b s" "\<forall>n. av n" "\<forall>n. mem n" "answering B p d b (device_desc_bytes v)"
    and "wf_device v" "fits (ctrl_limit b) v" "length (lo_buf lo) = 8" "length (lo_devbuf lo) = 19"
    and "usbi_destroy_configuration (dv_desc d) \<noteq> None"
  shows "\<exists>m l. l_next s \<le> m \<and>
     fetch_descriptors av mem B be others j lo p s = Some (0, refreshed p h (with_desc d v l) m s) \<and>
     ready k p h (with_desc d v l) b (refreshed p h (with_desc d v l) m s)"
proof -
  obtain d0 where d0: "usbi_destroy_configuration (dv_desc d) = Some d0" using assms(9) by blast
  obtain m where m: "l_next s \<le> m" "fetch_descriptors av mem B be others j lo p s = Some (0, s\<lparr>l_next := m,
     l_dev := (l_dev s)(hv_idev h \<mapsto> d\<lparr>dv_desc := repr_device v (rw_len (ds_device_raw d0))\<rparr>)\<rparr>)"
    using fetch_descriptors_run [OF assms(1-8) d0] by blast
  have "l_hdev s p = Some h" using assms(1) by (simp add: ready_def open_at_def)
  then have "(l_hdev s)(p \<mapsto> h) = l_hdev s" by auto
  then have "refreshed p h (with_desc d v (rw_len (ds_device_raw d0))) m s = s\<lparr>l_next := m,
     l_dev := (l_dev s)(hv_idev h \<mapsto> d\<lparr>dv_desc := repr_device v (rw_len (ds_device_raw d0))\<rparr>)\<rparr>"
    by (simp add: refreshed_def with_desc_def)
  moreover have "ready k p h (with_desc d v (rw_len (ds_device_raw d0))) b
      (refreshed p h (with_desc d v (rw_len (ds_device_raw d0))) m s)"
    by (rule ready_refreshed [OF assms(1) m(1)]) (simp_all add: with_desc_def)
  ultimately show ?thesis using m by metis
qed

lemma cur_config_repr:
  assumes "dv_cur_config_index d = int i" "i < length (sv_configs v)"
    and "l_hdev t p = Some h" "l_dev t (hv_idev h) = Some (with_desc d v l)"
  shows "cur_config p t = Some (repr_config (sv_configs v ! i))"
  using assms by (simp add: cur_config_def repr_device_def pidx_def rd_def)

lemma claim_run:
  assumes rd: "ready k p h d b s" and f: "\<forall>n. av n" "\<forall>n. mem n" "answering B p d b (device_desc_bytes v)"
    "wf_device v" "fits (ctrl_limit b) v" "length (lo_buf lo) = 8" "length (lo_devbuf lo) = 19"
    "usbi_destroy_configuration (dv_desc d) \<noteq> None"
    and i: "dv_cur_config_index d = int i" "i < length (sv_configs v)"
    and claim: "\<And>t. do_claim_interface (B (dv_ops d)) p ifc flags t = Some (0, t)"
  shows "\<exists>m l. l_next s \<le> m \<and> openusb_claim_interface av mem B be others j lo k ifc flags s = Some
     (if unat ifc < length (sc_intfs (sv_configs v ! i))
      then (0, refreshed p (h\<lparr>hv_claimed_ifs := (hv_claimed_ifs h)[unat ifc := (USBI_IFC_CLAIMED, 0)]\<rparr>)
        (with_desc d v l) m s)
      else (OPENUSB_BADARG, if unat ifc > USBI_MAXINTERFACES then s else refreshed p h (with_desc d v l) m s))"
proof -
  obtain m l where m: "l_next s \<le> m" and fd: "fetch_descriptors av mem B be others j lo p s =
      Some (0, refreshed p h (with_desc d v l) m s)"
    using fetch_refreshed [OF rd f] by blast
  let ?t = "refreshed p h (with_desc d v l) m s"
  let ?c = "sv_configs v ! i"
  have o: "open_at k p h d b s" using rd by (simp add: ready_def)
  note od = open_atD [OF o]
  have hv: "l_hdev s p = Some h" "length (hv_claimed_ifs h) = USBI_MAXINTERFACES" using o by (simp_all add: open_at_def)
  have cc: "cur_config p (?t\<lparr>l_held := {LkHdev p}\<rparr>) = Some (repr_config ?c)"
    by (rule cur_config_repr [OF i, where l = l and h = h]) (simp_all add: refreshed_def)
  have "wf_config ?c" using f(4) i(2) by (simp add: wf_device_def list_all_length)
  then have n: "length (sc_intfs ?c) \<le> USBI_MAXINTERFACES" by (simp add: wf_config_def)
  have cf: "cf_num_interfaces (repr_config ?c) = length (sc_intfs ?c)" by (simp add: repr_config_def)
  have dops: "dev_ops B p ?t = Some (B (dv_ops d))" by (simp add: dev_ops_def)
  have held: "?t\<lparr>l_held := {}\<rparr> = ?t" using od(3) by (simp add: refreshed_def)
  note run = openusb_claim_interface_def od(1) od(2) fd lock_hdev_def unlock_hdev_def lock_def unlock_def od(3)
  show ?thesis
  proof (rule exI [of _ m], rule exI [of _ l], rule conjI [OF m])
    consider "unat ifc > USBI_MAXINTERFACES" | "unat ifc \<le> USBI_MAXINTERFACES" "length (sc_intfs ?c) \<le> unat ifc"
      | "unat ifc < length (sc_intfs ?c)" by linarith
    then show "openusb_claim_interface av mem B be others j lo k ifc flags s = Some
     (if unat ifc < length (sc_intfs ?c)
      then (0, refreshed p (h\<lparr>hv_claimed_ifs := (hv_claimed_ifs h)[unat ifc := (USBI_IFC_CLAIMED, 0)]\<rparr>)
        (with_desc d v l) m s)
      else (OPENUSB_BADARG, if unat ifc > USBI_MAXINTERFACES then s else ?t))"
    proof cases
      case 1
      then show ?thesis using n by (simp add: openusb_claim_interface_def)
    next
      case 2
      then show ?thesis by (simp add: run cc cf held)
    next
      case 3
      then show ?thesis using n hv
        by (simp add: run cc cf held dops claim set_claimed_def) (cases s, use od(3) in \<open>simp add: refreshed_def\<close>)
    qed
  qed
qed

lemma set_altsetting_run:
  assumes rd: "ready k p h d b s" and f: "\<forall>n. av n" "\<forall>n. mem n" "answering B p d b (device_desc_bytes v)"
    "wf_device v" "fits (ctrl_limit b) v" "length (lo_buf lo) = 8" "length (lo_devbuf lo) = 19"
    "usbi_destroy_configuration (dv_desc d) \<noteq> None"
    and i: "dv_cur_config_index d = int i" "i < length (sv_configs v)"
    and c: "unat ifc < length (sc_intfs (sv_configs v ! i))" "hv_claimed_ifs h ! unat ifc = (USBI_IFC_CLAIMED, cur)"
    and set: "\<And>t. do_set_altsetting (B (dv_ops d)) p ifc alt t = Some (ret, t)"
  shows "\<exists>m l. l_next s \<le> m \<and> openusb_set_altsetting av mem B be others j lo k ifc alt s = Some
     (if unat alt < length (sc_intfs (sv_configs v ! i) ! unat ifc) then if int (unat alt) = cur then 0 else ret
      else OPENUSB_BADARG, refreshed p h (with_desc d v l) m s)"
proof -
  obtain m l where m: "l_next s \<le> m" and fd: "fetch_descriptors av mem B be others j lo p s =
      Some (0, refreshed p h (with_desc d v l) m s)"
    using fetch_refreshed [OF rd f] by blast
  let ?t = "refreshed p h (with_desc d v l) m s"
  let ?c = "sv_configs v ! i"
  have o: "open_at k p h d b s" using rd by (simp add: ready_def)
  note od = open_atD [OF o]
  have hv: "l_hdev s p = Some h" "length (hv_claimed_ifs h) = USBI_MAXINTERFACES" using o by (simp_all add: open_at_def)
  have pc: "pidx (ds_configs (repr_device v l)) i = Some (repr_config ?c)"
    using i(2) by (simp add: repr_device_def pidx_def rd_def)
  have "wf_config ?c" using f(4) i(2) by (simp add: wf_device_def list_all_length)
  then have n: "length (sc_intfs ?c) \<le> USBI_MAXINTERFACES" by (simp add: wf_config_def)
  have cf: "cf_num_interfaces (repr_config ?c) = length (sc_intfs ?c)"
    "pidx (cf_interfaces (repr_config ?c)) (unat ifc) = Some (repr_intf (sc_intfs ?c ! unat ifc))"
    using c(1) by (simp_all add: repr_config_def pidx_def rd_def)
  have r: "rd (hv_claimed_ifs h) (unat ifc) = Some (USBI_IFC_CLAIMED, cur)" using c n hv(2) by (simp add: rd_def)
  have ia: "if_num_altsettings (repr_intf (sc_intfs ?c ! unat ifc)) = length (sc_intfs ?c ! unat ifc)"
    by (simp add: repr_intf_def)
  have dops: "dev_ops B p (?t\<lparr>l_held := {LkHdev p}\<rparr>) = Some (B (dv_ops d))" by (simp add: dev_ops_def refreshed_def)
  have held: "?t\<lparr>l_held := {}\<rparr> = ?t" "s\<lparr>l_held := {}\<rparr> = s" using od(3) by (simp_all add: refreshed_def)
  have bound: "unat ifc \<le> USBI_MAXINTERFACES" "unat ifc \<le> length (sc_intfs ?c)" using c(1) n by simp_all
  have "openusb_set_altsetting av mem B be others j lo k ifc alt s = Some
     (if unat alt < length (sc_intfs ?c ! unat ifc) then if int (unat alt) = cur then 0 else ret
      else OPENUSB_BADARG, ?t)"
    using bound
    by (simp add: openusb_set_altsetting_def od(1) od(2) od(3) fd hv(1) lock_hdev_def unlock_hdev_def lock_def
        unlock_def i(1) pc cf r ia dops set held Let_def)
  with m show ?thesis by blast
qed

lemma claimed_run:
  "ready k p h d b s \<Longrightarrow> unat ifc < USBI_MAXINTERFACES \<Longrightarrow> openusb_is_interface_claimed k ifc s =
     Some (if fst (hv_claimed_ifs h ! unat ifc) = USBI_IFC_CLAIMED then 1 else 0, s)"
  using open_atD [of k p h d b s]
  by (simp add: ready_def openusb_is_interface_claimed_def open_at_def rd_def lock_hdev_def
      unlock_hdev_def lock_def unlock_def held_same USBI_MAXINTERFACES_def)

text \<open>
  C13. Claiming an interface and choosing a setting, by what the device says. Take an open
  device whose backend has synchronous transfers and claims what it is asked to, and which
  answers GET_DESCRIPTOR with the encoding of a well-formed description. Then
  openusb_claim_interface reads the descriptors through openusb_ctrl_xfer, parses them, and
  accepts exactly the interfaces of the current configuration; afterwards the interface
  counts as claimed, with setting 0. openusb_set_altsetting then accepts exactly the
  settings of that interface: it passes a new one to the backend and returns its answer,
  and takes the present one as a success. All mutexes are unlocked afterwards.
\<close>

theorem interface_by_descriptors:
  assumes rd: "ready k p h d b s" and f: "\<forall>n. av n" "\<forall>n. mem n" "answering B p d b (device_desc_bytes v)"
    "wf_device v" "fits (ctrl_limit b) v" "length (lo_buf lo) = 8" "length (lo_devbuf lo) = 19"
    "usbi_destroy_configuration (dv_desc d) \<noteq> None"
    and i: "dv_cur_config_index d = int i" "i < length (sv_configs v)"
    and claim: "\<And>t. do_claim_interface (B (dv_ops d)) p ifc flags t = Some (0, t)"
    and set: "\<And>t. do_set_altsetting (B (dv_ops d)) p ifc alt t = Some (ret, t)"
  shows "\<exists>s1 s2. l_held s1 = {} \<and> l_held s2 = {} \<and>
     openusb_claim_interface av mem B be others j lo k ifc flags s =
       Some (if unat ifc < length (sc_intfs (sv_configs v ! i)) then 0 else OPENUSB_BADARG, s1) \<and>
     (unat ifc < length (sc_intfs (sv_configs v ! i)) \<longrightarrow>
       openusb_is_interface_claimed k ifc s1 = Some (1, s1) \<and>
       openusb_set_altsetting av mem B be others j lo k ifc alt s1 =
         Some (if unat alt < length (sc_intfs (sv_configs v ! i) ! unat ifc) then if alt = 0 then 0 else ret
               else OPENUSB_BADARG, s2))"
proof -
  let ?c = "sv_configs v ! i" and ?h = "h\<lparr>hv_claimed_ifs := (hv_claimed_ifs h)[unat ifc := (USBI_IFC_CLAIMED, 0)]\<rparr>"
  have o: "open_at k p h d b s" using rd by (simp add: ready_def)
  have he: "l_held s = {}" "length (hv_claimed_ifs h) = USBI_MAXINTERFACES"
    using open_atD(3) [OF o] o by (simp_all add: open_at_def)
  obtain m l where m: "l_next s \<le> m" and cl: "openusb_claim_interface av mem B be others j lo k ifc flags s = Some
     (if unat ifc < length (sc_intfs ?c) then (0, refreshed p ?h (with_desc d v l) m s)
      else (OPENUSB_BADARG, if unat ifc > USBI_MAXINTERFACES then s else refreshed p h (with_desc d v l) m s))"
    using claim_run [OF rd f i claim] by blast
  show ?thesis
  proof (cases "unat ifc < length (sc_intfs ?c)")
    case True
    let ?s1 = "refreshed p ?h (with_desc d v l) m s"
    have "wf_config ?c" using f(4) i(2) by (simp add: wf_device_def list_all_length)
    then have n: "unat ifc < USBI_MAXINTERFACES" using True by (simp add: wf_config_def)
    have r1: "ready k p ?h (with_desc d v l) b ?s1"
      by (rule ready_refreshed [OF rd m, where cs = "(hv_claimed_ifs h)[unat ifc := (USBI_IFC_CLAIMED, 0)]"])
        (simp_all add: he with_desc_def)
    have B1: "answering B p (with_desc d v l) b (device_desc_bytes v)" using f(3) by (simp add: answering_def)
    obtain m2 l2 where "openusb_set_altsetting av mem B be others j lo k ifc alt ?s1 = Some
       (if unat alt < length (sc_intfs ?c ! unat ifc) then if int (unat alt) = 0 then 0 else ret
        else OPENUSB_BADARG, refreshed p ?h (with_desc (with_desc d v l) v l2) m2 ?s1)"
      using set_altsetting_run [where be = be and others = others and j = j, OF r1 f(1,2) B1 f(4-7) _ _ i(2) True, of 0 alt ret] i(1) n he set
      by (auto simp: destroy_repr_device)
    moreover have "int (unat alt) = 0 \<longleftrightarrow> alt = 0" using unat_eq_0 [of alt] by linarith
    ultimately obtain s2 where s2: "openusb_set_altsetting av mem B be others j lo k ifc alt ?s1 = Some
       (if unat alt < length (sc_intfs ?c ! unat ifc) then if alt = 0 then 0 else ret else OPENUSB_BADARG, s2)"
      "l_held s2 = {}" using he by simp
    have "openusb_is_interface_claimed k ifc ?s1 = Some (1, ?s1)" using claimed_run [OF r1 n] n he by simp
    then show ?thesis
      by - (rule exI [of _ ?s1], rule exI [of _ s2], use s2 True cl he in simp)
  next
    case False
    then show ?thesis using cl he by (cases "USBI_MAXINTERFACES < unat ifc") auto
  qed
qed

section \<open>A lock that is not released\<close>

text \<open>
  When the device has no current configuration (an index below 0), openusb_set_altsetting
  returns OPENUSB_PARSE_ERROR with hdev->lock held. The next lookup of the handle locks it
  again: every later call on the device hangs.
\<close>

theorem altsetting_keeps_lock:
  assumes "ready k p h d b s" "\<forall>n. av n" "\<forall>n. mem n" "answering B p d b (device_desc_bytes v)"
    and "wf_device v" "fits (ctrl_limit b) v" "length (lo_buf lo) = 8" "length (lo_devbuf lo) = 19"
    and "usbi_destroy_configuration (dv_desc d) \<noteq> None"
    and "dv_cur_config_index d < 0" "unat ifc \<le> USBI_MAXINTERFACES"
  shows "\<exists>s1. openusb_set_altsetting av mem B be others j lo k ifc alt s = Some (OPENUSB_PARSE_ERROR, s1) \<and>
     l_held s1 = {LkHdev p} \<and> usbi_find_dev_handle k s1 = None"
proof -
  obtain m l where fd: "fetch_descriptors av mem B be others j lo p s =
      Some (0, refreshed p h (with_desc d v l) m s)"
    and rd: "ready k p h (with_desc d v l) b (refreshed p h (with_desc d v l) m s)"
    using fetch_refreshed [OF assms(1-9)] by blast
  let ?t = "refreshed p h (with_desc d v l) m s"
  have o: "open_at k p h d b s" "open_at k p h (with_desc d v l) b ?t" using assms(1) rd by (simp_all add: ready_def)
  note od = open_atD [OF o(1)]
  have hv: "l_hdev s p = Some h" "s\<lparr>l_held := {}\<rparr> = s" using o(1) od(3) by (simp_all add: open_at_def)
  have run: "openusb_set_altsetting av mem B be others j lo k ifc alt s =
      Some (OPENUSB_PARSE_ERROR, ?t\<lparr>l_held := {LkHdev p}\<rparr>)"
    using assms(10,11)
    by (simp add: openusb_set_altsetting_def od fd hv lock_hdev_def unlock_hdev_def lock_def unlock_def Let_def)
  have w: "find_dev_handle_walk k ps u = None"
    if "find (\<lambda>q. hv_handle (the (l_hdev u q)) = k) ps = Some p" "\<forall>q \<in> set ps. l_hdev u q \<noteq> None"
      "l_held u = {LkDevHandles, LkHdev p}" for ps and u :: "'a lib_scheme"
  proof -
    have "{LkDevHandles, LkHdev a, LkHdev p} - {LkHdev a} = {LkDevHandles, LkHdev p}" if "a \<noteq> p" for a
      using that by auto
    then show ?thesis
      using that by (induction ps) (auto simp: lock_def unlock_def insert_commute held_same split: if_splits)
  qed
  have ok: "hdevs_ok ?t" "hdev_tab ?t k = Some p" using o(2) by (simp_all add: open_at_def)
  have "find_dev_handle_walk k (l_dev_handles ?t) (?t\<lparr>l_held := {LkDevHandles, LkHdev p}\<rparr>) = None"
  proof (rule w)
    show "find (\<lambda>q. hv_handle (the (l_hdev (?t\<lparr>l_held := {LkDevHandles, LkHdev p}\<rparr>) q)) = k) (l_dev_handles ?t) = Some p"
      using ok(2) by (simp add: hdev_tab_def table_get_def)
    show "\<forall>q \<in> set (l_dev_handles ?t). l_hdev (?t\<lparr>l_held := {LkDevHandles, LkHdev p}\<rparr>) q \<noteq> None"
      using ok(1) by (auto simp: hdevs_ok_def dest: table_ok_heap)
  qed simp
  then have "usbi_find_dev_handle k (?t\<lparr>l_held := {LkHdev p}\<rparr>) = None"
    using ok(1) by (auto simp: usbi_find_dev_handle_def hdevs_ok_def lock_def unlock_def insert_commute)
  with run show ?thesis by simp
qed

end
