(* ===== verification/IfcCases.thy ===== *)
theory IfcCases
  imports ReqCases ApiIfc
begin

text \<open>
  The theorems on interfaces on the instance of LibCases: the device handle 1 (at 10), whose
  backend has synchronous transfers and behaves as the device of DescCases.
\<close>

definition ex_answer_wait :: "addr \<Rightarrow> (lib, int) op" where
  "ex_answer_wait io s = do {
     x \<leftarrow> l_io s io;
     r \<leftarrow> l_req s (io_req x);
     (case rq_req r of
        Ctrl c \<Rightarrow> Some (0, s\<lparr>l_req := (l_req s)(io_req x \<mapsto> r\<lparr>rq_req := Ctrl (answer (device_desc_bytes ex_device)
          (ucast (drop_bit 8 (ct_wValue c))) (ucast (ct_wValue c)) c)\<rparr>)\<rparr>)
      | _ \<Rightarrow> Some (OPENUSB_IO_STALL, s))
   }"

definition ex_BA :: "nat \<Rightarrow> lib backend_ops" where
  "ex_BA n = ex_ops\<lparr>bo_io_pattern := PATTERN_SYNC, do_xfer_wait := (\<lambda>ty d io s. ex_answer_wait io s)\<rparr>"

lemma ex_answering: "answering ex_BA p d b (device_desc_bytes ex_device)"
  by (auto simp: answering_def ex_BA_def ex_answer_wait_def get_desc_request_def wValue_le16)

text \<open>The public transfer function on this backend keeps the contract of a pipe.\<close>

interpretation ex_pipe: ctrl_pipe "xfer_of (\<lambda>_. True) ex_BA False Some ex_junk 1" "device_desc_bytes ex_device"
    "ctrl_limit ex_bus64" "ready 1 10 ex_claimed (ex_dev 1) ex_bus64" later
  by (rule sync_pipe [OF _ ex_answering]) simp

lemma ex_ready_ready: "ready 1 10 ex_claimed (ex_dev 1) ex_bus64 ex_ready"
  using ex_open_at by (auto simp: ready_def next_free_def unlinked_def ex_hdl_def)

lemma ex_limit: "ctrl_limit ex_bus64 = 2 ^ 32"
  by (simp add: ctrl_limit_def ex_bus64_def USB_TYPE_CONTROL_def)

lemma ex_refetch: "usbi_destroy_configuration (dv_desc (ex_dev 1)) \<noteq> None" "length (lo_buf ex_locals) = 8"
  "length (lo_devbuf ex_locals) = 19" "fits (ctrl_limit ex_bus64) ex_device"
  using fits_max [OF wf_ex_device] ex_limit
  by (simp_all add: ex_dev_def usbi_destroy_configuration_def ex_locals_def zero_raw_def)

text \<open>Interface 0 of the device has two settings: 1 can be chosen.\<close>

theorem interface_by_descriptors_witness:
  "\<exists>s1 s2. openusb_claim_interface (\<lambda>_. True) (\<lambda>_. True) ex_BA False Some ex_junk ex_locals 1 0 0 ex_ready = Some (0, s1) \<and>
     openusb_set_altsetting (\<lambda>_. True) (\<lambda>_. True) ex_BA False Some ex_junk ex_locals 1 0 1 s1 = Some (0, s2) \<and>
     l_held s2 = {}"
proof -
  have "dv_cur_config_index (ex_dev 1) = int 0" "do_claim_interface (ex_BA n) p i f t = Some (0, t)"
    "do_set_altsetting (ex_BA n) p i a t = Some (0, t)" for n p i f a t
    by (simp_all add: ex_dev_def ex_BA_def ex_ops_def)
  moreover have "sv_configs ex_device = [ex_config]" "length (sc_intfs ex_config) = 1" "length (sc_intfs ex_config ! 0) = 2"
    by (simp_all add: ex_device_def ex_config_def)
  ultimately show ?thesis
    using interface_by_descriptors [OF ex_ready_ready, of "\<lambda>_. True" "\<lambda>_. True" ex_BA ex_device ex_locals 0 0 0 1 0
        False Some ex_junk] ex_answering wf_ex_device ex_refetch by auto
qed

theorem altsetting_keeps_lock_witness:
  "\<exists>s1. openusb_set_altsetting (\<lambda>_. True) (\<lambda>_. True) ex_BA False Some ex_junk ex_locals 1 0 1
       (ex_ready\<lparr>l_dev := [6 \<mapsto> (ex_dev 1)\<lparr>dv_cur_config_index := -1\<rparr>]\<rparr>) = Some (OPENUSB_PARSE_ERROR, s1) \<and>
     usbi_find_dev_handle 1 s1 = None"
proof -
  let ?s = "ex_ready\<lparr>l_dev := [6 \<mapsto> (ex_dev 1)\<lparr>dv_cur_config_index := -1\<rparr>]\<rparr>"
  let ?d = "(ex_dev 1)\<lparr>dv_cur_config_index := -1\<rparr>"
  have "ready 1 10 ex_claimed ?d ex_bus64 ?s"
    using ex_ready_ready
    by (auto simp: ready_def open_at_def hdevs_ok_def hdev_tab_def next_free_def unlinked_def ex_dev_def)
  moreover have "usbi_destroy_configuration (dv_desc ?d) \<noteq> None" using ex_refetch(1) by simp
  ultimately show ?thesis
    using altsetting_keeps_lock [of 1 10 ex_claimed ?d ex_bus64 ?s "\<lambda>_. True" "\<lambda>_. True" ex_BA ex_device ex_locals 0
        False Some ex_junk 1] ex_answering wf_ex_device ex_refetch by auto
qed

end
