(* ===== verification/Emulation.thy ===== *)
theory Emulation
  imports ApiIfc LinuxState
begin

text \<open>
  emulation.c: the interface of libusb 0.1 on top of the public functions. The structures of
  libusb 0.1 come from its own header; the records hold the members that the code touches.
  The state is the state of the library together with the globals of emulation.c and heaps
  for the structures it allocates. The chains usb_busses and devices, linked through next,
  are lists of addresses. Constants of the header of libusb 0.1 and strerror are parameters.
\<close>

section \<open>Data\<close>

record endpoint01 =
  e1_bLength :: u8
  e1_bDescriptorType :: u8
  e1_bEndpointAddress :: u8
  e1_bmAttributes :: u8
  e1_wMaxPacketSize :: u16
  e1_bInterval :: u8
  e1_bRefresh :: u8
  e1_bSynchAddress :: u8
  e1_extra :: "u8 list cptr"
  e1_extralen :: int

record altsetting01 =
  a1_bLength :: u8
  a1_bDescriptorType :: u8
  a1_bInterfaceNumber :: u8
  a1_bAlternateSetting :: u8
  a1_bNumEndpoints :: u8
  a1_bInterfaceClass :: u8
  a1_bInterfaceSubClass :: u8
  a1_bInterfaceProtocol :: u8
  a1_iInterface :: u8
  a1_endpoint :: "endpoint01 list cptr"
  a1_extra :: "u8 list cptr"
  a1_extralen :: int

record interface01 =
  i1_altsetting :: "altsetting01 list cptr"
  i1_num_altsetting :: int

record config01 =
  c1_bLength :: u8
  c1_bDescriptorType :: u8
  c1_wTotalLength :: u16
  c1_bNumInterfaces :: u8
  c1_bConfigurationValue :: u8
  c1_iConfiguration :: u8
  c1_bmAttributes :: u8
  c1_MaxPower :: u8
  c1_interface :: "interface01 list cptr"
  c1_extra :: "u8 list cptr"
  c1_extralen :: int

record usb_device01 =
  d1_filename :: string
  d1_bus :: addr
  d1_descriptor :: usb_device_desc
  d1_config :: "config01 list cptr"

text \<open>A bus: its chain of devices.\<close>

record usb_bus01 =
  b1_devices :: "addr list"

record usb_dev_handle_internal =
  ui_dev :: addr
  ui_devid :: u64
  ui_devh :: u64
  ui_config :: int
  ui_interface :: int
  ui_alt :: int

definition zero_endpoint01 :: endpoint01 where
  "zero_endpoint01 = \<lparr>e1_bLength = 0, e1_bDescriptorType = 0, e1_bEndpointAddress = 0, e1_bmAttributes = 0,
     e1_wMaxPacketSize = 0, e1_bInterval = 0, e1_bRefresh = 0, e1_bSynchAddress = 0, e1_extra = Null, e1_extralen = 0\<rparr>"

definition zero_altsetting01 :: altsetting01 where
  "zero_altsetting01 = \<lparr>a1_bLength = 0, a1_bDescriptorType = 0, a1_bInterfaceNumber = 0, a1_bAlternateSetting = 0,
     a1_bNumEndpoints = 0, a1_bInterfaceClass = 0, a1_bInterfaceSubClass = 0, a1_bInterfaceProtocol = 0,
     a1_iInterface = 0, a1_endpoint = Null, a1_extra = Null, a1_extralen = 0\<rparr>"

definition zero_interface01 :: interface01 where
  "zero_interface01 = \<lparr>i1_altsetting = Null, i1_num_altsetting = 0\<rparr>"

definition zero_config01 :: config01 where
  "zero_config01 = \<lparr>c1_bLength = 0, c1_bDescriptorType = 0, c1_wTotalLength = 0, c1_bNumInterfaces = 0,
     c1_bConfigurationValue = 0, c1_iConfiguration = 0, c1_bmAttributes = 0, c1_MaxPower = 0, c1_interface = Null,
     c1_extra = Null, c1_extralen = 0\<rparr>"

datatype usb_error_type = USB_ERROR_TYPE_NONE | USB_ERROR_TYPE_STRING | USB_ERROR_TYPE_ERRNO

record 's emu =
  em_lib :: 's
  em_handle :: u64
  em_busses :: "addr list"
  em_bus :: "addr \<rightharpoonup> usb_bus01"
  em_dev :: "addr \<rightharpoonup> usb_device01"
  em_hdl :: "addr \<rightharpoonup> usb_dev_handle_internal"
  em_error_type :: usb_error_type
  em_error_errno :: int
  em_error_string :: string

text \<open>What calloc is asked for; BYTES01 for the extra descriptors.\<close>

datatype kind01 = EP01 | ALT01 | IF01 | CFG01 | BYTES01

text \<open>The surroundings: those of the library and what comes from libusb 0.1 and libc.\<close>

record 's emu_env =
  ee_env :: env
  ee_calloc :: "kind01 \<Rightarrow> nat \<Rightarrow> bool"
  ee_memory :: "nat \<Rightarrow> bool"
  ee_backends :: "nat \<Rightarrow> 's backend_ops"
  ee_big_endian :: bool
  ee_others :: "'s \<Rightarrow> 's option"
  ee_junk :: junk
  ee_locals :: locals
  ee_device_desc :: usb_device_desc
  ee_tbuf :: "u8 list"
  ee_pipe :: int
  ee_recip_endpoint :: int
  ee_strerror :: "int \<Rightarrow> string"

definition lib_op :: "('s, 'r) op \<Rightarrow> ('s emu, 'r) op" where
  "lib_op f e = do { (r, s) \<leftarrow> f (em_lib e); Some (r, e\<lparr>em_lib := s\<rparr>) }"

definition lib_lock :: "lock \<Rightarrow> 'a lib_scheme emu \<Rightarrow> 'a lib_scheme emu option" where
  "lib_lock k e = do { s \<leftarrow> lock k (em_lib e); Some (e\<lparr>em_lib := s\<rparr>) }"

definition lib_unlock :: "lock \<Rightarrow> 'a lib_scheme emu \<Rightarrow> 'a lib_scheme emu option" where
  "lib_unlock k e = do { s \<leftarrow> unlock k (em_lib e); Some (e\<lparr>em_lib := s\<rparr>) }"

definition emu_fresh :: "(addr \<Rightarrow> bool) \<Rightarrow> 'a lib_scheme emu \<Rightarrow> addr \<times> 'a lib_scheme emu" where
  "emu_fresh av e = (let (p, s) = fresh av (em_lib e) in (p, e\<lparr>em_lib := s\<rparr>))"

section \<open>Errors\<close>

text \<open>vsnprintf leaves at most 1023 characters.\<close>

definition wr_error_str :: "int \<Rightarrow> string \<Rightarrow> 's emu \<Rightarrow> 's emu" where
  "wr_error_str x str e = e\<lparr>em_error_type := USB_ERROR_TYPE_STRING, em_error_errno := x,
     em_error_string := take 1023 str\<rparr>"

definition wr_error :: "int \<Rightarrow> 's emu \<Rightarrow> int \<times> 's emu" where
  "wr_error x e = (- x, e\<lparr>em_error_type := USB_ERROR_TYPE_ERRNO, em_error_errno := x\<rparr>)"

definition usb_strerror :: "(int \<Rightarrow> string) \<Rightarrow> 's emu \<Rightarrow> string" where
  "usb_strerror strerror e = (case em_error_type e of
     USB_ERROR_TYPE_NONE \<Rightarrow> ''No error''
   | USB_ERROR_TYPE_STRING \<Rightarrow> em_error_string e
   | USB_ERROR_TYPE_ERRNO \<Rightarrow> if em_error_errno e > 0 then strerror (em_error_errno e) else ''Unknown error'')"

text \<open>How nearly every function begins.\<close>

definition invalid_args :: "'s emu \<Rightarrow> 's emu" where
  "invalid_args = wr_error_str EINVAL ''Invalid arguments''"

section \<open>Starting\<close>

definition usb_init :: "'a lib_scheme emu_env \<Rightarrow> ('a lib_scheme emu, unit) op" where
  "usb_init v e = do {
     ((ret, h), e) \<leftarrow> lib_op (openusb_init (ee_env v) (ee_backends v) 0 False) e;
     (if ret < 0 then Some ((), wr_error_str ret ''usb_init fail'' e) else Some ((), e\<lparr>em_handle := h\<rparr>))
   }"

definition usb_fini :: "('a lib_scheme emu, unit) op" where
  "usb_fini e = Some ((), e)"

definition usb_set_debug :: "int \<Rightarrow> ('a lib_scheme emu, unit) op" where
  "usb_set_debug level e = lib_op (openusb_set_debug (em_handle e) (of_int level) 0 0) e"

definition usb_find_busses :: "'a lib_scheme emu_env \<Rightarrow> ('a lib_scheme emu, int) op" where
  "usb_find_busses v e =
     (if em_busses e \<noteq> [] then Some (0, e)
      else (let (p, e) = emu_fresh (en_alloc (ee_env v)) e in
        if p = 0 then Some (wr_error ENOMEM e)
        else Some (1, e\<lparr>em_bus := (em_bus e)(p \<mapsto> \<lparr>b1_devices = []\<rparr>), em_busses := [p]\<rparr>)))"

section \<open>Descriptors\<close>

text \<open>The loop over the endpoints from i; n are left, eps is the array.\<close>

fun ep01_loop :: "'s emu_env \<Rightarrow> usbi_altsetting \<Rightarrow> nat \<Rightarrow> nat \<Rightarrow> endpoint01 list \<Rightarrow> (int \<times> endpoint01 list) option" where
  "ep01_loop v alt 0 i eps = Some (0, eps)"
| "ep01_loop v alt (Suc n) i eps = do {
     ep10 \<leftarrow> pidx (as_endpoints alt) i;
     ep01 \<leftarrow> rd eps i;
     let d = ep_desc ep10;
     let ep01 = ep01\<lparr>e1_bLength := ed_bLength d, e1_bDescriptorType := ed_bDescriptorType d,
       e1_bEndpointAddress := ed_bEndpointAddress d, e1_bmAttributes := ed_bmAttributes d,
       e1_wMaxPacketSize := ucast (openusb_le32_to_cpu (ee_big_endian v) (ucast (ed_wMaxPacketSize d))),
       e1_bInterval := ed_bInterval d, e1_bRefresh := ed_bRefresh d, e1_bSynchAddress := ed_bSynchAddress d\<rparr>;
     (if ep_extra ep10 = Null then ep01_loop v alt n (i + 1) (eps[i := ep01])
      else if \<not> ee_calloc v BYTES01 (unat (ep_extralen ep10)) then Some (-1, eps[i := ep01])
      else do {
        bs \<leftarrow> deref (ep_extra ep10);
        x \<leftarrow> rdn bs 0 (unat (ep_extralen ep10));
        ep01_loop v alt n (i + 1) (eps[i := ep01\<lparr>e1_extra := Ptr x, e1_extralen := int (unat (ep_extralen ep10))\<rparr>])
      })
   }"

definition wr_parse_endpoint :: "'s emu_env \<Rightarrow> altsetting01 \<Rightarrow> usbi_altsetting \<Rightarrow> (int \<times> altsetting01) option" where
  "wr_parse_endpoint v ifdesc alt = (let num_eps = as_num_endpoints alt in
     if num_eps = 0 then Some (0, ifdesc)
     else if \<not> ee_calloc v EP01 num_eps then Some (-1, ifdesc\<lparr>a1_endpoint := Null\<rparr>)
     else do {
       (ret, eps) \<leftarrow> ep01_loop v alt num_eps 0 (replicate num_eps zero_endpoint01);
       Some (ret, ifdesc\<lparr>a1_endpoint := Ptr eps\<rparr>)
     })"

text \<open>The loop over the alternate settings; the array may be freed (Dangling).\<close>

fun alt01_loop :: "'s emu_env \<Rightarrow> usbi_interface \<Rightarrow> nat \<Rightarrow> nat \<Rightarrow> altsetting01 list \<Rightarrow>
    (int \<times> altsetting01 list cptr) option" where
  "alt01_loop v ifc10 0 i alts = Some (0, Ptr alts)"
| "alt01_loop v ifc10 (Suc n) i alts = do {
     alt \<leftarrow> pidx (if_altsettings ifc10) i;
     ifdesc \<leftarrow> rd alts i;
     let d = as_desc alt;
     let ifdesc = ifdesc\<lparr>a1_bLength := id_bLength d, a1_bDescriptorType := id_bDescriptorType d,
       a1_bInterfaceNumber := id_bInterfaceNumber d, a1_bAlternateSetting := id_bAlternateSetting d,
       a1_bNumEndpoints := id_bNumEndpoints d, a1_bInterfaceClass := id_bInterfaceClass d,
       a1_bInterfaceSubClass := id_bInterfaceSubClass d, a1_bInterfaceProtocol := id_bInterfaceProtocol d,
       a1_iInterface := id_iInterface d\<rparr>;
     (if as_extra alt \<noteq> Null \<and> \<not> ee_calloc v BYTES01 (as_extralen alt) then Some (-1, Ptr (alts[i := ifdesc]))
      else do {
        ifdesc \<leftarrow> (if as_extra alt = Null then Some ifdesc
          else do {
            bs \<leftarrow> deref (as_extra alt);
            x \<leftarrow> rdn bs 0 (as_extralen alt);
            Some (ifdesc\<lparr>a1_extra := Ptr x, a1_extralen := int (as_extralen alt)\<rparr>)
          });
        (ret, ifdesc) \<leftarrow> wr_parse_endpoint v ifdesc alt;
        (if ret \<noteq> 0 then Some (-1, Dangling)
         else alt01_loop v ifc10 n (i + 1) (alts[i := ifdesc]))
      })
   }"

definition wr_parse_interface :: "'s emu_env \<Rightarrow> interface01 \<Rightarrow> usbi_interface \<Rightarrow> (int \<times> interface01) option" where
  "wr_parse_interface v ifc01 ifc10 = (let num_alts = if_num_altsettings ifc10 in
     if \<not> ee_calloc v ALT01 num_alts then Some (-1, ifc01\<lparr>i1_altsetting := Null\<rparr>)
     else do {
       (ret, alts) \<leftarrow> alt01_loop v ifc10 num_alts 0 (replicate num_alts zero_altsetting01);
       Some (ret, ifc01\<lparr>i1_altsetting := alts, i1_num_altsetting := int num_alts\<rparr>)
     })"

fun if01_loop :: "'s emu_env \<Rightarrow> usbi_config \<Rightarrow> nat \<Rightarrow> nat \<Rightarrow> interface01 list \<Rightarrow> (int \<times> interface01 list cptr) option" where
  "if01_loop v config 0 j ifs = Some (0, Ptr ifs)"
| "if01_loop v config (Suc n) j ifs = do {
     ifc10 \<leftarrow> pidx (cf_interfaces config) j;
     ifc01 \<leftarrow> rd ifs j;
     (ret, ifc01) \<leftarrow> wr_parse_interface v ifc01 ifc10;
     (if ret \<noteq> 0 then Some (-1, Dangling) else if01_loop v config n (j + 1) (ifs[j := ifc01]))
   }"

text \<open>The loop over the configurations: the result and dev->config.\<close>

fun cfg01_loop :: "'s emu_env \<Rightarrow> usbi_descriptors \<Rightarrow> nat \<Rightarrow> nat \<Rightarrow> config01 list \<Rightarrow> (int \<times> config01 list cptr) option" where
  "cfg01_loop v desc 0 i cfgs = Some (0, Ptr cfgs)"
| "cfg01_loop v desc (Suc n) i cfgs = do {
     config \<leftarrow> pidx (ds_configs desc) i;
     pcfg \<leftarrow> rd cfgs i;
     let d = cf_desc config;
     let pcfg = pcfg\<lparr>c1_bLength := cd_bLength d, c1_bDescriptorType := cd_bDescriptorType d,
       c1_wTotalLength := ucast (openusb_le32_to_cpu (ee_big_endian v) (ucast (cd_wTotalLength d))),
       c1_bNumInterfaces := cd_bNumInterfaces d, c1_bConfigurationValue := cd_bConfigurationValue d,
       c1_iConfiguration := cd_iConfiguration d, c1_bmAttributes := cd_bmAttributes d, c1_MaxPower := cd_bMaxPower d\<rparr>;
     (if cf_extralen config \<noteq> 0 \<and> \<not> ee_calloc v BYTES01 (cf_extralen config) then Some (-1, Ptr (cfgs[i := pcfg]))
      else do {
        pcfg \<leftarrow> (if cf_extralen config = 0 then Some pcfg
          else do {
            bs \<leftarrow> deref (cf_extra config);
            x \<leftarrow> rdn bs 0 (cf_extralen config);
            Some (pcfg\<lparr>c1_extra := Ptr x, c1_extralen := int (cf_extralen config)\<rparr>)
          });
        let num_ifs = cf_num_interfaces config;
        (if num_ifs = 0 then Some (0, Ptr (cfgs[i := pcfg]))
         else if \<not> ee_calloc v IF01 num_ifs then Some (OPENUSB_NO_RESOURCES, Dangling)
         else do {
           (ret, ifs) \<leftarrow> if01_loop v config num_ifs 0 (replicate num_ifs zero_interface01);
           let pcfg = pcfg\<lparr>c1_interface := ifs\<rparr>;
           (if ret \<noteq> 0 then Some (-1, Ptr (cfgs[i := pcfg])) else cfg01_loop v desc n (i + 1) (cfgs[i := pcfg]))
         })
      })
   }"

definition wr_setup_dev_config :: "'a lib_scheme emu_env \<Rightarrow> addr \<Rightarrow> u64 \<Rightarrow> u64 \<Rightarrow> ('a lib_scheme emu, int) op" where
  "wr_setup_dev_config v dev devid devh e = do {
     (hdev, e) \<leftarrow> lib_op (usbi_find_dev_handle devh) e;
     (if hdev = 0 then Some (-1, e)
      else do {
        (ret, e) \<leftarrow> lib_op (fetch_descriptors (en_alloc (ee_env v)) (ee_memory v) (ee_backends v) (ee_big_endian v)
           (ee_others v) (ee_junk v) (ee_locals v) hdev) e;
        (if ret \<noteq> 0 then Some (-1, e)
         else do {
           (idev, e) \<leftarrow> lib_op (usbi_find_device_by_id devid) e;
           (if idev = 0 then Some (-1, e)
            else do {
              i \<leftarrow> l_dev (em_lib e) idev;
              d \<leftarrow> em_dev e dev;
              let desc = dv_desc i;
              let d = d\<lparr>d1_descriptor := ds_device desc\<rparr>;
              let num_configs = unat (dd_bNumConfigurations (ds_device desc));
              (if num_configs = 0 then Some (-1, e\<lparr>em_dev := (em_dev e)(dev \<mapsto> d\<lparr>d1_config := Null\<rparr>)\<rparr>)
               else if \<not> ee_calloc v CFG01 num_configs
                 then Some (OPENUSB_NO_RESOURCES, e\<lparr>em_dev := (em_dev e)(dev \<mapsto> d\<lparr>d1_config := Null\<rparr>)\<rparr>)
               else do {
                 (ret, cfgs) \<leftarrow> cfg01_loop v desc num_configs 0 (replicate num_configs zero_config01);
                 Some (ret, e\<lparr>em_dev := (em_dev e)(dev \<mapsto> d\<lparr>d1_config := cfgs\<rparr>)\<rparr>)
               })
            })
         })
      })
   }"

section \<open>Devices\<close>

text \<open>strncmp of PATH_MAX characters; PATH_MAX is 4096, the strings have no NUL inside.\<close>

definition same_path :: "string \<Rightarrow> string \<Rightarrow> bool" where
  "same_path a b \<longleftrightarrow> take 4096 a = take 4096 b"

text \<open>The loop over the buses: the device that is found, or 0. LkBuses is held.\<close>

fun find_device_walk :: "string \<Rightarrow> addr list \<Rightarrow> ('a lib_scheme, addr) op" where
  "find_device_walk path [] s = Some (0, s)"
| "find_device_walk path (ibus # bs) s = do {
     b \<leftarrow> l_bus s ibus;
     s \<leftarrow> lock (LkBusDevs ibus) s;
     idev \<leftarrow> list_find (\<lambda>i. same_path (dv_sys_path i) path) (l_dev s) (bs_devices b);
     s \<leftarrow> unlock (LkBusDevs ibus) s;
     (if idev \<noteq> 0 then Some (idev, s) else find_device_walk path bs s)
   }"

definition wr_find_device :: "addr \<Rightarrow> ('a lib_scheme emu, u64) op" where
  "wr_find_device dev e = do {
     e \<leftarrow> lib_lock LkBuses e;
     path \<leftarrow> map_option d1_filename (em_dev e dev);
     (idev, e) \<leftarrow> lib_op (find_device_walk path (l_buses (em_lib e))) e;
     devid \<leftarrow> (if idev \<noteq> 0 then map_option dv_devid (l_dev (em_lib e) idev) else Some (-1));
     e \<leftarrow> lib_unlock LkBuses e;
     Some (devid, e)
   }"

text \<open>devid is unsigned, so the test devid < 0 is never true. The result is the new structure or 0.\<close>

definition usb_open :: "'a lib_scheme emu_env \<Rightarrow> addr \<Rightarrow> ('a lib_scheme emu, addr) op" where
  "usb_open v dev e =
     (if dev = 0 then Some (0, wr_error_str EINVAL ''usb_open: invalid arguments'' e)
      else do {
        (devid, e) \<leftarrow> wr_find_device dev e;
        ((ret, h), e) \<leftarrow> lib_op (openusb_open_device (ee_env v) (ee_pipe v) (ee_backends v) (em_handle e) devid 0 False) e;
        (if ret \<noteq> 0 then Some (0, wr_error_str ret (''Fail to open device: '' @ openusb_strerror ret) e)
         else do {
           (ret, e) \<leftarrow> wr_setup_dev_config v dev devid h e;
           (if ret \<noteq> 0 then Some (0, e)
            else (let (p, e) = emu_fresh (en_alloc (ee_env v)) e in
              if p = 0 then do {
                let (_, e) = wr_error ENOMEM e;
                (_, e) \<leftarrow> lib_op (openusb_close_device (ee_backends v) h) e;
                Some (0, e)
              }
              else Some (p, e\<lparr>em_hdl := (em_hdl e)(p \<mapsto> \<lparr>ui_dev = dev, ui_devid = devid, ui_devh = h, ui_config = 0,
                ui_interface = 0, ui_alt = 0\<rparr>)\<rparr>)))
         })
      })"

definition usb_close :: "'a lib_scheme emu_env \<Rightarrow> addr \<Rightarrow> ('a lib_scheme emu, int) op" where
  "usb_close v dev e =
     (if dev = 0 then Some (-1, invalid_args e)
      else do {
        u \<leftarrow> em_hdl e dev;
        (ret, e) \<leftarrow> lib_op (openusb_close_device (ee_backends v) (ui_devh u)) e;
        let e = e\<lparr>em_hdl := (em_hdl e)(dev \<mapsto> u\<lparr>ui_devh := 0\<rparr>)\<rparr>;
        (if ret \<noteq> 0 then Some (ret, wr_error_str ret ''close_device fail'' e)
         else Some (0, e\<lparr>em_hdl := (em_hdl e)(dev := None)\<rparr>))
      })"

text \<open>
  The loop over the devices of ibus, whose lock is held; cnt devices were counted so far.
  Some None is the failure of calloc.
\<close>

fun create_walk :: "'a lib_scheme emu_env \<Rightarrow> addr \<Rightarrow> addr \<Rightarrow> int \<Rightarrow> addr list \<Rightarrow> ('a lib_scheme emu, int) op" where
  "create_walk v bus ibus cnt [] e = do { e \<leftarrow> lib_unlock (LkBus ibus) e; Some (cnt, e) }"
| "create_walk v bus ibus cnt (idev # idevs) e = do {
     i \<leftarrow> l_dev (em_lib e) idev;
     let (dev, e) = emu_fresh (en_alloc (ee_env v)) e;
     (if dev = 0 then do {
        e \<leftarrow> lib_unlock (LkBus ibus) (wr_error_str ENOMEM ''create_devices: No memory'' e);
        Some (-1, e)
      }
      else do {
        let e = e\<lparr>em_dev := (em_dev e)(dev \<mapsto> \<lparr>d1_filename = take 4096 (dv_sys_path i), d1_bus = bus,
          d1_descriptor = device_desc_of_mem (ee_big_endian v) (replicate 18 0), d1_config = Null\<rparr>)\<rparr>;
        e \<leftarrow> lib_unlock (LkBus ibus) e;
        (tmph, e) \<leftarrow> usb_open v dev e;
        e \<leftarrow> lib_lock (LkBus ibus) e;
        (if tmph = 0 then create_walk v bus ibus cnt idevs e
         else do {
           e \<leftarrow> lib_unlock (LkBus ibus) e;
           (_, e) \<leftarrow> usb_close v tmph e;
           e \<leftarrow> lib_lock (LkBus ibus) e;
           b \<leftarrow> em_bus e bus;
           let e = e\<lparr>em_bus := (em_bus e)(bus \<mapsto> b\<lparr>b1_devices := b1_devices b @ [dev]\<rparr>)\<rparr>;
           i \<leftarrow> l_dev (em_lib e) idev;
           create_walk v bus ibus (if dv_parent i \<noteq> 0 then cnt + 1 else cnt) idevs e
         })
      })
   }"

definition wr_create_devices :: "'a lib_scheme emu_env \<Rightarrow> addr \<Rightarrow> addr \<Rightarrow> ('a lib_scheme emu, int) op" where
  "wr_create_devices v bus ibus e = do {
     e \<leftarrow> lib_lock (LkBus ibus) e;
     b \<leftarrow> l_bus (em_lib e) ibus;
     create_walk v bus ibus 0 (bs_devices b) e
   }"

text \<open>The loop over the buses of the library for one bus; LkBuses is held. Inl is the return.\<close>

fun create_all :: "'a lib_scheme emu_env \<Rightarrow> addr \<Rightarrow> addr list \<Rightarrow> int \<Rightarrow> ('a lib_scheme emu, int + int) op" where
  "create_all v bus [] cnt e = Some (Inr cnt, e)"
| "create_all v bus (ibus # bs) cnt e = do {
     e \<leftarrow> lib_unlock LkBuses e;
     (ret, e) \<leftarrow> wr_create_devices v bus ibus e;
     e \<leftarrow> lib_lock LkBuses e;
     (if ret \<ge> 0 then create_all v bus bs (cnt + ret) e
      else do {
        e \<leftarrow> lib_unlock LkBuses (wr_error_str 1 ''wr_create_device error'' e);
        Some (Inl (-1), e)
      })
   }"

fun find_devices_walk :: "'a lib_scheme emu_env \<Rightarrow> addr list \<Rightarrow> int \<Rightarrow> ('a lib_scheme emu, int) op" where
  "find_devices_walk v [] cnt e = do { e \<leftarrow> lib_unlock LkBuses e; Some (cnt, e) }"
| "find_devices_walk v (bus # buses) cnt e = do {
     (r, e) \<leftarrow> create_all v bus (l_buses (em_lib e)) cnt e;
     (case r of Inl ret \<Rightarrow> Some (ret, e) | Inr cnt \<Rightarrow> find_devices_walk v buses cnt e)
   }"

definition usb_find_devices :: "'a lib_scheme emu_env \<Rightarrow> ('a lib_scheme emu, int) op" where
  "usb_find_devices v e = do { e \<leftarrow> lib_lock LkBuses e; find_devices_walk v (em_busses e) 0 e }"

definition usb_device :: "addr \<Rightarrow> ('s emu, addr) op" where
  "usb_device dev e =
     (if dev = 0 then Some (0, invalid_args e) else do { u \<leftarrow> em_hdl e dev; Some (ui_dev u, e) })"

definition usb_get_busses :: "'s emu \<Rightarrow> addr list" where
  "usb_get_busses e = em_busses e"

section \<open>Transfers\<close>

text \<open>
  bytes is NULL (None) or the buffer; the buffer comes back. An int that is passed to a
  parameter of another width is cut to it. transferred_bytes is read as an int.
\<close>

definition new_data :: "u8 list \<Rightarrow> int \<Rightarrow> int \<Rightarrow> data_request" where
  "new_data bytes len timeout = \<lparr>dr_payload = bytes, dr_length = of_int len, dr_timeout = of_int timeout,
     dr_flags = 0, dr_status = 0, dr_transferred = 0\<rparr>"

definition usb0_bulk_xfer :: "'a lib_scheme emu_env \<Rightarrow> addr \<Rightarrow> int \<Rightarrow> u8 list option \<Rightarrow> int \<Rightarrow> int \<Rightarrow>
    ('a lib_scheme emu, int \<times> u8 list option) op" where
  "usb0_bulk_xfer v dev ep bytes len timeout e =
     (if dev = 0 \<or> bytes = None \<or> len \<le> 0 then Some ((-1, bytes), invalid_args e)
      else do {
        u \<leftarrow> em_hdl e dev;
        ((ret, q), e) \<leftarrow> lib_op (openusb_bulk_xfer (en_alloc (ee_env v)) (ee_backends v) (ee_big_endian v) (ee_others v)
           (ee_junk v) (ui_devh u) (of_int (ui_interface u)) (of_int ep) (Some (new_data (the bytes) len timeout))) e;
        (case q of
           Some (Bulk b) \<Rightarrow> Some (if ret < 0 \<or> dr_status b \<noteq> 0
             then ((-1, Some (dr_payload b)), wr_error_str ret ''bulk transfer fail'' e)
             else ((sint (dr_transferred b), Some (dr_payload b)), e))
         | _ \<Rightarrow> None)
      })"

definition usb_bulk_write :: "'a lib_scheme emu_env \<Rightarrow> addr \<Rightarrow> int \<Rightarrow> u8 list option \<Rightarrow> int \<Rightarrow> int \<Rightarrow>
    ('a lib_scheme emu, int \<times> u8 list option) op" where
  "usb_bulk_write v dev ep bytes len timeout e = usb0_bulk_xfer v dev ep bytes len timeout e"

definition usb_bulk_read :: "'a lib_scheme emu_env \<Rightarrow> addr \<Rightarrow> int \<Rightarrow> u8 list option \<Rightarrow> int \<Rightarrow> int \<Rightarrow>
    ('a lib_scheme emu, int \<times> u8 list option) op" where
  "usb_bulk_read v dev ep bytes len timeout e = usb0_bulk_xfer v dev ep bytes len timeout e"

definition usb0_intr_xfer :: "'a lib_scheme emu_env \<Rightarrow> addr \<Rightarrow> int \<Rightarrow> u8 list option \<Rightarrow> int \<Rightarrow> int \<Rightarrow>
    ('a lib_scheme emu, int \<times> u8 list option) op" where
  "usb0_intr_xfer v dev ep bytes len timeout e =
     (if dev = 0 \<or> bytes = None \<or> len \<le> 0 then Some ((-1, bytes), invalid_args e)
      else do {
        u \<leftarrow> em_hdl e dev;
        ((ret, q), e) \<leftarrow> lib_op (openusb_intr_xfer (en_alloc (ee_env v)) (ee_backends v) (ee_big_endian v) (ee_others v)
           (ee_junk v) (ui_devh u) (of_int (ui_interface u)) (of_int ep) (Some (new_data (the bytes) len timeout))) e;
        (case q of
           Some (Intr b) \<Rightarrow> Some (if ret \<noteq> 0 \<or> dr_status b \<noteq> 0
             then ((-1, Some (dr_payload b)), wr_error_str ret ''interrupt transfer fail'' e)
             else ((sint (dr_transferred b), Some (dr_payload b)), e))
         | _ \<Rightarrow> None)
      })"

definition usb_interrupt_write :: "'a lib_scheme emu_env \<Rightarrow> addr \<Rightarrow> int \<Rightarrow> u8 list option \<Rightarrow> int \<Rightarrow> int \<Rightarrow>
    ('a lib_scheme emu, int \<times> u8 list option) op" where
  "usb_interrupt_write v dev ep bytes len timeout e = usb0_intr_xfer v dev ep bytes len timeout e"

definition usb_interrupt_read :: "'a lib_scheme emu_env \<Rightarrow> addr \<Rightarrow> int \<Rightarrow> u8 list option \<Rightarrow> int \<Rightarrow> int \<Rightarrow>
    ('a lib_scheme emu, int \<times> u8 list option) op" where
  "usb_interrupt_read v dev ep bytes len timeout e = usb0_intr_xfer v dev ep bytes len timeout e"

text \<open>A null buffer is passed on; here it is an object without bytes.\<close>

definition usb_control_msg :: "'a lib_scheme emu_env \<Rightarrow> addr \<Rightarrow> int \<Rightarrow> int \<Rightarrow> int \<Rightarrow> int \<Rightarrow> u8 list option \<Rightarrow>
    int \<Rightarrow> int \<Rightarrow> ('a lib_scheme emu, int \<times> u8 list option) op" where
  "usb_control_msg v dev requesttype request val index bytes len timeout e =
     (if dev = 0 \<or> len < 0 then Some ((-1, bytes), invalid_args e)
      else do {
        u \<leftarrow> em_hdl e dev;
        ((ret, q), e) \<leftarrow> lib_op (openusb_ctrl_xfer (en_alloc (ee_env v)) (ee_backends v) (ee_big_endian v) (ee_others v)
           (ee_junk v) (ui_devh u) 0 0 (Some \<lparr>ct_bmRequestType = of_int requesttype, ct_bRequest = of_int request,
             ct_wValue = of_int val, ct_wIndex = of_int index, ct_payload = (case bytes of None \<Rightarrow> [] | Some b \<Rightarrow> b),
             ct_length = of_int len, ct_timeout = of_int timeout, ct_status = 0, ct_transferred = 0\<rparr>)) e;
        (case q of
           Some (Ctrl c) \<Rightarrow> (let bytes = map_option (\<lambda>_. ct_payload c) bytes in Some
             (if ret < 0 \<or> ct_status c \<noteq> 0 then ((-1, bytes), wr_error_str ret ''control transfer fail'' e)
              else ((sint (ct_transferred c), bytes), e)))
         | _ \<Rightarrow> None)
      })"

section \<open>Configurations and interfaces\<close>

definition usb_set_configuration :: "'a lib_scheme emu_env \<Rightarrow> addr \<Rightarrow> int \<Rightarrow> ('a lib_scheme emu, int) op" where
  "usb_set_configuration v dev configuration e =
     (if dev = 0 then Some (-1, invalid_args e)
      else do {
        u \<leftarrow> em_hdl e dev;
        (ret, e) \<leftarrow> lib_op (openusb_set_configuration (ee_backends v) (ee_big_endian v) (ee_device_desc v) (ui_devh u)
           (of_int configuration)) e;
        (if ret = 0 then Some (0, e\<lparr>em_hdl := (em_hdl e)(dev \<mapsto> u\<lparr>ui_config := configuration\<rparr>)\<rparr>)
         else Some (ret, wr_error_str ret ''set_configuration fail'' e))
      })"

definition usb_claim_interface :: "'a lib_scheme emu_env \<Rightarrow> addr \<Rightarrow> int \<Rightarrow> ('a lib_scheme emu, int) op" where
  "usb_claim_interface v dev ifc e =
     (if dev = 0 then Some (-1, invalid_args e)
      else do {
        u \<leftarrow> em_hdl e dev;
        (ret, e) \<leftarrow> lib_op (openusb_claim_interface (en_alloc (ee_env v)) (ee_memory v) (ee_backends v) (ee_big_endian v)
           (ee_others v) (ee_junk v) (ee_locals v) (ui_devh u) (of_int ifc) 0) e;
        (if ret = 0 then Some (0, e\<lparr>em_hdl := (em_hdl e)(dev \<mapsto> u\<lparr>ui_interface := ifc\<rparr>)\<rparr>)
         else Some (ret, wr_error_str ret ''set_configuration fail'' e))
      })"

definition usb_release_interface :: "'a lib_scheme emu_env \<Rightarrow> addr \<Rightarrow> int \<Rightarrow> ('a lib_scheme emu, int) op" where
  "usb_release_interface v dev ifc e =
     (if dev = 0 then Some (-1, invalid_args e)
      else do {
        u \<leftarrow> em_hdl e dev;
        (ret, e) \<leftarrow> lib_op (openusb_release_interface (ee_backends v) (ui_devh u) (of_int ifc)) e;
        Some (ret, if ret \<noteq> 0 then wr_error_str ret ''release_interface fail'' e else e)
      })"

definition usb_set_altinterface :: "'a lib_scheme emu_env \<Rightarrow> addr \<Rightarrow> int \<Rightarrow> ('a lib_scheme emu, int) op" where
  "usb_set_altinterface v dev alternate e =
     (if dev = 0 then Some (-1, invalid_args e)
      else do {
        u \<leftarrow> em_hdl e dev;
        (ret, e) \<leftarrow> lib_op (openusb_set_altsetting (en_alloc (ee_env v)) (ee_memory v) (ee_backends v) (ee_big_endian v)
           (ee_others v) (ee_junk v) (ee_locals v) (ui_devh u) (of_int (ui_interface u)) (of_int alternate)) e;
        (if ret = 0 then Some (0, e\<lparr>em_hdl := (em_hdl e)(dev \<mapsto> u\<lparr>ui_alt := alternate\<rparr>)\<rparr>)
         else Some (ret, wr_error_str ret ''set_altinterface fail'' e))
      })"

definition usb_clear_halt :: "'a lib_scheme emu_env \<Rightarrow> addr \<Rightarrow> u32 \<Rightarrow> ('a lib_scheme emu, int) op" where
  "usb_clear_halt v dev ep e = do {
     ((ret, _), e) \<leftarrow> usb_control_msg v dev (ee_recip_endpoint v) 1 0 (sint ep) None 0 0 e;
     Some (ret, if ret \<noteq> 0 then wr_error_str ret ''clear_halt fail'' e else e)
   }"

definition usb_resetep :: "'a lib_scheme emu_env \<Rightarrow> addr \<Rightarrow> u32 \<Rightarrow> ('a lib_scheme emu, int) op" where
  "usb_resetep v dev ep e = usb_clear_halt v dev ep e"

definition usb_reset :: "'a lib_scheme emu_env \<Rightarrow> addr \<Rightarrow> ('a lib_scheme emu, int) op" where
  "usb_reset v dev e =
     (if dev = 0 then Some (-1, invalid_args e)
      else do {
        u \<leftarrow> em_hdl e dev;
        (ret, e) \<leftarrow> lib_op (openusb_reset (ee_backends v) (ui_devh u)) e;
        Some (ret, if ret \<noteq> 0 then wr_error_str ret ''reset fail'' e else e)
      })"

definition usb_get_string :: "'a lib_scheme emu_env \<Rightarrow> addr \<Rightarrow> int \<Rightarrow> int \<Rightarrow> u8 list option \<Rightarrow> nat \<Rightarrow>
    ('a lib_scheme emu, int \<times> u8 list) op" where
  "usb_get_string v dev index langid buf buflen e =
     (if dev = 0 then Some ((-1, case buf of None \<Rightarrow> [] | Some b \<Rightarrow> b), invalid_args e)
      else do {
        u \<leftarrow> em_hdl e dev;
        ((ret, buf), e) \<leftarrow> lib_op (usbi_get_string (en_alloc (ee_env v)) (ee_backends v) (ee_big_endian v) (ee_others v)
           (ee_junk v) (ui_devh u) index langid buf buflen) e;
        Some ((ret, buf), if ret \<noteq> 0 then wr_error_str ret ''get_string fail'' e else e)
      })"

definition usb_get_string_simple :: "'a lib_scheme emu_env \<Rightarrow> addr \<Rightarrow> int \<Rightarrow> u8 list option \<Rightarrow> nat \<Rightarrow>
    ('a lib_scheme emu, int \<times> u8 list) op" where
  "usb_get_string_simple v dev index buf buflen e =
     (if dev = 0 then Some ((OPENUSB_BADARG, case buf of None \<Rightarrow> [] | Some b \<Rightarrow> b), invalid_args e)
      else do {
        u \<leftarrow> em_hdl e dev;
        ((ret, buf), e) \<leftarrow> lib_op (usbi_get_string_simple (en_alloc (ee_env v)) (ee_backends v) (ee_big_endian v)
           (ee_others v) (ee_junk v) (ee_tbuf v) (ui_devh u) index buf buflen) e;
        Some ((ret, buf), if ret < 0 then wr_error_str ret ''get_string_simple fail'' e else e)
      })"

definition usb_get_descriptor_by_endpoint :: "'a lib_scheme emu_env \<Rightarrow> addr \<Rightarrow> int \<Rightarrow> u8 \<Rightarrow> u8 \<Rightarrow> u8 list option \<Rightarrow>
    int \<Rightarrow> ('a lib_scheme emu, int \<times> u8 list option) op" where
  "usb_get_descriptor_by_endpoint v dev ep ty index buf len e =
     (if buf = None \<or> len \<le> 0 then Some ((OPENUSB_BADARG, buf), invalid_args e)
      else do {
        ((ret, buf), e) \<leftarrow> usb_control_msg v dev (or ep (uint USB_ENDPOINT_IN)) (uint USB_REQ_GET_DESCRIPTOR)
           (uint ty * 256 + uint index) 0 buf len 1000 e;
        Some ((ret, buf), if ret \<noteq> 0 then wr_error_str ret ''get_descriptor_by_endpoint fail'' e else e)
      })"

definition usb_get_descriptor :: "'a lib_scheme emu_env \<Rightarrow> addr \<Rightarrow> u8 \<Rightarrow> u8 \<Rightarrow> u8 list option \<Rightarrow>
    int \<Rightarrow> ('a lib_scheme emu, int \<times> u8 list option) op" where
  "usb_get_descriptor v dev ty index buf len e =
     (if buf = None \<or> len \<le> 0 then Some ((OPENUSB_BADARG, buf), invalid_args e)
      else do {
        ((ret, buf), e) \<leftarrow> usb_control_msg v dev (uint USB_ENDPOINT_IN) (uint USB_REQ_GET_DESCRIPTOR)
           (uint ty * 256 + uint index) 0 buf len 1000 e;
        Some ((ret, buf), if ret \<noteq> 0 then wr_error_str ret ''get_descriptor_by_endpoint fail'' e else e)
      })"

section \<open>Kernel drivers\<close>

definition usb_get_driver_np :: "'a lib_scheme emu_env \<Rightarrow> addr \<Rightarrow> int \<Rightarrow> ('a lib_scheme emu, int \<times> string option) op" where
  "usb_get_driver_np v dev ifc e =
     (if dev = 0 then Some ((-1, None), invalid_args e)
      else do { u \<leftarrow> em_hdl e dev; lib_op (usbi_get_driver_np (ee_backends v) (ui_devh u) (of_int ifc)) e })"

definition usb_detach_kernel_driver_np :: "'a lib_scheme emu_env \<Rightarrow> addr \<Rightarrow> int \<Rightarrow> ('a lib_scheme emu, int) op" where
  "usb_detach_kernel_driver_np v dev ifc e =
     (if dev = 0 then Some (-1, invalid_args e)
      else do { u \<leftarrow> em_hdl e dev; lib_op (usbi_detach_kernel_driver_np (ee_backends v) (ui_devh u) (of_int ifc)) e })"

end
