(* ===== verification/EmuTree.thy ===== *)
theory EmuTree
  imports Emulation
begin

text \<open>
  What an application of libusb 0.1 finds: the configurations that usb_open leaves in the
  structure of the device, and the chain of devices of usb_find_devices.
\<close>

section \<open>The tree of libusb 0.1\<close>

text \<open>The byte order conversion is the one for 32 bits, applied to fields of 16 that are in host order.\<close>

definition conv16 :: "bool \<Rightarrow> u16 \<Rightarrow> u16" where
  "conv16 be w = (if be then 0 else w)"

lemma le32_of_16: "ucast (openusb_le32_to_cpu be (ucast w)) = conv16 be w"
proof (cases be)
  case True
  have "(ucast (le32 0 0 a b) :: u16) = 0" for a b
    unfolding le32_def by (rule bit_word_eqI) (auto simp: bit_or_iff bit_push_bit_iff bit_ucast_iff)
  moreover have "\<not> bit w (k + n)" if "16 \<le> k" for k n
    using bit_imp_le_length [of w "k + n"] that by auto
  then have "st32 True (ucast w :: u32) ! 0 = 0" "st32 True (ucast w :: u32) ! 1 = 0"
    by (auto simp: st32_def bit_ucast_iff bit_drop_bit_eq intro!: bit_word_eqI)
  ultimately show ?thesis using True by (simp add: openusb_le32_to_cpu_def conv16_def)
next
  case False
  have "(ucast (ucast w :: u32) :: u16) = w"
    by (rule bit_word_eqI) (auto simp: bit_ucast_iff dest: bit_imp_le_length)
  then show ?thesis using False by (simp add: openusb_le32_to_cpu_def conv16_def)
qed

definition ep01_of :: "bool \<Rightarrow> spec_ep \<Rightarrow> endpoint01" where
  "ep01_of be e = (let d = sp_desc e; x = concat (sp_extra e) in
     \<lparr>e1_bLength = ed_bLength d, e1_bDescriptorType = ed_bDescriptorType d, e1_bEndpointAddress = ed_bEndpointAddress d,
      e1_bmAttributes = ed_bmAttributes d, e1_wMaxPacketSize = conv16 be (ed_wMaxPacketSize d),
      e1_bInterval = ed_bInterval d, e1_bRefresh = ed_bRefresh d, e1_bSynchAddress = ed_bSynchAddress d,
      e1_extra = ptr_of x, e1_extralen = int (length x)\<rparr>)"

definition alt01_of :: "bool \<Rightarrow> spec_alt \<Rightarrow> altsetting01" where
  "alt01_of be a = (let d = sa_desc a; x = concat (sa_extra a) in
     \<lparr>a1_bLength = id_bLength d, a1_bDescriptorType = id_bDescriptorType d, a1_bInterfaceNumber = id_bInterfaceNumber d,
      a1_bAlternateSetting = id_bAlternateSetting d, a1_bNumEndpoints = id_bNumEndpoints d,
      a1_bInterfaceClass = id_bInterfaceClass d, a1_bInterfaceSubClass = id_bInterfaceSubClass d,
      a1_bInterfaceProtocol = id_bInterfaceProtocol d, a1_iInterface = id_iInterface d,
      a1_endpoint = (if sa_eps a = [] then Null else Ptr (map (ep01_of be) (sa_eps a))),
      a1_extra = ptr_of x, a1_extralen = int (length x)\<rparr>)"

definition if01_of :: "bool \<Rightarrow> spec_alt list \<Rightarrow> interface01" where
  "if01_of be as = \<lparr>i1_altsetting = Ptr (map (alt01_of be) as), i1_num_altsetting = int (length as)\<rparr>"

definition cfg01_of :: "bool \<Rightarrow> spec_config \<Rightarrow> config01" where
  "cfg01_of be c = (let d = sc_desc c; x = concat (sc_extra c) in
     \<lparr>c1_bLength = cd_bLength d, c1_bDescriptorType = cd_bDescriptorType d, c1_wTotalLength = conv16 be (cd_wTotalLength d),
      c1_bNumInterfaces = cd_bNumInterfaces d, c1_bConfigurationValue = cd_bConfigurationValue d,
      c1_iConfiguration = cd_iConfiguration d, c1_bmAttributes = cd_bmAttributes d, c1_MaxPower = cd_bMaxPower d,
      c1_interface = Ptr (map (if01_of be) (sc_intfs c)), c1_extra = ptr_of x, c1_extralen = int (length x)\<rparr>)"

section \<open>Filling an array\<close>

text \<open>An array of n + i elements of which the first i are filled.\<close>

lemma fill_nth: "i < length xs \<Longrightarrow> (map f (take i xs) @ replicate (Suc n) z) ! i = z"
  by (simp add: nth_append)

lemma fill_update:
  assumes "i < length xs" "x = f (xs ! i)"
  shows "(map f (take i xs) @ replicate (Suc n) z)[i := x] = map f (take (Suc i) xs) @ replicate n z"
  using assms by (simp add: list_update_append take_Suc_conv_app_nth)

lemma rdn_all: "n = length bs \<Longrightarrow> rdn bs 0 n = Some bs"
  by (simp add: rdn_def)

lemma length_concat_in: "x \<in> set xs \<Longrightarrow> length x \<le> length (concat xs)"
  by (induction xs) auto

section \<open>The loops\<close>

lemma ep01_loop_ok:
  assumes av: "\<And>k n. ee_calloc v k n" and alt: "as_endpoints alt = Ptr (map repr_ep es)"
    and short: "\<forall>e \<in> set es. length (concat (sp_extra e)) < 65536"
  shows "i + n = length es \<Longrightarrow> ep01_loop v alt n i (map (ep01_of (ee_big_endian v)) (take i es) @ replicate n zero_endpoint01) =
     Some (0, map (ep01_of (ee_big_endian v)) es)"
proof (induction n arbitrary: i)
  case (Suc n)
  let ?be = "ee_big_endian v" and ?arr = "map (ep01_of (ee_big_endian v)) (take i es) @ replicate (Suc n) zero_endpoint01"
  have i: "i < length es" using Suc.prems by simp
  obtain x where x: "concat (sp_extra (es ! i)) = x" by blast
  then have "length x < 65536" using short i by auto
  then have u: "unat (of_nat (length x) :: u16) = length x"
    by (simp add: unsigned_of_nat take_bit_nat_eq_self)
  have p: "pidx (as_endpoints alt) i = Some (repr_ep (es ! i))" using i by (simp add: alt pidx_def rd_def)
  have z: "rd ?arr i = Some zero_endpoint01" using fill_nth [OF i] i Suc.prems by (simp add: rd_def)
  have "ep01_loop v alt (Suc n) i ?arr = ep01_loop v alt n (i + 1) (?arr[i := ep01_of ?be (es ! i)])"
    using p z av u
    by (cases "x = []")
      (simp_all add: x repr_ep_def ptr_of_def ep01_of_def zero_endpoint01_def le32_of_16 rdn_all Let_def del: replicate_Suc)
  then show ?case using Suc.IH [of "i + 1"] Suc.prems by (simp add: fill_update [OF i refl] del: replicate_Suc)
qed simp

lemma parse_endpoint01_ok:
  assumes "\<And>k n. ee_calloc v k n" "\<forall>e \<in> set (sa_eps a). length (concat (sp_extra e)) < 65536" "a1_endpoint x = Null"
  shows "wr_parse_endpoint v x (repr_alt a) =
     Some (0, x\<lparr>a1_endpoint := (if sa_eps a = [] then Null else Ptr (map (ep01_of (ee_big_endian v)) (sa_eps a)))\<rparr>)"
  using ep01_loop_ok [OF assms(1) _ assms(2), of "repr_alt a" 0 "length (sa_eps a)"] assms(1,3)
  by (auto simp: wr_parse_endpoint_def repr_alt_def Let_def)

lemma alt01_loop_ok:
  assumes av: "\<And>k n. ee_calloc v k n" and ifc: "if_altsettings ifc = Ptr (map repr_alt as)"
    and short: "\<forall>a \<in> set as. \<forall>e \<in> set (sa_eps a). length (concat (sp_extra e)) < 65536"
  shows "i + n = length as \<Longrightarrow> alt01_loop v ifc n i (map (alt01_of (ee_big_endian v)) (take i as) @ replicate n zero_altsetting01) =
     Some (0, Ptr (map (alt01_of (ee_big_endian v)) as))"
proof (induction n arbitrary: i)
  case (Suc n)
  let ?be = "ee_big_endian v" and ?arr = "map (alt01_of (ee_big_endian v)) (take i as) @ replicate (Suc n) zero_altsetting01"
  have i: "i < length as" using Suc.prems by simp
  obtain x where x: "concat (sa_extra (as ! i)) = x" by blast
  have p: "pidx (if_altsettings ifc) i = Some (repr_alt (as ! i))" using i by (simp add: ifc pidx_def rd_def)
  have z: "rd ?arr i = Some zero_altsetting01" using fill_nth [OF i] i Suc.prems by (simp add: rd_def)
  have e: "wr_parse_endpoint v x (repr_alt (as ! i)) =
     Some (0, x\<lparr>a1_endpoint := (if sa_eps (as ! i) = [] then Null else Ptr (map (ep01_of ?be) (sa_eps (as ! i))))\<rparr>)"
    if "a1_endpoint x = Null" for x
    by (rule parse_endpoint01_ok [OF av _ that]) (use short i in auto)
  have f: "as_desc (repr_alt (as ! i)) = sa_desc (as ! i)" "as_extra (repr_alt (as ! i)) = ptr_of x"
    "as_extralen (repr_alt (as ! i)) = length x" by (simp_all add: repr_alt_def x)
  have "alt01_loop v ifc (Suc n) i ?arr = alt01_loop v ifc n (i + 1) (?arr[i := alt01_of ?be (as ! i)])"
    using p z av
    by (cases "x = []")
      (simp_all add: x f e ptr_of_def alt01_of_def zero_altsetting01_def rdn_all Let_def del: replicate_Suc)
  then show ?case using Suc.IH [of "i + 1"] Suc.prems by (simp add: fill_update [OF i refl] del: replicate_Suc)
qed simp

lemma parse_interface01_ok:
  assumes "\<And>k n. ee_calloc v k n" "\<forall>a \<in> set as. \<forall>e \<in> set (sa_eps a). length (concat (sp_extra e)) < 65536"
  shows "wr_parse_interface v x (repr_intf as) = Some (0, if01_of (ee_big_endian v) as)"
  using alt01_loop_ok [OF assms(1) _ assms(2), of "repr_intf as" 0 "length as"] assms(1)
  by (simp add: wr_parse_interface_def repr_intf_def if01_of_def Let_def)

lemma if01_loop_ok:
  assumes av: "\<And>k n. ee_calloc v k n" and c: "cf_interfaces c = Ptr (map repr_intf ifs)"
    and short: "\<forall>as \<in> set ifs. \<forall>a \<in> set as. \<forall>e \<in> set (sa_eps a). length (concat (sp_extra e)) < 65536"
  shows "i + n = length ifs \<Longrightarrow> if01_loop v c n i (map (if01_of (ee_big_endian v)) (take i ifs) @ replicate n zero_interface01) =
     Some (0, Ptr (map (if01_of (ee_big_endian v)) ifs))"
proof (induction n arbitrary: i)
  case (Suc n)
  let ?be = "ee_big_endian v" and ?arr = "map (if01_of (ee_big_endian v)) (take i ifs) @ replicate (Suc n) zero_interface01"
  have i: "i < length ifs" using Suc.prems by simp
  have p: "pidx (cf_interfaces c) i = Some (repr_intf (ifs ! i))" using i by (simp add: c pidx_def rd_def)
  have z: "rd ?arr i = Some zero_interface01" using fill_nth [OF i] i Suc.prems by (simp add: rd_def)
  have e: "wr_parse_interface v x (repr_intf (ifs ! i)) = Some (0, if01_of ?be (ifs ! i))" for x
    by (rule parse_interface01_ok [OF av]) (use short nth_mem [OF i] in blast)
  have "if01_loop v c (Suc n) i ?arr = if01_loop v c n (i + 1) (?arr[i := if01_of ?be (ifs ! i)])"
    using p z e by (simp del: replicate_Suc)
  then show ?case using Suc.IH [of "i + 1"] Suc.prems by (simp add: fill_update [OF i refl] del: replicate_Suc)
qed simp

definition short_extra :: "spec_config \<Rightarrow> bool" where
  "short_extra c \<longleftrightarrow> (\<forall>as \<in> set (sc_intfs c). \<forall>a \<in> set as. \<forall>e \<in> set (sa_eps a). length (concat (sp_extra e)) < 65536)"

lemma cfg01_loop_ok:
  assumes av: "\<And>k n. ee_calloc v k n" and c: "ds_configs desc = Ptr (map repr_config cs)"
    and cs: "\<forall>c \<in> set cs. short_extra c \<and> sc_intfs c \<noteq> []"
  shows "i + n = length cs \<Longrightarrow> cfg01_loop v desc n i (map (cfg01_of (ee_big_endian v)) (take i cs) @ replicate n zero_config01) =
     Some (0, Ptr (map (cfg01_of (ee_big_endian v)) cs))"
proof (induction n arbitrary: i)
  case (Suc n)
  let ?be = "ee_big_endian v" and ?arr = "map (cfg01_of (ee_big_endian v)) (take i cs) @ replicate (Suc n) zero_config01"
  let ?c = "cs ! i"
  have i: "i < length cs" using Suc.prems by simp
  obtain x where x: "concat (sc_extra ?c) = x" by blast
  have p: "pidx (ds_configs desc) i = Some (repr_config ?c)" using i by (simp add: c pidx_def rd_def)
  have z: "rd ?arr i = Some zero_config01" using fill_nth [OF i] i Suc.prems by (simp add: rd_def)
  have sc: "short_extra ?c" "sc_intfs ?c \<noteq> []" using cs nth_mem [OF i] by blast+
  have l: "if01_loop v (repr_config ?c) (length (sc_intfs ?c)) 0 (replicate (length (sc_intfs ?c)) zero_interface01) =
     Some (0, Ptr (map (if01_of ?be) (sc_intfs ?c)))"
    using if01_loop_ok [OF av, of "repr_config ?c" "sc_intfs ?c" 0 "length (sc_intfs ?c)"] sc(1)
    by (simp add: repr_config_def short_extra_def)
  have f: "cf_desc (repr_config ?c) = sc_desc ?c" "cf_extra (repr_config ?c) = ptr_of x"
    "cf_extralen (repr_config ?c) = length x" "cf_num_interfaces (repr_config ?c) = length (sc_intfs ?c)"
    by (simp_all add: repr_config_def x)
  have "cfg01_loop v desc (Suc n) i ?arr = cfg01_loop v desc n (i + 1) (?arr[i := cfg01_of ?be ?c])"
    using p z av l sc(2)
    by (cases "x = []")
      (simp_all add: x f ptr_of_def cfg01_of_def zero_config01_def rdn_all le32_of_16 Let_def del: replicate_Suc)
  then show ?case using Suc.IH [of "i + 1"] Suc.prems by (simp add: fill_update [OF i refl] del: replicate_Suc)
qed simp

text \<open>A well-formed configuration is short enough.\<close>

lemma length_map_concat:
  "y \<in> set ys \<Longrightarrow> length (concat (f y)) \<le> length (concat (concat (map f ys)))"
  by (induction ys) auto

lemma wf_short_extra:
  assumes "wf_config c"
  shows "short_extra c"
  unfolding short_extra_def
proof (intro ballI)
  fix as a e assume in_c: "as \<in> set (sc_intfs c)" "a \<in> set as" "e \<in> set (sa_eps a)"
  have "length (concat (sp_extra e)) \<le> length (concat (ep_descs e))" by (simp add: ep_descs_def)
  also have "\<dots> \<le> length (concat (eps_descs (sa_eps a)))"
    unfolding eps_descs_def by (rule length_map_concat [OF in_c(3)])
  also have "\<dots> \<le> length (concat (alt_descs a))" by (simp add: alt_descs_def)
  also have "\<dots> \<le> length (concat (intf_descs as))"
    unfolding intf_descs_def by (rule length_map_concat [OF in_c(2)])
  also have "\<dots> \<le> length (concat (concat (map intf_descs (sc_intfs c))))"
    by (rule length_map_concat [OF in_c(1)])
  also have "\<dots> \<le> length (enc_config c)" by (simp add: enc_config_def config_descs_def)
  also have "\<dots> < 65536" using wf_config_length(1) [OF assms] .
  finally show "length (concat (sp_extra e)) < 65536" .
qed

section \<open>Opening\<close>

lemma list_find_upd:
  "h i = Some x \<Longrightarrow> P x = P y \<Longrightarrow> list_find P (h(i \<mapsto> y)) ps = list_find P h ps"
  by (induction ps) (auto intro!: Option.bind_cong)

lemma find_device_refreshed:
  assumes "usbi_find_device_by_id k s = Some (i, s)" "hdevs_ok s" "l_dev s (hv_idev h) = Some d"
  shows "usbi_find_device_by_id k (refreshed p h (with_desc d v l) m s) = Some (i, refreshed p h (with_desc d v l) m s)"
proof -
  have s: "l_held s = {}" "l_inited s \<noteq> 0" using assms(2) by (simp_all add: hdevs_ok_def)
  then obtain q where q: "list_find (\<lambda>i. dv_devid i = k) (l_dev s) (l_devices s) = Some q"
    using assms(1) by (auto simp: usbi_find_device_by_id_def lock_def unlock_def split: bind_splits)
  then have "q = i" using assms(1) s by (simp add: usbi_find_device_by_id_def lock_def unlock_def)
  moreover have "list_find (\<lambda>i. dv_devid i = k) ((l_dev s)(hv_idev h \<mapsto> with_desc d v l)) (l_devices s) = Some q"
    using q list_find_upd [where h = "l_dev s" and P = "\<lambda>i. dv_devid i = k" and y = "with_desc d v l", OF assms(3)] by (simp add: with_desc_def)
  moreover have "(refreshed p h (with_desc d v l) m s)\<lparr>l_held := {}\<rparr> = refreshed p h (with_desc d v l) m s"
    using s by (simp add: refreshed_def)
  ultimately show ?thesis using s
    by (simp add: usbi_find_device_by_id_def lock_def unlock_def refreshed_def)
qed

lemma setup_dev_config_run:
  assumes rd: "ready k p h d b (em_lib e)" and B: "answering (ee_backends v) p d b (device_desc_bytes w)"
    and av: "\<forall>n. en_alloc (ee_env v) n" "\<forall>n. ee_memory v n" "\<And>k n. ee_calloc v k n"
    and w: "wf_device w" "fits (ctrl_limit b) w" "\<forall>c \<in> set (sv_configs w). sc_intfs c \<noteq> []"
    and lo: "length (lo_buf (ee_locals v)) = 8" "length (lo_devbuf (ee_locals v)) = 19"
    and d0: "usbi_destroy_configuration (dv_desc d) \<noteq> None"
    and i: "usbi_find_device_by_id devid (em_lib e) = Some (hv_idev h, em_lib e)" "hv_idev h \<noteq> 0"
    and dev: "em_dev e dev = Some x"
  shows "\<exists>s'. wr_setup_dev_config v dev devid k e = Some (0, e\<lparr>em_lib := s', em_dev := (em_dev e)(dev \<mapsto>
       x\<lparr>d1_descriptor := sv_desc w, d1_config := Ptr (map (cfg01_of (ee_big_endian v)) (sv_configs w))\<rparr>)\<rparr>) \<and>
     (\<exists>l m. l_next (em_lib e) \<le> m \<and> s' = refreshed p h (with_desc d w l) m (em_lib e))"
proof -
  let ?s = "em_lib e"
  obtain m l where m: "l_next ?s \<le> m" and fd: "fetch_descriptors (en_alloc (ee_env v)) (ee_memory v) (ee_backends v)
      (ee_big_endian v) (ee_others v) (ee_junk v) (ee_locals v) p ?s = Some (0, refreshed p h (with_desc d w l) m ?s)"
    using fetch_refreshed [OF rd av(1,2) B w(1,2) lo d0] by blast
  let ?t = "refreshed p h (with_desc d w l) m ?s"
  have o: "open_at k p h d b ?s" using rd by (simp add: ready_def)
  have ok: "hdevs_ok ?s" "l_dev ?s (hv_idev h) = Some d" using o by (simp_all add: open_at_def)
  have f: "usbi_find_device_by_id devid ?t = Some (hv_idev h, ?t)"
    by (rule find_device_refreshed [OF i(1) ok])
  have n: "unat (dd_bNumConfigurations (sv_desc w)) = length (sv_configs w)" "sv_configs w \<noteq> []"
    using w(1) by (auto simp: wf_device_def)
  have "\<forall>c \<in> set (sv_configs w). short_extra c \<and> sc_intfs c \<noteq> []"
    using w(1,3) wf_short_extra by (auto simp: wf_device_def list_all_iff)
  then have c: "cfg01_loop v (repr_device w l) (length (sv_configs w)) 0 (replicate (length (sv_configs w)) zero_config01) =
      Some (0, Ptr (map (cfg01_of (ee_big_endian v)) (sv_configs w)))"
    using cfg01_loop_ok [OF av(3), of "repr_device w l" "sv_configs w" 0 "length (sv_configs w)"]
    by (simp add: repr_device_def)
  have r: "ds_device (repr_device w l) = sv_desc w" by (simp add: repr_device_def)
  have "wr_setup_dev_config v dev devid k e = Some (0, e\<lparr>em_lib := ?t, em_dev := (em_dev e)(dev \<mapsto>
       x\<lparr>d1_descriptor := sv_desc w, d1_config := Ptr (map (cfg01_of (ee_big_endian v)) (sv_configs w))\<rparr>)\<rparr>)"
    using open_atD(1,2) [OF o] fd f i(2) dev n c r av(3)
    by (simp add: wr_setup_dev_config_def lib_op_def Let_def)
  with m show ?thesis by blast
qed

text \<open>What usb_open finds: the surroundings of the device d at idev, not open yet.\<close>

definition unopened :: "addr \<Rightarrow> usbi_device \<Rightarrow> usbi_bus \<Rightarrow> addr \<Rightarrow> 'a lib_scheme \<Rightarrow> bool" where
  "unopened idev d b hdl s \<longleftrightarrow> hdevs_ok s \<and> l_cur_dev_handle s < l_cur_dev_handle s + 1 \<and> next_free s \<and>
     (\<forall>a \<ge> l_next s. l_req s a = None) \<and> l_dev s idev = Some d \<and> l_bus s (dv_bus d) = Some b \<and>
     length (bs_max_xfer_size b) = 5 \<and>
     (\<exists>x. l_hdl s hdl = Some x \<and> length (hd_timeout x) = 5 \<and> hd_debug_level x < 5)"

lemma opened_ready:
  assumes "unopened idev d b hdl s"
  shows "ready (l_cur_dev_handle s) (l_next s) ((new_hdev (l_cur_dev_handle s) hdl idev flags)\<lparr>hv_state := DEVICE_OPENED\<rparr>)
     d b (lib.more_update (\<lambda>_. x) (added_hdev hdl idev flags s))"
proof -
  let ?t = "lib.more_update (\<lambda>_. x) (added_hdev hdl idev flags s)"
  have s: "hdevs_ok s" "l_cur_dev_handle s < l_cur_dev_handle s + 1" "next_free s"
    using assms by (simp_all add: unopened_def)
  have "hdevs_ok ?t" "hdev_tab ?t (l_cur_dev_handle s) = Some (l_next s)"
    using added_hdev_ok [OF s(1,2)] by simp_all
  moreover have "next_free ?t"
    using s(3) by (auto simp: next_free_def unlinked_def added_hdev_def new_hdev_def)
  ultimately show ?thesis using assms
    by (auto simp: ready_def open_at_def unopened_def added_hdev_def new_hdev_def)
qed


section \<open>Finding devices\<close>

text \<open>Whatever usb_open and usb_close do, the buses of libusb 0.1 stay as they are.\<close>

lemma lib_op_bus: "lib_op f e = Some (r, e') \<Longrightarrow> em_bus e' = em_bus e \<and> em_busses e' = em_busses e"
  by (auto simp: lib_op_def split: bind_splits)

lemma lib_lock_bus: "lib_lock k e = Some e' \<Longrightarrow> em_bus e' = em_bus e \<and> em_busses e' = em_busses e"
  "lib_unlock k e = Some e' \<Longrightarrow> em_bus e' = em_bus e \<and> em_busses e' = em_busses e"
  by (auto simp: lib_lock_def lib_unlock_def split: bind_splits)

lemma emu_fresh_bus: "emu_fresh av e = (p, e') \<Longrightarrow> em_bus e' = em_bus e \<and> em_busses e' = em_busses e"
  by (auto simp: emu_fresh_def split: prod.splits)

lemma error_bus [simp]: "em_bus (wr_error_str x t e) = em_bus e" "em_busses (wr_error_str x t e) = em_busses e"
  "em_bus (invalid_args e) = em_bus e" "em_busses (invalid_args e) = em_busses e"
  "em_bus (snd (wr_error x e)) = em_bus e" "em_busses (snd (wr_error x e)) = em_busses e"
  by (simp_all add: wr_error_str_def wr_error_def invalid_args_def)

lemmas bus_frames = lib_op_bus lib_lock_bus emu_fresh_bus

lemma find_device_bus: "wr_find_device dev e = Some (i, e') \<Longrightarrow> em_bus e' = em_bus e \<and> em_busses e' = em_busses e"
  by (auto simp: wr_find_device_def split: bind_splits dest!: bus_frames)

lemma setup_bus: "wr_setup_dev_config v dev i k e = Some (r, e') \<Longrightarrow> em_bus e' = em_bus e \<and> em_busses e' = em_busses e"
  by (auto simp: wr_setup_dev_config_def Let_def split: bind_splits if_splits dest!: bus_frames)

lemma open_bus: "usb_open v dev e = Some (p, e') \<Longrightarrow> em_bus e' = em_bus e \<and> em_busses e' = em_busses e"
  by (auto simp: usb_open_def Let_def wr_error_def split: bind_splits if_splits prod.splits
      dest!: bus_frames find_device_bus setup_bus)

lemma close_bus: "usb_close v dev e = Some (r, e') \<Longrightarrow> em_bus e' = em_bus e \<and> em_busses e' = em_busses e"
  by (auto simp: usb_close_def Let_def split: bind_splits if_splits dest!: bus_frames)

definition chain :: "addr \<Rightarrow> 's emu \<Rightarrow> addr list" where
  "chain q e = (case em_bus e q of None \<Rightarrow> [] | Some b \<Rightarrow> b1_devices b)"

lemma create_walk_chain:
  "create_walk v q ibus cnt ids e = Some (n, e') \<Longrightarrow> -1 \<le> cnt \<Longrightarrow> \<exists>new. chain q e' = chain q e @ new \<and> n \<le> cnt + int (length new)"
proof (induction ids arbitrary: cnt e)
  case Nil
  then show ?case by (auto simp: chain_def split: bind_splits dest: lib_lock_bus)
next
  case (Cons i ids)
  have step: "\<exists>new. chain q e' = chain q e @ new \<and> n \<le> cnt + int (length new)"
    if r: "create_walk v q ibus c ids e2 = Some (n, e')" and b: "chain q e2 = chain q e @ xs" and c: "-1 \<le> c" "c \<le> cnt + int (length xs)"
    for e2 c xs
  proof -
    obtain new where "chain q e' = chain q e2 @ new" "n \<le> c + int (length new)" using Cons.IH [OF r c(1)] by blast
    then show ?thesis using b c by (intro exI [of _ "xs @ new"]) simp
  qed
  from Cons.prems(1) obtain d e1 dev where d: "l_dev (em_lib e) i = Some d" "emu_fresh (en_alloc (ee_env v)) e = (dev, e1)"
    by (auto split: bind_splits prod.splits)
  have c1: "chain q e1 = chain q e" using emu_fresh_bus [OF d(2)] by (simp add: chain_def)
  show ?case
  proof (cases "dev = 0")
    case True
    then show ?thesis using Cons.prems d c1
      by (auto simp: chain_def split: bind_splits dest!: lib_lock_bus)
  next
    case False
    let ?e = "e1\<lparr>em_dev := (em_dev e1)(dev \<mapsto> \<lparr>d1_filename = take 4096 (dv_sys_path d), d1_bus = q,
          d1_descriptor = device_desc_of_mem (ee_big_endian v) (replicate 18 0), d1_config = Null\<rparr>)\<rparr>"
    from Cons.prems(1) d False obtain e2 h e3 e4 where e: "lib_unlock (LkBus ibus) ?e = Some e2"
      "usb_open v dev e2 = Some (h, e3)" "lib_lock (LkBus ibus) e3 = Some e4"
      and r: "(if h = 0 then create_walk v q ibus cnt ids e4
         else do {
           e \<leftarrow> lib_unlock (LkBus ibus) e4;
           (_, e) \<leftarrow> usb_close v h e;
           e \<leftarrow> lib_lock (LkBus ibus) e;
           b \<leftarrow> em_bus e q;
           let e = e\<lparr>em_bus := (em_bus e)(q \<mapsto> b\<lparr>b1_devices := b1_devices b @ [dev]\<rparr>)\<rparr>;
           i \<leftarrow> l_dev (em_lib e) i;
           create_walk v q ibus (if dv_parent i \<noteq> 0 then cnt + 1 else cnt) ids e
         }) = Some (n, e')"
      by (auto split: bind_splits prod.splits)
    have c4: "chain q e4 = chain q e"
      using lib_lock_bus(2) [OF e(1)] open_bus [OF e(2)] lib_lock_bus(1) [OF e(3)] c1 by (simp add: chain_def)
    show ?thesis
    proof (cases "h = 0")
      case True
      then show ?thesis using step [of cnt e4 "[]"] r c4 Cons.prems(2) by simp
    next
      case False
      then obtain e5 k e6 e7 b and d' :: usbi_device where e': "lib_unlock (LkBus ibus) e4 = Some e5" "usb_close v h e5 = Some (k, e6)"
        "lib_lock (LkBus ibus) e6 = Some e7" "em_bus e7 q = Some b"
        and r': "create_walk v q ibus (if dv_parent d' \<noteq> 0 then cnt + 1 else cnt) ids
           (e7\<lparr>em_bus := (em_bus e7)(q \<mapsto> b\<lparr>b1_devices := b1_devices b @ [dev]\<rparr>)\<rparr>) = Some (n, e')"
        using r by (auto simp: Let_def split: bind_splits prod.splits)
      have "chain q e7 = chain q e"
        using lib_lock_bus(2) [OF e'(1)] close_bus [OF e'(2)] lib_lock_bus(1) [OF e'(3)] c4 by (simp add: chain_def)
      then show ?thesis using step [OF r', of "[dev]"] e'(4) Cons.prems(2) by (simp add: chain_def)
    qed
  qed
qed

lemma create_devices_chain:
  "wr_create_devices v q ibus e = Some (n, e') \<Longrightarrow> \<exists>new. chain q e' = chain q e @ new \<and> n \<le> int (length new)"
  by (auto simp: wr_create_devices_def chain_def split: bind_splits dest!: lib_lock_bus create_walk_chain)

lemma create_all_chain:
  "create_all v q bs cnt e = Some (Inr n, e') \<Longrightarrow> \<exists>new. chain q e' = chain q e @ new \<and> n \<le> cnt + int (length new)"
proof (induction bs arbitrary: cnt e)
  case (Cons ibus bs)
  from Cons.prems obtain e1 ret e2 e3 where e: "lib_unlock LkBuses e = Some e1" "wr_create_devices v q ibus e1 = Some (ret, e2)"
    "lib_lock LkBuses e2 = Some e3" and r: "create_all v q bs (cnt + ret) e3 = Some (Inr n, e')"
    by (auto split: bind_splits if_splits)
  obtain xs where xs: "chain q e2 = chain q e1 @ xs" "ret \<le> int (length xs)" using create_devices_chain [OF e(2)] by blast
  have "chain q e1 = chain q e" "chain q e3 = chain q e2"
    using lib_lock_bus(2) [OF e(1)] lib_lock_bus(1) [OF e(3)] by (simp_all add: chain_def)
  moreover obtain ys where "chain q e' = chain q e3 @ ys" "n \<le> cnt + ret + int (length ys)"
    using Cons.IH [OF r] by blast
  ultimately show ?case using xs by (intro exI [of _ "xs @ ys"]) simp
qed auto

text \<open>
  usb_find_devices only ever appends: a second call enters every device a second time. The
  result counts at most the devices it entered.
\<close>

lemma find_devices_appends:
  assumes "usb_find_devices v e = Some (n, e')" "em_busses e = [q]" "n \<noteq> -1"
  shows "\<exists>new. chain q e' = chain q e @ new \<and> n \<le> int (length new)"
proof -
  from assms obtain e1 where e1: "lib_lock LkBuses e = Some e1" "find_devices_walk v [q] 0 e1 = Some (n, e')"
    by (fastforce simp: usb_find_devices_def split: bind_splits dest: lib_lock_bus)
  then obtain r e2 where c: "create_all v q (l_buses (em_lib e1)) 0 e1 = Some (r, e2)" and
    r: "(case r of Inl ret \<Rightarrow> Some (ret, e2) | Inr cnt \<Rightarrow> find_devices_walk v [] cnt e2) = Some (n, e')"
    by (auto split: bind_splits)
  have inl: "create_all v q bs cnt x = Some (Inl k, y) \<Longrightarrow> k = -1" for bs cnt x k y
    by (induction bs arbitrary: cnt x) (auto split: bind_splits if_splits)
  obtain cnt where "r = Inr cnt" using r c inl assms(3) by (cases r) auto
  then show ?thesis using c r create_all_chain [of v q _ 0 e1 cnt e2] lib_lock_bus(1) [OF e1(1)]
    by (fastforce simp: chain_def split: bind_splits dest!: lib_lock_bus)
qed

end
