(* ===== verification/EmuCases.thy ===== *)
theory EmuCases
  imports IfcCases EmuTree
begin

text \<open>
  The theorems on the interface of libusb 0.1 on the instance of LibCases, with the answering
  backend of IfcCases: the device at 6 is open once already (at 10); the structure of the
  application for it is at 30.
\<close>

definition ex_v :: "lib emu_env" where
  "ex_v = \<lparr>ee_env = ex_env, ee_calloc = (\<lambda>k n. True), ee_memory = (\<lambda>n. True), ee_backends = ex_BA,
     ee_big_endian = False, ee_others = Some, ee_junk = ex_junk, ee_locals = ex_locals,
     ee_device_desc = sv_desc ex_device, ee_tbuf = replicate 256 0, ee_pipe = 0, ee_recip_endpoint = 2,
     ee_strerror = (\<lambda>n. '''')\<rparr>"

definition ex_dev01 :: usb_device01 where
  "ex_dev01 = \<lparr>d1_filename = '''', d1_bus = 31, d1_descriptor = sv_desc ex_device, d1_config = Null\<rparr>"

text \<open>The bus of the device lists it.\<close>

definition ex_lib01 :: lib where
  "ex_lib01 = ex_ready\<lparr>l_bus := [1 \<mapsto> ex_bus64\<lparr>bs_devices := [6]\<rparr>], l_next := 40\<rparr>"

definition ex_emu :: "lib emu" where
  "ex_emu = \<lparr>em_lib = ex_lib01, em_handle = 1, em_busses = [31], em_bus = [31 \<mapsto> \<lparr>b1_devices = [30]\<rparr>],
     em_dev = [30 \<mapsto> ex_dev01], em_hdl = Map.empty, em_error_type = USB_ERROR_TYPE_NONE, em_error_errno = 0,
     em_error_string = ''''\<rparr>"

lemma ex_lib01_fields [simp]:
  "l_held ex_lib01 = {}" "l_buses ex_lib01 = [1]" "l_bus ex_lib01 = [1 \<mapsto> ex_bus64\<lparr>bs_devices := [6]\<rparr>]"
  "l_dev ex_lib01 = [6 \<mapsto> ex_dev 1, 9 \<mapsto> ex_dev 0]" "l_next ex_lib01 = 40" "l_cur_dev_handle ex_lib01 = 2"
  "l_hdl ex_lib01 = [5 \<mapsto> ex_hdl]" "l_handles ex_lib01 = [5]" "l_devices ex_lib01 = [6]" "l_inited ex_lib01 = 2"
  by (simp_all add: ex_lib01_def ex_ready_def ex_open_def)

lemma ex_find01: "wr_find_device 30 ex_emu = Some (dv_devid (ex_dev 1), ex_emu)"
proof -
  have "em_lib ex_emu = ex_lib01" "em_dev ex_emu 30 = Some ex_dev01" "ex_emu\<lparr>em_lib := ex_lib01\<rparr> = ex_emu"
    "bs_devices (ex_bus64\<lparr>bs_devices := [6]\<rparr>) = [6]" "same_path (dv_sys_path (ex_dev 1)) (d1_filename ex_dev01)"
    by (simp_all add: ex_emu_def ex_dev_def ex_dev01_def same_path_def)
  moreover have "{LkBusDevs 1, LkBuses} - {LkBusDevs 1} = {LkBuses}" by auto
  ultimately show ?thesis
    by (simp add: wr_find_device_def lib_lock_def lib_unlock_def lib_op_def lock_def unlock_def held_same)
qed


end
