(* ===== verification/MultiReq.thy ===== *)
theory MultiReq
  imports ApiXfer EventThread
begin

text \<open>
  Requests of several transfers (api.c): openusb_start, its thread process_multi_request,
  the callback of the single transfers, openusb_add and openusb_stop.

  The record multi holds a library and, beside it, the structures of this part: the internal
  ones (usbi_multi_request, usbi_multi_req_args) and those of the application. A thread is the
  address it was given and a program counter with the locals that live on; one step is what it
  does while it holds mi_req->lock, or one call without it. So the lock is free between steps,
  and pthread_cond_wait is a step that looks at the flag again. The library records the
  requests whose callback is due in l_req_cbs; mu_called counts those that were run, and
  mu_multi holds the requests whose callback is multi_req_callback. mu_given and mu_reports
  are logs: the buffers that became requests, and the calls of the application.
\<close>

section \<open>Structures\<close>

record multi_data =
  md_payloads :: "u8 list list"
  md_lengths :: "u32 list"
  md_num_bufs :: u32
  md_rp :: u32
  md_timeout :: u32
  md_flags :: u32

text \<open>An isochronous one: its array of openusb_isoc_pkts, each a number and its packets.\<close>

record multi_isoc =
  mo_pkts :: "(u32 \<times> isoc_packet list) list"
  mo_num_pkts :: u32
  mo_flags :: u32
  mo_rp :: u32

datatype openusb_multi_request = MIntr multi_data | MBulk multi_data | MIsoc multi_isoc

record openusb_multi_request_handle =
  mh_dev :: u64
  mh_interface :: u8
  mh_endpoint :: u8
  mh_type :: int
  mh_req :: openusb_multi_request
  mh_cb :: bool

definition USBI_MREQ_NO_NEW_BUF :: int where "USBI_MREQ_NO_NEW_BUF = 0"
definition USBI_MREQ_NEW_BUF :: int where "USBI_MREQ_NEW_BUF = 1"
definition USBI_MREQ_STOPPED :: int where "USBI_MREQ_STOPPED = 2"

lemmas mreq_flags = USBI_MREQ_NO_NEW_BUF_def USBI_MREQ_NEW_BUF_def USBI_MREQ_STOPPED_def

record usbi_multi_request =
  mq_req_head :: "addr list"
  mq_mreq :: addr
  mq_flag :: int

record usbi_multi_req_args =
  ma_mi_req :: addr
  ma_idx :: u32
  ma_req :: addr

text \<open>Where a thread is: before a lock, before a call, or at its end.\<close>

datatype mpc =
    MStart
  | MLoop addr int
  | MSubmit addr int nat nat addr
  | MSubmitted addr int nat nat int
  | MWait addr int
  | MAbort addr addr
  | MAborted addr addr
  | MEnd int

record 's multi =
  mu_lib :: 's
  mu_mi :: "addr \<rightharpoonup> usbi_multi_request"
  mu_args :: "addr \<rightharpoonup> usbi_multi_req_args"
  mu_mreq :: "addr \<rightharpoonup> openusb_multi_request_handle"
  mu_threads :: "(addr \<times> mpc) list"
  mu_multi :: "addr set"
  mu_called :: nat
  mu_given :: "(addr \<times> u32) list"
  mu_reports :: "(addr \<times> addr \<times> u32 \<times> (int \<times> u32) list) list"

text \<open>The surroundings; me_create is what pthread_create returns, me_user what the application's
  callback returns.\<close>

record 's multi_env =
  me_alloc :: "addr \<Rightarrow> bool"
  me_backends :: "nat \<Rightarrow> 's backend_ops"
  me_big_endian :: bool
  me_create :: int
  me_others :: "'s \<Rightarrow> 's option"
  me_junk :: junk
  me_user :: "addr \<Rightarrow> u32 \<Rightarrow> (int \<times> u32) list \<Rightarrow> int"

definition in_lib :: "('s, 'r) op \<Rightarrow> ('s multi, 'r) op" where
  "in_lib f m = do { (r, s) \<leftarrow> f (mu_lib m); Some (r, m\<lparr>mu_lib := s\<rparr>) }"

definition multi_fresh :: "'a lib_scheme multi_env \<Rightarrow> 'a lib_scheme multi \<Rightarrow> addr \<times> 'a lib_scheme multi" where
  "multi_fresh v m = (let (p, s) = fresh (me_alloc v) (mu_lib m) in (p, m\<lparr>mu_lib := s\<rparr>))"

section \<open>The callback of a single transfer\<close>

text \<open>The results in the request that the type selects, as many as the length that was allocated.\<close>

definition copy_results :: "int \<Rightarrow> openusb_multi_request \<Rightarrow> u32 \<Rightarrow> openusb_request \<Rightarrow> (int \<times> u32) list option" where
  "copy_results ty mreq idx q =
     (if ty = USB_TYPE_BULK then (case q of Bulk d \<Rightarrow> Some [(dr_status d, dr_transferred d)] | _ \<Rightarrow> None)
      else if ty = USB_TYPE_INTERRUPT then (case q of Intr d \<Rightarrow> Some [(dr_status d, dr_transferred d)] | _ \<Rightarrow> None)
      else if ty = USB_TYPE_ISOCHRONOUS then
        (case mreq of MIsoc o' \<Rightarrow> do {
           (n, _) \<leftarrow> rd (mo_pkts o') (unat idx);
           (case q of Isoc i \<Rightarrow> rdn (is_results i) 0 (unat n) | _ \<Rightarrow> None) }
         | _ \<Rightarrow> None)
      else Some [])"

text \<open>list_del writes to the entries before and after, which must exist.\<close>

definition unlinkable :: "addr \<Rightarrow> addr list \<Rightarrow> 's multi \<Rightarrow> bool" where
  "unlinkable a ps m \<longleftrightarrow> (next_of a ps = 0 \<or> mu_args m (next_of a ps) \<noteq> None) \<and>
     (next_of a (rev ps) = 0 \<or> mu_args m (next_of a (rev ps)) \<noteq> None)"

definition multi_req_callback :: "'a lib_scheme multi_env \<Rightarrow> addr \<Rightarrow> ('a lib_scheme multi, int) op" where
  "multi_req_callback v req m = do {
     r \<leftarrow> l_req (mu_lib m) req;
     a \<leftarrow> mu_args m (rq_arg r);
     mi \<leftarrow> mu_mi m (ma_mi_req a);
     _ \<leftarrow> (if unlinkable (rq_arg r) (mq_req_head mi) m then Some () else None);
     let m = m\<lparr>mu_mi := (mu_mi m)(ma_mi_req a \<mapsto> mi\<lparr>mq_req_head := ls_del (rq_arg r) (mq_req_head mi)\<rparr>)\<rparr>;
     (if mq_mreq mi = 0 then Some (OPENUSB_INVALID_HANDLE, m)
      else do {
        h \<leftarrow> mu_mreq m (mq_mreq mi);
        let (result, m) = multi_fresh v m;
        (if result = 0 then Some (OPENUSB_NO_RESOURCES, m)
         else do {
           rs \<leftarrow> copy_results (mh_type h) (mh_req h) (ma_idx a) (rq_req r);
           let m = m\<lparr>mu_lib := (mu_lib m)\<lparr>l_req := (l_req (mu_lib m))(req := None)\<rparr>,
                     mu_args := (mu_args m)(rq_arg r := None)\<rparr>;
           Some (if mh_cb h
             then (me_user v (mq_mreq mi) (ma_idx a) rs,
               m\<lparr>mu_reports := mu_reports m @ [(ma_mi_req a, mq_mreq mi, ma_idx a, rs)]\<rparr>)
             else (0, m))
         })
      })
   }"

section \<open>The thread\<close>

text \<open>How many buffers there are, 0 for a type that has none.\<close>

definition req_num :: "int \<Rightarrow> openusb_multi_request \<Rightarrow> nat option" where
  "req_num ty q =
     (if ty = USB_TYPE_BULK then (case q of MBulk d \<Rightarrow> Some (unat (md_num_bufs d)) | _ \<Rightarrow> None)
      else if ty = USB_TYPE_INTERRUPT then (case q of MIntr d \<Rightarrow> Some (unat (md_num_bufs d)) | _ \<Rightarrow> None)
      else if ty = USB_TYPE_ISOCHRONOUS then (case q of MIsoc d \<Rightarrow> Some (unat (mo_num_pkts d)) | _ \<Rightarrow> None)
      else Some 0)"

definition data_part :: "multi_data \<Rightarrow> nat \<Rightarrow> data_request option" where
  "data_part d i = do {
     p \<leftarrow> rd (md_payloads d) i;
     n \<leftarrow> rd (md_lengths d) i;
     Some \<lparr>dr_payload = p, dr_length = n, dr_timeout = md_timeout d, dr_flags = md_flags d,
       dr_status = 0, dr_transferred = 0\<rparr>
   }"

text \<open>The request for buffer i. isoc_results stays NULL, as the memset leaves it.\<close>

definition req_part :: "int \<Rightarrow> openusb_multi_request \<Rightarrow> nat \<Rightarrow> openusb_request option" where
  "req_part ty q i =
     (if ty = USB_TYPE_BULK then (case q of MBulk d \<Rightarrow> map_option Bulk (data_part d i) | _ \<Rightarrow> None)
      else if ty = USB_TYPE_INTERRUPT then (case q of MIntr d \<Rightarrow> map_option Intr (data_part d i) | _ \<Rightarrow> None)
      else (case q of MIsoc d \<Rightarrow> do {
          (n, ps) \<leftarrow> rd (mo_pkts d) i;
          Some (Isoc \<lparr>is_num_packets = n, is_packets = ps, is_results = [], is_flags = mo_flags d, is_status = 0\<rparr>) }
        | _ \<Rightarrow> None))"

text \<open>rp++.\<close>

definition move_rp :: "openusb_multi_request \<Rightarrow> openusb_multi_request" where
  "move_rp q = (case q of MIntr d \<Rightarrow> MIntr (d\<lparr>md_rp := md_rp d + 1\<rparr>)
     | MBulk d \<Rightarrow> MBulk (d\<lparr>md_rp := md_rp d + 1\<rparr>) | MIsoc d \<Rightarrow> MIsoc (d\<lparr>mo_rp := mo_rp d + 1\<rparr>))"

text \<open>A request that was allocated and whose union is NULL: nothing reads the member.\<close>

definition null_request :: openusb_request where
  "null_request = Ctrl \<lparr>ct_bmRequestType = 0, ct_bRequest = 0, ct_wValue = 0, ct_wIndex = 0,
     ct_payload = [], ct_length = 0, ct_timeout = 0, ct_status = 0, ct_transferred = 0\<rparr>"

definition part_handle :: "openusb_multi_request_handle \<Rightarrow> addr \<Rightarrow> openusb_request \<Rightarrow> openusb_request_handle" where
  "part_handle h args q = \<lparr>rq_dev = mh_dev h, rq_interface = mh_interface h, rq_endpoint = mh_endpoint h,
     rq_type = mh_type h, rq_req = q, rq_cb = True, rq_arg = args\<rparr>"

text \<open>
  The body of the for loop from i up to the call of openusb_xfer_aio, or what follows the loop;
  the lock is held and released at the end.
\<close>

definition fill_request :: "'a lib_scheme multi_env \<Rightarrow> addr \<Rightarrow> addr \<Rightarrow> int \<Rightarrow> nat \<Rightarrow> nat \<Rightarrow> 'a lib_scheme multi \<Rightarrow>
    (mpc \<times> 'a lib_scheme multi) option" where
  "fill_request v mi mh ty n i m = do {
     x \<leftarrow> mu_mi m mi;
     (if n \<le> i then
        Some (MWait mh ty, m\<lparr>mu_mi := (mu_mi m)(mi \<mapsto> x\<lparr>mq_flag := USBI_MREQ_NO_NEW_BUF\<rparr>)\<rparr>)
      else do {
        let (req, m) = multi_fresh v m;
        (if req = 0 then Some (MEnd OPENUSB_NO_RESOURCES, m)
         else do {
           let (args, m) = multi_fresh v m;
           (if args = 0 then Some (MEnd OPENUSB_NO_RESOURCES, m)
            else do {
              h \<leftarrow> mu_mreq m mh;
              let m = m\<lparr>mu_args := (mu_args m)(args \<mapsto> \<lparr>ma_mi_req = mi, ma_idx = of_nat i, ma_req = req\<rparr>),
                 mu_mi := (mu_mi m)(mi \<mapsto> x\<lparr>mq_req_head := ls_add args (mq_req_head x)\<rparr>),
                 mu_multi := insert req (mu_multi m), mu_given := mu_given m @ [(mi, of_nat i)],
                 mu_lib := (mu_lib m)\<lparr>l_req := (l_req (mu_lib m))(req \<mapsto> part_handle h args null_request)\<rparr>\<rparr>;
              (if ty \<notin> {USB_TYPE_BULK, USB_TYPE_INTERRUPT, USB_TYPE_ISOCHRONOUS} then Some (MEnd OPENUSB_BADARG, m)
               else do {
                 let (part, m) = multi_fresh v m;
                 (if part = 0 then
                    Some (MEnd OPENUSB_NO_RESOURCES, if ty = USB_TYPE_ISOCHRONOUS
                      then m\<lparr>mu_lib := (mu_lib m)\<lparr>l_req := (l_req (mu_lib m))(req := None)\<rparr>\<rparr> else m)
                  else do {
                    q \<leftarrow> req_part ty (mh_req h) i;
                    let s = mu_lib m;
                    Some (MSubmit mh ty n i req,
                      m\<lparr>mu_lib := s\<lparr>l_req := (l_req s)(req \<mapsto> part_handle h args q)\<rparr>\<rparr>)
                  })
               })
            })
         })
      })
   }"

text \<open>The entry that a walk of list_for_each_entry_safe has in hand, with the next one; it ends at
  the head (0), with the lock held.\<close>

definition stop_walk :: "addr \<Rightarrow> addr \<Rightarrow> 'a lib_scheme multi \<Rightarrow> (mpc \<times> 'a lib_scheme multi) option" where
  "stop_walk mi pargs m = do {
     x \<leftarrow> mu_mi m mi;
     (if pargs = 0 then Some (MEnd 0, m\<lparr>mu_mi := (mu_mi m)(mi := None)\<rparr>)
      else do {
        _ \<leftarrow> mu_args m pargs;
        _ \<leftarrow> (if pargs \<in> set (mq_req_head x) then Some () else None);
        Some (MAbort pargs (next_of pargs (mq_req_head x)), m)
      })
   }"

fun thread_multi :: "'a lib_scheme multi_env \<Rightarrow> addr \<Rightarrow> mpc \<Rightarrow> 'a lib_scheme multi \<Rightarrow>
    (mpc \<times> 'a lib_scheme multi) option" where
  "thread_multi v mi MStart m =
     (if mi = 0 then Some (MEnd OPENUSB_BADARG, m)
      else do {
        x \<leftarrow> mu_mi m mi;
        h \<leftarrow> mu_mreq m (mq_mreq x);
        (hdev, m) \<leftarrow> in_lib (usbi_find_dev_handle (mh_dev h)) m;
        Some (if hdev = 0 then MEnd OPENUSB_BADARG else MLoop (mq_mreq x) (mh_type h), m)
      })"
| "thread_multi v mi (MLoop mh ty) m = do {
     h \<leftarrow> mu_mreq m mh;
     n \<leftarrow> req_num ty (mh_req h);
     fill_request v mi mh ty n 0 m
   }"
| "thread_multi v mi (MSubmit mh ty n i req) m = do {
     (ret, m) \<leftarrow> in_lib (openusb_xfer_aio (me_alloc v) (me_backends v) (me_big_endian v) (me_create v)
       (me_others v) (me_junk v) req) m;
     Some (MSubmitted mh ty n i ret, m)
   }"
| "thread_multi v mi (MSubmitted mh ty n i ret) m = do {
     _ \<leftarrow> mu_mi m mi;
     (if ty = USB_TYPE_INTERRUPT \<and> ret \<noteq> 0 then Some (MEnd ret, m)
      else do {
        h \<leftarrow> mu_mreq m mh;
        fill_request v mi mh ty n (i + 1) (m\<lparr>mu_mreq := (mu_mreq m)(mh \<mapsto> h\<lparr>mh_req := move_rp (mh_req h)\<rparr>)\<rparr>)
      })
   }"
| "thread_multi v mi (MWait mh ty) m = do {
     x \<leftarrow> mu_mi m mi;
     (if mq_flag x = USBI_MREQ_NO_NEW_BUF then Some (MWait mh ty, m)
      else if mq_flag x = USBI_MREQ_STOPPED then stop_walk mi (first_of (mq_req_head x)) m
      else Some (MLoop mh ty, m))
   }"
| "thread_multi v mi (MAbort pargs tmp) m = do {
     a \<leftarrow> mu_args m pargs;
     (_, m) \<leftarrow> in_lib (openusb_abort (me_backends v) (ma_req a)) m;
     Some (MAborted pargs tmp, m)
   }"
| "thread_multi v mi (MAborted pargs tmp) m = do {
     _ \<leftarrow> mu_mi m mi;
     a \<leftarrow> mu_args m pargs;
     _ \<leftarrow> l_req (mu_lib m) (ma_req a);
     stop_walk mi tmp (m\<lparr>mu_lib := (mu_lib m)\<lparr>l_req := (l_req (mu_lib m))(ma_req a := None)\<rparr>,
       mu_args := (mu_args m)(pargs := None)\<rparr>)
   }"
| "thread_multi v mi (MEnd ret) m = None"

section \<open>Starting, adding and stopping\<close>

text \<open>list_add writes to the last entry of the list, which must exist.\<close>

definition last_live :: "addr list \<Rightarrow> 's multi \<Rightarrow> bool" where
  "last_live ps m \<longleftrightarrow> (ps = [] \<or> mu_mi m (last ps) \<noteq> None)"

definition openusb_start :: "'a lib_scheme multi_env \<Rightarrow> addr \<Rightarrow> ('a lib_scheme multi, int) op" where
  "openusb_start v handle m =
     (if handle = 0 then Some (OPENUSB_BADARG, m)
      else do {
        h \<leftarrow> mu_mreq m handle;
        (hdev, m) \<leftarrow> in_lib (usbi_find_dev_handle (mh_dev h)) m;
        (if hdev = 0 then Some (OPENUSB_BADARG, m)
         else do {
           let (mi_req, m) = multi_fresh v m;
           (if mi_req = 0 then Some (OPENUSB_NO_RESOURCES, m)
            else do {
              let m = m\<lparr>mu_mi := (mu_mi m)(mi_req \<mapsto> \<lparr>mq_req_head = [], mq_mreq = 0, mq_flag = 0\<rparr>)\<rparr>;
              let (req, m) = multi_fresh v m;
              (if req = 0 then Some (OPENUSB_NO_RESOURCES, m)
               else do {
                 let m = m\<lparr>mu_lib := (mu_lib m)\<lparr>l_req := (l_req (mu_lib m))(req \<mapsto> \<lparr>rq_dev = mh_dev h,
                    rq_interface = mh_interface h, rq_endpoint = mh_endpoint h, rq_type = mh_type h,
                    rq_req = null_request, rq_cb = False, rq_arg = 0\<rparr>)\<rparr>\<rparr>;
                 (c, m) \<leftarrow> in_lib (check_req_valid (me_alloc v) (me_backends v) (me_big_endian v)
                    (me_others v) (me_junk v) req hdev) m;
                 let (ret, m) = (if c \<noteq> 0 then (-1, m\<lparr>mu_mi := (mu_mi m)(mi_req := None)\<rparr>) else (0, m));
                 let m = m\<lparr>mu_lib := (mu_lib m)\<lparr>l_req := (l_req (mu_lib m))(req := None)\<rparr>\<rparr>;
                 x \<leftarrow> mu_mi m mi_req;
                 let m = m\<lparr>mu_mi := (mu_mi m)(mi_req \<mapsto> x\<lparr>mq_mreq := handle\<rparr>),
                    mu_threads := (if me_create v = 0 then mu_threads m @ [(mi_req, MStart)] else mu_threads m)\<rparr>;
                 (_, m) \<leftarrow> in_lib (\<lambda>s. do { s \<leftarrow> lock_hdev hdev s; Some ((), s) }) m;
                 p \<leftarrow> l_hdev (mu_lib m) hdev;
                 (if \<not> last_live (hv_m_head p) m then None
                  else do {
                    (_, m) \<leftarrow> in_lib (\<lambda>s. do {
                       s \<leftarrow> unlock_hdev hdev (s\<lparr>l_hdev := (l_hdev s)(hdev \<mapsto> p\<lparr>hv_m_head := ls_add mi_req (hv_m_head p)\<rparr>)\<rparr>);
                       Some ((), s) }) m;
                    Some (ret, m)
                  })
               })
            })
         })
      })"

text \<open>
  The walk over m_head for the handle. At its end the cursor is the head itself, taken for an
  entry: what the code then locks is no mutex.
\<close>

fun find_multi :: "addr \<Rightarrow> addr list \<Rightarrow> 's multi \<Rightarrow> addr option" where
  "find_multi handle [] m = None"
| "find_multi handle (p # ps) m = do {
     x \<leftarrow> mu_mi m p;
     (if mq_mreq x = handle then Some p else find_multi handle ps m)
   }"

definition usbi_add_or_stop :: "addr \<Rightarrow> int \<Rightarrow> ('a lib_scheme multi, int) op" where
  "usbi_add_or_stop handle flag m =
     (if handle = 0 then Some (OPENUSB_BADARG, m)
      else do {
        h \<leftarrow> mu_mreq m handle;
        (hdev, m) \<leftarrow> in_lib (usbi_find_dev_handle (mh_dev h)) m;
        (if hdev = 0 then Some (OPENUSB_BADARG, m)
         else do {
           (_, m) \<leftarrow> in_lib (\<lambda>s. do { s \<leftarrow> lock_hdev hdev s; Some ((), s) }) m;
           p \<leftarrow> l_hdev (mu_lib m) hdev;
           mreq \<leftarrow> find_multi handle (hv_m_head p) m;
           (_, m) \<leftarrow> in_lib (\<lambda>s. do { s \<leftarrow> unlock_hdev hdev s; Some ((), s) }) m;
           x \<leftarrow> mu_mi m mreq;
           Some (0, m\<lparr>mu_mi := (mu_mi m)(mreq \<mapsto> x\<lparr>mq_flag := flag\<rparr>)\<rparr>)
         })
      })"

definition openusb_add :: "addr \<Rightarrow> ('a lib_scheme multi, int) op" where
  "openusb_add handle = usbi_add_or_stop handle USBI_MREQ_NEW_BUF"

definition openusb_stop :: "addr \<Rightarrow> ('a lib_scheme multi, int) op" where
  "openusb_stop handle = usbi_add_or_stop handle USBI_MREQ_STOPPED"

section \<open>The steps of the system\<close>

text \<open>
  What other threads do to the library, as far as the requests of this part go: these keep
  their argument, and addresses are not given out twice. The debug level stays low.
\<close>

definition low_debug :: "'a lib_scheme \<Rightarrow> bool" where
  "low_debug s \<longleftrightarrow> (\<forall>p hdl. l_hdl s p = Some hdl \<longrightarrow> hd_debug_level hdl < 5)"

definition kept :: "'a lib_scheme \<Rightarrow> 'a lib_scheme \<Rightarrow> bool" where
  "kept s t \<longleftrightarrow> l_next s \<le> l_next t \<and>
     (\<forall>p < l_next s. map_option rq_arg (l_req t p) = map_option rq_arg (l_req s p)) \<and>
     (low_debug s \<longrightarrow> low_debug t)"

datatype mlabel = MThread nat | MCallback | MElsewhere | MBuffers addr | MStarts addr | MAdds addr | MStops addr

text \<open>The application may change the buffers of a request when it likes.\<close>

inductive multi_step :: "'a lib_scheme multi_env \<Rightarrow> 'a lib_scheme multi \<Rightarrow> mlabel \<Rightarrow> 'a lib_scheme multi \<Rightarrow> bool"
  for v where
  multi_thread: "k < length (mu_threads m) \<Longrightarrow> mu_threads m ! k = (mi, pc) \<Longrightarrow>
    thread_multi v mi pc m = Some (pc', m') \<Longrightarrow>
    multi_step v m (MThread k) (m'\<lparr>mu_threads := (mu_threads m)[k := (mi, pc')]\<rparr>)"
| multi_callback: "mu_called m < length (l_req_cbs (mu_lib m)) \<Longrightarrow>
    req = l_req_cbs (mu_lib m) ! mu_called m \<Longrightarrow> req \<in> mu_multi m \<Longrightarrow>
    multi_req_callback v req (m\<lparr>mu_called := mu_called m + 1\<rparr>) = Some (ret, m') \<Longrightarrow>
    multi_step v m MCallback m'"
| multi_elsewhere: "kept (mu_lib m) s \<Longrightarrow> multi_step v m MElsewhere (m\<lparr>mu_lib := s\<rparr>)"
| multi_buffers: "mu_mreq m p = Some h \<Longrightarrow>
    multi_step v m (MBuffers p) (m\<lparr>mu_mreq := (mu_mreq m)(p \<mapsto> h\<lparr>mh_req := q\<rparr>)\<rparr>)"
| multi_starts: "openusb_start v p m = Some (ret, m') \<Longrightarrow> multi_step v m (MStarts p) m'"
| multi_adds: "openusb_add p m = Some (ret, m') \<Longrightarrow> multi_step v m (MAdds p) m'"
| multi_stops: "openusb_stop p m = Some (ret, m') \<Longrightarrow> multi_step v m (MStops p) m'"

inductive_cases multi_step_ThreadE: "multi_step v m (MThread k) m'"
inductive_cases multi_step_CallbackE: "multi_step v m MCallback m'"
inductive_simps multi_step_stops: "multi_step v m (MStops p) m'"
inductive_simps multi_step_elsewhere: "multi_step v m MElsewhere m'"

end
