(* ===== verification/MultiRun.thy ===== *)
theory MultiRun
  imports MultiReq
begin

text \<open>
  One turn of the thread of a multi-request that nobody disturbs: every buffer becomes a request
  of its own. Then what openusb_stop does and what it breaks.
\<close>

section \<open>A request that openusb_xfer_aio accepts\<close>

definition aio_io :: "addr \<Rightarrow> addr \<Rightarrow> u32 \<Rightarrow> 'a lib_scheme \<Rightarrow> usbi_io" where
  "aio_io p req t s = (new_io p req t s)\<lparr>io_async := True\<rparr>"

definition aio_state :: "addr \<Rightarrow> addr \<Rightarrow> u32 \<Rightarrow> 'a lib_scheme \<Rightarrow> 'a lib_scheme" where
  "aio_state p req t s = link_dev p (l_next s) (s\<lparr>l_next := l_next s + 1,
     l_io := (l_io s)(l_next s \<mapsto> aio_io p req t s)\<rparr>)"

text \<open>A backend that takes asynchronous requests for the device d and reports them later.\<close>

definition takes_aio :: "(nat \<Rightarrow> 'a lib_scheme backend_ops) \<Rightarrow> usbi_bus \<Rightarrow> usbi_device \<Rightarrow> addr \<Rightarrow> bool" where
  "takes_aio B b d p \<longleftrightarrow> bo_io_pattern (B (bs_ops b)) \<in> {PATTERN_ASYNC, PATTERN_BOTH} \<and>
     (\<forall>ty io t. do_xfer_aio (B (dv_ops d)) ty p io t = Some (0, t))"

lemma open_connected: "open_at k p h d b s \<Longrightarrow> connected p d b s"
  by (auto simp: open_at_def connected_def)

lemma open_at_timeout:
  assumes "open_at k p h d b s" "l_req s req = Some r" "req_ok r"
  shows "\<exists>t. usbi_get_xfer_timeout req p (s\<lparr>l_held := {LkHdev p}\<rparr>) = Some (t, s\<lparr>l_held := {LkHdev p}\<rparr>)"
proof -
  from assms(3) obtain t where t: "request_timeout (rq_type r) (rq_req r) = Some t"
    by (auto simp: req_ok_def request_timeout_def usb_types split: openusb_request.split_asm)
  have "nat (rq_type r) < 5" using req_ok_type [OF assms(3)] by (auto simp: usb_types)
  moreover obtain hdl where "l_hdev s p = Some h" "l_hdl s (hv_lib_hdl h) = Some hdl" "length (hd_timeout hdl) = 5"
    using assms(1) by (auto simp: open_at_def)
  moreover have "{LkHdl (hv_lib_hdl h), LkHdev p} - {LkHdl (hv_lib_hdl h)} = {LkHdev p}" by auto
  ultimately show ?thesis using assms(2) t
    by (cases "t = -1"; cases "t = 0") (simp_all add: usbi_get_xfer_timeout_def lock_def unlock_def rd_Some)
qed

lemma xfer_aio_run:
  assumes o: "open_at (rq_dev r) p h d b s" and r: "l_req s req = Some r" "req_ok r" "req \<noteq> 0"
    "unat (rq_interface r) \<noteq> 32" and ok: "permitted h r" "\<not> too_long r b"
    and B: "takes_aio B b d p" and av: "\<forall>n. av n"
  shows "\<exists>t. openusb_xfer_aio av B be create others j req s = Some (0, aio_state p req t s)"
proof -
  note od = open_atD [OF o]
  have lim: "rd (bs_max_xfer_size b) (nat (rq_type r)) = Some (bs_max_xfer_size b ! nat (rq_type r))"
    using type_range [OF r(2)] o by (simp add: open_at_def rd_def)
  have hv: "l_hdev s p = Some h" "0 < l_next s" using o by (auto simp: open_at_def hdevs_ok_def)
  obtain t where t: "usbi_get_xfer_timeout req p (s\<lparr>l_held := {LkHdev p}\<rparr>) = Some (t, s\<lparr>l_held := {LkHdev p}\<rparr>)"
    using open_at_timeout [OF o r(1,2)] by blast
  let ?s1 = "link_dev p (l_next s) (s\<lparr>l_next := l_next s + 1, l_io := (l_io s)(l_next s \<mapsto> new_io p req t s)\<rparr>)"
  have a: "usbi_alloc_io av p req t s = Some (l_next s, ?s1)"
    by (rule alloc_io_run) (use od(3) hv av in simp_all)
  let ?s2 = "?s1\<lparr>l_io := (l_io s)(l_next s \<mapsto> aio_io p req t s)\<rparr>"
  have c: "connected p d b ?s2" using connected_link [of p d b] open_connected [OF o] by simp
  have x: "l_held ?s2 = {}" "l_io ?s2 (l_next s) = Some (aio_io p req t s)" "io_dev (aio_io p req t s) = p"
    "io_req (aio_io p req t s) = req" "l_req ?s2 req = Some r"
    using od(3) r(1) by (simp_all add: aio_io_def link_dev_def)
  have sub: "usbi_async_submit B (l_next s) ?s2 = Some (0, ?s2)"
    using async_submit_run [OF x(1,2), of r d b B 0 ?s2] x r(2) od(2) c B by (simp add: takes_aio_def OPENUSB_SUCCESS_def)
  have as: "usbi_io_async create B (l_next s) ?s2 = Some (0, ?s2)"
    using io_async_run [OF x(1,2), of r d b create B] x r(2) od(2) c B sub by (simp add: takes_aio_def)
  obtain s1 s2 where d: "s1 = ?s1" "s2 = ?s2" by blast
  have e: "s1\<lparr>l_io := (l_io s1)(l_next s \<mapsto> new_io p req t s\<lparr>io_req := req, io_state := IO_INPROGRESS, io_async := True\<rparr>)\<rparr> = s2"
    by (simp add: d aio_io_def new_io_def link_dev_def)
  have l: "l_io s1 (l_next s) = Some (new_io p req t s)" by (simp add: d link_dev_def)
  note a = a [folded d] and as = as [folded d]
  have lk: "lock_hdev p s = Some (s\<lparr>l_held := {LkHdev p}\<rparr>)" "unlock_hdev p (s\<lparr>l_held := {LkHdev p}\<rparr>) = Some s"
    using od(3) hv(1) by (simp_all add: lock_hdev_def unlock_hdev_def lock_def unlock_def held_same)
  have chk: "check_req_valid av B be others j req p s = Some (0, s)"
    using check_req_run [OF o r(1,4)] ok(1) by simp
  have sz: "check_size (rq_type r) (rq_req r) (bs_max_xfer_size b ! nat (rq_type r)) = Some 0"
    using check_size_run [OF r(2), of b] ok(2) by simp
  have n: "\<not> rq_type r < 0" "l_next s \<noteq> 0" using type_range [OF r(2)] hv(2) by simp_all
  have "openusb_xfer_aio av B be create others j req s = Some (0, s2)"
    using n by (simp add: openusb_xfer_aio_def r(1,3) od lim sz chk lk t a l e as Let_def)
  moreover have "s2 = aio_state p req t s" by (simp add: d aio_state_def link_dev_def)
  ultimately show ?thesis by auto
qed

section \<open>One buffer\<close>

text \<open>The steps of a thread that nobody disturbs.\<close>

fun run_thread :: "'a lib_scheme multi_env \<Rightarrow> addr \<Rightarrow> nat \<Rightarrow> mpc \<times> 'a lib_scheme multi \<Rightarrow>
    (mpc \<times> 'a lib_scheme multi) option" where
  "run_thread v mi 0 c = Some c"
| "run_thread v mi (Suc n) c = do { c \<leftarrow> thread_multi v mi (fst c) (snd c); run_thread v mi n c }"

lemma run_thread_add:
  "run_thread v mi (k + n) c = do { c \<leftarrow> run_thread v mi k c; run_thread v mi n c }"
  by (induction k arbitrary: c) (auto split: bind_split)

text \<open>What the thread has done when it calls openusb_xfer_aio for buffer i.\<close>

definition filled :: "addr \<Rightarrow> usbi_multi_request \<Rightarrow> openusb_multi_request_handle \<Rightarrow> nat \<Rightarrow> openusb_request \<Rightarrow>
    'a lib_scheme multi \<Rightarrow> 'a lib_scheme multi" where
  "filled mi x h i q m = (let s = mu_lib m; r = l_next s; a = l_next s + 1 in
     m\<lparr>mu_args := (mu_args m)(a \<mapsto> \<lparr>ma_mi_req = mi, ma_idx = of_nat i, ma_req = r\<rparr>),
       mu_mi := (mu_mi m)(mi \<mapsto> x\<lparr>mq_req_head := mq_req_head x @ [a]\<rparr>),
       mu_multi := insert r (mu_multi m), mu_given := mu_given m @ [(mi, of_nat i)],
       mu_lib := s\<lparr>l_next := r + 3, l_req := (l_req s)(r \<mapsto> part_handle h a q)\<rparr>\<rparr>)"

lemma fill_run:
  assumes "mu_mi m mi = Some x" "mu_mreq m mh = Some h" "i < n" "\<forall>k. me_alloc v k" "0 < l_next (mu_lib m)"
    and "ty \<in> {USB_TYPE_BULK, USB_TYPE_INTERRUPT, USB_TYPE_ISOCHRONOUS}" "req_part ty (mh_req h) i = Some q"
  shows "fill_request v mi mh ty n i m = Some (MSubmit mh ty n i (l_next (mu_lib m)), filled mi x h i q m)"
  using assms by (simp add: fill_request_def multi_fresh_def fresh_def Let_def filled_def ls_add_def)

lemma fill_end: "mu_mi m mi = Some x \<Longrightarrow> fill_request v mi mh ty n n m =
    Some (MWait mh ty, m\<lparr>mu_mi := (mu_mi m)(mi \<mapsto> x\<lparr>mq_flag := USBI_MREQ_NO_NEW_BUF\<rparr>)\<rparr>)"
  by (simp add: fill_request_def)

lemma move_rp_part [simp]: "req_part ty (move_rp q) i = req_part ty q i" "req_num ty (move_rp q) = req_num ty q"
  by (auto simp: req_part_def req_num_def move_rp_def data_part_def split: openusb_multi_request.split)

lemma move_rps [simp]: "req_part ty ((move_rp ^^ k) q) i = req_part ty q i" "req_num ty ((move_rp ^^ k) q) = req_num ty q"
  by (induction k) simp_all

lemma part_handle_req [simp]: "part_handle (h\<lparr>mh_req := z\<rparr>) a q = part_handle h a q"
  by (simp add: part_handle_def)

lemma part_handle_fields [simp]:
  "rq_dev (part_handle h a q) = mh_dev h" "rq_interface (part_handle h a q) = mh_interface h"
  "rq_type (part_handle h a q) = mh_type h" "rq_req (part_handle h a q) = q" "rq_cb (part_handle h a q)"
  "rq_arg (part_handle h a q) = a"
  by (simp_all add: part_handle_def)

text \<open>A bulk or interrupt part has the member that its type names.\<close>

lemma part_ok:
  assumes "req_part (mh_type h) (mh_req h) i = Some q" "mh_type h \<in> {USB_TYPE_BULK, USB_TYPE_INTERRUPT}"
  shows "req_ok (part_handle h a q)"
  using assms by (auto simp: req_ok_def req_part_def part_handle_def usb_types split: openusb_multi_request.split_asm)

section \<open>One turn\<close>

text \<open>
  After i buffers of the handle h (at mh) since m0: as are the arguments on req_head, ios the
  structures on the list of the device handle.
\<close>

definition part_of :: "openusb_multi_request_handle \<Rightarrow> addr \<Rightarrow> nat \<Rightarrow> addr \<Rightarrow> addr \<Rightarrow> 'a lib_scheme multi \<Rightarrow> bool" where
  "part_of h mi i a io m \<longleftrightarrow> (\<exists>r q x. mu_args m a = Some \<lparr>ma_mi_req = mi, ma_idx = of_nat i, ma_req = r\<rparr> \<and>
     req_part (mh_type h) (mh_req h) i = Some q \<and> l_req (mu_lib m) r = Some (part_handle h a q) \<and>
     l_io (mu_lib m) io = Some x \<and> io_req x = r \<and> io_state x = IO_INPROGRESS \<and> io_async x \<and>
     a < l_next (mu_lib m) \<and> r < l_next (mu_lib m) \<and> io < l_next (mu_lib m) \<and> r \<in> mu_multi m)"

definition gone_on :: "addr \<Rightarrow> addr \<Rightarrow> openusb_multi_request_handle \<Rightarrow> addr \<Rightarrow> usbi_dev_handle \<Rightarrow> usbi_multi_request \<Rightarrow>
    'a lib_scheme multi \<Rightarrow> nat \<Rightarrow> addr list \<Rightarrow> addr list \<Rightarrow> 'a lib_scheme multi \<Rightarrow> bool" where
  "gone_on mi mh h p hv x m0 i as ios m \<longleftrightarrow> length as = i \<and> length ios = i \<and>
     mu_mi m mi = Some (x\<lparr>mq_req_head := mq_req_head x @ as\<rparr>) \<and>
     mu_mreq m mh = Some (h\<lparr>mh_req := (move_rp ^^ i) (mh_req h)\<rparr>) \<and>
     l_hdev (mu_lib m) p = Some (hv\<lparr>hv_io_head := hv_io_head hv @ ios\<rparr>) \<and>
     mu_given m = mu_given m0 @ map (\<lambda>j. (mi, of_nat j)) [0..<i] \<and> mu_reports m = mu_reports m0 \<and>
     (\<forall>j < i. part_of h mi j (as ! j) (ios ! j) m)"

lemma open_at_aio:
  assumes "open_at k p h d b s"
  shows "open_at k p (h\<lparr>hv_io_head := hv_io_head h @ [l_next s]\<rparr>) d b (aio_state p req t s)"
proof -
  let ?h = "h\<lparr>hv_io_head := hv_io_head h @ [l_next s]\<rparr>"
  let ?H = "(l_hdev s)(p \<mapsto> ?h)"
  have hd: "l_hdev s p = Some h" "hdevs_ok s" "hdev_tab s k = Some p" using assms by (simp_all add: open_at_def)
  have e: "l_hdev (aio_state p req t s) = ?H"
    "l_held (aio_state p req t s) = l_held s" "l_inited (aio_state p req t s) = l_inited s"
    "l_next (aio_state p req t s) = l_next s + 1" "l_dev (aio_state p req t s) = l_dev s"
    "l_bus (aio_state p req t s) = l_bus s" "l_hdl (aio_state p req t s) = l_hdl s"
    "l_cur_dev_handle (aio_state p req t s) = l_cur_dev_handle s"
    "l_dev_handles (aio_state p req t s) = l_dev_handles s"
    using hd(1) by (simp_all add: aio_state_def link_dev_def)
  have m: "hv_handle (the (?H q)) = hv_handle (the (l_hdev s q))" for q using hd(1) by simp
  have f: "find (\<lambda>q. hv_handle (the (?H q)) = k) ps = find (\<lambda>q. hv_handle (the (l_hdev s q)) = k) ps" for ps
    by (simp only: m)
  have g: "map (hv_handle \<circ> the \<circ> ?H) ps = map (hv_handle \<circ> the \<circ> l_hdev s) ps" for ps
    by (simp only: comp_def m)
  have "table_ok hv_handle (l_cur_dev_handle s) ?H (l_dev_handles s)"
    using hd(1,2) unfolding hdevs_ok_def table_ok_def g by auto
  then have "hdevs_ok (aio_state p req t s)" using hd(2) by (auto simp: hdevs_ok_def e)
  moreover have "hdev_tab (aio_state p req t s) k = Some p"
    using hd(3) by (simp only: hdev_tab_def table_get_def e f)
  ultimately show ?thesis using assms by (simp add: open_at_def e)
qed

text \<open>What the thread and the device need: nothing is refused.\<close>

definition multi_ready :: "'a lib_scheme multi_env \<Rightarrow> openusb_multi_request_handle \<Rightarrow> nat \<Rightarrow> addr \<Rightarrow> usbi_dev_handle \<Rightarrow>
    usbi_device \<Rightarrow> usbi_bus \<Rightarrow> bool" where
  "multi_ready v h n p hv d b \<longleftrightarrow> (\<forall>k. me_alloc v k) \<and> takes_aio (me_backends v) b d p \<and>
     mh_type h \<in> {USB_TYPE_BULK, USB_TYPE_INTERRUPT} \<and> req_num (mh_type h) (mh_req h) = Some n \<and>
     unat (mh_interface h) \<noteq> 32 \<and>
     (\<forall>j < n. \<exists>q. req_part (mh_type h) (mh_req h) j = Some q \<and>
       (\<forall>a. permitted hv (part_handle h a q) \<and> \<not> too_long (part_handle h a q) b))"

lemma permitted_head [simp]: "permitted (hv\<lparr>hv_io_head := l\<rparr>) r = permitted hv r"
  by (simp add: permitted_def)

lemma part_of_mono:
  assumes "part_of h mi j a io m" "l_next (mu_lib m) \<le> l_next (mu_lib m')" "mu_multi m \<subseteq> mu_multi m'"
    and "\<And>k. k < l_next (mu_lib m) \<Longrightarrow> mu_args m' k = mu_args m k \<and> l_req (mu_lib m') k = l_req (mu_lib m) k \<and>
      l_io (mu_lib m') k = l_io (mu_lib m) k"
  shows "part_of h mi j a io m'"
proof -
  from assms(1) obtain r q x where p: "mu_args m a = Some \<lparr>ma_mi_req = mi, ma_idx = of_nat j, ma_req = r\<rparr>"
    "req_part (mh_type h) (mh_req h) j = Some q" "l_req (mu_lib m) r = Some (part_handle h a q)"
    "l_io (mu_lib m) io = Some x" "io_req x = r" "io_state x = IO_INPROGRESS" "io_async x"
    "a < l_next (mu_lib m)" "r < l_next (mu_lib m)" "io < l_next (mu_lib m)" "r \<in> mu_multi m"
    by (auto simp: part_of_def)
  show ?thesis unfolding part_of_def
    by (intro exI [of _ r] exI [of _ q] exI [of _ x]) (use p assms(2,3) assms(4) [OF p(8)] assms(4) [OF p(9)] assms(4) [OF p(10)] in auto)
qed

text \<open>After the call of openusb_xfer_aio and the step that follows it.\<close>

definition passed :: "addr \<Rightarrow> usbi_multi_request \<Rightarrow> addr \<Rightarrow> openusb_multi_request_handle \<Rightarrow> addr \<Rightarrow> nat \<Rightarrow>
    openusb_request \<Rightarrow> u32 \<Rightarrow> 'a lib_scheme multi \<Rightarrow> 'a lib_scheme multi" where
  "passed mi x mh h p i q t m = (filled mi x h i q m)\<lparr>
     mu_lib := aio_state p (l_next (mu_lib m)) t (mu_lib (filled mi x h i q m))\<rparr>"

lemma buffer_run:
  assumes R: "multi_ready v h n p hv d b" and g: "mu_mi m mi = Some x" "mu_mreq m mh = Some (h\<lparr>mh_req := z\<rparr>)"
    "mh_type h = ty" "i < n" "\<And>j. req_part ty z j = req_part ty (mh_req h) j"
    and o: "open_at (mh_dev h) p (hv\<lparr>hv_io_head := l\<rparr>) d b (mu_lib m)"
    and q: "req_part ty (mh_req h) i = Some q"
  shows "\<exists>t. run_thread v mi 1 (MSubmit mh ty n i (l_next (mu_lib m)), filled mi x (h\<lparr>mh_req := z\<rparr>) i q m) =
      Some (MSubmitted mh ty n i 0, passed mi x mh h p i q t m) \<and>
    open_at (mh_dev h) p (hv\<lparr>hv_io_head := l @ [l_next (mu_lib m) + 3]\<rparr>) d b (mu_lib (passed mi x mh h p i q t m)) \<and>
    thread_multi v mi (MSubmitted mh ty n i 0) (passed mi x mh h p i q t m) =
      fill_request v mi mh ty n (i + 1)
        ((passed mi x mh h p i q t m)\<lparr>mu_mreq := (mu_mreq m)(mh \<mapsto> h\<lparr>mh_req := move_rp z\<rparr>)\<rparr>)"
proof -
  let ?N = "l_next (mu_lib m)"
  let ?m = "filled mi x (h\<lparr>mh_req := z\<rparr>) i q m"
  have fe: "?m = filled mi x h i q m" by (simp add: filled_def)
  let ?r = "part_handle h (?N + 1) q"
  have n: "0 < ?N" using o by (auto simp: open_at_def hdevs_ok_def)
  have o1: "open_at (mh_dev h) p (hv\<lparr>hv_io_head := l\<rparr>) d b (mu_lib ?m)"
    by (rule open_at_cong [OF _ _ _ _ _ _ _ _ _ o]) (simp_all add: filled_def Let_def)
  have r: "l_req (mu_lib ?m) ?N = Some ?r" "req_ok ?r"
    using part_ok [of h i q] q g(3) R by (auto simp: filled_def Let_def multi_ready_def)
  have pt: "permitted hv ?r" "\<not> too_long ?r b" "unat (mh_interface h) \<noteq> 32" "takes_aio (me_backends v) b d p" "\<forall>k. me_alloc v k"
    using R g(3,4) q by (auto simp: multi_ready_def)
  obtain t where t: "openusb_xfer_aio (me_alloc v) (me_backends v) (me_big_endian v) (me_create v) (me_others v)
      (me_junk v) ?N (mu_lib ?m) = Some (0, aio_state p ?N t (mu_lib ?m))"
    using xfer_aio_run [of ?r p "hv\<lparr>hv_io_head := l\<rparr>" d b "mu_lib ?m" ?N "me_backends v" "me_alloc v"
        "me_big_endian v" "me_create v" "me_others v" "me_junk v"] o1 r pt n
    by auto
  have o2: "open_at (mh_dev h) p (hv\<lparr>hv_io_head := l @ [?N + 3]\<rparr>) d b (aio_state p ?N t (mu_lib ?m))"
    using open_at_aio [OF o1, of ?N t] by (simp add: filled_def Let_def)
  have x: "mu_mi (passed mi x mh h p i q t m) mi \<noteq> None" "mu_mreq (passed mi x mh h p i q t m) = mu_mreq m"
    by (simp_all add: passed_def filled_def Let_def)
  show ?thesis
    by (intro exI [of _ t] conjI)
      (use t o2 x g(2) fe in \<open>auto simp: in_lib_def passed_def eval_nat_numeral\<close>)
qed

lemma gone_on_passed:
  assumes g: "gone_on mi mh h p hv x m0 i as ios m"
    and o: "open_at (mh_dev h) p (hv\<lparr>hv_io_head := hv_io_head hv @ ios\<rparr>) d b (mu_lib m)"
    and q: "req_part (mh_type h) (mh_req h) i = Some q"
  shows "gone_on mi mh h p hv x m0 (i + 1) (as @ [l_next (mu_lib m) + 1]) (ios @ [l_next (mu_lib m) + 3])
    ((passed mi (x\<lparr>mq_req_head := mq_req_head x @ as\<rparr>) mh h p i q t m)\<lparr>
       mu_mreq := (mu_mreq m)(mh \<mapsto> h\<lparr>mh_req := move_rp ((move_rp ^^ i) (mh_req h))\<rparr>)\<rparr>)"
    (is "gone_on mi mh h p hv x m0 (i + 1) ?as ?ios ?m")
proof -
  let ?N = "l_next (mu_lib m)"
  note d = passed_def filled_def Let_def aio_state_def aio_io_def
  have l: "l_hdev (mu_lib m) p = Some (hv\<lparr>hv_io_head := hv_io_head hv @ ios\<rparr>)" "length as = i" "length ios = i"
    using g by (simp_all add: gone_on_def)
  have old: "part_of h mi j a io ?m" if "part_of h mi j a io m" for j a io
    by (rule part_of_mono [OF that]) (auto simp: d)
  have new: "part_of h mi i (?N + 1) (?N + 3) ?m" using q by (simp add: part_of_def d)
  have "part_of h mi j (?as ! j) (?ios ! j) ?m" if "j < i + 1" for j
  proof (cases "j < i")
    case True
    then have "part_of h mi j (as ! j) (ios ! j) m" using g by (simp add: gone_on_def)
    from old [OF this] show ?thesis using True l by (simp add: nth_append)
  next
    case False
    then show ?thesis using new that l by (simp add: nth_append less_Suc_eq)
  qed
  moreover have "mu_mi ?m mi = Some (x\<lparr>mq_req_head := mq_req_head x @ ?as\<rparr>)" by (simp add: d)
  moreover have "mu_given ?m = mu_given m0 @ map (\<lambda>j. (mi, of_nat j)) [0..<i + 1]" "mu_reports ?m = mu_reports m0"
    using g by (simp_all add: d gone_on_def)
  moreover have "l_hdev (mu_lib ?m) p = Some (hv\<lparr>hv_io_head := hv_io_head hv @ ?ios\<rparr>)"
    using l(1) by (simp add: d link_dev_def)
  ultimately show ?thesis using l by (simp add: gone_on_def)
qed

lemma turn_from:
  assumes R: "multi_ready v h n p hv d b" and "i \<le> n"
    and "gone_on mi mh h p hv x m0 i as ios m"
    and "open_at (mh_dev h) p (hv\<lparr>hv_io_head := hv_io_head hv @ ios\<rparr>) d b (mu_lib m)"
  shows "\<exists>c m' as' ios'. fill_request v mi mh (mh_type h) n i m = Some c \<and>
    run_thread v mi (2 * (n - i)) c = Some (MWait mh (mh_type h), m'\<lparr>mu_mi := (mu_mi m')(mi \<mapsto>
      x\<lparr>mq_req_head := mq_req_head x @ as', mq_flag := USBI_MREQ_NO_NEW_BUF\<rparr>)\<rparr>) \<and>
    gone_on mi mh h p hv x m0 n as' ios' m' \<and>
    open_at (mh_dev h) p (hv\<lparr>hv_io_head := hv_io_head hv @ ios'\<rparr>) d b (mu_lib m')"
  using assms(2-)
proof (induction "n - i" arbitrary: i as ios m)
  case 0
  then have n: "i = n" and g: "mu_mi m mi = Some (x\<lparr>mq_req_head := mq_req_head x @ as\<rparr>)"
    by (simp_all add: gone_on_def)
  have f: "fill_request v mi mh (mh_type h) n i m = Some (MWait mh (mh_type h), m\<lparr>mu_mi := (mu_mi m)(mi \<mapsto>
      x\<lparr>mq_req_head := mq_req_head x @ as, mq_flag := USBI_MREQ_NO_NEW_BUF\<rparr>)\<rparr>)"
    using fill_end [where x = "x\<lparr>mq_req_head := mq_req_head x @ as\<rparr>", OF g, of v mh "mh_type h" n] n by (simp only: usbi_multi_request.simps)
  have "2 * (n - i) = 0" using n by simp
  with f 0(3,4) show ?case by (metis n run_thread.simps(1))
next
  case (Suc k)
  let ?ty = "mh_type h"
  let ?z = "(move_rp ^^ i) (mh_req h)"
  let ?x = "x\<lparr>mq_req_head := mq_req_head x @ as\<rparr>"
  have i: "i < n" using Suc.hyps(2) by simp
  from R i obtain q where q: "req_part ?ty (mh_req h) i = Some q" by (auto simp: multi_ready_def)
  have g: "mu_mi m mi = Some ?x" "mu_mreq m mh = Some (h\<lparr>mh_req := ?z\<rparr>)"
    using Suc.prems(2) by (simp_all add: gone_on_def)
  have n: "0 < l_next (mu_lib m)" using Suc.prems(3) by (auto simp: open_at_def hdevs_ok_def)
  let ?c = "(MSubmit mh ?ty n i (l_next (mu_lib m)), filled mi ?x (h\<lparr>mh_req := ?z\<rparr>) i q m)"
  have f: "fill_request v mi mh ?ty n i m = Some ?c"
    by (rule fill_run [OF g i _ n]) (use R q in \<open>auto simp: multi_ready_def\<close>)
  obtain t where t: "run_thread v mi 1 ?c = Some (MSubmitted mh ?ty n i 0, passed mi ?x mh h p i q t m)"
    "open_at (mh_dev h) p (hv\<lparr>hv_io_head := (hv_io_head hv @ ios) @ [l_next (mu_lib m) + 3]\<rparr>) d b
      (mu_lib (passed mi ?x mh h p i q t m))"
    "thread_multi v mi (MSubmitted mh ?ty n i 0) (passed mi ?x mh h p i q t m) =
      fill_request v mi mh ?ty n (i + 1)
        ((passed mi ?x mh h p i q t m)\<lparr>mu_mreq := (mu_mreq m)(mh \<mapsto> h\<lparr>mh_req := move_rp ?z\<rparr>)\<rparr>)"
    using buffer_run [OF R g _ i _ Suc.prems(3) q] by auto
  let ?m = "(passed mi ?x mh h p i q t m)\<lparr>mu_mreq := (mu_mreq m)(mh \<mapsto> h\<lparr>mh_req := move_rp ?z\<rparr>)\<rparr>"
  let ?as = "as @ [l_next (mu_lib m) + 1]" and ?ios = "ios @ [l_next (mu_lib m) + 3]"
  have o: "open_at (mh_dev h) p (hv\<lparr>hv_io_head := hv_io_head hv @ ?ios\<rparr>) d b (mu_lib ?m)" using t(2) by simp
  have k: "k = n - (i + 1)" using Suc.hyps(2) by simp
  obtain c m' as' ios' where IH: "fill_request v mi mh ?ty n (i + 1) ?m = Some c"
    "run_thread v mi (2 * (n - (i + 1))) c = Some (MWait mh ?ty, m'\<lparr>mu_mi := (mu_mi m')(mi \<mapsto>
      x\<lparr>mq_req_head := mq_req_head x @ as', mq_flag := USBI_MREQ_NO_NEW_BUF\<rparr>)\<rparr>)"
    "gone_on mi mh h p hv x m0 n as' ios' m'"
    "open_at (mh_dev h) p (hv\<lparr>hv_io_head := hv_io_head hv @ ios'\<rparr>) d b (mu_lib m')"
    using Suc.hyps(1) [OF k _ gone_on_passed [OF Suc.prems(2,3) q] o] i by fastforce
  have e: "2 * (n - i) = 1 + Suc (2 * (n - (i + 1)))" using i by simp
  have "run_thread v mi (2 * (n - i)) ?c = run_thread v mi (2 * (n - (i + 1))) c"
    by (simp only: e run_thread_add run_thread.simps bind.simps fst_conv snd_conv t(1) t(3) IH(1))
  then show ?case using f IH(2-) by auto
qed

text \<open>
  C17. One turn of process_multi_request. Take a bulk or interrupt multi-request with n buffers
  on an open device whose backend takes asynchronous requests, none of them too long. If nothing
  else happens in between, the thread comes to its wait after 2 n + 1 steps. Then buffer j is the
  payload of a request of its own, with its length, its timeout and its flags, in the order of the
  buffers: its arguments are entry j of those added to req_head, and the structure of the request
  in progress is entry j of those added to the list of the device handle. rp has moved n places,
  and each buffer was passed on once. The flag is cleared whatever it was before, so a call of
  openusb_stop or openusb_add that came during the turn is forgotten: the thread waits on.
\<close>

theorem multi_turn:
  assumes R: "multi_ready v h n p hv d b" and m: "mu_mi m mi = Some x" "mu_mreq m mh = Some h"
    and o: "open_at (mh_dev h) p hv d b (mu_lib m)"
  shows "\<exists>m' as ios. run_thread v mi (2 * n + 1) (MLoop mh (mh_type h), m) = Some (MWait mh (mh_type h), m') \<and>
    length as = n \<and> length ios = n \<and> (\<forall>j < n. part_of h mi j (as ! j) (ios ! j) m') \<and>
    mu_mi m' mi = Some (x\<lparr>mq_req_head := mq_req_head x @ as, mq_flag := USBI_MREQ_NO_NEW_BUF\<rparr>) \<and>
    l_hdev (mu_lib m') p = Some (hv\<lparr>hv_io_head := hv_io_head hv @ ios\<rparr>) \<and>
    mu_mreq m' mh = Some (h\<lparr>mh_req := (move_rp ^^ n) (mh_req h)\<rparr>) \<and>
    mu_given m' = mu_given m @ map (\<lambda>j. (mi, of_nat j)) [0..<n] \<and>
    (\<forall>k. run_thread v mi k (MWait mh (mh_type h), m') = Some (MWait mh (mh_type h), m'))"
proof -
  have hv: "l_hdev (mu_lib m) p = Some hv" using o by (simp add: open_at_def)
  have e: "hv\<lparr>hv_io_head := hv_io_head hv\<rparr> = hv" "x\<lparr>mq_req_head := mq_req_head x\<rparr> = x" "h\<lparr>mh_req := mh_req h\<rparr> = h"
    by simp_all
  have g: "gone_on mi mh h p hv x m 0 [] [] m" using m hv by (simp add: gone_on_def)
  obtain c m' as ios where t: "fill_request v mi mh (mh_type h) n 0 m = Some c"
    "run_thread v mi (2 * n) c = Some (MWait mh (mh_type h), m'\<lparr>mu_mi := (mu_mi m')(mi \<mapsto>
      x\<lparr>mq_req_head := mq_req_head x @ as, mq_flag := USBI_MREQ_NO_NEW_BUF\<rparr>)\<rparr>)"
    "gone_on mi mh h p hv x m n as ios m'"
    using turn_from [OF R le0 g] o by auto
  let ?m = "m'\<lparr>mu_mi := (mu_mi m')(mi \<mapsto> x\<lparr>mq_req_head := mq_req_head x @ as, mq_flag := USBI_MREQ_NO_NEW_BUF\<rparr>)\<rparr>"
  have "thread_multi v mi (MLoop mh (mh_type h)) m = Some c"
    using m(2) R t(1) by (simp add: multi_ready_def)
  then have r: "run_thread v mi (2 * n + 1) (MLoop mh (mh_type h), m) = Some (MWait mh (mh_type h), ?m)"
    using t(2) by simp
  have w: "run_thread v mi k (MWait mh (mh_type h), ?m) = Some (MWait mh (mh_type h), ?m)" for k
    by (induction k) simp_all
  have po: "part_of h mi j a io ?m = part_of h mi j a io m'" for j a io by (simp add: part_of_def)
  show ?thesis
    by (rule exI [of _ ?m], rule exI [of _ as], rule exI [of _ ios])
      (intro conjI, use r w po t(3) in \<open>simp_all add: gone_on_def\<close>)
qed

end
