(* ===== verification/MultiOnce.thy ===== *)
theory MultiOnce
  imports MultiRun "HOL-Library.Multiset"
begin

text \<open>
  Every buffer of a multi-request is reported at most once, and with its own index, in any
  interleaving of its thread with the callbacks, the other threads of the library and the
  application, as long as the request is not stopped.
\<close>

section \<open>What keeps the requests\<close>

lemma kept_refl [simp]: "kept s s"
  by (simp add: kept_def)

lemma kept_trans: "kept s t \<Longrightarrow> kept t u \<Longrightarrow> kept s u"
proof -
  assume a: "kept s t" and b: "kept t u"
  then have "map_option rq_arg (l_req u p) = map_option rq_arg (l_req s p)" if "p < l_next s" for p
    using that unfolding kept_def by (metis order_less_le_trans)
  then show ?thesis using a b unfolding kept_def by (meson order_trans)
qed

lemma low_debug_upd [simp]:
  "low_debug (s\<lparr>l_held := a\<rparr>) = low_debug s" "low_debug (s\<lparr>l_io := b\<rparr>) = low_debug s"
  "low_debug (s\<lparr>l_hdev := c\<rparr>) = low_debug s" "low_debug (s\<lparr>l_submits := e\<rparr>) = low_debug s"
  "low_debug (s\<lparr>l_next := n\<rparr>) = low_debug s" "low_debug (s\<lparr>l_req := q\<rparr>) = low_debug s"
  by (simp_all add: low_debug_def)

lemma kept_upd [simp]:
  "kept s (t\<lparr>l_held := a\<rparr>) = kept s t" "kept s (t\<lparr>l_io := b\<rparr>) = kept s t"
  "kept s (t\<lparr>l_hdev := c\<rparr>) = kept s t" "kept s (t\<lparr>l_submits := e\<rparr>) = kept s t"
  by (simp_all add: kept_def)

lemma kept_next: "kept s t \<Longrightarrow> kept s (t\<lparr>l_next := l_next t + 1\<rparr>)"
  by (simp add: kept_def)

lemma kept_unlink [simp]: "kept s (io_unlink io t) = kept s t"
proof -
  have "(\<forall>hdl. l_hdl (io_unlink io t) p = Some hdl \<longrightarrow> hd_debug_level hdl < 5) \<longleftrightarrow>
      (\<forall>hdl. l_hdl t p = Some hdl \<longrightarrow> hd_debug_level hdl < 5)" for p
    by (cases "l_hdl t p") auto
  then have "low_debug (io_unlink io t) = low_debug t" by (simp only: low_debug_def)
  then show ?thesis by (simp add: kept_def io_unlink_def)
qed

text \<open>
  A result that keeps the requests of s, at a low debug level. The rules of kept_rules walk along
  a function: one for each operation and each way to read a structure.
\<close>

named_theorems kept_rules "what follows a step that keeps the requests"

definition from_on :: "'a lib_scheme \<Rightarrow> 'a lib_scheme \<Rightarrow> bool" where
  "from_on s t \<longleftrightarrow> low_debug s \<and> kept s t"

definition after :: "'a lib_scheme \<Rightarrow> ('r \<times> 'a lib_scheme) option \<Rightarrow> bool" where
  "after s X \<longleftrightarrow> (\<forall>r t. X = Some (r, t) \<longrightarrow> from_on s t)"

definition after_state :: "'a lib_scheme \<Rightarrow> 'a lib_scheme option \<Rightarrow> bool" where
  "after_state s X \<longleftrightarrow> (\<forall>t. X = Some t \<longrightarrow> from_on s t)"

lemma from_on_upd [simp]:
  "from_on s (t\<lparr>l_held := a\<rparr>) = from_on s t" "from_on s (t\<lparr>l_io := b\<rparr>) = from_on s t"
  "from_on s (t\<lparr>l_hdev := c\<rparr>) = from_on s t" "from_on s (t\<lparr>l_submits := e\<rparr>) = from_on s t"
  "from_on s (io_unlink io t) = from_on s t" "from_on s t \<Longrightarrow> from_on s (t\<lparr>l_next := Suc (l_next t)\<rparr>)"
  using kept_next [of s t] by (auto simp: from_on_def)

lemma from_on_debug: "from_on s t \<Longrightarrow> l_hdl t p = Some hdl \<Longrightarrow> hd_debug_level hdl < 5"
  by (auto simp: from_on_def kept_def low_debug_def)

lemma from_on_low: "from_on s t \<Longrightarrow> low_debug t"
  by (simp add: from_on_def kept_def)

lemma from_on_trans: "from_on s t \<Longrightarrow> kept t u \<Longrightarrow> from_on s u"
  unfolding from_on_def by (blast intro: kept_trans)

lemma after_simps [simp]: "after s None" "after s (Some c) = from_on s (snd c)"
  "after_state s None" "after_state s (Some t) = from_on s t"
  by (cases c; simp add: after_def after_state_def)+

text \<open>The rule for an operation, from what is known of it alone.\<close>

lemma op_rule:
  assumes "\<And>s. from_on s0 s \<Longrightarrow> after s0 (g s)"
  shows "from_on s0 s \<Longrightarrow> (\<And>r t. from_on s0 t \<Longrightarrow> after s0 (f (r, t))) \<Longrightarrow> after s0 (Option.bind (g s) f)"
    "from_on s0 s \<Longrightarrow> (\<And>r t. from_on s0 t \<Longrightarrow> after_state s0 (f' (r, t))) \<Longrightarrow> after_state s0 (Option.bind (g s) f')"
  using assms [of s] by (cases "g s"; simp; force simp: after_def)+

lemma state_rule:
  assumes "\<And>s. from_on s0 s \<Longrightarrow> after_state s0 (g s)"
  shows "from_on s0 s \<Longrightarrow> (\<And>t. from_on s0 t \<Longrightarrow> after s0 (f t)) \<Longrightarrow> after s0 (Option.bind (g s) f)"
    "from_on s0 s \<Longrightarrow> (\<And>t. from_on s0 t \<Longrightarrow> after_state s0 (f' t)) \<Longrightarrow> after_state s0 (Option.bind (g s) f')"
  using assms [of s] by (cases "g s"; simp; force simp: after_state_def)+

lemma read_rule:
  "(\<And>x. m = Some x \<Longrightarrow> after s0 (f x)) \<Longrightarrow> after s0 (Option.bind m f)"
  "(\<And>x. m = Some x \<Longrightarrow> after_state s0 (f' x)) \<Longrightarrow> after_state s0 (Option.bind m f')"
  by (cases m; simp)+

lemmas [kept_rules] = read_rule [where m = "l_io s p" for s p] read_rule [where m = "l_hdev s p" for s p]
  read_rule [where m = "l_req s p" for s p] read_rule [where m = "l_dev s p" for s p]
  read_rule [where m = "l_bus s p" for s p] read_rule [where m = "l_hdl s p" for s p]
  read_rule [where m = "rd xs n" for xs n] read_rule [where m = "bus_of p s" for p s]
  read_rule [where m = "dev_ops B p s" for B p s] read_rule [where m = "check_size ty q n" for ty q n]
  read_rule [where m = "request_timeout ty q" for ty q]

lemma after_locks:
  "from_on s0 s \<Longrightarrow> after_state s0 (lock k s)" "from_on s0 s \<Longrightarrow> after_state s0 (unlock k s)"
  by (simp_all add: lock_def unlock_def)

lemmas [kept_rules] = state_rule [OF after_locks(1)] state_rule [OF after_locks(2)]

lemma after_structure_locks:
  "from_on s0 s \<Longrightarrow> after_state s0 (lock_io p s)" "from_on s0 s \<Longrightarrow> after_state s0 (unlock_io p s)"
  "from_on s0 s \<Longrightarrow> after_state s0 (lock_hdev p s)" "from_on s0 s \<Longrightarrow> after_state s0 (unlock_hdev p s)"
  by (auto simp: lock_io_def unlock_io_def lock_hdev_def unlock_hdev_def after_locks intro!: kept_rules)

lemmas [kept_rules] = state_rule [OF after_structure_locks(1)] state_rule [OF after_structure_locks(2)]
  state_rule [OF after_structure_locks(3)] state_rule [OF after_structure_locks(4)]

lemma after_find_walk: "from_on s0 s \<Longrightarrow> after s0 (find_dev_handle_walk k ps s)"
  by (induction ps arbitrary: s) (auto intro!: kept_rules)

lemmas [kept_rules] = op_rule [OF after_find_walk]

lemma after_find: "from_on s0 s \<Longrightarrow> after s0 (usbi_find_dev_handle k s)"
  by (auto simp: usbi_find_dev_handle_def intro!: kept_rules)

lemmas [kept_rules] = op_rule [OF after_find]

lemma after_claimed: "from_on s0 s \<Longrightarrow> after s0 (openusb_is_interface_claimed k ifc s)"
  by (auto simp: openusb_is_interface_claimed_def intro!: kept_rules)

lemmas [kept_rules] = op_rule [OF after_claimed]

lemma after_check: "from_on s0 s \<Longrightarrow> after s0 (check_req_valid av B be others j req dev s)"
  by (auto simp: check_req_valid_def dest!: from_on_debug [rotated] intro!: kept_rules)

lemma after_timeout: "from_on s0 s \<Longrightarrow> after s0 (usbi_get_xfer_timeout req dev s)"
  by (auto simp: usbi_get_xfer_timeout_def intro!: kept_rules)

lemma after_alloc: "from_on s0 s \<Longrightarrow> after s0 (usbi_alloc_io av dev req n s)"
  by (auto simp: usbi_alloc_io_def fresh_def Let_def intro!: kept_rules)

lemmas [kept_rules] = op_rule [OF after_check] op_rule [OF after_timeout] op_rule [OF after_alloc]

text \<open>The part of a backend that openusb_xfer_aio calls, and the law that it is to keep.\<close>

locale quiet_backend =
  fixes B :: "nat \<Rightarrow> 'a lib_scheme backend_ops"
  assumes aio_kept: "low_debug s \<Longrightarrow> do_xfer_aio (B n) ty p io s = Some (r, t) \<Longrightarrow> kept s t"
    and cancel_kept: "low_debug s \<Longrightarrow> do_io_cancel (B n) = Some cancel \<Longrightarrow> cancel io s = Some (r, t) \<Longrightarrow> kept s t"
begin

lemma after_ops:
  "from_on s0 s \<Longrightarrow> after s0 (do_xfer_aio (B n) ty p io s)"
  "do_io_cancel (B n) = Some cancel \<Longrightarrow> from_on s0 s \<Longrightarrow> after s0 (cancel io s)"
  unfolding after_def by (blast intro: from_on_trans aio_kept cancel_kept from_on_low)+

lemma after_submit: "from_on s0 s \<Longrightarrow> after s0 (usbi_async_submit B io s)"
  by (auto simp: usbi_async_submit_def dev_ops_def intro!: kept_rules op_rule [OF after_ops(1)])

lemma after_async: "from_on s0 s \<Longrightarrow> after s0 (usbi_io_async create B io s)"
  by (auto simp: usbi_io_async_def Let_def intro!: kept_rules op_rule [OF after_submit] after_submit)

lemma after_free: "from_on s0 s \<Longrightarrow> after s0 (usbi_free_io B io s)"
  by (auto simp: usbi_free_io_def Let_def dev_ops_def split: option.split
      intro!: kept_rules op_rule [OF after_ops(2)])

lemma aio_keeps:
  assumes "openusb_xfer_aio av B be create others j req s = Some (r, t)" "low_debug s"
  shows "kept s t"
proof -
  have "from_on s s" using assms(2) by (simp add: from_on_def)
  then have "after s (openusb_xfer_aio av B be create others j req s)"
    by (auto simp: openusb_xfer_aio_def intro!: kept_rules op_rule [OF after_async] op_rule [OF after_free])
  then show ?thesis using assms(1) by (simp add: from_on_def)
qed

end

section \<open>The invariant\<close>

abbreviation next_addr :: "'a lib_scheme multi \<Rightarrow> addr" where
  "next_addr m \<equiv> l_next (mu_lib m)"

text \<open>The buffers of a multi-request: waiting, passed on so far, and reported.\<close>

definition indices :: "'s multi \<Rightarrow> addr list \<Rightarrow> u32 list" where
  "indices m as = map (\<lambda>a. ma_idx (the (mu_args m a))) as"

definition given_to :: "addr \<Rightarrow> 's multi \<Rightarrow> u32 list" where
  "given_to mi m = map snd (filter (\<lambda>g. fst g = mi) (mu_given m))"

definition reported_of :: "addr \<Rightarrow> 's multi \<Rightarrow> u32 list" where
  "reported_of mi m = map (\<lambda>(_, _, i, _). i) (filter (\<lambda>r. fst r = mi) (mu_reports m))"

definition mi_ok :: "'a lib_scheme multi \<Rightarrow> addr \<Rightarrow> usbi_multi_request \<Rightarrow> bool" where
  "mi_ok m mi x \<longleftrightarrow> mi < next_addr m \<and> mq_mreq x \<noteq> 0 \<and> mq_flag x \<noteq> USBI_MREQ_STOPPED \<and>
     distinct (mq_req_head x) \<and> (\<forall>a \<in> set (mq_req_head x). \<exists>y. mu_args m a = Some y \<and> ma_mi_req y = mi) \<and>
     mset (given_to mi m) = mset (indices m (mq_req_head x)) + mset (reported_of mi m) \<and>
     (\<forall>r \<in> set (mu_reports m). fst r = mi \<longrightarrow> fst (snd r) = mq_mreq x)"

definition req_known :: "'a lib_scheme multi \<Rightarrow> addr \<Rightarrow> bool" where
  "req_known m r \<longleftrightarrow> r < next_addr m \<and> (\<forall>a. map_option rq_arg (l_req (mu_lib m) r) = Some a \<longrightarrow>
     (\<exists>y x. mu_args m a = Some y \<and> ma_req y = r \<and> mu_mi m (ma_mi_req y) = Some x \<and> a \<in> set (mq_req_head x)))"

definition no_abort :: "mpc \<Rightarrow> bool" where
  "no_abort pc = (case pc of MAbort _ _ \<Rightarrow> False | MAborted _ _ \<Rightarrow> False | _ \<Rightarrow> True)"

definition multi_inv :: "'a lib_scheme multi \<Rightarrow> bool" where
  "multi_inv m \<longleftrightarrow> low_debug (mu_lib m) \<and> 0 < next_addr m \<and> (\<forall>mi x. mu_mi m mi = Some x \<longrightarrow> mi_ok m mi x) \<and>
     (\<forall>a y. mu_args m a = Some y \<longrightarrow> a < next_addr m) \<and> (\<forall>r \<in> mu_multi m. req_known m r) \<and>
     (\<forall>p h. mu_mreq m p = Some h \<longrightarrow> mh_cb h) \<and> (\<forall>g \<in> set (mu_given m). fst g < next_addr m) \<and>
     (\<forall>g \<in> set (mu_reports m). fst g < next_addr m) \<and> (\<forall>c \<in> set (mu_threads m). no_abort (snd c))"

lemma multi_invD:
  assumes "multi_inv m"
  shows "low_debug (mu_lib m)" "0 < next_addr m" "mu_mi m mi = Some x \<Longrightarrow> mi_ok m mi x"
    "mu_args m a = Some y \<Longrightarrow> a < next_addr m" "r \<in> mu_multi m \<Longrightarrow> req_known m r"
    "mu_mreq m p = Some h \<Longrightarrow> mh_cb h" "g \<in> set (mu_given m) \<Longrightarrow> fst g < next_addr m"
    "g' \<in> set (mu_reports m) \<Longrightarrow> fst g' < next_addr m" "c \<in> set (mu_threads m) \<Longrightarrow> no_abort (snd c)"
  using assms by (auto simp: multi_inv_def)

text \<open>What the library does by itself.\<close>

lemma inv_lib:
  assumes "multi_inv m" "kept (mu_lib m) s"
  shows "multi_inv (m\<lparr>mu_lib := s\<rparr>)"
proof -
  note k = assms(2) [unfolded kept_def]
  have "req_known (m\<lparr>mu_lib := s\<rparr>) r" if "req_known m r" for r
    using that k by (auto simp: req_known_def)
  moreover have "mi_ok (m\<lparr>mu_lib := s\<rparr>) mi x" if "mi_ok m mi x" for mi x
    using that k by (auto simp: mi_ok_def indices_def given_to_def reported_of_def)
  ultimately show ?thesis using assms(1) k unfolding multi_inv_def
    by (auto 0 4 dest: order_less_le_trans)
qed

lemma inv_in_lib:
  assumes "multi_inv m" "in_lib f m = Some (r, m')" "\<And>t. f (mu_lib m) = Some (r, t) \<Longrightarrow> kept (mu_lib m) t"
  shows "multi_inv m'" "mu_threads m' = mu_threads m" "mu_mi m' = mu_mi m" "mu_mreq m' = mu_mreq m"
  using assms by (auto simp: in_lib_def bind_Some_iff intro: inv_lib)

lemma inv_fresh: "multi_inv m \<Longrightarrow> multi_inv (m\<lparr>mu_lib := (mu_lib m)\<lparr>l_next := l_next (mu_lib m) + 1\<rparr>\<rparr>)"
  by (rule inv_lib [OF _ kept_next [OF kept_refl]])

lemma inv_threads: "multi_inv m \<Longrightarrow> \<forall>c \<in> set ts. no_abort (snd c) \<Longrightarrow> multi_inv (m\<lparr>mu_threads := ts\<rparr>)"
  by (simp add: multi_inv_def mi_ok_def req_known_def indices_def given_to_def reported_of_def)

lemma inv_mreq: "multi_inv m \<Longrightarrow> \<forall>p h. M p = Some h \<longrightarrow> mh_cb h \<Longrightarrow> multi_inv (m\<lparr>mu_mreq := M\<rparr>)"
  by (simp add: multi_inv_def mi_ok_def req_known_def indices_def given_to_def reported_of_def)

lemma inv_called: "multi_inv m \<Longrightarrow> multi_inv (m\<lparr>mu_called := k\<rparr>)"
  by (simp add: multi_inv_def mi_ok_def req_known_def indices_def given_to_def reported_of_def)

text \<open>The flag of a multi-request is set to something else than stopped.\<close>

lemma inv_flag:
  assumes "multi_inv m" "mu_mi m mi = Some x" "f \<noteq> USBI_MREQ_STOPPED"
  shows "multi_inv (m\<lparr>mu_mi := (mu_mi m)(mi \<mapsto> x\<lparr>mq_flag := f\<rparr>)\<rparr>)"
proof -
  let ?m = "m\<lparr>mu_mi := (mu_mi m)(mi \<mapsto> x\<lparr>mq_flag := f\<rparr>)\<rparr>"
  have "mi_ok ?m k z" if "mu_mi ?m k = Some z" for k z
    using multi_invD(3) [OF assms(1), of k] assms(2,3) that
    by (auto simp: mi_ok_def indices_def given_to_def reported_of_def split: if_splits)
  moreover have "req_known ?m r" if "r \<in> mu_multi m" for r
    using multi_invD(5) [OF assms(1) that] assms(2) by (fastforce simp: req_known_def)
  ultimately show ?thesis using assms(1) unfolding multi_inv_def by simp
qed

section \<open>The steps\<close>

lemma mset_indices_remove:
  assumes "a \<in> set ps" "distinct ps"
  shows "mset (indices m ps) = add_mset (ma_idx (the (mu_args m a))) (mset (indices m (remove1 a ps)))"
proof -
  from assms(1) obtain ys zs where "ps = ys @ a # zs" by (meson split_list)
  then show ?thesis using assms(2) by (simp add: indices_def remove1_append)
qed

lemma indices_other: "a \<notin> set ps \<Longrightarrow> indices (m\<lparr>mu_args := (mu_args m)(a := z)\<rparr>) ps = indices m ps"
  by (auto simp: indices_def)

text \<open>A request is reported: its argument leaves the list and its index goes into the log.\<close>

definition answered :: "addr \<Rightarrow> openusb_request_handle \<Rightarrow> usbi_multi_req_args \<Rightarrow> usbi_multi_request \<Rightarrow>
    (int \<times> u32) list \<Rightarrow> 'a lib_scheme multi \<Rightarrow> 'a lib_scheme multi" where
  "answered req r y x rs m = (let s = mu_lib m in
     m\<lparr>mu_mi := (mu_mi m)(ma_mi_req y \<mapsto> x\<lparr>mq_req_head := remove1 (rq_arg r) (mq_req_head x)\<rparr>),
       mu_lib := s\<lparr>l_next := l_next s + 1, l_req := (l_req s)(req := None)\<rparr>,
       mu_args := (mu_args m)(rq_arg r := None),
       mu_reports := mu_reports m @ [(ma_mi_req y, mq_mreq x, ma_idx y, rs)]\<rparr>)"

lemma callback_run:
  assumes "multi_inv m" "\<forall>k. me_alloc v k" "req \<in> mu_multi m" "multi_req_callback v req m = Some (ret, m')"
  shows "\<exists>r y x rs. l_req (mu_lib m) req = Some r \<and> mu_args m (rq_arg r) = Some y \<and> ma_req y = req \<and>
    mu_mi m (ma_mi_req y) = Some x \<and> rq_arg r \<in> set (mq_req_head x) \<and> m' = answered req r y x rs m"
proof -
  from assms(4) obtain r y where r: "l_req (mu_lib m) req = Some r" "mu_args m (rq_arg r) = Some y"
    by (auto simp: multi_req_callback_def bind_Some_iff)
  obtain x where x: "ma_req y = req" "mu_mi m (ma_mi_req y) = Some x" "rq_arg r \<in> set (mq_req_head x)"
    using multi_invD(5) [OF assms(1,3)] r by (auto simp: req_known_def)
  have n: "mq_mreq x \<noteq> 0" "next_addr m \<noteq> 0"
    using multi_invD(2,3) [OF assms(1)] x(2) by (auto simp: mi_ok_def)
  have cb: "mu_mreq m p = Some h \<Longrightarrow> mh_cb h" for p h by (rule multi_invD(6) [OF assms(1)])
  show ?thesis
    using assms(2,4) r x n cb
    by (fastforce simp: multi_req_callback_def multi_fresh_def fresh_def Let_def answered_def ls_del_def bind_Some_iff
        split: if_splits)
qed

lemma inv_answered:
  assumes "multi_inv m" and r: "l_req (mu_lib m) req = Some r" "mu_args m (rq_arg r) = Some y" "ma_req y = req"
    "mu_mi m (ma_mi_req y) = Some x" "rq_arg r \<in> set (mq_req_head x)"
  shows "multi_inv (answered req r y x rs m)" (is "multi_inv ?m")
proof -
  let ?a = "rq_arg r" and ?mi = "ma_mi_req y"
  note d = answered_def Let_def
  note ok = multi_invD(3) [OF assms(1)]
  have x: "distinct (mq_req_head x)" "mset (given_to ?mi m) = mset (indices m (mq_req_head x)) + mset (reported_of ?mi m)"
    using ok [OF r(4)] by (simp_all add: mi_ok_def)
  have mi: "mi_ok ?m k z" if "mu_mi ?m k = Some z" for k z
  proof (cases "k = ?mi")
    case True
    then have z: "z = x\<lparr>mq_req_head := remove1 ?a (mq_req_head x)\<rparr>" using that by (simp add: d)
    have n: "?a \<notin> set (remove1 ?a (mq_req_head x))" using x(1) by simp
    have "indices ?m (mq_req_head z) = indices m (remove1 ?a (mq_req_head x))"
      using indices_other [OF n, of m None] z by (simp add: d indices_def)
    moreover have "given_to ?mi ?m = given_to ?mi m" "reported_of ?mi ?m = reported_of ?mi m @ [ma_idx y]"
      by (simp_all add: d given_to_def reported_of_def)
    ultimately have "mset (given_to ?mi ?m) = mset (indices ?m (mq_req_head z)) + mset (reported_of ?mi ?m)"
      using x(2) mset_indices_remove [OF r(5) x(1), of m] r(2) by simp
    moreover have "\<exists>y'. mu_args ?m b = Some y' \<and> ma_mi_req y' = ?mi" if "b \<in> set (mq_req_head z)" for b
    proof -
      have "b \<in> set (mq_req_head x)" "b \<noteq> ?a" using that n z x(1) by (auto dest: notin_set_remove1)
      then show ?thesis using ok [OF r(4)] by (auto simp: mi_ok_def d)
    qed
    ultimately show ?thesis using ok [OF r(4)] z True x(1) by (auto simp: mi_ok_def d)
  next
    case False
    then have z: "mu_mi m k = Some z" using that by (simp add: d)
    have n: "?a \<notin> set (mq_req_head z)" using ok [OF z] r(2) False by (auto simp: mi_ok_def)
    have "indices ?m (mq_req_head z) = indices m (mq_req_head z)"
      using indices_other [OF n, of m None] by (simp add: d indices_def)
    then show ?thesis using ok [OF z] False n
      by (auto simp: mi_ok_def d given_to_def reported_of_def)
  qed
  have rq: "req_known ?m q" if q: "q \<in> mu_multi m" for q
  proof -
    note k = multi_invD(5) [OF assms(1) q, unfolded req_known_def]
    have "\<exists>y' z. mu_args ?m b = Some y' \<and> ma_req y' = q \<and> mu_mi ?m (ma_mi_req y') = Some z \<and> b \<in> set (mq_req_head z)"
      if b: "map_option rq_arg (l_req (mu_lib ?m) q) = Some b" for b
    proof -
      have b': "map_option rq_arg (l_req (mu_lib m) q) = Some b" "q \<noteq> req" using b by (auto simp: d split: if_splits)
      then obtain y' z where yz: "mu_args m b = Some y'" "ma_req y' = q" "mu_mi m (ma_mi_req y') = Some z" "b \<in> set (mq_req_head z)"
        using k by blast
      have "b \<noteq> ?a" using yz(1,2) b'(2) r(2,3) by auto
      then show ?thesis using yz r(4) x(1) by (auto simp: d)
    qed
    then show ?thesis using k by (simp add: req_known_def d)
  qed
  show ?thesis using assms(1) mi rq multi_invD(3) [OF assms(1) r(4)]
    unfolding multi_inv_def by (auto simp: d mi_ok_def low_debug_def split: if_splits)
qed

lemma fill_step:
  assumes "mu_mi m mi = Some x" "mu_mreq m mh = Some h" "i < n" "\<forall>k. me_alloc v k" "0 < next_addr m"
  shows "fill_request v mi mh ty n i m =
    (if ty \<in> {USB_TYPE_BULK, USB_TYPE_INTERRUPT, USB_TYPE_ISOCHRONOUS}
     then do { q \<leftarrow> req_part ty (mh_req h) i; Some (MSubmit mh ty n i (next_addr m), filled mi x h i q m) }
     else Some (MEnd OPENUSB_BADARG, (filled mi x h i null_request m)\<lparr>
       mu_lib := (mu_lib (filled mi x h i null_request m))\<lparr>l_next := next_addr m + 2\<rparr>\<rparr>))"
  using assms by (simp add: fill_request_def multi_fresh_def fresh_def Let_def filled_def ls_add_def eval_nat_numeral)

text \<open>A buffer is passed on: k addresses are used.\<close>

lemma fill_cases:
  assumes "fill_request v mi mh ty n i m = Some (pc, m')" "\<forall>k. me_alloc v k" "0 < next_addr m"
  shows "\<exists>x. mu_mi m mi = Some x \<and> no_abort pc \<and>
    (m' = m\<lparr>mu_mi := (mu_mi m)(mi \<mapsto> x\<lparr>mq_flag := USBI_MREQ_NO_NEW_BUF\<rparr>)\<rparr> \<or>
     (\<exists>h q k. 2 \<le> k \<and> m' = (filled mi x h i q m)\<lparr>
        mu_lib := (mu_lib (filled mi x h i q m))\<lparr>l_next := next_addr m + k\<rparr>\<rparr>))"
proof -
  from assms(1) obtain x where x: "mu_mi m mi = Some x" by (auto simp: fill_request_def bind_Some_iff)
  show ?thesis
  proof (cases "n \<le> i")
    case True
    then show ?thesis using assms(1) x by (auto simp: fill_request_def no_abort_def)
  next
    case False
    with assms x obtain h where h: "mu_mreq m mh = Some h"
      by (cases "mu_mreq m mh") (auto simp: fill_request_def multi_fresh_def fresh_def Let_def)
    have "\<exists>q k. 2 \<le> k \<and> no_abort pc \<and> m' = (filled mi x h i q m)\<lparr>
        mu_lib := (mu_lib (filled mi x h i q m))\<lparr>l_next := next_addr m + k\<rparr>\<rparr>"
    proof (cases "ty \<in> {USB_TYPE_BULK, USB_TYPE_INTERRUPT, USB_TYPE_ISOCHRONOUS}")
      case True
      then obtain q where "m' = filled mi x h i q m" "pc = MSubmit mh ty n i (next_addr m)"
        using assms(1) fill_step [OF x h _ assms(2,3), of i n ty] False by (auto simp: bind_Some_iff)
      then show ?thesis by (intro exI [of _ q] exI [of _ 3]) (simp add: filled_def Let_def no_abort_def)
    next
      case no: False
      then have "m' = (filled mi x h i null_request m)\<lparr>
          mu_lib := (mu_lib (filled mi x h i null_request m))\<lparr>l_next := next_addr m + 2\<rparr>\<rparr>" "pc = MEnd OPENUSB_BADARG"
        using assms(1) fill_step [OF x h _ assms(2,3), of i n ty] False by simp_all
      then show ?thesis by (intro exI [of _ null_request] exI [of _ 2]) (simp add: no_abort_def)
    qed
    then show ?thesis using x by blast
  qed
qed

lemma inv_filled:
  assumes "multi_inv m" "mu_mi m mi = Some x" "2 \<le> k"
  shows "multi_inv ((filled mi x h i q m)\<lparr>mu_lib := (mu_lib (filled mi x h i q m))\<lparr>l_next := next_addr m + k\<rparr>\<rparr>)"
    (is "multi_inv ?m")
proof -
  let ?N = "next_addr m"
  note d = filled_def Let_def
  note ok = multi_invD(3) [OF assms(1)]
  have old: "b < ?N" if "b \<in> set (mq_req_head z)" "mu_mi m j = Some z" for b j z
    using ok [OF that(2)] that(1) multi_invD(4) [OF assms(1)] by (auto simp: mi_ok_def)
  have ind: "indices ?m ps = indices m ps" if "\<forall>b \<in> set ps. b < ?N" for ps
    using that by (auto simp: indices_def d)
  have mi: "mi_ok ?m j z" if "mu_mi ?m j = Some z" for j z
  proof (cases "j = mi")
    case True
    then have z: "z = x\<lparr>mq_req_head := mq_req_head x @ [?N + 1]\<rparr>" using that by (simp add: d)
    have "indices ?m (mq_req_head z) = indices m (mq_req_head x) @ [of_nat i]"
      using ind [of "mq_req_head x"] old [OF _ assms(2)] z by (simp add: indices_def d)
    moreover have "given_to mi ?m = given_to mi m @ [of_nat i]" "reported_of mi ?m = reported_of mi m"
      by (simp_all add: given_to_def reported_of_def d)
    moreover have "?N + 1 \<notin> set (mq_req_head x)" using old [OF _ assms(2)] by fastforce
    ultimately show ?thesis using ok [OF assms(2)] z True old [OF _ assms(2)] assms(3) by (auto simp: mi_ok_def d)
  next
    case False
    then have z: "mu_mi m j = Some z" using that by (simp add: d)
    have "given_to j ?m = given_to j m" "reported_of j ?m = reported_of j m"
      using False by (simp_all add: given_to_def reported_of_def d)
    moreover have "\<forall>b \<in> set (mq_req_head z). b < ?N" using old [OF _ z] by blast
    moreover have "mu_args ?m b = mu_args m b" if "b \<in> set (mq_req_head z)" for b
      using old [OF that z] by (simp add: d)
    ultimately show ?thesis using ok [OF z] ind [of "mq_req_head z"] by (auto simp: mi_ok_def d)
  qed
  have rq: "req_known ?m r" if "r \<in> mu_multi ?m" for r
  proof (cases "r = ?N")
    case True
    then show ?thesis using assms(3) by (auto simp: req_known_def d)
  next
    case False
    then have r: "req_known m r" using that multi_invD(5) [OF assms(1)] by (simp add: d)
    then have "r < ?N" by (simp add: req_known_def)
    then show ?thesis using r multi_invD(4) [OF assms(1)] assms(2,3) unfolding req_known_def
      by (fastforce simp: d)
  qed
  have "mi < ?N" using ok [OF assms(2)] by (simp add: mi_ok_def)
  then show ?thesis using assms(1,3) mi rq unfolding multi_inv_def
    by (auto simp: d low_debug_def split: if_splits)
qed

lemma inv_fill:
  assumes "multi_inv m" "fill_request v mi mh ty n i m = Some (pc, m')" "\<forall>k. me_alloc v k"
  shows "multi_inv m'" "no_abort pc" "mu_threads m' = mu_threads m"
proof -
  from fill_cases [OF assms(2,3) multi_invD(2) [OF assms(1)]] obtain x where x: "mu_mi m mi = Some x" "no_abort pc"
    and c: "m' = m\<lparr>mu_mi := (mu_mi m)(mi \<mapsto> x\<lparr>mq_flag := USBI_MREQ_NO_NEW_BUF\<rparr>)\<rparr> \<or>
     (\<exists>h q k. 2 \<le> k \<and> m' = (filled mi x h i q m)\<lparr>
        mu_lib := (mu_lib (filled mi x h i q m))\<lparr>l_next := next_addr m + k\<rparr>\<rparr>)" by blast
  show "multi_inv m'" using c inv_flag [OF assms(1) x(1)] inv_filled [OF assms(1) x(1)]
    by (auto simp: mreq_flags)
  show "mu_threads m' = mu_threads m" using c by (auto simp: filled_def Let_def)
  show "no_abort pc" by (rule x(2))
qed

lemma inv_thread:
  assumes q: "quiet_backend (me_backends v)" and av: "\<forall>k. me_alloc v k" and inv: "multi_inv m"
    and pc: "no_abort pc" and run: "thread_multi v mi pc m = Some (pc', m')"
  shows "multi_inv m' \<and> no_abort pc'"
proof (cases pc)
  case MStart
  have k: "kept (mu_lib m) t" if "usbi_find_dev_handle d (mu_lib m) = Some (p, t)" for d p t
    using after_find [of "mu_lib m" "mu_lib m" d] multi_invD(1) [OF inv] that by (simp add: from_on_def)
  show ?thesis
  proof (cases "mi = 0")
    case True
    then show ?thesis using run MStart inv by (auto simp: no_abort_def)
  next
    case False
    then obtain d p where f: "in_lib (usbi_find_dev_handle d) m = Some (p, m')" "no_abort pc'"
      using run MStart by (auto simp: no_abort_def bind_Some_iff split: if_splits)
    have "multi_inv m'" by (rule inv_in_lib(1) [OF inv f(1)]) (rule k)
    then show ?thesis using f(2) by simp
  qed
next
  case (MLoop mh ty)
  then show ?thesis using run inv_fill [OF inv _ av] by (auto simp: bind_Some_iff)
next
  case (MSubmit mh ty n i req)
  then show ?thesis using run inv_in_lib(1) [OF inv] quiet_backend.aio_keeps [OF q] multi_invD(1) [OF inv]
    by (fastforce simp: no_abort_def bind_Some_iff)
next
  case (MSubmitted mh ty n i ret)
  show ?thesis
  proof (cases "ty = USB_TYPE_INTERRUPT \<and> ret \<noteq> 0")
    case True
    then show ?thesis using run MSubmitted inv by (auto simp: no_abort_def bind_Some_iff)
  next
    case False
    then obtain h where h: "mu_mreq m mh = Some h"
      "fill_request v mi mh ty n (i + 1) (m\<lparr>mu_mreq := (mu_mreq m)(mh \<mapsto> h\<lparr>mh_req := move_rp (mh_req h)\<rparr>)\<rparr>) = Some (pc', m')"
      using run MSubmitted by (auto simp: bind_Some_iff split: if_splits)
    have "multi_inv (m\<lparr>mu_mreq := (mu_mreq m)(mh \<mapsto> h\<lparr>mh_req := move_rp (mh_req h)\<rparr>)\<rparr>)"
      by (rule inv_mreq [OF inv]) (use multi_invD(6) [OF inv] h(1) in \<open>auto split: if_splits\<close>)
    from inv_fill [OF this h(2) av] show ?thesis by blast
  qed
next
  case (MWait mh ty)
  then show ?thesis using run inv multi_invD(3) [OF inv]
    by (auto simp: no_abort_def bind_Some_iff mi_ok_def split: if_splits)
qed (use run pc in \<open>auto simp: no_abort_def\<close>)

text \<open>The application.\<close>

lemma kept_new: "kept s t \<Longrightarrow> l_next s \<le> p \<Longrightarrow> kept s (t\<lparr>l_req := (l_req t)(p := z)\<rparr>)"
  by (simp add: kept_def)

lemma from_on_new: "from_on s t \<Longrightarrow> l_next s \<le> p \<Longrightarrow> from_on s (t\<lparr>l_req := (l_req t)(p := z)\<rparr>)"
  by (simp add: from_on_def kept_new)

lemma afterD: "after s X \<Longrightarrow> X = Some (r, t) \<Longrightarrow> from_on s t"
  by (simp add: after_def)

lemma after_stateD: "after_state s X \<Longrightarrow> X = Some t \<Longrightarrow> from_on s t"
  by (simp add: after_state_def)

lemma start_effect:
  assumes "openusb_start v handle m = Some (ret, m')" "\<forall>k. me_alloc v k" "multi_inv m"
  shows "\<exists>s. kept (mu_lib m) s \<and> (m' = m\<lparr>mu_lib := s\<rparr> \<or> handle \<noteq> 0 \<and>
    (\<exists>N ts. next_addr m \<le> N \<and> N < l_next s \<and> (\<forall>c \<in> set ts. no_abort (snd c)) \<and>
      m' = m\<lparr>mu_lib := s, mu_mi := (mu_mi m)(N \<mapsto> \<lparr>mq_req_head = [], mq_mreq = handle, mq_flag = 0\<rparr>),
        mu_threads := mu_threads m @ ts\<rparr>))"
proof (cases "handle = 0")
  case True
  then show ?thesis using assms(1) by (intro exI [of _ "mu_lib m"]) (simp add: openusb_start_def)
next
  case False
  let ?s = "mu_lib m"
  have s0: "from_on ?s ?s" using multi_invD(1) [OF assms(3)] by (simp add: from_on_def)
  from assms(1) False obtain h where h: "mu_mreq m handle = Some h"
    by (auto simp: openusb_start_def bind_Some_iff)
  from assms(1) False h obtain hdev s1 where f: "usbi_find_dev_handle (mh_dev h) ?s = Some (hdev, s1)"
    by (auto simp: openusb_start_def bind_Some_iff in_lib_def)
  have s1: "from_on ?s s1" by (rule afterD [OF after_find [OF s0] f])
  show ?thesis
  proof (cases "hdev = 0")
    case True
    then show ?thesis using assms(1) False h f s1
      by (intro exI [of _ s1]) (simp add: openusb_start_def in_lib_def from_on_def)
  next
    case hdev: False
    let ?N = "l_next s1"
    let ?r = "\<lparr>rq_dev = mh_dev h, rq_interface = mh_interface h, rq_endpoint = mh_endpoint h, rq_type = mh_type h,
      rq_req = null_request, rq_cb = False, rq_arg = 0\<rparr>"
    let ?s2 = "s1\<lparr>l_next := Suc (Suc ?N), l_req := (l_req s1)(Suc ?N \<mapsto> ?r)\<rparr>"
    let ?chk = "check_req_valid (me_alloc v) (me_backends v) (me_big_endian v) (me_others v) (me_junk v) (Suc ?N) hdev ?s2"
    have n: "l_next ?s \<le> ?N" "0 < ?N" using s1 multi_invD(2) [OF assms(3)] by (auto simp: from_on_def kept_def)
    have s2: "from_on ?s ?s2"
      using from_on_new [of ?s "s1\<lparr>l_next := Suc (Suc ?N)\<rparr>" "Suc ?N" "Some ?r"]
        from_on_upd(6) [of ?s "s1\<lparr>l_next := Suc ?N\<rparr>"] from_on_upd(6) [OF s1] n by simp
    from assms(1,2) False h f hdev n obtain c s3 where c: "?chk = Some (c, s3)"
      by (cases ?chk) (auto simp: openusb_start_def in_lib_def multi_fresh_def fresh_def)
    have s3: "from_on ?s s3" "l_next ?s2 \<le> l_next s3"
    proof -
      show "from_on ?s s3" by (rule afterD [OF after_check [OF s2] c])
      have "from_on ?s2 ?s2" using s2 by (auto simp: from_on_def kept_def low_debug_def)
      from afterD [OF after_check [OF this] c] show "l_next ?s2 \<le> l_next s3" by (simp only: from_on_def kept_def)
    qed
    have c0: "c = 0" using assms(1,2) False h f hdev n c
      by (cases "c = 0") (auto simp: openusb_start_def in_lib_def multi_fresh_def fresh_def)
    let ?s4 = "s3\<lparr>l_req := (l_req s3)(Suc ?N := None)\<rparr>"
    have s4: "from_on ?s ?s4" by (rule from_on_new [OF s3(1)]) (use n in simp)
    obtain s5 p s6 where l: "lock_hdev hdev ?s4 = Some s5" "l_hdev s5 hdev = Some p"
      "unlock_hdev hdev (s5\<lparr>l_hdev := (l_hdev s5)(hdev \<mapsto> p\<lparr>hv_m_head := ls_add ?N (hv_m_head p)\<rparr>)\<rparr>) = Some s6"
      and m': "m' = m\<lparr>mu_lib := s6, mu_mi := (mu_mi m)(?N \<mapsto> \<lparr>mq_req_head = [], mq_mreq = handle, mq_flag = 0\<rparr>),
        mu_threads := mu_threads m @ (if me_create v = 0 then [(?N, MStart)] else [])\<rparr>"
      using assms(1,2) False h f hdev n c c0
      by (auto simp: openusb_start_def in_lib_def multi_fresh_def fresh_def bind_Some_iff Let_def split: if_splits)
    have s5: "from_on ?s s5" by (rule after_stateD [OF after_structure_locks(3) [OF s4] l(1)])
    have s6: "from_on ?s s6" by (rule after_stateD [OF after_structure_locks(4) l(3)]) (use s5 in simp)
    have "l_next s6 = l_next s3" using l by (auto simp: lock_hdev_def unlock_hdev_def lock_def unlock_def
        bind_Some_iff split: if_splits)
    then have "?N < l_next s6" using s3(2) by simp
    moreover have "\<forall>c \<in> set (if me_create v = 0 then [(?N, MStart)] else []). no_abort (snd c)"
      by (simp add: no_abort_def)
    moreover have "kept ?s s6" using s6 by (simp add: from_on_def)
    ultimately show ?thesis using m' n(1) False by blast
  qed
qed

lemma inv_start:
  assumes "openusb_start v handle m = Some (ret, m')" "\<forall>k. me_alloc v k" "multi_inv m"
  shows "multi_inv m'"
proof -
  from start_effect [OF assms] obtain s where s: "kept (mu_lib m) s" and c: "m' = m\<lparr>mu_lib := s\<rparr> \<or> handle \<noteq> 0 \<and>
    (\<exists>N ts. next_addr m \<le> N \<and> N < l_next s \<and> (\<forall>c \<in> set ts. no_abort (snd c)) \<and>
      m' = m\<lparr>mu_lib := s, mu_mi := (mu_mi m)(N \<mapsto> \<lparr>mq_req_head = [], mq_mreq = handle, mq_flag = 0\<rparr>),
        mu_threads := mu_threads m @ ts\<rparr>)" by blast
  have m1: "multi_inv (m\<lparr>mu_lib := s\<rparr>)" by (rule inv_lib [OF assms(3) s])
  show ?thesis
  proof (cases "m' = m\<lparr>mu_lib := s\<rparr>")
    case True
    then show ?thesis using m1 by simp
  next
    case False
    then obtain N ts where N: "next_addr m \<le> N" "N < l_next s" "\<forall>c \<in> set ts. no_abort (snd c)" "handle \<noteq> 0"
      and m': "m' = m\<lparr>mu_lib := s, mu_mi := (mu_mi m)(N \<mapsto> \<lparr>mq_req_head = [], mq_mreq = handle, mq_flag = 0\<rparr>),
        mu_threads := mu_threads m @ ts\<rparr>" using c by blast
    have e: "given_to N m = []" "reported_of N m = []" "\<forall>r \<in> set (mu_reports m). fst r \<noteq> N" "mu_mi m N = None"
      using multi_invD(7,8) [OF assms(3)] N(1) multi_invD(3) [OF assms(3), of N]
      by (fastforce simp: given_to_def reported_of_def filter_empty_conv mi_ok_def)+
    have g: "given_to j m' = given_to j m" "reported_of j m' = reported_of j m" "indices m' ps = indices m ps" for j ps
      by (simp_all add: m' given_to_def reported_of_def indices_def)
    have "mi_ok m' j z" if "mu_mi m' j = Some z" for j z
    proof (cases "j = N")
      case True
      then have z: "z = \<lparr>mq_req_head = [], mq_mreq = handle, mq_flag = 0\<rparr>" using that by (simp add: m')
      have "indices m' [] = []" by (simp add: indices_def)
      then show ?thesis using True z e g N by (auto simp: mi_ok_def mreq_flags m')
    next
      case False
      then have "mu_mi (m\<lparr>mu_lib := s\<rparr>) j = Some z" using that by (simp add: m')
      from multi_invD(3) [OF m1 this] show ?thesis
        by (simp add: mi_ok_def m' given_to_def reported_of_def indices_def)
    qed
    moreover have "req_known m' r" if "r \<in> mu_multi m" for r
    proof -
      have k: "req_known (m\<lparr>mu_lib := s\<rparr>) r" using multi_invD(5) [OF m1, of r] that by simp
      have "mu_mi m' i = Some z" if "mu_mi m i = Some z" for i z using that e(4) by (auto simp: m')
      moreover have f: "mu_args m' = mu_args (m\<lparr>mu_lib := s\<rparr>)" "mu_lib m' = mu_lib (m\<lparr>mu_lib := s\<rparr>)"
        "mu_mi (m\<lparr>mu_lib := s\<rparr>) = mu_mi m" by (simp_all add: m')
      ultimately show ?thesis using k unfolding req_known_def f by blast
    qed
    ultimately show ?thesis using m1 N unfolding multi_inv_def by (auto simp: m')
  qed
qed

lemma inv_add:
  assumes "openusb_add handle m = Some (ret, m')" "multi_inv m"
  shows "multi_inv m'"
proof (cases "handle = 0")
  case True
  then show ?thesis using assms by (simp add: openusb_add_def usbi_add_or_stop_def)
next
  case False
  let ?s = "mu_lib m"
  have s0: "from_on ?s ?s" using multi_invD(1) [OF assms(2)] by (simp add: from_on_def)
  from assms(1) False obtain h hdev s1 where f: "usbi_find_dev_handle (mh_dev h) ?s = Some (hdev, s1)"
    "mu_mreq m handle = Some h"
    by (auto simp: openusb_add_def usbi_add_or_stop_def bind_Some_iff in_lib_def)
  have s1: "from_on ?s s1" by (rule afterD [OF after_find [OF s0] f(1)])
  show ?thesis
  proof (cases "hdev = 0")
    case True
    then show ?thesis using assms False f s1 inv_lib [OF assms(2)]
      by (auto simp: openusb_add_def usbi_add_or_stop_def in_lib_def from_on_def)
  next
    case hdev: False
    then obtain s2 s3 k x where l: "lock_hdev hdev s1 = Some s2" "unlock_hdev hdev s2 = Some s3"
      and m': "mu_mi m k = Some x" "m' = m\<lparr>mu_lib := s3, mu_mi := (mu_mi m)(k \<mapsto> x\<lparr>mq_flag := USBI_MREQ_NEW_BUF\<rparr>)\<rparr>"
      using assms(1) False f by (auto simp: openusb_add_def usbi_add_or_stop_def bind_Some_iff in_lib_def)
    have s2: "from_on ?s s2" by (rule after_stateD [OF after_structure_locks(3) [OF s1] l(1)])
    have "from_on ?s s3" by (rule after_stateD [OF after_structure_locks(4) [OF s2] l(2)])
    then have "multi_inv (m\<lparr>mu_lib := s3\<rparr>)" using inv_lib [OF assms(2)] by (simp add: from_on_def)
    from inv_flag [OF this, of k x USBI_MREQ_NEW_BUF] show ?thesis using m' by (simp add: mreq_flags)
  qed
qed

section \<open>Every run\<close>

text \<open>The runs in which no multi-request is stopped.\<close>

inductive multi_runs :: "'a lib_scheme multi_env \<Rightarrow> 'a lib_scheme multi \<Rightarrow> 'a lib_scheme multi \<Rightarrow> bool"
  for v m0 where
  runs_none: "multi_runs v m0 m0"
| runs_step: "multi_runs v m0 m \<Longrightarrow> multi_step v m l m' \<Longrightarrow> \<forall>p. l \<noteq> MStops p \<Longrightarrow> multi_runs v m0 m'"

lemma inv_step:
  assumes "multi_step v m l m'" "\<forall>p. l \<noteq> MStops p" "multi_inv m"
    and q: "quiet_backend (me_backends v)" and av: "\<forall>k. me_alloc v k"
  shows "multi_inv m'"
  using assms(1)
proof cases
  case (multi_thread k mi pc pc' m1)
  have pc: "no_abort pc" using multi_invD(9) [OF assms(3) nth_mem [OF multi_thread(3)]] multi_thread(4) by simp
  have "multi_inv m1" "no_abort pc'" using inv_thread [OF q av assms(3) pc multi_thread(5)] by simp_all
  moreover have "\<forall>c \<in> set ((mu_threads m)[k := (mi, pc')]). no_abort (snd c)"
    using multi_invD(9) [OF assms(3)] calculation(2) set_update_subset_insert [of "mu_threads m" k "(mi, pc')"] by auto
  ultimately show ?thesis using multi_thread(2) by (simp add: inv_threads)
next
  case (multi_callback req ret)
  let ?m = "m\<lparr>mu_called := mu_called m + 1\<rparr>"
  have m1: "multi_inv ?m" using inv_called assms(3) by blast
  obtain r y x rs where r: "l_req (mu_lib ?m) req = Some r" "mu_args ?m (rq_arg r) = Some y" "ma_req y = req"
    "mu_mi ?m (ma_mi_req y) = Some x" "rq_arg r \<in> set (mq_req_head x)" and m': "m' = answered req r y x rs ?m"
    using callback_run [OF m1 av _ multi_callback(5)] multi_callback(4) by auto
  show ?thesis using inv_answered [OF m1 r] m' by simp
next
  case (multi_elsewhere s)
  then show ?thesis using inv_lib [OF assms(3)] by simp
next
  case (multi_buffers p h q)
  then show ?thesis using inv_mreq [OF assms(3)] multi_invD(6) [OF assms(3)] by auto
next
  case (multi_starts p ret)
  then show ?thesis using inv_start [OF _ av assms(3)] by blast
next
  case (multi_adds p ret)
  then show ?thesis using inv_add [OF _ assms(3)] by blast
next
  case (multi_stops p ret)
  then show ?thesis using assms(2) by blast
qed

lemma inv_runs:
  assumes "multi_runs v m m'" "multi_inv m" "quiet_backend (me_backends v)" "\<forall>k. me_alloc v k"
  shows "multi_inv m'"
  using assms by (induction rule: multi_runs.induct) (auto intro: inv_step)

text \<open>Before the first call of openusb_start.\<close>

definition multi_start :: "'a lib_scheme multi \<Rightarrow> bool" where
  "multi_start m \<longleftrightarrow> low_debug (mu_lib m) \<and> 0 < next_addr m \<and> mu_mi m = Map.empty \<and> mu_args m = Map.empty \<and>
     mu_multi m = {} \<and> mu_threads m = [] \<and> mu_given m = [] \<and> mu_reports m = [] \<and>
     (\<forall>p h. mu_mreq m p = Some h \<longrightarrow> mh_cb h)"

lemma runs_once:
  assumes "quiet_backend (me_backends v)" "\<forall>k. me_alloc v k" "multi_start m" "multi_runs v m m'"
    and "mu_mi m' mi = Some x"
  shows "mi_ok m' mi x"
proof -
  have "multi_inv m" using assms(3) by (simp add: multi_start_def multi_inv_def)
  then show ?thesis using multi_invD(3) [OF inv_runs] assms by blast
qed


end
