(* ===== verification/MultiStop.thy ===== *)
theory MultiStop
  imports MultiRun
begin

text \<open>
  What becomes of a multi-request that is stopped, or never started: structures that are freed
  and used again.
\<close>

section \<open>Stopping with transfers under way\<close>

lemma locks_req:
  "lock_io p s = Some t \<Longrightarrow> l_req t = l_req s" "unlock_io p s = Some t \<Longrightarrow> l_req t = l_req s"
  "add_complete q p s = Some t \<Longrightarrow> l_req t = l_req s"
  by (auto simp: lock_io_def unlock_io_def add_complete_def lock_def unlock_def bind_Some_iff Let_def split: if_splits)

text \<open>A request that is freed cannot be completed.\<close>

lemma complete_freed:
  assumes "l_io s io = Some z" "l_req s (io_req z) = None"
  shows "usbi_io_complete io st n s = None"
proof (rule ccontr)
  assume "usbi_io_complete io st n s \<noteq> None"
  then obtain s1 s2 s3 s4 where l: "lock_io io s = Some s1"
    "unlock_io io (s1\<lparr>l_io := (l_io s1)(io \<mapsto> z\<lparr>io_state := IO_COMPLETED\<rparr>)\<rparr>) = Some s2"
    "(if io_async z then do { h \<leftarrow> l_hdev (io_unlink io s2) (io_dev z); add_complete (hv_lib_hdl h) io (io_unlink io s2) }
      else Some (io_unlink io s2)) = Some s3" "lock_io io s3 = Some s4" "l_req s4 (io_req z) \<noteq> None"
    unfolding usbi_io_complete_def Let_def assms(1) by (fastforce simp del: bind_split_asm elim: bind_SomeE)
  have "l_req s3 = l_req (io_unlink io s2)"
    using l(3) by (auto simp: bind_Some_iff split: if_splits dest: locks_req)
  then show False
    using locks_req(1) [OF l(1)] locks_req(2) [OF l(2)] locks_req(1) [OF l(4)] l(5) assms(2) by simp
qed

text \<open>
  C38. openusb_stop with a transfer under way. The thread waits, the flag says stopped, and the
  first entry a of req_head belongs to a request that a usbi_io carries. The thread then cancels
  that request through openusb_abort, and both orders of what follows end in freed memory. If the
  cancelled request is reported first, multi_req_callback frees the request and its arguments, and
  the thread reads and frees them again. If the thread goes on first, it frees both, and the
  library then cannot complete the request without touching it, nor can the callback run.
\<close>

theorem multi_stop_in_flight:
  assumes x: "mu_mi m mi = Some x" "mq_flag x = USBI_MREQ_STOPPED" "mq_req_head x = a # as" "a \<noteq> 0" "mq_mreq x \<noteq> 0"
    and y: "mu_args m a = Some y" "ma_req y = req" "ma_mi_req y = mi" "\<forall>k. me_alloc v k"
    and ab: "openusb_abort (me_backends v) req (mu_lib m) = Some (ret, s)"
    and r: "l_req s req = Some r" "rq_arg r = a" "l_io s io = Some z" "io_req z = req" "l_held s = {}" "0 < l_next s"
  shows "\<exists>t. run_thread v mi 2 (MWait mh ty, m) = Some (MAborted a t, m\<lparr>mu_lib := s\<rparr>) \<and>
    (\<forall>res m'. multi_req_callback v req (m\<lparr>mu_lib := s\<rparr>) = Some (res, m') \<longrightarrow>
       thread_multi v mi (MAborted a t) m' = None) \<and>
    (\<forall>c. thread_multi v mi (MAborted a t) (m\<lparr>mu_lib := s\<rparr>) = Some c \<longrightarrow>
       usbi_io_complete io st n (mu_lib (snd c)) = None \<and> multi_req_callback v req (snd c) = None)"
proof (intro exI conjI allI impI)
  let ?m1 = "m\<lparr>mu_lib := s\<rparr>" and ?t = "next_of a (a # as)"
  show "run_thread v mi 2 (MWait mh ty, m) = Some (MAborted a ?t, ?m1)"
    using x y ab by (simp add: eval_nat_numeral mreq_flags stop_walk_def first_of_def in_lib_def)
  show "thread_multi v mi (MAborted a ?t) m' = None" if c: "multi_req_callback v req ?m1 = Some (res, m')" for res m'
  proof -
    have e: "multi_req_callback v req ?m1 = (if unlinkable a (a # as) ?m1 then do {
        h \<leftarrow> mu_mreq m (mq_mreq x);
        rs \<leftarrow> copy_results (mh_type h) (mh_req h) (ma_idx y) (rq_req r);
        let m' = ?m1\<lparr>mu_mi := (mu_mi m)(mi \<mapsto> x\<lparr>mq_req_head := ls_del a (a # as)\<rparr>),
          mu_lib := s\<lparr>l_next := l_next s + 1, l_req := (l_req s)(req := None)\<rparr>, mu_args := (mu_args m)(a := None)\<rparr>;
        Some (if mh_cb h then (me_user v (mq_mreq x) (ma_idx y) rs,
          m'\<lparr>mu_reports := mu_reports m @ [(mi, mq_mreq x, ma_idx y, rs)]\<rparr>) else (0, m')) } else None)"
      using x y r by (simp add: multi_req_callback_def multi_fresh_def fresh_def Let_def cong: if_cong)
    have "mu_args m' a = None"
      using c [unfolded e] by (auto simp: Let_def bind_Some_iff split: if_splits)
    then show ?thesis by simp
  qed
  show "usbi_io_complete io st n (mu_lib (snd c)) = None"
    and "multi_req_callback v req (snd c) = None" if t: "thread_multi v mi (MAborted a ?t) ?m1 = Some c" for c
  proof -
    let ?m2 = "?m1\<lparr>mu_lib := s\<lparr>l_req := (l_req s)(req := None)\<rparr>, mu_args := (mu_args m)(a := None)\<rparr>"
    have "stop_walk mi ?t ?m2 = Some c" using t x y r by simp
    then have c: "mu_lib (snd c) = mu_lib ?m2"
      by (auto simp: stop_walk_def bind_Some_iff split: if_splits)
    show "multi_req_callback v req (snd c) = None" using c by (simp add: multi_req_callback_def)
    show "usbi_io_complete io st n (mu_lib (snd c)) = None"
      by (rule complete_freed [where z = z]) (use c r in simp_all)
  qed
qed

section \<open>Stopped, and still on the list\<close>

lemma find_multi_freed:
  assumes "mu_mi m mi = None" "\<forall>q \<in> set qs. \<exists>x. mu_mi m q = Some x \<and> mq_mreq x \<noteq> handle"
  shows "find_multi handle (qs @ mi # rs) m = None"
  using assms by (induction qs) auto

text \<open>
  What a stop leaves behind. When no transfer is under way the thread frees the multi-request
  and ends, and the multi-request stays on the list of the device handle. So a later call of
  openusb_stop or openusb_add there, for the same handle or for one that stands behind it in the
  list, reads freed memory, and so does the next openusb_start when it is the last of the list.
  A call of openusb_start whose request check_req_valid refuses frees its multi-request and goes
  on with it: it always reads freed memory, instead of returning an error.
\<close>

theorem multi_freed_then_used:
  assumes x: "mu_mi m mi = Some x" "mq_flag x = USBI_MREQ_STOPPED" "mq_req_head x = []"
    and h: "mu_mreq m handle = Some h" "handle \<noteq> 0" "usbi_find_dev_handle (mh_dev h) (mu_lib m) = Some (hdev, mu_lib m)"
    and p: "l_hdev (mu_lib m) hdev = Some p" "hv_m_head p = qs @ mi # rs" "hdev \<noteq> 0" "l_held (mu_lib m) = {}"
      "\<forall>q \<in> set qs. q \<noteq> mi \<and> (\<exists>y. mu_mi m q = Some y \<and> mq_mreq y \<noteq> handle)"
  shows "\<exists>m'. thread_multi v mi (MWait mh ty) m = Some (MEnd 0, m') \<and> mu_mi m' mi = None \<and>
    openusb_stop handle m' = None \<and> openusb_add handle m' = None"
proof -
  let ?m = "m\<lparr>mu_mi := (mu_mi m)(mi := None)\<rparr>"
  have t: "thread_multi v mi (MWait mh ty) m = Some (MEnd 0, ?m)"
    using x by (simp add: mreq_flags stop_walk_def first_of_def)
  have f: "find_multi handle (qs @ mi # rs) (?m\<lparr>mu_lib := s\<rparr>) = None" for s
    by (rule find_multi_freed) (use p(5) in auto)
  have "usbi_add_or_stop handle f ?m = None" for f
    using h p f by (simp add: usbi_add_or_stop_def in_lib_def lock_hdev_def lock_def)
  then show ?thesis using t by (intro exI [of _ ?m]) (simp add: openusb_stop_def openusb_add_def)
qed

lemma start_refused_uses_freed:
  assumes "mu_mreq m handle = Some h" "handle \<noteq> 0" "\<forall>k. me_alloc v k" "0 < l_next (mu_lib m)"
    and "usbi_find_dev_handle (mh_dev h) (mu_lib m) = Some (hdev, mu_lib m)" "hdev \<noteq> 0"
    and "\<And>req s c t. check_req_valid (me_alloc v) (me_backends v) (me_big_endian v) (me_others v) (me_junk v) req hdev s =
      Some (c, t) \<Longrightarrow> c \<noteq> 0"
  shows "openusb_start v handle m = None"
proof -
  let ?s = "mu_lib m"
  let ?chk = "check_req_valid (me_alloc v) (me_backends v) (me_big_endian v) (me_others v) (me_junk v) (Suc (l_next ?s)) hdev
    (?s\<lparr>l_next := Suc (Suc (l_next ?s)), l_req := (l_req ?s)(Suc (l_next ?s) \<mapsto> \<lparr>rq_dev = mh_dev h,
       rq_interface = mh_interface h, rq_endpoint = mh_endpoint h, rq_type = mh_type h, rq_req = null_request,
       rq_cb = False, rq_arg = 0\<rparr>)\<rparr>)"
  show ?thesis
  proof (cases ?chk)
    case None
    then show ?thesis using assms(1-6) by (simp add: openusb_start_def in_lib_def multi_fresh_def fresh_def)
  next
    case (Some ct)
    then show ?thesis using assms(1-6) assms(7) [of "Suc (l_next ?s)" _ "fst ct" "snd ct"]
      by (cases ct) (simp add: openusb_start_def in_lib_def multi_fresh_def fresh_def)
  qed
qed

section \<open>Isochronous multi-requests\<close>

text \<open>
  process_multi_request leaves isoc_results NULL, so no isochronous part can be completed: the
  library writes its status through the null pointer.
\<close>

lemma isoc_part_faults:
  assumes "req_part USB_TYPE_ISOCHRONOUS q i = Some part"
  shows "set_result USB_TYPE_ISOCHRONOUS st n part = None"
  using assms by (auto simp: req_part_def set_result_def usb_types wr_def bind_Some_iff split: openusb_multi_request.split_asm)

end
