(* ===== verification/MultiLinux.thy ===== *)
theory MultiLinux
  imports MultiOnce MultiStop LinuxBackend
begin

text \<open>
  The Linux backend keeps the law of quiet_backend, so multi-requests on Linux report every buffer
  once.
\<close>

section \<open>The submission functions keep the requests\<close>

lemma from_on_linux [simp]:
  "from_on s (t\<lparr>lx_io := a\<rparr>) = from_on s t" "from_on s (t\<lparr>lx_log := b\<rparr>) = from_on s t"
  by (simp_all add: from_on_def kept_def low_debug_def)

lemma from_on_next [simp]: "from_on s t \<Longrightarrow> l_next t \<le> n \<Longrightarrow> from_on s (t\<lparr>l_next := n\<rparr>)"
  by (auto simp: from_on_def kept_def)

lemmas [kept_rules] = read_rule [where m = "lx_io s p" for s p] read_rule [where m = "lx_hdev s p" for s p]
  read_rule [where m = "urb_at p s" for p s] read_rule [where m = "bulk_request r" for r]
  read_rule [where m = "ctrl_buffer be c" for be c] read_rule [where m = "isoc_urb p io ps n" for p io ps n]
  read_rule [where m = "wr xs i x" for xs i x] read_rule [where m = "rdn xs i n" for xs i n]

lemma after_priv: "from_on s0 s \<Longrightarrow> after_state s0 (upd_priv io f s)" "from_on s0 s \<Longrightarrow> after_state s0 (set_state io st s)"
  by (auto simp: upd_priv_def set_state_def intro!: kept_rules)

lemmas [kept_rules] = state_rule [OF after_priv(1)] state_rule [OF after_priv(2)]

lemma after_wakeup: "from_on s0 s \<Longrightarrow> after s0 (wakeup_io_thread K hdev s)"
  by (auto simp: wakeup_io_thread_def sys_def Let_def split: prod.split intro!: kept_rules)

lemma after_urb_submit: "from_on s0 s \<Longrightarrow> after s0 (urb_submit K hdev p s)"
  by (auto simp: urb_submit_def sys_def intro!: kept_rules)

lemmas [kept_rules] = op_rule [OF after_wakeup] op_rule [OF after_urb_submit]

lemma after_discard: "from_on s0 s \<Longrightarrow> after_state s0 (discard_loop K hdev io is s)"
  by (induction "is" arbitrary: s)
    (auto simp: discard_one_def sys_def Let_def after_priv split: prod.split intro!: kept_rules state_rule)

lemmas [kept_rules] = state_rule [OF after_discard]

lemma after_discards:
  "from_on s0 s \<Longrightarrow> after_state s0 (discard_urbs K hdev io act s)"
  "from_on s0 s \<Longrightarrow> after_state s0 (handle_partial_submit K hdev io i s)"
  "from_on s0 s \<Longrightarrow> after_state s0 (free_isoc_urbs io s)" "from_on s0 s \<Longrightarrow> after_state s0 (set_iso_urb io i u s)"
  by (auto simp: discard_urbs_def handle_partial_submit_def free_isoc_urbs_def set_iso_urb_def after_discard after_priv
      split: urb_mem.split intro!: kept_rules)

lemmas [kept_rules] = state_rule [OF after_discards(1)] state_rule [OF after_discards(2)]
  state_rule [OF after_discards(3)] state_rule [OF after_discards(4)]

lemma after_ends:
  "from_on s0 s \<Longrightarrow> after s0 (submit_end K hdev io ret s)" "from_on s0 s \<Longrightarrow> after s0 (submit_failed hdev io e s)"
  by (auto simp: submit_end_def submit_failed_def intro!: kept_rules)

lemmas [kept_rules] = op_rule [OF after_ends(2)]

lemma after_ctrl: "from_on s0 s \<Longrightarrow> after s0 (linux_submit_ctrl av be K hdev io s)"
  by (auto simp: linux_submit_ctrl_def alloc_priv_def fresh_def Let_def after_ends
      split: openusb_request.split intro!: kept_rules)

lemma after_bulk_loop: "from_on s0 s \<Longrightarrow> after s0 (bulk_loop K hdev io ep ty len n is s)"
  by (induction "is" arbitrary: s) (auto simp: Let_def split: urb_mem.split intro!: kept_rules)

lemmas [kept_rules] = op_rule [OF after_bulk_loop]

lemma after_bulk: "from_on s0 s \<Longrightarrow> after s0 (linux_submit_bulk_intr av K hdev io s)"
  by (auto simp: linux_submit_bulk_intr_def alloc_priv_def fresh_def Let_def after_ends
      split: option.split sum.split intro!: kept_rules)

lemma after_isoc_make: "from_on s0 s \<Longrightarrow> after s0 (isoc_make av ep io is ps s)"
  by (induction "is" arbitrary: s ps) (auto simp: fresh_def Let_def split: prod.split intro!: kept_rules)

lemma after_isoc_loop: "from_on s0 s \<Longrightarrow> after s0 (isoc_loop K hdev io is s)"
  by (induction "is" arbitrary: s) (auto intro!: kept_rules)

lemmas [kept_rules] = op_rule [OF after_isoc_make] op_rule [OF after_isoc_loop]

lemma after_isoc: "from_on s0 s \<Longrightarrow> after s0 (linux_submit_isoc av K hdev io s)"
  by (auto simp: linux_submit_isoc_def alloc_priv_def fresh_def Let_def after_ends
      split: openusb_request.split sum.split intro!: kept_rules)

lemma after_cancel: "from_on s0 s \<Longrightarrow> after s0 (linux_io_cancel K io s)"
  by (auto simp: linux_io_cancel_def intro!: kept_rules)

text \<open>So the backend table of linux.c keeps the law.\<close>

interpretation linux_quiet: quiet_backend "\<lambda>_. linux_ops e C" for e C
proof
  have on: "after s X \<Longrightarrow> X = Some (r, t) \<Longrightarrow> kept s t" for s t :: "'a linux_scheme" and X r
    by (simp add: from_on_def)
  have start: "low_debug s \<Longrightarrow> from_on s s" for s :: "'a linux_scheme" by (simp add: from_on_def)
  show "low_debug s \<Longrightarrow> do_xfer_aio (linux_ops e C) ty p io s = Some (r, t) \<Longrightarrow> kept s t"
    for n :: nat and ty p io and s t :: "'a linux_scheme" and r
    using on [OF after_ctrl [OF start]] on [OF after_bulk [OF start]] on [OF after_isoc [OF start]]
    by (auto simp: linux_ops_def linux_xfer_aio_def split: if_splits)
  show "low_debug s \<Longrightarrow> do_io_cancel (linux_ops e C) = Some cancel \<Longrightarrow> cancel io s = Some (r, t) \<Longrightarrow> kept s t"
    for n :: nat and cancel io and s t :: "'a linux_scheme" and r
    using on [OF after_cancel [OF start]] by (auto simp: linux_ops_def)
qed

text \<open>On Linux, therefore, every buffer is reported as often as it was passed on, less those that wait.\<close>

lemma linux_multi_once:
  assumes "me_backends v = (\<lambda>_. linux_ops e C)" "\<forall>k. me_alloc v k" "multi_start m" "multi_runs v m m'"
    and "mu_mi m' mi = Some x"
  shows "mset (given_to mi m') = mset (indices m' (mq_req_head x)) + mset (reported_of mi m')"
proof -
  have "quiet_backend (me_backends v)" unfolding assms(1) by (rule linux_quiet.quiet_backend_axioms)
  from runs_once [OF this assms(2-5)] show ?thesis by (simp add: mi_ok_def)
qed

end
