(* ===== verification/MultiCases.thy ===== *)
theory MultiCases
  imports MultiLinux ReqCases
begin

text \<open>
  The theorems on multi-requests on the instance of LibCases and ReqCases: a bulk multi-request
  of two buffers at address 30 for the device handle 1.
\<close>

definition ex_multi_data :: multi_data where
  "ex_multi_data = \<lparr>md_payloads = [[1, 2], [3]], md_lengths = [2, 1], md_num_bufs = 2, md_rp = 0,
     md_timeout = 100, md_flags = 0\<rparr>"

definition ex_multi_handle :: openusb_multi_request_handle where
  "ex_multi_handle = \<lparr>mh_dev = 1, mh_interface = 0, mh_endpoint = 2, mh_type = USB_TYPE_BULK,
     mh_req = MBulk ex_multi_data, mh_cb = True\<rparr>"

definition ex_multi_env :: "lib multi_env" where
  "ex_multi_env = \<lparr>me_alloc = \<lambda>_. True, me_backends = ex_B, me_big_endian = False, me_create = 0,
     me_others = Some, me_junk = ex_junk, me_user = \<lambda>_ _ _. 0\<rparr>"

definition ex_multi :: "lib multi" where
  "ex_multi = \<lparr>mu_lib = ex_ready, mu_mi = Map.empty, mu_args = Map.empty, mu_mreq = [30 \<mapsto> ex_multi_handle],
     mu_threads = [], mu_multi = {}, mu_called = 0, mu_given = [], mu_reports = []\<rparr>"

lemma ex_multi_fields [simp]:
  "mu_lib ex_multi = ex_ready" "mu_mi ex_multi = Map.empty" "mu_args ex_multi = Map.empty"
  "mu_mreq ex_multi = [30 \<mapsto> ex_multi_handle]" "mu_threads ex_multi = []" "mu_multi ex_multi = {}"
  "mu_given ex_multi = []" "mu_reports ex_multi = []"
  "mh_dev ex_multi_handle = 1" "mh_interface ex_multi_handle = 0" "mh_endpoint ex_multi_handle = 2"
  "mh_type ex_multi_handle = USB_TYPE_BULK" "mh_req ex_multi_handle = MBulk ex_multi_data" "mh_cb ex_multi_handle"
  "me_alloc ex_multi_env k" "me_backends ex_multi_env = ex_B" "me_create ex_multi_env = 0"
  by (simp_all add: ex_multi_def ex_multi_handle_def ex_multi_env_def)

lemma ex_parts:
  "req_num USB_TYPE_BULK (MBulk ex_multi_data) = Some 2"
  "req_part USB_TYPE_BULK (MBulk ex_multi_data) 0 = Some (Bulk \<lparr>dr_payload = [1, 2], dr_length = 2, dr_timeout = 100,
     dr_flags = 0, dr_status = 0, dr_transferred = 0\<rparr>)"
  "req_part USB_TYPE_BULK (MBulk ex_multi_data) (Suc 0) = Some (Bulk \<lparr>dr_payload = [3], dr_length = 1, dr_timeout = 100,
     dr_flags = 0, dr_status = 0, dr_transferred = 0\<rparr>)"
  by (simp_all add: req_num_def req_part_def data_part_def ex_multi_data_def rd_def)

interpretation ex_quiet: quiet_backend ex_B
  by unfold_locales (auto simp: ex_B_def ex_ops_def)

section \<open>A turn\<close>

lemma ex_multi_ready: "multi_ready ex_multi_env ex_multi_handle 2 10 ex_claimed (ex_dev 1) ex_bus64"
proof -
  have "takes_aio ex_B ex_bus64 (ex_dev 1) 10" by (simp add: takes_aio_def ex_B_def ex_ops_def)
  moreover have "\<exists>q. req_part USB_TYPE_BULK (MBulk ex_multi_data) j = Some q \<and>
      (\<forall>a. permitted ex_claimed (part_handle ex_multi_handle a q) \<and> \<not> too_long (part_handle ex_multi_handle a q) ex_bus64)"
    if "j < 2" for j :: nat
    using that ex_parts by (auto simp: less_2_cases_iff permitted_def part_handle_def USBI_MAXINTERFACES_def
        USBI_IFC_CLAIMED_def too_long_def ex_bus64_def usb_types Let_def)
  ultimately show ?thesis using ex_parts(1) by (simp add: multi_ready_def)
qed

text \<open>The flag says stopped when the turn begins; the stop is forgotten.\<close>

lemma multi_turn_witness:
  "\<exists>m' as ios. run_thread ex_multi_env 20 5 (MLoop 30 USB_TYPE_BULK,
       ex_multi\<lparr>mu_mi := [20 \<mapsto> \<lparr>mq_req_head = [], mq_mreq = 30, mq_flag = USBI_MREQ_STOPPED\<rparr>]\<rparr>) =
     Some (MWait 30 USB_TYPE_BULK, m') \<and> length as = 2 \<and>
     mu_mi m' 20 = Some \<lparr>mq_req_head = as, mq_mreq = 30, mq_flag = USBI_MREQ_NO_NEW_BUF\<rparr> \<and>
     part_of ex_multi_handle 20 1 (as ! 1) (ios ! 1) m'"
proof -
  let ?x = "\<lparr>mq_req_head = [], mq_mreq = 30, mq_flag = USBI_MREQ_STOPPED\<rparr>"
  let ?m = "ex_multi\<lparr>mu_mi := [20 \<mapsto> ?x]\<rparr>"
  have m: "mu_mi ?m 20 = Some ?x" "mu_mreq ?m 30 = Some ex_multi_handle"
    "open_at (mh_dev ex_multi_handle) 10 ex_claimed (ex_dev 1) ex_bus64 (mu_lib ?m)"
    using ex_open_at by simp_all
  from multi_turn [OF ex_multi_ready m] obtain m' as ios
    where t: "run_thread ex_multi_env 20 (2 * 2 + 1) (MLoop 30 (mh_type ex_multi_handle), ?m) =
        Some (MWait 30 (mh_type ex_multi_handle), m')" "length as = 2"
      "\<forall>j < 2. part_of ex_multi_handle 20 j (as ! j) (ios ! j) m'"
      "mu_mi m' 20 = Some (?x\<lparr>mq_req_head := mq_req_head ?x @ as, mq_flag := USBI_MREQ_NO_NEW_BUF\<rparr>)" by blast
  have "(2::nat) * 2 + 1 = 5" by simp
  with t show ?thesis by (intro exI [of _ m'] exI [of _ as] exI [of _ ios]) (simp only: ex_multi_fields, simp)
qed

section \<open>Passing buffers on\<close>

text \<open>openusb_start, and two steps of the thread that it creates.\<close>

definition ex_started :: "lib multi" where
  "ex_started = ex_multi\<lparr>mu_lib := ex_ready\<lparr>l_next := 22, l_hdev := [10 \<mapsto> ex_claimed\<lparr>hv_m_head := [20]\<rparr>],
       l_req := [11 \<mapsto> ex_req], l_held := {}\<rparr>,
     mu_mi := [20 \<mapsto> \<lparr>mq_req_head = [], mq_mreq = 30, mq_flag = 0\<rparr>], mu_threads := [(20, MStart)]\<rparr>"

lemma ex_start: "openusb_start ex_multi_env 30 ex_multi = Some (0, ex_started)"
proof -
  let ?r = "\<lparr>rq_dev = 1, rq_interface = 0, rq_endpoint = 2, rq_type = USB_TYPE_BULK, rq_req = null_request,
    rq_cb = False, rq_arg = 0\<rparr>"
  let ?s = "ex_ready\<lparr>l_next := 22, l_req := [11 \<mapsto> ex_req, 21 \<mapsto> ?r]\<rparr>"
  have o: "open_at 1 10 ex_claimed (ex_dev 1) ex_bus64 ?s"
    by (rule open_at_cong [OF _ _ _ _ _ _ _ _ _ ex_open_at]) simp_all
  have "permitted ex_claimed ?r" by (simp add: permitted_def USBI_MAXINTERFACES_def USBI_IFC_CLAIMED_def)
  then have c: "check_req_valid (\<lambda>_. True) ex_B False Some ex_junk 21 10 ?s = Some (0, ?s)"
    using check_req_run [of ?r 10 ex_claimed "ex_dev 1" ex_bus64 ?s 21] o by simp
  have f: "usbi_find_dev_handle 1 ex_ready = Some (10, ex_ready)" using open_atD(1) [OF ex_open_at] .
  have e: "me_alloc ex_multi_env = (\<lambda>_. True)" "me_big_endian ex_multi_env = False" "me_others ex_multi_env = Some"
    "me_junk ex_multi_env = ex_junk" by (simp_all add: ex_multi_env_def)
  have h: "hv_m_head ex_claimed = []" by (simp add: ex_claimed_def ex_handle_def ex_hdev_def)
  show ?thesis using c f h
    by (simp add: openusb_start_def in_lib_def multi_fresh_def fresh_def e last_live_def lock_hdev_def unlock_hdev_def
        lock_def unlock_def ls_add_def ex_started_def)
qed

lemma ex_started_fields [simp]:
  "mu_mi ex_started = [20 \<mapsto> \<lparr>mq_req_head = [], mq_mreq = 30, mq_flag = 0\<rparr>]" "mu_threads ex_started = [(20, MStart)]"
  "mu_mreq ex_started = [30 \<mapsto> ex_multi_handle]" "l_next (mu_lib ex_started) = 22" "mu_args ex_started = Map.empty"
  "mu_given ex_started = []" "mu_reports ex_started = []"
  by (simp_all add: ex_started_def)

lemma ex_started_find: "usbi_find_dev_handle 1 (mu_lib ex_started) = Some (10, mu_lib ex_started)"
  by (simp add: usbi_find_dev_handle_def ex_started_def lock_def unlock_def lock_hdev_def ex_ready_def)


section \<open>Stopping\<close>

text \<open>The request at 11 is under way, as part of the multi-request at 20.\<close>

definition ex_flying :: "lib multi" where
  "ex_flying = ex_multi\<lparr>mu_lib := ex_ready\<lparr>l_req := [11 \<mapsto> ex_req\<lparr>rq_cb := True, rq_arg := 40\<rparr>], l_io := [12 \<mapsto> ex_io],
       l_hdev := [10 \<mapsto> ex_claimed\<lparr>hv_io_head := [12]\<rparr>]\<rparr>,
     mu_mi := [20 \<mapsto> \<lparr>mq_req_head = [40], mq_mreq = 30, mq_flag = USBI_MREQ_STOPPED\<rparr>],
     mu_args := [40 \<mapsto> \<lparr>ma_mi_req = 20, ma_idx = 0, ma_req = 11\<rparr>]\<rparr>"

lemma multi_stop_in_flight_witness:
  "\<exists>t m. run_thread ex_multi_env 20 2 (MWait 30 USB_TYPE_BULK, ex_flying) = Some (MAborted 40 t, m) \<and>
     (\<forall>res m'. multi_req_callback ex_multi_env 11 m = Some (res, m') \<longrightarrow>
       thread_multi ex_multi_env 20 (MAborted 40 t) m' = None)"
proof -
  let ?s = "mu_lib ex_flying"
  have "dev_ops ex_B 10 ?s = Some (ex_B 0)" by (simp add: dev_ops_def ex_flying_def) (simp add: ex_dev_def)
  moreover have "do_io_cancel (ex_B 0) = Some (\<lambda>io s. Some (0, s))" by (simp add: ex_B_def ex_ops_def)
  ultimately have "openusb_abort ex_B 11 ?s = Some (0, ?s)"
    by (simp add: openusb_abort_def ex_flying_def lock_def unlock_def lock_hdev_def unlock_hdev_def dev_ops_def held_same)
  then show ?thesis
    using multi_stop_in_flight [of ex_flying 20 "\<lparr>mq_req_head = [40], mq_mreq = 30, mq_flag = USBI_MREQ_STOPPED\<rparr>" 40 "[]"
        "\<lparr>ma_mi_req = 20, ma_idx = 0, ma_req = 11\<rparr>" 11 ex_multi_env 0 ?s "ex_req\<lparr>rq_cb := True, rq_arg := 40\<rparr>" 12 ex_io
        30 USB_TYPE_BULK 0 0] by (auto simp: ex_flying_def)
qed

lemma multi_freed_then_used_witness:
  "\<exists>m'. thread_multi ex_multi_env 20 (MWait 30 USB_TYPE_BULK)
       (ex_started\<lparr>mu_mi := [20 \<mapsto> \<lparr>mq_req_head = [], mq_mreq = 30, mq_flag = USBI_MREQ_STOPPED\<rparr>]\<rparr>) = Some (MEnd 0, m') \<and>
     openusb_stop 30 m' = None"
proof -
  let ?x = "\<lparr>mq_req_head = [], mq_mreq = 30, mq_flag = USBI_MREQ_STOPPED\<rparr>"
  let ?m = "ex_started\<lparr>mu_mi := [20 \<mapsto> ?x]\<rparr>"
  have h: "l_hdev (mu_lib ?m) 10 = Some (ex_claimed\<lparr>hv_m_head := [20]\<rparr>)" "l_held (mu_lib ?m) = {}"
    by (simp_all add: ex_started_def)
  show ?thesis
    using multi_freed_then_used [of ?m 20 ?x 30 ex_multi_handle 10 "ex_claimed\<lparr>hv_m_head := [20]\<rparr>" "[]" "[]" ex_multi_env 30 USB_TYPE_BULK]
      ex_started_find h by auto
qed

end
