(* ===== verification/SunState.thy ===== *)
theory SunState
  imports BackendLib
begin

text \<open>
  The data of the Solaris backend (sunos.h and the head of sunos.c). It reaches a device through
  the files of the ugen driver: for every endpoint one for its data and one for the status of the
  last transfer. The operating system is a parameter that answers open, close, read, write and
  pthread_create; it sees the state, in which su_log records the calls with their results, in
  order. Which descriptors are open follows from that record (open_fds).

  The codes that ugen gives as a status are constants of a header of the system: L maps their
  names to numbers.
\<close>

section \<open>Status codes\<close>

datatype lc_stat = LC_NOERROR | LC_CRC | LC_DEV_NOT_RESP | LC_BITSTUFFING | LC_UNEXP_PID
  | LC_DATA_OVERRUN | LC_DATA_UNDERRUN | LC_BUFFER_OVERRUN | LC_BUFFER_UNDERRUN
  | LC_PID_CHECKFAILURE | LC_DATA_TOGGLE_MM | LC_TIMEOUT | LC_STALL

definition ugen_lc2libstat_table :: "(lc_stat \<Rightarrow> int) \<Rightarrow> (int \<times> int) list" where
  "ugen_lc2libstat_table L =
    [(L LC_NOERROR, OPENUSB_SUCCESS),
     (L LC_CRC, OPENUSB_IO_CRC_ERROR),
     (L LC_DEV_NOT_RESP, OPENUSB_IO_DEVICE_HUNG),
     (L LC_BITSTUFFING, OPENUSB_IO_BIT_STUFFING),
     (L LC_UNEXP_PID, OPENUSB_IO_UNEXPECTED_PID),
     (L LC_DATA_OVERRUN, OPENUSB_IO_DATA_OVERRUN),
     (L LC_DATA_UNDERRUN, OPENUSB_IO_DATA_UNDERRUN),
     (L LC_BUFFER_OVERRUN, OPENUSB_IO_BUFFER_OVERRUN),
     (L LC_BUFFER_UNDERRUN, OPENUSB_IO_BUFFER_UNDERRUN),
     (L LC_PID_CHECKFAILURE, OPENUSB_IO_PID_CHECK_FAILURE),
     (L LC_DATA_TOGGLE_MM, OPENUSB_IO_DATA_TOGGLE_MISMATCH),
     (L LC_TIMEOUT, OPENUSB_IO_TIMEOUT),
     (L LC_STALL, OPENUSB_IO_STALL)]"

text \<open>
  The loop runs to sizeof (the table), its size in bytes: a code that no entry has is looked for
  behind the end, which is undefined.
\<close>

fun lc_loop :: "(int \<times> int) list \<Rightarrow> nat \<Rightarrow> int \<Rightarrow> int option" where
  "lc_loop [] n lc = (if n = 0 then Some OPENUSB_PLATFORM_FAILURE else None)"
| "lc_loop (e # es) n lc = (if n = 0 then Some OPENUSB_PLATFORM_FAILURE
     else if fst e = lc then Some (snd e) else lc_loop es (n - 1) lc)"

definition ugen_lc2libstat :: "(lc_stat \<Rightarrow> int) \<Rightarrow> int \<Rightarrow> int option" where
  "ugen_lc2libstat L lc = (let t = ugen_lc2libstat_table L in lc_loop t (8 * length t) lc)"

section \<open>Files\<close>

text \<open>PATH_MAX of Solaris; snprintf cuts a name to that, less the terminating zero.\<close>

definition SUN_PATH_MAX :: nat where "SUN_PATH_MAX = 1024"

definition sun_path :: "string \<Rightarrow> string" where
  "sun_path p = take (SUN_PATH_MAX - 1) p"

datatype sun_mode = RdOnly | WrOnly | RdWr

datatype sun_call = SOpen string sun_mode | SClose | SRead nat | SReadStatus | SWrite "u8 list"
  | SThread

text \<open>
  An answer: the return value and errno, the bytes a read stores, and the int that a read of a
  status file stores.
\<close>

record sun_answer =
  sa_ret :: int
  sa_errno :: int
  sa_data :: "nat \<Rightarrow> u8"
  sa_status :: int

section \<open>The state\<close>

text \<open>The two descriptors of each endpoint, ISOC_IN_INITED of epflags, and ep_interface.\<close>

record sun_hdl =
  sh_eps :: "(int \<times> int) list"
  sh_epflags :: "bool list"
  sh_ep_interface :: "int list"

text \<open>A device; a null pointer to a string is None, one to a handle is 0.\<close>

record sun_dev =
  sd_devlink :: "string option"
  sd_ugenpath :: "string option"
  sd_ap_ancestry :: "string option"
  sd_udi :: "string option"
  sd_ref_count :: int
  sd_ep0_fd :: int
  sd_ep0_fd_stat :: int
  sd_claimed :: "addr list"

text \<open>
  su_model is the kind of the root hub of a bus, su_found the devices whose member found is set,
  su_children the arrays of child pointers, su_root the root device of a bus.
\<close>

record sunos = lib +
  su_hdev :: "addr \<rightharpoonup> sun_hdl"
  su_dev :: "addr \<rightharpoonup> sun_dev"
  su_model :: "addr \<rightharpoonup> nat"
  su_found :: "addr set"
  su_children :: "addr \<rightharpoonup> addr list"
  su_root :: "addr \<Rightarrow> addr"
  su_busnum :: u32
  su_inited :: int
  su_log :: "(int \<times> sun_call \<times> int) list"

type_synonym 's sun_kernel = "int \<Rightarrow> sun_call \<Rightarrow> 's \<Rightarrow> sun_answer"

definition sun_sys :: "'a sunos_scheme sun_kernel \<Rightarrow> int \<Rightarrow> sun_call \<Rightarrow> 'a sunos_scheme \<Rightarrow> sun_answer \<times> 'a sunos_scheme" where
  "sun_sys K fd c s = (let a = K fd c s in (a, s\<lparr>su_log := su_log s @ [(fd, c, sa_ret a)]\<rparr>))"

text \<open>open: the descriptor and errno. close, whose result nobody looks at.\<close>

definition sun_open_file :: "'a sunos_scheme sun_kernel \<Rightarrow> string \<Rightarrow> sun_mode \<Rightarrow> 'a sunos_scheme \<Rightarrow> (int \<times> int) \<times> 'a sunos_scheme" where
  "sun_open_file K path mode s = (let (a, s) = sun_sys K 0 (SOpen path mode) s in ((sa_ret a, sa_errno a), s))"

definition sun_close_file :: "'a sunos_scheme sun_kernel \<Rightarrow> int \<Rightarrow> 'a sunos_scheme \<Rightarrow> 'a sunos_scheme" where
  "sun_close_file K fd s = snd (sun_sys K fd SClose s)"

text \<open>read and write move at most as many bytes as they are asked to.\<close>

definition sun_read :: "'a sunos_scheme sun_kernel \<Rightarrow> int \<Rightarrow> u8 list \<Rightarrow> nat \<Rightarrow> ('a sunos_scheme, int \<times> u8 list) op" where
  "sun_read K fd data n s = do {
     let (a, s) = sun_sys K fd (SRead n) s;
     let ret = min (sa_ret a) (int n);
     data \<leftarrow> wrn data 0 (map (sa_data a) [0..<nat ret]);
     Some ((ret, data), s)
   }"

definition sun_write :: "'a sunos_scheme sun_kernel \<Rightarrow> int \<Rightarrow> u8 list \<Rightarrow> nat \<Rightarrow> ('a sunos_scheme, int \<times> int) op" where
  "sun_write K fd data n s = do {
     bytes \<leftarrow> rdn data 0 n;
     let (a, s) = sun_sys K fd (SWrite bytes) s;
     Some ((min (sa_ret a) (int n), sa_errno a), s)
   }"

text \<open>The descriptors that are open, by the record of the calls.\<close>

fun fd_step :: "int list \<Rightarrow> int \<times> sun_call \<times> int \<Rightarrow> int list" where
  "fd_step fds (fd, c, r) = (case c of SOpen p m \<Rightarrow> if r < 0 then fds else fds @ [r]
     | SClose \<Rightarrow> remove1 fd fds | _ \<Rightarrow> fds)"

definition open_fds :: "'a sunos_scheme \<Rightarrow> int list" where
  "open_fds s = foldl fd_step [] (su_log s)"

section \<open>Endpoints\<close>

text \<open>The index of an endpoint address: 0 to 15 for OUT, 16 to 31 for IN.\<close>

definition is_in :: "u8 \<Rightarrow> bool" where
  "is_in ep \<longleftrightarrow> ep AND 0x80 \<noteq> 0"

definition ep_number :: "u8 \<Rightarrow> nat" where
  "ep_number ep = unat (ep AND 0x0f)"

definition usb_ep_index :: "u8 \<Rightarrow> nat" where
  "usb_ep_index ep = ep_number ep + (if is_in ep then 16 else 0)"

lemma ep_number_less: "ep_number ep < 16"
proof -
  have "ep AND 0x0f \<le> 0x0f" by (rule word_and_le1)
  then have "unat (ep AND 0x0f) \<le> unat (0x0f :: u8)" by (simp only: word_le_nat_alt)
  then show ?thesis by (simp add: ep_number_def)
qed

lemma usb_ep_index_less: "usb_ep_index ep < USBI_MAXENDPOINTS"
  using ep_number_less [of ep] by (simp add: usb_ep_index_def USBI_MAXENDPOINTS_def)

end
