(* ===== verification/SunDev.thy ===== *)
theory SunDev
  imports SunState
begin

text \<open>
  The device operations of the Solaris backend: opening and closing, with the descriptors of
  endpoint 0 that all handles of a device share, configurations, interfaces and settings,
  cancelling, starting and ending. The end of the timeout thread, with what other threads do
  until then, is an argument. Two lines of solaris_open and solaris_close that poll the state of
  the device are compiled only without HAL, which the file always defines.
\<close>

section \<open>Endpoint 0\<close>

definition set_ep :: "addr \<Rightarrow> nat \<Rightarrow> int \<times> int \<Rightarrow> 'a sunos_scheme \<Rightarrow> 'a sunos_scheme option" where
  "set_ep hdev i fds s = do {
     p \<leftarrow> su_hdev s hdev;
     eps \<leftarrow> wr (sh_eps p) i fds;
     Some (s\<lparr>su_hdev := (su_hdev s)(hdev \<mapsto> p\<lparr>sh_eps := eps\<rparr>)\<rparr>)
   }"

text \<open>The first handle opens the files; %s of a null pointer has no meaning.\<close>

definition open_ep0_files :: "'a sunos_scheme sun_kernel \<Rightarrow> addr \<Rightarrow> addr \<Rightarrow> string \<Rightarrow> ('a sunos_scheme, int) op" where
  "open_ep0_files K hdev idev ugenpath s = do {
     let ((fd, _), s) = sun_open_file K (sun_path (ugenpath @ ''/cntrl0'')) RdWr s;
     s \<leftarrow> set_ep hdev 0 (fd, -1) s;
     (if fd < 0 then Some (OPENUSB_SYS_FUNC_FAILURE, s)
      else do {
        let ((statfd, _), s) = sun_open_file K (sun_path (ugenpath @ ''/cntrl0stat'')) RdOnly s;
        s \<leftarrow> set_ep hdev 0 (fd, statfd) s;
        (if statfd < 0 then do {
           let s = sun_close_file K fd s;
           s \<leftarrow> set_ep hdev 0 (-1, statfd) s;
           Some (-1, s)
         }
         else do {
           dp \<leftarrow> su_dev s idev;
           Some (0, s\<lparr>su_dev := (su_dev s)(idev \<mapsto> dp\<lparr>sd_ep0_fd := fd, sd_ep0_fd_stat := statfd,
             sd_ref_count := sd_ref_count dp + 1\<rparr>)\<rparr>)
         })
      })
   }"

definition usb_open_ep0 :: "'a sunos_scheme sun_kernel \<Rightarrow> addr \<Rightarrow> ('a sunos_scheme, int) op" where
  "usb_open_ep0 K hdev s = do {
     h \<leftarrow> l_hdev s hdev;
     dp \<leftarrow> su_dev s (hv_idev h);
     (if sd_ep0_fd dp \<ge> 0 then do {
        let s = s\<lparr>su_dev := (su_dev s)(hv_idev h \<mapsto> dp\<lparr>sd_ref_count := sd_ref_count dp + 1\<rparr>)\<rparr>;
        s \<leftarrow> set_ep hdev 0 (sd_ep0_fd dp, sd_ep0_fd_stat dp) s;
        Some (0, s)
      }
      else do {
        ugenpath \<leftarrow> sd_ugenpath dp;
        open_ep0_files K hdev (hv_idev h) ugenpath s
      })
   }"

definition usb_close_ep0 :: "'a sunos_scheme sun_kernel \<Rightarrow> addr \<Rightarrow> ('a sunos_scheme, int) op" where
  "usb_close_ep0 K hdev s = do {
     h \<leftarrow> l_hdev s hdev;
     dp \<leftarrow> su_dev s (hv_idev h);
     (if sd_ep0_fd dp \<ge> 0 then do {
        let n = sd_ref_count dp - 1;
        let s = s\<lparr>su_dev := (su_dev s)(hv_idev h \<mapsto> dp\<lparr>sd_ref_count := n\<rparr>)\<rparr>;
        (if n > 0 then Some (0, s)
         else do {
           p \<leftarrow> su_hdev s hdev;
           e \<leftarrow> rd (sh_eps p) 0;
           (if fst e \<noteq> sd_ep0_fd dp \<or> snd e \<noteq> sd_ep0_fd_stat dp then Some (-1, s)
            else do {
              let s = sun_close_file K (sd_ep0_fd dp) s;
              let s = sun_close_file K (sd_ep0_fd_stat dp) s;
              let s = s\<lparr>su_dev := (su_dev s)(hv_idev h \<mapsto> dp\<lparr>sd_ref_count := n, sd_ep0_fd := -1, sd_ep0_fd_stat := -1\<rparr>)\<rparr>;
              s \<leftarrow> set_ep hdev 0 (-1, -1) s;
              Some (0, s)
            })
         })
      }
      else Some (-1, s))
   }"

section \<open>The other endpoints\<close>

text \<open>Closing the descriptors of a list of endpoints.\<close>

fun close_eps :: "'a sunos_scheme sun_kernel \<Rightarrow> (int \<times> int) list \<Rightarrow> 'a sunos_scheme \<Rightarrow> 'a sunos_scheme" where
  "close_eps K [] s = s"
| "close_eps K ((d, st) # eps) s = (let
     s = (if d \<noteq> -1 then sun_close_file K d s else s);
     s = (if st \<noteq> -1 then sun_close_file K st s else s)
   in close_eps K eps s)"

definition usb_close_all_eps :: "'a sunos_scheme sun_kernel \<Rightarrow> addr \<Rightarrow> 'a sunos_scheme \<Rightarrow> 'a sunos_scheme option" where
  "usb_close_all_eps K hdev s = do {
     p \<leftarrow> su_hdev s hdev;
     eps \<leftarrow> rdn (sh_eps p) 1 (USBI_MAXENDPOINTS - 1);
     let s = close_eps K eps s;
     Some (s\<lparr>su_hdev := (su_hdev s)(hdev \<mapsto> p\<lparr>
        sh_eps := take 1 (sh_eps p) @ replicate (USBI_MAXENDPOINTS - 1) (-1, -1),
        sh_epflags := take 1 (sh_epflags p) @ replicate (USBI_MAXENDPOINTS - 1) False\<rparr>)\<rparr>)
   }"

section \<open>Interfaces\<close>

text \<open>The interface of every endpoint of a setting, entered into ep_interface.\<close>

fun ep_ifaces :: "int \<Rightarrow> usbi_endpoint list cptr \<Rightarrow> nat list \<Rightarrow> int list \<Rightarrow> int list option" where
  "ep_ifaces ifc eps [] m = Some m"
| "ep_ifaces ifc eps (i # is) m = do {
     ep \<leftarrow> pidx eps i;
     m \<leftarrow> wr m (usb_ep_index (ed_bEndpointAddress (ep_desc ep))) ifc;
     ep_ifaces ifc eps is m
   }"

definition usb_set_ep_iface_alts :: "addr \<Rightarrow> int \<Rightarrow> nat \<Rightarrow> nat \<Rightarrow> 'a sunos_scheme \<Rightarrow> 'a sunos_scheme option" where
  "usb_set_ep_iface_alts hdev index ifc alt s = do {
     h \<leftarrow> l_hdev s hdev;
     d \<leftarrow> l_dev s (hv_idev h);
     p \<leftarrow> su_hdev s hdev;
     c \<leftarrow> (if index < 0 then None else pidx (ds_configs (dv_desc d)) (nat index));
     i \<leftarrow> pidx (cf_interfaces c) ifc;
     as \<leftarrow> pidx (if_altsettings i) alt;
     m \<leftarrow> ep_ifaces (int ifc) (as_endpoints as) [0..<unat (id_bNumEndpoints (as_desc as))] (replicate USBI_MAXENDPOINTS (-1));
     Some (s\<lparr>su_hdev := (su_hdev s)(hdev \<mapsto> p\<lparr>sh_ep_interface := m\<rparr>)\<rparr>)
   }"

definition set_owner :: "addr \<Rightarrow> u8 \<Rightarrow> addr \<Rightarrow> 'a sunos_scheme \<Rightarrow> 'a sunos_scheme option" where
  "set_owner idev ifc p s = do {
     dp \<leftarrow> su_dev s idev;
     ps \<leftarrow> wr (sd_claimed dp) (unat ifc) p;
     Some (s\<lparr>su_dev := (su_dev s)(idev \<mapsto> dp\<lparr>sd_claimed := ps\<rparr>)\<rparr>)
   }"

definition solaris_claim_interface :: "addr \<Rightarrow> u8 \<Rightarrow> nat \<Rightarrow> ('a sunos_scheme, int) op" where
  "solaris_claim_interface hdev ifc flags s = do {
     h \<leftarrow> l_hdev s hdev;
     d \<leftarrow> l_dev s (hv_idev h);
     let index = dv_cur_config_index d;
     dp \<leftarrow> su_dev s (hv_idev h);
     owner \<leftarrow> rd (sd_claimed dp) (unat ifc);
     (if owner = hdev then Some (OPENUSB_SUCCESS, s)
      else if owner \<noteq> 0 then Some (OPENUSB_BUSY, s)
      else do {
        c \<leftarrow> rd (hv_claimed_ifs h) (unat ifc);
        (if fst c \<noteq> -1 then Some (OPENUSB_BUSY, s)
         else do {
           s \<leftarrow> set_claim hdev ifc (USBI_IFC_CLAIMED, 0) s;
           s \<leftarrow> set_owner (hv_idev h) ifc hdev s;
           s \<leftarrow> usb_set_ep_iface_alts hdev index (unat ifc) 0 s;
           Some (OPENUSB_SUCCESS, s)
         })
      })
   }"

definition solaris_release_interface :: "addr \<Rightarrow> u8 \<Rightarrow> ('a sunos_scheme, int) op" where
  "solaris_release_interface hdev ifc s = do {
     h \<leftarrow> l_hdev s hdev;
     c \<leftarrow> rd (hv_claimed_ifs h) (unat ifc);
     (if fst c \<noteq> USBI_IFC_CLAIMED then Some (OPENUSB_BADARG, s)
      else do {
        dp \<leftarrow> su_dev s (hv_idev h);
        owner \<leftarrow> rd (sd_claimed dp) (unat ifc);
        (if owner \<noteq> hdev then Some (OPENUSB_PLATFORM_FAILURE, s)
         else do {
           s \<leftarrow> set_owner (hv_idev h) ifc 0 s;
           s \<leftarrow> set_claim hdev ifc (-1, -1) s;
           Some (OPENUSB_SUCCESS, s)
         })
      })
   }"

definition solaris_set_altinterface :: "'a sunos_scheme sun_kernel \<Rightarrow> addr \<Rightarrow> u8 \<Rightarrow> u8 \<Rightarrow> ('a sunos_scheme, int) op" where
  "solaris_set_altinterface K hdev ifc alt s = do {
     h \<leftarrow> l_hdev s hdev;
     dp \<leftarrow> su_dev s (hv_idev h);
     owner \<leftarrow> rd (sd_claimed dp) (unat ifc);
     (if owner \<noteq> hdev then Some (OPENUSB_PLATFORM_FAILURE, s)
      else do {
        s \<leftarrow> usb_close_all_eps K hdev s;
        d \<leftarrow> l_dev s (hv_idev h);
        c \<leftarrow> rd (hv_claimed_ifs h) (unat ifc);
        s \<leftarrow> set_claim hdev ifc (fst c, int (unat alt)) s;
        s \<leftarrow> usb_set_ep_iface_alts hdev (dv_cur_config_index d) (unat ifc) (unat alt) s;
        Some (OPENUSB_SUCCESS, s)
      })
   }"

text \<open>The test of the number lets USBI_MAXINTERFACES through, one past the end of claimed_ifs.\<close>

definition solaris_get_altinterface :: "addr \<Rightarrow> u8 \<Rightarrow> u8 \<Rightarrow> ('a sunos_scheme, int \<times> u8) op" where
  "solaris_get_altinterface hdev ifc alt s =
     (if hdev = 0 \<or> unat ifc > USBI_MAXINTERFACES then Some ((OPENUSB_BADARG, alt), s)
      else do {
        h \<leftarrow> l_hdev s hdev;
        c \<leftarrow> rd (hv_claimed_ifs h) (unat ifc);
        Some ((OPENUSB_SUCCESS, of_int (snd c)), s)
      })"

section \<open>Configurations\<close>

definition solaris_get_configuration :: "addr \<Rightarrow> u8 \<Rightarrow> ('a sunos_scheme, int \<times> u8) op" where
  "solaris_get_configuration hdev cfg s =
     (if hdev = 0 then Some ((OPENUSB_NOT_SUPPORTED, cfg), s)
      else do {
        h \<leftarrow> l_hdev s hdev;
        d \<leftarrow> l_dev s (hv_idev h);
        Some ((OPENUSB_SUCCESS, dv_cur_config_value d), s)
      })"

definition solaris_set_configuration :: "(addr \<Rightarrow> bool) \<Rightarrow> (nat \<Rightarrow> bool) \<Rightarrow> (nat \<Rightarrow> 'a sunos_scheme backend_ops) \<Rightarrow>
    bool \<Rightarrow> ('a sunos_scheme \<Rightarrow> 'a sunos_scheme option) \<Rightarrow> junk \<Rightarrow> locals \<Rightarrow> addr \<Rightarrow> u8 \<Rightarrow> ('a sunos_scheme, int) op" where
  "solaris_set_configuration av mem B be others j lo hdev cfg s =
     (if hdev = 0 then Some (OPENUSB_NOT_SUPPORTED, s)
      else do {
        h \<leftarrow> l_hdev s hdev;
        d \<leftarrow> l_dev s (hv_idev h);
        let s = s\<lparr>l_dev := (l_dev s)(hv_idev h \<mapsto> d\<lparr>dv_cur_config_value := cfg\<rparr>)\<rparr>;
        (ndx, s) \<leftarrow> usbi_get_cfg_index_by_value av mem B be others j lo hdev cfg s;
        s \<leftarrow> set_cur_config hdev cfg ndx s;
        Some (OPENUSB_SUCCESS, s)
      })"

section \<open>Opening and closing\<close>

text \<open>The private data after calloc and the loop over the endpoints.\<close>

definition new_sun_hdl :: sun_hdl where
  "new_sun_hdl = \<lparr>sh_eps = replicate USBI_MAXENDPOINTS (-1, -1), sh_epflags = replicate USBI_MAXENDPOINTS False,
     sh_ep_interface = 0 # replicate (USBI_MAXENDPOINTS - 1) (-1)\<rparr>"

definition solaris_open :: "(addr \<Rightarrow> bool) \<Rightarrow> 'a sunos_scheme sun_kernel \<Rightarrow> addr \<Rightarrow> ('a sunos_scheme, int) op" where
  "solaris_open av K hdev s = do {
     h \<leftarrow> l_hdev s hdev;
     dp \<leftarrow> su_dev s (hv_idev h);
     (if sd_ugenpath dp = None then Some (OPENUSB_NOT_SUPPORTED, s)
      else do {
        let (priv, s) = fresh av s;
        (if priv = 0 then Some (OPENUSB_NO_RESOURCES, s\<lparr>su_hdev := (su_hdev s)(hdev := None)\<rparr>)
         else do {
           let s = s\<lparr>su_hdev := (su_hdev s)(hdev \<mapsto> new_sun_hdl)\<rparr>;
           (ret, s) \<leftarrow> usb_open_ep0 K hdev s;
           (if ret \<noteq> 0 then Some (OPENUSB_PLATFORM_FAILURE, s)
            else do {
              let (a, s) = sun_sys K 0 SThread s;
              (if sa_ret a \<noteq> 0 then Some (OPENUSB_SYS_FUNC_FAILURE, s)
               else do {
                 s \<leftarrow> set_cur_config hdev 1 0 s;
                 Some (OPENUSB_SUCCESS, s)
               })
            })
         })
      })
   }"

text \<open>Releasing each interface of a list, whatever it returns.\<close>

fun release_all :: "addr \<Rightarrow> nat list \<Rightarrow> 'a sunos_scheme \<Rightarrow> 'a sunos_scheme option" where
  "release_all hdev [] s = Some s"
| "release_all hdev (i # is) s = do { (_, s) \<leftarrow> solaris_release_interface hdev (of_nat i) s; release_all hdev is s }"

definition solaris_close :: "'a sunos_scheme sun_kernel \<Rightarrow> (addr \<Rightarrow> 'a sunos_scheme \<Rightarrow> 'a sunos_scheme option) \<Rightarrow> addr \<Rightarrow>
    ('a sunos_scheme, int) op" where
  "solaris_close K join hdev s = do {
     s \<leftarrow> join hdev s;
     s \<leftarrow> lock_hdev hdev s;
     s \<leftarrow> release_all hdev [0..<USBI_MAXINTERFACES] s;
     s \<leftarrow> usb_close_all_eps K hdev s;
     (_, s) \<leftarrow> usb_close_ep0 K hdev s;
     s \<leftarrow> set_hv_state hdev DEVICE_CLOSING s;
     let s = s\<lparr>su_hdev := (su_hdev s)(hdev := None)\<rparr>;
     s \<leftarrow> unlock_hdev hdev s;
     Some (OPENUSB_SUCCESS, s)
   }"

text \<open>devlink is freed as the array sys_path is never null.\<close>

definition solaris_free_device :: "addr \<Rightarrow> ('a sunos_scheme, unit) op" where
  "solaris_free_device idev s = do {
     _ \<leftarrow> l_dev s idev;
     _ \<leftarrow> su_dev s idev;
     Some ((), s\<lparr>su_dev := (su_dev s)(idev := None)\<rparr>)
   }"

section \<open>Cancelling\<close>

definition solaris_io_cancel :: "addr \<Rightarrow> ('a sunos_scheme, int) op" where
  "solaris_io_cancel io s = do {
     x \<leftarrow> l_io s io;
     (if io_state x = IO_INPROGRESS then do {
        let s = io_unlink io s;
        s \<leftarrow> set_state io IO_CANCEL s;
        h \<leftarrow> l_hdev s (io_dev x);
        s \<leftarrow> add_complete (hv_lib_hdl h) io s;
        Some (OPENUSB_SUCCESS, s)
      }
      else Some (OPENUSB_SUCCESS, s))
   }"

section \<open>Starting and ending\<close>

text \<open>
  The results of pthread_mutex_init, pthread_cond_init and pthread_create, which are 0 or a
  positive error number, and the end of the hotplug thread are arguments.
\<close>

definition solaris_init :: "int \<Rightarrow> int \<Rightarrow> int \<Rightarrow> addr \<Rightarrow> u32 \<Rightarrow> ('a sunos_scheme, int) op" where
  "solaris_init mutex cond thread hdl flags s =
     (if su_inited s \<noteq> 0 then Some (0, s\<lparr>su_inited := su_inited s + 1\<rparr>)
      else if mutex < 0 then Some (OPENUSB_PLATFORM_FAILURE, s)
      else if cond < 0 then Some (OPENUSB_PLATFORM_FAILURE, s)
      else if thread < 0 then Some (OPENUSB_PLATFORM_FAILURE, s)
      else Some (OPENUSB_SUCCESS, s\<lparr>su_inited := su_inited s + 1\<rparr>))"

definition solaris_fini :: "('a sunos_scheme \<Rightarrow> 'a sunos_scheme option) \<Rightarrow> addr \<Rightarrow> ('a sunos_scheme, unit) op" where
  "solaris_fini join hdl s =
     (if su_inited s = 0 then Some ((), s)
      else do {
        s \<leftarrow> (if su_inited s = 1 then join s else Some s);
        Some ((), s\<lparr>su_inited := su_inited s - 1\<rparr>)
      })"

end
