(* ===== verification/SunXfer.thy ===== *)
theory SunXfer
  imports SunDev
begin

text \<open>
  Transfers of the Solaris backend. They are synchronous: solaris_submit_ctrl, solaris_submit_bulk,
  solaris_submit_intr and solaris_submit_isoc return when the transfer is over. Before the first
  transfer the files of an endpoint are opened (usb_check_device_and_status_open), usb_do_io reads
  or writes, and asks for the status when that fails.

  The byte one_xfer that switches an interrupt endpoint to single transfers is a constant of a
  header of the system. errno keeps its value over usbi_debug and close.
\<close>

section \<open>Reading and writing\<close>

text \<open>The status of the last transfer; its switch only prints.\<close>

definition sunos_usb_get_status :: "'a sunos_scheme sun_kernel \<Rightarrow> int \<Rightarrow> 'a sunos_scheme \<Rightarrow> int \<times> 'a sunos_scheme" where
  "sunos_usb_get_status K fd s = (let (a, s) = sun_sys K fd SReadStatus s
     in (if sa_ret a = 4 then sa_status a else -1, s))"

text \<open>The result, the buffer, and *status, which a transfer of no bytes leaves alone.\<close>

definition usb_do_io :: "(lc_stat \<Rightarrow> int) \<Rightarrow> 'a sunos_scheme sun_kernel \<Rightarrow> int \<Rightarrow> int \<Rightarrow> u8 list \<Rightarrow> nat \<Rightarrow> bool \<Rightarrow> int \<Rightarrow>
    ('a sunos_scheme, int \<times> u8 list \<times> int) op" where
  "usb_do_io L K fd stat_fd data n wrt status s =
     (if n = 0 then Some ((0, data, status), s)
      else do {
        ((ret, data), s) \<leftarrow> (if wrt then do { ((ret, _), s) \<leftarrow> sun_write K fd data n s; Some ((ret, data), s) }
                           else sun_read K fd data n s);
        (if ret < 0 then do {
           let (error, s) = sunos_usb_get_status K stat_fd s;
           st \<leftarrow> ugen_lc2libstat L error;
           Some ((st, data, st), s)
         }
         else Some ((ret, data, 0), s))
      })"

section \<open>The files of an endpoint\<close>

definition USB_ENDPOINT_TYPE_ISOCHRONOUS :: int where "USB_ENDPOINT_TYPE_ISOCHRONOUS = 1"
definition USB_ENDPOINT_TYPE_BULK :: int where "USB_ENDPOINT_TYPE_BULK = 2"
definition USB_ENDPOINT_TYPE_INTERRUPT :: int where "USB_ENDPOINT_TYPE_INTERRUPT = 3"

lemmas endpoint_types = USB_ENDPOINT_TYPE_ISOCHRONOUS_def USB_ENDPOINT_TYPE_BULK_def USB_ENDPOINT_TYPE_INTERRUPT_def

text \<open>Their name: configuration and setting appear only when they are not the first.\<close>

definition ep_file :: "string \<Rightarrow> int \<Rightarrow> u8 \<Rightarrow> u8 \<Rightarrow> int \<Rightarrow> u8 \<Rightarrow> string" where
  "ep_file ugenpath index cfg ifc alt ep = sun_path (ugenpath @ ''/'' @
     (if index > 0 then take 15 (''cfg'' @ show_nat (unat cfg)) else []) @ ''if'' @ show_nat (unat ifc) @
     (if alt > 0 then take 15 (''.'' @ show_nat (nat alt)) else []) @
     (if is_in ep then ''in'' else ''out'') @ show_nat (ep_number ep))"

text \<open>
  For an interrupt IN endpoint the mode of single transfers is written first: 0, or the errno of
  the write. When the status file cannot be opened for that, nothing is done.
\<close>

definition enable_one_xfer :: "'a sunos_scheme sun_kernel \<Rightarrow> u8 \<Rightarrow> string \<Rightarrow> ('a sunos_scheme, int option) op" where
  "enable_one_xfer K one_xfer statfilename s = do {
     let ((fdstat, _), s) = sun_open_file K statfilename RdWr s;
     (if fdstat = -1 then Some (None, s)
      else do {
        ((count, errno), s) \<leftarrow> sun_write K fdstat [one_xfer] 1 s;
        let s = sun_close_file K fdstat s;
        Some (if count \<noteq> 1 then Some errno else None, s)
      })
   }"

text \<open>Opening both, the status only to be read; the first error ends it.\<close>

definition open_both :: "'a sunos_scheme sun_kernel \<Rightarrow> addr \<Rightarrow> nat \<Rightarrow> sun_mode \<Rightarrow> string \<Rightarrow> string \<Rightarrow> ('a sunos_scheme, int) op" where
  "open_both K hdev ep_index mode filename statfilename s = do {
     let ((fd, errno), s) = sun_open_file K filename mode s;
     (if fd = -1 then Some (errno, s)
      else do {
        let ((fdstat, errno), s) = sun_open_file K statfilename RdOnly s;
        (if fdstat = -1 then Some (errno, sun_close_file K fd s)
         else do {
           s \<leftarrow> set_ep hdev ep_index (fd, fdstat) s;
           Some (0, s)
         })
      })
   }"

definition open_ep_files :: "'a sunos_scheme sun_kernel \<Rightarrow> u8 \<Rightarrow> addr \<Rightarrow> u8 \<Rightarrow> int \<Rightarrow> string \<Rightarrow> ('a sunos_scheme, int) op" where
  "open_ep_files K one_xfer hdev ep_addr ep_type filename s = do {
     let statfilename = sun_path (filename @ ''stat'');
     (e, s) \<leftarrow> (if ep_type = USB_ENDPOINT_TYPE_INTERRUPT \<and> is_in ep_addr
              then enable_one_xfer K one_xfer statfilename s else Some (None, s));
     (case e of Some errno \<Rightarrow> Some (errno, s)
      | None \<Rightarrow> open_both K hdev (usb_ep_index ep_addr)
          (if ep_type = USB_ENDPOINT_TYPE_ISOCHRONOUS then RdWr else if is_in ep_addr then RdOnly else WrOnly)
          filename statfilename s)
   }"

definition usb_check_device_and_status_open :: "'a sunos_scheme sun_kernel \<Rightarrow> u8 \<Rightarrow> addr \<Rightarrow> u8 \<Rightarrow> u8 \<Rightarrow> int \<Rightarrow>
    ('a sunos_scheme, int) op" where
  "usb_check_device_and_status_open K one_xfer hdev ifc ep_addr ep_type s = do {
     let ep_index = usb_ep_index ep_addr;
     h \<leftarrow> l_hdev s hdev;
     c \<leftarrow> rd (hv_claimed_ifs h) (unat ifc);
     (if fst c = -1 \<or> snd c = -1 then Some (EACCES, s)
      else do {
        p \<leftarrow> su_hdev s hdev;
        e \<leftarrow> rd (sh_ep_interface p) ep_index;
        (if int (unat ifc) \<noteq> e then Some (EACCES, s)
         else do {
           (datafd, statfd) \<leftarrow> rd (sh_eps p) ep_index;
           (if datafd > 0 \<and> statfd > 0 then Some (0, s)
            else do {
              d \<leftarrow> l_dev s (hv_idev h);
              dp \<leftarrow> su_dev s (hv_idev h);
              ugenpath \<leftarrow> sd_ugenpath dp;
              open_ep_files K one_xfer hdev ep_addr ep_type
                (ep_file ugenpath (dv_cur_config_index d) (dv_cur_config_value d) ifc (snd c) ep_addr) s
            })
         })
      })
   }"

text \<open>A transfer on the files of the endpoint, in its direction.\<close>

definition ep_io :: "(lc_stat \<Rightarrow> int) \<Rightarrow> 'a sunos_scheme sun_kernel \<Rightarrow> addr \<Rightarrow> u8 \<Rightarrow> u8 list \<Rightarrow> nat \<Rightarrow> bool \<Rightarrow> int \<Rightarrow>
    ('a sunos_scheme, int \<times> u8 list \<times> int) op" where
  "ep_io L K hdev ep_addr data n wrt status s = do {
     p \<leftarrow> su_hdev s hdev;
     (datafd, statfd) \<leftarrow> rd (sh_eps p) (usb_ep_index ep_addr);
     usb_do_io L K datafd statfd data n wrt status s
   }"

text \<open>The request of io, and storing it back.\<close>

definition io_request :: "addr \<Rightarrow> 'a lib_scheme \<Rightarrow> openusb_request_handle option" where
  "io_request io s = do { x \<leftarrow> l_io s io; l_req s (io_req x) }"

definition set_request :: "addr \<Rightarrow> openusb_request \<Rightarrow> 'a lib_scheme \<Rightarrow> 'a lib_scheme option" where
  "set_request io q s = do {
     x \<leftarrow> l_io s io;
     r \<leftarrow> l_req s (io_req x);
     Some (s\<lparr>l_req := (l_req s)(io_req x \<mapsto> r\<lparr>rq_req := q\<rparr>)\<rparr>)
   }"

section \<open>Control requests\<close>

definition sun_setup :: "ctrl_request \<Rightarrow> u8 list" where
  "sun_setup c = [ct_bmRequestType c, ct_bRequest c, ucast (ct_wValue c AND 0xFF), ucast (drop_bit 8 (ct_wValue c) AND 0xFF),
     ucast (ct_wIndex c AND 0xFF), ucast (drop_bit 8 (ct_wIndex c) AND 0xFF),
     ucast (ct_length c AND 0xFF), ucast (drop_bit 8 (ct_length c) AND 0xFF)]"

text \<open>ctrl->length + USBI_CONTROL_SETUP_LEN wraps at 32 bits; the copies then leave the buffer.\<close>

definition solaris_submit_ctrl_on_default :: "(addr \<Rightarrow> bool) \<Rightarrow> (lc_stat \<Rightarrow> int) \<Rightarrow> 'a sunos_scheme sun_kernel \<Rightarrow> addr \<Rightarrow> addr \<Rightarrow>
    ('a sunos_scheme, int) op" where
  "solaris_submit_ctrl_on_default av L K hdev io s = do {
     r \<leftarrow> io_request io s;
     c \<leftarrow> (case rq_req r of Ctrl c \<Rightarrow> Some c | _ \<Rightarrow> None);
     let data = sun_setup c;
     let inn = (ct_bmRequestType c AND 0x80 = USB_REQ_DEV_TO_HOST);
     p \<leftarrow> su_hdev s hdev;
     (datafd, statfd) \<leftarrow> rd (sh_eps p) 0;
     (if datafd = -1 then Some (OPENUSB_NOACCESS, s)
      else do {
        let (buf, s) = (if inn then (1, s) else fresh av s);
        (if buf = 0 then Some (OPENUSB_NO_RESOURCES, s)
         else do {
           let n = unat (ct_length c + 8);
           out \<leftarrow> (if inn then Some data else do {
              pay \<leftarrow> rdn (ct_payload c) 0 (unat (ct_length c));
              (if length (data @ pay) \<le> n then Some (data @ pay) else None) });
           ((ret, _, st), s) \<leftarrow> usb_do_io L K datafd statfd out (if inn then 8 else n) True (ct_status c) s;
           let c = c\<lparr>ct_status := st\<rparr>;
           (if ret < int USBI_CONTROL_SETUP_LEN then do {
              s \<leftarrow> set_request io (Ctrl (c\<lparr>ct_status := ret, ct_transferred := 0\<rparr>)) s;
              s \<leftarrow> set_state io IO_COMPLETED s;
              Some (OPENUSB_PLATFORM_FAILURE, s)
            }
            else do {
              let ret = ret - int USBI_CONTROL_SETUP_LEN;
              ((ret, pay, st), s) \<leftarrow> (if ct_length c \<noteq> 0 \<and> inn
                 then usb_do_io L K datafd statfd (ct_payload c) (unat (ct_length c)) False (ct_status c) s
                 else Some ((ret, ct_payload c, ct_status c), s));
              s \<leftarrow> set_state io IO_COMPLETED s;
              let c = c\<lparr>ct_payload := pay, ct_status := st\<rparr>;
              s \<leftarrow> set_request io (Ctrl (if ret \<ge> 0 then c\<lparr>ct_transferred := of_int ret\<rparr> else c)) s;
              Some (ret, s)
            })
         })
      })
   }"

definition solaris_submit_ctrl_non_default :: "(lc_stat \<Rightarrow> int) \<Rightarrow> 'a sunos_scheme sun_kernel \<Rightarrow> u8 \<Rightarrow> addr \<Rightarrow> addr \<Rightarrow>
    ('a sunos_scheme, int) op" where
  "solaris_submit_ctrl_non_default L K one_xfer hdev io s = do {
     r \<leftarrow> io_request io s;
     c \<leftarrow> (case rq_req r of Ctrl c \<Rightarrow> Some c | _ \<Rightarrow> None);
     let ep_addr = rq_endpoint r;
     s \<leftarrow> lock_hdev hdev s;
     (ret, s) \<leftarrow> usb_check_device_and_status_open K one_xfer hdev (rq_interface r) ep_addr USB_ENDPOINT_TYPE_BULK s;
     (if ret \<noteq> 0 then do { s \<leftarrow> unlock_hdev hdev s; Some (OPENUSB_NOACCESS, s) }
      else do {
        ((ret, pay, st), s) \<leftarrow> ep_io L K hdev ep_addr (ct_payload c) (unat (ct_length c)) (\<not> is_in ep_addr) (ct_status c) s;
        let c = c\<lparr>ct_payload := pay, ct_status := st\<rparr>;
        s \<leftarrow> set_request io (Ctrl (if ret \<ge> 0 then c\<lparr>ct_transferred := of_int ret\<rparr> else c)) s;
        s \<leftarrow> unlock_hdev hdev s;
        s \<leftarrow> set_state io IO_COMPLETED s;
        Some (ret, s)
      })
   }"

definition solaris_submit_ctrl :: "(addr \<Rightarrow> bool) \<Rightarrow> (lc_stat \<Rightarrow> int) \<Rightarrow> 'a sunos_scheme sun_kernel \<Rightarrow> u8 \<Rightarrow> addr \<Rightarrow> addr \<Rightarrow>
    ('a sunos_scheme, int) op" where
  "solaris_submit_ctrl av L K one_xfer hdev io s = do {
     r \<leftarrow> io_request io s;
     (if rq_endpoint r = 0 then solaris_submit_ctrl_on_default av L K hdev io s
      else solaris_submit_ctrl_non_default L K one_xfer hdev io s)
   }"

section \<open>Bulk and interrupt requests\<close>

definition solaris_submit_bulk :: "(lc_stat \<Rightarrow> int) \<Rightarrow> 'a sunos_scheme sun_kernel \<Rightarrow> u8 \<Rightarrow> addr \<Rightarrow> addr \<Rightarrow>
    ('a sunos_scheme, int) op" where
  "solaris_submit_bulk L K one_xfer hdev io s = do {
     r \<leftarrow> io_request io s;
     b \<leftarrow> (case rq_req r of Bulk b \<Rightarrow> Some b | _ \<Rightarrow> None);
     let ep_addr = rq_endpoint r;
     s \<leftarrow> lock_hdev hdev s;
     (ret, s) \<leftarrow> usb_check_device_and_status_open K one_xfer hdev (rq_interface r) ep_addr USB_ENDPOINT_TYPE_BULK s;
     (if ret \<noteq> 0 then do { s \<leftarrow> unlock_hdev hdev s; Some (OPENUSB_NOACCESS, s) }
      else do {
        ((ret, pay, st), s) \<leftarrow> ep_io L K hdev ep_addr (dr_payload b) (unat (dr_length b)) (\<not> is_in ep_addr) (dr_status b) s;
        let b = b\<lparr>dr_payload := pay, dr_status := st\<rparr>;
        s \<leftarrow> set_request io (Bulk (if ret \<ge> 0 then b\<lparr>dr_transferred := of_int ret\<rparr> else b)) s;
        s \<leftarrow> unlock_hdev hdev s;
        s \<leftarrow> set_state io IO_COMPLETED s;
        Some (ret, s)
      })
   }"

text \<open>After an IN transfer both files are closed, which ends the polling of the endpoint.\<close>

definition close_ep_files :: "'a sunos_scheme sun_kernel \<Rightarrow> addr \<Rightarrow> u8 \<Rightarrow> 'a sunos_scheme \<Rightarrow> 'a sunos_scheme option" where
  "close_ep_files K hdev ep_addr s = do {
     p \<leftarrow> su_hdev s hdev;
     (datafd, statfd) \<leftarrow> rd (sh_eps p) (usb_ep_index ep_addr);
     let s = sun_close_file K datafd s;
     let s = sun_close_file K statfd s;
     set_ep hdev (usb_ep_index ep_addr) (-1, -1) s
   }"

definition solaris_submit_intr :: "(lc_stat \<Rightarrow> int) \<Rightarrow> 'a sunos_scheme sun_kernel \<Rightarrow> u8 \<Rightarrow> addr \<Rightarrow> addr \<Rightarrow>
    ('a sunos_scheme, int) op" where
  "solaris_submit_intr L K one_xfer hdev io s = do {
     r \<leftarrow> io_request io s;
     b \<leftarrow> (case rq_req r of Intr b \<Rightarrow> Some b | _ \<Rightarrow> None);
     let ep_addr = rq_endpoint r;
     s \<leftarrow> lock_hdev hdev s;
     (ret, s) \<leftarrow> usb_check_device_and_status_open K one_xfer hdev (rq_interface r) ep_addr USB_ENDPOINT_TYPE_INTERRUPT s;
     (if ret \<noteq> 0 then do { s \<leftarrow> unlock_hdev hdev s; Some (OPENUSB_NOACCESS, s) }
      else do {
        ((ret, pay, st), s) \<leftarrow> ep_io L K hdev ep_addr (dr_payload b) (unat (dr_length b)) (\<not> is_in ep_addr) (dr_status b) s;
        s \<leftarrow> (if is_in ep_addr then close_ep_files K hdev ep_addr s else Some s);
        let b = b\<lparr>dr_payload := pay, dr_status := st\<rparr>;
        s \<leftarrow> set_request io (Intr (if ret \<ge> 0 then b\<lparr>dr_transferred := of_int ret\<rparr> else b)) s;
        s \<leftarrow> set_state io IO_COMPLETED s;
        s \<leftarrow> unlock_hdev hdev s;
        Some (ret, s)
      })
   }"

section \<open>Isochronous requests\<close>

text \<open>
  The buffer of a write: the number of packets, a descriptor of eight bytes for each, which has a
  length of 16 bits, and for OUT their data. memset has cleared what is not written.
\<close>

definition pkt_descr :: "bool \<Rightarrow> isoc_packet \<Rightarrow> u8 list" where
  "pkt_descr be p = st16 be (ucast (pk_length p)) @ st16 be 0 @ st32 be 0"

fun pkts_data :: "isoc_packet list \<Rightarrow> u8 list option" where
  "pkts_data [] = Some []"
| "pkts_data (p # ps) = do { b \<leftarrow> rdn (pk_payload p) 0 (unat (pk_length p)); bs \<leftarrow> pkts_data ps; Some (b @ bs) }"

definition isoc_buf :: "bool \<Rightarrow> bool \<Rightarrow> isoc_packet list \<Rightarrow> nat \<Rightarrow> u8 list option" where
  "isoc_buf be out ps len = do {
     data \<leftarrow> (if out then pkts_data ps else Some []);
     let b = st32 be (of_nat (length ps)) @ concat (map (pkt_descr be) ps) @ data;
     (if length b \<le> len then Some (b @ replicate (len - length b) 0) else None)
   }"

text \<open>The result of packet k, read from its descriptor at the head of the buffer.\<close>

definition pkt_result :: "bool \<Rightarrow> u8 list \<Rightarrow> nat \<Rightarrow> (int \<times> u32) option" where
  "pkt_result be buf k = do {
     a \<leftarrow> rdn buf (8 * k + 2) 2;
     st \<leftarrow> rdn buf (8 * k + 4) 4;
     Some (sint (ld32 be st), ucast (ld16 be a))
   }"

fun out_results :: "bool \<Rightarrow> u8 list \<Rightarrow> nat list \<Rightarrow> (int \<times> u32) list \<Rightarrow> (int \<times> u32) list option" where
  "out_results be buf [] rs = Some rs"
| "out_results be buf (k # ks) rs = do { x \<leftarrow> pkt_result be buf k; rs \<leftarrow> wr rs k x; out_results be buf ks rs }"

text \<open>The packets of an IN transfer with their data, which lies at off, and their results.\<close>

fun in_results :: "bool \<Rightarrow> u8 list \<Rightarrow> nat list \<Rightarrow> nat \<Rightarrow> isoc_request \<Rightarrow> isoc_request option" where
  "in_results be buf [] off q = Some q"
| "in_results be buf (k # ks) off q = do {
     p \<leftarrow> rd (is_packets q) k;
     b \<leftarrow> rdn buf off (unat (pk_length p));
     pay \<leftarrow> wrn (pk_payload p) 0 b;
     x \<leftarrow> pkt_result be buf k;
     rs \<leftarrow> wr (is_results q) k x;
     in_results be buf ks (off + unat (pk_length p))
       (q\<lparr>is_packets := (is_packets q)[k := p\<lparr>pk_payload := pay\<rparr>], is_results := rs\<rparr>)
   }"

definition set_inited :: "addr \<Rightarrow> nat \<Rightarrow> 'a sunos_scheme \<Rightarrow> 'a sunos_scheme option" where
  "set_inited hdev i s = do {
     p \<leftarrow> su_hdev s hdev;
     fs \<leftarrow> wr (sh_epflags p) i True;
     Some (s\<lparr>su_hdev := (su_hdev s)(hdev \<mapsto> p\<lparr>sh_epflags := fs\<rparr>)\<rparr>)
   }"

text \<open>
  The first write: for OUT the data, for IN the parameters, once. The result, isoc_status and the
  buffer.
\<close>

definition isoc_start :: "(lc_stat \<Rightarrow> int) \<Rightarrow> 'a sunos_scheme sun_kernel \<Rightarrow> addr \<Rightarrow> u8 \<Rightarrow> u8 list \<Rightarrow> int \<Rightarrow>
    ('a sunos_scheme, int \<times> int) op" where
  "isoc_start L K hdev ep_addr buf status s = do {
     p \<leftarrow> su_hdev s hdev;
     inited \<leftarrow> rd (sh_epflags p) (usb_ep_index ep_addr);
     (if \<not> is_in ep_addr then do {
        ((ret, _, st), s) \<leftarrow> ep_io L K hdev ep_addr buf (length buf) True status s;
        Some ((ret, st), s)
      }
      else if \<not> inited then do {
        ((ret, _, st), s) \<leftarrow> ep_io L K hdev ep_addr buf (length buf) True status s;
        s \<leftarrow> set_inited hdev (usb_ep_index ep_addr) s;
        Some ((ret, st), s)
      }
      else Some ((0, status), s))
   }"

text \<open>The end of an OUT transfer, and of an IN transfer: the error, and the request.\<close>

definition isoc_out_end :: "bool \<Rightarrow> (lc_stat \<Rightarrow> int) \<Rightarrow> 'a sunos_scheme sun_kernel \<Rightarrow> addr \<Rightarrow> u8 \<Rightarrow> u8 list \<Rightarrow> nat \<Rightarrow>
    isoc_request \<Rightarrow> ('a sunos_scheme, int \<times> isoc_request) op" where
  "isoc_out_end be L K hdev ep_addr buf n q s = do {
     ((ret, buf, st), s) \<leftarrow> ep_io L K hdev ep_addr buf (8 * n) False (is_status q) s;
     let q = q\<lparr>is_status := st\<rparr>;
     (if ret < 0 then Some ((OPENUSB_PLATFORM_FAILURE, q), s)
      else do { rs \<leftarrow> out_results be buf [0..<n] (is_results q); Some ((0, q\<lparr>is_results := rs\<rparr>), s) })
   }"

definition isoc_in_end :: "(addr \<Rightarrow> bool) \<Rightarrow> bool \<Rightarrow> (lc_stat \<Rightarrow> int) \<Rightarrow> 'a sunos_scheme sun_kernel \<Rightarrow> addr \<Rightarrow> u8 \<Rightarrow> u32 \<Rightarrow> nat \<Rightarrow>
    isoc_request \<Rightarrow> ('a sunos_scheme, int \<times> isoc_request) op" where
  "isoc_in_end av be L K hdev ep_addr pkts_len n q s = do {
     let len = unat (pkts_len + of_nat (8 * n));
     let (b, s) = fresh av s;
     (if b = 0 then Some ((OPENUSB_NO_RESOURCES, q), s)
      else do {
        ((ret, buf, st), s) \<leftarrow> ep_io L K hdev ep_addr (replicate len 0) len False (is_status q) s;
        let q = q\<lparr>is_status := st\<rparr>;
        (if ret < 0 then Some ((OPENUSB_PLATFORM_FAILURE, q), s)
         else do { q \<leftarrow> in_results be buf [0..<n] (8 * n) q; Some ((0, q), s) })
      })
   }"

text \<open>The transfer while the handle is locked: the error, the request stored.\<close>

definition isoc_xfer :: "(addr \<Rightarrow> bool) \<Rightarrow> bool \<Rightarrow> (lc_stat \<Rightarrow> int) \<Rightarrow> 'a sunos_scheme sun_kernel \<Rightarrow> addr \<Rightarrow> addr \<Rightarrow> u8 \<Rightarrow>
    isoc_request \<Rightarrow> ('a sunos_scheme, int) op" where
  "isoc_xfer av be L K hdev io ep_addr q s = do {
     let n = unat (ucast (is_num_packets q) :: u16);
     ps \<leftarrow> rdn (is_packets q) 0 n;
     let pkts_len = sum_list (map pk_length ps);
     (if pkts_len = 0 then Some (OPENUSB_BADARG, s)
      else do {
        let len = unat ((if is_in ep_addr then 0 else pkts_len) + 4 + of_nat (8 * n));
        let (b, s) = fresh av s;
        (if b = 0 then Some (OPENUSB_NO_RESOURCES, s)
         else do {
           buf \<leftarrow> isoc_buf be (\<not> is_in ep_addr) ps len;
           ((ret, st), s) \<leftarrow> isoc_start L K hdev ep_addr buf (is_status q) s;
           let q = q\<lparr>is_status := st\<rparr>;
           ((ret, q), s) \<leftarrow> (if ret < 0 then Some ((OPENUSB_PLATFORM_FAILURE, q), s)
              else if is_in ep_addr then isoc_in_end av be L K hdev ep_addr pkts_len n q s
              else isoc_out_end be L K hdev ep_addr buf n q s);
           s \<leftarrow> set_request io (Isoc q) s;
           Some (ret, s)
         })
      })
   }"

definition solaris_submit_isoc :: "(addr \<Rightarrow> bool) \<Rightarrow> bool \<Rightarrow> (lc_stat \<Rightarrow> int) \<Rightarrow> 'a sunos_scheme sun_kernel \<Rightarrow> u8 \<Rightarrow> addr \<Rightarrow>
    addr \<Rightarrow> ('a sunos_scheme, int) op" where
  "solaris_submit_isoc av be L K one_xfer hdev io s = do {
     r \<leftarrow> io_request io s;
     q \<leftarrow> (case rq_req r of Isoc q \<Rightarrow> Some q | _ \<Rightarrow> None);
     (if is_flags q = 1 then Some (OPENUSB_BADARG, s)
      else do {
        let ep_addr = rq_endpoint r;
        s \<leftarrow> lock_hdev hdev s;
        (ret, s) \<leftarrow> usb_check_device_and_status_open K one_xfer hdev (rq_interface r) ep_addr USB_ENDPOINT_TYPE_ISOCHRONOUS s;
        (if ret \<noteq> 0 then do { s \<leftarrow> unlock_hdev hdev s; Some (OPENUSB_NOACCESS, s) }
         else do {
           (ret, s) \<leftarrow> isoc_xfer av be L K hdev io ep_addr q s;
           s \<leftarrow> unlock_hdev hdev s;
           s \<leftarrow> (if ret < 0 then Some s else set_state io IO_COMPLETED s);
           Some (ret, s)
         })
      })
   }"

end
