(* ===== verification/SunTree.thy ===== *)
theory SunTree
  imports SunDev
begin

text \<open>
  Buses and devices of the Solaris backend: the search for root hubs, the recursive walk over the
  device tree that refreshes the devices of a bus, raw descriptors from the properties of a node,
  and the events of HAL. The device tree, its properties and links, and the answers of HAL are
  parameters: what libdevinfo and libhal return.

  create_new_device is called for the root of the tree with the null pointer as parent, so the
  test node == ibus->priv->node is the test for that. What error paths do not free is only lost.
\<close>

section \<open>Root hubs\<close>

definition SUNOS_BUS_EHCI :: nat where "SUNOS_BUS_EHCI = 1"
definition SUNOS_BUS_OHCI :: nat where "SUNOS_BUS_OHCI = 2"
definition SUNOS_BUS_UHCI :: nat where "SUNOS_BUS_UHCI = 3"

lemmas sun_models = SUNOS_BUS_EHCI_def SUNOS_BUS_OHCI_def SUNOS_BUS_UHCI_def

text \<open>The limits by type: all, control, interrupt, bulk, isochronous.\<close>

definition sunos_set_max_xfer_size :: "nat \<Rightarrow> u32 list \<Rightarrow> u32 list" where
  "sunos_set_max_xfer_size rhmodel sizes =
     (if rhmodel = SUNOS_BUS_EHCI then [sizes ! 0, 0x10000, 0x5000, 0xA0000, 1024 * 3072]
      else if rhmodel = SUNOS_BUS_OHCI then [sizes ! 0, 0x10000, 0x2000, 0x40000, 256 * 1024]
      else if rhmodel = SUNOS_BUS_UHCI then [sizes ! 0, 0x10000, 0x500, 0x1F000, 256 * 1024]
      else sizes)"

text \<open>strstr.\<close>

fun has_sub :: "string \<Rightarrow> string \<Rightarrow> bool" where
  "has_sub p [] \<longleftrightarrow> p = []"
| "has_sub p (c # cs) \<longleftrightarrow> take (length p) (c # cs) = p \<or> has_sub p cs"

definition rh_model :: "string option \<Rightarrow> nat" where
  "rh_model model = (case model of None \<Rightarrow> 0 | Some m \<Rightarrow>
     if has_sub ''EHCI'' m then SUNOS_BUS_EHCI else if has_sub ''OHCI'' m then SUNOS_BUS_OHCI
     else if has_sub ''UHCI'' m then SUNOS_BUS_UHCI else 0)"

text \<open>A node as the walk sees it: whether it has the property root-hub, its model, its path.\<close>

record rh_node =
  rn_root_hub :: bool
  rn_model :: "string option"
  rn_path :: string

datatype di_walk = WALK_CONTINUE | WALK_PRUNECHILD | WALK_TERMINATE

definition sun_bus :: "u32 \<Rightarrow> string \<Rightarrow> nat \<Rightarrow> usbi_bus" where
  "sun_bus busnum path rhmodel = \<lparr>bs_busid = 0, bs_busnum = busnum, bs_sys_path = take SUN_PATH_MAX path,
     bs_ops = 0, bs_devices = [], bs_max_xfer_size = sunos_set_max_xfer_size rhmodel (replicate 5 0)\<rparr>"

definition detect_root_hub :: "(addr \<Rightarrow> bool) \<Rightarrow> rh_node \<Rightarrow> addr list \<Rightarrow> ('a sunos_scheme, di_walk \<times> addr list) op" where
  "detect_root_hub av n buses s =
     (if \<not> rn_root_hub n then Some ((WALK_CONTINUE, buses), s)
      else do {
        let rhmodel = rh_model (rn_model n);
        let (ibus, s) = fresh av s;
        (if ibus = 0 then Some ((WALK_TERMINATE, buses), s)
         else do {
           let (priv, s) = fresh av s;
           (if priv = 0 then Some ((WALK_TERMINATE, buses), s)
            else do {
              let busnum = su_busnum s + 1;
              Some ((WALK_PRUNECHILD, ls_add ibus buses), s\<lparr>su_busnum := busnum,
                l_bus := (l_bus s)(ibus \<mapsto> sun_bus busnum (rn_path n) rhmodel),
                su_model := (su_model s)(ibus \<mapsto> rhmodel), su_root := (su_root s)(ibus := 0)\<rparr>)
            })
         })
      })"

text \<open>The nodes that the walk visits, in its order, until it is told to stop.\<close>

fun walk_nodes :: "(addr \<Rightarrow> bool) \<Rightarrow> rh_node list \<Rightarrow> addr list \<Rightarrow> ('a sunos_scheme, addr list) op" where
  "walk_nodes av [] buses s = Some (buses, s)"
| "walk_nodes av (n # ns) buses s = do {
     ((r, buses), s) \<leftarrow> detect_root_hub av n buses s;
     (if r = WALK_TERMINATE then Some (buses, s) else walk_nodes av ns buses s)
   }"

definition solaris_find_busses :: "(addr \<Rightarrow> bool) \<Rightarrow> rh_node list option \<Rightarrow> bool \<Rightarrow> ('a sunos_scheme, int \<times> addr list) op" where
  "solaris_find_busses av root walk_fails s =
     (case root of None \<Rightarrow> Some ((OPENUSB_PLATFORM_FAILURE, []), s)
      | Some ns \<Rightarrow> do {
          (buses, s) \<leftarrow> walk_nodes av ns [] s;
          Some ((if walk_fails then OPENUSB_PLATFORM_FAILURE else OPENUSB_SUCCESS, buses), s)
        })"

section \<open>Links of a device\<close>

text \<open>A minor node: its type, its name, and the links to it.\<close>

record di_minor =
  mi_nodetype :: string
  mi_name :: string
  mi_links :: "string list"

definition APID_NAMELEN :: nat where "APID_NAMELEN = 32"

text \<open>The part before the last occurrence of a character, as strrchr and strncpy take it.\<close>

definition before_last :: "char \<Rightarrow> string \<Rightarrow> string option" where
  "before_last c str = (if c \<in> set str then Some (rev (tl (dropWhile (\<lambda>x. x \<noteq> c) (rev str)))) else None)"

text \<open>A copy that leaves no room for the terminating zero has no meaning as a string.\<close>

definition check_devlink :: "(addr \<Rightarrow> bool) \<Rightarrow> addr \<Rightarrow> di_minor \<Rightarrow> string \<Rightarrow> ('a sunos_scheme, di_walk) op" where
  "check_devlink av idev minor str s = do {
     dp \<leftarrow> su_dev s idev;
     (if sd_devlink dp \<noteq> None \<and> sd_ugenpath dp \<noteq> None \<and> sd_ap_ancestry dp \<noteq> None then Some (WALK_TERMINATE, s)
      else if take 9 str \<noteq> ''/dev/usb/'' \<and> take 9 str \<noteq> ''/dev/cfg/'' then Some (WALK_CONTINUE, s)
      else if mi_nodetype minor = ''ddi_ctl:attachment_point:usb'' then
        (if sd_ap_ancestry dp \<noteq> None then Some (WALK_CONTINUE, s)
         else do {
           let (p, s) = fresh av s;
           (if p = 0 then Some (WALK_TERMINATE, s)
            else do {
              let a = (case before_last (CHR ''.'') (mi_name minor) of None \<Rightarrow> [] | Some b \<Rightarrow> b @ ''.'');
              _ \<leftarrow> (if length a \<le> APID_NAMELEN then Some () else None);
              Some (WALK_CONTINUE, s\<lparr>su_dev := (su_dev s)(idev \<mapsto> dp\<lparr>sd_ap_ancestry := Some a\<rparr>)\<rparr>)
            })
         })
      else if mi_nodetype minor = ''ddi_generic:usb'' then
        (if sd_ugenpath dp \<noteq> None then Some (WALK_CONTINUE, s)
         else do {
           let (p, s) = fresh av s;
           (if p = 0 then Some (WALK_TERMINATE, s)
            else (case before_last (CHR ''/'') str of None \<Rightarrow> Some (WALK_TERMINATE, s)
              | Some a \<Rightarrow> do {
                  _ \<leftarrow> (if length a \<le> SUN_PATH_MAX then Some () else None);
                  Some (WALK_CONTINUE, s\<lparr>su_dev := (su_dev s)(idev \<mapsto> dp\<lparr>sd_ugenpath := Some a\<rparr>)\<rparr>)
                }))
         })
      else do {
        let (p, s) = fresh av s;
        (if p = 0 then Some (WALK_TERMINATE, s)
         else do {
           _ \<leftarrow> (if length str \<le> SUN_PATH_MAX then Some () else None);
           Some (WALK_CONTINUE, s\<lparr>su_dev := (su_dev s)(idev \<mapsto> dp\<lparr>sd_devlink := Some str\<rparr>)\<rparr>)
         })
      })
   }"

fun devlink_walk :: "(addr \<Rightarrow> bool) \<Rightarrow> addr \<Rightarrow> di_minor \<Rightarrow> string list \<Rightarrow> 'a sunos_scheme \<Rightarrow> 'a sunos_scheme option" where
  "devlink_walk av idev minor [] s = Some s"
| "devlink_walk av idev minor (l # ls) s = do {
     (r, s) \<leftarrow> check_devlink av idev minor l s;
     (if r = WALK_TERMINATE then Some s else devlink_walk av idev minor ls s)
   }"

fun get_minor_node_link :: "(addr \<Rightarrow> bool) \<Rightarrow> addr \<Rightarrow> di_minor list \<Rightarrow> 'a sunos_scheme \<Rightarrow> 'a sunos_scheme option" where
  "get_minor_node_link av idev [] s = Some s"
| "get_minor_node_link av idev (m # ms) s = do {
     s \<leftarrow> devlink_walk av idev m (mi_links m) s;
     get_minor_node_link av idev ms s
   }"

section \<open>The device tree\<close>

text \<open>A node: its path, its properties of type int, each an array, None when it lacks it, its minor nodes.\<close>

record di_props =
  dn_path :: string
  dn_assigned_address :: "int list option"
  dn_reg :: "int list option"
  dn_port_count :: "int list option"
  dn_minors :: "di_minor list"

datatype di_node = DiNode di_props "di_node list"

fun syspath_walk :: "string \<Rightarrow> addr list \<Rightarrow> 'a lib_scheme \<Rightarrow> addr option" where
  "syspath_walk path [] s = Some 0"
| "syspath_walk path (p # ps) s = do {
     d \<leftarrow> l_dev s p;
     (if path = dv_sys_path d \<or> take (SUN_PATH_MAX - 1) (''/devices'' @ path) = dv_sys_path d then Some p
      else syspath_walk path ps s)
   }"

text \<open>It takes no lock.\<close>

definition find_device_by_syspath :: "string \<Rightarrow> 'a lib_scheme \<Rightarrow> addr option" where
  "find_device_by_syspath path s = syspath_walk path (l_devices s) s"

definition sun_zero_device :: usbi_device where
  "sun_zero_device = \<lparr>dv_devid = 0, dv_devnum = 0, dv_bus = 0, dv_parent = 0, dv_pport = 0, dv_nports = 0,
     dv_sys_path = [], dv_bus_path = [], dv_ops = 0, dv_cur_config_value = 0, dv_cur_config_index = 0,
     dv_desc = \<lparr>ds_device_raw = zero_raw, ds_num_configs = 0, ds_configs_raw = Null,
       ds_device = zero_device_desc, ds_configs = Null\<rparr>\<rparr>"

definition sun_zero_dev :: sun_dev where
  "sun_zero_dev = \<lparr>sd_devlink = None, sd_ugenpath = None, sd_ap_ancestry = None, sd_udi = None, sd_ref_count = 0,
     sd_ep0_fd = 0, sd_ep0_fd_stat = 0, sd_claimed = replicate USBI_MAXINTERFACES 0\<rparr>"

text \<open>The structure of the node: the known device of its path, or a new one; 0 when an allocation fails.\<close>

definition node_device :: "(addr \<Rightarrow> bool) \<Rightarrow> string \<Rightarrow> ('a sunos_scheme, addr \<times> bool) op" where
  "node_device av path s = do {
     tmpdev \<leftarrow> find_device_by_syspath path s;
     (if tmpdev \<noteq> 0 then Some ((tmpdev, False), s)
      else do {
        let (idev, s) = fresh av s;
        (if idev = 0 then Some ((0, True), s)
         else do {
           let (priv, s) = fresh av s;
           (if priv = 0 then Some ((0, True), s)
            else Some ((idev, True), s\<lparr>l_dev := (l_dev s)(idev \<mapsto> sun_zero_device), su_dev := (su_dev s)(idev \<mapsto> sun_zero_dev),
              su_children := (su_children s)(idev := None), su_found := su_found s - {idev}\<rparr>))
         })
      })
   }"

text \<open>The number, the parent and the port of the device, None inside when they are refused.\<close>

definition node_place :: "addr \<Rightarrow> di_props \<Rightarrow> usbi_device \<Rightarrow> 'a lib_scheme \<Rightarrow> (usbi_device \<times> int) option option" where
  "node_place pdev p d s =
     (if pdev = 0 then Some (Some (d\<lparr>dv_devnum := 1, dv_parent := 0\<rparr>, 0))
      else (case dn_assigned_address p of
        Some [a] \<Rightarrow> (if a = 0 then Some None else (case dn_reg p of
          Some [port] \<Rightarrow> do {
            pd \<leftarrow> l_dev s pdev;
            Some (if port > int (unat (dv_nports pd)) \<or> port \<le> 0 then None
              else Some (d\<lparr>dv_devnum := of_int a, dv_parent := pdev, dv_pport := of_int port\<rparr>, port))
          }
          | _ \<Rightarrow> Some None))
      | _ \<Rightarrow> Some None))"

text \<open>free(idev): a known device stays on its lists.\<close>

definition drop_device :: "addr \<Rightarrow> 'a lib_scheme \<Rightarrow> 'a lib_scheme" where
  "drop_device idev s = s\<lparr>l_dev := (l_dev s)(idev := None)\<rparr>"

text \<open>
  The ports of a hub and its array of children: a new device gets an array, a known one keeps
  its own, which is cleared for as many entries as there are ports now. False for a refusal.
\<close>

definition node_ports :: "(addr \<Rightarrow> bool) \<Rightarrow> addr \<Rightarrow> bool \<Rightarrow> di_props \<Rightarrow> ('a sunos_scheme, bool \<times> u8) op" where
  "node_ports av idev new p s = (case dn_port_count p of
       Some [n] \<Rightarrow> do {
         let nports = (of_int n :: u8);
         let (mem, s) = (if new then fresh av s else (1, s));
         let s = (if new then s\<lparr>su_children := (su_children s)(idev :=
            (if mem = 0 then None else Some (replicate (unat nports) 0)))\<rparr> else s);
         (case su_children s idev of None \<Rightarrow> Some ((False, nports), s)
          | Some cs \<Rightarrow> do {
              cs \<leftarrow> wrn cs 0 (replicate (unat nports) 0);
              Some ((True, nports), s\<lparr>su_children := (su_children s)(idev \<mapsto> cs)\<rparr>)
            })
       }
     | Some (_ # _ # _) \<Rightarrow> Some ((False, 0), s)
     | _ \<Rightarrow> Some ((True, 0), s))"

text \<open>One node, up to the walk over its children: the device, 0 for an early return.\<close>

definition create_node :: "(addr \<Rightarrow> bool) \<Rightarrow> addr \<Rightarrow> addr \<Rightarrow> di_props \<Rightarrow> ('a sunos_scheme, addr) op" where
  "create_node av ibus pdev p s = do {
     ((idev, new), s) \<leftarrow> node_device av (dn_path p) s;
     (if idev = 0 then Some (0, s)
      else do {
        d \<leftarrow> l_dev s idev;
        place \<leftarrow> node_place pdev p d s;
        (case place of None \<Rightarrow> Some (0, drop_device idev s)
         | Some (d, port) \<Rightarrow> do {
             ((ok, nports), s) \<leftarrow> node_ports av idev new p s;
             (if \<not> ok then Some (0, drop_device idev s)
              else do {
                let s = s\<lparr>l_dev := (l_dev s)(idev \<mapsto> d\<lparr>dv_nports := nports,
                   dv_sys_path := take SUN_PATH_MAX (''/devices'' @ dn_path p)\<rparr>)\<rparr>;
                s \<leftarrow> get_minor_node_link av idev (dn_minors p) s;
                s \<leftarrow> (if pdev = 0 then Some (s\<lparr>su_root := (su_root s)(ibus := idev)\<rparr>)
                  else do {
                    cs \<leftarrow> su_children s pdev;
                    cs \<leftarrow> wr cs (nat (port - 1)) idev;
                    Some (s\<lparr>su_children := (su_children s)(pdev \<mapsto> cs)\<rparr>)
                  });
                (_, s) \<leftarrow> (if new then usbi_add_device av ibus idev s else Some ((), s));
                dp \<leftarrow> su_dev s idev;
                Some (idev, s\<lparr>su_found := insert idev (su_found s),
                  su_dev := (su_dev s)(idev \<mapsto> dp\<lparr>sd_ep0_fd := -1, sd_ep0_fd_stat := -1\<rparr>)\<rparr>)
              })
           })
      })
   }"

fun sun_create_new_device :: "(addr \<Rightarrow> bool) \<Rightarrow> addr \<Rightarrow> addr \<Rightarrow> di_node \<Rightarrow> 'a sunos_scheme \<Rightarrow> 'a sunos_scheme option"
  and create_children :: "(addr \<Rightarrow> bool) \<Rightarrow> addr \<Rightarrow> addr \<Rightarrow> di_node list \<Rightarrow> 'a sunos_scheme \<Rightarrow> 'a sunos_scheme option" where
  "sun_create_new_device av ibus pdev (DiNode p cs) s = do {
     (idev, s) \<leftarrow> create_node av ibus pdev p s;
     (if idev = 0 then Some s
      else do {
        d \<leftarrow> l_dev s idev;
        (if dv_nports d \<noteq> 0 then create_children av ibus idev cs s else Some s)
      })
   }"
| "create_children av ibus idev [] s = Some s"
| "create_children av ibus idev (c # cs) s = do {
     s \<leftarrow> sun_create_new_device av ibus idev c s;
     create_children av ibus idev cs s
   }"

section \<open>Refreshing\<close>

definition sun_remove_lost :: "(addr \<Rightarrow> bool) \<Rightarrow> (nat \<Rightarrow> 'a sunos_scheme backend_ops) \<Rightarrow> addr \<Rightarrow> ('a sunos_scheme, unit) op" where
  "sun_remove_lost av B idev s = do {
     _ \<leftarrow> l_dev s idev;
     (if idev \<in> su_found s then Some ((), s) else usbi_remove_device av B idev s)
   }"

text \<open>tree is what di_init finds at the path of the bus, links whether di_devlink_init succeeds.\<close>

definition solaris_refresh_devices :: "(addr \<Rightarrow> bool) \<Rightarrow> (nat \<Rightarrow> 'a sunos_scheme backend_ops) \<Rightarrow>
    (string \<Rightarrow> di_node option) \<Rightarrow> bool \<Rightarrow> addr \<Rightarrow> ('a sunos_scheme, int) op" where
  "solaris_refresh_devices av B tree links ibus s = do {
     b \<leftarrow> l_bus s ibus;
     (case tree (bs_sys_path b) of None \<Rightarrow> Some (OPENUSB_PLATFORM_FAILURE, s)
      | Some root \<Rightarrow> if \<not> links then Some (OPENUSB_PLATFORM_FAILURE, s)
        else do {
          s \<leftarrow> lock (LkBusDevs ibus) s;
          _ \<leftarrow> list_map dv_devid (l_dev s) (bs_devices b);
          let s = s\<lparr>su_found := su_found s - set (bs_devices b)\<rparr>;
          s \<leftarrow> sun_create_new_device av ibus 0 root s;
          b \<leftarrow> l_bus s ibus;
          (_, s) \<leftarrow> list_iter (sun_remove_lost av B) (bs_devices b) s;
          s \<leftarrow> unlock (LkBusDevs ibus) s;
          Some (OPENUSB_SUCCESS, s)
        })
   }"

section \<open>Events of HAL\<close>

text \<open>Devices without a udi are passed over.\<close>

fun udi_walk :: "string \<Rightarrow> addr list \<Rightarrow> 'a sunos_scheme \<Rightarrow> addr option" where
  "udi_walk udi [] s = Some 0"
| "udi_walk udi (p # ps) s = do {
     _ \<leftarrow> l_dev s p;
     (if map_option sd_udi (su_dev s p) = Some (Some udi) then Some p else udi_walk udi ps s)
   }"

definition find_device_by_udi :: "string \<Rightarrow> ('a sunos_scheme, addr) op" where
  "find_device_by_udi udi s = with_lock LkDevices (\<lambda>s. do { p \<leftarrow> udi_walk udi (l_devices s) s; Some (p, s) }) s"

text \<open>The devices that HAL knows, each with its path unless the property has an error.\<close>

fun set_device_udi :: "(addr \<Rightarrow> bool) \<Rightarrow> (string \<times> string option) list \<Rightarrow> 'a sunos_scheme \<Rightarrow> 'a sunos_scheme option" where
  "set_device_udi av [] s = Some s"
| "set_device_udi av ((udi, None) # ds) s = set_device_udi av ds s"
| "set_device_udi av ((udi, Some path) # ds) s = do {
     idev \<leftarrow> find_device_by_syspath path s;
     (if idev = 0 then set_device_udi av ds s
      else do {
        dp \<leftarrow> su_dev s idev;
        (if sd_udi dp \<noteq> None then set_device_udi av ds s
         else do {
           let (u, s) = dup_string av udi s;
           set_device_udi av ds (s\<lparr>su_dev := (su_dev s)(idev \<mapsto> dp\<lparr>sd_udi := u\<rparr>)\<rparr>)
         })
      })
   }"

text \<open>What HAL answers for a device: devfs_path, subsystem and parent, None for an error.\<close>

record hal_device =
  ha_devfs_path :: "string option"
  ha_subsystem :: "string option"
  ha_parent :: "string option"

definition sun_process_new_device :: "(addr \<Rightarrow> bool) \<Rightarrow> (nat \<Rightarrow> 'a sunos_scheme backend_ops) \<Rightarrow>
    (string \<Rightarrow> di_node option) \<Rightarrow> bool \<Rightarrow> hal_device \<Rightarrow> 'a sunos_scheme \<Rightarrow> 'a sunos_scheme option" where
  "sun_process_new_device av B tree links hal s = (case (ha_devfs_path hal, ha_subsystem hal) of
       (Some _, Some subsys) \<Rightarrow>
         (if subsys \<noteq> ''usb_device'' then Some s
          else (case ha_parent hal of None \<Rightarrow> Some s
            | Some parent \<Rightarrow> do {
                (pidev, s) \<leftarrow> find_device_by_udi parent s;
                (if pidev = 0 then Some s
                 else do {
                   d \<leftarrow> l_dev s pidev;
                   (_, s) \<leftarrow> solaris_refresh_devices av B tree links (dv_bus d) s;
                   Some s
                 })
              }))
     | _ \<Rightarrow> Some s)"

definition sun_device_added :: "(addr \<Rightarrow> bool) \<Rightarrow> (nat \<Rightarrow> 'a sunos_scheme backend_ops) \<Rightarrow> (string \<Rightarrow> di_node option) \<Rightarrow>
    bool \<Rightarrow> hal_device \<Rightarrow> (string \<times> string option) list \<Rightarrow> string \<Rightarrow> 'a sunos_scheme \<Rightarrow> 'a sunos_scheme option" where
  "sun_device_added av B tree links hal known udi s = do {
     (idev, s) \<leftarrow> find_device_by_udi udi s;
     (if idev \<noteq> 0 then do {
        d \<leftarrow> l_dev s idev;
        (_, s) \<leftarrow> notify_all av (dv_devid d) USB_ATTACH s;
        Some s
      }
      else do {
        s \<leftarrow> sun_process_new_device av B tree links hal s;
        set_device_udi av known s
      })
   }"

text \<open>Every handle is told; the lock is released around each call.\<close>

fun tell_removed :: "(addr \<Rightarrow> bool) \<Rightarrow> addr \<Rightarrow> addr list \<Rightarrow> 'a lib_scheme \<Rightarrow> 'a lib_scheme option" where
  "tell_removed av idev [] s = Some s"
| "tell_removed av idev (hdl # hs) s = do {
     s \<leftarrow> unlock LkHandles s;
     d \<leftarrow> l_dev s idev;
     (_, s) \<leftarrow> usbi_add_event_callback av (dv_devid d) USB_REMOVE hdl s;
     s \<leftarrow> lock LkHandles s;
     tell_removed av idev hs s
   }"

definition sun_device_removed :: "(addr \<Rightarrow> bool) \<Rightarrow> string \<Rightarrow> 'a sunos_scheme \<Rightarrow> 'a sunos_scheme option" where
  "sun_device_removed av udi s = do {
     (idev, s) \<leftarrow> find_device_by_udi udi s;
     (if idev = 0 then Some s
      else do {
        s \<leftarrow> lock LkHandles s;
        s \<leftarrow> tell_removed av idev (l_handles s) s;
        unlock LkHandles s
      })
   }"

section \<open>Raw descriptors\<close>

definition fs_root_hub_dev_descr :: usb_device_desc where
  "fs_root_hub_dev_descr = \<lparr>dd_bLength = 0x12, dd_bDescriptorType = 1, dd_bcdUSB = 0x110, dd_bDeviceClass = 9,
     dd_bDeviceSubClass = 0, dd_bDeviceProtocol = 0, dd_bMaxPacketSize0 = 8, dd_idVendor = 0, dd_idProduct = 0,
     dd_bcdDevice = 0, dd_iManufacturer = 0, dd_iProduct = 0, dd_iSerialNumber = 0, dd_bNumConfigurations = 1\<rparr>"

definition hs_root_hub_dev_descr :: usb_device_desc where
  "hs_root_hub_dev_descr = \<lparr>dd_bLength = 0x12, dd_bDescriptorType = 1, dd_bcdUSB = 0x200, dd_bDeviceClass = 9,
     dd_bDeviceSubClass = 0, dd_bDeviceProtocol = 1, dd_bMaxPacketSize0 = 0x40, dd_idVendor = 0, dd_idProduct = 0,
     dd_bcdDevice = 0, dd_iManufacturer = 0, dd_iProduct = 0, dd_iSerialNumber = 0, dd_bNumConfigurations = 1\<rparr>"

definition root_hub_config_descriptor :: "u8 list" where
  "root_hub_config_descriptor =
     [0x09, 0x02, 0x19, 0x00, 0x01, 0x01, 0x00, 0x40, 0x00,
      0x09, 0x04, 0x00, 0x00, 0x01, 0x09, 0x01, 0x00, 0x00,
      0x07, 0x05, 0x81, 0x03, 0x01, 0x00, 0xff]"

text \<open>
  The properties of a node: None when it is not found, the empty list for one that only exists.
  wc is the number DI_WALK_CONTINUE. *buffer and *buflen of the caller are arguments.
\<close>

record di_info =
  di_init_ok :: "string \<Rightarrow> bool"
  di_bytes :: "string \<Rightarrow> string \<Rightarrow> u8 list option"

definition swap_device_desc :: "bool \<Rightarrow> usb_device_desc \<Rightarrow> usb_device_desc" where
  "swap_device_desc be d = d\<lparr>dd_bcdUSB := openusb_le16_to_cpu be (dd_bcdUSB d),
     dd_idVendor := openusb_le16_to_cpu be (dd_idVendor d), dd_idProduct := openusb_le16_to_cpu be (dd_idProduct d),
     dd_bcdDevice := openusb_le16_to_cpu be (dd_bcdDevice d)\<rparr>"

definition solaris_get_raw_desc :: "(addr \<Rightarrow> bool) \<Rightarrow> bool \<Rightarrow> di_info \<Rightarrow> int \<Rightarrow> addr \<Rightarrow> u8 \<Rightarrow> u8 list \<Rightarrow> u16 \<Rightarrow>
    ('a sunos_scheme, int \<times> u8 list \<times> u16) op" where
  "solaris_get_raw_desc av be D wc idev ty buffer buflen s = do {
     d \<leftarrow> l_dev s idev;
     (if dv_parent d = 0 then do {
        _ \<leftarrow> l_bus s (dv_bus d);
        model \<leftarrow> su_model s (dv_bus d);
        (if ty = USB_DESC_TYPE_DEVICE then do {
           let (p, s) = fresh av s;
           Some (if p = 0 then (OPENUSB_NO_RESOURCES, [], 18) else (0, mem_of_device_desc be
              (if model = SUNOS_BUS_EHCI then hs_root_hub_dev_descr else fs_root_hub_dev_descr), 18), s)
         }
         else if ty = USB_DESC_TYPE_CONFIG then do {
           let (p, s) = fresh av s;
           Some (if p = 0 then (OPENUSB_NO_RESOURCES, [], 25) else (0, root_hub_config_descriptor, 25), s)
         }
         else Some ((OPENUSB_PLATFORM_FAILURE, buffer, buflen), s))
      }
      else do {
        _ \<leftarrow> l_dev s (dv_parent d);
        (if dv_sys_path d = [] then Some ((OPENUSB_BADARG, buffer, buflen), s)
         else do {
           let path = drop 8 (dv_sys_path d);
           (if \<not> di_init_ok D path then Some ((OPENUSB_SYS_FUNC_FAILURE, buffer, buflen), s)
            else if di_bytes D path ''root-hub'' = Some [] then Some ((wc, buffer, buflen), s)
            else if ty = USB_DESC_TYPE_DEVICE then
              (case di_bytes D path ''usb-dev-descriptor'' of
                 Some (x # xs) \<Rightarrow> do {
                   let (p, s) = fresh av s;
                   (if p = 0 then Some ((OPENUSB_NO_RESOURCES, buffer, buflen), s)
                    else do {
                      raw \<leftarrow> rdn (x # xs) 0 USBI_DEVICE_DESC_SIZE;
                      Some ((0, mem_of_device_desc be (swap_device_desc be (device_desc_of_mem be raw)), 18), s)
                    })
                 }
               | _ \<Rightarrow> Some ((OPENUSB_SYS_FUNC_FAILURE, buffer, buflen), s))
            else if ty = USB_DESC_TYPE_CONFIG then
              (case di_bytes D path ''usb-raw-cfg-descriptors'' of
                 Some (x # xs) \<Rightarrow> do {
                   let (p, s) = fresh av s;
                   Some (if p = 0 then (OPENUSB_NO_RESOURCES, buffer, buflen)
                     else (0, x # xs, of_nat (length (x # xs))), s)
                 }
               | _ \<Rightarrow> Some ((OPENUSB_SYS_FUNC_FAILURE, buffer, buflen), s))
            else Some ((OPENUSB_PLATFORM_FAILURE, buffer, buflen), s))
         })
      })
   }"

end
