(* ===== verification/SunOps.thy ===== *)
theory SunOps
  imports SunXfer SunTree
begin

text \<open>
  The table backend_ops of the Solaris backend, a synchronous one. The record sun_env holds what
  the system and the other threads do; B is the table of all backends, through which the library
  calls back into this one.
\<close>

record 's sun_env =
  se_alloc :: "addr \<Rightarrow> bool"
  se_memory :: "nat \<Rightarrow> bool"
  se_big_endian :: bool
  se_others :: "'s \<Rightarrow> 's option"
  se_junk :: junk
  se_locals :: locals
  se_byte :: u8
  se_kernel :: "int \<Rightarrow> sun_call \<Rightarrow> 's \<Rightarrow> sun_answer"
  se_lc :: "lc_stat \<Rightarrow> int"
  se_one_xfer :: u8
  se_join :: "addr \<Rightarrow> 's \<Rightarrow> 's option"
  se_mutex_init :: int
  se_cond_init :: int
  se_thread :: int
  se_hotplug_join :: "'s \<Rightarrow> 's option"
  se_root :: "rh_node list option"
  se_walk_fails :: bool
  se_tree :: "string \<Rightarrow> di_node option"
  se_links :: bool
  se_info :: di_info
  se_walk_continue :: int
  se_buffer :: "u8 list"
  se_buflen :: u16

text \<open>The four operations that transfer and wait.\<close>

definition solaris_xfer_wait :: "'a sunos_scheme sun_env \<Rightarrow> int \<Rightarrow> addr \<Rightarrow> addr \<Rightarrow> ('a sunos_scheme, int) op" where
  "solaris_xfer_wait e ty hdev io s =
     (if ty = USB_TYPE_CONTROL then solaris_submit_ctrl (se_alloc e) (se_lc e) (se_kernel e) (se_one_xfer e) hdev io s
      else if ty = USB_TYPE_INTERRUPT then solaris_submit_intr (se_lc e) (se_kernel e) (se_one_xfer e) hdev io s
      else if ty = USB_TYPE_BULK then solaris_submit_bulk (se_lc e) (se_kernel e) (se_one_xfer e) hdev io s
      else if ty = USB_TYPE_ISOCHRONOUS then
        solaris_submit_isoc (se_alloc e) (se_big_endian e) (se_lc e) (se_kernel e) (se_one_xfer e) hdev io s
      else None)"

text \<open>The entries that the table leaves out are NULL; a call of one that the library does not test faults.\<close>

definition solaris_ops :: "'a sunos_scheme sun_env \<Rightarrow> (nat \<Rightarrow> 'a sunos_scheme backend_ops) \<Rightarrow> 'a sunos_scheme backend_ops" where
  "solaris_ops e B = \<lparr>bo_version = 1, bo_io_pattern = PATTERN_SYNC,
     bo_init = solaris_init (se_mutex_init e) (se_cond_init e) (se_thread e),
     bo_fini = Some (solaris_fini (se_hotplug_join e)),
     bo_find_buses = Some (solaris_find_busses (se_alloc e) (se_root e) (se_walk_fails e)),
     bo_refresh_devices = solaris_refresh_devices (se_alloc e) B (se_tree e) (se_links e),
     bo_free_device = Some solaris_free_device,
     do_open = solaris_open (se_alloc e) (se_kernel e),
     do_close = Some (solaris_close (se_kernel e) (se_join e)),
     do_set_configuration = solaris_set_configuration (se_alloc e) (se_memory e) B (se_big_endian e) (se_others e)
       (se_junk e) (se_locals e),
     do_get_configuration = (\<lambda>hdev. solaris_get_configuration hdev (se_byte e)),
     do_claim_interface = solaris_claim_interface,
     do_release_interface = solaris_release_interface,
     do_set_altsetting = solaris_set_altinterface (se_kernel e),
     do_get_altsetting = (\<lambda>hdev ifc. solaris_get_altinterface hdev ifc (se_byte e)),
     do_reset = None,
     do_xfer_wait = solaris_xfer_wait e,
     do_xfer_aio = (\<lambda>ty hdev io s. None),
     do_get_raw_desc = Some (\<lambda>idev ty descidx langid. solaris_get_raw_desc (se_alloc e) (se_big_endian e) (se_info e)
       (se_walk_continue e) idev ty (se_buffer e) (se_buflen e)),
     do_io_cancel = Some solaris_io_cancel,
     do_get_driver_np = None,
     do_attach_kernel_driver_np = None,
     do_detach_kernel_driver_np = None\<rparr>"

end
