(* ===== verification/SunFrame.thy ===== *)
theory SunFrame
  imports SunOps
begin

text \<open>
  What a synchronous backend may do to the library while it transfers: change the request and the
  state of the usbi_io, allocate, and change its own part of the state. The locale sync_backend
  states this contract, and draws from it what usbi_io_sync leaves behind: nothing. The four
  submit functions of the Solaris backend keep it, whatever the system answers.
\<close>

section \<open>The frame of a transfer\<close>

text \<open>The part of the library that stays.\<close>

definition lib_rest :: "'a lib_scheme \<Rightarrow> lib" where
  "lib_rest s = (lib.truncate s)\<lparr>l_next := 0, l_req := Map.empty, l_io := Map.empty\<rparr>"

definition still :: "usbi_io option \<Rightarrow> usbi_io option" where
  "still = map_option (\<lambda>x. x\<lparr>io_state := IO_INITIAL\<rparr>)"

definition sync_frame :: "addr \<Rightarrow> 'a lib_scheme \<Rightarrow> 'a lib_scheme \<Rightarrow> bool" where
  "sync_frame io s t \<longleftrightarrow> lib_rest t = lib_rest s \<and> l_next s \<le> l_next t \<and>
     (\<forall>p. p \<noteq> io \<longrightarrow> l_io t p = l_io s p) \<and> still (l_io t io) = still (l_io s io) \<and>
     (\<forall>x p. l_io s io = Some x \<longrightarrow> p \<noteq> io_req x \<longrightarrow> l_req t p = l_req s p)"

lemma sync_frame_refl [simp]: "sync_frame io s s"
  by (simp add: sync_frame_def)

lemma still_Some: "still a = Some x \<Longrightarrow> \<exists>y. a = Some y"
  by (auto simp: still_def)

lemma still_req: "still a = still b \<Longrightarrow> a = Some x \<Longrightarrow> \<exists>y. b = Some y \<and> io_req y = io_req x \<and> io_dev y = io_dev x"
  by (cases b) (auto simp: still_def, (metis usbi_io.select_convs usbi_io.update_convs(3) usbi_io.surjective)+)

lemma sync_frame_trans: "sync_frame io s t \<Longrightarrow> sync_frame io t u \<Longrightarrow> sync_frame io s u"
proof -
  assume a: "sync_frame io s t" and b: "sync_frame io t u"
  have "l_req u p = l_req s p" if x: "l_io s io = Some x" "p \<noteq> io_req x" for x p
  proof -
    obtain y where "l_io t io = Some y" "io_req y = io_req x"
      using a x(1) still_req [of "l_io s io" "l_io t io" x] by (auto simp: sync_frame_def)
    then show ?thesis using a b x by (auto simp: sync_frame_def)
  qed
  with a b show ?thesis by (auto simp: sync_frame_def)
qed

lemma sync_frame_more [simp]:
  "sync_frame io s (t\<lparr>su_hdev := a\<rparr>) = sync_frame io s t" "sync_frame io s (t\<lparr>su_dev := b\<rparr>) = sync_frame io s t"
  "sync_frame io s (t\<lparr>su_log := c\<rparr>) = sync_frame io s t"
  by (simp_all add: sync_frame_def lib_rest_def lib.truncate_def)

section \<open>The contract\<close>

text \<open>What io_unlink and the release of io see.\<close>

lemma rest_fields:
  assumes "lib_rest t = lib_rest s"
  shows "l_held t = l_held s" "l_hdev t = l_hdev s" "l_hdl t = l_hdl s" "l_dev t = l_dev s" "l_bus t = l_bus s"
    "l_sio t = l_sio s" "l_req_cbs t = l_req_cbs s" "l_submits t = l_submits s"
  using assms by (auto simp: lib_rest_def lib.truncate_def)

definition sync_start :: "addr \<Rightarrow> addr \<Rightarrow> u32 \<Rightarrow> 'a lib_scheme \<Rightarrow> 'a lib_scheme" where
  "sync_start dev req to s =
     link_dev dev (l_next s) (s\<lparr>l_next := l_next s + 1, l_io := (l_io s)(l_next s \<mapsto> new_io dev req to s)\<rparr>)"

locale sync_backend =
  fixes wait :: "int \<Rightarrow> addr \<Rightarrow> addr \<Rightarrow> ('a lib_scheme, int) op"
  assumes wait_frame: "l_held s = {} \<Longrightarrow> wait ty dev io s = Some (r, t) \<Longrightarrow> sync_frame io s t"
begin

text \<open>What the backend is called on: the state in which the new usbi_io is on the list of the handle.\<close>

lemma io_sync_run:
  assumes st: "connected dev d b s" "l_held s = {}" "next_free s" "\<forall>n. av n"
    and r: "l_req s req = Some r" "req_ok r"
    and B: "bo_io_pattern (B (bs_ops b)) = PATTERN_SYNC" "do_xfer_wait (B (dv_ops d)) = wait"
  obtains to where
    "\<And>r0 u. wait (rq_type r) dev (l_next s) (sync_start dev req to s) = Some (r0, u) \<Longrightarrow>
      \<exists>t. usbi_io_sync av B others dev req s = Some (if r0 < 0 then r0 else OPENUSB_SUCCESS, t) \<and>
        lib_rest t = lib_rest s \<and> l_io t = l_io s \<and> l_req t = l_req u \<and> lib.more t = lib.more u"
    "wait (rq_type r) dev (l_next s) (sync_start dev req to s) = None \<Longrightarrow> usbi_io_sync av B others dev req s = None"
proof -
  obtain to where to: "usbi_get_xfer_timeout req dev s = Some (to, s)"
    using timeout_run [OF r st(1,2)] by blast
  let ?io = "l_next s"
  let ?x = "new_io dev req to s"
  let ?s1 = "sync_start dev req to s"
  have hd: "l_hdev s dev \<noteq> None" and nf: "l_io s ?io = None" "unlinked ?io s" "?io \<noteq> 0"
    using connected_hdev [OF st(1)] next_freeD [OF st(3), of ?io] st(3) by (simp_all add: next_free_def)
  have a: "usbi_alloc_io av dev req to s = Some (?io, ?s1)"
    using alloc_io_run [of s av dev req to] st hd by (simp add: next_free_def sync_start_def)
  have c1: "connected dev d b ?s1" unfolding sync_start_def by (rule connected_link) (simp add: st(1))
  have run: "usbi_io_sync av B others dev req s =
      do { (ret, u) \<leftarrow> usbi_sync_submit B ?io ?s1; (_, t) \<leftarrow> usbi_free_io B ?io u; Some (ret, t) }"
    using to a nf(3) bus_of_connected [OF st(1)] B(1)
    by (simp add: usbi_io_sync_def PATTERN_ASYNC_def PATTERN_SYNC_def PATTERN_BOTH_def)
  have sub: "usbi_sync_submit B ?io ?s1 = do { (r0, u) \<leftarrow> wait (rq_type r) dev ?io ?s1;
      Some (if r0 < 0 then r0 else OPENUSB_SUCCESS, u) }"
    using r B(2) req_ok_type [OF r(2)] dev_ops_connected [OF c1, of B]
    by (auto simp: usbi_sync_submit_def sync_start_def)
  have some: "\<exists>t. usbi_io_sync av B others dev req s = Some (if r0 < 0 then r0 else OPENUSB_SUCCESS, t) \<and>
        lib_rest t = lib_rest s \<and> l_io t = l_io s \<and> l_req t = l_req u \<and> lib.more t = lib.more u"
    if w: "wait (rq_type r) dev ?io ?s1 = Some (r0, u)" for r0 u
  proof -
    have f: "sync_frame ?io ?s1 u" by (rule wait_frame [OF _ w]) (simp add: sync_start_def st(2))
    have rest: "lib_rest u = lib_rest ?s1" using f by (simp add: sync_frame_def)
    note fld = rest_fields [OF rest]
    obtain y where y: "l_io u ?io = Some y" "io_req y = req" "io_dev y = dev" "\<not> io_async y"
    proof -
      have "still (l_io u ?io) = Some (?x\<lparr>io_state := IO_INITIAL\<rparr>)"
        using f by (simp add: sync_frame_def still_def sync_start_def)
      then obtain y where "l_io u ?io = Some y" "y\<lparr>io_state := IO_INITIAL\<rparr> = ?x\<lparr>io_state := IO_INITIAL\<rparr>"
        by (auto simp: still_def)
      then show thesis
        using that by (metis new_io_simps(1,2,4) usbi_io.select_convs(1,2,4) usbi_io.surjective usbi_io.update_convs(3))
    qed
    let ?t = "(io_unlink ?io u)\<lparr>l_io := (l_io u)(?io := None)\<rparr>"
    have fr: "usbi_free_io B ?io u = Some ((), ?t)"
      by (rule free_io_run [where x = y]) (use y fld st(2) nf(3) hd in \<open>auto simp: sync_start_def link_dev_def\<close>)
    have un: "io_unlink ?io (link_dev dev ?io s) = s" by (rule unlink_link_dev [OF nf(2) hd])
    have e: "l_hdev (io_unlink ?io u) = l_hdev s" "l_hdl (io_unlink ?io u) = l_hdl s"
    proof -
      have "l_hdev (io_unlink ?io u) = l_hdev (io_unlink ?io (link_dev dev ?io s))"
        "l_hdl (io_unlink ?io u) = l_hdl (io_unlink ?io (link_dev dev ?io s))"
        using fld by (simp_all add: io_unlink_def link_dev_def sync_start_def)
      then show "l_hdev (io_unlink ?io u) = l_hdev s" "l_hdl (io_unlink ?io u) = l_hdl s" by (simp_all add: un)
    qed
    have "lib_rest (io_unlink ?io u) = lib_rest s"
      using rest e by (simp add: lib_rest_def lib.truncate_def io_unlink_def link_dev_def sync_start_def)
    then have "lib_rest ?t = lib_rest s" by (simp add: lib_rest_def lib.truncate_def)
    moreover have "l_io ?t p = l_io s p" for p
      using f nf(1) by (cases "p = ?io") (simp_all add: sync_frame_def sync_start_def)
    ultimately show ?thesis using run sub w fr by (auto simp: fun_eq_iff io_unlink_def)
  qed
  have none: "usbi_io_sync av B others dev req s = None" if "wait (rq_type r) dev ?io ?s1 = None"
    using run sub that by simp
  show thesis by (rule that [of to], erule some, erule none)
qed

text \<open>
  A request through usbi_io_sync: whatever the backend returns is returned, less a positive
  number of bytes, and the library is as before but for the request.
\<close>

lemma io_sync_frame:
  assumes st: "connected dev d b s" "l_held s = {}" "next_free s" "\<forall>n. av n"
    and r: "l_req s req = Some r" "req_ok r"
    and B: "bo_io_pattern (B (bs_ops b)) = PATTERN_SYNC" "do_xfer_wait (B (dv_ops d)) = wait"
    and run: "usbi_io_sync av B others dev req s = Some (ret, t)"
  shows "lib_rest t = lib_rest s \<and> l_io t = l_io s \<and> (\<forall>p. p \<noteq> req \<longrightarrow> l_req t p = l_req s p) \<and> ret \<le> 0"
proof (rule io_sync_run [OF st r B, of others])
  fix to
  assume some: "\<And>r0 u. wait (rq_type r) dev (l_next s) (sync_start dev req to s) = Some (r0, u) \<Longrightarrow>
      \<exists>t. usbi_io_sync av B others dev req s = Some (if r0 < 0 then r0 else OPENUSB_SUCCESS, t) \<and>
        lib_rest t = lib_rest s \<and> l_io t = l_io s \<and> l_req t = l_req u \<and> lib.more t = lib.more u"
    and none: "wait (rq_type r) dev (l_next s) (sync_start dev req to s) = None \<Longrightarrow> usbi_io_sync av B others dev req s = None"
  from none run obtain r0 u where w: "wait (rq_type r) dev (l_next s) (sync_start dev req to s) = Some (r0, u)" by fastforce
  have "sync_frame (l_next s) (sync_start dev req to s) u" by (rule wait_frame [OF _ w]) (simp add: sync_start_def st(2))
  then have "l_req u p = l_req s p" if "p \<noteq> req" for p using that by (auto simp: sync_frame_def sync_start_def)
  with some [OF w] run show ?thesis by (auto simp: OPENUSB_SUCCESS_def)
qed

end

end
