(* ===== verification/SunKeep.thy ===== *)
theory SunKeep
  imports SunFrame
begin

text \<open>
  The submit functions of the Solaris backend keep the frame of a transfer: sync_backend is
  interpreted on solaris_xfer_wait.
\<close>

section \<open>Steps\<close>

named_theorems keep

lemma keep_fresh [keep]: "fresh av s = (p, t) \<Longrightarrow> sync_frame io s t"
  by (auto simp: fresh_def sync_frame_def lib_rest_def lib.truncate_def)

lemma keep_sys [keep]: "sun_sys K fd c s = (a, t) \<Longrightarrow> sync_frame io s t"
  by (auto simp: sun_sys_def Let_def)

lemma keep_open_file [keep]: "sun_open_file K path m s = (a, t) \<Longrightarrow> sync_frame io s t"
  by (auto simp: sun_open_file_def sun_sys_def Let_def)

lemma keep_close_file: "sync_frame io s (sun_close_file K fd s)"
  by (auto simp: sun_close_file_def sun_sys_def Let_def)

lemma keep_close_file_iff [simp]: "sync_frame io s (sun_close_file K fd t) = sync_frame io s t"
  by (simp add: sun_close_file_def sun_sys_def Let_def)

lemma keep_read [keep]: "sun_read K fd data n s = Some (r, t) \<Longrightarrow> sync_frame io s t"
  by (auto simp: sun_read_def sun_sys_def Let_def elim!: bind_SomeE)

lemma keep_write [keep]: "sun_write K fd data n s = Some (r, t) \<Longrightarrow> sync_frame io s t"
  by (auto simp: sun_write_def sun_sys_def Let_def elim!: bind_SomeE)

lemma keep_status [keep]: "sunos_usb_get_status K fd s = (r, t) \<Longrightarrow> sync_frame io s t"
  by (auto simp: sunos_usb_get_status_def sun_sys_def Let_def)

lemma keep_set_ep [keep]: "set_ep hdev i fds s = Some t \<Longrightarrow> sync_frame io s t"
  by (auto simp: set_ep_def elim!: bind_SomeE)

lemma keep_inited [keep]: "set_inited hdev i s = Some t \<Longrightarrow> sync_frame io s t"
  by (auto simp: set_inited_def elim!: bind_SomeE)

lemma keep_state [keep]: "set_state io st s = Some t \<Longrightarrow> sync_frame io s t"
  by (auto simp: set_state_def sync_frame_def lib_rest_def lib.truncate_def still_def elim!: bind_SomeE)

lemma keep_request [keep]: "set_request io q s = Some t \<Longrightarrow> sync_frame io s t"
  by (auto simp: set_request_def sync_frame_def lib_rest_def lib.truncate_def elim!: bind_SomeE)

text \<open>A chain of steps, from its end: each gives keep_prior the state before it.\<close>

lemmas keep_prior = keep [THEN sync_frame_trans [rotated]] sync_frame_refl

lemma keep_do_io: "usb_do_io L K fd sfd data n w st s = Some (r, t) \<Longrightarrow> sync_frame io s t"
  unfolding usb_do_io_def
  by (auto elim!: bind_SomeE split: if_split_asm prod.split_asm; (erule keep_prior | simp)+)

lemma keep_ep_io: "ep_io L K hdev ep data n w st s = Some (r, t) \<Longrightarrow> sync_frame io s t"
  by (auto simp: ep_io_def elim!: bind_SomeE split: prod.split_asm intro: keep_do_io)

lemma keep_close_ep: "close_ep_files K hdev ep s = Some t \<Longrightarrow> sync_frame io s t"
  by (auto simp: close_ep_files_def Let_def elim!: bind_SomeE split: prod.split_asm; (erule keep_prior | simp)+)

lemma keep_one_xfer: "enable_one_xfer K x f s = Some (r, t) \<Longrightarrow> sync_frame io s t"
  unfolding enable_one_xfer_def Let_def
  by (auto elim!: bind_SomeE split: prod.split_asm if_split_asm; (erule keep_prior | simp)+)

lemmas keep_prior_io = keep_prior keep_do_io [THEN sync_frame_trans [rotated]] keep_ep_io [THEN sync_frame_trans [rotated]]
  keep_close_ep [THEN sync_frame_trans [rotated]] keep_one_xfer [THEN sync_frame_trans [rotated]]

lemma keep_both: "open_both K hdev i m f sf s = Some (r, t) \<Longrightarrow> sync_frame io s t"
  unfolding open_both_def
  by (auto elim!: bind_SomeE split: prod.split_asm if_split_asm; (erule keep_prior_io | simp)+)

lemma keep_ep_files: "open_ep_files K x hdev ep ty f s = Some (r, t) \<Longrightarrow> sync_frame io s t"
  unfolding open_ep_files_def Let_def
  by (auto elim!: bind_SomeE split: prod.split_asm if_split_asm option.split_asm; (erule keep_prior_io keep_both [THEN sync_frame_trans [rotated]] | simp)+)

lemma keep_check:
  assumes "usb_check_device_and_status_open K x hdev ifc ep ty s = Some (r, t)"
  shows "sync_frame io s t"
  using assms unfolding usb_check_device_and_status_open_def Let_def
  by (auto elim!: bind_SomeE split: prod.split_asm if_split_asm dest!: keep_ep_files [where io = io])

lemmas keep_xfer = keep_prior_io keep_check [THEN sync_frame_trans [rotated]]

section \<open>Under the lock of the handle\<close>

lemma keep_lock:
  assumes "lock_hdev h s = Some s1" "sync_frame io s1 t1" "unlock_hdev h t1 = Some t"
  shows "sync_frame io s t"
proof -
  have s1: "s1 = s\<lparr>l_held := insert (LkHdev h) (l_held s)\<rparr>" "LkHdev h \<notin> l_held s"
    using assms(1) by (auto simp: lock_hdev_def lock_def elim!: bind_SomeE split: if_split_asm)
  have t: "t = t1\<lparr>l_held := l_held t1 - {LkHdev h}\<rparr>"
    using assms(3) by (auto simp: unlock_hdev_def unlock_def elim!: bind_SomeE split: if_split_asm)
  have f: "lib_rest t1 = lib_rest s1" using assms(2) by (simp add: sync_frame_def)
  from rest_fields(1) [OF f] have "l_held t1 = insert (LkHdev h) (l_held s)" by (simp add: s1(1))
  then have "lib_rest t = (lib_rest t1)\<lparr>l_held := l_held s\<rparr>"
    using s1(2) by (simp add: t lib_rest_def lib.truncate_def)
  also have "... = (lib_rest s1)\<lparr>l_held := l_held s\<rparr>" by (simp only: f)
  also have "... = lib_rest s" by (simp add: s1(1) lib_rest_def lib.truncate_def)
  finally show ?thesis using assms(2) by (simp add: sync_frame_def t s1(1))
qed

section \<open>The requests\<close>

lemma keep_default: "solaris_submit_ctrl_on_default av L K hdev io s = Some (r, t) \<Longrightarrow> sync_frame io s t"
  unfolding solaris_submit_ctrl_on_default_def Let_def
  by (auto elim!: bind_SomeE split: prod.split_asm if_split_asm; (erule keep_xfer | simp)+)

lemma keep_non_default:
  "solaris_submit_ctrl_non_default L K x hdev io s = Some (r, t) \<Longrightarrow> sync_frame io s t"
  unfolding solaris_submit_ctrl_non_default_def Let_def
  by (auto elim!: bind_SomeE split: prod.split_asm if_split_asm; (erule keep_xfer | rule keep_lock, assumption | simp)+)

lemma keep_bulk: "solaris_submit_bulk L K x hdev io s = Some (r, t) \<Longrightarrow> sync_frame io s t"
  unfolding solaris_submit_bulk_def Let_def
  by (auto elim!: bind_SomeE split: prod.split_asm if_split_asm; (erule keep_xfer | rule keep_lock, assumption | simp)+)

lemma keep_intr: "solaris_submit_intr L K x hdev io s = Some (r, t) \<Longrightarrow> sync_frame io s t"
  unfolding solaris_submit_intr_def Let_def
  by (auto elim!: bind_SomeE split: prod.split_asm if_split_asm; (erule keep_xfer | rule keep_lock, assumption | simp)+)

lemma keep_isoc_start: "isoc_start L K hdev ep buf st s = Some (r, t) \<Longrightarrow> sync_frame io s t"
  unfolding isoc_start_def
  by (auto elim!: bind_SomeE split: prod.split_asm if_split_asm; (erule keep_xfer | simp)+)

lemma keep_isoc_out: "isoc_out_end be L K hdev ep buf n q s = Some (r, t) \<Longrightarrow> sync_frame io s t"
  unfolding isoc_out_end_def Let_def
  by (auto elim!: bind_SomeE split: prod.split_asm if_split_asm; (erule keep_xfer | simp)+)

lemma keep_isoc_in: "isoc_in_end av be L K hdev ep len n q s = Some (r, t) \<Longrightarrow> sync_frame io s t"
  unfolding isoc_in_end_def Let_def
  by (auto elim!: bind_SomeE split: prod.split_asm if_split_asm; (erule keep_xfer | simp)+)

lemmas keep_isoc_xfer = keep_xfer keep_isoc_start [THEN sync_frame_trans [rotated]]
  keep_isoc_out [THEN sync_frame_trans [rotated]] keep_isoc_in [THEN sync_frame_trans [rotated]]

lemma keep_isoc_body: "isoc_xfer av be L K hdev io ep q s = Some (r, t) \<Longrightarrow> sync_frame io s t"
  unfolding isoc_xfer_def Let_def
  by (auto elim!: bind_SomeE split: prod.split_asm if_split_asm; (erule keep_isoc_xfer | simp)+)

lemma keep_isoc: "solaris_submit_isoc av be L K x hdev io s = Some (r, t) \<Longrightarrow> sync_frame io s t"
  unfolding solaris_submit_isoc_def Let_def
  by (auto elim!: bind_SomeE split: prod.split_asm if_split_asm; (erule keep_xfer keep_isoc_body [THEN sync_frame_trans [rotated]] | rule keep_lock, assumption | simp)+)

section \<open>The interpretation\<close>

interpretation solaris_sync: sync_backend "solaris_xfer_wait e" for e :: "'a sunos_scheme sun_env"
proof
  show "sync_frame io s t" if "solaris_xfer_wait e ty dev io s = Some (r, t)" for s t :: "'a sunos_scheme" and ty dev io r
    using that by (auto simp: solaris_xfer_wait_def solaris_submit_ctrl_def elim!: bind_SomeE split: if_split_asm
        intro: keep_default keep_non_default keep_bulk keep_intr keep_isoc)
qed

end
