(* ===== verification/SunFiles.thy ===== *)
theory SunFiles
  imports SunOps
begin

text \<open>
  Which descriptors the Solaris backend holds. A slot is a place where it keeps one: the two of an
  endpoint of a handle, or the two of endpoint 0 of a device, which the handles of the device
  share. The invariant files_ok: each open descriptor is in exactly one slot, so none is lost and
  none is closed twice. It speaks of three parts of the state only (files), and every step of the
  backend is one of few changes of these.
\<close>

section \<open>Slots\<close>

text \<open>Entry 0 of a handle is a copy of what the device has, not a slot.\<close>

datatype slot = EpSlot addr nat bool | Ep0Slot addr bool

type_synonym files = "(addr \<rightharpoonup> (int \<times> int) list) \<times> (addr \<rightharpoonup> int \<times> int) \<times> int list"

definition live_fd :: "int \<Rightarrow> int option" where
  "live_fd fd = (if fd = -1 then None else Some fd)"

fun slot_fd :: "(addr \<rightharpoonup> (int \<times> int) list) \<Rightarrow> (addr \<rightharpoonup> int \<times> int) \<Rightarrow> slot \<Rightarrow> int option" where
  "slot_fd E D (EpSlot h i st) = do {
     eps \<leftarrow> E h;
     (if i = 0 then None else do { e \<leftarrow> rd eps i; live_fd (if st then snd e else fst e) })
   }"
| "slot_fd E D (Ep0Slot d st) = do { e \<leftarrow> D d; live_fd (if st then snd e else fst e) }"

definition files :: "'a sunos_scheme \<Rightarrow> files" where
  "files s = (\<lambda>h. map_option sh_eps (su_hdev s h),
     \<lambda>d. map_option (\<lambda>dp. (sd_ep0_fd dp, sd_ep0_fd_stat dp)) (su_dev s d), open_fds s)"

definition owned_by :: "(slot \<Rightarrow> int option) \<Rightarrow> int list \<Rightarrow> bool" where
  "owned_by M fds \<longleftrightarrow> distinct fds \<and> set fds = ran M \<and> inj_on M (dom M)"

text \<open>Both descriptors of an endpoint are there, or none.\<close>

definition paired :: "int \<times> int \<Rightarrow> bool" where
  "paired e \<longleftrightarrow> e = (-1, -1) \<or> fst e > 0 \<and> snd e > 0"

definition eps_ok :: "(int \<times> int) list \<Rightarrow> bool" where
  "eps_ok eps \<longleftrightarrow> length eps = USBI_MAXENDPOINTS \<and> (\<forall>e\<in>set (tl eps). paired e)"

fun files_ok :: "files \<Rightarrow> bool" where
  "files_ok (E, D, F) \<longleftrightarrow> owned_by (slot_fd E D) F \<and>
     (\<forall>h eps. E h = Some eps \<longrightarrow> eps_ok eps) \<and>
     (\<forall>d e. D d = Some e \<longrightarrow> paired e)"

definition honest_open :: "'a sunos_scheme sun_kernel \<Rightarrow> bool" where
  "honest_open K \<longleftrightarrow> (\<forall>fd path mode s. let r = sa_ret (K fd (SOpen path mode) s)
     in r = -1 \<or> r > 0 \<and> r \<notin> set (open_fds s))"

lemma owned_open: "owned_by M fds \<Longrightarrow> M x = None \<Longrightarrow> fd \<notin> set fds \<Longrightarrow> owned_by (M(x \<mapsto> fd)) (fds @ [fd])"
  by (auto simp: owned_by_def inj_on_def dom_def ran_map_upd) (metis ranI)+

lemma owned_close:
  assumes "owned_by M fds" "M x = Some fd"
  shows "owned_by (M(x := None)) (remove1 fd fds)"
proof -
  have d: "distinct fds" "set fds = ran M" "inj_on M (dom M)" using assms(1) by (auto simp: owned_by_def)
  have u: "y = x" if "M y = Some fd" for y
    using inj_onD [OF d(3), of y x] that assms(2) by (simp add: domI)
  have "v \<in> ran (M(x := None)) \<longleftrightarrow> v \<in> ran M - {fd}" for v
  proof
    assume "v \<in> ran (M(x := None))"
    then obtain y where "y \<noteq> x" "M y = Some v" by (auto simp: ran_def split: if_split_asm)
    then show "v \<in> ran M - {fd}" using u by (auto intro: ranI)
  next
    assume "v \<in> ran M - {fd}"
    then obtain y where "M y = Some v" "v \<noteq> fd" by (auto simp: ran_def)
    then have "(M(x := None)) y = Some v" using assms(2) by auto
    then show "v \<in> ran (M(x := None))" by (rule ranI)
  qed
  then have "ran (M(x := None)) = ran M - {fd}" by blast
  moreover have "inj_on (M(x := None)) (dom (M(x := None)))"
    using d(3) by (auto simp: inj_on_def dom_def)
  ultimately show ?thesis using d by (simp add: owned_by_def set_remove1_eq)
qed

lemma owned_pos:
  assumes "files_ok (E, D, F)"
  shows "fd \<in> set F \<Longrightarrow> fd > 0"
proof -
  assume "fd \<in> set F"
  then obtain x where x: "slot_fd E D x = Some fd" using assms by (auto simp: owned_by_def ran_def)
  have p: "\<forall>e\<in>set (tl eps). paired e" if "E h = Some eps" for h eps using assms that by (simp add: eps_ok_def)
  have nth: "eps ! i \<in> set (tl eps)" if "0 < i" "i < length eps" for i and eps :: "(int \<times> int) list"
    using that by (cases eps; cases i) auto
  show ?thesis
  proof (cases x)
    case (EpSlot h i st)
    then obtain eps where e: "E h = Some eps" "0 < i" "i < length eps" "live_fd (if st then snd (eps ! i) else fst (eps ! i)) = Some fd"
      using x by (auto simp: rd_def elim!: bind_SomeE split: if_split_asm)
    then have "paired (eps ! i)" using p nth by blast
    then show ?thesis using e(4) by (auto simp: paired_def live_fd_def split: if_split_asm)
  next
    case (Ep0Slot d st)
    then obtain e where "D d = Some e" "live_fd (if st then snd e else fst e) = Some fd"
      using x by (auto elim!: bind_SomeE)
    moreover have "paired e" using assms calculation(1) by (cases e) simp
    ultimately show ?thesis by (auto simp: paired_def live_fd_def split: if_split_asm)
  qed
qed

section \<open>Changes that keep the invariant\<close>

definition shut :: "int \<Rightarrow> int list \<Rightarrow> int list" where
  "shut fd F = (if fd = -1 then F else remove1 fd F)"

lemma slot_fd_ep:
  assumes "E h = Some eps" "0 < i" "i < length eps"
  shows "slot_fd (E(h \<mapsto> eps[i := (a, b)])) D =
      (slot_fd E D)(EpSlot h i False := live_fd a, EpSlot h i True := live_fd b)"
proof (rule ext)
  fix x show "slot_fd (E(h \<mapsto> eps[i := (a, b)])) D x =
      ((slot_fd E D)(EpSlot h i False := live_fd a, EpSlot h i True := live_fd b)) x"
    using assms by (cases x) (auto simp: rd_def nth_list_update)
qed

lemma slot_fd_ep0:
  "slot_fd E (D(d \<mapsto> (a, b))) = (slot_fd E D)(Ep0Slot d False := live_fd a, Ep0Slot d True := live_fd b)"
proof (rule ext)
  fix x show "slot_fd E (D(d \<mapsto> (a, b))) x =
      ((slot_fd E D)(Ep0Slot d False := live_fd a, Ep0Slot d True := live_fd b)) x"
    by (cases x) auto
qed

text \<open>Closing and opening the two of a pair of slots.\<close>

lemma owned_shut: "owned_by M F \<Longrightarrow> M x = live_fd fd \<Longrightarrow> owned_by (M(x := None)) (shut fd F)"
  by (auto simp: shut_def live_fd_def fun_upd_idem owned_close)

lemma owned_shut_pair:
  assumes "owned_by M F" "M x = live_fd a" "M y = live_fd b" "x \<noteq> y"
  shows "owned_by (M(x := None, y := None)) (shut b (shut a F))"
  using owned_shut [OF owned_shut [OF assms(1,2)], of y b] assms(3,4) by simp

lemma owned_open_pair:
  assumes "owned_by M F" "M x = None" "M y = None" "x \<noteq> y" "a > 0" "b > 0" "a \<notin> set F" "b \<notin> set (F @ [a])"
  shows "owned_by (M(x := live_fd a, y := live_fd b)) (F @ [a, b])"
  using owned_open [OF owned_open [OF assms(1,2,7)], of y b] assms by (simp add: live_fd_def)

lemma tl_update: "0 < i \<Longrightarrow> set (tl (es[i := e])) \<subseteq> insert e (set (tl es))"
  by (cases es; cases i) (auto dest: set_update_subset_insert [THEN subsetD])

lemma files_ok_ep:
  assumes "files_ok (E, D, F)" "E h = Some eps" "0 < i" "i < length eps" "paired (a, b)"
    "owned_by ((slot_fd E D)(EpSlot h i False := live_fd a, EpSlot h i True := live_fd b)) F'"
  shows "files_ok (E(h \<mapsto> eps[i := (a, b)]), D, F')"
  using assms tl_update [OF assms(3), of eps "(a, b)"] by (auto simp: slot_fd_ep eps_ok_def simp del: slot_fd.simps)

lemma files_ok_ep0:
  assumes "files_ok (E, D, F)" "paired (a, b)"
    "owned_by ((slot_fd E D)(Ep0Slot d False := live_fd a, Ep0Slot d True := live_fd b)) F'"
  shows "files_ok (E, D(d \<mapsto> (a, b)), F')"
  using assms by (auto simp: slot_fd_ep0 simp del: slot_fd.simps)

lemma live_none [simp]: "live_fd (-1) = None"
  by (simp add: live_fd_def)

lemma paired_none [simp]: "paired (-1, -1)"
  by (simp add: paired_def)

lemma slot_of_ep [simp]: "E h = Some eps \<Longrightarrow> 0 < i \<Longrightarrow> i < length eps \<Longrightarrow>
    slot_fd E D (EpSlot h i st) = live_fd (if st then snd (eps ! i) else fst (eps ! i))"
  by (simp add: rd_def)

lemma ok_open_ep:
  assumes "files_ok (E, D, F)" "E h = Some eps" "0 < i" "i < length eps" "eps ! i = (-1, -1)"
    "a > 0" "b > 0" "a \<notin> set F" "b \<notin> set (F @ [a])"
  shows "files_ok (E(h \<mapsto> eps[i := (a, b)]), D, F @ [a, b])"
proof (rule files_ok_ep [OF assms(1-4)])
  show "owned_by ((slot_fd E D)(EpSlot h i False := live_fd a, EpSlot h i True := live_fd b)) (F @ [a, b])"
    by (rule owned_open_pair) (use assms in \<open>auto simp: rd_def\<close>)
qed (use assms in \<open>simp add: paired_def\<close>)

lemma ok_close_ep:
  assumes "files_ok (E, D, F)" "E h = Some eps" "0 < i" "i < length eps" "eps ! i = (a, b)"
  shows "files_ok (E(h \<mapsto> eps[i := (-1, -1)]), D, shut b (shut a F))"
proof (rule files_ok_ep [OF assms(1-4)])
  show "owned_by ((slot_fd E D)(EpSlot h i False := live_fd (-1), EpSlot h i True := live_fd (-1))) (shut b (shut a F))"
    unfolding live_none by (rule owned_shut_pair) (use assms in \<open>auto simp: rd_def\<close>)
qed simp

lemma ok_open_ep0:
  assumes "files_ok (E, D, F)" "D d = Some (-1, -1)" "a > 0" "b > 0" "a \<notin> set F" "b \<notin> set (F @ [a])"
  shows "files_ok (E, D(d \<mapsto> (a, b)), F @ [a, b])"
proof (rule files_ok_ep0 [OF assms(1)])
  show "owned_by ((slot_fd E D)(Ep0Slot d False := live_fd a, Ep0Slot d True := live_fd b)) (F @ [a, b])"
    by (rule owned_open_pair) (use assms in \<open>auto simp: rd_def\<close>)
qed (use assms in \<open>simp add: paired_def\<close>)

lemma ok_close_ep0:
  assumes "files_ok (E, D, F)" "D d = Some (a, b)"
  shows "files_ok (E, D(d \<mapsto> (-1, -1)), shut b (shut a F))"
proof (rule files_ok_ep0 [OF assms(1)])
  show "owned_by ((slot_fd E D)(Ep0Slot d False := live_fd (-1), Ep0Slot d True := live_fd (-1))) (shut b (shut a F))"
    unfolding live_none by (rule owned_shut_pair) (use assms in \<open>auto simp: rd_def\<close>)
qed simp

text \<open>A new handle, an entry 0, and a handle that has closed all its files.\<close>

lemma ok_same_slots:
  assumes "files_ok (E, D, F)" "slot_fd E' D = slot_fd E D"
    "\<And>h eps. E' h = Some eps \<Longrightarrow> eps_ok eps"
  shows "files_ok (E', D, F)"
  using assms by auto

lemma ok_add_handle:
  assumes "files_ok (E, D, F)" "E h = None"
  shows "files_ok (E(h \<mapsto> replicate USBI_MAXENDPOINTS (-1, -1)), D, F)"
proof (rule ok_same_slots [OF assms(1)])
  show "slot_fd (E(h \<mapsto> replicate USBI_MAXENDPOINTS (-1, -1))) D = slot_fd E D"
  proof (rule ext)
    fix x show "slot_fd (E(h \<mapsto> replicate USBI_MAXENDPOINTS (-1, -1))) D x = slot_fd E D x"
      using assms(2) by (cases x) (auto simp: rd_def)
  qed
qed (use assms in \<open>auto simp: eps_ok_def USBI_MAXENDPOINTS_def split: if_split_asm\<close>)

lemma ok_set_copy:
  assumes "files_ok (E, D, F)" "E h = Some eps"
  shows "files_ok (E(h \<mapsto> eps[0 := e]), D, F)"
proof (rule ok_same_slots [OF assms(1)])
  show "slot_fd (E(h \<mapsto> eps[0 := e])) D = slot_fd E D"
  proof (rule ext)
    fix x show "slot_fd (E(h \<mapsto> eps[0 := e])) D x = slot_fd E D x"
      using assms(2) by (cases x) (auto simp: rd_def)
  qed
next
  have "eps_ok eps" using assms by auto
  then have "eps_ok (eps[0 := e])" by (cases eps) (simp_all add: eps_ok_def)
  then show "eps_ok eps'" if "(E(h \<mapsto> eps[0 := e])) h' = Some eps'" for h' eps'
    using that assms(1) by (auto split: if_split_asm)
qed

lemma ok_drop_handle:
  assumes "files_ok (E, D, F)" "E h = Some eps" "set (tl eps) \<subseteq> {(-1, -1)}"
  shows "files_ok (E(h := None), D, F)"
proof (rule ok_same_slots [OF assms(1)])
  have "eps ! i = (-1, -1)" if "0 < i" "i < length eps" for i
  proof -
    have "eps ! i = tl eps ! (i - 1)" "i - 1 < length (tl eps)" using that by (auto simp: nth_tl)
    moreover have "tl eps ! (i - 1) \<in> {(-1, -1)}"
      by (rule subsetD [OF assms(3)]) (rule nth_mem [OF calculation(2)])
    ultimately show ?thesis by simp
  qed
  then show "slot_fd (E(h := None)) D = slot_fd E D"
  proof (intro ext)
    fix x assume "\<And>i. 0 < i \<Longrightarrow> i < length eps \<Longrightarrow> eps ! i = (-1, -1)"
    then show "slot_fd (E(h := None)) D x = slot_fd E D x"
      using assms(2) by (cases x) (auto simp: rd_def)
  qed
qed (use assms in \<open>auto split: if_split_asm\<close>)

text \<open>Closing a list of endpoints, from the end of pre.\<close>

fun shut_all :: "(int \<times> int) list \<Rightarrow> int list \<Rightarrow> int list" where
  "shut_all [] F = F"
| "shut_all ((a, b) # es) F = shut_all es (shut b (shut a F))"

lemma ok_close_all:
  "files_ok (E, D, F) \<Longrightarrow> E h = Some (pre @ es) \<Longrightarrow> pre \<noteq> [] \<Longrightarrow>
    files_ok (E(h \<mapsto> pre @ replicate (length es) (-1, -1)), D, shut_all es F)"
proof (induction es arbitrary: pre E F)
  case Nil
  then show ?case by (simp add: fun_upd_idem del: files_ok.simps)
next
  case (Cons e es)
  obtain a b where e: "e = (a, b)" by force
  let ?E = "E(h \<mapsto> (pre @ [(-1, -1)]) @ es)"
  have "files_ok (E(h \<mapsto> (pre @ e # es)[length pre := (-1, -1)]), D, shut b (shut a F))"
    by (rule ok_close_ep [OF Cons.prems(1,2)]) (use Cons.prems(3) in \<open>simp_all add: e\<close>)
  then have "files_ok (?E, D, shut b (shut a F))" by (simp add: list_update_append del: files_ok.simps)
  from Cons.IH [OF this, of "pre @ [(-1, -1)]"]
  show ?case by (simp add: e fun_upd_same del: files_ok.simps fun_upd_apply)
qed

section \<open>The steps of the backend\<close>

lemma files_more [simp]:
  "files (s\<lparr>l_io := a\<rparr>) = files s" "files (s\<lparr>l_req := b\<rparr>) = files s" "files (s\<lparr>l_held := c\<rparr>) = files s"
  "files (s\<lparr>l_next := n\<rparr>) = files s" "files (s\<lparr>l_dev := d\<rparr>) = files s" "files (s\<lparr>l_hdev := e\<rparr>) = files s"
  by (simp_all add: files_def open_fds_def)

named_theorems same_files

lemma files_fresh [same_files]: "fresh av s = (p, t) \<Longrightarrow> files t = files s"
  by (auto simp: fresh_def)

lemma files_lock [same_files]: "lock_hdev h s = Some t \<Longrightarrow> files t = files s"
  by (auto simp: lock_hdev_def lock_def elim!: bind_SomeE split: if_split_asm)

lemma files_unlock [same_files]: "unlock_hdev h s = Some t \<Longrightarrow> files t = files s"
  by (auto simp: unlock_hdev_def unlock_def elim!: bind_SomeE split: if_split_asm)

lemma files_state [same_files]: "set_state io st s = Some t \<Longrightarrow> files t = files s"
  by (auto simp: set_state_def elim!: bind_SomeE)

lemma files_hv_state [same_files]: "set_hv_state h st s = Some t \<Longrightarrow> files t = files s"
  by (auto simp: set_hv_state_def elim!: bind_SomeE)

lemma files_claim [same_files]: "set_claim h i c s = Some t \<Longrightarrow> files t = files s"
  by (auto simp: set_claim_def elim!: bind_SomeE)

lemma files_config [same_files]: "set_cur_config h c n s = Some t \<Longrightarrow> files t = files s"
  by (auto simp: set_cur_config_def elim!: bind_SomeE)

lemma files_request [same_files]: "set_request io q s = Some t \<Longrightarrow> files t = files s"
  by (auto simp: set_request_def elim!: bind_SomeE)

lemma files_owner [same_files]: "set_owner d i p s = Some t \<Longrightarrow> files t = files s"
  by (auto simp: set_owner_def files_def open_fds_def fun_eq_iff elim!: bind_SomeE)

lemma files_inited [same_files]: "set_inited h i s = Some t \<Longrightarrow> files t = files s"
  by (auto simp: set_inited_def files_def open_fds_def fun_eq_iff elim!: bind_SomeE)

lemma files_alts [same_files]: "usb_set_ep_iface_alts h n i a s = Some t \<Longrightarrow> files t = files s"
  by (auto simp: usb_set_ep_iface_alts_def files_def open_fds_def fun_eq_iff elim!: bind_SomeE)

lemma files_sys: "sun_sys K fd c s = (a, t) \<Longrightarrow>
    files t = (let (E, D, F) = files s in (E, D, fd_step F (fd, c, sa_ret a))) \<and> a = K fd c s"
  by (auto simp: sun_sys_def files_def open_fds_def Let_def)

lemma files_read [same_files]: "sun_read K fd data n s = Some (r, t) \<Longrightarrow> files t = files s"
  by (auto simp: sun_read_def Let_def elim!: bind_SomeE split: prod.split_asm dest!: files_sys)

lemma files_write [same_files]: "sun_write K fd data n s = Some (r, t) \<Longrightarrow> files t = files s"
  by (auto simp: sun_write_def Let_def elim!: bind_SomeE split: prod.split_asm dest!: files_sys)

lemma files_status [same_files]: "sunos_usb_get_status K fd s = (r, t) \<Longrightarrow> files t = files s"
  by (auto simp: sunos_usb_get_status_def Let_def split: prod.split_asm dest!: files_sys)

lemma files_do_io [same_files]: "usb_do_io L K fd sfd data n w st s = Some (r, t) \<Longrightarrow> files t = files s"
  unfolding usb_do_io_def
  by (auto elim!: bind_SomeE split: if_split_asm prod.split_asm dest!: same_files)

lemma files_ep_io [same_files]: "ep_io L K h ep data n w st s = Some (r, t) \<Longrightarrow> files t = files s"
  by (auto simp: ep_io_def elim!: bind_SomeE split: prod.split_asm dest!: same_files)

lemma files_set_ep:
  assumes "set_ep h i e s = Some t" "files s = (E, D, F)"
  obtains eps where "E h = Some eps" "i < length eps" "files t = (E(h \<mapsto> eps[i := e]), D, F)"
proof -
  from assms(1) obtain p where "su_hdev s h = Some p" "i < length (sh_eps p)"
    "s\<lparr>su_hdev := (su_hdev s)(h \<mapsto> p\<lparr>sh_eps := (sh_eps p)[i := e]\<rparr>)\<rparr> = t"
    unfolding set_ep_def wr_def by (elim bind_SomeE) (simp split: if_split_asm)
  moreover have "files t = ((fst (files s))(h \<mapsto> (sh_eps p)[i := e]), snd (files s))"
    unfolding calculation(3) [symmetric] files_def open_fds_def by (simp add: fun_eq_iff)
  moreover have "fst (files s) h = Some (sh_eps p)" using calculation(1) by (simp add: files_def)
  ultimately show thesis using assms(2) that [of "sh_eps p"] by simp
qed

lemma files_open:
  assumes "sun_open_file K path m s = ((fd, er), t)" "honest_open K" "files s = (E, D, F)"
  shows "fd = -1 \<and> files t = (E, D, F) \<or> fd > 0 \<and> fd \<notin> set F \<and> files t = (E, D, F @ [fd])"
proof -
  have fd: "fd = sa_ret (K 0 (SOpen path m) s)" and "files t = (E, D, if fd < 0 then F else F @ [fd])"
    using assms(1,3) by (auto simp: sun_open_file_def Let_def split: prod.split_asm dest!: files_sys)
  moreover have "fd = -1 \<or> fd > 0 \<and> fd \<notin> set F"
    using assms(2,3) by (auto simp: fd honest_open_def Let_def files_def)
  ultimately show ?thesis by auto
qed

lemma files_close: "files s = (E, D, F) \<Longrightarrow> files (sun_close_file K fd s) = (E, D, remove1 fd F)"
  using files_sys [of K fd SClose s "K fd SClose s"]
  by (auto simp: sun_close_file_def sun_sys_def files_def open_fds_def Let_def)

lemma remove1_snoc: "a \<notin> set F \<Longrightarrow> remove1 a (F @ [a]) = F"
  by (simp add: remove1_append)

lemma files_one_xfer:
  assumes "enable_one_xfer K x f s = Some (r, t)" "honest_open K"
  shows "files t = files s"
proof -
  obtain E D F where F: "files s = (E, D, F)" by (cases "files s") auto
  obtain fd er s1 where o: "sun_open_file K f RdWr s = ((fd, er), s1)" by (metis prod.exhaust)
  show ?thesis
  proof (cases "fd = -1")
    case True
    then show ?thesis using assms(1) o files_open [OF o assms(2) F] F by (simp add: enable_one_xfer_def)
  next
    case False
    then have "files s1 = (E, D, F @ [fd])" "fd \<notin> set F" using files_open [OF o assms(2) F] by auto
    moreover obtain c s2 where "files s2 = files s1" "t = sun_close_file K fd s2"
      using assms(1) o False by (auto simp: enable_one_xfer_def elim!: bind_SomeE dest: files_write)
    ultimately show ?thesis using F files_close [of s2 E D "F @ [fd]" K fd] by (simp add: remove1_snoc)
  qed
qed

text \<open>Opening the files of an endpoint that has none.\<close>

lemma ok_open_both:
  assumes "open_both K h i m f sf s = Some (r, t)" "honest_open K" "files_ok (E, D, F)"
    "files s = (E, D, F)" "E h = Some eps" "i \<noteq> 0" "eps ! i = (-1, -1)"
  shows "files_ok (files t)"
proof -
  obtain fd er s2 where o: "sun_open_file K f m s = ((fd, er), s2)" by (metis prod.exhaust)
  show ?thesis
  proof (cases "fd = -1")
    case True
    then show ?thesis using assms(1,3) o files_open [OF o assms(2,4)] by (simp add: open_both_def)
  next
    case False
    then have f2: "files s2 = (E, D, F @ [fd])" "fd > 0" "fd \<notin> set F" using files_open [OF o assms(2,4)] by auto
    obtain fs er2 s3 where o2: "sun_open_file K sf RdOnly s2 = ((fs, er2), s3)" by (metis prod.exhaust)
    show ?thesis
    proof (cases "fs = -1")
      case True
      then have "files s3 = (E, D, F @ [fd])" using files_open [OF o2 assms(2) f2(1)] by auto
      then have "files t = (E, D, F)"
        using assms(1) o o2 True False files_close [of s3] f2(3) by (auto simp: open_both_def remove1_snoc)
      then show ?thesis using assms(3) by simp
    next
      case st: False
      then have f3: "files s3 = (E, D, F @ [fd, fs])" "fs > 0" "fs \<notin> set (F @ [fd])"
        using files_open [OF o2 assms(2) f2(1)] by auto
      have "set_ep h i (fd, fs) s3 = Some t" using assms(1) o o2 st False by (auto simp: open_both_def elim!: bind_SomeE)
      from files_set_ep [OF this f3(1)] assms(5)
      have "files t = (E(h \<mapsto> eps[i := (fd, fs)]), D, F @ [fd, fs])" "i < length eps" by auto
      then show ?thesis using ok_open_ep [of E D F h eps i fd fs] assms(3,5-7) f2 f3 by (simp del: files_ok.simps)
    qed
  qed
qed

lemma ok_ep_files:
  assumes "open_ep_files K x h ep ty f s = Some (r, t)" "honest_open K" "files_ok (E, D, F)"
    "files s = (E, D, F)" "E h = Some eps" "usb_ep_index ep \<noteq> 0" "eps ! usb_ep_index ep = (-1, -1)"
  shows "files_ok (files t)"
proof -
  from assms(1) obtain e s1 m where "e = None \<longrightarrow> open_both K h (usb_ep_index ep) m f (sun_path (f @ ''stat'')) s1 = Some (r, t)"
    "e \<noteq> None \<longrightarrow> t = s1" "files s1 = files s"
    using files_one_xfer [OF _ assms(2)]
    by (auto simp: open_ep_files_def Let_def elim!: bind_SomeE split: if_split_asm option.split_asm) blast+
  with assms show ?thesis using ok_open_both [OF _ assms(2,3) _ assms(5-7)]
    by (cases e) (simp_all del: files_ok.simps)
qed

section \<open>Operations on a handle\<close>

lemma files_ep: "files s = (E, D, F) \<Longrightarrow> su_hdev s h = Some p \<Longrightarrow> E h = Some (sh_eps p)"
  by (auto simp: files_def)

text \<open>An endpoint other than number 0 has its files afterwards, or an error.\<close>

lemma ok_check:
  assumes "usb_check_device_and_status_open K x h ifc ep ty s = Some (r, t)" "honest_open K" "files_ok (files s)"
    "usb_ep_index ep \<noteq> 0"
  shows "files_ok (files t)"
proof -
  obtain E D F where F: "files s = (E, D, F)" by (cases "files s") auto
  show ?thesis
  proof (cases "t = s")
    case False
    with assms(1) obtain p f where p: "su_hdev s h = Some p" and o: "open_ep_files K x h ep ty f s = Some (r, t)"
      and n: "usb_ep_index ep < length (sh_eps p)" "\<not> (fst (sh_eps p ! usb_ep_index ep) > 0 \<and> snd (sh_eps p ! usb_ep_index ep) > 0)"
      by (auto simp: usb_check_device_and_status_open_def Let_def rd_def elim!: bind_SomeE split: if_split_asm prod.split_asm)
    have e: "E h = Some (sh_eps p)" by (rule files_ep [OF F p])
    have "sh_eps p ! usb_ep_index ep \<in> set (tl (sh_eps p))"
    proof -
      have "sh_eps p ! usb_ep_index ep = tl (sh_eps p) ! (usb_ep_index ep - 1)" "usb_ep_index ep - 1 < length (tl (sh_eps p))"
        using assms(4) n(1) by (auto simp: nth_tl)
      then show ?thesis by simp
    qed
    moreover have "eps_ok (sh_eps p)" using assms(3) F e by auto
    ultimately have "paired (sh_eps p ! usb_ep_index ep)" by (auto simp: eps_ok_def)
    then have "sh_eps p ! usb_ep_index ep = (-1, -1)" using n(2) by (auto simp: paired_def)
    then show ?thesis using ok_ep_files [OF o assms(2) _ F e assms(4)] assms(3) F by simp
  qed (use assms(3) in simp)
qed

lemma ok_close_files:
  assumes "close_ep_files K h ep s = Some t" "files_ok (files s)" "usb_ep_index ep \<noteq> 0"
  shows "files_ok (files t)"
proof -
  obtain E D F where F: "files s = (E, D, F)" by (cases "files s") auto
  from assms(1) obtain p a b where p: "su_hdev s h = Some p" "usb_ep_index ep < length (sh_eps p)"
    "sh_eps p ! usb_ep_index ep = (a, b)"
    and t: "set_ep h (usb_ep_index ep) (-1, -1) (sun_close_file K b (sun_close_file K a s)) = Some t"
    by (auto simp: close_ep_files_def Let_def rd_def elim!: bind_SomeE split: if_split_asm prod.split_asm)
  have e: "E h = Some (sh_eps p)" by (rule files_ep [OF F p(1)])
  have "-1 \<notin> set F" using owned_pos [of E D F "-1"] assms(2) F by auto
  then have r: "remove1 b (remove1 a F) = shut b (shut a F)"
    using notin_set_remove1 [of "-1" F a] by (simp add: shut_def remove1_idem)
  from files_set_ep [OF t files_close [OF files_close [OF F]]] e
  have "files t = (E(h \<mapsto> (sh_eps p)[usb_ep_index ep := (-1, -1)]), D, shut b (shut a F))" by (auto simp: r)
  then show ?thesis using ok_close_ep [of E D F h "sh_eps p" "usb_ep_index ep" a b] e p assms(2,3) F
    by (simp del: files_ok.simps)
qed

text \<open>The four kinds of request, on another endpoint than number 0.\<close>

definition other_ep :: "addr \<Rightarrow> 'a lib_scheme \<Rightarrow> bool" where
  "other_ep io s \<longleftrightarrow> (case io_request io s of None \<Rightarrow> True | Some q \<Rightarrow> usb_ep_index (rq_endpoint q) \<noteq> 0)"

lemma ok_default: "solaris_submit_ctrl_on_default av L K h io s = Some (r, t) \<Longrightarrow> files t = files s"
  unfolding solaris_submit_ctrl_on_default_def Let_def
  by (auto elim!: bind_SomeE split: prod.split_asm if_split_asm dest!: same_files)

lemma ok_non_default:
  assumes "solaris_submit_ctrl_non_default L K x h io s = Some (r, t)" "honest_open K" "files_ok (files s)"
    "other_ep io s"
  shows "files_ok (files t)"
  using assms(1) unfolding solaris_submit_ctrl_non_default_def Let_def
  by (auto elim!: bind_SomeE split: prod.split_asm if_split_asm dest!: same_files;
      use assms(2-4) in \<open>auto simp: other_ep_def dest!: ok_check\<close>)

lemma ok_bulk:
  assumes "solaris_submit_bulk L K x h io s = Some (r, t)" "honest_open K" "files_ok (files s)"
    "other_ep io s"
  shows "files_ok (files t)"
  using assms(1) unfolding solaris_submit_bulk_def Let_def
  by (auto elim!: bind_SomeE split: prod.split_asm if_split_asm dest!: same_files;
      use assms(2-4) in \<open>auto simp: other_ep_def dest!: ok_check\<close>)

lemma ok_intr:
  assumes "solaris_submit_intr L K x h io s = Some (r, t)" "honest_open K" "files_ok (files s)"
    "other_ep io s"
  shows "files_ok (files t)"
  using assms(1) unfolding solaris_submit_intr_def Let_def
  by (auto elim!: bind_SomeE split: prod.split_asm if_split_asm dest!: same_files;
      use assms(2-4) in \<open>auto simp: other_ep_def dest!: ok_check ok_close_files\<close>)

lemma files_isoc_start [same_files]: "isoc_start L K h ep buf st s = Some (r, t) \<Longrightarrow> files t = files s"
  unfolding isoc_start_def
  by (auto elim!: bind_SomeE split: prod.split_asm if_split_asm dest!: same_files)

lemma files_isoc_out [same_files]: "isoc_out_end be L K h ep buf n q s = Some (r, t) \<Longrightarrow> files t = files s"
  unfolding isoc_out_end_def Let_def
  by (auto elim!: bind_SomeE split: prod.split_asm if_split_asm dest!: same_files)

lemma files_isoc_in [same_files]: "isoc_in_end av be L K h ep len n q s = Some (r, t) \<Longrightarrow> files t = files s"
  unfolding isoc_in_end_def Let_def
  by (auto elim!: bind_SomeE split: prod.split_asm if_split_asm dest!: same_files)

lemma files_isoc [same_files]: "isoc_xfer av be L K h io ep q s = Some (r, t) \<Longrightarrow> files t = files s"
  unfolding isoc_xfer_def Let_def
  by (auto elim!: bind_SomeE split: prod.split_asm if_split_asm dest!: same_files)

lemma ok_isoc:
  assumes "solaris_submit_isoc av be L K x h io s = Some (r, t)" "honest_open K" "files_ok (files s)"
    "other_ep io s"
  shows "files_ok (files t)"
  using assms(1) unfolding solaris_submit_isoc_def Let_def
  by (auto elim!: bind_SomeE split: prod.split_asm if_split_asm dest!: same_files;
      use assms(2-4) in \<open>auto simp: other_ep_def dest!: ok_check\<close>)

lemma ok_xfer_wait:
  assumes "solaris_xfer_wait e ty h io s = Some (r, t)" "honest_open (se_kernel e)" "files_ok (files s)"
    "other_ep io s \<or> ty = USB_TYPE_CONTROL \<and> io_request io s = Some q \<and> rq_endpoint q = 0"
  shows "files_ok (files t)"
proof (cases "ty = USB_TYPE_CONTROL")
  case True
  then obtain q' where q: "io_request io s = Some q'" and c: "if rq_endpoint q' = 0
      then solaris_submit_ctrl_on_default (se_alloc e) (se_lc e) (se_kernel e) h io s = Some (r, t)
      else solaris_submit_ctrl_non_default (se_lc e) (se_kernel e) (se_one_xfer e) h io s = Some (r, t)"
    using assms(1) by (auto simp: solaris_xfer_wait_def solaris_submit_ctrl_def elim!: bind_SomeE split: if_split_asm)
  show ?thesis
  proof (cases "rq_endpoint q' = 0")
    case True
    then show ?thesis using c assms(3) by (auto dest!: ok_default)
  next
    case False
    then show ?thesis using ok_non_default c assms(2-4) q by auto
  qed
next
  case False
  then have "other_ep io s" using assms(4) by simp
  with False assms(1-3) show ?thesis
    by (auto simp: solaris_xfer_wait_def split: if_split_asm intro: ok_bulk ok_intr ok_isoc)
qed

end
