(* ===== verification/SunLedger.thy ===== *)
theory SunLedger
  imports SunFiles
begin

text \<open>
  The operations of the Solaris backend on devices and handles keep the invariant files_ok, and the
  step relation sun_step of all of them. ledger_kept: as long as open answers a fresh number, each
  descriptor that was opened and not yet closed is in one slot, whatever the order of operations.
\<close>

section \<open>Endpoint 0\<close>

lemma files_ep0:
  assumes "files s = (E, D, F)" "su_dev s d = Some dp"
  shows "D d = Some (sd_ep0_fd dp, sd_ep0_fd_stat dp)"
    "files (s\<lparr>su_dev := (su_dev s)(d \<mapsto> dp')\<rparr>) = (E, D(d \<mapsto> (sd_ep0_fd dp', sd_ep0_fd_stat dp')), F)"
proof -
  have D: "D = (\<lambda>d. map_option (\<lambda>dp. (sd_ep0_fd dp, sd_ep0_fd_stat dp)) (su_dev s d))"
    and E: "E = (\<lambda>h. map_option sh_eps (su_hdev s h))" "F = open_fds s"
    using assms(1) by (auto simp: files_def)
  show "D d = Some (sd_ep0_fd dp, sd_ep0_fd_stat dp)" by (simp add: D assms(2))
  show "files (s\<lparr>su_dev := (su_dev s)(d \<mapsto> dp')\<rparr>) = (E, D(d \<mapsto> (sd_ep0_fd dp', sd_ep0_fd_stat dp')), F)"
    by (simp add: files_def open_fds_def D E fun_eq_iff)
qed

lemma paired_dev: "files_ok (files s) \<Longrightarrow> su_dev s d = Some dp \<Longrightarrow> paired (sd_ep0_fd dp, sd_ep0_fd_stat dp)"
proof -
  assume a: "files_ok (files s)" "su_dev s d = Some dp"
  obtain E D F where F: "files s = (E, D, F)" by (cases "files s") auto
  show "paired (sd_ep0_fd dp, sd_ep0_fd_stat dp)" using files_ep0(1) [OF F a(2)] a(1) F by simp
qed

lemma set_copy:
  assumes "set_ep h 0 e s = Some t" "files s = (E, D, F)"
  obtains E' where "files t = (E', D, F)" "\<And>D F. files_ok (E, D, F) \<Longrightarrow> files_ok (E', D, F)"
proof -
  from files_set_ep [OF assms] obtain eps where e: "E h = Some eps" "files t = (E(h \<mapsto> eps[0 := e]), D, F)" by metis
  show thesis by (rule that [OF e(2)]) (rule ok_set_copy [where E = E and h = h and eps = eps], simp_all add: e(1))
qed

lemma ok_copy:
  assumes "set_ep h 0 e s = Some t" "files_ok (files s)"
  shows "files_ok (files t)"
  using assms by (cases "files s") (metis set_copy)

lemma ok_ep0_files:
  assumes "open_ep0_files K h d u s = Some (r, t)" "honest_open K" "files_ok (files s)"
    "su_dev s d = Some dp" "sd_ep0_fd dp < 0"
  shows "files_ok (files t)"
proof -
  obtain E D F where F: "files s = (E, D, F)" by (cases "files s") auto
  have ok: "files_ok (E, D, F)" using assms(3) F by simp
  have none: "D d = Some (-1, -1)" using files_ep0(1) [OF F assms(4)] paired_dev [OF assms(3,4)] assms(5) by (auto simp: paired_def)
  obtain fd er s1 where o: "sun_open_file K (sun_path (u @ ''/cntrl0'')) RdWr s = ((fd, er), s1)" by (metis prod.exhaust)
  obtain s2 where c: "set_ep h 0 (fd, -1) s1 = Some s2"
    using assms(1) o by (auto simp: open_ep0_files_def elim!: bind_SomeE)
  consider "fd = -1" "files s1 = (E, D, F)" | "fd > 0" "fd \<notin> set F" "files s1 = (E, D, F @ [fd])"
    using files_open [OF o assms(2) F] by auto
  then show ?thesis
  proof cases
    case 1
    then show ?thesis using assms(1) o c ok_copy [OF c] ok by (auto simp: open_ep0_files_def)
  next
    case 2
    from set_copy [OF c 2(3)] obtain E2 where f2: "files s2 = (E2, D, F @ [fd])" and
      ok2: "files_ok (E2, D, F)" using ok by metis
    obtain fs er2 s3 where o2: "sun_open_file K (sun_path (u @ ''/cntrl0stat'')) RdOnly s2 = ((fs, er2), s3)"
      by (metis prod.exhaust)
    obtain s4 where c4: "set_ep h 0 (fd, fs) s3 = Some s4"
      using assms(1) o c 2 o2 by (auto simp: open_ep0_files_def elim!: bind_SomeE)
    consider "fs = -1" "files s3 = (E2, D, F @ [fd])" | "fs > 0" "fs \<notin> set (F @ [fd])" "files s3 = (E2, D, F @ [fd, fs])"
      using files_open [OF o2 assms(2) f2] by auto
    then show ?thesis
    proof cases
      case st: 1
      from set_copy [OF c4 st(2)] obtain E4 where "files s4 = (E4, D, F @ [fd])" and ok4: "files_ok (E4, D, F)"
        using ok2 by metis
      then have "files (sun_close_file K fd s4) = (E4, D, F)" using files_close [of s4 E4 D "F @ [fd]" K fd] remove1_snoc [OF 2(2)] by simp
      moreover have "set_ep h 0 (-1, fs) (sun_close_file K fd s4) = Some t"
        using assms(1) o c 2 o2 c4 st by (auto simp: open_ep0_files_def elim!: bind_SomeE)
      ultimately show ?thesis using ok_copy ok4 by metis
    next
      case st: 2
      from set_copy [OF c4 st(3)] obtain E4 where f4: "files s4 = (E4, D, F @ [fd, fs])" and ok4: "files_ok (E4, D, F)"
        using ok2 by metis
      obtain dp' where dp': "su_dev s4 d = Some dp'" and t: "t = s4\<lparr>su_dev := (su_dev s4)(d \<mapsto> dp'\<lparr>sd_ep0_fd := fd,
          sd_ep0_fd_stat := fs, sd_ref_count := sd_ref_count dp' + 1\<rparr>)\<rparr>"
        using assms(1) o c 2 o2 c4 st by (auto simp: open_ep0_files_def elim!: bind_SomeE)
      have "files t = (E4, D(d \<mapsto> (fd, fs)), F @ [fd, fs])" unfolding t using files_ep0(2) [OF f4 dp'] by simp
      then show ?thesis using ok_open_ep0 [OF ok4 none 2(1) st(1) 2(2) st(2)] by simp
    qed
  qed
qed

lemma ok_open_ep0_step:
  assumes "usb_open_ep0 K h s = Some (r, t)" "honest_open K" "files_ok (files s)"
  shows "files_ok (files t)"
proof -
  obtain E D F where F: "files s = (E, D, F)" by (cases "files s") auto
  from assms(1) obtain hv dp where dp: "l_hdev s h = Some hv" "su_dev s (hv_idev hv) = Some dp"
    by (auto simp: usb_open_ep0_def Let_def elim!: bind_SomeE)
  let ?d = "hv_idev hv"
  show ?thesis
  proof (cases "sd_ep0_fd dp \<ge> 0")
    case True
    then have "set_ep h 0 (sd_ep0_fd dp, sd_ep0_fd_stat dp)
        (s\<lparr>su_dev := (su_dev s)(?d \<mapsto> dp\<lparr>sd_ref_count := sd_ref_count dp + 1\<rparr>)\<rparr>) = Some t"
      using assms(1) dp by (auto simp: usb_open_ep0_def elim!: bind_SomeE)
    moreover have "files (s\<lparr>su_dev := (su_dev s)(?d \<mapsto> dp\<lparr>sd_ref_count := sd_ref_count dp + 1\<rparr>)\<rparr>) = files s"
      using files_ep0 [OF F dp(2)] F by (simp add: fun_upd_idem)
    ultimately show ?thesis using ok_copy assms(3) by metis
  next
    case False
    then show ?thesis using ok_ep0_files [OF _ assms(2,3) dp(2)] assms(1) dp
      by (auto simp: usb_open_ep0_def elim!: bind_SomeE)
  qed
qed

lemma ok_close_ep0_step:
  assumes "usb_close_ep0 K h s = Some (r, t)" "files_ok (files s)"
  shows "files_ok (files t)"
proof -
  obtain E D F where F: "files s = (E, D, F)" by (cases "files s") auto
  have ok: "files_ok (E, D, F)" using assms(2) F by simp
  from assms(1) obtain hv dp where dp: "l_hdev s h = Some hv" "su_dev s (hv_idev hv) = Some dp"
    by (auto simp: usb_close_ep0_def Let_def elim!: bind_SomeE)
  let ?d = "hv_idev hv" and ?n = "sd_ref_count dp - 1"
  let ?s = "s\<lparr>su_dev := (su_dev s)(?d \<mapsto> dp\<lparr>sd_ref_count := ?n\<rparr>)\<rparr>"
  have same: "files ?s = (E, D, F)" using files_ep0 [OF F dp(2)] by (simp add: fun_upd_idem)
  show ?thesis
  proof (cases "t = s \<or> t = ?s")
    case False
    let ?u = "sun_close_file K (sd_ep0_fd_stat dp) (sun_close_file K (sd_ep0_fd dp) ?s)"
    from assms(1) dp False have pos: "sd_ep0_fd dp \<ge> 0" and
      t: "set_ep h 0 (-1, -1) (?u\<lparr>su_dev := (su_dev ?u)(?d \<mapsto> dp\<lparr>sd_ref_count := ?n, sd_ep0_fd := -1, sd_ep0_fd_stat := -1\<rparr>)\<rparr>) = Some t"
      by (auto simp: usb_close_ep0_def Let_def elim!: bind_SomeE split: if_split_asm)
    have u: "files ?u = (E, D, remove1 (sd_ep0_fd_stat dp) (remove1 (sd_ep0_fd dp) F))"
      using files_close [OF files_close [OF same]] by simp
    have dev: "su_dev ?u ?d = Some (dp\<lparr>sd_ref_count := ?n\<rparr>)"
      by (simp add: sun_close_file_def sun_sys_def Let_def)
    have D: "D ?d = Some (sd_ep0_fd dp, sd_ep0_fd_stat dp)" by (rule files_ep0(1) [OF F dp(2)])
    then have "paired (sd_ep0_fd dp, sd_ep0_fd_stat dp)" using ok by simp
    then have "files_ok (E, D(?d \<mapsto> (-1, -1)), remove1 (sd_ep0_fd_stat dp) (remove1 (sd_ep0_fd dp) F))"
      using ok_close_ep0 [OF ok D] pos by (auto simp: shut_def paired_def)
    then show ?thesis using ok_copy [OF t] files_ep0(2) [OF u dev] by simp
  qed (use assms(2) same F in auto)
qed

section \<open>Handles\<close>

lemma files_close_eps: "files s = (E, D, F) \<Longrightarrow> files (close_eps K eps s) = (E, D, shut_all eps F)"
  by (induction eps arbitrary: s F) (auto simp: Let_def shut_def files_close)

lemma ok_close_eps:
  assumes "usb_close_all_eps K h s = Some t" "files_ok (files s)"
  shows "files_ok (files t)" "\<exists>p. su_hdev t h = Some p \<and> set (tl (sh_eps p)) \<subseteq> {(-1, -1)}"
proof -
  obtain E D F where F: "files s = (E, D, F)" by (cases "files s") auto
  have ok: "files_ok (E, D, F)" using assms(2) F by simp
  from assms(1) obtain p where p: "su_hdev s h = Some p" "USBI_MAXENDPOINTS \<le> length (sh_eps p)"
    and t: "t = (close_eps K (take (USBI_MAXENDPOINTS - 1) (drop 1 (sh_eps p))) s)\<lparr>su_hdev :=
        (su_hdev (close_eps K (take (USBI_MAXENDPOINTS - 1) (drop 1 (sh_eps p))) s))(h \<mapsto> p\<lparr>
        sh_eps := take 1 (sh_eps p) @ replicate (USBI_MAXENDPOINTS - 1) (-1, -1),
        sh_epflags := take 1 (sh_epflags p) @ replicate (USBI_MAXENDPOINTS - 1) False\<rparr>)\<rparr>"
    by (auto simp: usb_close_all_eps_def rdn_def Let_def USBI_MAXENDPOINTS_def elim!: bind_SomeE split: if_split_asm)
  let ?es = "take (USBI_MAXENDPOINTS - 1) (drop 1 (sh_eps p))"
  let ?c = "close_eps K ?es s"
  have e: "E h = Some (sh_eps p)" by (rule files_ep [OF F p(1)])
  then have len: "length (sh_eps p) = USBI_MAXENDPOINTS" using ok by (simp add: eps_ok_def)
  then have split: "sh_eps p = take 1 (sh_eps p) @ ?es" "take 1 (sh_eps p) \<noteq> []" "length ?es = USBI_MAXENDPOINTS - 1"
    by (auto simp: USBI_MAXENDPOINTS_def)
  have "files ?c = (E, D, shut_all ?es F)" by (rule files_close_eps [OF F])
  then have "E = (\<lambda>h. map_option sh_eps (su_hdev ?c h))" "snd (files t) = (D, shut_all ?es F)"
    by (simp_all add: files_def t open_fds_def)
  then have "files t = (E(h \<mapsto> take 1 (sh_eps p) @ replicate (length ?es) (-1, -1)), D, shut_all ?es F)"
    unfolding split(3) by (simp add: t files_def fun_eq_iff)
  moreover have "files_ok (E(h \<mapsto> take 1 (sh_eps p) @ replicate (length ?es) (-1, -1)), D, shut_all ?es F)"
    by (rule ok_close_all [OF ok _ split(2)]) (use e split(1) in simp)
  ultimately show "files_ok (files t)" by simp
  show "\<exists>p. su_hdev t h = Some p \<and> set (tl (sh_eps p)) \<subseteq> {(-1, -1)}"
    using split(2) by (cases "sh_eps p") (auto simp: t)
qed

lemma files_drop:
  assumes "files s = (E, D, F)"
  shows "files (s\<lparr>su_hdev := (su_hdev s)(h := None)\<rparr>) = (E(h := None), D, F)"
proof -
  have "E = (\<lambda>h. map_option sh_eps (su_hdev s h))" "snd (files s) = (D, F)" using assms by (auto simp: files_def)
  then show ?thesis by (simp add: files_def open_fds_def fun_eq_iff)
qed

lemma files_new:
  assumes "files s = (E, D, F)"
  shows "files (s\<lparr>su_hdev := (su_hdev s)(h \<mapsto> p)\<rparr>) = (E(h \<mapsto> sh_eps p), D, F)"
proof -
  have "E = (\<lambda>h. map_option sh_eps (su_hdev s h))" "snd (files s) = (D, F)" using assms by (auto simp: files_def)
  then show ?thesis by (simp add: files_def open_fds_def fun_eq_iff)
qed

lemma files_claim_ifc [same_files]: "solaris_claim_interface h i fl s = Some (r, t) \<Longrightarrow> files t = files s"
  unfolding solaris_claim_interface_def Let_def
  by (auto elim!: bind_SomeE split: if_split_asm dest!: same_files)

lemma files_release [same_files]: "solaris_release_interface h i s = Some (r, t) \<Longrightarrow> files t = files s"
  unfolding solaris_release_interface_def
  by (auto elim!: bind_SomeE split: if_split_asm dest!: same_files)

lemma files_release_all [same_files]: "release_all h is s = Some t \<Longrightarrow> files t = files s"
  by (induction "is" arbitrary: s) (auto elim!: bind_SomeE dest!: files_release)

lemma ok_altinterface:
  assumes "solaris_set_altinterface K h i a s = Some (r, t)" "files_ok (files s)"
  shows "files_ok (files t)"
  using assms unfolding solaris_set_altinterface_def
  by (auto elim!: bind_SomeE split: if_split_asm dest!: same_files ok_close_eps(1))

lemma ok_solaris_open:
  assumes "solaris_open av K h s = Some (r, t)" "honest_open K" "files_ok (files s)" "su_hdev s h = None"
  shows "files_ok (files t)"
proof -
  obtain E D F where F: "files s = (E, D, F)" by (cases "files s") auto
  have e: "E h = None" using assms(4) F by (auto simp: files_def)
  obtain p s1 where fr: "fresh av s = (p, s1)" by (metis prod.exhaust)
  have f1: "files s1 = (E, D, F)" using files_fresh [OF fr] F by simp
  let ?s = "s1\<lparr>su_hdev := (su_hdev s1)(h \<mapsto> new_sun_hdl)\<rparr>"
  have "files_ok (E(h \<mapsto> sh_eps new_sun_hdl), D, F)"
    using ok_add_handle [of E D F h] assms(3) F e by (simp add: new_sun_hdl_def del: files_ok.simps)
  then have ok: "files_ok (files ?s)" using files_new [OF f1] by simp
  have drop: "files_ok (E(h := None), D, F)" using assms(3) F e by (simp add: fun_upd_idem del: files_ok.simps)
  consider "t = s" | "t = s1\<lparr>su_hdev := (su_hdev s1)(h := None)\<rparr>"
    | r1 s2 where "usb_open_ep0 K h ?s = Some (r1, s2)" "files t = files s2"
    using assms(1) fr
    by (auto simp: solaris_open_def Let_def elim!: bind_SomeE split: if_split_asm prod.split_asm
        dest!: files_config files_sys)
  then show ?thesis
  proof cases
    case 2
    then show ?thesis using files_drop [OF f1] drop by simp
  next
    case 3
    then show ?thesis using ok_open_ep0_step [OF 3(1) assms(2) ok] by simp
  qed (use assms(3) in simp)
qed

lemma close_ep0_eps:
  assumes "usb_close_ep0 K h s = Some (r, t)" "su_hdev s h = Some p"
  shows "\<exists>q. su_hdev t h = Some q \<and> tl (sh_eps q) = tl (sh_eps p)"
proof -
  have tl: "tl (es[0 := e]) = tl es" for es and e :: "int \<times> int" by (cases es) simp_all
  have close: "su_hdev (sun_close_file K fd u) = su_hdev u" for fd u
    by (simp add: sun_close_file_def sun_sys_def Let_def)
  show ?thesis
    using assms unfolding usb_close_ep0_def Let_def
    by (auto simp: set_ep_def wr_def tl close elim!: bind_SomeE split: if_split_asm)
qed

lemma ok_solaris_close:
  assumes "solaris_close K join h s = Some (r, t)" "files_ok (files s)" "\<forall>b. join h s = Some b \<longrightarrow> files b = files s"
  shows "files_ok (files t)"
proof -
  from assms(1) obtain s1 s2 s3 s4 s5 s6 r5 where
      j: "join h s = Some s1" and l: "lock_hdev h s1 = Some s2" and ra: "release_all h [0..<USBI_MAXINTERFACES] s2 = Some s3"
    and c: "usb_close_all_eps K h s3 = Some s4" and z: "usb_close_ep0 K h s4 = Some (r5, s5)"
    and st: "set_hv_state h DEVICE_CLOSING s5 = Some s6"
    and u: "unlock_hdev h (s6\<lparr>su_hdev := (su_hdev s6)(h := None)\<rparr>) = Some t"
    by (auto simp: solaris_close_def Let_def elim!: bind_SomeE)
  have "files s3 = files s" using files_release_all [OF ra] files_lock [OF l] assms(3) j by simp
  then have "files_ok (files s4)" using ok_close_eps(1) [OF c] assms(2) by simp
  then have ok: "files_ok (files s6)" using ok_close_ep0_step [OF z] files_hv_state [OF st] by simp
  obtain E D F where F: "files s6 = (E, D, F)" by (cases "files s6") auto
  have "\<exists>p. su_hdev s5 h = Some p \<and> set (tl (sh_eps p)) \<subseteq> {(-1, -1)}"
    using ok_close_eps(2) [OF c] close_ep0_eps [OF z] \<open>files s3 = files s\<close> assms(2) by auto
  then have "\<exists>eps. E h = Some eps \<and> set (tl eps) \<subseteq> {(-1, -1)}"
    using F st by (auto simp: files_def set_hv_state_def elim!: bind_SomeE)
  then show ?thesis using ok_drop_handle [of E D F h] ok F files_drop [OF F] files_unlock [OF u] by (auto simp del: files_ok.simps)
qed

lemma files_cancel [same_files]: "solaris_io_cancel io s = Some (r, t) \<Longrightarrow> files t = files s"
proof -
  have un: "files (io_unlink io s) = files s" for s :: "'a sunos_scheme"
    by (simp add: io_unlink_def files_def open_fds_def)
  have ad: "add_complete h io s = Some t \<Longrightarrow> files t = files s" for h and s t :: "'a sunos_scheme"
    by (auto simp: add_complete_def lock_def unlock_def files_def open_fds_def elim!: bind_SomeE split: if_split_asm)
  show "solaris_io_cancel io s = Some (r, t) \<Longrightarrow> files t = files s"
    by (auto simp: solaris_io_cancel_def Let_def un elim!: bind_SomeE split: if_split_asm dest!: same_files ad)
qed

section \<open>Any order of operations\<close>

lemma no_slots:
  assumes "\<And>d e. D d = Some e \<Longrightarrow> e = (-1, -1)"
  shows "slot_fd Map.empty D = Map.empty"
proof (rule ext)
  fix x show "slot_fd Map.empty D x = None"
  proof (cases x)
    case (Ep0Slot d st)
    then show ?thesis using assms [of d] by (cases "D d") auto
  qed simp
qed

text \<open>
  The operations of the backend on the files, and everything else, which leaves them alone. A
  handle is opened once, and a device is freed when its endpoint 0 is closed.
\<close>

inductive sun_step :: "sunos sun_env \<Rightarrow> sunos \<Rightarrow> sunos \<Rightarrow> bool" for e :: "sunos sun_env" where
  Open: "su_hdev s h = None \<Longrightarrow> solaris_open (se_alloc e) (se_kernel e) h s = Some (r, t) \<Longrightarrow> sun_step e s t"
| Close: "(\<forall>b. se_join e h s = Some b \<longrightarrow> files b = files s) \<Longrightarrow>
    solaris_close (se_kernel e) (se_join e) h s = Some (r, t) \<Longrightarrow> sun_step e s t"
| Claim: "solaris_claim_interface h i fl s = Some (r, t) \<Longrightarrow> sun_step e s t"
| Release: "solaris_release_interface h i s = Some (r, t) \<Longrightarrow> sun_step e s t"
| Setting: "solaris_set_altinterface (se_kernel e) h i a s = Some (r, t) \<Longrightarrow> sun_step e s t"
| Default: "io_request io s = Some q \<Longrightarrow> rq_endpoint q = 0 \<Longrightarrow>
    solaris_xfer_wait e USB_TYPE_CONTROL h io s = Some (r, t) \<Longrightarrow> sun_step e s t"
| Transfer: "other_ep io s \<Longrightarrow> solaris_xfer_wait e ty h io s = Some (r, t) \<Longrightarrow> sun_step e s t"
| Cancel: "solaris_io_cancel io s = Some (r, t) \<Longrightarrow> sun_step e s t"
| Free: "su_dev s d = Some dp \<Longrightarrow> sd_ep0_fd dp = -1 \<Longrightarrow> solaris_free_device d s = Some (r, t) \<Longrightarrow> sun_step e s t"
| Other: "files t = files s \<Longrightarrow> sun_step e s t"

lemma ok_free:
  assumes "solaris_free_device d s = Some (r, t)" "files_ok (files s)" "su_dev s d = Some dp" "sd_ep0_fd dp = -1"
  shows "files_ok (files t)"
proof -
  obtain E D F where F: "files s = (E, D, F)" by (cases "files s") auto
  have D: "D d = Some (-1, -1)" using files_ep0(1) [OF F assms(3)] paired_dev [OF assms(2,3)] assms(4)
    by (simp add: paired_def)
  have t: "t = s\<lparr>su_dev := (su_dev s)(d := None)\<rparr>"
    using assms(1) by (auto simp: solaris_free_device_def elim!: bind_SomeE)
  have "D = (\<lambda>d. map_option (\<lambda>dp. (sd_ep0_fd dp, sd_ep0_fd_stat dp)) (su_dev s d))" using F by (simp add: files_def)
  then have "files t = (E, D(d := None), F)" using F by (simp add: t files_def open_fds_def fun_eq_iff)
  moreover have "slot_fd E (D(d := None)) = slot_fd E D"
  proof (rule ext)
    fix x show "slot_fd E (D(d := None)) x = slot_fd E D x" using D by (cases x) auto
  qed
  ultimately show ?thesis using assms(2) F by auto
qed

inductive_cases sun_stepE: "sun_step e s t"

lemma step_ok:
  assumes "sun_step e s t" "honest_open (se_kernel e)" "files_ok (files s)"
  shows "files_ok (files t)"
  using assms(1)
proof cases
  case (Open h r)
  then show ?thesis by (intro ok_solaris_open [OF Open(2) assms(2,3)])
next
  case (Close h r)
  show ?thesis by (rule ok_solaris_close [OF Close(2) assms(3) Close(1)])
next
  case (Setting h i a r)
  show ?thesis by (rule ok_altinterface [OF Setting assms(3)])
next
  case (Default io q h r)
  show ?thesis by (rule ok_xfer_wait [OF Default(3) assms(2,3), of q]) (use Default in simp)
next
  case (Transfer io ty h r)
  show ?thesis by (rule ok_xfer_wait [OF Transfer(2) assms(2,3)]) (use Transfer in simp)
next
  case (Free d dp r)
  show ?thesis by (rule ok_free [OF Free(3) assms(3) Free(1,2)])
qed (use assms(3) in \<open>auto dest!: same_files\<close>)

lemma steps_ok: "(sun_step e)\<^sup>*\<^sup>* s t \<Longrightarrow> honest_open (se_kernel e) \<Longrightarrow> files_ok (files s) \<Longrightarrow> files_ok (files t)"
  by (induction rule: rtranclp_induct) (auto intro: step_ok)


end
