(* ===== verification/SunRun.thy ===== *)
theory SunRun
  imports SunKeep SunLedger
begin

text \<open>
  What the Solaris backend does end to end: a bulk request through usbi_io_sync, the interface that
  loses its endpoints when another one is claimed, and the descriptors that a refresh of the bus
  forgets.
\<close>

section \<open>A bulk request\<close>

text \<open>The endpoint ep of a claimed interface whose files fd and st are open.\<close>

definition ep_open :: "addr \<Rightarrow> u8 \<Rightarrow> u8 \<Rightarrow> int \<Rightarrow> int \<Rightarrow> 'a sunos_scheme \<Rightarrow> bool" where
  "ep_open h ifc ep fd st s \<longleftrightarrow> fd > 0 \<and> st > 0 \<and> (\<exists>hv c p. l_hdev s h = Some hv \<and>
     rd (hv_claimed_ifs hv) (unat ifc) = Some c \<and> fst c \<noteq> -1 \<and> snd c \<noteq> -1 \<and> su_hdev s h = Some p \<and>
     rd (sh_ep_interface p) (usb_ep_index ep) = Some (int (unat ifc)) \<and> rd (sh_eps p) (usb_ep_index ep) = Some (fd, st))"

lemma check_open:
  "ep_open h ifc ep fd st s \<Longrightarrow> usb_check_device_and_status_open K x h ifc ep ty s = Some (0, s)"
  by (auto simp: ep_open_def usb_check_device_and_status_open_def Let_def)

text \<open>The request after a transfer of k bytes.\<close>

definition bulk_done :: "sun_answer \<Rightarrow> data_request \<Rightarrow> data_request" where
  "bulk_done a q = q\<lparr>dr_payload := map (sa_data a) [0..<nat (sa_ret a)] @ drop (nat (sa_ret a)) (dr_payload q),
     dr_status := 0, dr_transferred := of_int (sa_ret a)\<rparr>"

lemma bulk_read_run:
  assumes "io_request io s = Some r" "rq_req r = Bulk q" "l_io s io = Some y" "l_held s = {}"
    "ep_open h (rq_interface r) (rq_endpoint r) fd st s" "is_in (rq_endpoint r)"
    "dr_length q \<noteq> 0" "unat (dr_length q) \<le> length (dr_payload q)"
    "\<forall>s'. su_log s' = su_log s \<longrightarrow> K fd (SRead (unat (dr_length q))) s' = a"
    "0 \<le> sa_ret a" "sa_ret a \<le> int (unat (dr_length q))"
  shows "\<exists>u. solaris_submit_bulk L K x h io s = Some (sa_ret a, u) \<and>
    l_req u = (l_req s)(io_req y \<mapsto> r\<lparr>rq_req := Bulk (bulk_done a q)\<rparr>) \<and>
    su_log u = su_log s @ [(fd, SRead (unat (dr_length q)), sa_ret a)]"
proof -
  let ?s1 = "s\<lparr>l_held := {LkHdev h}\<rparr>"
  let ?n = "unat (dr_length q)"
  let ?s2 = "?s1\<lparr>su_log := su_log s @ [(fd, SRead ?n, sa_ret a)]\<rparr>"
  obtain hv p where h: "l_hdev s h = Some hv" "su_hdev s h = Some p" "rd (sh_eps p) (usb_ep_index (rq_endpoint r)) = Some (fd, st)"
    using assms(5) by (auto simp: ep_open_def)
  have lk: "lock_hdev h s = Some ?s1" using h assms(4) by (simp add: lock_hdev_def lock_def)
  have o: "usb_check_device_and_status_open K x h (rq_interface r) (rq_endpoint r) ty ?s1 = Some (0, ?s1)" for ty
    by (rule check_open) (use assms(5) in \<open>simp add: ep_open_def\<close>)
  have K: "K fd (SRead ?n) ?s1 = a" using assms(9) by simp
  have n: "?n \<noteq> 0" using assms(7) by (simp add: unat_eq_zero)
  have m: "min (sa_ret a) (uint (dr_length q)) = sa_ret a" using assms(11) by simp
  have "nat (sa_ret a) \<le> ?n" using assms(11) by (simp only: nat_le_iff)
  then have len: "nat (sa_ret a) \<le> length (dr_payload q)" using assms(8) by simp
  have "sun_read K fd (dr_payload q) ?n ?s1 =
      Some ((sa_ret a, map (sa_data a) [0..<nat (sa_ret a)] @ drop (nat (sa_ret a)) (dr_payload q)), ?s2)"
    using len by (simp add: sun_read_def sun_sys_def K Let_def m wrn_def)
  then have io: "ep_io L K h (rq_endpoint r) (dr_payload q) ?n False (dr_status q) ?s1 =
      Some ((sa_ret a, dr_payload (bulk_done a q), 0), ?s2)"
    using h n assms(10) by (simp add: ep_io_def usb_do_io_def bulk_done_def)
  have rq: "l_req s (io_req y) = Some r" using assms(1,3) by (simp add: io_request_def)
  show ?thesis
    using assms(1,2,6,10) lk o io h rq
    by (simp add: solaris_submit_bulk_def set_request_def assms(3) unlock_hdev_def unlock_def set_state_def bulk_done_def)
qed

text \<open>The table of all backends has one of this backend at the bus and at the device.\<close>

definition sun_table :: "sunos sun_env \<Rightarrow> (nat \<Rightarrow> sunos backend_ops) \<Rightarrow> usbi_bus \<Rightarrow> usbi_device \<Rightarrow> bool" where
  "sun_table e B b d \<longleftrightarrow> (\<exists>B' B''. B (bs_ops b) = solaris_ops e B' \<and> B (dv_ops d) = solaris_ops e B'')"

lemma ops_fields: "bo_io_pattern (solaris_ops e B) = PATTERN_SYNC" "do_xfer_wait (solaris_ops e B) = solaris_xfer_wait e"
  by (simp_all add: solaris_ops_def)

lemma start_fields:
  fixes s :: "'a sunos_scheme"
  shows "su_hdev (sync_start dev req to s) = su_hdev s" "su_log (sync_start dev req to s) = su_log s"
    "l_held (sync_start dev req to s) = l_held s" "l_req (sync_start dev req to s) = l_req s"
    "l_io (sync_start dev req to s) = (l_io s)(l_next s \<mapsto> new_io dev req to s)"
    "su_dev (sync_start dev req to s) = su_dev s"
  by (simp_all add: sync_start_def link_dev_def)

lemma start_hdev:
  "l_hdev s h = Some hv \<Longrightarrow> \<exists>hv'. l_hdev (sync_start dev req to s) h = Some hv' \<and> hv_claimed_ifs hv' = hv_claimed_ifs hv"
  by (auto simp: sync_start_def link_dev_def)

lemma start_ep_open: "ep_open h ifc ep fd st s \<Longrightarrow> ep_open h ifc ep fd st (sync_start dev req to s)"
  using start_hdev by (fastforce simp: ep_open_def start_fields)

lemma start_request:
  fixes s :: "'a sunos_scheme"
  shows "l_req s req = Some r \<Longrightarrow> io_request (l_next s) (sync_start dev req to s) = Some r"
  by (simp add: io_request_def start_fields new_io_def)

text \<open>
  C18. A bulk IN request to an endpoint whose files are open, on a handle that nothing else uses:
  usbi_io_sync makes one read of the length of the request and returns OPENUSB_SUCCESS. The bytes
  that the system delivers are at the head of the payload, whose rest stays, their number is in
  transferred and the status is 0; the rest of the library is as before.
\<close>

theorem sun_bulk_read:
  assumes "connected h d b s" "l_held s = {}" "next_free s" "\<forall>n. av n" "sun_table e B b d"
    and "l_req s req = Some r" "rq_req r = Bulk q" "rq_type r = USB_TYPE_BULK"
    and "ep_open h (rq_interface r) (rq_endpoint r) fd st s" "is_in (rq_endpoint r)"
    and "dr_length q \<noteq> 0" "unat (dr_length q) \<le> length (dr_payload q)"
    and "\<forall>s'. su_log s' = su_log s \<longrightarrow> se_kernel e fd (SRead (unat (dr_length q))) s' = a"
    and "0 \<le> sa_ret a" "sa_ret a \<le> int (unat (dr_length q))"
  shows "\<exists>t. usbi_io_sync av B others h req s = Some (OPENUSB_SUCCESS, t) \<and>
    l_req t = (l_req s)(req \<mapsto> r\<lparr>rq_req := Bulk (bulk_done a q)\<rparr>) \<and>
    su_log t = su_log s @ [(fd, SRead (unat (dr_length q)), sa_ret a)] \<and>
    lib_rest t = lib_rest s \<and> l_io t = l_io s"
proof -
  have ok: "req_ok r" using assms(7,8) by (simp add: req_ok_def)
  have B: "bo_io_pattern (B (bs_ops b)) = PATTERN_SYNC" "do_xfer_wait (B (dv_ops d)) = solaris_xfer_wait e"
    using assms(5) by (auto simp: sun_table_def ops_fields)
  show ?thesis
  proof (rule solaris_sync.io_sync_run [OF assms(1-4,6) ok B, of others])
    fix to
    assume run: "\<And>r0 u. solaris_xfer_wait e (rq_type r) h (l_next s) (sync_start h req to s) = Some (r0, u) \<Longrightarrow>
      \<exists>t. usbi_io_sync av B others h req s = Some (if r0 < 0 then r0 else OPENUSB_SUCCESS, t) \<and>
        lib_rest t = lib_rest s \<and> l_io t = l_io s \<and> l_req t = l_req u \<and> lib.more t = lib.more u"
    have "\<exists>u. solaris_submit_bulk (se_lc e) (se_kernel e) (se_one_xfer e) h (l_next s) (sync_start h req to s) = Some (sa_ret a, u) \<and>
      l_req u = (l_req s)(req \<mapsto> r\<lparr>rq_req := Bulk (bulk_done a q)\<rparr>) \<and>
      su_log u = su_log s @ [(fd, SRead (unat (dr_length q)), sa_ret a)]"
      using bulk_read_run [OF start_request [OF assms(6)] assms(7) _ _ start_ep_open [OF assms(9)] assms(10-12) _ assms(14,15),
          where K = "se_kernel e" and y = "new_io h req to s"] assms(2,13)
      by (simp add: start_fields)
    then obtain u where u: "solaris_xfer_wait e (rq_type r) h (l_next s) (sync_start h req to s) = Some (sa_ret a, u)"
      "l_req u = (l_req s)(req \<mapsto> r\<lparr>rq_req := Bulk (bulk_done a q)\<rparr>)"
      "su_log u = su_log s @ [(fd, SRead (unat (dr_length q)), sa_ret a)]"
      by (auto simp: solaris_xfer_wait_def assms(8) usb_types)
    from run [OF u(1)] assms(14) obtain t where t: "usbi_io_sync av B others h req s = Some (OPENUSB_SUCCESS, t)"
      "lib_rest t = lib_rest s" "l_io t = l_io s" "l_req t = l_req u" "lib.more t = lib.more u"
      by auto
    have "su_log t = su_log u" using t(5) by (cases t, cases u) simp
    then have "l_req t = (l_req s)(req \<mapsto> r\<lparr>rq_req := Bulk (bulk_done a q)\<rparr>) \<and>
        su_log t = su_log s @ [(fd, SRead (unat (dr_length q)), sa_ret a)]"
      by (simp only: t(4) u(2,3))
    then show ?thesis using t(1-3) by blast
  qed
qed

section \<open>A status that is in no entry\<close>

text \<open>
  The status of a failed transfer is one of those of the table, or the loop leaves the table: the
  13 other codes that sunos_usb_get_status prints, and the -1 that it returns when the status
  cannot be read.
\<close>

lemma unlisted_status: "\<forall>l. L l \<noteq> c \<Longrightarrow> ugen_lc2libstat L c = None"
  by (simp add: ugen_lc2libstat_def ugen_lc2libstat_table_def Let_def)

section \<open>A second interface\<close>

text \<open>usb_set_ep_iface_alts clears ep_interface before it enters the endpoints of one interface.\<close>

lemma ep_ifaces_only:
  "ep_ifaces ifc eps is m = Some m' \<Longrightarrow> set m \<subseteq> {-1, ifc} \<Longrightarrow> set m' \<subseteq> {-1, ifc} \<and> length m' = length m"
proof (induction "is" arbitrary: m)
  case (Cons i "is")
  from Cons.prems(1) obtain n m1 where w: "wr m n ifc = Some m1" and rest: "ep_ifaces ifc eps is m1 = Some m'"
    by (auto elim!: bind_SomeE)
  then have "set m1 \<subseteq> insert ifc (set m)" "length m1 = length m"
    by (auto simp: wr_def split: if_split_asm dest: set_update_subset_insert [THEN subsetD])
  then show ?case using Cons.IH [OF rest] Cons.prems(2) by auto
qed simp

lemma alts_only:
  assumes "usb_set_ep_iface_alts h n i a s = Some t"
  shows "\<exists>p. su_hdev t h = Some p \<and> set (sh_ep_interface p) \<subseteq> {-1, int i} \<and>
    length (sh_ep_interface p) = USBI_MAXENDPOINTS \<and> l_hdev t = l_hdev s"
  using assms unfolding usb_set_ep_iface_alts_def
  by (auto elim!: bind_SomeE dest!: ep_ifaces_only split: if_split_asm)

text \<open>
  C39. On Solaris a handle can use the endpoints of one interface only: when it claims a second
  one, a bulk request to any endpoint of the first, which it still holds, is refused with
  OPENUSB_NOACCESS and nothing is sent.
\<close>

theorem second_claim_denied:
  assumes "solaris_claim_interface h j fl s = Some (OPENUSB_SUCCESS, t)" "su_dev s (hv_idev hv) = Some dp"
    and "l_hdev s h = Some hv" "rd (sd_claimed dp) (unat j) = Some 0" "h \<noteq> 0" "i \<noteq> j"
    and "rd (hv_claimed_ifs hv) (unat i) = Some c" "l_held t = {}"
    and "io_request io t = Some r" "rq_req r = Bulk q" "rq_interface r = i"
  shows "solaris_submit_bulk L K x h io t = Some (OPENUSB_NOACCESS, t)"
proof -
  from assms(1-5) obtain s1 s2 n where cl: "set_claim h j (USBI_IFC_CLAIMED, 0) s = Some s1"
    and ow: "set_owner (hv_idev hv) j h s1 = Some s2" and al: "usb_set_ep_iface_alts h n (unat j) 0 s2 = Some t"
    by (auto simp: solaris_claim_interface_def OPENUSB_SUCCESS_def OPENUSB_BUSY_def elim!: bind_SomeE split: if_split_asm)
  have ij: "unat j \<noteq> unat i" using assms(6) by (metis unsigned_word_eqI)
  obtain hv1 where h1: "l_hdev s1 h = Some hv1" "rd (hv_claimed_ifs hv1) (unat i) = Some c"
    using cl assms(3,7) ij
    by (auto simp: set_claim_def wr_def rd_def elim!: bind_SomeE split: if_split_asm)
  have "l_hdev s2 = l_hdev s1" using ow by (auto simp: set_owner_def elim!: bind_SomeE)
  with alts_only [OF al] h1 obtain p where p: "su_hdev t h = Some p" "set (sh_ep_interface p) \<subseteq> {-1, int (unat j)}"
      "length (sh_ep_interface p) = USBI_MAXENDPOINTS"
    and ht: "l_hdev t h = Some hv1" by auto
  let ?e = "sh_ep_interface p ! usb_ep_index (rq_endpoint r)"
  have len: "usb_ep_index (rq_endpoint r) < length (sh_ep_interface p)" using p(3) usb_ep_index_less by simp
  then have "?e = -1 \<or> ?e = int (unat j)" using p(2) nth_mem by fastforce
  moreover have "int (unat i) \<noteq> int (unat j)" using ij by (simp only: of_nat_eq_iff)
  moreover have "int (unat i) \<noteq> -1" using of_nat_0_le_iff [of "unat i"] by linarith
  ultimately have ne: "int (unat i) \<noteq> ?e" by metis
  let ?t = "t\<lparr>l_held := {LkHdev h}\<rparr>"
  have lk: "lock_hdev h t = Some ?t" using ht assms(8) by (simp add: lock_hdev_def lock_def)
  have "usb_check_device_and_status_open K x h i (rq_endpoint r) ty ?t = Some (EACCES, ?t)" for ty
    using ne ht h1(2) p(1) len by (simp add: usb_check_device_and_status_open_def rd_Some Let_def)
  then show ?thesis using assms(8-11) lk ht
    by (simp add: solaris_submit_bulk_def EACCES_def unlock_hdev_def unlock_def)
qed

section \<open>A refresh while a device is open\<close>

lemma files_link: "check_devlink av idev m l s = Some (r, t) \<Longrightarrow> files t = files s"
  unfolding check_devlink_def Let_def
  by (auto simp: files_def open_fds_def fun_eq_iff elim!: bind_SomeE split: if_split_asm option.split_asm prod.split_asm
      dest!: files_fresh)

lemma files_links: "devlink_walk av idev m ls s = Some t \<Longrightarrow> files t = files s"
  by (induction ls arbitrary: s) (auto elim!: bind_SomeE split: if_split_asm dest!: files_link)

lemma files_minors: "get_minor_node_link av idev ms s = Some t \<Longrightarrow> files t = files s"
  by (induction ms arbitrary: s) (auto elim!: bind_SomeE dest!: files_links)

lemma files_ports: "node_ports av idev new p s = Some (r, t) \<Longrightarrow> files t = files s"
  unfolding node_ports_def Let_def
  by (auto simp: files_def open_fds_def fresh_def elim!: bind_SomeE split: if_split_asm option.split_asm list.split_asm)

text \<open>
  C40. sunos_create_new_device, which every refresh of a bus runs for each of its nodes, ends by
  setting the two descriptors of endpoint 0 to -1, for a device it knew as for a new one. When a
  handle of the device is open, they stay open and are in no slot any more: the last close does
  not close them, and the next open opens the files again.
\<close>

theorem refresh_loses_ep0:
  fixes s :: "'a sunos_scheme"
  assumes "files_ok (files s)" "find_device_by_syspath (dn_path p) s = Some idev" "idev \<noteq> 0"
    and "su_dev s idev = Some dp" "sd_ep0_fd dp > 0"
    and "create_node av ibus pdev p s = Some (idev, t)"
  shows "open_fds t = open_fds s \<and> sd_ep0_fd dp \<in> set (open_fds t) \<and>
    (\<exists>dp'. su_dev t idev = Some dp' \<and> sd_ep0_fd dp' = -1) \<and> \<not> files_ok (files t)"
proof -
  obtain E D F where F: "files s = (E, D, F)" by (cases "files s") auto
  have "\<exists>(u :: 'a sunos_scheme) dp'. su_dev u idev = Some dp' \<and> files u = files s \<and>
      su_dev t = (su_dev u)(idev \<mapsto> dp'\<lparr>sd_ep0_fd := -1, sd_ep0_fd_stat := -1\<rparr>) \<and>
      su_hdev t = su_hdev u \<and> su_log t = su_log u"
    using assms(2,3,6)
    by (auto simp: create_node_def node_device_def Let_def elim!: bind_SomeE
        split: if_split_asm option.split_asm prod.split_asm dest!: files_ports files_minors) blast+
  then obtain u :: "'a sunos_scheme" and dp' where u: "su_dev u idev = Some dp'" "files u = files s"
    and t: "su_dev t = (su_dev u)(idev \<mapsto> dp'\<lparr>sd_ep0_fd := -1, sd_ep0_fd_stat := -1\<rparr>)"
      "su_hdev t = su_hdev u" "su_log t = su_log u" by blast
  have D: "D idev = Some (sd_ep0_fd dp, sd_ep0_fd_stat dp)" by (rule files_ep0(1) [OF F assms(4)])
  then have slot: "slot_fd E D (Ep0Slot idev False) = Some (sd_ep0_fd dp)" using assms(5) by (simp add: live_fd_def)
  have ow: "owned_by (slot_fd E D) F" using assms(1) F by simp
  then have mem: "sd_ep0_fd dp \<in> set F" using ranI [of "slot_fd E D" "Ep0Slot idev False"] slot by (simp add: owned_by_def del: slot_fd.simps)
  have op: "open_fds t = open_fds s" "open_fds s = F" using u(2) F t(3) by (auto simp: files_def open_fds_def)
  let ?u = "u\<lparr>su_dev := (su_dev u)(idev \<mapsto> dp'\<lparr>sd_ep0_fd := -1, sd_ep0_fd_stat := -1\<rparr>)\<rparr>"
  have "files t = files ?u" by (simp add: files_def open_fds_def t)
  also have "... = (E, D(idev \<mapsto> (-1, -1)), F)" using files_ep0(2) [of u E D F idev dp'] u F by simp
  finally have ft: "files t = (E, D(idev \<mapsto> (-1, -1)), F)" .
  have "slot_fd E (D(idev \<mapsto> (-1, -1))) x \<noteq> Some (sd_ep0_fd dp)" for x
  proof
    assume x: "slot_fd E (D(idev \<mapsto> (-1, -1))) x = Some (sd_ep0_fd dp)"
    then have "slot_fd E D x = Some (sd_ep0_fd dp)" "x \<noteq> Ep0Slot idev False" unfolding slot_fd_ep0 by (auto split: if_split_asm)
    then have "x = Ep0Slot idev False" using ow slot by (metis owned_by_def inj_onD domI)
    with \<open>x \<noteq> Ep0Slot idev False\<close> show False by simp
  qed
  then have "sd_ep0_fd dp \<notin> ran (slot_fd E (D(idev \<mapsto> (-1, -1))))" by (auto simp: ran_def)
  then have "\<not> files_ok (files t)" using mem by (auto simp: ft owned_by_def)
  then show ?thesis using op mem t(1) by simp
qed

end
