(* ===== verification/SunCases.thy ===== *)
theory SunCases
  imports ReqCases SunRun
begin

text \<open>
  The theorems on the Solaris backend on an instance: the open device handle (at 10) of ReqCases on
  the device at 6, and a system whose open gives the number after the largest one in use.
\<close>

section \<open>The instance\<close>

definition sx_fresh :: "int list \<Rightarrow> int" where "sx_fresh fds = foldr max fds 0 + 1"

definition sx_kernel :: "sunos sun_kernel" where
  "sx_kernel fd c s = (case c of
     SOpen path mode \<Rightarrow> \<lparr>sa_ret = sx_fresh (open_fds s), sa_errno = 0, sa_data = \<lambda>_. 0, sa_status = 0\<rparr>
   | SRead n \<Rightarrow> \<lparr>sa_ret = 1, sa_errno = 0, sa_data = \<lambda>_. 7, sa_status = 0\<rparr>
   | _ \<Rightarrow> \<lparr>sa_ret = 0, sa_errno = 0, sa_data = \<lambda>_. 0, sa_status = 0\<rparr>)"

lemma sx_fresh_above: "0 < sx_fresh fds \<and> (\<forall>fd\<in>set fds. fd < sx_fresh fds)"
proof -
  have "0 \<le> foldr max fds 0 \<and> (\<forall>fd\<in>set fds. fd \<le> foldr max fds 0)" by (induction fds) auto
  then show ?thesis by (auto simp: sx_fresh_def)
qed

lemma sx_honest: "honest_open sx_kernel"
  using sx_fresh_above by (fastforce simp: honest_open_def sx_kernel_def Let_def)

definition sx_env :: "sunos sun_env" where
  "sx_env = \<lparr>se_alloc = \<lambda>_. True, se_memory = \<lambda>_. True, se_big_endian = False, se_others = Some,
     se_junk = \<lparr>jk_buf = [], jk_cfg_desc = zero_config_desc, jk_if_desc = zero_interface_desc, jk_ep_desc = zero_endpoint_desc\<rparr>,
     se_locals = \<lparr>lo_header = ex_header, lo_devbuf = [], lo_buf = [], lo_cfg_desc = zero_config_desc\<rparr>,
     se_byte = 0, se_kernel = sx_kernel, se_lc = (\<lambda>l. case l of LC_STALL \<Rightarrow> 1 | _ \<Rightarrow> 0), se_one_xfer = 1, se_join = \<lambda>_. Some,
     se_mutex_init = 0, se_cond_init = 0, se_thread = 0, se_hotplug_join = Some, se_root = None, se_walk_fails = False,
     se_tree = \<lambda>_. None, se_links = True, se_info = \<lparr>di_init_ok = \<lambda>_. False, di_bytes = \<lambda>_ _. None\<rparr>,
     se_walk_continue = 0, se_buffer = [], se_buflen = 0\<rparr>"

definition sx_dev :: sun_dev where
  "sx_dev = sun_zero_dev\<lparr>sd_ugenpath := Some ''/dev/usb/u'', sd_ep0_fd := -1, sd_ep0_fd_stat := -1\<rparr>"

text \<open>The device has two interfaces, each with one setting that has no endpoint.\<close>

definition sx_setting :: usbi_altsetting where
  "sx_setting = \<lparr>as_desc = zero_interface_desc, as_num_endpoints = 0, as_endpoints = Null, as_extra = Null, as_extralen = 0\<rparr>"

definition sx_config :: usbi_config where
  "sx_config = \<lparr>cf_desc = zero_config_desc, cf_num_interfaces = 2,
     cf_interfaces = Ptr (replicate 2 \<lparr>if_num_altsettings = 1, if_altsettings = Ptr [sx_setting]\<rparr>), cf_extra = Null, cf_extralen = 0\<rparr>"

definition sx_device :: usbi_device where
  "sx_device = (ex_dev 1)\<lparr>dv_sys_path := ''/devices/pci/device'',
     dv_desc := (dv_desc (ex_dev 1))\<lparr>ds_num_configs := 1, ds_configs := Ptr [sx_config]\<rparr>\<rparr>"

definition sx_req :: openusb_request_handle where
  "sx_req = ex_req\<lparr>rq_endpoint := 0x82\<rparr>"

definition sx_state :: "sun_hdl option \<Rightarrow> sun_dev \<Rightarrow> sunos" where
  "sx_state p dp = lib.extend (ex_ready\<lparr>l_io := Map.empty, l_req := [11 \<mapsto> sx_req], l_dev := [6 \<mapsto> sx_device]\<rparr>)
     (sunos.fields (Map.empty(10 := p)) [6 \<mapsto> dp] Map.empty {6} Map.empty (\<lambda>_. 0) 1 1 [])"

lemma sx_fields [simp]:
  "l_held (sx_state p dp) = {}" "l_io (sx_state p dp) = Map.empty" "l_req (sx_state p dp) = [11 \<mapsto> sx_req]"
  "l_sio (sx_state p dp) = Map.empty" "l_hdev (sx_state p dp) = [10 \<mapsto> ex_claimed]" "l_next (sx_state p dp) = 20"
  "l_hdl (sx_state p dp) = [5 \<mapsto> ex_hdl]" "l_bus (sx_state p dp) = [1 \<mapsto> ex_bus64]" "l_dev (sx_state p dp) = [6 \<mapsto> sx_device]"
  "l_devices (sx_state p dp) = [6]" "su_hdev (sx_state p dp) = Map.empty(10 := p)" "su_dev (sx_state p dp) = [6 \<mapsto> dp]"
  "su_log (sx_state p dp) = []"
  by (simp_all add: sx_state_def lib.defs sunos.defs ex_ready_def ex_open_def)

lemma sx_env_fields [simp]: "se_alloc sx_env = (\<lambda>_. True)" "se_kernel sx_env = sx_kernel"
  by (simp_all add: sx_env_def)

lemma sx_dev_fields [simp]: "sd_ep0_fd sx_dev = -1" "sd_ep0_fd_stat sx_dev = -1" "sd_ugenpath sx_dev = Some ''/dev/usb/u''"
  by (simp_all add: sx_dev_def)

lemma sx_claimed [simp]: "hv_idev ex_claimed = 6" "hv_lib_hdl ex_claimed = 5"
  by (simp_all add: ex_claimed_def ex_handle_def ex_hdev_def)

section \<open>Descriptors\<close>

lemma sx_open:
  "\<exists>t. solaris_open (\<lambda>_. True) sx_kernel 10 (sx_state None sx_dev) = Some (OPENUSB_SUCCESS, t) \<and> open_fds t = [1, 2]"
  by (simp add: solaris_open_def usb_open_ep0_def open_ep0_files_def fresh_def sun_open_file_def sun_sys_def sx_kernel_def
      open_fds_def sx_fresh_def set_ep_def wr_def set_cur_config_def new_sun_hdl_def USBI_MAXENDPOINTS_def)


section \<open>A bulk request\<close>

definition sx_hdl :: "int \<Rightarrow> int \<Rightarrow> sun_hdl" where
  "sx_hdl a b = \<lparr>sh_eps = (replicate 32 (-1, -1))[0 := (1, 2), 18 := (a, b)], sh_epflags = replicate 32 False,
     sh_ep_interface = (replicate 32 (-1))[18 := 0]\<rparr>"

definition sx_opened :: sun_dev where
  "sx_opened = sx_dev\<lparr>sd_ep0_fd := 1, sd_ep0_fd_stat := 2, sd_ref_count := 1\<rparr>"

lemma sx_ready:
  "connected 10 sx_device ex_bus64 (sx_state p dp)" "next_free (sx_state p dp)"
  by (auto simp: connected_def next_free_def unlinked_def ex_hdl_def ex_claimed_def ex_handle_def ex_hdev_def sx_device_def ex_dev_def)

lemma sx_ep: "ep_open 10 0 0x82 3 4 (sx_state (Some (sx_hdl 3 4)) sx_opened)"
  by (simp add: ep_open_def sx_hdl_def ex_claimed_def rd_def usb_ep_index_def ep_number_def is_in_def)

definition sx_table :: "nat \<Rightarrow> sunos backend_ops" where
  "sx_table n = solaris_ops sx_env (\<lambda>_. undefined)"

definition sx_answer :: sun_answer where
  "sx_answer = \<lparr>sa_ret = 1, sa_errno = 0, sa_data = \<lambda>_. 7, sa_status = 0\<rparr>"

text \<open>One byte of two arrives.\<close>

lemma sun_bulk_read_witness:
  "\<exists>t. usbi_io_sync (\<lambda>_. True) sx_table (\<lambda>_. None) 10 11 (sx_state (Some (sx_hdl 3 4)) sx_opened) = Some (OPENUSB_SUCCESS, t) \<and>
     map_option rq_req (l_req t 11) = Some (Bulk (ex_data\<lparr>dr_payload := [7, 2], dr_transferred := 1\<rparr>)) \<and>
     su_log t = [(3, SRead 2, 1)]"
proof -
  have f: "rq_req sx_req = Bulk ex_data" "rq_type sx_req = USB_TYPE_BULK" "rq_interface sx_req = 0" "rq_endpoint sx_req = 0x82"
    by (simp_all add: sx_req_def ex_req_def)
  have k: "sx_kernel 3 (SRead n) s' = sx_answer" for n s' by (simp add: sx_kernel_def sx_answer_def)
  have b: "bulk_done sx_answer ex_data = ex_data\<lparr>dr_payload := [7, 2], dr_transferred := 1\<rparr>"
    by (simp add: bulk_done_def sx_answer_def ex_data_def)
  have tab: "sun_table sx_env sx_table ex_bus64 sx_device" by (auto simp: sun_table_def sx_table_def)
  have n: "unat (dr_length ex_data) = 2" "dr_length ex_data \<noteq> 0" "length (dr_payload ex_data) = 2"
    by (simp_all add: ex_data_def)
  have a: "sa_ret sx_answer = 1" by (simp add: sx_answer_def)
  obtain t where "usbi_io_sync (\<lambda>_. True) sx_table (\<lambda>_. None) 10 11 (sx_state (Some (sx_hdl 3 4)) sx_opened) =
      Some (OPENUSB_SUCCESS, t)" "l_req t = [11 \<mapsto> sx_req\<lparr>rq_req := Bulk (bulk_done sx_answer ex_data)\<rparr>]"
      "su_log t = [(3, SRead 2, 1)]"
    using sun_bulk_read [of 10 sx_device ex_bus64 "sx_state (Some (sx_hdl 3 4)) sx_opened" "\<lambda>_. True" sx_env sx_table 11
        sx_req ex_data 3 4 sx_answer "\<lambda>_. None"] sx_ep sx_ready tab
    by (auto simp: f k n a is_in_def)
  then show ?thesis by (simp add: b)
qed

section \<open>A second interface, a refresh\<close>

definition sx_busy :: sunos where
  "sx_busy = (sx_state (Some (sx_hdl 3 4)) sx_opened)\<lparr>l_io := [12 \<mapsto> ex_io]\<rparr>"

lemma sx_two:
  "\<exists>t. solaris_claim_interface 10 1 0 sx_busy = Some (OPENUSB_SUCCESS, t) \<and>
     l_held t = {} \<and> io_request 12 t = Some sx_req"
  by (simp add: sx_busy_def solaris_claim_interface_def set_claim_def set_owner_def usb_set_ep_iface_alts_def sx_opened_def
      sx_dev_def sun_zero_dev_def rd_def wr_def pidx_def deref_def sx_device_def ex_dev_def sx_config_def sx_setting_def
      zero_interface_desc_def USBI_MAXINTERFACES_def ex_claimed_def ex_handle_def ex_hdev_def io_request_def ex_io_def)

lemma second_claim_denied_witness:
  "\<exists>t. solaris_claim_interface 10 1 0 sx_busy = Some (OPENUSB_SUCCESS, t) \<and>
     solaris_submit_bulk (\<lambda>_. 0) sx_kernel 1 10 12 t = Some (OPENUSB_NOACCESS, t)"
proof -
  obtain t where t: "solaris_claim_interface 10 1 0 sx_busy = Some (OPENUSB_SUCCESS, t)" "l_held t = {}"
    "io_request 12 t = Some sx_req" using sx_two by blast
  have "rq_req sx_req = Bulk ex_data" "rq_interface sx_req = 0" by (simp_all add: sx_req_def ex_req_def)
  then show ?thesis
    using second_claim_denied [OF t(1), of ex_claimed sx_opened 0 "(1, 0)" 12 sx_req ex_data "\<lambda>_. 0" sx_kernel 1] t
    by (simp add: sx_busy_def sx_opened_def sx_dev_def sun_zero_dev_def rd_def USBI_MAXINTERFACES_def ex_claimed_def
        ex_handle_def ex_hdev_def)
qed

definition sx_node :: di_props where
  "sx_node = \<lparr>dn_path = ''/pci/device'', dn_assigned_address = None, dn_reg = None, dn_port_count = None, dn_minors = []\<rparr>"

lemma sx_again:
  "\<exists>t u dp. solaris_open (\<lambda>_. True) sx_kernel 10 (sx_state None sx_dev) = Some (OPENUSB_SUCCESS, t) \<and>
     find_device_by_syspath ''/pci/device'' t = Some 6 \<and> su_dev t 6 = Some dp \<and> sd_ep0_fd dp = 1 \<and>
     create_node (\<lambda>_. True) 1 0 sx_node t = Some (6, u)"
  by (simp add: solaris_open_def usb_open_ep0_def open_ep0_files_def fresh_def sun_open_file_def sun_sys_def sx_kernel_def
      open_fds_def sx_fresh_def set_ep_def wr_def set_cur_config_def new_sun_hdl_def USBI_MAXENDPOINTS_def
      find_device_by_syspath_def sx_device_def SUN_PATH_MAX_def create_node_def node_device_def node_place_def node_ports_def sx_node_def)

lemma refresh_loses_ep0_witness:
  "\<exists>t u. solaris_open (\<lambda>_. True) sx_kernel 10 (sx_state None sx_dev) = Some (OPENUSB_SUCCESS, t) \<and>
     create_node (\<lambda>_. True) 1 0 sx_node t = Some (6, u) \<and> 1 \<in> set (open_fds u) \<and> \<not> files_ok (files u)"
proof -
  obtain t u dp where t: "solaris_open (\<lambda>_. True) sx_kernel 10 (sx_state None sx_dev) = Some (OPENUSB_SUCCESS, t)"
    "find_device_by_syspath ''/pci/device'' t = Some 6" "su_dev t 6 = Some dp" "sd_ep0_fd dp = 1"
    "create_node (\<lambda>_. True) 1 0 sx_node t = Some (6, u)" using sx_again by blast
  have "files_ok (files (sx_state None sx_dev))"
  proof -
    have "files (sx_state None sx_dev) = (Map.empty, [6 \<mapsto> (-1, -1)], [])" by (auto simp: files_def open_fds_def)
    moreover have "slot_fd Map.empty [6 \<mapsto> (-1, -1)] = Map.empty" by (rule no_slots) (simp split: if_split_asm)
    ultimately show ?thesis by (auto simp: owned_by_def paired_def)
  qed
  from ok_solaris_open [OF t(1) sx_honest this] have "files_ok (files t)" by simp
  from refresh_loses_ep0 [OF this, of sx_node 6 dp "\<lambda>_. True" 1 0 u] t show ?thesis by (auto simp: sx_node_def)
qed

end
